(* ===== verification/Js_Values.thy ===== *)
theory Js_Values
  imports Prelude
begin

text \<open>
  JavaScript values as the code sees them: strings as sequences of UTF-16 code units, numbers,
  arrays, objects with their own enumerable properties in property order, and the character
  classes of the code's regular expressions.

  Values are finite trees: a cyclic object has no representation here. Property order is the
  order of the association list. The host errors of too deep a recursion or exhausted memory
  are not modelled.
\<close>

section \<open>Strings\<close>

text \<open>A code unit is what \<open>charCodeAt\<close> returns; \<open>lit\<close> writes an ASCII literal of the source.\<close>

type_synonym cu = "16 word"
type_synonym jstr = "cu list"
type_synonym byte = "8 word"

definition lit :: "string \<Rightarrow> jstr" where
  "lit s = map of_char s"

lemma unat_of_char_cu [simp]: "unat (of_char c :: cu) = of_char c"
proof -
  have "(of_char c :: nat) < 65536"
    using nat_of_char_less_256 [of c] by (rule less_trans) simp
  then have "unat (of_nat (of_char c) :: cu) = of_char c"
    by (simp add: unat_of_nat)
  then show ?thesis by (simp add: of_nat_of_char)
qed

lemma of_char_cu_inject: "(of_char c :: cu) = of_char d \<longleftrightarrow> c = d"
  by (simp add: word_unat_eq_iff)

lemma lit_inject [simp]: "lit s = lit t \<longleftrightarrow> s = t"
  using inj_map_eq_map [of "of_char :: char \<Rightarrow> cu" s t]
  by (simp add: lit_def inj_def of_char_cu_inject)

lemma lit_Nil [simp]: "lit [] = []"
  by (simp add: lit_def)

lemma lit_eq_Nil [simp]: "lit s = [] \<longleftrightarrow> s = []" "[] = lit s \<longleftrightarrow> s = []"
  by (auto simp: lit_def)

lemma lit_append: "lit (s @ t) = lit s @ lit t"
  by (simp add: lit_def)

lemma take_lit [simp]: "take n (lit s) = lit (take n s)"
  by (simp add: lit_def take_map)

lemma drop_lit [simp]: "drop n (lit s) = lit (drop n s)"
  by (simp add: lit_def drop_map)

lemma length_lit [simp]: "length (lit s) = length s"
  by (simp add: lit_def)

text \<open>Character classes of the regular expressions.\<close>

definition between :: "char \<Rightarrow> char \<Rightarrow> cu \<Rightarrow> bool" where
  "between a b c \<longleftrightarrow> of_char a \<le> c \<and> c \<le> of_char b"

definition is_digit :: "cu \<Rightarrow> bool" where
  "is_digit c \<longleftrightarrow> between CHR ''0'' CHR ''9'' c"

definition is_lower_hex :: "cu \<Rightarrow> bool" where
  "is_lower_hex c \<longleftrightarrow> is_digit c \<or> between CHR ''a'' CHR ''f'' c"

definition is_hex :: "cu \<Rightarrow> bool" where
  "is_hex c \<longleftrightarrow> is_lower_hex c \<or> between CHR ''A'' CHR ''F'' c"

definition is_lower :: "cu \<Rightarrow> bool" where
  "is_lower c \<longleftrightarrow> between CHR ''a'' CHR ''z'' c"

definition is_upper :: "cu \<Rightarrow> bool" where
  "is_upper c \<longleftrightarrow> between CHR ''A'' CHR ''Z'' c"

definition is_name_start :: "cu \<Rightarrow> bool" where
  "is_name_start c \<longleftrightarrow> is_upper c \<or> is_lower c \<or> c = of_char CHR ''_''"

definition is_name_char :: "cu \<Rightarrow> bool" where
  "is_name_char c \<longleftrightarrow> is_name_start c \<or> is_digit c"

lemmas class_defs = between_def is_digit_def is_lower_hex_def is_hex_def is_lower_def is_upper_def
  is_name_start_def is_name_char_def

text \<open>The tests \<open>/^[0-9a-f]{64}$/\<close> and \<open>/^[0-9a-fA-F]{64}$/\<close> that occur all over the code.\<close>

definition hash64 :: "jstr \<Rightarrow> bool" where
  "hash64 s \<longleftrightarrow> length s = 64 \<and> list_all is_lower_hex s"

definition hash64_any :: "jstr \<Rightarrow> bool" where
  "hash64_any s \<longleftrightarrow> length s = 64 \<and> list_all is_hex s"

lemma hash64_imp_any: "hash64 s \<Longrightarrow> hash64_any s"
  by (auto simp: hash64_def hash64_any_def is_hex_def list_all_iff)

section \<open>Case conversion\<close>

text \<open>
  \<open>toLowerCase\<close> and \<open>toUpperCase\<close> on ASCII. The code applies them to strings that a hexadecimal
  test constrains before or after; no other character maps into or out of the hexadecimal
  digits, so the ASCII part decides every such test.
\<close>

definition lower_cu :: "cu \<Rightarrow> cu" where
  "lower_cu c = (if is_upper c then c + 32 else c)"

definition upper_cu :: "cu \<Rightarrow> cu" where
  "upper_cu c = (if is_lower c then c - 32 else c)"

definition to_lower :: "jstr \<Rightarrow> jstr" where
  "to_lower s = map lower_cu s"

definition to_upper :: "jstr \<Rightarrow> jstr" where
  "to_upper s = map upper_cu s"

lemma length_to_lower [simp]: "length (to_lower s) = length s"
  by (simp add: to_lower_def)

lemma length_to_upper [simp]: "length (to_upper s) = length s"
  by (simp add: to_upper_def)

lemma to_lower_append: "to_lower (s @ t) = to_lower s @ to_lower t"
  by (simp add: to_lower_def)

lemma cu_add32: "is_upper c \<Longrightarrow> unat (c + 32) = unat c + 32"
  by (subst unat_add_lem [THEN iffD1]) (auto simp: class_defs word_le_nat_alt)

lemma cu_sub32: "is_lower c \<Longrightarrow> unat (c - 32) = unat c - 32"
  by (subst unat_sub) (auto simp: class_defs word_le_nat_alt)

lemma lower_cu_unat: "unat (lower_cu c) = (if is_upper c then unat c + 32 else unat c)"
  by (simp add: lower_cu_def cu_add32)

lemma upper_cu_unat: "unat (upper_cu c) = (if is_lower c then unat c - 32 else unat c)"
  by (simp add: upper_cu_def cu_sub32)

lemma between_unat: "between a b c \<longleftrightarrow> of_char a \<le> unat c \<and> unat c \<le> of_char b"
  by (simp add: between_def word_le_nat_alt)

lemmas class_unat = is_digit_def is_lower_hex_def is_hex_def is_lower_def is_upper_def
  is_name_start_def is_name_char_def between_unat

lemma lower_cu_idem [simp]: "lower_cu (lower_cu c) = lower_cu c"
proof -
  have "\<not> is_upper (lower_cu c)"
    by (auto simp: class_unat lower_cu_unat split: if_splits)
  then show ?thesis by (simp add: lower_cu_def)
qed

lemma to_lower_idem [simp]: "to_lower (to_lower s) = to_lower s"
  by (simp add: to_lower_def)

lemma upper_cu_idem [simp]: "upper_cu (upper_cu c) = upper_cu c"
proof -
  have "\<not> is_lower (upper_cu c)"
    by (auto simp: class_unat upper_cu_unat split: if_splits)
  then show ?thesis by (simp add: upper_cu_def)
qed

lemma to_upper_idem [simp]: "to_upper (to_upper s) = to_upper s"
  by (simp add: to_upper_def)

lemma lower_hex_lower: "is_lower_hex c \<Longrightarrow> lower_cu c = c"
  by (auto simp: class_unat lower_cu_def)

lemma hex_lower: "is_hex c \<Longrightarrow> is_lower_hex (lower_cu c)"
  by (auto simp: class_unat lower_cu_unat)

lemma lower_hex_upper: "is_lower_hex c \<Longrightarrow> is_hex (upper_cu c) \<and> lower_cu (upper_cu c) = c"
proof -
  assume a: "is_lower_hex c"
  have h: "is_hex (upper_cu c)"
    using a by (auto simp: class_unat upper_cu_unat)
  have "unat (lower_cu (upper_cu c)) = unat c"
    using a by (auto simp: class_unat lower_cu_unat upper_cu_unat)
  then show ?thesis using h by (simp add: word_unat_eq_iff)
qed

lemma hash64_lower: "hash64 s \<Longrightarrow> to_lower s = s"
  by (auto simp: hash64_def to_lower_def list_all_iff lower_hex_lower intro: map_idI)

lemma hash64_any_lower: "hash64_any s \<Longrightarrow> hash64 (to_lower s)"
  by (auto simp: hash64_def hash64_any_def to_lower_def list_all_iff hex_lower)

lemma hash64_upper: "hash64 s \<Longrightarrow> hash64_any (to_upper s) \<and> to_lower (to_upper s) = s"
  by (auto simp: hash64_def hash64_any_def to_lower_def to_upper_def list_all_iff lower_hex_upper
      intro: map_idI)

lemma hex_upper: "is_hex c \<Longrightarrow> is_hex (upper_cu c)"
  by (auto simp: class_unat upper_cu_unat)

lemma hash64_any_upper: "hash64_any s \<Longrightarrow> hash64_any (to_upper s)"
  by (auto simp: hash64_any_def to_upper_def list_all_iff hex_upper)

section \<open>Decimal numerals\<close>

text \<open>
  \<open>String(n)\<close> of a natural number and the value of a string of digits (\<open>BigInt(s)\<close>,
  \<open>Number(s)\<close> of a safe integer).
\<close>

definition digit_cu :: "nat \<Rightarrow> cu" where
  "digit_cu d = of_char CHR ''0'' + of_nat d"

fun dec_str :: "nat \<Rightarrow> jstr" where
  "dec_str n = (if n < 10 then [digit_cu n] else dec_str (n div 10) @ [digit_cu (n mod 10)])"

declare dec_str.simps [simp del]

definition dec_value :: "jstr \<Rightarrow> nat" where
  "dec_value s = foldl (\<lambda>v c. 10 * v + (unat c - 48)) 0 s"

lemma unat_digit_cu: "d < 10 \<Longrightarrow> unat (digit_cu d) = 48 + d"
proof -
  assume d: "d < 10"
  have "digit_cu d = of_nat (48 + d)" by (simp add: digit_cu_def)
  then have "unat (digit_cu d) = unat (of_nat (48 + d) :: cu)" by (rule arg_cong)
  with d show ?thesis by (simp add: unat_of_nat del: of_nat_add)
qed

lemma is_digit_digit_cu: "d < 10 \<Longrightarrow> is_digit (digit_cu d)"
  by (simp add: class_unat unat_digit_cu)

lemma digit_cu_of: "is_digit c \<Longrightarrow> digit_cu (unat c - 48) = c"
  by (auto simp: class_unat word_unat_eq_iff unat_digit_cu)

lemma is_digit_unat: "is_digit c \<longleftrightarrow> 48 \<le> unat c \<and> unat c \<le> 57"
  by (simp add: class_unat)

lemma dec_value_Nil [simp]: "dec_value [] = 0"
  by (simp add: dec_value_def)

lemma dec_value_snoc: "dec_value (s @ [c]) = 10 * dec_value s + (unat c - 48)"
  by (simp add: dec_value_def)

lemma dec_value_dec_str [simp]: "dec_value (dec_str n) = n"
proof (induction n rule: dec_str.induct)
  case (1 n)
  show ?case
  proof (cases "n < 10")
    case True
    then show ?thesis
      by (subst dec_str.simps) (simp add: dec_value_def unat_digit_cu)
  next
    case False
    with "1.IH" have "dec_value (dec_str (n div 10)) = n div 10" by simp
    with False show ?thesis
      by (subst dec_str.simps) (simp add: dec_value_snoc unat_digit_cu)
  qed
qed

lemma dec_str_digits: "list_all is_digit (dec_str n)"
proof (induction n rule: dec_str.induct)
  case (1 n)
  then show ?case by (subst dec_str.simps) (auto simp: is_digit_digit_cu)
qed

lemma dec_str_nonempty [simp]: "dec_str n \<noteq> []"
  by (subst dec_str.simps) simp

text \<open>The canonical numerals \<open>/^(?:0|[1-9][0-9]*)$/\<close>.\<close>

definition unsigned_integer :: "jstr \<Rightarrow> bool" where
  "unsigned_integer s \<longleftrightarrow>
     s = lit ''0'' \<or> (case s of [] \<Rightarrow> False
        | c # cs \<Rightarrow> between CHR ''1'' CHR ''9'' c \<and> list_all is_digit cs)"

lemma dec_value_pos: "c \<noteq> of_char CHR ''0'' \<Longrightarrow> is_digit c \<Longrightarrow> list_all is_digit cs \<Longrightarrow>
    0 < dec_value (c # cs)"
proof (induction cs rule: rev_induct)
  case Nil
  then show ?case by (auto simp: dec_value_def class_unat word_unat_eq_iff)
next
  case (snoc x xs)
  have "dec_value (c # xs @ [x]) = 10 * dec_value (c # xs) + (unat x - 48)"
    using dec_value_snoc [of "c # xs" x] by simp
  with snoc show ?case by simp
qed

lemma dec_str_dec_value: "unsigned_integer s \<Longrightarrow> dec_str (dec_value s) = s"
proof (induction s rule: rev_induct)
  case Nil
  then show ?case by (simp add: unsigned_integer_def)
next
  case (snoc c s)
  show ?case
  proof (cases "s = []")
    case True
    with snoc.prems have "is_digit c"
      by (auto simp: unsigned_integer_def lit_def class_unat)
    then show ?thesis
      using True by (subst dec_str.simps) (auto simp: dec_value_def digit_cu_of is_digit_unat)
  next
    case False
    then obtain d ds where s: "s = d # ds" by (cases s) auto
    from snoc.prems s have h: "between CHR ''1'' CHR ''9'' d" "list_all is_digit ds" "is_digit c"
      by (auto simp: unsigned_integer_def lit_def)
    then have us: "unsigned_integer s" by (simp add: unsigned_integer_def s)
    have pos: "0 < dec_value s"
      unfolding s using h(2) by (intro dec_value_pos)
        (use h(1) in \<open>auto simp: class_unat word_unat_eq_iff\<close>)
    have "dec_value (s @ [c]) div 10 = dec_value s" "dec_value (s @ [c]) mod 10 = unat c - 48"
    proof -
      define b where "b = unat c - 48"
      have "b < 10" using h(3) by (auto simp: b_def is_digit_unat)
      then show "dec_value (s @ [c]) div 10 = dec_value s" "dec_value (s @ [c]) mod 10 = unat c - 48"
        by (simp_all add: dec_value_snoc flip: b_def)
    qed
    moreover have "\<not> dec_value (s @ [c]) < 10"
      using pos by (simp add: dec_value_snoc)
    ultimately show ?thesis
      using snoc.IH [OF us] h(3) by (subst dec_str.simps) (simp add: digit_cu_of)
  qed
qed

lemma unsigned_integer_dec_str: "unsigned_integer (dec_str n)"
proof (induction n rule: dec_str.induct)
  case (1 n)
  show ?case
  proof (cases "n < 10")
    case True
    then show ?thesis
      by (subst dec_str.simps)
        (auto simp: unsigned_integer_def lit_def class_unat unat_digit_cu word_unat_eq_iff)
  next
    case False
    then have ih: "unsigned_integer (dec_str (n div 10))" using "1.IH" by simp
    have "dec_str (n div 10) \<noteq> lit ''0''"
    proof
      assume "dec_str (n div 10) = lit ''0''"
      then have "dec_value (dec_str (n div 10)) = dec_value (lit ''0'')" by simp
      with False show False by (simp add: dec_value_def lit_def del: dec_value_dec_str)
         (simp add: dec_value_def [symmetric])
    qed
    with ih False show ?thesis
      by (subst dec_str.simps)
        (auto simp: unsigned_integer_def lit_def is_digit_digit_cu split: list.splits)
  qed
qed

section \<open>Values\<close>

text \<open>
  Finite doubles: \<open>NInt\<close> when the value is an integer (\<open>-0\<close> is \<open>NInt 0\<close>, as \<open>===\<close> sees it),
  \<open>NFrac m e\<close> for \<open>m / 2^e\<close> otherwise.
\<close>

datatype jnum = NInt int | NFrac int nat | NInfinity bool | NNaN

text \<open>The comparison \<open><=\<close>; \<open>NInfinity True\<close> is the negative infinity.\<close>

fun num_le :: "jnum \<Rightarrow> jnum \<Rightarrow> bool" where
  "num_le NNaN y = False"
| "num_le x NNaN = False"
| "num_le (NInfinity a) (NInfinity b) = (a \<or> \<not> b)"
| "num_le (NInfinity a) y = a"
| "num_le x (NInfinity b) = (\<not> b)"
| "num_le (NInt a) (NInt b) = (a \<le> b)"
| "num_le (NInt a) (NFrac m e) = (a * 2 ^ e \<le> m)"
| "num_le (NFrac m e) (NInt b) = (m \<le> b * 2 ^ e)"
| "num_le (NFrac m e) (NFrac n f) = (m * 2 ^ f \<le> n * 2 ^ e)"

text \<open>\<open><\<close> and \<open>===\<close>; both are false when a side is \<open>NaN\<close>.\<close>

definition num_less :: "jnum \<Rightarrow> jnum \<Rightarrow> bool" where
  "num_less x y \<longleftrightarrow> num_le x y \<and> \<not> num_le y x"

definition num_same :: "jnum \<Rightarrow> jnum \<Rightarrow> bool" where
  "num_same x y \<longleftrightarrow> num_le x y \<and> num_le y x"

lemma frac_le_trans:
  fixes m n k :: int
  assumes "m * 2 ^ f \<le> n * 2 ^ e" and "n * 2 ^ g \<le> k * 2 ^ f"
  shows "m * 2 ^ g \<le> k * 2 ^ e"
proof -
  have "m * 2 ^ f * 2 ^ g \<le> n * 2 ^ e * 2 ^ g" by (rule mult_right_mono [OF assms(1)]) simp
  also have "\<dots> = n * 2 ^ g * 2 ^ e" by simp
  also have "\<dots> \<le> k * 2 ^ f * 2 ^ e" by (rule mult_right_mono [OF assms(2)]) simp
  finally have "m * 2 ^ g * 2 ^ f \<le> k * 2 ^ e * 2 ^ f" by (simp add: mult.commute mult.left_commute)
  then show ?thesis by simp
qed

lemma num_le_trans: "num_le a b \<Longrightarrow> num_le b c \<Longrightarrow> num_le a c"
proof (cases a; cases b; cases c)
  fix m e n f k g
  assume "a = NFrac m e" "b = NFrac n f" "c = NFrac k g" "num_le a b" "num_le b c"
  then show "num_le a c" using frac_le_trans [of m f n e g k] by simp
next
  fix i n f k g
  assume "a = NInt i" "b = NFrac n f" "c = NFrac k g" "num_le a b" "num_le b c"
  then show "num_le a c" using frac_le_trans [of i f n 0 g k] by simp
next
  fix m e j k g
  assume "a = NFrac m e" "b = NInt j" "c = NFrac k g" "num_le a b" "num_le b c"
  then show "num_le a c" using frac_le_trans [of m 0 j e g k] by simp
next
  fix m e n f l
  assume "a = NFrac m e" "b = NFrac n f" "c = NInt l" "num_le a b" "num_le b c"
  then show "num_le a c" using frac_le_trans [of m f n e 0 l] by simp
next
  fix i n f l
  assume "a = NInt i" "b = NFrac n f" "c = NInt l" "num_le a b" "num_le b c"
  then show "num_le a c" using frac_le_trans [of i f n 0 0 l] by simp
next
  fix i j k g
  assume "a = NInt i" "b = NInt j" "c = NFrac k g" "num_le a b" "num_le b c"
  then show "num_le a c" using frac_le_trans [of i 0 j 0 g k] by simp
next
  fix m e j l
  assume "a = NFrac m e" "b = NInt j" "c = NInt l" "num_le a b" "num_le b c"
  then show "num_le a c" using frac_le_trans [of m 0 j e 0 l] by simp
qed auto

lemma num_less_trans: "num_less a b \<Longrightarrow> num_less b c \<Longrightarrow> num_less a c"
  unfolding num_less_def using num_le_trans by blast

lemma num_less_same_trans:
  "num_less a b \<Longrightarrow> num_same b c \<Longrightarrow> num_less a c"
  "num_same a b \<Longrightarrow> num_less b c \<Longrightarrow> num_less a c"
  "num_same a b \<Longrightarrow> num_same b c \<Longrightarrow> num_same a c"
  unfolding num_less_def num_same_def using num_le_trans by blast+

lemma num_less_irrefl: "\<not> num_less a a"
  by (simp add: num_less_def)

lemma num_NInt [simp]:
  "num_less (NInt a) (NInt b) \<longleftrightarrow> a < b"
  "num_same (NInt a) (NInt b) \<longleftrightarrow> a = b"
  by (auto simp: num_less_def num_same_def)

text \<open>\<open>Plain\<close>: the prototype is \<open>Object.prototype\<close> or \<open>null\<close>; \<open>Foreign\<close>: any other.\<close>

datatype jproto = Plain | Foreign

text \<open>
  \<open>JHole\<close> is an absent element of a sparse array, \<open>JOther t\<close> a value whose \<open>typeof\<close> is \<open>t\<close>: a
  function, symbol or bigint.
\<close>

datatype jsval =
    JUndef
  | JHole
  | JNull
  | JBool bool
  | JNum jnum
  | JStr jstr
  | JArr "jsval list"
  | JObj jproto "(jstr \<times> jsval) list"
  | JOther jstr

abbreviation jint :: "int \<Rightarrow> jsval" where
  "jint n \<equiv> JNum (NInt n)"

abbreviation jlit :: "string \<Rightarrow> jsval" where
  "jlit s \<equiv> JStr (lit s)"

text \<open>
  Property read, \<open>Object.hasOwn\<close>, \<open>Object.keys\<close>. Reading an absent property gives \<open>undefined\<close>;
  the property names the code reads do not occur on \<open>Object.prototype\<close>.
\<close>

fun entries_of :: "jsval \<Rightarrow> (jstr \<times> jsval) list" where
  "entries_of (JObj p kvs) = kvs"
| "entries_of _ = []"

definition prop_of :: "jsval \<Rightarrow> jstr \<Rightarrow> jsval" where
  "prop_of v k = (case map_of (entries_of v) k of None \<Rightarrow> JUndef | Some x \<Rightarrow> x)"

abbreviation get :: "jsval \<Rightarrow> string \<Rightarrow> jsval" where
  "get v k \<equiv> prop_of v (lit k)"

definition has_own :: "(jstr \<times> 'v) list \<Rightarrow> jstr \<Rightarrow> bool" where
  "has_own kvs k \<longleftrightarrow> k \<in> set (map fst kvs)"

text \<open>\<open>typeof value === 'object' && value !== null && !Array.isArray(value)\<close>\<close>

fun is_record :: "jsval \<Rightarrow> bool" where
  "is_record (JObj p kvs) = True"
| "is_record _ = False"

lemma is_record_iff: "is_record v \<longleftrightarrow> (\<exists>p kvs. v = JObj p kvs)"
  by (cases v) auto

lemma prop_of_JObj: "prop_of (JObj p kvs) k = (case map_of kvs k of None \<Rightarrow> JUndef | Some x \<Rightarrow> x)"
  by (simp add: prop_of_def)

lemma has_own_iff: "has_own kvs k \<longleftrightarrow> map_of kvs k \<noteq> None"
  by (auto simp: has_own_def map_of_eq_None_iff image_iff)

text \<open>\<open>Number.isInteger(v) && v >= 0 && v <= 0xffff_ffff\<close>\<close>

definition uint32_max :: int where
  "uint32_max = 4294967295"

fun is_uint32 :: "jsval \<Rightarrow> bool" where
  "is_uint32 (JNum (NInt n)) = (0 \<le> n \<and> n \<le> uint32_max)"
| "is_uint32 _ = False"

lemma is_uint32_iff: "is_uint32 v \<longleftrightarrow> (\<exists>n. v = jint n \<and> 0 \<le> n \<and> n \<le> uint32_max)"
  by (cases v rule: is_uint32.cases) auto

fun num_uint32 :: "jnum \<Rightarrow> bool" where
  "num_uint32 (NInt n) = (0 \<le> n \<and> n \<le> uint32_max)"
| "num_uint32 _ = False"

lemma num_uint32_iff: "num_uint32 n \<longleftrightarrow> (\<exists>i. n = NInt i \<and> 0 \<le> i \<and> i \<le> uint32_max)"
  by (cases n) auto

fun int_of :: "jsval \<Rightarrow> int" where
  "int_of (JNum (NInt n)) = n"
| "int_of _ = 0"

fun str_of :: "jsval \<Rightarrow> jstr" where
  "str_of (JStr s) = s"
| "str_of _ = []"

text \<open>\<open>typeof v === 'string' && test(v)\<close>\<close>

fun string_that :: "(jstr \<Rightarrow> bool) \<Rightarrow> jsval \<Rightarrow> bool" where
  "string_that test (JStr s) = test s"
| "string_that test _ = False"

lemma string_that_iff: "string_that test v \<longleftrightarrow> (\<exists>s. v = JStr s \<and> test s)"
  by (cases v) auto

text \<open>\<open>v ?? w\<close> and \<open>asRecord(v)\<close>: the properties of an object, none of any other value.\<close>

definition nullish :: "jsval \<Rightarrow> bool" where
  "nullish v \<longleftrightarrow> v = JUndef \<or> v = JNull"

definition coalesce :: "jsval \<Rightarrow> jsval \<Rightarrow> jsval" where
  "coalesce v w = (if nullish v then w else v)"

definition as_record :: "jsval \<Rightarrow> jsval" where
  "as_record v = (if is_record v then v else JObj Plain [])"

text \<open>Paths of error reports: \<open>`${path}.${key}`\<close> and \<open>`${path}[${index}]`\<close>.\<close>

definition path_key :: "jstr \<Rightarrow> jstr \<Rightarrow> jstr" where
  "path_key p k = p @ lit ''.'' @ k"

definition path_index :: "jstr \<Rightarrow> nat \<Rightarrow> jstr" where
  "path_index p i = p @ lit ''['' @ dec_str i @ lit '']''"

text \<open>
  \<open>(n & flag) !== 0\<close> for a flag of a single bit below bit 31: that bit of the integer part of the
  number, and zero when the number is not finite.
\<close>

definition integer_part :: "jnum \<Rightarrow> int" where
  "integer_part n =
     (case n of
        NInt i \<Rightarrow> i
      | NFrac m e \<Rightarrow> (if m < 0 then - (\<bar>m\<bar> div 2 ^ e) else m div 2 ^ e)
      | _ \<Rightarrow> 0)"

definition has_flag :: "jnum \<Rightarrow> int \<Rightarrow> bool" where
  "has_flag n flag \<longleftrightarrow> integer_part n div flag mod 2 = 1"

end
