(* ===== verification/Xcs_Errors.thy ===== *)
theory Xcs_Errors
  imports Js_Values
begin

text \<open>
  The errors of the protocol library (\<open>packages/core/src/errors.ts\<close>): the codes, the \<open>XcsError\<close>
  class with its code and optional path, and \<open>fail\<close>, which throws. Messages, \<open>details\<close> and causes
  are diagnostic text that no code of the system branches on and are left out.
\<close>

datatype xcs_code =
    INVALID_NETWORK_PROFILE
  | INVALID_SCHEMA
  | INVALID_SCHEMA_REFERENCE
  | INVALID_CLAIMS
  | INVALID_UID_INPUT
  | INVALID_CREDENTIAL_PAYLOAD
  | INVALID_PAYLOAD_URI
  | INVALID_RIPPLE_TIME
  | INVALID_JSON
  | NON_CANONICAL_JSON
  | UNSUPPORTED_JSON_VALUE

text \<open>
  What a call into the library can throw: an \<open>XcsError\<close>, the \<open>SyntaxError\<close> of \<open>JSON.parse\<close>, or
  any other host error.
\<close>

datatype cerr =
    XcsErr xcs_code "jstr option"
  | SyntaxErr
  | HostErr

definition xcs_fail :: "xcs_code \<Rightarrow> jstr \<Rightarrow> cerr + 'a" where
  "xcs_fail code path = Inl (XcsErr code (Some path))"

fun is_xcs_error :: "cerr \<Rightarrow> bool" where
  "is_xcs_error (XcsErr _ _) = True"
| "is_xcs_error _ = False"

lemma xcs_fail_simps [simp]:
  "xcs_fail c p \<noteq> Inr x"
  "Inr x \<noteq> xcs_fail c p"
  "is_ok (xcs_fail c p) = False"
  "rbind (xcs_fail c p) f = xcs_fail c p"
  "res_option (xcs_fail c p) = None"
  by (simp_all add: xcs_fail_def)

lemma case_option_fail_eq_Inr [res_simps]:
  "(case m of None \<Rightarrow> xcs_fail c p | Some x \<Rightarrow> f x) = Inr y \<longleftrightarrow> (\<exists>x. m = Some x \<and> f x = Inr y)"
  by (cases m) simp_all

lemma if_fail_eq_Inr [res_simps]:
  "(if b then xcs_fail c p else m) = Inr y \<longleftrightarrow> \<not> b \<and> m = Inr y"
  "(if b then m else xcs_fail c p) = Inr y \<longleftrightarrow> b \<and> m = Inr y"
  by simp_all

text \<open>An error thrown by \<open>fail\<close> is an \<open>XcsError\<close>.\<close>

lemma xcs_fail_eq_Inl [simp]: "xcs_fail c p = Inl e \<longleftrightarrow> e = XcsErr c (Some p)"
  by (auto simp: xcs_fail_def)

text \<open>
  The loops over \<open>Object.keys\<close> that reject the first property outside a set, with the path
  \<open>`${path}.${key}`\<close>.
\<close>

definition assert_only_properties ::
  "xcs_code \<Rightarrow> jsval \<Rightarrow> string list \<Rightarrow> jstr \<Rightarrow> cerr + unit" where
  "assert_only_properties code value allowed path =
     each (\<lambda>key. if key \<in> set (map lit allowed) then Inr ()
                else xcs_fail code (path_key path key))
       (map fst (entries_of value))"

lemma assert_only_properties_Inr:
  "assert_only_properties code v allowed path = Inr u \<longleftrightarrow>
     fst ` set (entries_of v) \<subseteq> set (map lit allowed)"
  by (simp only: assert_only_properties_def each_eq_Inr if_fail_eq_Inr set_map) auto

lemma assert_only_properties_ok:
  "fst ` set (entries_of v) \<subseteq> set (map lit allowed) \<Longrightarrow>
     assert_only_properties code v allowed path = Inr ()"
  by (simp add: assert_only_properties_Inr)

lemma assert_only_properties_Inl:
  "assert_only_properties code v allowed path = Inl e \<Longrightarrow> \<exists>p. e = XcsErr code (Some p)"
  unfolding assert_only_properties_def by (drule each_Inl) (auto split: if_splits)

text \<open>Computations that throw nothing but an \<open>XcsError\<close>.\<close>

named_theorems xcs_intros \<open>introduction rules for computations that only throw XcsError\<close>

definition xcs_only :: "cerr + 'a \<Rightarrow> bool" where
  "xcs_only m \<longleftrightarrow> (\<forall>e. m = Inl e \<longrightarrow> is_xcs_error e)"

lemma xcs_only_D: "xcs_only m \<Longrightarrow> m = Inl e \<Longrightarrow> is_xcs_error e"
  by (simp add: xcs_only_def)

lemma xcs_only_basic [xcs_intros]: "xcs_only (Inr x)" "xcs_only (xcs_fail c p)"
  by (simp_all add: xcs_only_def)

lemma xcs_only_rbind [xcs_intros]:
  "xcs_only m \<Longrightarrow> (\<And>x. m = Inr x \<Longrightarrow> xcs_only (f x)) \<Longrightarrow> xcs_only (rbind m f)"
  by (auto simp: xcs_only_def res_simps)

lemma xcs_only_if [xcs_intros]:
  "(c \<Longrightarrow> xcs_only m) \<Longrightarrow> (\<not> c \<Longrightarrow> xcs_only n) \<Longrightarrow> xcs_only (if c then m else n)"
  by simp

lemma xcs_only_option [xcs_intros]:
  "(m = None \<Longrightarrow> xcs_only n) \<Longrightarrow> (\<And>x. m = Some x \<Longrightarrow> xcs_only (f x)) \<Longrightarrow>
     xcs_only (case m of None \<Rightarrow> n | Some x \<Rightarrow> f x)"
  by (cases m) simp_all

lemma xcs_only_prod [xcs_intros]:
  "(\<And>a b. p = (a, b) \<Longrightarrow> xcs_only (f a b)) \<Longrightarrow> xcs_only (case p of (a, b) \<Rightarrow> f a b)"
  by (cases p) simp

lemma xcs_only_Let [xcs_intros]: "xcs_only (f v) \<Longrightarrow> xcs_only (let x = v in f x)"
  by simp

lemma xcs_only_properties [xcs_intros]: "xcs_only (assert_only_properties code v allowed path)"
  by (auto simp: xcs_only_def dest: assert_only_properties_Inl)

end
