(* ===== verification/Lifecycle.thy ===== *)
theory Lifecycle
  imports Xcs_Errors
begin

text \<open>
  The state of a known Credential generation at a ledger close time
  (\<open>packages/core/src/lifecycle.ts\<close>).
\<close>

datatype credential_lifecycle_state = Pending | Active | Expired | Deleted

text \<open>\<open>expiration\<close> is \<open>None\<close> for \<open>undefined\<close> and for \<open>null\<close>.\<close>

record credential_lifecycle_input =
  object_exists :: bool
  accepted :: bool
  expiration :: "jnum option"
  close_time :: jnum

definition require_ripple_time :: "jnum \<Rightarrow> cerr + unit" where
  "require_ripple_time value =
     (if \<not> num_uint32 value then xcs_fail INVALID_RIPPLE_TIME (lit ''$time'') else Inr ())"

definition project_credential_lifecycle ::
  "credential_lifecycle_input \<Rightarrow> cerr + credential_lifecycle_state" where
  "project_credential_lifecycle input =
     rbind (require_ripple_time (close_time input)) (\<lambda>_.
     rbind (case expiration input of None \<Rightarrow> Inr () | Some t \<Rightarrow> require_ripple_time t) (\<lambda>_.
       if \<not> object_exists input then Inr Deleted
       else if (case expiration input of None \<Rightarrow> False | Some t \<Rightarrow> num_le t (close_time input))
         then Inr Expired
       else if accepted input then Inr Active
       else Inr Pending))"

definition lifecycle_input_ok :: "credential_lifecycle_input \<Rightarrow> bool" where
  "lifecycle_input_ok input \<longleftrightarrow>
     num_uint32 (close_time input) \<and> (case expiration input of None \<Rightarrow> True | Some t \<Rightarrow> num_uint32 t)"

lemma project_credential_lifecycle_ok:
  "lifecycle_input_ok input \<Longrightarrow>
    project_credential_lifecycle input = Inr
      (if \<not> object_exists input then Deleted
       else if (case expiration input of None \<Rightarrow> False | Some t \<Rightarrow> num_le t (close_time input))
         then Expired
       else if accepted input then Active else Pending)"
  by (auto simp: project_credential_lifecycle_def lifecycle_input_ok_def require_ripple_time_def
      split: option.splits)

lemma project_credential_lifecycle_error:
  "project_credential_lifecycle input = Inl e \<longleftrightarrow>
     \<not> lifecycle_input_ok input \<and> e = XcsErr INVALID_RIPPLE_TIME (Some (lit ''$time''))"
  by (auto simp: project_credential_lifecycle_def lifecycle_input_ok_def require_ripple_time_def
      split: option.splits)

lemma num_le_uint32_trans:
  "num_uint32 a \<Longrightarrow> num_uint32 b \<Longrightarrow> num_uint32 c \<Longrightarrow> num_le a b \<Longrightarrow> num_le b c \<Longrightarrow> num_le a c"
  by (auto simp: num_uint32_iff)

text \<open>
  The states in the order of a generation: as the close time grows the state of one ledger object
  never moves back.
\<close>

fun lifecycle_rank :: "credential_lifecycle_state \<Rightarrow> nat" where
  "lifecycle_rank Pending = 0"
| "lifecycle_rank Active = 1"
| "lifecycle_rank Expired = 2"
| "lifecycle_rank Deleted = 3"

text \<open>One generation at two validated ledgers: the clock moves on, an accepted Credential stays
  accepted, a deleted object does not come back, and the expiration never changes.\<close>

definition later_input :: "credential_lifecycle_input \<Rightarrow> credential_lifecycle_input \<Rightarrow> bool" where
  "later_input a b \<longleftrightarrow>
     num_le (close_time a) (close_time b) \<and> expiration b = expiration a \<and>
     (accepted a \<longrightarrow> accepted b) \<and> (object_exists b \<longrightarrow> object_exists a)"

lemma lifecycle_advances:
  assumes "project_credential_lifecycle a = Inr s" and "project_credential_lifecycle b = Inr t"
    and "later_input a b"
  shows "lifecycle_rank s \<le> lifecycle_rank t"
proof -
  have ok: "lifecycle_input_ok a" "lifecycle_input_ok b"
    using assms project_credential_lifecycle_error by (metis Inl_Inr_False)+
  have exp: "case expiration b of None \<Rightarrow> False | Some x \<Rightarrow> num_le x (close_time b)"
    if "case expiration a of None \<Rightarrow> False | Some x \<Rightarrow> num_le x (close_time a)"
    using that ok assms(3)
    by (auto simp: later_input_def lifecycle_input_ok_def split: option.splits
        intro: num_le_uint32_trans)
  show ?thesis
    using assms exp
    by (auto simp: project_credential_lifecycle_ok [OF ok(1)]
        project_credential_lifecycle_ok [OF ok(2)] later_input_def split: if_splits)
qed

end
