(* ===== verification/Text_Codec.thy ===== *)
theory Text_Codec
  imports Xcs_Errors
begin

text \<open>
  Text of \<open>packages/core/src/json.ts\<close>: the UTF-16 check \<open>assertWellFormed\<close>, the UTF-8 codec of
  \<open>TextEncoder\<close> and of a fatal \<open>TextDecoder\<close> that keeps a byte order mark, \<open>utf8ByteLength\<close>, and
  hexadecimal. Main results: what \<open>assertWellFormed\<close> accepts, and the round trips.
\<close>

section \<open>UTF-16\<close>

definition is_high :: "nat \<Rightarrow> bool" where
  "is_high c \<longleftrightarrow> 0xd800 \<le> c \<and> c \<le> 0xdbff"

definition is_low :: "nat \<Rightarrow> bool" where
  "is_low c \<longleftrightarrow> 0xdc00 \<le> c \<and> c \<le> 0xdfff"

text \<open>\<open>charCodeAt\<close> past the end is \<open>NaN\<close>, for which every comparison is false.\<close>

definition char_code_at :: "jstr \<Rightarrow> nat \<Rightarrow> nat option" where
  "char_code_at s i = (if i < length s then Some (unat (s ! i)) else None)"

definition nan_less :: "nat option \<Rightarrow> nat \<Rightarrow> bool" where
  "nan_less x n = (case x of None \<Rightarrow> False | Some m \<Rightarrow> m < n)"

definition nan_greater :: "nat option \<Rightarrow> nat \<Rightarrow> bool" where
  "nan_greater x n = (case x of None \<Rightarrow> False | Some m \<Rightarrow> n < m)"

function wf_from :: "jstr \<Rightarrow> nat \<Rightarrow> bool" where
  "wf_from s index =
     (if index < length s then
        (let codeUnit = unat (s ! index) in
         if 0xd800 \<le> codeUnit \<and> codeUnit \<le> 0xdbff then
           (let nxt = char_code_at s (index + 1) in
            if nan_less nxt 0xdc00 \<or> nan_greater nxt 0xdfff then False
            else wf_from s (index + 2))
         else if 0xdc00 \<le> codeUnit \<and> codeUnit \<le> 0xdfff then False
         else wf_from s (index + 1))
      else True)"
  by pat_completeness auto
termination
  by (relation "measure (\<lambda>(s, i). length s - i)") auto

declare wf_from.simps [simp del]

definition assert_well_formed :: "jstr \<Rightarrow> jstr \<Rightarrow> cerr + unit" where
  "assert_well_formed value path =
     (if wf_from value 0 then Inr () else xcs_fail UNSUPPORTED_JSON_VALUE path)"

text \<open>The Unicode notion: every surrogate is one half of a pair.\<close>

fun well_formed :: "jstr \<Rightarrow> bool" where
  "well_formed [] = True"
| "well_formed (c # cs) =
     (if is_high (unat c)
      then (case cs of [] \<Rightarrow> False | d # ds \<Rightarrow> is_low (unat d) \<and> well_formed ds)
      else \<not> is_low (unat c) \<and> well_formed cs)"

text \<open>The loop as a scan of the rest of the string.\<close>

fun wf_scan :: "jstr \<Rightarrow> bool" where
  "wf_scan [] = True"
| "wf_scan (c # cs) =
     (if is_high (unat c)
      then (case cs of [] \<Rightarrow> True | d # ds \<Rightarrow> is_low (unat d) \<and> wf_scan ds)
      else \<not> is_low (unat c) \<and> wf_scan cs)"

lemma wf_from_scan: "wf_from s i = wf_scan (drop i s)"
proof (induction s i rule: wf_from.induct)
  case (1 s i)
  show ?case
  proof (cases "i < length s")
    case False
    then show ?thesis by (subst wf_from.simps) simp
  next
    case True
    then have d: "drop i s = s ! i # drop (Suc i) s" by (simp add: Cons_nth_drop_Suc)
    have e: "drop (Suc i) s = (if Suc i < length s then s ! Suc i # drop (Suc (Suc i)) s else [])"
      by (simp add: Cons_nth_drop_Suc)
    show ?thesis
      using True 1 unfolding d
      by (subst wf_from.simps)
        (auto simp: is_high_def is_low_def Let_def e char_code_at_def nan_less_def nan_greater_def)
  qed
qed

lemma wf_scan_iff:
  "wf_scan s \<longleftrightarrow> well_formed s \<or> (\<exists>t h. s = t @ [h] \<and> well_formed t \<and> is_high (unat h))"
proof (induction s rule: wf_scan.induct)
  case 1
  then show ?case by simp
next
  case (2 c cs)
  show ?case
  proof (cases "is_high (unat c)")
    case high: True
    show ?thesis
    proof (cases cs)
      case Nil
      then show ?thesis using high by auto
    next
      case (Cons d ds)
      have low: "is_low (unat d) \<Longrightarrow> \<not> is_high (unat d)" by (auto simp: is_low_def is_high_def)
      show ?thesis
        using high Cons 2(1) [OF high Cons] low
        by (auto simp: append_eq_Cons_conv Cons_eq_append_conv)
    qed
  next
    case False
    then show ?thesis using 2(2) by (auto simp: Cons_eq_append_conv)
  qed
qed

lemma well_formed_imp_scan: "well_formed s \<Longrightarrow> wf_scan s"
  by (simp add: wf_scan_iff)

lemma assert_well_formed_eq: "is_ok (assert_well_formed s p) \<longleftrightarrow> wf_scan s"
  by (simp add: assert_well_formed_def wf_from_scan)

lemma assert_well_formed_Inr: "assert_well_formed s p = Inr u \<longleftrightarrow> wf_scan s"
  by (simp add: assert_well_formed_def wf_from_scan)

lemma lit_cu_small: "c \<in> set (lit s) \<Longrightarrow> unat c < 256"
  using nat_of_char_less_256 by (auto simp: lit_def)

lemma wf_scan_small: "(\<forall>c \<in> set s. unat c < 0xd800) \<Longrightarrow> wf_scan s \<and> well_formed s"
  by (induction s) (auto simp: is_high_def is_low_def)

lemma well_formed_lit [simp]: "well_formed (lit s)" "wf_scan (lit s)"
  using wf_scan_small [of "lit s"] lit_cu_small [of _ s] by fastforce+

section \<open>UTF-8\<close>

text \<open>
  \<open>TextEncoder.encode\<close> first replaces every unpaired surrogate by U+FFFD, then writes each code
  point in one to four bytes.
\<close>

definition pair_point :: "nat \<Rightarrow> nat \<Rightarrow> nat" where
  "pair_point h l = 0x10000 + (h - 0xd800) * 0x400 + (l - 0xdc00)"

fun to_points :: "jstr \<Rightarrow> nat list" where
  "to_points [] = []"
| "to_points (c # cs) =
     (if is_high (unat c)
      then (case cs of
              [] \<Rightarrow> [0xfffd]
            | d # ds \<Rightarrow> if is_low (unat d) then pair_point (unat c) (unat d) # to_points ds
                        else 0xfffd # to_points cs)
      else if is_low (unat c) then 0xfffd # to_points cs
      else unat c # to_points cs)"

definition utf8_point :: "nat \<Rightarrow> nat list" where
  "utf8_point p =
     (if p < 0x80 then [p]
      else if p < 0x800 then [192 + p div 64, 128 + p mod 64]
      else if p < 0x10000 then [224 + p div 4096, 128 + (p div 64) mod 64, 128 + p mod 64]
      else [240 + p div 262144, 128 + (p div 4096) mod 64, 128 + (p div 64) mod 64,
            128 + p mod 64])"

definition encode_utf8 :: "jstr \<Rightarrow> byte list" where
  "encode_utf8 s = map of_nat (concat (map utf8_point (to_points s)))"

text \<open>The decoder of the Encoding standard in fatal mode; a byte order mark is an ordinary point.\<close>

definition tail_byte :: "nat \<Rightarrow> bool" where
  "tail_byte c \<longleftrightarrow> 128 \<le> c \<and> c \<le> 191"

fun decode_points :: "nat list \<Rightarrow> nat list option" where
  "decode_points [] = Some []"
| "decode_points (b # bs) =
     (if b < 128 then map_option ((#) b) (decode_points bs)
      else if 194 \<le> b \<and> b \<le> 223 then
        (case bs of
           c # cs \<Rightarrow> if tail_byte c
             then map_option ((#) ((b - 192) * 64 + (c - 128))) (decode_points cs) else None
         | _ \<Rightarrow> None)
      else if 224 \<le> b \<and> b \<le> 239 then
        (case bs of
           c # d # ds \<Rightarrow> if tail_byte c \<and> tail_byte d \<and> (b = 224 \<longrightarrow> 160 \<le> c)
                           \<and> (b = 237 \<longrightarrow> c \<le> 159)
             then map_option ((#) ((b - 224) * 4096 + (c - 128) * 64 + (d - 128)))
                    (decode_points ds)
             else None
         | _ \<Rightarrow> None)
      else if 240 \<le> b \<and> b \<le> 244 then
        (case bs of
           c # d # e # es \<Rightarrow> if tail_byte c \<and> tail_byte d \<and> tail_byte e
                               \<and> (b = 240 \<longrightarrow> 144 \<le> c) \<and> (b = 244 \<longrightarrow> c \<le> 143)
             then map_option ((#) ((b - 240) * 262144 + (c - 128) * 4096 + (d - 128) * 64
                    + (e - 128))) (decode_points es)
             else None
         | _ \<Rightarrow> None)
      else None)"

definition of_point :: "nat \<Rightarrow> jstr" where
  "of_point p =
     (if p < 0x10000 then [of_nat p]
      else [of_nat (0xd800 + (p - 0x10000) div 0x400), of_nat (0xdc00 + (p - 0x10000) mod 0x400)])"

definition text_decode :: "byte list \<Rightarrow> jstr option" where
  "text_decode bs = map_option (\<lambda>ps. concat (map of_point ps)) (decode_points (map unat bs))"

definition decode_utf8 :: "byte list \<Rightarrow> cerr + jstr" where
  "decode_utf8 bs =
     (case text_decode bs of Some s \<Rightarrow> Inr s | None \<Rightarrow> xcs_fail INVALID_JSON (lit ''$''))"

definition utf8_byte_length :: "jstr \<Rightarrow> cerr + nat" where
  "utf8_byte_length value =
     rbind (assert_well_formed value (lit ''$'')) (\<lambda>_. Inr (length (encode_utf8 value)))"

subsection \<open>Round trips\<close>

definition scalar :: "nat \<Rightarrow> bool" where
  "scalar p \<longleftrightarrow> p < 0x110000 \<and> \<not> (0xd800 \<le> p \<and> p \<le> 0xdfff)"

text \<open>Digits to base 64.\<close>

lemma digits2:
  fixes b c :: nat
  assumes "c < 64" and "p = b * 64 + c"
  shows "p div 64 = b" "p mod 64 = c"
  using assms by simp_all

lemma digits3:
  fixes b c d :: nat
  assumes "c < 64" and "d < 64" and "p = b * 4096 + c * 64 + d"
  shows "p div 4096 = b" "p div 64 mod 64 = c" "p mod 64 = d"
proof -
  have p: "p = (b * 64 + c) * 64 + d" using assms(3) by simp
  have q: "p div 64 = b * 64 + c" using assms(2) by (simp add: p)
  have "p div 4096 = p div 64 div 64" by (simp flip: div_mult2_eq)
  with q assms(1) show "p div 4096 = b" by simp
  show "p div 64 mod 64 = c" using assms(1) by (simp add: q)
  show "p mod 64 = d" using assms(2) by (simp only: p mod_mult_self3 mod_less)
qed

lemma digits4:
  fixes b c d e :: nat
  assumes "c < 64" and "d < 64" and "e < 64" and "p = b * 262144 + c * 4096 + d * 64 + e"
  shows "p div 262144 = b" "p div 4096 mod 64 = c" "p div 64 mod 64 = d" "p mod 64 = e"
proof -
  have p: "p = (b * 64 + c) * 4096 + d * 64 + e" using assms(4) by simp
  note lo = digits3 [OF assms(2,3) p]
  have "p div 262144 = p div 4096 div 64" by (simp flip: div_mult2_eq)
  with lo assms(1) show "p div 262144 = b" by simp
  show "p div 4096 mod 64 = c" using lo(1) assms(1) by simp
  show "p div 64 mod 64 = d" "p mod 64 = e" by (rule lo)+
qed

lemma digits3_sum: "p div 4096 * 4096 + p div 64 mod 64 * 64 + p mod 64 = (p::nat)"
proof -
  have "p div 4096 = p div 64 div 64" by (simp flip: div_mult2_eq)
  moreover have "p div 64 = p div 64 div 64 * 64 + p div 64 mod 64" by simp
  moreover have "p = p div 64 * 64 + p mod 64" by simp
  ultimately show ?thesis by linarith
qed

lemma digits4_sum:
  "p div 262144 * 262144 + p div 4096 mod 64 * 4096 + p div 64 mod 64 * 64 + p mod 64 = (p::nat)"
proof -
  have "p div 262144 = p div 4096 div 64" by (simp flip: div_mult2_eq)
  moreover have "p div 4096 = p div 4096 div 64 * 64 + p div 4096 mod 64" by simp
  ultimately show ?thesis using digits3_sum [of p] by linarith
qed

lemma decode_utf8_point:
  assumes "scalar p"
  shows "decode_points (utf8_point p @ rest) = map_option ((#) p) (decode_points rest)"
proof -
  note four = digits4_sum [of p] and three = digits3_sum [of p]
  consider "p < 0x80" | "0x80 \<le> p" "p < 0x800" | "0x800 \<le> p" "p < 0x10000" | "0x10000 \<le> p"
    by linarith
  then show ?thesis
  proof cases
    case 1
    then show ?thesis by (simp add: utf8_point_def)
  next
    case 2
    then have "2 \<le> p div 64" "p div 64 < 32"
      using div_le_mono [of 128 p 64] less_mult_imp_div_less [of p 32 64] by simp_all
    moreover have "p mod 64 \<le> 63" using mod_less_divisor [of 64 p] by linarith
    ultimately show ?thesis using 2 by (simp add: utf8_point_def tail_byte_def)
  next
    case 3
    define x y z where xyz: "x = p div 4096" "y = p div 64 mod 64" "z = p mod 64"
    have b: "y < 64" "z < 64" and p: "x * 4096 + y * 64 + z = p"
      using three by (simp_all add: xyz)
    have "x < 16" "x = 0 \<longrightarrow> 32 \<le> y" "x = 13 \<longrightarrow> y \<le> 31"
      using b p 3 assms unfolding scalar_def by linarith+
    then show ?thesis using 3 p b by (simp add: utf8_point_def tail_byte_def flip: xyz)
  next
    case 4
    define w x y z where wxyz: "w = p div 262144" "x = p div 4096 mod 64" "y = p div 64 mod 64"
      "z = p mod 64"
    have b: "x < 64" "y < 64" "z < 64" and p: "w * 262144 + x * 4096 + y * 64 + z = p"
      using four by (simp_all add: wxyz)
    have "w < 5" "w = 0 \<longrightarrow> 16 \<le> x" "w = 4 \<longrightarrow> x \<le> 15"
      using b p 4 assms unfolding scalar_def by linarith+
    then show ?thesis using 4 p b by (simp add: utf8_point_def tail_byte_def flip: wxyz)
  qed
qed

lemma decode_utf8_points:
  "list_all scalar ps \<Longrightarrow> decode_points (concat (map utf8_point ps)) = Some ps"
  by (induction ps) (auto simp: decode_utf8_point)

lemma range3:
  fixes x y z :: nat
  assumes "x < 16" "y < 64" "z < 64" "x = 0 \<longrightarrow> 32 \<le> y" "x = 13 \<longrightarrow> y \<le> 31"
  shows "2048 \<le> x * 4096 + y * 64 + z" "x * 4096 + y * 64 + z < 65536"
    "\<not> (0xd800 \<le> x * 4096 + y * 64 + z \<and> x * 4096 + y * 64 + z \<le> 0xdfff)"
proof -
  have lo: "x = 0 \<or> 1 \<le> x" and mid: "x \<le> 12 \<or> x = 13 \<or> 14 \<le> x" by linarith+
  show "2048 \<le> x * 4096 + y * 64 + z" using lo assms(4) by (elim disjE) simp_all
  show "x * 4096 + y * 64 + z < 65536" using assms(1,2,3) by linarith
  show "\<not> (0xd800 \<le> x * 4096 + y * 64 + z \<and> x * 4096 + y * 64 + z \<le> 0xdfff)"
    using mid
  proof (elim disjE)
    assume "x \<le> 12"
    then show ?thesis using assms(2,3) by linarith
  next
    assume "x = 13"
    then show ?thesis using assms(3,5) by simp
  next
    assume "14 \<le> x"
    then show ?thesis by linarith
  qed
qed

lemma range4:
  fixes w x y z :: nat
  assumes "w < 5" "x < 64" "y < 64" "z < 64" "w = 0 \<longrightarrow> 16 \<le> x" "w = 4 \<longrightarrow> x \<le> 15"
  shows "65536 \<le> w * 262144 + x * 4096 + y * 64 + z"
    "w * 262144 + x * 4096 + y * 64 + z < 0x110000"
proof -
  have lo: "w = 0 \<or> 1 \<le> w" and hi: "w = 4 \<or> w \<le> 3" using assms(1) by linarith+
  show "65536 \<le> w * 262144 + x * 4096 + y * 64 + z" using lo assms(5) by (elim disjE) simp_all
  show "w * 262144 + x * 4096 + y * 64 + z < 0x110000"
    using hi
  proof (elim disjE)
    assume "w = 4"
    then show ?thesis using assms(3,4,6) by simp
  next
    assume "w \<le> 3"
    then show ?thesis using assms(2-4) by linarith
  qed
qed

lemma decode_points_SomeD:
  "decode_points bs = Some ps \<Longrightarrow> list_all scalar ps \<and> concat (map utf8_point ps) = bs"
proof (induction bs arbitrary: ps rule: decode_points.induct)
  case 1
  then show ?case by simp
next
  case (2 b bs)
  from 2(5) consider
      "b < 128"
    | c cs where "194 \<le> b" "b \<le> 223" "bs = c # cs" "tail_byte c"
    | c d ds where "224 \<le> b" "b \<le> 239" "bs = c # d # ds" "tail_byte c" "tail_byte d"
        "b = 224 \<longrightarrow> 160 \<le> c" "b = 237 \<longrightarrow> c \<le> 159"
    | c d e es where "240 \<le> b" "b \<le> 244" "bs = c # d # e # es" "tail_byte c" "tail_byte d"
        "tail_byte e" "b = 240 \<longrightarrow> 144 \<le> c" "b = 244 \<longrightarrow> c \<le> 143"
    by (auto split: if_splits list.splits)
  then show ?case
  proof cases
    case 1
    with 2(5) 2(1) show ?thesis by (auto simp: utf8_point_def scalar_def)
  next
    case 2
    then have t: "128 \<le> c" "c \<le> 191" by (simp_all add: tail_byte_def)
    let ?p = "(b - 192) * 64 + (c - 128)"
    have a: "?p div 64 = b - 192" "?p mod 64 = c - 128"
      by (rule digits2 [where b = "b - 192" and c = "c - 128"]; use t in simp)+
    have r: "128 \<le> ?p" "?p < 2048"
      using 2 t by arith+
    show ?thesis
      using 2 t a r \<open>decode_points (b # bs) = Some ps\<close> "2.IH"(2) [of c cs]
      by (auto simp: utf8_point_def scalar_def)
  next
    case 3
    define x y z where v: "x = b - 224" "y = c - 128" "z = d - 128"
    have e: "b = 224 + x" "c = 128 + y" "d = 128 + z" and t: "x < 16" "y < 64" "z < 64"
      and g: "x = 0 \<longrightarrow> 32 \<le> y" "x = 13 \<longrightarrow> y \<le> 31"
      using 3 by (auto simp: v tail_byte_def)
    let ?p = "x * 4096 + y * 64 + z"
    note a = digits3 [OF t(2,3) refl, of x] and r = range3 [OF t g]
    from "2.IH"(3) [of c "d # ds" d ds] 3 obtain qs where q: "ps = ?p # qs"
      "decode_points ds = Some qs" "list_all scalar qs" "concat (map utf8_point qs) = ds"
      using \<open>decode_points (b # bs) = Some ps\<close> by (auto simp: v)
    have "utf8_point ?p = [b, c, d]" using r a by (simp add: utf8_point_def e)
    moreover have "scalar ?p" using r unfolding scalar_def by linarith
    ultimately show ?thesis using q 3 by simp
  next
    case 4
    define w x y z where v: "w = b - 240" "x = c - 128" "y = d - 128" "z = e - 128"
    have e: "b = 240 + w" "c = 128 + x" "d = 128 + y" "e = 128 + z"
      and t: "w < 5" "x < 64" "y < 64" "z < 64"
      and g: "w = 0 \<longrightarrow> 16 \<le> x" "w = 4 \<longrightarrow> x \<le> 15"
      using 4 by (auto simp: v tail_byte_def)
    let ?p = "w * 262144 + x * 4096 + y * 64 + z"
    note a = digits4 [OF t(2-4) refl, of w] and r = range4 [OF t g]
    from "2.IH"(4) [of c "d # e # es" d "e # es" e es] 4 obtain qs where q: "ps = ?p # qs"
      "decode_points es = Some qs" "list_all scalar qs" "concat (map utf8_point qs) = es"
      using \<open>decode_points (b # bs) = Some ps\<close> by (auto simp: v)
    have "utf8_point ?p = [b, c, d, e]" using r a by (simp add: utf8_point_def e)
    moreover have "scalar ?p" using r unfolding scalar_def by linarith
    ultimately show ?thesis using q 4 by simp
  qed
qed

lemma unat_cu: "n < 65536 \<Longrightarrow> unat (of_nat n :: cu) = n"
  by (simp add: unat_of_nat)

lemma cu_bound: "unat (c :: cu) < 65536"
  using unsigned_less [of c] by simp

lemma of_nat_unat_cu: "of_nat (unat c) = (c :: cu)"
  by simp

text \<open>A point above the basic plane is a high and a low surrogate.\<close>

lemma of_point_surrogates:
  assumes "scalar p" and "\<not> p < 0x10000"
  obtains c d where "of_point p = [c, d]" "is_high (unat c)" "is_low (unat d)"
    "pair_point (unat c) (unat d) = p"
proof -
  define h l where hl: "h = (p - 0x10000) div 0x400" "l = (p - 0x10000) mod 0x400"
  have l: "l < 0x400" by (simp add: hl)
  have s: "h * 0x400 + l = p - 0x10000" by (simp add: hl)
  have h: "h < 0x400" using s l assms by (simp add: scalar_def)
  define c d :: cu where cd: "c = of_nat (0xd800 + h)" "d = of_nat (0xdc00 + l)"
  have uc: "unat c = 0xd800 + h" unfolding cd by (rule unat_cu) (use h in linarith)
  have ud: "unat d = 0xdc00 + l" unfolding cd by (rule unat_cu) (use l in linarith)
  show thesis
  proof
    show "of_point p = [c, d]" using assms by (simp add: of_point_def cd hl)
    show "is_high (unat c)" using h by (simp add: uc is_high_def)
    show "is_low (unat d)" using l by (simp add: ud is_low_def)
    show "pair_point (unat c) (unat d) = p"
      using s assms by (simp add: uc ud pair_point_def)
  qed
qed

lemma of_point_basic:
  assumes "scalar p" and "p < 0x10000"
  shows "\<not> is_high (unat (of_nat p :: cu))" "\<not> is_low (unat (of_nat p :: cu))"
    "unat (of_nat p :: cu) = p"
  using assms unat_cu [of p] by (auto simp: scalar_def is_high_def is_low_def)

lemma to_points_of_point:
  assumes "scalar p"
  shows "to_points (of_point p @ rest) = p # to_points rest"
proof (cases "p < 0x10000")
  case True
  then show ?thesis using of_point_basic [OF assms True] by (simp add: of_point_def)
next
  case False
  with assms show ?thesis by (elim of_point_surrogates) auto
qed

lemma to_points_of_points:
  "list_all scalar ps \<Longrightarrow> to_points (concat (map of_point ps)) = ps"
  by (induction ps) (simp_all add: to_points_of_point)

lemma surrogate_offset:
  assumes "n \<le> m" and "m < n + 0x400"
  obtains h where "m = n + h" "h < (0x400::nat)"
  using assms by (intro that [of "m - n"]) linarith+

lemma of_point_pair:
  assumes "is_high (unat c)" and "is_low (unat d)"
  shows "of_point (pair_point (unat c) (unat d)) = [c, d]" "scalar (pair_point (unat c) (unat d))"
proof -
  obtain h where h: "unat c = 0xd800 + h" "h < 0x400"
    using assms(1) surrogate_offset [where n = 55296 and m = "unat c"] unfolding is_high_def by force
  obtain l where l: "unat d = 0xdc00 + l" "l < 0x400"
    using assms(2) surrogate_offset [where n = 56320 and m = "unat d"] unfolding is_low_def by force
  have c: "of_nat (0xd800 + h) = c" and d: "of_nat (0xdc00 + l) = d"
    by (simp_all only: h(1) [symmetric] l(1) [symmetric] of_nat_unat_cu)
  have p: "pair_point (unat c) (unat d) = 0x10000 + (h * 0x400 + l)"
    by (simp only: pair_point_def h(1) l(1) add_diff_cancel_left' add.assoc)
  have q: "(h * 0x400 + l) div 0x400 = h" "(h * 0x400 + l) mod 0x400 = l"
    using l(2) by simp_all
  show "of_point (pair_point (unat c) (unat d)) = [c, d]"
    unfolding p of_point_def by (simp only: add_diff_cancel_left' q c d) simp
  show "scalar (pair_point (unat c) (unat d))"
    using h(2) l(2) unfolding p scalar_def by linarith
qed

lemma of_points_to_points:
  "well_formed s \<Longrightarrow> concat (map of_point (to_points s)) = s \<and> list_all scalar (to_points s)"
proof (induction s rule: well_formed.induct)
  case 1
  then show ?case by simp
next
  case (2 c cs)
  show ?case
  proof (cases "is_high (unat c)")
    case True
    with 2(3) obtain d ds where "cs = d # ds" "is_low (unat d)" "well_formed ds"
      by (auto split: list.splits)
    then show ?thesis using True 2(1) of_point_pair by simp
  next
    case False
    then show ?thesis
      using 2 cu_bound [of c] by (auto simp: of_point_def scalar_def is_high_def is_low_def)
  qed
qed

lemma well_formed_of_point:
  assumes "scalar p"
  shows "well_formed (of_point p @ rest) = well_formed rest"
proof (cases "p < 0x10000")
  case True
  then show ?thesis using of_point_basic [OF assms True] by (simp add: of_point_def)
next
  case False
  with assms show ?thesis by (elim of_point_surrogates) auto
qed

lemma well_formed_of_points: "list_all scalar ps \<Longrightarrow> well_formed (concat (map of_point ps))"
  by (induction ps) (simp_all add: well_formed_of_point)

text \<open>The byte level: bytes are numbers below 256.\<close>

lemma utf8_point_bytes: "scalar p \<Longrightarrow> b \<in> set (utf8_point p) \<Longrightarrow> b < 256"
proof -
  assume a: "scalar p" and b: "b \<in> set (utf8_point p)"
  have m: "x mod 64 < 64" for x :: nat by simp
  have d: "p div 64 < 32" if "p < 0x800" using less_mult_imp_div_less [of p 32 64] that by simp
  have e: "p div 4096 < 16" if "p < 0x10000" using less_mult_imp_div_less [of p 16 4096] that by simp
  have f: "p div 262144 < 5" using less_mult_imp_div_less [of p 5 262144] a by (simp add: scalar_def)
  show "b < 256"
    using b m [of p] m [of "p div 64"] m [of "p div 4096"] d e f
    unfolding utf8_point_def by (auto split: if_splits)
qed

lemma map_unat_of_nat: "(\<forall>b \<in> set ns. b < 256) \<Longrightarrow> map unat (map of_nat ns :: byte list) = ns"
  by (simp add: map_idI unat_of_nat)

lemma map_of_nat_unat: "map of_nat (map unat bs) = (bs :: byte list)"
  by (simp add: map_idI)

lemma text_decode_encode: "well_formed s \<Longrightarrow> text_decode (encode_utf8 s) = Some s"
proof -
  assume "well_formed s"
  then have p: "concat (map of_point (to_points s)) = s" "list_all scalar (to_points s)"
    using of_points_to_points by auto
  have "map unat (encode_utf8 s) = concat (map utf8_point (to_points s))"
    unfolding encode_utf8_def
    by (rule map_unat_of_nat) (use p(2) utf8_point_bytes in \<open>auto simp: list_all_iff\<close>)
  then show ?thesis by (simp add: text_decode_def decode_utf8_points p)
qed

lemma text_decode_SomeD: "text_decode bs = Some s \<Longrightarrow> well_formed s \<and> encode_utf8 s = bs"
proof -
  assume "text_decode bs = Some s"
  then obtain ps where d: "decode_points (map unat bs) = Some ps"
    and s: "s = concat (map of_point ps)"
    by (auto simp: text_decode_def)
  from decode_points_SomeD [OF d] have "list_all scalar ps"
    and c: "concat (map utf8_point ps) = map unat bs" by auto
  then show ?thesis
    by (simp add: s well_formed_of_points encode_utf8_def to_points_of_points map_of_nat_unat
        del: map_map)
qed

text \<open>
  \<open>encodeUtf8\<close> and \<open>decodeUtf8\<close> are a strict codec on well-formed strings: every byte sequence
  that decodes is the encoding of exactly one string.
\<close>

interpretation utf8: strict_codec encode_utf8 text_decode well_formed
  by unfold_locales (auto simp: text_decode_encode dest: text_decode_SomeD)

lemma decode_utf8_eq_Inr: "decode_utf8 bs = Inr s \<longleftrightarrow> well_formed s \<and> bs = encode_utf8 s"
  by (simp add: decode_utf8_def utf8.dec_eq_Some_iff [symmetric] split: option.split)

lemma encode_utf8_inject:
  "well_formed s \<Longrightarrow> well_formed t \<Longrightarrow> encode_utf8 s = encode_utf8 t \<longleftrightarrow> s = t"
  by (rule utf8.enc_inject)

lemma utf8_point_nonempty [simp]: "utf8_point p \<noteq> []"
  by (simp add: utf8_point_def)

lemma encode_utf8_Nil [simp]: "encode_utf8 s = [] \<longleftrightarrow> s = []"
  by (cases s) (auto simp: encode_utf8_def split: list.splits)

lemma encode_utf8_ascii: "(\<forall>c \<in> set s. unat c < 128) \<Longrightarrow> encode_utf8 s = map (of_nat \<circ> unat) s"
  by (induction s) (auto simp: encode_utf8_def utf8_point_def is_high_def is_low_def)

lemma utf8_byte_length_Inr:
  "utf8_byte_length s = Inr n \<longleftrightarrow> wf_scan s \<and> n = length (encode_utf8 s)"
  by (auto simp: utf8_byte_length_def res_simps assert_well_formed_Inr)

end
