(* ===== verification/Json.thy ===== *)
theory Json
  imports Text_Codec
begin

text \<open>
  JSON in \<open>packages/core/src/json.ts\<close>: which values are JSON values, canonical serialization, and
  the two parsers. The libraries the protocol package calls are collected in one record of
  functions, an argument of every definition that uses one of them.
\<close>

section \<open>The libraries the protocol package calls\<close>

text \<open>
  A node of the syntax tree of \<open>jsonc-parser\<close>: its type, its value (\<open>JUndef\<close> when absent) and its
  children (empty when absent). A parsed CID of \<open>multiformats\<close> and a parsed URL of the platform
  have the properties the code reads.
\<close>

datatype jnode = JNode (node_type: jstr) (node_value: jsval) (node_children: "jnode list")

record cid =
  cid_version :: int
  cid_code :: int
  mh_code :: int
  mh_size :: int
  mh_digest :: "byte list"
  cid_base32 :: jstr

record url =
  url_protocol :: jstr
  url_username :: jstr
  url_password :: jstr
  url_hostname :: jstr
  url_host :: jstr
  url_hash :: jstr
  url_href :: jstr

text \<open>
  A call that can throw returns an option. \<open>parse_tree\<close> returns the root, if any, and whether it
  reported errors. \<open>url_with_hash u f\<close> is the text of \<open>u\<close> after \<open>u.hash = f\<close>.
\<close>

record core_lib =
  sha256 :: "byte list \<Rightarrow> byte list"
  bytes_to_hex :: "byte list \<Rightarrow> jstr"
  hex_to_bytes :: "jstr \<Rightarrow> byte list option"
  canonicalize_rfc8785 :: "jsval \<Rightarrow> jstr option"
  parse_tree :: "jstr \<Rightarrow> jnode option \<times> bool"
  json_parse :: "jstr \<Rightarrow> jsval option"
  is_valid_classic_address :: "jstr \<Rightarrow> bool"
  base64url_encode :: "byte list \<Rightarrow> jstr"
  base64url_decode :: "jstr \<Rightarrow> byte list option"
  parse_cid :: "jstr \<Rightarrow> cid option"
  create_raw_cid :: "byte list \<Rightarrow> jstr"
  parse_url :: "jstr \<Rightarrow> url option"
  url_with_hash :: "url \<Rightarrow> jstr \<Rightarrow> jstr"
  tr46_to_ascii :: "jstr \<Rightarrow> jstr option"
  ripple_time_to_iso_time :: "int \<Rightarrow> jstr"

text \<open>
  What the documentation of \<open>@noble/hashes\<close> promises of its hexadecimal functions: two lowercase
  digits for each byte, read back by \<open>hexToBytes\<close>, which ignores the case and rejects
  everything that is not an even number of digits.
\<close>

definition hex_laws :: "'x core_lib_scheme \<Rightarrow> bool" where
  "hex_laws lib \<longleftrightarrow>
     (\<forall>bs. hex_to_bytes lib (bytes_to_hex lib bs) = Some bs) \<and>
     (\<forall>bs. length (bytes_to_hex lib bs) = 2 * length bs) \<and>
     (\<forall>bs. list_all is_lower_hex (bytes_to_hex lib bs)) \<and>
     (\<forall>s bs. hex_to_bytes lib s = Some bs \<longrightarrow> bytes_to_hex lib bs = to_lower s) \<and>
     (\<forall>s. hex_to_bytes lib (to_upper s) = hex_to_bytes lib s)"

text \<open>SHA-256 digests have 32 bytes.\<close>

definition sha256_size :: "'x core_lib_scheme \<Rightarrow> bool" where
  "sha256_size lib \<longleftrightarrow> (\<forall>bs. length (sha256 lib bs) = 32)"

section \<open>JSON values\<close>

text \<open>\<open>assertJsonValueInternal\<close>; the stack of visited objects only serves cyclic values.\<close>

fun assert_json_value_internal :: "jsval \<Rightarrow> jstr \<Rightarrow> cerr + unit"
  and assert_items :: "jsval list \<Rightarrow> nat \<Rightarrow> jstr \<Rightarrow> cerr + unit"
  and assert_entries :: "(jstr \<times> jsval) list \<Rightarrow> jstr \<Rightarrow> cerr + unit" where
  "assert_json_value_internal JNull path = Inr ()"
| "assert_json_value_internal (JBool b) path = Inr ()"
| "assert_json_value_internal (JStr s) path = assert_well_formed s path"
| "assert_json_value_internal (JNum n) path =
     (case n of
        NInfinity _ \<Rightarrow> xcs_fail UNSUPPORTED_JSON_VALUE path
      | NNaN \<Rightarrow> xcs_fail UNSUPPORTED_JSON_VALUE path
      | _ \<Rightarrow> Inr ())"
| "assert_json_value_internal JUndef path = xcs_fail UNSUPPORTED_JSON_VALUE path"
| "assert_json_value_internal JHole path = xcs_fail UNSUPPORTED_JSON_VALUE path"
| "assert_json_value_internal (JOther t) path = xcs_fail UNSUPPORTED_JSON_VALUE path"
| "assert_json_value_internal (JArr xs) path = assert_items xs 0 path"
| "assert_json_value_internal (JObj p kvs) path =
     (if p = Plain then assert_entries kvs path else xcs_fail UNSUPPORTED_JSON_VALUE path)"
| "assert_items [] index path = Inr ()"
| "assert_items (x # xs) index path =
     (if x = JHole then xcs_fail UNSUPPORTED_JSON_VALUE (path_index path index)
      else rbind (assert_json_value_internal x (path_index path index))
             (\<lambda>_. assert_items xs (index + 1) path))"
| "assert_entries [] path = Inr ()"
| "assert_entries ((key, child) # kvs) path =
     rbind (assert_well_formed key path) (\<lambda>_.
     rbind (assert_json_value_internal child (path_key path key)) (\<lambda>_.
       assert_entries kvs path))"

definition assert_json_value :: "jsval \<Rightarrow> cerr + unit" where
  "assert_json_value value = assert_json_value_internal value (lit ''$'')"

text \<open>The values accepted, without paths.\<close>

fun json_value :: "jsval \<Rightarrow> bool" where
  "json_value JNull = True"
| "json_value (JBool b) = True"
| "json_value (JStr s) = wf_scan s"
| "json_value (JNum n) = (case n of NInfinity _ \<Rightarrow> False | NNaN \<Rightarrow> False | _ \<Rightarrow> True)"
| "json_value (JArr xs) = list_all json_value xs"
| "json_value (JObj p kvs) = (p = Plain \<and> list_all (\<lambda>(k, v). wf_scan k \<and> json_value v) kvs)"
| "json_value _ = False"

lemma json_value_not_hole: "json_value v \<Longrightarrow> v \<noteq> JHole"
  by auto

lemma assert_json_value_internal_Inr:
  "assert_json_value_internal v path = Inr u \<longleftrightarrow> json_value v"
  "assert_items xs i path = Inr u \<longleftrightarrow> list_all json_value xs"
  "assert_entries kvs path = Inr u \<longleftrightarrow> list_all (\<lambda>(k, v). wf_scan k \<and> json_value v) kvs"
  by (induction v path and xs i path and kvs path
      rule: assert_json_value_internal_assert_items_assert_entries.induct)
    (auto simp: res_simps assert_well_formed_Inr dest: json_value_not_hole split: jnum.splits)

lemma assert_json_value_Inr: "assert_json_value v = Inr u \<longleftrightarrow> json_value v"
  by (simp add: assert_json_value_def assert_json_value_internal_Inr)

lemma assert_json_value_internal_Inl:
  "assert_json_value_internal v path = Inl e \<Longrightarrow> \<exists>p. e = XcsErr UNSUPPORTED_JSON_VALUE (Some p)"
  "assert_items xs i path = Inl e \<Longrightarrow> \<exists>p. e = XcsErr UNSUPPORTED_JSON_VALUE (Some p)"
  "assert_entries kvs path = Inl e \<Longrightarrow> \<exists>p. e = XcsErr UNSUPPORTED_JSON_VALUE (Some p)"
  by (induction v path and xs i path and kvs path
      rule: assert_json_value_internal_assert_items_assert_entries.induct)
    (auto simp: res_simps xcs_fail_def assert_well_formed_def split: jnum.splits if_splits)

section \<open>Serialization\<close>

definition canonical_json :: "'x core_lib_scheme \<Rightarrow> jsval \<Rightarrow> cerr + jstr" where
  "canonical_json lib value =
     rbind (assert_json_value value) (\<lambda>_.
       case canonicalize_rfc8785 lib value of
         None \<Rightarrow> xcs_fail UNSUPPORTED_JSON_VALUE (lit ''$'')
       | Some serialized \<Rightarrow> Inr serialized)"

definition encode_canonical_json :: "'x core_lib_scheme \<Rightarrow> jsval \<Rightarrow> cerr + byte list" where
  "encode_canonical_json lib value = rbind (canonical_json lib value) (\<lambda>s. Inr (encode_utf8 s))"

definition encode_hex_utf8 :: "'x core_lib_scheme \<Rightarrow> jstr \<Rightarrow> jstr" where
  "encode_hex_utf8 lib value = bytes_to_hex lib (encode_utf8 value)"

definition decode_hex_utf8 :: "'x core_lib_scheme \<Rightarrow> jstr \<Rightarrow> cerr + jstr" where
  "decode_hex_utf8 lib value =
     (case hex_to_bytes lib value of None \<Rightarrow> Inl HostErr | Some bytes \<Rightarrow> decode_utf8 bytes)"

definition sha256_hex :: "'x core_lib_scheme \<Rightarrow> byte list \<Rightarrow> jstr" where
  "sha256_hex lib value = bytes_to_hex lib (sha256 lib value)"

lemma canonical_json_Inr:
  "canonical_json lib v = Inr s \<longleftrightarrow> json_value v \<and> canonicalize_rfc8785 lib v = Some s"
  by (auto simp: canonical_json_def res_simps assert_json_value_Inr split: option.splits)

lemma encode_canonical_json_Inr:
  "encode_canonical_json lib v = Inr bs \<longleftrightarrow>
     (\<exists>s. canonical_json lib v = Inr s \<and> bs = encode_utf8 s)"
  by (auto simp: encode_canonical_json_def res_simps)

lemma hex_roundtrip:
  "hex_laws lib \<Longrightarrow> well_formed s \<Longrightarrow> decode_hex_utf8 lib (encode_hex_utf8 lib s) = Inr s"
  by (simp add: hex_laws_def decode_hex_utf8_def encode_hex_utf8_def decode_utf8_eq_Inr)

lemma bytes_to_hex_inject: "hex_laws lib \<Longrightarrow> bytes_to_hex lib a = bytes_to_hex lib b \<longleftrightarrow> a = b"
  unfolding hex_laws_def by (metis option.inject)

lemma sha256_hex_hash64: "hex_laws lib \<Longrightarrow> sha256_size lib \<Longrightarrow> hash64 (sha256_hex lib bs)"
  by (simp add: hex_laws_def sha256_size_def sha256_hex_def hash64_def)

section \<open>Parsing\<close>

text \<open>The argument \<open>string | Uint8Array\<close>.\<close>

datatype content = Text jstr | Bytes "byte list"

text \<open>\<open>rejectDuplicateObjectKeys\<close>; \<open>reject_properties\<close> is its loop, with the keys seen so far.\<close>

fun reject_duplicate_object_keys :: "jnode \<Rightarrow> cerr + unit"
  and reject_properties :: "jstr list \<Rightarrow> jnode list \<Rightarrow> cerr + unit"
  and reject_children :: "jnode list \<Rightarrow> cerr + unit" where
  "reject_duplicate_object_keys (JNode t v children) =
     (if t = lit ''object'' then reject_properties [] children else reject_children children)"
| "reject_properties keys [] = Inr ()"
| "reject_properties keys (JNode pt pv pcs # properties) =
     (case pcs of
        JNode kt (JStr key) kcs # value_node # _ \<Rightarrow>
          (if key \<in> set keys then xcs_fail INVALID_JSON (lit ''$'')
           else rbind (reject_duplicate_object_keys value_node)
                  (\<lambda>_. reject_properties (key # keys) properties))
      | _ \<Rightarrow> xcs_fail INVALID_JSON (lit ''$''))"
| "reject_children [] = Inr ()"
| "reject_children (child # children) =
     rbind (reject_duplicate_object_keys child) (\<lambda>_. reject_children children)"

definition content_text :: "content \<Rightarrow> cerr + jstr" where
  "content_text input = (case input of Text s \<Rightarrow> Inr s | Bytes bs \<Rightarrow> decode_utf8 bs)"

definition parse_json :: "'x core_lib_scheme \<Rightarrow> content \<Rightarrow> cerr + jsval" where
  "parse_json lib input =
     rbind (content_text input) (\<lambda>text.
       case fst (parse_tree lib text) of
         None \<Rightarrow> xcs_fail INVALID_JSON (lit ''$'')
       | Some root \<Rightarrow>
           if snd (parse_tree lib text) then xcs_fail INVALID_JSON (lit ''$'')
           else rbind (reject_duplicate_object_keys root) (\<lambda>_.
             case json_parse lib text of
               None \<Rightarrow> Inl SyntaxErr
             | Some parsed \<Rightarrow> rbind (assert_json_value parsed) (\<lambda>_. Inr parsed)))"

definition parse_canonical_json :: "'x core_lib_scheme \<Rightarrow> content \<Rightarrow> cerr + jsval" where
  "parse_canonical_json lib input =
     rbind (content_text input) (\<lambda>text.
     rbind (parse_json lib (Text text)) (\<lambda>parsed.
     rbind (canonical_json lib parsed) (\<lambda>canonical.
       if canonical \<noteq> text then xcs_fail NON_CANONICAL_JSON (lit ''$'')
       else rbind (assert_json_value parsed) (\<lambda>_. Inr parsed))))"

text \<open>No object of a tree that passes has two members of the same name.\<close>

fun node_keys :: "jnode list \<Rightarrow> jsval list" where
  "node_keys [] = []"
| "node_keys (JNode t v cs # ps) = (case cs of [] \<Rightarrow> [JUndef] | k # _ \<Rightarrow> [node_value k]) @ node_keys ps"

inductive subnode :: "jnode \<Rightarrow> jnode \<Rightarrow> bool" where
  subnode_refl: "subnode n n"
| subnode_item: "t \<noteq> lit ''object'' \<Longrightarrow> c \<in> set cs \<Longrightarrow> subnode m c \<Longrightarrow> subnode m (JNode t v cs)"
| subnode_member: "t = lit ''object'' \<Longrightarrow> JNode pt pv (k # c # rest) \<in> set cs \<Longrightarrow> subnode m c \<Longrightarrow>
    subnode m (JNode t v cs)"

lemma reject_properties_members:
  "reject_properties keys ps = Inr () \<Longrightarrow> JNode pt pv (k # c # rest) \<in> set ps \<Longrightarrow>
    reject_duplicate_object_keys c = Inr ()"
  by (induction ps arbitrary: keys rule: node_keys.induct)
    (auto simp: res_simps split: list.splits jnode.splits jsval.splits if_splits)

lemma reject_children_items:
  "reject_children cs = Inr () \<Longrightarrow> c \<in> set cs \<Longrightarrow> reject_duplicate_object_keys c = Inr ()"
  by (induction cs) (auto simp: res_simps)

lemma reject_properties_distinct:
  "reject_properties keys ps = Inr () \<Longrightarrow>
    distinct (node_keys ps) \<and> set (node_keys ps) \<inter> JStr ` set keys = {}"
proof (induction ps arbitrary: keys rule: node_keys.induct)
  case 1
  then show ?case by simp
next
  case (2 t v cs ps)
  from 2(2) obtain kt key kcs c rest where cs: "cs = JNode kt (JStr key) kcs # c # rest"
    and k: "key \<notin> set keys" and r: "reject_properties (key # keys) ps = Inr ()"
    by (auto simp: res_simps split: list.splits jnode.splits jsval.splits if_splits)
  from 2(1) [OF r] k show ?case by (auto simp: cs)
qed

lemma reject_duplicates_subnode:
  "subnode m n \<Longrightarrow> reject_duplicate_object_keys n = Inr () \<Longrightarrow>
    reject_duplicate_object_keys m = Inr ()"
  by (induction rule: subnode.induct)
    (auto dest: reject_properties_members reject_children_items)

lemma reject_duplicates_distinct:
  "reject_duplicate_object_keys n = Inr () \<Longrightarrow> subnode (JNode (lit ''object'') v ps) n \<Longrightarrow>
    distinct (node_keys ps)"
  using reject_duplicates_subnode reject_properties_distinct by fastforce

lemma parse_json_Inr:
  "parse_json lib input = Inr v \<longleftrightarrow>
     (\<exists>text root. content_text input = Inr text \<and> parse_tree lib text = (Some root, False) \<and>
        reject_duplicate_object_keys root = Inr () \<and> json_parse lib text = Some v \<and> json_value v)"
  by (auto simp: parse_json_def res_simps assert_json_value_Inr prod_eq_iff)

lemma parse_canonical_json_Inr:
  "parse_canonical_json lib input = Inr v \<longleftrightarrow>
     (\<exists>text. content_text input = Inr text \<and> parse_json lib (Text text) = Inr v \<and>
        canonical_json lib v = Inr text)"
  by (auto simp: parse_canonical_json_def res_simps assert_json_value_Inr parse_json_Inr
      split: if_splits)

text \<open>Canonical bytes are the encoding of the value they parse to.\<close>

lemma parse_canonical_bytes_encode:
  "parse_canonical_json lib (Bytes bs) = Inr v \<Longrightarrow> encode_canonical_json lib v = Inr bs"
  by (auto simp: parse_canonical_json_Inr content_text_def decode_utf8_eq_Inr
      encode_canonical_json_Inr)

end
