(* ===== verification/Network_Profile.thy ===== *)
theory Network_Profile
  imports Json
begin

text \<open>
  Network profiles (\<open>packages/core/src/network.ts\<close>): parsing to the normal form, and the
  conversion of ledger times.
\<close>

record network_profile =
  profile_id :: jstr
  profile_network_id :: int
  required_amendment :: jstr
  registry_address :: jstr
  activation_ledger_index :: int
  activation_ledger_hash :: jstr

text \<open>The object the code returns; two of its properties are constants.\<close>

definition profile_value :: "network_profile \<Rightarrow> jsval" where
  "profile_value p = JObj Plain
     [(lit ''profileId'', JStr (profile_id p)),
      (lit ''xcsVersion'', jlit ''0.1''),
      (lit ''networkId'', jint (profile_network_id p)),
      (lit ''requiredAmendment'', JStr (required_amendment p)),
      (lit ''registryAddress'', JStr (registry_address p)),
      (lit ''registrationAmountDrops'', jlit ''1''),
      (lit ''activationLedgerIndex'', jint (activation_ledger_index p)),
      (lit ''activationLedgerHash'', JStr (activation_ledger_hash p))]"

definition PROFILE_PROPERTIES :: "string list" where
  "PROFILE_PROPERTIES =
     [''profileId'', ''xcsVersion'', ''networkId'', ''requiredAmendment'', ''registryAddress'',
      ''registrationAmountDrops'', ''activationLedgerIndex'', ''activationLedgerHash'']"

text \<open>\<open>/^[a-z0-9][a-z0-9._-]{0,127}$/\<close>\<close>

definition profile_id_pattern :: "jstr \<Rightarrow> bool" where
  "profile_id_pattern s \<longleftrightarrow>
     (case s of
        [] \<Rightarrow> False
      | c # cs \<Rightarrow> (is_lower c \<or> is_digit c) \<and> length cs \<le> 127 \<and>
          list_all (\<lambda>d. is_lower d \<or> is_digit d \<or> d \<in> set (lit ''._-'')) cs)"

abbreviation profile_fail :: "string \<Rightarrow> cerr + 'a" where
  "profile_fail path \<equiv> xcs_fail INVALID_NETWORK_PROFILE (lit path)"

definition parse_network_profile :: "'x core_lib_scheme \<Rightarrow> jsval \<Rightarrow> cerr + network_profile" where
  "parse_network_profile lib input =
     (if \<not> is_record input then profile_fail ''$''
      else
        rbind (assert_only_properties INVALID_NETWORK_PROFILE input PROFILE_PROPERTIES (lit ''$''))
         (\<lambda>_.
        if \<not> string_that profile_id_pattern (get input ''profileId'')
          then profile_fail ''$.profileId''
        else if get input ''xcsVersion'' \<noteq> jlit ''0.1'' then profile_fail ''$.xcsVersion''
        else if \<not> is_uint32 (get input ''networkId'') then profile_fail ''$.networkId''
        else if \<not> string_that hash64_any (get input ''requiredAmendment'')
          then profile_fail ''$.requiredAmendment''
        else if \<not> string_that (is_valid_classic_address lib) (get input ''registryAddress'')
          then profile_fail ''$.registryAddress''
        else if get input ''registrationAmountDrops'' \<noteq> jlit ''1''
          then profile_fail ''$.registrationAmountDrops''
        else if \<not> is_uint32 (get input ''activationLedgerIndex'')
               \<or> get input ''activationLedgerIndex'' = jint 0
          then profile_fail ''$.activationLedgerIndex''
        else if \<not> string_that hash64_any (get input ''activationLedgerHash'')
          then profile_fail ''$.activationLedgerHash''
        else Inr
          \<lparr>profile_id = str_of (get input ''profileId''),
           profile_network_id = int_of (get input ''networkId''),
           required_amendment = to_upper (str_of (get input ''requiredAmendment'')),
           registry_address = str_of (get input ''registryAddress''),
           activation_ledger_index = int_of (get input ''activationLedgerIndex''),
           activation_ledger_hash = to_lower (str_of (get input ''activationLedgerHash''))\<rparr>))"

definition ripple_time_to_iso :: "'x core_lib_scheme \<Rightarrow> jnum \<Rightarrow> cerr + jstr" where
  "ripple_time_to_iso lib ripple_time =
     (case ripple_time of
        NInt n \<Rightarrow> if 0 \<le> n \<and> n \<le> uint32_max then Inr (ripple_time_to_iso_time lib n)
                  else xcs_fail INVALID_RIPPLE_TIME (lit ''$time'')
      | _ \<Rightarrow> xcs_fail INVALID_RIPPLE_TIME (lit ''$time''))"

section \<open>The normal form\<close>

definition profile_ok :: "'x core_lib_scheme \<Rightarrow> network_profile \<Rightarrow> bool" where
  "profile_ok lib p \<longleftrightarrow>
     profile_id_pattern (profile_id p) \<and>
     0 \<le> profile_network_id p \<and> profile_network_id p \<le> uint32_max \<and>
     hash64_any (required_amendment p) \<and> to_upper (required_amendment p) = required_amendment p \<and>
     is_valid_classic_address lib (registry_address p) \<and>
     0 < activation_ledger_index p \<and> activation_ledger_index p \<le> uint32_max \<and>
     hash64 (activation_ledger_hash p)"

lemma parse_network_profile_ok:
  "parse_network_profile lib v = Inr p \<Longrightarrow> profile_ok lib p"
  by (auto simp: parse_network_profile_def res_simps profile_ok_def string_that_iff is_uint32_iff
      hash64_any_upper hash64_any_lower)

lemma profile_value_get:
  "get (profile_value p) ''profileId'' = JStr (profile_id p)"
  "get (profile_value p) ''xcsVersion'' = jlit ''0.1''"
  "get (profile_value p) ''networkId'' = jint (profile_network_id p)"
  "get (profile_value p) ''requiredAmendment'' = JStr (required_amendment p)"
  "get (profile_value p) ''registryAddress'' = JStr (registry_address p)"
  "get (profile_value p) ''registrationAmountDrops'' = jlit ''1''"
  "get (profile_value p) ''activationLedgerIndex'' = jint (activation_ledger_index p)"
  "get (profile_value p) ''activationLedgerHash'' = JStr (activation_ledger_hash p)"
  by (simp_all add: profile_value_def prop_of_JObj)

lemma parse_profile_value:
  "profile_ok lib p \<Longrightarrow> parse_network_profile lib (profile_value p) = Inr p"
proof -
  assume ok: "profile_ok lib p"
  have "is_record (profile_value p)" by (simp add: profile_value_def)
  moreover have "assert_only_properties INVALID_NETWORK_PROFILE (profile_value p)
      PROFILE_PROPERTIES (lit ''$'') = Inr ()"
    by (simp add: assert_only_properties_Inr profile_value_def PROFILE_PROPERTIES_def)
  ultimately show ?thesis
    using ok unfolding profile_ok_def
    by (simp add: parse_network_profile_def profile_value_get hash64_imp_any hash64_lower)
qed

text \<open>A profile is a result of the parser exactly when it is in normal form.\<close>

interpretation profile: codec profile_value "\<lambda>v. res_option (parse_network_profile lib v)"
  "profile_ok lib" for lib
  by unfold_locales (simp add: parse_profile_value)

end
