(* ===== verification/Canonical.thy ===== *)
theory Canonical
  imports Json "HOL-Library.List_Lexorder"
begin

text \<open>
  What RFC 8785 promises of canonical text: it exists for every JSON value with exact numbers and
  determines the value up to the order of object members. \<open>sort_keys\<close> is the normal form.
\<close>

text \<open>The keys of a JavaScript object are distinct.\<close>

fun js_keys :: "jsval \<Rightarrow> bool" where
  "js_keys (JArr xs) = list_all js_keys xs"
| "js_keys (JObj p kvs) = (distinct (map fst kvs) \<and> list_all (\<lambda>(k, v). js_keys v) kvs)"
| "js_keys _ = True"

lemma js_keys_entries: "js_keys v \<Longrightarrow>
    distinct (map fst (entries_of v)) \<and> list_all (\<lambda>(k, v). js_keys v) (entries_of v)"
  by (cases v) auto

lemma js_keys_prop: "js_keys v \<Longrightarrow> js_keys (prop_of v k)"
  using js_keys_entries [of v]
  by (auto simp: prop_of_def list_all_iff split: option.split dest!: map_of_SomeD)

section \<open>Canonical text determines the value\<close>

text \<open>
  RFC 8785 sorts the members of every object, so the text of a value determines it up to their
  order. \<open>sort_keys\<close> is that normal form.
\<close>

fun sort_keys :: "jsval \<Rightarrow> jsval" where
  "sort_keys (JArr xs) = JArr (map sort_keys xs)"
| "sort_keys (JObj p kvs) = JObj p (sort_key fst (map (\<lambda>(k, v). (k, sort_keys v)) kvs))"
| "sort_keys v = v"

text \<open>Values whose numbers are integers a double holds exactly, the only numbers of a preimage.\<close>

fun exact_numbers :: "jsval \<Rightarrow> bool" where
  "exact_numbers (JNum n) = (case n of NInt i \<Rightarrow> \<bar>i\<bar> \<le> 2 ^ 53 | _ \<Rightarrow> False)"
| "exact_numbers (JArr xs) = list_all exact_numbers xs"
| "exact_numbers (JObj p kvs) = list_all (\<lambda>(k, v). exact_numbers v) kvs"
| "exact_numbers v = True"

text \<open>
  The canonical text of such a value exists, is well-formed text, and is the same for two values
  exactly when they differ in the order of members only.
\<close>

definition canonical_laws :: "'x core_lib_scheme \<Rightarrow> bool" where
  "canonical_laws lib \<longleftrightarrow>
     (\<forall>v. json_value v \<and> js_keys v \<and> exact_numbers v \<longrightarrow>
        (\<exists>s. canonicalize_rfc8785 lib v = Some s \<and> well_formed s)) \<and>
     (\<forall>v w. json_value v \<and> js_keys v \<and> exact_numbers v \<and>
        json_value w \<and> js_keys w \<and> exact_numbers w \<longrightarrow>
        (canonicalize_rfc8785 lib v = canonicalize_rfc8785 lib w \<longleftrightarrow> sort_keys v = sort_keys w))"

lemma distinct_fst_sort_key: "distinct (map fst (sort_key fst kvs)) = distinct (map fst kvs)"
  by (metis card_distinct distinct_card length_map length_sort set_map set_sort)

lemma map_of_sort_key:
  assumes "distinct (map fst kvs)"
  shows "map_of (sort_key fst kvs) = map_of kvs"
proof
  fix k
  have "map_of (sort_key fst kvs) k = Some v \<longleftrightarrow> map_of kvs k = Some v" for v
    using assms distinct_fst_sort_key [of kvs] by (simp add: map_of_eq_Some_iff)
  then show "map_of (sort_key fst kvs) k = map_of kvs k"
    by (metis option.exhaust)
qed

lemma fst_sort_map: "map fst (map (\<lambda>(k, v). (k, f v)) kvs) = map fst kvs"
  by (simp add: case_prod_unfold o_def)

lemma prop_of_sort_keys:
  assumes "distinct (map fst (entries_of v))"
  shows "prop_of (sort_keys v) k = sort_keys (prop_of v k)"
proof (cases v)
  case (JObj p kvs)
  then have "distinct (map fst (map (\<lambda>(k, v). (k, sort_keys v)) kvs))"
    using assms by (simp only: fst_sort_map entries_of.simps)
  from map_of_sort_key [OF this] show ?thesis
    by (simp add: JObj prop_of_JObj map_of_map split: option.split)
qed (simp_all add: prop_of_def)

text \<open>Objects with the same normal form have properties with the same normal form.\<close>

lemma sort_keys_prop:
  "sort_keys v = sort_keys w \<Longrightarrow> js_keys v \<Longrightarrow> js_keys w \<Longrightarrow>
     sort_keys (prop_of v k) = sort_keys (prop_of w k)"
  using prop_of_sort_keys js_keys_entries by metis

lemma sort_keys_JStr: "sort_keys v = JStr s \<longleftrightarrow> v = JStr s"
  by (cases v) auto

lemma sort_keys_JNum: "sort_keys v = JNum n \<longleftrightarrow> v = JNum n"
  by (cases v) auto

lemma sort_keys_same_entries:
  assumes "distinct (map fst kvs)" and "distinct (map fst cs)"
    and "set (map (\<lambda>(k, v). (k, sort_keys v)) kvs) = set (map (\<lambda>(k, v). (k, sort_keys v)) cs)"
  shows "sort_keys (JObj p kvs) = sort_keys (JObj p cs)"
proof -
  let ?f = "\<lambda>kvs. sort_key fst (map (\<lambda>(k, v). (k, sort_keys v)) kvs)"
  have d: "distinct (map fst (?f kvs))" "distinct (map fst (?f cs))"
    using assms(1,2) by (simp_all only: distinct_fst_sort_key fst_sort_map)
  have "?f kvs = ?f cs"
  proof (rule map_sorted_distinct_set_unique)
    show "inj_on fst (set (?f kvs) \<union> set (?f cs))"
      using d(1) assms(3) by (simp only: set_sort distinct_map Un_absorb)
    show "sorted (map fst (?f kvs))" "sorted (map fst (?f cs))" by simp_all
    show "set (?f kvs) = set (?f cs)" using assms(3) by (simp only: set_sort)
    show "distinct (map fst (?f kvs))" "distinct (map fst (?f cs))" by (fact d)+
  qed
  then show ?thesis by simp
qed

lemma sort_keys_JBool: "sort_keys v = JBool b \<longleftrightarrow> v = JBool b"
  by (cases v) auto

lemma sort_keys_JHole: "sort_keys v = JHole \<longleftrightarrow> v = JHole"
  by (cases v) auto

lemma sort_keys_JArr: "sort_keys v = JArr ys \<longleftrightarrow> (\<exists>xs. v = JArr xs \<and> ys = map sort_keys xs)"
  by (cases v) auto

lemma is_record_sort_keys: "is_record (sort_keys v) = is_record v"
  by (cases v) auto

lemma entries_sort_keys: "fst ` set (entries_of (sort_keys v)) = fst ` set (entries_of v)"
  by (cases v) (auto simp: image_image case_prod_unfold)

lemma json_value_sort_keys: "json_value (sort_keys v) = json_value v"
  by (induction v) (auto simp: list_all_iff split: prod.splits)

lemma exact_numbers_sort_keys: "exact_numbers (sort_keys v) = exact_numbers v"
  by (induction v) (auto simp: list_all_iff split: prod.splits)

lemma js_keys_sort_keys: "js_keys (sort_keys v) = js_keys v"
proof (induction v)
  case (JObj p kvs)
  have "distinct (map fst (sort_key fst (map (\<lambda>(k, v). (k, sort_keys v)) kvs))) =
      distinct (map fst kvs)"
    by (simp only: distinct_fst_sort_key fst_sort_map)
  with JObj show ?case by (auto simp: list_all_iff)
qed (auto simp: list_all_iff)

lemma json_value_same: "sort_keys v = sort_keys w \<Longrightarrow> json_value v = json_value w"
  by (metis json_value_sort_keys)

lemma exact_numbers_same: "sort_keys v = sort_keys w \<Longrightarrow> exact_numbers v = exact_numbers w"
  by (metis exact_numbers_sort_keys)

lemma js_keys_same: "sort_keys v = sort_keys w \<Longrightarrow> js_keys v = js_keys w"
  by (metis js_keys_sort_keys)

text \<open>\<open>JSON.parse\<close> reads canonical text back, and the syntax tree of it has no duplicate key.\<close>

definition parses_back :: "'x core_lib_scheme \<Rightarrow> jsval \<Rightarrow> bool" where
  "parses_back lib v \<longleftrightarrow>
     (\<forall>s. canonicalize_rfc8785 lib v = Some s \<longrightarrow>
        (\<exists>root w. parse_tree lib s = (Some root, False) \<and>
           reject_duplicate_object_keys root = Inr () \<and>
           json_parse lib s = Some w \<and> sort_keys w = sort_keys v))"

lemma parse_canonical_encoded:
  assumes "canonical_laws lib" and "parses_back lib v" and "js_keys v" and "exact_numbers v"
    and "encode_canonical_json lib v = Inr bs"
  shows "\<exists>w. parse_canonical_json lib (Bytes bs) = Inr w \<and> sort_keys w = sort_keys v"
proof -
  from assms(5) obtain s where s: "json_value v" "canonicalize_rfc8785 lib v = Some s"
    and bs: "bs = encode_utf8 s"
    by (auto simp: encode_canonical_json_Inr canonical_json_Inr)
  have "well_formed s"
    using assms(1,3,4) s unfolding canonical_laws_def by (metis option.inject)
  then have d: "decode_utf8 bs = Inr s" by (simp add: decode_utf8_eq_Inr bs)
  from assms(2) s obtain root w where w: "parse_tree lib s = (Some root, False)"
    "reject_duplicate_object_keys root = Inr ()" "json_parse lib s = Some w"
    and sw: "sort_keys w = sort_keys v"
    by (auto simp: parses_back_def)
  have jw: "json_value w" "js_keys w" "exact_numbers w"
    using sw s(1) assms(3,4) json_value_same js_keys_same exact_numbers_same by blast+
  have "canonicalize_rfc8785 lib w = canonicalize_rfc8785 lib v"
    using assms(1,3,4) s(1) jw sw unfolding canonical_laws_def by blast
  then show ?thesis
    using d w jw(1) s(2) sw
    by (auto simp: parse_canonical_json_Inr parse_json_Inr canonical_json_Inr content_text_def)
qed

end
