(* ===== verification/Schema.thy ===== *)
theory Schema
  imports Canonical
begin

text \<open>
  Schemas (\<open>packages/core/src/schema.ts\<close>): the parser from a JSON value to a schema definition,
  its encoding, and the count of field descriptors. Main results: the parser's results are
  exactly the well-formed schemas, with the counter of the parser equal to \<open>countSchemaFields\<close>.
\<close>

section \<open>Data\<close>

datatype scalar_type = TString | TBool | TUint | TInt | TBytes | TAddress

text \<open>The last argument is \<open>optional === true\<close>.\<close>

datatype descriptor =
    Scalar scalar_type bool
  | ArrayOf descriptor bool
  | ObjectOf "(jstr \<times> descriptor) list" bool

type_synonym schema_fields = "(jstr \<times> descriptor) list"

fun is_optional :: "descriptor \<Rightarrow> bool" where
  "is_optional (Scalar t opt) = opt"
| "is_optional (ArrayOf d opt) = opt"
| "is_optional (ObjectOf fs opt) = opt"

record schema_definition =
  schema_name :: jstr
  description :: jstr
  schema_fields :: schema_fields
  extends :: "jstr option"
  supersedes :: "jstr option"

record registered_schema =
  registered_uid :: jstr
  registered_definition :: jsval
  registered_publisher :: jstr
  registered_network_id :: jnum
  registered_ledger_index :: jnum
  registered_transaction_index :: jnum

record resolved_schema =
  resolved_definition :: schema_definition
  resolved_fields :: schema_fields
  lineage :: "jstr list"

definition MAX_SCHEMA_DEPTH :: nat where "MAX_SCHEMA_DEPTH = 16"
definition MAX_SCHEMA_FIELDS :: nat where "MAX_SCHEMA_FIELDS = 256"

definition SCHEMA_PROPERTIES :: "string list" where
  "SCHEMA_PROPERTIES =
     [''xcsVersion'', ''name'', ''description'', ''extends'', ''supersedes'', ''fields'']"

text \<open>\<open>/^[A-Za-z_][A-Za-z0-9_]{0,63}$/\<close> and the control characters C0, DEL and C1.\<close>

definition field_name :: "jstr \<Rightarrow> bool" where
  "field_name s \<longleftrightarrow>
     (case s of [] \<Rightarrow> False
      | c # cs \<Rightarrow> is_name_start c \<and> length cs \<le> 63 \<and> list_all is_name_char cs)"

definition is_control :: "cu \<Rightarrow> bool" where
  "is_control c \<longleftrightarrow> unat c \<le> 0x1f \<or> (0x7f \<le> unat c \<and> unat c \<le> 0x9f)"

fun scalar_name :: "scalar_type \<Rightarrow> jstr" where
  "scalar_name TString = lit ''string''"
| "scalar_name TBool = lit ''bool''"
| "scalar_name TUint = lit ''uint''"
| "scalar_name TInt = lit ''int''"
| "scalar_name TBytes = lit ''bytes''"
| "scalar_name TAddress = lit ''address''"

definition SCALAR_TYPES :: "(jstr \<times> scalar_type) list" where
  "SCALAR_TYPES =
     map (\<lambda>t. (scalar_name t, t)) [TString, TBool, TUint, TInt, TBytes, TAddress]"

section \<open>Parsing\<close>

abbreviation schema_fail :: "jstr \<Rightarrow> cerr + 'a" where
  "schema_fail path \<equiv> xcs_fail INVALID_SCHEMA path"

abbreviation sub_path :: "jstr \<Rightarrow> string \<Rightarrow> jstr" where
  "sub_path path s \<equiv> path @ lit s"

definition parse_text :: "jsval \<Rightarrow> jstr \<Rightarrow> nat \<Rightarrow> cerr + jstr" where
  "parse_text value path max_bytes =
     (case value of
        JStr s \<Rightarrow>
          if list_ex is_control s then schema_fail path
          else rbind (utf8_byte_length s) (\<lambda>len.
            if len < 1 \<or> max_bytes < len then schema_fail path else Inr s)
      | _ \<Rightarrow> schema_fail path)"

definition assert_field_limit :: "nat \<Rightarrow> jstr \<Rightarrow> cerr + unit" where
  "assert_field_limit count path =
     (if MAX_SCHEMA_FIELDS < count then schema_fail path else Inr ())"

text \<open>The size of a value, for the recursion of the parser.\<close>

fun weight :: "jsval \<Rightarrow> nat" where
  "weight (JArr xs) = 1 + sum_list (map (\<lambda>x. 1 + weight x) xs)"
| "weight (JObj p kvs) = 1 + sum_list (map (\<lambda>(k, v). 1 + weight v) kvs)"
| "weight _ = 0"

lemma weight_entry: "map_of kvs k = Some v \<Longrightarrow> weight v < weight (JObj p kvs)"
  by (induction kvs) (auto split: if_splits)

lemma weight_prop: "is_record v \<Longrightarrow> weight (prop_of v k) < weight v"
  using weight_entry by (auto simp: is_record_iff prop_of_JObj split: option.split)

text \<open>
  \<open>parseDescriptor\<close> and \<open>parseFields\<close>; the mutable counter is threaded through the results.
  \<open>parse_entries\<close> is the loop of \<open>parseFields\<close>.
\<close>

function (sequential) parse_descriptor ::
    "jsval \<Rightarrow> jstr \<Rightarrow> nat \<Rightarrow> nat \<Rightarrow> cerr + descriptor \<times> nat"
  and parse_fields :: "jsval \<Rightarrow> jstr \<Rightarrow> nat \<Rightarrow> nat \<Rightarrow> cerr + schema_fields \<times> nat"
  and parse_entries ::
    "(jstr \<times> jsval) list \<Rightarrow> jstr \<Rightarrow> nat \<Rightarrow> nat \<Rightarrow> cerr + schema_fields \<times> nat" where
  "parse_descriptor input path depth count =
     (if \<not> is_record input then schema_fail path
      else case get input ''type'' of
        JStr ty \<Rightarrow>
          if (case get input ''optional'' of JUndef \<Rightarrow> False | JBool _ \<Rightarrow> False | _ \<Rightarrow> True)
          then schema_fail (sub_path path ''.optional'')
          else (let optional = (get input ''optional'' = JBool True) in
            case map_of SCALAR_TYPES ty of
              Some t \<Rightarrow>
                rbind (assert_only_properties INVALID_SCHEMA input [''type'', ''optional''] path)
                  (\<lambda>_. Inr (Scalar t optional, count))
            | None \<Rightarrow>
              if ty = lit ''array'' then
                rbind (assert_only_properties INVALID_SCHEMA input
                         [''type'', ''optional'', ''items''] path) (\<lambda>_.
                if MAX_SCHEMA_DEPTH \<le> depth \<or> get input ''items'' = JUndef then schema_fail path
                else rbind (assert_field_limit (count + 1) (sub_path path ''.items'')) (\<lambda>_.
                  rbind (parse_descriptor (get input ''items'') (sub_path path ''.items'')
                           (depth + 1) (count + 1)) (\<lambda>(items, count).
                    Inr (ArrayOf items optional, count))))
              else if ty = lit ''object'' then
                rbind (assert_only_properties INVALID_SCHEMA input
                         [''type'', ''optional'', ''fields''] path) (\<lambda>_.
                if MAX_SCHEMA_DEPTH \<le> depth then schema_fail path
                else rbind (parse_fields (get input ''fields'') (sub_path path ''.fields'')
                              (depth + 1) count) (\<lambda>(fields, count).
                  Inr (ObjectOf fields optional, count)))
              else schema_fail (sub_path path ''.type''))
      | _ \<Rightarrow> schema_fail path)"
| "parse_fields input path depth count =
     (if \<not> is_record input \<or> entries_of input = [] then schema_fail path
      else parse_entries (entries_of input) path depth count)"
| "parse_entries [] path depth count = Inr ([], count)"
| "parse_entries ((name, d) # entries) path depth count =
     (if \<not> field_name name then schema_fail (path_key path name)
      else rbind (assert_field_limit (count + 1) (path_key path name)) (\<lambda>_.
        rbind (parse_descriptor d (path_key path name) depth (count + 1)) (\<lambda>(descriptor, count).
        rbind (parse_entries entries path depth count) (\<lambda>(fields, count).
          Inr ((name, descriptor) # fields, count)))))"
  by pat_completeness auto
termination
  apply (relation "measure (\<lambda>x. case x of
        Inl (v, _, _, _) \<Rightarrow> 2 * weight v
      | Inr (Inl (v, _, _, _)) \<Rightarrow> 2 * weight v + 1
      | Inr (Inr (kvs, _, _, _)) \<Rightarrow> 2 * sum_list (map (\<lambda>(k, v). 1 + weight v) kvs))")
  subgoal by simp
  subgoal for input using weight_prop [of input "lit ''items''"] by simp
  subgoal for input using weight_prop [of input "lit ''fields''"] by simp
  subgoal by (auto simp: is_record_iff)
  subgoal by simp
  subgoal by simp
  done

declare parse_descriptor.simps [simp del] parse_fields.simps [simp del]

definition parse_relation :: "jsval \<Rightarrow> jstr \<Rightarrow> cerr + jstr option" where
  "parse_relation value path =
     (case value of
        JUndef \<Rightarrow> Inr None
      | JStr s \<Rightarrow> if hash64 s then Inr (Some s) else schema_fail path
      | _ \<Rightarrow> schema_fail path)"

definition parse_schema :: "jsval \<Rightarrow> cerr + schema_definition" where
  "parse_schema input =
     (if \<not> is_record input then schema_fail (lit ''$'')
      else
        rbind (assert_only_properties INVALID_SCHEMA input SCHEMA_PROPERTIES (lit ''$'')) (\<lambda>_.
        if get input ''xcsVersion'' \<noteq> jlit ''0.1'' then schema_fail (lit ''$.xcsVersion'')
        else
          rbind (parse_relation (get input ''extends'') (lit ''$.extends'')) (\<lambda>parent.
          rbind (parse_relation (get input ''supersedes'') (lit ''$.supersedes'')) (\<lambda>predecessor.
          if parent \<noteq> None \<and> parent = predecessor then schema_fail (lit ''$'')
          else
            rbind (parse_text (get input ''name'') (lit ''$.name'') 64) (\<lambda>name.
            rbind (parse_text (get input ''description'') (lit ''$.description'') 256) (\<lambda>desc.
            rbind (parse_fields (get input ''fields'') (lit ''$.fields'') 1 0) (\<lambda>(fields, _).
              Inr \<lparr>schema_name = name, description = desc, schema_fields = fields,
                   extends = parent, supersedes = predecessor\<rparr>)))))))"

definition parse_schema_bytes :: "'x core_lib_scheme \<Rightarrow> byte list \<Rightarrow> cerr + schema_definition" where
  "parse_schema_bytes lib bytes = rbind (parse_canonical_json lib (Bytes bytes)) parse_schema"

text \<open>The object a parsed schema is, for the functions that take it as a JSON value.\<close>

definition optional_value :: "bool \<Rightarrow> (jstr \<times> jsval) list" where
  "optional_value opt = (if opt then [(lit ''optional'', JBool True)] else [])"

fun descriptor_value :: "descriptor \<Rightarrow> jsval" where
  "descriptor_value (Scalar t opt) =
     JObj Plain ((lit ''type'', JStr (scalar_name t)) # optional_value opt)"
| "descriptor_value (ArrayOf d opt) =
     JObj Plain ((lit ''type'', jlit ''array'') # (lit ''items'', descriptor_value d)
       # optional_value opt)"
| "descriptor_value (ObjectOf fs opt) =
     JObj Plain ((lit ''type'', jlit ''object'')
       # (lit ''fields'', JObj Plain (map (\<lambda>(n, d). (n, descriptor_value d)) fs))
       # optional_value opt)"

definition fields_value :: "schema_fields \<Rightarrow> jsval" where
  "fields_value fs = JObj Plain (map (\<lambda>(n, d). (n, descriptor_value d)) fs)"

definition relation_value :: "string \<Rightarrow> jstr option \<Rightarrow> (jstr \<times> jsval) list" where
  "relation_value k r = (case r of None \<Rightarrow> [] | Some uid \<Rightarrow> [(lit k, JStr uid)])"

definition schema_value :: "schema_definition \<Rightarrow> jsval" where
  "schema_value s = JObj Plain
     ([(lit ''xcsVersion'', jlit ''0.1''),
       (lit ''name'', JStr (schema_name s)),
       (lit ''description'', JStr (description s)),
       (lit ''fields'', fields_value (schema_fields s))]
      @ relation_value ''extends'' (extends s) @ relation_value ''supersedes'' (supersedes s))"

definition encode_schema :: "'x core_lib_scheme \<Rightarrow> jsval \<Rightarrow> cerr + byte list" where
  "encode_schema lib schema =
     rbind (parse_schema schema) (\<lambda>s. encode_canonical_json lib (schema_value s))"

fun count_schema_fields :: "schema_fields \<Rightarrow> nat" where
  "count_schema_fields [] = 0"
| "count_schema_fields ((name, d) # rest) =
     1 + (case d of
            ArrayOf items _ \<Rightarrow> count_schema_fields [(lit ''items'', items)]
          | ObjectOf fs _ \<Rightarrow> count_schema_fields fs
          | Scalar _ _ \<Rightarrow> 0)
       + count_schema_fields rest"

declare count_schema_fields.simps(2) [simp del]

section \<open>Well-formed schemas\<close>

definition count_descriptor :: "descriptor \<Rightarrow> nat" where
  "count_descriptor d =
     (case d of
        ArrayOf items _ \<Rightarrow> count_schema_fields [(lit ''items'', items)]
      | ObjectOf fs _ \<Rightarrow> count_schema_fields fs
      | Scalar _ _ \<Rightarrow> 0)"

lemma count_schema_fields_Cons [simp]:
  "count_schema_fields ((n, d) # fs) = 1 + count_descriptor d + count_schema_fields fs"
  by (subst count_schema_fields.simps) (simp add: count_descriptor_def)

lemma count_descriptor_simps [simp]:
  "count_descriptor (Scalar t opt) = 0"
  "count_descriptor (ArrayOf d opt) = 1 + count_descriptor d"
  "count_descriptor (ObjectOf fs opt) = count_schema_fields fs"
  by (simp add: count_descriptor_def,
      subst count_descriptor_def, simp,
      simp add: count_descriptor_def)

lemma count_schema_fields_append [simp]:
  "count_schema_fields (xs @ ys) = count_schema_fields xs + count_schema_fields ys"
  by (induction xs) auto

fun descriptor_ok :: "nat \<Rightarrow> descriptor \<Rightarrow> bool" where
  "descriptor_ok depth (Scalar t opt) = True"
| "descriptor_ok depth (ArrayOf d opt) = (depth < MAX_SCHEMA_DEPTH \<and> descriptor_ok (depth + 1) d)"
| "descriptor_ok depth (ObjectOf fs opt) =
     (depth < MAX_SCHEMA_DEPTH \<and> fs \<noteq> [] \<and> distinct (map fst fs) \<and>
      list_all (\<lambda>(n, d). field_name n \<and> descriptor_ok (depth + 1) d) fs)"

definition entries_ok :: "nat \<Rightarrow> schema_fields \<Rightarrow> bool" where
  "entries_ok depth fs \<longleftrightarrow> list_all (\<lambda>(n, d). field_name n \<and> descriptor_ok depth d) fs"

definition fields_ok :: "nat \<Rightarrow> schema_fields \<Rightarrow> bool" where
  "fields_ok depth fs \<longleftrightarrow> fs \<noteq> [] \<and> distinct (map fst fs) \<and> entries_ok depth fs"

definition text_ok :: "nat \<Rightarrow> jstr \<Rightarrow> bool" where
  "text_ok max_bytes s \<longleftrightarrow> \<not> list_ex is_control s \<and> wf_scan s \<and> s \<noteq> [] \<and>
     length (encode_utf8 s) \<le> max_bytes"

definition schema_ok :: "schema_definition \<Rightarrow> bool" where
  "schema_ok s \<longleftrightarrow>
     text_ok 64 (schema_name s) \<and> text_ok 256 (description s) \<and>
     fields_ok 1 (schema_fields s) \<and> count_schema_fields (schema_fields s) \<le> MAX_SCHEMA_FIELDS \<and>
     (\<forall>u \<in> set_option (extends s). hash64 u) \<and> (\<forall>u \<in> set_option (supersedes s). hash64 u) \<and>
     (extends s \<noteq> None \<longrightarrow> extends s \<noteq> supersedes s)"

lemma parse_text_Inr: "parse_text v path n = Inr s \<longleftrightarrow> v = JStr s \<and> text_ok n s"
  by (cases v) (auto simp: parse_text_def text_ok_def res_simps utf8_byte_length_Inr Suc_le_eq
      not_less simp flip: length_greater_0_conv)

lemma parse_relation_Inr:
  "parse_relation v path = Inr r \<longleftrightarrow>
     (v = JUndef \<and> r = None) \<or> (\<exists>s. v = JStr s \<and> r = Some s \<and> hash64 s)"
  by (cases v) (auto simp: parse_relation_def res_simps)

lemma parse_entries_names:
  "parse_entries kvs path depth count = Inr (fs, c) \<Longrightarrow> map fst fs = map fst kvs"
  by (induction kvs arbitrary: fs count c) (auto simp: res_simps)

text \<open>The parser returns well-formed descriptors and counts them as \<open>countSchemaFields\<close> does.\<close>

lemma parse_sound:
  "parse_descriptor v path depth count = Inr (d, c) \<Longrightarrow> js_keys v \<Longrightarrow> count \<le> MAX_SCHEMA_FIELDS \<Longrightarrow>
     descriptor_ok depth d \<and> c = count + count_descriptor d \<and> c \<le> MAX_SCHEMA_FIELDS"
  "parse_fields v path depth count = Inr (fs, c) \<Longrightarrow> js_keys v \<Longrightarrow> count \<le> MAX_SCHEMA_FIELDS \<Longrightarrow>
     fields_ok depth fs \<and> c = count + count_schema_fields fs \<and> c \<le> MAX_SCHEMA_FIELDS"
  "parse_entries kvs path depth count = Inr (fs, c) \<Longrightarrow> list_all (\<lambda>(k, v). js_keys v) kvs \<Longrightarrow>
     count \<le> MAX_SCHEMA_FIELDS \<Longrightarrow>
     entries_ok depth fs \<and> c = count + count_schema_fields fs \<and> c \<le> MAX_SCHEMA_FIELDS"
proof (induction v path depth count and v path depth count and kvs path depth count
    arbitrary: d c and fs c and fs c
    rule: parse_descriptor_parse_fields_parse_entries.induct)
  case (1 input path depth count)
  from 1(3) obtain ty where r: "is_record input" and ty: "get input ''type'' = JStr ty"
    by (subst (asm) parse_descriptor.simps) (auto split: if_splits jsval.splits)
  have o: "\<not> (case get input ''optional'' of JUndef \<Rightarrow> False | JBool _ \<Rightarrow> False | _ \<Rightarrow> True)"
    using 1(3) r ty by (subst (asm) parse_descriptor.simps) (auto split: if_splits)
  note IH = 1(1,2) [OF _ ty o refl]
  show ?case
  proof (cases "map_of SCALAR_TYPES ty")
    case (Some t)
    then show ?thesis
      using 1(3,5) r ty o
      by (subst (asm) parse_descriptor.simps) (auto simp: res_simps Let_def)
  next
    case None
    show ?thesis
      using 1(3-5) r ty o None IH js_keys_prop [OF 1(4)]
      by (subst (asm) parse_descriptor.simps)
        (auto simp: res_simps Let_def assert_field_limit_def fields_ok_def entries_ok_def
          split: if_splits)
  qed
next
  case (2 input path depth count)
  then show ?case
    using js_keys_entries [OF 2(3)] parse_entries_names [of "entries_of input" path depth count fs c]
    by (subst (asm) parse_fields.simps) (auto simp: res_simps fields_ok_def)
next
  case (3 path depth count)
  then show ?case by (simp add: entries_ok_def)
next
  case (4 name d entries path depth count)
  then show ?case
    by (fastforce simp: res_simps entries_ok_def assert_field_limit_def)
qed

lemma parse_schema_Inr:
  "parse_schema v = Inr s \<longleftrightarrow>
     is_record v \<and> fst ` set (entries_of v) \<subseteq> set (map lit SCHEMA_PROPERTIES) \<and>
     get v ''xcsVersion'' = jlit ''0.1'' \<and>
     parse_relation (get v ''extends'') (lit ''$.extends'') = Inr (extends s) \<and>
     parse_relation (get v ''supersedes'') (lit ''$.supersedes'') = Inr (supersedes s) \<and>
     (extends s \<noteq> None \<longrightarrow> extends s \<noteq> supersedes s) \<and>
     parse_text (get v ''name'') (lit ''$.name'') 64 = Inr (schema_name s) \<and>
     parse_text (get v ''description'') (lit ''$.description'') 256 = Inr (description s) \<and>
     (\<exists>c. parse_fields (get v ''fields'') (lit ''$.fields'') 1 0 = Inr (schema_fields s, c))"
  by (cases s) (auto simp: parse_schema_def res_simps assert_only_properties_Inr)

lemma parse_schema_ok: "parse_schema v = Inr s \<Longrightarrow> js_keys v \<Longrightarrow> schema_ok s"
  using parse_sound(2) [of "get v ''fields''" "lit ''$.fields''" 1 0]
  by (auto simp: parse_schema_Inr schema_ok_def parse_text_Inr parse_relation_Inr js_keys_prop)

text \<open>Completeness: the value of a well-formed schema parses to it.\<close>

lemma scalar_types_name: "map_of SCALAR_TYPES (scalar_name t) = Some t"
  by (cases t) (simp_all add: SCALAR_TYPES_def)

lemma scalar_types_composite:
  "map_of SCALAR_TYPES (lit ''array'') = None" "map_of SCALAR_TYPES (lit ''object'') = None"
  by (simp_all add: SCALAR_TYPES_def)

lemma get_optional:
  "get (JObj Plain ((lit ''type'', x) # optional_value opt)) ''optional'' =
     (if opt then JBool True else JUndef)"
  "get (JObj Plain ((lit ''type'', x) # (lit ''items'', y) # optional_value opt)) ''optional'' =
     (if opt then JBool True else JUndef)"
  "get (JObj Plain ((lit ''type'', x) # (lit ''fields'', y) # optional_value opt)) ''optional'' =
     (if opt then JBool True else JUndef)"
  by (simp_all add: prop_of_JObj optional_value_def)

lemma get_head [simp]: "prop_of (JObj p ((k, v) # kvs)) k = v"
  by (simp add: prop_of_JObj)

lemma get_tail: "k \<noteq> k' \<Longrightarrow> prop_of (JObj p ((k', v) # kvs)) k = prop_of (JObj p kvs) k"
  by (simp add: prop_of_JObj)

lemma descriptor_value_defined: "descriptor_value d \<noteq> JUndef"
  by (cases d) simp_all

lemma optional_keys: "fst ` set (optional_value opt) = (if opt then {lit ''optional''} else {})"
  by (auto simp: optional_value_def)

lemma parse_entries_complete:
  assumes "\<forall>e \<in> set fs. \<forall>path count. count + count_descriptor (snd e) \<le> MAX_SCHEMA_FIELDS \<longrightarrow>
      parse_descriptor (descriptor_value (snd e)) path depth count
        = Inr (snd e, count + count_descriptor (snd e))"
    and "entries_ok depth fs" and "count + count_schema_fields fs \<le> MAX_SCHEMA_FIELDS"
  shows "parse_entries (map (\<lambda>(n, d). (n, descriptor_value d)) fs) path depth count =
      Inr (fs, count + count_schema_fields fs)"
  using assms
proof (induction fs arbitrary: count)
  case Nil
  then show ?case by simp
next
  case (Cons e fs)
  obtain n d where e: "e = (n, d)" by (cases e)
  have "parse_descriptor (descriptor_value d) (path_key path n) depth (count + 1)
      = Inr (d, count + 1 + count_descriptor d)"
    using Cons.prems by (simp add: e)
  moreover have "parse_entries (map (\<lambda>(n, d). (n, descriptor_value d)) fs) path depth
      (count + 1 + count_descriptor d)
      = Inr (fs, count + 1 + count_descriptor d + count_schema_fields fs)"
    using Cons.prems by (intro Cons.IH) (auto simp: e entries_ok_def)
  ultimately show ?case
    using Cons.prems by (simp add: e entries_ok_def assert_field_limit_def)
qed

lemma parse_complete:
  "descriptor_ok depth d \<Longrightarrow> count + count_descriptor d \<le> MAX_SCHEMA_FIELDS \<Longrightarrow>
     parse_descriptor (descriptor_value d) path depth count = Inr (d, count + count_descriptor d)"
  "fields_ok depth fs \<Longrightarrow> count + count_schema_fields fs \<le> MAX_SCHEMA_FIELDS \<Longrightarrow>
     parse_fields (fields_value fs) path depth count = Inr (fs, count + count_schema_fields fs)"
proof -
  have desc: "descriptor_ok depth d \<Longrightarrow> count + count_descriptor d \<le> MAX_SCHEMA_FIELDS \<Longrightarrow>
     parse_descriptor (descriptor_value d) path depth count = Inr (d, count + count_descriptor d)"
    for depth d path count
  proof (induction d arbitrary: depth path count)
    case (Scalar t opt)
    then show ?case
      by (subst parse_descriptor.simps)
        (auto simp: get_optional scalar_types_name assert_only_properties_ok optional_keys)
  next
    case (ArrayOf d opt)
    then show ?case
      by (subst parse_descriptor.simps)
        (auto simp: get_optional get_tail scalar_types_composite assert_only_properties_ok optional_keys
          assert_field_limit_def descriptor_value_defined)
  next
    case (ObjectOf fs opt)
    have e: "entries_ok (depth + 1) fs" "fs \<noteq> []" using ObjectOf.prems by (auto simp: entries_ok_def)
    have p: "parse_fields (JObj Plain (map (\<lambda>(n, d). (n, descriptor_value d)) fs)) path' (depth + 1) count
        = Inr (fs, count + count_schema_fields fs)" for path'
      using e ObjectOf by (subst parse_fields.simps) (auto simp: list_all_iff intro!: parse_entries_complete)
    then show ?case
      using ObjectOf.prems
      by (subst parse_descriptor.simps)
        (auto simp: get_optional get_tail scalar_types_composite assert_only_properties_ok optional_keys)
  qed
  then show "descriptor_ok depth d \<Longrightarrow> count + count_descriptor d \<le> MAX_SCHEMA_FIELDS \<Longrightarrow>
     parse_descriptor (descriptor_value d) path depth count = Inr (d, count + count_descriptor d)" .
  show "fields_ok depth fs \<Longrightarrow> count + count_schema_fields fs \<le> MAX_SCHEMA_FIELDS \<Longrightarrow>
     parse_fields (fields_value fs) path depth count = Inr (fs, count + count_schema_fields fs)"
    by (subst parse_fields.simps)
      (auto simp: fields_ok_def fields_value_def entries_ok_def list_all_iff
        intro!: parse_entries_complete desc)
qed

lemma schema_value_get:
  "get (schema_value s) ''xcsVersion'' = jlit ''0.1''"
  "get (schema_value s) ''name'' = JStr (schema_name s)"
  "get (schema_value s) ''description'' = JStr (description s)"
  "get (schema_value s) ''fields'' = fields_value (schema_fields s)"
  "get (schema_value s) ''extends'' = (case extends s of None \<Rightarrow> JUndef | Some u \<Rightarrow> JStr u)"
  "get (schema_value s) ''supersedes'' = (case supersedes s of None \<Rightarrow> JUndef | Some u \<Rightarrow> JStr u)"
  by (cases "extends s"; cases "supersedes s";
      simp add: schema_value_def relation_value_def prop_of_JObj)+

lemma schema_value_keys:
  "fst ` set (entries_of (schema_value s)) \<subseteq> set (map lit SCHEMA_PROPERTIES)"
  by (cases "extends s"; cases "supersedes s";
      simp add: schema_value_def relation_value_def SCHEMA_PROPERTIES_def)

lemma parse_schema_value: "schema_ok s \<Longrightarrow> parse_schema (schema_value s) = Inr s"
proof -
  assume ok: "schema_ok s"
  then have f: "parse_fields (fields_value (schema_fields s)) (lit ''$.fields'') 1 0
      = Inr (schema_fields s, 0 + count_schema_fields (schema_fields s))"
    by (intro parse_complete) (auto simp: schema_ok_def)
  have "is_record (schema_value s)" by (simp add: schema_value_def)
  then show ?thesis
    using ok schema_value_keys [of s] f
    by (auto simp: parse_schema_Inr schema_value_get schema_ok_def parse_text_Inr
        parse_relation_Inr split: option.split)
qed

text \<open>
  Parsing is a normalisation: the objects of well-formed schemas are fixed points, and every result
  is one.
\<close>

interpretation schema: codec schema_value "\<lambda>v. res_option (parse_schema v)" schema_ok
  by unfold_locales (simp add: parse_schema_value)

lemma schema_value_inject: "schema_ok s \<Longrightarrow> schema_ok t \<Longrightarrow> schema_value s = schema_value t \<longleftrightarrow> s = t"
  by (rule schema.enc_inject)

lemma parse_schema_idem:
  "parse_schema v = Inr s \<Longrightarrow> js_keys v \<Longrightarrow> parse_schema (schema_value s) = Inr s"
  by (blast intro: parse_schema_value parse_schema_ok)

lemma js_keys_descriptor_value: "descriptor_ok depth d \<Longrightarrow> js_keys (descriptor_value d)"
  by (induction depth d rule: descriptor_ok.induct)
    (auto simp: optional_value_def list_all_iff image_iff map_eq_conv o_def case_prod_unfold)

lemma js_keys_schema_value: "schema_ok s \<Longrightarrow> js_keys (schema_value s)"
  by (cases "extends s"; cases "supersedes s")
    (auto simp: schema_value_def relation_value_def schema_ok_def fields_ok_def fields_value_def
      entries_ok_def list_all_iff o_def case_prod_unfold intro: js_keys_descriptor_value)

text \<open>The object of a well-formed schema is a JSON value.\<close>

lemma json_value_lit [simp]: "json_value (jlit t)"
  by simp

lemma field_name_scan: "field_name n \<Longrightarrow> wf_scan n"
proof -
  assume a: "field_name n"
  have "unat c < 0xd800" if "c \<in> set n" for c
    using a that by (auto simp: field_name_def list_all_iff class_unat split: list.splits)
  then show ?thesis using wf_scan_small by blast
qed

lemma scalar_name_scan: "wf_scan (scalar_name t)"
  by (cases t) simp_all

lemma json_value_descriptor: "descriptor_ok depth d \<Longrightarrow> json_value (descriptor_value d)"
  by (induction depth d rule: descriptor_ok.induct)
    (auto simp: optional_value_def list_all_iff field_name_scan scalar_name_scan)

lemma json_value_schema: "schema_ok s \<Longrightarrow> json_value (schema_value s)"
proof -
  have h: "hash64 u \<Longrightarrow> wf_scan u" for u
  proof -
    assume "hash64 u"
    then have "\<forall>c \<in> set u. unat c < 0xd800" by (auto simp: hash64_def list_all_iff class_unat)
    then show "wf_scan u" using wf_scan_small by blast
  qed
  show "schema_ok s \<Longrightarrow> json_value (schema_value s)"
    by (cases "extends s"; cases "supersedes s")
      (auto simp: schema_value_def relation_value_def schema_ok_def fields_ok_def fields_value_def
        entries_ok_def list_all_iff text_ok_def h field_name_scan intro: json_value_descriptor)
qed

end
