(* ===== verification/Schema_Uid.thy ===== *)
theory Schema_Uid
  imports Schema
begin

text \<open>
  The identifier of a registered schema (\<open>packages/core/src/schema-uid.ts\<close>): the SHA-256 of the
  canonical text of the schema and its ledger coordinates. Main results: a UID is a lowercase
  hash, does not depend on the case of the ledger hash, and two registrations with the same UID
  agree in every coordinate and in the schema unless they exhibit a collision of SHA-256.
\<close>

record schema_uid_input =
  uid_network_id :: jnum
  uid_ledger_hash :: jstr
  uid_ledger_index :: jnum
  uid_transaction_index :: jnum
  uid_publisher :: jstr
  uid_schema :: jsval

definition uid_preimage :: "schema_uid_input \<Rightarrow> schema_definition \<Rightarrow> jsval" where
  "uid_preimage input schema = JObj Plain
     [(lit ''purpose'', jlit ''xcs.schema.uid''),
      (lit ''version'', jlit ''0.1''),
      (lit ''networkId'', JNum (uid_network_id input)),
      (lit ''ledgerHash'', JStr (to_lower (uid_ledger_hash input))),
      (lit ''ledgerIndex'', JNum (uid_ledger_index input)),
      (lit ''transactionIndex'', JNum (uid_transaction_index input)),
      (lit ''publisher'', JStr (uid_publisher input)),
      (lit ''schema'', schema_value schema)]"

definition compute_schema_uid :: "'x core_lib_scheme \<Rightarrow> schema_uid_input \<Rightarrow> cerr + jstr" where
  "compute_schema_uid lib input =
     (if \<not> num_uint32 (uid_network_id input) \<or> \<not> num_uint32 (uid_ledger_index input)
         \<or> \<not> num_uint32 (uid_transaction_index input)
      then xcs_fail INVALID_UID_INPUT (lit ''$'')
      else if \<not> hash64_any (uid_ledger_hash input)
      then xcs_fail INVALID_UID_INPUT (lit ''$.ledgerHash'')
      else if \<not> is_valid_classic_address lib (uid_publisher input)
      then xcs_fail INVALID_UID_INPUT (lit ''$.publisher'')
      else rbind (parse_schema (uid_schema input)) (\<lambda>schema.
        rbind (encode_canonical_json lib (uid_preimage input schema)) (\<lambda>bytes.
          Inr (bytes_to_hex lib (sha256 lib bytes)))))"

lemma compute_schema_uid_Inr:
  "compute_schema_uid lib input = Inr uid \<longleftrightarrow>
     num_uint32 (uid_network_id input) \<and> num_uint32 (uid_ledger_index input) \<and>
     num_uint32 (uid_transaction_index input) \<and> hash64_any (uid_ledger_hash input) \<and>
     is_valid_classic_address lib (uid_publisher input) \<and>
     (\<exists>schema bytes. parse_schema (uid_schema input) = Inr schema \<and>
        encode_canonical_json lib (uid_preimage input schema) = Inr bytes \<and>
        uid = bytes_to_hex lib (sha256 lib bytes))"
  by (auto simp: compute_schema_uid_def res_simps)

lemma compute_schema_uid_hash64:
  "compute_schema_uid lib input = Inr uid \<Longrightarrow> hex_laws lib \<Longrightarrow> sha256_size lib \<Longrightarrow> hash64 uid"
  using sha256_hex_hash64 [of lib] by (auto simp: compute_schema_uid_Inr sha256_hex_def)

lemma compute_schema_uid_case:
  "hash64_any (uid_ledger_hash input) \<Longrightarrow>
     compute_schema_uid lib (input\<lparr>uid_ledger_hash := to_lower (uid_ledger_hash input)\<rparr>)
       = compute_schema_uid lib input"
  by (simp add: compute_schema_uid_def uid_preimage_def hash64_any_lower hash64_imp_any)

section \<open>What a UID identifies\<close>

lemma uid_preimage_get:
  "get (uid_preimage input schema) ''networkId'' = JNum (uid_network_id input)"
  "get (uid_preimage input schema) ''ledgerHash'' = JStr (to_lower (uid_ledger_hash input))"
  "get (uid_preimage input schema) ''ledgerIndex'' = JNum (uid_ledger_index input)"
  "get (uid_preimage input schema) ''transactionIndex'' = JNum (uid_transaction_index input)"
  "get (uid_preimage input schema) ''publisher'' = JStr (uid_publisher input)"
  "get (uid_preimage input schema) ''schema'' = schema_value schema"
  by (simp_all add: uid_preimage_def prop_of_JObj)

lemma exact_descriptor_value: "exact_numbers (descriptor_value d)"
  by (induction d) (auto simp: optional_value_def list_all_iff)

lemma exact_schema_value: "exact_numbers (schema_value s)"
  by (cases "extends s"; cases "supersedes s")
    (auto simp: schema_value_def relation_value_def fields_value_def list_all_iff
      exact_descriptor_value)

lemma num_uint32_exact: "num_uint32 n \<Longrightarrow> exact_numbers (JNum n)"
  by (auto simp: num_uint32_iff uint32_max_def)

lemma uid_preimage_canonical:
  assumes "num_uint32 (uid_network_id input)" "num_uint32 (uid_ledger_index input)"
    "num_uint32 (uid_transaction_index input)" "schema_ok schema"
  shows "js_keys (uid_preimage input schema)" "exact_numbers (uid_preimage input schema)"
  using assms num_uint32_exact js_keys_schema_value exact_schema_value
  by (simp_all add: uid_preimage_def)

text \<open>
  The coordinates that go into a UID: equal up to the case of the ledger hash, and schemas equal up
  to the order of their members.
\<close>

definition same_registration ::
  "schema_uid_input \<Rightarrow> schema_definition \<Rightarrow> schema_uid_input \<Rightarrow> schema_definition \<Rightarrow> bool" where
  "same_registration a s b t \<longleftrightarrow>
     uid_network_id a = uid_network_id b \<and>
     to_lower (uid_ledger_hash a) = to_lower (uid_ledger_hash b) \<and>
     uid_ledger_index a = uid_ledger_index b \<and>
     uid_transaction_index a = uid_transaction_index b \<and>
     uid_publisher a = uid_publisher b \<and>
     sort_keys (schema_value s) = sort_keys (schema_value t)"

lemma same_text_same_registration:
  assumes "sort_keys (uid_preimage a s) = sort_keys (uid_preimage b t)"
    and "js_keys (uid_preimage a s)" and "js_keys (uid_preimage b t)"
  shows "same_registration a s b t"
proof -
  note eq = sort_keys_prop [OF assms, of "lit k" for k]
  show ?thesis
    using eq [of "''networkId''"] eq [of "''ledgerHash''"] eq [of "''ledgerIndex''"]
      eq [of "''transactionIndex''"] eq [of "''publisher''"] eq [of "''schema''"]
    by (simp add: same_registration_def uid_preimage_get)
qed

lemma compute_schema_uid_binding:
  assumes laws: "hex_laws lib" "canonical_laws lib"
    and a: "compute_schema_uid lib a = Inr uid" "parse_schema (uid_schema a) = Inr s"
      "js_keys (uid_schema a)"
    and b: "compute_schema_uid lib b = Inr uid" "parse_schema (uid_schema b) = Inr t"
      "js_keys (uid_schema b)"
  shows "same_registration a s b t \<or>
    (\<exists>x y. encode_canonical_json lib (uid_preimage a s) = Inr x \<and>
       encode_canonical_json lib (uid_preimage b t) = Inr y \<and> x \<noteq> y \<and> sha256 lib x = sha256 lib y)"
proof -
  have ok: "schema_ok s" "schema_ok t" using a b parse_schema_ok by blast+
  from a b obtain ta tb where
    t: "canonical_json lib (uid_preimage a s) = Inr ta" "canonical_json lib (uid_preimage b t) = Inr tb"
    and u: "bytes_to_hex lib (sha256 lib (encode_utf8 ta)) = bytes_to_hex lib (sha256 lib (encode_utf8 tb))"
    by (auto simp: compute_schema_uid_Inr encode_canonical_json_Inr)
  have k: "js_keys (uid_preimage a s)" "exact_numbers (uid_preimage a s)"
    "js_keys (uid_preimage b t)" "exact_numbers (uid_preimage b t)"
    using a(1) b(1) ok uid_preimage_canonical by (auto simp: compute_schema_uid_Inr)
  have w: "well_formed ta" "well_formed tb"
    using laws(2) k t unfolding canonical_laws_def canonical_json_Inr by (metis option.inject)+
  show ?thesis
  proof (cases "encode_utf8 ta = encode_utf8 tb")
    case True
    then have "ta = tb" using w encode_utf8_inject by blast
    then have "canonicalize_rfc8785 lib (uid_preimage a s) = canonicalize_rfc8785 lib (uid_preimage b t)"
      using t by (simp add: canonical_json_Inr)
    then have "sort_keys (uid_preimage a s) = sort_keys (uid_preimage b t)"
      using laws(2) k t unfolding canonical_laws_def canonical_json_Inr by blast
    then show ?thesis using k same_text_same_registration by blast
  next
    case False
    moreover have "sha256 lib (encode_utf8 ta) = sha256 lib (encode_utf8 tb)"
      using u laws(1) bytes_to_hex_inject by blast
    ultimately show ?thesis using t by (auto simp: encode_canonical_json_def)
  qed
qed

end
