(* ===== verification/Schema_Resolution.thy ===== *)
theory Schema_Resolution
  imports Schema
begin

text \<open>
  Inheritance of schemas (\<open>packages/core/src/schema-resolution.ts\<close>). The resolver is compared with a
  declarative account of inheritance: it accepts exactly the chains of at most fifteen parents,
  each on the same network and registered strictly earlier, that never redefine a field, stay
  within the field limit and supersede only schemas of the same publisher.
\<close>

record resolution_context =
  ctx_network_id :: jnum
  ctx_publisher :: jstr
  ctx_ledger_index :: jnum
  ctx_transaction_index :: jnum

type_synonym schema_getter = "jstr \<Rightarrow> registered_schema option"

abbreviation reference_fail :: "jstr \<Rightarrow> cerr + 'a" where
  "reference_fail path \<equiv> xcs_fail INVALID_SCHEMA_REFERENCE path"

definition is_earlier :: "registered_schema \<Rightarrow> resolution_context \<Rightarrow> bool" where
  "is_earlier schema context \<longleftrightarrow>
     num_less (registered_ledger_index schema) (ctx_ledger_index context) \<or>
     (num_same (registered_ledger_index schema) (ctx_ledger_index context) \<and>
      num_less (registered_transaction_index schema) (ctx_transaction_index context))"

text \<open>The relation argument is the tail of the path, \<open>extends\<close> or \<open>supersedes\<close>.\<close>

definition require_reference ::
  "schema_getter \<Rightarrow> jstr \<Rightarrow> string \<Rightarrow> resolution_context \<Rightarrow> cerr + registered_schema" where
  "require_reference get_schema uid relation context =
     (case get_schema uid of
        None \<Rightarrow> reference_fail (path_key (lit ''$'') (lit relation))
      | Some referenced \<Rightarrow>
          if registered_uid referenced \<noteq> uid
          then reference_fail (path_key (lit ''$'') (lit relation))
          else if \<not> num_same (registered_network_id referenced) (ctx_network_id context)
          then reference_fail (path_key (lit ''$'') (lit relation))
          else if \<not> is_earlier referenced context
          then reference_fail (path_key (lit ''$'') (lit relation))
          else Inr referenced)"

definition context_of :: "registered_schema \<Rightarrow> resolution_context" where
  "context_of parent =
     \<lparr>ctx_network_id = registered_network_id parent, ctx_publisher = registered_publisher parent,
      ctx_ledger_index = registered_ledger_index parent,
      ctx_transaction_index = registered_transaction_index parent\<rparr>"

fun add_fields :: "schema_fields \<Rightarrow> schema_fields \<Rightarrow> cerr + schema_fields" where
  "add_fields fs [] = Inr fs"
| "add_fields fs ((name, d) # rest) =
     (if has_own fs name then reference_fail (path_key (lit ''$.fields'') name)
      else add_fields (fs @ [(name, d)]) rest)"

definition check_predecessor ::
  "schema_getter \<Rightarrow> schema_definition \<Rightarrow> resolution_context \<Rightarrow> cerr + unit" where
  "check_predecessor get_schema schema context =
     (case supersedes schema of
        None \<Rightarrow> Inr ()
      | Some uid \<Rightarrow>
          rbind (require_reference get_schema uid ''supersedes'' context) (\<lambda>previous.
            if registered_publisher previous \<noteq> ctx_publisher context
            then reference_fail (lit ''$.supersedes'') else Inr ()))"

text \<open>
  The set \<open>visiting\<close> is a list without repetitions; it is restored after the recursive call, so
  passing it by value is the same.
\<close>

function resolve ::
  "schema_getter \<Rightarrow> schema_definition \<Rightarrow> resolution_context \<Rightarrow> jstr list \<Rightarrow> cerr + resolved_schema" where
  "resolve get_schema schema context visiting =
     rbind
       (case extends schema of
          None \<Rightarrow> Inr ([], [])
        | Some uid \<Rightarrow>
            if MAX_SCHEMA_DEPTH - 1 \<le> length visiting \<or> uid \<in> set visiting
            then reference_fail (lit ''$.extends'')
            else
              rbind (require_reference get_schema uid ''extends'' context) (\<lambda>parent.
              rbind (parse_schema (registered_definition parent)) (\<lambda>parent_schema.
              rbind (resolve get_schema parent_schema (context_of parent) (uid # visiting))
                (\<lambda>resolved_parent.
                  Inr (resolved_fields resolved_parent, lineage resolved_parent @ [uid])))))
       (\<lambda>(inherited, parents).
         rbind (add_fields inherited (schema_fields schema)) (\<lambda>all_fields.
           if MAX_SCHEMA_FIELDS < count_schema_fields all_fields
           then schema_fail (lit ''$.fields'')
           else rbind (check_predecessor get_schema schema context) (\<lambda>_.
             Inr \<lparr>resolved_definition = schema, resolved_fields = all_fields, lineage = parents\<rparr>)))"
  by pat_completeness auto
termination
  by (relation "measure (\<lambda>(_, _, _, visiting). MAX_SCHEMA_DEPTH - length visiting)") auto

declare resolve.simps [simp del]

definition resolve_schema ::
  "'x core_lib_scheme \<Rightarrow> schema_getter \<Rightarrow> jsval \<Rightarrow> resolution_context \<Rightarrow> cerr + resolved_schema" where
  "resolve_schema lib get_schema input context =
     (if \<not> num_uint32 (ctx_network_id context) \<or> \<not> num_uint32 (ctx_ledger_index context)
         \<or> \<not> num_uint32 (ctx_transaction_index context)
         \<or> \<not> is_valid_classic_address lib (ctx_publisher context)
      then reference_fail (lit ''$context'')
      else rbind (parse_schema input) (\<lambda>schema. resolve get_schema schema context []))"

section \<open>Inheritance, declaratively\<close>

definition refers ::
  "schema_getter \<Rightarrow> jstr \<Rightarrow> resolution_context \<Rightarrow> registered_schema \<Rightarrow> bool" where
  "refers get_schema uid context p \<longleftrightarrow>
     get_schema uid = Some p \<and> registered_uid p = uid \<and>
     num_same (registered_network_id p) (ctx_network_id context) \<and> is_earlier p context"

definition predecessor_ok :: "schema_getter \<Rightarrow> schema_definition \<Rightarrow> resolution_context \<Rightarrow> bool" where
  "predecessor_ok get_schema s context \<longleftrightarrow>
     (\<forall>uid \<in> set_option (supersedes s). \<exists>p. refers get_schema uid context p \<and>
        registered_publisher p = ctx_publisher context)"

text \<open>
  \<open>inherits get_schema s context fs us\<close>: \<open>s\<close>, registered at \<open>context\<close>, has the fields \<open>fs\<close>, inherited
  ones first, and the ancestors \<open>us\<close> from the root to the direct parent.
\<close>

inductive inherits ::
  "schema_getter \<Rightarrow> schema_definition \<Rightarrow> resolution_context \<Rightarrow> schema_fields \<Rightarrow> jstr list \<Rightarrow> bool"
  for get_schema where
  root: "extends s = None \<Longrightarrow> distinct (map fst (schema_fields s)) \<Longrightarrow>
    predecessor_ok get_schema s context \<Longrightarrow> inherits get_schema s context (schema_fields s) []"
| child: "extends s = Some uid \<Longrightarrow> refers get_schema uid context p \<Longrightarrow>
    parse_schema (registered_definition p) = Inr t \<Longrightarrow>
    inherits get_schema t (context_of p) fs us \<Longrightarrow>
    distinct (map fst (fs @ schema_fields s)) \<Longrightarrow> predecessor_ok get_schema s context \<Longrightarrow>
    inherits get_schema s context (fs @ schema_fields s) (us @ [uid])"

lemma require_reference_Inr:
  "require_reference get_schema uid relation context = Inr p \<longleftrightarrow> refers get_schema uid context p"
  by (auto simp: require_reference_def refers_def res_simps)

lemma check_predecessor_Inr:
  "check_predecessor get_schema s context = Inr u \<longleftrightarrow> predecessor_ok get_schema s context"
  by (auto simp: check_predecessor_def predecessor_ok_def res_simps require_reference_Inr
      split: option.splits)

lemma add_fields_Inr:
  "distinct (map fst fs) \<Longrightarrow>
    add_fields fs gs = Inr hs \<longleftrightarrow> hs = fs @ gs \<and> distinct (map fst (fs @ gs))"
  by (induction fs gs rule: add_fields.induct) (auto simp: has_own_def)

lemma inherits_distinct: "inherits get_schema s context fs us \<Longrightarrow> distinct (map fst fs)"
  by (cases rule: inherits.cases) auto

lemma resolve_sound:
  "resolve get_schema s ctx visiting = Inr r \<Longrightarrow>
     resolved_definition r = s \<and> inherits get_schema s ctx (resolved_fields r) (lineage r) \<and>
     length visiting + length (lineage r) \<le> max (length visiting) (MAX_SCHEMA_DEPTH - 1) \<and>
     count_schema_fields (resolved_fields r) \<le> MAX_SCHEMA_FIELDS"
proof (induction get_schema s ctx visiting arbitrary: r rule: resolve.induct)
  case (1 get_schema s ctx visiting)
  show ?case
  proof (cases "extends s")
    case None
    then show ?thesis
      using 1(2) by (subst (asm) resolve.simps)
        (auto simp: res_simps add_fields_Inr check_predecessor_Inr not_less intro: inherits.root)
  next
    case (Some uid)
    from 1(2) Some obtain p t q fs where v: "\<not> (MAX_SCHEMA_DEPTH - 1 \<le> length visiting \<or> uid \<in> set visiting)"
      and p: "require_reference get_schema uid ''extends'' ctx = Inr p"
      and t: "parse_schema (registered_definition p) = Inr t"
      and q: "resolve get_schema t (context_of p) (uid # visiting) = Inr q"
      and fs: "add_fields (resolved_fields q) (schema_fields s) = Inr fs"
        "count_schema_fields fs \<le> MAX_SCHEMA_FIELDS"
        "check_predecessor get_schema s ctx = Inr ()"
      and r: "r = \<lparr>resolved_definition = s, resolved_fields = fs, lineage = lineage q @ [uid]\<rparr>"
      by (subst (asm) resolve.simps) (auto simp: res_simps not_less)
    have ih: "inherits get_schema t (context_of p) (resolved_fields q) (lineage q)"
      "length (uid # visiting) + length (lineage q)
        \<le> max (length (uid # visiting)) (MAX_SCHEMA_DEPTH - 1)"
      using 1(1) [OF Some v p t q] by auto
    from fs(1) have "fs = resolved_fields q @ schema_fields s" "distinct (map fst fs)"
      using add_fields_Inr [OF inherits_distinct [OF ih(1)]] by auto
    then show ?thesis
      using v ih fs p t Some
      by (auto simp: r require_reference_Inr check_predecessor_Inr intro!: inherits.child)
  qed
qed

text \<open>The order of registration is a strict order, so a chain never meets a schema twice.\<close>

lemma is_earlier_trans: "is_earlier p (context_of q) \<Longrightarrow> is_earlier q ctx \<Longrightarrow> is_earlier p ctx"
  unfolding is_earlier_def context_of_def
  by (auto intro: num_less_trans num_less_same_trans)

lemma is_earlier_irrefl: "\<not> is_earlier p (context_of p)"
  by (simp add: is_earlier_def context_of_def num_less_irrefl)

text \<open>The schemas being visited are those registered at the context or later.\<close>

definition visited_later ::
  "schema_getter \<Rightarrow> jstr list \<Rightarrow> resolution_context \<Rightarrow> bool" where
  "visited_later get_schema visiting ctx \<longleftrightarrow>
     (\<forall>uid \<in> set visiting. \<exists>p. get_schema uid = Some p \<and> \<not> is_earlier p ctx)"

lemma visited_later_step:
  "refers get_schema uid ctx p \<Longrightarrow> visited_later get_schema visiting ctx \<Longrightarrow>
     uid \<notin> set visiting \<and> visited_later get_schema (uid # visiting) (context_of p)"
  using is_earlier_trans is_earlier_irrefl by (fastforce simp: refers_def visited_later_def)

lemma resolve_complete:
  "inherits get_schema s ctx fs us \<Longrightarrow> visited_later get_schema visiting ctx \<Longrightarrow>
     length visiting + length us \<le> MAX_SCHEMA_DEPTH - 1 \<Longrightarrow>
     count_schema_fields fs \<le> MAX_SCHEMA_FIELDS \<Longrightarrow>
     resolve get_schema s ctx visiting =
       Inr \<lparr>resolved_definition = s, resolved_fields = fs, lineage = us\<rparr>"
proof (induction arbitrary: visiting rule: inherits.induct)
  case (root s ctx)
  have "add_fields [] (schema_fields s) = Inr (schema_fields s)"
    using root by (simp add: add_fields_Inr)
  moreover have "check_predecessor get_schema s ctx = Inr ()"
    using root by (simp add: check_predecessor_Inr)
  ultimately show ?case using root by (subst resolve.simps) simp
next
  case (child s uid ctx p t fs us)
  have v: "uid \<notin> set visiting" "visited_later get_schema (uid # visiting) (context_of p)"
    using visited_later_step child by blast+
  have r: "resolve get_schema t (context_of p) (uid # visiting) =
      Inr \<lparr>resolved_definition = t, resolved_fields = fs, lineage = us\<rparr>"
    using child.prems v(2) by (intro child.IH) auto
  have "add_fields fs (schema_fields s) = Inr (fs @ schema_fields s)"
    using child by (simp add: add_fields_Inr)
  moreover have "check_predecessor get_schema s ctx = Inr ()"
    using child by (simp add: check_predecessor_Inr)
  moreover have "require_reference get_schema uid ''extends'' ctx = Inr p"
    using child by (simp add: require_reference_Inr)
  ultimately show ?case
    using child.hyps child.prems v(1) r by (subst resolve.simps) simp
qed

text \<open>
  The resolver decides inheritance: it accepts a schema exactly when it inherits, through at most
  fifteen ancestors, at most 256 field descriptors; and then it returns them.
\<close>

lemma resolve_iff:
  "resolve get_schema s ctx [] = Inr r \<longleftrightarrow>
     resolved_definition r = s \<and> inherits get_schema s ctx (resolved_fields r) (lineage r) \<and>
     length (lineage r) \<le> 15 \<and> count_schema_fields (resolved_fields r) \<le> 256"
  (is "?l = ?r")
proof
  assume ?l
  then show ?r using resolve_sound [OF \<open>?l\<close>] by (simp add: MAX_SCHEMA_DEPTH_def MAX_SCHEMA_FIELDS_def)
next
  assume r: ?r
  then have "resolve get_schema s ctx [] =
      Inr \<lparr>resolved_definition = s, resolved_fields = resolved_fields r, lineage = lineage r\<rparr>"
    by (intro resolve_complete)
      (simp_all add: visited_later_def MAX_SCHEMA_DEPTH_def MAX_SCHEMA_FIELDS_def)
  with r show ?l by simp
qed

text \<open>Every ancestor is registered before the schema, and no schema is its own ancestor.\<close>

lemma inherits_earlier:
  "inherits get_schema s ctx fs us \<Longrightarrow> uid \<in> set us \<Longrightarrow>
     \<exists>p. get_schema uid = Some p \<and> registered_uid p = uid \<and> is_earlier p ctx"
proof (induction rule: inherits.induct)
  case (root s ctx)
  then show ?case by simp
next
  case (child s v ctx p t fs us)
  then show ?case
    using is_earlier_trans by (fastforce simp: refers_def)
qed

lemma inherits_lineage_distinct: "inherits get_schema s ctx fs us \<Longrightarrow> distinct us"
proof (induction rule: inherits.induct)
  case (root s ctx)
  then show ?case by simp
next
  case (child s v ctx p t fs us)
  then show ?case
    using inherits_earlier [OF child.hyps(4)] is_earlier_irrefl by (fastforce simp: refers_def)
qed

lemma inherits_same_network:
  "inherits get_schema s ctx fs us \<Longrightarrow> uid \<in> set us \<Longrightarrow>
     \<exists>p. get_schema uid = Some p \<and> num_same (registered_network_id p) (ctx_network_id ctx)"
proof (induction rule: inherits.induct)
  case (root s ctx)
  then show ?case by simp
next
  case (child s v ctx p t fs us)
  then show ?case
    by (auto simp: refers_def context_of_def intro: num_less_same_trans)
qed

text \<open>Inherited fields are kept, with their descriptors, before the schema's own.\<close>

lemma inherits_fields:
  "inherits get_schema s ctx fs us \<Longrightarrow>
     \<exists>inherited. fs = inherited @ schema_fields s \<and> distinct (map fst fs)"
  by (cases rule: inherits.cases) auto

end
