(* ===== verification/Claims.thy ===== *)
theory Claims
  imports Schema
begin

text \<open>
  Validation of claims against the fields of a schema (\<open>packages/core/src/claims.ts\<close>), and its
  equivalence with an inductive account of which values conform to a descriptor: integers are the
  canonical decimal numerals of exactly the 256-bit ranges, byte strings the canonical base64url
  texts, and objects have all required and no undeclared members.
\<close>

definition UINT256_MAX :: nat where
  "UINT256_MAX =
     115792089237316195423570985008687907853269984665640564039457584007913129639935"

definition INT256_MIN :: int where
  "INT256_MIN =
     -57896044618658097711785492504343953926634992332820282019728792003956564819968"

definition INT256_MAX :: int where
  "INT256_MAX =
     57896044618658097711785492504343953926634992332820282019728792003956564819967"

text \<open>\<open>/^(?:0|-?[1-9][0-9]*)$/\<close> and \<open>BigInt\<close> of such a numeral.\<close>

definition minus_cu :: cu where
  "minus_cu = of_char CHR ''-''"

definition signed_integer :: "jstr \<Rightarrow> bool" where
  "signed_integer s \<longleftrightarrow>
     s = lit ''0'' \<or> unsigned_integer s \<or>
     (case s of [] \<Rightarrow> False
      | c # cs \<Rightarrow> c = minus_cu \<and> unsigned_integer cs \<and> cs \<noteq> lit ''0'')"

definition int_value :: "jstr \<Rightarrow> int" where
  "int_value s =
     (case s of [] \<Rightarrow> 0
      | c # cs \<Rightarrow> if c = minus_cu then - int (dec_value cs) else int (dec_value s))"

definition is_canonical_base64url :: "'x core_lib_scheme \<Rightarrow> jstr \<Rightarrow> bool" where
  "is_canonical_base64url lib value =
     (case base64url_decode lib value of
        None \<Rightarrow> False
      | Some bytes \<Rightarrow> base64url_encode lib bytes = value)"

abbreviation claims_fail :: "jstr \<Rightarrow> cerr + 'a" where
  "claims_fail path \<equiv> xcs_fail INVALID_CLAIMS path"

fun parse_scalar ::
  "'x core_lib_scheme \<Rightarrow> jsval \<Rightarrow> scalar_type \<Rightarrow> jstr \<Rightarrow> cerr + jsval" where
  "parse_scalar lib value TString path =
     (case value of JStr s \<Rightarrow> Inr value | _ \<Rightarrow> claims_fail path)"
| "parse_scalar lib value TBool path =
     (case value of JBool b \<Rightarrow> Inr value | _ \<Rightarrow> claims_fail path)"
| "parse_scalar lib value TUint path =
     (case value of
        JStr s \<Rightarrow>
          if \<not> unsigned_integer s then claims_fail path
          else if 78 < length s \<or> UINT256_MAX < dec_value s then claims_fail path
          else Inr value
      | _ \<Rightarrow> claims_fail path)"
| "parse_scalar lib value TInt path =
     (case value of
        JStr s \<Rightarrow>
          if \<not> signed_integer s then claims_fail path
          else if 79 < length s \<or> int_value s < INT256_MIN \<or> INT256_MAX < int_value s
          then claims_fail path
          else Inr value
      | _ \<Rightarrow> claims_fail path)"
| "parse_scalar lib value TBytes path =
     (case value of
        JStr s \<Rightarrow> if is_canonical_base64url lib s then Inr value else claims_fail path
      | _ \<Rightarrow> claims_fail path)"
| "parse_scalar lib value TAddress path =
     (case value of
        JStr s \<Rightarrow> if is_valid_classic_address lib s then Inr value else claims_fail path
      | _ \<Rightarrow> claims_fail path)"

text \<open>
  \<open>parseValue\<close> and \<open>parseObject\<close>. \<open>parse_items\<close> is \<open>Array.prototype.map\<close>, which keeps holes;
  \<open>parse_members\<close> is the loop over the declared fields.
\<close>

function (sequential) parse_value ::
    "'x core_lib_scheme \<Rightarrow> jsval \<Rightarrow> descriptor \<Rightarrow> jstr \<Rightarrow> cerr + jsval"
  and parse_items ::
    "'x core_lib_scheme \<Rightarrow> jsval list \<Rightarrow> nat \<Rightarrow> descriptor \<Rightarrow> jstr \<Rightarrow> cerr + jsval list"
  and parse_object :: "'x core_lib_scheme \<Rightarrow> jsval \<Rightarrow> schema_fields \<Rightarrow> jstr \<Rightarrow> cerr + jsval"
  and parse_members ::
    "'x core_lib_scheme \<Rightarrow> jsval \<Rightarrow> schema_fields \<Rightarrow> jstr \<Rightarrow> cerr + (jstr \<times> jsval) list" where
  "parse_value lib value descriptor path =
     (if value = JNull then claims_fail path
      else case descriptor of
        Scalar t _ \<Rightarrow> parse_scalar lib value t path
      | ArrayOf items _ \<Rightarrow>
          (case value of
             JArr xs \<Rightarrow> rbind (parse_items lib xs 0 items path) (\<lambda>ys. Inr (JArr ys))
           | _ \<Rightarrow> claims_fail path)
      | ObjectOf fs _ \<Rightarrow> parse_object lib value fs path)"
| "parse_items lib [] index d path = Inr []"
| "parse_items lib (x # xs) index d path =
     rbind (if x = JHole then Inr JHole else parse_value lib x d (path_index path index)) (\<lambda>y.
     rbind (parse_items lib xs (index + 1) d path) (\<lambda>ys. Inr (y # ys)))"
| "parse_object lib input fs path =
     (if \<not> is_record input then claims_fail path
      else
        rbind (each (\<lambda>name. if has_own fs name then Inr () else claims_fail (path_key path name))
                 (map fst (entries_of input))) (\<lambda>_.
        rbind (parse_members lib input fs path) (\<lambda>claims. Inr (JObj Plain claims))))"
| "parse_members lib input [] path = Inr []"
| "parse_members lib input ((name, descriptor) # fs) path =
     (if \<not> has_own (entries_of input) name then
        (if is_optional descriptor then parse_members lib input fs path
         else claims_fail (path_key path name))
      else
        rbind (parse_value lib (prop_of input name) descriptor (path_key path name)) (\<lambda>y.
        rbind (parse_members lib input fs path) (\<lambda>claims. Inr ((name, y) # claims))))"
  by pat_completeness auto
termination
  by (relation "measures
        [\<lambda>x. case x of
             Inl (Inl (_, _, d, _)) \<Rightarrow> 2 * size d
           | Inl (Inr (_, _, _, d, _)) \<Rightarrow> 2 * size d + 1
           | Inr (Inl (_, _, fs, _)) \<Rightarrow> 2 * size_list (\<lambda>(_, d). Suc (size d)) fs + 1
           | Inr (Inr (_, _, fs, _)) \<Rightarrow> 2 * size_list (\<lambda>(_, d). Suc (size d)) fs,
         \<lambda>x. case x of Inl (Inr (_, xs, _, _, _)) \<Rightarrow> length xs | _ \<Rightarrow> 0]")
    (auto simp: case_prod_unfold size_prod_simp)

declare parse_value.simps [simp del] parse_object.simps [simp del]

definition parse_claims :: "'x core_lib_scheme \<Rightarrow> jsval \<Rightarrow> schema_fields \<Rightarrow> cerr + jsval" where
  "parse_claims lib input fs = parse_object lib input fs (lit ''$.claims'')"

section \<open>Integers\<close>

definition int_str :: "int \<Rightarrow> jstr" where
  "int_str i = (if i < 0 then minus_cu # dec_str (nat (- i)) else dec_str (nat i))"

lemma minus_not_digit: "\<not> is_digit minus_cu"
  by (simp add: minus_cu_def class_unat)

lemma unsigned_integer_no_minus: "unsigned_integer (c # cs) \<Longrightarrow> c \<noteq> minus_cu"
  by (auto simp: unsigned_integer_def minus_cu_def lit_def class_unat)

lemma unsigned_integer_iff: "unsigned_integer s \<longleftrightarrow> (\<exists>n. s = dec_str n)"
  using dec_str_dec_value unsigned_integer_dec_str by metis

lemma dec_str_eq_0: "dec_str n = lit ''0'' \<longleftrightarrow> n = 0"
proof -
  have "dec_str 0 = lit ''0''" by (subst dec_str.simps) (simp add: lit_def digit_cu_def)
  then show ?thesis using dec_value_dec_str by metis
qed

lemma int_value_int_str: "int_value (int_str i) = i"
proof (cases "i < 0")
  case True
  then show ?thesis by (simp add: int_value_def int_str_def)
next
  case False
  obtain c cs where "dec_str (nat i) = c # cs" by (cases "dec_str (nat i)") auto
  moreover have "c \<noteq> minus_cu"
    using unsigned_integer_no_minus unsigned_integer_dec_str calculation by metis
  ultimately show ?thesis
    using False dec_value_dec_str [of "nat i"] by (simp add: int_value_def int_str_def)
qed

lemma signed_integer_iff: "signed_integer s \<longleftrightarrow> (\<exists>i. s = int_str i)"
proof
  assume "signed_integer s"
  then consider n where "s = dec_str n" | n where "s = minus_cu # dec_str n" "n \<noteq> 0"
    by (auto simp: signed_integer_def unsigned_integer_iff dec_str_eq_0 split: list.splits)
      (metis dec_str_eq_0)
  then show "\<exists>i. s = int_str i"
  proof cases
    case 1
    then have "s = int_str (int n)" by (simp add: int_str_def)
    then show ?thesis ..
  next
    case 2
    then have "s = int_str (- int n)" by (simp add: int_str_def)
    then show ?thesis ..
  qed
next
  assume "\<exists>i. s = int_str i"
  then show "signed_integer s"
    by (auto simp: signed_integer_def int_str_def unsigned_integer_dec_str dec_str_eq_0
        simp del: dec_str.simps)
qed

lemma length_dec_str: "n < 10 ^ k \<Longrightarrow> 0 < k \<Longrightarrow> length (dec_str n) \<le> k"
proof (induction n arbitrary: k rule: dec_str.induct)
  case (1 n)
  show ?case
  proof (cases "n < 10")
    case True
    then show ?thesis using 1(3) by (subst dec_str.simps) simp
  next
    case False
    then obtain j where k: "k = Suc j" "0 < j"
      using 1(2,3) by (cases k; cases "k - 1") auto
    then have "n div 10 < 10 ^ j" using 1(2) by (simp add: less_mult_imp_div_less mult.commute)
    then have "length (dec_str (n div 10)) \<le> j" using 1(1) False k(2) by blast
    then show ?thesis using False k(1) by (subst dec_str.simps) simp
  qed
qed

text \<open>The guards on the length of the text are implied by the bounds on the value.\<close>

lemma uint_accepted:
  "(\<not> (78 < length s \<or> UINT256_MAX < dec_value s) \<and> unsigned_integer s) \<longleftrightarrow>
     (\<exists>n. s = dec_str n \<and> n < 2 ^ 256)"
proof -
  have "length (dec_str n) \<le> 78" if "n < 2 ^ 256" for n
  proof (rule length_dec_str)
    have "(2::nat) ^ 256 < 10 ^ 78" by simp
    with that show "n < 10 ^ 78" by (rule less_trans)
  qed simp
  then show ?thesis
    by (auto simp: unsigned_integer_iff UINT256_MAX_def not_less le_less_trans
        simp del: dec_str.simps)
qed

lemma int_accepted:
  "(\<not> (79 < length s \<or> int_value s < INT256_MIN \<or> INT256_MAX < int_value s) \<and> signed_integer s) \<longleftrightarrow>
     (\<exists>i. s = int_str i \<and> - (2 ^ 255) \<le> i \<and> i < 2 ^ 255)"
proof -
  have bounds: "- (2 ^ 255) \<le> i \<and> i < 2 ^ 255 \<longleftrightarrow> INT256_MIN \<le> i \<and> i \<le> INT256_MAX" for i
    by (auto simp: INT256_MIN_def INT256_MAX_def)
  have len: "length (int_str i) \<le> 79" if "INT256_MIN \<le> i" "i \<le> INT256_MAX" for i
  proof -
    have "length (dec_str (nat \<bar>i\<bar>)) \<le> 78"
    proof (rule length_dec_str)
      have "nat \<bar>i\<bar> \<le> 2 ^ 255" using that by (simp add: INT256_MIN_def INT256_MAX_def)
      also have "(2::nat) ^ 255 < 10 ^ 78" by simp
      finally show "nat \<bar>i\<bar> < 10 ^ 78" .
    qed simp
    then show ?thesis by (simp add: int_str_def abs_if split: if_splits)
  qed
  show ?thesis
    unfolding bounds by (auto simp: signed_integer_iff int_value_int_str not_less dest: len)
qed

section \<open>Conformance\<close>

text \<open>
  \<open>conforms lib v d\<close>: the value \<open>v\<close> is one the descriptor \<open>d\<close> describes. A hole of a sparse array
  passes, as \<open>map\<close> skips it.
\<close>

inductive conforms :: "'x core_lib_scheme \<Rightarrow> jsval \<Rightarrow> descriptor \<Rightarrow> bool" for lib where
  string: "conforms lib (JStr s) (Scalar TString opt)"
| bool: "conforms lib (JBool b) (Scalar TBool opt)"
| uint: "n < 2 ^ 256 \<Longrightarrow> conforms lib (JStr (dec_str n)) (Scalar TUint opt)"
| int: "- (2 ^ 255) \<le> i \<Longrightarrow> i < 2 ^ 255 \<Longrightarrow> conforms lib (JStr (int_str i)) (Scalar TInt opt)"
| bytes: "base64url_decode lib s = Some bs \<Longrightarrow> base64url_encode lib bs = s \<Longrightarrow>
    conforms lib (JStr s) (Scalar TBytes opt)"
| address: "is_valid_classic_address lib s \<Longrightarrow> conforms lib (JStr s) (Scalar TAddress opt)"
| array: "(\<And>x. x \<in> set xs \<Longrightarrow> x = JHole \<or> conforms lib x d) \<Longrightarrow>
    conforms lib (JArr xs) (ArrayOf d opt)"
| object: "is_record v \<Longrightarrow> fst ` set (entries_of v) \<subseteq> fst ` set fs \<Longrightarrow>
    (\<And>name d. (name, d) \<in> set fs \<Longrightarrow> has_own (entries_of v) name \<Longrightarrow>
       conforms lib (prop_of v name) d) \<Longrightarrow>
    (\<And>name d. (name, d) \<in> set fs \<Longrightarrow> \<not> has_own (entries_of v) name \<Longrightarrow> is_optional d) \<Longrightarrow>
    conforms lib v (ObjectOf fs opt)"

inductive_cases conforms_scalarE: "conforms lib v (Scalar t opt)"
inductive_cases conforms_arrayE: "conforms lib v (ArrayOf d opt)"
inductive_cases conforms_objectE: "conforms lib v (ObjectOf fs opt)"

lemma conforms_scalar_iff:
  "conforms lib v (Scalar t opt) \<longleftrightarrow> (\<exists>w. parse_scalar lib v t path = Inr w)"
proof (cases t)
  case TUint
  have "conforms lib v (Scalar TUint opt) \<longleftrightarrow> (\<exists>s n. v = JStr s \<and> s = dec_str n \<and> n < 2 ^ 256)"
    by (auto simp del: dec_str.simps intro: conforms.intros elim!: conforms_scalarE)
  also have "\<dots> \<longleftrightarrow> (\<exists>w. parse_scalar lib v TUint path = Inr w)"
    using uint_accepted by (cases v) (auto simp: res_simps simp del: dec_str.simps)
  finally show ?thesis by (simp add: TUint)
next
  case TInt
  have "conforms lib v (Scalar TInt opt) \<longleftrightarrow>
      (\<exists>s i. v = JStr s \<and> s = int_str i \<and> - (2 ^ 255) \<le> i \<and> i < 2 ^ 255)"
    by (auto intro: conforms.intros elim!: conforms_scalarE)
  also have "\<dots> \<longleftrightarrow> (\<exists>w. parse_scalar lib v TInt path = Inr w)"
    using int_accepted by (cases v) (auto simp: res_simps)
  finally show ?thesis by (simp add: TInt)
qed (cases v; force simp: res_simps is_canonical_base64url_def intro: conforms.intros
    elim!: conforms_scalarE split: option.splits)+

lemma parse_scalar_id: "parse_scalar lib v t path = Inr w \<Longrightarrow> w = v"
  by (cases t; cases v) (auto simp: res_simps)

lemma parse_items_iff:
  "(\<exists>ys. parse_items lib xs i d path = Inr ys) \<longleftrightarrow>
     (\<forall>j < length xs. xs ! j \<noteq> JHole \<longrightarrow>
        (\<exists>y. parse_value lib (xs ! j) d (path_index path (i + j)) = Inr y))"
proof (induction xs arbitrary: i)
  case Nil
  then show ?case by simp
next
  case (Cons x xs)
  have "(\<exists>ys. parse_items lib (x # xs) i d path = Inr ys) \<longleftrightarrow>
      (x \<noteq> JHole \<longrightarrow> (\<exists>y. parse_value lib x d (path_index path i) = Inr y)) \<and>
      (\<exists>ys. parse_items lib xs (i + 1) d path = Inr ys)"
    by (auto simp: res_simps)
  also have "\<dots> \<longleftrightarrow> (\<forall>j < length (x # xs). (x # xs) ! j \<noteq> JHole \<longrightarrow>
        (\<exists>y. parse_value lib ((x # xs) ! j) d (path_index path (i + j)) = Inr y))"
    by (simp add: Cons.IH [of "Suc i"] All_less_Suc2)
  finally show ?case .
qed

lemma parse_members_iff:
  "(\<exists>c. parse_members lib v fs path = Inr c) \<longleftrightarrow>
     (\<forall>(name, d) \<in> set fs.
        if has_own (entries_of v) name
        then \<exists>y. parse_value lib (prop_of v name) d (path_key path name) = Inr y
        else is_optional d)"
proof (induction fs)
  case Nil
  then show ?case by simp
next
  case (Cons e fs)
  obtain name d where e: "e = (name, d)" by (cases e)
  have "(\<exists>c. parse_members lib v (e # fs) path = Inr c) \<longleftrightarrow>
      (if has_own (entries_of v) name
       then \<exists>y. parse_value lib (prop_of v name) d (path_key path name) = Inr y
       else is_optional d) \<and> (\<exists>c. parse_members lib v fs path = Inr c)"
    by (auto simp: e res_simps)
  then show ?case by (simp add: e Cons.IH)
qed

text \<open>\<open>parseValue\<close> accepts exactly the values that conform, whatever the path.\<close>

lemma parse_value_iff: "(\<exists>w. parse_value lib v d path = Inr w) \<longleftrightarrow> conforms lib v d"
proof (induction d arbitrary: v path)
  case (Scalar t opt)
  have "v \<noteq> JNull" if "conforms lib v (Scalar t opt)"
    using that by (auto elim: conforms_scalarE)
  moreover have "conforms lib v (Scalar t opt) \<longleftrightarrow> (\<exists>w. parse_scalar lib v t path = Inr w)"
    by (rule conforms_scalar_iff)
  ultimately show ?case by (subst parse_value.simps) auto
next
  case (ArrayOf d opt)
  have "(\<exists>w. parse_value lib v (ArrayOf d opt) path = Inr w) \<longleftrightarrow>
      (\<exists>xs. v = JArr xs \<and> (\<exists>ys. parse_items lib xs 0 d path = Inr ys))"
    by (subst parse_value.simps) (auto simp: res_simps split: jsval.splits)
  also have "\<dots> \<longleftrightarrow> (\<exists>xs. v = JArr xs \<and> (\<forall>x \<in> set xs. x = JHole \<or> conforms lib x d))"
    unfolding parse_items_iff ArrayOf.IH all_set_conv_all_nth by blast
  also have "\<dots> \<longleftrightarrow> conforms lib v (ArrayOf d opt)"
    by (auto intro: conforms.array elim: conforms_arrayE)
  finally show ?case .
next
  case (ObjectOf fs opt)
  have ih: "(\<exists>w. parse_value lib u (snd e) p = Inr w) \<longleftrightarrow> conforms lib u (snd e)" if "e \<in> set fs"
    for e u p
    using ObjectOf that by (cases e) auto
  have "(\<exists>w. parse_value lib v (ObjectOf fs opt) path = Inr w) \<longleftrightarrow>
      is_record v \<and> (\<forall>n \<in> fst ` set (entries_of v). has_own fs n) \<and>
      (\<exists>c. parse_members lib v fs path = Inr c)"
    by (subst parse_value.simps, subst parse_object.simps) (auto simp: res_simps each_eq_Inr)
  also have "(\<forall>n \<in> fst ` set (entries_of v). has_own fs n) \<longleftrightarrow>
      fst ` set (entries_of v) \<subseteq> fst ` set fs"
    by (auto simp: has_own_def)
  also have "(\<exists>c. parse_members lib v fs path = Inr c) \<longleftrightarrow>
      (\<forall>(name, d) \<in> set fs. if has_own (entries_of v) name
         then conforms lib (prop_of v name) d else is_optional d)"
    unfolding parse_members_iff by (rule ball_cong [OF refl]) (simp add: split_beta ih)
  also have "is_record v \<and> fst ` set (entries_of v) \<subseteq> fst ` set fs \<and> \<dots> \<longleftrightarrow>
      conforms lib v (ObjectOf fs opt)"
    by (auto intro: conforms.object elim!: conforms_objectE)
  finally show ?case .
qed

section \<open>The result is the input\<close>

text \<open>
  What \<open>parseClaims\<close> returns is its argument with the members of each object in the order of the
  schema.
\<close>

lemma parse_members_keys:
  "parse_members lib v fs path = Inr c \<Longrightarrow>
     map fst c = filter (\<lambda>n. has_own (entries_of v) n) (map fst fs)"
  by (induction fs arbitrary: c) (auto simp: res_simps split: if_splits)

lemma parse_same:
  "parse_value lib v d path = Inr w \<Longrightarrow> js_keys v \<Longrightarrow> json_value v \<Longrightarrow> descriptor_ok k d \<Longrightarrow>
     sort_keys w = sort_keys v"
  "parse_items lib xs i d path = Inr ys \<Longrightarrow> list_all js_keys xs \<Longrightarrow> list_all json_value xs \<Longrightarrow>
     descriptor_ok k d \<Longrightarrow> map sort_keys ys = map sort_keys xs"
  "parse_object lib v fs path = Inr w \<Longrightarrow> js_keys v \<Longrightarrow> json_value v \<Longrightarrow> fields_ok k fs \<Longrightarrow>
     sort_keys w = sort_keys v"
  "parse_members lib v fs path = Inr c \<Longrightarrow> js_keys v \<Longrightarrow> json_value v \<Longrightarrow> entries_ok k fs \<Longrightarrow>
     (\<forall>(n, y) \<in> set c. sort_keys y = sort_keys (prop_of v n))"
proof (induction lib v d path and lib xs i d path and lib v fs path and lib v fs path
    arbitrary: w k and ys k and w k and c k
    rule: parse_value_parse_items_parse_object_parse_members.induct)
  case (1 lib v d path)
  show ?case
  proof (cases d)
    case (Scalar t opt)
    with 1(3) have "parse_scalar lib v t path = Inr w"
      by (subst (asm) parse_value.simps) (auto simp: res_simps)
    then have "w = v" by (rule parse_scalar_id)
    then show ?thesis by simp
  next
    case (ArrayOf e opt)
    with 1(3) obtain xs ys where v: "v = JArr xs" and ys: "parse_items lib xs 0 e path = Inr ys"
      and w: "w = JArr ys"
      by (subst (asm) parse_value.simps) (auto simp: res_simps split: jsval.splits)
    have "map sort_keys ys = map sort_keys xs"
      using 1(4-6) ArrayOf by (intro 1(1) [of e opt xs] ys) (auto simp: v)
    then show ?thesis by (simp add: v w)
  next
    case (ObjectOf fs opt)
    with 1(3) have "v \<noteq> JNull" "parse_object lib v fs path = Inr w"
      by (subst (asm) parse_value.simps; simp add: res_simps)+
    then show ?thesis
      using 1(2) [of fs opt w "k + 1"] 1(4-6) ObjectOf by (simp add: fields_ok_def entries_ok_def)
  qed
next
  case (2 lib i d path)
  then show ?case by simp
next
  case (3 lib x xs i d path)
  then show ?case by (auto simp: res_simps split: if_splits)
next
  case (4 lib v fs path)
  from 4(2) obtain c kvs p where v: "v = JObj p kvs"
    and sub: "\<forall>n \<in> fst ` set kvs. has_own fs n"
    and c: "parse_members lib v fs path = Inr c" and w: "w = JObj Plain c"
    by (subst (asm) parse_object.simps) (auto simp: res_simps each_eq_Inr is_record_iff)
  have p: "p = Plain" and dk: "distinct (map fst kvs)" using 4(3,4) by (auto simp: v)
  have keys: "map fst c = filter (\<lambda>n. has_own kvs n) (map fst fs)"
    using parse_members_keys [OF c] by (simp add: v)
  then have dc: "distinct (map fst c)" using 4(5) by (simp add: fields_ok_def)
  have sk: "set (map fst c) = set (map fst kvs)"
    using sub by (auto simp: keys has_own_def)
  have e: "each (\<lambda>name. if has_own fs name then Inr () else claims_fail (path_key path name))
      (map fst (entries_of v)) = Inr ()"
    using sub by (simp add: v each_eq_Inr)
  have vals: "\<forall>(n, y) \<in> set c. sort_keys y = sort_keys (prop_of v n)"
    using 4(3-5) c e by (intro 4(1) [of "()" c k]) (auto simp: v fields_ok_def)
  have look: "(n, y) \<in> set kvs \<Longrightarrow> prop_of v n = y" for n y
    using dk by (simp add: v prop_of_JObj)
  have "set (map (\<lambda>(k, v). (k, sort_keys v)) c) = set (map (\<lambda>(k, v). (k, sort_keys v)) kvs)"
  proof (intro equalityI subsetI)
    fix e assume "e \<in> set (map (\<lambda>(k, v). (k, sort_keys v)) c)"
    then obtain n y where e: "e = (n, sort_keys y)" "(n, y) \<in> set c" by auto
    then have "n \<in> set (map fst kvs)" using sk by force
    then obtain z where z: "(n, z) \<in> set kvs" by auto
    then show "e \<in> set (map (\<lambda>(k, v). (k, sort_keys v)) kvs)"
      using e vals look [OF z] by force
  next
    fix e assume "e \<in> set (map (\<lambda>(k, v). (k, sort_keys v)) kvs)"
    then obtain n z where e: "e = (n, sort_keys z)" "(n, z) \<in> set kvs" by auto
    then have "n \<in> set (map fst c)" using sk by force
    then obtain y where "(n, y) \<in> set c" by auto
    then show "e \<in> set (map (\<lambda>(k, v). (k, sort_keys v)) c)"
      using e vals look [OF e(2)] by force
  qed
  then show ?case
    unfolding w v p by (intro sort_keys_same_entries dc dk)
next
  case (5 lib v path)
  then show ?case by simp
next
  case (6 lib v n d fs path)
  have rest: "entries_ok k fs" "descriptor_ok k d" using 6(7) by (simp_all add: entries_ok_def)
  show ?case
  proof (cases "has_own (entries_of v) n")
    case False
    then show ?thesis using 6 rest by (auto split: if_splits)
  next
    case True
    have "js_keys (prop_of v n)" using 6(5) by (rule js_keys_prop)
    moreover have "json_value (prop_of v n)"
      using 6(6) True by (cases v) (auto simp: has_own_iff prop_of_JObj list_all_iff has_own_def
          split: option.splits dest!: map_of_SomeD)
    moreover from 6(4) True obtain y c' where
      y: "parse_value lib (prop_of v n) d (path_key path n) = Inr y"
      and c': "parse_members lib v fs path = Inr c'" and c: "c = (n, y) # c'"
      by (auto simp: res_simps)
    ultimately have "sort_keys y = sort_keys (prop_of v n)"
      using 6(2) [of y k] True rest(2) by simp
    moreover have "\<forall>(n, y) \<in> set c'. sort_keys y = sort_keys (prop_of v n)"
      using 6(3) [of y c' k] True y c' 6(5,6) rest(1) by simp
    ultimately show ?thesis by (simp add: c)
  qed
qed

lemma parse_claims_iff:
  "(\<exists>w. parse_claims lib v fs = Inr w) \<longleftrightarrow> conforms lib v (ObjectOf fs False)"
proof -
  have "parse_object lib v fs path = parse_value lib v (ObjectOf fs False) path" for path
    by (subst parse_value.simps, subst parse_object.simps, subst parse_object.simps) auto
  then show ?thesis by (simp add: parse_claims_def parse_value_iff)
qed

lemma parse_claims_same:
  "parse_claims lib v fs = Inr w \<Longrightarrow> js_keys v \<Longrightarrow> json_value v \<Longrightarrow> fields_ok k fs \<Longrightarrow>
     sort_keys w = sort_keys v"
  unfolding parse_claims_def by (rule parse_same)

text \<open>Conformance does not depend on the order of members, and excludes numbers.\<close>

lemma conforms_same:
  "conforms lib v d \<Longrightarrow> js_keys v \<Longrightarrow> js_keys w \<Longrightarrow> sort_keys w = sort_keys v \<Longrightarrow> conforms lib w d"
proof (induction arbitrary: w rule: conforms.induct)
  case (array xs d opt)
  from array.prems(3) obtain ys where w: "w = JArr ys" and m: "map sort_keys ys = map sort_keys xs"
    by (auto simp: sort_keys_JArr)
  have "y = JHole \<or> conforms lib y d" if "y \<in> set ys" for y
  proof -
    from that m obtain x where x: "x \<in> set xs" "sort_keys y = sort_keys x"
      by (metis (no_types, lifting) imageE image_set list.set_map image_eqI)
    then show ?thesis
      using array.IH [OF x(1)] array.prems(1,2) that
      by (auto simp: w list_all_iff sort_keys_JHole)
  qed
  then show ?case unfolding w by (intro conforms.array) auto
next
  case (object v fs opt)
  have r: "is_record w" using object by (metis is_record_sort_keys)
  have keys: "fst ` set (entries_of w) = fst ` set (entries_of v)"
    using object.prems(3) by (metis entries_sort_keys)
  then have own: "has_own (entries_of w) n = has_own (entries_of v) n" for n
    by (simp add: has_own_def)
  show ?case
  proof (rule conforms.object)
    show "is_record w" by (fact r)
    show "fst ` set (entries_of w) \<subseteq> fst ` set fs" using object.hyps(2) keys by simp
    show "conforms lib (prop_of w n) d" if "(n, d) \<in> set fs" "has_own (entries_of w) n" for n d
      using object.IH [OF that(1)] that(2) object.prems js_keys_prop sort_keys_prop own by blast
    show "is_optional d" if "(n, d) \<in> set fs" "\<not> has_own (entries_of w) n" for n d
      using object.hyps(4) that own by blast
  qed
qed (auto simp: sort_keys_JStr sort_keys_JBool intro: conforms.intros)

lemma conforms_exact: "conforms lib v d \<Longrightarrow> js_keys v \<Longrightarrow> exact_numbers v"
proof (induction rule: conforms.induct)
  case (array xs d opt)
  then show ?case by (fastforce simp: list_all_iff)
next
  case (object v fs opt)
  from object.hyps(1) obtain p kvs where v: "v = JObj p kvs" by (auto simp: is_record_iff)
  have "exact_numbers y" if y: "(n, y) \<in> set kvs" for n y
  proof -
    have "n \<in> fst ` set fs" using object.hyps(2) y by (force simp: v)
    then obtain d where d: "(n, d) \<in> set fs" by auto
    have "prop_of v n = y" using object.prems y by (simp add: v prop_of_JObj)
    moreover have "has_own (entries_of v) n" using y by (force simp: v has_own_def)
    moreover have "js_keys y" using object.prems y by (auto simp: v list_all_iff)
    ultimately show ?thesis using object.IH [OF d] by simp
  qed
  then show ?case by (auto simp: v list_all_iff)
qed auto

end
