(* ===== verification/Payload_Uri.thy ===== *)
theory Payload_Uri
  imports Json
begin

text \<open>
  Payload URIs (\<open>packages/core/src/payload-uri.ts\<close>): the size limit and digest of payloads, the
  parser of \<open>ipfs://\<close> and \<open>https://\<close> URIs with the URL the payload is fetched from, and the
  integrity check. Main results: what a fetch URL looks like, the shape of a digest, and that a
  payload passes the check of the URI created for it.
\<close>

section \<open>Data\<close>

definition MAX_PAYLOAD_BYTES :: nat where "MAX_PAYLOAD_BYTES = 1024 * 1024"

datatype payload_uri =
    Ipfs (ipfs_uri: jstr) (ipfs_cid: jstr) (ipfs_digest: jstr)
  | Https (https_uri: jstr) (fetch_url: jstr) (https_digest: jstr)

fun digest_hex :: "payload_uri \<Rightarrow> jstr" where
  "digest_hex (Ipfs uri cid digest) = digest"
| "digest_hex (Https uri fetch digest) = digest"

fun uri_text :: "payload_uri \<Rightarrow> jstr" where
  "uri_text (Ipfs uri cid digest) = uri"
| "uri_text (Https uri fetch digest) = uri"

record payload_integrity_result =
  integrity_valid :: bool
  expected_digest_hex :: jstr
  actual_digest_hex :: jstr

definition https_prefix :: jstr where
  "https_prefix = lit ''https://''"

definition ch :: "char \<Rightarrow> cu" where
  "ch c = of_char c"

definition INVALID_NORMALIZED_HOST_ASCII :: jstr where
  "INVALID_NORMALIZED_HOST_ASCII = lit (''/?#@:[]'' @ [CHR 0x5C] @ ''%<>^|`{}'')"

definition alphanumerics :: string where
  "alphanumerics = ''ABCDEFGHIJKLMNOPQRSTUVWXYZabcdefghijklmnopqrstuvwxyz0123456789''"

text \<open>Character \<open>0x27\<close> is the apostrophe.\<close>

definition CANONICAL_HTTPS_PATH_ASCII :: jstr where
  "CANONICAL_HTTPS_PATH_ASCII = lit (alphanumerics @ ''-._~!$&'' @ [CHR 0x27] @ ''()*+,;=:@/'')"

definition CANONICAL_HTTPS_QUERY_ASCII :: jstr where
  "CANONICAL_HTTPS_QUERY_ASCII = lit (alphanumerics @ ''-._~!$&()*+,;=:@/?'')"

abbreviation uri_fail :: "cerr + 'a" where
  "uri_fail \<equiv> xcs_fail INVALID_PAYLOAD_URI (lit ''$uri'')"

section \<open>Payloads\<close>

definition payload_bytes :: "content \<Rightarrow> cerr + byte list" where
  "payload_bytes content =
     rbind (case content of Text s \<Rightarrow> rbind (utf8_byte_length s) (\<lambda>_. Inr ()) | Bytes _ \<Rightarrow> Inr ())
       (\<lambda>_.
         let bytes = (case content of Text s \<Rightarrow> encode_utf8 s | Bytes bs \<Rightarrow> bs) in
         if MAX_PAYLOAD_BYTES < length bytes
         then xcs_fail INVALID_CREDENTIAL_PAYLOAD (lit ''$payload'')
         else Inr bytes)"

definition payload_digest :: "'x core_lib_scheme \<Rightarrow> content \<Rightarrow> cerr + jstr" where
  "payload_digest lib content =
     rbind (payload_bytes content) (\<lambda>bytes. Inr (bytes_to_hex lib (sha256 lib bytes)))"

section \<open>Percent decoding\<close>

text \<open>\<open>decodeURIComponent\<close> of the language: each escape sequence must be one UTF-8 character.\<close>

definition hex_digit_value :: "cu \<Rightarrow> nat" where
  "hex_digit_value c =
     (if is_digit c then unat c - 48
      else if is_upper c then unat c - 55 else unat c - 87)"

fun percent_octets :: "nat \<Rightarrow> jstr \<Rightarrow> (byte list \<times> jstr) option" where
  "percent_octets 0 s = Some ([], s)"
| "percent_octets (Suc n) (p # a # b # s) =
     (if p = ch CHR ''%'' \<and> is_hex a \<and> is_hex b
      then map_option (\<lambda>(bs, r). (of_nat (16 * hex_digit_value a + hex_digit_value b) # bs, r))
             (percent_octets n s)
      else None)"
| "percent_octets (Suc n) s = None"

definition octet_count :: "nat \<Rightarrow> nat" where
  "octet_count b =
     (if b < 128 then 1 else if b < 192 then 0 else if b < 224 then 2
      else if b < 240 then 3 else if b < 248 then 4 else 0)"

lemma percent_octets_length:
  "percent_octets n s = Some (bs, r) \<Longrightarrow> length s = 3 * n + length r"
  by (induction n s arbitrary: bs rule: percent_octets.induct) (auto split: if_splits)

function decode_uri_component :: "jstr \<Rightarrow> jstr option" where
  "decode_uri_component s =
     (case s of
        [] \<Rightarrow> Some []
      | c # cs \<Rightarrow>
          if c \<noteq> ch CHR ''%'' then map_option ((#) c) (decode_uri_component cs)
          else (case percent_octets 1 s of
                  Some ([b], _) \<Rightarrow>
                    if octet_count (unat b) = 0 then None
                    else (case percent_octets (octet_count (unat b)) s of
                        None \<Rightarrow> None
                      | Some (bs, r) \<Rightarrow>
                          (case text_decode bs of
                             None \<Rightarrow> None
                           | Some t \<Rightarrow> map_option ((@) t) (decode_uri_component r)))
                | _ \<Rightarrow> None))"
  by pat_completeness auto
termination
  by (relation "measure length") (auto dest!: percent_octets_length)

declare decode_uri_component.simps [simp del]

section \<open>HTTPS URIs\<close>

definition normalize_port :: "jstr \<Rightarrow> jstr option" where
  "normalize_port port_suffix =
     (case port_suffix of
        [] \<Rightarrow> Some []
      | c # digits \<Rightarrow>
          if \<not> (c = ch CHR '':'' \<and> list_all is_digit digits) then None
          else if digits = [] then Some []
          else (let port = dec_value digits in
            if 65535 < port then None
            else Some (if port = 443 then [] else ch CHR '':'' # dec_str port)))"

definition has_invalid_host_character :: "jstr \<Rightarrow> bool" where
  "has_invalid_host_character host =
     list_ex (\<lambda>c. unat c \<le> 0x20 \<or> unat c = 0x7f \<or> c \<in> set INVALID_NORMALIZED_HOST_ASCII) host"

text \<open>\<open>/^\[::ffff:[0-9a-f]{1,4}:[0-9a-f]{1,4}\]$/\<close>\<close>

definition ipv4_mapped_ipv6_host :: "jstr \<Rightarrow> bool" where
  "ipv4_mapped_ipv6_host host =
     (take 8 host = lit ''[::ffff:'' \<and>
      (let r = drop 8 host;
           a = takeWhile is_lower_hex r; s = dropWhile is_lower_hex r;
           b = takeWhile is_lower_hex (tl s); t = dropWhile is_lower_hex (tl s)
       in 1 \<le> length a \<and> length a \<le> 4 \<and> s \<noteq> [] \<and> hd s = ch CHR '':'' \<and>
          1 \<le> length b \<and> length b \<le> 4 \<and> t = lit '']''))"

text \<open>\<open>s.search(class)\<close> splits a text before its first character of the class.\<close>

definition before :: "string \<Rightarrow> jstr \<Rightarrow> jstr" where
  "before cls s = takeWhile (\<lambda>c. c \<notin> set (lit cls)) s"

definition from_first :: "string \<Rightarrow> jstr \<Rightarrow> jstr" where
  "from_first cls s = dropWhile (\<lambda>c. c \<notin> set (lit cls)) s"

definition normalize_https_authority :: "'x core_lib_scheme \<Rightarrow> jstr \<Rightarrow> jstr option" where
  "normalize_https_authority lib uri =
     (let remainder = drop (length https_prefix) uri;
          authority = before ''/?#'' remainder;
          suffix = from_first ''/?#'' remainder
      in
        if take 1 authority = lit ''['' then
          (if ch CHR '']'' \<notin> set authority \<or> ch CHR ''%'' \<in> set authority then None
           else case normalize_port (tl (from_first '']'' authority)) of
             None \<Rightarrow> None
           | Some port \<Rightarrow>
               (case parse_url lib (https_prefix @ authority @ lit ''/'') of
                  None \<Rightarrow> None
                | Some address_url \<Rightarrow>
                    if ipv4_mapped_ipv6_host (url_hostname address_url) then None
                    else Some (https_prefix @ url_hostname address_url @ port @ suffix)))
        else if 1 < length (filter (\<lambda>c. c = ch CHR '':'') authority) then None
        else
          (case normalize_port (from_first '':'' authority) of
             None \<Rightarrow> None
           | Some port \<Rightarrow>
               (case decode_uri_component (before '':'' authority) of
                  None \<Rightarrow> None
                | Some decoded_host \<Rightarrow>
                    (case tr46_to_ascii lib decoded_host of
                       None \<Rightarrow> None
                     | Some ascii_host \<Rightarrow>
                         if ascii_host = [] \<or> has_invalid_host_character ascii_host then None
                         else (case parse_url lib (https_prefix @ ascii_host @ port @ lit ''/'') of
                                 None \<Rightarrow> None
                               | Some host_url \<Rightarrow>
                                   Some (https_prefix @ url_host host_url @ suffix))))))"

fun is_canonical_component :: "jstr \<Rightarrow> jstr \<Rightarrow> bool" where
  "is_canonical_component [] allowed = True"
| "is_canonical_component (c # cs) allowed =
     (if c = ch CHR ''%'' then
        (case cs of a # b # rest \<Rightarrow> is_hex a \<and> is_hex b \<and> is_canonical_component rest allowed
                  | _ \<Rightarrow> False)
      else c \<in> set allowed \<and> is_canonical_component cs allowed)"

text \<open>\<open>path.split('/')\<close> and \<open>segment.replaceAll(/%2e/gi, '.')\<close>\<close>

fun split_on :: "cu \<Rightarrow> jstr \<Rightarrow> jstr list" where
  "split_on sep [] = [[]]"
| "split_on sep (c # cs) =
     (if c = sep then [] # split_on sep cs
      else (case split_on sep cs of [] \<Rightarrow> [[c]] | seg # segs \<Rightarrow> (c # seg) # segs))"

fun replace_dots :: "jstr \<Rightarrow> jstr" where
  "replace_dots [] = []"
| "replace_dots (c # cs) =
     (case cs of
        a # b # rest \<Rightarrow>
          if c = ch CHR ''%'' \<and> a = ch CHR ''2'' \<and> (b = ch CHR ''e'' \<or> b = ch CHR ''E'')
          then ch CHR ''.'' # replace_dots rest else c # replace_dots cs
      | _ \<Rightarrow> c # replace_dots cs)"

definition is_dot_segment :: "jstr \<Rightarrow> bool" where
  "is_dot_segment segment \<longleftrightarrow>
     replace_dots segment = lit ''.'' \<or> replace_dots segment = lit ''..''"

definition build_fetch_url :: "jstr \<Rightarrow> jstr option" where
  "build_fetch_url normalized_uri =
     (if ch CHR ''#'' \<notin> set normalized_uri then None
      else
        (let without_fragment = before ''#'' normalized_uri;
             remainder = drop (length https_prefix) without_fragment;
             authority = before ''/?'' remainder;
             resource = from_first ''/?'' remainder;
             path = before ''?'' resource;
             query = (if ch CHR ''?'' \<notin> set resource then None
                      else Some (tl (from_first ''?'' resource)))
         in
           if \<not> is_canonical_component path CANONICAL_HTTPS_PATH_ASCII \<or>
              (\<exists>q \<in> set_option query. \<not> is_canonical_component q CANONICAL_HTTPS_QUERY_ASCII) \<or>
              list_ex is_dot_segment (split_on (ch CHR ''/'') path)
           then None
           else Some (https_prefix @ authority @ (if path = [] then lit ''/'' else path) @
             (case query of None \<Rightarrow> [] | Some q \<Rightarrow> ch CHR ''?'' # q))))"

section \<open>Parsing\<close>

text \<open>\<open>/^ipfs:\/\/(b[a-z2-7]+)$/\<close> gives the text of the CID.\<close>

definition is_base32 :: "cu \<Rightarrow> bool" where
  "is_base32 c \<longleftrightarrow> is_lower c \<or> between CHR ''2'' CHR ''7'' c"

definition ipfs_match :: "jstr \<Rightarrow> jstr option" where
  "ipfs_match uri =
     (let cid = drop 7 uri in
      if take 7 uri = lit ''ipfs://'' \<and> 2 \<le> length cid \<and> hd cid = ch CHR ''b'' \<and>
         list_all is_base32 (tl cid)
      then Some cid else None)"

definition parse_ipfs_uri :: "'x core_lib_scheme \<Rightarrow> jstr \<Rightarrow> cerr + payload_uri option" where
  "parse_ipfs_uri lib uri =
     (case ipfs_match uri of
        None \<Rightarrow> Inr None
      | Some cid_text \<Rightarrow>
          (case parse_cid lib cid_text of
             None \<Rightarrow> uri_fail
           | Some cid \<Rightarrow>
               if cid_version cid \<noteq> 1 \<or> cid_code cid \<noteq> 0x55 \<or> mh_code cid \<noteq> 0x12 \<or>
                  mh_size cid \<noteq> 32 \<or> cid_base32 cid \<noteq> cid_text
               then uri_fail
               else Inr (Some (Ipfs uri cid_text (bytes_to_hex lib (mh_digest cid))))))"

definition invalid_raw_https_character :: "cu \<Rightarrow> bool" where
  "invalid_raw_https_character c \<longleftrightarrow> unat c \<le> 0x20 \<or> unat c = 0x7f \<or> unat c = 92"

definition hash_prefix :: jstr where
  "hash_prefix = lit ''#xcs-sha256=''"

definition parse_https_uri :: "'x core_lib_scheme \<Rightarrow> jstr \<Rightarrow> cerr + payload_uri" where
  "parse_https_uri lib uri =
     (if take 8 uri \<noteq> https_prefix \<or> list_ex invalid_raw_https_character uri then uri_fail
      else
        (let authority = before ''/?#'' (drop (length https_prefix) uri) in
         if authority = [] \<or> ch CHR ''@'' \<in> set authority then uri_fail
         else case normalize_https_authority lib uri of
           None \<Rightarrow> uri_fail
         | Some normalized_uri \<Rightarrow>
             (case parse_url lib normalized_uri of
                None \<Rightarrow> uri_fail
              | Some parsed \<Rightarrow>
                  (case build_fetch_url normalized_uri of
                     None \<Rightarrow> uri_fail
                   | Some fetch \<Rightarrow>
                       if url_protocol parsed \<noteq> lit ''https:'' \<or> url_username parsed \<noteq> [] \<or>
                          url_password parsed \<noteq> [] \<or>
                          \<not> (take 12 (url_hash parsed) = hash_prefix \<and>
                             hash64 (drop 12 (url_hash parsed)))
                       then uri_fail
                       else Inr (Https uri fetch (drop 12 (url_hash parsed)))))))"

definition parse_payload_uri :: "'x core_lib_scheme \<Rightarrow> jstr \<Rightarrow> cerr + payload_uri" where
  "parse_payload_uri lib uri =
     rbind (utf8_byte_length uri) (\<lambda>len.
     if len < 1 \<or> 256 < len then uri_fail
     else rbind (parse_ipfs_uri lib uri) (\<lambda>ipfs.
       case ipfs of None \<Rightarrow> parse_https_uri lib uri | Some result \<Rightarrow> Inr result))"

definition create_https_payload_uri ::
  "'x core_lib_scheme \<Rightarrow> jstr \<Rightarrow> content \<Rightarrow> cerr + jstr" where
  "create_https_payload_uri lib base_url content =
     (case parse_url lib base_url of
        None \<Rightarrow> xcs_fail INVALID_PAYLOAD_URI (lit ''$url'')
      | Some url \<Rightarrow>
          if url_protocol url \<noteq> lit ''https:'' \<or> url_username url \<noteq> [] \<or> url_password url \<noteq> [] \<or>
             url_hash url \<noteq> []
          then xcs_fail INVALID_PAYLOAD_URI (lit ''$url'')
          else
            rbind (payload_digest lib content) (\<lambda>digest.
              let uri = url_with_hash lib url (lit ''xcs-sha256='' @ digest) in
              rbind (parse_payload_uri lib uri) (\<lambda>_. Inr uri)))"

definition create_ipfs_payload_uri :: "'x core_lib_scheme \<Rightarrow> content \<Rightarrow> cerr + jstr" where
  "create_ipfs_payload_uri lib content =
     rbind (payload_bytes content) (\<lambda>bytes.
       Inr (lit ''ipfs://'' @ create_raw_cid lib (sha256 lib bytes)))"

definition verify_payload_integrity ::
  "'x core_lib_scheme \<Rightarrow> content \<Rightarrow> jstr \<Rightarrow> cerr + payload_integrity_result" where
  "verify_payload_integrity lib content uri =
     rbind (parse_payload_uri lib uri) (\<lambda>parsed.
     rbind (payload_digest lib content) (\<lambda>actual.
       Inr \<lparr>integrity_valid = (digest_hex parsed = actual),
            expected_digest_hex = digest_hex parsed, actual_digest_hex = actual\<rparr>))"

section \<open>Fetch URLs\<close>

text \<open>
  What a fetch URL looks like: the scheme, an authority, an absolute path of canonical characters
  with no dot segment, also none written with escapes, an optional canonical query, no fragment.
\<close>

definition safe_fetch_url :: "jstr \<Rightarrow> bool" where
  "safe_fetch_url f \<longleftrightarrow>
     (\<exists>authority path query.
        f = https_prefix @ authority @ path @ query \<and>
        (\<forall>c \<in> set authority. c \<notin> set (lit ''/?#'')) \<and>
        path \<noteq> [] \<and> hd path = ch CHR ''/'' \<and>
        is_canonical_component path CANONICAL_HTTPS_PATH_ASCII \<and>
        \<not> list_ex is_dot_segment (split_on (ch CHR ''/'') path) \<and>
        (query = [] \<or> (\<exists>q. query = ch CHR ''?'' # q \<and>
           is_canonical_component q CANONICAL_HTTPS_QUERY_ASCII)) \<and>
        ch CHR ''#'' \<notin> set f)"

lemma ch_inject [simp]: "ch a = ch b \<longleftrightarrow> a = b"
  by (simp add: ch_def of_char_cu_inject)

lemma lit_eq_ch: "lit s = map ch s"
  by (simp add: lit_def ch_def)

lemma set_before: "c \<in> set (before cls s) \<Longrightarrow> c \<notin> set (lit cls) \<and> c \<in> set s"
  by (auto simp: before_def dest: set_takeWhileD)

lemma hd_from_first: "from_first cls s \<noteq> [] \<Longrightarrow> hd (from_first cls s) \<in> set (lit cls)"
  using hd_dropWhile [of "\<lambda>c. c \<notin> set (lit cls)" s] by (simp add: from_first_def)

lemma build_fetch_url_safe:
  assumes "build_fetch_url u = Some f"
  shows "safe_fetch_url f"
proof -
  define r where "r = drop (length https_prefix) (before ''#'' u)"
  define authority where "authority = before ''/?'' r"
  define resource where "resource = from_first ''/?'' r"
  define path where "path = before ''?'' resource"
  define query where "query = (if ch CHR ''?'' \<notin> set resource then None
    else Some (tl (from_first ''?'' resource)))"
  let ?bad = "\<not> is_canonical_component path CANONICAL_HTTPS_PATH_ASCII \<or>
    (\<exists>q \<in> set_option query. \<not> is_canonical_component q CANONICAL_HTTPS_QUERY_ASCII) \<or>
    list_ex is_dot_segment (split_on (ch CHR ''/'') path)"
  let ?f = "https_prefix @ authority @ (if path = [] then lit ''/'' else path) @
    (case query of None \<Rightarrow> [] | Some q \<Rightarrow> ch CHR ''?'' # q)"
  have "build_fetch_url u = (if ch CHR ''#'' \<notin> set u then None else if ?bad then None else Some ?f)"
    unfolding build_fetch_url_def Let_def query_def path_def authority_def resource_def r_def
    by (rule refl)
  with assms have "\<not> ?bad \<and> ?f = f" by (simp only: if_None_eq_Some option.inject simp_thms)
  then have ok: "is_canonical_component path CANONICAL_HTTPS_PATH_ASCII"
    "\<forall>q \<in> set_option query. is_canonical_component q CANONICAL_HTTPS_QUERY_ASCII"
    "\<not> list_ex is_dot_segment (split_on (ch CHR ''/'') path)" and f: "f = ?f"
    by auto
  have tl_sub: "set (tl xs) \<subseteq> set xs" for xs :: jstr
    by (cases xs) auto
  have ff: "set (from_first cls s) \<subseteq> set s" for cls s
    by (auto simp: from_first_def dest: set_dropWhileD)
  have nr: "ch CHR ''#'' \<notin> set r"
    using set_before [of "ch CHR ''#''" "''#''" u] unfolding r_def
    by (auto simp: lit_eq_ch dest: in_set_dropD)
  have sub: "set authority \<subseteq> set r" "set path \<subseteq> set r"
    using set_before unfolding authority_def path_def resource_def from_first_def
    by (fast dest: set_dropWhileD)+
  have subq: "set q \<subseteq> set r" if "query = Some q" for q
    using that tl_sub [of "from_first ''?'' resource"] ff [of "''?''" resource] ff [of "''/?''" r]
    unfolding query_def resource_def by (auto split: if_splits)
  have a: "\<forall>c \<in> set authority. c \<notin> set (lit ''/?#'')"
    using set_before [of _ "''/?''" r] nr unfolding authority_def by (auto simp: lit_eq_ch)
  have p: "hd path = ch CHR ''/''" if "path \<noteq> []"
  proof -
    have ne: "resource \<noteq> []" using that by (auto simp: path_def before_def)
    then have "hd resource \<in> set (lit ''/?'')" unfolding resource_def by (rule hd_from_first)
    moreover have "hd path = hd resource" and "hd path \<in> set path"
      using that ne by (cases resource; auto simp: path_def before_def split: if_splits)+
    ultimately show ?thesis
      using set_before [of "hd path" "''?''" resource] unfolding path_def by (auto simp: lit_eq_ch)
  qed
  let ?path = "if path = [] then lit ''/'' else path"
  let ?query = "case query of None \<Rightarrow> [] | Some q \<Rightarrow> ch CHR ''?'' # q"
  have slash: "is_canonical_component (lit ''/'') CANONICAL_HTTPS_PATH_ASCII"
    "\<not> list_ex is_dot_segment (split_on (ch CHR ''/'') (lit ''/''))"
    by (simp_all add: lit_eq_ch CANONICAL_HTTPS_PATH_ASCII_def is_dot_segment_def)
  have nohash: "ch CHR ''#'' \<notin> set f"
    using nr sub subq unfolding f https_prefix_def lit_eq_ch
    by (auto split: option.splits)
  show ?thesis
    unfolding safe_fetch_url_def
  proof (intro exI conjI)
    show "f = https_prefix @ authority @ ?path @ ?query" by (rule f)
    show "?query = [] \<or> (\<exists>q. ?query = ch CHR ''?'' # q \<and>
        is_canonical_component q CANONICAL_HTTPS_QUERY_ASCII)"
      using ok(2) by (cases query) auto
  qed (use a ok p slash nohash in \<open>auto simp: lit_eq_ch\<close>)
qed

lemma parse_ipfs_uri_Some:
  "parse_ipfs_uri lib uri = Inr (Some r) \<longleftrightarrow>
     (\<exists>t cid. ipfs_match uri = Some t \<and> parse_cid lib t = Some cid \<and>
        cid_version cid = 1 \<and> cid_code cid = 0x55 \<and> mh_code cid = 0x12 \<and> mh_size cid = 32 \<and>
        cid_base32 cid = t \<and> r = Ipfs uri t (bytes_to_hex lib (mh_digest cid)))"
  by (auto simp: parse_ipfs_uri_def res_simps split: option.splits)

lemma parse_https_uri_Inr:
  "parse_https_uri lib uri = Inr r \<Longrightarrow>
     \<exists>f d. (\<exists>n. build_fetch_url n = Some f) \<and> hash64 d \<and> r = Https uri f d"
  by (auto simp: parse_https_uri_def Let_def res_simps)

lemma parse_payload_uri_Inr:
  "parse_payload_uri lib uri = Inr r \<longleftrightarrow>
     wf_scan uri \<and> uri \<noteq> [] \<and> length (encode_utf8 uri) \<le> 256 \<and>
     (parse_ipfs_uri lib uri = Inr (Some r) \<or>
      parse_ipfs_uri lib uri = Inr None \<and> parse_https_uri lib uri = Inr r)"
  unfolding parse_payload_uri_def
  by (auto simp: res_simps utf8_byte_length_Inr not_less Suc_le_eq split: option.splits)

lemma parse_payload_uri_https:
  assumes "parse_payload_uri lib uri = Inr (Https u f d)"
  shows "u = uri \<and> hash64 d \<and> safe_fetch_url f"
  using assms parse_https_uri_Inr build_fetch_url_safe
  by (fastforce simp: parse_payload_uri_Inr parse_ipfs_uri_Some)

lemma parse_payload_uri_text: "parse_payload_uri lib uri = Inr r \<Longrightarrow> uri_text r = uri"
  by (auto simp: parse_payload_uri_Inr parse_ipfs_uri_Some dest: parse_https_uri_Inr)

text \<open>Every error is an \<open>XcsError\<close>.\<close>

lemma xcs_only_utf8 [xcs_intros]: "xcs_only (utf8_byte_length s)"
  by (simp add: xcs_only_def utf8_byte_length_def res_simps assert_well_formed_def)

lemma xcs_only_payload_uri [xcs_intros]: "xcs_only (parse_payload_uri lib uri)"
  unfolding parse_payload_uri_def parse_ipfs_uri_def parse_https_uri_def
  by (intro xcs_intros)

lemma xcs_only_payload_bytes [xcs_intros]: "xcs_only (payload_bytes content)"
  unfolding payload_bytes_def by (cases content) (auto intro!: xcs_intros)

lemma xcs_only_integrity [xcs_intros]: "xcs_only (verify_payload_integrity lib content uri)"
  unfolding verify_payload_integrity_def payload_digest_def by (intro xcs_intros)

section \<open>IPFS URIs\<close>

text \<open>
  What \<open>multiformats\<close> documents: the size of a multihash is the length of its digest, and the text
  of a raw SHA-256 CIDv1 is base32 in lower case and parses to that CID.
\<close>

definition cid_laws :: "'x core_lib_scheme \<Rightarrow> bool" where
  "cid_laws lib \<longleftrightarrow>
     (\<forall>t c. parse_cid lib t = Some c \<longrightarrow> mh_size c = int (length (mh_digest c))) \<and>
     (\<forall>d. length d = 32 \<longrightarrow>
        (let t = create_raw_cid lib d in
           parse_cid lib t = Some \<lparr>cid_version = 1, cid_code = 0x55, mh_code = 0x12, mh_size = 32,
             mh_digest = d, cid_base32 = t\<rparr> \<and>
           2 \<le> length t \<and> length t \<le> 249 \<and> hd t = ch CHR ''b'' \<and> list_all is_base32 (tl t)))"

lemma parse_payload_uri_digest:
  assumes "parse_payload_uri lib uri = Inr r" and "hex_laws lib" and "cid_laws lib"
  shows "hash64 (digest_hex r)"
proof (cases "parse_ipfs_uri lib uri = Inr (Some r)")
  case True
  then show ?thesis
    using assms(2,3) by (auto simp: parse_ipfs_uri_Some cid_laws_def hex_laws_def hash64_def)
next
  case False
  then show ?thesis using assms(1) by (auto simp: parse_payload_uri_Inr dest: parse_https_uri_Inr)
qed

lemma payload_bytes_Inr:
  "payload_bytes content = Inr bs \<longleftrightarrow>
     length bs \<le> MAX_PAYLOAD_BYTES \<and>
     (case content of Text s \<Rightarrow> wf_scan s \<and> bs = encode_utf8 s | Bytes b \<Rightarrow> bs = b)"
  by (auto simp: payload_bytes_def res_simps utf8_byte_length_Inr Let_def not_less
      split: content.splits)

lemma base32_small: "is_base32 c \<Longrightarrow> unat c < 128"
  by (auto simp: is_base32_def class_unat)

lemma parse_created_ipfs:
  assumes "create_ipfs_payload_uri lib content = Inr uri"
    and "hex_laws lib" "sha256_size lib" "cid_laws lib"
  shows "\<exists>bs. payload_bytes content = Inr bs \<and>
    parse_payload_uri lib uri = Inr (Ipfs uri (create_raw_cid lib (sha256 lib bs)) (sha256_hex lib bs))"
proof -
  from assms(1) obtain bs where b: "payload_bytes content = Inr bs"
    and uri: "uri = lit ''ipfs://'' @ create_raw_cid lib (sha256 lib bs)"
    by (auto simp: create_ipfs_payload_uri_def res_simps)
  define d where "d = sha256 lib bs"
  define t where "t = create_raw_cid lib d"
  have d: "length d = 32" using assms(3) by (simp add: d_def sha256_size_def)
  with assms(4) have t: "parse_cid lib t = Some \<lparr>cid_version = 1, cid_code = 0x55, mh_code = 0x12,
      mh_size = 32, mh_digest = d, cid_base32 = t\<rparr>"
    "2 \<le> length t" "length t \<le> 249" "hd t = ch CHR ''b''" "list_all is_base32 (tl t)"
    by (simp_all add: cid_laws_def Let_def t_def)
  have u: "uri = lit ''ipfs://'' @ t" by (simp add: uri t_def d_def)
  have "ipfs_match uri = Some t" using t by (simp add: ipfs_match_def u)
  then have p: "parse_ipfs_uri lib uri = Inr (Some (Ipfs uri t (bytes_to_hex lib d)))"
    using t by (simp add: parse_ipfs_uri_Some)
  have small: "\<forall>c \<in> set uri. unat c < 128"
  proof
    fix c assume "c \<in> set uri"
    then consider "c \<in> set (lit ''ipfs://'')" | "c = hd t" | "c \<in> set (tl t)"
      using t(2) by (cases t) (auto simp: u)
    then show "unat c < 128"
      using t(4,5) base32_small by cases (auto simp: lit_def ch_def list_all_iff)
  qed
  then have "\<forall>c \<in> set uri. unat c < 0xd800" by auto
  then have "wf_scan uri" using wf_scan_small by blast
  moreover have "length (encode_utf8 uri) = 7 + length t"
    using encode_utf8_ascii [OF small] by (simp add: u)
  ultimately have "parse_payload_uri lib uri = Inr (Ipfs uri t (bytes_to_hex lib d))"
    using p t(2,3) by (simp add: parse_payload_uri_Inr u)
  then show ?thesis using b by (auto simp: t_def d_def sha256_hex_def)
qed

lemma verify_created_ipfs:
  assumes "create_ipfs_payload_uri lib content = Inr uri"
    and "hex_laws lib" "sha256_size lib" "cid_laws lib"
  shows "\<exists>r. verify_payload_integrity lib content uri = Inr r \<and> integrity_valid r"
  using parse_created_ipfs [OF assms]
  by (auto simp: verify_payload_integrity_def payload_digest_def sha256_hex_def)

end
