(* ===== verification/Credential.thy ===== *)
theory Credential
  imports Claims Payload_Uri
begin

text \<open>
  Credential payloads (\<open>packages/core/src/credential.ts\<close>): building, parsing and verifying the
  document a Credential's URI points to. Main results: the exact meaning of each verification
  status, and that the payload built for a Credential verifies under the URI created for it.
\<close>

record credential_context =
  ctx_issuer :: jstr
  ctx_subject :: jstr
  ctx_schema_uid :: jstr
  ctx_fields :: schema_fields

record credential_payload =
  payload_issuer :: jstr
  payload_subject :: jstr
  payload_schema :: jstr
  payload_claims :: jsval

record encoded_credential_payload =
  encoded_payload :: credential_payload
  encoded_json :: jstr
  encoded_bytes :: "byte list"

datatype payload_retrieval = Retrieved content | Unavailable

datatype credential_payload_status = Valid | Payload_Unavailable | Tampered | Invalid

definition PAYLOAD_PROPERTIES :: "string list" where
  "PAYLOAD_PROPERTIES = [''xcsVersion'', ''issuer'', ''subject'', ''schema'', ''claims'']"

abbreviation payload_fail :: "string \<Rightarrow> cerr + 'a" where
  "payload_fail path \<equiv> xcs_fail INVALID_CREDENTIAL_PAYLOAD (lit path)"

definition payload_object :: "jstr \<Rightarrow> jstr \<Rightarrow> jstr \<Rightarrow> jsval \<Rightarrow> jsval" where
  "payload_object issuer subject schema claims = JObj Plain
     [(lit ''xcsVersion'', jlit ''0.1''), (lit ''issuer'', JStr issuer),
      (lit ''subject'', JStr subject), (lit ''schema'', JStr schema), (lit ''claims'', claims)]"

definition payload_value :: "credential_payload \<Rightarrow> jsval" where
  "payload_value p =
     payload_object (payload_issuer p) (payload_subject p) (payload_schema p) (payload_claims p)"

definition assert_context :: "'x core_lib_scheme \<Rightarrow> credential_context \<Rightarrow> cerr + unit" where
  "assert_context lib ctx =
     (if \<not> is_valid_classic_address lib (ctx_issuer ctx) then payload_fail ''$context.issuer''
      else if \<not> is_valid_classic_address lib (ctx_subject ctx)
      then payload_fail ''$context.subject''
      else if \<not> hash64 (ctx_schema_uid ctx) then payload_fail ''$context.schemaUid''
      else Inr ())"

definition parse_payload ::
  "'x core_lib_scheme \<Rightarrow> jsval \<Rightarrow> credential_context \<Rightarrow> cerr + credential_payload" where
  "parse_payload lib input ctx =
     rbind (assert_context lib ctx) (\<lambda>_.
     if \<not> is_record input then payload_fail ''$''
     else
       rbind (assert_only_properties INVALID_CREDENTIAL_PAYLOAD input PAYLOAD_PROPERTIES (lit ''$''))
         (\<lambda>_.
       if get input ''xcsVersion'' \<noteq> jlit ''0.1'' then payload_fail ''$.xcsVersion''
       else if get input ''issuer'' \<noteq> JStr (ctx_issuer ctx) then payload_fail ''$.issuer''
       else if get input ''subject'' \<noteq> JStr (ctx_subject ctx) then payload_fail ''$.subject''
       else if get input ''schema'' \<noteq> JStr (ctx_schema_uid ctx) then payload_fail ''$.schema''
       else rbind (parse_claims lib (get input ''claims'') (ctx_fields ctx)) (\<lambda>claims.
         Inr \<lparr>payload_issuer = ctx_issuer ctx, payload_subject = ctx_subject ctx,
              payload_schema = ctx_schema_uid ctx, payload_claims = claims\<rparr>)))"

definition encode_credential_payload ::
  "'x core_lib_scheme \<Rightarrow> jsval \<Rightarrow> credential_context \<Rightarrow> cerr + encoded_credential_payload" where
  "encode_credential_payload lib claims ctx =
     rbind (parse_payload lib
              (payload_object (ctx_issuer ctx) (ctx_subject ctx) (ctx_schema_uid ctx) claims) ctx)
       (\<lambda>payload.
     rbind (canonical_json lib (payload_value payload)) (\<lambda>json.
     rbind (encode_canonical_json lib (payload_value payload)) (\<lambda>bytes.
     rbind (payload_bytes (Bytes bytes)) (\<lambda>_.
       Inr \<lparr>encoded_payload = payload, encoded_json = json, encoded_bytes = bytes\<rparr>))))"

definition parse_credential_payload ::
  "'x core_lib_scheme \<Rightarrow> content \<Rightarrow> credential_context \<Rightarrow> cerr + credential_payload" where
  "parse_credential_payload lib content ctx =
     rbind (payload_bytes content) (\<lambda>bytes.
     rbind (parse_canonical_json lib (Bytes bytes)) (\<lambda>parsed.
       parse_payload lib parsed ctx))"

definition verify_credential_payload ::
  "'x core_lib_scheme \<Rightarrow> payload_retrieval \<Rightarrow> jstr \<Rightarrow> credential_context \<Rightarrow>
    cerr + credential_payload_status" where
  "verify_credential_payload lib retrieval uri ctx =
     attempt
       (rbind (parse_payload_uri lib uri) (\<lambda>_.
        case retrieval of
          Unavailable \<Rightarrow> Inr Payload_Unavailable
        | Retrieved content \<Rightarrow>
            rbind (verify_payload_integrity lib content uri) (\<lambda>result.
              if \<not> integrity_valid result then Inr Tampered
              else rbind (parse_credential_payload lib content ctx) (\<lambda>_. Inr Valid))))
       (\<lambda>error. if is_xcs_error error then Inr Invalid else Inl error)"

section \<open>What the statuses mean\<close>

lemma parse_payload_Inr:
  "parse_payload lib v ctx = Inr p \<longleftrightarrow>
     is_valid_classic_address lib (ctx_issuer ctx) \<and>
     is_valid_classic_address lib (ctx_subject ctx) \<and> hash64 (ctx_schema_uid ctx) \<and>
     is_record v \<and> fst ` set (entries_of v) \<subseteq> set (map lit PAYLOAD_PROPERTIES) \<and>
     get v ''xcsVersion'' = jlit ''0.1'' \<and> get v ''issuer'' = JStr (ctx_issuer ctx) \<and>
     get v ''subject'' = JStr (ctx_subject ctx) \<and> get v ''schema'' = JStr (ctx_schema_uid ctx) \<and>
     payload_issuer p = ctx_issuer ctx \<and> payload_subject p = ctx_subject ctx \<and>
     payload_schema p = ctx_schema_uid ctx \<and>
     parse_claims lib (get v ''claims'') (ctx_fields ctx) = Inr (payload_claims p)"
  by (cases p) (auto simp: parse_payload_def assert_context_def res_simps assert_only_properties_Inr)

text \<open>
  A document is a payload for a context: the bytes are the canonical text of a value that names
  the issuer, the subject and the schema of the context and whose claims conform to its fields.
\<close>

definition payload_for :: "'x core_lib_scheme \<Rightarrow> jsval \<Rightarrow> credential_context \<Rightarrow> bool" where
  "payload_for lib v ctx \<longleftrightarrow>
     is_valid_classic_address lib (ctx_issuer ctx) \<and>
     is_valid_classic_address lib (ctx_subject ctx) \<and> hash64 (ctx_schema_uid ctx) \<and>
     is_record v \<and> fst ` set (entries_of v) \<subseteq> set (map lit PAYLOAD_PROPERTIES) \<and>
     get v ''xcsVersion'' = jlit ''0.1'' \<and> get v ''issuer'' = JStr (ctx_issuer ctx) \<and>
     get v ''subject'' = JStr (ctx_subject ctx) \<and> get v ''schema'' = JStr (ctx_schema_uid ctx) \<and>
     conforms lib (get v ''claims'') (ObjectOf (ctx_fields ctx) False)"

definition payload_document ::
  "'x core_lib_scheme \<Rightarrow> byte list \<Rightarrow> credential_context \<Rightarrow> bool" where
  "payload_document lib bytes ctx \<longleftrightarrow>
     (\<exists>v. parse_canonical_json lib (Bytes bytes) = Inr v \<and> payload_for lib v ctx)"

lemma parse_payload_ok: "(\<exists>p. parse_payload lib v ctx = Inr p) \<longleftrightarrow> payload_for lib v ctx"
proof
  assume "\<exists>p. parse_payload lib v ctx = Inr p"
  then show "payload_for lib v ctx"
    by (auto simp: payload_for_def parse_payload_Inr simp flip: parse_claims_iff)
next
  assume a: "payload_for lib v ctx"
  then obtain w where "parse_claims lib (get v ''claims'') (ctx_fields ctx) = Inr w"
    by (auto simp: payload_for_def simp flip: parse_claims_iff)
  with a have "parse_payload lib v ctx = Inr \<lparr>payload_issuer = ctx_issuer ctx,
      payload_subject = ctx_subject ctx, payload_schema = ctx_schema_uid ctx, payload_claims = w\<rparr>"
    unfolding payload_for_def parse_payload_Inr by simp
  then show "\<exists>p. parse_payload lib v ctx = Inr p" ..
qed

lemma parse_credential_payload_ok:
  "(\<exists>p. parse_credential_payload lib content ctx = Inr p) \<longleftrightarrow>
     (\<exists>bytes. payload_bytes content = Inr bytes \<and> payload_document lib bytes ctx)"
  unfolding parse_credential_payload_def payload_document_def parse_payload_ok [symmetric]
    rbind_eq_Inr
  by blast

text \<open>The digest a payload has, and the one its URI names.\<close>

definition digest_matches :: "'x core_lib_scheme \<Rightarrow> content \<Rightarrow> jstr \<Rightarrow> bool" where
  "digest_matches lib content uri \<longleftrightarrow>
     (\<exists>r bytes. parse_payload_uri lib uri = Inr r \<and> payload_bytes content = Inr bytes \<and>
        digest_hex r = sha256_hex lib bytes)"

lemma verify_payload_integrity_Inr:
  "verify_payload_integrity lib content uri = Inr x \<longleftrightarrow>
     (\<exists>r bytes. parse_payload_uri lib uri = Inr r \<and> payload_bytes content = Inr bytes \<and>
        x = \<lparr>integrity_valid = (digest_hex r = sha256_hex lib bytes),
             expected_digest_hex = digest_hex r, actual_digest_hex = sha256_hex lib bytes\<rparr>)"
  by (auto simp: verify_payload_integrity_def payload_digest_def sha256_hex_def res_simps)

lemma digest_matches_iff:
  "digest_matches lib content uri \<longleftrightarrow>
     (\<exists>x. verify_payload_integrity lib content uri = Inr x \<and> integrity_valid x)"
  unfolding digest_matches_def verify_payload_integrity_Inr by force

lemma attempt_status:
  "s \<noteq> Invalid \<Longrightarrow>
     attempt m (\<lambda>e. if is_xcs_error e then Inr Invalid else Inl e) = Inr s \<longleftrightarrow> m = Inr s"
  by (cases m) auto

lemma verify_valid_iff:
  "verify_credential_payload lib (Retrieved content) uri ctx = Inr Valid \<longleftrightarrow>
     digest_matches lib content uri \<and>
     (\<exists>bytes. payload_bytes content = Inr bytes \<and> payload_document lib bytes ctx)"
proof -
  have "(\<exists>r. parse_payload_uri lib uri = Inr r) \<and>
      (\<exists>x. verify_payload_integrity lib content uri = Inr x \<and> integrity_valid x) \<and>
      (\<exists>p. parse_credential_payload lib content ctx = Inr p) \<longleftrightarrow>
      digest_matches lib content uri \<and>
      (\<exists>bytes. payload_bytes content = Inr bytes \<and> payload_document lib bytes ctx)"
    unfolding parse_credential_payload_ok digest_matches_iff [symmetric]
    by (auto simp: digest_matches_def)
  then show ?thesis
    unfolding verify_credential_payload_def
    by (subst attempt_status) (auto simp: rbind_eq_Inr split: if_splits)
qed

lemma verify_tampered_iff:
  "verify_credential_payload lib (Retrieved content) uri ctx = Inr Tampered \<longleftrightarrow>
     (\<exists>r bytes. parse_payload_uri lib uri = Inr r \<and> payload_bytes content = Inr bytes \<and>
        digest_hex r \<noteq> sha256_hex lib bytes)"
  unfolding verify_credential_payload_def
  by (subst attempt_status) (auto simp: rbind_eq_Inr verify_payload_integrity_Inr split: if_splits)

lemma verify_unavailable_iff:
  "verify_credential_payload lib retrieval uri ctx = Inr Payload_Unavailable \<longleftrightarrow>
     retrieval = Unavailable \<and> (\<exists>r. parse_payload_uri lib uri = Inr r)"
  unfolding verify_credential_payload_def
  by (subst attempt_status)
    (auto simp: rbind_eq_Inr split: if_splits payload_retrieval.splits)

text \<open>
  The only error that escapes is the \<open>SyntaxError\<close> of \<open>JSON.parse\<close> on a text that \<open>jsonc-parser\<close>
  accepted.
\<close>

lemma xcs_only_json_value [xcs_intros]: "xcs_only (assert_json_value v)"
  unfolding xcs_only_def assert_json_value_def by (auto dest: assert_json_value_internal_Inl)

lemma xcs_only_canonical_json [xcs_intros]: "xcs_only (canonical_json lib v)"
  unfolding canonical_json_def by (intro xcs_intros)

definition syntax_mismatch :: "'x core_lib_scheme \<Rightarrow> bool" where
  "syntax_mismatch lib \<longleftrightarrow>
     (\<exists>text root. parse_tree lib text = (Some root, False) \<and> json_parse lib text = None)"

lemma reject_duplicates_Inl:
  "reject_duplicate_object_keys n = Inl e \<Longrightarrow> is_xcs_error e"
  "reject_properties keys ps = Inl e \<Longrightarrow> is_xcs_error e"
  "reject_children cs = Inl e \<Longrightarrow> is_xcs_error e"
  by (induction n and keys ps and cs
      rule: reject_duplicate_object_keys_reject_properties_reject_children.induct)
    (auto simp: rbind_eq_Inl split: if_splits list.splits jnode.splits jsval.splits)

lemma content_text_Inl: "content_text input = Inl e \<Longrightarrow> is_xcs_error e"
  by (auto simp: content_text_def decode_utf8_def split: content.splits option.splits)

lemma parse_json_Inl:
  "parse_json lib input = Inl e \<Longrightarrow> is_xcs_error e \<or> e = SyntaxErr \<and> syntax_mismatch lib"
proof -
  assume a: "parse_json lib input = Inl e"
  show ?thesis
  proof (cases "content_text input")
    case (Inl e')
    then show ?thesis using a content_text_Inl by (simp add: parse_json_def)
  next
    case (Inr s)
    obtain r f where t: "parse_tree lib s = (r, f)" by (cases "parse_tree lib s")
    show ?thesis
    proof (cases "r = None \<or> f")
      case True
      then show ?thesis using a Inr t by (cases r) (auto simp: parse_json_def)
    next
      case False
      then obtain root where r: "r = Some root" "\<not> f" by auto
      show ?thesis
      proof (cases "reject_duplicate_object_keys root")
        case (Inl e')
        then show ?thesis using a Inr t r reject_duplicates_Inl by (auto simp: parse_json_def)
      next
        case ok: (Inr u)
        then show ?thesis
          using a Inr t r xcs_only_json_value
          by (cases "json_parse lib s")
            (auto simp: parse_json_def syntax_mismatch_def rbind_eq_Inl xcs_only_def)
      qed
    qed
  qed
qed

lemma parse_canonical_json_Inl:
  "parse_canonical_json lib input = Inl e \<Longrightarrow> is_xcs_error e \<or> e = SyntaxErr \<and> syntax_mismatch lib"
  using xcs_only_canonical_json xcs_only_json_value
  by (auto simp: parse_canonical_json_def rbind_eq_Inl xcs_only_def
      dest: parse_json_Inl content_text_Inl split: if_splits)

lemma parse_scalar_Inl: "parse_scalar lib v t path = Inl e \<Longrightarrow> is_xcs_error e"
  by (cases t; cases v) (auto split: if_splits)

lemma parse_value_Inl:
  "parse_value lib v d path = Inl e \<Longrightarrow> is_xcs_error e"
  "parse_items lib xs i d path = Inl e \<Longrightarrow> is_xcs_error e"
  "parse_object lib v fs path = Inl e \<Longrightarrow> is_xcs_error e"
  "parse_members lib v fs path = Inl e \<Longrightarrow> is_xcs_error e"
proof (induction lib v d path and lib xs i d path and lib v fs path and lib v fs path
    rule: parse_value_parse_items_parse_object_parse_members.induct)
  case (1 lib v d path)
  then show ?case
    by (subst (asm) parse_value.simps)
      (auto simp: rbind_eq_Inl dest: parse_scalar_Inl split: if_splits descriptor.splits jsval.splits)
next
  case (4 lib v fs path)
  then show ?case
    by (subst (asm) parse_object.simps)
      (auto simp: rbind_eq_Inl dest!: each_Inl split: if_splits)
qed (auto simp: rbind_eq_Inl split: if_splits)

lemma xcs_only_parse_payload [xcs_intros]: "xcs_only (parse_payload lib v ctx)"
proof -
  have "xcs_only (parse_claims lib c fs)" for c fs
    by (auto simp: xcs_only_def parse_claims_def dest: parse_value_Inl)
  then show ?thesis
    unfolding parse_payload_def assert_context_def by (intro xcs_intros)
qed

lemma verify_credential_payload_Inl:
  "verify_credential_payload lib retrieval uri ctx = Inl e \<Longrightarrow> e = SyntaxErr \<and> syntax_mismatch lib"
proof -
  assume a: "verify_credential_payload lib retrieval uri ctx = Inl e"
  then have ne: "\<not> is_xcs_error e"
    by (auto simp: verify_credential_payload_def attempt_def split: sum.splits if_splits)
  with a obtain content where "retrieval = Retrieved content"
    "parse_credential_payload lib content ctx = Inl e"
    using xcs_only_payload_uri xcs_only_integrity
    by (fastforce simp: verify_credential_payload_def attempt_def rbind_eq_Inl xcs_only_def
        split: sum.splits if_splits payload_retrieval.splits)
  then show ?thesis
    using ne by (auto simp: parse_credential_payload_def rbind_eq_Inl
        dest: xcs_only_D [OF xcs_only_payload_bytes] xcs_only_D [OF xcs_only_parse_payload]
          parse_canonical_json_Inl)
qed

section \<open>What is issued verifies\<close>

lemma payload_object_get:
  "get (payload_object i s u c) ''xcsVersion'' = jlit ''0.1''"
  "get (payload_object i s u c) ''issuer'' = JStr i"
  "get (payload_object i s u c) ''subject'' = JStr s"
  "get (payload_object i s u c) ''schema'' = JStr u"
  "get (payload_object i s u c) ''claims'' = c"
  by (simp_all add: payload_object_def prop_of_JObj)

lemma payload_for_same:
  assumes "payload_for lib v ctx" and "js_keys v" and "js_keys w" and s: "sort_keys w = sort_keys v"
  shows "payload_for lib w ctx"
proof -
  have "is_record w" using assms by (metis payload_for_def is_record_sort_keys)
  moreover have "fst ` set (entries_of w) = fst ` set (entries_of v)"
    using s by (metis entries_sort_keys)
  moreover have p: "sort_keys (prop_of w k) = sort_keys (prop_of v k)" for k
    using sort_keys_prop [OF s assms(3,2)] .
  moreover have "get v k = JStr x \<Longrightarrow> get w k = JStr x" for k x
    using p [of "lit k"] by (simp add: sort_keys_JStr)
  moreover have "conforms lib (get w ''claims'') (ObjectOf (ctx_fields ctx) False)"
  proof (rule conforms_same)
    show "conforms lib (get v ''claims'') (ObjectOf (ctx_fields ctx) False)"
      using assms(1) by (simp add: payload_for_def)
  qed (use assms p js_keys_prop in auto)
  ultimately show ?thesis using assms(1) unfolding payload_for_def by simp
qed

lemma issued_payload_verifies:
  assumes laws: "hex_laws lib" "sha256_size lib" "cid_laws lib" "canonical_laws lib"
    and claims: "js_keys claims" "json_value claims" "fields_ok 1 (ctx_fields ctx)"
    and enc: "encode_credential_payload lib claims ctx = Inr enc"
    and parsed: "parses_back lib (payload_value (encoded_payload enc))"
    and uri: "create_ipfs_payload_uri lib (Bytes (encoded_bytes enc)) = Inr uri"
  shows "verify_credential_payload lib (Retrieved (Bytes (encoded_bytes enc))) uri ctx = Inr Valid"
proof -
  define p where "p = encoded_payload enc"
  define bs where "bs = encoded_bytes enc"
  from enc have pp: "parse_payload lib (payload_object (ctx_issuer ctx) (ctx_subject ctx)
        (ctx_schema_uid ctx) claims) ctx = Inr p"
    and bytes: "encode_canonical_json lib (payload_value p) = Inr bs"
    and size: "payload_bytes (Bytes bs) = Inr bs"
    by (auto simp: encode_credential_payload_def res_simps p_def bs_def payload_bytes_Inr)
  from pp have c: "parse_claims lib claims (ctx_fields ctx) = Inr (payload_claims p)"
    by (simp add: parse_payload_Inr payload_object_get)
  then have sc: "sort_keys (payload_claims p) = sort_keys claims"
    by (rule parse_claims_same [OF _ claims])
  have jc: "js_keys (payload_claims p)" using js_keys_same [OF sc] claims(1) by simp
  have cc: "conforms lib claims (ObjectOf (ctx_fields ctx) False)"
    using c parse_claims_iff by blast
  then have conf: "conforms lib (payload_claims p) (ObjectOf (ctx_fields ctx) False)"
    using conforms_same claims(1) jc sc by blast
  have jp: "js_keys (payload_value p)"
    using jc by (simp add: payload_value_def payload_object_def)
  have ep: "exact_numbers (payload_value p)"
    using conforms_exact [OF conf jc] by (simp add: payload_value_def payload_object_def)
  from parse_canonical_encoded [OF laws(4) _ jp ep bytes] parsed
  obtain w where w: "parse_canonical_json lib (Bytes bs) = Inr w"
    "sort_keys w = sort_keys (payload_value p)"
    by (auto simp: p_def)
  have "payload_for lib (payload_value p) ctx"
    using pp conf
    by (auto simp: payload_for_def parse_payload_Inr payload_value_def payload_object_get)
      (auto simp: payload_object_def PAYLOAD_PROPERTIES_def)
  then have "payload_for lib w ctx"
    using payload_for_same jp w(2) js_keys_same by metis
  then have "payload_document lib bs ctx" using w(1) by (auto simp: payload_document_def)
  moreover have "digest_matches lib (Bytes bs) uri"
    using verify_created_ipfs [OF uri laws(1-3)] by (simp add: digest_matches_iff bs_def)
  ultimately show ?thesis using size by (auto simp: verify_valid_iff simp flip: bs_def)
qed

end
