(* ===== verification/Sample_Lib.thy ===== *)
theory Sample_Lib
  imports Credential
begin

text \<open>
  A concrete instance of the libraries the model is parametric in, used to show that the laws
  assumed of them can hold and to apply theorems to concrete inputs. Hexadecimal is the real
  function; the digest, the canonical text and the CID are simple functions with the documented
  properties. \<open>JSON.parse\<close> knows a given list of values.
\<close>

section \<open>Hexadecimal\<close>

definition byte_of :: "nat \<Rightarrow> byte" where
  "byte_of n = of_nat n"

lemma unat_byte_of: "n < 256 \<Longrightarrow> unat (byte_of n) = n"
  by (simp add: byte_of_def unat_of_nat)

lemma byte_of_unat [simp]: "byte_of (unat b) = b"
  by (simp add: byte_of_def)

definition hex_digit :: "nat \<Rightarrow> cu" where
  "hex_digit n = (if n < 10 then of_nat (48 + n) else of_nat (87 + n))"

definition sample_bytes_to_hex :: "byte list \<Rightarrow> jstr" where
  "sample_bytes_to_hex bs = concat (map (\<lambda>b. [hex_digit (unat b div 16), hex_digit (unat b mod 16)]) bs)"

fun sample_hex_to_bytes :: "jstr \<Rightarrow> byte list option" where
  "sample_hex_to_bytes [] = Some []"
| "sample_hex_to_bytes (a # b # s) =
     (if is_hex a \<and> is_hex b
      then map_option ((#) (byte_of (16 * hex_digit_value a + hex_digit_value b)))
             (sample_hex_to_bytes s)
      else None)"
| "sample_hex_to_bytes [a] = None"

lemma unat_hex_digit: "n < 16 \<Longrightarrow> unat (hex_digit n) = (if n < 10 then 48 + n else 87 + n)"
  by (cases "n < 10"; simp only: hex_digit_def if_True if_False; rule unat_cu; linarith)

lemma hex_digit_ok: "n < 16 \<Longrightarrow> is_lower_hex (hex_digit n) \<and> hex_digit_value (hex_digit n) = n"
  by (auto simp: class_unat unat_hex_digit hex_digit_value_def)

lemma hex_digit_value_less: "is_hex c \<Longrightarrow> hex_digit_value c < 16"
  by (auto simp: class_unat hex_digit_value_def)

lemma hex_digit_hex_digit_value: "is_hex c \<Longrightarrow> hex_digit (hex_digit_value c) = lower_cu c"
proof -
  assume h: "is_hex c"
  have "unat (hex_digit (hex_digit_value c)) = unat (lower_cu c)"
    using h by (auto simp: unat_hex_digit hex_digit_value_less lower_cu_unat)
      (auto simp: class_unat hex_digit_value_def split: if_splits)
  then show ?thesis by (simp add: word_unat_eq_iff)
qed

lemma hex_digit_value_upper: "hex_digit_value (upper_cu c) = hex_digit_value c" if "is_hex c"
  using that by (auto simp: class_unat hex_digit_value_def upper_cu_unat)

lemma lower_hex_imp_hex: "is_lower_hex c \<Longrightarrow> is_hex c"
  by (simp add: is_hex_def)

lemma is_hex_upper: "is_hex (upper_cu c) = is_hex c"
  by (auto simp: class_unat upper_cu_unat split: if_splits)

lemma byte_digits:
  "unat (b :: byte) div 16 < 16" "unat b mod 16 < 16"
  "byte_of (16 * (unat b div 16) + unat b mod 16) = b"
proof -
  have "unat b < 256" using unsigned_less [of b] by simp
  then show "unat b div 16 < 16" by (simp add: less_mult_imp_div_less)
  show "unat b mod 16 < 16" by simp
  have "16 * (unat b div 16) + unat b mod 16 = unat b" by simp
  then show "byte_of (16 * (unat b div 16) + unat b mod 16) = b" by (simp only: byte_of_unat)
qed

lemma digits_byte:
  assumes "x < 16" "y < (16::nat)"
  shows "unat (byte_of (16 * x + y)) div 16 = x" "unat (byte_of (16 * x + y)) mod 16 = y"
proof -
  have "unat (byte_of (16 * x + y)) = 16 * x + y"
    using assms by (intro unat_byte_of) linarith
  then show "unat (byte_of (16 * x + y)) div 16 = x" "unat (byte_of (16 * x + y)) mod 16 = y"
    using assms by simp_all
qed

lemma sample_hex_decode: "sample_hex_to_bytes (sample_bytes_to_hex bs) = Some bs"
  by (induction bs)
    (simp_all add: sample_bytes_to_hex_def hex_digit_ok lower_hex_imp_hex byte_digits)

lemma sample_hex_encode:
  "sample_hex_to_bytes s = Some bs \<Longrightarrow> sample_bytes_to_hex bs = to_lower s"
  by (induction s arbitrary: bs rule: sample_hex_to_bytes.induct)
    (auto simp: sample_bytes_to_hex_def to_lower_def digits_byte hex_digit_value_less
      hex_digit_hex_digit_value split: if_splits)

lemma sample_hex_upper: "sample_hex_to_bytes (to_upper s) = sample_hex_to_bytes s"
  by (induction s rule: sample_hex_to_bytes.induct)
    (auto simp: to_upper_def is_hex_upper hex_digit_value_upper)

section \<open>Canonical text\<close>

definition cu_text :: "cu \<Rightarrow> jstr" where
  "cu_text c = [of_nat (unat c div 256), of_nat (unat c mod 256)]"

fun str_text :: "jstr \<Rightarrow> jstr" where
  "str_text [] = [0]"
| "str_text (c # cs) = 1 # cu_text c @ str_text cs"

fun value_text :: "jsval \<Rightarrow> jstr" and item_texts :: "jsval list \<Rightarrow> jstr"
  and entry_texts :: "(jstr \<times> jsval) list \<Rightarrow> jstr" where
  "value_text JNull = [0]"
| "value_text (JBool b) = [if b then 2 else 1]"
| "value_text (JStr s) = 3 # str_text s"
| "value_text (JNum n) = (case n of NInt i \<Rightarrow> 4 # str_text (int_str i) | _ \<Rightarrow> [7])"
| "value_text (JArr xs) = 5 # item_texts xs"
| "value_text (JObj p kvs) = 6 # entry_texts kvs"
| "value_text v = [7]"
| "item_texts [] = [0]"
| "item_texts (x # xs) = 1 # value_text x @ item_texts xs"
| "entry_texts [] = [0]"
| "entry_texts ((k, v) # kvs) = 1 # str_text k @ value_text v @ entry_texts kvs"

definition sample_canonicalize :: "jsval \<Rightarrow> jstr option" where
  "sample_canonicalize v = Some (value_text (sort_keys v))"

lemma cu_text_inject: "cu_text c = cu_text d \<longleftrightarrow> c = d"
proof
  assume a: "cu_text c = cu_text d"
  have b: "unat c div 256 < 65536" "unat d div 256 < 65536" "unat c mod 256 < 65536" "unat d mod 256 < 65536"
    using cu_bound [of c] cu_bound [of d] by (auto intro: le_less_trans [OF div_le_dividend]
        less_trans [OF mod_less_divisor])
  from a have "(of_nat (unat c div 256) :: cu) = of_nat (unat d div 256)"
    "(of_nat (unat c mod 256) :: cu) = of_nat (unat d mod 256)"
    by (simp_all only: cu_text_def list.inject simp_thms)
  then have "unat c div 256 = unat d div 256" "unat c mod 256 = unat d mod 256"
    using unat_cu b by metis+
  then have "unat c = unat d" by (metis div_mult_mod_eq)
  then show "c = d" by (simp add: word_unat_eq_iff)
qed simp

lemma str_text_prefix: "str_text s @ r = str_text t @ r' \<Longrightarrow> s = t \<and> r = r'"
proof (induction s arbitrary: t)
  case Nil
  then show ?case by (cases t) auto
next
  case (Cons c s)
  then obtain d t' where t: "t = d # t'" by (cases t) auto
  with Cons.prems have e: "cu_text c @ str_text s @ r = cu_text d @ str_text t' @ r'" by simp
  have "length (cu_text c) = length (cu_text d)" by (simp add: cu_text_def)
  with e have "cu_text c = cu_text d" "str_text s @ r = str_text t' @ r'" by simp_all
  then show ?case using Cons.IH t by (simp add: cu_text_inject)
qed

lemma int_str_inject: "int_str i = int_str j \<longleftrightarrow> i = j"
  by (metis int_value_int_str)

lemma value_text_prefix:
  "value_text v @ r = value_text w @ r' \<Longrightarrow> json_value v \<Longrightarrow> exact_numbers v \<Longrightarrow>
     json_value w \<Longrightarrow> exact_numbers w \<Longrightarrow> v = w \<and> r = r'"
  "item_texts xs @ r = item_texts ys @ r' \<Longrightarrow> list_all json_value xs \<Longrightarrow> list_all exact_numbers xs \<Longrightarrow>
     list_all json_value ys \<Longrightarrow> list_all exact_numbers ys \<Longrightarrow> xs = ys \<and> r = r'"
  "entry_texts kvs @ r = entry_texts kws @ r' \<Longrightarrow>
     list_all (\<lambda>(k, v). json_value v) kvs \<Longrightarrow> list_all (\<lambda>(k, v). exact_numbers v) kvs \<Longrightarrow>
     list_all (\<lambda>(k, v). json_value v) kws \<Longrightarrow> list_all (\<lambda>(k, v). exact_numbers v) kws \<Longrightarrow>
     kvs = kws \<and> r = r'"
proof (induction v and xs and kvs arbitrary: w r r' and ys r r' and kws r r'
    rule: value_text_item_texts_entry_texts.induct)
  case (3 s)
  then show ?case
    by (cases w) (auto dest: str_text_prefix split: jnum.splits if_splits)
next
  case (4 n)
  then obtain i where n: "n = NInt i" by (cases n) auto
  from 4 show ?case
    by (cases w) (auto simp: n int_str_inject dest: str_text_prefix split: jnum.splits if_splits)
next
  case (5 xs)
  from 5(2) obtain ys where w: "w = JArr ys" by (cases w) (auto split: jnum.splits if_splits)
  with 5(2) have e: "item_texts xs @ r = item_texts ys @ r'" by simp
  from 5(3-6) have "list_all json_value xs" "list_all exact_numbers xs"
    "list_all json_value ys" "list_all exact_numbers ys" by (simp_all add: w)
  from 5(1) [OF e this] show ?case by (simp add: w)
next
  case (6 p kvs)
  from 6(2) obtain q kws where w: "w = JObj q kws" by (cases w) (auto split: jnum.splits if_splits)
  with 6(2) have e: "entry_texts kvs @ r = entry_texts kws @ r'" by simp
  from 6(3-6) have "list_all (\<lambda>(k, v). json_value v) kvs" "list_all (\<lambda>(k, v). exact_numbers v) kvs"
    "list_all (\<lambda>(k, v). json_value v) kws" "list_all (\<lambda>(k, v). exact_numbers v) kws" "p = q"
    by (auto simp: w list_all_iff)
  then show ?case using 6(1) [OF e] by (simp add: w)
next
  case (11 k v kvs)
  from 11(3) obtain k' v' kws' where w: "kws = (k', v') # kws'" by (cases kws) auto
  with 11(3) have "str_text k @ value_text v @ entry_texts kvs @ r
      = str_text k' @ value_text v' @ entry_texts kws' @ r'" by simp
  from str_text_prefix [OF this] have "k = k'"
    and e: "value_text v @ entry_texts kvs @ r = value_text v' @ entry_texts kws' @ r'" by auto
  then show ?case using 11(1) [OF e] 11(2) [of r kws' r'] 11(4-7) w by auto
next
  case 10
  then show ?case by (cases kws) auto
next
  case 8
  then show ?case by (cases ys) auto
next
  case (9 x xs)
  from 9(3) obtain y ys' where w: "ys = y # ys'" by (cases ys) auto
  with 9(3) have e: "value_text x @ item_texts xs @ r = value_text y @ item_texts ys' @ r'" by simp
  then show ?case using 9(1) [OF e] 9(2) [of r ys' r'] 9(4-7) w by auto
next
  case 1
  then show ?case by (cases w) (auto split: jnum.splits if_splits)
next
  case (2 b)
  then show ?case by (cases w) (auto split: jnum.splits if_splits)
qed simp_all

lemma cu_text_small: "c \<in> set (cu_text d) \<Longrightarrow> unat c < 256"
proof -
  have "unat d div 256 < 256" "unat d mod 256 < 256"
    using cu_bound [of d] by (simp_all add: less_mult_imp_div_less)
  moreover from this have "unat (of_nat (unat d div 256) :: cu) = unat d div 256"
    "unat (of_nat (unat d mod 256) :: cu) = unat d mod 256"
    by (intro unat_cu; linarith)+
  ultimately show "c \<in> set (cu_text d) \<Longrightarrow> unat c < 256"
    by (auto simp only: cu_text_def set_simps insert_iff empty_iff)
qed

lemma str_text_small: "c \<in> set (str_text s) \<Longrightarrow> unat c < 256"
  by (induction s) (auto dest: cu_text_small)

lemma value_text_small:
  "c \<in> set (value_text v) \<Longrightarrow> unat c < 256"
  "c \<in> set (item_texts xs) \<Longrightarrow> unat c < 256"
  "c \<in> set (entry_texts kvs) \<Longrightarrow> unat c < 256"
  by (induction v and xs and kvs rule: value_text_item_texts_entry_texts.induct)
    (auto dest: str_text_small split: jnum.splits)

lemma sample_text_well_formed: "sample_canonicalize v = Some s \<Longrightarrow> well_formed s"
proof -
  assume "sample_canonicalize v = Some s"
  then have "unat c < 0xd800" if "c \<in> set s" for c
    using value_text_small(1) [of c "sort_keys v"] that by (simp add: sample_canonicalize_def)
  then show ?thesis using wf_scan_small by blast
qed

lemma sample_canonical_iff:
  assumes "json_value v" "exact_numbers v" "json_value w" "exact_numbers w"
  shows "sample_canonicalize v = sample_canonicalize w \<longleftrightarrow> sort_keys v = sort_keys w"
  using assms value_text_prefix(1) [of "sort_keys v" "[]" "sort_keys w" "[]"]
  by (auto simp: sample_canonicalize_def json_value_sort_keys exact_numbers_sort_keys)

text \<open>The length of a text, to stay below the limit on payloads.\<close>

fun text_size :: "jsval \<Rightarrow> nat" where
  "text_size (JStr s) = 2 + 3 * length s"
| "text_size (JNum n) = (case n of NInt i \<Rightarrow> 2 + 3 * length (int_str i) | _ \<Rightarrow> 1)"
| "text_size (JArr xs) = 2 + sum_list (map (\<lambda>x. 1 + text_size x) xs)"
| "text_size (JObj p kvs) = 2 + sum_list (map (\<lambda>(k, v). 2 + 3 * length k + text_size v) kvs)"
| "text_size v = 1"

lemma length_str_text: "length (str_text s) = 1 + 3 * length s"
  by (induction s) (simp_all add: cu_text_def)

lemma sum_list_sort_key: "sum_list (map f (sort_key g xs)) = (sum_list (map f xs) :: nat)"
proof -
  have "sum_list (map f (insort_key g x ys)) = f x + sum_list (map f ys)" for x ys
    by (induction ys) auto
  then show ?thesis by (induction xs) (simp_all add: sort_key_def)
qed

lemma length_item_texts: "length (item_texts xs) = 1 + sum_list (map (\<lambda>x. 1 + length (value_text x)) xs)"
  by (induction xs) auto

lemma length_entry_texts:
  "length (entry_texts kvs) = 1 + sum_list (map (\<lambda>(k, v). 2 + 3 * length k + length (value_text v)) kvs)"
  by (induction kvs) (auto simp: length_str_text)

lemma length_value_text: "length (value_text (sort_keys v)) = text_size v"
proof (induction v)
  case (JNum n)
  then show ?case by (cases n) (simp_all add: length_str_text)
next
  case (JArr xs)
  then show ?case by (simp add: length_item_texts o_def cong: map_cong)
next
  case (JObj p kvs)
  then have "map (\<lambda>(k, v). 2 + 3 * length k + length (value_text v)) (map (\<lambda>(k, v). (k, sort_keys v)) kvs)
      = map (\<lambda>(k, v). 2 + 3 * length k + text_size v) kvs"
    by (auto intro!: map_cong)
  then show ?case
    by (simp add: length_entry_texts sum_list_sort_key del: map_map)
qed (simp_all add: length_str_text)

lemma length_encode_small: "(\<forall>c \<in> set s. unat c < 256) \<Longrightarrow> length (encode_utf8 s) \<le> 2 * length s"
  by (induction s) (auto simp: encode_utf8_def utf8_point_def is_high_def is_low_def)

section \<open>Syntax trees\<close>

fun node_of :: "jsval \<Rightarrow> jnode" where
  "node_of (JObj p kvs) = JNode (lit ''object'') JUndef
     (map (\<lambda>(k, v). JNode (lit ''property'') JUndef [JNode (lit ''string'') (JStr k) [], node_of v]) kvs)"
| "node_of (JArr xs) = JNode (lit ''array'') JUndef (map node_of xs)"
| "node_of v = JNode (lit ''value'') v []"

lemma reject_children_ok:
  "(\<forall>c \<in> set cs. reject_duplicate_object_keys c = Inr ()) \<Longrightarrow> reject_children cs = Inr ()"
  by (induction cs) auto

lemma reject_properties_ok:
  "distinct (map fst kvs) \<Longrightarrow> set keys \<inter> set (map fst kvs) = {} \<Longrightarrow>
     (\<forall>(k, v) \<in> set kvs. reject_duplicate_object_keys (node_of v) = Inr ()) \<Longrightarrow>
     reject_properties keys (map (\<lambda>(k, v). JNode (lit ''property'') JUndef
       [JNode (lit ''string'') (JStr k) [], node_of v]) kvs) = Inr ()"
  by (induction kvs arbitrary: keys) auto

lemma reject_node_of: "js_keys v \<Longrightarrow> reject_duplicate_object_keys (node_of v) = Inr ()"
proof (induction v)
  case (JArr xs)
  then show ?case by (auto simp: list_all_iff intro!: reject_children_ok)
next
  case (JObj p kvs)
  then show ?case by (auto simp: list_all_iff intro!: reject_properties_ok)
qed simp_all

section \<open>CIDs and URLs\<close>

definition base32_of_hex :: "cu \<Rightarrow> cu" where
  "base32_of_hex c = (if is_digit c then c + 49 else c + 10)"

definition hex_of_base32 :: "cu \<Rightarrow> cu" where
  "hex_of_base32 c = (if unat c < 107 then c - 49 else c - 10)"

definition sample_create_cid :: "byte list \<Rightarrow> jstr" where
  "sample_create_cid d = ch CHR ''b'' # map base32_of_hex (sample_bytes_to_hex d)"

definition sample_parse_cid :: "jstr \<Rightarrow> cid option" where
  "sample_parse_cid t =
     (case sample_hex_to_bytes (map hex_of_base32 (tl t)) of
        None \<Rightarrow> None
      | Some d \<Rightarrow> Some \<lparr>cid_version = 1, cid_code = 0x55, mh_code = 0x12,
          mh_size = int (length d), mh_digest = d, cid_base32 = sample_create_cid d\<rparr>)"

lemma base32_of_hex: "is_lower_hex c \<Longrightarrow>
    hex_of_base32 (base32_of_hex c) = c \<and> is_base32 (base32_of_hex c)"
proof -
  assume h: "is_lower_hex c"
  have u: "unat (base32_of_hex c) = (if is_digit c then unat c + 49 else unat c + 10)"
    unfolding base32_of_hex_def
    by (cases "is_digit c"; simp only: if_True if_False;
        subst unat_add_lem [THEN iffD1]; use h in \<open>auto simp: class_unat\<close>)
  have "is_base32 (base32_of_hex c)"
    using h by (auto simp: is_base32_def class_unat u)
  moreover have "unat (base32_of_hex c) < 107 \<longleftrightarrow> is_digit c"
    using h by (auto simp: u class_unat)
  then have "hex_of_base32 (base32_of_hex c) = c"
    by (simp add: hex_of_base32_def base32_of_hex_def)
  ultimately show ?thesis by blast
qed

lemma sample_hex_lower: "list_all is_lower_hex (sample_bytes_to_hex bs)"
  by (induction bs) (simp_all add: sample_bytes_to_hex_def hex_digit_ok byte_digits)

lemma length_sample_hex: "length (sample_bytes_to_hex bs) = 2 * length bs"
  by (induction bs) (simp_all add: sample_bytes_to_hex_def)

lemma sample_cid_roundtrip:
  "sample_parse_cid (sample_create_cid d) = Some \<lparr>cid_version = 1, cid_code = 0x55, mh_code = 0x12,
     mh_size = int (length d), mh_digest = d, cid_base32 = sample_create_cid d\<rparr>"
proof -
  have "map hex_of_base32 (map base32_of_hex (sample_bytes_to_hex d)) = sample_bytes_to_hex d"
    using sample_hex_lower [of d] base32_of_hex by (auto simp: list_all_iff intro: map_idI)
  then show ?thesis
    by (simp add: sample_parse_cid_def sample_create_cid_def sample_hex_decode del: map_map)
qed

definition sample_parse_url :: "jstr \<Rightarrow> url option" where
  "sample_parse_url t =
     (if take 8 t \<noteq> https_prefix then None
      else Some \<lparr>url_protocol = lit ''https:'', url_username = [], url_password = [],
        url_hostname = before ''/?#:'' (drop 8 t), url_host = before ''/?#'' (drop 8 t),
        url_hash = from_first ''#'' t, url_href = t\<rparr>)"

section \<open>The instance\<close>

text \<open>The libraries of the packages that build on the core are added in \<open>extra\<close>.\<close>

definition sample_with :: "jsval list \<Rightarrow> 'x \<Rightarrow> 'x core_lib_scheme" where
  "sample_with known extra = \<lparr>
     sha256 = (\<lambda>bs. take 32 (bs @ replicate 32 0)),
     bytes_to_hex = sample_bytes_to_hex,
     hex_to_bytes = sample_hex_to_bytes,
     canonicalize_rfc8785 = sample_canonicalize,
     parse_tree = (\<lambda>s. (map_option node_of (find (\<lambda>v. sample_canonicalize v = Some s) known), False)),
     json_parse = (\<lambda>s. find (\<lambda>v. sample_canonicalize v = Some s) known),
     is_valid_classic_address = (\<lambda>s. take 1 s = lit ''r''),
     base64url_encode = sample_bytes_to_hex,
     base64url_decode = sample_hex_to_bytes,
     parse_cid = sample_parse_cid,
     create_raw_cid = sample_create_cid,
     parse_url = sample_parse_url,
     url_with_hash = (\<lambda>u h. url_href u @ lit ''#'' @ h),
     tr46_to_ascii = Some,
     ripple_time_to_iso_time = (\<lambda>n. dec_str (nat n)), \<dots> = extra\<rparr>"

abbreviation sample_lib :: "jsval list \<Rightarrow> core_lib" where
  "sample_lib known \<equiv> sample_with known ()"

lemma sample_fields [simp]:
  "sha256 (sample_with known extra) bs = take 32 (bs @ replicate 32 0)"
  "bytes_to_hex (sample_with known extra) = sample_bytes_to_hex"
  "hex_to_bytes (sample_with known extra) = sample_hex_to_bytes"
  "canonicalize_rfc8785 (sample_with known extra) = sample_canonicalize"
  "parse_tree (sample_with known extra) s =
     (map_option node_of (find (\<lambda>v. sample_canonicalize v = Some s) known), False)"
  "json_parse (sample_with known extra) s = find (\<lambda>v. sample_canonicalize v = Some s) known"
  "is_valid_classic_address (sample_with known extra) a \<longleftrightarrow> take 1 a = lit ''r''"
  "base64url_encode (sample_with known extra) = sample_bytes_to_hex"
  "base64url_decode (sample_with known extra) = sample_hex_to_bytes"
  "parse_cid (sample_with known extra) = sample_parse_cid"
  "create_raw_cid (sample_with known extra) = sample_create_cid"
  "parse_url (sample_with known extra) = sample_parse_url"
  "tr46_to_ascii (sample_with known extra) a = Some a"
  by (simp_all add: sample_with_def)

lemma sample_hex_laws: "hex_laws (sample_with known extra)"
  by (simp add: hex_laws_def sample_hex_decode length_sample_hex sample_hex_lower sample_hex_encode
      sample_hex_upper)

lemma sample_sha256_size: "sha256_size (sample_with known extra)"
  by (auto simp: sha256_size_def)

lemma sample_canonical_laws: "canonical_laws (sample_with known extra)"
  using sample_text_well_formed sample_canonical_iff
  by (auto simp: canonical_laws_def) (auto simp: sample_canonicalize_def)

lemma sample_cid_laws: "cid_laws (sample_with known extra)"
proof -
  have "list_all is_base32 (map base32_of_hex (sample_bytes_to_hex d))" for d
    using sample_hex_lower [of d] base32_of_hex by (auto simp: list_all_iff)
  then show ?thesis
    by (auto simp: cid_laws_def sample_cid_roundtrip Let_def length_sample_hex)
      (auto simp: sample_parse_cid_def sample_create_cid_def length_sample_hex split: option.splits)
qed

lemmas sample_laws = sample_hex_laws sample_sha256_size sample_canonical_laws sample_cid_laws

lemma sample_encode_size:
  "encode_canonical_json (sample_with known extra) v = Inr bs \<Longrightarrow> length bs \<le> 2 * text_size v"
  using length_encode_small [of "value_text (sort_keys v)"] value_text_small(1)
  by (auto simp: encode_canonical_json_Inr canonical_json_Inr sample_canonicalize_def length_value_text)

lemma sample_parses_back: "js_keys v \<Longrightarrow> parses_back (sample_with (v # known) extra) v"
  by (auto simp: parses_back_def reject_node_of)

end
