(* ===== verification/Core_Guarantees.thy ===== *)
theory Core_Guarantees
  imports Lifecycle Network_Profile Schema_Uid Schema_Resolution Sample_Lib
begin

text \<open>
  What the protocol package guarantees, each property with an application to concrete inputs.
  The sample schema has one required field, an unsigned integer.
\<close>

section \<open>Sample data\<close>

definition sample_fields_decl :: schema_fields where
  "sample_fields_decl = [(lit ''age'', Scalar TUint False)]"

definition sample_schema :: schema_definition where
  "sample_schema = \<lparr>schema_name = lit ''Age'', description = lit ''Age in years'',
     schema_fields = sample_fields_decl, extends = None, supersedes = None\<rparr>"

definition sample_hash :: jstr where
  "sample_hash = lit (replicate 64 CHR ''a'')"

lemma lit_ascii: "list_all (\<lambda>c. of_char c < (128::nat)) s \<Longrightarrow> \<forall>c \<in> set (lit s). unat c < 128"
  by (auto simp: lit_def list_all_iff)

lemma length_encode_lit:
  "list_all (\<lambda>c. of_char c < (128::nat)) s \<Longrightarrow> length (encode_utf8 (lit s)) = length s"
  by (simp add: encode_utf8_ascii lit_ascii)

lemma sample_fields_ok: "fields_ok 1 sample_fields_decl"
  by (simp add: fields_ok_def entries_ok_def sample_fields_decl_def field_name_def lit_def class_unat)

lemma sample_schema_ok: "schema_ok sample_schema"
  using sample_fields_ok
  by (simp add: schema_ok_def sample_schema_def text_ok_def length_encode_lit)
    (simp add: sample_fields_decl_def MAX_SCHEMA_FIELDS_def lit_def is_control_def)

lemma sample_hash_ok [simp]: "hash64 sample_hash"
  by (auto simp: hash64_def sample_hash_def lit_def class_unat list_all_iff)

section \<open>Text\<close>

text \<open>
  Further guarantee: \<open>assertWellFormed\<close> accepts exactly the well-formed strings and, besides them, the strings that
  are well-formed except for one unpaired high surrogate at their end: \<open>charCodeAt\<close> past the end is
  \<open>NaN\<close>, which is neither below nor above the range of low surrogates.
\<close>

theorem assert_well_formed_accepts:
  "assert_well_formed s path = Inr () \<longleftrightarrow>
     well_formed s \<or> (\<exists>t h. s = t @ [h] \<and> well_formed t \<and> is_high (unat h))"
  by (simp add: assert_well_formed_Inr wf_scan_iff)

text \<open>
  Further guarantee: UTF-8 decoding is strict: \<open>decodeUtf8\<close> returns a string exactly when the bytes are the UTF-8
  encoding of that string and the string is well-formed; every other byte sequence is refused.
\<close>

theorem decode_utf8_strict:
  "decode_utf8 bs = Inr s \<longleftrightarrow> well_formed s \<and> encode_utf8 s = bs"
  by (auto simp: decode_utf8_eq_Inr)

text \<open>
  Further guarantee: Hexadecimal text round trip: \<open>decodeHexUtf8\<close> gives back the well-formed string that
  \<open>encodeHexUtf8\<close> was given, also when the hexadecimal text was changed to upper case.
\<close>

theorem hex_utf8_roundtrip:
  assumes "hex_laws lib" and "well_formed s"
  shows "decode_hex_utf8 lib (encode_hex_utf8 lib s) = Inr s \<and>
    decode_hex_utf8 lib (to_upper (encode_hex_utf8 lib s)) = Inr s"
proof
  show "decode_hex_utf8 lib (encode_hex_utf8 lib s) = Inr s" by (rule hex_roundtrip [OF assms])
  then show "decode_hex_utf8 lib (to_upper (encode_hex_utf8 lib s)) = Inr s"
    using assms(1) by (simp add: decode_hex_utf8_def hex_laws_def)
qed

theorem hex_utf8_roundtrip_witness:
  "decode_hex_utf8 (sample_lib []) (encode_hex_utf8 (sample_lib []) (lit ''xcs'')) = Inr (lit ''xcs'')
   \<and> decode_hex_utf8 (sample_lib []) (to_upper (encode_hex_utf8 (sample_lib []) (lit ''xcs'')))
     = Inr (lit ''xcs'')"
  using hex_utf8_roundtrip [OF sample_hex_laws well_formed_lit(1), of "[]" "()" "''xcs''"] by simp

section \<open>JSON\<close>

text \<open>
  Further guarantee: Canonical bytes: a byte sequence that \<open>parseCanonicalJson\<close> accepts is exactly the encoding of
  the value it returns, so two different byte sequences never parse to the same value, and no
  object of its syntax tree has two members of the same name.
\<close>

theorem parse_canonical_json_unique:
  assumes "parse_canonical_json lib (Bytes bs) = Inr v"
  shows "encode_canonical_json lib v = Inr bs \<and> json_value v \<and>
    (\<exists>text root. decode_utf8 bs = Inr text \<and> parse_tree lib text = (Some root, False) \<and>
       (\<forall>ps w. subnode (JNode (lit ''object'') w ps) root \<longrightarrow> distinct (node_keys ps)))"
proof (intro conjI)
  show e: "encode_canonical_json lib v = Inr bs" by (rule parse_canonical_bytes_encode [OF assms])
  then show "json_value v" by (auto simp: encode_canonical_json_Inr canonical_json_Inr)
  show "\<exists>text root. decode_utf8 bs = Inr text \<and> parse_tree lib text = (Some root, False) \<and>
      (\<forall>ps w. subnode (JNode (lit ''object'') w ps) root \<longrightarrow> distinct (node_keys ps))"
    using assms reject_duplicates_distinct
    by (auto simp: parse_canonical_json_Inr parse_json_Inr content_text_def)
qed

lemma sample_encode:
  "json_value v \<Longrightarrow> \<exists>bs. encode_canonical_json (sample_lib known) v = Inr bs"
  by (auto simp: encode_canonical_json_Inr canonical_json_Inr sample_canonicalize_def)

lemma sample_parse_canonical:
  "json_value v \<Longrightarrow> js_keys v \<Longrightarrow> exact_numbers v \<Longrightarrow>
     \<exists>bs w. parse_canonical_json (sample_lib (v # known)) (Bytes bs) = Inr w"
  using sample_encode [of v "v # known"]
    parse_canonical_encoded [OF sample_canonical_laws sample_parses_back, of v known "()"]
  by blast

theorem parse_canonical_json_unique_witness:
  "\<exists>bs v. parse_canonical_json (sample_lib [jlit ''x'']) (Bytes bs) = Inr v \<and>
     encode_canonical_json (sample_lib [jlit ''x'']) v = Inr bs"
  using sample_parse_canonical [of "jlit ''x''" "[]"]
    parse_canonical_json_unique [of "sample_lib [jlit ''x'']"]
  by auto

section \<open>Lifecycle and network profiles\<close>

text \<open>
  Further guarantee: A generation never moves back: if one Credential object is projected at two validated ledgers,
  the later one with a close time that is not smaller, an unchanged expiration, an acceptance that
  is not revoked and an object that does not reappear, then its state at the later ledger is the
  same or a later one in the order pending, active, expired, deleted.
\<close>

theorem lifecycle_never_moves_back:
  assumes "project_credential_lifecycle a = Inr s" and "project_credential_lifecycle b = Inr t"
    and "later_input a b"
  shows "lifecycle_rank s \<le> lifecycle_rank t"
  using assms by (rule lifecycle_advances)

theorem lifecycle_never_moves_back_witness:
  "lifecycle_rank Active \<le> lifecycle_rank Expired"
proof (rule lifecycle_never_moves_back)
  let ?a = "\<lparr>object_exists = True, accepted = True, expiration = Some (NInt 10), close_time = NInt 9\<rparr>"
  show "project_credential_lifecycle ?a = Inr Active"
    by (simp add: project_credential_lifecycle_def require_ripple_time_def uint32_max_def)
  show "project_credential_lifecycle (?a\<lparr>close_time := NInt 10\<rparr>) = Inr Expired"
    by (simp add: project_credential_lifecycle_def require_ripple_time_def uint32_max_def)
  show "later_input ?a (?a\<lparr>close_time := NInt 10\<rparr>)"
    by (simp add: later_input_def)
qed

text \<open>
  Further guarantee: Network profiles have one normal form: whatever \<open>parseNetworkProfile\<close> returns satisfies every
  constraint of a profile (identifier, uint32 numbers, positive activation index, upper-case
  amendment, lower-case ledger hash, valid address), and parsing the returned object again
  returns it unchanged.
\<close>

theorem parse_network_profile_normal_form:
  assumes "parse_network_profile lib v = Inr p"
  shows "profile_ok lib p \<and> parse_network_profile lib (profile_value p) = Inr p"
  using parse_network_profile_ok [OF assms] parse_profile_value by blast+

definition sample_profile :: network_profile where
  "sample_profile = \<lparr>profile_id = lit ''t'', profile_network_id = 2,
     required_amendment = to_upper sample_hash, registry_address = lit ''rReg'',
     activation_ledger_index = 7, activation_ledger_hash = sample_hash\<rparr>"

lemma sample_profile_ok: "profile_ok (sample_with known extra) sample_profile"
  using hash64_upper [OF sample_hash_ok]
  by (simp add: profile_ok_def sample_profile_def uint32_max_def)
    (simp add: profile_id_pattern_def lit_def class_unat)

theorem parse_network_profile_normal_form_witness:
  "profile_ok (sample_lib []) sample_profile \<and>
   parse_network_profile (sample_lib []) (profile_value sample_profile) = Inr sample_profile"
  using parse_network_profile_normal_form [OF parse_profile_value [OF sample_profile_ok [of "[]" "()"]]] by blast

section \<open>Schemas\<close>

text \<open>
  C17. \<open>parseSchema\<close> is a normalisation onto the well-formed schemas: its result has a name and a
  description of allowed length without control characters, non-empty field maps with distinct
  valid names at every level, nesting of at most 16, at most 256 descriptors as
  \<open>countSchemaFields\<close> counts them, and different relations; and parsing the resulting object again
  returns it unchanged.
\<close>

theorem parse_schema_normal_form:
  assumes "parse_schema v = Inr s" and "js_keys v"
  shows "schema_ok s \<and> parse_schema (schema_value s) = Inr s"
  using parse_schema_ok [OF assms] parse_schema_value by blast+

theorem parse_schema_normal_form_witness:
  "schema_ok sample_schema \<and> parse_schema (schema_value sample_schema) = Inr sample_schema"
  using parse_schema_normal_form [OF parse_schema_value [OF sample_schema_ok]
      js_keys_schema_value [OF sample_schema_ok]] by blast

text \<open>
  C5. \<open>resolveSchema\<close> decides inheritance: in a valid context it returns fields and a lineage exactly
  when the parsed schema inherits them, that is, when every ancestor is found under its UID, on
  the same network and registered strictly before its child, no field is redefined, every
  superseded schema is an earlier one of the same publisher, the chain has at most 15 ancestors
  and the fields at most 256 descriptors.
\<close>

theorem resolve_schema_decides:
  assumes "num_uint32 (ctx_network_id ctx)" "num_uint32 (ctx_ledger_index ctx)"
    "num_uint32 (ctx_transaction_index ctx)" "is_valid_classic_address lib (ctx_publisher ctx)"
  shows "resolve_schema lib get_schema v ctx = Inr r \<longleftrightarrow>
     (\<exists>s. parse_schema v = Inr s \<and> resolved_definition r = s \<and>
        inherits get_schema s ctx (resolved_fields r) (lineage r) \<and>
        length (lineage r) \<le> 15 \<and> count_schema_fields (resolved_fields r) \<le> 256)"
  using assms by (auto simp: resolve_schema_def rbind_eq_Inr resolve_iff)

definition sample_context :: resolution_context where
  "sample_context = \<lparr>ctx_network_id = NInt 2, ctx_publisher = lit ''rPub'',
     ctx_ledger_index = NInt 9, ctx_transaction_index = NInt 0\<rparr>"

definition sample_resolved :: resolved_schema where
  "sample_resolved = \<lparr>resolved_definition = sample_schema, resolved_fields = sample_fields_decl,
     lineage = []\<rparr>"

lemma sample_count: "count_schema_fields sample_fields_decl = 1"
  by (simp add: sample_fields_decl_def)

lemma sample_inherits: "inherits get_schema sample_schema sample_context sample_fields_decl []"
  using inherits.root [of sample_schema get_schema sample_context]
  by (simp add: sample_schema_def predecessor_ok_def sample_fields_decl_def)

theorem resolve_schema_decides_witness:
  "resolve_schema (sample_lib []) (\<lambda>_. None) (schema_value sample_schema) sample_context
     = Inr sample_resolved"
  using parse_schema_value [OF sample_schema_ok] sample_inherits
  by (subst resolve_schema_decides)
    (simp_all add: sample_context_def uint32_max_def sample_resolved_def sample_count)

text \<open>
  Further guarantee: Every ancestor that \<open>resolveSchema\<close> reports is registered under its UID strictly before the
  schema, and no ancestor is reported twice: inheritance cannot be cyclic.
\<close>

theorem resolve_schema_lineage:
  assumes "resolve_schema lib get_schema v ctx = Inr r"
  shows "distinct (lineage r) \<and>
    (\<forall>uid \<in> set (lineage r). \<exists>p. get_schema uid = Some p \<and> registered_uid p = uid \<and> is_earlier p ctx) \<and>
    distinct (map fst (resolved_fields r))"
proof -
  have i: "inherits get_schema (resolved_definition r) ctx (resolved_fields r) (lineage r)"
    using assms by (auto simp: resolve_schema_def res_simps resolve_iff)
  show ?thesis
    using inherits_lineage_distinct [OF i] inherits_earlier [OF i] inherits_distinct [OF i] by blast
qed

definition sample_child :: schema_definition where
  "sample_child = sample_schema\<lparr>extends := Some sample_hash,
     schema_fields := [(lit ''city'', Scalar TString True)]\<rparr>"

definition sample_parent :: registered_schema where
  "sample_parent = \<lparr>registered_uid = sample_hash, registered_definition = schema_value sample_schema,
     registered_publisher = lit ''rPub'', registered_network_id = NInt 2,
     registered_ledger_index = NInt 8, registered_transaction_index = NInt 3\<rparr>"

lemma sample_child_ok: "schema_ok sample_child"
  using sample_schema_ok
  by (simp add: schema_ok_def sample_child_def sample_schema_def fields_ok_def entries_ok_def
      MAX_SCHEMA_FIELDS_def) (simp add: field_name_def lit_def class_unat)

definition sample_child_resolved :: resolved_schema where
  "sample_child_resolved = \<lparr>resolved_definition = sample_child,
     resolved_fields = sample_fields_decl @ [(lit ''city'', Scalar TString True)],
     lineage = [sample_hash]\<rparr>"

lemma sample_child_resolves:
  "resolve_schema (sample_lib []) (map_of [(sample_hash, sample_parent)]) (schema_value sample_child)
     sample_context = Inr sample_child_resolved"
proof -
  let ?get = "map_of [(sample_hash, sample_parent)]"
  have p: "inherits ?get sample_schema (context_of sample_parent) sample_fields_decl []"
    using inherits.root [of sample_schema ?get "context_of sample_parent"]
    by (simp add: sample_schema_def predecessor_ok_def sample_fields_decl_def)
  have "inherits ?get sample_child sample_context
      (sample_fields_decl @ schema_fields sample_child) ([] @ [sample_hash])"
    by (rule inherits.child [where p = sample_parent and t = sample_schema])
      (use p parse_schema_value [OF sample_schema_ok] in
        \<open>simp_all add: sample_child_def refers_def sample_parent_def sample_context_def
          is_earlier_def predecessor_ok_def sample_schema_def sample_fields_decl_def\<close>)
  then have "resolve ?get sample_child sample_context [] = Inr sample_child_resolved"
    unfolding resolve_iff
    by (simp add: sample_child_resolved_def sample_child_def)
      (simp add: sample_fields_decl_def)
  then show ?thesis
    using parse_schema_value [OF sample_child_ok]
    by (simp add: resolve_schema_def sample_context_def uint32_max_def)
qed

theorem resolve_schema_lineage_witness:
  "distinct (lineage sample_child_resolved) \<and> lineage sample_child_resolved = [sample_hash]"
  using resolve_schema_lineage [OF sample_child_resolves]
  by (simp add: sample_child_resolved_def)

section \<open>Claims\<close>

text \<open>
  C19. \<open>parseClaims\<close> accepts exactly the values that conform to the fields: objects with every
  required and no undeclared member, whose integers are the canonical decimal numerals of the
  unsigned or signed 256-bit range, whose byte strings are canonical base64url and whose addresses
  are valid, at every depth.
\<close>

theorem parse_claims_accepts:
  "(\<exists>w. parse_claims lib v fs = Inr w) \<longleftrightarrow> conforms lib v (ObjectOf fs False)"
  by (rule parse_claims_iff)

text \<open>
  Further guarantee: \<open>parseClaims\<close> changes nothing but the order of members: for a JSON value and well-formed fields
  the claims it returns equal its argument up to the order of the members of objects.
\<close>

theorem parse_claims_preserves:
  assumes "parse_claims lib v fs = Inr w" and "js_keys v" and "json_value v" and "fields_ok k fs"
  shows "sort_keys w = sort_keys v"
  using assms by (rule parse_claims_same)

definition sample_claims :: jsval where
  "sample_claims = JObj Plain [(lit ''age'', JStr (dec_str 42))]"

lemma sample_claims_value: "js_keys sample_claims" "json_value sample_claims"
proof -
  have "\<forall>c \<in> set (dec_str 42). unat c < 0xd800"
    using dec_str_digits [of 42] by (auto simp: list_all_iff class_unat simp del: dec_str.simps)
  then show "js_keys sample_claims" "json_value sample_claims"
    using wf_scan_small by (simp_all add: sample_claims_def del: dec_str.simps)
qed

lemma sample_claims_parse:
  "parse_claims lib sample_claims sample_fields_decl = Inr sample_claims"
proof -
  have "parse_scalar lib (JStr (dec_str 42)) TUint path = Inr (JStr (dec_str 42))" for path
    using uint_accepted [of "dec_str 42"] by (auto simp del: dec_str.simps)
  then show ?thesis
    unfolding parse_claims_def sample_claims_def sample_fields_decl_def
    by (subst parse_object.simps)
      (simp add: has_own_def parse_value.simps prop_of_JObj del: dec_str.simps)
qed

theorem parse_claims_preserves_witness:
  "sort_keys sample_claims = sort_keys sample_claims \<and>
   parse_claims (sample_lib []) sample_claims sample_fields_decl = Inr sample_claims"
  using parse_claims_preserves [OF sample_claims_parse sample_claims_value sample_fields_ok]
    sample_claims_parse by blast

section \<open>Schema UIDs\<close>

text \<open>
  C20. A schema UID binds a registration: two inputs with the same UID have the same network, ledger
  hash (up to case), ledger index, transaction index and publisher and schemas equal up to the
  order of members, or else their canonical preimages are a collision of SHA-256.
\<close>

theorem schema_uid_binds:
  assumes "hex_laws lib" and "canonical_laws lib"
    and "compute_schema_uid lib a = Inr uid" and "parse_schema (uid_schema a) = Inr s"
    and "js_keys (uid_schema a)"
    and "compute_schema_uid lib b = Inr uid" and "parse_schema (uid_schema b) = Inr t"
    and "js_keys (uid_schema b)"
  shows "same_registration a s b t \<or>
    (\<exists>x y. encode_canonical_json lib (uid_preimage a s) = Inr x \<and>
       encode_canonical_json lib (uid_preimage b t) = Inr y \<and> x \<noteq> y \<and> sha256 lib x = sha256 lib y)"
  using assms by (rule compute_schema_uid_binding)

text \<open>
  Further guarantee: A schema UID is 64 lowercase hexadecimal digits, and it does not depend on the case in which
  the ledger hash is written.
\<close>

theorem schema_uid_shape:
  assumes "compute_schema_uid lib input = Inr uid" and "hex_laws lib" and "sha256_size lib"
  shows "hash64 uid \<and>
    compute_schema_uid lib (input\<lparr>uid_ledger_hash := to_lower (uid_ledger_hash input)\<rparr>) = Inr uid"
proof -
  have "hash64_any (uid_ledger_hash input)" using assms(1) by (simp add: compute_schema_uid_Inr)
  then show ?thesis
    using compute_schema_uid_hash64 [OF assms] assms(1) by (simp add: compute_schema_uid_case)
qed

definition sample_uid_input :: schema_uid_input where
  "sample_uid_input = \<lparr>uid_network_id = NInt 2, uid_ledger_hash = to_upper sample_hash,
     uid_ledger_index = NInt 9, uid_transaction_index = NInt 1, uid_publisher = lit ''rPub'',
     uid_schema = schema_value sample_schema\<rparr>"

lemma json_value_small: "(\<forall>c \<in> set s. unat c < 0xd800) \<Longrightarrow> json_value (JStr s)"
  using wf_scan_small by simp

lemma sample_uid: "\<exists>uid. compute_schema_uid (sample_lib known) sample_uid_input = Inr uid"
proof -
  have "to_lower (to_upper sample_hash) = sample_hash" "hash64_any (to_upper sample_hash)"
    using hash64_upper [OF sample_hash_ok] by simp_all
  moreover have "wf_scan sample_hash" by (simp add: sample_hash_def)
  ultimately have "json_value (uid_preimage sample_uid_input sample_schema)"
    using json_value_schema [OF sample_schema_ok]
    by (simp add: uid_preimage_def sample_uid_input_def)
  from sample_encode [OF this, of known] obtain bs where
    "encode_canonical_json (sample_lib known) (uid_preimage sample_uid_input sample_schema) = Inr bs" ..
  then show ?thesis
    using parse_schema_value [OF sample_schema_ok] \<open>hash64_any (to_upper sample_hash)\<close>
    unfolding compute_schema_uid_Inr by (auto simp: sample_uid_input_def uint32_max_def)
qed

theorem schema_uid_binds_witness:
  "\<exists>uid. compute_schema_uid (sample_lib []) sample_uid_input = Inr uid \<and>
     (same_registration sample_uid_input sample_schema sample_uid_input sample_schema \<or>
      (\<exists>x y. x \<noteq> y \<and> sha256 (sample_lib []) x = sha256 (sample_lib []) y))"
proof -
  obtain uid where u: "compute_schema_uid (sample_lib []) sample_uid_input = Inr uid"
    using sample_uid by blast
  have p: "parse_schema (uid_schema sample_uid_input) = Inr sample_schema"
    using parse_schema_value [OF sample_schema_ok] by (simp add: sample_uid_input_def)
  have k: "js_keys (uid_schema sample_uid_input)"
    using js_keys_schema_value [OF sample_schema_ok] by (simp add: sample_uid_input_def)
  show ?thesis
    using schema_uid_binds [OF sample_hex_laws sample_canonical_laws u p k u p k] u by blast
qed

theorem schema_uid_shape_witness:
  "\<exists>uid. compute_schema_uid (sample_lib []) sample_uid_input = Inr uid \<and> hash64 uid"
proof -
  obtain uid where u: "compute_schema_uid (sample_lib []) sample_uid_input = Inr uid"
    using sample_uid by blast
  then show ?thesis
    using schema_uid_shape [OF u sample_hex_laws sample_sha256_size] by blast
qed

section \<open>Payload URIs and payloads\<close>

text \<open>
  C21. The URL a payload is fetched from is safe: it is HTTPS, its authority contains no path, query
  or fragment delimiter, its path is absolute and of canonical characters, without a dot segment
  even when dots are percent-encoded, its query is canonical and it has no fragment; and the
  digest the URI names is 64 lowercase hexadecimal digits.
\<close>

theorem https_payload_uri_safe:
  assumes "parse_payload_uri lib uri = Inr (Https u f d)"
  shows "u = uri \<and> hash64 d \<and> safe_fetch_url f"
  using assms by (rule parse_payload_uri_https)

definition sample_url :: "string \<Rightarrow> jstr" where
  "sample_url tail = map ch (''https://a.b/c'' @ tail)"

definition sample_digest_fragment :: string where
  "sample_digest_fragment = ''#xcs-sha256='' @ replicate 64 CHR ''a''"

lemma sample_normalized:
  "normalize_https_authority (sample_with known extra) (sample_url tail) = Some (sample_url tail)"
proof -
  have d: "decode_uri_component (lit ''a.b'') = Some (lit ''a.b'')"
    by (simp add: lit_eq_ch decode_uri_component.simps)
  have u: "drop (length https_prefix) (sample_url tail) = lit ''a.b'' @ lit ''/c'' @ lit tail"
    by (simp add: sample_url_def https_prefix_def lit_eq_ch)
  have s: "before ''/?#'' (lit ''a.b'' @ lit ''/c'' @ lit tail) = lit ''a.b''"
    "from_first ''/?#'' (lit ''a.b'' @ lit ''/c'' @ lit tail) = lit ''/c'' @ lit tail"
    "before '':'' (lit ''a.b'') = lit ''a.b''" "from_first '':'' (lit ''a.b'') = []"
    by (simp_all add: before_def from_first_def lit_eq_ch)
  have f: "filter (\<lambda>c. c = ch CHR '':'') (lit ''a.b'') = []"
    "\<not> has_invalid_host_character (lit ''a.b'')"
    by (simp_all add: lit_eq_ch has_invalid_host_character_def INVALID_NORMALIZED_HOST_ASCII_def)
      (simp add: ch_def)
  have p: "sample_parse_url (https_prefix @ lit ''a.b'' @ lit ''/'') =
      Some \<lparr>url_protocol = lit ''https:'', url_username = [], url_password = [],
        url_hostname = lit ''a.b'', url_host = lit ''a.b'', url_hash = [],
        url_href = https_prefix @ lit ''a.b'' @ lit ''/''\<rparr>"
    by (simp add: sample_parse_url_def https_prefix_def before_def from_first_def lit_eq_ch)
  show ?thesis
    unfolding normalize_https_authority_def Let_def u s
    by (simp add: normalize_port_def f d p)
      (simp add: sample_url_def https_prefix_def lit_eq_ch)
qed

lemma sample_url_parse:
  "parse_payload_uri (sample_with known extra) (sample_url sample_digest_fragment)
     = Inr (Https (sample_url sample_digest_fragment) (sample_url []) sample_hash)"
proof -
  let ?uri = "sample_url sample_digest_fragment"
  have asc: "\<forall>c \<in> set ?uri. unat c < 128"
    by (auto simp: sample_url_def sample_digest_fragment_def ch_def)
  then have "\<forall>c \<in> set ?uri. unat c < 0xd800" by auto
  then have scan: "wf_scan ?uri" using wf_scan_small by blast
  have len: "length (encode_utf8 ?uri) = 89"
    using encode_utf8_ascii [OF asc] by (simp add: sample_url_def sample_digest_fragment_def)
  have ipfs: "parse_ipfs_uri (sample_with known extra) ?uri = Inr None"
    by (simp add: parse_ipfs_uri_def ipfs_match_def sample_url_def lit_eq_ch)
  have raw: "\<not> list_ex invalid_raw_https_character ?uri"
    by (auto simp: sample_url_def sample_digest_fragment_def list_ex_iff invalid_raw_https_character_def
        ch_def)
  have auth: "before ''/?#'' (drop (length https_prefix) ?uri) = lit ''a.b''"
    by (simp add: sample_url_def https_prefix_def before_def lit_eq_ch)
  have url: "sample_parse_url ?uri = Some \<lparr>url_protocol = lit ''https:'', url_username = [],
      url_password = [], url_hostname = lit ''a.b'', url_host = lit ''a.b'',
      url_hash = hash_prefix @ sample_hash, url_href = ?uri\<rparr>"
    by (simp add: sample_parse_url_def sample_url_def https_prefix_def before_def from_first_def
        lit_eq_ch sample_digest_fragment_def hash_prefix_def sample_hash_def)
  have fetch: "build_fetch_url ?uri = Some (sample_url [])"
  proof -
    have h: "ch CHR ''#'' \<in> set ?uri" by (simp add: sample_url_def sample_digest_fragment_def)
    have b: "drop (length https_prefix) (before ''#'' ?uri) = lit ''a.b/c''"
      by (simp add: sample_url_def https_prefix_def before_def lit_eq_ch sample_digest_fragment_def)
    have c: "before ''/?'' (lit ''a.b/c'') = lit ''a.b''" "from_first ''/?'' (lit ''a.b/c'') = lit ''/c''"
      "before ''?'' (lit ''/c'') = lit ''/c''" "ch CHR ''?'' \<notin> set (lit ''/c'')"
      by (simp_all add: before_def from_first_def lit_eq_ch)
    have k: "is_canonical_component (lit ''/c'') CANONICAL_HTTPS_PATH_ASCII"
      "\<not> list_ex is_dot_segment (split_on (ch CHR ''/'') (lit ''/c''))"
      by (simp_all add: lit_eq_ch CANONICAL_HTTPS_PATH_ASCII_def alphanumerics_def is_dot_segment_def)
    show ?thesis
      unfolding build_fetch_url_def Let_def b c
      using h c(4) k by (simp add: sample_url_def https_prefix_def lit_eq_ch)
  qed
  have "take 8 ?uri = https_prefix" "ch CHR ''@'' \<notin> set (lit ''a.b'')" "lit ''a.b'' \<noteq> []"
    by (simp_all add: sample_url_def https_prefix_def lit_eq_ch)
  then have "parse_https_uri (sample_with known extra) ?uri
      = Inr (Https ?uri (sample_url []) sample_hash)"
    unfolding parse_https_uri_def Let_def auth
    by (simp add: raw sample_normalized url fetch) (simp add: hash_prefix_def)
  moreover have "?uri \<noteq> []" by (simp add: sample_url_def)
  ultimately show ?thesis using scan len ipfs by (simp add: parse_payload_uri_Inr)
qed

theorem https_payload_uri_safe_witness:
  "hash64 sample_hash \<and> safe_fetch_url (sample_url [])"
  using https_payload_uri_safe [OF sample_url_parse [where extra = "()"]] by blast

text \<open>
  C22. The IPFS URI created for a payload names it: the created URI parses to the canonical raw
  SHA-256 CIDv1 whose digest is the digest of the payload, and the payload passes its integrity
  check.
\<close>

theorem ipfs_payload_uri_names_payload:
  assumes "create_ipfs_payload_uri lib content = Inr uri"
    and "hex_laws lib" and "sha256_size lib" and "cid_laws lib"
  shows "\<exists>bs r. payload_bytes content = Inr bs \<and>
    parse_payload_uri lib uri = Inr (Ipfs uri (create_raw_cid lib (sha256 lib bs)) (sha256_hex lib bs)) \<and>
    verify_payload_integrity lib content uri = Inr r \<and> integrity_valid r"
  using parse_created_ipfs [OF assms] verify_created_ipfs [OF assms] by blast

theorem ipfs_payload_uri_names_payload_witness:
  "\<exists>uri r. create_ipfs_payload_uri (sample_lib []) (Bytes []) = Inr uri \<and>
     verify_payload_integrity (sample_lib []) (Bytes []) uri = Inr r \<and> integrity_valid r"
proof -
  obtain uri where u: "create_ipfs_payload_uri (sample_lib []) (Bytes []) = Inr uri"
    by (simp add: create_ipfs_payload_uri_def payload_bytes_def)
  show ?thesis
    using ipfs_payload_uri_names_payload [OF u sample_hex_laws sample_sha256_size sample_cid_laws] u
    by blast
qed

text \<open>
  C6. Verification says \<open>valid\<close> exactly when the URI parses, the content has the digest it names, and
  the content is the canonical text of a payload that names the issuer, the subject and the schema
  of the Credential and whose claims conform to its fields.
\<close>

theorem verify_says_valid:
  "verify_credential_payload lib (Retrieved content) uri ctx = Inr Valid \<longleftrightarrow>
     digest_matches lib content uri \<and>
     (\<exists>bytes. payload_bytes content = Inr bytes \<and> payload_document lib bytes ctx)"
  by (rule verify_valid_iff)

text \<open>
  Further guarantee: Verification says \<open>tampered\<close> exactly when the URI parses and the content is within the size
  limit but has another digest, and \<open>unavailable\<close> exactly when the URI parses and nothing was
  retrieved; the only error it lets through is a \<open>SyntaxError\<close>, which needs a text that
  \<open>jsonc-parser\<close> accepts and \<open>JSON.parse\<close> refuses.
\<close>

theorem verify_other_outcomes:
  "(verify_credential_payload lib (Retrieved content) uri ctx = Inr Tampered \<longleftrightarrow>
      (\<exists>r bytes. parse_payload_uri lib uri = Inr r \<and> payload_bytes content = Inr bytes \<and>
         digest_hex r \<noteq> sha256_hex lib bytes)) \<and>
   (verify_credential_payload lib retrieval uri ctx = Inr Payload_Unavailable \<longleftrightarrow>
      retrieval = Unavailable \<and> (\<exists>r. parse_payload_uri lib uri = Inr r)) \<and>
   (verify_credential_payload lib retrieval uri ctx \<noteq> Inl e \<or> e = SyntaxErr \<and> syntax_mismatch lib)"
  using verify_tampered_iff verify_unavailable_iff verify_credential_payload_Inl by blast

text \<open>
  C1. What is issued verifies: the payload \<open>encodeCredentialPayload\<close> builds from JSON claims,
  published under the IPFS URI created for its bytes, is \<open>valid\<close> for the same Credential, given
  that the libraries keep their documented laws and \<open>JSON.parse\<close> reads its canonical text back.
\<close>

theorem issued_credential_payload_verifies:
  assumes "hex_laws lib" "sha256_size lib" "cid_laws lib" "canonical_laws lib"
    and "js_keys claims" "json_value claims" "fields_ok 1 (ctx_fields ctx)"
    and "encode_credential_payload lib claims ctx = Inr enc"
    and "parses_back lib (payload_value (encoded_payload enc))"
    and "create_ipfs_payload_uri lib (Bytes (encoded_bytes enc)) = Inr uri"
  shows "verify_credential_payload lib (Retrieved (Bytes (encoded_bytes enc))) uri ctx = Inr Valid"
  using assms by (rule issued_payload_verifies)

definition sample_credential_context :: credential_context where
  "sample_credential_context = \<lparr>ctx_issuer = lit ''rIss'', ctx_subject = lit ''rSub'',
     ctx_schema_uid = sample_hash, ctx_fields = sample_fields_decl\<rparr>"

definition sample_payload :: credential_payload where
  "sample_payload = \<lparr>payload_issuer = lit ''rIss'', payload_subject = lit ''rSub'',
     payload_schema = sample_hash, payload_claims = sample_claims\<rparr>"

definition sample_cred_lib :: core_lib where
  "sample_cred_lib = sample_lib [payload_value sample_payload]"

lemma sample_payload_json: "json_value (payload_value sample_payload)"
  using sample_claims_value by (simp add: payload_value_def payload_object_def sample_payload_def)
    (simp add: sample_hash_def)

lemma sample_payload_parse:
  "parse_payload sample_cred_lib (payload_object (lit ''rIss'') (lit ''rSub'') sample_hash sample_claims)
     sample_credential_context = Inr sample_payload"
  unfolding parse_payload_Inr
  using sample_claims_parse
  by (simp add: sample_credential_context_def sample_cred_lib_def payload_object_get sample_payload_def)
    (simp add: payload_object_def PAYLOAD_PROPERTIES_def)

lemma sample_payload_size: "2 * text_size (payload_value sample_payload) \<le> MAX_PAYLOAD_BYTES"
  using length_dec_str [of 42 2]
  by (simp add: payload_value_def payload_object_def sample_payload_def sample_claims_def
      sample_hash_def MAX_PAYLOAD_BYTES_def)

lemma sample_payload_encodes:
  "\<exists>enc. encode_credential_payload sample_cred_lib sample_claims sample_credential_context = Inr enc \<and>
     encoded_payload enc = sample_payload \<and>
     payload_bytes (Bytes (encoded_bytes enc)) = Inr (encoded_bytes enc)"
proof -
  obtain bs where bs: "encode_canonical_json sample_cred_lib (payload_value sample_payload) = Inr bs"
    using sample_encode [OF sample_payload_json] unfolding sample_cred_lib_def by blast
  then obtain s where s: "canonical_json sample_cred_lib (payload_value sample_payload) = Inr s"
    by (auto simp: encode_canonical_json_Inr)
  have "payload_bytes (Bytes bs) = Inr bs"
    using sample_encode_size [OF bs [unfolded sample_cred_lib_def]] sample_payload_size
    by (simp add: payload_bytes_Inr)
  then have "encode_credential_payload sample_cred_lib sample_claims sample_credential_context =
      Inr \<lparr>encoded_payload = sample_payload, encoded_json = s, encoded_bytes = bs\<rparr>"
    using sample_payload_parse bs s
    by (simp add: encode_credential_payload_def sample_credential_context_def)
  then show ?thesis using \<open>payload_bytes (Bytes bs) = Inr bs\<close> by simp
qed

theorem issued_credential_payload_verifies_witness:
  "\<exists>enc uri. encode_credential_payload sample_cred_lib sample_claims sample_credential_context = Inr enc \<and>
     verify_credential_payload sample_cred_lib (Retrieved (Bytes (encoded_bytes enc))) uri
       sample_credential_context = Inr Valid"
proof -
  obtain enc where enc: "encode_credential_payload sample_cred_lib sample_claims
      sample_credential_context = Inr enc" and p: "encoded_payload enc = sample_payload"
    and size: "payload_bytes (Bytes (encoded_bytes enc)) = Inr (encoded_bytes enc)"
    using sample_payload_encodes by blast
  obtain uri where uri: "create_ipfs_payload_uri sample_cred_lib (Bytes (encoded_bytes enc)) = Inr uri"
    by (simp add: create_ipfs_payload_uri_def size)
  have laws: "hex_laws sample_cred_lib" "sha256_size sample_cred_lib" "cid_laws sample_cred_lib"
    "canonical_laws sample_cred_lib"
    unfolding sample_cred_lib_def by (rule sample_laws)+
  have fo: "fields_ok 1 (ctx_fields sample_credential_context)"
    using sample_fields_ok by (simp add: sample_credential_context_def)
  have "js_keys (payload_value sample_payload)"
    using sample_claims_value by (simp add: payload_value_def payload_object_def sample_payload_def)
  then have reads: "parses_back sample_cred_lib (payload_value (encoded_payload enc))"
    unfolding p sample_cred_lib_def by (rule sample_parses_back)
  show ?thesis
    using issued_credential_payload_verifies [OF laws sample_claims_value fo enc reads uri] enc by blast
qed

theorem verify_other_outcomes_witness:
  "verify_credential_payload (sample_lib []) Unavailable (sample_url sample_digest_fragment)
     sample_credential_context = Inr Payload_Unavailable"
  using verify_other_outcomes [of "sample_lib []" "Bytes []" "sample_url sample_digest_fragment"
      sample_credential_context Unavailable HostErr] sample_url_parse [of "[]" "()"] by auto

end
