(* ===== verification/Sdk_Encoding.thy ===== *)
theory Sdk_Encoding
  imports Credential Network_Profile
begin

text \<open>
  Errors, memo and Credential field encodings and profile checks of the SDK
  (\<open>packages/sdk/src/errors.ts\<close>, \<open>encoding.ts\<close>, \<open>network.ts\<close>).
\<close>

section \<open>Errors and libraries\<close>

datatype sdk_code =
    INVALID_ADDRESS
  | INVALID_SCHEMA_UID
  | INVALID_URI
  | INVALID_EXPIRATION
  | MEMO_TOO_LARGE
  | NETWORK_MISMATCH
  | AMENDMENT_UNAVAILABLE
  | ACTIVATION_UNAVAILABLE
  | ACTIVATION_MISMATCH
  | CLIENT_NOT_CONNECTED
  | AUTOFILL_INCOMPLETE
  | INVALID_SIGNED_BLOB
  | INVALID_SIGNER_RESULT
  | INVALID_VALIDATED_CONTEXT
  | INVALID_TRANSACTION
  | TRANSACTION_EXPIRED
  | LEDGER_CURRENT_INVALID
  | SUBMISSION_FAILED

text \<open>
  What an SDK call can throw: an \<open>XcsSdkError\<close>, an error of the protocol package, or an error of the
  host, of a library or of a callback.
\<close>

datatype serr = SdkErr sdk_code | CoreErr cerr | OtherErr

definition lift_core :: "cerr + 'a \<Rightarrow> serr + 'a" where
  "lift_core m = attempt m (\<lambda>e. Inl (CoreErr e))"

lemma lift_core_eq_Inr [res_simps, simp]: "lift_core m = Inr x \<longleftrightarrow> m = Inr x"
  by (cases m) (simp_all add: lift_core_def)

abbreviation sdk_fail :: "sdk_code \<Rightarrow> serr + 'a" where
  "sdk_fail code \<equiv> Inl (SdkErr code)"

text \<open>
  The functions of \<open>xrpl\<close> the SDK calls; \<open>None\<close> is a thrown error. Transactions are JavaScript
  objects.
\<close>

record sdk_lib = core_lib +
  xrpl_encode :: "jsval \<Rightarrow> jstr option"
  xrpl_decode :: "jstr \<Rightarrow> jsval option"
  hash_signed_tx :: "jstr \<Rightarrow> jstr option"
  verify_signature :: "jstr \<Rightarrow> bool option"
  xrpl_validate :: "jsval \<Rightarrow> bool"
  iso_time_to_ripple_time :: "jstr \<Rightarrow> int"

section \<open>Fields\<close>

definition XCS_SCHEMA_MEMO_TYPE :: jstr where
  "XCS_SCHEMA_MEMO_TYPE = lit ''xcs:schema_register''"

definition XCS_SCHEMA_MEMO_FORMAT :: jstr where
  "XCS_SCHEMA_MEMO_FORMAT = lit ''application/json''"

definition MAX_XRPL_MEMO_BYTES :: int where "MAX_XRPL_MEMO_BYTES = 1024"
definition MAX_CREDENTIAL_URI_BYTES :: nat where "MAX_CREDENTIAL_URI_BYTES = 256"
definition XRPL_MEMOS_FIELD_ENVELOPE_BYTES :: int where "XRPL_MEMOS_FIELD_ENVELOPE_BYTES = 2"

text \<open>\<open>/^(?:[0-9a-fA-F]{2})+$/\<close>\<close>

definition hex_pattern :: "jstr \<Rightarrow> bool" where
  "hex_pattern s \<longleftrightarrow> s \<noteq> [] \<and> even (length s) \<and> list_all is_hex s"

definition encode_memo_field :: "'x core_lib_scheme \<Rightarrow> jstr \<Rightarrow> jstr" where
  "encode_memo_field lib value = to_upper (bytes_to_hex lib (encode_utf8 value))"

text \<open>A \<open>TextDecoder\<close> without \<open>ignoreBOM\<close> drops a leading byte order mark.\<close>

definition strip_bom :: "byte list \<Rightarrow> byte list" where
  "strip_bom bs = (if take 3 bs = [0xef, 0xbb, 0xbf] then drop 3 bs else bs)"

definition decode_memo_field :: "'x core_lib_scheme \<Rightarrow> jstr \<Rightarrow> serr + jstr" where
  "decode_memo_field lib value =
     (case hex_to_bytes lib value of
        None \<Rightarrow> sdk_fail INVALID_URI
      | Some bytes \<Rightarrow>
          (case text_decode (strip_bom bytes) of
             None \<Rightarrow> sdk_fail INVALID_URI
           | Some s \<Rightarrow> Inr s))"

definition schema_uid_to_credential_type :: "jstr \<Rightarrow> serr + jstr" where
  "schema_uid_to_credential_type schema_uid =
     (if \<not> hash64 schema_uid then sdk_fail INVALID_SCHEMA_UID else Inr (to_upper schema_uid))"

definition credential_type_to_schema_uid :: "jstr \<Rightarrow> serr + jstr" where
  "credential_type_to_schema_uid credential_type =
     (if \<not> hash64_any credential_type then sdk_fail INVALID_SCHEMA_UID
      else Inr (to_lower credential_type))"

definition uri_to_credential_hex :: "'x core_lib_scheme \<Rightarrow> jstr \<Rightarrow> serr + jstr" where
  "uri_to_credential_hex lib uri =
     (let byte_length = length (encode_utf8 uri) in
      if byte_length = 0 \<or> MAX_CREDENTIAL_URI_BYTES < byte_length then sdk_fail INVALID_URI
      else rbind (lift_core (parse_payload_uri lib uri)) (\<lambda>_. Inr (encode_memo_field lib uri)))"

definition credential_hex_to_uri :: "'x core_lib_scheme \<Rightarrow> jstr \<Rightarrow> serr + jstr" where
  "credential_hex_to_uri lib uri_hex =
     (if \<not> hex_pattern uri_hex then sdk_fail INVALID_URI
      else rbind (decode_memo_field lib uri_hex) (\<lambda>uri.
        rbind (uri_to_credential_hex lib uri) (\<lambda>_. Inr uri)))"

section \<open>Memo size\<close>

definition base_payment :: "(jstr \<times> jsval) list" where
  "base_payment =
     [(lit ''TransactionType'', jlit ''Payment''),
      (lit ''Account'', jlit ''rHb9CJAWyB4rj91VRWn96DkukG4bwdtyTh''),
      (lit ''Destination'', jlit ''r9cZA1mLK5R5Am25ArfXFmqgNwjZgnfk59''),
      (lit ''Amount'', jlit ''1''),
      (lit ''Fee'', jlit ''12''),
      (lit ''Sequence'', jint 1),
      (lit ''SigningPubKey'', jlit '''')]"

definition copy_memo :: "jsval \<Rightarrow> jsval" where
  "copy_memo entry = JObj Plain [(lit ''Memo'', JObj Plain (entries_of (get entry ''Memo'')))]"

definition measure_transaction_memo_bytes :: "'x sdk_lib_scheme \<Rightarrow> jsval list \<Rightarrow> serr + int" where
  "measure_transaction_memo_bytes lib memos =
     (case (xrpl_encode lib (JObj Plain (base_payment @ [(lit ''Memos'', JArr (map copy_memo memos))])),
            xrpl_encode lib (JObj Plain base_payment)) of
        (Some with_memo, Some base) \<Rightarrow>
          Inr ((int (length with_memo) - int (length base)) div 2 - XRPL_MEMOS_FIELD_ENVELOPE_BYTES)
      | _ \<Rightarrow> Inl OtherErr)"

definition schema_memo :: "'x core_lib_scheme \<Rightarrow> jstr \<Rightarrow> jsval" where
  "schema_memo lib canonical_schema = JObj Plain [(lit ''Memo'', JObj Plain
     [(lit ''MemoType'', JStr (encode_memo_field lib XCS_SCHEMA_MEMO_TYPE)),
      (lit ''MemoFormat'', JStr (encode_memo_field lib XCS_SCHEMA_MEMO_FORMAT)),
      (lit ''MemoData'', JStr (encode_memo_field lib canonical_schema))])]"

definition measure_schema_registration_memo_bytes ::
  "'x sdk_lib_scheme \<Rightarrow> jstr \<Rightarrow> serr + int" where
  "measure_schema_registration_memo_bytes lib canonical_schema =
     measure_transaction_memo_bytes lib [schema_memo lib canonical_schema]"

definition assert_transaction_memos_fit :: "'x sdk_lib_scheme \<Rightarrow> jsval list \<Rightarrow> serr + unit" where
  "assert_transaction_memos_fit lib memos =
     rbind (measure_transaction_memo_bytes lib memos) (\<lambda>byte_length.
       if MAX_XRPL_MEMO_BYTES < byte_length then sdk_fail MEMO_TOO_LARGE else Inr ())"

definition assert_memo_fits :: "'x sdk_lib_scheme \<Rightarrow> jstr \<Rightarrow> serr + unit" where
  "assert_memo_fits lib canonical_schema =
     rbind (measure_schema_registration_memo_bytes lib canonical_schema) (\<lambda>byte_length.
       if MAX_XRPL_MEMO_BYTES < byte_length then sdk_fail MEMO_TOO_LARGE else Inr ())"

section \<open>Addresses, profiles and the connected network\<close>

definition assert_classic_address :: "'x core_lib_scheme \<Rightarrow> jsval \<Rightarrow> serr + unit" where
  "assert_classic_address lib address =
     (if \<not> string_that (is_valid_classic_address lib) address then sdk_fail INVALID_ADDRESS
      else Inr ())"

definition sdk_parse_network_profile :: "'x core_lib_scheme \<Rightarrow> jsval \<Rightarrow> serr + network_profile" where
  "sdk_parse_network_profile lib input =
     rbind (lift_core (parse_network_profile lib input)) (\<lambda>profile.
     rbind (assert_classic_address lib (JStr (registry_address profile))) (\<lambda>_. Inr profile))"

text \<open>
  The connected server: whether the client is connected, whether connecting works, the network ID
  it then reports, and the results of the two requests (\<open>None\<close> when a request fails).
\<close>

record xrpl_client =
  is_connected :: bool
  connect_ok :: bool
  reported_network_id :: "jnum option"
  feature_result :: "jstr \<Rightarrow> jsval option"
  ledger_result :: "int \<Rightarrow> jsval option"

definition connect_and_validate_network ::
  "'x core_lib_scheme \<Rightarrow> xrpl_client \<Rightarrow> jsval \<Rightarrow> serr + network_profile" where
  "connect_and_validate_network lib client profile_input =
     rbind (sdk_parse_network_profile lib profile_input) (\<lambda>profile.
     if \<not> is_connected client \<and> \<not> connect_ok client then Inl OtherErr
     else case reported_network_id client of
       None \<Rightarrow> sdk_fail CLIENT_NOT_CONNECTED
     | Some actual \<Rightarrow>
         if actual \<noteq> NInt (profile_network_id profile) then sdk_fail NETWORK_MISMATCH
         else case feature_result client (required_amendment profile) of
           None \<Rightarrow> sdk_fail AMENDMENT_UNAVAILABLE
         | Some result \<Rightarrow>
             (let feature_map = entries_of (as_record result);
                  amendment = (case find (\<lambda>(key, _). to_upper key = to_upper (required_amendment profile))
                                 feature_map of
                                 None \<Rightarrow> JUndef
                               | Some (_, v) \<Rightarrow> as_record v)
              in if get amendment ''enabled'' \<noteq> JBool True \<or> get amendment ''supported'' \<noteq> JBool True
                 then sdk_fail AMENDMENT_UNAVAILABLE
                 else Inr profile))"

definition verify_network_profile_activation ::
  "'x core_lib_scheme \<Rightarrow> xrpl_client \<Rightarrow> jsval \<Rightarrow> serr + network_profile" where
  "verify_network_profile_activation lib client profile_input =
     rbind (connect_and_validate_network lib client profile_input) (\<lambda>profile.
     case ledger_result client (activation_ledger_index profile) of
       None \<Rightarrow> sdk_fail ACTIVATION_UNAVAILABLE
     | Some raw \<Rightarrow>
         (let result = as_record raw;
              ledger = as_record (get result ''ledger'');
              ledger_index = coalesce (get result ''ledger_index'') (get ledger ''ledger_index'');
              ledger_hash = coalesce (get result ''ledger_hash'') (get ledger ''ledger_hash'')
          in if get result ''validated'' \<noteq> JBool True \<or>
                ledger_index \<noteq> jint (activation_ledger_index profile) \<or>
                \<not> string_that (\<lambda>h. to_lower h = activation_ledger_hash profile) ledger_hash
             then sdk_fail ACTIVATION_MISMATCH
             else Inr profile))"

section \<open>Round trips\<close>

text \<open>A schema UID and a \<open>CredentialType\<close> are the same 32 bytes in lower and upper case.\<close>

interpretation credential_type: codec "\<lambda>uid. to_upper uid"
  "\<lambda>t. res_option (credential_type_to_schema_uid t)" hash64
  by unfold_locales (simp add: credential_type_to_schema_uid_def hash64_upper)

lemma schema_uid_roundtrip:
  "schema_uid_to_credential_type uid = Inr t \<Longrightarrow> credential_type_to_schema_uid t = Inr uid"
  by (auto simp: schema_uid_to_credential_type_def credential_type_to_schema_uid_def hash64_upper
      split: if_splits)

lemma credential_type_roundtrip:
  "credential_type_to_schema_uid t = Inr uid \<Longrightarrow>
     hash64 uid \<and> schema_uid_to_credential_type uid = Inr (to_upper t)"
proof -
  have "upper_cu (lower_cu c) = upper_cu c" if "is_hex c" for c
  proof -
    have "unat (upper_cu (lower_cu c)) = unat (upper_cu c)"
      using that by (auto simp: class_unat upper_cu_unat lower_cu_unat)
    then show ?thesis by (simp add: word_unat_eq_iff)
  qed
  then have "hash64_any t \<Longrightarrow> to_upper (to_lower t) = to_upper t"
    by (auto simp: hash64_any_def to_upper_def to_lower_def list_all_iff)
  then show "credential_type_to_schema_uid t = Inr uid \<Longrightarrow>
     hash64 uid \<and> schema_uid_to_credential_type uid = Inr (to_upper t)"
    by (auto simp: schema_uid_to_credential_type_def credential_type_to_schema_uid_def
        hash64_any_lower split: if_splits)
qed

lemma hex_upper_decode:
  "hex_laws lib \<Longrightarrow> hex_to_bytes lib (to_upper (bytes_to_hex lib bs)) = Some bs"
  by (simp add: hex_laws_def)

lemma hex_pattern_upper:
  "hex_laws lib \<Longrightarrow> bs \<noteq> [] \<Longrightarrow> hex_pattern (to_upper (bytes_to_hex lib bs))"
proof -
  assume l: "hex_laws lib" and "bs \<noteq> []"
  have "length (bytes_to_hex lib bs) = 2 * length bs" "list_all is_lower_hex (bytes_to_hex lib bs)"
    using l by (simp_all add: hex_laws_def)
  moreover from this have "bytes_to_hex lib bs \<noteq> []" using \<open>bs \<noteq> []\<close> by auto
  ultimately show ?thesis
    using hex_upper by (auto simp: hex_pattern_def to_upper_def list_all_iff is_hex_def)
qed

text \<open>A parsed payload URI starts with a letter, so its bytes do not start with a byte order mark.\<close>

lemma parse_payload_uri_start:
  "parse_payload_uri lib uri = Inr r \<Longrightarrow> take 7 uri = lit ''ipfs://'' \<or> take 8 uri = https_prefix"
  by (auto simp: parse_payload_uri_Inr parse_ipfs_uri_Some ipfs_match_def parse_https_uri_def Let_def
      res_simps split: if_splits)

lemma encode_start:
  assumes "unat c < 128"
  shows "encode_utf8 (c # s) = of_nat (unat c) # encode_utf8 s"
  using assms by (simp add: encode_utf8_def utf8_point_def is_high_def is_low_def)

lemma payload_uri_no_bom:
  assumes "parse_payload_uri lib uri = Inr r"
  shows "strip_bom (encode_utf8 uri) = encode_utf8 uri"
proof -
  obtain c s where u: "uri = c # s" and c: "c = ch CHR ''i'' \<or> c = ch CHR ''h''"
    using parse_payload_uri_start [OF assms] by (cases uri) (auto simp: https_prefix_def lit_eq_ch)
  then have "unat c < 128" "of_nat (unat c) \<noteq> (0xef :: byte)" by (auto simp: ch_def)
  then show ?thesis by (simp add: strip_bom_def u encode_start)
qed

lemma uri_hex_roundtrip:
  assumes "uri_to_credential_hex lib uri = Inr h" and "well_formed uri" and "hex_laws lib"
  shows "credential_hex_to_uri lib h = Inr uri"
proof -
  from assms(1) obtain r where r: "parse_payload_uri lib uri = Inr r"
    and ne: "encode_utf8 uri \<noteq> []" and h: "h = encode_memo_field lib uri"
    by (auto simp: uri_to_credential_hex_def Let_def res_simps split: if_splits)
  have "decode_memo_field lib h = Inr uri"
    using assms(2,3) payload_uri_no_bom [OF r]
    by (simp add: h decode_memo_field_def encode_memo_field_def hex_upper_decode text_decode_encode)
  moreover have "hex_pattern h"
    unfolding h encode_memo_field_def by (rule hex_pattern_upper [OF assms(3) ne])
  ultimately show ?thesis using assms(1) by (simp add: credential_hex_to_uri_def)
qed

text \<open>The same URI with a byte order mark in front is accepted as well: the decoder drops the mark.\<close>

definition bom_hex :: "'x core_lib_scheme \<Rightarrow> jstr \<Rightarrow> jstr" where
  "bom_hex lib uri = to_upper (bytes_to_hex lib ([0xef, 0xbb, 0xbf] @ encode_utf8 uri))"

lemma bom_hex_accepted:
  assumes "uri_to_credential_hex lib uri = Inr h" and "well_formed uri" and "hex_laws lib"
  shows "credential_hex_to_uri lib (bom_hex lib uri) = Inr uri" "bom_hex lib uri \<noteq> h"
proof -
  have p: "hex_pattern (bom_hex lib uri)"
    unfolding bom_hex_def by (rule hex_pattern_upper [OF assms(3)]) simp
  have "decode_memo_field lib (bom_hex lib uri) = Inr uri"
    using assms(2) hex_upper_decode [OF assms(3)]
    by (simp add: bom_hex_def decode_memo_field_def strip_bom_def text_decode_encode)
  then show "credential_hex_to_uri lib (bom_hex lib uri) = Inr uri"
    using assms(1) p by (simp add: credential_hex_to_uri_def)
  have "h = to_upper (bytes_to_hex lib (encode_utf8 uri))"
    using assms(1)
    by (auto simp: uri_to_credential_hex_def encode_memo_field_def Let_def res_simps split: if_splits)
  moreover have "hex_to_bytes lib (bom_hex lib uri) = Some ([0xef, 0xbb, 0xbf] @ encode_utf8 uri)"
    unfolding bom_hex_def by (rule hex_upper_decode [OF assms(3)])
  ultimately show "bom_hex lib uri \<noteq> h" using hex_upper_decode [OF assms(3)] by auto
qed

end
