(* ===== verification/Sdk_Builders.thy ===== *)
theory Sdk_Builders
  imports Sdk_Encoding Schema_Uid
begin

text \<open>
  The transaction builders of the SDK (\<open>packages/sdk/src/builders.ts\<close>). Transactions are JavaScript
  objects, as the wallet and the validator see them.
\<close>

section \<open>Inputs\<close>

record schema_registration_input =
  reg_publisher :: jstr
  reg_profile :: jsval
  reg_schema :: jsval

record built_schema_registration =
  built_transaction :: jsval
  built_schema :: schema_definition
  built_canonical_schema :: jstr
  memo_byte_length :: int

record validated_context =
  vc_validated :: bool
  vc_transaction_result :: jstr
  vc_network_id :: jnum
  vc_ledger_hash :: jstr
  vc_ledger_index :: jnum
  vc_transaction_index :: jnum
  vc_publisher :: jstr

record credential_create_input =
  cc_issuer :: jstr
  cc_subject :: jstr
  cc_schema_uid :: jstr
  cc_uri :: jstr
  cc_expiration :: "jstr option"

record credential_accept_input =
  ca_subject :: jstr
  ca_issuer :: jstr
  ca_schema_uid :: jstr

record credential_delete_input =
  cd_account :: jstr
  cd_issuer :: jstr
  cd_subject :: jstr
  cd_schema_uid :: jstr

section \<open>Expiration\<close>

text \<open>
  \<open>/^\d{4}-\d{2}-\d{2}T\d{2}:\d{2}:\d{2}(?:\.000)?Z$/\<close>, position by position; \<open>d\<close> stands for a digit.
\<close>

fun matches_template :: "string \<Rightarrow> jstr \<Rightarrow> bool" where
  "matches_template [] s = (s = [])"
| "matches_template (t # ts) [] = False"
| "matches_template (t # ts) (c # cs) =
     ((if t = CHR ''d'' then is_digit c else c = ch t) \<and> matches_template ts cs)"

definition whole_second_utc_iso :: "jstr \<Rightarrow> bool" where
  "whole_second_utc_iso s \<longleftrightarrow>
     matches_template ''dddd-dd-ddTdd:dd:ddZ'' s \<or> matches_template ''dddd-dd-ddTdd:dd:dd.000Z'' s"

text \<open>
  A text of this form is read by \<open>Date\<close> and written back unchanged by \<open>toISOString\<close> exactly when it
  names a day of the Gregorian calendar and a time of that day.
\<close>

definition is_leap :: "nat \<Rightarrow> bool" where
  "is_leap y \<longleftrightarrow> y mod 4 = 0 \<and> (y mod 100 \<noteq> 0 \<or> y mod 400 = 0)"

definition days_in_month :: "nat \<Rightarrow> nat \<Rightarrow> nat" where
  "days_in_month y m =
     (if m \<in> {4, 6, 9, 11} then 30 else if m = 2 then (if is_leap y then 29 else 28) else 31)"

definition number_at :: "jstr \<Rightarrow> nat \<Rightarrow> nat \<Rightarrow> nat" where
  "number_at s i n = dec_value (take n (drop i s))"

definition date_round_trips :: "jstr \<Rightarrow> bool" where
  "date_round_trips s \<longleftrightarrow>
     (let y = number_at s 0 4; mo = number_at s 5 2; d = number_at s 8 2 in
        1 \<le> mo \<and> mo \<le> 12 \<and> 1 \<le> d \<and> d \<le> days_in_month y mo \<and>
        number_at s 11 2 < 24 \<and> number_at s 14 2 < 60 \<and> number_at s 17 2 < 60)"

definition parse_credential_expiration :: "'x sdk_lib_scheme \<Rightarrow> jstr \<Rightarrow> serr + int" where
  "parse_credential_expiration lib value =
     (if \<not> whole_second_utc_iso value \<or> \<not> date_round_trips value then sdk_fail INVALID_EXPIRATION
      else
        (let expiration = iso_time_to_ripple_time lib value in
         if expiration < 0 \<or> uint32_max < expiration then sdk_fail INVALID_EXPIRATION
         else Inr expiration))"

section \<open>Builders\<close>

text \<open>
  \<open>new TextDecoder().decode(encodeSchema(schema))\<close>: the bytes come from \<open>TextEncoder\<close>, so they decode;
  the decoder drops a leading byte order mark.
\<close>

definition decode_schema_text :: "byte list \<Rightarrow> jstr" where
  "decode_schema_text bs = (case text_decode (strip_bom bs) of None \<Rightarrow> [] | Some s \<Rightarrow> s)"

definition build_schema_registration_payment ::
  "'x sdk_lib_scheme \<Rightarrow> schema_registration_input \<Rightarrow> serr + built_schema_registration" where
  "build_schema_registration_payment lib input =
     rbind (sdk_parse_network_profile lib (reg_profile input)) (\<lambda>profile.
     rbind (assert_classic_address lib (JStr (reg_publisher input))) (\<lambda>_.
     rbind (lift_core (parse_schema (reg_schema input))) (\<lambda>schema.
     rbind (lift_core (encode_schema lib (schema_value schema))) (\<lambda>bytes.
     let canonical_schema = decode_schema_text bytes in
     rbind (assert_memo_fits lib canonical_schema) (\<lambda>_.
     rbind (measure_schema_registration_memo_bytes lib canonical_schema) (\<lambda>memo_bytes.
       Inr \<lparr>built_transaction = JObj Plain
              [(lit ''TransactionType'', jlit ''Payment''),
               (lit ''Account'', JStr (reg_publisher input)),
               (lit ''Destination'', JStr (registry_address profile)),
               (lit ''Amount'', jlit ''1''),
               (lit ''Memos'', JArr [schema_memo lib canonical_schema])],
            built_schema = schema, built_canonical_schema = canonical_schema,
            memo_byte_length = memo_bytes\<rparr>))))))"

definition derive_schema_uid ::
  "'x core_lib_scheme \<Rightarrow> jsval \<Rightarrow> validated_context \<Rightarrow> serr + jstr" where
  "derive_schema_uid lib schema_input ctx =
     (if \<not> vc_validated ctx \<or> vc_transaction_result ctx \<noteq> lit ''tesSUCCESS''
      then sdk_fail INVALID_VALIDATED_CONTEXT
      else
        rbind (assert_classic_address lib (JStr (vc_publisher ctx))) (\<lambda>_.
        rbind (lift_core (parse_schema schema_input)) (\<lambda>schema.
          lift_core (compute_schema_uid lib
            \<lparr>uid_network_id = vc_network_id ctx, uid_ledger_hash = vc_ledger_hash ctx,
             uid_ledger_index = vc_ledger_index ctx,
             uid_transaction_index = vc_transaction_index ctx, uid_publisher = vc_publisher ctx,
             uid_schema = schema_value schema\<rparr>))))"

definition build_credential_create ::
  "'x sdk_lib_scheme \<Rightarrow> credential_create_input \<Rightarrow> serr + jsval" where
  "build_credential_create lib input =
     rbind (assert_classic_address lib (JStr (cc_issuer input))) (\<lambda>_.
     rbind (assert_classic_address lib (JStr (cc_subject input))) (\<lambda>_.
     rbind (schema_uid_to_credential_type (cc_schema_uid input)) (\<lambda>credential_type.
     rbind (uri_to_credential_hex lib (cc_uri input)) (\<lambda>uri_hex.
     rbind (case cc_expiration input of
              None \<Rightarrow> Inr []
            | Some value \<Rightarrow>
                rbind (parse_credential_expiration lib value)
                  (\<lambda>t. Inr [(lit ''Expiration'', jint t)])) (\<lambda>expiration.
       Inr (JObj Plain
         ([(lit ''TransactionType'', jlit ''CredentialCreate''),
           (lit ''Account'', JStr (cc_issuer input)),
           (lit ''Subject'', JStr (cc_subject input)),
           (lit ''CredentialType'', JStr credential_type),
           (lit ''URI'', JStr uri_hex)] @ expiration)))))))"

definition build_credential_accept ::
  "'x core_lib_scheme \<Rightarrow> credential_accept_input \<Rightarrow> serr + jsval" where
  "build_credential_accept lib input =
     rbind (assert_classic_address lib (JStr (ca_subject input))) (\<lambda>_.
     rbind (assert_classic_address lib (JStr (ca_issuer input))) (\<lambda>_.
     rbind (schema_uid_to_credential_type (ca_schema_uid input)) (\<lambda>credential_type.
       Inr (JObj Plain
         [(lit ''TransactionType'', jlit ''CredentialAccept''),
          (lit ''Account'', JStr (ca_subject input)),
          (lit ''Issuer'', JStr (ca_issuer input)),
          (lit ''CredentialType'', JStr credential_type)]))))"

definition build_credential_delete ::
  "'x core_lib_scheme \<Rightarrow> credential_delete_input \<Rightarrow> serr + jsval" where
  "build_credential_delete lib input =
     rbind (assert_classic_address lib (JStr (cd_account input))) (\<lambda>_.
     rbind (assert_classic_address lib (JStr (cd_issuer input))) (\<lambda>_.
     rbind (assert_classic_address lib (JStr (cd_subject input))) (\<lambda>_.
     rbind (schema_uid_to_credential_type (cd_schema_uid input)) (\<lambda>credential_type.
       let issuer = (if cd_account input \<noteq> cd_issuer input
                     then [(lit ''Issuer'', JStr (cd_issuer input))] else []);
           subject = (if cd_account input \<noteq> cd_subject input \<or> issuer = []
                      then [(lit ''Subject'', JStr (cd_subject input))] else [])
       in Inr (JObj Plain
            ([(lit ''TransactionType'', jlit ''CredentialDelete''),
              (lit ''Account'', JStr (cd_account input)),
              (lit ''CredentialType'', JStr credential_type)] @ issuer @ subject))))))"

end
