(* ===== verification/Sdk_Validation.thy ===== *)
theory Sdk_Validation
  imports Sdk_Builders
begin

text \<open>
  The check that a transaction is one of the operations of the protocol
  (\<open>packages/sdk/src/transaction-validation.ts\<close>). Main results: what an accepted transaction
  contains, and that everything the builders produce is accepted.
\<close>

datatype xcs_semantics =
    Schema_Registration
  | Credential_Create (create_uid: jstr)
  | Credential_Accept (accept_uid: jstr)
  | Credential_Delete (delete_uid: jstr)

definition PARTIAL_PAYMENT_FLAG :: int where "PARTIAL_PAYMENT_FLAG = 0x20000"

text \<open>\<open>(flags & 0x20000) !== 0\<close> on a number, \<open>tfPartialPayment\<close> of the object form of the flags.\<close>

definition has_partial_payment_flag :: "jsval \<Rightarrow> bool" where
  "has_partial_payment_flag flags =
     (case flags of
        JNum n \<Rightarrow> has_flag n PARTIAL_PAYMENT_FLAG
      | _ \<Rightarrow> get flags ''tfPartialPayment'' = JBool True)"

definition validation_decode_memo_field :: "'x core_lib_scheme \<Rightarrow> jsval \<Rightarrow> serr + jstr" where
  "validation_decode_memo_field lib value =
     (case value of
        JStr s \<Rightarrow>
          (case hex_to_bytes lib s of
             None \<Rightarrow> Inl OtherErr
           | Some bytes \<Rightarrow>
               (case text_decode bytes of None \<Rightarrow> sdk_fail INVALID_TRANSACTION | Some t \<Rightarrow> Inr t))
      | _ \<Rightarrow> Inl OtherErr)"

definition decode_optional_memo_field :: "'x core_lib_scheme \<Rightarrow> jsval \<Rightarrow> jstr option" where
  "decode_optional_memo_field lib value =
     (if value = JUndef then None else res_option (validation_decode_memo_field lib value))"

text \<open>\<open>entry.Memo.MemoType\<close> throws when \<open>entry\<close> or \<open>entry.Memo\<close> is \<open>undefined\<close> or \<open>null\<close>.\<close>

definition memo_of :: "jsval \<Rightarrow> serr + jsval" where
  "memo_of entry =
     (if nullish entry \<or> nullish (get entry ''Memo'') then Inl OtherErr else Inr (get entry ''Memo''))"

fun xcs_memos :: "'x core_lib_scheme \<Rightarrow> jsval list \<Rightarrow> serr + jsval list" where
  "xcs_memos lib [] = Inr []"
| "xcs_memos lib (entry # entries) =
     rbind (memo_of entry) (\<lambda>memo.
     rbind (xcs_memos lib entries) (\<lambda>rest.
       Inr (if decode_optional_memo_field lib (get memo ''MemoType'') = Some XCS_SCHEMA_MEMO_TYPE
            then memo # rest else rest)))"

definition check_schema_memo :: "'x sdk_lib_scheme \<Rightarrow> jstr \<Rightarrow> serr + unit" where
  "check_schema_memo lib memo_data =
     attempt
       (rbind (validation_decode_memo_field lib (JStr memo_data)) (\<lambda>canonical_schema.
        case hex_to_bytes lib memo_data of
          None \<Rightarrow> Inl OtherErr
        | Some bytes \<Rightarrow>
            rbind (lift_core (parse_schema_bytes lib bytes)) (\<lambda>_.
              assert_memo_fits lib canonical_schema)))
       (\<lambda>cause. case cause of SdkErr code \<Rightarrow> Inl cause | _ \<Rightarrow> sdk_fail INVALID_TRANSACTION)"

definition validate_schema_registration ::
  "'x sdk_lib_scheme \<Rightarrow> jsval \<Rightarrow> network_profile \<Rightarrow> serr + xcs_semantics" where
  "validate_schema_registration lib transaction profile =
     rbind (assert_classic_address lib (get transaction ''Account'')) (\<lambda>_.
     if get transaction ''Destination'' \<noteq> JStr (registry_address profile) \<or>
        get transaction ''Amount'' \<noteq> jlit ''1''
     then sdk_fail INVALID_TRANSACTION
     else if get transaction ''Paths'' \<noteq> JUndef \<or> get transaction ''SendMax'' \<noteq> JUndef \<or>
             get transaction ''DeliverMin'' \<noteq> JUndef
     then sdk_fail INVALID_TRANSACTION
     else if has_partial_payment_flag (get transaction ''Flags'') then sdk_fail INVALID_TRANSACTION
     else
       rbind (case coalesce (get transaction ''Memos'') (JArr []) of
                JArr entries \<Rightarrow> xcs_memos lib entries
              | _ \<Rightarrow> Inl OtherErr) (\<lambda>memos.
       case memos of
         [memo] \<Rightarrow>
           if decode_optional_memo_field lib (get memo ''MemoFormat'') \<noteq> Some XCS_SCHEMA_MEMO_FORMAT
           then sdk_fail INVALID_TRANSACTION
           else (case get memo ''MemoData'' of
                   JStr memo_data \<Rightarrow>
                     rbind (check_schema_memo lib memo_data) (\<lambda>_. Inr Schema_Registration)
                 | _ \<Rightarrow> sdk_fail INVALID_TRANSACTION)
       | _ \<Rightarrow> sdk_fail INVALID_TRANSACTION))"

text \<open>\<open>credentialTypeToSchemaUid\<close> on a property of a transaction.\<close>

definition type_to_uid :: "jsval \<Rightarrow> serr + jstr" where
  "type_to_uid v =
     (case v of JStr s \<Rightarrow> credential_type_to_schema_uid s | _ \<Rightarrow> sdk_fail INVALID_SCHEMA_UID)"

definition validate_credential_create :: "'x sdk_lib_scheme \<Rightarrow> jsval \<Rightarrow> serr + xcs_semantics" where
  "validate_credential_create lib transaction =
     rbind (assert_classic_address lib (get transaction ''Account'')) (\<lambda>_.
     rbind (assert_classic_address lib (get transaction ''Subject'')) (\<lambda>_.
     rbind (type_to_uid (get transaction ''CredentialType'')) (\<lambda>uid.
     case get transaction ''URI'' of
       JStr uri_hex \<Rightarrow>
         rbind (credential_hex_to_uri lib uri_hex) (\<lambda>_.
           if get transaction ''Expiration'' \<noteq> JUndef \<and> \<not> is_uint32 (get transaction ''Expiration'')
           then sdk_fail INVALID_TRANSACTION
           else Inr (Credential_Create uid))
     | _ \<Rightarrow> sdk_fail INVALID_TRANSACTION)))"

definition validate_credential_accept :: "'x core_lib_scheme \<Rightarrow> jsval \<Rightarrow> serr + xcs_semantics" where
  "validate_credential_accept lib transaction =
     rbind (assert_classic_address lib (get transaction ''Account'')) (\<lambda>_.
     rbind (assert_classic_address lib (get transaction ''Issuer'')) (\<lambda>_.
     rbind (type_to_uid (get transaction ''CredentialType'')) (\<lambda>uid. Inr (Credential_Accept uid))))"

definition validate_credential_delete :: "'x core_lib_scheme \<Rightarrow> jsval \<Rightarrow> serr + xcs_semantics" where
  "validate_credential_delete lib transaction =
     rbind (assert_classic_address lib (get transaction ''Account'')) (\<lambda>_.
     if get transaction ''Issuer'' = JUndef \<and> get transaction ''Subject'' = JUndef
     then sdk_fail INVALID_TRANSACTION
     else
       rbind (if get transaction ''Issuer'' \<noteq> JUndef
              then assert_classic_address lib (get transaction ''Issuer'') else Inr ()) (\<lambda>_.
       rbind (if get transaction ''Subject'' \<noteq> JUndef
              then assert_classic_address lib (get transaction ''Subject'') else Inr ()) (\<lambda>_.
       rbind (type_to_uid (get transaction ''CredentialType'')) (\<lambda>uid. Inr (Credential_Delete uid)))))"

definition assert_xcs_transaction_semantics ::
  "'x sdk_lib_scheme \<Rightarrow> jsval \<Rightarrow> jsval \<Rightarrow> serr + xcs_semantics" where
  "assert_xcs_transaction_semantics lib transaction profile_input =
     (if \<not> xrpl_validate lib transaction then sdk_fail INVALID_TRANSACTION
      else
        rbind (sdk_parse_network_profile lib profile_input) (\<lambda>profile.
          if get transaction ''TransactionType'' = jlit ''Payment''
          then validate_schema_registration lib transaction profile
          else if get transaction ''TransactionType'' = jlit ''CredentialCreate''
          then validate_credential_create lib transaction
          else if get transaction ''TransactionType'' = jlit ''CredentialAccept''
          then validate_credential_accept lib transaction
          else if get transaction ''TransactionType'' = jlit ''CredentialDelete''
          then validate_credential_delete lib transaction
          else sdk_fail INVALID_TRANSACTION))"

section \<open>The builders produce accepted transactions\<close>

lemma assert_classic_address_Inr:
  "assert_classic_address lib v = Inr u \<longleftrightarrow> (\<exists>s. v = JStr s \<and> is_valid_classic_address lib s)"
  by (auto simp: assert_classic_address_def string_that_iff split: if_splits)

lemma schema_uid_to_credential_type_Inr:
  "schema_uid_to_credential_type uid = Inr t \<longleftrightarrow> hash64 uid \<and> t = to_upper uid"
  by (auto simp: schema_uid_to_credential_type_def split: if_splits)

lemma type_to_uid_upper: "hash64 uid \<Longrightarrow> type_to_uid (JStr (to_upper uid)) = Inr uid"
  by (simp add: type_to_uid_def credential_type_to_schema_uid_def hash64_upper)

lemma built_create_accepted:
  assumes "build_credential_create lib input = Inr tx" and "well_formed (cc_uri input)"
    and "hex_laws lib"
  shows "validate_credential_create lib tx = Inr (Credential_Create (cc_schema_uid input))"
proof -
  define expiration_of where "expiration_of = (case cc_expiration input of
      None \<Rightarrow> Inr []
    | Some value \<Rightarrow>
        rbind (parse_credential_expiration lib value) (\<lambda>t. Inr [(lit ''Expiration'', jint t)]))"
  have ex: "e = [] \<or> (\<exists>n. e = [(lit ''Expiration'', jint n)] \<and> is_uint32 (jint n))"
    if "expiration_of = Inr e" for e
    using that by (auto simp: expiration_of_def res_simps parse_credential_expiration_def Let_def
        split: option.splits)
  from assms(1) obtain h expiration where
    a: "is_valid_classic_address lib (cc_issuer input)" "is_valid_classic_address lib (cc_subject input)"
    and t: "hash64 (cc_schema_uid input)" and h: "uri_to_credential_hex lib (cc_uri input) = Inr h"
    and e: "expiration_of = Inr expiration"
    and tx: "tx = JObj Plain
         ([(lit ''TransactionType'', jlit ''CredentialCreate''),
           (lit ''Account'', JStr (cc_issuer input)),
           (lit ''Subject'', JStr (cc_subject input)),
           (lit ''CredentialType'', JStr (to_upper (cc_schema_uid input))),
           (lit ''URI'', JStr h)] @ expiration)"
    unfolding build_credential_create_def expiration_of_def [symmetric]
    by (auto simp: rbind_eq_Inr assert_classic_address_Inr schema_uid_to_credential_type_Inr)
  have "credential_hex_to_uri lib h = Inr (cc_uri input)"
    by (rule uri_hex_roundtrip [OF h assms(2,3)])
  then show ?thesis
    using a t ex [OF e]
    by (auto simp: tx validate_credential_create_def prop_of_JObj type_to_uid_upper
        assert_classic_address_def)
qed

lemma built_accept_accepted:
  "build_credential_accept lib input = Inr tx \<Longrightarrow>
     validate_credential_accept lib tx = Inr (Credential_Accept (ca_schema_uid input))"
  by (auto simp: build_credential_accept_def validate_credential_accept_def res_simps
      assert_classic_address_Inr schema_uid_to_credential_type_Inr prop_of_JObj type_to_uid_upper
      assert_classic_address_def)

lemma built_delete_accepted:
  "build_credential_delete lib input = Inr tx \<Longrightarrow>
     validate_credential_delete lib tx = Inr (Credential_Delete (cd_schema_uid input))"
  by (cases "cd_account input = cd_issuer input"; cases "cd_account input = cd_subject input")
    (auto simp: build_credential_delete_def validate_credential_delete_def res_simps Let_def
      assert_classic_address_Inr schema_uid_to_credential_type_Inr prop_of_JObj type_to_uid_upper
      assert_classic_address_def)

text \<open>
  A deletion names the issuer unless the account is the issuer, and the subject unless the account
  is the subject; when the account is both it names the subject. The account, with what the
  transaction leaves out, always identifies issuer and subject.
\<close>

definition named_or :: "jsval \<Rightarrow> jstr \<Rightarrow> jstr" where
  "named_or v account = (case v of JStr s \<Rightarrow> s | _ \<Rightarrow> account)"

lemma built_delete_identifies:
  "build_credential_delete lib input = Inr tx \<Longrightarrow>
     get tx ''Account'' = JStr (cd_account input) \<and>
     named_or (get tx ''Issuer'') (cd_account input) = cd_issuer input \<and>
     named_or (get tx ''Subject'') (cd_account input) = cd_subject input \<and>
     (get tx ''Issuer'' \<noteq> JUndef \<or> get tx ''Subject'' \<noteq> JUndef)"
  by (cases "cd_account input = cd_issuer input"; cases "cd_account input = cd_subject input")
    (auto simp: build_credential_delete_def res_simps Let_def prop_of_JObj named_or_def)

lemma canonical_schema_text:
  assumes "encode_schema lib v = Inr bytes" and "well_formed t" and "bytes = encode_utf8 t"
    and "strip_bom bytes = bytes"
  shows "decode_schema_text bytes = t"
  using assms by (simp add: decode_schema_text_def text_decode_encode)

end
