(* ===== verification/Effects.thy ===== *)
theory Effects
  imports Prelude
begin

text \<open>
  Code with effects: a function of the history of the outside world that returns, if it returns,
  a value or an error and the new history. The answers of the outside world are functions of the
  history. \<open>None\<close> is a call that never returns.
\<close>

type_synonym ('e, 'w, 'a) io = "'w \<Rightarrow> (('e + 'a) \<times> 'w) option"

definition io_return :: "'a \<Rightarrow> ('e, 'w, 'a) io" where
  "io_return x = (\<lambda>w. Some (Inr x, w))"

definition io_lift :: "'e + 'a \<Rightarrow> ('e, 'w, 'a) io" where
  "io_lift m = (\<lambda>w. Some (m, w))"

definition io_bind :: "('e, 'w, 'a) io \<Rightarrow> ('a \<Rightarrow> ('e, 'w, 'b) io) \<Rightarrow> ('e, 'w, 'b) io" where
  "io_bind m f = (\<lambda>w. case m w of
     None \<Rightarrow> None
   | Some (Inl e, w') \<Rightarrow> Some (Inl e, w')
   | Some (Inr x, w') \<Rightarrow> f x w')"

text \<open>\<open>try m catch h\<close>\<close>

definition io_catch :: "('e, 'w, 'a) io \<Rightarrow> ('e \<Rightarrow> ('e, 'w, 'a) io) \<Rightarrow> ('e, 'w, 'a) io" where
  "io_catch m h = (\<lambda>w. case m w of
     None \<Rightarrow> None
   | Some (Inl e, w') \<Rightarrow> h e w'
   | Some (Inr x, w') \<Rightarrow> Some (Inr x, w'))"

text \<open>An effect: it is recorded, and its answer depends on the history before it.\<close>

definition io_effect :: "'ev \<Rightarrow> ('ev list \<Rightarrow> 'e + 'a) \<Rightarrow> ('e, 'ev list, 'a) io" where
  "io_effect ev answer = (\<lambda>w. Some (answer w, w @ [ev]))"

definition io_read :: "('w \<Rightarrow> 'a) \<Rightarrow> ('e, 'w, 'a) io" where
  "io_read f = (\<lambda>w. Some (Inr (f w), w))"

definition io_modify :: "('w \<Rightarrow> 'w) \<Rightarrow> ('e, 'w, unit) io" where
  "io_modify f = (\<lambda>w. Some (Inr (), f w))"

text \<open>\<open>Promise.allSettled\<close> of one promise: its value or its reason, never thrown.\<close>

definition io_settle :: "('e, 'w, 'a) io \<Rightarrow> ('e, 'w, 'e + 'a) io" where
  "io_settle m = (\<lambda>w. case m w of None \<Rightarrow> None | Some (r, w') \<Rightarrow> Some (Inr r, w'))"

lemmas io_defs = io_return_def io_lift_def io_bind_def io_catch_def io_effect_def io_read_def

section \<open>Assertions\<close>

text \<open>
  \<open>io_ok P m Q E\<close>: from a history with \<open>P\<close>, if \<open>m\<close> returns a value then \<open>Q\<close> holds of it and of the new
  history, and if it throws then \<open>E\<close> holds of the new history.
\<close>

named_theorems io_rules \<open>rules that decompose assertions about code with effects\<close>

definition io_ok ::
  "('w \<Rightarrow> bool) \<Rightarrow> ('e, 'w, 'a) io \<Rightarrow> ('a \<Rightarrow> 'w \<Rightarrow> bool) \<Rightarrow> ('w \<Rightarrow> bool) \<Rightarrow> bool" where
  "io_ok P m Q E \<longleftrightarrow>
     (\<forall>w r w'. P w \<and> m w = Some (r, w') \<longrightarrow> (case r of Inl _ \<Rightarrow> E w' | Inr x \<Rightarrow> Q x w'))"

lemma io_okD:
  "io_ok P m Q E \<Longrightarrow> P w \<Longrightarrow> m w = Some (Inr x, w') \<Longrightarrow> Q x w'"
  "io_ok P m Q E \<Longrightarrow> P w \<Longrightarrow> m w = Some (Inl e, w') \<Longrightarrow> E w'"
  unfolding io_ok_def by fastforce+

lemma io_ok_weaken:
  "io_ok P m Q E \<Longrightarrow> (\<And>w. P' w \<Longrightarrow> P w) \<Longrightarrow> (\<And>x w. Q x w \<Longrightarrow> Q' x w) \<Longrightarrow> (\<And>w. E w \<Longrightarrow> E' w) \<Longrightarrow>
     io_ok P' m Q' E'"
  unfolding io_ok_def by (fastforce split: sum.splits)

lemma io_ok_return: "(\<And>w. P w \<Longrightarrow> Q x w) \<Longrightarrow> io_ok P (io_return x) Q E"
  by (simp add: io_ok_def io_return_def)

lemma io_ok_lift:
  "(\<And>x w. m = Inr x \<Longrightarrow> P w \<Longrightarrow> Q x w) \<Longrightarrow> (\<And>e w. m = Inl e \<Longrightarrow> P w \<Longrightarrow> E w) \<Longrightarrow> io_ok P (io_lift m) Q E"
  by (auto simp: io_ok_def io_lift_def split: sum.splits)

lemma io_ok_read: "(\<And>w. P w \<Longrightarrow> Q (f w) w) \<Longrightarrow> io_ok P (io_read f) Q E"
  by (simp add: io_ok_def io_read_def)

lemma io_ok_effect:
  "(\<And>w x. P w \<Longrightarrow> answer w = Inr x \<Longrightarrow> Q x (w @ [ev])) \<Longrightarrow>
   (\<And>w e. P w \<Longrightarrow> answer w = Inl e \<Longrightarrow> E (w @ [ev])) \<Longrightarrow> io_ok P (io_effect ev answer) Q E"
  by (auto simp: io_ok_def io_effect_def split: sum.splits)

lemma io_ok_bind:
  "io_ok P m R E \<Longrightarrow> (\<And>x. io_ok (R x) (f x) Q E) \<Longrightarrow> io_ok P (io_bind m f) Q E"
  unfolding io_ok_def io_bind_def
  by (fastforce split: option.splits sum.splits prod.splits)

lemma io_ok_catch:
  "io_ok P m Q R \<Longrightarrow> (\<And>e. io_ok R (h e) Q E) \<Longrightarrow> io_ok P (io_catch m h) Q E"
  unfolding io_ok_def io_catch_def
  by (fastforce split: option.splits sum.splits prod.splits)

lemma io_ok_if:
  "(c \<Longrightarrow> io_ok P m Q E) \<Longrightarrow> (\<not> c \<Longrightarrow> io_ok P n Q E) \<Longrightarrow> io_ok P (if c then m else n) Q E"
  by simp

lemma io_ok_option:
  "(v = None \<Longrightarrow> io_ok P n Q E) \<Longrightarrow> (\<And>x. v = Some x \<Longrightarrow> io_ok P (f x) Q E) \<Longrightarrow>
     io_ok P (case v of None \<Rightarrow> n | Some x \<Rightarrow> f x) Q E"
  by (cases v) simp_all

section \<open>Values\<close>

text \<open>\<open>io_gives m Q\<close>: every value that \<open>m\<close> returns satisfies \<open>Q\<close>.\<close>

definition io_gives :: "('e, 'w, 'a) io \<Rightarrow> ('a \<Rightarrow> bool) \<Rightarrow> bool" where
  "io_gives m Q \<longleftrightarrow> (\<forall>w x w'. m w = Some (Inr x, w') \<longrightarrow> Q x)"

definition io_result :: "('e, 'w, 'a) io \<Rightarrow> 'a \<Rightarrow> bool" where
  "io_result m x \<longleftrightarrow> (\<exists>w w'. m w = Some (Inr x, w'))"

lemma io_gives_return: "Q x \<Longrightarrow> io_gives (io_return x) Q"
  by (simp add: io_gives_def io_return_def)

lemma io_gives_throw: "io_gives (io_lift (Inl e)) Q"
  by (simp add: io_gives_def io_lift_def)

lemma io_gives_lift: "(\<And>x. v = Inr x \<Longrightarrow> Q x) \<Longrightarrow> io_gives (io_lift v) Q"
  by (simp add: io_gives_def io_lift_def)

lemma io_gives_bind: "(\<And>x. io_result m x \<Longrightarrow> io_gives (f x) Q) \<Longrightarrow> io_gives (io_bind m f) Q"
  by (fastforce simp: io_gives_def io_bind_def io_result_def split: option.splits sum.splits)

lemma io_gives_catch: "io_gives m Q \<Longrightarrow> (\<And>e. io_gives (h e) Q) \<Longrightarrow> io_gives (io_catch m h) Q"
  by (fastforce simp: io_gives_def io_catch_def split: option.splits sum.splits)

lemma io_gives_mono: "io_gives m Q \<Longrightarrow> (\<And>x. Q x \<Longrightarrow> Q' x) \<Longrightarrow> io_gives m Q'"
  by (auto simp: io_gives_def)

lemma io_result_lift: "io_result (io_lift v) x \<longleftrightarrow> v = Inr x"
  by (auto simp: io_result_def io_lift_def)

section \<open>Returning\<close>

text \<open>Code that returns, with a value or an error, from every history.\<close>

definition io_total :: "('e, 'w, 'a) io \<Rightarrow> bool" where
  "io_total m \<longleftrightarrow> (\<forall>w. m w \<noteq> None)"

lemma io_total_basic [io_rules]:
  "io_total (io_return x)" "io_total (io_lift n)" "io_total (io_read g)"
  "io_total (io_effect ev answer)"
  by (simp_all add: io_total_def io_defs)

lemma io_total_modify [io_rules]: "io_total (io_modify f)"
  by (simp add: io_total_def io_modify_def)

lemma io_total_settle [io_rules]: "io_total m \<Longrightarrow> io_total (io_settle m)"
  by (auto simp: io_total_def io_settle_def split: option.splits)

lemma io_total_bind [io_rules]:
  "io_total m \<Longrightarrow> (\<And>x. io_total (f x)) \<Longrightarrow> io_total (io_bind m f)"
  by (auto simp: io_total_def io_bind_def split: option.splits sum.splits)

lemma io_total_catch [io_rules]:
  "io_total m \<Longrightarrow> (\<And>e. io_total (h e)) \<Longrightarrow> io_total (io_catch m h)"
  by (auto simp: io_total_def io_catch_def split: option.splits sum.splits)

lemma io_total_if [io_rules]: "io_total m \<Longrightarrow> io_total n \<Longrightarrow> io_total (if c then m else n)"
  by simp

lemma io_total_option [io_rules]:
  "io_total n \<Longrightarrow> (\<And>x. io_total (f x)) \<Longrightarrow> io_total (case v of None \<Rightarrow> n | Some x \<Rightarrow> f x)"
  by (cases v) simp_all

end
