(* ===== verification/Sdk_Submission.thy ===== *)
theory Sdk_Submission
  imports Sdk_Encoding Effects
begin

text \<open>
  Signing and reliable submission (\<open>packages/sdk/src/submission.ts\<close>): the check that a signed
  transaction is the reviewed one, the journal, the submission and the polling for its outcome.
  Main results: nothing is sent before its recovery entry is journaled, a signed transaction that
  passes is the reviewed one, and polling returns once the clock passes the deadline.
\<close>

section \<open>Data\<close>

record signer_result =
  signer_hash :: jstr
  signer_blob :: jstr

datatype journal_stage = Prepared | Signed | Submitted | Validated | Expired_Stage | Pending_Stage | Failed

text \<open>Absent optional numbers are \<open>JUndef\<close>; the time stamp and the message are left out.\<close>

record journal_entry =
  entry_operation :: jstr
  entry_stage :: journal_stage
  entry_tx_hash :: "jstr option"
  entry_last_ledger_sequence :: jsval
  entry_engine_result :: "jstr option"
  entry_ledger_index :: "int option"

record validated_signature =
  vs_operation :: jstr
  vs_transaction :: jsval
  vs_tx_blob :: jstr
  vs_tx_hash :: jstr
  vs_last_ledger_sequence :: jsval

record submission_options =
  opt_operation_id :: "jstr option"
  opt_timeout_ms :: "int option"
  opt_allow_refresh :: bool
  opt_on_validated_signature :: bool
  opt_before_submit :: bool

datatype tx_status = St_Validated | St_Pending | St_Expired | St_Not_Found

record transaction_status =
  ts_status :: tx_status
  ts_tx_hash :: jstr
  ts_last_ledger_sequence :: "int option"
  ts_ledger_index :: "int option"
  ts_transaction_result :: "jstr option"

record submission_result =
  sr_status :: transaction_status
  sr_operation :: jstr
  sr_engine_result :: "jstr option"

text \<open>
  What a submission does to the outside world, in order. A journal entry that could not be written
  is \<open>Append_Failed\<close>.
\<close>

datatype effect =
    Appended journal_entry
  | Append_Failed journal_entry
  | Asked_Signer jsval
  | Called_On_Signature validated_signature
  | Called_Before_Submit validated_signature
  | Sent jstr
  | Asked_Tx jstr
  | Asked_Ledger
  | Slept

datatype tx_reply = Tx_Result jsval | Tx_Error jsval

text \<open>The answers of the outside world, functions of what happened before.\<close>

record submission_env =
  env_connected :: "effect list \<Rightarrow> bool"
  env_append_ok :: "effect list \<Rightarrow> bool"
  env_sign :: "effect list \<Rightarrow> signer_result option"
  env_on_signature_ok :: "effect list \<Rightarrow> bool"
  env_before_submit_ok :: "effect list \<Rightarrow> bool"
  env_submit :: "effect list \<Rightarrow> jsval option"
  env_tx :: "effect list \<Rightarrow> tx_reply"
  env_ledger_current :: "effect list \<Rightarrow> jsval option"
  env_now :: "effect list \<Rightarrow> int"
  env_uuid :: "effect list \<Rightarrow> jstr"
  env_autofill :: "jsval \<Rightarrow> jsval option"

type_synonym 'a sub = "(serr, effect list, 'a) io"

section \<open>Reading values\<close>

definition as_positive_integer :: "jsval \<Rightarrow> int option" where
  "as_positive_integer v = (case v of JNum (NInt n) \<Rightarrow> if 0 < n then Some n else None | _ \<Rightarrow> None)"

definition read_string :: "jsval \<Rightarrow> string \<Rightarrow> jstr option" where
  "read_string input key = (case get input key of JStr s \<Rightarrow> Some s | _ \<Rightarrow> None)"

definition read_transaction_result :: "jsval \<Rightarrow> jstr option" where
  "read_transaction_result meta =
     (case meta of JStr s \<Rightarrow> None | _ \<Rightarrow> read_string meta ''TransactionResult'')"

fun contains :: "jstr \<Rightarrow> jstr \<Rightarrow> bool" where
  "contains sub [] = (sub = [])"
| "contains sub (c # cs) = (take (length sub) (c # cs) = sub \<or> contains sub cs)"

definition is_transaction_not_found :: "jsval \<Rightarrow> bool" where
  "is_transaction_not_found error \<longleftrightarrow>
     (is_record error \<and> is_record (get error ''data'') \<and>
        get (get error ''data'') ''error'' = jlit ''txnNotFound'') \<or>
     (case read_string error ''message'' of None \<Rightarrow> False | Some m \<Rightarrow> contains (lit ''txnNotFound'') m)"

definition without_signature_fields :: "jsval \<Rightarrow> jsval" where
  "without_signature_fields input = JObj Plain
     (filter (\<lambda>(k, v). k \<notin> set (map lit [''Signers'', ''SigningPubKey'', ''TxnSignature'']))
       (entries_of input))"

definition without_last_ledger_sequence :: "jsval \<Rightarrow> jsval" where
  "without_last_ledger_sequence input = JObj Plain
     (filter (\<lambda>(k, v). k \<noteq> lit ''LastLedgerSequence'') (entries_of input))"

section \<open>Checks\<close>

definition XRPL_JS_5_MAX_URI_HEX_CHARACTERS :: nat where "XRPL_JS_5_MAX_URI_HEX_CHARACTERS = 256"

definition assert_xrpl_js5_compatibility :: "jsval \<Rightarrow> serr + unit" where
  "assert_xrpl_js5_compatibility transaction =
     (if get transaction ''TransactionType'' = jlit ''CredentialCreate'' \<and>
         string_that (\<lambda>uri. XRPL_JS_5_MAX_URI_HEX_CHARACTERS < length uri) (get transaction ''URI'')
      then sdk_fail INVALID_URI else Inr ())"

definition assert_signer_result :: "signer_result \<Rightarrow> serr + unit" where
  "assert_signer_result result =
     (if \<not> hash64_any (signer_hash result) \<or> \<not> hex_pattern (signer_blob result)
      then sdk_fail INVALID_SIGNER_RESULT else Inr ())"

definition assert_valid_single_signature :: "'x sdk_lib_scheme \<Rightarrow> jsval \<Rightarrow> jstr \<Rightarrow> serr + unit" where
  "assert_valid_single_signature lib decoded tx_blob =
     (if has_own (entries_of decoded) (lit ''Signers'') then sdk_fail INVALID_SIGNED_BLOB
      else if \<not> string_that (\<lambda>s. s \<noteq> []) (get decoded ''SigningPubKey'') \<or>
              \<not> string_that (\<lambda>s. s \<noteq> []) (get decoded ''TxnSignature'')
      then sdk_fail INVALID_SIGNED_BLOB
      else if verify_signature lib tx_blob \<noteq> Some True then sdk_fail INVALID_SIGNED_BLOB
      else Inr ())"

definition assert_signed_transaction_matches ::
  "'x sdk_lib_scheme \<Rightarrow> jsval \<Rightarrow> jstr \<Rightarrow> bool \<Rightarrow> serr + jsval" where
  "assert_signed_transaction_matches lib prepared tx_blob allow_refresh =
     (case xrpl_decode lib tx_blob of
        None \<Rightarrow> sdk_fail INVALID_SIGNED_BLOB
      | Some decoded \<Rightarrow>
          rbind (assert_valid_single_signature lib decoded tx_blob) (\<lambda>_.
          let prepared_fields = without_signature_fields prepared;
              signed_fields = without_signature_fields decoded
          in
            if allow_refresh \<and> as_positive_integer (get signed_fields ''LastLedgerSequence'') = None
            then sdk_fail INVALID_SIGNED_BLOB
            else
              (let p = (if allow_refresh then without_last_ledger_sequence prepared_fields
                        else prepared_fields);
                   s = (if allow_refresh then without_last_ledger_sequence signed_fields
                        else signed_fields)
               in case (xrpl_encode lib p, xrpl_encode lib s) of
                    (Some ep, Some es) \<Rightarrow>
                      if ep \<noteq> es then sdk_fail INVALID_SIGNER_RESULT else Inr signed_fields
                  | _ \<Rightarrow> Inl OtherErr)))"

text \<open>The conditions on \<open>LastLedgerSequence\<close>, \<open>Sequence\<close> and \<open>Fee\<close>.\<close>

definition autofill_complete :: "jsval \<Rightarrow> bool" where
  "autofill_complete tx \<longleftrightarrow>
     as_positive_integer (get tx ''LastLedgerSequence'') \<noteq> None \<and>
     (case get tx ''Sequence'' of JNum (NInt n) \<Rightarrow> 0 \<le> n | _ \<Rightarrow> False) \<and>
     get tx ''Fee'' \<noteq> JUndef"

section \<open>Effects\<close>

definition append_entry :: "submission_env \<Rightarrow> journal_entry \<Rightarrow> unit sub" where
  "append_entry env entry = (\<lambda>t.
     if env_append_ok env t then Some (Inr (), t @ [Appended entry])
     else Some (Inl OtherErr, t @ [Append_Failed entry]))"

abbreviation entry_for ::
  "jstr \<Rightarrow> journal_stage \<Rightarrow> jstr option \<Rightarrow> jsval \<Rightarrow> jstr option \<Rightarrow> int option \<Rightarrow> journal_entry" where
  "entry_for operation stage hash lls engine index \<equiv>
     \<lparr>entry_operation = operation, entry_stage = stage, entry_tx_hash = hash,
      entry_last_ledger_sequence = lls, entry_engine_result = engine, entry_ledger_index = index\<rparr>"

definition get_current_ledger_index :: "submission_env \<Rightarrow> int sub" where
  "get_current_ledger_index env =
     io_effect Asked_Ledger (\<lambda>t.
       case env_ledger_current env t of
         None \<Rightarrow> Inl OtherErr
       | Some result \<Rightarrow>
           (case get result ''ledger_current_index'' of
              JNum (NInt n) \<Rightarrow> if n \<le> 0 \<or> uint32_max < n then sdk_fail LEDGER_CURRENT_INVALID else Inr n
            | _ \<Rightarrow> sdk_fail LEDGER_CURRENT_INVALID))"

abbreviation status_for ::
  "tx_status \<Rightarrow> jstr \<Rightarrow> int option \<Rightarrow> int option \<Rightarrow> jstr option \<Rightarrow> transaction_status" where
  "status_for st hash lls index result \<equiv>
     \<lparr>ts_status = st, ts_tx_hash = hash, ts_last_ledger_sequence = lls, ts_ledger_index = index,
      ts_transaction_result = result\<rparr>"

definition get_transaction_status ::
  "submission_env \<Rightarrow> jstr \<Rightarrow> int option \<Rightarrow> transaction_status sub" where
  "get_transaction_status env tx_hash lls =
     (if \<not> hash64_any tx_hash then io_lift (sdk_fail SUBMISSION_FAILED)
      else
        io_bind (io_effect (Asked_Tx (to_upper tx_hash)) (\<lambda>t.
          case env_tx env t of
            Tx_Result result \<Rightarrow>
              Inr (Some (if get result ''validated'' = JBool True
                then status_for St_Validated (to_upper tx_hash) lls
                       (as_positive_integer (get result ''ledger_index''))
                       (read_transaction_result (get result ''meta''))
                else status_for St_Pending (to_upper tx_hash) lls None None))
          | Tx_Error error \<Rightarrow>
              if is_transaction_not_found error then Inr None else Inl OtherErr)) (\<lambda>answer.
        case answer of
          Some status \<Rightarrow> io_return status
        | None \<Rightarrow>
            (case lls of
               None \<Rightarrow> io_return (status_for St_Not_Found (to_upper tx_hash) lls None None)
             | Some bound \<Rightarrow>
                 io_bind (get_current_ledger_index env) (\<lambda>current.
                   io_return (status_for (if bound < current then St_Expired else St_Not_Found)
                     (to_upper tx_hash) lls None None)))))"

definition assert_transaction_not_expired :: "submission_env \<Rightarrow> jsval \<Rightarrow> int sub" where
  "assert_transaction_not_expired env lls = (\<lambda>t.
     if \<not> env_connected env t then Some (sdk_fail CLIENT_NOT_CONNECTED, t)
     else case as_positive_integer lls of
       None \<Rightarrow> Some (sdk_fail INVALID_SIGNED_BLOB, t)
     | Some bound \<Rightarrow>
         io_bind (get_current_ledger_index env) (\<lambda>current.
           if bound < current then io_lift (sdk_fail TRANSACTION_EXPIRED) else io_return current) t)"

text \<open>The polling loop of \<open>waitForTransaction\<close>; it need not end when the clock stands still.\<close>

partial_function (option) poll_transaction ::
  "submission_env \<Rightarrow> jstr \<Rightarrow> int \<Rightarrow> int \<Rightarrow> effect list \<Rightarrow>
    ((serr + transaction_status) \<times> effect list) option" where
  "poll_transaction env tx_hash lls deadline t =
     (case get_transaction_status env tx_hash (Some lls) t of
        None \<Rightarrow> None
      | Some (Inl e, t') \<Rightarrow> Some (Inl e, t')
      | Some (Inr status, t') \<Rightarrow>
          if ts_status status = St_Validated \<or> ts_status status = St_Expired
          then Some (Inr status, t')
          else if deadline \<le> env_now env t'
          then Some (Inr (status\<lparr>ts_status := if ts_status status = St_Not_Found then St_Pending
                                   else ts_status status\<rparr>), t')
          else poll_transaction env tx_hash lls deadline (t' @ [Slept]))"

definition wait_for_transaction ::
  "submission_env \<Rightarrow> submission_options \<Rightarrow> jstr \<Rightarrow> int \<Rightarrow> transaction_status sub" where
  "wait_for_transaction env options tx_hash lls = (\<lambda>t.
     poll_transaction env tx_hash lls
       (env_now env t + (case opt_timeout_ms options of None \<Rightarrow> 60000 | Some ms \<Rightarrow> ms)) t)"

definition stage_of :: "tx_status \<Rightarrow> journal_stage" where
  "stage_of st = (case st of St_Validated \<Rightarrow> Validated | St_Expired \<Rightarrow> Expired_Stage
     | St_Pending \<Rightarrow> Pending_Stage | St_Not_Found \<Rightarrow> Pending_Stage)"

text \<open>
  The acknowledgement of the submission: its engine result, and whether rippled rejected the blob as
  malformed. Whatever goes wrong here, the transaction may be on its way: its entry becomes pending.
\<close>

definition acknowledge ::
  "submission_env \<Rightarrow> jstr \<Rightarrow> jstr \<Rightarrow> int \<Rightarrow> jsval option \<Rightarrow> (jstr option \<times> bool) sub" where
  "acknowledge env operation tx_hash lls reply =
     (let engine = (case reply of None \<Rightarrow> None | Some result \<Rightarrow> read_string result ''engine_result'') in
      io_catch
        (case reply of
           None \<Rightarrow> io_lift (Inl OtherErr)
         | Some result \<Rightarrow>
             io_bind (append_entry env
               (entry_for operation Submitted (Some tx_hash) (jint lls) engine None)) (\<lambda>_.
               if (case engine of None \<Rightarrow> False | Some r \<Rightarrow> take 3 r = lit ''tem'')
               then io_bind (append_entry env
                      (entry_for operation Failed (Some tx_hash) (jint lls) engine None))
                      (\<lambda>_. io_return (engine, True))
               else io_return (engine, False)))
        (\<lambda>_. io_bind (append_entry env
                (entry_for operation Pending_Stage (Some tx_hash) (jint lls) None None))
                (\<lambda>_. io_return (engine, False))))"

text \<open>The first network side effect. The reply is what the node answers in this history.\<close>

definition send_blob ::
  "submission_env \<Rightarrow> jstr \<Rightarrow> jstr \<Rightarrow> jstr \<Rightarrow> int \<Rightarrow> (jstr option \<times> bool) sub" where
  "send_blob env operation tx_blob tx_hash lls =
     io_bind (io_read (env_submit env)) (\<lambda>reply.
     io_bind (io_effect (Sent tx_blob) (\<lambda>_. Inr ())) (\<lambda>_.
     acknowledge env operation tx_hash lls reply))"

text \<open>Every entry point first checks that the client is connected.\<close>

definition connected :: "submission_env \<Rightarrow> 'a sub \<Rightarrow> 'a sub" where
  "connected env m = (\<lambda>t.
     if env_connected env t then m t else Some (sdk_fail CLIENT_NOT_CONNECTED, t))"

definition operation_id_of :: "submission_env \<Rightarrow> submission_options \<Rightarrow> jstr sub" where
  "operation_id_of env options = io_read (\<lambda>t.
     case opt_operation_id options of None \<Rightarrow> env_uuid env t | Some given \<Rightarrow> given)"

text \<open>The final online guard; when it throws, the entry of the signature is appended again.\<close>

definition guard_before_submit ::
  "submission_env \<Rightarrow> submission_options \<Rightarrow> validated_signature \<Rightarrow> unit sub" where
  "guard_before_submit env options signature =
     (if opt_before_submit options then
        io_catch
          (io_effect (Called_Before_Submit signature)
             (\<lambda>t. if env_before_submit_ok env t then Inr () else Inl OtherErr))
          (\<lambda>error. io_bind (append_entry env
              (entry_for (vs_operation signature) Signed (Some (vs_tx_hash signature))
                (vs_last_ledger_sequence signature) None None))
              (\<lambda>_. io_lift (Inl error)))
      else io_return ())"

text \<open>From the submission on: its acknowledgement, the polling and the last entry.\<close>

definition relay ::
  "submission_env \<Rightarrow> submission_options \<Rightarrow> jstr \<Rightarrow> jstr \<Rightarrow> jstr \<Rightarrow> int \<Rightarrow> submission_result sub" where
  "relay env options operation tx_blob tx_hash lls =
     io_bind (send_blob env operation tx_blob tx_hash lls) (\<lambda>sent.
       if snd sent
       then io_return \<lparr>sr_status = status_for St_Not_Found tx_hash (Some lls) None None,
                       sr_operation = operation, sr_engine_result = fst sent\<rparr>
       else
         io_bind (wait_for_transaction env options tx_hash lls) (\<lambda>status.
         io_bind (append_entry env
           (entry_for operation (stage_of (ts_status status)) (Some tx_hash) (jint lls)
             (ts_transaction_result status) (ts_ledger_index status))) (\<lambda>_.
         io_return \<lparr>sr_status = status, sr_operation = operation, sr_engine_result = fst sent\<rparr>)))"

text \<open>The blob, decoded and checked: its hash, its fields and its last ledger.\<close>

definition read_signed_blob :: "'x sdk_lib_scheme \<Rightarrow> jstr \<Rightarrow> serr + jstr \<times> jsval \<times> int" where
  "read_signed_blob lib tx_blob =
     (if \<not> hex_pattern tx_blob then sdk_fail INVALID_SIGNED_BLOB
      else case (xrpl_decode lib tx_blob, hash_signed_tx lib tx_blob) of
        (Some decoded, Some raw_hash) \<Rightarrow>
          rbind (assert_valid_single_signature lib decoded tx_blob) (\<lambda>_.
          case as_positive_integer (get decoded ''LastLedgerSequence'') of
            None \<Rightarrow> sdk_fail INVALID_SIGNED_BLOB
          | Some lls \<Rightarrow> Inr (to_upper raw_hash, decoded, lls))
      | _ \<Rightarrow> sdk_fail INVALID_SIGNED_BLOB)"

definition submit_signed_transaction ::
  "'x sdk_lib_scheme \<Rightarrow> submission_env \<Rightarrow> jstr \<Rightarrow> submission_options \<Rightarrow> submission_result sub" where
  "submit_signed_transaction lib env tx_blob options = connected env
     (io_bind (operation_id_of env options) (\<lambda>operation.
      io_bind (io_lift (read_signed_blob lib tx_blob)) (\<lambda>(tx_hash, decoded, lls).
      io_bind (append_entry env (entry_for operation Signed (Some tx_hash) (jint lls) None None)) (\<lambda>_.
      io_bind (guard_before_submit env options
        \<lparr>vs_operation = operation, vs_transaction = without_signature_fields decoded,
         vs_tx_blob = tx_blob, vs_tx_hash = tx_hash, vs_last_ledger_sequence = jint lls\<rparr>) (\<lambda>_.
      relay env options operation tx_blob tx_hash lls)))))"

section \<open>Preparing and signing\<close>

definition autofill_xcs_transaction :: "submission_env \<Rightarrow> jsval \<Rightarrow> jsval sub" where
  "autofill_xcs_transaction env transaction = connected env
     (io_lift (rbind (assert_xrpl_js5_compatibility transaction) (\<lambda>_.
        case env_autofill env transaction of
          None \<Rightarrow> Inl OtherErr
        | Some prepared \<Rightarrow>
            if \<not> autofill_complete prepared then sdk_fail AUTOFILL_INCOMPLETE else Inr prepared)))"

text \<open>What the wallet returned, checked against the prepared transaction.\<close>

definition check_signer_answer ::
  "'x sdk_lib_scheme \<Rightarrow> submission_options \<Rightarrow> jsval \<Rightarrow> signer_result option \<Rightarrow> serr + jstr \<times> jstr \<times> jsval" where
  "check_signer_answer lib options transaction answer =
     (case answer of
        None \<Rightarrow> Inl OtherErr
      | Some answered \<Rightarrow>
          rbind (assert_signer_result answered) (\<lambda>_.
          case hash_signed_tx lib (signer_blob answered) of
            None \<Rightarrow> Inl OtherErr
          | Some raw_hash \<Rightarrow>
              if to_upper raw_hash \<noteq> to_upper (signer_hash answered)
              then sdk_fail INVALID_SIGNER_RESULT
              else
                rbind (assert_signed_transaction_matches lib transaction (signer_blob answered)
                         (opt_allow_refresh options)) (\<lambda>signed_transaction.
                  Inr (signer_blob answered, to_upper raw_hash, signed_transaction))))"

definition failing_entry :: "submission_env \<Rightarrow> jstr \<Rightarrow> jsval \<Rightarrow> 'a sub \<Rightarrow> 'a sub" where
  "failing_entry env operation lls m =
     io_catch m (\<lambda>error. io_bind (append_entry env (entry_for operation Failed None lls None None))
       (\<lambda>_. io_lift (Inl error)))"

text \<open>The \<open>try\<close> block: the wallet's signature and the callback on it.\<close>

definition obtain_signature ::
  "'x sdk_lib_scheme \<Rightarrow> submission_env \<Rightarrow> submission_options \<Rightarrow> jstr \<Rightarrow> jsval \<Rightarrow> jstr sub" where
  "obtain_signature lib env options operation transaction =
     io_bind
       (failing_entry env operation (get transaction ''LastLedgerSequence'')
         (io_effect (Asked_Signer transaction)
           (\<lambda>t. check_signer_answer lib options transaction (env_sign env t))))
       (\<lambda>(tx_blob, tx_hash, signed_transaction).
        io_bind
          (if opt_on_validated_signature options then
             failing_entry env operation (get signed_transaction ''LastLedgerSequence'')
               (io_effect (Called_On_Signature
                    \<lparr>vs_operation = operation, vs_transaction = signed_transaction,
                     vs_tx_blob = tx_blob, vs_tx_hash = tx_hash,
                     vs_last_ledger_sequence = get signed_transaction ''LastLedgerSequence''\<rparr>)
                  (\<lambda>t. if env_on_signature_ok env t then Inr () else Inl OtherErr))
           else io_return ())
          (\<lambda>_. io_return tx_blob))"

definition sign_prepared_and_submit ::
  "'x sdk_lib_scheme \<Rightarrow> submission_env \<Rightarrow> jsval \<Rightarrow> submission_options \<Rightarrow> submission_result sub" where
  "sign_prepared_and_submit lib env transaction options = connected env
     (io_bind (io_lift (assert_xrpl_js5_compatibility transaction)) (\<lambda>_.
      io_bind (io_lift (if autofill_complete transaction then Inr () else sdk_fail AUTOFILL_INCOMPLETE)) (\<lambda>_.
      io_bind (operation_id_of env options) (\<lambda>operation.
      io_bind (append_entry env
        (entry_for operation Prepared None (get transaction ''LastLedgerSequence'') None None)) (\<lambda>_.
      io_bind (obtain_signature lib env options operation transaction) (\<lambda>tx_blob.
      submit_signed_transaction lib env tx_blob
        (options\<lparr>opt_operation_id := Some operation\<rparr>)))))))"

definition prepare_sign_and_submit ::
  "'x sdk_lib_scheme \<Rightarrow> submission_env \<Rightarrow> jsval \<Rightarrow> submission_options \<Rightarrow> submission_result sub" where
  "prepare_sign_and_submit lib env transaction options =
     io_bind (autofill_xcs_transaction env transaction) (\<lambda>prepared.
       sign_prepared_and_submit lib env prepared options)"

section \<open>Steps that send nothing\<close>

definition quiet :: "effect list \<Rightarrow> effect list \<Rightarrow> bool" where
  "quiet t h \<longleftrightarrow> (\<exists>new. h = t @ new \<and> (\<forall>blob. Sent blob \<notin> set new))"

definition io_quiet :: "'a sub \<Rightarrow> bool" where
  "io_quiet m \<longleftrightarrow> (\<forall>t r h. m t = Some (r, h) \<longrightarrow> quiet t h)"

named_theorems quiet_intros \<open>steps that send nothing\<close>

lemma quiet_refl: "quiet t t"
  by (simp add: quiet_def)

lemma quiet_trans: "quiet t u \<Longrightarrow> quiet u h \<Longrightarrow> quiet t h"
  by (auto simp: quiet_def)

lemma quiet_snoc: "(\<And>blob. ev \<noteq> Sent blob) \<Longrightarrow> quiet t (t @ [ev])"
  by (auto simp: quiet_def)

lemma io_quiet_basic [quiet_intros]:
  "io_quiet (io_return x)" "io_quiet (io_lift n)" "io_quiet (io_read g)"
  by (simp_all add: io_quiet_def io_defs quiet_refl)

lemma io_quiet_effect [quiet_intros]:
  "(\<And>blob. ev \<noteq> Sent blob) \<Longrightarrow> io_quiet (io_effect ev answer)"
  by (auto simp: io_quiet_def io_effect_def intro: quiet_snoc)

lemma io_quiet_bind [quiet_intros]:
  assumes "io_quiet m" "\<And>x. io_quiet (f x)"
  shows "io_quiet (io_bind m f)"
  using assms unfolding io_quiet_def io_bind_def
  by (fastforce split: option.splits sum.splits prod.splits elim: quiet_trans)

lemma io_quiet_catch [quiet_intros]:
  assumes "io_quiet m" "\<And>e. io_quiet (f e)"
  shows "io_quiet (io_catch m f)"
  using assms unfolding io_quiet_def io_catch_def
  by (fastforce split: option.splits sum.splits prod.splits elim: quiet_trans)

lemma io_quiet_if [quiet_intros]: "io_quiet m \<Longrightarrow> io_quiet n \<Longrightarrow> io_quiet (if c then m else n)"
  by simp

lemma io_quiet_option [quiet_intros]:
  "io_quiet n \<Longrightarrow> (\<And>x. io_quiet (f x)) \<Longrightarrow> io_quiet (case v of None \<Rightarrow> n | Some x \<Rightarrow> f x)"
  by (cases v) simp_all

lemma append_entry_quiet [quiet_intros]: "io_quiet (append_entry env entry)"
  by (auto simp: io_quiet_def append_entry_def intro: quiet_snoc split: if_splits)

lemma get_transaction_status_quiet [quiet_intros]:
  "io_quiet (get_transaction_status env tx_hash lls)"
  unfolding get_transaction_status_def get_current_ledger_index_def
  by (intro quiet_intros) simp_all

text \<open>What a final status rests on: the replies to the requests that the status reports.\<close>

definition seen_validated :: "submission_env \<Rightarrow> effect list \<Rightarrow> jstr \<Rightarrow> jstr option \<Rightarrow> bool" where
  "seen_validated env h tx_hash outcome \<longleftrightarrow>
     (\<exists>pre post result. h = pre @ Asked_Tx tx_hash # post \<and>
        env_tx env pre = Tx_Result result \<and> get result ''validated'' = JBool True \<and>
        outcome = read_transaction_result (get result ''meta''))"

definition seen_expired :: "submission_env \<Rightarrow> effect list \<Rightarrow> jstr \<Rightarrow> int \<Rightarrow> bool" where
  "seen_expired env h tx_hash lls \<longleftrightarrow>
     (\<exists>pre post error reply n. h = pre @ Asked_Tx tx_hash # Asked_Ledger # post \<and>
        env_tx env pre = Tx_Error error \<and> is_transaction_not_found error \<and>
        env_ledger_current env (pre @ [Asked_Tx tx_hash]) = Some reply \<and>
        get reply ''ledger_current_index'' = JNum (NInt n) \<and> lls < n)"

definition confirmed :: "submission_env \<Rightarrow> effect list \<Rightarrow> int \<Rightarrow> transaction_status \<Rightarrow> bool" where
  "confirmed env h lls status \<longleftrightarrow>
     (ts_status status = St_Validated \<longrightarrow>
        seen_validated env h (ts_tx_hash status) (ts_transaction_result status)) \<and>
     (ts_status status = St_Expired \<longrightarrow> seen_expired env h (ts_tx_hash status) lls)"

lemma seen_validatedI:
  "env_tx env t = Tx_Result result \<Longrightarrow> get result ''validated'' = JBool True \<Longrightarrow>
     seen_validated env (t @ [Asked_Tx tx_hash]) tx_hash (read_transaction_result (get result ''meta''))"
  unfolding seen_validated_def by (intro exI [of _ t] exI [of _ "[]"] exI [of _ result]) simp

lemma seen_expiredI:
  "env_tx env t = Tx_Error error \<Longrightarrow> is_transaction_not_found error \<Longrightarrow>
   env_ledger_current env (t @ [Asked_Tx tx_hash]) = Some reply \<Longrightarrow>
   get reply ''ledger_current_index'' = JNum (NInt n) \<Longrightarrow> lls < n \<Longrightarrow>
     seen_expired env (t @ [Asked_Tx tx_hash, Asked_Ledger]) tx_hash lls"
  unfolding seen_expired_def by (intro exI [of _ t] exI [of _ "[]"] exI) auto

lemma seen_append:
  "seen_validated env h tx_hash outcome \<Longrightarrow> seen_validated env (h @ new) tx_hash outcome"
  "seen_expired env h tx_hash lls \<Longrightarrow> seen_expired env (h @ new) tx_hash lls"
  unfolding seen_validated_def seen_expired_def by (elim exE conjE, simp, blast)+

lemma confirmed_append: "confirmed env h lls status \<Longrightarrow> confirmed env (h @ new) lls status"
  by (simp add: confirmed_def seen_append)

lemma confirmed_other:
  "ts_status status \<notin> {St_Validated, St_Expired} \<Longrightarrow> confirmed env h lls status"
  by (simp add: confirmed_def)

lemma get_transaction_status_confirmed:
  assumes "get_transaction_status env tx_hash (Some lls) t = Some (Inr status, h)"
  shows "confirmed env h lls status \<and> ts_tx_hash status = to_upper tx_hash"
  using assms
  unfolding get_transaction_status_def get_current_ledger_index_def confirmed_def
  by (auto simp: io_defs intro: seen_validatedI seen_expiredI split: if_splits tx_reply.splits option.splits jsval.splits jnum.splits sum.splits)

definition poll_outcome ::
  "submission_env \<Rightarrow> jstr \<Rightarrow> int \<Rightarrow> effect list \<Rightarrow> (serr + transaction_status) \<times> effect list \<Rightarrow> bool" where
  "poll_outcome env tx_hash lls t y \<longleftrightarrow>
     quiet t (snd y) \<and> (\<forall>status. fst y = Inr status \<longrightarrow>
       confirmed env (snd y) lls status \<and> ts_tx_hash status = to_upper tx_hash)"

lemma poll_transaction_outcome:
  "poll_transaction env tx_hash lls deadline t = Some y \<Longrightarrow> poll_outcome env tx_hash lls t y"
proof (induction rule: poll_transaction.raw_induct [rotated 1, consumes 1])
  case (1 poll env tx_hash lls deadline t y)
  obtain r1 t1 where st: "get_transaction_status env tx_hash (Some lls) t = Some (r1, t1)"
    using 1(2) by (auto split: option.splits)
  have first: "quiet t t1"
    using get_transaction_status_quiet st by (auto simp: io_quiet_def)
  show ?case
  proof (cases r1)
    case (Inl e)
    then show ?thesis using 1(2) st first by (auto simp: poll_outcome_def)
  next
    case (Inr status)
    note seen = get_transaction_status_confirmed [OF st [unfolded Inr]]
    show ?thesis
    proof (cases "ts_status status = St_Validated \<or> ts_status status = St_Expired \<or>
                  deadline \<le> env_now env t1")
      case True
      then show ?thesis
        using 1(2) st Inr first seen
        by (auto simp: poll_outcome_def confirmed_def split: if_splits)
    next
      case False
      then have "poll env tx_hash lls deadline (t1 @ [Slept]) = Some y"
        using 1(2) st Inr by simp
      then show ?thesis
        using 1(1) first quiet_snoc [of Slept t1]
        unfolding poll_outcome_def by (blast intro: quiet_trans)
    qed
  qed
qed

lemma wait_for_transaction_outcome:
  "wait_for_transaction env options tx_hash lls t = Some y \<Longrightarrow> poll_outcome env tx_hash lls t y"
  unfolding wait_for_transaction_def by (rule poll_transaction_outcome)

lemma wait_for_transaction_quiet [quiet_intros]:
  "io_quiet (wait_for_transaction env options tx_hash lls)"
  unfolding io_quiet_def using wait_for_transaction_outcome by (fastforce simp: poll_outcome_def)

section \<open>Returning\<close>

lemma append_entry_total [io_rules]: "io_total (append_entry env entry)"
  by (simp add: io_total_def append_entry_def)

lemma get_transaction_status_total [io_rules]: "io_total (get_transaction_status env tx_hash lls)"
  unfolding get_transaction_status_def get_current_ledger_index_def
  by (intro io_rules)

text \<open>The clock passes every deadline after finitely many effects.\<close>

definition clock_advances :: "submission_env \<Rightarrow> bool" where
  "clock_advances env \<longleftrightarrow> (\<forall>deadline. \<exists>n. \<forall>t. n \<le> length t \<longrightarrow> deadline \<le> env_now env t)"

lemma poll_transaction_returns:
  assumes "\<And>t. n \<le> length t \<Longrightarrow> deadline \<le> env_now env t"
  shows "poll_transaction env tx_hash lls deadline t \<noteq> None"
proof (induction "n - length t" arbitrary: t rule: less_induct)
  case less
  obtain r t' where st: "get_transaction_status env tx_hash (Some lls) t = Some (r, t')"
    using get_transaction_status_total unfolding io_total_def by fast
  have len: "length t \<le> length t'"
    using get_transaction_status_quiet st by (fastforce simp: io_quiet_def quiet_def)
  show ?case
  proof (cases "n \<le> length t'")
    case True
    then show ?thesis
      using assms [of t'] st by (subst poll_transaction.simps) (simp split: sum.splits)
  next
    case False
    then have "poll_transaction env tx_hash lls deadline (t' @ [Slept]) \<noteq> None"
      using less [of "t' @ [Slept]"] len by simp
    then show ?thesis
      using st by (subst poll_transaction.simps) (simp split: sum.splits)
  qed
qed

lemma wait_for_transaction_returns:
  "clock_advances env \<Longrightarrow> io_total (wait_for_transaction env options tx_hash lls)"
  unfolding clock_advances_def io_total_def wait_for_transaction_def
  using poll_transaction_returns by metis

lemma send_blob_total [io_rules]: "io_total (send_blob env operation tx_blob tx_hash lls)"
  unfolding send_blob_def acknowledge_def Let_def by (intro io_rules)

lemma connected_total [io_rules]: "io_total m \<Longrightarrow> io_total (connected env m)"
  by (simp add: io_total_def connected_def)

lemma submit_signed_transaction_returns:
  "clock_advances env \<Longrightarrow> io_total (submit_signed_transaction lib env tx_blob options)"
  unfolding submit_signed_transaction_def operation_id_of_def guard_before_submit_def relay_def
    case_prod_beta
  by (intro io_rules wait_for_transaction_returns)

lemma sign_prepared_and_submit_returns:
  "clock_advances env \<Longrightarrow> io_total (sign_prepared_and_submit lib env transaction options)"
  unfolding sign_prepared_and_submit_def operation_id_of_def obtain_signature_def failing_entry_def
    case_prod_beta
  by (intro io_rules submit_signed_transaction_returns)

lemma prepare_sign_and_submit_returns:
  "clock_advances env \<Longrightarrow> io_total (prepare_sign_and_submit lib env transaction options)"
  unfolding prepare_sign_and_submit_def autofill_xcs_transaction_def
  by (intro io_rules sign_prepared_and_submit_returns)

section \<open>What is sent\<close>

definition sends :: "effect list \<Rightarrow> bool" where
  "sends h \<longleftrightarrow> (\<exists>blob. Sent blob \<in> set h)"

text \<open>The recovery entry of a blob: its stage, its hash and its last ledger.\<close>

definition recovery_entry :: "'x sdk_lib_scheme \<Rightarrow> jstr \<Rightarrow> journal_entry \<Rightarrow> bool" where
  "recovery_entry lib blob entry \<longleftrightarrow>
     entry_stage entry = Signed \<and>
     (\<exists>raw_hash decoded. hash_signed_tx lib blob = Some raw_hash \<and> xrpl_decode lib blob = Some decoded \<and>
        entry_tx_hash entry = Some (to_upper raw_hash) \<and>
        entry_last_ledger_sequence entry = get decoded ''LastLedgerSequence'')"

definition sent_after_entry :: "'x sdk_lib_scheme \<Rightarrow> jstr \<Rightarrow> effect list \<Rightarrow> bool" where
  "sent_after_entry lib blob h \<longleftrightarrow>
     \<not> sends h \<or>
     (\<exists>pre post. h = pre @ Sent blob # post \<and> \<not> sends pre \<and> \<not> sends post \<and>
        (\<exists>entry. Appended entry \<in> set pre \<and> recovery_entry lib blob entry))"

lemma sends_append: "sends (s @ t) \<longleftrightarrow> sends s \<or> sends t"
  by (auto simp: sends_def)

lemma sends_quiet: "quiet t h \<Longrightarrow> sends h = sends t"
  by (auto simp: quiet_def sends_def)

lemma sent_after_entry_quiet:
  assumes "quiet t h" "sent_after_entry lib blob t"
  shows "sent_after_entry lib blob h"
proof -
  obtain new where new: "h = t @ new" "\<not> sends new"
    using assms(1) by (auto simp: quiet_def sends_def)
  show ?thesis
  proof (cases "sends t")
    case True
    then obtain pre post entry where
      "t = pre @ Sent blob # post" "\<not> sends pre" "\<not> sends post"
      "Appended entry \<in> set pre" "recovery_entry lib blob entry"
      using assms(2) unfolding sent_after_entry_def by blast
    then have "h = pre @ Sent blob # (post @ new) \<and> \<not> sends (post @ new)"
      using new by (simp add: sends_append)
    then show ?thesis
      unfolding sent_after_entry_def
      using \<open>\<not> sends pre\<close> \<open>Appended entry \<in> set pre\<close> \<open>recovery_entry lib blob entry\<close> by blast
  qed (use new in \<open>simp add: sent_after_entry_def sends_append\<close>)
qed

lemma io_quiet_ok: "io_quiet m \<Longrightarrow> (\<And>t h. quiet t h \<Longrightarrow> P t \<Longrightarrow> P h) \<Longrightarrow> io_ok P m (\<lambda>_. P) P"
  unfolding io_quiet_def io_ok_def by (fastforce split: sum.splits)

text \<open>Nothing sent yet, and the recovery entry of the blob written.\<close>

definition ready :: "'x sdk_lib_scheme \<Rightarrow> jstr \<Rightarrow> effect list \<Rightarrow> bool" where
  "ready lib blob h \<longleftrightarrow> \<not> sends h \<and> (\<exists>entry. Appended entry \<in> set h \<and> recovery_entry lib blob entry)"

lemma ready_quiet: "quiet t h \<Longrightarrow> ready lib blob t \<Longrightarrow> ready lib blob h"
  unfolding ready_def quiet_def by (auto simp: sends_def)

lemma ready_sent: "ready lib blob h \<Longrightarrow> sent_after_entry lib blob h"
  by (simp add: ready_def sent_after_entry_def)

lemma ready_send: "ready lib blob h \<Longrightarrow> sent_after_entry lib blob (h @ [Sent blob])"
  unfolding ready_def sent_after_entry_def
  by (intro disjI2 exI [of _ h] exI [of _ "[]"]) (auto simp: sends_def)

lemma as_positive_integer_eq: "as_positive_integer v = Some n \<longleftrightarrow> v = jint n \<and> 0 < n"
  by (auto simp: as_positive_integer_def split: jsval.splits jnum.splits)

lemma assert_valid_single_signature_Inr:
  "assert_valid_single_signature lib decoded tx_blob = Inr u \<longleftrightarrow>
     \<not> has_own (entries_of decoded) (lit ''Signers'') \<and>
     string_that (\<lambda>s. s \<noteq> []) (get decoded ''SigningPubKey'') \<and>
     string_that (\<lambda>s. s \<noteq> []) (get decoded ''TxnSignature'') \<and>
     verify_signature lib tx_blob = Some True"
  unfolding assert_valid_single_signature_def by auto

lemma read_signed_blob_Inr:
  "read_signed_blob lib tx_blob = Inr (tx_hash, decoded, lls) \<longleftrightarrow>
     hex_pattern tx_blob \<and> xrpl_decode lib tx_blob = Some decoded \<and>
     (\<exists>raw_hash. hash_signed_tx lib tx_blob = Some raw_hash \<and> tx_hash = to_upper raw_hash) \<and>
     assert_valid_single_signature lib decoded tx_blob = Inr () \<and>
     get decoded ''LastLedgerSequence'' = jint lls \<and> 0 < lls"
  unfolding read_signed_blob_def as_positive_integer_eq [symmetric]
  by (cases "xrpl_decode lib tx_blob"; cases "hash_signed_tx lib tx_blob")
    (auto simp: res_simps split: option.splits)

lemma acknowledge_quiet [quiet_intros]: "io_quiet (acknowledge env operation tx_hash lls reply)"
  unfolding acknowledge_def Let_def by (intro quiet_intros)

lemma guard_before_submit_quiet [quiet_intros]: "io_quiet (guard_before_submit env options signature)"
  unfolding guard_before_submit_def by (intro quiet_intros) simp_all

lemma send_blob_sends:
  "io_ok (ready lib tx_blob) (send_blob env operation tx_blob tx_hash lls)
     (\<lambda>_. sent_after_entry lib tx_blob) (sent_after_entry lib tx_blob)"
  unfolding send_blob_def
  apply (rule io_ok_bind, rule io_ok_read [where Q = "\<lambda>_. ready lib tx_blob"], assumption)
  apply (rule io_ok_bind, rule io_ok_effect [where Q = "\<lambda>_. sent_after_entry lib tx_blob"])
    apply (simp_all add: ready_send)
  apply (rule io_quiet_ok [OF acknowledge_quiet sent_after_entry_quiet], assumption+)
  done

lemma relay_sends:
  "io_ok (ready lib tx_blob) (relay env options operation tx_blob tx_hash lls)
     (\<lambda>_. sent_after_entry lib tx_blob) (sent_after_entry lib tx_blob)"
  unfolding relay_def
  apply (rule io_ok_bind, rule send_blob_sends)
  apply (rule io_quiet_ok [OF _ sent_after_entry_quiet])
    apply (intro quiet_intros)
  apply assumption+
  done

lemma io_ok_connected: "io_ok P m Q E \<Longrightarrow> (\<And>w. P w \<Longrightarrow> E w) \<Longrightarrow> io_ok P (connected env m) Q E"
  by (auto simp: io_ok_def connected_def split: if_splits)

lemma io_ok_lift_bind:
  "(\<And>x. m = Inr x \<Longrightarrow> io_ok P (f x) Q E) \<Longrightarrow> (\<And>w. P w \<Longrightarrow> E w) \<Longrightarrow> io_ok P (io_bind (io_lift m) f) Q E"
  by (cases m) (auto simp: io_ok_def io_defs)

lemma io_ok_read_bind:
  "(\<And>x. io_ok P (f x) Q E) \<Longrightarrow> io_ok P (io_bind (io_read g) f) Q E"
  by (auto simp: io_ok_def io_defs)

lemma append_recovery_entry:
  assumes "read_signed_blob lib tx_blob = Inr (tx_hash, decoded, lls)"
  shows "io_ok (\<lambda>h. \<not> sends h)
     (append_entry env (entry_for operation Signed (Some tx_hash) (jint lls) None None))
     (\<lambda>_. ready lib tx_blob) (sent_after_entry lib tx_blob)"
proof -
  let ?entry = "entry_for operation Signed (Some tx_hash) (jint lls) None None"
  have "recovery_entry lib tx_blob ?entry"
    using assms unfolding read_signed_blob_Inr recovery_entry_def by auto
  then have "ready lib tx_blob (h @ [Appended ?entry])" if "\<not> sends h" for h
    using that unfolding ready_def by (auto simp: sends_def)
  moreover have "\<not> sends (h @ [Append_Failed ?entry])" if "\<not> sends h" for h
    using that by (simp add: sends_def)
  ultimately show ?thesis
    unfolding io_ok_def append_entry_def by (simp add: sent_after_entry_def)
qed

lemma submit_signed_transaction_sends:
  "io_ok (\<lambda>h. \<not> sends h) (submit_signed_transaction lib env tx_blob options)
     (\<lambda>_. sent_after_entry lib tx_blob) (sent_after_entry lib tx_blob)"
proof -
  have unsent: "\<not> sends h \<Longrightarrow> sent_after_entry lib tx_blob h" for h
    by (simp add: sent_after_entry_def)
  have run: "io_ok (\<lambda>h. \<not> sends h)
      (io_bind (append_entry env (entry_for operation Signed (Some tx_hash) (jint lls) None None)) (\<lambda>_.
       io_bind (guard_before_submit env options signature) (\<lambda>_.
       relay env options operation tx_blob tx_hash lls)))
      (\<lambda>_. sent_after_entry lib tx_blob) (sent_after_entry lib tx_blob)"
    if "read_signed_blob lib tx_blob = Inr (tx_hash, decoded, lls)"
    for operation tx_hash decoded lls signature
    using guard_before_submit_quiet
    by (intro io_ok_bind [OF append_recovery_entry [OF that]] io_ok_bind [OF _ relay_sends])
      (auto intro!: io_ok_weaken [OF io_quiet_ok [where P = "ready lib tx_blob"]] intro: ready_quiet ready_sent)
  show ?thesis
    unfolding submit_signed_transaction_def operation_id_of_def
    by (intro io_ok_connected io_ok_read_bind io_ok_lift_bind) (auto intro!: run intro: unsent)
qed

lemma append_entry_sent:
  "io_ok (\<lambda>h. \<not> sends h) m Q E \<Longrightarrow> io_quiet n \<Longrightarrow> (\<And>h. \<not> sends h \<Longrightarrow> E h) \<Longrightarrow>
     io_ok (\<lambda>h. \<not> sends h) (io_bind n (\<lambda>_. m)) Q E"
  by (rule io_ok_bind, rule io_ok_weaken [OF io_quiet_ok [where P = "\<lambda>h. \<not> sends h"]])
    (auto dest: sends_quiet)

lemma obtain_signature_quiet [quiet_intros]:
  "io_quiet (obtain_signature lib env options operation transaction)"
  unfolding obtain_signature_def failing_entry_def case_prod_beta
  by (intro quiet_intros) simp_all

lemma sign_prepared_and_submit_sends:
  "io_ok (\<lambda>h. \<not> sends h) (sign_prepared_and_submit lib env transaction options)
     (\<lambda>_ h. \<exists>blob. sent_after_entry lib blob h) (\<lambda>h. \<exists>blob. sent_after_entry lib blob h)"
proof -
  let ?safe = "\<lambda>h. \<exists>blob. sent_after_entry lib blob h"
  have unsent: "\<not> sends h \<Longrightarrow> ?safe h" for h
    by (simp add: sent_after_entry_def)
  have submit: "io_ok (\<lambda>h. \<not> sends h) (submit_signed_transaction lib env tx_blob options) (\<lambda>_. ?safe) ?safe"
    for tx_blob options
    by (rule io_ok_weaken [OF submit_signed_transaction_sends]) auto
  have sign: "io_ok (\<lambda>h. \<not> sends h)
      (io_bind (obtain_signature lib env options operation transaction) (\<lambda>tx_blob.
       submit_signed_transaction lib env tx_blob (options\<lparr>opt_operation_id := Some operation\<rparr>)))
      (\<lambda>_. ?safe) ?safe" for operation
    by (rule io_ok_bind [OF _ submit], rule io_ok_weaken [OF io_quiet_ok
          [OF obtain_signature_quiet, where P = "\<lambda>h. \<not> sends h"]]) (auto dest: sends_quiet intro: unsent)
  show ?thesis
    unfolding sign_prepared_and_submit_def operation_id_of_def
    by (intro io_ok_connected io_ok_read_bind io_ok_lift_bind append_entry_sent append_entry_quiet sign)
      (auto intro: unsent)
qed

lemma autofill_quiet: "io_quiet (autofill_xcs_transaction env transaction)"
  unfolding autofill_xcs_transaction_def connected_def
  by (auto simp: io_quiet_def io_lift_def quiet_refl split: if_splits)

lemma prepare_sign_and_submit_sends:
  "io_ok (\<lambda>h. \<not> sends h) (prepare_sign_and_submit lib env transaction options)
     (\<lambda>_ h. \<exists>blob. sent_after_entry lib blob h) (\<lambda>h. \<exists>blob. sent_after_entry lib blob h)"
  unfolding prepare_sign_and_submit_def
  by (rule io_ok_bind [OF _ sign_prepared_and_submit_sends], rule io_ok_weaken [OF io_quiet_ok
        [OF autofill_quiet, where P = "\<lambda>h. \<not> sends h"]])
    (auto dest: sends_quiet simp: sent_after_entry_def)

section \<open>What a result rests on\<close>

text \<open>The status of a result: the one the wait returned, or that of a blob rejected as malformed.\<close>

lemma relay_confirmed:
  "io_ok (\<lambda>_. True) (relay env options operation tx_blob tx_hash lls)
     (\<lambda>result h. confirmed env h lls (sr_status result) \<and>
        ts_tx_hash (sr_status result) \<in> {tx_hash, to_upper tx_hash}) (\<lambda>_. True)"
proof -
  have wait: "io_ok (\<lambda>_. True) (wait_for_transaction env options tx_hash lls)
     (\<lambda>status h. confirmed env h lls status \<and> ts_tx_hash status = to_upper tx_hash) (\<lambda>_. True)"
    using wait_for_transaction_outcome
    by (fastforce simp: io_ok_def poll_outcome_def split: sum.splits)
  have last_entry: "io_ok (\<lambda>h. confirmed env h lls status \<and> ts_tx_hash status = to_upper tx_hash)
      (append_entry env entry) (\<lambda>_ h. confirmed env h lls status \<and> ts_tx_hash status = to_upper tx_hash)
      (\<lambda>_. True)" for status entry
    by (auto simp: io_ok_def append_entry_def confirmed_append split: if_splits)
  have sent: "io_ok (\<lambda>_. True) (send_blob env operation tx_blob tx_hash lls) (\<lambda>_ _. True) (\<lambda>_. True)"
    by (simp add: io_ok_def split: sum.splits)
  show ?thesis
    unfolding relay_def
    by (rule io_ok_bind [OF sent], rule io_ok_if, rule io_ok_return, simp add: confirmed_def,
        rule io_ok_bind [OF wait], rule io_ok_bind [OF last_entry], rule io_ok_return, simp)
qed

lemma io_ok_skip: "io_ok (\<lambda>_. True) m (\<lambda>_ _. True) (\<lambda>_. True)"
  by (simp add: io_ok_def split: sum.splits)

lemma submit_signed_transaction_confirmed:
  "io_ok (\<lambda>_. True) (submit_signed_transaction lib env tx_blob options)
     (\<lambda>result h. \<exists>raw_hash decoded lls. hash_signed_tx lib tx_blob = Some raw_hash \<and>
        xrpl_decode lib tx_blob = Some decoded \<and> get decoded ''LastLedgerSequence'' = jint lls \<and>
        ts_tx_hash (sr_status result) = to_upper raw_hash \<and> confirmed env h lls (sr_status result))
     (\<lambda>_. True)"
  unfolding submit_signed_transaction_def operation_id_of_def
  apply (intro io_ok_connected io_ok_read_bind io_ok_lift_bind)
    apply (clarsimp simp: read_signed_blob_Inr)
    apply (rule io_ok_bind [OF io_ok_skip])+
    apply (rule io_ok_weaken [OF relay_confirmed])
      apply auto
  done

end
