(* ===== verification/Sdk_Guarantees.thy ===== *)
theory Sdk_Guarantees
  imports Sdk_Validation Sdk_Submission Core_Guarantees
begin

text \<open>
  The guarantees of the SDK (\<open>packages/sdk\<close>), each with an application to concrete inputs.
\<close>

section \<open>A concrete library and environment\<close>

text \<open>
  The library knows one signed transaction: every blob decodes to it, and the encoding of a
  transaction is its canonical text.
\<close>

definition sample_sdk :: "jsval \<Rightarrow> sdk_lib" where
  "sample_sdk tx = sample_with [] (sdk_lib.fields (\<lambda>v. Some (value_text (sort_keys v)))
     (\<lambda>_. Some tx) (\<lambda>_. Some (replicate 64 (ch CHR ''A''))) (\<lambda>_. Some True) (\<lambda>_. True) (\<lambda>_. 0))"

lemma sample_sdk_fields [simp]:
  "xrpl_encode (sample_sdk tx) v = Some (value_text (sort_keys v))"
  "xrpl_decode (sample_sdk tx) blob = Some tx"
  "hash_signed_tx (sample_sdk tx) blob = Some (replicate 64 (ch CHR ''A''))"
  "verify_signature (sample_sdk tx) blob = Some True"
  "xrpl_validate (sample_sdk tx) v"
  "is_valid_classic_address (sample_sdk tx) a \<longleftrightarrow> take 1 a = lit ''r''"
  by (simp_all add: sample_sdk_def sample_with_def sdk_lib.defs)

lemma sample_sdk_hex_laws: "hex_laws (sample_sdk tx)"
  unfolding sample_sdk_def by (rule sample_hex_laws)

definition sample_prepared :: jsval where
  "sample_prepared = JObj Plain
     [(lit ''TransactionType'', jlit ''CredentialAccept''), (lit ''Account'', jlit ''rSub''), (lit ''Fee'', jlit ''12''),
      (lit ''Sequence'', jint 1), (lit ''LastLedgerSequence'', jint 20)]"

definition sample_signed :: jsval where
  "sample_signed = JObj Plain
     [(lit ''TransactionType'', jlit ''CredentialAccept''), (lit ''Account'', jlit ''rSub''), (lit ''Fee'', jlit ''12''),
      (lit ''Sequence'', jint 1), (lit ''LastLedgerSequence'', jint 20),
      (lit ''SigningPubKey'', jlit ''ED''), (lit ''TxnSignature'', jlit ''01'')]"

definition sample_env :: submission_env where
  "sample_env =
     \<lparr>env_connected = (\<lambda>_. True), env_append_ok = (\<lambda>_. True),
      env_sign = (\<lambda>_. Some \<lparr>signer_hash = replicate 64 (ch CHR ''A''), signer_blob = lit ''1200''\<rparr>),
      env_on_signature_ok = (\<lambda>_. True), env_before_submit_ok = (\<lambda>_. True),
      env_submit = (\<lambda>_. Some (JObj Plain [(lit ''engine_result'', jlit ''tesSUCCESS'')])),
      env_tx = (\<lambda>_. Tx_Result (JObj Plain [(lit ''validated'', JBool True), (lit ''ledger_index'', jint 9)])),
      env_ledger_current = (\<lambda>_. None), env_now = (\<lambda>t. int (length t)), env_uuid = (\<lambda>_. lit ''id''),
      env_autofill = (\<lambda>_. Some sample_prepared)\<rparr>"

definition sample_options :: submission_options where
  "sample_options = \<lparr>opt_operation_id = None, opt_timeout_ms = None, opt_allow_refresh = False,
     opt_on_validated_signature = True, opt_before_submit = True\<rparr>"

lemma sample_matches:
  "assert_signed_transaction_matches (sample_sdk sample_signed) sample_prepared (lit ''1200'') False =
     Inr sample_prepared"
  by (simp add: assert_signed_transaction_matches_def assert_valid_single_signature_def
      sample_signed_def sample_prepared_def without_signature_fields_def prop_of_JObj has_own_def)

lemma sample_clock: "clock_advances sample_env"
  unfolding clock_advances_def sample_env_def
  by (rule allI, rule_tac x = "nat deadline" in exI) auto

definition sample_result :: submission_result where
  "sample_result =
     \<lparr>sr_status = status_for St_Validated (replicate 64 (ch CHR ''A'')) (Some 20) (Some 9) None,
      sr_operation = lit ''id'', sr_engine_result = Some (lit ''tesSUCCESS'')\<rparr>"

lemma sample_upper [simp]: "to_upper (replicate 64 (ch CHR ''a'')) = replicate 64 (ch CHR ''A'')"
  "to_upper (replicate 64 (ch CHR ''A'')) = replicate 64 (ch CHR ''A'')"
  by (simp_all add: to_upper_def upper_cu_def ch_def class_unat)

lemma sample_hashes [simp]:
  "hash64_any (replicate 64 (ch CHR ''A''))" "hash64_any (replicate 64 (ch CHR ''a''))"
  by (simp_all add: hash64_any_def ch_def class_unat list_all_iff)

text \<open>The same environment with a journal that may refuse a signature.\<close>

abbreviation sample_env_with :: "(effect list \<Rightarrow> bool) \<Rightarrow> submission_env" where
  "sample_env_with f \<equiv> sample_env\<lparr>env_on_signature_ok := f\<rparr>"

lemma sample_env_with_True: "sample_env_with (\<lambda>_. True) = sample_env"
  by (simp add: sample_env_def)

lemma sample_poll:
  "poll_transaction (sample_env_with f) (replicate 64 (ch CHR ''A'')) 20 deadline t =
     Some (Inr (sr_status sample_result), t @ [Asked_Tx (replicate 64 (ch CHR ''A''))])"
  by (subst poll_transaction.simps)
    (simp add: get_transaction_status_def io_defs sample_env_def sample_result_def prop_of_JObj
      as_positive_integer_def read_transaction_result_def read_string_def prop_of_def)

lemma sample_blob: "list_all is_hex (lit ''1200'')"
  by (simp add: lit_eq_ch ch_def class_unat)

lemma sample_read: "read_signed_blob (sample_sdk sample_signed) (lit ''1200'') =
    Inr (replicate 64 (ch CHR ''A''), sample_signed, 20)"
  unfolding read_signed_blob_Inr sample_sdk_fields
  using sample_upper(2)
  by (simp add: assert_valid_single_signature_def has_own_def sample_signed_def prop_of_JObj
      hex_pattern_def sample_blob)

lemma run_bind: "m t = Some (Inr x, t') \<Longrightarrow> io_bind m f t = f x t'"
  by (simp add: io_bind_def)

lemma run_append: "append_entry (sample_env_with f) entry t = Some (Inr (), t @ [Appended entry])"
  by (simp add: append_entry_def sample_env_def)

lemma run_acknowledge:
  "acknowledge (sample_env_with f) operation tx_hash lls (Some (JObj Plain [(lit ''engine_result'', jlit ''tesSUCCESS'')])) t =
     Some (Inr (Some (lit ''tesSUCCESS''), False), t @ [Appended
       (entry_for operation Submitted (Some tx_hash) (jint lls) (Some (lit ''tesSUCCESS'')) None)])"
  by (simp add: acknowledge_def io_catch_def run_bind run_append read_string_def prop_of_JObj io_return_def
      lit_eq_ch Let_def)

lemma run_send:
  "\<exists>new. send_blob (sample_env_with f) operation tx_blob tx_hash lls t =
     Some (Inr (Some (lit ''tesSUCCESS''), False), t @ new) \<and> sends new"
  by (simp add: send_blob_def io_bind_def io_read_def io_effect_def, subst sample_env_def)
    (simp add: run_acknowledge sends_def)

lemma run_relay:
  "\<exists>new. relay (sample_env_with f) options (lit ''id'') tx_blob (replicate 64 (ch CHR ''A'')) 20 t =
     Some (Inr sample_result, t @ new) \<and> sends new"
proof -
  obtain new where s: "send_blob (sample_env_with f) (lit ''id'') tx_blob (replicate 64 (ch CHR ''A'')) 20 t =
     Some (Inr (Some (lit ''tesSUCCESS''), False), t @ new)" "sends new"
    using run_send by blast
  show ?thesis
    using s(2) by (simp add: relay_def run_bind s(1) wait_for_transaction_def sample_poll run_append
        io_return_def sends_append) (simp add: sample_result_def)
qed

lemma run_guard:
  "\<exists>new. guard_before_submit (sample_env_with f) sample_options signature t = Some (Inr (), t @ new)"
  by (simp add: guard_before_submit_def sample_options_def io_catch_def io_effect_def sample_env_def)

lemma sample_connected [simp]: "connected (sample_env_with f) m = m"
  by (simp add: connected_def sample_env_def fun_eq_iff)

lemma run_operation: "operation_id_of (sample_env_with f) sample_options t = Some (Inr (lit ''id''), t)"
  by (simp add: operation_id_of_def io_read_def sample_env_def sample_options_def)

lemma run_submit:
  "\<exists>new. submit_signed_transaction (sample_sdk sample_signed) (sample_env_with f) (lit ''1200'')
     (sample_options\<lparr>opt_operation_id := Some (lit ''id'')\<rparr>) t = Some (Inr sample_result, t @ new)
     \<and> sends new"
proof -
  let ?signature = "\<lparr>vs_operation = lit ''id'', vs_transaction = without_signature_fields sample_signed,
    vs_tx_blob = lit ''1200'', vs_tx_hash = replicate 64 (ch CHR ''A''),
    vs_last_ledger_sequence = jint 20\<rparr>"
  let ?options = "sample_options\<lparr>opt_operation_id := Some (lit ''id'')\<rparr>"
  let ?t = "t @ [Appended (entry_for (lit ''id'') Signed (Some (replicate 64 (ch CHR ''A''))) (jint 20) None None)]"
  have same: "guard_before_submit (sample_env_with f) ?options = guard_before_submit (sample_env_with f) sample_options"
    by (simp add: guard_before_submit_def fun_eq_iff)
  obtain new where g: "guard_before_submit (sample_env_with f) ?options ?signature ?t = Some (Inr (), ?t @ new)"
    unfolding same using run_guard by blast
  obtain new' where r: "relay (sample_env_with f) ?options (lit ''id'') (lit ''1200'')
      (replicate 64 (ch CHR ''A'')) 20 (?t @ new) = Some (Inr sample_result, (?t @ new) @ new')" "sends new'"
    using run_relay by blast
  have "operation_id_of (sample_env_with f) ?options t = Some (Inr (lit ''id''), t)"
    by (simp add: operation_id_of_def io_read_def)
  then have "submit_signed_transaction (sample_sdk sample_signed) (sample_env_with f) (lit ''1200'') ?options t =
      Some (Inr sample_result, (?t @ new) @ new')"
    unfolding submit_signed_transaction_def sample_connected sample_read
    by (simp add: run_bind io_lift_def run_append g [simplified] r(1) [simplified])
  then show ?thesis using r(2) by (auto simp: sends_def)
qed

text \<open>A signature the journal accepts is sent.\<close>

lemma run_sign:
  assumes "opt_operation_id options = None \<or> opt_operation_id options = Some (lit ''id'')"
    and options: "options\<lparr>opt_operation_id := None\<rparr> = sample_options"
    and "\<And>entry. entry_operation entry = lit ''id'' \<Longrightarrow> entry_stage entry = Prepared \<Longrightarrow> f [Appended entry, Asked_Signer sample_prepared]"
  shows "\<exists>new. sign_prepared_and_submit (sample_sdk sample_signed) (sample_env_with f) sample_prepared options [] =
     Some (Inr sample_result, new) \<and> sends new"
proof -
  let ?e = "entry_for (lit ''id'') Prepared None (get sample_prepared ''LastLedgerSequence'') None None"
  have c: "assert_xrpl_js5_compatibility sample_prepared = Inr ()" "autofill_complete sample_prepared"
    by (simp_all add: assert_xrpl_js5_compatibility_def autofill_complete_def sample_prepared_def
        prop_of_JObj as_positive_integer_def lit_eq_ch)
  have h: "hex_pattern (lit ''1200'')" using sample_blob by (simp add: hex_pattern_def)
  have opts: "opt_allow_refresh options = False" "opt_on_validated_signature options"
    "options\<lparr>opt_operation_id := Some (lit ''id'')\<rparr> = sample_options\<lparr>opt_operation_id := Some (lit ''id'')\<rparr>"
    using arg_cong [OF options, of opt_allow_refresh] arg_cong [OF options, of opt_on_validated_signature]
      arg_cong [OF options, of "opt_operation_id_update (\<lambda>_. Some (lit ''id''))"]
    by (simp_all add: sample_options_def)
  have k: "check_signer_answer (sample_sdk sample_signed) options sample_prepared (env_sign sample_env t) =
      Inr (lit ''1200'', replicate 64 (ch CHR ''A''), sample_prepared)" for t
    using sample_matches h opts
    by (simp add: check_signer_answer_def sample_env_def assert_signer_result_def)
  have o: "operation_id_of (sample_env_with f) options t = Some (Inr (lit ''id''), t)" for t
    using assms(1) by (auto simp: operation_id_of_def io_read_def) (simp add: sample_env_def)
  have "f [Appended ?e, Asked_Signer sample_prepared]" by (rule assms(3)) simp_all
  then have "\<exists>new. obtain_signature (sample_sdk sample_signed) (sample_env_with f) options (lit ''id'') sample_prepared
      [Appended ?e] = Some (Inr (lit ''1200''), Appended ?e # new)"
    using opts by (simp add: obtain_signature_def failing_entry_def io_defs k)
  then obtain new where n: "obtain_signature (sample_sdk sample_signed) (sample_env_with f) options (lit ''id'') sample_prepared
      [Appended ?e] = Some (Inr (lit ''1200''), Appended ?e # new)" by blast
  obtain new' where s: "submit_signed_transaction (sample_sdk sample_signed) (sample_env_with f) (lit ''1200'')
      (sample_options\<lparr>opt_operation_id := Some (lit ''id'')\<rparr>) (Appended ?e # new) = Some (Inr sample_result, (Appended ?e # new) @ new')"
    "sends new'"
    using run_submit by blast
  have "sign_prepared_and_submit (sample_sdk sample_signed) (sample_env_with f) sample_prepared options [] =
      Some (Inr sample_result, (Appended ?e # new) @ new')"
    by (simp only: sign_prepared_and_submit_def sample_connected c if_True io_lift_def io_bind_def option.case prod.case sum.case
        o run_append append.simps n s opts)
  then show ?thesis using s(2) by (auto simp: sends_def)
qed

lemma run_prepare:
  "\<exists>new. prepare_sign_and_submit (sample_sdk sample_signed) sample_env sample_prepared sample_options [] =
     Some (Inr sample_result, new) \<and> sends new"
proof -
  have c: "assert_xrpl_js5_compatibility sample_prepared = Inr ()" "autofill_complete sample_prepared"
    by (simp_all add: assert_xrpl_js5_compatibility_def autofill_complete_def sample_prepared_def
        prop_of_JObj as_positive_integer_def lit_eq_ch)
  have a: "autofill_xcs_transaction sample_env sample_prepared t = Some (Inr sample_prepared, t)" for t
    using c by (simp add: autofill_xcs_transaction_def io_lift_def sample_env_def connected_def)
  obtain new where "sign_prepared_and_submit (sample_sdk sample_signed) sample_env sample_prepared sample_options [] =
      Some (Inr sample_result, new)" "sends new"
    using run_sign [of sample_options "\<lambda>_. True"] unfolding sample_env_with_True by (auto simp: sample_options_def)
  then show ?thesis by (simp add: prepare_sign_and_submit_def run_bind [OF a])
qed

section \<open>The guarantees\<close>

text \<open>
  C4. Nothing reaches the network before its recovery entry: whatever a call of
  \<open>prepareSignAndSubmit\<close> does, with every answer of wallet, journal, callbacks and node, it sends at
  most one blob, once, and before that it appended a journal entry of stage \<open>signed\<close> with the hash of
  that blob and its \<open>LastLedgerSequence\<close>.
\<close>

theorem submission_sends_after_entry:
  assumes "prepare_sign_and_submit lib env transaction options [] = Some (r, h)"
  shows "\<exists>blob. sent_after_entry lib blob h"
proof -
  have "\<not> sends []" by (simp add: sends_def)
  then show ?thesis
    using assms by (cases r) (blast dest: io_okD [OF prepare_sign_and_submit_sends])+
qed

theorem submission_sends_after_entry_witness:
  "\<exists>h. prepare_sign_and_submit (sample_sdk sample_signed) sample_env sample_prepared sample_options [] =
       Some (Inr sample_result, h) \<and> sends h \<and>
     (\<exists>blob. sent_after_entry (sample_sdk sample_signed) blob h)"
  using run_prepare submission_sends_after_entry by blast

text \<open>
  C24. Submission returns, with a result or an error, whenever the clock passes every deadline after
  finitely many effects: the polling loop of \<open>waitForTransaction\<close> ends.
\<close>

theorem submission_returns:
  assumes "clock_advances env"
  shows "\<exists>r h. prepare_sign_and_submit lib env transaction options t = Some (r, h)"
  using prepare_sign_and_submit_returns [OF assms] unfolding io_total_def by fast

theorem submission_returns_witness:
  "\<exists>r h. prepare_sign_and_submit (sample_sdk sample_signed) sample_env sample_prepared sample_options [] =
     Some (r, h)"
  by (rule submission_returns [OF sample_clock])

text \<open>
  Further guarantee: A status is what the node said: a result of \<open>submitSignedTransaction\<close> carries the hash of the
  blob; it is \<open>validated\<close> only after a reply to a \<open>tx\<close> request for that hash that was validated, and its
  outcome is the one in that reply; it is \<open>expired\<close> only after such a request found no transaction
  and the current ledger was then past the \<open>LastLedgerSequence\<close> of the blob.
\<close>

theorem submission_status_confirmed:
  assumes "submit_signed_transaction lib env tx_blob options t = Some (Inr result, h)"
  shows "\<exists>raw_hash decoded lls. hash_signed_tx lib tx_blob = Some raw_hash \<and>
     xrpl_decode lib tx_blob = Some decoded \<and> get decoded ''LastLedgerSequence'' = jint lls \<and>
     ts_tx_hash (sr_status result) = to_upper raw_hash \<and> confirmed env h lls (sr_status result)"
  using io_okD(1) [OF submit_signed_transaction_confirmed TrueI assms] by blast

theorem submission_status_confirmed_witness:
  "\<exists>h. submit_signed_transaction (sample_sdk sample_signed) sample_env (lit ''1200'')
     (sample_options\<lparr>opt_operation_id := Some (lit ''id'')\<rparr>) [] = Some (Inr sample_result, h) \<and>
     seen_validated sample_env h (replicate 64 (ch CHR ''A'')) None"
proof -
  obtain h where h: "submit_signed_transaction (sample_sdk sample_signed) sample_env (lit ''1200'')
     (sample_options\<lparr>opt_operation_id := Some (lit ''id'')\<rparr>) [] = Some (Inr sample_result, h)"
    using run_submit [where f = "\<lambda>_. True"] unfolding sample_env_with_True by fastforce
  then show ?thesis
    using submission_status_confirmed [OF h] by (auto simp: confirmed_def sample_result_def)
qed



text \<open>
  Further guarantee: What the builders build, the validator accepts: the transactions of \<open>buildCredentialCreate\<close>,
  \<open>buildCredentialAccept\<close> and \<open>buildCredentialDelete\<close> pass the checks of
  \<open>assertXcsTransactionSemantics\<close> for their type and are recognised with the schema UID they were
  built for.
\<close>

theorem built_transactions_accepted:
  assumes "hex_laws lib" and "well_formed (cc_uri create)"
    and "build_credential_create lib create = Inr created"
    and "build_credential_accept lib acceptance = Inr accepting"
    and "build_credential_delete lib deletion = Inr deleting"
  shows "validate_credential_create lib created = Inr (Credential_Create (cc_schema_uid create)) \<and>
    validate_credential_accept lib accepting = Inr (Credential_Accept (ca_schema_uid acceptance)) \<and>
    validate_credential_delete lib deleting = Inr (Credential_Delete (cd_schema_uid deletion))"
  using assms built_create_accepted built_accept_accepted built_delete_accepted by blast

definition sample_create :: credential_create_input where
  "sample_create = \<lparr>cc_issuer = lit ''ra'', cc_subject = lit ''rb'', cc_schema_uid = sample_hash,
     cc_uri = sample_url sample_digest_fragment, cc_expiration = None\<rparr>"

definition sample_accept :: credential_accept_input where
  "sample_accept = \<lparr>ca_subject = lit ''rb'', ca_issuer = lit ''ra'', ca_schema_uid = sample_hash\<rparr>"

definition sample_delete :: credential_delete_input where
  "sample_delete = \<lparr>cd_account = lit ''rb'', cd_issuer = lit ''ra'', cd_subject = lit ''rb'',
     cd_schema_uid = sample_hash\<rparr>"

lemma sample_url_ascii: "\<forall>c \<in> set (sample_url sample_digest_fragment). unat c < 128"
  by (auto simp: sample_url_def sample_digest_fragment_def ch_def)

lemma sample_url_well_formed: "well_formed (sample_url sample_digest_fragment)"
proof -
  have "\<forall>c \<in> set (sample_url sample_digest_fragment). unat c < 0xd800"
    using sample_url_ascii by fastforce
  then show ?thesis using wf_scan_small by blast
qed

lemma sample_uri_hex: "\<exists>h. uri_to_credential_hex (sample_sdk tx) (sample_url sample_digest_fragment) = Inr h"
proof -
  have "length (encode_utf8 (sample_url sample_digest_fragment)) = 89"
    using encode_utf8_ascii [OF sample_url_ascii] by (simp add: sample_url_def sample_digest_fragment_def)
  then show ?thesis
    unfolding sample_sdk_def
    by (simp add: uri_to_credential_hex_def sample_url_parse lift_core_def MAX_CREDENTIAL_URI_BYTES_def)
qed

lemma sample_built:
  "\<exists>tx. build_credential_create (sample_sdk known) sample_create = Inr tx"
  "\<exists>tx. build_credential_accept (sample_sdk known) sample_accept = Inr tx"
  "\<exists>tx. build_credential_delete (sample_sdk known) sample_delete = Inr tx"
  using sample_uri_hex [of known]
  by (auto simp: build_credential_create_def build_credential_accept_def build_credential_delete_def
      sample_create_def sample_accept_def sample_delete_def assert_classic_address_def
      schema_uid_to_credential_type_def lit_eq_ch)

theorem built_transactions_accepted_witness:
  "\<exists>created. build_credential_create (sample_sdk sample_signed) sample_create = Inr created \<and>
     validate_credential_create (sample_sdk sample_signed) created = Inr (Credential_Create sample_hash)"
proof -
  obtain c a d where "build_credential_create (sample_sdk sample_signed) sample_create = Inr c"
    "build_credential_accept (sample_sdk sample_signed) sample_accept = Inr a"
    "build_credential_delete (sample_sdk sample_signed) sample_delete = Inr d"
    using sample_built by blast
  from built_transactions_accepted [OF sample_sdk_hex_laws _ this] this show ?thesis
    using sample_url_well_formed by (auto simp: sample_create_def)
qed

text \<open>
  Further guarantee: A deletion names the Credential: whoever signs it, the account together with the \<open>Issuer\<close> and
  \<open>Subject\<close> fields present gives back issuer and subject, and at least one of the two fields is
  present.
\<close>

theorem built_deletion_identifies:
  assumes "build_credential_delete lib input = Inr tx"
  shows "get tx ''Account'' = JStr (cd_account input) \<and>
     named_or (get tx ''Issuer'') (cd_account input) = cd_issuer input \<and>
     named_or (get tx ''Subject'') (cd_account input) = cd_subject input \<and>
     (get tx ''Issuer'' \<noteq> JUndef \<or> get tx ''Subject'' \<noteq> JUndef)"
  using assms by (rule built_delete_identifies)

theorem built_deletion_identifies_witness:
  "\<exists>tx. build_credential_delete (sample_sdk sample_signed) sample_delete = Inr tx \<and>
     named_or (get tx ''Subject'') (lit ''rb'') = lit ''rb''"
proof -
  obtain tx where tx: "build_credential_delete (sample_sdk sample_signed) sample_delete = Inr tx"
    using sample_built by blast
  then show ?thesis using built_deletion_identifies [OF tx] by (auto simp: sample_delete_def)
qed

text \<open>
  Further guarantee: The \<open>URI\<close> field of a Credential carries its payload URI: a well-formed URI that
  \<open>uriToCredentialHex\<close> accepts is read back unchanged by \<open>credentialHexToUri\<close>; and so are other bytes:
  the same URI behind a byte order mark is another hexadecimal text and is read as the same URI,
  because the decoder of the SDK drops the mark.
\<close>

theorem credential_uri_roundtrip:
  assumes "uri_to_credential_hex lib uri = Inr h" and "well_formed uri" and "hex_laws lib"
  shows "credential_hex_to_uri lib h = Inr uri \<and>
     credential_hex_to_uri lib (bom_hex lib uri) = Inr uri \<and> bom_hex lib uri \<noteq> h"
  using uri_hex_roundtrip [OF assms] bom_hex_accepted [OF assms] by blast

theorem credential_uri_roundtrip_witness:
  "\<exists>h. uri_to_credential_hex (sample_sdk sample_signed) (sample_url sample_digest_fragment) = Inr h \<and>
     credential_hex_to_uri (sample_sdk sample_signed) h = Inr (sample_url sample_digest_fragment)"
proof -
  obtain h where h: "uri_to_credential_hex (sample_sdk sample_signed) (sample_url sample_digest_fragment) = Inr h"
    using sample_uri_hex by blast
  then show ?thesis
    using credential_uri_roundtrip [OF h sample_url_well_formed sample_sdk_hex_laws] by blast
qed

end
