(* ===== verification/Indexer_Ledger.thy ===== *)
theory Indexer_Ledger
  imports Network_Profile Schema Payload_Uri
begin

text \<open>
  The data of the indexer (\<open>apps/indexer/src/types.ts\<close>), its errors and their stable codes
  (\<open>source-errors.ts\<close>), replay targets (\<open>replay-target.ts\<close>) and the continuity checks
  (\<open>continuity.ts\<close>).
\<close>

section \<open>Errors\<close>

text \<open>
  An error of the source, an error with a string \<open>code\<close> of its own, or any other error. Codes are
  the strings of the code.
\<close>

datatype ierr = Source_Error string | Coded_Error string | Plain_Error

abbreviation source_failure :: "string \<Rightarrow> ierr + 'a" where
  "source_failure code \<equiv> Inl (Source_Error code)"

abbreviation coded_failure :: "string \<Rightarrow> ierr + 'a" where
  "coded_failure code \<equiv> Inl (Coded_Error code)"

definition XRPL_SOURCE_ERROR_CODES :: "string list" where
  "XRPL_SOURCE_ERROR_CODES =
     [''SOURCE_RESPONSE_INVALID'', ''SOURCE_NETWORK_MISMATCH'', ''SOURCE_HISTORY_INCOMPLETE'',
      ''SOURCE_ACTIVATION_MISMATCH'', ''SOURCE_AMENDMENT_UNAVAILABLE'',
      ''SOURCE_REGISTRY_NOT_BLACKHOLED'', ''SOURCE_REGISTRY_NOT_RECEIVABLE'', ''SOURCE_DIVERGENCE'',
      ''SOURCE_TIP_REGRESSION'', ''SOURCE_UNAVAILABLE'']"

definition STABLE_INDEXER_ERROR_CODES :: "string list" where
  "STABLE_INDEXER_ERROR_CODES = XRPL_SOURCE_ERROR_CODES @
     [''LEDGER_BEFORE_ACTIVATION'', ''LEDGER_GAP'', ''LEDGER_PARENT_MISMATCH'',
      ''ACTIVATION_HASH_MISMATCH'', ''CHECKPOINT_EVIDENCE_MISSING'', ''CHECKPOINT_CONFLICT'',
      ''REPLAY_TARGET_INVALID'', ''REPLAY_TARGET_UNAVAILABLE'', ''REPLAY_TARGET_MISMATCH'',
      ''REPLAY_TARGET_EXCEEDED'', ''FIXTURE_BUNDLE_INVALID'', ''FIXTURE_BUNDLE_OUTPUT_EXISTS'',
      ''FIXTURE_BUNDLE_RANGE_INVALID'', ''FIXTURE_BUNDLE_SOURCE_UNAVAILABLE'',
      ''FIXTURE_BUNDLE_INTEGRITY_FAILED'', ''INDEXER_LEASE_UNAVAILABLE'', ''INDEXER_LEASE_LOST'',
      ''INDEXER_FAILED'']"

definition source_error_code :: "ierr \<Rightarrow> string" where
  "source_error_code error =
     (case error of
        Source_Error code \<Rightarrow> code
      | Coded_Error code \<Rightarrow> if code \<in> set STABLE_INDEXER_ERROR_CODES then code else ''INDEXER_FAILED''
      | Plain_Error \<Rightarrow> ''INDEXER_FAILED'')"

section \<open>Ledgers and checkpoints\<close>

record ledger_transaction =
  lt_hash :: jstr
  lt_transaction :: jsval
  lt_metadata :: jsval
  lt_index :: int

record validated_ledger =
  vl_index :: int
  vl_hash :: jstr
  vl_parent :: jstr
  vl_account_root :: jstr
  vl_transaction_root :: jstr
  vl_parent_close_time :: int
  vl_close_time :: int
  vl_close_time_resolution :: int
  vl_close_flags :: int
  vl_total_coins :: jstr
  vl_transactions :: "ledger_transaction list"

record checkpoint =
  cp_index :: int
  cp_hash :: jstr
  cp_parent :: jstr
  cp_close_time :: int
  cp_transaction_count :: int
  cp_transaction_root :: "jstr option"

record source_tips =
  tip_primary :: int
  tip_secondary :: int
  tip_effective :: int

record ledger_range =
  range_min :: int
  range_max :: int

record source_preflight =
  pf_network_id :: int
  pf_ranges :: "ledger_range list"
  pf_activation_ledger :: validated_ledger
  pf_tips :: source_tips

definition checkpoint_from_ledger :: "validated_ledger \<Rightarrow> checkpoint" where
  "checkpoint_from_ledger ledger =
     \<lparr>cp_index = vl_index ledger, cp_hash = vl_hash ledger, cp_parent = vl_parent ledger,
      cp_close_time = vl_close_time ledger,
      cp_transaction_count = int (length (vl_transactions ledger)),
      cp_transaction_root = Some (vl_transaction_root ledger)\<rparr>"

definition assert_checkpoint_has_evidence :: "checkpoint \<Rightarrow> ierr + unit" where
  "assert_checkpoint_has_evidence cp =
     (if cp_transaction_root cp = None then coded_failure ''CHECKPOINT_EVIDENCE_MISSING'' else Inr ())"

definition assert_checkpoint_matches_ledger :: "checkpoint \<Rightarrow> validated_ledger \<Rightarrow> ierr + unit" where
  "assert_checkpoint_matches_ledger cp ledger =
     rbind (assert_checkpoint_has_evidence cp) (\<lambda>_.
       if cp_index cp \<noteq> vl_index ledger \<or> cp_hash cp \<noteq> vl_hash ledger \<or>
          cp_parent cp \<noteq> vl_parent ledger \<or> cp_close_time cp \<noteq> vl_close_time ledger \<or>
          cp_transaction_count cp \<noteq> int (length (vl_transactions ledger)) \<or>
          cp_transaction_root cp \<noteq> Some (vl_transaction_root ledger)
       then coded_failure ''CHECKPOINT_CONFLICT'' else Inr ())"

lemma assert_checkpoint_matches_ledger_Inr:
  "assert_checkpoint_matches_ledger cp ledger = Inr u \<longleftrightarrow> cp = checkpoint_from_ledger ledger"
  by (cases cp) (auto simp: assert_checkpoint_matches_ledger_def assert_checkpoint_has_evidence_def
      checkpoint_from_ledger_def)

section \<open>Continuity\<close>

definition assert_ledger_continuity ::
  "network_profile \<Rightarrow> checkpoint option \<Rightarrow> validated_ledger \<Rightarrow> ierr + unit" where
  "assert_ledger_continuity profile previous ledger =
     (case previous of
        None \<Rightarrow>
          if vl_index ledger \<noteq> activation_ledger_index profile
          then coded_failure (if vl_index ledger < activation_ledger_index profile
                              then ''LEDGER_BEFORE_ACTIVATION'' else ''LEDGER_GAP'')
          else if vl_hash ledger \<noteq> to_lower (activation_ledger_hash profile)
          then coded_failure ''ACTIVATION_HASH_MISMATCH''
          else Inr ()
      | Some cp \<Rightarrow>
          if vl_index ledger \<noteq> cp_index cp + 1 then coded_failure ''LEDGER_GAP''
          else if vl_parent ledger \<noteq> cp_hash cp then coded_failure ''LEDGER_PARENT_MISMATCH''
          else Inr ())"

text \<open>Every transaction carries its position; the loop stops at the first that does not.\<close>

fun ordered_from :: "int \<Rightarrow> ledger_transaction list \<Rightarrow> bool" where
  "ordered_from position [] = True"
| "ordered_from position (transaction # rest) =
     (lt_index transaction = position \<and> ordered_from (position + 1) rest)"

definition assert_transaction_ordering :: "validated_ledger \<Rightarrow> ierr + unit" where
  "assert_transaction_ordering ledger =
     (if ordered_from 0 (vl_transactions ledger) then Inr () else coded_failure ''LEDGER_GAP'')"

lemma ordered_from_nth:
  "ordered_from p ts \<Longrightarrow> i < length ts \<Longrightarrow> lt_index (ts ! i) = p + int i"
  by (induction ts arbitrary: p i) (auto simp: nth_Cons split: nat.splits)

lemma assert_ledger_continuity_Inr:
  "assert_ledger_continuity profile previous ledger = Inr u \<longleftrightarrow>
     (case previous of
        None \<Rightarrow> vl_index ledger = activation_ledger_index profile \<and>
          vl_hash ledger = to_lower (activation_ledger_hash profile)
      | Some cp \<Rightarrow> vl_index ledger = cp_index cp + 1 \<and> vl_parent ledger = cp_hash cp)"
  by (cases previous) (simp_all add: assert_ledger_continuity_def)

section \<open>Replay targets\<close>

record replay_target =
  rt_index :: int
  rt_hash :: jstr

definition create_replay_target :: "jsval \<Rightarrow> jsval \<Rightarrow> ierr + replay_target" where
  "create_replay_target ledger_index ledger_hash =
     (if \<not> is_uint32 ledger_index \<or> int_of ledger_index < 1
      then coded_failure ''REPLAY_TARGET_INVALID''
      else if \<not> string_that hash64_any ledger_hash then coded_failure ''REPLAY_TARGET_INVALID''
      else Inr \<lparr>rt_index = int_of ledger_index, rt_hash = to_lower (str_of ledger_hash)\<rparr>)"

text \<open>
  \<open>/^(?:0|[1-9]\d*)$/\<close>. \<open>Number\<close> of such a text is its value when that is below \<open>2 ^ 53\<close>; of a larger
  text it is a number that is not a safe integer or above the uint32 range, and is rejected as well.
\<close>

definition canonical_decimal :: "jstr \<Rightarrow> bool" where
  "canonical_decimal s \<longleftrightarrow> list_all is_digit s \<and> s \<noteq> [] \<and> (hd s = ch CHR ''0'' \<longrightarrow> length s = 1)"

definition load_replay_target :: "jstr option \<Rightarrow> jstr option \<Rightarrow> ierr + replay_target" where
  "load_replay_target ledger_index ledger_hash =
     (case (ledger_index, ledger_hash) of
        (Some index, Some hash) \<Rightarrow>
          if \<not> canonical_decimal index then coded_failure ''REPLAY_TARGET_INVALID''
          else create_replay_target (jint (int (dec_value index))) (JStr hash)
      | _ \<Rightarrow> coded_failure ''REPLAY_TARGET_INVALID'')"

lemma create_replay_target_Inr:
  "create_replay_target ledger_index ledger_hash = Inr target \<Longrightarrow>
     1 \<le> rt_index target \<and> rt_index target \<le> uint32_max \<and> hash64 (rt_hash target)"
  using hash64_any_lower
  by (auto simp: create_replay_target_def res_simps is_uint32_iff string_that_iff)

end
