(* ===== verification/Indexer_Projection.thy ===== *)
theory Indexer_Projection
  imports Indexer_Ledger Schema_Uid Schema_Resolution
begin

text \<open>
  What the indexer reads out of a validated ledger: schema registrations
  (\<open>apps/indexer/src/registration.ts\<close>), mutations of Credential objects
  (\<open>credential-mutations.ts\<close>) and their projection in transaction order (\<open>project-ledger.ts\<close>).
  Main results: every accepted registration has the UID of its coordinates and resolves in the
  schemas known before it; every mutation belongs to a schema known at its transaction.
\<close>

section \<open>Registrations\<close>

definition REGISTRATION_PARTIAL_PAYMENT_FLAG :: int where
  "REGISTRATION_PARTIAL_PAYMENT_FLAG = 0x20000"

definition has_exact_registration_amount :: "jsval \<Rightarrow> jstr \<Rightarrow> bool" where
  "has_exact_registration_amount transaction expected =
     (let aliases = filter (\<lambda>v. v \<noteq> JUndef) [get transaction ''Amount'', get transaction ''DeliverMax'']
      in 0 < length aliases \<and> list_all (\<lambda>v. v = JStr expected) aliases)"

datatype envelope_result =
    Not_Registration
  | Candidate jstr jstr
  | Rejected_Envelope jstr string

text \<open>\<open>Buffer.from(value, 'hex')\<close> on a text of hexadecimal digits of even length.\<close>

fun buffer_from_hex :: "jstr \<Rightarrow> byte list" where
  "buffer_from_hex (a # b # s) = of_nat (16 * hex_digit_value a + hex_digit_value b) # buffer_from_hex s"
| "buffer_from_hex _ = []"

definition memo_text :: "jsval \<Rightarrow> jstr option" where
  "memo_text value =
     (case value of
        JStr s \<Rightarrow>
          if s = [] \<or> length s mod 2 \<noteq> 0 \<or> \<not> list_all is_hex s then None
          else text_decode (buffer_from_hex s)
      | _ \<Rightarrow> None)"

text \<open>An object or an array; reading a named property of an array gives \<open>undefined\<close>.\<close>

definition object_like :: "jsval \<Rightarrow> bool" where
  "object_like v = (case v of JObj _ _ \<Rightarrow> True | JArr _ \<Rightarrow> True | _ \<Rightarrow> False)"

definition memo_fields :: "jsval \<Rightarrow> jsval" where
  "memo_fields value =
     (if object_like value \<and> object_like (get value ''Memo'') then get value ''Memo'' else JUndef)"

definition array_items :: "jsval \<Rightarrow> jsval list" where
  "array_items v = (case v of JArr xs \<Rightarrow> xs | _ \<Rightarrow> [])"

definition is_exact_payment :: "ledger_transaction \<Rightarrow> network_profile \<Rightarrow> bool" where
  "is_exact_payment transaction profile =
     (let tx = lt_transaction transaction in
        get tx ''TransactionType'' = jlit ''Payment'' \<and>
        get (lt_metadata transaction) ''TransactionResult'' = jlit ''tesSUCCESS'' \<and>
        get tx ''Destination'' = JStr (registry_address profile) \<and>
        has_exact_registration_amount tx (lit ''1'') \<and>
        get tx ''Paths'' = JUndef \<and> get tx ''SendMax'' = JUndef \<and> get tx ''DeliverMin'' = JUndef \<and>
        \<not> (case get tx ''Flags'' of JNum n \<Rightarrow> has_flag n REGISTRATION_PARTIAL_PAYMENT_FLAG | _ \<Rightarrow> False))"

definition extract_registration_envelope ::
  "ledger_transaction \<Rightarrow> network_profile \<Rightarrow> envelope_result" where
  "extract_registration_envelope transaction profile =
     (let tx = lt_transaction transaction;
          publisher = (case get tx ''Account'' of JStr s \<Rightarrow> s | _ \<Rightarrow> []);
          xcs_memos = filter
            (\<lambda>entry. memo_text (get (memo_fields entry) ''MemoType'') = Some (lit ''xcs:schema_register''))
            (array_items (get tx ''Memos''))
      in
        if xcs_memos = [] then Not_Registration
        else if \<not> is_exact_payment transaction profile then Not_Registration
        else if publisher = [] then Rejected_Envelope publisher ''REGISTRATION_ACCOUNT_INVALID''
        else if length xcs_memos \<noteq> 1 then Rejected_Envelope publisher ''REGISTRATION_MEMO_COUNT''
        else
          (let memo = memo_fields (hd xcs_memos) in
           if memo_text (get memo ''MemoFormat'') \<noteq> Some (lit ''application/json'')
           then Rejected_Envelope publisher ''REGISTRATION_MEMO_FORMAT''
           else case memo_text (get memo ''MemoData'') of
             None \<Rightarrow> Rejected_Envelope publisher ''REGISTRATION_MEMO_DATA''
           | Some json_text \<Rightarrow> Candidate publisher json_text))"

text \<open>Reason codes: those of the envelope, the code of a protocol error, and two for other errors.\<close>

datatype reason = Envelope_Reason string | Core_Reason xcs_code | Json_Invalid | Not_Canonical | Registration_Invalid

definition reason_of :: "cerr \<Rightarrow> reason" where
  "reason_of error =
     (case error of XcsErr code _ \<Rightarrow> Core_Reason code | SyntaxErr \<Rightarrow> Json_Invalid | HostErr \<Rightarrow> Registration_Invalid)"

datatype registration_outcome =
    Registration_Accepted jstr jsval schema_definition resolved_schema
  | Registration_Rejected reason "jsval option"

record schema_registration =
  rg_hash :: jstr
  rg_index :: int
  rg_publisher :: jstr
  rg_outcome :: registration_outcome

record catalog_entry =
  ct_uid :: jstr
  ct_definition :: schema_definition
  ct_resolved :: resolved_schema
  ct_publisher :: jstr
  ct_network_id :: int
  ct_ledger_index :: int
  ct_transaction_index :: int
  ct_hash :: jstr

type_synonym catalog = "jstr \<Rightarrow> catalog_entry option"

text \<open>The properties of a catalog entry that resolution reads.\<close>

definition registered_of :: "catalog_entry \<Rightarrow> registered_schema" where
  "registered_of entry =
     \<lparr>registered_uid = ct_uid entry, registered_definition = schema_value (ct_definition entry),
      registered_publisher = ct_publisher entry, registered_network_id = NInt (ct_network_id entry),
      registered_ledger_index = NInt (ct_ledger_index entry),
      registered_transaction_index = NInt (ct_transaction_index entry)\<rparr>"

definition getter_of :: "catalog \<Rightarrow> schema_getter" where
  "getter_of cat = (\<lambda>uid. map_option registered_of (cat uid))"

abbreviation resolution_context_of ::
  "network_profile \<Rightarrow> jstr \<Rightarrow> validated_ledger \<Rightarrow> ledger_transaction \<Rightarrow> resolution_context" where
  "resolution_context_of profile publisher ledger transaction \<equiv>
     \<lparr>ctx_network_id = NInt (profile_network_id profile), ctx_publisher = publisher,
      ctx_ledger_index = NInt (vl_index ledger), ctx_transaction_index = NInt (lt_index transaction)\<rparr>"

abbreviation uid_input_of ::
  "network_profile \<Rightarrow> jstr \<Rightarrow> validated_ledger \<Rightarrow> ledger_transaction \<Rightarrow> schema_definition \<Rightarrow> schema_uid_input" where
  "uid_input_of profile publisher ledger transaction schema \<equiv>
     \<lparr>uid_network_id = NInt (profile_network_id profile), uid_ledger_hash = vl_hash ledger,
      uid_ledger_index = NInt (vl_index ledger), uid_transaction_index = NInt (lt_index transaction),
      uid_publisher = publisher, uid_schema = schema_value schema\<rparr>"

text \<open>The \<open>try\<close> block, with the parsed memo as the part of its state that the handler reports.\<close>

definition interpret_memo ::
  "'x core_lib_scheme \<Rightarrow> ledger_transaction \<Rightarrow> validated_ledger \<Rightarrow> network_profile \<Rightarrow> catalog \<Rightarrow>
    jstr \<Rightarrow> jstr \<Rightarrow> registration_outcome" where
  "interpret_memo lib transaction ledger profile cat publisher json_text =
     (case parse_json lib (Text json_text) of
        Inl error \<Rightarrow> Registration_Rejected (reason_of error) None
      | Inr parsed \<Rightarrow>
          (case canonical_json lib parsed of
             Inl error \<Rightarrow> Registration_Rejected (reason_of error) (Some parsed)
           | Inr canonical \<Rightarrow>
               if canonical \<noteq> json_text then Registration_Rejected Not_Canonical (Some parsed)
               else
                 (case rbind (parse_schema parsed) (\<lambda>schema.
                       rbind (resolve_schema lib (getter_of cat) (schema_value schema)
                         (resolution_context_of profile publisher ledger transaction)) (\<lambda>resolved.
                       rbind (compute_schema_uid lib
                         (uid_input_of profile publisher ledger transaction schema)) (\<lambda>uid.
                         Inr (uid, schema, resolved)))) of
                    Inl error \<Rightarrow> Registration_Rejected (reason_of error) (Some parsed)
                  | Inr (uid, schema, resolved) \<Rightarrow> Registration_Accepted uid parsed schema resolved)))"

definition interpret_schema_registration ::
  "'x core_lib_scheme \<Rightarrow> ledger_transaction \<Rightarrow> validated_ledger \<Rightarrow> network_profile \<Rightarrow> catalog \<Rightarrow>
    schema_registration option" where
  "interpret_schema_registration lib transaction ledger profile cat =
     (let result = (\<lambda>publisher outcome.
            Some \<lparr>rg_hash = lt_hash transaction, rg_index = lt_index transaction,
                  rg_publisher = publisher, rg_outcome = outcome\<rparr>)
      in case extract_registration_envelope transaction profile of
           Not_Registration \<Rightarrow> None
         | Rejected_Envelope publisher code \<Rightarrow>
             result publisher (Registration_Rejected (Envelope_Reason code) None)
         | Candidate publisher json_text \<Rightarrow>
             result publisher (interpret_memo lib transaction ledger profile cat publisher json_text))"

section \<open>Mutations of Credential objects\<close>

definition CREDENTIAL_ACCEPTED_FLAG :: int where "CREDENTIAL_ACCEPTED_FLAG = 0x10000"

datatype node_kind = Created_Node | Modified_Node | Deleted_Node

datatype event_type = Created | Accepted | Deleted

datatype deletion_cause =
    Issuer_Revoked | Subject_Rejected | Subject_Removed | Expired_Cleanup | Account_Deleted | Self_Deleted

record normalized_node =
  nn_kind :: node_kind
  nn_object_id :: jstr
  nn_fields :: jsval
  nn_previous :: jsval

record credential_mutation =
  cm_hash :: jstr
  cm_index :: int
  cm_node_index :: nat
  cm_object_id :: jstr
  cm_event :: event_type
  cm_issuer :: jstr
  cm_subject :: jstr
  cm_schema_uid :: jstr
  cm_uri_hex :: "jstr option"
  cm_expiration :: "int option"
  cm_accepted :: bool
  cm_cause :: "deletion_cause option"
  cm_snapshot :: jsval

definition node_kinds :: "(node_kind \<times> string) list" where
  "node_kinds = [(Created_Node, ''CreatedNode''), (Modified_Node, ''ModifiedNode''), (Deleted_Node, ''DeletedNode'')]"

text \<open>\<open>record(value)\<close>: the value when it is an object or an array.\<close>

definition js_record :: "jsval \<Rightarrow> jsval option" where
  "js_record v = (if object_like v then Some v else None)"

definition is_credential_node :: "jsval \<Rightarrow> bool" where
  "is_credential_node node \<longleftrightarrow> object_like node \<and> get node ''LedgerEntryType'' = jlit ''Credential''"

definition normalize_kind :: "jsval \<Rightarrow> node_kind \<Rightarrow> normalized_node option" where
  "normalize_kind node kind =
     (if \<not> string_that hash64_any (get node ''LedgerIndex'') then None
      else
        (let obj = (if kind = Created_Node then get node ''NewFields'' else get node ''FinalFields'') in
         if \<not> object_like obj then None
         else Some \<lparr>nn_kind = kind, nn_object_id = to_lower (str_of (get node ''LedgerIndex'')),
                nn_fields = obj,
                nn_previous = (if object_like (get node ''PreviousFields'') then get node ''PreviousFields''
                               else JObj Plain [])\<rparr>))"

definition normalize_node :: "jsval \<Rightarrow> normalized_node option" where
  "normalize_node value =
     (case js_record value of
        None \<Rightarrow> None
      | Some wrapper \<Rightarrow>
          (case find (\<lambda>(kind, key). is_credential_node (get wrapper key)) node_kinds of
             None \<Rightarrow> None
           | Some (kind, key) \<Rightarrow> normalize_kind (get wrapper key) kind))"

definition contains_credential :: "jsval \<Rightarrow> bool" where
  "contains_credential value \<longleftrightarrow>
     object_like value \<and> list_ex (\<lambda>(kind, key). is_credential_node (get value key)) node_kinds"

definition uint32_of :: "jsval \<Rightarrow> int option" where
  "uint32_of v = (if is_uint32 v then Some (int_of v) else None)"

definition flag_set :: "int option \<Rightarrow> bool" where
  "flag_set flags = (case flags of None \<Rightarrow> False | Some n \<Rightarrow> has_flag (NInt n) CREDENTIAL_ACCEPTED_FLAG)"

definition is_accepted :: "jsval \<Rightarrow> bool" where
  "is_accepted obj = flag_set (uint32_of (get obj ''Flags''))"

definition deletion_cause_of :: "jsval \<Rightarrow> jsval \<Rightarrow> jsval \<Rightarrow> int \<Rightarrow> deletion_cause" where
  "deletion_cause_of transaction_type actor obj close_time =
     (if transaction_type = jlit ''AccountDelete'' then Account_Deleted
      else if transaction_type = jlit ''CredentialDelete'' \<and> actor = get obj ''Issuer'' then Issuer_Revoked
      else if transaction_type = jlit ''CredentialDelete'' \<and> actor = get obj ''Subject''
      then (if is_accepted obj then Subject_Removed else Subject_Rejected)
      else case uint32_of (get obj ''Expiration'') of
        Some expiration \<Rightarrow> if expiration \<le> close_time then Expired_Cleanup else Self_Deleted
      | None \<Rightarrow> Self_Deleted)"

datatype node_outcome = Ignored | Malformed | Mutation credential_mutation

definition event_of_node :: "normalized_node \<Rightarrow> event_type option" where
  "event_of_node node =
     (case nn_kind node of
        Created_Node \<Rightarrow> Some Created
      | Deleted_Node \<Rightarrow> Some Deleted
      | Modified_Node \<Rightarrow>
          if \<not> is_accepted (nn_fields node) \<or> flag_set (uint32_of (get (nn_previous node) ''Flags''))
          then None else Some Accepted)"

definition well_typed_flags :: "normalized_node \<Rightarrow> bool" where
  "well_typed_flags node \<longleftrightarrow>
     \<not> (get (nn_fields node) ''Flags'' \<noteq> JUndef \<and> uint32_of (get (nn_fields node) ''Flags'') = None) \<and>
     \<not> (get (nn_fields node) ''Expiration'' \<noteq> JUndef \<and> uint32_of (get (nn_fields node) ''Expiration'') = None) \<and>
     \<not> (get (nn_previous node) ''Flags'' \<noteq> JUndef \<and> uint32_of (get (nn_previous node) ''Flags'') = None)"

definition node_outcome_of ::
  "'x core_lib_scheme \<Rightarrow> ledger_transaction \<Rightarrow> int \<Rightarrow> (jstr \<Rightarrow> bool) \<Rightarrow> jsval \<Rightarrow> nat \<Rightarrow> node_outcome" where
  "node_outcome_of lib transaction close_time known raw node_index =
     (if \<not> contains_credential raw then Ignored
      else case normalize_node raw of
        None \<Rightarrow> Malformed
      | Some node \<Rightarrow>
          (let obj = nn_fields node in
           if \<not> string_that (is_valid_classic_address lib) (get obj ''Issuer'') \<or>
              \<not> string_that (is_valid_classic_address lib) (get obj ''Subject'') \<or>
              \<not> string_that hash64_any (get obj ''CredentialType'')
           then Malformed
           else
             (let schema_uid = to_lower (str_of (get obj ''CredentialType'')) in
              if \<not> known schema_uid then Ignored
              else if \<not> well_typed_flags node then Malformed
              else case get obj ''URI'' of
                JStr uri_hex \<Rightarrow>
                  (case rbind (decode_hex_utf8 lib uri_hex) (parse_payload_uri lib) of
                     Inl _ \<Rightarrow> Malformed
                   | Inr _ \<Rightarrow>
                       (case event_of_node node of
                          None \<Rightarrow> Ignored
                        | Some event \<Rightarrow>
                            Mutation \<lparr>cm_hash = lt_hash transaction, cm_index = lt_index transaction,
                              cm_node_index = node_index, cm_object_id = nn_object_id node,
                              cm_event = event, cm_issuer = str_of (get obj ''Issuer''),
                              cm_subject = str_of (get obj ''Subject''),
                              cm_schema_uid = schema_uid, cm_uri_hex = Some uri_hex,
                              cm_expiration = uint32_of (get obj ''Expiration''),
                              cm_accepted = is_accepted obj,
                              cm_cause = (if event = Deleted
                                then Some (deletion_cause_of
                                  (get (lt_transaction transaction) ''TransactionType'')
                                  (get (lt_transaction transaction) ''Account'') obj close_time)
                                else None),
                              cm_snapshot = JObj Plain (entries_of obj)\<rparr>))
              | _ \<Rightarrow> Malformed)))"

text \<open>The loop over the affected nodes: the mutations in node order and the number of malformed nodes.\<close>

definition extract_credential_mutations ::
  "'x core_lib_scheme \<Rightarrow> ledger_transaction \<Rightarrow> int \<Rightarrow> (jstr \<Rightarrow> bool) \<Rightarrow> credential_mutation list \<times> nat" where
  "extract_credential_mutations lib transaction close_time known =
     (let nodes = array_items (get (lt_metadata transaction) ''AffectedNodes'');
          outcomes = map2 (node_outcome_of lib transaction close_time known) nodes [0..<length nodes]
      in (concat (map (\<lambda>r. case r of Mutation m \<Rightarrow> [m] | _ \<Rightarrow> []) outcomes),
          length (filter (\<lambda>r. r = Malformed) outcomes)))"

section \<open>Projection of a ledger\<close>

record ledger_projection =
  lp_ledger :: validated_ledger
  lp_registrations :: "schema_registration list"
  lp_mutations :: "credential_mutation list"
  lp_malformed :: nat

definition entry_of_registration ::
  "network_profile \<Rightarrow> int \<Rightarrow> schema_registration \<Rightarrow> catalog_entry option" where
  "entry_of_registration profile ledger_index registration =
     (case rg_outcome registration of
        Registration_Accepted uid memo schema resolved \<Rightarrow>
          Some \<lparr>ct_uid = uid, ct_definition = schema, ct_resolved = resolved,
            ct_publisher = rg_publisher registration, ct_network_id = profile_network_id profile,
            ct_ledger_index = ledger_index, ct_transaction_index = rg_index registration,
            ct_hash = rg_hash registration\<rparr>
      | _ \<Rightarrow> None)"

definition add_registration :: "network_profile \<Rightarrow> int \<Rightarrow> schema_registration \<Rightarrow> catalog \<Rightarrow> catalog" where
  "add_registration profile ledger_index registration cat =
     (case entry_of_registration profile ledger_index registration of
        None \<Rightarrow> cat
      | Some entry \<Rightarrow> cat(ct_uid entry \<mapsto> entry))"

fun project_transactions ::
  "'x core_lib_scheme \<Rightarrow> validated_ledger \<Rightarrow> network_profile \<Rightarrow> catalog \<Rightarrow> ledger_transaction list \<Rightarrow>
    schema_registration list \<times> credential_mutation list \<times> nat" where
  "project_transactions lib ledger profile cat [] = ([], [], 0)"
| "project_transactions lib ledger profile cat (transaction # rest) =
     (let registration = interpret_schema_registration lib transaction ledger profile cat;
          cat' = (case registration of None \<Rightarrow> cat
                  | Some r \<Rightarrow> add_registration profile (vl_index ledger) r cat);
          extracted = extract_credential_mutations lib transaction (vl_close_time ledger)
                        (\<lambda>uid. cat' uid \<noteq> None);
          (registrations, mutations, malformed) = project_transactions lib ledger profile cat' rest
      in ((case registration of None \<Rightarrow> [] | Some r \<Rightarrow> [r]) @ registrations,
          fst extracted @ mutations, snd extracted + malformed))"

definition project_ledger ::
  "'x core_lib_scheme \<Rightarrow> validated_ledger \<Rightarrow> network_profile \<Rightarrow> catalog \<Rightarrow> ierr + ledger_projection" where
  "project_ledger lib ledger profile initial_catalog =
     rbind (assert_transaction_ordering ledger) (\<lambda>_.
       let (registrations, mutations, malformed) =
         project_transactions lib ledger profile initial_catalog (vl_transactions ledger)
       in Inr \<lparr>lp_ledger = ledger, lp_registrations = registrations, lp_mutations = mutations,
               lp_malformed = malformed\<rparr>)"

section \<open>What a mutation is\<close>

text \<open>The shape of every mutation the indexer records.\<close>

definition mutation_ok :: "'x core_lib_scheme \<Rightarrow> credential_mutation \<Rightarrow> bool" where
  "mutation_ok lib m \<longleftrightarrow>
     hash64 (cm_object_id m) \<and> hash64 (cm_schema_uid m) \<and>
     is_valid_classic_address lib (cm_issuer m) \<and> is_valid_classic_address lib (cm_subject m) \<and>
     (\<exists>hex uri r. cm_uri_hex m = Some hex \<and> decode_hex_utf8 lib hex = Inr uri \<and>
        parse_payload_uri lib uri = Inr r) \<and>
     (\<forall>e \<in> set_option (cm_expiration m). 0 \<le> e \<and> e \<le> uint32_max) \<and>
     (cm_cause m \<noteq> None \<longleftrightarrow> cm_event m = Deleted) \<and>
     (cm_event m = Accepted \<longrightarrow> cm_accepted m)"

lemma normalize_node_Some:
  "normalize_node value = Some node \<Longrightarrow> hash64 (nn_object_id node)"
  by (auto simp: normalize_node_def normalize_kind_def js_record_def Let_def if_None_eq_Some
      string_that_iff hash64_any_lower split: option.splits prod.splits if_splits)

lemma node_outcome_Mutation:
  assumes "node_outcome_of lib transaction close_time known raw i = Mutation m"
  shows "mutation_ok lib m \<and> known (cm_schema_uid m) \<and> cm_hash m = lt_hash transaction \<and>
    cm_index m = lt_index transaction \<and> cm_node_index m = i"
proof -
  obtain node where node: "normalize_node raw = Some node"
    using assms by (auto simp: node_outcome_of_def split: if_splits option.splits)
  note ids = normalize_node_Some [OF node]
  let ?obj = "nn_fields node"
  have c: "string_that (is_valid_classic_address lib) (get ?obj ''Issuer'')"
    "string_that (is_valid_classic_address lib) (get ?obj ''Subject'')"
    "string_that hash64_any (get ?obj ''CredentialType'')"
    using assms by (auto simp: node_outcome_of_def node Let_def split: if_splits)
  obtain hex event uri where hex: "get ?obj ''URI'' = JStr hex"
    and uri: "rbind (decode_hex_utf8 lib hex) (parse_payload_uri lib) = Inr uri"
    and event: "event_of_node node = Some event"
    using assms c
    by (auto simp: node_outcome_of_def node Let_def split: if_splits jsval.splits sum.splits option.splits)
  have m: "known (to_lower (str_of (get ?obj ''CredentialType'')))"
    "m = \<lparr>cm_hash = lt_hash transaction, cm_index = lt_index transaction,
       cm_node_index = i, cm_object_id = nn_object_id node, cm_event = event,
       cm_issuer = str_of (get ?obj ''Issuer''), cm_subject = str_of (get ?obj ''Subject''),
       cm_schema_uid = to_lower (str_of (get ?obj ''CredentialType'')), cm_uri_hex = Some hex,
       cm_expiration = uint32_of (get ?obj ''Expiration''), cm_accepted = is_accepted ?obj,
       cm_cause = (if event = Deleted then Some (deletion_cause_of
           (get (lt_transaction transaction) ''TransactionType'')
           (get (lt_transaction transaction) ''Account'') ?obj close_time) else None),
       cm_snapshot = JObj Plain (entries_of ?obj)\<rparr>"
    using assms c hex uri event by (simp_all add: node_outcome_of_def node Let_def split: if_splits)
  have acc: "event = Accepted \<Longrightarrow> is_accepted ?obj"
    using event by (auto simp: event_of_node_def split: node_kind.splits if_splits)
  have ex: "\<forall>e \<in> set_option (uint32_of (get ?obj ''Expiration'')). 0 \<le> e \<and> e \<le> uint32_max"
    by (auto simp: uint32_of_def is_uint32_iff split: if_splits)
  show ?thesis
    using c ids m(1) acc ex uri unfolding m(2) mutation_ok_def
    by (auto simp: string_that_iff hash64_any_lower rbind_eq_Inr)
qed

text \<open>Mutations in the order of the ledger: by transaction and, within one, by affected node.\<close>

definition mutation_before :: "credential_mutation \<Rightarrow> credential_mutation \<Rightarrow> bool" where
  "mutation_before m n \<longleftrightarrow> cm_index m < cm_index n \<or> (cm_index m = cm_index n \<and> cm_node_index m < cm_node_index n)"

lemma outcomes_sorted:
  assumes "list_all2 (\<lambda>r i. \<forall>m. r = Mutation m \<longrightarrow> cm_index m = t \<and> cm_node_index m = i) outcomes ps"
    and "sorted_wrt (<) ps"
  shows "sorted_wrt mutation_before (concat (map (\<lambda>r. case r of Mutation m \<Rightarrow> [m] | _ \<Rightarrow> []) outcomes))"
  using assms
proof (induction outcomes ps rule: list_all2_induct)
  case (Cons r rs i js)
  have "cm_index m = t \<and> (\<exists>j \<in> set js. cm_node_index m = j)"
    if "Mutation m \<in> set rs" for m
    using Cons(2) that by (auto simp: list_all2_conv_all_nth set_conv_nth)
  then have "mutation_before m n" if "r = Mutation m" "Mutation n \<in> set rs" for m n
    using Cons(1,4) that unfolding mutation_before_def by auto
  then show ?case
    using Cons(3,4) by (auto simp: sorted_wrt_append split: node_outcome.splits)
qed simp

lemma extracted_mutations:
  "m \<in> set (fst (extract_credential_mutations lib transaction close_time known)) \<Longrightarrow>
     mutation_ok lib m \<and> known (cm_schema_uid m) \<and> cm_hash m = lt_hash transaction \<and>
     cm_index m = lt_index transaction"
  by (auto simp: extract_credential_mutations_def Let_def split: node_outcome.splits
      dest!: node_outcome_Mutation [OF sym] in_set_zipE)

lemma extracted_sorted:
  "sorted_wrt mutation_before (fst (extract_credential_mutations lib transaction close_time known))"
  unfolding extract_credential_mutations_def Let_def fst_conv
  by (rule outcomes_sorted [where t = "lt_index transaction" and
        ps = "[0..<length (array_items (get (lt_metadata transaction) ''AffectedNodes''))]"])
    (auto simp: list_all2_conv_all_nth dest: node_outcome_Mutation)

section \<open>What a registration is\<close>

text \<open>An accepted registration: the canonical memo of the payment, its schema, what it resolves to in
  the catalog, and the UID of its ledger coordinates.\<close>

definition registration_ok ::
  "'x core_lib_scheme \<Rightarrow> network_profile \<Rightarrow> validated_ledger \<Rightarrow> catalog \<Rightarrow> ledger_transaction \<Rightarrow>
    schema_registration \<Rightarrow> bool" where
  "registration_ok lib profile ledger cat transaction r \<longleftrightarrow>
     rg_hash r = lt_hash transaction \<and> rg_index r = lt_index transaction \<and>
     (\<forall>uid memo schema resolved. rg_outcome r = Registration_Accepted uid memo schema resolved \<longrightarrow>
        is_exact_payment transaction profile \<and>
        get (lt_transaction transaction) ''Account'' = JStr (rg_publisher r) \<and>
        (\<exists>json_text. extract_registration_envelope transaction profile = Candidate (rg_publisher r) json_text \<and>
           parse_json lib (Text json_text) = Inr memo \<and> canonical_json lib memo = Inr json_text) \<and>
        parse_schema memo = Inr schema \<and>
        resolve_schema lib (getter_of cat) (schema_value schema)
          (resolution_context_of profile (rg_publisher r) ledger transaction) = Inr resolved \<and>
        compute_schema_uid lib (uid_input_of profile (rg_publisher r) ledger transaction schema) = Inr uid)"

lemma interpret_memo_accepted:
  "interpret_memo lib transaction ledger profile cat publisher json_text =
     Registration_Accepted uid memo schema resolved \<Longrightarrow>
   parse_json lib (Text json_text) = Inr memo \<and> canonical_json lib memo = Inr json_text \<and>
   parse_schema memo = Inr schema \<and>
   resolve_schema lib (getter_of cat) (schema_value schema)
     (resolution_context_of profile publisher ledger transaction) = Inr resolved \<and>
   compute_schema_uid lib (uid_input_of profile publisher ledger transaction schema) = Inr uid"
  by (auto simp: interpret_memo_def rbind_eq_Inr split: sum.splits if_splits prod.splits)

lemma candidate_envelope:
  "extract_registration_envelope transaction profile = Candidate publisher json_text \<Longrightarrow>
     is_exact_payment transaction profile \<and> get (lt_transaction transaction) ''Account'' = JStr publisher"
  by (auto simp: extract_registration_envelope_def Let_def split: if_splits option.splits jsval.splits)

lemma interpret_registration_ok:
  "interpret_schema_registration lib transaction ledger profile cat = Some r \<Longrightarrow>
     registration_ok lib profile ledger cat transaction r"
  unfolding interpret_schema_registration_def registration_ok_def Let_def
  by (auto split: envelope_result.splits dest: candidate_envelope interpret_memo_accepted)

section \<open>What a projection is\<close>

text \<open>The catalog after the registrations of a list.\<close>

definition add_registrations ::
  "network_profile \<Rightarrow> int \<Rightarrow> schema_registration list \<Rightarrow> catalog \<Rightarrow> catalog" where
  "add_registrations profile ledger_index = fold (add_registration profile ledger_index)"

lemma add_registration_dom:
  "dom (add_registration profile i r cat) =
     dom cat \<union> {uid. \<exists>memo schema resolved. rg_outcome r = Registration_Accepted uid memo schema resolved}"
  by (auto simp: add_registration_def entry_of_registration_def split: registration_outcome.splits)

text \<open>The registrations before a position, the only ones a transaction at it can see.\<close>

definition registrations_before :: "int \<Rightarrow> schema_registration list \<Rightarrow> schema_registration list" where
  "registrations_before i rs = filter (\<lambda>r. rg_index r < i) rs"

definition accepted_uid :: "schema_registration \<Rightarrow> jstr option" where
  "accepted_uid r = (case rg_outcome r of Registration_Accepted uid _ _ _ \<Rightarrow> Some uid | _ \<Rightarrow> None)"

lemma project_transactions_registrations:
  assumes "project_transactions lib ledger profile cat ts = (rs, ms, n)" and "ordered_from p ts"
  shows "sorted_wrt (\<lambda>r q. rg_index r < rg_index q) rs \<and>
    (\<forall>r \<in> set rs. p \<le> rg_index r \<and> (\<exists>t \<in> set ts. registration_ok lib profile ledger
       (add_registrations profile (vl_index ledger) (registrations_before (rg_index r) rs) cat) t r))"
  using assms
proof (induction ts arbitrary: cat rs ms n p)
  case Nil
  then show ?case by simp
next
  case (Cons t ts)
  let ?reg = "interpret_schema_registration lib t ledger profile cat"
  let ?cat = "case ?reg of None \<Rightarrow> cat | Some r \<Rightarrow> add_registration profile (vl_index ledger) r cat"
  obtain rs' ms' n' where rest: "project_transactions lib ledger profile ?cat ts = (rs', ms', n')"
    by (metis prod_cases3)
  have rs: "rs = (case ?reg of None \<Rightarrow> [] | Some r \<Rightarrow> [r]) @ rs'"
    using Cons(2) rest by (simp add: Let_def split: prod.splits)
  have p: "lt_index t = p" "ordered_from (p + 1) ts" using Cons(3) by simp_all
  note ih = Cons(1) [OF rest p(2)]
  show ?case
  proof (cases ?reg)
    case None
    then show ?thesis using ih rs by fastforce
  next
    case (Some r)
    note ok = interpret_registration_ok [OF Some]
    have ri: "rg_index r = p" using ok p by (simp add: registration_ok_def)
    have before_r: "registrations_before (rg_index r) rs = []"
      using ih ri rs Some by (auto simp: registrations_before_def filter_empty_conv)
    have before_q: "registrations_before (rg_index q) rs = r # registrations_before (rg_index q) rs'"
      if "q \<in> set rs'" for q
      using ih ri rs Some that by (auto simp: registrations_before_def)
    show ?thesis
      using ih ok ri rs Some before_r before_q
      by (fastforce simp: add_registrations_def)
  qed
qed

lemma add_registration_known:
  "add_registration profile i r cat uid \<noteq> None \<longleftrightarrow> cat uid \<noteq> None \<or> accepted_uid r = Some uid"
  by (auto simp: add_registration_def entry_of_registration_def accepted_uid_def
      split: registration_outcome.splits)

lemma project_transactions_mutations:
  assumes "project_transactions lib ledger profile cat ts = (rs, ms, n)" and "ordered_from p ts"
  shows "sorted_wrt mutation_before ms \<and>
    (\<forall>m \<in> set ms. mutation_ok lib m \<and> p \<le> cm_index m \<and> (\<exists>t \<in> set ts. cm_hash m = lt_hash t \<and> cm_index m = lt_index t) \<and>
       (cat (cm_schema_uid m) \<noteq> None \<or>
        (\<exists>r \<in> set rs. accepted_uid r = Some (cm_schema_uid m) \<and> rg_index r \<le> cm_index m)))"
  using assms
proof (induction ts arbitrary: cat rs ms n p)
  case Nil
  then show ?case by simp
next
  case (Cons t ts)
  let ?reg = "interpret_schema_registration lib t ledger profile cat"
  let ?cat = "case ?reg of None \<Rightarrow> cat | Some r \<Rightarrow> add_registration profile (vl_index ledger) r cat"
  let ?here = "fst (extract_credential_mutations lib t (vl_close_time ledger) (\<lambda>uid. ?cat uid \<noteq> None))"
  obtain rs' ms' n' where rest: "project_transactions lib ledger profile ?cat ts = (rs', ms', n')"
    by (metis prod_cases3)
  have eqs: "rs = (case ?reg of None \<Rightarrow> [] | Some r \<Rightarrow> [r]) @ rs'" "ms = ?here @ ms'"
    using Cons(2) rest by (simp_all add: Let_def split: prod.splits)
  have p: "lt_index t = p" "ordered_from (p + 1) ts" using Cons(3) by simp_all
  note ih = Cons(1) [OF rest p(2)]
  have first: "?cat uid \<noteq> None \<longleftrightarrow> cat uid \<noteq> None \<or>
      (\<exists>r. ?reg = Some r \<and> accepted_uid r = Some uid \<and> rg_index r = p)" for uid
  proof (cases ?reg)
    case (Some r)
    then have "rg_index r = p"
      using interpret_registration_ok [OF Some] p(1) by (simp add: registration_ok_def)
    then show ?thesis using Some add_registration_known by simp
  qed simp
  have here: "mutation_ok lib m \<and> cm_index m = p \<and> cm_hash m = lt_hash t \<and> ?cat (cm_schema_uid m) \<noteq> None"
    if "m \<in> set ?here" for m
    using extracted_mutations [OF that] p(1) by simp
  have later: "p < cm_index m" if "m \<in> set ms'" for m
    using ih that by fastforce
  have "mutation_before m n" if "m \<in> set ?here" "n \<in> set ms'" for m n
    using here [OF that(1)] later [OF that(2)] by (simp add: mutation_before_def)
  then have sorted: "sorted_wrt mutation_before ms"
    using extracted_sorted ih unfolding eqs sorted_wrt_append by blast
  have known: "cat (cm_schema_uid m) \<noteq> None \<or>
      (\<exists>r \<in> set rs. accepted_uid r = Some (cm_schema_uid m) \<and> rg_index r \<le> cm_index m)"
    if "m \<in> set ms" for m
  proof (cases "m \<in> set ?here")
    case True
    then show ?thesis using here [OF True] first [of "cm_schema_uid m"] by (auto simp: eqs)
  next
    case False
    then have m: "m \<in> set ms'" using that eqs by simp
    then have "?cat (cm_schema_uid m) \<noteq> None \<or>
        (\<exists>r \<in> set rs'. accepted_uid r = Some (cm_schema_uid m) \<and> rg_index r \<le> cm_index m)"
      using ih by blast
    then show ?thesis
      using first [of "cm_schema_uid m"] later [OF m] by (fastforce simp: eqs)
  qed
  have rest_ok: "mutation_ok lib m \<and> p \<le> cm_index m \<and>
      (\<exists>u \<in> set (t # ts). cm_hash m = lt_hash u \<and> cm_index m = lt_index u)" if "m \<in> set ms" for m
  proof (cases "m \<in> set ?here")
    case True
    then show ?thesis using here [OF True] p(1) by auto
  next
    case False
    then have "m \<in> set ms'" using that eqs by simp
    then show ?thesis using ih by fastforce
  qed
  show ?case using sorted known rest_ok by blast
qed

end
