(* ===== verification/Database_Schema.thy ===== *)
theory Database_Schema
  imports Indexer_Projection
begin

text \<open>
  The tables of the indexer and their constraints (\<open>db/schema/common.ts\<close>, \<open>profiles.ts\<close>,
  \<open>indexer.ts\<close>, \<open>catalog.ts\<close>, \<open>credentials.ts\<close>): one record per table, its CHECK constraints as a
  predicate, its primary key and unique indexes as a relation between conflicting rows, its foreign
  keys as a condition on the database. Columns the database fills in itself (\<open>created_at\<close>,
  \<open>updated_at\<close> of generations, \<open>recorded_at\<close>, \<open>processed_at\<close>, \<open>enabled\<close>) are left out, and so are
  the indexes that are not unique.
\<close>

section \<open>Columns\<close>

text \<open>
  What PostgreSQL can store: text without U+0000, and \<open>jsonb\<close> whose strings and keys are well-formed
  and without U+0000.
\<close>

definition storable_text :: "jstr \<Rightarrow> bool" where
  "storable_text s \<longleftrightarrow> (0 :: cu) \<notin> set s"

fun storable_json :: "jsval \<Rightarrow> bool" where
  "storable_json (JStr s) = (storable_text s \<and> well_formed s)"
| "storable_json (JArr xs) = list_all storable_json xs"
| "storable_json (JObj p kvs) =
     list_all (\<lambda>(k, v). storable_text k \<and> well_formed k \<and> storable_json v) kvs"
| "storable_json v = True"

text \<open>The patterns of \<open>common.ts\<close>.\<close>

definition is_base58 :: "cu \<Rightarrow> bool" where
  "is_base58 c \<longleftrightarrow>
     between CHR ''1'' CHR ''9'' c \<or> between CHR ''A'' CHR ''H'' c \<or> between CHR ''J'' CHR ''N'' c \<or>
     between CHR ''P'' CHR ''Z'' c \<or> between CHR ''a'' CHR ''k'' c \<or> between CHR ''m'' CHR ''z'' c"

definition address_pattern :: "jstr \<Rightarrow> bool" where
  "address_pattern s \<longleftrightarrow>
     (case s of [] \<Rightarrow> False
      | c # cs \<Rightarrow> c = ch CHR ''r'' \<and> 24 \<le> length cs \<and> length cs \<le> 34 \<and> list_all is_base58 cs)"

definition error_code_pattern :: "jstr \<Rightarrow> bool" where
  "error_code_pattern s \<longleftrightarrow>
     (case s of [] \<Rightarrow> False
      | c # cs \<Rightarrow> is_upper c \<and> length cs \<le> 63 \<and>
          list_all (\<lambda>d. is_upper d \<or> is_digit d \<or> d = ch CHR ''_'') cs)"

definition is_alphanumeric :: "cu \<Rightarrow> bool" where
  "is_alphanumeric c \<longleftrightarrow> is_upper c \<or> is_lower c \<or> is_digit c"

definition writer_id_pattern :: "jstr \<Rightarrow> bool" where
  "writer_id_pattern s \<longleftrightarrow>
     (case s of [] \<Rightarrow> False
      | c # cs \<Rightarrow> is_alphanumeric c \<and> length cs \<le> 127 \<and>
          list_all (\<lambda>d. is_alphanumeric d \<or> d \<in> {ch CHR ''.'', ch CHR ''_'', ch CHR '':'', ch CHR ''-''}) cs)"

definition uint32_range :: "int \<Rightarrow> bool" where
  "uint32_range n \<longleftrightarrow> 0 \<le> n \<and> n \<le> 4294967295"

definition int4_range :: "int \<Rightarrow> bool" where
  "int4_range n \<longleftrightarrow> 0 \<le> n \<and> n \<le> 2147483647"

text \<open>\<open>IS NULL OR p\<close>.\<close>

definition null_or :: "('a \<Rightarrow> bool) \<Rightarrow> 'a option \<Rightarrow> bool" where
  "null_or p v = (case v of None \<Rightarrow> True | Some x \<Rightarrow> p x)"

lemma null_or_iff [simp]: "null_or p v \<longleftrightarrow> (\<forall>x \<in> set_option v. p x)"
  by (cases v) (auto simp: null_or_def)

section \<open>Network profiles and checkpoints\<close>

record profile_row =
  np_id :: jstr
  np_version :: jstr
  np_network_id :: int
  np_amendment :: jstr
  np_registry :: jstr
  np_drops :: int
  np_activation_index :: int
  np_activation_hash :: jstr

definition profile_row_ok :: "profile_row \<Rightarrow> bool" where
  "profile_row_ok r \<longleftrightarrow>
     storable_text (np_id r) \<and> storable_text (np_amendment r) \<and> np_version r = lit ''0.1'' \<and>
     uint32_range (np_network_id r) \<and> np_drops r = 1 \<and>
     1 \<le> np_activation_index r \<and> np_activation_index r \<le> 4294967295 \<and>
     hash64 (np_activation_hash r) \<and> address_pattern (np_registry r)"

definition same_profile :: "profile_row \<Rightarrow> profile_row \<Rightarrow> bool" where
  "same_profile r q \<longleftrightarrow> np_id r = np_id q"

record checkpoint_row =
  ck_profile :: jstr
  ck_index :: int
  ck_hash :: jstr
  ck_parent :: jstr
  ck_close_time :: int
  ck_count :: int
  ck_root :: "jstr option"

definition checkpoint_row_ok :: "checkpoint_row \<Rightarrow> bool" where
  "checkpoint_row_ok r \<longleftrightarrow>
     uint32_range (ck_index r) \<and> hash64 (ck_hash r) \<and> hash64 (ck_parent r) \<and>
     uint32_range (ck_close_time r) \<and> int4_range (ck_count r) \<and>
     ck_root r \<noteq> None \<and> null_or hash64 (ck_root r)"

definition same_checkpoint :: "checkpoint_row \<Rightarrow> checkpoint_row \<Rightarrow> bool" where
  "same_checkpoint r q \<longleftrightarrow> ck_profile r = ck_profile q \<and> (ck_index r = ck_index q \<or> ck_hash r = ck_hash q)"

section \<open>Indexer status and incidents\<close>

datatype status_state = Starting | Catching_Up | Ready | Halted

record status_row =
  ss_profile :: jstr
  ss_state :: status_state
  ss_primary :: "int option"
  ss_secondary :: "int option"
  ss_agreed_index :: "int option"
  ss_agreed_hash :: "jstr option"
  ss_error :: "jstr option"
  ss_writer :: "jstr option"
  ss_epoch :: int
  ss_expires :: "int option"
  ss_updated :: int

definition MAX_SAFE_EPOCH :: int where "MAX_SAFE_EPOCH = 9007199254740991"

definition agreed_ledger_ok :: "int option \<Rightarrow> jstr option \<Rightarrow> bool" where
  "agreed_ledger_ok index hash \<longleftrightarrow>
     (index = None \<and> hash = None) \<or>
     (index \<noteq> None \<and> hash \<noteq> None \<and> null_or uint32_range index \<and> null_or hash64 hash)"

definition agreed_not_ahead :: "status_row \<Rightarrow> bool" where
  "agreed_not_ahead r \<longleftrightarrow>
     ss_state r = Halted \<or> ss_agreed_index r = None \<or>
     (null_or (\<lambda>tip. null_or (\<lambda>i. i \<le> tip) (ss_agreed_index r)) (ss_primary r) \<and>
      null_or (\<lambda>tip. null_or (\<lambda>i. i \<le> tip) (ss_agreed_index r)) (ss_secondary r))"

definition ready_shape :: "status_row \<Rightarrow> bool" where
  "ready_shape r \<longleftrightarrow>
     ss_state r \<noteq> Ready \<or>
     (case (ss_primary r, ss_secondary r, ss_agreed_index r) of
        (Some p, Some s, Some i) \<Rightarrow>
          ss_agreed_hash r \<noteq> None \<and> ss_writer r \<noteq> None \<and> ss_expires r \<noteq> None \<and> i = min p s
      | _ \<Rightarrow> False)"

definition lease_window_ok :: "status_row \<Rightarrow> bool" where
  "lease_window_ok r \<longleftrightarrow>
     (ss_writer r = None \<and> ss_expires r = None) \<or>
     (ss_writer r \<noteq> None \<and> ss_expires r \<noteq> None \<and>
      null_or (\<lambda>e. ss_updated r \<le> e \<and> e \<le> ss_updated r + 300000) (ss_expires r))"

definition status_row_ok :: "status_row \<Rightarrow> bool" where
  "status_row_ok r \<longleftrightarrow>
     null_or uint32_range (ss_primary r) \<and> null_or uint32_range (ss_secondary r) \<and>
     agreed_ledger_ok (ss_agreed_index r) (ss_agreed_hash r) \<and> agreed_not_ahead r \<and> ready_shape r \<and>
     null_or error_code_pattern (ss_error r) \<and> (ss_state r = Halted \<longleftrightarrow> ss_error r \<noteq> None) \<and>
     null_or writer_id_pattern (ss_writer r) \<and>
     1 \<le> ss_epoch r \<and> ss_epoch r \<le> MAX_SAFE_EPOCH \<and> lease_window_ok r"

definition same_status :: "status_row \<Rightarrow> status_row \<Rightarrow> bool" where
  "same_status r q \<longleftrightarrow> ss_profile r = ss_profile q"

record incident_row =
  ii_profile :: jstr
  ii_epoch :: int
  ii_error :: jstr
  ii_primary :: "int option"
  ii_secondary :: "int option"
  ii_agreed_index :: "int option"
  ii_agreed_hash :: "jstr option"

definition incident_row_ok :: "incident_row \<Rightarrow> bool" where
  "incident_row_ok r \<longleftrightarrow>
     1 \<le> ii_epoch r \<and> ii_epoch r \<le> MAX_SAFE_EPOCH \<and> error_code_pattern (ii_error r) \<and>
     null_or uint32_range (ii_primary r) \<and> null_or uint32_range (ii_secondary r) \<and>
     agreed_ledger_ok (ii_agreed_index r) (ii_agreed_hash r)"

definition same_incident :: "incident_row \<Rightarrow> incident_row \<Rightarrow> bool" where
  "same_incident r q \<longleftrightarrow> ii_profile r = ii_profile q \<and> ii_epoch r = ii_epoch q"

section \<open>Schema events and schemas\<close>

record schema_event_row =
  se_profile :: jstr
  se_hash :: jstr
  se_ledger_index :: int
  se_ledger_hash :: jstr
  se_index :: int
  se_publisher :: jstr
  se_accepted :: bool
  se_reason :: "reason option"
  se_uid :: "jstr option"
  se_memo :: "jsval option"

definition schema_event_row_ok :: "schema_event_row \<Rightarrow> bool" where
  "schema_event_row_ok r \<longleftrightarrow>
     hash64 (se_hash r) \<and> hash64 (se_ledger_hash r) \<and> uint32_range (se_ledger_index r) \<and>
     int4_range (se_index r) \<and> storable_text (se_publisher r) \<and>
     null_or storable_json (se_memo r) \<and>
     (if se_accepted r then se_uid r \<noteq> None \<and> se_reason r = None \<and> se_memo r \<noteq> None
      else se_uid r = None \<and> se_reason r \<noteq> None) \<and>
     null_or hash64 (se_uid r)"

definition same_schema_event :: "schema_event_row \<Rightarrow> schema_event_row \<Rightarrow> bool" where
  "same_schema_event r q \<longleftrightarrow> se_profile r = se_profile q \<and> se_hash r = se_hash q"

record schema_row =
  sc_profile :: jstr
  sc_uid :: jstr
  sc_publisher :: jstr
  sc_parent :: "jstr option"
  sc_supersedes :: "jstr option"
  sc_definition :: schema_definition
  sc_resolved :: resolved_schema
  sc_hash :: jstr
  sc_ledger_index :: int
  sc_index :: int

text \<open>
  The columns \<open>name\<close> and \<open>description\<close> repeat those of the definition. The resolved schema is stored
  as the object with its three properties.
\<close>

definition resolved_value :: "resolved_schema \<Rightarrow> jsval" where
  "resolved_value r = JObj Plain
     [(lit ''definition'', schema_value (resolved_definition r)), (lit ''fields'', fields_value (resolved_fields r)),
      (lit ''lineage'', JArr (map JStr (lineage r)))]"

definition schema_row_ok :: "schema_row \<Rightarrow> bool" where
  "schema_row_ok r \<longleftrightarrow>
     storable_text (sc_publisher r) \<and> storable_text (schema_name (sc_definition r)) \<and>
     storable_text (description (sc_definition r)) \<and> storable_json (schema_value (sc_definition r)) \<and>
     storable_json (resolved_value (sc_resolved r)) \<and>
     hash64 (sc_uid r) \<and> null_or hash64 (sc_parent r) \<and> null_or hash64 (sc_supersedes r) \<and>
     hash64 (sc_hash r) \<and> uint32_range (sc_ledger_index r) \<and> int4_range (sc_index r)"

definition same_schema :: "schema_row \<Rightarrow> schema_row \<Rightarrow> bool" where
  "same_schema r q \<longleftrightarrow> sc_profile r = sc_profile q \<and> (sc_uid r = sc_uid q \<or> sc_hash r = sc_hash q)"

section \<open>Credential generations and events\<close>

record generation_row =
  gr_profile :: jstr
  gr_id :: jstr
  gr_object_id :: jstr
  gr_issuer :: jstr
  gr_subject :: jstr
  gr_schema_uid :: jstr
  gr_uri_hex :: "jstr option"
  gr_expiration :: "int option"
  gr_accepted :: bool
  gr_created_ledger :: int
  gr_created_index :: int
  gr_last_ledger :: int
  gr_deleted_ledger :: "int option"
  gr_cause :: "deletion_cause option"

definition generation_row_ok :: "generation_row \<Rightarrow> bool" where
  "generation_row_ok r \<longleftrightarrow>
     hash64 (gr_id r) \<and> hash64 (gr_object_id r) \<and> hash64 (gr_schema_uid r) \<and>
     null_or uint32_range (gr_expiration r) \<and> uint32_range (gr_created_ledger r) \<and>
     int4_range (gr_created_index r) \<and> uint32_range (gr_last_ledger r) \<and>
     null_or uint32_range (gr_deleted_ledger r) \<and>
     gr_created_ledger r \<le> gr_last_ledger r \<and> null_or (\<lambda>d. d = gr_last_ledger r) (gr_deleted_ledger r) \<and>
     (gr_deleted_ledger r = None \<longleftrightarrow> gr_cause r = None)"

definition live :: "generation_row \<Rightarrow> bool" where
  "live r \<longleftrightarrow> gr_deleted_ledger r = None"

definition same_generation :: "generation_row \<Rightarrow> generation_row \<Rightarrow> bool" where
  "same_generation r q \<longleftrightarrow> gr_profile r = gr_profile q \<and>
     (gr_id r = gr_id q \<or>
      (live r \<and> live q \<and> gr_issuer r = gr_issuer q \<and> gr_subject r = gr_subject q \<and>
       gr_schema_uid r = gr_schema_uid q))"

record event_row =
  ce_profile :: jstr
  ce_hash :: jstr
  ce_node_index :: nat
  ce_generation :: jstr
  ce_object_id :: jstr
  ce_ledger_index :: int
  ce_ledger_hash :: jstr
  ce_index :: int
  ce_type :: event_type
  ce_issuer :: jstr
  ce_subject :: jstr
  ce_schema_uid :: jstr
  ce_uri_hex :: "jstr option"
  ce_expiration :: "int option"
  ce_accepted :: bool
  ce_cause :: "deletion_cause option"
  ce_snapshot :: jsval

definition event_row_ok :: "event_row \<Rightarrow> bool" where
  "event_row_ok r \<longleftrightarrow>
     hash64 (ce_hash r) \<and> hash64 (ce_object_id r) \<and> hash64 (ce_ledger_hash r) \<and> hash64 (ce_schema_uid r) \<and>
     int4_range (int (ce_node_index r)) \<and> uint32_range (ce_ledger_index r) \<and> int4_range (ce_index r) \<and>
     null_or uint32_range (ce_expiration r) \<and> storable_json (ce_snapshot r) \<and>
     (ce_type r = Deleted \<longleftrightarrow> ce_cause r \<noteq> None)"

definition same_event :: "event_row \<Rightarrow> event_row \<Rightarrow> bool" where
  "same_event r q \<longleftrightarrow> ce_profile r = ce_profile q \<and> ce_hash r = ce_hash q \<and> ce_node_index r = ce_node_index q"

section \<open>Tables\<close>

text \<open>
  Statements on a table: an insertion throws when the row violates a CHECK constraint, conflicts with
  a row, or refers to a row that does not exist; with \<open>ON CONFLICT DO NOTHING\<close> a conflict skips the
  row instead. An update throws when a changed row violates a CHECK constraint.
\<close>

definition insert_row ::
  "('r \<Rightarrow> bool) \<Rightarrow> ('r \<Rightarrow> 'r \<Rightarrow> bool) \<Rightarrow> bool \<Rightarrow> 'r \<Rightarrow> 'r list \<Rightarrow> ierr + 'r list" where
  "insert_row ok same refers_ok row rows =
     (if \<not> ok row \<or> list_ex (same row) rows \<or> \<not> refers_ok then Inl Plain_Error
      else Inr (rows @ [row]))"

definition insert_or_skip ::
  "('r \<Rightarrow> bool) \<Rightarrow> ('r \<Rightarrow> 'r \<Rightarrow> bool) \<Rightarrow> bool \<Rightarrow> 'r \<Rightarrow> 'r list \<Rightarrow> ierr + 'r list" where
  "insert_or_skip ok same refers_ok row rows =
     (if \<not> ok row then Inl Plain_Error
      else if list_ex (same row) rows then Inr rows
      else insert_row ok same refers_ok row rows)"

definition update_rows ::
  "('r \<Rightarrow> bool) \<Rightarrow> ('r \<Rightarrow> bool) \<Rightarrow> ('r \<Rightarrow> 'r) \<Rightarrow> 'r list \<Rightarrow> ierr + 'r list" where
  "update_rows ok p f rows =
     (if list_all (\<lambda>r. p r \<longrightarrow> ok (f r)) rows then Inr (map (\<lambda>r. if p r then f r else r) rows)
      else Inl Plain_Error)"

text \<open>
  The contract of a table: conflicts are symmetric, and no statement makes a table whose rows satisfy
  the CHECK constraints and do not conflict into one that is not so.
\<close>

locale table =
  fixes ok :: "'r \<Rightarrow> bool" and same :: "'r \<Rightarrow> 'r \<Rightarrow> bool"
  assumes same_sym: "same r q \<Longrightarrow> same q r"
begin

definition consistent :: "'r list \<Rightarrow> bool" where
  "consistent rows \<longleftrightarrow> list_all ok rows \<and> sorted_wrt (\<lambda>r q. \<not> same r q) rows"

lemma consistent_Nil: "consistent []"
  by (simp add: consistent_def)

lemma consistent_insert: "consistent rows \<Longrightarrow> insert_row ok same c row rows = Inr rows' \<Longrightarrow> consistent rows'"
  by (auto simp: consistent_def insert_row_def sorted_wrt_append list_ex_iff list_all_iff split: if_splits)
    (use same_sym in blast)

lemma consistent_skip: "consistent rows \<Longrightarrow> insert_or_skip ok same c row rows = Inr rows' \<Longrightarrow> consistent rows'"
  by (auto simp: insert_or_skip_def split: if_splits intro: consistent_insert)

lemma consistent_update:
  assumes "consistent rows" and "update_rows ok p f rows = Inr rows'"
    and "\<And>r q. p r \<Longrightarrow> same (f r) q \<Longrightarrow> same r q"
  shows "consistent rows'"
proof -
  let ?g = "\<lambda>r. if p r then f r else r"
  have keep: "same r q" if "same (?g r) (?g q)" for r q
  proof -
    have "same r (?g q)" using that assms(3) [of r "?g q"] by (cases "p r") simp_all
    then have "same (?g q) r" by (rule same_sym)
    then have "same q r" using assms(3) [of q r] by (cases "p q") simp_all
    then show ?thesis by (rule same_sym)
  qed
  have "sorted_wrt (\<lambda>r q. \<not> same r q) rows" "list_all ok rows"
    using assms(1) by (simp_all add: consistent_def)
  then have "sorted_wrt (\<lambda>r q. \<not> same (?g r) (?g q)) rows"
    by (elim sorted_wrt_mono_rel [rotated]) (use keep in blast)
  moreover have "rows' = map ?g rows" "list_all ok (map ?g rows)"
    using assms(2) \<open>list_all ok rows\<close> by (auto simp: update_rows_def list_all_iff split: if_splits)
  ultimately show ?thesis by (simp only: consistent_def sorted_wrt_map)
qed

lemma consistent_member: "consistent rows \<Longrightarrow> r \<in> set rows \<Longrightarrow> ok r"
  by (auto simp: consistent_def list_all_iff)

lemma consistent_unique:
  "consistent rows \<Longrightarrow> r \<in> set rows \<Longrightarrow> q \<in> set rows \<Longrightarrow> same r q \<Longrightarrow> r = q"
proof (induction rows)
  case (Cons x xs)
  then have "\<forall>y \<in> set xs. \<not> same x y" "consistent xs" by (simp_all add: consistent_def)
  then show ?case using Cons same_sym by (metis set_ConsD)
qed simp

end

interpretation profile_table: table profile_row_ok same_profile
  by unfold_locales (simp add: same_profile_def)

interpretation checkpoint_table: table checkpoint_row_ok same_checkpoint
  by unfold_locales (auto simp: same_checkpoint_def)

interpretation status_table: table status_row_ok same_status
  by unfold_locales (simp add: same_status_def)

interpretation incident_table: table incident_row_ok same_incident
  by unfold_locales (simp add: same_incident_def)

interpretation schema_event_table: table schema_event_row_ok same_schema_event
  by unfold_locales (simp add: same_schema_event_def)

interpretation schema_table: table schema_row_ok same_schema
  by unfold_locales (auto simp: same_schema_def)

interpretation generation_table: table generation_row_ok same_generation
  by unfold_locales (auto simp: same_generation_def)

interpretation event_table: table event_row_ok same_event
  by unfold_locales (simp add: same_event_def)

section \<open>The database\<close>

record database =
  db_profiles :: "profile_row list"
  db_checkpoints :: "checkpoint_row list"
  db_statuses :: "status_row list"
  db_incidents :: "incident_row list"
  db_schema_events :: "schema_event_row list"
  db_schemas :: "schema_row list"
  db_generations :: "generation_row list"
  db_events :: "event_row list"

definition has_profile :: "database \<Rightarrow> jstr \<Rightarrow> bool" where
  "has_profile db profile \<longleftrightarrow> list_ex (\<lambda>r. np_id r = profile) (db_profiles db)"

definition has_schema_event :: "database \<Rightarrow> jstr \<Rightarrow> jstr \<Rightarrow> bool" where
  "has_schema_event db profile hash \<longleftrightarrow>
     list_ex (\<lambda>r. se_profile r = profile \<and> se_hash r = hash) (db_schema_events db)"

definition has_schema :: "database \<Rightarrow> jstr \<Rightarrow> jstr \<Rightarrow> bool" where
  "has_schema db profile uid \<longleftrightarrow> list_ex (\<lambda>r. sc_profile r = profile \<and> sc_uid r = uid) (db_schemas db)"

definition has_generation :: "database \<Rightarrow> jstr \<Rightarrow> jstr \<Rightarrow> bool" where
  "has_generation db profile generation \<longleftrightarrow>
     list_ex (\<lambda>r. gr_profile r = profile \<and> gr_id r = generation) (db_generations db)"

text \<open>The rows of every table satisfy its constraints, foreign keys included.\<close>

definition database_ok :: "database \<Rightarrow> bool" where
  "database_ok db \<longleftrightarrow>
     profile_table.consistent (db_profiles db) \<and> checkpoint_table.consistent (db_checkpoints db) \<and>
     status_table.consistent (db_statuses db) \<and> incident_table.consistent (db_incidents db) \<and>
     schema_event_table.consistent (db_schema_events db) \<and> schema_table.consistent (db_schemas db) \<and>
     generation_table.consistent (db_generations db) \<and> event_table.consistent (db_events db) \<and>
     list_all (\<lambda>r. has_profile db (ck_profile r)) (db_checkpoints db) \<and>
     list_all (\<lambda>r. has_profile db (ss_profile r)) (db_statuses db) \<and>
     list_all (\<lambda>r. has_profile db (ii_profile r)) (db_incidents db) \<and>
     list_all (\<lambda>r. has_profile db (se_profile r)) (db_schema_events db) \<and>
     list_all (\<lambda>r. has_profile db (sc_profile r) \<and> has_schema_event db (sc_profile r) (sc_hash r)) (db_schemas db) \<and>
     list_all (\<lambda>r. has_profile db (gr_profile r) \<and> has_schema db (gr_profile r) (gr_schema_uid r)) (db_generations db) \<and>
     list_all (\<lambda>r. has_profile db (ce_profile r) \<and> has_schema db (ce_profile r) (ce_schema_uid r) \<and>
        has_generation db (ce_profile r) (ce_generation r)) (db_events db)"

definition empty_database :: database where
  "empty_database =
     \<lparr>db_profiles = [], db_checkpoints = [], db_statuses = [], db_incidents = [],
      db_schema_events = [], db_schemas = [], db_generations = [], db_events = []\<rparr>"

lemma empty_database_ok: "database_ok empty_database"
  by (simp add: database_ok_def empty_database_def profile_table.consistent_Nil
      checkpoint_table.consistent_Nil status_table.consistent_Nil incident_table.consistent_Nil
      schema_event_table.consistent_Nil schema_table.consistent_Nil generation_table.consistent_Nil
      event_table.consistent_Nil)

end
