(* ===== verification/Indexer_Fencing.thy ===== *)
theory Indexer_Fencing
  imports Database_Schema
begin

text \<open>
  The writer lease of the indexer (\<open>lib/db/indexer-fencing.ts\<close>): one status row per profile holds the
  writer, the instant its lease expires and an epoch that fences off earlier writers. An operation is
  a function of the database clock and the database; \<open>Inl\<close> is a thrown error, whose transaction is
  rolled back. The clock of a statement is one instant, and integers are integers: the checks of
  \<open>Number.isInteger\<close> are those of the type.
\<close>

section \<open>Inputs\<close>

record lease_token =
  tk_profile :: jstr
  tk_writer :: jstr
  tk_epoch :: int

record acquired_lease = lease_token +
  al_expires :: int

record status_input =
  in_primary :: "int option"
  in_secondary :: "int option"
  in_agreed_index :: "int option"
  in_agreed_hash :: "jstr option"

record normalized_status = status_input +
  ns_state :: status_state
  ns_error :: "jstr option"

definition MIN_INDEXER_LEASE_DURATION_MS :: int where "MIN_INDEXER_LEASE_DURATION_MS = 10000"

definition MAX_INDEXER_LEASE_DURATION_MS :: int where "MAX_INDEXER_LEASE_DURATION_MS = 300000"

text \<open>An ECMAScript time value is finite within a hundred million days of the epoch.\<close>

definition valid_date :: "int \<Rightarrow> bool" where
  "valid_date t \<longleftrightarrow> \<bar>t\<bar> \<le> 8640000000000000"

text \<open>The given date, or the clock of the database.\<close>

definition database_now :: "int \<Rightarrow> int option \<Rightarrow> ierr + int" where
  "database_now clock given =
     (case given of
        None \<Rightarrow> Inr clock
      | Some date \<Rightarrow> if valid_date date then Inr date else Inl Plain_Error)"

definition nullable_uint32 :: "int option \<Rightarrow> ierr + int option" where
  "nullable_uint32 v = (if null_or uint32_range v then Inr v else Inl Plain_Error)"

definition sanitized_error_code :: "jstr \<Rightarrow> ierr + jstr" where
  "sanitized_error_code v = (if error_code_pattern v then Inr v else Inl Plain_Error)"

definition ahead_of :: "int option \<Rightarrow> int option \<Rightarrow> bool" where
  "ahead_of index tip =
     (case (index, tip) of (Some i, Some t) \<Rightarrow> i > t | _ \<Rightarrow> False)"

text \<open>Only a halted status has an error code.\<close>

definition normalize_status :: "status_state \<Rightarrow> status_input \<Rightarrow> jstr \<Rightarrow> ierr + normalized_status" where
  "normalize_status state input error_code =
     rbind (nullable_uint32 (in_primary input)) (\<lambda>primary.
     rbind (nullable_uint32 (in_secondary input)) (\<lambda>secondary.
     rbind (nullable_uint32 (in_agreed_index input)) (\<lambda>index.
       let hash = in_agreed_hash input in
       if (index = None) \<noteq> (hash = None) then Inl Plain_Error
       else if \<not> null_or hash64 hash then Inl Plain_Error
       else if state \<noteq> Halted \<and> (ahead_of index primary \<or> ahead_of index secondary) then Inl Plain_Error
       else if state = Ready \<and>
         (case (primary, secondary, index, hash) of
            (Some p, Some s, Some i, Some h) \<Rightarrow> i \<noteq> min p s
          | _ \<Rightarrow> True) then Inl Plain_Error
       else rbind (if state = Halted then rbind (sanitized_error_code error_code) (\<lambda>c. Inr (Some c)) else Inr None)
         (\<lambda>code. Inr
           \<lparr>in_primary = primary, in_secondary = secondary, in_agreed_index = index,
            in_agreed_hash = hash, ns_state = state, ns_error = code\<rparr>))))"

definition normalize_indexer_status_update :: "status_state \<Rightarrow> status_input \<Rightarrow> ierr + normalized_status" where
  "normalize_indexer_status_update state input = normalize_status state input []"

definition normalize_halt_indexer_status :: "status_input \<Rightarrow> jstr \<Rightarrow> ierr + normalized_status" where
  "normalize_halt_indexer_status input error_code = normalize_status Halted input error_code"

definition normalize_lease_duration :: "int \<Rightarrow> ierr + int" where
  "normalize_lease_duration d =
     (if d < MIN_INDEXER_LEASE_DURATION_MS \<or> d > MAX_INDEXER_LEASE_DURATION_MS then Inl Plain_Error else Inr d)"

definition normalize_token :: "lease_token \<Rightarrow> ierr + lease_token" where
  "normalize_token token =
     (if \<not> profile_id_pattern (tk_profile token) then Inl Plain_Error
      else if \<not> writer_id_pattern (tk_writer token) then Inl Plain_Error
      else if tk_epoch token < 1 \<or> tk_epoch token > MAX_SAFE_EPOCH then Inl Plain_Error
      else Inr token)"

definition lease_expiration :: "int \<Rightarrow> int \<Rightarrow> ierr + int" where
  "lease_expiration now d =
     rbind (normalize_lease_duration d) (\<lambda>d.
       if valid_date (now + d) then Inr (now + d) else Inl Plain_Error)"

text \<open>With the database's clock the duration has been checked before.\<close>

definition database_lease_expiration :: "int \<Rightarrow> int option \<Rightarrow> int \<Rightarrow> ierr + int" where
  "database_lease_expiration clock given d =
     (case given of
        None \<Rightarrow> Inr (clock + d)
      | Some date \<Rightarrow> if valid_date date then lease_expiration date d else Inl Plain_Error)"

text \<open>
  The request is checked with the given date or the clock of the process, which is a valid date far
  from the end of the range.
\<close>

definition normalize_indexer_lease_request :: "jstr \<Rightarrow> jstr \<Rightarrow> int \<Rightarrow> int option \<Rightarrow> ierr + lease_token" where
  "normalize_indexer_lease_request profile writer d given =
     rbind (normalize_token \<lparr>tk_profile = profile, tk_writer = writer, tk_epoch = 1\<rparr>) (\<lambda>token.
     case given of
       None \<Rightarrow> rbind (normalize_lease_duration d) (\<lambda>_. Inr token)
     | Some date \<Rightarrow>
         if \<not> valid_date date then Inl Plain_Error
         else rbind (lease_expiration date d) (\<lambda>_. Inr token))"

definition acquired_of :: "status_row \<Rightarrow> ierr + acquired_lease" where
  "acquired_of row =
     (case (ss_writer row, ss_expires row) of
        (Some writer, Some expires) \<Rightarrow>
          Inr \<lparr>tk_profile = ss_profile row, tk_writer = writer, tk_epoch = ss_epoch row, al_expires = expires\<rparr>
      | _ \<Rightarrow> Inl Plain_Error)"

definition token_filter :: "lease_token \<Rightarrow> status_row \<Rightarrow> bool" where
  "token_filter token row \<longleftrightarrow>
     ss_profile row = tk_profile token \<and> ss_writer row = Some (tk_writer token) \<and> ss_epoch row = tk_epoch token"

definition active_token_filter :: "lease_token \<Rightarrow> int \<Rightarrow> status_row \<Rightarrow> bool" where
  "active_token_filter token now row \<longleftrightarrow>
     token_filter token row \<and> (case ss_expires row of None \<Rightarrow> False | Some e \<Rightarrow> e > now)"

section \<open>Operations\<close>

text \<open>
  \<open>UPDATE db_statuses SET f WHERE p RETURNING *\<close>, taking the first row of the answer; without one the
  operation throws the code.
\<close>

definition update_status_row ::
  "string \<Rightarrow> (status_row \<Rightarrow> bool) \<Rightarrow> (status_row \<Rightarrow> status_row) \<Rightarrow> database \<Rightarrow> ierr + status_row \<times> database" where
  "update_status_row code p f db =
     rbind (update_rows status_row_ok p f (db_statuses db)) (\<lambda>rows.
       case find p (db_statuses db) of
         None \<Rightarrow> coded_failure code
       | Some row \<Rightarrow> Inr (f row, db\<lparr>db_statuses := rows\<rparr>))"

definition read_indexer_status :: "database \<Rightarrow> jstr \<Rightarrow> status_row option" where
  "read_indexer_status db profile = find (\<lambda>r. ss_profile r = profile) (db_statuses db)"

definition first_status :: "jstr \<Rightarrow> int \<Rightarrow> status_row" where
  "first_status profile now =
     \<lparr>ss_profile = profile, ss_state = Starting, ss_primary = None, ss_secondary = None,
      ss_agreed_index = None, ss_agreed_hash = None, ss_error = None, ss_writer = None,
      ss_epoch = 1, ss_expires = None, ss_updated = now\<rparr>"

definition acquired_status :: "jstr \<Rightarrow> bool \<Rightarrow> int \<Rightarrow> int \<Rightarrow> status_row \<Rightarrow> status_row" where
  "acquired_status writer inserted now expires row =
     row\<lparr>ss_state := Starting, ss_primary := None, ss_secondary := None, ss_agreed_index := None,
         ss_agreed_hash := None, ss_error := None, ss_writer := Some writer,
         ss_epoch := (if inserted then ss_epoch row else ss_epoch row + 1),
         ss_expires := Some expires, ss_updated := now\<rparr>"

definition may_be_acquired :: "jstr \<Rightarrow> bool \<Rightarrow> int \<Rightarrow> status_row \<Rightarrow> bool" where
  "may_be_acquired profile inserted now row \<longleftrightarrow>
     ss_profile row = profile \<and>
     (inserted \<or> ((case ss_expires row of None \<Rightarrow> True | Some e \<Rightarrow> e \<le> now) \<and> ss_epoch row \<le> MAX_SAFE_EPOCH - 1))"

definition acquire_indexer_lease ::
  "int \<Rightarrow> jstr \<Rightarrow> jstr \<Rightarrow> int \<Rightarrow> int option \<Rightarrow> database \<Rightarrow> ierr + acquired_lease \<times> database" where
  "acquire_indexer_lease clock profile writer d given db =
     rbind (normalize_indexer_lease_request profile writer d given) (\<lambda>token.
     rbind (database_now clock given) (\<lambda>now.
     rbind (insert_or_skip status_row_ok same_status (has_profile db profile) (first_status profile now) (db_statuses db))
       (\<lambda>rows.
     let inserted = \<not> list_ex (same_status (first_status profile now)) (db_statuses db) in
     rbind (database_lease_expiration clock given d) (\<lambda>expires.
     rbind (update_status_row ''INDEXER_LEASE_UNAVAILABLE'' (may_be_acquired profile inserted now)
         (acquired_status (tk_writer token) inserted now expires) (db\<lparr>db_statuses := rows\<rparr>)) (\<lambda>(row, db').
     rbind (acquired_of row) (\<lambda>lease. Inr (lease, db')))))))"

definition renew_indexer_lease ::
  "int \<Rightarrow> lease_token \<Rightarrow> int \<Rightarrow> int option \<Rightarrow> database \<Rightarrow> ierr + acquired_lease \<times> database" where
  "renew_indexer_lease clock token_input d given db =
     rbind (normalize_token token_input) (\<lambda>token.
     rbind (normalize_lease_duration d) (\<lambda>_.
     rbind (database_now clock given) (\<lambda>now.
     rbind (database_lease_expiration clock given d) (\<lambda>expires.
     rbind (update_status_row ''INDEXER_LEASE_LOST'' (active_token_filter token now)
         (\<lambda>row. row\<lparr>ss_expires := Some expires, ss_updated := now\<rparr>) db) (\<lambda>(row, db').
     rbind (acquired_of row) (\<lambda>lease. Inr (lease, db')))))))"

text \<open>\<open>SET ...value\<close>\<close>

definition with_status :: "normalized_status \<Rightarrow> status_row \<Rightarrow> status_row" where
  "with_status v row =
     row\<lparr>ss_state := ns_state v, ss_primary := in_primary v, ss_secondary := in_secondary v,
         ss_agreed_index := in_agreed_index v, ss_agreed_hash := in_agreed_hash v, ss_error := ns_error v\<rparr>"

definition update_indexer_status ::
  "int \<Rightarrow> lease_token \<Rightarrow> status_state \<Rightarrow> status_input \<Rightarrow> int option \<Rightarrow> database \<Rightarrow> ierr + status_row \<times> database" where
  "update_indexer_status clock token_input state input given db =
     rbind (normalize_token token_input) (\<lambda>token.
     rbind (normalize_indexer_status_update state input) (\<lambda>v.
     rbind (database_now clock given) (\<lambda>now.
     update_status_row ''INDEXER_LEASE_LOST'' (active_token_filter token now)
       (\<lambda>row. (with_status v row)\<lparr>ss_updated := now\<rparr>) db)))"

definition release_indexer_lease ::
  "int \<Rightarrow> lease_token \<Rightarrow> int option \<Rightarrow> database \<Rightarrow> ierr + status_row \<times> database" where
  "release_indexer_lease clock token_input given db =
     rbind (normalize_token token_input) (\<lambda>token.
     rbind (database_now clock given) (\<lambda>now.
     update_status_row ''INDEXER_LEASE_LOST'' (token_filter token)
       (\<lambda>row. row\<lparr>ss_state := Catching_Up, ss_error := None, ss_writer := None, ss_expires := None, ss_updated := now\<rparr>)
       db))"

definition incident_of :: "lease_token \<Rightarrow> normalized_status \<Rightarrow> jstr \<Rightarrow> incident_row" where
  "incident_of token v code =
     \<lparr>ii_profile = tk_profile token, ii_epoch = tk_epoch token, ii_error = code,
      ii_primary = in_primary v, ii_secondary = in_secondary v,
      ii_agreed_index = in_agreed_index v, ii_agreed_hash = in_agreed_hash v\<rparr>"

definition halt_indexer ::
  "int \<Rightarrow> lease_token \<Rightarrow> status_input \<Rightarrow> jstr \<Rightarrow> int option \<Rightarrow> database \<Rightarrow> ierr + status_row \<times> database" where
  "halt_indexer clock token_input input error_code given db =
     rbind (normalize_token token_input) (\<lambda>token.
     rbind (normalize_halt_indexer_status input error_code) (\<lambda>v.
     rbind (database_now clock given) (\<lambda>now.
     rbind (update_status_row ''INDEXER_LEASE_LOST'' (token_filter token)
         (\<lambda>row. (with_status v row)\<lparr>ss_writer := None, ss_expires := None, ss_updated := now\<rparr>) db)
       (\<lambda>(row, db').
     rbind (insert_row incident_row_ok same_incident (has_profile db' (tk_profile token))
         (incident_of token v error_code) (db_incidents db')) (\<lambda>rows.
     Inr (row, db'\<lparr>db_incidents := rows\<rparr>))))))"

definition lock_active_indexer_lease ::
  "int \<Rightarrow> lease_token \<Rightarrow> int option \<Rightarrow> database \<Rightarrow> ierr + status_row" where
  "lock_active_indexer_lease clock token_input given db =
     rbind (normalize_token token_input) (\<lambda>token.
     rbind (database_now clock given) (\<lambda>now.
     case find (active_token_filter token now) (db_statuses db) of
       None \<Rightarrow> coded_failure ''INDEXER_LEASE_LOST''
     | Some row \<Rightarrow> Inr row))"

section \<open>Statements on the status row\<close>

lemma find_mem: "find p xs = Some x \<Longrightarrow> x \<in> set xs \<and> p x"
  by (induction xs) (auto split: if_splits)

lemma find_unique:
  assumes "x \<in> set xs" and "p x" and "\<And>y. y \<in> set xs \<Longrightarrow> p y \<Longrightarrow> y = x"
  shows "find p xs = Some x"
proof (cases "find p xs")
  case None
  then show ?thesis using assms(1,2) by (simp add: find_None_iff)
next
  case (Some y)
  then show ?thesis using assms(3) find_mem by metis
qed

lemma find_map_keep:
  "(\<And>x. q (f x) = q x) \<Longrightarrow> find q (map f xs) = map_option f (find q xs)"
  by (induction xs) simp_all

lemma read_status_mem:
  "read_indexer_status db profile = Some row \<Longrightarrow> row \<in> set (db_statuses db) \<and> ss_profile row = profile"
  unfolding read_indexer_status_def by (drule find_mem) simp

lemma read_status_unique:
  assumes "status_table.consistent (db_statuses db)" and "row \<in> set (db_statuses db)"
  shows "read_indexer_status db (ss_profile row) = Some row"
  unfolding read_indexer_status_def
  using assms by (intro find_unique) (auto simp: same_status_def intro: status_table.consistent_unique)

lemma update_status_row_Inr:
  assumes "status_table.consistent (db_statuses db)"
    and "update_status_row code p f db = Inr (row', db')"
    and "\<And>r. p r \<Longrightarrow> ss_profile r = profile" and "\<And>r. ss_profile (f r) = ss_profile r"
  shows "\<exists>row. read_indexer_status db profile = Some row \<and> p row \<and> row' = f row \<and> status_row_ok row' \<and>
    read_indexer_status db' = (read_indexer_status db)(profile \<mapsto> row') \<and>
    status_table.consistent (db_statuses db') \<and>
    (\<forall>q. list_all (\<lambda>r. q (ss_profile r)) (db_statuses db) \<longrightarrow> list_all (\<lambda>r. q (ss_profile r)) (db_statuses db')) \<and>
    db' = db\<lparr>db_statuses := db_statuses db'\<rparr>"
proof -
  let ?g = "\<lambda>r. if p r then f r else r"
  obtain row where row: "find p (db_statuses db) = Some row" "row' = f row"
    and db': "db' = db\<lparr>db_statuses := map ?g (db_statuses db)\<rparr>"
    and ok: "update_rows status_row_ok p f (db_statuses db) = Inr (map ?g (db_statuses db))"
    "list_all (\<lambda>r. p r \<longrightarrow> status_row_ok (f r)) (db_statuses db)"
    using assms(2) by (auto simp: update_status_row_def res_simps update_rows_def)
  have mem: "row \<in> set (db_statuses db)" "p row"
    using find_mem [OF row(1)] by simp_all
  have profile: "ss_profile (?g r) = ss_profile r" for r using assms(4) by simp
  have read: "read_indexer_status db' q = map_option ?g (read_indexer_status db q)" for q
    unfolding read_indexer_status_def db' using find_map_keep [of "\<lambda>r. ss_profile r = q" ?g] profile by simp
  have here: "read_indexer_status db profile = Some row"
    using read_status_unique [OF assms(1) mem(1)] assms(3) [OF mem(2)] by simp
  have elsewhere: "read_indexer_status db' q = read_indexer_status db q" if "q \<noteq> profile" for q
    using that assms(3) read_status_mem [of db q]
    by (cases "read_indexer_status db q") (auto simp: read)
  have "read_indexer_status db' = (read_indexer_status db)(profile \<mapsto> row')"
    using here elsewhere mem(2) row(2) by (auto simp: read fun_eq_iff)
  moreover have "status_table.consistent (db_statuses db')"
    using status_table.consistent_update [OF assms(1) ok(1)] assms(4) by (simp add: db' same_status_def)
  moreover have "status_row_ok row'" using ok(2) mem row(2) by (auto simp: list_all_iff)
  moreover have "list_all (\<lambda>r. q (ss_profile r)) (db_statuses db')"
    if "list_all (\<lambda>r. q (ss_profile r)) (db_statuses db)" for q
    using that assms(4) by (auto simp: db' list_all_iff)
  ultimately show ?thesis using here mem row db' by simp
qed

lemma update_status_row_lost:
  "(\<And>r. r \<in> set (db_statuses db) \<Longrightarrow> \<not> p r) \<Longrightarrow> update_status_row code p f db = coded_failure code"
  using find_mem [of p "db_statuses db"]
  by (cases "find p (db_statuses db)") (auto simp: update_status_row_def update_rows_def list_all_iff)

section \<open>The abstract lease\<close>

text \<open>
  What the status rows promise: per profile the number of leases granted so far and the holder of the
  current one with the instant it expires. A lease is taken only when no holder is left or the
  holder's lease has expired, which opens a new epoch; its holder may extend it or give it up.
\<close>

type_synonym lease_view = "jstr \<Rightarrow> int \<times> (jstr \<times> int) option"

inductive lease_step :: "lease_view \<Rightarrow> lease_view \<Rightarrow> bool" where
  take_lease: "view profile = (epoch, holder) \<Longrightarrow> (\<forall>(w, e) \<in> set_option holder. e \<le> now) \<Longrightarrow>
    now \<le> expires \<Longrightarrow> lease_step view (view(profile := (epoch + 1, Some (writer, expires))))"
| extend_lease: "view profile = (epoch, Some (writer, e)) \<Longrightarrow> now < e \<Longrightarrow> now \<le> expires \<Longrightarrow>
    lease_step view (view(profile := (epoch, Some (writer, expires))))"
| drop_lease: "view profile = (epoch, Some (writer, e)) \<Longrightarrow> lease_step view (view(profile := (epoch, None)))"
| keep_lease: "lease_step view view"

definition holds_lease :: "lease_token \<Rightarrow> lease_view \<Rightarrow> bool" where
  "holds_lease token view \<longleftrightarrow>
     (case view (tk_profile token) of
        (epoch, Some (w, e)) \<Rightarrow> epoch = tk_epoch token \<and> w = tk_writer token
      | _ \<Rightarrow> False)"

text \<open>A token of an epoch that was opened and is no longer, or not by this writer, in force.\<close>

definition stale_token :: "lease_token \<Rightarrow> lease_view \<Rightarrow> bool" where
  "stale_token token view \<longleftrightarrow>
     tk_epoch token \<le> fst (view (tk_profile token)) \<and> \<not> holds_lease token view"

interpretation stale: machine "stale_token token" lease_step "stale_token token" for token
proof
  fix view view' assume "lease_step view view'" "stale_token token view"
  then show "stale_token token view'"
    by cases (auto simp: stale_token_def holds_lease_def split: prod.splits option.splits)
qed

definition epoch_at_least :: "int \<Rightarrow> jstr \<Rightarrow> lease_view \<Rightarrow> bool" where
  "epoch_at_least n profile view \<longleftrightarrow> n \<le> fst (view profile)"

interpretation epochs: machine "epoch_at_least n profile" lease_step "epoch_at_least n profile" for n profile
proof
  fix view view' assume "lease_step view view'" "epoch_at_least n profile view"
  then show "epoch_at_least n profile view'"
    by cases (auto simp: epoch_at_least_def)
qed

lemma epochs_grow: "lease_step\<^sup>*\<^sup>* view view' \<Longrightarrow> fst (view profile) \<le> fst (view' profile)"
  using epochs.steps_inv [of view view' "fst (view profile)" profile] by (simp add: epoch_at_least_def)

lemma one_holder: "holds_lease t view \<Longrightarrow> holds_lease u view \<Longrightarrow> tk_profile t = tk_profile u \<Longrightarrow>
    tk_writer t = tk_writer u \<and> tk_epoch t = tk_epoch u"
  by (auto simp: holds_lease_def split: prod.splits option.splits)

section \<open>The status rows implement the lease\<close>

definition lease_of_row :: "status_row \<Rightarrow> int \<times> (jstr \<times> int) option" where
  "lease_of_row row =
     (ss_epoch row,
      case (ss_writer row, ss_expires row) of (Some w, Some e) \<Rightarrow> Some (w, e) | _ \<Rightarrow> None)"

definition lease_view_of :: "database \<Rightarrow> lease_view" where
  "lease_view_of db profile =
     (case read_indexer_status db profile of None \<Rightarrow> (0, None) | Some row \<Rightarrow> lease_of_row row)"

lemma lease_view_update:
  "read_indexer_status db' = (read_indexer_status db)(profile \<mapsto> row) \<Longrightarrow>
     lease_view_of db' = (lease_view_of db)(profile := lease_of_row row)"
  by (auto simp: lease_view_of_def fun_eq_iff)

lemma lease_window_cases:
  "status_row_ok row \<Longrightarrow> (ss_writer row = None \<longleftrightarrow> ss_expires row = None)"
  by (auto simp: status_row_ok_def lease_window_ok_def)

definition statuses_ok :: "database \<Rightarrow> bool" where
  "statuses_ok db \<longleftrightarrow>
     status_table.consistent (db_statuses db) \<and> list_all (\<lambda>r. has_profile db (ss_profile r)) (db_statuses db) \<and>
     incident_table.consistent (db_incidents db) \<and> list_all (\<lambda>r. has_profile db (ii_profile r)) (db_incidents db)"

definition only_statuses_changed :: "database \<Rightarrow> database \<Rightarrow> bool" where
  "only_statuses_changed db db' \<longleftrightarrow>
     db' = db\<lparr>db_statuses := db_statuses db', db_incidents := db_incidents db'\<rparr>"

lemma token_row_ok:
  "status_table.consistent (db_statuses db) \<Longrightarrow> read_indexer_status db profile = Some row \<Longrightarrow> status_row_ok row"
  using read_status_mem status_table.consistent_member by blast

text \<open>A statement on the row of one profile, as a change of the abstract lease.\<close>

lemma status_write:
  assumes "statuses_ok db" and "update_status_row code p f db = Inr (row', db')"
    and "\<And>r. p r \<Longrightarrow> ss_profile r = profile" and "\<And>r. ss_profile (f r) = ss_profile r"
  shows "\<exists>row. lease_view_of db profile = lease_of_row row \<and> status_row_ok row \<and> p row \<and> row' = f row \<and>
    ss_profile row = profile \<and> status_row_ok row' \<and>
    lease_view_of db' = (lease_view_of db)(profile := lease_of_row row') \<and>
    read_indexer_status db' profile = Some row' \<and> has_profile db profile \<and>
    statuses_ok db' \<and> only_statuses_changed db db' \<and> db_incidents db' = db_incidents db"
proof -
  have con: "status_table.consistent (db_statuses db)" using assms(1) by (simp add: statuses_ok_def)
  obtain row where row: "read_indexer_status db profile = Some row" "p row" "row' = f row" "status_row_ok row'"
    "read_indexer_status db' = (read_indexer_status db)(profile \<mapsto> row')"
    "status_table.consistent (db_statuses db')"
    "\<And>q. list_all (\<lambda>r. q (ss_profile r)) (db_statuses db) \<Longrightarrow> list_all (\<lambda>r. q (ss_profile r)) (db_statuses db')"
    and db': "db' = db\<lparr>db_statuses := db_statuses db'\<rparr>"
    using update_status_row_Inr [OF con assms(2-4)] by blast
  have same: "db_profiles db' = db_profiles db" "db_incidents db' = db_incidents db"
    by (subst db', simp)+
  then have has: "has_profile db' = has_profile db" by (simp add: has_profile_def fun_eq_iff)
  have mem: "row \<in> set (db_statuses db)" "ss_profile row = profile"
    using read_status_mem [OF row(1)] by simp_all
  have "statuses_ok db'"
    using assms(1) row(6) row(7) [of "has_profile db"] by (simp add: statuses_ok_def has same)
  moreover have "only_statuses_changed db db'"
    unfolding only_statuses_changed_def by (subst db') (simp add: same)
  moreover have "has_profile db profile"
    using assms(1) mem by (auto simp: statuses_ok_def list_all_iff)
  ultimately show ?thesis
    using row(1-5) lease_view_update [OF row(5)] mem same token_row_ok [OF con row(1)]
    by (auto simp: lease_view_of_def)
qed

lemma database_now_expires:
  "database_now clock given = Inr now \<Longrightarrow> database_lease_expiration clock given d = Inr expires \<Longrightarrow>
     expires = now + d"
  by (auto simp: database_now_def database_lease_expiration_def lease_expiration_def
      normalize_lease_duration_def split: option.splits if_splits)

lemma lease_request_Inr:
  "normalize_indexer_lease_request profile writer d given = Inr token \<Longrightarrow>
     token = \<lparr>tk_profile = profile, tk_writer = writer, tk_epoch = 1\<rparr> \<and>
     MIN_INDEXER_LEASE_DURATION_MS \<le> d \<and> d \<le> MAX_INDEXER_LEASE_DURATION_MS"
  by (auto simp: normalize_indexer_lease_request_def normalize_token_def lease_expiration_def
      normalize_lease_duration_def res_simps split: option.splits if_splits)

lemma normalize_token_Inr: "normalize_token token = Inr t \<longleftrightarrow> t = token \<and>
    profile_id_pattern (tk_profile token) \<and> writer_id_pattern (tk_writer token) \<and>
    1 \<le> tk_epoch token \<and> tk_epoch token \<le> MAX_SAFE_EPOCH"
  by (auto simp: normalize_token_def)

lemma acquired_of_Inr:
  "acquired_of row = Inr lease \<Longrightarrow>
     lease_of_row row = (tk_epoch lease, Some (tk_writer lease, al_expires lease)) \<and>
     tk_profile lease = ss_profile row"
  by (auto simp: acquired_of_def lease_of_row_def split: option.splits)

lemma token_filter_lease:
  "token_filter token row \<Longrightarrow> status_row_ok row \<Longrightarrow>
     \<exists>e. ss_expires row = Some e \<and> lease_of_row row = (tk_epoch token, Some (tk_writer token, e))"
  using lease_window_cases [of row] by (auto simp: token_filter_def lease_of_row_def)

lemma acquire_refines:
  assumes "statuses_ok db" and "acquire_indexer_lease clock profile writer d given db = Inr (lease, db')"
  shows "\<exists>now epoch holder. database_now clock given = Inr now \<and> lease_view_of db profile = (epoch, holder) \<and>
    (\<forall>(w, e) \<in> set_option holder. e \<le> now) \<and>
    tk_profile lease = profile \<and> tk_writer lease = writer \<and> tk_epoch lease = epoch + 1 \<and>
    al_expires lease = now + d \<and> MIN_INDEXER_LEASE_DURATION_MS \<le> d \<and> d \<le> MAX_INDEXER_LEASE_DURATION_MS \<and>
    lease_view_of db' = (lease_view_of db)(profile := (epoch + 1, Some (writer, now + d))) \<and>
    statuses_ok db' \<and> only_statuses_changed db db'"
proof -
  obtain token now rows expires row where token: "normalize_indexer_lease_request profile writer d given = Inr token"
    and now: "database_now clock given = Inr now"
    and rows: "insert_or_skip status_row_ok same_status (has_profile db profile) (first_status profile now)
      (db_statuses db) = Inr rows"
    and expires: "database_lease_expiration clock given d = Inr expires"
    and upd: "update_status_row ''INDEXER_LEASE_UNAVAILABLE''
      (may_be_acquired profile (\<not> list_ex (same_status (first_status profile now)) (db_statuses db)) now)
      (acquired_status (tk_writer token) (\<not> list_ex (same_status (first_status profile now)) (db_statuses db)) now expires)
      (db\<lparr>db_statuses := rows\<rparr>) = Inr (row, db')"
    and lease: "acquired_of row = Inr lease"
    using assms(2) by (auto simp: acquire_indexer_lease_def res_simps Let_def split: prod.splits)
  let ?ins = "\<not> list_ex (same_status (first_status profile now)) (db_statuses db)"
  let ?db = "db\<lparr>db_statuses := rows\<rparr>"
  have ex: "expires = now + d" using database_now_expires [OF now expires] .
  note tok = lease_request_Inr [OF token]
  have con: "status_table.consistent (db_statuses db)" using assms(1) by (simp add: statuses_ok_def)
  have con': "status_table.consistent rows" using status_table.consistent_skip [OF con rows] .
  have rows_cases: "if ?ins then rows = db_statuses db @ [first_status profile now] \<and> has_profile db profile
      else rows = db_statuses db"
    using rows by (auto simp: insert_or_skip_def insert_row_def split: if_splits)
  have hp: "has_profile ?db = has_profile db" by (simp add: has_profile_def fun_eq_iff)
  have ok: "statuses_ok ?db"
    using assms(1) con' rows_cases
    by (auto simp: statuses_ok_def hp first_status_def split: if_splits)
  obtain old where old: "lease_view_of ?db profile = lease_of_row old" "status_row_ok old"
    "may_be_acquired profile ?ins now old" "row = acquired_status (tk_writer token) ?ins now expires old"
    "ss_profile old = profile"
    "lease_view_of db' = (lease_view_of ?db)(profile := lease_of_row row)"
    "statuses_ok db'" "only_statuses_changed ?db db'"
    using status_write [OF ok upd, where profile = profile] by (auto simp: may_be_acquired_def acquired_status_def)
  have lease_row: "lease_of_row row = (tk_epoch lease, Some (tk_writer lease, al_expires lease))"
    "tk_profile lease = profile"
    using acquired_of_Inr [OF lease] old(4,5) by (auto simp: acquired_status_def)
  have row_lease: "lease_of_row row = ((if ?ins then ss_epoch old else ss_epoch old + 1), Some (writer, now + d))"
    using old(4) tok ex by (simp add: lease_of_row_def acquired_status_def)
  have changed: "only_statuses_changed db db'"
    using old(8) by (simp add: only_statuses_changed_def)
  show ?thesis
  proof (cases ?ins)
    case True
    have fresh: "find (\<lambda>r. ss_profile r = q) (db_statuses db) = None" if "q = profile" for q
      using True that by (simp add: find_None_iff list_ex_iff same_status_def first_status_def) (metis)
    have none: "read_indexer_status db profile = None"
      using fresh by (simp add: read_indexer_status_def)
    have find_snoc: "find g (xs @ [y]) = (case find g xs of Some z \<Rightarrow> Some z | None \<Rightarrow> if g y then Some y else None)"
      for g and xs :: "status_row list" and y
      by (induction xs) simp_all
    have read: "read_indexer_status ?db = (read_indexer_status db)(profile \<mapsto> first_status profile now)"
      using rows_cases True none
      by (auto simp: read_indexer_status_def find_snoc fun_eq_iff first_status_def split: option.splits)
    have view: "lease_view_of ?db = (lease_view_of db)(profile := (1, None))"
      using lease_view_update [OF read] by (simp add: lease_of_row_def first_status_def)
    have "ss_epoch old = 1" using old(1) view by (simp add: lease_of_row_def)
    moreover have "lease_view_of db profile = (0, None)" by (simp add: lease_view_of_def none)
    ultimately show ?thesis
      using now tok lease_row row_lease True old(6,7) view changed by auto
  next
    case False
    then have same: "?db = db" using rows_cases by simp
    obtain holder where holder: "lease_of_row old = (ss_epoch old, holder)" by (simp add: lease_of_row_def)
    have expired: "\<forall>(w, e) \<in> set_option holder. e \<le> now"
      using old(3) False holder by (auto simp: may_be_acquired_def lease_of_row_def split: option.splits)
    have lease: "tk_epoch lease = ss_epoch old + 1" "tk_writer lease = writer" "al_expires lease = now + d"
      using lease_row(1) row_lease False by simp_all
    have view: "lease_view_of db profile = (ss_epoch old, holder)"
      "lease_view_of db' = (lease_view_of db)(profile := (ss_epoch old + 1, Some (writer, now + d)))"
      using old(1,6) row_lease False holder same by simp_all
    show ?thesis
      by (rule exI [of _ now], rule exI [of _ "ss_epoch old"], rule exI [of _ holder])
        (intro conjI now expired lease view lease_row(2) old(7) changed conjunct2 [OF tok, THEN conjunct1]
          conjunct2 [OF tok, THEN conjunct2])
  qed
qed

lemma renew_refines:
  assumes "statuses_ok db" and "renew_indexer_lease clock token d given db = Inr (lease, db')"
  shows "\<exists>now e. database_now clock given = Inr now \<and>
    lease_view_of db (tk_profile token) = (tk_epoch token, Some (tk_writer token, e)) \<and> now < e \<and>
    tk_profile lease = tk_profile token \<and> tk_writer lease = tk_writer token \<and> tk_epoch lease = tk_epoch token \<and>
    al_expires lease = now + d \<and> MIN_INDEXER_LEASE_DURATION_MS \<le> d \<and>
    lease_view_of db' = (lease_view_of db)(tk_profile token := (tk_epoch token, Some (tk_writer token, now + d))) \<and>
    statuses_ok db' \<and> only_statuses_changed db db'"
proof -
  obtain now expires row where now: "database_now clock given = Inr now"
    and d: "normalize_lease_duration d = Inr d"
    and expires: "database_lease_expiration clock given d = Inr expires"
    and upd: "update_status_row ''INDEXER_LEASE_LOST'' (active_token_filter token now)
      (\<lambda>row. row\<lparr>ss_expires := Some expires, ss_updated := now\<rparr>) db = Inr (row, db')"
    and lease: "acquired_of row = Inr lease"
    using assms(2)
    by (auto simp: renew_indexer_lease_def res_simps normalize_token_Inr normalize_lease_duration_def split: if_splits)
  obtain old where old: "lease_view_of db (tk_profile token) = lease_of_row old" "status_row_ok old"
    "active_token_filter token now old" "row = old\<lparr>ss_expires := Some expires, ss_updated := now\<rparr>"
    "lease_view_of db' = (lease_view_of db)(tk_profile token := lease_of_row row)"
    "statuses_ok db'" "only_statuses_changed db db'"
    using status_write [OF assms(1) upd, where profile = "tk_profile token"]
    by (auto simp: active_token_filter_def token_filter_def)
  obtain e where e: "ss_expires old = Some e" "lease_of_row old = (tk_epoch token, Some (tk_writer token, e))" "now < e"
    using token_filter_lease [of token old] old(2,3) by (auto simp: active_token_filter_def)
  have tf: "token_filter token old" using old(3) by (simp add: active_token_filter_def)
  have row: "lease_of_row row = (tk_epoch token, Some (tk_writer token, now + d))" "ss_profile row = tk_profile token"
    using tf old(4) database_now_expires [OF now expires]
    by (simp_all add: lease_of_row_def token_filter_def)
  then show ?thesis
    using now old e acquired_of_Inr [OF lease] d by (auto simp: normalize_lease_duration_def split: if_splits)
qed

lemma update_refines:
  assumes "statuses_ok db" and "update_indexer_status clock token state input given db = Inr (row, db')"
  shows "\<exists>now e. database_now clock given = Inr now \<and>
    lease_view_of db (tk_profile token) = (tk_epoch token, Some (tk_writer token, e)) \<and> now < e \<and>
    lease_view_of db' = lease_view_of db \<and> ss_state row = state \<and> status_row_ok row \<and>
    read_indexer_status db' (tk_profile token) = Some row \<and>
    statuses_ok db' \<and> only_statuses_changed db db' \<and> db_incidents db' = db_incidents db"
proof -
  obtain now v where now: "database_now clock given = Inr now"
    and v: "normalize_indexer_status_update state input = Inr v"
    and upd: "update_status_row ''INDEXER_LEASE_LOST'' (active_token_filter token now)
      (\<lambda>row. (with_status v row)\<lparr>ss_updated := now\<rparr>) db = Inr (row, db')"
    using assms(2) by (auto simp: update_indexer_status_def res_simps normalize_token_Inr)
  obtain old where old: "lease_view_of db (tk_profile token) = lease_of_row old" "status_row_ok old"
    "active_token_filter token now old" "row = (with_status v old)\<lparr>ss_updated := now\<rparr>" "status_row_ok row"
    "lease_view_of db' = (lease_view_of db)(tk_profile token := lease_of_row row)"
    "read_indexer_status db' (tk_profile token) = Some row"
    "statuses_ok db'" "only_statuses_changed db db'" "db_incidents db' = db_incidents db"
    using status_write [OF assms(1) upd, where profile = "tk_profile token"]
    by (auto simp: active_token_filter_def token_filter_def with_status_def)
  obtain e where e: "ss_expires old = Some e" "lease_of_row old = (tk_epoch token, Some (tk_writer token, e))" "now < e"
    using token_filter_lease [of token old] old(2,3) by (auto simp: active_token_filter_def)
  have same: "lease_of_row row = lease_of_row old"
    by (simp add: old(4) lease_of_row_def with_status_def)
  have "lease_view_of db' = lease_view_of db"
    using old(1,6) same by (simp add: fun_upd_idem)
  moreover have "ss_state row = state"
    using v old(4)
    by (auto simp: normalize_indexer_status_update_def normalize_status_def with_status_def res_simps Let_def split: if_splits)
  ultimately show ?thesis using now old e by auto
qed

lemma release_refines:
  assumes "statuses_ok db" and "release_indexer_lease clock token given db = Inr (row, db')"
  shows "\<exists>e. lease_view_of db (tk_profile token) = (tk_epoch token, Some (tk_writer token, e)) \<and>
    lease_view_of db' = (lease_view_of db)(tk_profile token := (tk_epoch token, None)) \<and>
    statuses_ok db' \<and> only_statuses_changed db db'"
proof -
  obtain now where upd: "update_status_row ''INDEXER_LEASE_LOST'' (token_filter token)
      (\<lambda>row. row\<lparr>ss_state := Catching_Up, ss_error := None, ss_writer := None, ss_expires := None, ss_updated := now\<rparr>)
      db = Inr (row, db')"
    using assms(2) by (auto simp: release_indexer_lease_def res_simps normalize_token_Inr)
  obtain old where old: "lease_view_of db (tk_profile token) = lease_of_row old" "status_row_ok old"
    "token_filter token old"
    "row = old\<lparr>ss_state := Catching_Up, ss_error := None, ss_writer := None, ss_expires := None, ss_updated := now\<rparr>"
    "lease_view_of db' = (lease_view_of db)(tk_profile token := lease_of_row row)"
    "statuses_ok db'" "only_statuses_changed db db'"
    using status_write [OF assms(1) upd, where profile = "tk_profile token"]
    by (auto simp: token_filter_def)
  have "lease_of_row row = (tk_epoch token, None)"
    using old(3,4) by (simp add: lease_of_row_def token_filter_def)
  then show ?thesis using old token_filter_lease [OF old(3,2)] by auto
qed

lemma halt_refines:
  assumes "statuses_ok db" and "halt_indexer clock token input code given db = Inr (row, db')"
  shows "\<exists>e. lease_view_of db (tk_profile token) = (tk_epoch token, Some (tk_writer token, e)) \<and>
    lease_view_of db' = (lease_view_of db)(tk_profile token := (tk_epoch token, None)) \<and>
    ss_state row = Halted \<and> ss_error row = Some code \<and> read_indexer_status db' (tk_profile token) = Some row \<and>
    (\<exists>i \<in> set (db_incidents db'). ii_profile i = tk_profile token \<and> ii_epoch i = tk_epoch token \<and> ii_error i = code) \<and>
    statuses_ok db' \<and> only_statuses_changed db db'"
proof -
  obtain now v db1 rows where v: "normalize_halt_indexer_status input code = Inr v"
    and upd: "update_status_row ''INDEXER_LEASE_LOST'' (token_filter token)
      (\<lambda>row. (with_status v row)\<lparr>ss_writer := None, ss_expires := None, ss_updated := now\<rparr>) db = Inr (row, db1)"
    and rows: "insert_row incident_row_ok same_incident (has_profile db1 (tk_profile token))
      (incident_of token v code) (db_incidents db1) = Inr rows"
    and db': "db' = db1\<lparr>db_incidents := rows\<rparr>"
    using assms(2) by (auto simp: halt_indexer_def res_simps normalize_token_Inr split: prod.splits)
  have nv: "ns_state v = Halted" "ns_error v = Some code"
    using v by (auto simp: normalize_halt_indexer_status_def normalize_status_def sanitized_error_code_def
        res_simps Let_def split: if_splits)
  obtain old where old: "lease_view_of db (tk_profile token) = lease_of_row old" "status_row_ok old"
    "token_filter token old"
    "row = (with_status v old)\<lparr>ss_writer := None, ss_expires := None, ss_updated := now\<rparr>"
    "lease_view_of db1 = (lease_view_of db)(tk_profile token := lease_of_row row)"
    "read_indexer_status db1 (tk_profile token) = Some row"
    "statuses_ok db1" "only_statuses_changed db db1"
    using status_write [OF assms(1) upd, where profile = "tk_profile token"]
    by (auto simp: token_filter_def with_status_def)
  have row: "lease_of_row row = (tk_epoch token, None)" "ss_state row = Halted" "ss_error row = Some code"
    using old(3,4) nv by (simp_all add: lease_of_row_def token_filter_def with_status_def)
  have same: "read_indexer_status db' = read_indexer_status db1" "lease_view_of db' = lease_view_of db1"
    "has_profile db' = has_profile db1"
    by (simp_all add: db' read_indexer_status_def lease_view_of_def has_profile_def fun_eq_iff)
  have inc: "rows = db_incidents db1 @ [incident_of token v code]" "has_profile db1 (tk_profile token)"
    using rows by (simp_all add: insert_row_def split: if_splits)
  have "incident_table.consistent (db_incidents db1)" using old(7) by (simp add: statuses_ok_def)
  then have "incident_table.consistent rows" using incident_table.consistent_insert rows by blast
  then have "statuses_ok db'"
    using old(7) inc unfolding statuses_ok_def same(3) by (simp add: db' incident_of_def)
  moreover have "only_statuses_changed db db'"
    using old(8) unfolding only_statuses_changed_def db' by (cases db, cases db1) simp
  ultimately show ?thesis
    using old(1,5,6) token_filter_lease [OF old(3,2)] row same inc(1)
    by (auto simp: db' incident_of_def)
qed

lemma lock_Inr:
  assumes "statuses_ok db" and "lock_active_indexer_lease clock token given db = Inr row"
  shows "holds_lease token (lease_view_of db)"
proof -
  obtain now where "find (active_token_filter token now) (db_statuses db) = Some row"
    using assms(2) by (auto simp: lock_active_indexer_lease_def res_simps normalize_token_Inr)
  note row = find_mem [OF this]
  have con: "status_table.consistent (db_statuses db)" using assms(1) by (simp add: statuses_ok_def)
  have tf: "token_filter token row" using row by (simp add: active_token_filter_def)
  then have "lease_view_of db (tk_profile token) = lease_of_row row"
    using read_status_unique [OF con, of row] row by (simp add: lease_view_of_def token_filter_def)
  then show ?thesis
    using token_filter_lease [OF tf] status_table.consistent_member [OF con] row by (auto simp: holds_lease_def)
qed

text \<open>Without the lease every statement of the token throws.\<close>

lemma not_held_no_row:
  assumes "statuses_ok db" and "\<not> holds_lease token (lease_view_of db)" and "r \<in> set (db_statuses db)"
  shows "\<not> token_filter token r"
proof
  assume tf: "token_filter token r"
  have con: "status_table.consistent (db_statuses db)" using assms(1) by (simp add: statuses_ok_def)
  have "lease_view_of db (tk_profile token) = lease_of_row r"
    using read_status_unique [OF con assms(3)] tf by (simp add: lease_view_of_def token_filter_def)
  then show False
    using token_filter_lease [OF tf] status_table.consistent_member [OF con assms(3)] assms(2)
    by (auto simp: holds_lease_def)
qed

lemma not_held_lost:
  assumes "statuses_ok db" and "\<not> holds_lease token (lease_view_of db)"
    and "normalize_token token = Inr token" and "database_now clock given = Inr now"
  shows "lock_active_indexer_lease clock token given db = coded_failure ''INDEXER_LEASE_LOST''"
    and "release_indexer_lease clock token given db = coded_failure ''INDEXER_LEASE_LOST''"
    and "normalize_indexer_status_update state input = Inr v \<Longrightarrow>
      update_indexer_status clock token state input given db = coded_failure ''INDEXER_LEASE_LOST''"
    and "normalize_halt_indexer_status input code = Inr v \<Longrightarrow>
      halt_indexer clock token input code given db = coded_failure ''INDEXER_LEASE_LOST''"
    and "normalize_lease_duration d = Inr d \<Longrightarrow> database_lease_expiration clock given d = Inr expires \<Longrightarrow>
      renew_indexer_lease clock token d given db = coded_failure ''INDEXER_LEASE_LOST''"
proof -
  have none: "\<not> token_filter token r" if "r \<in> set (db_statuses db)" for r
    using not_held_no_row [OF assms(1,2) that] .
  then have nact: "\<not> active_token_filter token now r" if "r \<in> set (db_statuses db)" for r
    using that by (simp add: active_token_filter_def)
  have "find (active_token_filter token now) (db_statuses db) = None"
    using nact by (simp add: find_None_iff)
  then show "lock_active_indexer_lease clock token given db = coded_failure ''INDEXER_LEASE_LOST''"
    by (simp add: lock_active_indexer_lease_def assms)
  show "release_indexer_lease clock token given db = coded_failure ''INDEXER_LEASE_LOST''"
    by (simp add: release_indexer_lease_def assms update_status_row_lost none)
  show "normalize_indexer_status_update state input = Inr v \<Longrightarrow>
      update_indexer_status clock token state input given db = coded_failure ''INDEXER_LEASE_LOST''"
    by (simp add: update_indexer_status_def assms update_status_row_lost nact)
  show "normalize_halt_indexer_status input code = Inr v \<Longrightarrow>
      halt_indexer clock token input code given db = coded_failure ''INDEXER_LEASE_LOST''"
    by (simp add: halt_indexer_def assms update_status_row_lost none)
  show "normalize_lease_duration d = Inr d \<Longrightarrow> database_lease_expiration clock given d = Inr expires \<Longrightarrow>
      renew_indexer_lease clock token d given db = coded_failure ''INDEXER_LEASE_LOST''"
    by (simp add: renew_indexer_lease_def assms update_status_row_lost nact)
qed

section \<open>When a lease can be taken\<close>

lemma first_status_ok: "status_row_ok (first_status profile now)"
  by (simp add: status_row_ok_def first_status_def agreed_ledger_ok_def agreed_not_ahead_def ready_shape_def
      lease_window_ok_def MAX_SAFE_EPOCH_def)

lemma acquired_status_ok:
  assumes "writer_id_pattern writer" and "1 \<le> ss_epoch row" and "inserted \<or> ss_epoch row \<le> MAX_SAFE_EPOCH - 1"
    and "ss_epoch row \<le> MAX_SAFE_EPOCH" and "0 \<le> d" and "d \<le> MAX_INDEXER_LEASE_DURATION_MS"
  shows "status_row_ok (acquired_status writer inserted now (now + d) row)"
  using assms
  by (auto simp: status_row_ok_def acquired_status_def agreed_ledger_ok_def agreed_not_ahead_def ready_shape_def
      lease_window_ok_def MAX_INDEXER_LEASE_DURATION_MS_def)

lemma update_status_row_found:
  assumes "status_table.consistent (db_statuses db)" and "read_indexer_status db profile = Some row" and "p row"
    and "\<And>r. p r \<Longrightarrow> ss_profile r = profile" and "status_row_ok (f row)"
  shows "\<exists>db'. update_status_row code p f db = Inr (f row, db')"
proof -
  have mem: "row \<in> set (db_statuses db)" using read_status_mem [OF assms(2)] by simp
  have only: "r = row" if "r \<in> set (db_statuses db)" "p r" for r
    using read_status_unique [OF assms(1) that(1)] assms(2) assms(4) [OF that(2)] by simp
  have "find p (db_statuses db) = Some row"
    using mem assms(3) only by (rule find_unique)
  moreover have "list_all (\<lambda>r. p r \<longrightarrow> status_row_ok (f r)) (db_statuses db)"
    using only assms(5) by (auto simp: list_all_iff)
  ultimately show ?thesis by (simp add: update_status_row_def update_rows_def)
qed

text \<open>With the database's clock, a lease is granted exactly when no holder is left before its expiry.\<close>

lemma acquire_iff:
  assumes "statuses_ok db" and "has_profile db profile"
    and "profile_id_pattern profile" and "writer_id_pattern writer"
    and "MIN_INDEXER_LEASE_DURATION_MS \<le> d" and "d \<le> MAX_INDEXER_LEASE_DURATION_MS"
    and view: "lease_view_of db profile = (epoch, holder)"
  shows "(\<forall>(w, e) \<in> set_option holder. e \<le> clock) \<Longrightarrow> epoch < MAX_SAFE_EPOCH \<Longrightarrow>
      \<exists>lease db'. acquire_indexer_lease clock profile writer d None db = Inr (lease, db')"
    and "\<exists>(w, e) \<in> set_option holder. clock < e \<Longrightarrow>
      acquire_indexer_lease clock profile writer d None db = coded_failure ''INDEXER_LEASE_UNAVAILABLE''"
proof -
  let ?first = "first_status profile clock"
  let ?ins = "\<not> list_ex (same_status ?first) (db_statuses db)"
  let ?rows = "if ?ins then db_statuses db @ [?first] else db_statuses db"
  let ?db = "db\<lparr>db_statuses := ?rows\<rparr>"
  have con: "status_table.consistent (db_statuses db)" using assms(1) by (simp add: statuses_ok_def)
  have req: "normalize_indexer_lease_request profile writer d None =
      Inr \<lparr>tk_profile = profile, tk_writer = writer, tk_epoch = 1\<rparr>"
    using assms by (simp add: normalize_indexer_lease_request_def normalize_token_def normalize_lease_duration_def
        MAX_SAFE_EPOCH_def)
  have rows: "insert_or_skip status_row_ok same_status (has_profile db profile) ?first (db_statuses db) = Inr ?rows"
    using assms(2) by (simp add: insert_or_skip_def insert_row_def first_status_ok)
  have con': "status_table.consistent ?rows" using status_table.consistent_skip [OF con rows] .
  have run: "acquire_indexer_lease clock profile writer d None db =
      rbind (update_status_row ''INDEXER_LEASE_UNAVAILABLE'' (may_be_acquired profile ?ins clock)
        (acquired_status writer ?ins clock (clock + d)) ?db)
        (\<lambda>(row, db'). rbind (acquired_of row) (\<lambda>lease. Inr (lease, db')))"
    unfolding acquire_indexer_lease_def by (simp add: req database_now_def rows database_lease_expiration_def)
  have exist: "?ins \<longleftrightarrow> read_indexer_status db profile = None"
    by (auto simp: list_ex_iff same_status_def first_status_def read_indexer_status_def find_None_iff)
  show "\<exists>lease db'. acquire_indexer_lease clock profile writer d None db = Inr (lease, db')"
    if free: "\<forall>(w, e) \<in> set_option holder. e \<le> clock" and room: "epoch < MAX_SAFE_EPOCH"
  proof -
    obtain row where row: "read_indexer_status ?db profile = Some row"
      "may_be_acquired profile ?ins clock row" "status_row_ok row" "ss_profile row = profile"
      "?ins \<or> ss_epoch row \<le> MAX_SAFE_EPOCH - 1"
    proof (cases ?ins)
      case True
      then have "read_indexer_status db profile = None" using exist by simp
      then have "read_indexer_status ?db profile = Some ?first"
        using read_status_unique [of ?db ?first] con' True by (simp add: first_status_def)
      then show thesis using that [of ?first] True by (simp add: may_be_acquired_def first_status_ok) (simp add: first_status_def)
    next
      case False
      then obtain row where r: "read_indexer_status db profile = Some row" using exist by auto
      then have ok: "status_row_ok row" by (rule token_row_ok [OF con])
      have lr: "lease_of_row row = (epoch, holder)" using view r by (simp add: lease_view_of_def)
      have "may_be_acquired profile ?ins clock row"
        using lr free room read_status_mem [OF r] lease_window_cases [OF ok]
        by (auto simp: may_be_acquired_def lease_of_row_def split: option.splits)
      then show thesis
        using that [of row] r ok False lr room read_status_mem [OF r] by (simp add: lease_of_row_def)
    qed
    have "status_row_ok (acquired_status writer ?ins clock (clock + d) row)"
      using assms(4-6) row(3,5)
      by (intro acquired_status_ok) (auto simp: status_row_ok_def MIN_INDEXER_LEASE_DURATION_MS_def)
    then obtain db' where "update_status_row ''INDEXER_LEASE_UNAVAILABLE'' (may_be_acquired profile ?ins clock)
        (acquired_status writer ?ins clock (clock + d)) ?db =
        Inr (acquired_status writer ?ins clock (clock + d) row, db')"
      using update_status_row_found [of ?db profile row "may_be_acquired profile ?ins clock"
          "acquired_status writer ?ins clock (clock + d)"] con' row(1,2)
      by (auto simp: may_be_acquired_def)
    then show ?thesis unfolding run by (simp add: acquired_of_def acquired_status_def)
  qed
  show "acquire_indexer_lease clock profile writer d None db = coded_failure ''INDEXER_LEASE_UNAVAILABLE''"
    if held: "\<exists>(w, e) \<in> set_option holder. clock < e"
  proof -
    obtain w e where h: "holder = Some (w, e)" "clock < e" using held by auto
    then obtain row where r: "read_indexer_status db profile = Some row" "lease_of_row row = (epoch, holder)"
      using view by (auto simp: lease_view_of_def split: option.splits)
    then have ins: "\<not> ?ins" using exist by simp
    have "\<not> may_be_acquired profile ?ins clock s" if "s \<in> set (db_statuses db)" for s
    proof
      assume m: "may_be_acquired profile ?ins clock s"
      then have "s = row" using read_status_unique [OF con that] r(1) by (simp add: may_be_acquired_def)
      then show False using m ins h r(2) by (auto simp: may_be_acquired_def lease_of_row_def split: option.splits)
    qed
    then show ?thesis unfolding run using ins by (simp add: update_status_row_lost)
  qed
qed

end
