(* ===== verification/Indexer_Repository.thy ===== *)
theory Indexer_Repository
  imports Indexer_Fencing
begin

text \<open>
  The repository of the indexer (\<open>repository.ts\<close>): profiles, checkpoints, the schema catalog and the
  transaction that persists the projection of one ledger. A function maps the database to its new
  contents or to the thrown error, after which the transaction is rolled back.
\<close>

section \<open>Profiles\<close>

datatype database_scope = Shared | Exclusive_Profile

definition profile_row_of :: "network_profile \<Rightarrow> profile_row" where
  "profile_row_of configured =
     \<lparr>np_id = profile_id configured, np_version = lit ''0.1'', np_network_id = profile_network_id configured,
      np_amendment = to_upper (required_amendment configured), np_registry = registry_address configured,
      np_drops = 1, np_activation_index = activation_ledger_index configured,
      np_activation_hash = to_lower (activation_ledger_hash configured)\<rparr>"

definition assert_stored_profile_matches :: "profile_row \<Rightarrow> network_profile \<Rightarrow> ierr + unit" where
  "assert_stored_profile_matches stored configured =
     (if stored = profile_row_of configured then Inr () else Inl Plain_Error)"

definition ensure_network_profile :: "network_profile \<Rightarrow> database \<Rightarrow> ierr + database" where
  "ensure_network_profile profile db =
     rbind (insert_or_skip profile_row_ok same_profile True (profile_row_of profile) (db_profiles db)) (\<lambda>rows.
     case find (\<lambda>r. np_id r = profile_id profile) rows of
       None \<Rightarrow> Inl Plain_Error
     | Some stored \<Rightarrow>
         rbind (assert_stored_profile_matches stored profile) (\<lambda>_. Inr (db\<lparr>db_profiles := rows\<rparr>)))"

definition initialize_profile :: "database_scope \<Rightarrow> network_profile \<Rightarrow> database \<Rightarrow> ierr + database" where
  "initialize_profile scope profile db =
     (if scope = Exclusive_Profile \<and> list_ex (\<lambda>r. np_id r \<noteq> profile_id profile) (db_profiles db)
      then coded_failure ''DATABASE_SCOPE_CONFLICT''
      else ensure_network_profile profile db)"

section \<open>Checkpoints and the catalog\<close>

definition checkpoint_from_row :: "checkpoint_row \<Rightarrow> checkpoint" where
  "checkpoint_from_row r =
     \<lparr>cp_index = ck_index r, cp_hash = ck_hash r, cp_parent = ck_parent r, cp_close_time = ck_close_time r,
      cp_transaction_count = ck_count r, cp_transaction_root = ck_root r\<rparr>"

definition profile_checkpoints :: "database \<Rightarrow> jstr \<Rightarrow> checkpoint_row list" where
  "profile_checkpoints db profile = filter (\<lambda>r. ck_profile r = profile) (db_checkpoints db)"

definition get_last_checkpoint :: "database \<Rightarrow> jstr \<Rightarrow> checkpoint option" where
  "get_last_checkpoint db profile =
     map_option checkpoint_from_row (latest_by ck_index (profile_checkpoints db profile))"

definition catalog_entry_of_row :: "int \<Rightarrow> schema_row \<Rightarrow> catalog_entry" where
  "catalog_entry_of_row network_id r =
     \<lparr>ct_uid = sc_uid r, ct_definition = sc_definition r, ct_resolved = sc_resolved r,
      ct_publisher = sc_publisher r, ct_network_id = network_id, ct_ledger_index = sc_ledger_index r,
      ct_transaction_index = sc_index r, ct_hash = sc_hash r\<rparr>"

text \<open>\<open>ORDER BY ledger_index, transaction_index\<close> as two stable sorts.\<close>

definition get_schema_catalog :: "database \<Rightarrow> jstr \<Rightarrow> catalog_entry list" where
  "get_schema_catalog db profile =
     (case find (\<lambda>r. np_id r = profile) (db_profiles db) of
        None \<Rightarrow> []
      | Some stored \<Rightarrow>
          map (catalog_entry_of_row (np_network_id stored))
            (sort_key sc_ledger_index (sort_key sc_index (filter (\<lambda>r. sc_profile r = profile) (db_schemas db)))))"

section \<open>Schema registrations\<close>

text \<open>
  A value of strict JSON, materialized with ordinary objects: the same data. Errors of the canonical
  encoder carry codes that are no stable codes of the indexer.
\<close>

definition plain_database_json :: "'x core_lib_scheme \<Rightarrow> jsval \<Rightarrow> ierr + jsval" where
  "plain_database_json lib v =
     (case canonical_json lib v of Inl _ \<Rightarrow> Inl Plain_Error | Inr _ \<Rightarrow> Inr v)"

definition event_row_of :: "jstr \<Rightarrow> validated_ledger \<Rightarrow> schema_registration \<Rightarrow> schema_event_row" where
  "event_row_of profile ledger r =
     (let row = \<lparr>se_profile = profile, se_hash = rg_hash r, se_ledger_index = vl_index ledger,
                 se_ledger_hash = vl_hash ledger, se_index = rg_index r, se_publisher = rg_publisher r,
                 se_accepted = False, se_reason = None, se_uid = None, se_memo = None\<rparr>
      in case rg_outcome r of
           Registration_Accepted uid memo schema resolved \<Rightarrow>
             row\<lparr>se_accepted := True, se_uid := Some uid, se_memo := Some memo\<rparr>
         | Registration_Rejected reason memo \<Rightarrow> row\<lparr>se_reason := Some reason, se_memo := memo\<rparr>)"

definition schema_row_of ::
  "jstr \<Rightarrow> validated_ledger \<Rightarrow> schema_registration \<Rightarrow> jstr \<Rightarrow> schema_definition \<Rightarrow> resolved_schema \<Rightarrow> schema_row" where
  "schema_row_of profile ledger r uid schema resolved =
     \<lparr>sc_profile = profile, sc_uid = uid, sc_publisher = rg_publisher r, sc_parent = extends schema,
      sc_supersedes = supersedes schema, sc_definition = schema, sc_resolved = resolved,
      sc_hash = rg_hash r, sc_ledger_index = vl_index ledger, sc_index = rg_index r\<rparr>"

definition insert_schema_event :: "schema_event_row \<Rightarrow> database \<Rightarrow> ierr + database" where
  "insert_schema_event row db =
     rbind (insert_or_skip schema_event_row_ok same_schema_event (has_profile db (se_profile row)) row
       (db_schema_events db)) (\<lambda>rows. Inr (db\<lparr>db_schema_events := rows\<rparr>))"

definition insert_schema :: "schema_row \<Rightarrow> database \<Rightarrow> ierr + database" where
  "insert_schema row db =
     rbind (insert_or_skip schema_row_ok same_schema
       (has_profile db (sc_profile row) \<and> has_schema_event db (sc_profile row) (sc_hash row)) row
       (db_schemas db)) (\<lambda>rows. Inr (db\<lparr>db_schemas := rows\<rparr>))"

definition memo_of_outcome :: "registration_outcome \<Rightarrow> jsval option" where
  "memo_of_outcome outcome =
     (case outcome of Registration_Accepted _ memo _ _ \<Rightarrow> Some memo | Registration_Rejected _ memo \<Rightarrow> memo)"

definition persist_registration ::
  "'x core_lib_scheme \<Rightarrow> jstr \<Rightarrow> validated_ledger \<Rightarrow> schema_registration \<Rightarrow> database \<Rightarrow> ierr + database" where
  "persist_registration lib profile ledger r db =
     rbind (case memo_of_outcome (rg_outcome r) of
              None \<Rightarrow> Inr () | Some memo \<Rightarrow> rbind (plain_database_json lib memo) (\<lambda>_. Inr ())) (\<lambda>_.
     rbind (insert_schema_event (event_row_of profile ledger r) db) (\<lambda>db.
     case rg_outcome r of
       Registration_Accepted uid memo schema resolved \<Rightarrow>
         rbind (plain_database_json lib (schema_value schema)) (\<lambda>_.
         rbind (plain_database_json lib (resolved_value resolved)) (\<lambda>_.
         insert_schema (schema_row_of profile ledger r uid schema resolved) db))
     | Registration_Rejected _ _ \<Rightarrow> Inr db))"

section \<open>Credential mutations\<close>

definition generation_row_of :: "jstr \<Rightarrow> validated_ledger \<Rightarrow> credential_mutation \<Rightarrow> generation_row" where
  "generation_row_of profile ledger m =
     \<lparr>gr_profile = profile, gr_id = cm_hash m, gr_object_id = cm_object_id m, gr_issuer = cm_issuer m,
      gr_subject = cm_subject m, gr_schema_uid = cm_schema_uid m, gr_uri_hex = cm_uri_hex m,
      gr_expiration = cm_expiration m, gr_accepted = cm_accepted m, gr_created_ledger = vl_index ledger,
      gr_created_index = cm_index m, gr_last_ledger = vl_index ledger, gr_deleted_ledger = None, gr_cause = None\<rparr>"

definition event_row_of_mutation :: "jstr \<Rightarrow> validated_ledger \<Rightarrow> credential_mutation \<Rightarrow> jstr \<Rightarrow> event_row" where
  "event_row_of_mutation profile ledger m generation =
     \<lparr>ce_profile = profile, ce_hash = cm_hash m, ce_node_index = cm_node_index m, ce_generation = generation,
      ce_object_id = cm_object_id m, ce_ledger_index = vl_index ledger, ce_ledger_hash = vl_hash ledger,
      ce_index = cm_index m, ce_type = cm_event m, ce_issuer = cm_issuer m, ce_subject = cm_subject m,
      ce_schema_uid = cm_schema_uid m, ce_uri_hex = cm_uri_hex m, ce_expiration = cm_expiration m,
      ce_accepted = cm_accepted m, ce_cause = cm_cause m, ce_snapshot = cm_snapshot m\<rparr>"

definition live_generation :: "database \<Rightarrow> jstr \<Rightarrow> jstr \<Rightarrow> generation_row option" where
  "live_generation db profile object_id =
     latest_by gr_created_ledger
       (filter (\<lambda>r. gr_profile r = profile \<and> gr_object_id r = object_id \<and> live r) (db_generations db))"

definition insert_generation :: "generation_row \<Rightarrow> database \<Rightarrow> ierr + database" where
  "insert_generation row db =
     rbind (insert_row generation_row_ok same_generation
       (has_profile db (gr_profile row) \<and> has_schema db (gr_profile row) (gr_schema_uid row)) row
       (db_generations db)) (\<lambda>rows. Inr (db\<lparr>db_generations := rows\<rparr>))"

definition update_generation ::
  "jstr \<Rightarrow> jstr \<Rightarrow> (generation_row \<Rightarrow> generation_row) \<Rightarrow> database \<Rightarrow> ierr + database" where
  "update_generation profile generation f db =
     rbind (update_rows generation_row_ok (\<lambda>r. gr_profile r = profile \<and> gr_id r = generation) f (db_generations db))
       (\<lambda>rows. Inr (db\<lparr>db_generations := rows\<rparr>))"

definition insert_credential_event :: "event_row \<Rightarrow> database \<Rightarrow> ierr + database" where
  "insert_credential_event row db =
     rbind (insert_or_skip event_row_ok same_event
       (has_profile db (ce_profile row) \<and> has_schema db (ce_profile row) (ce_schema_uid row) \<and>
        has_generation db (ce_profile row) (ce_generation row)) row
       (db_events db)) (\<lambda>rows. Inr (db\<lparr>db_events := rows\<rparr>))"

definition accept_generation :: "validated_ledger \<Rightarrow> generation_row \<Rightarrow> generation_row" where
  "accept_generation ledger r = r\<lparr>gr_accepted := True, gr_last_ledger := vl_index ledger\<rparr>"

definition delete_generation :: "validated_ledger \<Rightarrow> deletion_cause option \<Rightarrow> generation_row \<Rightarrow> generation_row" where
  "delete_generation ledger cause r =
     r\<lparr>gr_last_ledger := vl_index ledger, gr_deleted_ledger := Some (vl_index ledger), gr_cause := cause\<rparr>"

definition persist_generation ::
  "jstr \<Rightarrow> validated_ledger \<Rightarrow> credential_mutation \<Rightarrow> database \<Rightarrow> ierr + jstr \<times> database" where
  "persist_generation profile ledger m db =
     (if cm_event m = Created
      then rbind (insert_generation (generation_row_of profile ledger m) db) (\<lambda>db. Inr (cm_hash m, db))
      else case live_generation db profile (cm_object_id m) of
        None \<Rightarrow> Inl Plain_Error
      | Some g \<Rightarrow>
          rbind (update_generation profile (gr_id g)
              (if cm_event m = Accepted then accept_generation ledger else delete_generation ledger (cm_cause m)) db)
            (\<lambda>db. Inr (gr_id g, db)))"

definition persist_credential_mutation ::
  "jstr \<Rightarrow> validated_ledger \<Rightarrow> credential_mutation \<Rightarrow> database \<Rightarrow> ierr + database" where
  "persist_credential_mutation profile ledger m db =
     rbind (persist_generation profile ledger m db) (\<lambda>(generation, db).
     insert_credential_event (event_row_of_mutation profile ledger m generation) db)"

section \<open>Persisting a ledger\<close>

datatype persist_result = Inserted | Already_Processed

definition same_ledger_evidence :: "checkpoint_row \<Rightarrow> validated_ledger \<Rightarrow> ierr + unit" where
  "same_ledger_evidence r ledger =
     (if ck_hash r \<noteq> vl_hash ledger then coded_failure ''CHECKPOINT_CONFLICT''
      else if ck_root r = None then coded_failure ''CHECKPOINT_EVIDENCE_MISSING''
      else if ck_root r \<noteq> Some (vl_transaction_root ledger) \<or> ck_count r \<noteq> int (length (vl_transactions ledger))
      then coded_failure ''CHECKPOINT_CONFLICT''
      else Inr ())"

definition checkpoint_row_of :: "jstr \<Rightarrow> validated_ledger \<Rightarrow> checkpoint_row" where
  "checkpoint_row_of profile ledger =
     \<lparr>ck_profile = profile, ck_index = vl_index ledger, ck_hash = vl_hash ledger, ck_parent = vl_parent ledger,
      ck_close_time = vl_close_time ledger, ck_count = int (length (vl_transactions ledger)),
      ck_root = Some (vl_transaction_root ledger)\<rparr>"

definition insert_checkpoint :: "checkpoint_row \<Rightarrow> database \<Rightarrow> ierr + database" where
  "insert_checkpoint row db =
     rbind (insert_row checkpoint_row_ok same_checkpoint (has_profile db (ck_profile row)) row (db_checkpoints db))
       (\<lambda>rows. Inr (db\<lparr>db_checkpoints := rows\<rparr>))"

definition persist_projection ::
  "'x core_lib_scheme \<Rightarrow> jstr \<Rightarrow> ledger_projection \<Rightarrow> database \<Rightarrow> ierr + database" where
  "persist_projection lib profile projection db =
     rbind (fold_res (persist_registration lib profile (lp_ledger projection)) (lp_registrations projection) db) (\<lambda>db.
     rbind (fold_res (persist_credential_mutation profile (lp_ledger projection)) (lp_mutations projection) db) (\<lambda>db.
     insert_checkpoint (checkpoint_row_of profile (lp_ledger projection)) db))"

text \<open>\<open>clock\<close> and \<open>later\<close> are the instants of the first and of the last statement.\<close>

definition persist_ledger ::
  "'x core_lib_scheme \<Rightarrow> int \<Rightarrow> int \<Rightarrow> network_profile \<Rightarrow> ledger_projection \<Rightarrow> lease_token \<Rightarrow>
    status_state \<Rightarrow> status_input \<Rightarrow> database \<Rightarrow> ierr + persist_result \<times> database" where
  "persist_ledger lib clock later profile projection token state input db =
     (if tk_profile token \<noteq> profile_id profile then Inl Plain_Error
      else
        rbind (lock_active_indexer_lease clock token None db) (\<lambda>_.
        rbind (ensure_network_profile profile db) (\<lambda>db.
        let ledger = lp_ledger projection in
        case find (\<lambda>r. ck_index r = vl_index ledger) (profile_checkpoints db (profile_id profile)) of
          Some same \<Rightarrow>
            rbind (same_ledger_evidence same ledger) (\<lambda>_.
            rbind (update_indexer_status later token state input None db) (\<lambda>(_, db).
            Inr (Already_Processed, db)))
        | None \<Rightarrow>
            rbind (assert_ledger_continuity profile (get_last_checkpoint db (profile_id profile)) ledger) (\<lambda>_.
            rbind (persist_projection lib (profile_id profile) projection db) (\<lambda>db.
            rbind (update_indexer_status later token state input None db) (\<lambda>(_, db).
            Inr (Inserted, db)))))))"

section \<open>The constraints are kept\<close>

lemma has_unchanged [simp]:
  "has_profile (db\<lparr>db_checkpoints := c\<rparr>) = has_profile db"
  "has_profile (db\<lparr>db_statuses := s\<rparr>) = has_profile db"
  "has_profile (db\<lparr>db_incidents := i\<rparr>) = has_profile db"
  "has_profile (db\<lparr>db_schema_events := se\<rparr>) = has_profile db"
  "has_profile (db\<lparr>db_schemas := sc\<rparr>) = has_profile db"
  "has_profile (db\<lparr>db_generations := g\<rparr>) = has_profile db"
  "has_profile (db\<lparr>db_events := e\<rparr>) = has_profile db"
  "has_schema_event (db\<lparr>db_checkpoints := c\<rparr>) = has_schema_event db"
  "has_schema_event (db\<lparr>db_profiles := p\<rparr>) = has_schema_event db"
  "has_schema_event (db\<lparr>db_statuses := s\<rparr>) = has_schema_event db"
  "has_schema_event (db\<lparr>db_incidents := i\<rparr>) = has_schema_event db"
  "has_schema_event (db\<lparr>db_schemas := sc\<rparr>) = has_schema_event db"
  "has_schema_event (db\<lparr>db_generations := g\<rparr>) = has_schema_event db"
  "has_schema_event (db\<lparr>db_events := e\<rparr>) = has_schema_event db"
  "has_schema (db\<lparr>db_checkpoints := c\<rparr>) = has_schema db"
  "has_schema (db\<lparr>db_profiles := p\<rparr>) = has_schema db"
  "has_schema (db\<lparr>db_statuses := s\<rparr>) = has_schema db"
  "has_schema (db\<lparr>db_incidents := i\<rparr>) = has_schema db"
  "has_schema (db\<lparr>db_schema_events := se\<rparr>) = has_schema db"
  "has_schema (db\<lparr>db_generations := g\<rparr>) = has_schema db"
  "has_schema (db\<lparr>db_events := e\<rparr>) = has_schema db"
  "has_generation (db\<lparr>db_checkpoints := c\<rparr>) = has_generation db"
  "has_generation (db\<lparr>db_profiles := p\<rparr>) = has_generation db"
  "has_generation (db\<lparr>db_statuses := s\<rparr>) = has_generation db"
  "has_generation (db\<lparr>db_incidents := i\<rparr>) = has_generation db"
  "has_generation (db\<lparr>db_schema_events := se\<rparr>) = has_generation db"
  "has_generation (db\<lparr>db_schemas := sc\<rparr>) = has_generation db"
  "has_generation (db\<lparr>db_events := e\<rparr>) = has_generation db"
  by (simp_all add: has_profile_def has_schema_event_def has_schema_def has_generation_def fun_eq_iff)

lemma database_okI:
  assumes "profile_table.consistent (db_profiles db)" and "checkpoint_table.consistent (db_checkpoints db)"
    and "status_table.consistent (db_statuses db)" and "incident_table.consistent (db_incidents db)"
    and "schema_event_table.consistent (db_schema_events db)" and "schema_table.consistent (db_schemas db)"
    and "generation_table.consistent (db_generations db)" and "event_table.consistent (db_events db)"
    and "list_all (\<lambda>r. has_profile db (ck_profile r)) (db_checkpoints db)"
    and "list_all (\<lambda>r. has_profile db (ss_profile r)) (db_statuses db)"
    and "list_all (\<lambda>r. has_profile db (ii_profile r)) (db_incidents db)"
    and "list_all (\<lambda>r. has_profile db (se_profile r)) (db_schema_events db)"
    and "list_all (\<lambda>r. has_profile db (sc_profile r) \<and> has_schema_event db (sc_profile r) (sc_hash r)) (db_schemas db)"
    and "list_all (\<lambda>r. has_profile db (gr_profile r) \<and> has_schema db (gr_profile r) (gr_schema_uid r)) (db_generations db)"
    and "list_all (\<lambda>r. has_profile db (ce_profile r) \<and> has_schema db (ce_profile r) (ce_schema_uid r) \<and>
        has_generation db (ce_profile r) (ce_generation r)) (db_events db)"
  shows "database_ok db"
  unfolding database_ok_def by (intro conjI assms)

lemma database_okD:
  assumes "database_ok db"
  shows "profile_table.consistent (db_profiles db)" "checkpoint_table.consistent (db_checkpoints db)"
    "status_table.consistent (db_statuses db)" "incident_table.consistent (db_incidents db)"
    "schema_event_table.consistent (db_schema_events db)" "schema_table.consistent (db_schemas db)"
    "generation_table.consistent (db_generations db)" "event_table.consistent (db_events db)"
    "list_all (\<lambda>r. has_profile db (ck_profile r)) (db_checkpoints db)"
    "list_all (\<lambda>r. has_profile db (ss_profile r)) (db_statuses db)"
    "list_all (\<lambda>r. has_profile db (ii_profile r)) (db_incidents db)"
    "list_all (\<lambda>r. has_profile db (se_profile r)) (db_schema_events db)"
    "list_all (\<lambda>r. has_profile db (sc_profile r) \<and> has_schema_event db (sc_profile r) (sc_hash r)) (db_schemas db)"
    "list_all (\<lambda>r. has_profile db (gr_profile r) \<and> has_schema db (gr_profile r) (gr_schema_uid r)) (db_generations db)"
    "list_all (\<lambda>r. has_profile db (ce_profile r) \<and> has_schema db (ce_profile r) (ce_schema_uid r) \<and>
        has_generation db (ce_profile r) (ce_generation r)) (db_events db)"
  using assms unfolding database_ok_def by blast+

lemma database_ok_statuses: "database_ok db \<Longrightarrow> statuses_ok db"
  by (simp add: statuses_ok_def database_okD)

lemma statuses_changed_ok:
  assumes "database_ok db" and "statuses_ok db'" and "only_statuses_changed db db'"
  shows "database_ok db'"
proof -
  have eq: "db' = db\<lparr>db_statuses := db_statuses db', db_incidents := db_incidents db'\<rparr>"
    using assms(3) by (simp add: only_statuses_changed_def)
  have f: "db_profiles db' = db_profiles db" "db_checkpoints db' = db_checkpoints db"
    "db_schema_events db' = db_schema_events db" "db_schemas db' = db_schemas db"
    "db_generations db' = db_generations db" "db_events db' = db_events db"
    by (subst eq, simp)+
  have h: "has_profile db' = has_profile db" "has_schema_event db' = has_schema_event db"
    "has_schema db' = has_schema db" "has_generation db' = has_generation db"
    by (subst eq, simp)+
  have s: "status_table.consistent (db_statuses db')" "incident_table.consistent (db_incidents db')"
    "list_all (\<lambda>r. has_profile db (ss_profile r)) (db_statuses db')"
    "list_all (\<lambda>r. has_profile db (ii_profile r)) (db_incidents db')"
    using assms(2) by (simp_all add: statuses_ok_def h)
  show ?thesis
    using s database_okD [OF assms(1)] by (intro database_okI) (simp_all only: f h)
qed

lemma skip_Inr: "insert_or_skip ok same c row rows = Inr rows' \<Longrightarrow> rows' = rows \<or> (c \<and> rows' = rows @ [row])"
  by (auto simp: insert_or_skip_def insert_row_def split: if_splits)

lemma insert_Inr: "insert_row ok same c row rows = Inr rows' \<longleftrightarrow>
    ok row \<and> \<not> list_ex (same row) rows \<and> c \<and> rows' = rows @ [row]"
  by (auto simp: insert_row_def)

lemma insert_checkpoint_ok: "database_ok db \<Longrightarrow> insert_checkpoint row db = Inr db' \<Longrightarrow> database_ok db'"
  by (rule database_okI)
    (auto simp: insert_checkpoint_def res_simps database_okD insert_Inr
      intro: checkpoint_table.consistent_insert [of "db_checkpoints db" "has_profile db (ck_profile row)" row])

lemma insert_schema_event_ok:
  assumes "database_ok db" and "insert_schema_event row db = Inr db'"
  shows "database_ok db'"
proof -
  obtain rows where rows: "insert_or_skip schema_event_row_ok same_schema_event (has_profile db (se_profile row)) row
      (db_schema_events db) = Inr rows" and db': "db' = db\<lparr>db_schema_events := rows\<rparr>"
    using assms(2) by (auto simp: insert_schema_event_def res_simps)
  note ok = database_okD [OF assms(1)]
  have "schema_event_table.consistent rows" using schema_event_table.consistent_skip [OF ok(5) rows] .
  moreover have "list_all (\<lambda>r. has_profile db (se_profile r)) rows" using skip_Inr [OF rows] ok(12) by auto
  moreover have "has_schema_event db p h \<Longrightarrow> has_schema_event db' p h" for p h
    using skip_Inr [OF rows] by (auto simp: has_schema_event_def db')
  then have "list_all (\<lambda>r. has_profile db (sc_profile r) \<and> has_schema_event db' (sc_profile r) (sc_hash r)) (db_schemas db)"
    using ok(13) by (auto simp: list_all_iff)
  ultimately show ?thesis using ok by (intro database_okI) (simp_all add: db')
qed

lemma insert_schema_ok:
  assumes "database_ok db" and "insert_schema row db = Inr db'"
  shows "database_ok db'"
proof -
  obtain rows where rows: "insert_or_skip schema_row_ok same_schema
      (has_profile db (sc_profile row) \<and> has_schema_event db (sc_profile row) (sc_hash row)) row
      (db_schemas db) = Inr rows" and db': "db' = db\<lparr>db_schemas := rows\<rparr>"
    using assms(2) by (auto simp: insert_schema_def res_simps)
  note ok = database_okD [OF assms(1)]
  have "schema_table.consistent rows" using schema_table.consistent_skip [OF ok(6) rows] .
  moreover have "list_all (\<lambda>r. has_profile db (sc_profile r) \<and> has_schema_event db (sc_profile r) (sc_hash r)) rows"
    using skip_Inr [OF rows] ok(13) by auto
  moreover have mono: "has_schema db p h \<Longrightarrow> has_schema db' p h" for p h
    using skip_Inr [OF rows] by (auto simp: has_schema_def db')
  then have "list_all (\<lambda>r. has_profile db (gr_profile r) \<and> has_schema db' (gr_profile r) (gr_schema_uid r)) (db_generations db)"
    "list_all (\<lambda>r. has_profile db (ce_profile r) \<and> has_schema db' (ce_profile r) (ce_schema_uid r) \<and>
        has_generation db (ce_profile r) (ce_generation r)) (db_events db)"
    using ok(14,15) by (auto simp: list_all_iff)
  ultimately show ?thesis using ok by (intro database_okI) (simp_all add: db')
qed

lemma insert_credential_event_ok:
  assumes "database_ok db" and "insert_credential_event row db = Inr db'"
  shows "database_ok db'"
proof -
  obtain rows where rows: "insert_or_skip event_row_ok same_event
       (has_profile db (ce_profile row) \<and> has_schema db (ce_profile row) (ce_schema_uid row) \<and>
        has_generation db (ce_profile row) (ce_generation row)) row (db_events db) = Inr rows"
    and db': "db' = db\<lparr>db_events := rows\<rparr>"
    using assms(2) by (auto simp: insert_credential_event_def res_simps)
  note ok = database_okD [OF assms(1)]
  have "event_table.consistent rows" using event_table.consistent_skip [OF ok(8) rows] .
  moreover have "list_all (\<lambda>r. has_profile db (ce_profile r) \<and> has_schema db (ce_profile r) (ce_schema_uid r) \<and>
        has_generation db (ce_profile r) (ce_generation r)) rows"
    using skip_Inr [OF rows] ok(15) by auto
  ultimately show ?thesis using ok by (intro database_okI) (simp_all add: db')
qed

lemma generations_changed_ok:
  assumes "database_ok db" and "generation_table.consistent rows"
    and "list_all (\<lambda>r. has_profile db (gr_profile r) \<and> has_schema db (gr_profile r) (gr_schema_uid r)) rows"
    and "\<And>p g. has_generation db p g \<Longrightarrow> has_generation (db\<lparr>db_generations := rows\<rparr>) p g"
  shows "database_ok (db\<lparr>db_generations := rows\<rparr>)"
proof -
  note ok = database_okD [OF assms(1)]
  have "list_all (\<lambda>r. has_profile db (ce_profile r) \<and> has_schema db (ce_profile r) (ce_schema_uid r) \<and>
        has_generation (db\<lparr>db_generations := rows\<rparr>) (ce_profile r) (ce_generation r)) (db_events db)"
    using ok(15) assms(4) by (auto simp: list_all_iff)
  then show ?thesis using ok assms(2,3) by (intro database_okI) simp_all
qed

lemma insert_generation_ok:
  assumes "database_ok db" and "insert_generation row db = Inr db'"
  shows "database_ok db'"
proof -
  obtain rows where rows: "insert_row generation_row_ok same_generation
      (has_profile db (gr_profile row) \<and> has_schema db (gr_profile row) (gr_schema_uid row)) row
      (db_generations db) = Inr rows" and db': "db' = db\<lparr>db_generations := rows\<rparr>"
    using assms(2) by (auto simp: insert_generation_def res_simps)
  note ok = database_okD [OF assms(1)]
  show ?thesis unfolding db'
    using ok(14) rows generation_table.consistent_insert [OF ok(7) rows]
    by (intro generations_changed_ok assms(1)) (auto simp: insert_Inr has_generation_def)
qed

text \<open>An update keeps what identifies a generation, and does not bring a deleted one to life.\<close>

lemma update_generation_ok:
  assumes "database_ok db" and "update_generation profile generation f db = Inr db'"
    and same: "\<And>r. gr_profile (f r) = gr_profile r \<and> gr_id (f r) = gr_id r \<and> gr_issuer (f r) = gr_issuer r \<and>
      gr_subject (f r) = gr_subject r \<and> gr_schema_uid (f r) = gr_schema_uid r"
    and dead: "\<And>r. live (f r) \<Longrightarrow> live r"
  shows "database_ok db'"
proof -
  let ?p = "\<lambda>r. gr_profile r = profile \<and> gr_id r = generation"
  let ?g = "\<lambda>r. if ?p r then f r else r"
  obtain rows where rows: "update_rows generation_row_ok ?p f (db_generations db) = Inr rows"
    and db': "db' = db\<lparr>db_generations := rows\<rparr>"
    using assms(2) by (auto simp: update_generation_def res_simps)
  have map: "rows = map ?g (db_generations db)"
    using rows by (auto simp: update_rows_def split: if_splits)
  note ok = database_okD [OF assms(1)]
  have "generation_table.consistent rows"
    using same dead by (intro generation_table.consistent_update [OF ok(7) rows]) (auto simp: same_generation_def)
  moreover have "list_all (\<lambda>r. has_profile db (gr_profile r) \<and> has_schema db (gr_profile r) (gr_schema_uid r)) rows"
    using ok(14) same by (auto simp: map list_all_iff)
  moreover have "has_generation (db\<lparr>db_generations := rows\<rparr>) p g = has_generation db p g" for p g
    using same by (auto simp: has_generation_def map list_ex_iff)
  ultimately show ?thesis unfolding db' by (intro generations_changed_ok assms(1)) auto
qed

lemma persist_registration_ok:
  assumes "database_ok db" and "persist_registration lib profile ledger r db = Inr db'"
  shows "database_ok db'"
proof -
  obtain db1 where db1: "insert_schema_event (event_row_of profile ledger r) db = Inr db1"
    and rest: "(case rg_outcome r of
       Registration_Accepted uid memo schema resolved \<Rightarrow>
         rbind (plain_database_json lib (schema_value schema)) (\<lambda>_.
         rbind (plain_database_json lib (resolved_value resolved)) (\<lambda>_.
         insert_schema (schema_row_of profile ledger r uid schema resolved) db1))
     | Registration_Rejected _ _ \<Rightarrow> Inr db1) = Inr db'"
    using assms(2) by (auto simp: persist_registration_def res_simps)
  note ok = insert_schema_event_ok [OF assms(1) db1]
  show ?thesis
  proof (cases "rg_outcome r")
    case (Registration_Accepted uid memo schema resolved)
    then show ?thesis using rest insert_schema_ok [OF ok] by (auto simp: res_simps)
  next
    case (Registration_Rejected reason memo)
    then show ?thesis using rest ok by simp
  qed
qed

lemma accept_keeps: "gr_profile (accept_generation ledger r) = gr_profile r \<and> gr_id (accept_generation ledger r) = gr_id r \<and>
    gr_issuer (accept_generation ledger r) = gr_issuer r \<and> gr_subject (accept_generation ledger r) = gr_subject r \<and>
    gr_schema_uid (accept_generation ledger r) = gr_schema_uid r"
  by (simp add: accept_generation_def)

lemma delete_keeps: "gr_profile (delete_generation ledger c r) = gr_profile r \<and> gr_id (delete_generation ledger c r) = gr_id r \<and>
    gr_issuer (delete_generation ledger c r) = gr_issuer r \<and> gr_subject (delete_generation ledger c r) = gr_subject r \<and>
    gr_schema_uid (delete_generation ledger c r) = gr_schema_uid r"
  by (simp add: delete_generation_def)

lemma persist_generation_ok:
  assumes "database_ok db" and "persist_generation profile ledger m db = Inr (g, db')"
  shows "database_ok db'"
proof (cases "cm_event m = Created")
  case True
  then show ?thesis using assms insert_generation_ok by (auto simp: persist_generation_def res_simps)
next
  case False
  let ?f = "if cm_event m = Accepted then accept_generation ledger else delete_generation ledger (cm_cause m)"
  have "update_generation profile g ?f db = Inr db'"
    using False assms(2) by (auto simp: persist_generation_def res_simps split: option.splits)
  then show ?thesis
    using accept_keeps [of ledger] delete_keeps [of ledger "cm_cause m"]
    by (elim update_generation_ok [OF assms(1)])
      (auto simp: live_def accept_generation_def delete_generation_def split: if_splits)
qed

lemma persist_credential_mutation_ok:
  assumes "database_ok db" and "persist_credential_mutation profile ledger m db = Inr db'"
  shows "database_ok db'"
proof -
  obtain g db1 where "persist_generation profile ledger m db = Inr (g, db1)"
    "insert_credential_event (event_row_of_mutation profile ledger m g) db1 = Inr db'"
    using assms(2) by (auto simp: persist_credential_mutation_def res_simps)
  then show ?thesis using persist_generation_ok [OF assms(1)] insert_credential_event_ok by blast
qed

lemma persist_projection_ok:
  assumes "database_ok db" and "persist_projection lib profile projection db = Inr db'"
  shows "database_ok db'"
proof -
  obtain db1 db2 where steps: "fold_res (persist_registration lib profile (lp_ledger projection)) (lp_registrations projection) db = Inr db1"
    "fold_res (persist_credential_mutation profile (lp_ledger projection)) (lp_mutations projection) db1 = Inr db2"
    "insert_checkpoint (checkpoint_row_of profile (lp_ledger projection)) db2 = Inr db'"
    using assms(2) by (auto simp: persist_projection_def res_simps)
  have "database_ok db1" using steps(1) assms(1) by (rule fold_res_inv) (blast intro: persist_registration_ok)
  with steps(2) have "database_ok db2" by (rule fold_res_inv) (blast intro: persist_credential_mutation_ok)
  with steps(3) show ?thesis using insert_checkpoint_ok by blast
qed

lemma ensure_network_profile_Inr:
  assumes "database_ok db" and "ensure_network_profile profile db = Inr db'"
  shows "db_profiles db' \<in> {db_profiles db, db_profiles db @ [profile_row_of profile]} \<and>
    db' = db\<lparr>db_profiles := db_profiles db'\<rparr> \<and> profile_table.consistent (db_profiles db') \<and>
    profile_row_of profile \<in> set (db_profiles db') \<and> profile_row_ok (profile_row_of profile)"
proof -
  obtain rows stored where rows: "insert_or_skip profile_row_ok same_profile True (profile_row_of profile) (db_profiles db) = Inr rows"
    and stored: "find (\<lambda>r. np_id r = profile_id profile) rows = Some stored" "stored = profile_row_of profile"
    and db': "db' = db\<lparr>db_profiles := rows\<rparr>"
    using assms(2) by (auto simp: ensure_network_profile_def assert_stored_profile_matches_def res_simps)
  have con: "profile_table.consistent rows"
    using profile_table.consistent_skip [OF database_okD(1) [OF assms(1)] rows] .
  have "profile_row_of profile \<in> set rows" using find_mem [OF stored(1)] stored(2) by simp
  then show ?thesis
    using con skip_Inr [OF rows] profile_table.consistent_member [OF con] by (auto simp: db')
qed

lemma ensure_network_profile_ok:
  assumes "database_ok db" and "ensure_network_profile profile db = Inr db'"
  shows "database_ok db'"
proof -
  note e = ensure_network_profile_Inr [OF assms]
  note ok = database_okD [OF assms(1)]
  obtain rows where db': "db' = db\<lparr>db_profiles := rows\<rparr>" using e by blast
  have mono: "has_profile db p \<Longrightarrow> has_profile db' p" for p
    using e by (auto simp: has_profile_def)
  have hs: "has_schema_event db' = has_schema_event db" "has_schema db' = has_schema db"
    "has_generation db' = has_generation db"
    by (simp_all add: db' has_generation_def has_schema_def has_schema_event_def fun_eq_iff)
  have "list_all (\<lambda>r. has_profile db' (ck_profile r)) (db_checkpoints db)"
    "list_all (\<lambda>r. has_profile db' (ss_profile r)) (db_statuses db)"
    "list_all (\<lambda>r. has_profile db' (ii_profile r)) (db_incidents db)"
    "list_all (\<lambda>r. has_profile db' (se_profile r)) (db_schema_events db)"
    "list_all (\<lambda>r. has_profile db' (sc_profile r) \<and> has_schema_event db (sc_profile r) (sc_hash r)) (db_schemas db)"
    "list_all (\<lambda>r. has_profile db' (gr_profile r) \<and> has_schema db (gr_profile r) (gr_schema_uid r)) (db_generations db)"
    "list_all (\<lambda>r. has_profile db' (ce_profile r) \<and> has_schema db (ce_profile r) (ce_schema_uid r) \<and>
        has_generation db (ce_profile r) (ce_generation r)) (db_events db)"
    using ok(9-15) mono by (auto elim!: list.pred_mono_strong)
  moreover have "db_checkpoints db' = db_checkpoints db" "db_statuses db' = db_statuses db"
    "db_incidents db' = db_incidents db" "db_schema_events db' = db_schema_events db"
    "db_schemas db' = db_schemas db" "db_generations db' = db_generations db" "db_events db' = db_events db"
    by (simp_all add: db')
  ultimately show ?thesis
    using ok(2-8) e unfolding database_ok_def hs by simp
qed

section \<open>What persisting a ledger changes\<close>

definition projection_frame :: "database \<Rightarrow> database \<Rightarrow> bool" where
  "projection_frame db db' \<longleftrightarrow>
     db_profiles db' = db_profiles db \<and> db_checkpoints db' = db_checkpoints db \<and>
     db_statuses db' = db_statuses db \<and> db_incidents db' = db_incidents db"

lemma projection_frame_refl: "projection_frame db db"
  by (simp add: projection_frame_def)

lemma projection_frame_trans: "projection_frame a b \<Longrightarrow> projection_frame b c \<Longrightarrow> projection_frame a c"
  by (simp add: projection_frame_def)

lemma persist_registration_frame:
  "persist_registration lib profile ledger r db = Inr db' \<Longrightarrow> projection_frame db db'"
  by (cases "rg_outcome r")
    (auto simp: persist_registration_def insert_schema_event_def insert_schema_def res_simps projection_frame_def)

lemma persist_credential_mutation_frame:
  "persist_credential_mutation profile ledger m db = Inr db' \<Longrightarrow> projection_frame db db'"
  by (auto simp: persist_credential_mutation_def persist_generation_def insert_generation_def update_generation_def
      insert_credential_event_def res_simps projection_frame_def split: if_splits option.splits)

lemma persist_projection_Inr:
  assumes "persist_projection lib profile projection db = Inr db'"
  shows "\<exists>db1 db2. fold_res (persist_registration lib profile (lp_ledger projection)) (lp_registrations projection) db = Inr db1 \<and>
    fold_res (persist_credential_mutation profile (lp_ledger projection)) (lp_mutations projection) db1 = Inr db2 \<and>
    projection_frame db db1 \<and> projection_frame db db2 \<and>
    db' = db2\<lparr>db_checkpoints := db_checkpoints db @ [checkpoint_row_of profile (lp_ledger projection)]\<rparr> \<and>
    \<not> list_ex (same_checkpoint (checkpoint_row_of profile (lp_ledger projection))) (db_checkpoints db)"
proof -
  obtain db1 db2 where steps: "fold_res (persist_registration lib profile (lp_ledger projection)) (lp_registrations projection) db = Inr db1"
    "fold_res (persist_credential_mutation profile (lp_ledger projection)) (lp_mutations projection) db1 = Inr db2"
    "insert_checkpoint (checkpoint_row_of profile (lp_ledger projection)) db2 = Inr db'"
    using assms by (auto simp: persist_projection_def res_simps)
  have f1: "projection_frame db db1"
    using steps(1) by (rule fold_res_rel)
      (blast intro: projection_frame_refl projection_frame_trans persist_registration_frame)+
  have f2: "projection_frame db1 db2"
    using steps(2) by (rule fold_res_rel)
      (blast intro: projection_frame_refl projection_frame_trans persist_credential_mutation_frame)+
  have f: "projection_frame db db2" using f1 f2 by (rule projection_frame_trans)
  show ?thesis
    using steps f1 f by (auto simp: insert_checkpoint_def res_simps insert_Inr projection_frame_def)
qed

lemma persist_ledger_Inr:
  assumes "persist_ledger lib clock later profile projection token state input db = Inr (result, db')"
  shows "\<exists>row0 db1 row. tk_profile token = profile_id profile \<and>
    lock_active_indexer_lease clock token None db = Inr row0 \<and> ensure_network_profile profile db = Inr db1 \<and>
    ((result = Already_Processed \<and>
      (\<exists>same. find (\<lambda>r. ck_index r = vl_index (lp_ledger projection)) (profile_checkpoints db1 (profile_id profile)) = Some same \<and>
        same_ledger_evidence same (lp_ledger projection) = Inr ()) \<and>
      update_indexer_status later token state input None db1 = Inr (row, db')) \<or>
     (result = Inserted \<and>
      find (\<lambda>r. ck_index r = vl_index (lp_ledger projection)) (profile_checkpoints db1 (profile_id profile)) = None \<and>
      assert_ledger_continuity profile (get_last_checkpoint db1 (profile_id profile)) (lp_ledger projection) = Inr () \<and>
      (\<exists>db2. persist_projection lib (profile_id profile) projection db1 = Inr db2 \<and>
        update_indexer_status later token state input None db2 = Inr (row, db'))))"
proof -
  let ?led = "lp_ledger projection"
  obtain row0 db1 where base: "tk_profile token = profile_id profile"
    "lock_active_indexer_lease clock token None db = Inr row0" "ensure_network_profile profile db = Inr db1"
    and rest: "(case find (\<lambda>r. ck_index r = vl_index ?led) (profile_checkpoints db1 (profile_id profile)) of
          Some same \<Rightarrow>
            rbind (same_ledger_evidence same ?led) (\<lambda>_.
            rbind (update_indexer_status later token state input None db1) (\<lambda>(_, db).
            Inr (Already_Processed, db)))
        | None \<Rightarrow>
            rbind (assert_ledger_continuity profile (get_last_checkpoint db1 (profile_id profile)) ?led) (\<lambda>_.
            rbind (persist_projection lib (profile_id profile) projection db1) (\<lambda>db.
            rbind (update_indexer_status later token state input None db) (\<lambda>(_, db).
            Inr (Inserted, db))))) = Inr (result, db')"
    using assms by (auto simp: persist_ledger_def res_simps Let_def)
  show ?thesis
  proof (cases "find (\<lambda>r. ck_index r = vl_index ?led) (profile_checkpoints db1 (profile_id profile))")
    case None
    then obtain db2 row where "assert_ledger_continuity profile (get_last_checkpoint db1 (profile_id profile)) ?led = Inr ()"
      "persist_projection lib (profile_id profile) projection db1 = Inr db2"
      "update_indexer_status later token state input None db2 = Inr (row, db')" "result = Inserted"
      using rest by (auto simp: res_simps)
    then show ?thesis using base None by blast
  next
    case (Some same)
    then obtain row where "same_ledger_evidence same ?led = Inr ()"
      "update_indexer_status later token state input None db1 = Inr (row, db')" "result = Already_Processed"
      using rest by (auto simp: res_simps)
    then show ?thesis using base Some by blast
  qed
qed

lemma persist_ledger_ok:
  assumes "database_ok db" and "persist_ledger lib clock later profile projection token state input db = Inr (result, db')"
  shows "database_ok db'"
proof -
  obtain db1 db2 row where e: "ensure_network_profile profile db = Inr db1"
    and db2: "db2 = db1 \<or> persist_projection lib (profile_id profile) projection db1 = Inr db2"
    and u: "update_indexer_status later token state input None db2 = Inr (row, db')"
    using persist_ledger_Inr [OF assms(2)] by blast
  have "database_ok db1" using assms(1) e by (rule ensure_network_profile_ok)
  then have ok: "database_ok db2" using db2 persist_projection_ok by blast
  show ?thesis
    using update_refines [OF database_ok_statuses [OF ok] u] statuses_changed_ok [OF ok] by blast
qed

section \<open>Checkpoint chains\<close>

fun chain_from :: "int \<Rightarrow> jstr \<Rightarrow> checkpoint_row list \<Rightarrow> bool" where
  "chain_from index parent [] = True"
| "chain_from index parent (c # cs) =
     (ck_index c = index \<and> ck_parent c = parent \<and> chain_from (index + 1) (ck_hash c) cs)"

text \<open>Contiguous from the activation ledger, each ledger the parent of the next.\<close>

definition chain_ok :: "int \<Rightarrow> jstr \<Rightarrow> checkpoint_row list \<Rightarrow> bool" where
  "chain_ok index hash cs =
     (case cs of [] \<Rightarrow> True
      | c # rest \<Rightarrow> ck_index c = index \<and> ck_hash c = hash \<and> chain_from (index + 1) hash rest)"

lemma chain_from_snoc:
  "chain_from index parent (cs @ [c]) \<longleftrightarrow> chain_from index parent cs \<and>
     ck_index c = index + int (length cs) \<and> ck_parent c = (if cs = [] then parent else ck_hash (last cs))"
  by (induction cs arbitrary: index parent) auto

lemma chain_ok_snoc:
  "chain_ok index hash (cs @ [c]) \<longleftrightarrow> chain_ok index hash cs \<and> ck_index c = index + int (length cs) \<and>
     (if cs = [] then ck_hash c = hash else ck_parent c = ck_hash (last cs))"
  by (cases cs) (auto simp: chain_ok_def chain_from_snoc)

lemma chain_from_nth: "chain_from index parent cs \<Longrightarrow> i < length cs \<Longrightarrow> ck_index (cs ! i) = index + int i"
  by (induction cs arbitrary: index parent i) (auto simp: nth_Cons split: nat.splits)

lemma chain_ok_nth: "chain_ok index hash cs \<Longrightarrow> i < length cs \<Longrightarrow> ck_index (cs ! i) = index + int i"
  by (cases cs; cases i) (auto simp: chain_ok_def chain_from_nth)

lemma chain_latest:
  assumes "chain_ok index hash cs"
  shows "latest_by ck_index cs = (if cs = [] then None else Some (last cs))"
proof (cases cs rule: rev_cases)
  case (snoc xs x)
  have c: "ck_index (cs ! i) = index + int i" if "i < length cs" for i
    using chain_ok_nth [OF assms that] .
  have "ck_index y < ck_index x" if "y \<in> set xs" for y
  proof -
    obtain i where i: "i < length xs" "y = xs ! i" using \<open>y \<in> set xs\<close> by (auto simp: in_set_conv_nth)
    then have "ck_index y = index + int i" using c [of i] snoc by (simp add: nth_append)
    moreover have "ck_index x = index + int (length xs)" using c [of "length xs"] snoc by simp
    ultimately show ?thesis using i(1) by simp
  qed
  then show ?thesis using snoc by (simp add: latest_by_last)
qed simp

definition chains_ok :: "database \<Rightarrow> bool" where
  "chains_ok db \<longleftrightarrow>
     list_all (\<lambda>r. chain_ok (np_activation_index r) (np_activation_hash r) (profile_checkpoints db (np_id r)))
       (db_profiles db)"

lemma continuity_snoc:
  assumes "chain_ok (activation_ledger_index profile) (to_lower (activation_ledger_hash profile)) cs"
    and "assert_ledger_continuity profile (map_option checkpoint_from_row (latest_by ck_index cs)) ledger = Inr u"
  shows "chain_ok (activation_ledger_index profile) (to_lower (activation_ledger_hash profile))
    (cs @ [checkpoint_row_of p ledger])"
proof -
  have "ck_index (last cs) = activation_ledger_index profile + int (length cs) - 1" if "cs \<noteq> []"
  proof -
    have "last cs = cs ! (length cs - 1)" "length cs - 1 < length cs" "int (length cs - 1) = int (length cs) - 1"
      using that by (simp_all add: last_conv_nth Suc_leI of_nat_diff)
    then show ?thesis using chain_ok_nth [OF assms(1), of "length cs - 1"] by simp
  qed
  then show ?thesis
    using assms chain_latest [OF assms(1)]
    by (auto simp: chain_ok_snoc checkpoint_row_of_def assert_ledger_continuity_Inr checkpoint_from_row_def
        split: if_splits)
qed

lemma ensure_network_profile_chains:
  assumes "database_ok db" and "chains_ok db" and "ensure_network_profile profile db = Inr db'"
  shows "chains_ok db'"
proof -
  note e = ensure_network_profile_Inr [OF assms(1,3)]
  have db': "db_checkpoints db' = db_checkpoints db" using e by (metis database.select_convs(2) database.surjective database.update_convs(1))
  show ?thesis
  proof (cases "db_profiles db' = db_profiles db")
    case True
    then show ?thesis using assms(2) by (simp add: chains_ok_def profile_checkpoints_def db')
  next
    case False
    then have rows: "db_profiles db' = db_profiles db @ [profile_row_of profile]" using e by simp
    have "profile_table.consistent (db_profiles db @ [profile_row_of profile])" using e rows by simp
    then have "\<not> has_profile db (profile_id profile)"
      by (auto simp: profile_table.consistent_def sorted_wrt_append has_profile_def list_ex_iff same_profile_def profile_row_of_def)
    then have "profile_checkpoints db (profile_id profile) = []"
      using database_okD(9) [OF assms(1)] by (auto simp: profile_checkpoints_def filter_empty_conv list_all_iff)
    then have "profile_checkpoints db' (np_id (profile_row_of profile)) = []"
      by (simp add: profile_checkpoints_def db' profile_row_of_def)
    then show ?thesis
      using assms(2) by (simp add: chains_ok_def rows chain_ok_def) (simp add: profile_checkpoints_def db' chain_ok_def)
  qed
qed

lemma persist_projection_chains:
  assumes "chains_ok db" and "profile_table.consistent (db_profiles db)"
    and "profile_row_of profile \<in> set (db_profiles db)"
    and "assert_ledger_continuity profile (get_last_checkpoint db (profile_id profile)) (lp_ledger projection) = Inr u"
    and "persist_projection lib (profile_id profile) projection db = Inr db'"
  shows "chains_ok db'"
proof -
  let ?p = "profile_id profile" and ?row = "checkpoint_row_of (profile_id profile) (lp_ledger projection)"
  have db': "db_profiles db' = db_profiles db" "db_checkpoints db' = db_checkpoints db @ [?row]"
    using persist_projection_Inr [OF assms(5)] by (auto simp: projection_frame_def)
  have here: "profile_checkpoints db' ?p = profile_checkpoints db ?p @ [?row]"
    by (simp add: profile_checkpoints_def db' checkpoint_row_of_def)
  have elsewhere: "profile_checkpoints db' q = profile_checkpoints db q" if "q \<noteq> ?p" for q
    using that by (simp add: profile_checkpoints_def db' checkpoint_row_of_def)
  have only: "r = profile_row_of profile" if "r \<in> set (db_profiles db)" "np_id r = ?p" for r
    using profile_table.consistent_unique [OF assms(2) that(1) assms(3)] that(2)
    by (simp add: same_profile_def profile_row_of_def)
  have chain: "chain_ok (activation_ledger_index profile) (to_lower (activation_ledger_hash profile)) (profile_checkpoints db ?p)"
    using assms(1,3) by (auto simp: chains_ok_def list_all_iff profile_row_of_def)
  have snoc: "chain_ok (activation_ledger_index profile) (to_lower (activation_ledger_hash profile)) (profile_checkpoints db' ?p)"
    unfolding here using continuity_snoc [OF chain] assms(4) by (simp add: get_last_checkpoint_def)
  show ?thesis unfolding chains_ok_def db'
  proof (simp add: list_all_iff, intro ballI)
    fix r assume r: "r \<in> set (db_profiles db)"
    show "chain_ok (np_activation_index r) (np_activation_hash r) (profile_checkpoints db' (np_id r))"
    proof (cases "np_id r = ?p")
      case True
      then show ?thesis using snoc only [OF r True] by (simp add: profile_row_of_def)
    next
      case False
      then show ?thesis using assms(1) r elsewhere by (simp add: chains_ok_def list_all_iff)
    qed
  qed
qed

lemma statuses_changed_chains: "chains_ok db \<Longrightarrow> only_statuses_changed db db' \<Longrightarrow> chains_ok db'"
  unfolding only_statuses_changed_def
  by (erule ssubst) (simp add: chains_ok_def profile_checkpoints_def)

lemma persist_ledger_chains:
  assumes "database_ok db" and "chains_ok db"
    and "persist_ledger lib clock later profile projection token state input db = Inr (result, db')"
  shows "chains_ok db'"
proof -
  obtain db1 db2 row where e: "ensure_network_profile profile db = Inr db1"
    and db2: "db2 = db1 \<or> persist_projection lib (profile_id profile) projection db1 = Inr db2 \<and>
      assert_ledger_continuity profile (get_last_checkpoint db1 (profile_id profile)) (lp_ledger projection) = Inr ()"
    and u: "update_indexer_status later token state input None db2 = Inr (row, db')"
    using persist_ledger_Inr [OF assms(3)] by blast
  have ok1: "database_ok db1" using assms(1) e by (rule ensure_network_profile_ok)
  have c1: "chains_ok db1" using assms(1,2) e by (rule ensure_network_profile_chains)
  have c2: "chains_ok db2"
    using db2 c1 persist_projection_chains [OF c1] ensure_network_profile_Inr [OF assms(1) e] by blast
  have ok2: "database_ok db2" using db2 ok1 persist_projection_ok by blast
  show ?thesis
    using update_refines [OF database_ok_statuses [OF ok2] u] statuses_changed_chains [OF c2] by blast
qed

end
