(* ===== verification/Indexer_Lifecycle.thy ===== *)
theory Indexer_Lifecycle
  imports Indexer_Repository "HOL-Library.Sublist"
begin

text \<open>
  What the rows of the indexer mean: every table of the history only grows, persisting a ledger a
  second time changes no history, and the generations of credentials implement an abstract lifecycle.
\<close>

section \<open>Generations of one object\<close>

text \<open>
  On the ledger the identifier of a credential object is a hash of its subject, issuer and type, so it
  determines them; \<open>key\<close> is that function.
\<close>

type_synonym object_key = "jstr \<Rightarrow> jstr \<times> jstr \<times> jstr"

definition objects_ok :: "object_key \<Rightarrow> database \<Rightarrow> bool" where
  "objects_ok key db \<longleftrightarrow>
     list_all (\<lambda>r. key (gr_object_id r) = (gr_issuer r, gr_subject r, gr_schema_uid r)) (db_generations db)"

definition mutation_keyed :: "object_key \<Rightarrow> credential_mutation \<Rightarrow> bool" where
  "mutation_keyed key m \<longleftrightarrow> key (cm_object_id m) = (cm_issuer m, cm_subject m, cm_schema_uid m)"

lemma live_unique:
  assumes "database_ok db" and "objects_ok key db"
    and "r \<in> set (db_generations db)" "q \<in> set (db_generations db)"
    and "live r" "live q" "gr_profile r = gr_profile q" "gr_object_id r = gr_object_id q"
  shows "r = q"
proof -
  have "same_generation r q"
    using assms(2-8) by (auto simp: same_generation_def objects_ok_def list_all_iff) (metis prod.inject)+
  then show ?thesis
    using generation_table.consistent_unique [OF database_okD(7) [OF assms(1)]] assms(3,4) by blast
qed

lemma live_generation_mem:
  "live_generation db profile obj = Some r \<Longrightarrow>
     r \<in> set (db_generations db) \<and> gr_profile r = profile \<and> gr_object_id r = obj \<and> live r"
  unfolding live_generation_def by (drule latest_by_mem) simp

lemma live_generation_iff:
  assumes "database_ok db" and "objects_ok key db"
  shows "live_generation db profile obj = Some r \<longleftrightarrow>
    r \<in> set (db_generations db) \<and> gr_profile r = profile \<and> gr_object_id r = obj \<and> live r"
proof
  assume r: "r \<in> set (db_generations db) \<and> gr_profile r = profile \<and> gr_object_id r = obj \<and> live r"
  then have "live_generation db profile obj \<noteq> None"
    by (auto simp: live_generation_def latest_by_None filter_empty_conv)
  then obtain q where q: "live_generation db profile obj = Some q" by auto
  show "live_generation db profile obj = Some r"
    using live_unique [OF assms, of r q] live_generation_mem [OF q] r q by simp
qed (rule live_generation_mem)

lemma generation_pk:
  assumes "database_ok db" and "r \<in> set (db_generations db)" "q \<in> set (db_generations db)"
    and "gr_profile r = gr_profile q" "gr_id r = gr_id q"
  shows "r = q"
  using generation_table.consistent_unique [OF database_okD(7) [OF assms(1)] assms(2,3)] assms(4,5)
  by (simp add: same_generation_def)

section \<open>The lifecycle of a credential\<close>

text \<open>Per object of the ledger its live generation and whether it is accepted.\<close>

type_synonym lifecycle = "jstr \<Rightarrow> (jstr \<times> bool) option"

definition lifecycle_step :: "credential_mutation \<Rightarrow> lifecycle \<Rightarrow> unit + lifecycle" where
  "lifecycle_step m L =
     (case (cm_event m, L (cm_object_id m)) of
        (Created, None) \<Rightarrow> Inr (L(cm_object_id m \<mapsto> (cm_hash m, cm_accepted m)))
      | (Accepted, Some (g, _)) \<Rightarrow> Inr (L(cm_object_id m \<mapsto> (g, True)))
      | (Deleted, Some _) \<Rightarrow> Inr (L(cm_object_id m := None))
      | _ \<Rightarrow> Inl ())"

definition lifecycle_of :: "database \<Rightarrow> jstr \<Rightarrow> lifecycle" where
  "lifecycle_of db profile obj = map_option (\<lambda>r. (gr_id r, gr_accepted r)) (live_generation db profile obj)"

lemma lifecycle_of_same: "db_generations db' = db_generations db \<Longrightarrow> lifecycle_of db' = lifecycle_of db"
  by (simp add: lifecycle_of_def live_generation_def fun_eq_iff)

lemma insert_generation_Inr:
  "insert_generation row db = Inr db' \<Longrightarrow>
     db_generations db' = db_generations db @ [row] \<and> \<not> list_ex (same_generation row) (db_generations db)"
  by (auto simp: insert_generation_def res_simps insert_Inr)

lemma update_generation_Inr:
  "update_generation profile g f db = Inr db' \<Longrightarrow>
     db_generations db' = map (\<lambda>r. if gr_profile r = profile \<and> gr_id r = g then f r else r) (db_generations db)"
  by (auto simp: update_generation_def res_simps update_rows_def split: if_splits)

text \<open>Within the transaction only the row of the live generation is updated.\<close>

lemma update_live:
  assumes "database_ok db" and "live_generation db profile obj = Some q"
    and "update_generation profile (gr_id q) f db = Inr db'"
  shows "set (db_generations db') = insert (f q) (set (db_generations db) - {q})"
    and "db_generations db' = map (\<lambda>r. if r = q then f r else r) (db_generations db)"
proof -
  note q = live_generation_mem [OF assms(2)]
  have "(gr_profile r = profile \<and> gr_id r = gr_id q) = (r = q)" if "r \<in> set (db_generations db)" for r
    using generation_pk [OF assms(1) that, of q] q by auto
  then show map: "db_generations db' = map (\<lambda>r. if r = q then f r else r) (db_generations db)"
    using update_generation_Inr [OF assms(3)] by (auto intro!: map_cong)
  show "set (db_generations db') = insert (f q) (set (db_generations db) - {q})"
    using q by (auto simp: map)
qed

text \<open>What a mutation does to the live generations of its profile.\<close>

lemma created_live:
  assumes "database_ok db" and "objects_ok key db" and "mutation_keyed key m" and "cm_event m = Created"
    and "persist_generation profile ledger m db = Inr (g, db')"
  shows "g = cm_hash m \<and> db_generations db' = db_generations db @ [generation_row_of profile ledger m] \<and>
    \<not> list_ex (same_generation (generation_row_of profile ledger m)) (db_generations db) \<and>
    live_generation db profile (cm_object_id m) = None \<and>
    live_generation db' profile = (live_generation db profile)(cm_object_id m \<mapsto> generation_row_of profile ledger m)"
proof -
  let ?row = "generation_row_of profile ledger m"
  have gens: "db_generations db' = db_generations db @ [?row]" "g = cm_hash m"
    and fresh: "\<not> list_ex (same_generation ?row) (db_generations db)"
    using insert_generation_Inr assms(4,5) by (auto simp: persist_generation_def res_simps)
  have none: "live_generation db profile (cm_object_id m) = None"
  proof (rule ccontr)
    assume "\<not> ?thesis"
    then obtain q where q: "live_generation db profile (cm_object_id m) = Some q" by auto
    note qm = live_generation_mem [OF q]
    then have "key (cm_object_id m) = (gr_issuer q, gr_subject q, gr_schema_uid q)"
      using assms(2) by (auto simp: objects_ok_def list_all_iff)
    then have "same_generation ?row q"
      using qm assms(3) by (simp add: same_generation_def generation_row_of_def mutation_keyed_def live_def)
    then show False using fresh qm by (auto simp: list_ex_iff)
  qed
  then have "filter (\<lambda>r. gr_profile r = profile \<and> gr_object_id r = cm_object_id m \<and> live r) (db_generations db) = []"
    by (simp add: live_generation_def latest_by_None)
  then have "live_generation db' profile = (live_generation db profile)(cm_object_id m \<mapsto> ?row)"
    by (auto simp: live_generation_def gens fun_eq_iff generation_row_of_def live_def latest_by_def)
  then show ?thesis using none gens fresh by blast
qed

definition changed_generation :: "validated_ledger \<Rightarrow> credential_mutation \<Rightarrow> generation_row \<Rightarrow> generation_row" where
  "changed_generation ledger m =
     (if cm_event m = Accepted then accept_generation ledger else delete_generation ledger (cm_cause m))"

lemma changed_generation_keeps:
  "gr_object_id (changed_generation ledger m q) = gr_object_id q \<and> gr_issuer (changed_generation ledger m q) = gr_issuer q \<and>
   gr_subject (changed_generation ledger m q) = gr_subject q \<and> gr_schema_uid (changed_generation ledger m q) = gr_schema_uid q \<and>
   gr_profile (changed_generation ledger m q) = gr_profile q \<and> gr_id (changed_generation ledger m q) = gr_id q \<and>
   gr_uri_hex (changed_generation ledger m q) = gr_uri_hex q \<and> gr_expiration (changed_generation ledger m q) = gr_expiration q"
  by (simp add: changed_generation_def accept_generation_def delete_generation_def)

lemma changed_live:
  assumes "database_ok db" and "objects_ok key db" and "cm_event m \<noteq> Created"
    and "persist_generation profile ledger m db = Inr (g, db')"
  shows "\<exists>q. live_generation db profile (cm_object_id m) = Some q \<and> g = gr_id q \<and> objects_ok key db' \<and>
    db_generations db' = map (\<lambda>r. if r = q then changed_generation ledger m q else r) (db_generations db) \<and>
    live_generation db' profile = (live_generation db profile)
      (cm_object_id m := if cm_event m = Accepted then Some (changed_generation ledger m q) else None)"
proof -
  let ?f = "changed_generation ledger m"
  obtain q where q: "live_generation db profile (cm_object_id m) = Some q" "g = gr_id q"
    and upd: "update_generation profile (gr_id q) ?f db = Inr db'"
    using assms(3,4) by (auto simp: persist_generation_def changed_generation_def res_simps split: option.splits)
  note qm = live_generation_mem [OF q(1)] and gens = update_live [OF assms(1) q(1) upd] and keys = changed_generation_keeps [of ledger m q]
  have ok': "database_ok db'" using persist_generation_ok [OF assms(1,4)] .
  have obj': "objects_ok key db'"
    using assms(2) keys qm unfolding objects_ok_def list_all_iff gens(1) by auto
  have elsewhere: "live_generation db' profile obj = live_generation db profile obj" if "obj \<noteq> cm_object_id m" for obj
  proof -
    have "(live_generation db' profile obj = Some x) = (live_generation db profile obj = Some x)" for x
    proof -
      have "gr_object_id x = obj \<Longrightarrow> x \<noteq> ?f q \<and> x \<noteq> q" using that qm keys by auto
      then show ?thesis
        unfolding live_generation_iff [OF ok' obj'] live_generation_iff [OF assms(1,2)] gens(1) by blast
    qed
    then show ?thesis by (metis option.exhaust)
  qed
  have here: "live_generation db' profile (cm_object_id m) = (if cm_event m = Accepted then Some (?f q) else None)"
  proof (cases "cm_event m = Accepted")
    case True
    then show ?thesis
      unfolding live_generation_iff [OF ok' obj'] gens(1) using qm keys
      by (simp add: live_generation_iff [OF ok' obj'] gens(1)) (simp add: changed_generation_def accept_generation_def live_def)
  next
    case False
    have "live_generation db' profile (cm_object_id m) = None"
    proof (rule ccontr)
      assume "\<not> ?thesis"
      then obtain x where "live_generation db' profile (cm_object_id m) = Some x" by auto
      note x = live_generation_mem [OF this]
      have "x \<noteq> ?f q" using x False by (auto simp: changed_generation_def delete_generation_def live_def)
      then have x': "x \<in> set (db_generations db)" "x \<noteq> q" using x unfolding gens(1) by auto
      then show False using live_unique [OF assms(1,2) x'(1), of q] x qm by simp
    qed
    then show ?thesis using False by simp
  qed
  have "db_generations db' = map (\<lambda>r. if r = q then ?f q else r) (db_generations db)"
    unfolding gens(2) by (intro map_cong) auto
  then show ?thesis using q obj' elsewhere here by (intro exI [of _ q]) (auto simp: fun_eq_iff)
qed

lemma created_refines:
  assumes "database_ok db" and "objects_ok key db" and "mutation_keyed key m" and "cm_event m = Created"
    and "persist_generation profile ledger m db = Inr (g, db')"
  shows "objects_ok key db' \<and> lifecycle_step m (lifecycle_of db profile) = Inr (lifecycle_of db' profile)"
  using created_live [OF assms] assms(2-4)
  by (auto simp: lifecycle_of_def fun_eq_iff generation_row_of_def objects_ok_def mutation_keyed_def lifecycle_step_def)

lemma changed_refines:
  assumes "database_ok db" and "objects_ok key db" and "cm_event m \<noteq> Created"
    and "persist_generation profile ledger m db = Inr (g, db')"
  shows "objects_ok key db' \<and> lifecycle_step m (lifecycle_of db profile) = Inr (lifecycle_of db' profile)"
proof -
  obtain q where q: "live_generation db profile (cm_object_id m) = Some q" "objects_ok key db'"
    "live_generation db' profile = (live_generation db profile)
       (cm_object_id m := if cm_event m = Accepted then Some (changed_generation ledger m q) else None)"
    using changed_live [OF assms] by blast
  show ?thesis
    using q assms(3) by (cases "cm_event m")
      (auto simp: lifecycle_of_def fun_eq_iff lifecycle_step_def changed_generation_def accept_generation_def)
qed

lemma mutation_refines:
  assumes "database_ok db" and "objects_ok key db" and "mutation_keyed key m"
    and "persist_credential_mutation profile ledger m db = Inr db'"
  shows "objects_ok key db' \<and> lifecycle_step m (lifecycle_of db profile) = Inr (lifecycle_of db' profile)"
proof -
  obtain g db1 where gen: "persist_generation profile ledger m db = Inr (g, db1)"
    and ev: "insert_credential_event (event_row_of_mutation profile ledger m g) db1 = Inr db'"
    using assms(4) by (auto simp: persist_credential_mutation_def res_simps)
  have same: "db_generations db' = db_generations db1"
    using ev by (auto simp: insert_credential_event_def res_simps)
  have "objects_ok key db1 \<and> lifecycle_step m (lifecycle_of db profile) = Inr (lifecycle_of db1 profile)"
    using created_refines [OF assms(1-3) _ gen] changed_refines [OF assms(1,2) _ gen] by blast
  then show ?thesis using lifecycle_of_same [OF same] by (simp add: objects_ok_def same)
qed

lemma mutations_refine:
  assumes "fold_res (persist_credential_mutation profile ledger) ms db = Inr db'"
    and "database_ok db" and "objects_ok key db" and "list_all (mutation_keyed key) ms"
  shows "objects_ok key db' \<and> fold_res lifecycle_step ms (lifecycle_of db profile) = Inr (lifecycle_of db' profile)"
  using assms
proof (induction ms arbitrary: db)
  case (Cons m ms)
  then obtain db1 where db1: "persist_credential_mutation profile ledger m db = Inr db1"
    "fold_res (persist_credential_mutation profile ledger) ms db1 = Inr db'" by (auto simp: res_simps)
  have keyed: "mutation_keyed key m" using Cons(5) by simp
  show ?case
    using mutation_refines [OF Cons(3,4) keyed db1(1)] Cons(1) [OF db1(2) persist_credential_mutation_ok [OF Cons(3) db1(1)]]
      Cons(5) by simp
qed simp

lemma persist_projection_lifecycle:
  assumes "database_ok db" and "objects_ok key db" and "list_all (mutation_keyed key) (lp_mutations projection)"
    and "persist_projection lib profile projection db = Inr db'"
  shows "objects_ok key db' \<and>
    fold_res lifecycle_step (lp_mutations projection) (lifecycle_of db profile) = Inr (lifecycle_of db' profile)"
proof -
  obtain db1 db2 where steps: "fold_res (persist_registration lib profile (lp_ledger projection)) (lp_registrations projection) db = Inr db1"
    "fold_res (persist_credential_mutation profile (lp_ledger projection)) (lp_mutations projection) db1 = Inr db2"
    "db' = db2\<lparr>db_checkpoints := db_checkpoints db @ [checkpoint_row_of profile (lp_ledger projection)]\<rparr>"
    using persist_projection_Inr [OF assms(4)] by blast
  have ok1: "database_ok db1" using steps(1) assms(1) by (rule fold_res_inv) (blast intro: persist_registration_ok)
  have reg: "db_generations t = db_generations s" if "persist_registration lib profile (lp_ledger projection) r s = Inr t" for r s t
    using that by (cases "rg_outcome r")
      (auto simp: persist_registration_def insert_schema_event_def insert_schema_def res_simps)
  have same: "db_generations db1 = db_generations db"
    using steps(1) by (rule fold_res_rel) (simp_all add: reg)
  have "objects_ok key db1" using assms(2) by (simp add: objects_ok_def same)
  from mutations_refine [OF steps(2) ok1 this assms(3)]
  show ?thesis
    using lifecycle_of_same [OF same] lifecycle_of_same [of db' db2] by (simp add: steps(3) objects_ok_def)
qed

section \<open>History\<close>

text \<open>
  What may happen to a generation: its identity and its creation stay, it may become accepted, and
  once deleted it does not change any more.
\<close>

definition generation_grows :: "generation_row \<Rightarrow> generation_row \<Rightarrow> bool" where
  "generation_grows r q \<longleftrightarrow>
     q = r\<lparr>gr_accepted := gr_accepted q, gr_last_ledger := gr_last_ledger q,
           gr_deleted_ledger := gr_deleted_ledger q, gr_cause := gr_cause q\<rparr> \<and>
     (gr_accepted r \<longrightarrow> gr_accepted q) \<and> (live r \<or> q = r)"

definition history_grows :: "database \<Rightarrow> database \<Rightarrow> bool" where
  "history_grows db db' \<longleftrightarrow>
     prefix (db_profiles db) (db_profiles db') \<and> prefix (db_checkpoints db) (db_checkpoints db') \<and>
     prefix (db_incidents db) (db_incidents db') \<and>
     prefix (db_schema_events db) (db_schema_events db') \<and> prefix (db_schemas db) (db_schemas db') \<and>
     prefix (db_events db) (db_events db') \<and>
     length (db_generations db) \<le> length (db_generations db') \<and>
     list_all2 generation_grows (db_generations db) (take (length (db_generations db)) (db_generations db'))"

lemma generation_grows_refl: "generation_grows r r"
  by (simp add: generation_grows_def live_def)

lemma generation_grows_trans: "generation_grows r q \<Longrightarrow> generation_grows q s \<Longrightarrow> generation_grows r s"
  unfolding generation_grows_def live_def by (cases r, cases q, cases s) auto

lemma history_grows_refl: "history_grows db db"
  by (simp add: history_grows_def list_all2_refl generation_grows_refl)

lemma history_grows_trans:
  assumes "history_grows a b" and "history_grows b c"
  shows "history_grows a c"
proof -
  let ?n = "length (db_generations a)"
  have "list_all2 generation_grows (take ?n (db_generations b)) (take ?n (take (length (db_generations b)) (db_generations c)))"
    using assms(2) by (intro list_all2_takeI) (simp add: history_grows_def)
  moreover have "?n \<le> length (db_generations b)" using assms(1) by (simp add: history_grows_def)
  ultimately have "list_all2 generation_grows (take ?n (db_generations b)) (take ?n (db_generations c))"
    by (simp add: min_absorb1)
  with assms(1) have "list_all2 generation_grows (db_generations a) (take ?n (db_generations c))"
    unfolding history_grows_def using list_all2_trans [of generation_grows generation_grows generation_grows]
      generation_grows_trans by blast
  then show ?thesis
    using assms unfolding history_grows_def by (meson le_trans prefix_order.trans)
qed

lemma history_appends:
  assumes "db_generations db' = db_generations db"
    and "prefix (db_profiles db) (db_profiles db')" "prefix (db_checkpoints db) (db_checkpoints db')"
    "prefix (db_incidents db) (db_incidents db')"
    "prefix (db_schema_events db) (db_schema_events db')" "prefix (db_schemas db) (db_schemas db')"
    "prefix (db_events db) (db_events db')"
  shows "history_grows db db'"
  using assms by (simp add: history_grows_def list_all2_refl generation_grows_refl)

lemma skip_prefix: "insert_or_skip ok same c row rows = Inr rows' \<Longrightarrow> prefix rows rows'"
  by (drule skip_Inr) auto

lemma persist_registration_history:
  "persist_registration lib profile ledger r db = Inr db' \<Longrightarrow> history_grows db db'"
  by (rule history_appends; cases "rg_outcome r")
    (auto simp: persist_registration_def insert_schema_event_def insert_schema_def res_simps dest: skip_prefix)

lemma persist_generation_history:
  assumes "database_ok db" and "persist_generation profile ledger m db = Inr (g, db')"
  shows "history_grows db db'"
proof (cases "cm_event m = Created")
  case True
  then have "insert_generation (generation_row_of profile ledger m) db = Inr db'"
    using assms(2) by (auto simp: persist_generation_def res_simps)
  then have ins: "insert_generation (generation_row_of profile ledger m) db = Inr db'" .
  then have "\<exists>rows. db' = db\<lparr>db_generations := rows\<rparr>"
    by (auto simp: insert_generation_def res_simps)
  moreover have "db_generations db' = db_generations db @ [generation_row_of profile ledger m]"
    using insert_generation_Inr [OF ins] by simp
  ultimately obtain rows where rows: "db_generations db' = db_generations db @ [generation_row_of profile ledger m]"
    "db' = db\<lparr>db_generations := rows\<rparr>" by blast
  have "db_profiles db' = db_profiles db" "db_checkpoints db' = db_checkpoints db"
    "db_incidents db' = db_incidents db" "db_schema_events db' = db_schema_events db"
    "db_schemas db' = db_schemas db" "db_events db' = db_events db"
    by (simp_all add: rows(2))
  then show ?thesis by (simp add: history_grows_def rows(1) list_all2_refl generation_grows_refl)
next
  case False
  let ?f = "if cm_event m = Accepted then accept_generation ledger else delete_generation ledger (cm_cause m)"
  obtain q where q: "live_generation db profile (cm_object_id m) = Some q"
    and upd: "update_generation profile (gr_id q) ?f db = Inr db'"
    using False assms(2) by (auto simp: persist_generation_def res_simps split: option.splits)
  have grows: "generation_grows q (?f q)"
    using live_generation_mem [OF q]
    by (simp add: generation_grows_def accept_generation_def delete_generation_def)
  have "list_all2 generation_grows (db_generations db) (db_generations db')"
    using grows generation_grows_refl unfolding update_live(2) [OF assms(1) q upd]
    by (auto simp: list_all2_conv_all_nth split: if_splits)
  moreover have "length (db_generations db') = length (db_generations db)"
    by (simp add: update_live(2) [OF assms(1) q upd])
  moreover have "db_profiles db' = db_profiles db" "db_checkpoints db' = db_checkpoints db"
    "db_incidents db' = db_incidents db" "db_schema_events db' = db_schema_events db"
    "db_schemas db' = db_schemas db" "db_events db' = db_events db"
    using upd by (auto simp: update_generation_def res_simps)
  ultimately show ?thesis by (simp add: history_grows_def)
qed

lemma persist_credential_mutation_history:
  assumes "database_ok db" and "persist_credential_mutation profile ledger m db = Inr db'"
  shows "history_grows db db'"
proof -
  obtain g db1 where gen: "persist_generation profile ledger m db = Inr (g, db1)"
    and ev: "insert_credential_event (event_row_of_mutation profile ledger m g) db1 = Inr db'"
    using assms(2) by (auto simp: persist_credential_mutation_def res_simps)
  have "history_grows db1 db'"
    using ev by (intro history_appends) (auto simp: insert_credential_event_def res_simps dest: skip_prefix)
  then show ?thesis using persist_generation_history [OF assms(1) gen] history_grows_trans by blast
qed

lemma persist_projection_history:
  assumes "database_ok db" and "persist_projection lib profile projection db = Inr db'"
  shows "history_grows db db'"
proof -
  obtain db1 db2 where steps: "fold_res (persist_registration lib profile (lp_ledger projection)) (lp_registrations projection) db = Inr db1"
    "fold_res (persist_credential_mutation profile (lp_ledger projection)) (lp_mutations projection) db1 = Inr db2"
    and frame: "projection_frame db db2"
    and db': "db' = db2\<lparr>db_checkpoints := db_checkpoints db @ [checkpoint_row_of profile (lp_ledger projection)]\<rparr>"
    using persist_projection_Inr [OF assms(2)] by blast
  have h1: "database_ok db1 \<and> history_grows db db1"
    using steps(1) by (rule fold_res_inv)
      (use assms(1) history_grows_refl persist_registration_ok persist_registration_history history_grows_trans in blast)+
  have h2: "database_ok db2 \<and> history_grows db db2"
    using steps(2) h1 by (rule fold_res_inv)
      (use persist_credential_mutation_ok persist_credential_mutation_history history_grows_trans in blast)
  have "history_grows db2 db'"
    using frame by (intro history_appends) (simp_all add: db' projection_frame_def)
  then show ?thesis using h2 history_grows_trans by blast
qed

lemma status_history:
  "only_statuses_changed db db' \<Longrightarrow> prefix (db_incidents db) (db_incidents db') \<Longrightarrow> history_grows db db'"
  unfolding only_statuses_changed_def by (rule history_appends; erule ssubst) simp_all

lemma ensure_network_profile_history:
  assumes "database_ok db" and "ensure_network_profile profile db = Inr db'"
  shows "history_grows db db'"
proof -
  note e = ensure_network_profile_Inr [OF assms]
  then obtain rows where "db' = db\<lparr>db_profiles := rows\<rparr>" by blast
  then show ?thesis using e by (intro history_appends) auto
qed

lemma persist_ledger_history:
  assumes "database_ok db" and "persist_ledger lib clock later profile projection token state input db = Inr (result, db')"
  shows "history_grows db db'"
proof -
  obtain db1 db2 row where e: "ensure_network_profile profile db = Inr db1"
    and db2: "db2 = db1 \<or> persist_projection lib (profile_id profile) projection db1 = Inr db2"
    and u: "update_indexer_status later token state input None db2 = Inr (row, db')"
    using persist_ledger_Inr [OF assms(2)] by blast
  have ok1: "database_ok db1" using assms(1) e by (rule ensure_network_profile_ok)
  then have ok2: "database_ok db2" using db2 persist_projection_ok by blast
  have "history_grows db db1" using assms(1) e by (rule ensure_network_profile_history)
  moreover have "history_grows db1 db2" using db2 history_grows_refl persist_projection_history [OF ok1] by blast
  moreover have "history_grows db2 db'"
    using update_refines [OF database_ok_statuses [OF ok2] u] by (intro status_history) auto
  ultimately show ?thesis using history_grows_trans by blast
qed

section \<open>Persisting twice\<close>

lemma ensure_existing:
  assumes "database_ok db" and "ensure_network_profile profile db = Inr db'" and "has_profile db (profile_id profile)"
  shows "db' = db"
proof -
  have "list_ex (same_profile (profile_row_of profile)) (db_profiles db)"
    using assms(3) by (auto simp: has_profile_def list_ex_iff same_profile_def profile_row_of_def eq_commute)
  then have "insert_or_skip profile_row_ok same_profile True (profile_row_of profile) (db_profiles db) \<noteq> Inr rows"
    if "rows \<noteq> db_profiles db" for rows
    using that by (auto simp: insert_or_skip_def)
  then show ?thesis using assms(2) by (auto simp: ensure_network_profile_def res_simps) (metis database.surjective database.update_convs(1))
qed

lemma only_statuses_checkpoints: "only_statuses_changed db db' \<Longrightarrow> db_checkpoints db' = db_checkpoints db"
  unfolding only_statuses_changed_def by (erule ssubst) simp

lemma only_statuses_generations: "only_statuses_changed db db' \<Longrightarrow> db_generations db' = db_generations db"
  unfolding only_statuses_changed_def by (erule ssubst) simp

lemma only_statuses_events: "only_statuses_changed db db' \<Longrightarrow> db_events db' = db_events db"
  unfolding only_statuses_changed_def by (erule ssubst) simp

lemma persisted_has_checkpoint:
  assumes "database_ok db" and "persist_ledger lib clock later profile projection token state input db = Inr (result, db')"
  shows "\<exists>c \<in> set (profile_checkpoints db' (profile_id profile)). ck_index c = vl_index (lp_ledger projection)"
proof -
  let ?n = "vl_index (lp_ledger projection)" and ?p = "profile_id profile"
  obtain db1 db2 row where e: "ensure_network_profile profile db = Inr db1"
    and db2: "(db2 = db1 \<and> (\<exists>same. find (\<lambda>r. ck_index r = ?n) (profile_checkpoints db1 ?p) = Some same)) \<or>
      persist_projection lib ?p projection db1 = Inr db2"
    and u: "update_indexer_status later token state input None db2 = Inr (row, db')"
    using persist_ledger_Inr [OF assms(2)] by blast
  have ok1: "database_ok db1" using assms(1) e by (rule ensure_network_profile_ok)
  then have ok2: "database_ok db2" using db2 persist_projection_ok by blast
  have "\<exists>c \<in> set (profile_checkpoints db2 ?p). ck_index c = ?n"
  proof (cases "persist_projection lib ?p projection db1 = Inr db2")
    case True
    then have "db_checkpoints db2 = db_checkpoints db1 @ [checkpoint_row_of ?p (lp_ledger projection)]"
      using persist_projection_Inr [OF True] by (auto simp: projection_frame_def)
    then show ?thesis by (simp add: profile_checkpoints_def checkpoint_row_of_def)
  next
    case False
    then obtain same where "find (\<lambda>r. ck_index r = ?n) (profile_checkpoints db1 ?p) = Some same" "db2 = db1"
      using db2 by blast
    then show ?thesis using find_mem [of "\<lambda>r. ck_index r = ?n"] by blast
  qed
  moreover have "db_checkpoints db' = db_checkpoints db2"
    using update_refines [OF database_ok_statuses [OF ok2] u] only_statuses_checkpoints by blast
  ultimately show ?thesis by (simp add: profile_checkpoints_def)
qed

lemma persist_again:
  assumes "database_ok db" and "\<exists>c \<in> set (profile_checkpoints db (profile_id profile)). ck_index c = vl_index (lp_ledger projection)"
    and "persist_ledger lib clock later profile projection token state input db = Inr (result, db')"
  shows "result = Already_Processed \<and> only_statuses_changed db db'"
proof -
  let ?n = "vl_index (lp_ledger projection)" and ?p = "profile_id profile"
  have "has_profile db ?p"
    using assms(2) database_okD(9) [OF assms(1)] by (auto simp: profile_checkpoints_def list_all_iff)
  then have ens: "db1 = db" if "ensure_network_profile profile db = Inr db1" for db1
    using ensure_existing [OF assms(1) that] by simp
  have "find (\<lambda>r. ck_index r = ?n) (profile_checkpoints db ?p) \<noteq> None"
    using assms(2) by (auto simp: find_None_iff)
  then obtain row where "result = Already_Processed" "update_indexer_status later token state input None db = Inr (row, db')"
    using persist_ledger_Inr [OF assms(3)] ens by fastforce
  then show ?thesis using update_refines [OF database_ok_statuses [OF assms(1)]] by blast
qed

end
