(* ===== verification/Indexer_Machine.thy ===== *)
theory Indexer_Machine
  imports Indexer_Lifecycle
begin

text \<open>
  The operations of the repository as one state machine over the database, with its invariant, the
  growth of the history and the refinement of the abstract lease by every operation.
\<close>

section \<open>Calls\<close>

datatype repository_call =
    Initialize database_scope network_profile
  | Acquire jstr jstr int
  | Renew lease_token int
  | Update_Status lease_token status_state status_input
  | Release lease_token
  | Halt lease_token status_input jstr
  | Persist network_profile ledger_projection lease_token status_state status_input

fun run_call :: "'x core_lib_scheme \<Rightarrow> int \<Rightarrow> int \<Rightarrow> repository_call \<Rightarrow> database \<Rightarrow> ierr + database" where
  "run_call lib clock later (Initialize scope profile) db = initialize_profile scope profile db"
| "run_call lib clock later (Acquire profile writer d) db =
     rbind (acquire_indexer_lease clock profile writer d None db) (\<lambda>(_, db). Inr db)"
| "run_call lib clock later (Renew token d) db =
     rbind (renew_indexer_lease clock token d None db) (\<lambda>(_, db). Inr db)"
| "run_call lib clock later (Update_Status token state input) db =
     rbind (update_indexer_status clock token state input None db) (\<lambda>(_, db). Inr db)"
| "run_call lib clock later (Release token) db =
     rbind (release_indexer_lease clock token None db) (\<lambda>(_, db). Inr db)"
| "run_call lib clock later (Halt token input code) db =
     rbind (halt_indexer clock token input code None db) (\<lambda>(_, db). Inr db)"
| "run_call lib clock later (Persist profile projection token state input) db =
     rbind (persist_ledger lib clock later profile projection token state input db) (\<lambda>(_, db). Inr db)"

text \<open>A call that throws leaves the database as it was.\<close>

inductive repository_step :: "'x core_lib_scheme \<Rightarrow> database \<Rightarrow> database \<Rightarrow> bool" for lib where
  call_returns: "run_call lib clock later call db = Inr db' \<Longrightarrow> repository_step lib db db'"
| call_throws: "run_call lib clock later call db = Inl e \<Longrightarrow> repository_step lib db db"

section \<open>One call\<close>

lemma only_statuses_incidents: "update_indexer_status clock token state input given db = Inr (row, db') \<Longrightarrow>
    statuses_ok db \<Longrightarrow> prefix (db_incidents db) (db_incidents db')"
  using update_refines by fastforce

lemma write_history:
  assumes "update_status_row code p f db = Inr (row, db')"
  shows "db_incidents db' = db_incidents db"
  using assms by (auto simp: update_status_row_def res_simps)

lemma status_calls_history:
  assumes "statuses_ok db"
  shows "acquire_indexer_lease clock profile writer d given db = Inr (lease, db') \<Longrightarrow> history_grows db db'"
    and "renew_indexer_lease clock token d given db = Inr (lease, db') \<Longrightarrow> history_grows db db'"
    and "update_indexer_status clock token state input given db = Inr (row, db') \<Longrightarrow> history_grows db db'"
    and "release_indexer_lease clock token given db = Inr (row, db') \<Longrightarrow> history_grows db db'"
    and "halt_indexer clock token halt_input code given db = Inr (row, db') \<Longrightarrow> history_grows db db'"
proof -
  show "history_grows db db'" if run: "acquire_indexer_lease clock profile writer d given db = Inr (lease, db')"
  proof (rule status_history)
    show "only_statuses_changed db db'" using acquire_refines [OF assms run] by blast
    show "prefix (db_incidents db) (db_incidents db')"
      using run by (auto simp: acquire_indexer_lease_def Let_def res_simps dest!: write_history split: prod.splits)
  qed
  show "history_grows db db'" if run: "renew_indexer_lease clock token d given db = Inr (lease, db')"
  proof (rule status_history)
    show "only_statuses_changed db db'" using renew_refines [OF assms run] by blast
    show "prefix (db_incidents db) (db_incidents db')"
      using run by (auto simp: renew_indexer_lease_def res_simps dest!: write_history split: prod.splits)
  qed
  show "history_grows db db'" if run: "update_indexer_status clock token state input given db = Inr (row, db')"
    using update_refines [OF assms run] by (intro status_history) auto
  show "history_grows db db'" if run: "release_indexer_lease clock token given db = Inr (row, db')"
  proof (rule status_history)
    show "only_statuses_changed db db'" using release_refines [OF assms run] by blast
    show "prefix (db_incidents db) (db_incidents db')"
      using run by (auto simp: release_indexer_lease_def res_simps dest!: write_history)
  qed
  show "history_grows db db'" if run: "halt_indexer clock token halt_input code given db = Inr (row, db')"
  proof (rule status_history)
    show "only_statuses_changed db db'" using halt_refines [OF assms run] by blast
    show "prefix (db_incidents db) (db_incidents db')"
      using run by (auto simp: halt_indexer_def res_simps insert_Inr dest!: write_history split: prod.splits)
  qed
qed

definition repository_ok :: "database \<Rightarrow> bool" where
  "repository_ok db \<longleftrightarrow> database_ok db \<and> chains_ok db"

lemma initialize_Inr: "initialize_profile scope profile db = Inr db' \<Longrightarrow> ensure_network_profile profile db = Inr db'"
  by (simp add: initialize_profile_def split: if_splits)

lemma statuses_call_ok:
  "repository_ok db \<Longrightarrow> statuses_ok db' \<Longrightarrow> only_statuses_changed db db' \<Longrightarrow> repository_ok db'"
  using statuses_changed_ok statuses_changed_chains by (auto simp: repository_ok_def)

lemma lease_view_statuses: "db_statuses db' = db_statuses db \<Longrightarrow> lease_view_of db' = lease_view_of db"
  by (simp add: lease_view_of_def read_indexer_status_def fun_eq_iff)

lemma persist_ledger_lease:
  assumes "database_ok db" and "persist_ledger lib clock later profile projection token state input db = Inr (result, db')"
  shows "lease_view_of db' = lease_view_of db \<and> holds_lease token (lease_view_of db)"
proof -
  obtain row0 db1 db2 row where lock: "lock_active_indexer_lease clock token None db = Inr row0"
    and e: "ensure_network_profile profile db = Inr db1"
    and db2: "db2 = db1 \<or> persist_projection lib (profile_id profile) projection db1 = Inr db2"
    and u: "update_indexer_status later token state input None db2 = Inr (row, db')"
    using persist_ledger_Inr [OF assms(2)] by blast
  have ok1: "database_ok db1" using assms(1) e by (rule ensure_network_profile_ok)
  then have ok2: "database_ok db2" using db2 persist_projection_ok by blast
  obtain rows where "db1 = db\<lparr>db_profiles := rows\<rparr>" using ensure_network_profile_Inr [OF assms(1) e] by blast
  then have "db_statuses db1 = db_statuses db" by simp
  moreover have "db_statuses db2 = db_statuses db1"
  proof (cases "db2 = db1")
    case False
    then show ?thesis using db2 persist_projection_Inr [of lib "profile_id profile" projection db1 db2]
      by (auto simp: projection_frame_def)
  qed simp
  ultimately have "lease_view_of db2 = lease_view_of db" by (intro lease_view_statuses) simp
  then show ?thesis
    using update_refines [OF database_ok_statuses [OF ok2] u] lock_Inr [OF database_ok_statuses [OF assms(1)] lock] by auto
qed

lemma run_call_ok:
  assumes "repository_ok db" and "run_call lib clock later call db = Inr db'"
  shows "repository_ok db' \<and> history_grows db db' \<and> lease_step (lease_view_of db) (lease_view_of db')"
proof -
  have db: "database_ok db" "chains_ok db" using assms(1) by (simp_all add: repository_ok_def)
  note st = database_ok_statuses [OF db(1)]
  note hist = status_calls_history [OF st]
  show ?thesis
  proof (cases call)
    case (Initialize scope profile)
    then have e: "ensure_network_profile profile db = Inr db'" using assms(2) initialize_Inr by simp
    obtain rows where "db' = db\<lparr>db_profiles := rows\<rparr>" using ensure_network_profile_Inr [OF db(1) e] by blast
    then have "lease_view_of db' = lease_view_of db" by (intro lease_view_statuses) simp
    then show ?thesis
      using ensure_network_profile_ok [OF db(1) e] ensure_network_profile_chains [OF db e]
        ensure_network_profile_history [OF db(1) e] by (simp add: repository_ok_def keep_lease)
  next
    case (Acquire profile writer d)
    then obtain lease where run: "acquire_indexer_lease clock profile writer d None db = Inr (lease, db')"
      using assms(2) by (auto simp: res_simps)
    obtain epoch holder where r: "lease_view_of db profile = (epoch, holder)" "\<forall>(w, e) \<in> set_option holder. e \<le> clock"
      "MIN_INDEXER_LEASE_DURATION_MS \<le> d" "statuses_ok db'" "only_statuses_changed db db'"
      "lease_view_of db' = (lease_view_of db)(profile := (epoch + 1, Some (writer, clock + d)))"
      using acquire_refines [OF st run] by (simp only: database_now_def option.case sum.inject) blast
    have "lease_step (lease_view_of db) (lease_view_of db')"
      unfolding r(6) using r(1-3) by (intro take_lease) (auto simp: MIN_INDEXER_LEASE_DURATION_MS_def)
    then show ?thesis using statuses_call_ok [OF assms(1) r(4,5)] hist(1) [OF run] by blast
  next
    case (Renew token d)
    then obtain lease where run: "renew_indexer_lease clock token d None db = Inr (lease, db')"
      using assms(2) by (auto simp: res_simps)
    obtain e where r: "lease_view_of db (tk_profile token) = (tk_epoch token, Some (tk_writer token, e))" "clock < e"
      "MIN_INDEXER_LEASE_DURATION_MS \<le> d" "statuses_ok db'" "only_statuses_changed db db'"
      "lease_view_of db' = (lease_view_of db)(tk_profile token := (tk_epoch token, Some (tk_writer token, clock + d)))"
      using renew_refines [OF st run] by (simp only: database_now_def option.case sum.inject) blast
    have "lease_step (lease_view_of db) (lease_view_of db')"
      unfolding r(6) using r(1-3) by (intro extend_lease) (auto simp: MIN_INDEXER_LEASE_DURATION_MS_def)
    then show ?thesis using statuses_call_ok [OF assms(1) r(4,5)] hist(2) [OF run] by blast
  next
    case (Update_Status token state input)
    then obtain row where run: "update_indexer_status clock token state input None db = Inr (row, db')"
      using assms(2) by (auto simp: res_simps)
    have r: "statuses_ok db'" "only_statuses_changed db db'" "lease_view_of db' = lease_view_of db"
      using update_refines [OF st run] by auto
    then show ?thesis using statuses_call_ok [OF assms(1) r(1,2)] hist(3) [OF run] keep_lease by simp
  next
    case (Release token)
    then obtain row where run: "release_indexer_lease clock token None db = Inr (row, db')"
      using assms(2) by (auto simp: res_simps)
    obtain e where r: "statuses_ok db'" "only_statuses_changed db db'"
      "lease_view_of db (tk_profile token) = (tk_epoch token, Some (tk_writer token, e))"
      "lease_view_of db' = (lease_view_of db)(tk_profile token := (tk_epoch token, None))"
      using release_refines [OF st run] by auto
    show ?thesis using statuses_call_ok [OF assms(1) r(1,2)] hist(4) [OF run] drop_lease [of "lease_view_of db", OF r(3)] r(4) by simp
  next
    case (Halt token input code)
    then obtain row where run: "halt_indexer clock token input code None db = Inr (row, db')"
      using assms(2) by (auto simp: res_simps)
    obtain e where r: "statuses_ok db'" "only_statuses_changed db db'"
      "lease_view_of db (tk_profile token) = (tk_epoch token, Some (tk_writer token, e))"
      "lease_view_of db' = (lease_view_of db)(tk_profile token := (tk_epoch token, None))"
      using halt_refines [OF st run] by auto
    show ?thesis using statuses_call_ok [OF assms(1) r(1,2)] hist(5) [OF run] drop_lease [of "lease_view_of db", OF r(3)] r(4) by simp
  next
    case (Persist profile projection token state input)
    then obtain result where run: "persist_ledger lib clock later profile projection token state input db = Inr (result, db')"
      using assms(2) by (auto simp: res_simps)
    show ?thesis
      using persist_ledger_ok [OF db(1) run] persist_ledger_chains [OF db run] persist_ledger_history [OF db(1) run]
        persist_ledger_lease [OF db(1) run] by (simp add: repository_ok_def keep_lease)
  qed
qed

section \<open>Runs\<close>

lemma repository_step_ok:
  "repository_step lib db db' \<Longrightarrow> repository_ok db \<Longrightarrow>
     repository_ok db' \<and> history_grows db db' \<and> lease_step (lease_view_of db) (lease_view_of db')"
  by (erule repository_step.cases) (auto dest: run_call_ok intro: history_grows_refl keep_lease)

interpretation repository: machine "\<lambda>db. db = empty_database" "repository_step lib" repository_ok for lib
proof
  show "repository_ok db" if "db = empty_database" for db
    using that empty_database_ok by (simp add: repository_ok_def chains_ok_def empty_database_def)
  show "repository_ok t" if "repository_step lib s t" "repository_ok s" for s t
    using repository_step_ok that by blast
qed

lemma repository_run:
  assumes "(repository_step lib)\<^sup>*\<^sup>* db db'" and "repository_ok db"
  shows "repository_ok db' \<and> history_grows db db' \<and> lease_step\<^sup>*\<^sup>* (lease_view_of db) (lease_view_of db')"
  using assms
proof (induction rule: rtranclp_induct)
  case base
  then show ?case by (simp add: history_grows_refl)
next
  case (step s t)
  then show ?case
    using repository_step_ok [OF step(2)] history_grows_trans rtranclp.rtrancl_into_rtrancl [of lease_step] by metis
qed
end
