(* ===== verification/Indexer_Quorum.thy ===== *)
theory Indexer_Quorum
  imports Indexer_Ledger
begin

text \<open>
  The quorum of two XRPL sources (\<open>quorum-ledger-source.ts\<close>). The answers of the two sources are
  arguments; the state is the last tips the quorum has agreed on.
\<close>

section \<open>Deep equality\<close>

text \<open>\<open>isDeepStrictEqual\<close> of Node: the order of the properties of an object does not matter.\<close>

function deep_equal :: "jsval \<Rightarrow> jsval \<Rightarrow> bool" where
  "deep_equal v w =
     (case (v, w) of
        (JArr xs, JArr ys) \<Rightarrow> length xs = length ys \<and> list_all (\<lambda>(x, y). deep_equal x y) (zip xs ys)
      | (JObj p kvs, JObj q lvs) \<Rightarrow>
          p = q \<and> length kvs = length lvs \<and>
          list_all (\<lambda>(k, x). case map_of lvs k of None \<Rightarrow> False | Some y \<Rightarrow> deep_equal x y) kvs
      | _ \<Rightarrow> v = w)"
  by pat_completeness auto

lemma size_element: "(x :: jsval) \<in> set xs \<Longrightarrow> size x \<le> size_list size xs"
  by (induction xs) auto

lemma size_property: "(k :: jstr, x) \<in> set kvs \<Longrightarrow> size x \<le> size_list (size_prod (\<lambda>_. 0) size) kvs"
  by (induction kvs) auto

termination deep_equal
  by (relation "measure (\<lambda>(v, w). size v)") (auto dest!: set_zip_leftD size_element size_property)

declare deep_equal.simps [simp del]

definition same_transaction :: "ledger_transaction \<Rightarrow> ledger_transaction \<Rightarrow> bool" where
  "same_transaction t u \<longleftrightarrow>
     lt_hash t = lt_hash u \<and> lt_index t = lt_index u \<and>
     deep_equal (lt_transaction t) (lt_transaction u) \<and> deep_equal (lt_metadata t) (lt_metadata u)"

definition same_ledger :: "validated_ledger \<Rightarrow> validated_ledger \<Rightarrow> bool" where
  "same_ledger l k \<longleftrightarrow>
     l\<lparr>vl_transactions := []\<rparr> = k\<lparr>vl_transactions := []\<rparr> \<and>
     length (vl_transactions l) = length (vl_transactions k) \<and>
     list_all (\<lambda>(t, u). same_transaction t u) (zip (vl_transactions l) (vl_transactions k))"

section \<open>Operations\<close>

definition unavailable :: "ierr \<Rightarrow> ierr" where
  "unavailable e = (case e of Source_Error code \<Rightarrow> Source_Error code | _ \<Rightarrow> Source_Error ''SOURCE_UNAVAILABLE'')"

definition both :: "ierr + 'a \<Rightarrow> ierr + 'b \<Rightarrow> ierr + 'a \<times> 'b" where
  "both primary secondary =
     (case primary of
        Inl e \<Rightarrow> Inl (unavailable e)
      | Inr p \<Rightarrow> (case secondary of Inl e \<Rightarrow> Inl (unavailable e) | Inr s \<Rightarrow> Inr (p, s)))"

definition assert_tips_do_not_regress :: "source_tips option \<Rightarrow> source_tips \<Rightarrow> ierr + unit" where
  "assert_tips_do_not_regress previous current =
     (case previous of
        None \<Rightarrow> Inr ()
      | Some old \<Rightarrow>
          if tip_primary current < tip_primary old \<or> tip_secondary current < tip_secondary old
          then source_failure ''SOURCE_TIP_REGRESSION'' else Inr ())"

definition quorum_connect :: "ierr + unit \<Rightarrow> ierr + unit \<Rightarrow> ierr + unit" where
  "quorum_connect primary secondary =
     (if \<not> is_ok primary \<or> \<not> is_ok secondary then source_failure ''SOURCE_UNAVAILABLE'' else Inr ())"

definition quorum_disconnect :: "ierr + unit \<Rightarrow> ierr + unit \<Rightarrow> ierr + unit" where
  "quorum_disconnect primary secondary =
     (if \<not> is_ok primary \<or> \<not> is_ok secondary then source_failure ''SOURCE_UNAVAILABLE'' else Inr ())"

definition assert_same_ledger :: "validated_ledger \<Rightarrow> validated_ledger \<Rightarrow> ierr + unit" where
  "assert_same_ledger primary secondary =
     (if \<not> same_ledger primary secondary then source_failure ''SOURCE_DIVERGENCE'' else Inr ())"

record quorum_preflight = source_preflight +
  qp_primary_tip :: int
  qp_primary_ranges :: "ledger_range list"
  qp_secondary_tip :: int
  qp_secondary_ranges :: "ledger_range list"

definition quorum_tips_of :: "int \<Rightarrow> int \<Rightarrow> source_tips" where
  "quorum_tips_of primary secondary =
     \<lparr>tip_primary = primary, tip_secondary = secondary, tip_effective = min primary secondary\<rparr>"

text \<open>An operation that agrees on tips returns its answer together with the new state.\<close>

definition quorum_preflight_of ::
  "network_profile \<Rightarrow> source_tips option \<Rightarrow> ierr + source_preflight \<Rightarrow> ierr + source_preflight \<Rightarrow>
    ierr + quorum_preflight \<times> source_tips option" where
  "quorum_preflight_of profile previous primary_answer secondary_answer =
     rbind (both primary_answer secondary_answer) (\<lambda>(primary, secondary).
     if pf_network_id primary \<noteq> profile_network_id profile \<or> pf_network_id secondary \<noteq> profile_network_id profile
        \<or> pf_network_id primary \<noteq> pf_network_id secondary
     then source_failure ''SOURCE_NETWORK_MISMATCH''
     else
       rbind (assert_same_ledger (pf_activation_ledger primary) (pf_activation_ledger secondary)) (\<lambda>_.
       let tips = quorum_tips_of (tip_effective (pf_tips primary)) (tip_effective (pf_tips secondary)) in
       rbind (assert_tips_do_not_regress previous tips) (\<lambda>_.
       Inr (\<lparr>pf_network_id = pf_network_id primary, pf_ranges = pf_ranges primary,
             pf_activation_ledger = pf_activation_ledger primary, pf_tips = tips,
             qp_primary_tip = tip_effective (pf_tips primary), qp_primary_ranges = pf_ranges primary,
             qp_secondary_tip = tip_effective (pf_tips secondary), qp_secondary_ranges = pf_ranges secondary\<rparr>,
            Some tips))))"

definition quorum_assert_amendment :: "ierr + unit \<Rightarrow> ierr + unit \<Rightarrow> ierr + unit" where
  "quorum_assert_amendment primary secondary = rbind (both primary secondary) (\<lambda>_. Inr ())"

definition quorum_tips ::
  "source_tips option \<Rightarrow> ierr + int \<Rightarrow> ierr + int \<Rightarrow> ierr + source_tips \<times> source_tips option" where
  "quorum_tips previous primary_answer secondary_answer =
     rbind (both primary_answer secondary_answer) (\<lambda>(primary, secondary).
     let tips = quorum_tips_of primary secondary in
     rbind (assert_tips_do_not_regress previous tips) (\<lambda>_. Inr (tips, Some tips)))"

definition quorum_index :: "source_tips option \<Rightarrow> ierr + int \<Rightarrow> ierr + int \<Rightarrow> ierr + int \<times> source_tips option" where
  "quorum_index previous primary_answer secondary_answer =
     rbind (quorum_tips previous primary_answer secondary_answer) (\<lambda>(tips, state). Inr (tip_effective tips, state))"

definition quorum_ledger :: "ierr + validated_ledger \<Rightarrow> ierr + validated_ledger \<Rightarrow> ierr + validated_ledger" where
  "quorum_ledger primary_answer secondary_answer =
     rbind (both primary_answer secondary_answer) (\<lambda>(primary, secondary).
     rbind (assert_same_ledger primary secondary) (\<lambda>_. Inr primary))"

section \<open>What the quorum gives\<close>

lemma both_Inr: "both p s = Inr r \<longleftrightarrow> (\<exists>a b. p = Inr a \<and> s = Inr b \<and> r = (a, b))"
  by (auto simp: both_def split: sum.splits)

text \<open>Every error of a quorum operation is a source error, with a stable code.\<close>

lemma both_Inl: "both p s = Inl e \<Longrightarrow> \<exists>code. e = Source_Error code"
  by (auto simp: both_def unavailable_def split: sum.splits ierr.splits)

lemma quorum_ledger_Inr:
  "quorum_ledger p s = Inr l \<longleftrightarrow> p = Inr l \<and> (\<exists>k. s = Inr k \<and> same_ledger l k)"
  by (auto simp: quorum_ledger_def res_simps both_Inr assert_same_ledger_def)

lemma quorum_tips_Inr:
  "quorum_tips previous p s = Inr (tips, state) \<Longrightarrow>
     p = Inr (tip_primary tips) \<and> s = Inr (tip_secondary tips) \<and>
     tip_effective tips = min (tip_primary tips) (tip_secondary tips) \<and> state = Some tips \<and>
     (\<forall>old \<in> set_option previous. tip_primary old \<le> tip_primary tips \<and> tip_secondary old \<le> tip_secondary tips)"
  by (auto simp: quorum_tips_def res_simps both_Inr Let_def quorum_tips_of_def assert_tips_do_not_regress_def
      split: option.splits if_splits)

lemma quorum_preflight_Inr:
  "quorum_preflight_of profile previous p s = Inr (pf, state) \<Longrightarrow>
     state = Some (pf_tips pf) \<and> pf_network_id pf = profile_network_id profile \<and>
     tip_effective (pf_tips pf) = min (tip_primary (pf_tips pf)) (tip_secondary (pf_tips pf)) \<and>
     (\<exists>a b. p = Inr a \<and> s = Inr b \<and> pf_activation_ledger pf = pf_activation_ledger a \<and>
        same_ledger (pf_activation_ledger a) (pf_activation_ledger b)) \<and>
     (\<forall>old \<in> set_option previous. tip_primary old \<le> tip_primary (pf_tips pf) \<and> tip_secondary old \<le> tip_secondary (pf_tips pf))"
  by (auto simp: quorum_preflight_of_def res_simps both_Inr Let_def quorum_tips_of_def assert_tips_do_not_regress_def
      assert_same_ledger_def split: option.splits if_splits)


end
