(* ===== verification/Indexer_Source.thy ===== *)
theory Indexer_Source
  imports Database_Schema Indexer_Quorum Effects
begin

text \<open>
  One XRPL source: the checks of the answers of a server (\<open>profile-preflight.ts\<close>) and the source
  built on them (\<open>xrpl-source.ts\<close>). A server is a function of the requests it has answered.
\<close>

abbreviation response_invalid :: "ierr + 'a" where
  "response_invalid \<equiv> source_failure ''SOURCE_RESPONSE_INVALID''"

section \<open>Values of a response\<close>

definition response_record :: "jsval \<Rightarrow> ierr + jsval" where
  "response_record v = (if is_record v then Inr v else response_invalid)"

definition response_uint :: "jsval \<Rightarrow> ierr + int" where
  "response_uint v = (if is_uint32 v then Inr (int_of v) else response_invalid)"

definition response_hash :: "jsval \<Rightarrow> ierr + jstr" where
  "response_hash v = (if string_that hash64_any v then Inr (to_lower (str_of v)) else response_invalid)"

lemma response_Inr:
  "response_record v = Inr r \<longleftrightarrow> is_record v \<and> r = v"
  "response_uint v = Inr n \<Longrightarrow> 0 \<le> n \<and> n \<le> uint32_max"
  "response_hash v = Inr h \<Longrightarrow> hash64 h"
  by (auto simp: response_record_def response_uint_def response_hash_def is_uint32_iff string_that_iff
      hash64_any_lower split: if_splits)

section \<open>Complete ledgers\<close>

text \<open>\<open>String.prototype.trim\<close>\<close>

definition js_whitespace :: "cu \<Rightarrow> bool" where
  "js_whitespace c \<longleftrightarrow>
     c \<in> {9, 10, 11, 12, 13, 32, 0xa0, 0x1680, 0x2028, 0x2029, 0x202f, 0x205f, 0x3000, 0xfeff} \<or>
     (0x2000 \<le> c \<and> c \<le> 0x200a)"

definition js_trim :: "jstr \<Rightarrow> jstr" where
  "js_trim s = rev (dropWhile js_whitespace (rev (dropWhile js_whitespace s)))"

definition digits :: "jstr \<Rightarrow> bool" where
  "digits s \<longleftrightarrow> s \<noteq> [] \<and> list_all is_digit s"

text \<open>
  One part: \<open>/^(\d+)(?:-(\d+))?$/\<close>. A number above the uint32 range is rejected whatever its rounding.
\<close>

definition parse_range :: "jstr \<Rightarrow> ierr + ledger_range" where
  "parse_range part =
     (let s = js_trim part;
          low = takeWhile is_digit s;
          rest = dropWhile is_digit s
      in if \<not> digits low \<or> \<not> (rest = [] \<or> (hd rest = ch CHR ''-'' \<and> digits (tl rest))) then response_invalid
         else
           let high = (if rest = [] then low else tl rest) in
           rbind (response_uint (jint (int (dec_value low)))) (\<lambda>a.
           rbind (response_uint (jint (int (dec_value high)))) (\<lambda>b.
           if a > b then response_invalid else Inr \<lparr>range_min = a, range_max = b\<rparr>)))"

text \<open>One step of the loop over the sorted ranges; \<open>merged\<close> is kept in reverse order.\<close>

definition merge_range :: "ledger_range \<Rightarrow> ledger_range list \<Rightarrow> ledger_range list" where
  "merge_range r merged =
     (case merged of
        [] \<Rightarrow> [r]
      | p # ps \<Rightarrow>
          if range_min r > range_max p + 1 then r # p # ps
          else p\<lparr>range_max := max (range_max p) (range_max r)\<rparr> # ps)"

definition merge_ranges :: "ledger_range list \<Rightarrow> ledger_range list" where
  "merge_ranges ranges =
     rev (fold merge_range (sort_key range_min (sort_key range_max ranges)) [])"

definition parse_complete_ledgers :: "jsval \<Rightarrow> ierr + ledger_range list" where
  "parse_complete_ledgers v =
     (case v of
        JStr s \<Rightarrow>
          if s = [] \<or> s = lit ''empty'' then source_failure ''SOURCE_HISTORY_INCOMPLETE''
          else rbind (traverse parse_range (split_on (ch CHR '','') s)) (\<lambda>ranges. Inr (merge_ranges ranges))
      | _ \<Rightarrow> source_failure ''SOURCE_HISTORY_INCOMPLETE'')"

record server_status =
  sv_network_id :: int
  sv_index :: int
  sv_hash :: jstr
  sv_ranges :: "ledger_range list"

definition normalize_server_info :: "jsval \<Rightarrow> ierr + server_status" where
  "normalize_server_info v =
     rbind (response_record v) (\<lambda>result.
     rbind (response_record (get result ''info'')) (\<lambda>info.
     rbind (response_record (get info ''validated_ledger'')) (\<lambda>validated.
     rbind (response_uint (get info ''network_id'')) (\<lambda>network.
     rbind (response_uint (get validated ''seq'')) (\<lambda>index.
     rbind (response_hash (get validated ''hash'')) (\<lambda>hash.
     rbind (parse_complete_ledgers (get info ''complete_ledgers'')) (\<lambda>ranges.
     Inr \<lparr>sv_network_id = network, sv_index = index, sv_hash = hash, sv_ranges = ranges\<rparr>)))))))"

definition assert_source_covers_profile :: "server_status \<Rightarrow> network_profile \<Rightarrow> ierr + unit" where
  "assert_source_covers_profile status profile =
     (if sv_network_id status \<noteq> profile_network_id profile then source_failure ''SOURCE_NETWORK_MISMATCH''
      else if sv_index status < activation_ledger_index profile then source_failure ''SOURCE_HISTORY_INCOMPLETE''
      else if \<not> list_ex (\<lambda>r. range_min r \<le> activation_ledger_index profile \<and> sv_index status \<le> range_max r)
                (sv_ranges status)
      then source_failure ''SOURCE_HISTORY_INCOMPLETE''
      else Inr ())"

section \<open>The registry account\<close>

datatype registry_policy = Blackholed | Controlled_Testnet_Pilot

definition LSF_DISABLE_MASTER :: int where "LSF_DISABLE_MASTER = 0x00100000"
definition LSF_DEPOSIT_AUTH :: int where "LSF_DEPOSIT_AUTH = 0x01000000"
definition LSF_REQUIRE_DEST_TAG :: int where "LSF_REQUIRE_DEST_TAG = 0x00020000"

definition XRPL_ACCOUNT_ZERO :: jstr where "XRPL_ACCOUNT_ZERO = lit ''rrrrrrrrrrrrrrrrrrrrrhoLvTp''"
definition XRPL_ACCOUNT_ONE :: jstr where "XRPL_ACCOUNT_ONE = lit ''rrrrrrrrrrrrrrrrrrrrBZbvji''"

definition own_property :: "jsval \<Rightarrow> string \<Rightarrow> bool" where
  "own_property v k \<longleftrightarrow> has_own (entries_of v) (lit k)"

definition array_of :: "jsval \<Rightarrow> ierr + jsval list" where
  "array_of v = (case v of JArr xs \<Rightarrow> Inr xs | _ \<Rightarrow> response_invalid)"

definition signer_lists :: "jsval \<Rightarrow> jsval \<Rightarrow> ierr + jsval list" where
  "signer_lists result account_data =
     rbind (traverse array_of
       ((if own_property result ''signer_lists'' then [get result ''signer_lists''] else []) @
        (if own_property account_data ''signer_lists'' then [get account_data ''signer_lists''] else [])))
       (\<lambda>lists. Inr (concat lists))"

definition response_address :: "'x core_lib_scheme \<Rightarrow> jsval \<Rightarrow> ierr + jstr" where
  "response_address lib v =
     (if string_that (is_valid_classic_address lib) v then Inr (str_of v) else response_invalid)"

record registry_account =
  ra_result :: jsval
  ra_data :: jsval
  ra_flags :: int

text \<open>The checks that an answer comes from the activation ledger.\<close>

definition assert_activation_answer :: "jsval \<Rightarrow> network_profile \<Rightarrow> ierr + unit" where
  "assert_activation_answer result profile =
     (if get result ''validated'' \<noteq> JBool True then response_invalid
      else
        rbind (response_hash (get result ''ledger_hash'')) (\<lambda>hash.
        if hash \<noteq> activation_ledger_hash profile then source_failure ''SOURCE_ACTIVATION_MISMATCH''
        else
          rbind (response_uint (get result ''ledger_index'')) (\<lambda>index.
          if index \<noteq> activation_ledger_index profile then source_failure ''SOURCE_ACTIVATION_MISMATCH''
          else Inr ())))"

definition registry_account_root :: "jsval \<Rightarrow> network_profile \<Rightarrow> ierr + registry_account" where
  "registry_account_root account_info profile =
     rbind (response_record account_info) (\<lambda>result.
     rbind (assert_activation_answer result profile) (\<lambda>_.
     rbind (response_record (get result ''account_data'')) (\<lambda>account_data.
     if get account_data ''LedgerEntryType'' \<noteq> jlit ''AccountRoot'' then response_invalid
     else if get account_data ''Account'' \<noteq> JStr (registry_address profile) then response_invalid
     else
       rbind (response_uint (get account_data ''Flags'')) (\<lambda>flags.
       Inr \<lparr>ra_result = result, ra_data = account_data, ra_flags = flags\<rparr>))))"

text \<open>An object of the registry: whether it lets another account act for the registry.\<close>

definition grants_control :: "'x core_lib_scheme \<Rightarrow> network_profile \<Rightarrow> jsval \<Rightarrow> ierr + bool" where
  "grants_control lib profile raw =
     rbind (response_record raw) (\<lambda>obj.
     if get obj ''LedgerEntryType'' = jlit ''Delegate'' then
       rbind (response_address lib (get obj ''Account'')) (\<lambda>account.
       rbind (response_address lib (get obj ''Authorize'')) (\<lambda>_.
       Inr (account = registry_address profile)))
     else Inr (get obj ''LedgerEntryType'' = jlit ''SignerList''))"

definition assert_registry_blackholed ::
  "'x core_lib_scheme \<Rightarrow> jsval \<Rightarrow> jsval list \<Rightarrow> network_profile \<Rightarrow> ierr + unit" where
  "assert_registry_blackholed lib account_info account_objects profile =
     rbind (registry_account_root account_info profile) (\<lambda>root.
     let flags = NInt (ra_flags root);
         regular_key = get (ra_data root) ''RegularKey''
     in
     rbind (signer_lists (ra_result root) (ra_data root)) (\<lambda>lists.
     rbind (traverse (grants_control lib profile) account_objects) (\<lambda>controls.
     if \<not> has_flag flags LSF_DISABLE_MASTER \<or> has_flag flags LSF_DEPOSIT_AUTH \<or>
        has_flag flags LSF_REQUIRE_DEST_TAG \<or>
        (regular_key \<noteq> JStr XRPL_ACCOUNT_ZERO \<and> regular_key \<noteq> JStr XRPL_ACCOUNT_ONE) \<or>
        length lists \<noteq> 0 \<or> list_ex (\<lambda>c. c) controls
     then source_failure ''SOURCE_REGISTRY_NOT_BLACKHOLED'' else Inr ())))"

definition assert_registry_receivable :: "jsval \<Rightarrow> network_profile \<Rightarrow> ierr + unit" where
  "assert_registry_receivable account_info profile =
     rbind (registry_account_root account_info profile) (\<lambda>root.
     if has_flag (NInt (ra_flags root)) LSF_DEPOSIT_AUTH \<or> has_flag (NInt (ra_flags root)) LSF_REQUIRE_DEST_TAG
     then source_failure ''SOURCE_REGISTRY_NOT_RECEIVABLE'' else Inr ())"

definition assert_registry_policy ::
  "'x core_lib_scheme \<Rightarrow> registry_policy \<Rightarrow> jsval \<Rightarrow> jsval list \<Rightarrow> network_profile \<Rightarrow> ierr + unit" where
  "assert_registry_policy lib policy account_info account_objects profile =
     (if policy = Controlled_Testnet_Pilot then assert_registry_receivable account_info profile
      else assert_registry_blackholed lib account_info account_objects profile)"

definition page_object :: "jsval \<Rightarrow> ierr + jsval" where
  "page_object v =
     rbind (response_record v) (\<lambda>obj.
     if \<not> string_that (\<lambda>s. s \<noteq> []) (get obj ''LedgerEntryType'') then response_invalid else Inr obj)"

definition normalize_account_objects_page :: "jsval \<Rightarrow> network_profile \<Rightarrow> ierr + jsval list \<times> jsval" where
  "normalize_account_objects_page v profile =
     rbind (response_record v) (\<lambda>result.
     rbind (assert_activation_answer result profile) (\<lambda>_.
     if get result ''account'' \<noteq> JStr (registry_address profile) then response_invalid
     else
       rbind (array_of (get result ''account_objects'')) (\<lambda>raw.
       rbind (traverse page_object raw) (\<lambda>objects.
       Inr (objects, get result ''marker'')))))"

section \<open>Ledgers\<close>

definition uint64_string :: "jsval \<Rightarrow> ierr + jstr" where
  "uint64_string v =
     (if string_that (\<lambda>s. canonical_decimal s \<and> dec_value s \<le> 18446744073709551615) v then Inr (str_of v)
      else response_invalid)"

definition matching_hash :: "jsval list \<Rightarrow> ierr + jstr" where
  "matching_hash vs =
     (case filter (\<lambda>v. v \<noteq> JUndef) vs of
        [] \<Rightarrow> response_hash JUndef
      | present \<Rightarrow>
          rbind (traverse response_hash present) (\<lambda>normalized.
          if list_ex (\<lambda>h. h \<noteq> hd normalized) normalized then response_invalid else Inr (hd normalized)))"

definition non_empty_string :: "jsval \<Rightarrow> ierr + jstr" where
  "non_empty_string v = (if string_that (\<lambda>s. js_trim s \<noteq> []) v then Inr (str_of v) else response_invalid)"

definition without_properties :: "string list \<Rightarrow> jsval \<Rightarrow> jsval" where
  "without_properties keys v = JObj Plain (filter (\<lambda>(k, x). k \<notin> set (map lit keys)) (entries_of v))"

definition inner_transaction :: "jsval \<Rightarrow> ierr + jsval" where
  "inner_transaction envelope =
     (if object_like (get envelope ''tx_json'') then response_record (get envelope ''tx_json'')
      else if object_like (get envelope ''tx'') then response_record (get envelope ''tx'')
      else Inr envelope)"

definition normalize_transaction :: "jsval \<Rightarrow> ierr + ledger_transaction" where
  "normalize_transaction v =
     rbind (response_record v) (\<lambda>envelope.
     rbind (inner_transaction envelope) (\<lambda>tx.
     rbind (response_record
       (coalesce (get envelope ''meta'') (coalesce (get envelope ''metaData'')
         (coalesce (get tx ''meta'') (get tx ''metaData''))))) (\<lambda>metadata.
     rbind (non_empty_string (get tx ''TransactionType'')) (\<lambda>_.
     rbind (array_of (get metadata ''AffectedNodes'')) (\<lambda>_.
     rbind (non_empty_string (get metadata ''TransactionResult'')) (\<lambda>_.
     rbind (matching_hash
       [get envelope ''hash'',
        if object_like (get envelope ''tx_json'') \<or> object_like (get envelope ''tx'')
        then get tx ''hash'' else JUndef]) (\<lambda>hash.
     rbind (response_uint (get metadata ''TransactionIndex'')) (\<lambda>index.
     Inr \<lparr>lt_hash = hash, lt_transaction = without_properties [''meta'', ''metaData'', ''hash''] tx,
          lt_metadata = JObj Plain (entries_of metadata), lt_index = index\<rparr>))))))))"

text \<open>The loop over the sorted transactions.\<close>

fun check_transactions :: "int \<Rightarrow> jstr list \<Rightarrow> ledger_transaction list \<Rightarrow> ierr + unit" where
  "check_transactions position hashes [] = Inr ()"
| "check_transactions position hashes (t # ts) =
     (if lt_index t \<noteq> position then response_invalid
      else if lt_hash t \<in> set hashes then response_invalid
      else check_transactions (position + 1) (lt_hash t # hashes) ts)"

definition agree :: "ierr + 'a \<Rightarrow> ierr + 'a \<Rightarrow> ierr + 'a" where
  "agree first second = rbind first (\<lambda>a. rbind second (\<lambda>b. if a \<noteq> b then response_invalid else Inr a))"

definition normalize_ledger_response :: "jsval \<Rightarrow> ierr + validated_ledger" where
  "normalize_ledger_response v =
     rbind (response_record v) (\<lambda>result.
     if get result ''validated'' \<noteq> JBool True then response_invalid
     else
       rbind (response_record (get result ''ledger'')) (\<lambda>ledger.
       if get ledger ''closed'' \<noteq> JBool True then response_invalid
       else
         rbind (array_of (get ledger ''transactions'')) (\<lambda>raw.
         rbind (traverse normalize_transaction raw) (\<lambda>unsorted.
         let transactions = sort_key lt_index unsorted in
         rbind (check_transactions 0 [] transactions) (\<lambda>_.
         rbind (agree (response_uint (get ledger ''ledger_index'')) (response_uint (get result ''ledger_index''))) (\<lambda>index.
         rbind (agree (response_hash (get ledger ''ledger_hash'')) (response_hash (get result ''ledger_hash''))) (\<lambda>hash.
         rbind (response_hash (get ledger ''parent_hash'')) (\<lambda>parent.
         rbind (response_hash (get ledger ''account_hash'')) (\<lambda>account_root.
         rbind (response_hash (get ledger ''transaction_hash'')) (\<lambda>transaction_root.
         rbind (response_uint (get ledger ''parent_close_time'')) (\<lambda>parent_close_time.
         rbind (response_uint (get ledger ''close_time'')) (\<lambda>close_time.
         rbind (response_uint (get ledger ''close_time_resolution'')) (\<lambda>resolution.
         rbind (response_uint (get ledger ''close_flags'')) (\<lambda>close_flags.
         rbind (uint64_string (get ledger ''total_coins'')) (\<lambda>total_coins.
         Inr \<lparr>vl_index = index, vl_hash = hash, vl_parent = parent, vl_account_root = account_root,
              vl_transaction_root = transaction_root, vl_parent_close_time = parent_close_time,
              vl_close_time = close_time, vl_close_time_resolution = resolution,
              vl_close_flags = close_flags, vl_total_coins = total_coins,
              vl_transactions = transactions\<rparr>)))))))))))))))"

text \<open>
  Keys compare by the upper case of their ASCII letters; the amendment is 64 hexadecimal digits.
\<close>

definition assert_feature_response_supports_amendment :: "jsval \<Rightarrow> jstr \<Rightarrow> ierr + unit" where
  "assert_feature_response_supports_amendment v amendment =
     rbind (response_record v) (\<lambda>result.
     rbind (if object_like (get result ''features'') then response_record (get result ''features'') else Inr result)
       (\<lambda>features.
     case find (\<lambda>(k, x). to_upper k = to_upper amendment) (entries_of features) of
       None \<Rightarrow> source_failure ''SOURCE_AMENDMENT_UNAVAILABLE''
     | Some (k, x) \<Rightarrow>
         rbind (response_record x) (\<lambda>feature.
         if get feature ''enabled'' \<noteq> JBool True \<or> get feature ''supported'' \<noteq> JBool True
         then source_failure ''SOURCE_AMENDMENT_UNAVAILABLE'' else Inr ())))"

section \<open>The source\<close>

datatype xrpl_request =
    Server_Info
  | Feature jstr
  | Ledger_Request int
  | Account_Info jstr jstr
  | Account_Objects jstr jstr jsval

type_synonym xrpl_server = "xrpl_request list \<Rightarrow> xrpl_request \<Rightarrow> ierr + jsval"

type_synonym 'a source = "(ierr, xrpl_request list, 'a) io"

definition request :: "xrpl_server \<Rightarrow> xrpl_request \<Rightarrow> jsval source" where
  "request server r = io_effect r (\<lambda>history. server history r)"

definition source_assert_amendment :: "xrpl_server \<Rightarrow> jstr \<Rightarrow> unit source" where
  "source_assert_amendment server amendment =
     io_bind (request server (Feature amendment)) (\<lambda>response.
     io_lift (assert_feature_response_supports_amendment response amendment))"

definition source_validated_index :: "xrpl_server \<Rightarrow> int source" where
  "source_validated_index server =
     io_bind (request server Server_Info) (\<lambda>response.
     io_bind (io_lift (normalize_server_info response)) (\<lambda>status. io_return (sv_index status)))"

definition source_validated_tips :: "xrpl_server \<Rightarrow> source_tips source" where
  "source_validated_tips server =
     io_bind (source_validated_index server) (\<lambda>tip.
     io_return \<lparr>tip_primary = tip, tip_secondary = tip, tip_effective = tip\<rparr>)"

definition source_ledger :: "xrpl_server \<Rightarrow> int \<Rightarrow> validated_ledger source" where
  "source_ledger server index =
     io_bind (request server (Ledger_Request index)) (\<lambda>response.
     io_bind (io_lift (normalize_ledger_response response)) (\<lambda>ledger.
     io_lift (if vl_index ledger \<noteq> index then response_invalid else Inr ledger)))"

text \<open>
  The pages of \<open>account_objects\<close>: at most so many, no marker twice. \<open>JUndef\<close> is the missing marker of
  the first page; markers compare as values.
\<close>

fun account_pages ::
  "xrpl_server \<Rightarrow> network_profile \<Rightarrow> nat \<Rightarrow> jsval list \<Rightarrow> jsval \<Rightarrow> jsval list \<Rightarrow> jsval list source" where
  "account_pages server profile 0 markers marker objects = io_lift response_invalid"
| "account_pages server profile (Suc n) markers marker objects =
     io_bind (request server (Account_Objects (registry_address profile) (activation_ledger_hash profile) marker))
       (\<lambda>response.
     io_bind (io_lift (normalize_account_objects_page response profile)) (\<lambda>(page, next).
     if next = JUndef then io_return (objects @ page)
     else if next \<in> set markers then io_lift response_invalid
     else account_pages server profile n (next # markers) next (objects @ page)))"

definition get_all_account_objects :: "xrpl_server \<Rightarrow> network_profile \<Rightarrow> jsval list source" where
  "get_all_account_objects server profile = account_pages server profile 1000 [] JUndef []"

definition source_preflight_of ::
  "'x core_lib_scheme \<Rightarrow> registry_policy \<Rightarrow> xrpl_server \<Rightarrow> network_profile \<Rightarrow> source_preflight source" where
  "source_preflight_of lib policy server profile =
     io_catch
       (io_bind (request server Server_Info) (\<lambda>info.
        io_bind (io_lift (normalize_server_info info)) (\<lambda>status.
        io_bind (io_lift (assert_source_covers_profile status profile)) (\<lambda>_.
        io_bind (source_assert_amendment server (required_amendment profile)) (\<lambda>_.
        io_bind (source_ledger server (activation_ledger_index profile)) (\<lambda>activation.
        if vl_hash activation \<noteq> activation_ledger_hash profile
        then io_lift (source_failure ''SOURCE_ACTIVATION_MISMATCH'')
        else
          io_bind (request server (Account_Info (registry_address profile) (activation_ledger_hash profile))) (\<lambda>account_info.
          io_bind (get_all_account_objects server profile) (\<lambda>account_objects.
          io_bind (io_lift (assert_registry_policy lib policy account_info account_objects profile)) (\<lambda>_.
          io_return
            \<lparr>pf_network_id = sv_network_id status, pf_ranges = sv_ranges status,
             pf_activation_ledger = activation,
             pf_tips = \<lparr>tip_primary = sv_index status, tip_secondary = sv_index status,
                        tip_effective = sv_index status\<rparr>\<rparr>)))))))))
       (\<lambda>e. io_lift (Inl (unavailable e)))"

section \<open>Complete ledger ranges\<close>

definition in_range :: "int \<Rightarrow> ledger_range \<Rightarrow> bool" where
  "in_range n r \<longleftrightarrow> range_min r \<le> n \<and> n \<le> range_max r"

text \<open>Ranges in descending order with at least one missing ledger between neighbours.\<close>

definition apart :: "ledger_range \<Rightarrow> ledger_range \<Rightarrow> bool" where
  "apart r q \<longleftrightarrow> range_max q + 1 < range_min r"

lemma merge_fold:
  assumes "sorted (map range_min rs)" and "\<forall>r \<in> set rs. range_min r \<le> range_max r"
    and "sorted_wrt apart acc" and "\<forall>a \<in> set acc. range_min a \<le> range_max a"
    and "\<forall>r \<in> set rs. \<forall>a \<in> set acc. range_min a \<le> range_min r"
  shows "sorted_wrt apart (fold merge_range rs acc) \<and>
    (\<forall>n. list_ex (in_range n) (fold merge_range rs acc) = (list_ex (in_range n) acc \<or> list_ex (in_range n) rs))"
  using assms
proof (induction rs arbitrary: acc)
  case (Cons r rs)
  have new: "sorted_wrt apart (merge_range r acc) \<and> (\<forall>a \<in> set (merge_range r acc). range_min a \<le> range_max a) \<and>
      (\<forall>q \<in> set rs. \<forall>a \<in> set (merge_range r acc). range_min a \<le> range_min q) \<and>
      (\<forall>n. list_ex (in_range n) (merge_range r acc) = (list_ex (in_range n) acc \<or> in_range n r))"
  proof (cases acc)
    case Nil
    then show ?thesis using Cons(2,3) by (simp add: merge_range_def)
  next
    case (Cons p ps)
    show ?thesis
    proof (cases "range_min r > range_max p + 1")
      case True
      have near: "apart r p" using True by (simp add: apart_def)
      have far: "\<forall>q \<in> set ps. apart r q"
        using Cons.prems(3,4) Cons True by (auto simp: apart_def)
      show ?thesis
        using Cons.prems Cons True far near by (auto simp: merge_range_def)
    next
      case False
      let ?p = "p\<lparr>range_max := max (range_max p) (range_max r)\<rparr>"
      have le: "range_min p \<le> range_min r" "range_min r \<le> range_max r" "range_min p \<le> range_max p"
        using Cons.prems Cons by auto
      have "in_range n ?p = (in_range n p \<or> in_range n r)" for n
        using le False by (auto simp: in_range_def max_def)
      moreover have "\<forall>q \<in> set ps. apart ?p q" using Cons.prems(3) Cons by (simp add: apart_def)
      ultimately show ?thesis
        using Cons.prems Cons False by (auto simp: merge_range_def max_def)
    qed
  qed
  then show ?case using Cons(1) [of "merge_range r acc"] Cons(2,3) by auto
qed simp

lemma sorted_pair: "sorted_wrt P xs \<Longrightarrow> r \<in> set xs \<Longrightarrow> q \<in> set xs \<Longrightarrow> r = q \<or> P r q \<or> P q r"
  by (induction xs) auto

lemma merge_ranges_covers:
  assumes "\<forall>r \<in> set ranges. range_min r \<le> range_max r" and "a \<le> t"
  shows "list_ex (\<lambda>r. range_min r \<le> a \<and> t \<le> range_max r) (merge_ranges ranges) \<longleftrightarrow>
    (\<forall>n. a \<le> n \<and> n \<le> t \<longrightarrow> list_ex (in_range n) ranges)"
proof -
  let ?sorted = "sort_key range_min (sort_key range_max ranges)"
  let ?merged = "fold merge_range ?sorted []"
  have fold: "sorted_wrt apart ?merged" and cover: "\<And>n. list_ex (in_range n) ?merged = list_ex (in_range n) ranges"
    using merge_fold [of ?sorted "[]"] assms(1) by (auto simp: list_ex_iff)
  have sep: "r = q \<or> apart r q \<or> apart q r" if "r \<in> set ?merged" "q \<in> set ?merged" for r q
    using sorted_pair [OF fold that] .
  show ?thesis
  proof
    assume "list_ex (\<lambda>r. range_min r \<le> a \<and> t \<le> range_max r) (merge_ranges ranges)"
    then obtain r where "r \<in> set ?merged" "range_min r \<le> a" "t \<le> range_max r"
      by (auto simp: merge_ranges_def list_ex_iff)
    then have "a \<le> n \<and> n \<le> t \<Longrightarrow> list_ex (in_range n) ?merged" for n
      by (auto simp: list_ex_iff in_range_def intro!: bexI [of _ r])
    then show "\<forall>n. a \<le> n \<and> n \<le> t \<longrightarrow> list_ex (in_range n) ranges" using cover by blast
  next
    assume all: "\<forall>n. a \<le> n \<and> n \<le> t \<longrightarrow> list_ex (in_range n) ranges"
    then obtain r where r: "r \<in> set ?merged" "in_range a r"
      using cover [of a] assms(2) by (auto simp: list_ex_iff)
    have "t \<le> range_max r"
    proof (rule ccontr)
      assume less: "\<not> t \<le> range_max r"
      then have "a \<le> range_max r + 1 \<and> range_max r + 1 \<le> t" using r(2) by (simp add: in_range_def)
      then obtain q where q: "q \<in> set ?merged" "in_range (range_max r + 1) q"
      proof -
        have "list_ex (in_range (range_max r + 1)) ranges" using all \<open>a \<le> range_max r + 1 \<and> _\<close> by blast
        then have "list_ex (in_range (range_max r + 1)) ?merged" using cover by blast
        then show thesis using that by (auto simp: list_ex_iff)
      qed
      then show False using sep [OF r(1) q(1)] r(2) by (auto simp: in_range_def apart_def)
    qed
    then show "list_ex (\<lambda>r. range_min r \<le> a \<and> t \<le> range_max r) (merge_ranges ranges)"
      using r by (auto simp: merge_ranges_def list_ex_iff in_range_def)
  qed
qed

lemma parse_range_Inr: "parse_range s = Inr r \<Longrightarrow> range_min r \<le> range_max r"
  by (auto simp: parse_range_def Let_def res_simps split: if_splits)

section \<open>Normalized ledgers\<close>

text \<open>What every other part of the indexer relies on: hashes, ranges, positions and distinct hashes.\<close>

definition ledger_ok :: "validated_ledger \<Rightarrow> bool" where
  "ledger_ok l \<longleftrightarrow>
     hash64 (vl_hash l) \<and> hash64 (vl_parent l) \<and> hash64 (vl_account_root l) \<and> hash64 (vl_transaction_root l) \<and>
     uint32_range (vl_index l) \<and> uint32_range (vl_close_time l) \<and> uint32_range (vl_parent_close_time l) \<and>
     ordered_from 0 (vl_transactions l) \<and> distinct (map lt_hash (vl_transactions l)) \<and>
     list_all (\<lambda>t. hash64 (lt_hash t)) (vl_transactions l)"

lemma check_transactions_Inr:
  "check_transactions p hashes ts = Inr u \<Longrightarrow>
     ordered_from p ts \<and> distinct (map lt_hash ts) \<and> set hashes \<inter> lt_hash ` set ts = {}"
  by (induction p hashes ts rule: check_transactions.induct) (auto simp: res_simps split: if_splits)

lemma matching_hash_Inr: "matching_hash vs = Inr h \<Longrightarrow> hash64 h"
  by (cases "filter (\<lambda>v. v \<noteq> JUndef) vs")
    (auto simp: matching_hash_def res_simps response_Inr split: if_splits)

lemma normalize_transaction_Inr: "normalize_transaction v = Inr t \<Longrightarrow> hash64 (lt_hash t)"
  by (auto simp: normalize_transaction_def res_simps matching_hash_Inr)

lemma agree_Inr: "agree first second = Inr a \<Longrightarrow> first = Inr a"
  by (auto simp: agree_def res_simps)

lemma normalized_hashes: "traverse normalize_transaction raw = Inr ts \<Longrightarrow> t \<in> set ts \<Longrightarrow> hash64 (lt_hash t)"
  by (auto simp: traverse_eq_Inr list_all2_conv_all_nth in_set_conv_nth dest!: normalize_transaction_Inr)

lemma response_uint_range: "response_uint v = Inr n \<Longrightarrow> uint32_range n"
  using response_Inr(2) by (simp add: uint32_range_def uint32_max_def)

lemma normalize_ledger_response_Inr:
  assumes "normalize_ledger_response v = Inr l"
  shows "ledger_ok l"
  using assms unfolding normalize_ledger_response_def Let_def ledger_ok_def
  by (auto simp: res_simps list_all_iff
      dest!: agree_Inr response_Inr(3) response_uint_range check_transactions_Inr dest: normalized_hashes)

lemma source_ledger_Inr:
  "source_ledger server index h = Some (Inr l, h') \<Longrightarrow> ledger_ok l \<and> vl_index l = index"
  by (auto simp: source_ledger_def io_defs request_def split: sum.splits option.splits if_splits
      dest: normalize_ledger_response_Inr)

section \<open>Requests of a source\<close>

text \<open>The number of requests an operation makes.\<close>

named_theorems request_rules \<open>bounds on the number of requests\<close>

definition at_most :: "nat \<Rightarrow> 'a source \<Rightarrow> bool" where
  "at_most n m \<longleftrightarrow> (\<forall>h r h'. m h = Some (r, h') \<longrightarrow> length h' \<le> length h + n)"

lemma at_most_basic [request_rules]:
  "at_most 0 (io_return x)" "at_most 0 (io_lift v)" "at_most 1 (request server r)"
  by (simp_all add: at_most_def io_defs request_def)

lemma at_most_mono: "at_most n m \<Longrightarrow> n \<le> k \<Longrightarrow> at_most k m"
  by (fastforce simp: at_most_def)

lemma at_most_bind [request_rules]:
  assumes "at_most n m" and "\<And>x. at_most k (f x)"
  shows "at_most (n + k) (io_bind m f)"
  unfolding at_most_def
proof (intro allI impI)
  fix h r h' assume run: "io_bind m f h = Some (r, h')"
  then obtain r1 h1 where m: "m h = Some (r1, h1)" by (auto simp: io_bind_def split: option.splits)
  show "length h' \<le> length h + (n + k)"
  proof (cases r1)
    case (Inl e)
    then show ?thesis using run m assms(1) by (fastforce simp: io_bind_def at_most_def)
  next
    case (Inr x)
    then have "length h' \<le> length h1 + k" "length h1 \<le> length h + n"
      using run m assms unfolding at_most_def by (auto simp: io_bind_def)
    then show ?thesis by simp
  qed
qed

lemma at_most_catch:
  assumes "at_most n m" and "\<And>e. at_most 0 (h e)"
  shows "at_most n (io_catch m h)"
  using assms unfolding at_most_def io_catch_def
  by (auto split: option.splits sum.splits) (metis add.right_neutral le_trans)

lemma at_most_if: "at_most n m \<Longrightarrow> at_most n k \<Longrightarrow> at_most n (if c then m else k)"
  by simp

lemma at_most_zero: "at_most 0 (io_lift v)" "at_most n (io_lift v)" "at_most n (io_return x)"
  by (auto intro: at_most_mono request_rules)

lemma account_pages_at_most: "at_most n (account_pages server profile n markers marker objects)"
proof (induction n arbitrary: markers marker objects)
  case 0
  then show ?case by (simp add: at_most_zero)
next
  case (Suc n)
  have "at_most (1 + (0 + n)) (account_pages server profile (Suc n) markers marker objects)"
    unfolding account_pages.simps
    by (intro at_most_bind request_rules) (auto simp: at_most_zero Suc split: prod.splits)
  then show ?case by simp
qed

lemma account_pages_total: "io_total (account_pages server profile n markers marker objects)"
proof (induction n arbitrary: markers marker objects)
  case (Suc n)
  have next_page: "io_total (case page of (objs, next) \<Rightarrow>
      if next = JUndef then io_return (objects @ objs)
      else if next \<in> set markers then io_lift response_invalid
      else account_pages server profile n (next # markers) next (objects @ objs))" for page
    by (cases page) (simp add: io_total_basic Suc)
  show ?case unfolding account_pages.simps request_def
    by (intro io_rules) (rule next_page)
qed (simp add: io_total_basic)

lemma source_operations_at_most:
  "at_most 1 (source_assert_amendment server amendment)" "at_most 1 (source_ledger server index)"
  "at_most 1000 (get_all_account_objects server profile)"
proof -
  have "at_most (1 + 0) (source_assert_amendment server amendment)"
    unfolding source_assert_amendment_def by (intro request_rules)
  then show "at_most 1 (source_assert_amendment server amendment)" by simp
  have "at_most (1 + (0 + 0)) (source_ledger server index)"
    unfolding source_ledger_def by (intro request_rules)
  then show "at_most 1 (source_ledger server index)" by simp
  show "at_most 1000 (get_all_account_objects server profile)"
    unfolding get_all_account_objects_def by (rule account_pages_at_most)
qed

lemma source_operations_total:
  "io_total (source_assert_amendment server amendment)" "io_total (source_ledger server index)"
  "io_total (get_all_account_objects server profile)" "io_total (source_validated_index server)"
  unfolding source_assert_amendment_def source_ledger_def get_all_account_objects_def request_def
    source_validated_index_def
  by (intro io_rules account_pages_total)+

lemma source_preflight_total: "io_total (source_preflight_of lib policy server profile)"
  unfolding source_preflight_of_def request_def
  by (intro io_rules source_operations_total)

lemma source_preflight_at_most: "at_most 1004 (source_preflight_of lib policy server profile)"
proof -
  have "at_most (1 + (0 + (0 + (1 + (1 + (1 + (1000 + (0 + 0)))))))) (source_preflight_of lib policy server profile)"
    unfolding source_preflight_of_def
    by (intro at_most_catch at_most_bind at_most_if at_most_basic at_most_zero source_operations_at_most)
  then show ?thesis by simp
qed

text \<open>A preflight that passes has seen the activation ledger and a registry under its policy.\<close>

lemma source_preflight_Inr:
  assumes "source_preflight_of lib policy server profile h = Some (Inr pf, h')"
  shows "pf_network_id pf = profile_network_id profile \<and> ledger_ok (pf_activation_ledger pf) \<and>
    vl_index (pf_activation_ledger pf) = activation_ledger_index profile \<and>
    vl_hash (pf_activation_ledger pf) = activation_ledger_hash profile \<and>
    activation_ledger_index profile \<le> tip_effective (pf_tips pf) \<and>
    (\<exists>account_info objects. assert_registry_policy lib policy account_info objects profile = Inr ())"
proof -
  let ?Q = "\<lambda>pf. pf_network_id pf = profile_network_id profile \<and> ledger_ok (pf_activation_ledger pf) \<and>
    vl_index (pf_activation_ledger pf) = activation_ledger_index profile \<and>
    vl_hash (pf_activation_ledger pf) = activation_ledger_hash profile \<and>
    activation_ledger_index profile \<le> tip_effective (pf_tips pf) \<and>
    (\<exists>account_info objects. assert_registry_policy lib policy account_info objects profile = Inr ())"
  have "io_gives (source_preflight_of lib policy server profile) ?Q"
    unfolding source_preflight_of_def
  proof (intro io_gives_catch io_gives_bind io_gives_throw, goal_cases)
    case (1 info status u v activation)
    have st: "assert_source_covers_profile status profile = Inr ()" using 1 by (simp add: io_result_lift)
    have led: "ledger_ok activation" "vl_index activation = activation_ledger_index profile"
      using 1(5) source_ledger_Inr by (auto simp: io_result_def)
    show ?case
    proof (cases "vl_hash activation \<noteq> activation_ledger_hash profile")
      case True
      then show ?thesis by (simp add: io_gives_throw)
    next
      case False
      show ?thesis
      proof (simp only: False if_False, intro io_gives_bind, goal_cases)
        case (1 account_info account_objects w)
        then have "assert_registry_policy lib policy account_info account_objects profile = Inr ()"
          by (simp add: io_result_lift)
        then show ?case
          using False st led
          by (auto intro!: io_gives_return simp: assert_source_covers_profile_def split: if_splits)
      qed
    qed
  qed
  then show ?thesis using assms unfolding io_gives_def by blast
qed

end
