(* ===== verification/Indexer_Worker.thy ===== *)
theory Indexer_Worker
  imports Indexer_Machine Indexer_Source
begin

text \<open>
  The worker (\<open>worker.ts\<close>), as \<open>main.ts\<close> composes it: over the quorum of two sources and the
  repository. Between two effects other processes may change the database and time passes; the
  environment answers by the number of effects so far, and says which calls the others make.
\<close>

section \<open>The world\<close>

datatype observer_event = Ledger_Processed int nat nat nat | Caught_Up int | Failed string

record worker_world =
  ww_db :: database
  ww_quorum :: "source_tips option"
  ww_effects :: nat
  ww_log :: "observer_event list"
  wk_lease :: "lease_token option"
  wk_tips :: "source_tips option"
  wk_agreed :: "(int \<times> jstr) option"
  wk_verified :: bool
  wk_completed :: bool

record worker_env =
  we_clock :: "nat \<Rightarrow> int"
  we_others :: "nat \<Rightarrow> (int \<times> int \<times> repository_call) list"
  we_connect :: "nat \<Rightarrow> (ierr + unit) \<times> (ierr + unit)"
  we_disconnect :: "nat \<Rightarrow> (ierr + unit) \<times> (ierr + unit)"
  we_preflight :: "nat \<Rightarrow> (ierr + source_preflight) \<times> (ierr + source_preflight)"
  we_tip :: "nat \<Rightarrow> (ierr + int) \<times> (ierr + int)"
  we_ledger :: "nat \<Rightarrow> int \<Rightarrow> (ierr + validated_ledger) \<times> (ierr + validated_ledger)"
  we_aborted :: "nat \<Rightarrow> bool"

type_synonym 'a work = "(ierr, worker_world, 'a) io"

text \<open>The calls of other processes; one that throws changes nothing.\<close>

definition run_others ::
  "'x core_lib_scheme \<Rightarrow> (int \<times> int \<times> repository_call) list \<Rightarrow> database \<Rightarrow> database" where
  "run_others lib =
     fold (\<lambda>(clock, later, call) db. case run_call lib clock later call db of Inl _ \<Rightarrow> db | Inr db' \<Rightarrow> db')"

text \<open>A call of the repository and a question to the quorum.\<close>

definition repo :: "'x core_lib_scheme \<Rightarrow> worker_env \<Rightarrow> (int \<Rightarrow> int \<Rightarrow> database \<Rightarrow> ierr + 'a \<times> database) \<Rightarrow> 'a work" where
  "repo lib env op = (\<lambda>w.
     let k = ww_effects w;
         db = run_others lib (we_others env k) (ww_db w);
         w' = w\<lparr>ww_db := db, ww_effects := Suc k\<rparr>
     in case op (we_clock env k) (we_clock env (Suc k)) db of
          Inl e \<Rightarrow> Some (Inl e, w')
        | Inr (x, db') \<Rightarrow> Some (Inr x, w'\<lparr>ww_db := db'\<rparr>))"

definition ask ::
  "(nat \<Rightarrow> source_tips option \<Rightarrow> ierr + 'a \<times> source_tips option) \<Rightarrow> 'a work" where
  "ask f = (\<lambda>w.
     let w' = w\<lparr>ww_effects := Suc (ww_effects w)\<rparr>
     in case f (ww_effects w) (ww_quorum w) of
          Inl e \<Rightarrow> Some (Inl e, w')
        | Inr (x, q) \<Rightarrow> Some (Inr x, w'\<lparr>ww_quorum := q\<rparr>))"

definition observe :: "observer_event \<Rightarrow> unit work" where
  "observe ev = io_modify (\<lambda>w. w\<lparr>ww_log := ww_log w @ [ev]\<rparr>)"

definition reading :: "(database \<Rightarrow> 'a) \<Rightarrow> int \<Rightarrow> int \<Rightarrow> database \<Rightarrow> ierr + 'a \<times> database" where
  "reading f clock later db = Inr (f db, db)"

definition writing :: "(int \<Rightarrow> database \<Rightarrow> ierr + 'a \<times> database) \<Rightarrow> int \<Rightarrow> int \<Rightarrow> database \<Rightarrow> ierr + unit \<times> database" where
  "writing f clock later db = rbind (f clock db) (\<lambda>(_, db'). Inr ((), db'))"

definition ask_connect :: "worker_env \<Rightarrow> unit work" where
  "ask_connect env = ask (\<lambda>k q. rbind (quorum_connect (fst (we_connect env k)) (snd (we_connect env k))) (\<lambda>_. Inr ((), q)))"

definition ask_disconnect :: "worker_env \<Rightarrow> unit work" where
  "ask_disconnect env =
     ask (\<lambda>k q. rbind (quorum_disconnect (fst (we_disconnect env k)) (snd (we_disconnect env k))) (\<lambda>_. Inr ((), q)))"

definition ask_preflight :: "worker_env \<Rightarrow> network_profile \<Rightarrow> quorum_preflight work" where
  "ask_preflight env profile =
     ask (\<lambda>k q. quorum_preflight_of profile q (fst (we_preflight env k)) (snd (we_preflight env k)))"

definition ask_tips :: "worker_env \<Rightarrow> source_tips work" where
  "ask_tips env = ask (\<lambda>k q. quorum_tips q (fst (we_tip env k)) (snd (we_tip env k)))"

definition ask_ledger :: "worker_env \<Rightarrow> int \<Rightarrow> validated_ledger work" where
  "ask_ledger env index =
     ask (\<lambda>k q. rbind (quorum_ledger (fst (we_ledger env k index)) (snd (we_ledger env k index))) (\<lambda>l. Inr (l, q)))"

section \<open>Options\<close>

record worker_options =
  wo_profile :: network_profile
  wo_scope :: database_scope
  wo_poll_interval_ms :: int
  wo_lease_duration_ms :: int
  wo_batch_size :: int
  wo_writer_id :: jstr
  wo_replay :: "replay_target option"

text \<open>The constructor; absent options have been replaced by their defaults.\<close>

definition new_worker :: "worker_options \<Rightarrow> ierr + worker_options" where
  "new_worker options =
     rbind (case wo_replay options of
              None \<Rightarrow> Inr None
            | Some t \<Rightarrow> rbind (create_replay_target (jint (rt_index t)) (JStr (rt_hash t))) (\<lambda>t. Inr (Some t)))
       (\<lambda>replay.
     if wo_poll_interval_ms options < 250 then Inl Plain_Error
     else if wo_lease_duration_ms options < 10000 \<or> wo_lease_duration_ms options > 300000 then Inl Plain_Error
     else if wo_lease_duration_ms options < wo_poll_interval_ms options * 3 then Inl Plain_Error
     else if wo_batch_size options < 1 \<or> wo_batch_size options > 100 then Inl Plain_Error
     else if \<not> writer_id_pattern (wo_writer_id options) then Inl Plain_Error
     else if (case replay of None \<Rightarrow> False | Some t \<Rightarrow> rt_index t < activation_ledger_index (wo_profile options))
     then coded_failure ''REPLAY_TARGET_UNAVAILABLE''
     else Inr (options\<lparr>wo_replay := replay\<rparr>))"

section \<open>Status\<close>

definition status_for_ledger :: "validated_ledger \<Rightarrow> source_tips \<Rightarrow> status_input" where
  "status_for_ledger ledger tips =
     \<lparr>in_primary = Some (tip_primary tips), in_secondary = Some (tip_secondary tips),
      in_agreed_index = Some (vl_index ledger), in_agreed_hash = Some (vl_hash ledger)\<rparr>"

definition runtime_status :: "worker_world \<Rightarrow> status_input" where
  "runtime_status w =
     \<lparr>in_primary = map_option tip_primary (wk_tips w), in_secondary = map_option tip_secondary (wk_tips w),
      in_agreed_index = map_option fst (wk_agreed w), in_agreed_hash = map_option snd (wk_agreed w)\<rparr>"

definition persist_runtime_status :: "'x core_lib_scheme \<Rightarrow> worker_env \<Rightarrow> lease_token \<Rightarrow> status_state \<Rightarrow> unit work" where
  "persist_runtime_status lib env token state =
     io_bind (io_read runtime_status) (\<lambda>input.
     repo lib env (writing (\<lambda>clock. update_indexer_status clock token state input None)))"

definition renew :: "'x core_lib_scheme \<Rightarrow> worker_env \<Rightarrow> worker_options \<Rightarrow> lease_token \<Rightarrow> unit work" where
  "renew lib env options token =
     repo lib env (writing (\<lambda>clock. renew_indexer_lease clock token (wo_lease_duration_ms options) None))"

definition set_agreed :: "int \<Rightarrow> jstr \<Rightarrow> unit work" where
  "set_agreed index hash = io_modify (\<lambda>w. w\<lparr>wk_agreed := Some (index, hash)\<rparr>)"

section \<open>One run\<close>

definition catalog_of_entries :: "catalog_entry list \<Rightarrow> catalog" where
  "catalog_of_entries entries = fold (\<lambda>e cat. cat(ct_uid e \<mapsto> e)) entries Map.empty"

definition ledger_state :: "worker_options \<Rightarrow> validated_ledger \<Rightarrow> source_tips \<Rightarrow> status_state" where
  "ledger_state options ledger tips =
     (if wo_replay options = None \<and> vl_index ledger = tip_effective tips then Ready else Catching_Up)"

text \<open>
  The loop over the ledgers of a batch: \<open>n\<close> is the number of ledgers left, known when it starts. It
  returns the next ledger index, the last checkpoint and the number of ledgers inserted.
\<close>

fun process_ledgers ::
  "'x core_lib_scheme \<Rightarrow> worker_env \<Rightarrow> worker_options \<Rightarrow> lease_token \<Rightarrow> source_tips \<Rightarrow> nat \<Rightarrow>
    int \<Rightarrow> checkpoint option \<Rightarrow> catalog \<Rightarrow> int \<Rightarrow> (int \<times> checkpoint option \<times> int) work" where
  "process_ledgers lib env options token tips 0 next previous cat processed =
     io_return (next, previous, processed)"
| "process_ledgers lib env options token tips (Suc n) next previous cat processed =
     io_bind (renew lib env options token) (\<lambda>_.
     io_bind (ask_ledger env next) (\<lambda>ledger.
     io_bind (io_lift (assert_ledger_continuity (wo_profile options) previous ledger)) (\<lambda>_.
     io_bind (io_lift (project_ledger lib ledger (wo_profile options) cat)) (\<lambda>projection.
     io_bind (repo lib env (\<lambda>clock later. persist_ledger lib clock later (wo_profile options) projection token
         (ledger_state options ledger tips) (status_for_ledger ledger tips))) (\<lambda>result.
     io_bind (set_agreed (vl_index ledger) (vl_hash ledger)) (\<lambda>_.
     io_bind (if result = Inserted
         then observe (Ledger_Processed (vl_index ledger) (length (lp_registrations projection))
           (length (lp_mutations projection)) (lp_malformed projection))
         else io_return ()) (\<lambda>_.
     process_ledgers lib env options token tips n (next + 1) (Some (checkpoint_from_ledger ledger))
       (add_registrations (wo_profile options) (vl_index ledger) (lp_registrations projection) cat)
       (if result = Inserted then processed + 1 else processed))))))))"

definition processing_limit :: "worker_options \<Rightarrow> source_tips \<Rightarrow> int" where
  "processing_limit options tips = (case wo_replay options of None \<Rightarrow> tip_effective tips | Some t \<Rightarrow> rt_index t)"

definition run_once :: "'x core_lib_scheme \<Rightarrow> worker_env \<Rightarrow> worker_options \<Rightarrow> lease_token \<Rightarrow> int work" where
  "run_once lib env options token =
     io_bind (io_read wk_verified) (\<lambda>verified.
     if wo_replay options \<noteq> None \<and> \<not> verified then io_lift (coded_failure ''REPLAY_TARGET_UNAVAILABLE'')
     else
       io_bind (renew lib env options token) (\<lambda>_.
       io_bind (repo lib env (reading (\<lambda>db. get_last_checkpoint db (profile_id (wo_profile options))))) (\<lambda>previous.
       io_bind (case previous of
            None \<Rightarrow> io_return ()
          | Some cp \<Rightarrow> io_bind (io_lift (assert_checkpoint_has_evidence cp)) (\<lambda>_. set_agreed (cp_index cp) (cp_hash cp))) (\<lambda>_.
       io_bind (repo lib env (reading (\<lambda>db. get_schema_catalog db (profile_id (wo_profile options))))) (\<lambda>entries.
       io_bind (ask_tips env) (\<lambda>tips.
       io_bind (io_modify (\<lambda>w. w\<lparr>wk_tips := Some tips\<rparr>)) (\<lambda>_.
       let limit = processing_limit options tips;
           next = (case previous of None \<Rightarrow> activation_ledger_index (wo_profile options) | Some cp \<Rightarrow> cp_index cp + 1)
       in
       if wo_replay options \<noteq> None \<and> limit > tip_effective tips
       then io_lift (coded_failure ''REPLAY_TARGET_UNAVAILABLE'')
       else
         io_bind (renew lib env options token) (\<lambda>_.
         io_bind (if previous = None \<or> next > tip_effective tips
             then persist_runtime_status lib env token
               (if wo_replay options = None \<and> previous \<noteq> None \<and> next > tip_effective tips then Ready else Catching_Up)
             else io_return ()) (\<lambda>_.
         io_bind (process_ledgers lib env options token tips
             (nat (min limit (next + wo_batch_size options - 1) - next + 1)) next previous
             (catalog_of_entries entries) 0) (\<lambda>(next, previous, processed).
         io_bind (if next > limit
             then io_bind (io_modify (\<lambda>w. if wo_replay options \<noteq> None then w\<lparr>wk_completed := True\<rparr> else w)) (\<lambda>_.
               observe (Caught_Up (case previous of None \<Rightarrow> limit | Some cp \<Rightarrow> cp_index cp)))
             else io_return ()) (\<lambda>_.
         io_return processed)))))))))))"

section \<open>Start\<close>

partial_function (option) poll_ledgers ::
  "'x core_lib_scheme \<Rightarrow> worker_env \<Rightarrow> worker_options \<Rightarrow> lease_token \<Rightarrow> worker_world \<Rightarrow>
    ((ierr + unit) \<times> worker_world) option" where
  "poll_ledgers lib env options token w =
     (if we_aborted env (ww_effects w) then Some (Inr (), w)
      else case run_once lib env options token w of
        None \<Rightarrow> None
      | Some (Inl e, w') \<Rightarrow> Some (Inl e, w')
      | Some (Inr _, w') \<Rightarrow>
          if wk_completed w' then Some (Inr (), w')
          else poll_ledgers lib env options token (w'\<lparr>ww_effects := Suc (ww_effects w')\<rparr>))"

text \<open>The ledger of the replay target, confirmed by the quorum.\<close>

definition verify_replay_target ::
  "'x core_lib_scheme \<Rightarrow> worker_env \<Rightarrow> worker_options \<Rightarrow> lease_token \<Rightarrow> source_tips \<Rightarrow> validated_ledger option work" where
  "verify_replay_target lib env options token tips =
     (case wo_replay options of
        None \<Rightarrow> io_return None
      | Some target \<Rightarrow>
          if rt_index target > tip_effective tips then io_lift (coded_failure ''REPLAY_TARGET_UNAVAILABLE'')
          else
            io_bind (ask_ledger env (rt_index target)) (\<lambda>ledger.
            if vl_index ledger \<noteq> rt_index target \<or> vl_hash ledger \<noteq> rt_hash target
            then io_lift (coded_failure ''REPLAY_TARGET_MISMATCH'')
            else
              io_bind (io_modify (\<lambda>w. w\<lparr>wk_verified := True\<rparr>)) (\<lambda>_.
              io_bind (renew lib env options token) (\<lambda>_. io_return (Some ledger)))))"

definition verify_checkpoint ::
  "worker_env \<Rightarrow> worker_options \<Rightarrow> source_tips \<Rightarrow> validated_ledger option \<Rightarrow> checkpoint option \<Rightarrow> unit work" where
  "verify_checkpoint env options tips replay_ledger stored =
     (case stored of
        None \<Rightarrow> io_return ()
      | Some cp \<Rightarrow>
          io_bind (io_lift (assert_checkpoint_has_evidence cp)) (\<lambda>_.
          if (case wo_replay options of None \<Rightarrow> False | Some t \<Rightarrow> cp_index cp > rt_index t)
          then io_lift (coded_failure ''REPLAY_TARGET_EXCEEDED'')
          else if cp_index cp > tip_effective tips then io_lift (source_failure ''SOURCE_TIP_REGRESSION'')
          else
            io_bind (case replay_ledger of
                None \<Rightarrow> ask_ledger env (cp_index cp)
              | Some l \<Rightarrow> if cp_index cp = vl_index l then io_return l else ask_ledger env (cp_index cp)) (\<lambda>agreed.
            io_bind (io_lift (assert_checkpoint_matches_ledger cp agreed)) (\<lambda>_.
            set_agreed (cp_index cp) (cp_hash cp)))))"

definition start_body :: "'x core_lib_scheme \<Rightarrow> worker_env \<Rightarrow> worker_options \<Rightarrow> unit work" where
  "start_body lib env options =
     io_bind (repo lib env (\<lambda>clock later db.
       rbind (initialize_profile (wo_scope options) (wo_profile options) db) (\<lambda>db. Inr ((), db)))) (\<lambda>_.
     io_bind (repo lib env (\<lambda>clock later. acquire_indexer_lease clock (profile_id (wo_profile options))
         (wo_writer_id options) (wo_lease_duration_ms options) None)) (\<lambda>acquired.
     let token = lease_token.truncate acquired in
     io_bind (io_modify (\<lambda>w. w\<lparr>wk_lease := Some token\<rparr>)) (\<lambda>_.
     io_bind (ask_connect env) (\<lambda>_.
     io_bind (renew lib env options token) (\<lambda>_.
     io_bind (ask_preflight env (wo_profile options)) (\<lambda>pf.
     io_bind (io_modify (\<lambda>w. w\<lparr>wk_tips := Some (pf_tips pf)\<rparr>)) (\<lambda>_.
     io_bind (renew lib env options token) (\<lambda>_.
     io_bind (verify_replay_target lib env options token (pf_tips pf)) (\<lambda>replay_ledger.
     io_bind (repo lib env (reading (\<lambda>db. get_last_checkpoint db (profile_id (wo_profile options))))) (\<lambda>stored.
     io_bind (verify_checkpoint env options (pf_tips pf) replay_ledger stored) (\<lambda>_.
     io_bind (renew lib env options token) (\<lambda>_.
     io_bind (persist_runtime_status lib env token Catching_Up) (\<lambda>_.
     poll_ledgers lib env options token)))))))))))))"

text \<open>The \<open>catch\<close> block: with a lease, try to halt; whether that succeeded.\<close>

definition try_halt :: "'x core_lib_scheme \<Rightarrow> worker_env \<Rightarrow> lease_token option \<Rightarrow> (ierr + unit) \<Rightarrow> bool work" where
  "try_halt lib env lease outcome =
     (case (lease, outcome) of
        (Some token, Inl e) \<Rightarrow>
          io_bind (io_read runtime_status) (\<lambda>input.
          io_bind (io_settle (repo lib env (writing (\<lambda>clock.
            halt_indexer clock token input (lit (source_error_code e)) None)))) (\<lambda>r. io_return (is_ok r)))
      | _ \<Rightarrow> io_return False)"

definition try_release :: "'x core_lib_scheme \<Rightarrow> worker_env \<Rightarrow> lease_token option \<Rightarrow> bool \<Rightarrow> (ierr + unit) work" where
  "try_release lib env lease halted =
     (case lease of
        Some token \<Rightarrow>
          if halted then io_return (Inr ())
          else io_settle (repo lib env (writing (\<lambda>clock. release_indexer_lease clock token None)))
      | None \<Rightarrow> io_return (Inr ()))"

definition first_failure :: "(ierr + unit) list \<Rightarrow> ierr + unit" where
  "first_failure rs = each (\<lambda>r. r) rs"

definition start :: "'x core_lib_scheme \<Rightarrow> worker_env \<Rightarrow> worker_options \<Rightarrow> unit work" where
  "start lib env options =
     io_bind (io_read wk_lease) (\<lambda>active.
     if active \<noteq> None then io_lift (Inl Plain_Error)
     else
       io_bind (io_settle (start_body lib env options)) (\<lambda>outcome.
       io_bind (io_read wk_lease) (\<lambda>lease.
       io_bind (try_halt lib env lease outcome) (\<lambda>halted.
       io_bind (io_settle (ask_disconnect env)) (\<lambda>disconnected.
       io_bind (try_release lib env lease halted) (\<lambda>released.
       io_bind (io_modify (\<lambda>w. w\<lparr>wk_lease := None\<rparr>)) (\<lambda>_.
       case first_failure [outcome, disconnected, released] of
         Inr _ \<Rightarrow> io_return ()
       | Inl e \<Rightarrow> io_bind (observe (Failed (source_error_code e))) (\<lambda>_. io_lift (Inl e)))))))))"

end
