(* ===== verification/Indexer_Runs.thy ===== *)
theory Indexer_Runs
  imports Indexer_Worker
begin

text \<open>
  What a run of the worker does to the database, for any relation that the calls of the repository
  respect: it changes the database by calls of the repository only, and the ledgers it persists are
  those the quorum has confirmed. A run is bounded by its batch and returns.
\<close>

section \<open>What a worker does to the database\<close>

text \<open>
  A reflexive and transitive relation between databases that holds over every call of another process
  and every call of the worker; of the ledgers it persists the worker knows that they come from the
  quorum.
\<close>

locale worker_relation =
  fixes lib :: "'x core_lib_scheme" and env :: worker_env and R :: "database \<Rightarrow> database \<Rightarrow> bool"
  assumes R_refl: "R db db"
    and R_trans: "R a b \<Longrightarrow> R b c \<Longrightarrow> R a c"
    and R_others: "R db (run_others lib (we_others env k) db)"
    and R_call: "run_call lib clock later call db = Inr db' \<Longrightarrow>
      (case call of Persist _ _ _ _ _ \<Rightarrow> False | _ \<Rightarrow> True) \<Longrightarrow> R db db'"
    and R_persist: "quorum_ledger (fst (we_ledger env k i)) (snd (we_ledger env k i)) = Inr (lp_ledger projection) \<Longrightarrow>
      persist_ledger lib clock later profile projection token state input db = Inr (result, db') \<Longrightarrow> R db db'"
begin

definition within :: "'a work \<Rightarrow> bool" where
  "within m \<longleftrightarrow> (\<forall>w r w'. m w = Some (r, w') \<longrightarrow> R (ww_db w) (ww_db w'))"

lemma within_basic:
  "within (io_return x)" "within (io_lift v)" "within (io_read f)" "within (observe ev)" "within (set_agreed i h)"
  by (simp_all add: within_def io_defs io_modify_def observe_def set_agreed_def R_refl)

lemma within_modify: "(\<And>w. ww_db (f w) = ww_db w) \<Longrightarrow> within (io_modify f)"
  by (simp add: within_def io_modify_def R_refl)

lemma within_bind_result:
  assumes "within m" and "\<And>x. io_result m x \<Longrightarrow> within (f x)"
  shows "within (io_bind m f)"
  unfolding within_def
proof (intro allI impI)
  fix w r w' assume run: "io_bind m f w = Some (r, w')"
  then obtain r1 w1 where m: "m w = Some (r1, w1)" by (auto simp: io_bind_def split: option.splits)
  then have step: "R (ww_db w) (ww_db w1)" using assms(1) by (simp add: within_def)
  show "R (ww_db w) (ww_db w')"
  proof (cases r1)
    case (Inl e)
    then show ?thesis using run m step by (simp add: io_bind_def)
  next
    case (Inr x)
    then have "within (f x)" using assms(2) m by (auto simp: io_result_def)
    then have "R (ww_db w1) (ww_db w')" using run m Inr by (simp add: io_bind_def within_def)
    then show ?thesis using step R_trans by blast
  qed
qed

lemma within_bind: "within m \<Longrightarrow> (\<And>x. within (f x)) \<Longrightarrow> within (io_bind m f)"
  by (rule within_bind_result)

lemma within_settle: "within m \<Longrightarrow> within (io_settle m)"
  by (fastforce simp: within_def io_settle_def split: option.splits)

lemma within_if: "within m \<Longrightarrow> within n \<Longrightarrow> within (if c then m else n)"
  by simp

lemma within_option: "within n \<Longrightarrow> (\<And>x. within (f x)) \<Longrightarrow> within (case v of None \<Rightarrow> n | Some x \<Rightarrow> f x)"
  by (cases v) simp_all

lemma within_prod: "(\<And>a b. within (f a b)) \<Longrightarrow> within (case v of (a, b) \<Rightarrow> f a b)"
  by (cases v) simp

lemma within_ask: "within (ask f)"
  by (auto simp: within_def ask_def Let_def R_refl split: sum.splits)

lemmas within_rules = within_basic within_bind within_settle within_if within_option within_prod within_ask

lemma within_repo:
  assumes "\<And>clock later db x db'. op clock later db = Inr (x, db') \<Longrightarrow> R db db'"
  shows "within (repo lib env op)"
  unfolding within_def
proof (intro allI impI)
  fix w r w' assume run: "repo lib env op w = Some (r, w')"
  let ?db = "run_others lib (we_others env (ww_effects w)) (ww_db w)"
  have others: "R (ww_db w) ?db" by (rule R_others)
  show "R (ww_db w) (ww_db w')"
  proof (cases "op (we_clock env (ww_effects w)) (we_clock env (Suc (ww_effects w))) ?db")
    case (Inl e)
    then show ?thesis using run others by (auto simp: repo_def Let_def)
  next
    case (Inr p)
    obtain x db' where p: "p = (x, db')" by (cases p)
    then have "R ?db db'" using assms Inr by auto
    then have "R (ww_db w) db'" using others R_trans by blast
    then show ?thesis using run Inr p by (auto simp: repo_def Let_def)
  qed
qed

lemma within_calls:
  "within (repo lib env (reading f))"
  "within (repo lib env (writing (\<lambda>clock. update_indexer_status clock token state input None)))"
  "within (repo lib env (writing (\<lambda>clock. renew_indexer_lease clock token d None)))"
  "within (repo lib env (writing (\<lambda>clock. release_indexer_lease clock token None)))"
  "within (repo lib env (writing (\<lambda>clock. halt_indexer clock token halt_input code None)))"
  "within (repo lib env (\<lambda>clock later db. rbind (initialize_profile scope profile db) (\<lambda>db. Inr ((), db))))"
  "within (repo lib env (\<lambda>clock later. acquire_indexer_lease clock profile_name writer d None))"
  by (rule within_repo; fastforce simp: reading_def writing_def res_simps intro: R_refl
      R_call [where call = "Update_Status token state input"] R_call [where call = "Renew token d"]
      R_call [where call = "Release token"] R_call [where call = "Halt token halt_input code"]
      R_call [where call = "Initialize scope profile"] R_call [where call = "Acquire profile_name writer d"])+

lemma within_status:
  "within (renew lib env options token)" "within (persist_runtime_status lib env token state)"
  unfolding renew_def persist_runtime_status_def by (intro within_rules within_calls)+

lemma ask_ledger_result:
  "io_result (ask_ledger env i) ledger \<Longrightarrow>
     \<exists>k. quorum_ledger (fst (we_ledger env k i)) (snd (we_ledger env k i)) = Inr ledger"
proof -
  assume "io_result (ask_ledger env i) ledger"
  then obtain w w' where run: "ask_ledger env i w = Some (Inr ledger, w')" by (auto simp: io_result_def)
  show ?thesis
  proof (cases "quorum_ledger (fst (we_ledger env (ww_effects w) i)) (snd (we_ledger env (ww_effects w) i))")
    case (Inl e)
    then show ?thesis using run by (simp add: ask_ledger_def ask_def Let_def)
  next
    case (Inr l)
    then show ?thesis using run by (auto simp: ask_ledger_def ask_def Let_def)
  qed
qed

lemma project_ledger_ledger: "project_ledger lib ledger profile cat = Inr p \<Longrightarrow> lp_ledger p = ledger"
  by (auto simp: project_ledger_def res_simps Let_def split: prod.splits)

lemma within_process: "within (process_ledgers lib env options token tips n next previous cat processed)"
proof (induction n arbitrary: "next" previous cat processed)
  case (Suc n)
  have ask: "within (ask_ledger env i)" for i unfolding ask_ledger_def by (rule within_ask)
  show ?case unfolding process_ledgers.simps
  proof (intro within_bind_result within_rules within_status ask Suc)
    fix u ledger v projection
    assume "io_result (ask_ledger env next) ledger"
      and p: "io_result (io_lift (project_ledger lib ledger (wo_profile options) cat)) projection"
    then obtain k where "quorum_ledger (fst (we_ledger env k next)) (snd (we_ledger env k next)) = Inr ledger"
      using ask_ledger_result by blast
    moreover have "lp_ledger projection = ledger"
      using p project_ledger_ledger by (simp add: io_result_lift)
    ultimately show "within (repo lib env (\<lambda>clock later. persist_ledger lib clock later (wo_profile options) projection token
         (ledger_state options ledger tips) (status_for_ledger ledger tips)))"
      by (intro within_repo) (rule R_persist, auto)
  qed
qed (simp add: within_basic)

lemma within_run_once: "within (run_once lib env options token)"
  unfolding run_once_def Let_def ask_tips_def
  by (intro within_rules within_calls within_status within_modify within_process) auto

lemma within_poll: "poll_ledgers lib env options token w = Some (r, w') \<Longrightarrow> R (ww_db w) (ww_db w')"
proof -
  have "lib' = lib \<Longrightarrow> env' = env \<Longrightarrow> R (ww_db w) (ww_db (snd p))"
    if "poll_ledgers lib' env' options token w = Some p" for lib' :: "'x core_lib_scheme" and env' p w
    using that
  proof (induction rule: poll_ledgers.raw_induct [rotated 1, consumes 1])
    case (1 poll lib' env' options token w p)
    show ?case
    proof (cases "we_aborted env (ww_effects w)")
      case True
      then show ?thesis using 1(2-4) R_refl by auto
    next
      case False
      then obtain r1 w1 where run: "run_once lib env options token w = Some (r1, w1)"
        using 1(2-4) by (auto split: option.splits)
      have first: "R (ww_db w) (ww_db w1)"
        using within_run_once run by (simp add: within_def)
      show ?thesis
      proof (cases "is_ok r1 \<and> \<not> wk_completed w1")
        case True
        then have "poll lib' env' options token (w1\<lparr>ww_effects := Suc (ww_effects w1)\<rparr>) = Some p"
          using 1(2-4) False run by (cases r1) auto
        from 1(1) [OF this 1(3,4)] show ?thesis using first R_trans by simp
      next
        case False
        then show ?thesis using 1(2-4) \<open>\<not> we_aborted env (ww_effects w)\<close> run first
          by (cases r1) (auto split: if_splits)
      qed
    qed
  qed
  then show "poll_ledgers lib env options token w = Some (r, w') \<Longrightarrow> R (ww_db w) (ww_db w')" by fastforce
qed

lemma within_start: "within (start lib env options)"
proof -
  have poll: "within (poll_ledgers lib env options token)" for token
    using within_poll by (simp add: within_def)
  have body: "within (start_body lib env options)"
    unfolding start_body_def Let_def ask_connect_def ask_preflight_def verify_replay_target_def verify_checkpoint_def ask_ledger_def
    by (intro within_rules within_calls within_status within_modify poll) auto
  have halt: "within (try_halt lib env lease outcome)" for lease outcome
    unfolding try_halt_def by (cases lease; cases outcome) (auto intro!: within_rules within_calls)
  have release: "within (try_release lib env lease halted)" for lease halted
    unfolding try_release_def by (cases lease) (auto intro!: within_rules within_calls)
  have final: "within (case v of Inr _ \<Rightarrow> io_return () | Inl e \<Rightarrow> io_bind (observe (Failed (source_error_code e))) (\<lambda>_. io_lift (Inl e)))"
    for v :: "ierr + unit"
    by (cases v) (auto intro!: within_rules)
  show ?thesis
    unfolding start_def ask_disconnect_def
    by (intro within_rules within_modify body halt release final) auto
qed

lemma start_related: "start lib env options w = Some (r, w') \<Longrightarrow> R (ww_db w) (ww_db w')"
  using within_start by (simp add: within_def)

end

section \<open>The worker drives the repository\<close>

lemma run_others_steps: "(repository_step lib)\<^sup>*\<^sup>* db (run_others lib calls db)"
proof (induction calls arbitrary: db)
  case (Cons c cs)
  obtain clock later call where c: "c = (clock, later, call)" by (cases c)
  have "repository_step lib db (case run_call lib clock later call db of Inl _ \<Rightarrow> db | Inr db' \<Rightarrow> db')"
    by (auto intro: repository_step.intros split: sum.splits)
  then show ?case
    using Cons [of "case run_call lib clock later call db of Inl _ \<Rightarrow> db | Inr db' \<Rightarrow> db'"]
    by (simp add: run_others_def c)
qed (simp add: run_others_def)

interpretation driven: worker_relation lib env "(repository_step lib)\<^sup>*\<^sup>*" for lib env
proof
  show "(repository_step lib)\<^sup>*\<^sup>* db (run_others lib (we_others env k) db)" for db k
    by (rule run_others_steps)
  show "(repository_step lib)\<^sup>*\<^sup>* db db'" if "run_call lib clock later call db = Inr db'" for clock later call db db'
    using call_returns [OF that] by blast
  show "(repository_step lib)\<^sup>*\<^sup>* db db'"
    if "persist_ledger lib clock later profile projection token state input db = Inr (result, db')"
    for clock later profile projection token state input db result db'
    using that call_returns [of lib clock later "Persist profile projection token state input" db db'] by auto
qed auto

section \<open>Evidence\<close>

text \<open>A checkpoint that is a ledger both sources returned.\<close>

definition evidenced :: "worker_env \<Rightarrow> checkpoint_row \<Rightarrow> bool" where
  "evidenced env c \<longleftrightarrow>
     (\<exists>k i ledger copy. we_ledger env k i = (Inr ledger, Inr copy) \<and> same_ledger ledger copy \<and>
        c = checkpoint_row_of (ck_profile c) ledger)"

definition all_evidenced :: "worker_env \<Rightarrow> database \<Rightarrow> bool" where
  "all_evidenced env db \<longleftrightarrow> list_all (evidenced env) (db_checkpoints db)"

text \<open>The other writers persist ledgers with such evidence as well.\<close>

definition others_evidenced :: "worker_env \<Rightarrow> bool" where
  "others_evidenced env \<longleftrightarrow>
     (\<forall>k. \<forall>(clock, later, call) \<in> set (we_others env k).
        (case call of
           Persist profile projection token state input \<Rightarrow> evidenced env (checkpoint_row_of (profile_id profile) (lp_ledger projection))
         | _ \<Rightarrow> True))"

lemma persist_checkpoints:
  assumes "database_ok db" and "persist_ledger lib clock later profile projection token state input db = Inr (result, db')"
  shows "set (db_checkpoints db') \<subseteq> insert (checkpoint_row_of (profile_id profile) (lp_ledger projection)) (set (db_checkpoints db))"
proof -
  obtain db1 db2 row where e: "ensure_network_profile profile db = Inr db1"
    and db2: "db2 = db1 \<or> persist_projection lib (profile_id profile) projection db1 = Inr db2"
    and u: "update_indexer_status later token state input None db2 = Inr (row, db')"
    using persist_ledger_Inr [OF assms(2)] by blast
  have ok1: "database_ok db1" using assms(1) e by (rule ensure_network_profile_ok)
  then have ok2: "database_ok db2" using db2 persist_projection_ok by blast
  obtain rows where "db1 = db\<lparr>db_profiles := rows\<rparr>" using ensure_network_profile_Inr [OF assms(1) e] by blast
  then have "db_checkpoints db1 = db_checkpoints db" by simp
  moreover have "set (db_checkpoints db2) \<subseteq> insert (checkpoint_row_of (profile_id profile) (lp_ledger projection)) (set (db_checkpoints db1))"
  proof (cases "db2 = db1")
    case False
    then show ?thesis using db2 persist_projection_Inr [of lib "profile_id profile" projection db1 db2]
      by (auto simp: projection_frame_def)
  qed auto
  moreover have "db_checkpoints db' = db_checkpoints db2"
    using update_refines [OF database_ok_statuses [OF ok2] u] only_statuses_checkpoints by blast
  ultimately show ?thesis by simp
qed

lemma call_checkpoints:
  assumes "database_ok db" and "run_call lib clock later call db = Inr db'"
    and "case call of Persist _ _ _ _ _ \<Rightarrow> False | _ \<Rightarrow> True"
  shows "db_checkpoints db' = db_checkpoints db"
proof -
  note st = database_ok_statuses [OF assms(1)]
  show ?thesis
  proof (cases call)
    case (Initialize scope profile)
    then have "ensure_network_profile profile db = Inr db'" using assms(2) initialize_Inr by simp
    then obtain rows where "db' = db\<lparr>db_profiles := rows\<rparr>" using ensure_network_profile_Inr [OF assms(1)] by blast
    then show ?thesis by simp
  next
    case (Acquire profile writer d)
    then show ?thesis using assms(2) acquire_refines [OF st] only_statuses_checkpoints by (fastforce simp: res_simps)
  next
    case (Renew token d)
    then show ?thesis using assms(2) renew_refines [OF st] only_statuses_checkpoints by (fastforce simp: res_simps)
  next
    case (Update_Status token state input)
    then show ?thesis using assms(2) update_refines [OF st] only_statuses_checkpoints by (fastforce simp: res_simps)
  next
    case (Release token)
    then show ?thesis using assms(2) release_refines [OF st] only_statuses_checkpoints by (fastforce simp: res_simps)
  next
    case (Halt token input code)
    then show ?thesis using assms(2) halt_refines [OF st] only_statuses_checkpoints by (fastforce simp: res_simps)
  next
    case (Persist profile projection token state input)
    then show ?thesis using assms(3) by simp
  qed
qed

definition evidence_kept :: "worker_env \<Rightarrow> database \<Rightarrow> database \<Rightarrow> bool" where
  "evidence_kept env db db' \<longleftrightarrow>
     (others_evidenced env \<and> repository_ok db \<and> all_evidenced env db \<longrightarrow> repository_ok db' \<and> all_evidenced env db')"

lemma persist_evidence:
  assumes "persist_ledger lib clock later profile projection token state input db = Inr (result, db')"
    and "evidenced env (checkpoint_row_of (profile_id profile) (lp_ledger projection))"
    and "repository_ok db" and "all_evidenced env db"
  shows "repository_ok db' \<and> all_evidenced env db'"
proof -
  have "run_call lib clock later (Persist profile projection token state input) db = Inr db'" using assms(1) by simp
  then have "repository_ok db'" using run_call_ok [OF assms(3)] by blast
  moreover have "all_evidenced env db'"
    using persist_checkpoints [OF _ assms(1)] assms(2-4) by (auto simp: repository_ok_def all_evidenced_def list_all_iff)
  ultimately show ?thesis by simp
qed

lemma call_evidence:
  assumes "run_call lib clock later call db = Inr db'"
    and "case call of Persist profile projection _ _ _ \<Rightarrow> evidenced env (checkpoint_row_of (profile_id profile) (lp_ledger projection)) | _ \<Rightarrow> True"
    and "repository_ok db" and "all_evidenced env db"
  shows "repository_ok db' \<and> all_evidenced env db'"
proof (cases "case call of Persist _ _ _ _ _ \<Rightarrow> False | _ \<Rightarrow> True")
  case True
  then have "db_checkpoints db' = db_checkpoints db"
    using call_checkpoints [OF _ assms(1)] assms(3) by (simp add: repository_ok_def)
  then show ?thesis using run_call_ok [OF assms(3,1)] assms(4) by (simp add: all_evidenced_def)
next
  case False
  then obtain profile projection token state input where call: "call = Persist profile projection token state input"
    by (cases call) auto
  then obtain result where "persist_ledger lib clock later profile projection token state input db = Inr (result, db')"
    using assms(1) by (auto simp: res_simps)
  then show ?thesis using assms(2-4) call by (intro persist_evidence) auto
qed

lemma run_others_evidence:
  assumes "\<forall>(clock, later, call) \<in> set calls. (case call of
      Persist profile projection token state input \<Rightarrow> evidenced env (checkpoint_row_of (profile_id profile) (lp_ledger projection))
    | _ \<Rightarrow> True)" and "repository_ok db" and "all_evidenced env db"
  shows "repository_ok (run_others lib calls db) \<and> all_evidenced env (run_others lib calls db)"
  using assms
proof (induction calls arbitrary: db)
  case (Cons c cs)
  obtain clock later call where c: "c = (clock, later, call)" by (cases c)
  let ?db = "case run_call lib clock later call db of Inl _ \<Rightarrow> db | Inr db' \<Rightarrow> db'"
  have "repository_ok ?db \<and> all_evidenced env ?db"
    using Cons(2-4) call_evidence [of lib clock later call db _ env] c by (auto split: sum.splits)
  then show ?case using Cons(1) [of ?db] Cons(2) by (simp add: run_others_def c)
qed (simp add: run_others_def)

interpretation evidence: worker_relation lib env "evidence_kept env" for lib env
proof
  show "evidence_kept env db (run_others lib (we_others env k) db)" for db k
    using run_others_evidence [of "we_others env k" env db lib]
    by (auto simp: evidence_kept_def others_evidenced_def)
  show "evidence_kept env db db'" if "run_call lib clock later call db = Inr db'"
    "case call of Persist _ _ _ _ _ \<Rightarrow> False | _ \<Rightarrow> True" for clock later call db db'
    using that call_evidence [OF that(1), of env] by (cases call) (auto simp: evidence_kept_def)
  show "evidence_kept env db db'"
    if q: "quorum_ledger (fst (we_ledger env k i)) (snd (we_ledger env k i)) = Inr (lp_ledger projection)"
      and run: "persist_ledger lib clock later profile projection token state input db = Inr (result, db')"
    for k i clock later profile projection token state input db result db'
  proof -
    obtain copy where "we_ledger env k i = (Inr (lp_ledger projection), Inr copy)" "same_ledger (lp_ledger projection) copy"
      using q unfolding quorum_ledger_Inr by (cases "we_ledger env k i") auto
    then have "evidenced env (checkpoint_row_of (profile_id profile) (lp_ledger projection))"
      unfolding evidenced_def by (intro exI [of _ k] exI [of _ i] exI [of _ "lp_ledger projection"] exI [of _ copy])
        (simp add: checkpoint_row_of_def)
    then show ?thesis using persist_evidence [OF run] by (auto simp: evidence_kept_def)
  qed
qed (auto simp: evidence_kept_def)

section \<open>Bounds of a run\<close>

lemma process_ledgers_gives:
  "io_gives (process_ledgers lib env options token tips n next previous cat processed)
     (\<lambda>(next', previous', processed'). next' = next + int n \<and> processed \<le> processed' \<and> processed' \<le> processed + int n)"
proof (induction n arbitrary: "next" previous cat processed)
  case 0
  then show ?case by (simp add: io_gives_return)
next
  case (Suc n)
  show ?case unfolding process_ledgers.simps
    by (intro io_gives_bind, rule io_gives_mono, rule Suc) (auto split: if_splits)
qed

lemma io_gives_if: "io_gives m Q \<Longrightarrow> io_gives n Q \<Longrightarrow> io_gives (if c then m else n) Q"
  by simp

lemma run_once_gives:
  assumes "1 \<le> wo_batch_size options"
  shows "io_gives (run_once lib env options token) (\<lambda>n. 0 \<le> n \<and> n \<le> wo_batch_size options)"
proof -
  have bound: "nat (min limit (next + wo_batch_size options - 1) - next + 1) \<le> nat (wo_batch_size options)" for limit "next" :: int
    by simp
  have final: "io_gives (case r of (next, previous, processed) \<Rightarrow>
      io_bind (m next previous) (\<lambda>_. io_return processed)) (\<lambda>n. 0 \<le> n \<and> n \<le> wo_batch_size options)"
    if "io_result (process_ledgers lib env options token tips k i p cat 0) r" "k \<le> nat (wo_batch_size options)"
    for r tips k i p cat and m :: "int \<Rightarrow> checkpoint option \<Rightarrow> unit work"
  proof -
    obtain a b c where r: "r = (a, b, c)" by (cases r)
    have "0 \<le> c \<and> c \<le> int k"
      using that(1) process_ledgers_gives [of lib env options token tips k i p cat 0]
      unfolding r io_result_def io_gives_def by fastforce
    then show ?thesis using that(2) assms r by (auto intro!: io_gives_bind io_gives_return)
  qed
  show ?thesis
    unfolding run_once_def Let_def
    by (intro io_gives_bind io_gives_if io_gives_throw; elim final; rule bound)
qed

lemma repo_total: "io_total (repo lib env op)" "io_total (ask f)" "io_total (observe ev)" "io_total (set_agreed i h)"
  by (auto simp: io_total_def repo_def ask_def observe_def set_agreed_def io_modify_def Let_def split: sum.splits)

lemma process_ledgers_total: "io_total (process_ledgers lib env options token tips n next previous cat processed)"
proof (induction n arbitrary: "next" previous cat processed)
  case (Suc n)
  show ?case unfolding process_ledgers.simps renew_def ask_ledger_def
    by (intro io_rules repo_total Suc)
qed (simp add: io_total_basic)

lemma io_total_triple: "(\<And>a b c. io_total (f a b c)) \<Longrightarrow> io_total (case v of (a, b, c) \<Rightarrow> f a b c)"
  by (cases v) simp

lemma run_once_total: "io_total (run_once lib env options token)"
  unfolding run_once_def Let_def renew_def ask_tips_def persist_runtime_status_def
  by (intro io_rules repo_total process_ledgers_total io_total_triple)

end
