(* ===== verification/Indexer_Catalog.thy ===== *)
theory Indexer_Catalog
  imports Indexer_Runs
begin

text \<open>
  The schema catalog the worker reads back from the database is the catalog it has computed: the rows
  of \<open>schemas\<close> implement the map from UIDs to schemas, and persisting registrations implements adding
  them to the map. Also what the end of a worker leaves behind.
\<close>

section \<open>The catalog of the rows\<close>

definition schema_of_uid :: "database \<Rightarrow> jstr \<Rightarrow> jstr \<Rightarrow> schema_row option" where
  "schema_of_uid db profile uid = find (\<lambda>r. sc_profile r = profile \<and> sc_uid r = uid) (db_schemas db)"

lemma catalog_of_entries_simps:
  "catalog_of_entries [] = Map.empty"
  "catalog_of_entries (es @ [e]) = (catalog_of_entries es)(ct_uid e \<mapsto> e)"
  by (simp_all add: catalog_of_entries_def)

lemma catalog_of_entries_Some:
  "catalog_of_entries es uid = Some e \<Longrightarrow> e \<in> set es \<and> ct_uid e = uid"
  by (induction es rule: rev_induct) (auto simp: catalog_of_entries_simps split: if_splits)

lemma catalog_of_entries_None: "catalog_of_entries es uid = None \<longleftrightarrow> uid \<notin> ct_uid ` set es"
  by (induction es rule: rev_induct) (auto simp: catalog_of_entries_simps)

lemma schema_unique:
  assumes "database_ok db" and "r \<in> set (db_schemas db)" and "q \<in> set (db_schemas db)"
    and "sc_profile r = sc_profile q" and "sc_uid r = sc_uid q"
  shows "r = q"
  using schema_table.consistent_unique [OF database_okD(6) [OF assms(1)] assms(2,3)] assms(4,5)
  by (simp add: same_schema_def)

lemma stored_catalog:
  assumes "database_ok db" and "find (\<lambda>r. np_id r = profile) (db_profiles db) = Some stored"
  shows "catalog_of_entries (get_schema_catalog db profile) uid =
    map_option (catalog_entry_of_row (np_network_id stored)) (schema_of_uid db profile uid)"
proof -
  let ?es = "get_schema_catalog db profile" and ?n = "np_network_id stored"
  have es: "set ?es = catalog_entry_of_row ?n ` {r \<in> set (db_schemas db). sc_profile r = profile}"
    using assms(2) by (simp add: get_schema_catalog_def)
  have uid: "ct_uid (catalog_entry_of_row n r) = sc_uid r" for n r by (simp add: catalog_entry_of_row_def)
  show ?thesis
  proof (cases "catalog_of_entries ?es uid")
    case None
    then have "schema_of_uid db profile uid = None"
      unfolding catalog_of_entries_None es image_image uid by (auto simp: schema_of_uid_def find_None_iff)
    then show ?thesis using None by simp
  next
    case (Some e)
    then obtain r where r: "r \<in> set (db_schemas db)" "sc_profile r = profile" "sc_uid r = uid" "e = catalog_entry_of_row ?n r"
      using catalog_of_entries_Some [OF Some] es uid by auto
    have "schema_of_uid db profile uid = Some r"
      unfolding schema_of_uid_def using r schema_unique [OF assms(1)] by (intro find_unique) auto
    then show ?thesis using Some r(4) by simp
  qed
qed

section \<open>Persisting registrations\<close>

text \<open>Registrations whose UIDs and transaction hashes are new to the profile and different.\<close>

definition accepted_registrations :: "schema_registration list \<Rightarrow> schema_registration list" where
  "accepted_registrations rs = filter (\<lambda>r. accepted_uid r \<noteq> None) rs"

definition fresh_registrations :: "database \<Rightarrow> jstr \<Rightarrow> schema_registration list \<Rightarrow> bool" where
  "fresh_registrations db profile rs \<longleftrightarrow>
     distinct (map accepted_uid (accepted_registrations rs)) \<and> distinct (map rg_hash (accepted_registrations rs)) \<and>
     list_all (\<lambda>r. list_all (\<lambda>s. sc_profile s = profile \<longrightarrow> Some (sc_uid s) \<noteq> accepted_uid r \<and> sc_hash s \<noteq> rg_hash r)
       (db_schemas db)) (accepted_registrations rs)"

lemma find_snoc: "find p (xs @ [x]) = (case find p xs of Some y \<Rightarrow> Some y | None \<Rightarrow> if p x then Some x else None)"
  by (induction xs) simp_all

lemma persist_registration_schemas:
  assumes "persist_registration lib profile ledger r db = Inr db'"
    and "fresh_registrations db profile [r]"
  shows "db_schemas db' = db_schemas db @ (case rg_outcome r of
      Registration_Accepted uid memo schema resolved \<Rightarrow> [schema_row_of profile ledger r uid schema resolved]
    | Registration_Rejected _ _ \<Rightarrow> [])"
proof (cases "rg_outcome r")
  case (Registration_Accepted uid memo schema resolved)
  let ?row = "schema_row_of profile ledger r uid schema resolved"
  obtain db1 where db1: "insert_schema_event (event_row_of profile ledger r) db = Inr db1"
    and ins: "insert_schema ?row db1 = Inr db'"
    using assms(1) Registration_Accepted by (auto simp: persist_registration_def res_simps)
  have same: "db_schemas db1 = db_schemas db" using db1 by (auto simp: insert_schema_event_def res_simps)
  have "\<not> list_ex (same_schema ?row) (db_schemas db)"
    using assms(2) Registration_Accepted
    by (auto simp: fresh_registrations_def accepted_registrations_def accepted_uid_def list_ex_iff list_all_iff
        same_schema_def schema_row_of_def)
  then have "db_schemas db' = db_schemas db @ [?row]"
    using ins by (auto simp: insert_schema_def insert_or_skip_def insert_row_def same res_simps split: if_splits)
  then show ?thesis by (simp add: Registration_Accepted)
next
  case (Registration_Rejected reason memo)
  then show ?thesis
    using assms(1) by (auto simp: persist_registration_def insert_schema_event_def res_simps)
qed

lemma persist_registrations_catalog:
  assumes "fold_res (persist_registration lib (profile_id profile) ledger) rs db = Inr db'"
    and "fresh_registrations db (profile_id profile) rs"
  shows "(\<lambda>uid. map_option (catalog_entry_of_row (profile_network_id profile)) (schema_of_uid db' (profile_id profile) uid)) =
    add_registrations profile (vl_index ledger) rs
      (\<lambda>uid. map_option (catalog_entry_of_row (profile_network_id profile)) (schema_of_uid db (profile_id profile) uid))"
  using assms
proof (induction rs arbitrary: db)
  case Nil
  then show ?case by (simp add: add_registrations_def)
next
  case (Cons r rs)
  let ?p = "profile_id profile" and ?n = "profile_network_id profile"
  let ?cat = "\<lambda>db uid. map_option (catalog_entry_of_row ?n) (schema_of_uid db ?p uid)"
  obtain db1 where db1: "persist_registration lib ?p ledger r db = Inr db1"
    "fold_res (persist_registration lib ?p ledger) rs db1 = Inr db'"
    using Cons(2) by (auto simp: res_simps)
  have fresh: "fresh_registrations db ?p [r]"
    using Cons(3) by (auto simp: fresh_registrations_def accepted_registrations_def)
  note schemas = persist_registration_schemas [OF db1(1) fresh]
  have later: "fresh_registrations db1 ?p rs"
  proof -
    let ?new = "case rg_outcome r of
      Registration_Accepted uid memo schema resolved \<Rightarrow> [schema_row_of ?p ledger r uid schema resolved]
    | Registration_Rejected _ _ \<Rightarrow> []"
    have new: "accepted_uid r = Some (sc_uid s) \<and> sc_hash s = rg_hash r" if "s \<in> set ?new" for s
      using that by (auto simp: accepted_uid_def schema_row_of_def split: registration_outcome.splits)
    have acc: "accepted_registrations (r # rs) = (if accepted_uid r = None then [] else [r]) @ accepted_registrations rs"
      by (simp add: accepted_registrations_def)
    have "accepted_uid q \<noteq> accepted_uid r \<and> rg_hash q \<noteq> rg_hash r"
      if "q \<in> set (accepted_registrations rs)" "accepted_uid r \<noteq> None" for q
      using Cons(3) that by (auto simp: fresh_registrations_def acc split: if_splits) (metis imageI)+
    then show ?thesis
      using Cons(3) new unfolding fresh_registrations_def schemas acc list_all_iff
      by (fastforce split: if_splits)
  qed
  have step: "?cat db1 = add_registration profile (vl_index ledger) r (?cat db)"
  proof (cases "rg_outcome r")
    case (Registration_Accepted uid memo schema resolved)
    have "schema_of_uid db ?p uid = None"
      using fresh Registration_Accepted
      by (auto simp: schema_of_uid_def find_None_iff fresh_registrations_def accepted_registrations_def accepted_uid_def list_all_iff)
    then show ?thesis
      using Registration_Accepted
      by (auto simp: fun_eq_iff schema_of_uid_def schemas find_snoc add_registration_def entry_of_registration_def
          catalog_entry_of_row_def schema_row_of_def split: option.splits)
  next
    case (Registration_Rejected reason memo)
    then show ?thesis by (simp add: schema_of_uid_def schemas add_registration_def entry_of_registration_def)
  qed
  show ?case
    using Cons(1) [OF db1(2) later] step by (simp add: add_registrations_def)
qed

section \<open>The end of a worker\<close>

lemma stable_codes_sanitized: "code \<in> set STABLE_INDEXER_ERROR_CODES \<Longrightarrow> error_code_pattern (lit code)"
proof -
  have "list_all (\<lambda>code. error_code_pattern (lit code)) STABLE_INDEXER_ERROR_CODES" by code_simp
  then show "code \<in> set STABLE_INDEXER_ERROR_CODES \<Longrightarrow> error_code_pattern (lit code)" by (simp add: list_all_iff)
qed

text \<open>A halt that succeeded has recorded the stable code of the error, and an incident with it.\<close>

lemma try_halt_recorded:
  assumes "repository_ok (run_others lib (we_others env (ww_effects w)) (ww_db w))"
    and "try_halt lib env (Some token) (Inl e) w = Some (Inr True, w')"
  shows "\<exists>row. read_indexer_status (ww_db w') (tk_profile token) = Some row \<and> ss_state row = Halted \<and>
    ss_error row = Some (lit (source_error_code e)) \<and>
    lease_view_of (ww_db w') (tk_profile token) = (tk_epoch token, None) \<and>
    (\<exists>i \<in> set (db_incidents (ww_db w')). ii_profile i = tk_profile token \<and> ii_epoch i = tk_epoch token \<and>
       ii_error i = lit (source_error_code e))"
proof -
  let ?db = "run_others lib (we_others env (ww_effects w)) (ww_db w)"
  obtain row where "halt_indexer (we_clock env (ww_effects w)) token (runtime_status w) (lit (source_error_code e)) None ?db =
      Inr (row, ww_db w')"
    using assms(2)
    by (auto simp: try_halt_def io_defs io_settle_def repo_def writing_def Let_def is_ok_iff res_simps split: sum.splits)
  from halt_refines [OF database_ok_statuses this] show ?thesis
    using assms(1) by (auto simp: repository_ok_def)
qed

lemma try_total:
  "try_halt lib env lease outcome w = Some (x, w1) \<Longrightarrow> \<exists>b. x = Inr b"
  "try_release lib env lease halted w = Some (y, w1) \<Longrightarrow> \<exists>b. y = Inr b"
  by (auto simp: try_halt_def try_release_def io_defs io_settle_def split: option.splits sum.splits if_splits)

lemma start_ends:
  assumes "start lib env options w = Some (r, w')" and "wk_lease w = None"
  shows "wk_lease w' = None \<and> (\<forall>e. r = Inl e \<longrightarrow> ww_log w' \<noteq> [] \<and> last (ww_log w') = Failed (source_error_code e))"
  using assms
  by (auto simp: start_def io_defs io_settle_def io_modify_def observe_def split: option.splits sum.splits prod.splits
      dest!: try_total)

end
