(* ===== verification/Indexer_Retry.thy ===== *)
theory Indexer_Retry
  imports Effects Database_Schema
begin

text \<open>
  Serializable transactions that are retried (\<open>lib/db/transactions.ts\<close>). The attempts, the random
  numbers and the pauses are effects; whether a try succeeds depends on the history.
\<close>

section \<open>Errors and options\<close>

text \<open>A thrown value: no object, or an object with its string \<open>code\<close> and its \<open>cause\<close>, if any.\<close>

datatype thrown = No_Object | Error_Object "string option" "thrown option"

definition RETRYABLE_TRANSACTION_ERROR_CODES :: "string list" where
  "RETRYABLE_TRANSACTION_ERROR_CODES = [''40001'', ''40P01'']"

text \<open>The first code on the chain of causes, at most so many links deep.\<close>

fun error_code_at :: "nat \<Rightarrow> thrown \<Rightarrow> string option" where
  "error_code_at 0 e = None"
| "error_code_at (Suc depth) No_Object = None"
| "error_code_at (Suc depth) (Error_Object (Some code) cause) = Some code"
| "error_code_at (Suc depth) (Error_Object None None) = None"
| "error_code_at (Suc depth) (Error_Object None (Some cause)) = error_code_at depth cause"

definition database_error_code :: "thrown \<Rightarrow> string option" where
  "database_error_code e = error_code_at 5 e"

definition retryable :: "thrown \<Rightarrow> bool" where
  "retryable e \<longleftrightarrow> (case database_error_code e of None \<Rightarrow> False | Some c \<Rightarrow> c \<in> set RETRYABLE_TRANSACTION_ERROR_CODES)"

record retry_options =
  max_attempts :: "int option"
  base_delay_ms :: "int option"
  max_delay_ms :: "int option"

definition DEFAULT_SERIALIZABLE_TRANSACTION_ATTEMPTS :: int where
  "DEFAULT_SERIALIZABLE_TRANSACTION_ATTEMPTS = 5"
definition DEFAULT_SERIALIZABLE_RETRY_BASE_DELAY_MS :: int where
  "DEFAULT_SERIALIZABLE_RETRY_BASE_DELAY_MS = 10"
definition DEFAULT_SERIALIZABLE_RETRY_MAX_DELAY_MS :: int where
  "DEFAULT_SERIALIZABLE_RETRY_MAX_DELAY_MS = 250"

definition positive_integer :: "int \<Rightarrow> thrown + int" where
  "positive_integer v = (if v > MAX_SAFE_EPOCH \<or> v < 1 then Inl (Error_Object None None) else Inr v)"

definition non_negative_integer :: "int \<Rightarrow> thrown + int" where
  "non_negative_integer v = (if v > MAX_SAFE_EPOCH \<or> v < 0 then Inl (Error_Object None None) else Inr v)"

definition option_or :: "'a option \<Rightarrow> 'a \<Rightarrow> 'a" where
  "option_or v d = (case v of None \<Rightarrow> d | Some x \<Rightarrow> x)"

section \<open>Attempts\<close>

datatype retry_event = Attempted | Drew_Random | Slept_Ms int

text \<open>A random number as a fraction; \<open>None\<close> is no finite number.\<close>

record 'a retry_env =
  run_attempt :: "retry_event list \<Rightarrow> thrown + 'a"
  draw_random :: "retry_event list \<Rightarrow> (int \<times> int) option"

type_synonym 'a retry = "(thrown, retry_event list, 'a) io"

definition delay_cap :: "int \<Rightarrow> int \<Rightarrow> nat \<Rightarrow> int" where
  "delay_cap base_ms max_ms number = min max_ms (base_ms * 2 ^ (number - 1))"

text \<open>\<open>Math.floor(randomValue * (delayCapMs + 1))\<close>\<close>

definition backoff_delay :: "int \<Rightarrow> (int \<times> int) option \<Rightarrow> thrown + int" where
  "backoff_delay cap r =
     (case r of
        None \<Rightarrow> Inl (Error_Object None None)
      | Some (p, q) \<Rightarrow>
          if q \<le> 0 \<or> p < 0 \<or> p \<ge> q then Inl (Error_Object None None) else Inr (p * (cap + 1) div q))"

text \<open>The first \<open>remaining + 1\<close> attempts from number \<open>number\<close> on; there is at least one.\<close>

fun attempt_from :: "'a retry_env \<Rightarrow> int \<Rightarrow> int \<Rightarrow> nat \<Rightarrow> nat \<Rightarrow> 'a retry" where
  "attempt_from env base_ms max_ms number remaining =
     io_catch (io_effect Attempted (run_attempt env)) (\<lambda>e.
       if \<not> retryable e then io_lift (Inl e)
       else case remaining of
         0 \<Rightarrow> io_lift (Inl e)
       | Suc n \<Rightarrow>
           io_bind (io_effect Drew_Random (\<lambda>h. Inr (draw_random env h))) (\<lambda>r.
           io_bind (io_lift (backoff_delay (delay_cap base_ms max_ms number) r)) (\<lambda>ms.
           io_bind (io_effect (Slept_Ms ms) (\<lambda>_. Inr ())) (\<lambda>_.
           attempt_from env base_ms max_ms (number + 1) n))))"

declare attempt_from.simps [simp del]

definition run_serializable_transaction :: "'a retry_env \<Rightarrow> retry_options \<Rightarrow> 'a retry" where
  "run_serializable_transaction env options =
     io_bind (io_lift (positive_integer (option_or (max_attempts options) DEFAULT_SERIALIZABLE_TRANSACTION_ATTEMPTS))) (\<lambda>attempts.
     io_bind (io_lift (non_negative_integer (option_or (base_delay_ms options) DEFAULT_SERIALIZABLE_RETRY_BASE_DELAY_MS))) (\<lambda>base_ms.
     io_bind (io_lift (non_negative_integer (option_or (max_delay_ms options) DEFAULT_SERIALIZABLE_RETRY_MAX_DELAY_MS))) (\<lambda>max_ms.
     if base_ms > max_ms then io_lift (Inl (Error_Object None None))
     else attempt_from env base_ms max_ms 1 (nat (attempts - 1)))))"

section \<open>Bounds\<close>

definition attempts_in :: "retry_event list \<Rightarrow> nat" where
  "attempts_in h = length (filter (\<lambda>ev. ev = Attempted) h)"

definition delays_in :: "retry_event list \<Rightarrow> int list" where
  "delays_in h = concat (map (\<lambda>ev. case ev of Slept_Ms ms \<Rightarrow> [ms] | _ \<Rightarrow> []) h)"

lemma attempts_in_simps [simp]:
  "attempts_in [] = 0" "attempts_in (a @ b) = attempts_in a + attempts_in b"
  "attempts_in [Attempted] = 1" "attempts_in [Drew_Random] = 0" "attempts_in [Slept_Ms n] = 0"
  by (simp_all add: attempts_in_def)

lemma delays_in_simps [simp]:
  "delays_in [] = []" "delays_in (a @ b) = delays_in a @ delays_in b"
  "delays_in [Attempted] = []" "delays_in [Drew_Random] = []" "delays_in [Slept_Ms n] = [n]"
  by (simp_all add: delays_in_def)

lemma backoff_delay_bounds:
  assumes "backoff_delay cap r = Inr ms" and "0 \<le> cap"
  shows "0 \<le> ms \<and> ms \<le> cap"
proof -
  obtain p q where r: "r = Some (p, q)" "0 < q" "0 \<le> p" "p < q" "ms = p * (cap + 1) div q"
    using assms(1) by (auto simp: backoff_delay_def split: option.splits if_splits)
  have "p * (cap + 1) < q * (cap + 1)" using r assms(2) by simp
  moreover have "q * (p * (cap + 1) div q) \<le> p * (cap + 1)"
    using r(2) pos_mod_sign [of q "p * (cap + 1)"] by (simp flip: minus_mod_eq_mult_div)
  ultimately have "q * (p * (cap + 1) div q) < q * (cap + 1)" by simp
  then have "p * (cap + 1) div q < cap + 1" using r(2) by (simp only: mult_less_cancel_left_pos)
  moreover have "0 \<le> p * (cap + 1) div q" using r(2,3) assms(2) by (simp add: pos_imp_zdiv_nonneg_iff)
  ultimately show ?thesis using r(5) by simp
qed

lemma delay_cap_bounds: "0 \<le> base_ms \<Longrightarrow> base_ms \<le> max_ms \<Longrightarrow> 0 \<le> delay_cap base_ms max_ms k \<and> delay_cap base_ms max_ms k \<le> max_ms"
  by (simp add: delay_cap_def)

text \<open>What a run adds to the history: at most so many attempts, one more than pauses, each within its cap.\<close>

lemma attempt_from_bounds:
  assumes "0 \<le> base_ms" and "base_ms \<le> max_ms"
    and "attempt_from env base_ms max_ms number remaining h = Some (r, h')"
  shows "\<exists>t. h' = h @ t \<and> 1 \<le> attempts_in t \<and> attempts_in t \<le> remaining + 1 \<and>
    length (delays_in t) < attempts_in t \<and>
    (\<forall>i < length (delays_in t). 0 \<le> delays_in t ! i \<and> delays_in t ! i \<le> delay_cap base_ms max_ms (number + i))"
  using assms(3)
proof (induction remaining arbitrary: number h)
  case 0
  then have "h' = h @ [Attempted]"
    by (subst (asm) attempt_from.simps)
      (auto simp: io_catch_def io_effect_def io_lift_def split: sum.splits if_splits)
  then show ?case by simp
next
  case (Suc n)
  show ?case
  proof (cases "\<exists>e. run_attempt env h = Inl e \<and> retryable e")
    case False
    then have "h' = h @ [Attempted]"
      using Suc(2) by (subst (asm) attempt_from.simps)
        (auto simp: io_catch_def io_effect_def io_lift_def split: sum.splits if_splits)
    then show ?thesis by (intro exI [of _ "[Attempted]"]) simp
  next
    case True
    let ?h1 = "h @ [Attempted]" and ?h2 = "h @ [Attempted, Drew_Random]"
    let ?d = "backoff_delay (delay_cap base_ms max_ms number) (draw_random env ?h1)"
    show ?thesis
    proof (cases ?d)
      case (Inl e)
      then have "h' = ?h2"
        using Suc(2) True by (subst (asm) attempt_from.simps)
          (auto simp: io_catch_def io_effect_def io_lift_def io_bind_def split: sum.splits if_splits)
      then show ?thesis
        using attempts_in_simps(2) [of "[Attempted]" "[Drew_Random]"] delays_in_simps(2) [of "[Attempted]" "[Drew_Random]"]
        by (intro exI [of _ "[Attempted, Drew_Random]"]) simp
    next
      case (Inr ms)
      let ?h3 = "h @ [Attempted, Drew_Random, Slept_Ms ms]"
      have run: "attempt_from env base_ms max_ms (number + 1) n ?h3 = Some (r, h')"
        using Suc(2) True Inr by (subst (asm) attempt_from.simps)
          (auto simp: io_catch_def io_effect_def io_lift_def io_bind_def split: sum.splits if_splits)
      obtain t where t: "h' = ?h3 @ t" "1 \<le> attempts_in t" "attempts_in t \<le> n + 1"
        "length (delays_in t) < attempts_in t"
        "\<forall>i < length (delays_in t). 0 \<le> delays_in t ! i \<and> delays_in t ! i \<le> delay_cap base_ms max_ms (number + 1 + i)"
        using Suc(1) [OF run] by blast
      have ms: "0 \<le> ms \<and> ms \<le> delay_cap base_ms max_ms number"
        using backoff_delay_bounds [OF Inr] delay_cap_bounds [OF assms(1,2)] by simp
      have "0 \<le> (ms # delays_in t) ! i \<and> (ms # delays_in t) ! i \<le> delay_cap base_ms max_ms (number + i)"
        if "i < length (ms # delays_in t)" for i
        using that ms t(5) by (cases i) auto
      moreover have "attempts_in ([Attempted, Drew_Random, Slept_Ms ms] @ t) = attempts_in t + 1"
        "delays_in ([Attempted, Drew_Random, Slept_Ms ms] @ t) = ms # delays_in t"
        by (simp_all add: attempts_in_def delays_in_def)
      ultimately show ?thesis
        using t(1-4) by (intro exI [of _ "[Attempted, Drew_Random, Slept_Ms ms] @ t"]) simp
    qed
  qed
qed

lemma attempt_from_total: "io_total (attempt_from env base_ms max_ms number remaining)"
proof (induction remaining arbitrary: number)
  case 0
  then show ?case by (subst attempt_from.simps) (intro io_rules, simp add: io_total_basic)
next
  case (Suc n)
  show ?case by (subst attempt_from.simps) (simp only: nat.case, intro io_rules Suc)
qed

lemma run_serializable_total: "io_total (run_serializable_transaction env options)"
  unfolding run_serializable_transaction_def by (intro io_rules attempt_from_total)

end
