(* ===== verification/Pilot.thy ===== *)
theory Pilot
  imports Indexer_Catalog Indexer_Retry Sample_Lib
begin

text \<open>
  A small pilot network: its profile, one ledger and the databases after the first calls of an
  indexer. The theorems about the indexer are applied to these.
\<close>

definition pilot_hash :: jstr where
  "pilot_hash = lit (replicate 64 CHR ''a'')"

lemma pilot_hash_ok [simp]: "hash64 pilot_hash"
  by (simp add: hash64_def pilot_hash_def lit_def list_all_iff class_unat)

lemma pilot_hash_lower [simp]: "to_lower pilot_hash = pilot_hash"
  by (rule hash64_lower) simp

definition pilot_profile :: network_profile where
  "pilot_profile = \<lparr>profile_id = lit ''t'', profile_network_id = 2,
     required_amendment = to_upper pilot_hash, registry_address = XRPL_ACCOUNT_ZERO,
     activation_ledger_index = 7, activation_ledger_hash = pilot_hash\<rparr>"

definition pilot_ledger :: validated_ledger where
  "pilot_ledger = \<lparr>vl_index = 7, vl_hash = pilot_hash, vl_parent = pilot_hash, vl_account_root = pilot_hash,
     vl_transaction_root = pilot_hash, vl_parent_close_time = 0, vl_close_time = 1,
     vl_close_time_resolution = 10, vl_close_flags = 0, vl_total_coins = lit ''1'', vl_transactions = []\<rparr>"

definition pilot_projection :: ledger_projection where
  "pilot_projection =
     \<lparr>lp_ledger = pilot_ledger, lp_registrations = [], lp_mutations = [], lp_malformed = 0\<rparr>"

definition pilot_token :: "string \<Rightarrow> int \<Rightarrow> lease_token" where
  "pilot_token writer epoch = \<lparr>tk_profile = lit ''t'', tk_writer = lit writer, tk_epoch = epoch\<rparr>"

definition no_status :: status_input where
  "no_status = \<lparr>in_primary = None, in_secondary = None, in_agreed_index = None, in_agreed_hash = None\<rparr>"

definition pilot_row :: "string \<Rightarrow> int \<Rightarrow> status_state \<Rightarrow> int \<Rightarrow> int \<Rightarrow> status_row" where
  "pilot_row writer epoch state now expires =
     \<lparr>ss_profile = lit ''t'', ss_state = state, ss_primary = None, ss_secondary = None,
      ss_agreed_index = None, ss_agreed_hash = None, ss_error = None, ss_writer = Some (lit writer),
      ss_epoch = epoch, ss_expires = Some expires, ss_updated = now\<rparr>"

lemma pilot_patterns [simp]:
  "profile_id_pattern (lit ''t'')" "writer_id_pattern (lit ''w'')" "writer_id_pattern (lit ''v'')"
  by (simp_all add: profile_id_pattern_def writer_id_pattern_def is_alphanumeric_def lit_def class_unat)

lemma pilot_address [simp]: "address_pattern XRPL_ACCOUNT_ZERO"
  by (simp add: address_pattern_def XRPL_ACCOUNT_ZERO_def is_base58_def lit_def class_unat ch_def)

lemma storable_ascii: "list_all (\<lambda>c. of_char c \<noteq> (0 :: nat)) s \<Longrightarrow> storable_text (lit s)"
  by (auto simp: storable_text_def lit_def list_all_iff word_unat_eq_iff)

lemma pilot_storable [simp]: "storable_text (lit ''t'')"
  by (rule storable_ascii) simp

lemma pilot_upper [simp]: "storable_text (to_upper pilot_hash)" "to_upper (to_upper pilot_hash) = to_upper pilot_hash"
proof -
  have "hash64_any (to_upper pilot_hash)" using hash64_upper [of pilot_hash] by simp
  then show "storable_text (to_upper pilot_hash)"
    by (auto simp: storable_text_def hash64_any_def list_all_iff class_unat)
  have "upper_cu (upper_cu c) = upper_cu c" for c
    by (auto simp: word_unat_eq_iff upper_cu_unat class_unat)
  then show "to_upper (to_upper pilot_hash) = to_upper pilot_hash" by (simp add: to_upper_def)
qed

lemma pilot_profile_row: "profile_row_ok (profile_row_of pilot_profile)"
  using pilot_upper by (simp add: profile_row_ok_def profile_row_of_def pilot_profile_def uint32_range_def)

section \<open>The first calls\<close>

definition pilot_database :: database where
  "pilot_database = empty_database\<lparr>db_profiles := [profile_row_of pilot_profile]\<rparr>"

lemma pilot_initialize: "initialize_profile Shared pilot_profile empty_database = Inr pilot_database"
  by (simp add: initialize_profile_def ensure_network_profile_def insert_or_skip_def insert_row_def
      empty_database_def pilot_profile_row assert_stored_profile_matches_def pilot_database_def)
    (simp add: profile_row_of_def)

lemma pilot_profile_id [simp]: "profile_id pilot_profile = lit ''t''"
  by (simp add: pilot_profile_def)

definition pilot_held :: "string \<Rightarrow> int \<Rightarrow> int \<Rightarrow> int \<Rightarrow> database" where
  "pilot_held writer epoch now expires =
     pilot_database\<lparr>db_statuses := [pilot_row writer epoch Starting now expires]\<rparr>"

definition pilot_lease :: "string \<Rightarrow> int \<Rightarrow> int \<Rightarrow> acquired_lease" where
  "pilot_lease writer epoch expires =
     \<lparr>tk_profile = lit ''t'', tk_writer = lit writer, tk_epoch = epoch, al_expires = expires\<rparr>"

lemma pilot_has_profile [simp]: "has_profile pilot_database (lit ''t'')"
  by (simp add: has_profile_def pilot_database_def profile_row_of_def pilot_profile_def)

lemma pilot_acquire:
  "acquire_indexer_lease 0 (lit ''t'') (lit ''w'') 10000 None pilot_database =
     Inr (pilot_lease ''w'' 1 10000, pilot_held ''w'' 1 0 10000)"
proof -
  have none: "db_statuses pilot_database = []" by (simp add: pilot_database_def empty_database_def)
  have row: "acquired_status (lit ''w'') True 0 10000 (first_status (lit ''t'') 0) = pilot_row ''w'' 1 Starting 0 10000"
    by (simp add: acquired_status_def first_status_def pilot_row_def)
  have ok: "status_row_ok (pilot_row ''w'' 1 Starting 0 10000)"
    using acquired_status_ok [of "lit ''w''" "first_status (lit ''t'') 0" True 10000 0] unfolding row [symmetric]
    by (simp add: first_status_def MAX_SAFE_EPOCH_def MAX_INDEXER_LEASE_DURATION_MS_def)
  show ?thesis
    by (simp add: acquire_indexer_lease_def normalize_indexer_lease_request_def normalize_token_def MAX_SAFE_EPOCH_def
        normalize_lease_duration_def MIN_INDEXER_LEASE_DURATION_MS_def MAX_INDEXER_LEASE_DURATION_MS_def
        database_now_def insert_or_skip_def insert_row_def first_status_ok none database_lease_expiration_def
        update_status_row_def update_rows_def may_be_acquired_def row ok, simp add: first_status_def)
      (simp add: acquired_of_def pilot_row_def pilot_lease_def pilot_held_def)
qed

lemma pilot_takeover:
  "acquire_indexer_lease 10000 (lit ''t'') (lit ''v'') 10000 None (pilot_held ''w'' 1 0 10000) =
     Inr (pilot_lease ''v'' 2 20000, pilot_held ''v'' 2 10000 20000)"
proof -
  have one: "db_statuses (pilot_held ''w'' 1 0 10000) = [pilot_row ''w'' 1 Starting 0 10000]"
    by (simp add: pilot_held_def)
  have same: "same_status (first_status (lit ''t'') 10000) (pilot_row ''w'' 1 Starting 0 10000)"
    by (simp add: same_status_def first_status_def pilot_row_def)
  have row: "acquired_status (lit ''v'') False 10000 20000 (pilot_row ''w'' 1 Starting 0 10000) =
      pilot_row ''v'' 2 Starting 10000 20000"
    by (simp add: acquired_status_def pilot_row_def)
  have ok: "status_row_ok (pilot_row ''v'' 2 Starting 10000 20000)"
    using acquired_status_ok [of "lit ''v''" "pilot_row ''w'' 1 Starting 0 10000" False 10000 10000] unfolding row [symmetric]
    by (simp add: pilot_row_def MAX_SAFE_EPOCH_def MAX_INDEXER_LEASE_DURATION_MS_def)
  have may: "may_be_acquired (lit ''t'') False 10000 (pilot_row ''w'' 1 Starting 0 10000)"
    by (simp add: may_be_acquired_def pilot_row_def MAX_SAFE_EPOCH_def)
  show ?thesis
    by (simp add: acquire_indexer_lease_def normalize_indexer_lease_request_def normalize_token_def MAX_SAFE_EPOCH_def
        normalize_lease_duration_def MIN_INDEXER_LEASE_DURATION_MS_def MAX_INDEXER_LEASE_DURATION_MS_def
        database_now_def insert_or_skip_def insert_row_def first_status_ok one same database_lease_expiration_def
        update_status_row_def update_rows_def may row ok)
      (simp add: acquired_of_def pilot_row_def pilot_lease_def pilot_held_def)
qed

definition pilot_persisted :: database where
  "pilot_persisted = (pilot_held ''w'' 1 0 10000)
     \<lparr>db_checkpoints := [checkpoint_row_of (lit ''t'') pilot_ledger],
      db_statuses := [pilot_row ''w'' 1 Catching_Up 2 10000]\<rparr>"

lemma pilot_persist:
  "persist_ledger lib 1 2 pilot_profile pilot_projection (pilot_token ''w'' 1) Catching_Up no_status
     (pilot_held ''w'' 1 0 10000) = Inr (Inserted, pilot_persisted)"
proof -
  let ?db = "pilot_held ''w'' 1 0 10000" and ?tok = "pilot_token ''w'' 1"
  have tok: "normalize_token ?tok = Inr ?tok"
    by (simp add: normalize_token_Inr pilot_token_def MAX_SAFE_EPOCH_def)
  have active: "active_token_filter ?tok n (pilot_row ''w'' 1 Starting 0 10000)" if "n < 10000" for n
    using that by (simp add: active_token_filter_def token_filter_def pilot_row_def pilot_token_def)
  have lock: "lock_active_indexer_lease 1 ?tok None ?db = Inr (pilot_row ''w'' 1 Starting 0 10000)"
    by (simp add: lock_active_indexer_lease_def tok database_now_def pilot_held_def active)
  have ens: "ensure_network_profile pilot_profile ?db = Inr ?db"
    by (simp add: ensure_network_profile_def insert_or_skip_def pilot_profile_row pilot_held_def pilot_database_def
        same_profile_def assert_stored_profile_matches_def) (simp add: profile_row_of_def)
  have none: "profile_checkpoints ?db (lit ''t'') = []" "db_checkpoints ?db = []"
    by (simp_all add: profile_checkpoints_def pilot_held_def pilot_database_def empty_database_def)
  have cont: "assert_ledger_continuity pilot_profile (get_last_checkpoint ?db (profile_id pilot_profile)) pilot_ledger = Inr ()"
    by (simp add: get_last_checkpoint_def none assert_ledger_continuity_def pilot_profile_def pilot_ledger_def)
  have cp: "checkpoint_row_ok (checkpoint_row_of (lit ''t'') pilot_ledger)"
    by (simp add: checkpoint_row_ok_def checkpoint_row_of_def pilot_ledger_def uint32_range_def int4_range_def)
  let ?db2 = "?db\<lparr>db_checkpoints := [checkpoint_row_of (lit ''t'') pilot_ledger]\<rparr>"
  have proj: "persist_projection lib (lit ''t'') pilot_projection ?db = Inr ?db2"
    using cp by (simp add: persist_projection_def pilot_projection_def insert_checkpoint_def insert_row_def none)
      (simp add: checkpoint_row_of_def pilot_held_def)
  have v: "normalize_indexer_status_update Catching_Up no_status = Inr
      \<lparr>in_primary = None, in_secondary = None, in_agreed_index = None, in_agreed_hash = None,
       ns_state = Catching_Up, ns_error = None\<rparr>"
    by (simp add: normalize_indexer_status_update_def normalize_status_def no_status_def nullable_uint32_def ahead_of_def)
  have ok: "status_row_ok (pilot_row ''w'' 1 Catching_Up 2 10000)"
    by (simp add: status_row_ok_def pilot_row_def agreed_ledger_ok_def agreed_not_ahead_def ready_shape_def
        MAX_SAFE_EPOCH_def lease_window_ok_def)
  have upd: "update_indexer_status 2 ?tok Catching_Up no_status None ?db2 =
      Inr (pilot_row ''w'' 1 Catching_Up 2 10000, pilot_persisted)"
    using ok by (simp add: update_indexer_status_def tok v database_now_def update_status_row_def update_rows_def
        pilot_held_def active pilot_persisted_def) (simp add: with_status_def pilot_row_def)
  show ?thesis
    using lock ens none cont proj upd
    by (simp add: persist_ledger_def pilot_token_def pilot_projection_def)
qed

section \<open>A run of calls\<close>

definition run_calls :: "'x core_lib_scheme \<Rightarrow> (int \<times> int \<times> repository_call) list \<Rightarrow> database \<Rightarrow> ierr + database" where
  "run_calls lib = fold_res (\<lambda>(clock, later, call). run_call lib clock later call)"

lemma run_calls_steps: "run_calls lib calls db = Inr db' \<Longrightarrow> (repository_step lib)\<^sup>*\<^sup>* db db'"
  unfolding run_calls_def
  by (erule fold_res_rel) (auto intro: call_returns)

lemma pilot_steps:
  "(repository_step lib)\<^sup>*\<^sup>* empty_database pilot_database"
  "(repository_step lib)\<^sup>*\<^sup>* empty_database (pilot_held ''w'' 1 0 10000)"
  "(repository_step lib)\<^sup>*\<^sup>* empty_database pilot_persisted"
proof -
  have "run_calls lib [(0, 0, Initialize Shared pilot_profile)] empty_database = Inr pilot_database"
    "run_calls lib [(0, 0, Acquire (lit ''t'') (lit ''w'') 10000)] pilot_database = Inr (pilot_held ''w'' 1 0 10000)"
    "run_calls lib [(1, 2, Persist pilot_profile pilot_projection (pilot_token ''w'' 1) Catching_Up no_status)]
      (pilot_held ''w'' 1 0 10000) = Inr pilot_persisted"
    by (simp_all add: run_calls_def pilot_initialize pilot_acquire pilot_persist)
  note s = this [THEN run_calls_steps]
  show "(repository_step lib)\<^sup>*\<^sup>* empty_database pilot_database" using s(1) .
  then show "(repository_step lib)\<^sup>*\<^sup>* empty_database (pilot_held ''w'' 1 0 10000)" using s(2) by simp
  then show "(repository_step lib)\<^sup>*\<^sup>* empty_database pilot_persisted" using s(3) by simp
qed

lemma pilot_ok: "repository_ok pilot_database" "repository_ok (pilot_held ''w'' 1 0 10000)" "repository_ok pilot_persisted"
  using repository.reachable_inv [OF refl] pilot_steps [of "sample_lib []"] by blast+

end
