(* ===== verification/Indexer_Guarantees.thy ===== *)
theory Indexer_Guarantees
  imports Pilot
begin

text \<open>
  The guarantees of the indexer: its projection, its writer lease, its tables and its runs.
\<close>

section \<open>Checkpoints and history\<close>

text \<open>
  C2. Invariant of the tables. After any sequence of calls of the repository, by any number of
  processes and starting from an empty database, every constraint of the schema holds, and the
  checkpoints of every stored profile are contiguous from its activation ledger, start with the
  activation hash and are linked by their parent hashes.
\<close>

theorem checkpoints_form_a_chain:
  assumes "(repository_step lib)\<^sup>*\<^sup>* empty_database db"
  shows "database_ok db \<and>
    list_all (\<lambda>r. chain_ok (np_activation_index r) (np_activation_hash r) (profile_checkpoints db (np_id r)))
      (db_profiles db)"
  using repository.reachable_inv [OF refl assms] by (simp add: repository_ok_def chains_ok_def)

theorem checkpoints_form_a_chain_witness:
  "database_ok pilot_persisted \<and> profile_checkpoints pilot_persisted (lit ''t'') = [checkpoint_row_of (lit ''t'') pilot_ledger] \<and>
   chain_ok 7 pilot_hash (profile_checkpoints pilot_persisted (lit ''t''))"
proof -
  have rows: "db_profiles pilot_persisted = [profile_row_of pilot_profile]"
    by (simp add: pilot_persisted_def pilot_held_def pilot_database_def)
  have "profile_checkpoints pilot_persisted (lit ''t'') = [checkpoint_row_of (lit ''t'') pilot_ledger]"
    by (simp add: profile_checkpoints_def pilot_persisted_def checkpoint_row_of_def)
  moreover note checkpoints_form_a_chain [OF pilot_steps(3) [of "sample_lib []"]]
  ultimately show ?thesis
    unfolding rows by (simp add: profile_row_of_def) (simp add: pilot_profile_def)
qed

text \<open>
  Further guarantee: Safety of the history. No call of the repository loses or rewrites history: profiles,
  checkpoints, incidents, schema events, schemas and credential events are only appended to, a
  generation keeps its identity, its creation and its acceptance, and does not change any more once
  it is deleted.
\<close>

theorem history_only_grows:
  assumes "(repository_step lib)\<^sup>*\<^sup>* empty_database db" and "(repository_step lib)\<^sup>*\<^sup>* db db'"
  shows "history_grows db db'"
  using repository_run [OF assms(2)] repository.reachable_inv [OF refl assms(1)] by simp

theorem history_only_grows_witness:
  "history_grows pilot_database pilot_persisted \<and> db_checkpoints pilot_persisted \<noteq> []"
proof -
  have "run_calls (sample_lib []) [(0, 0, Acquire (lit ''t'') (lit ''w'') 10000),
      (1, 2, Persist pilot_profile pilot_projection (pilot_token ''w'' 1) Catching_Up no_status)]
      pilot_database = Inr pilot_persisted"
    by (simp add: run_calls_def pilot_acquire pilot_persist)
  from history_only_grows [OF pilot_steps(1) run_calls_steps [OF this]]
  show ?thesis by (simp add: pilot_persisted_def)
qed

text \<open>
  Further guarantee: Persisting is idempotent. Once a ledger has been persisted, persisting the same projection again,
  by any writer, at any later time and after any other calls, inserts nothing: it reports the ledger
  as already processed, and only the status row changes.
\<close>

theorem persist_is_idempotent:
  assumes "repository_ok db"
    and "persist_ledger lib clock later profile projection token state input db = Inr (result, db1)"
    and "(repository_step lib)\<^sup>*\<^sup>* db1 db2"
    and "persist_ledger lib clock' later' profile projection token' state' input' db2 = Inr (result', db3)"
  shows "result' = Already_Processed \<and> only_statuses_changed db2 db3"
proof -
  have ok: "database_ok db" using assms(1) by (simp add: repository_ok_def)
  have "run_call lib clock later (Persist profile projection token state input) db = Inr db1"
    using assms(2) by simp
  then have ok1: "repository_ok db1" using run_call_ok [OF assms(1)] by blast
  note run = repository_run [OF assms(3) ok1]
  obtain c where "c \<in> set (profile_checkpoints db1 (profile_id profile))" "ck_index c = vl_index (lp_ledger projection)"
    using persisted_has_checkpoint [OF ok assms(2)] by blast
  then have "c \<in> set (profile_checkpoints db2 (profile_id profile))" "ck_index c = vl_index (lp_ledger projection)"
    using run by (auto simp: profile_checkpoints_def history_grows_def dest: set_mono_prefix)
  then show ?thesis
    using persist_again [OF _ _ assms(4)] run by (auto simp: repository_ok_def)
qed

lemma pilot_persist_again:
  "\<exists>db3. persist_ledger lib 3 4 pilot_profile pilot_projection (pilot_token ''w'' 1) Catching_Up no_status pilot_persisted =
     Inr (Already_Processed, db3)"
proof -
  let ?db = pilot_persisted and ?tok = "pilot_token ''w'' 1"
  have tok: "normalize_token ?tok = Inr ?tok"
    by (simp add: normalize_token_Inr pilot_token_def MAX_SAFE_EPOCH_def)
  have active: "active_token_filter ?tok n (pilot_row ''w'' 1 Catching_Up 2 10000)" if "n < 10000" for n
    using that by (simp add: active_token_filter_def token_filter_def pilot_row_def pilot_token_def)
  have lock: "lock_active_indexer_lease 3 ?tok None ?db = Inr (pilot_row ''w'' 1 Catching_Up 2 10000)"
    by (simp add: lock_active_indexer_lease_def tok database_now_def pilot_persisted_def active)
  have ens: "ensure_network_profile pilot_profile ?db = Inr ?db"
    by (simp add: ensure_network_profile_def insert_or_skip_def pilot_profile_row pilot_persisted_def pilot_held_def
        pilot_database_def same_profile_def assert_stored_profile_matches_def) (simp add: profile_row_of_def)
  have cps: "profile_checkpoints ?db (lit ''t'') = [checkpoint_row_of (lit ''t'') pilot_ledger]"
    by (simp add: profile_checkpoints_def pilot_persisted_def checkpoint_row_of_def)
  have v: "normalize_indexer_status_update Catching_Up no_status = Inr
      \<lparr>in_primary = None, in_secondary = None, in_agreed_index = None, in_agreed_hash = None,
       ns_state = Catching_Up, ns_error = None\<rparr>"
    by (simp add: normalize_indexer_status_update_def normalize_status_def no_status_def nullable_uint32_def ahead_of_def)
  have ok: "status_row_ok (pilot_row ''w'' 1 Catching_Up 4 10000)"
    by (simp add: status_row_ok_def pilot_row_def agreed_ledger_ok_def agreed_not_ahead_def ready_shape_def
        MAX_SAFE_EPOCH_def lease_window_ok_def)
  have "update_indexer_status 4 ?tok Catching_Up no_status None ?db =
      Inr (pilot_row ''w'' 1 Catching_Up 4 10000, ?db\<lparr>db_statuses := [pilot_row ''w'' 1 Catching_Up 4 10000]\<rparr>)"
    using ok by (simp add: update_indexer_status_def tok v database_now_def update_status_row_def update_rows_def
        active pilot_persisted_def) (simp add: with_status_def pilot_row_def)
  moreover have "same_ledger_evidence (checkpoint_row_of (lit ''t'') pilot_ledger) pilot_ledger = Inr ()"
    by (simp add: same_ledger_evidence_def checkpoint_row_of_def)
  ultimately show ?thesis
    using lock ens cps
    by (simp add: persist_ledger_def pilot_token_def pilot_projection_def) (simp add: checkpoint_row_of_def)
qed

theorem persist_is_idempotent_witness:
  "\<exists>db3. persist_ledger (sample_lib []) 3 4 pilot_profile pilot_projection (pilot_token ''w'' 1) Catching_Up no_status
      pilot_persisted = Inr (Already_Processed, db3) \<and> only_statuses_changed pilot_persisted db3"
proof -
  obtain db3 where "persist_ledger (sample_lib []) 3 4 pilot_profile pilot_projection (pilot_token ''w'' 1) Catching_Up
      no_status pilot_persisted = Inr (Already_Processed, db3)"
    using pilot_persist_again by blast
  moreover from persist_is_idempotent [OF pilot_ok(2) pilot_persist rtranclp.rtrancl_refl this]
  have "only_statuses_changed pilot_persisted db3" by simp
  ultimately show ?thesis by blast
qed

section \<open>The writer lease\<close>

lemma acquired_token:
  assumes "statuses_ok db" and "acquire_indexer_lease clock profile writer d given db = Inr (lease, db')"
  shows "normalize_token (lease_token.truncate lease) = Inr (lease_token.truncate lease)"
proof -
  obtain now epoch holder where r: "tk_profile lease = profile" "tk_writer lease = writer" "tk_epoch lease = epoch + 1"
    "lease_view_of db' = (lease_view_of db)(profile := (epoch + 1, Some (writer, now + d)))" "statuses_ok db'"
    using acquire_refines [OF assms] by blast
  obtain row where row: "read_indexer_status db' profile = Some row" "ss_epoch row = epoch + 1"
    using r(4) by (cases "read_indexer_status db' profile") (auto simp: lease_view_of_def lease_of_row_def fun_eq_iff dest: spec [of _ profile])
  have "status_row_ok row" using token_row_ok [OF _ row(1)] r(5) by (simp add: statuses_ok_def)
  then have "1 \<le> epoch + 1" "epoch + 1 \<le> MAX_SAFE_EPOCH" using row(2) by (simp_all add: status_row_ok_def)
  moreover have "profile_id_pattern profile" "writer_id_pattern writer"
    using assms(2) by (auto simp: acquire_indexer_lease_def normalize_indexer_lease_request_def normalize_token_Inr res_simps)
  ultimately show ?thesis
    using r(1-3) by (simp add: normalize_token_Inr lease_token.truncate_def)
qed

text \<open>
  C3. Fencing. A writer whose lease was followed by another lease of the profile is fenced off for good:
  the second lease has a larger epoch, and from then on, whatever calls follow, the first writer's
  token neither locks the row for persisting, nor renews, nor releases: each throws
  \<open>INDEXER_LEASE_LOST\<close>, and no call to persist a ledger with it returns.
\<close>

theorem stale_lease_is_fenced:
  assumes "repository_ok db"
    and "acquire_indexer_lease c1 profile w1 d1 None db = Inr (l1, db1)"
    and "(repository_step lib)\<^sup>*\<^sup>* db1 db2"
    and "acquire_indexer_lease c2 profile w2 d2 None db2 = Inr (l2, db3)"
    and "(repository_step lib)\<^sup>*\<^sup>* db3 db4"
  shows "tk_epoch l1 < tk_epoch l2 \<and>
    lock_active_indexer_lease c (lease_token.truncate l1) None db4 = coded_failure ''INDEXER_LEASE_LOST'' \<and>
    release_indexer_lease c (lease_token.truncate l1) None db4 = coded_failure ''INDEXER_LEASE_LOST'' \<and>
    renew_indexer_lease c (lease_token.truncate l1) 10000 None db4 = coded_failure ''INDEXER_LEASE_LOST'' \<and>
    \<not> is_ok (persist_ledger lib c later p projection (lease_token.truncate l1) state input db4)"
proof -
  let ?t = "lease_token.truncate l1"
  have call1: "run_call lib c1 c1 (Acquire profile w1 d1) db = Inr db1" using assms(2) by simp
  have ok1: "repository_ok db1" using run_call_ok [OF assms(1) call1] by blast
  note run12 = repository_run [OF assms(3) ok1]
  have call2: "run_call lib c2 c2 (Acquire profile w2 d2) db2 = Inr db3" using assms(4) by simp
  note step23 = run_call_ok [OF _ call2]
  have ok3: "repository_ok db3" using run12 step23 by blast
  note run34 = repository_run [OF assms(5) ok3]
  have st: "statuses_ok db" "statuses_ok db2" "statuses_ok db4"
    using assms(1) run12 run34 by (auto simp: repository_ok_def database_ok_statuses)
  obtain e1 h1 now1 where a1: "tk_profile l1 = profile" "tk_epoch l1 = e1 + 1"
    "lease_view_of db1 = (lease_view_of db)(profile := (e1 + 1, Some (w1, now1 + d1)))"
    using acquire_refines [OF st(1) assms(2)] by blast
  obtain e2 h2 now2 where a2: "lease_view_of db2 profile = (e2, h2)" "tk_epoch l2 = e2 + 1"
    "lease_view_of db3 = (lease_view_of db2)(profile := (e2 + 1, Some (w2, now2 + d2)))"
    using acquire_refines [OF st(2) assms(4)] by blast
  have "fst (lease_view_of db1 profile) \<le> fst (lease_view_of db2 profile)"
    using run12 epochs_grow by blast
  then have less: "tk_epoch l1 < tk_epoch l2" using a1 a2 by simp
  have "stale_token ?t (lease_view_of db3)"
    using less a1 a2 by (simp add: stale_token_def holds_lease_def lease_token.truncate_def)
  then have "stale_token ?t (lease_view_of db4)"
    using run34 stale.steps_inv by blast
  then have lost: "\<not> holds_lease ?t (lease_view_of db4)" by (simp add: stale_token_def)
  have tok: "normalize_token ?t = Inr ?t" using acquired_token [OF st(1) assms(2)] .
  have now: "database_now c None = Inr c" by (simp add: database_now_def)
  note fail = not_held_lost [OF st(3) lost tok now]
  have "\<not> is_ok (persist_ledger lib c later p projection ?t state input db4)"
    using fail(1) by (simp add: persist_ledger_def)
  then show ?thesis
    using less fail(1,2,5) by (simp add: normalize_lease_duration_def MIN_INDEXER_LEASE_DURATION_MS_def
        MAX_INDEXER_LEASE_DURATION_MS_def database_lease_expiration_def)
qed

theorem stale_lease_is_fenced_witness:
  "tk_epoch (pilot_lease ''w'' 1 10000) < tk_epoch (pilot_lease ''v'' 2 20000) \<and>
   lock_active_indexer_lease 10001 (pilot_token ''w'' 1) None (pilot_held ''v'' 2 10000 20000) =
     coded_failure ''INDEXER_LEASE_LOST''"
proof -
  have "lease_token.truncate (pilot_lease ''w'' 1 10000) = pilot_token ''w'' 1"
    by (simp add: pilot_lease_def pilot_token_def lease_token.truncate_def)
  with stale_lease_is_fenced [OF pilot_ok(1) pilot_acquire rtranclp.rtrancl_refl pilot_takeover rtranclp.rtrancl_refl,
      where c = 10001 and lib = "sample_lib []" and later = 0 and p = pilot_profile and projection = pilot_projection
        and state = Catching_Up and input = no_status]
  show ?thesis by simp
qed

text \<open>
  C25. Refinement of the abstract lease. Every call of the repository that returns takes the lease view
  of the database, the epoch and the holder of every profile, along a step of the abstract lease; and
  with the database's clock the lease of a stored profile is granted exactly when no holder is left
  before its expiry, an epoch being free.
\<close>

theorem calls_refine_lease:
  assumes "repository_ok db"
  shows "(case run_call lib clock later call db of
      Inl _ \<Rightarrow> True | Inr db' \<Rightarrow> repository_ok db' \<and> lease_step (lease_view_of db) (lease_view_of db')) \<and>
    (has_profile db profile \<and> profile_id_pattern profile \<and> writer_id_pattern writer \<and>
      MIN_INDEXER_LEASE_DURATION_MS \<le> d \<and> d \<le> MAX_INDEXER_LEASE_DURATION_MS \<and>
      fst (lease_view_of db profile) < MAX_SAFE_EPOCH \<longrightarrow>
      is_ok (acquire_indexer_lease clock profile writer d None db) =
        (case snd (lease_view_of db profile) of None \<Rightarrow> True | Some (w, e) \<Rightarrow> e \<le> clock))"
proof (rule conjI)
  show "case run_call lib clock later call db of
      Inl _ \<Rightarrow> True | Inr db' \<Rightarrow> repository_ok db' \<and> lease_step (lease_view_of db) (lease_view_of db')"
    using run_call_ok [OF assms, of lib clock later call] by (auto split: sum.splits)
  obtain epoch holder where view: "lease_view_of db profile = (epoch, holder)" by fastforce
  have st: "statuses_ok db" using assms by (simp add: repository_ok_def database_ok_statuses)
  show "has_profile db profile \<and> profile_id_pattern profile \<and> writer_id_pattern writer \<and>
      MIN_INDEXER_LEASE_DURATION_MS \<le> d \<and> d \<le> MAX_INDEXER_LEASE_DURATION_MS \<and>
      fst (lease_view_of db profile) < MAX_SAFE_EPOCH \<longrightarrow>
      is_ok (acquire_indexer_lease clock profile writer d None db) =
        (case snd (lease_view_of db profile) of None \<Rightarrow> True | Some (w, e) \<Rightarrow> e \<le> clock)"
  proof (intro impI, elim conjE)
    assume h: "has_profile db profile" "profile_id_pattern profile" "writer_id_pattern writer"
      "MIN_INDEXER_LEASE_DURATION_MS \<le> d" "d \<le> MAX_INDEXER_LEASE_DURATION_MS"
      "fst (lease_view_of db profile) < MAX_SAFE_EPOCH"
    note iff = acquire_iff [OF st h(1-5) view]
    show "is_ok (acquire_indexer_lease clock profile writer d None db) =
        (case snd (lease_view_of db profile) of None \<Rightarrow> True | Some (w, e) \<Rightarrow> e \<le> clock)"
    proof (cases "\<forall>(w, e) \<in> set_option holder. e \<le> clock")
      case True
      from iff(1) [OF True] h(6) view obtain lease db' where "acquire_indexer_lease clock profile writer d None db = Inr (lease, db')"
        by auto
      then show ?thesis using True view by (cases holder) auto
    next
      case False
      then have "\<exists>(w, e) \<in> set_option holder. clock < e" by (cases holder) auto
      from iff(2) [OF this] show ?thesis using False view by (cases holder) auto
    qed
  qed
qed

theorem calls_refine_lease_witness:
  "is_ok (acquire_indexer_lease 10000 (lit ''t'') (lit ''v'') 10000 None (pilot_held ''w'' 1 0 10000)) \<and>
   \<not> is_ok (acquire_indexer_lease 9999 (lit ''t'') (lit ''v'') 10000 None (pilot_held ''w'' 1 0 10000))"
proof -
  let ?db = "pilot_held ''w'' 1 0 10000"
  have view: "lease_view_of ?db (lit ''t'') = (1, Some (lit ''w'', 10000))"
    by (simp add: lease_view_of_def pilot_held_def pilot_row_def lease_of_row_def read_indexer_status_def)
  have "has_profile ?db (lit ''t'')" "profile_id_pattern (lit ''t'')" "writer_id_pattern (lit ''v'')"
    by (simp_all add: pilot_held_def pilot_database_def has_profile_def profile_row_of_def pilot_profile_def)
  then show ?thesis
    using calls_refine_lease [OF pilot_ok(2), where profile = "lit ''t''" and writer = "lit ''v''" and d = 10000
        and lib = "sample_lib []" and later = 0 and call = "Initialize Shared pilot_profile" and clock = 9999]
      calls_refine_lease [OF pilot_ok(2), where profile = "lit ''t''" and writer = "lit ''v''" and d = 10000
        and lib = "sample_lib []" and later = 0 and call = "Initialize Shared pilot_profile" and clock = 10000]
    by (simp add: view MIN_INDEXER_LEASE_DURATION_MS_def MAX_INDEXER_LEASE_DURATION_MS_def MAX_SAFE_EPOCH_def)
qed

end
