(* ===== verification/Pilot_Run.thy ===== *)
theory Pilot_Run
  imports Pilot Indexer_Catalog
begin

text \<open>
  One start of a worker on the pilot network, evaluated effect by effect: it initializes the profile,
  takes the lease, checks the two sources, persists the activation ledger and stops when it is told to.
\<close>

section \<open>The status row of the holder\<close>

definition running_row :: "status_state \<Rightarrow> bool \<Rightarrow> status_row" where
  "running_row state agreed =
     \<lparr>ss_profile = lit ''t'', ss_state = state, ss_primary = Some 7, ss_secondary = Some 7,
      ss_agreed_index = (if agreed then Some 7 else None), ss_agreed_hash = (if agreed then Some pilot_hash else None),
      ss_error = None, ss_writer = Some (lit ''w''), ss_epoch = 1, ss_expires = Some 10000, ss_updated = 0\<rparr>"

definition pilot_tips :: source_tips where
  "pilot_tips = \<lparr>tip_primary = 7, tip_secondary = 7, tip_effective = 7\<rparr>"

definition tips_input :: "bool \<Rightarrow> status_input" where
  "tips_input agreed = \<lparr>in_primary = Some 7, in_secondary = Some 7,
     in_agreed_index = (if agreed then Some 7 else None), in_agreed_hash = (if agreed then Some pilot_hash else None)\<rparr>"

abbreviation pilot_running :: "database \<Rightarrow> status_state \<Rightarrow> bool \<Rightarrow> database" where
  "pilot_running db state agreed \<equiv> db\<lparr>db_statuses := [running_row state agreed]\<rparr>"

abbreviation holder_row :: "status_row \<Rightarrow> bool" where
  "holder_row row \<equiv> ss_profile row = lit ''t'' \<and> ss_writer row = Some (lit ''w'') \<and> ss_epoch row = 1 \<and>
     ss_expires row = Some 10000 \<and> ss_updated row = 0"

lemma pilot_token_ok: "normalize_token (pilot_token ''w'' 1) = Inr (pilot_token ''w'' 1)"
  by (simp add: normalize_token_Inr pilot_token_def MAX_SAFE_EPOCH_def)

lemma holder_active: "holder_row row \<Longrightarrow> active_token_filter (pilot_token ''w'' 1) 0 row"
  by (simp add: active_token_filter_def token_filter_def pilot_token_def)

lemma running_row_ok:
  "state \<in> {Starting, Catching_Up} \<or> (state = Ready \<and> agreed) \<Longrightarrow> status_row_ok (running_row state agreed)"
  by (auto simp: status_row_ok_def running_row_def agreed_ledger_ok_def agreed_not_ahead_def ready_shape_def
      uint32_range_def MAX_SAFE_EPOCH_def lease_window_ok_def)

lemma holder_same: "holder_row row \<Longrightarrow> row\<lparr>ss_expires := Some 10000, ss_updated := 0\<rparr> = row"
  by (cases row) simp

lemma holder_renews:
  assumes "db_statuses db = [row]" and "holder_row row" and "status_row_ok row"
  shows "\<exists>lease. renew_indexer_lease 0 (pilot_token ''w'' 1) 10000 None db = Inr (lease, db)"
proof -
  note same = holder_same [OF assms(2)]
  have db: "db\<lparr>db_statuses := [row]\<rparr> = db" using assms(1) by simp
  have "update_status_row ''INDEXER_LEASE_LOST'' (active_token_filter (pilot_token ''w'' 1) 0)
      (\<lambda>row. row\<lparr>ss_expires := Some 10000, ss_updated := 0\<rparr>) db = Inr (row, db)"
    using assms(1,3) db by (simp add: update_status_row_def update_rows_def holder_active [OF assms(2)] same)
  then show ?thesis
    using assms(2) by (simp add: renew_indexer_lease_def pilot_token_ok normalize_lease_duration_def database_now_def
        database_lease_expiration_def MIN_INDEXER_LEASE_DURATION_MS_def MAX_INDEXER_LEASE_DURATION_MS_def acquired_of_def)
qed

lemma holder_updates:
  assumes "db_statuses db = [row]" and "holder_row row"
    and "state = Catching_Up \<or> (state = Ready \<and> agreed)"
  shows "update_indexer_status 0 (pilot_token ''w'' 1) state (tips_input agreed) None db =
    Inr (running_row state agreed, pilot_running db state agreed)"
proof -
  have v: "normalize_indexer_status_update state (tips_input agreed) = Inr
      \<lparr>in_primary = Some 7, in_secondary = Some 7, in_agreed_index = (if agreed then Some 7 else None),
       in_agreed_hash = (if agreed then Some pilot_hash else None), ns_state = state, ns_error = None\<rparr>"
    using assms(3) by (auto simp: normalize_indexer_status_update_def normalize_status_def tips_input_def nullable_uint32_def
        ahead_of_def uint32_range_def)
  have row: "(with_status \<lparr>in_primary = Some 7, in_secondary = Some 7, in_agreed_index = (if agreed then Some 7 else None),
       in_agreed_hash = (if agreed then Some pilot_hash else None), ns_state = state, ns_error = None\<rparr> row)\<lparr>ss_updated := 0\<rparr> =
      running_row state agreed"
    using assms(2) by (simp add: with_status_def running_row_def)
  have ok: "status_row_ok (running_row state agreed)" using assms(3) by (intro running_row_ok) auto
  show ?thesis
    using assms(1) ok row by (simp add: update_indexer_status_def pilot_token_ok v database_now_def update_status_row_def
        update_rows_def holder_active [OF assms(2)])
qed

section \<open>The steps of the run\<close>

definition pilot_checkpointed :: "status_state \<Rightarrow> database" where
  "pilot_checkpointed state =
     (pilot_running pilot_database state True)\<lparr>db_checkpoints := [checkpoint_row_of (lit ''t'') pilot_ledger]\<rparr>"

abbreviation pilot_caught_up :: "database" where
  "pilot_caught_up \<equiv> pilot_running pilot_database Catching_Up False"

lemma pilot_persists:
  assumes "persist_projection lib (lit ''t'') projection db0 = Inr db"
    and "vl_index (lp_ledger projection) = 7" "vl_hash (lp_ledger projection) = pilot_hash"
    and "db_profiles db0 = [profile_row_of pilot_profile]" "db_statuses db0 = [running_row Catching_Up False]"
      "db_checkpoints db0 = []"
    and "db_statuses db = [running_row Catching_Up False]"
  shows "persist_ledger lib 0 0 pilot_profile projection (pilot_token ''w'' 1) Ready (tips_input True) db0 =
    Inr (Inserted, pilot_running db Ready True)"
proof -
  let ?row = "running_row Catching_Up False" and ?tok = "pilot_token ''w'' 1"
  have holder: "holder_row ?row" by (simp add: running_row_def)
  have lock: "lock_active_indexer_lease 0 ?tok None db0 = Inr ?row"
    using assms(5) by (simp add: lock_active_indexer_lease_def pilot_token_ok database_now_def holder_active [OF holder])
  have same: "db0\<lparr>db_profiles := [profile_row_of pilot_profile]\<rparr> = db0" using assms(4) by simp
  have ens: "ensure_network_profile pilot_profile db0 = Inr db0"
    using assms(4) same by (simp add: ensure_network_profile_def insert_or_skip_def pilot_profile_row same_profile_def
        assert_stored_profile_matches_def) (simp add: profile_row_of_def)
  have cont: "assert_ledger_continuity pilot_profile (get_last_checkpoint db0 (profile_id pilot_profile)) (lp_ledger projection) = Inr ()"
    using assms(2,3,6) by (simp add: get_last_checkpoint_def profile_checkpoints_def assert_ledger_continuity_def pilot_profile_def)
  have "profile_checkpoints db0 (lit ''t'') = []" using assms(6) by (simp add: profile_checkpoints_def)
  moreover have "update_indexer_status 0 ?tok Ready (tips_input True) None db = Inr (running_row Ready True, pilot_running db Ready True)"
    using holder_updates [OF assms(7) holder, of Ready True] by simp
  ultimately show ?thesis
    using lock ens cont assms(1)
    by (simp add: persist_ledger_def pilot_token_def)
qed

lemma pilot_first_update:
  "update_indexer_status 0 (pilot_token ''w'' 1) Catching_Up (tips_input False) None (pilot_held ''w'' 1 0 10000) =
     Inr (running_row Catching_Up False, pilot_caught_up)"
  using holder_updates [of "pilot_held ''w'' 1 0 10000" "pilot_row ''w'' 1 Starting 0 10000" Catching_Up False]
  by (simp add: pilot_held_def pilot_row_def)

lemma pilot_caught_up_ok: "repository_ok pilot_caught_up"
proof -
  have "run_call (sample_lib []) 0 0 (Update_Status (pilot_token ''w'' 1) Catching_Up (tips_input False)) (pilot_held ''w'' 1 0 10000) =
      Inr pilot_caught_up"
    by (simp add: pilot_first_update)
  then show ?thesis using run_call_ok [OF pilot_ok(2)] by blast
qed

lemma pilot_checkpoint_ok: "checkpoint_row_ok (checkpoint_row_of (lit ''t'') pilot_ledger)"
  by (simp add: checkpoint_row_ok_def checkpoint_row_of_def pilot_ledger_def uint32_range_def int4_range_def)

lemma pilot_inserts_checkpoint:
  assumes "db_checkpoints db = []" and "has_profile db (lit ''t'')"
  shows "insert_checkpoint (checkpoint_row_of (lit ''t'') pilot_ledger) db =
    Inr (db\<lparr>db_checkpoints := [checkpoint_row_of (lit ''t'') pilot_ledger]\<rparr>)"
  using assms by (simp add: insert_checkpoint_def insert_row_def pilot_checkpoint_ok) (simp add: checkpoint_row_of_def)

lemma pilot_persist_running:
  "persist_ledger lib 0 0 pilot_profile pilot_projection (pilot_token ''w'' 1) Ready (tips_input True)
     pilot_caught_up = Inr (Inserted, pilot_checkpointed Ready)"
proof -
  have "db_checkpoints pilot_caught_up = []" by (simp add: pilot_database_def empty_database_def)
  then have "persist_projection lib (lit ''t'') pilot_projection pilot_caught_up =
      Inr (pilot_caught_up\<lparr>db_checkpoints := [checkpoint_row_of (lit ''t'') pilot_ledger]\<rparr>)"
    by (simp add: persist_projection_def pilot_projection_def pilot_inserts_checkpoint)
  from pilot_persists [OF this] show ?thesis
    by (simp add: pilot_projection_def pilot_ledger_def pilot_checkpointed_def pilot_database_def empty_database_def)
qed

lemma pilot_release:
  "\<exists>row db. release_indexer_lease 0 (pilot_token ''w'' 1) None (pilot_checkpointed Ready) = Inr (row, db) \<and>
     db_checkpoints db = [checkpoint_row_of (lit ''t'') pilot_ledger]"
proof -
  have "status_row_ok ((running_row Ready True)\<lparr>ss_state := Catching_Up, ss_error := None, ss_writer := None,
      ss_expires := None, ss_updated := 0\<rparr>)"
    by (simp add: status_row_ok_def running_row_def agreed_ledger_ok_def agreed_not_ahead_def ready_shape_def
      uint32_range_def MAX_SAFE_EPOCH_def lease_window_ok_def)
  moreover have "token_filter (pilot_token ''w'' 1) (running_row Ready True)"
    by (simp add: token_filter_def pilot_token_def running_row_def)
  ultimately show ?thesis
    by (simp add: release_indexer_lease_def pilot_token_ok database_now_def update_status_row_def update_rows_def
        pilot_checkpointed_def)
qed

lemma pilot_project: "project_ledger lib pilot_ledger pilot_profile cat = Inr pilot_projection"
  by (simp add: project_ledger_def assert_transaction_ordering_def pilot_projection_def) (simp add: pilot_ledger_def)

section \<open>The run\<close>

definition pilot_preflight :: source_preflight where
  "pilot_preflight = \<lparr>pf_network_id = 2, pf_ranges = [\<lparr>range_min = 7, range_max = 9\<rparr>],
     pf_activation_ledger = pilot_ledger, pf_tips = pilot_tips\<rparr>"

definition pilot_env :: worker_env where
  "pilot_env = \<lparr>we_clock = \<lambda>_. 0, we_others = \<lambda>_. [], we_connect = \<lambda>_. (Inr (), Inr ()),
     we_disconnect = \<lambda>_. (Inr (), Inr ()), we_preflight = \<lambda>_. (Inr pilot_preflight, Inr pilot_preflight),
     we_tip = \<lambda>_. (Inr 7, Inr 7), we_ledger = \<lambda>_ _. (Inr pilot_ledger, Inr pilot_ledger), we_aborted = \<lambda>k. 10 \<le> k\<rparr>"

definition pilot_options :: worker_options where
  "pilot_options = \<lparr>wo_profile = pilot_profile, wo_scope = Shared, wo_poll_interval_ms = 1000,
     wo_lease_duration_ms = 10000, wo_batch_size = 10, wo_writer_id = lit ''w'', wo_replay = None\<rparr>"

definition pilot_world :: "database \<Rightarrow> nat \<Rightarrow> worker_world" where
  "pilot_world db k = \<lparr>ww_db = db, ww_quorum = Some pilot_tips, ww_effects = k, ww_log = [],
     wk_lease = Some (pilot_token ''w'' 1), wk_tips = Some pilot_tips, wk_agreed = None, wk_verified = False, wk_completed = False\<rparr>"

lemma repo_pilot:
  "repo lib pilot_env op w =
     (case op 0 0 (ww_db w) of
        Inl e \<Rightarrow> Some (Inl e, w\<lparr>ww_effects := Suc (ww_effects w)\<rparr>)
      | Inr (x, db') \<Rightarrow> Some (Inr x, w\<lparr>ww_db := db', ww_effects := Suc (ww_effects w)\<rparr>))"
  by (cases w) (simp add: repo_def pilot_env_def run_others_def Let_def split: sum.splits)

lemma pilot_renews:
  assumes "ww_db w = pilot_running db state agreed" "state = Catching_Up \<or> (state = Ready \<and> agreed)"
  shows "renew lib pilot_env pilot_options (pilot_token ''w'' 1) w = Some (Inr (), w\<lparr>ww_effects := Suc (ww_effects w)\<rparr>)"
proof -
  have "status_row_ok (running_row state agreed)" using assms(2) by (intro running_row_ok) auto
  then obtain lease where "renew_indexer_lease 0 (pilot_token ''w'' 1) 10000 None (ww_db w) = Inr (lease, ww_db w)"
    using holder_renews [of "ww_db w" "running_row state agreed"] assms(1) by (auto simp: running_row_def)
  then show ?thesis
    by (cases w) (simp add: renew_def repo_pilot writing_def pilot_options_def)
qed

lemma pilot_same: "same_ledger pilot_ledger pilot_ledger"
  by (simp add: same_ledger_def) (simp add: pilot_ledger_def)

lemma pilot_asks:
  "ask_ledger pilot_env i w = Some (Inr pilot_ledger, w\<lparr>ww_effects := Suc (ww_effects w)\<rparr>)"
  "ww_quorum w = Some pilot_tips \<or> ww_quorum w = None \<Longrightarrow>
     ask_tips pilot_env w = Some (Inr pilot_tips, w\<lparr>ww_effects := Suc (ww_effects w), ww_quorum := Some pilot_tips\<rparr>)"
  "ask_connect pilot_env w = Some (Inr (), w\<lparr>ww_effects := Suc (ww_effects w)\<rparr>)"
  "ask_disconnect pilot_env w = Some (Inr (), w\<lparr>ww_effects := Suc (ww_effects w)\<rparr>)"
  by (auto simp: ask_ledger_def ask_tips_def ask_connect_def ask_disconnect_def ask_def pilot_env_def quorum_ledger_def both_def
      assert_same_ledger_def quorum_tips_def quorum_tips_of_def quorum_connect_def quorum_disconnect_def
      assert_tips_do_not_regress_def pilot_tips_def pilot_same Let_def)

lemma pilot_process:
  "process_ledgers lib pilot_env pilot_options (pilot_token ''w'' 1) pilot_tips 1 7 None Map.empty 0 (pilot_world pilot_caught_up k) =
     Some (Inr (8, Some (checkpoint_from_ledger pilot_ledger), 1),
       (pilot_world (pilot_checkpointed Ready) (k + 3))\<lparr>wk_agreed := Some (7, pilot_hash), ww_log := [Ledger_Processed 7 0 0 0]\<rparr>)"
proof -
  have options: "wo_profile pilot_options = pilot_profile" "ledger_state pilot_options pilot_ledger pilot_tips = Ready"
    "status_for_ledger pilot_ledger pilot_tips = tips_input True"
    by (simp_all add: pilot_options_def ledger_state_def status_for_ledger_def tips_input_def pilot_ledger_def pilot_tips_def)
  have cont: "assert_ledger_continuity pilot_profile None pilot_ledger = Inr ()"
    by (simp add: assert_ledger_continuity_def pilot_profile_def pilot_ledger_def)
  have led: "vl_index pilot_ledger = 7" "vl_hash pilot_ledger = pilot_hash" by (simp_all add: pilot_ledger_def)
  show ?thesis
    by (simp add: One_nat_def io_defs pilot_world_def pilot_renews pilot_asks options cont pilot_project repo_pilot
        pilot_persist_running set_agreed_def io_modify_def observe_def led)
      (simp add: pilot_projection_def)
qed

lemma pilot_run_once:
  "run_once lib pilot_env pilot_options (pilot_token ''w'' 1) (pilot_world pilot_caught_up k) =
     Some (Inr 1, (pilot_world (pilot_checkpointed Ready) (k + 9))\<lparr>wk_agreed := Some (7, pilot_hash),
       ww_log := [Ledger_Processed 7 0 0 0, Caught_Up 7]\<rparr>)"
proof -
  have options: "wo_profile pilot_options = pilot_profile" "wo_replay pilot_options = None" "wo_batch_size pilot_options = 10"
    "activation_ledger_index pilot_profile = 7" "tip_effective pilot_tips = 7" "processing_limit pilot_options pilot_tips = 7"
    by (simp_all add: pilot_options_def pilot_profile_def pilot_tips_def processing_limit_def)
  have none: "get_last_checkpoint pilot_caught_up (lit ''t'') = None" "get_schema_catalog pilot_caught_up (lit ''t'') = []"
    by (simp_all add: get_last_checkpoint_def profile_checkpoints_def get_schema_catalog_def pilot_database_def empty_database_def
        profile_row_of_def)
  have upd: "update_indexer_status 0 (pilot_token ''w'' 1) Catching_Up (tips_input False) None pilot_caught_up =
      Inr (running_row Catching_Up False, pilot_caught_up)"
    using holder_updates [of pilot_caught_up "running_row Catching_Up False" Catching_Up False] by (simp add: running_row_def)
  have status: "runtime_status (pilot_world pilot_caught_up j) = tips_input False" for j
    by (simp add: runtime_status_def pilot_world_def pilot_tips_def tips_input_def)
  have world: "pilot_world db j\<lparr>ww_effects := i\<rparr> = pilot_world db i" "pilot_world db j\<lparr>wk_tips := Some pilot_tips\<rparr> = pilot_world db j"
    "pilot_world db j\<lparr>ww_effects := i, ww_quorum := Some pilot_tips\<rparr> = pilot_world db i" "pilot_world db j\<lparr>ww_db := db', ww_effects := i\<rparr> = pilot_world db' i"
    "ww_effects (pilot_world db j) = j" "ww_db (pilot_world db j) = db" "ww_quorum (pilot_world db j) = Some pilot_tips"
    "wk_verified (pilot_world db j) = False" for db db' i j
    by (simp_all add: pilot_world_def)
  have renews: "renew lib pilot_env pilot_options (pilot_token ''w'' 1) (pilot_world pilot_caught_up j) =
      Some (Inr (), pilot_world pilot_caught_up (Suc j))" for j
    by (subst pilot_renews [of _ Catching_Up False pilot_database]) (simp_all add: world)
  have reads: "repo lib pilot_env (reading f) (pilot_world db j) = Some (Inr (f db), pilot_world db (Suc j))" for f :: "database \<Rightarrow> 'b" and db j
    by (simp add: repo_pilot reading_def world)
  have tips: "ask_tips pilot_env (pilot_world db j) = Some (Inr pilot_tips, pilot_world db (Suc j))" for db j
    by (subst pilot_asks) (simp_all add: world)
  have persists: "persist_runtime_status lib pilot_env (pilot_token ''w'' 1) Catching_Up (pilot_world pilot_caught_up j) =
      Some (Inr (), pilot_world pilot_caught_up (Suc j))" for j
    by (simp add: persist_runtime_status_def io_defs status repo_pilot writing_def world upd)
  have keep: "io_modify (\<lambda>w. w\<lparr>wk_tips := Some pilot_tips\<rparr>) (pilot_world db j) = Some (Inr (), pilot_world db j)" for db j
    by (simp add: io_modify_def world)
  note process = pilot_process [unfolded One_nat_def]
  show ?thesis
    unfolding run_once_def io_bind_def
    by (simp add: io_return_def io_read_def options world renews reads none tips persists keep
        catalog_of_entries_def process del: process_ledgers.simps)
      (simp add: io_modify_def io_return_def observe_def pilot_world_def checkpoint_from_ledger_def pilot_ledger_def)
qed

section \<open>The start\<close>

definition pilot_idle :: worker_world where
  "pilot_idle = \<lparr>ww_db = empty_database, ww_quorum = None, ww_effects = 0, ww_log = [], wk_lease = None, wk_tips = None,
     wk_agreed = None, wk_verified = False, wk_completed = False\<rparr>"

lemma pilot_start_body:
  "start_body lib pilot_env pilot_options pilot_idle =
     Some (Inr (), (pilot_world (pilot_checkpointed Ready) 19)\<lparr>wk_agreed := Some (7, pilot_hash),
       ww_log := [Ledger_Processed 7 0 0 0, Caught_Up 7]\<rparr>)"
proof -
  let ?tok = "pilot_token ''w'' 1"
  have options: "wo_profile pilot_options = pilot_profile" "wo_replay pilot_options = None" "wo_scope pilot_options = Shared"
    "wo_writer_id pilot_options = lit ''w''" "wo_lease_duration_ms pilot_options = 10000"
    by (simp_all add: pilot_options_def)
  have token: "lease_token.truncate (pilot_lease ''w'' 1 10000) = ?tok"
    by (simp add: pilot_lease_def pilot_token_def lease_token.truncate_def)
  have held: "\<exists>lease. renew_indexer_lease 0 ?tok 10000 None (pilot_held ''w'' 1 0 10000) = Inr (lease, pilot_held ''w'' 1 0 10000)"
  proof (rule holder_renews)
    show "db_statuses (pilot_held ''w'' 1 0 10000) = [pilot_row ''w'' 1 Starting 0 10000]" by (simp add: pilot_held_def)
    show "holder_row (pilot_row ''w'' 1 Starting 0 10000)" by (simp add: pilot_row_def)
    show "status_row_ok (pilot_row ''w'' 1 Starting 0 10000)"
      by (simp add: pilot_row_def status_row_ok_def agreed_ledger_ok_def agreed_not_ahead_def ready_shape_def
          MAX_SAFE_EPOCH_def lease_window_ok_def)
  qed
  have renews: "renew lib pilot_env pilot_options ?tok w = Some (Inr (), w\<lparr>ww_effects := Suc (ww_effects w)\<rparr>)"
    if "ww_db w = pilot_held ''w'' 1 0 10000" for w
    using that held by (cases w) (auto simp: renew_def repo_pilot writing_def options)
  have preflight: "quorum_preflight_of pilot_profile None (Inr pilot_preflight) (Inr pilot_preflight) =
      Inr (\<lparr>pf_network_id = 2, pf_ranges = [\<lparr>range_min = 7, range_max = 9\<rparr>], pf_activation_ledger = pilot_ledger, pf_tips = pilot_tips,
        qp_primary_tip = 7, qp_primary_ranges = [\<lparr>range_min = 7, range_max = 9\<rparr>],
        qp_secondary_tip = 7, qp_secondary_ranges = [\<lparr>range_min = 7, range_max = 9\<rparr>]\<rparr>, Some pilot_tips)"
    by (simp add: quorum_preflight_of_def both_def pilot_preflight_def pilot_same assert_same_ledger_def quorum_tips_of_def
        assert_tips_do_not_regress_def Let_def) (simp add: pilot_tips_def pilot_profile_def)
  have none: "get_last_checkpoint (pilot_held ''w'' 1 0 10000) (lit ''t'') = None"
    by (simp add: get_last_checkpoint_def profile_checkpoints_def pilot_held_def pilot_database_def empty_database_def)
  note upd = pilot_first_update
  have poll: "poll_ledgers lib pilot_env pilot_options ?tok (pilot_world pilot_caught_up 9) =
      Some (Inr (), (pilot_world (pilot_checkpointed Ready) 19)\<lparr>wk_agreed := Some (7, pilot_hash),
       ww_log := [Ledger_Processed 7 0 0 0, Caught_Up 7]\<rparr>)"
  proof -
    have go: "we_aborted pilot_env k \<longleftrightarrow> 10 \<le> k" for k by (simp add: pilot_env_def)
    show ?thesis
      by (subst poll_ledgers.simps, simp add: go pilot_run_once) (subst poll_ledgers.simps, simp add: go pilot_world_def)
  qed
  have env: "we_preflight pilot_env k = (Inr pilot_preflight, Inr pilot_preflight)" for k by (simp add: pilot_env_def)
  have status: "runtime_status w = tips_input False" if "wk_tips w = Some pilot_tips" "wk_agreed w = None" for w
    using that by (simp add: runtime_status_def pilot_tips_def tips_input_def)
  show ?thesis
    unfolding start_body_def io_bind_def
    by (simp add: io_modify_def io_return_def io_read_def repo_pilot pilot_idle_def options pilot_initialize pilot_acquire token
        pilot_asks renews ask_preflight_def ask_def env preflight verify_replay_target_def reading_def none verify_checkpoint_def
        persist_runtime_status_def io_bind_def status writing_def upd Let_def)
      (use poll in \<open>simp add: pilot_world_def eval_nat_numeral\<close>)
qed

lemma pilot_start:
  "\<exists>w'. start lib pilot_env pilot_options pilot_idle = Some (Inr (), w') \<and>
     db_checkpoints (ww_db w') = [checkpoint_row_of (lit ''t'') pilot_ledger] \<and>
     ww_log w' = [Ledger_Processed 7 0 0 0, Caught_Up 7]"
proof -
  obtain row db where release: "release_indexer_lease 0 (pilot_token ''w'' 1) None (pilot_checkpointed Ready) = Inr (row, db)"
    "db_checkpoints db = [checkpoint_row_of (lit ''t'') pilot_ledger]"
    using pilot_release by blast
  have idle: "wk_lease pilot_idle = None" by (simp add: pilot_idle_def)
  show ?thesis
    unfolding start_def io_bind_def
    by (simp add: io_read_def io_settle_def idle pilot_start_body try_halt_def io_return_def pilot_asks try_release_def repo_pilot
        writing_def release io_modify_def first_failure_def pilot_world_def)
qed

section \<open>A start that fails\<close>

text \<open>The database has been initialized for another network.\<close>

definition other_database :: database where
  "other_database = empty_database\<lparr>db_profiles := [(profile_row_of pilot_profile)\<lparr>np_network_id := 3\<rparr>]\<rparr>"

lemma other_initialize: "initialize_profile Shared pilot_profile other_database = Inl Plain_Error"
proof -
  have differ: "(profile_row_of pilot_profile)\<lparr>np_network_id := 3\<rparr> \<noteq> profile_row_of pilot_profile"
    by (simp add: profile_row_of_def pilot_profile_def)
  have key: "np_id (profile_row_of pilot_profile) = lit ''t''" by (simp add: profile_row_of_def)
  show ?thesis
    by (simp add: initialize_profile_def ensure_network_profile_def insert_or_skip_def same_profile_def
      other_database_def pilot_profile_row assert_stored_profile_matches_def differ key)
qed

lemma pilot_failed_start:
  "\<exists>w'. start lib pilot_env pilot_options (pilot_idle\<lparr>ww_db := other_database\<rparr>) = Some (Inl Plain_Error, w')"
proof -
  have options: "wo_profile pilot_options = pilot_profile" "wo_scope pilot_options = Shared" by (simp_all add: pilot_options_def)
  have "\<exists>w'. start_body lib pilot_env pilot_options (pilot_idle\<lparr>ww_db := other_database\<rparr>) = Some (Inl Plain_Error, w') \<and> wk_lease w' = None"
    unfolding start_body_def io_bind_def by (simp add: repo_pilot options other_initialize pilot_idle_def)
  then obtain w' where "start_body lib pilot_env pilot_options (pilot_idle\<lparr>ww_db := other_database\<rparr>) = Some (Inl Plain_Error, w')" "wk_lease w' = None"
    by blast
  moreover have "wk_lease pilot_idle = None" by (simp add: pilot_idle_def)
  ultimately show ?thesis
    unfolding start_def io_bind_def
    by (simp add: io_read_def io_settle_def try_halt_def io_return_def pilot_asks try_release_def io_modify_def first_failure_def
        observe_def io_lift_def)
qed

section \<open>A halt\<close>

lemma pilot_halts:
  "\<exists>w'. try_halt lib pilot_env (Some (pilot_token ''w'' 1)) (Inl (Source_Error ''SOURCE_DIVERGENCE'')) (pilot_world pilot_caught_up 9) =
     Some (Inr True, w')"
proof -
  let ?code = "lit ''SOURCE_DIVERGENCE''" and ?tok = "pilot_token ''w'' 1"
  let ?v = "\<lparr>in_primary = Some 7, in_secondary = Some 7, in_agreed_index = None, in_agreed_hash = None,
      ns_state = Halted, ns_error = Some ?code\<rparr>"
  let ?row = "((with_status ?v (running_row Catching_Up False))\<lparr>ss_writer := None, ss_expires := None, ss_updated := 0\<rparr>)"
  have code: "error_code_pattern ?code"
    by (rule stable_codes_sanitized) (simp add: STABLE_INDEXER_ERROR_CODES_def XRPL_SOURCE_ERROR_CODES_def)
  then have v: "normalize_halt_indexer_status (tips_input False) ?code = Inr ?v"
    by (simp add: normalize_halt_indexer_status_def normalize_status_def tips_input_def nullable_uint32_def uint32_range_def
        sanitized_error_code_def)
  have row: "status_row_ok ?row"
    using code by (simp add: status_row_ok_def with_status_def running_row_def agreed_ledger_ok_def agreed_not_ahead_def ready_shape_def
        uint32_range_def MAX_SAFE_EPOCH_def lease_window_ok_def)
  have filter: "token_filter ?tok (running_row Catching_Up False)"
    by (simp add: token_filter_def pilot_token_def running_row_def)
  have incident: "incident_row_ok (incident_of ?tok ?v ?code)"
    using code by (simp add: incident_row_ok_def incident_of_def pilot_token_def MAX_SAFE_EPOCH_def uint32_range_def agreed_ledger_ok_def)
  have none: "db_incidents pilot_database = []" by (simp add: pilot_database_def empty_database_def)
  have profile: "tk_profile ?tok = lit ''t''" by (simp add: pilot_token_def)
  have "\<exists>row db. halt_indexer 0 ?tok (tips_input False) ?code None pilot_caught_up = Inr (row, db)"
    using row filter incident by (simp add: halt_indexer_def pilot_token_ok v database_now_def update_status_row_def update_rows_def
        insert_row_def none profile)
  then obtain row db where halt: "halt_indexer 0 ?tok (tips_input False) ?code None pilot_caught_up = Inr (row, db)" by blast
  have status: "runtime_status (pilot_world pilot_caught_up 9) = tips_input False" "ww_db (pilot_world pilot_caught_up 9) = pilot_caught_up"
    by (simp_all add: runtime_status_def pilot_world_def pilot_tips_def tips_input_def)
  show ?thesis
    by (simp add: try_halt_def io_bind_def io_read_def io_settle_def io_return_def repo_pilot writing_def status source_error_code_def halt)
qed

end
