(* ===== verification/Pilot_Records.thy ===== *)
theory Pilot_Records
  imports Pilot_Run Indexer_Lifecycle
begin

text \<open>
  Records of the pilot network: a schema registration, and a credential that is created and accepted
  in the same ledger, with the tables after persisting them.
\<close>

definition pilot_schema :: schema_definition where
  "pilot_schema = \<lparr>schema_name = lit ''a'', description = lit ''b'', schema_fields = [], extends = None, supersedes = None\<rparr>"

definition pilot_resolved :: resolved_schema where
  "pilot_resolved = \<lparr>resolved_definition = pilot_schema, resolved_fields = [], lineage = []\<rparr>"

definition pilot_accepted :: schema_registration where
  "pilot_accepted = \<lparr>rg_hash = pilot_hash, rg_index = 0, rg_publisher = lit ''r'',
     rg_outcome = Registration_Accepted pilot_hash JNull pilot_schema pilot_resolved\<rparr>"

definition pilot_event :: "event_type \<Rightarrow> nat \<Rightarrow> credential_mutation" where
  "pilot_event event node = \<lparr>cm_hash = pilot_hash, cm_index = 0, cm_node_index = node, cm_object_id = pilot_hash, cm_event = event,
     cm_issuer = lit ''i'', cm_subject = lit ''s'', cm_schema_uid = pilot_hash, cm_uri_hex = None, cm_expiration = None,
     cm_accepted = (event = Accepted), cm_cause = None, cm_snapshot = JObj Plain []\<rparr>"

definition pilot_schema_event_row :: schema_event_row where
  "pilot_schema_event_row = event_row_of (lit ''t'') pilot_ledger pilot_accepted"

definition pilot_schema_row :: schema_row where
  "pilot_schema_row = schema_row_of (lit ''t'') pilot_ledger pilot_accepted pilot_hash pilot_schema pilot_resolved"

lemma pilot_schema_texts [simp]:
  "storable_text (lit ''r'')" "storable_json (schema_value pilot_schema)" "json_value (schema_value pilot_schema)"
  "storable_json (resolved_value pilot_resolved)" "json_value (resolved_value pilot_resolved)"
  by (auto simp: schema_value_def pilot_schema_def fields_value_def relation_value_def storable_ascii resolved_value_def
    pilot_resolved_def)

lemma pilot_schema_rows_ok: "schema_event_row_ok pilot_schema_event_row" "schema_row_ok pilot_schema_row"
  using pilot_schema_texts
  by (simp_all add: pilot_schema_event_row_def event_row_of_def pilot_accepted_def schema_event_row_ok_def
    pilot_schema_row_def schema_row_of_def schema_row_ok_def pilot_ledger_def uint32_range_def int4_range_def)
    (simp add: pilot_schema_def storable_ascii)

lemma pilot_persists_schema:
  assumes "db_schema_events db = []" and "db_schemas db = []" and "has_profile db (lit ''t'')"
  shows "persist_registration (sample_lib []) (lit ''t'') pilot_ledger pilot_accepted db =
    Inr (db\<lparr>db_schema_events := [pilot_schema_event_row], db_schemas := [pilot_schema_row]\<rparr>)"
proof -
  have plain: "plain_database_json (sample_lib []) v = Inr v" if "json_value v" for v
  proof -
    have "\<exists>s. canonical_json (sample_lib []) v = Inr s"
      using that by (simp add: canonical_json_Inr sample_with_def sample_canonicalize_def)
    then show ?thesis by (auto simp: plain_database_json_def)
  qed
  have null: "json_value JNull" by simp
  have outcome: "rg_outcome pilot_accepted = Registration_Accepted pilot_hash JNull pilot_schema pilot_resolved" "rg_hash pilot_accepted = pilot_hash"
    by (simp_all add: pilot_accepted_def)
  have keys: "se_profile pilot_schema_event_row = lit ''t''" "se_hash pilot_schema_event_row = pilot_hash"
    "sc_profile pilot_schema_row = lit ''t''" "sc_hash pilot_schema_row = pilot_hash"
    by (simp_all add: pilot_schema_event_row_def event_row_of_def pilot_schema_row_def schema_row_of_def pilot_accepted_def)
  have "insert_schema_event pilot_schema_event_row db = Inr (db\<lparr>db_schema_events := [pilot_schema_event_row]\<rparr>)"
    using assms by (simp add: insert_schema_event_def insert_or_skip_def insert_row_def pilot_schema_rows_ok keys)
  moreover have "insert_schema pilot_schema_row (db\<lparr>db_schema_events := [pilot_schema_event_row]\<rparr>) =
      Inr (db\<lparr>db_schema_events := [pilot_schema_event_row], db_schemas := [pilot_schema_row]\<rparr>)"
    using assms by (simp add: insert_schema_def insert_or_skip_def insert_row_def pilot_schema_rows_ok keys has_schema_event_def)
  ultimately show ?thesis
    by (simp add: persist_registration_def outcome memo_of_outcome_def plain null
        flip: pilot_schema_event_row_def pilot_schema_row_def)
qed

section \<open>A rejected registration and the ranges of a server\<close>

definition pilot_status :: server_status where
  "pilot_status = \<lparr>sv_network_id = 2, sv_index = 8, sv_hash = pilot_hash, sv_ranges = [\<lparr>range_min = 7, range_max = 9\<rparr>]\<rparr>"

lemma pilot_complete_ledgers: "parse_complete_ledgers (jlit ''8-9, 7'') = Inr (sv_ranges pilot_status)"
  by (simp add: parse_complete_ledgers_def pilot_status_def parse_range_def digits_def js_trim_def js_whitespace_def
    lit_def ch_def class_unat dec_value_def response_uint_def merge_ranges_def merge_range_def uint32_max_def)

definition pilot_memo :: jsval where
  "pilot_memo = JObj Plain [(lit ''Memo'', JObj Plain
     [(lit ''MemoType'', jlit ''7863733A736368656D615F7265676973746572'')])]"

definition pilot_transaction :: ledger_transaction where
  "pilot_transaction = \<lparr>lt_hash = pilot_hash,
     lt_transaction = JObj Plain [(lit ''TransactionType'', jlit ''Payment''), (lit ''Account'', jlit ''r''),
       (lit ''Destination'', JStr XRPL_ACCOUNT_ZERO), (lit ''Amount'', jlit ''1''),
       (lit ''Memos'', JArr [pilot_memo])],
     lt_metadata = JObj Plain [(lit ''TransactionResult'', jlit ''tesSUCCESS'')],
     lt_index = 0\<rparr>"

lemma pilot_memo_type: "memo_text (jlit ''7863733A736368656D615F7265676973746572'') = Some (lit ''xcs:schema_register'')"
  by (simp add: memo_text_def lit_def class_unat hex_digit_value_def text_decode_def of_point_def)

lemma pilot_registration:
  "interpret_schema_registration lib pilot_transaction ledger pilot_profile cat =
     Some \<lparr>rg_hash = pilot_hash, rg_index = 0, rg_publisher = lit ''r'',
       rg_outcome = Registration_Rejected (Envelope_Reason ''REGISTRATION_MEMO_FORMAT'') None\<rparr>"
proof -
  let ?tx = "lt_transaction pilot_transaction"
  have gets: "get ?tx ''TransactionType'' = jlit ''Payment''" "get ?tx ''Account'' = jlit ''r''"
    "get ?tx ''Destination'' = JStr XRPL_ACCOUNT_ZERO" "get ?tx ''Amount'' = jlit ''1''" "get ?tx ''DeliverMax'' = JUndef"
    "get ?tx ''Paths'' = JUndef" "get ?tx ''SendMax'' = JUndef" "get ?tx ''DeliverMin'' = JUndef" "get ?tx ''Flags'' = JUndef"
    "get (lt_metadata pilot_transaction) ''TransactionResult'' = jlit ''tesSUCCESS''"
    by (simp_all add: pilot_transaction_def prop_of_def lit_def)
  have pay: "is_exact_payment pilot_transaction pilot_profile"
    by (simp add: is_exact_payment_def gets has_exact_registration_amount_def Let_def) (simp add: pilot_profile_def)
  have memos: "array_items (get ?tx ''Memos'') = [pilot_memo]"
    by (simp add: pilot_transaction_def array_items_def prop_of_def lit_def)
  have memo: "get (memo_fields pilot_memo) ''MemoType'' = jlit ''7863733A736368656D615F7265676973746572''"
    "get (memo_fields pilot_memo) ''MemoFormat'' = JUndef"
    by (simp_all add: pilot_memo_def memo_fields_def object_like_def prop_of_def lit_def)
  have "memo_text JUndef = None" by (simp add: memo_text_def)
  then show ?thesis
    by (simp add: interpret_schema_registration_def extract_registration_envelope_def pay gets memos memo pilot_memo_type
       ) (simp add: pilot_transaction_def)
qed

section \<open>A credential that is created and accepted\<close>

definition pilot_generation :: "bool \<Rightarrow> generation_row" where
  "pilot_generation acc = \<lparr>gr_profile = lit ''t'', gr_id = pilot_hash, gr_object_id = pilot_hash, gr_issuer = lit ''i'',
     gr_subject = lit ''s'', gr_schema_uid = pilot_hash, gr_uri_hex = None, gr_expiration = None, gr_accepted = acc,
     gr_created_ledger = 7, gr_created_index = 0, gr_last_ledger = 7, gr_deleted_ledger = None, gr_cause = None\<rparr>"

definition pilot_credentials :: ledger_projection where
  "pilot_credentials = \<lparr>lp_ledger = pilot_ledger, lp_registrations = [pilot_accepted],
     lp_mutations = [pilot_event Created 0, pilot_event Accepted 1], lp_malformed = 0\<rparr>"

definition pilot_key :: object_key where
  "pilot_key obj = (lit ''i'', lit ''s'', pilot_hash)"

lemma pilot_index: "vl_index pilot_ledger = 7" "vl_hash pilot_ledger = pilot_hash"
  by (simp_all add: pilot_ledger_def)

lemma pilot_generation_ok: "generation_row_ok (pilot_generation acc)"
  by (simp add: generation_row_ok_def pilot_generation_def uint32_range_def int4_range_def)

lemma pilot_event_row_ok: "event \<noteq> Deleted \<Longrightarrow> node < 2 \<Longrightarrow>
    event_row_ok (event_row_of_mutation (lit ''t'') pilot_ledger (pilot_event event node) pilot_hash)"
  by (simp add: event_row_ok_def event_row_of_mutation_def pilot_event_def pilot_index uint32_range_def int4_range_def)

lemma pilot_credential_events:
  assumes "db_generations db = []" and "db_events db = []" and "has_profile db (lit ''t'')" and "db_schemas db = [pilot_schema_row]"
  shows "\<exists>events. fold_res (persist_credential_mutation (lit ''t'') pilot_ledger) (lp_mutations pilot_credentials) db =
    Inr (db\<lparr>db_generations := [pilot_generation True], db_events := events\<rparr>)"
proof -
  let ?db1 = "db\<lparr>db_generations := [pilot_generation False]\<rparr>" and ?db2 = "\<lambda>e. db\<lparr>db_generations := [pilot_generation True], db_events := [e]\<rparr>"
  let ?ev = "\<lambda>event node. event_row_of_mutation (lit ''t'') pilot_ledger (pilot_event event node) pilot_hash"
  have schema: "has_schema db (lit ''t'') pilot_hash"
    using assms(4) by (simp add: has_schema_def pilot_schema_row_def schema_row_of_def)
  have row: "generation_row_of (lit ''t'') pilot_ledger (pilot_event Created 0) = pilot_generation False"
    by (simp add: generation_row_of_def pilot_event_def pilot_generation_def pilot_index)
  have keys: "gr_profile (pilot_generation acc) = lit ''t''" "gr_schema_uid (pilot_generation acc) = pilot_hash"
    "gr_id (pilot_generation acc) = pilot_hash" "gr_object_id (pilot_generation acc) = pilot_hash" "live (pilot_generation acc)"
    "accept_generation pilot_ledger (pilot_generation acc) = pilot_generation True" for acc
    by (simp_all add: pilot_generation_def live_def accept_generation_def pilot_index)
  have ev: "cm_event (pilot_event e n) = e" "cm_hash (pilot_event e n) = pilot_hash" "cm_object_id (pilot_event e n) = pilot_hash" for e n
    by (simp_all add: pilot_event_def)
  have ce: "ce_profile (?ev e n) = lit ''t''" "ce_schema_uid (?ev e n) = pilot_hash" "ce_generation (?ev e n) = pilot_hash"
    "ce_node_index (?ev e n) = n" for e n
    by (simp_all add: event_row_of_mutation_def pilot_event_def)
  have created: "persist_credential_mutation (lit ''t'') pilot_ledger (pilot_event Created 0) db = Inr (?db1\<lparr>db_events := [?ev Created 0]\<rparr>)"
    using assms schema pilot_event_row_ok [of Created 0]
    by (simp add: persist_credential_mutation_def persist_generation_def insert_generation_def insert_row_def row keys ev
        pilot_generation_ok insert_credential_event_def insert_or_skip_def ce has_generation_def)
  have "live_generation (?db1\<lparr>db_events := [?ev Created 0]\<rparr>) (lit ''t'') pilot_hash = Some (pilot_generation False)"
    by (simp add: live_generation_def keys latest_by_def)
  then have accepted: "persist_credential_mutation (lit ''t'') pilot_ledger (pilot_event Accepted 1) (?db1\<lparr>db_events := [?ev Created 0]\<rparr>) =
      Inr (db\<lparr>db_generations := [pilot_generation True], db_events := [?ev Created 0, ?ev Accepted 1]\<rparr>)"
    using assms schema pilot_event_row_ok [of Accepted 1]
    by (simp add: persist_credential_mutation_def persist_generation_def update_generation_def update_rows_def keys ev
        pilot_generation_ok insert_credential_event_def insert_or_skip_def insert_row_def ce has_generation_def same_event_def)
  show ?thesis
    using created accepted by (auto simp: pilot_credentials_def)
qed

lemma pilot_persist_credentials:
  "\<exists>db. persist_ledger (sample_lib []) 0 0 pilot_profile pilot_credentials (pilot_token ''w'' 1) Ready (tips_input True)
      pilot_caught_up = Inr (Inserted, db) \<and> db_generations db = [pilot_generation True]"
proof -
  have empty: "db_schema_events pilot_caught_up = []" "db_schemas pilot_caught_up = []" "db_generations pilot_caught_up = []"
    "db_events pilot_caught_up = []" "db_checkpoints pilot_caught_up = []"
    by (simp_all add: pilot_database_def empty_database_def)
  let ?db1 = "pilot_caught_up\<lparr>db_schema_events := [pilot_schema_event_row], db_schemas := [pilot_schema_row]\<rparr>"
  have one: "persist_registration (sample_lib []) (lit ''t'') pilot_ledger pilot_accepted pilot_caught_up = Inr ?db1"
    using pilot_persists_schema [OF empty(1,2)] by simp
  obtain events where two: "fold_res (persist_credential_mutation (lit ''t'') pilot_ledger) (lp_mutations pilot_credentials) ?db1 =
      Inr (?db1\<lparr>db_generations := [pilot_generation True], db_events := events\<rparr>)"
    using pilot_credential_events [of ?db1] empty by auto
  let ?db2 = "?db1\<lparr>db_generations := [pilot_generation True], db_events := events\<rparr>"
  have three: "insert_checkpoint (checkpoint_row_of (lit ''t'') pilot_ledger) ?db2 =
      Inr (?db2\<lparr>db_checkpoints := [checkpoint_row_of (lit ''t'') pilot_ledger]\<rparr>)"
    using empty(5) by (intro pilot_inserts_checkpoint) simp_all
  have led: "lp_ledger pilot_credentials = pilot_ledger" "lp_registrations pilot_credentials = [pilot_accepted]"
    by (simp_all add: pilot_credentials_def)
  have "persist_projection (sample_lib []) (lit ''t'') pilot_credentials pilot_caught_up =
      Inr (?db2\<lparr>db_checkpoints := [checkpoint_row_of (lit ''t'') pilot_ledger]\<rparr>)"
    using one two three by (simp add: persist_projection_def led)
  from pilot_persists [OF this] show ?thesis
    by (simp add: led pilot_index pilot_database_def empty_database_def)
qed

end
