(* ===== verification/Ingestion_Guarantees.thy ===== *)
theory Ingestion_Guarantees
  imports Pilot_Records Indexer_Catalog
begin

text \<open>
  The guarantees of the indexer's sources, of its projection of ledgers and of the runs of its worker.
\<close>

section \<open>Sources and projections\<close>

text \<open>
  C18. The coverage check is exact. A source whose server reports its complete ledgers passes the check
  of a profile exactly when it is on the network of the profile, its tip is not below the activation
  ledger, and every single ledger from the activation to the tip lies in one of the ranges the
  server has written, in whatever order, adjacent or overlapping; merging the ranges loses nothing.
\<close>

theorem coverage_check_is_exact:
  assumes "parse_complete_ledgers (JStr s) = Inr (sv_ranges status)"
  shows "\<exists>ranges. traverse parse_range (split_on (ch CHR '','') s) = Inr ranges \<and>
    (assert_source_covers_profile status profile = Inr () \<longleftrightarrow>
      sv_network_id status = profile_network_id profile \<and> activation_ledger_index profile \<le> sv_index status \<and>
      (\<forall>n. activation_ledger_index profile \<le> n \<and> n \<le> sv_index status \<longrightarrow> list_ex (in_range n) ranges))"
proof -
  obtain ranges where ranges: "traverse parse_range (split_on (ch CHR '','') s) = Inr ranges"
    "sv_ranges status = merge_ranges ranges"
    using assms by (auto simp: parse_complete_ledgers_def res_simps split: if_splits)
  have "\<forall>r \<in> set ranges. range_min r \<le> range_max r"
  proof
    fix r assume "r \<in> set ranges"
    then obtain i where "i < length ranges" "r = ranges ! i" by (auto simp: in_set_conv_nth)
    then have "parse_range (split_on (ch CHR '','') s ! i) = Inr r"
      using ranges(1) by (simp add: traverse_eq_Inr list_all2_conv_all_nth)
    then show "range_min r \<le> range_max r" by (rule parse_range_Inr)
  qed
  from merge_ranges_covers [OF this] show ?thesis
    by (intro exI [of _ ranges]) (simp add: ranges assert_source_covers_profile_def)
qed

theorem coverage_check_is_exact_witness:
  "\<exists>ranges. traverse parse_range (split_on (ch CHR '','') (lit ''8-9, 7'')) = Inr ranges \<and>
    (\<forall>n. 7 \<le> n \<and> n \<le> 8 \<longrightarrow> list_ex (in_range n) ranges)"
proof -
  have "assert_source_covers_profile pilot_status pilot_profile = Inr ()"
    by (simp add: assert_source_covers_profile_def pilot_status_def pilot_profile_def)
  then show ?thesis
    using coverage_check_is_exact [OF pilot_complete_ledgers, of pilot_profile]
    by (auto simp: pilot_profile_def pilot_status_def)
qed

text \<open>
  C15. Soundness of the projection of a ledger. The registrations are in transaction order, each comes
  from a transaction of the ledger, and an accepted one carries the canonical schema of an exact payment
  to the registry that resolves among the schemas registered before it, under the UID of its
  coordinates. The mutations are in transaction and node order, each is well-formed, comes from a
  transaction of the ledger and belongs to a schema registered before or in its transaction.
\<close>

theorem projection_is_sound:
  assumes "project_ledger lib ledger profile cat = Inr projection"
  shows "lp_ledger projection = ledger \<and>
    sorted_wrt (\<lambda>r q. rg_index r < rg_index q) (lp_registrations projection) \<and>
    (\<forall>r \<in> set (lp_registrations projection). \<exists>t \<in> set (vl_transactions ledger). registration_ok lib profile ledger
       (add_registrations profile (vl_index ledger) (registrations_before (rg_index r) (lp_registrations projection)) cat) t r) \<and>
    sorted_wrt mutation_before (lp_mutations projection) \<and>
    (\<forall>m \<in> set (lp_mutations projection). mutation_ok lib m \<and>
       (\<exists>t \<in> set (vl_transactions ledger). cm_hash m = lt_hash t \<and> cm_index m = lt_index t) \<and>
       (cat (cm_schema_uid m) \<noteq> None \<or>
        (\<exists>r \<in> set (lp_registrations projection). accepted_uid r = Some (cm_schema_uid m) \<and> rg_index r \<le> cm_index m)))"
proof -
  obtain rs ms k where run: "project_transactions lib ledger profile cat (vl_transactions ledger) = (rs, ms, k)"
    by (cases "project_transactions lib ledger profile cat (vl_transactions ledger)")
  then have ordered: "ordered_from 0 (vl_transactions ledger)"
    and p: "projection = \<lparr>lp_ledger = ledger, lp_registrations = rs, lp_mutations = ms, lp_malformed = k\<rparr>"
    using assms by (auto simp: project_ledger_def assert_transaction_ordering_def res_simps split: if_splits)
  show ?thesis
    using project_transactions_registrations [OF run ordered] project_transactions_mutations [OF run ordered]
    unfolding p ledger_projection.select_convs by blast
qed

theorem projection_is_sound_witness:
  "\<exists>projection. project_ledger (sample_lib []) (pilot_ledger\<lparr>vl_transactions := [pilot_transaction]\<rparr>) pilot_profile Map.empty = Inr projection \<and>
     length (lp_registrations projection) = 1 \<and>
     list_all (\<lambda>r. rg_hash r = pilot_hash \<and> rg_index r = 0) (lp_registrations projection)"
proof -
  let ?led = "pilot_ledger\<lparr>vl_transactions := [pilot_transaction]\<rparr>"
  have idx: "lt_index pilot_transaction = 0" "get (lt_metadata pilot_transaction) ''AffectedNodes'' = JUndef"
    by (simp_all add: pilot_transaction_def prop_of_def lit_def)
  then obtain projection where run: "project_ledger (sample_lib []) ?led pilot_profile Map.empty = Inr projection"
    and one: "length (lp_registrations projection) = 1"
    by (simp add: project_ledger_def assert_transaction_ordering_def pilot_registration Let_def split_beta)
  have "rg_hash r = pilot_hash \<and> rg_index r = 0" if "r \<in> set (lp_registrations projection)" for r
    using projection_is_sound [OF run] that by (auto simp: registration_ok_def pilot_transaction_def)
  then show ?thesis using run one by (auto simp: list_all_iff)
qed

section \<open>Retries\<close>

text \<open>
  Further guarantee: Retries are bounded and return. A serializable transaction always returns; it is tried at least once
  and at most as often as the options say, never sleeps after the last try, and the pause before
  try \<open>i + 2\<close> is at most \<open>min(maxDelay, baseDelay * 2^i)\<close> milliseconds, whatever the errors and random numbers.
\<close>

theorem retries_are_bounded:
  assumes "1 \<le> attempts" and "attempts \<le> MAX_SAFE_EPOCH" and "0 \<le> base_ms" and "base_ms \<le> max_ms" and "max_ms \<le> MAX_SAFE_EPOCH"
  shows "\<exists>r t. run_serializable_transaction env
      \<lparr>max_attempts = Some attempts, base_delay_ms = Some base_ms, max_delay_ms = Some max_ms\<rparr> h = Some (r, h @ t) \<and>
    1 \<le> attempts_in t \<and> int (attempts_in t) \<le> attempts \<and> length (delays_in t) < attempts_in t \<and>
    (\<forall>i < length (delays_in t). 0 \<le> delays_in t ! i \<and> delays_in t ! i \<le> min max_ms (base_ms * 2 ^ i))"
proof -
  have run: "run_serializable_transaction env \<lparr>max_attempts = Some attempts, base_delay_ms = Some base_ms, max_delay_ms = Some max_ms\<rparr> h =
      attempt_from env base_ms max_ms 1 (nat (attempts - 1)) h"
    using assms by (simp add: run_serializable_transaction_def option_or_def positive_integer_def non_negative_integer_def
      io_bind_def io_lift_def)
  obtain r h' where h': "attempt_from env base_ms max_ms 1 (nat (attempts - 1)) h = Some (r, h')"
    using attempt_from_total [of env base_ms max_ms 1 "nat (attempts - 1)"] unfolding io_total_def by fastforce
  show ?thesis
    using attempt_from_bounds [OF assms(3,4) h'] assms(1) run h' by (auto simp: delay_cap_def)
qed

theorem retries_are_bounded_witness:
  "\<exists>r t. run_serializable_transaction \<lparr>run_attempt = \<lambda>h. Inl (Error_Object (Some ''40001'') None), draw_random = \<lambda>h. Some (1, 2)\<rparr>
      \<lparr>max_attempts = Some 5, base_delay_ms = Some 10, max_delay_ms = Some 250\<rparr> [] = Some (r, t) \<and> attempts_in t \<le> 5"
  using retries_are_bounded [of 5 10 250 "\<lparr>run_attempt = \<lambda>h. Inl (Error_Object (Some ''40001'') None), draw_random = \<lambda>h. Some (1, 2)\<rparr>" "[]"]
  by (auto simp: MAX_SAFE_EPOCH_def)

section \<open>Runs of the worker\<close>

text \<open>
  C27. A run returns and is bounded. Whatever the sources, the database and the other processes do, one run
  of the worker ends, with an error or with the number of ledgers it has inserted, which is at most the
  batch size.
\<close>

theorem run_is_bounded:
  assumes "new_worker given = Inr options"
  shows "\<exists>r w'. run_once lib env options token w = Some (r, w') \<and>
    (case r of Inl _ \<Rightarrow> True | Inr n \<Rightarrow> 0 \<le> n \<and> n \<le> wo_batch_size options \<and> n \<le> 100)"
proof -
  have size: "1 \<le> wo_batch_size options" "wo_batch_size options \<le> 100"
    using assms by (auto simp: new_worker_def res_simps split: if_splits)
  have "run_once lib env options token w \<noteq> None"
    using run_once_total [of lib env options token] unfolding io_total_def by (rule spec)
  then obtain r w' where run: "run_once lib env options token w = Some (r, w')" by auto
  then show ?thesis
    using run_once_gives [OF size(1), of lib env token] size(2) by (cases r) (fastforce simp: io_gives_def)+
qed

text \<open>
  C28. Errors of a run. A worker that stops with an error has given up its lease token and has reported the stable
  code of that error last.
\<close>

theorem failed_start_is_reported:
  assumes "start lib env options w = Some (Inl e, w')" and "wk_lease w = None"
  shows "wk_lease w' = None \<and> ww_log w' \<noteq> [] \<and> last (ww_log w') = Failed (source_error_code e)"
  using start_ends [OF assms] by simp

theorem run_is_bounded_witness:
  "\<exists>w'. run_once (sample_lib []) pilot_env pilot_options (pilot_token ''w'' 1) (pilot_world pilot_caught_up 9) = Some (Inr 1, w') \<and>
     1 \<le> wo_batch_size pilot_options"
proof -
  have new: "new_worker pilot_options = Inr pilot_options"
    by (simp add: new_worker_def pilot_options_def)
  obtain w' where run: "run_once (sample_lib []) pilot_env pilot_options (pilot_token ''w'' 1) (pilot_world pilot_caught_up 9) =
      Some (Inr 1, w')"
    using pilot_run_once by blast
  with run_is_bounded [OF new, of "sample_lib []" pilot_env "pilot_token ''w'' 1" "pilot_world pilot_caught_up 9"]
  show ?thesis by auto
qed

theorem failed_start_is_reported_witness:
  "\<exists>w'. start (sample_lib []) pilot_env pilot_options (pilot_idle\<lparr>ww_db := other_database\<rparr>) = Some (Inl Plain_Error, w') \<and>
     last (ww_log w') = Failed ''INDEXER_FAILED''"
proof -
  obtain w' where run: "start (sample_lib []) pilot_env pilot_options (pilot_idle\<lparr>ww_db := other_database\<rparr>) = Some (Inl Plain_Error, w')"
    using pilot_failed_start by blast
  have "wk_lease (pilot_idle\<lparr>ww_db := other_database\<rparr>) = None" by (simp add: pilot_idle_def)
  with failed_start_is_reported [OF run] run show ?thesis by (auto simp: source_error_code_def)
qed



text \<open>
  C14. Evidence. If every checkpoint in the database is a ledger that both sources have returned alike, and the
  other writers persist only such ledgers, then after a start of the worker the same holds, however
  the answers of the sources differ, regress or fail on the way: no ledger of one source alone is persisted.
\<close>

theorem checkpoints_have_two_sources:
  assumes "others_evidenced env" and "repository_ok (ww_db w)" and "all_evidenced env (ww_db w)"
    and "start lib env options w = Some (r, w')"
  shows "repository_ok (ww_db w') \<and> all_evidenced env (ww_db w')"
  using evidence.start_related [OF assms(4)] assms(1-3) by (simp add: evidence_kept_def)

theorem checkpoints_have_two_sources_witness:
  "\<exists>w'. start (sample_lib []) pilot_env pilot_options pilot_idle = Some (Inr (), w') \<and>
     evidenced pilot_env (checkpoint_row_of (lit ''t'') pilot_ledger) \<and> db_checkpoints (ww_db w') \<noteq> []"
proof -
  obtain w' where run: "start (sample_lib []) pilot_env pilot_options pilot_idle = Some (Inr (), w')"
    "db_checkpoints (ww_db w') = [checkpoint_row_of (lit ''t'') pilot_ledger]"
    using pilot_start by blast
  have "others_evidenced pilot_env" by (simp add: others_evidenced_def pilot_env_def)
  moreover have "repository_ok (ww_db pilot_idle)" "all_evidenced pilot_env (ww_db pilot_idle)"
    using repository.reachable_inv [OF refl rtranclp.rtrancl_refl]
    by (simp_all add: pilot_idle_def all_evidenced_def empty_database_def)
  ultimately have "all_evidenced pilot_env (ww_db w')"
    using checkpoints_have_two_sources [OF _ _ _ run(1)] by blast
  then show ?thesis using run by (auto simp: all_evidenced_def)
qed

section \<open>What the tables mean\<close>

text \<open>
  Further guarantee: Refinement of the schema catalog. Reading the rows of the schemas back after the registrations of a ledger
  have been persisted gives the catalog the worker computes in memory: the stored catalog with each
  accepted registration added under its UID.
\<close>

theorem tables_refine_catalog:
  assumes "database_ok db" and "find (\<lambda>r. np_id r = profile_id profile) (db_profiles db) = Some (profile_row_of profile)"
    and "fold_res (persist_registration lib (profile_id profile) ledger) rs db = Inr db'"
    and "fresh_registrations db (profile_id profile) rs"
  shows "catalog_of_entries (get_schema_catalog db' (profile_id profile)) =
    add_registrations profile (vl_index ledger) rs (catalog_of_entries (get_schema_catalog db (profile_id profile)))"
proof -
  have ok: "database_ok db'" using assms(3,1) by (rule fold_res_inv) (blast intro: persist_registration_ok)
  have reg: "db_profiles t = db_profiles s" if "persist_registration lib (profile_id profile) ledger r s = Inr t" for r s t
    using that by (cases "rg_outcome r")
      (auto simp: persist_registration_def insert_schema_event_def insert_schema_def res_simps)
  have profiles: "db_profiles db' = db_profiles db"
    using assms(3) by (rule fold_res_rel) (simp_all add: reg)
  have n: "np_network_id (profile_row_of profile) = profile_network_id profile" by (simp add: profile_row_of_def)
  let ?cat = "\<lambda>db uid. map_option (catalog_entry_of_row (profile_network_id profile)) (schema_of_uid db (profile_id profile) uid)"
  have old: "catalog_of_entries (get_schema_catalog db (profile_id profile)) = ?cat db"
    using stored_catalog [OF assms(1,2)] unfolding n by (rule ext)
  have "find (\<lambda>r. np_id r = profile_id profile) (db_profiles db') = Some (profile_row_of profile)"
    using assms(2) unfolding profiles .
  then have "catalog_of_entries (get_schema_catalog db' (profile_id profile)) = ?cat db'"
    using stored_catalog [OF ok] unfolding n [symmetric] by (intro ext)
  then show ?thesis
    unfolding old by (simp only: persist_registrations_catalog [OF assms(3,4)])
qed

theorem tables_refine_catalog_witness:
  "\<exists>db'. fold_res (persist_registration (sample_lib []) (lit ''t'') pilot_ledger) [pilot_accepted] pilot_database = Inr db' \<and>
     catalog_of_entries (get_schema_catalog db' (lit ''t'')) pilot_hash =
       entry_of_registration pilot_profile 7 pilot_accepted"
proof -
  have empty: "db_schema_events pilot_database = []" "db_schemas pilot_database = []"
    by (simp_all add: pilot_database_def empty_database_def)
  obtain db' where run: "fold_res (persist_registration (sample_lib []) (lit ''t'') pilot_ledger) [pilot_accepted] pilot_database = Inr db'"
    using pilot_persists_schema [OF empty pilot_has_profile] by simp
  have fresh: "fresh_registrations pilot_database (profile_id pilot_profile) [pilot_accepted]"
    by (simp add: fresh_registrations_def accepted_registrations_def accepted_uid_def pilot_accepted_def empty)
  have stored: "find (\<lambda>r. np_id r = profile_id pilot_profile) (db_profiles pilot_database) = Some (profile_row_of pilot_profile)"
    by (simp add: pilot_database_def) (simp add: profile_row_of_def)
  have "catalog_of_entries (get_schema_catalog db' (lit ''t'')) pilot_hash =
      add_registrations pilot_profile 7 [pilot_accepted] (catalog_of_entries (get_schema_catalog pilot_database (lit ''t''))) pilot_hash"
    using tables_refine_catalog [OF _ stored _ fresh, of "sample_lib []" pilot_ledger db'] pilot_ok(1) run
    by (simp add: repository_ok_def pilot_ledger_def)
  then show ?thesis
    using run by (auto simp: add_registrations_def add_registration_def entry_of_registration_def pilot_accepted_def)
qed

text \<open>
  C9. Refinement of the lifecycle of credentials. With the object id of a credential determining its issuer,
  subject and schema, as on the ledger, a ledger that is inserted takes the live generations of the profile
  through exactly the abstract lifecycle of its mutations: a credential is created only when none is
  live, accepted and deleted only when one is, and stays the same generation from creation to deletion.
\<close>

theorem tables_refine_lifecycle:
  assumes "repository_ok db" and "objects_ok key db" and "list_all (mutation_keyed key) (lp_mutations projection)"
    and "persist_ledger lib clock later profile projection token state input db = Inr (Inserted, db')"
  shows "objects_ok key db' \<and>
    fold_res lifecycle_step (lp_mutations projection) (lifecycle_of db (profile_id profile)) =
      Inr (lifecycle_of db' (profile_id profile))"
proof -
  have ok: "database_ok db" using assms(1) by (simp add: repository_ok_def)
  obtain db1 db2 row where db1: "ensure_network_profile profile db = Inr db1"
    and db2: "persist_projection lib (profile_id profile) projection db1 = Inr db2"
    and upd: "update_indexer_status later token state input None db2 = Inr (row, db')"
    using persist_ledger_Inr [OF assms(4)] by auto
  have ok1: "database_ok db1" using ok db1 by (rule ensure_network_profile_ok)
  obtain rows where rows: "db1 = db\<lparr>db_profiles := rows\<rparr>" using ensure_network_profile_Inr [OF ok db1] by blast
  have ok2: "database_ok db2" using ok1 db2 persist_projection_ok by blast
  have same: "db_generations db1 = db_generations db" "db_generations db' = db_generations db2"
    using rows update_refines [OF database_ok_statuses [OF ok2] upd] only_statuses_generations by (simp, blast)
  have "objects_ok key db1" using assms(2) by (simp add: objects_ok_def same)
  from persist_projection_lifecycle [OF ok1 this assms(3) db2] show ?thesis
    unfolding lifecycle_of_same [OF same(1)] lifecycle_of_same [OF same(2)] by (simp add: objects_ok_def same)
qed

theorem tables_refine_lifecycle_witness:
  "\<exists>db. persist_ledger (sample_lib []) 0 0 pilot_profile pilot_credentials (pilot_token ''w'' 1) Ready (tips_input True)
      pilot_caught_up = Inr (Inserted, db) \<and> lifecycle_of db (lit ''t'') = [pilot_hash \<mapsto> (pilot_hash, True)]"
proof -
  obtain db where run: "persist_ledger (sample_lib []) 0 0 pilot_profile pilot_credentials (pilot_token ''w'' 1) Ready (tips_input True)
      pilot_caught_up = Inr (Inserted, db)"
    using pilot_persist_credentials by blast
  have none: "db_generations pilot_caught_up = []" by (simp add: pilot_database_def empty_database_def)
  have keyed: "list_all (mutation_keyed pilot_key) (lp_mutations pilot_credentials)" "objects_ok pilot_key pilot_caught_up"
    by (simp_all add: pilot_credentials_def mutation_keyed_def pilot_key_def pilot_event_def objects_ok_def none)
  have before: "lifecycle_of pilot_caught_up (lit ''t'') = Map.empty"
    by (simp add: lifecycle_of_def live_generation_def none latest_by_def fun_eq_iff)
  from tables_refine_lifecycle [OF pilot_caught_up_ok keyed(2,1) run] have
    "fold_res lifecycle_step (lp_mutations pilot_credentials) Map.empty = Inr (lifecycle_of db (lit ''t''))"
    by (simp add: before)
  then show ?thesis using run by (auto simp: pilot_credentials_def lifecycle_step_def pilot_event_def)
qed

section \<open>Preflight and halting\<close>


text \<open>
  Further guarantee: A failure is recorded before the lease is lost. When a worker that holds a lease fails and its call to halt
  succeeds, the status row of its profile is halted with the stable code of the error and nobody holds
  the lease, and an incident with that code and the epoch of the lease is in the database.
\<close>

theorem halt_records_failure:
  assumes "repository_ok (run_others lib (we_others env (ww_effects w)) (ww_db w))"
    and "try_halt lib env (Some token) (Inl e) w = Some (Inr True, w')"
  shows "\<exists>row. read_indexer_status (ww_db w') (tk_profile token) = Some row \<and> ss_state row = Halted \<and>
    ss_error row = Some (lit (source_error_code e)) \<and>
    lease_view_of (ww_db w') (tk_profile token) = (tk_epoch token, None) \<and>
    (\<exists>i \<in> set (db_incidents (ww_db w')). ii_profile i = tk_profile token \<and> ii_epoch i = tk_epoch token \<and>
       ii_error i = lit (source_error_code e))"
  by (rule try_halt_recorded [OF assms])

theorem halt_records_failure_witness:
  "\<exists>w' row. try_halt (sample_lib []) pilot_env (Some (pilot_token ''w'' 1)) (Inl (Source_Error ''SOURCE_DIVERGENCE''))
      (pilot_world pilot_caught_up 9) = Some (Inr True, w') \<and>
    read_indexer_status (ww_db w') (lit ''t'') = Some row \<and> ss_state row = Halted \<and> ss_error row = Some (lit ''SOURCE_DIVERGENCE'')"
proof -
  have db: "run_others (sample_lib []) (we_others pilot_env (ww_effects (pilot_world pilot_caught_up 9))) (ww_db (pilot_world pilot_caught_up 9)) =
      pilot_caught_up"
    by (simp add: run_others_def pilot_env_def pilot_world_def)
  obtain w' where halt: "try_halt (sample_lib []) pilot_env (Some (pilot_token ''w'' 1)) (Inl (Source_Error ''SOURCE_DIVERGENCE''))
      (pilot_world pilot_caught_up 9) = Some (Inr True, w')"
    using pilot_halts by blast
  have "tk_profile (pilot_token ''w'' 1) = lit ''t''" by (simp add: pilot_token_def)
  with halt_records_failure [OF _ halt] pilot_caught_up_ok halt show ?thesis
    unfolding db by (auto simp: source_error_code_def)
qed

end
