(* ===== verification/Indexer_Unstorable.thy ===== *)
theory Indexer_Unstorable
  imports Indexer_Repository
begin

text \<open>
  Memos that the database cannot store. A registration memo is recorded even when it is rejected; a
  parsed memo may hold texts that \<open>jsonb\<close> refuses (U+0000), and then its ledger is never inserted.
\<close>

lemma fold_res_member:
  assumes "fold_res f xs s = Inr t" and "x \<in> set xs"
  shows "\<exists>s' t'. f x s' = Inr t'"
  using assms by (induction xs arbitrary: s) (auto simp: res_simps)

lemma persist_registration_storable:
  assumes "persist_registration lib profile ledger r db = Inr db'" and "memo_of_outcome (rg_outcome r) = Some memo"
  shows "storable_json memo"
proof -
  obtain db1 where "insert_schema_event (event_row_of profile ledger r) db = Inr db1"
    using assms(1) by (auto simp: persist_registration_def res_simps)
  then have "schema_event_row_ok (event_row_of profile ledger r)"
    by (auto simp: insert_schema_event_def insert_or_skip_def res_simps split: if_splits)
  then show ?thesis
    using assms(2) by (simp add: schema_event_row_ok_def event_row_of_def memo_of_outcome_def split: registration_outcome.splits)
qed

theorem unstorable_memo_is_never_inserted:
  assumes "r \<in> set (lp_registrations projection)" and "memo_of_outcome (rg_outcome r) = Some memo" and "\<not> storable_json memo"
  shows "persist_ledger lib clock later profile projection token state input db \<noteq> Inr (Inserted, db')"
proof
  assume "persist_ledger lib clock later profile projection token state input db = Inr (Inserted, db')"
  then obtain db1 db2 where "persist_projection lib (profile_id profile) projection db1 = Inr db2"
    by (auto simp: persist_ledger_def Let_def res_simps split: if_splits option.splits)
  then obtain db3 where "fold_res (persist_registration lib (profile_id profile) (lp_ledger projection)) (lp_registrations projection) db1 = Inr db3"
    by (auto simp: persist_projection_def res_simps)
  from fold_res_member [OF this assms(1)] show False
    using persist_registration_storable assms(2,3) by blast
qed

text \<open>Every memo that \<open>JSON.parse\<close> accepts is recorded, whatever becomes of the registration.\<close>

lemma parsed_memo_is_recorded:
  assumes "parse_json lib (Text json_text) = Inr parsed"
  shows "memo_of_outcome (interpret_memo lib transaction ledger profile cat publisher json_text) = Some parsed"
  using assms by (auto simp: interpret_memo_def memo_of_outcome_def split: sum.splits)

lemma nul_is_not_storable: "\<not> storable_json (JStr [0])"
  by (simp add: storable_text_def)

end
