(* ===== verification/App_Business.thy ===== *)
theory App_Business
  imports Payload_Uri Indexer_Projection
begin

text \<open>
  What an operation of the web application is for and what the indexer says came of it: the business
  contexts and the evidence of \<open>apps/web/app/utils/operationJournal.ts\<close>, with their validators. Stored
  records are read back through the validators, so each validator inverts the encoding of its result.
\<close>

section \<open>Values\<close>

text \<open>The library of the application: that of the protocol and whether \<open>Date.parse\<close> gives a finite time.\<close>

record app_lib = core_lib +
  date_parses :: "jstr \<Rightarrow> bool"

definition MAX_SAFE_INTEGER :: int where "MAX_SAFE_INTEGER = 9007199254740991"

fun safe_integer :: "jsval \<Rightarrow> bool" where
  "safe_integer (JNum (NInt n)) = (- MAX_SAFE_INTEGER \<le> n \<and> n \<le> MAX_SAFE_INTEGER)"
| "safe_integer _ = False"

lemma safe_integer_iff: "safe_integer v \<longleftrightarrow> (\<exists>n. v = jint n \<and> - MAX_SAFE_INTEGER \<le> n \<and> n \<le> MAX_SAFE_INTEGER)"
  by (cases v rule: safe_integer.cases) simp_all

text \<open>Whether a stored property counts as present in a condition.\<close>

fun truthy :: "jsval \<Rightarrow> bool" where
  "truthy JUndef = False"
| "truthy JNull = False"
| "truthy (JBool b) = b"
| "truthy (JStr s) = (s \<noteq> [])"
| "truthy (JNum n) = (n \<noteq> NInt 0 \<and> n \<noteq> NNaN)"
| "truthy _ = True"

definition optional_property :: "string \<Rightarrow> ('a \<Rightarrow> jsval) \<Rightarrow> 'a option \<Rightarrow> (jstr \<times> jsval) list" where
  "optional_property k value_of v = (case v of None \<Rightarrow> [] | Some x \<Rightarrow> [(lit k, value_of x)])"

section \<open>Business contexts\<close>

datatype generation_action = Accept_Action | Reject_Action | Remove_Action | Revoke_Action

text \<open>Schema registrations carry publisher, digest and memo length, issues their URI, digest and expiration.\<close>

datatype business =
    Schema_Register "jstr option" "jstr option" "int option"
  | Credential_Issue jstr jstr jstr "jstr option" "jstr option" "jstr option"
  | Generation_Bound generation_action jstr jstr jstr jstr "jstr option"

definition GENERATION_ACTIONS :: "(jstr \<times> generation_action) list" where
  "GENERATION_ACTIONS =
     [(lit ''credential-accept'', Accept_Action), (lit ''credential-reject'', Reject_Action),
      (lit ''credential-remove'', Remove_Action), (lit ''credential-revoke'', Revoke_Action)]"

fun generation_action_name :: "generation_action \<Rightarrow> jstr" where
  "generation_action_name Accept_Action = lit ''credential-accept''"
| "generation_action_name Reject_Action = lit ''credential-reject''"
| "generation_action_name Remove_Action = lit ''credential-remove''"
| "generation_action_name Revoke_Action = lit ''credential-revoke''"

lemma generation_action_of_name [simp]: "map_of GENERATION_ACTIONS (generation_action_name a) = Some a"
  by (cases a) (simp_all add: GENERATION_ACTIONS_def lit_def)

definition optional_digest :: "jsval \<Rightarrow> string \<Rightarrow> string + jstr option" where
  "optional_digest input code =
     (case input of
        JUndef \<Rightarrow> Inr None
      | JStr s \<Rightarrow> if hash64_any s then Inr (Some (to_lower s)) else Inl code
      | _ \<Rightarrow> Inl code)"

definition optional_expiration :: "'x app_lib_scheme \<Rightarrow> jsval \<Rightarrow> string + jstr option" where
  "optional_expiration lib input =
     (case input of
        JUndef \<Rightarrow> Inr None
      | JStr s \<Rightarrow> if s = [] \<or> \<not> date_parses lib s then Inl ''OPERATION_EXPIRATION_INVALID'' else Inr (Some s)
      | _ \<Rightarrow> Inl ''OPERATION_EXPIRATION_INVALID'')"

definition validate_registration :: "'x app_lib_scheme \<Rightarrow> jsval \<Rightarrow> string + business" where
  "validate_registration lib input =
     rbind (case get input ''publisher'' of
              JUndef \<Rightarrow> Inr None
            | JStr s \<Rightarrow> if is_valid_classic_address lib s then Inr (Some s) else Inl ''OPERATION_PUBLISHER_INVALID''
            | _ \<Rightarrow> Inl ''OPERATION_PUBLISHER_INVALID'') (\<lambda>publisher.
     rbind (optional_digest (get input ''schemaDigestHex'') ''OPERATION_SCHEMA_DIGEST_INVALID'') (\<lambda>digest.
     let memo_size = get input ''memoByteLength'' in
     if memo_size \<noteq> JUndef \<and> \<not> (safe_integer memo_size \<and> 0 < int_of memo_size) then Inl ''OPERATION_MEMO_BYTE_LENGTH_INVALID''
     else Inr (Schema_Register publisher digest (if memo_size = JUndef then None else Some (int_of memo_size)))))"

definition validate_issue :: "'x app_lib_scheme \<Rightarrow> jsval \<Rightarrow> jstr \<Rightarrow> jstr \<Rightarrow> jstr \<Rightarrow> jstr option \<Rightarrow> string + business" where
  "validate_issue lib input issuer subject uid digest =
     rbind (case get input ''credentialUri'' of
              JUndef \<Rightarrow> Inr None
            | JStr s \<Rightarrow> (case parse_payload_uri lib s of Inl _ \<Rightarrow> Inl ''OPERATION_CREDENTIAL_URI_INVALID'' | Inr _ \<Rightarrow> Inr (Some s))
            | _ \<Rightarrow> Inl ''OPERATION_CREDENTIAL_URI_INVALID'') (\<lambda>uri.
     rbind (optional_expiration lib (get input ''expiration'')) (\<lambda>expiration.
     Inr (Credential_Issue issuer subject uid uri digest expiration)))"

definition validate_operation_business_context :: "'x app_lib_scheme \<Rightarrow> jsval \<Rightarrow> string + business" where
  "validate_operation_business_context lib input =
     (if \<not> is_record input then Inl ''OPERATION_BUSINESS_CONTEXT_INVALID''
      else if get input ''action'' = jlit ''schema-register'' then validate_registration lib input
      else
        let action = str_of (get input ''action'');
            issues = (action = lit ''credential-issue'');
            issuer = str_of (get input ''issuer'');
            subject = str_of (get input ''subject'');
            uid = to_lower (str_of (get input ''schemaUid''))
        in
        if \<not> string_that (\<lambda>s. s = lit ''credential-issue'' \<or> map_of GENERATION_ACTIONS s \<noteq> None) (get input ''action'')
        then Inl ''OPERATION_ACTION_INVALID''
        else if \<not> string_that (\<lambda>_. True) (get input ''issuer'') \<or> \<not> string_that (\<lambda>_. True) (get input ''subject'') \<or>
          \<not> is_valid_classic_address lib issuer \<or> \<not> is_valid_classic_address lib subject
        then Inl ''OPERATION_CREDENTIAL_ADDRESS_INVALID''
        else if \<not> string_that (\<lambda>_. True) (get input ''schemaUid'') \<or> \<not> hash64 uid then Inl ''OPERATION_SCHEMA_UID_INVALID''
        else
          rbind (optional_digest (get input ''payloadDigestHex'') ''OPERATION_PAYLOAD_DIGEST_INVALID'') (\<lambda>digest.
          if issues then validate_issue lib input issuer subject uid digest
          else if \<not> string_that (\<lambda>s. hash64 (to_lower s)) (get input ''generationId'') then Inl ''OPERATION_GENERATION_ID_INVALID''
          else Inr (Generation_Bound (the (map_of GENERATION_ACTIONS action)) issuer subject uid
                 (to_lower (str_of (get input ''generationId''))) digest)))"

fun business_value :: "business \<Rightarrow> jsval" where
  "business_value (Schema_Register publisher digest memo_size) = JObj Plain
     ((lit ''action'', jlit ''schema-register'') # optional_property ''publisher'' JStr publisher @
      optional_property ''schemaDigestHex'' JStr digest @ optional_property ''memoByteLength'' jint memo_size)"
| "business_value (Credential_Issue issuer subject uid uri digest expiration) = JObj Plain
     ([(lit ''action'', jlit ''credential-issue''), (lit ''issuer'', JStr issuer), (lit ''subject'', JStr subject),
       (lit ''schemaUid'', JStr uid)] @ optional_property ''credentialUri'' JStr uri @
      optional_property ''payloadDigestHex'' JStr digest @ optional_property ''expiration'' JStr expiration)"
| "business_value (Generation_Bound action issuer subject uid generation digest) = JObj Plain
     ([(lit ''action'', JStr (generation_action_name action)), (lit ''issuer'', JStr issuer), (lit ''subject'', JStr subject),
       (lit ''schemaUid'', JStr uid), (lit ''generationId'', JStr generation)] @
      optional_property ''payloadDigestHex'' JStr digest)"

text \<open>What a validated context satisfies.\<close>

fun business_ok :: "'x app_lib_scheme \<Rightarrow> business \<Rightarrow> bool" where
  "business_ok lib (Schema_Register publisher digest memo_size) =
     ((\<forall>p \<in> set_option publisher. is_valid_classic_address lib p) \<and> (\<forall>d \<in> set_option digest. hash64 d) \<and>
      (\<forall>n \<in> set_option memo_size. 0 < n \<and> n \<le> MAX_SAFE_INTEGER))"
| "business_ok lib (Credential_Issue issuer subject uid uri digest expiration) =
     (is_valid_classic_address lib issuer \<and> is_valid_classic_address lib subject \<and> hash64 uid \<and>
      (\<forall>u \<in> set_option uri. is_ok (parse_payload_uri lib u)) \<and> (\<forall>d \<in> set_option digest. hash64 d) \<and>
      (\<forall>e \<in> set_option expiration. e \<noteq> [] \<and> date_parses lib e))"
| "business_ok lib (Generation_Bound action issuer subject uid generation digest) =
     (is_valid_classic_address lib issuer \<and> is_valid_classic_address lib subject \<and> hash64 uid \<and> hash64 generation \<and>
      (\<forall>d \<in> set_option digest. hash64 d))"

lemma optional_digest_ok: "optional_digest v c = Inr d \<Longrightarrow> \<forall>x \<in> set_option d. hash64 x"
  by (auto simp: optional_digest_def hash64_any_lower split: jsval.splits if_splits)

lemma optional_digest_again:
  "\<forall>x \<in> set_option d. hash64 x \<Longrightarrow> optional_digest (case d of None \<Rightarrow> JUndef | Some x \<Rightarrow> JStr x) c = Inr d"
  by (cases d) (auto simp: optional_digest_def hash64_imp_any hash64_lower)

lemma validate_registration_ok: "validate_registration lib v = Inr b \<Longrightarrow> business_ok lib b"
  by (auto simp: validate_registration_def Let_def res_simps safe_integer_iff split: if_splits jsval.splits dest!: optional_digest_ok)

lemma validate_issue_ok:
  assumes "validate_issue lib v issuer subject uid digest = Inr b"
    and "is_valid_classic_address lib issuer" "is_valid_classic_address lib subject" "hash64 uid" "\<forall>d \<in> set_option digest. hash64 d"
  shows "business_ok lib b"
  using assms
  by (auto simp: validate_issue_def res_simps optional_expiration_def is_ok_def split: if_splits jsval.splits sum.splits)

lemma validate_business_ok: "validate_operation_business_context lib v = Inr b \<Longrightarrow> business_ok lib b"
  unfolding validate_operation_business_context_def Let_def res_simps
  by (elim conjE exE, split if_splits)
    (auto simp: string_that_iff res_simps dest!: optional_digest_ok intro: validate_registration_ok validate_issue_ok
      split: if_splits)

lemma optional_property_lookup:
  "map_of (optional_property k f v) (lit k') = (if k' = k then map_option f v else None)"
  "(m ++ map_of (optional_property k f v)) (lit k') =
     (if k' = k then (case v of None \<Rightarrow> m (lit k') | Some x \<Rightarrow> Some (f x)) else m (lit k'))"
  by (auto simp: optional_property_def map_add_def split: option.splits)

lemma case_map_option: "(case map_option f v of None \<Rightarrow> c | Some x \<Rightarrow> g x) = (case v of None \<Rightarrow> c | Some x \<Rightarrow> g (f x))"
  by (cases v) simp_all

lemmas business_gets = prop_of_JObj optional_property_lookup case_map_option

lemma validate_business_value: "business_ok lib b \<Longrightarrow> validate_operation_business_context lib (business_value b) = Inr b"
proof (cases b)
  case (Schema_Register publisher digest memo_size)
  assume ok: "business_ok lib b"
  define v where "v = business_value b"
  have gets: "is_record v" "get v ''action'' = jlit ''schema-register''"
    "get v ''publisher'' = (case publisher of None \<Rightarrow> JUndef | Some s \<Rightarrow> JStr s)"
    "get v ''schemaDigestHex'' = (case digest of None \<Rightarrow> JUndef | Some s \<Rightarrow> JStr s)"
    "get v ''memoByteLength'' = (case memo_size of None \<Rightarrow> JUndef | Some n \<Rightarrow> jint n)"
    by (simp_all add: Schema_Register business_gets v_def split: option.splits)
  have "validate_registration lib v = Inr b"
    using ok unfolding validate_registration_def gets
    by (auto simp: Schema_Register optional_digest_again MAX_SAFE_INTEGER_def split: option.splits)
  then show ?thesis unfolding v_def [symmetric] by (simp add: validate_operation_business_context_def gets)
next
  case (Credential_Issue issuer subject uid uri digest expiration)
  assume ok: "business_ok lib b"
  define v where "v = business_value b"
  have gets: "is_record v" "get v ''action'' = jlit ''credential-issue''" "get v ''issuer'' = JStr issuer" "get v ''subject'' = JStr subject"
    "get v ''schemaUid'' = JStr uid"
    "get v ''credentialUri'' = (case uri of None \<Rightarrow> JUndef | Some s \<Rightarrow> JStr s)"
    "get v ''payloadDigestHex'' = (case digest of None \<Rightarrow> JUndef | Some s \<Rightarrow> JStr s)"
    "get v ''expiration'' = (case expiration of None \<Rightarrow> JUndef | Some s \<Rightarrow> JStr s)"
    by (simp_all add: Credential_Issue business_gets v_def split: option.splits)
  have "validate_issue lib v issuer subject uid digest = Inr b"
    using ok unfolding validate_issue_def gets
    by (auto simp: Credential_Issue optional_expiration_def is_ok_def split: option.splits sum.splits)
  then show ?thesis
    using ok unfolding v_def [symmetric]
    by (simp add: validate_operation_business_context_def gets Credential_Issue hash64_lower optional_digest_again)
next
  case (Generation_Bound action issuer subject uid generation digest)
  assume ok: "business_ok lib b"
  define v where "v = business_value b"
  have gets: "is_record v" "get v ''action'' = JStr (generation_action_name action)" "get v ''issuer'' = JStr issuer" "get v ''subject'' = JStr subject"
    "get v ''schemaUid'' = JStr uid" "get v ''generationId'' = JStr generation"
    "get v ''payloadDigestHex'' = (case digest of None \<Rightarrow> JUndef | Some s \<Rightarrow> JStr s)"
    by (simp_all add: Generation_Bound business_gets v_def split: option.splits)
  have "generation_action_name action \<noteq> lit ''schema-register''" "generation_action_name action \<noteq> lit ''credential-issue''"
    by (cases action; simp)+
  then show ?thesis
    using ok unfolding v_def [symmetric]
    by (simp add: validate_operation_business_context_def gets Generation_Bound hash64_lower optional_digest_again)
qed

text \<open>A stored context is read back as it was validated.\<close>

interpretation business_context: codec business_value "\<lambda>v. res_option (validate_operation_business_context lib v)"
  "business_ok lib" for lib
  by unfold_locales (simp add: validate_business_value)



section \<open>Evidence of the indexer\<close>

definition reason_code :: "jstr \<Rightarrow> bool" where
  "reason_code s \<longleftrightarrow> 1 \<le> length s \<and> length s \<le> 128 \<and>
     list_all (\<lambda>c. is_upper c \<or> is_digit c \<or> c = of_char CHR ''_'') s"

definition EVENT_TYPES :: "(jstr \<times> event_type) list" where
  "EVENT_TYPES = [(lit ''created'', Created), (lit ''accepted'', Accepted), (lit ''deleted'', Deleted)]"

definition DELETION_CAUSES :: "(jstr \<times> deletion_cause) list" where
  "DELETION_CAUSES =
     [(lit ''issuer_revoked'', Issuer_Revoked), (lit ''subject_rejected'', Subject_Rejected),
      (lit ''subject_removed'', Subject_Removed), (lit ''expired_cleanup'', Expired_Cleanup),
      (lit ''account_deleted'', Account_Deleted), (lit ''self_deleted'', Self_Deleted)]"

fun event_type_name :: "event_type \<Rightarrow> jstr" where
  "event_type_name Created = lit ''created''"
| "event_type_name Accepted = lit ''accepted''"
| "event_type_name Deleted = lit ''deleted''"

fun deletion_cause_name :: "deletion_cause \<Rightarrow> jstr" where
  "deletion_cause_name Issuer_Revoked = lit ''issuer_revoked''"
| "deletion_cause_name Subject_Rejected = lit ''subject_rejected''"
| "deletion_cause_name Subject_Removed = lit ''subject_removed''"
| "deletion_cause_name Expired_Cleanup = lit ''expired_cleanup''"
| "deletion_cause_name Account_Deleted = lit ''account_deleted''"
| "deletion_cause_name Self_Deleted = lit ''self_deleted''"

lemma names_of_evidence [simp]:
  "map_of EVENT_TYPES (event_type_name e) = Some e" "map_of DELETION_CAUSES (deletion_cause_name c) = Some c"
  by (cases e; simp add: EVENT_TYPES_def) (cases c; simp add: DELETION_CAUSES_def)

text \<open>The cause of an event is \<open>None\<close> when it is absent and \<open>Some None\<close> when it is \<open>null\<close>.\<close>

record business_evidence =
  be_hash :: jstr
  be_ledger_index :: int
  be_ledger_hash :: jstr
  be_index :: int
  be_schema_uid :: "jstr option"
  be_generation :: "jstr option"
  be_reason :: "jstr option"
  be_event :: "event_type option"
  be_accepted :: "bool option"
  be_cause :: "deletion_cause option option"

definition evidence_reason :: "jsval \<Rightarrow> string + jstr option" where
  "evidence_reason v =
     (case v of
        JUndef \<Rightarrow> Inr None
      | JStr s \<Rightarrow> if reason_code s then Inr (Some s) else Inl ''OPERATION_EVIDENCE_REASON_CODE_INVALID''
      | _ \<Rightarrow> Inl ''OPERATION_EVIDENCE_REASON_CODE_INVALID'')"

definition evidence_event :: "jsval \<Rightarrow> string + event_type option" where
  "evidence_event v =
     (case v of
        JUndef \<Rightarrow> Inr None
      | JStr s \<Rightarrow> (case map_of EVENT_TYPES s of None \<Rightarrow> Inl ''OPERATION_EVIDENCE_EVENT_TYPE_INVALID'' | Some e \<Rightarrow> Inr (Some e))
      | _ \<Rightarrow> Inl ''OPERATION_EVIDENCE_EVENT_TYPE_INVALID'')"

definition evidence_accepted :: "jsval \<Rightarrow> string + bool option" where
  "evidence_accepted v =
     (case v of JUndef \<Rightarrow> Inr None | JBool b \<Rightarrow> Inr (Some b) | _ \<Rightarrow> Inl ''OPERATION_EVIDENCE_ACCEPTED_INVALID'')"

definition cause_of_value :: "jsval \<Rightarrow> deletion_cause option" where
  "cause_of_value v = (case v of JStr s \<Rightarrow> map_of DELETION_CAUSES s | _ \<Rightarrow> None)"

definition evidence_cause :: "event_type option \<Rightarrow> jsval \<Rightarrow> string + deletion_cause option option" where
  "evidence_cause event v =
     (if (event = Some Deleted \<and> cause_of_value v = None) \<or> (event \<noteq> None \<and> event \<noteq> Some Deleted \<and> v \<noteq> JNull) \<or>
        (event = None \<and> v \<noteq> JUndef)
      then Inl ''OPERATION_EVIDENCE_DELETION_CAUSE_INVALID''
      else Inr (if event = None then None else Some (cause_of_value v)))"

definition validate_business_evidence :: "jsval \<Rightarrow> string + business_evidence" where
  "validate_business_evidence input =
     (if \<not> is_record input then Inl ''OPERATION_BUSINESS_EVIDENCE_INVALID''
      else if \<not> string_that hash64_any (get input ''transactionHash'') then Inl ''OPERATION_EVIDENCE_TRANSACTION_HASH_INVALID''
      else if \<not> safe_integer (get input ''ledgerIndex'') \<or> int_of (get input ''ledgerIndex'') \<le> 0
      then Inl ''OPERATION_EVIDENCE_LEDGER_INDEX_INVALID''
      else if \<not> string_that hash64_any (get input ''ledgerHash'') then Inl ''OPERATION_EVIDENCE_LEDGER_HASH_INVALID''
      else if \<not> safe_integer (get input ''transactionIndex'') \<or> int_of (get input ''transactionIndex'') < 0
      then Inl ''OPERATION_EVIDENCE_TRANSACTION_INDEX_INVALID''
      else
        rbind (optional_digest (get input ''schemaUid'') ''OPERATION_EVIDENCE_SCHEMA_UID_INVALID'') (\<lambda>uid.
        rbind (optional_digest (get input ''generationId'') ''OPERATION_EVIDENCE_GENERATION_ID_INVALID'') (\<lambda>generation.
        rbind (evidence_reason (get input ''reasonCode'')) (\<lambda>reason.
        rbind (evidence_event (get input ''eventType'')) (\<lambda>event.
        rbind (evidence_accepted (get input ''accepted'')) (\<lambda>acc.
        rbind (evidence_cause event (get input ''deletionCause'')) (\<lambda>cause.
        Inr \<lparr>be_hash = to_lower (str_of (get input ''transactionHash'')), be_ledger_index = int_of (get input ''ledgerIndex''),
             be_ledger_hash = to_lower (str_of (get input ''ledgerHash'')), be_index = int_of (get input ''transactionIndex''),
             be_schema_uid = uid, be_generation = generation, be_reason = reason, be_event = event, be_accepted = acc,
             be_cause = cause\<rparr>)))))))"

definition cause_value :: "deletion_cause option \<Rightarrow> jsval" where
  "cause_value c = (case c of None \<Rightarrow> JNull | Some d \<Rightarrow> JStr (deletion_cause_name d))"

definition evidence_value :: "business_evidence \<Rightarrow> jsval" where
  "evidence_value e = JObj Plain
     ([(lit ''transactionHash'', JStr (be_hash e)), (lit ''ledgerIndex'', jint (be_ledger_index e)),
       (lit ''ledgerHash'', JStr (be_ledger_hash e)), (lit ''transactionIndex'', jint (be_index e))] @
      optional_property ''schemaUid'' JStr (be_schema_uid e) @ optional_property ''generationId'' JStr (be_generation e) @
      optional_property ''reasonCode'' JStr (be_reason e) @
      optional_property ''eventType'' (\<lambda>t. JStr (event_type_name t)) (be_event e) @
      optional_property ''accepted'' JBool (be_accepted e) @ optional_property ''deletionCause'' cause_value (be_cause e))"

fun cause_fits :: "event_type option \<Rightarrow> deletion_cause option option \<Rightarrow> bool" where
  "cause_fits None c = (c = None)"
| "cause_fits (Some Deleted) c = (\<exists>d. c = Some (Some d))"
| "cause_fits (Some _) c = (c = Some None)"

definition evidence_ok :: "business_evidence \<Rightarrow> bool" where
  "evidence_ok e \<longleftrightarrow>
     hash64 (be_hash e) \<and> 0 < be_ledger_index e \<and> be_ledger_index e \<le> MAX_SAFE_INTEGER \<and> hash64 (be_ledger_hash e) \<and>
     0 \<le> be_index e \<and> be_index e \<le> MAX_SAFE_INTEGER \<and> (\<forall>u \<in> set_option (be_schema_uid e). hash64 u) \<and>
     (\<forall>g \<in> set_option (be_generation e). hash64 g) \<and> (\<forall>r \<in> set_option (be_reason e). reason_code r) \<and>
     cause_fits (be_event e) (be_cause e)"

lemma evidence_reason_ok: "evidence_reason v = Inr r \<Longrightarrow> \<forall>x \<in> set_option r. reason_code x"
  by (auto simp: evidence_reason_def split: jsval.splits if_splits)

lemma evidence_cause_ok: "evidence_cause event v = Inr c \<Longrightarrow> cause_fits event c"
  by (cases "(event, c)" rule: cause_fits.cases) (auto simp: evidence_cause_def cause_of_value_def split: if_splits)

lemma validate_evidence_ok: "validate_business_evidence v = Inr e \<Longrightarrow> evidence_ok e"
  unfolding validate_business_evidence_def res_simps
  by (elim conjE exE, drule optional_digest_ok, drule optional_digest_ok, drule evidence_reason_ok, drule evidence_cause_ok)
    (auto simp: evidence_ok_def string_that_iff safe_integer_iff hash64_any_lower)

lemma evidence_cause_again:
  "cause_fits event c \<Longrightarrow> evidence_cause event (case c of None \<Rightarrow> JUndef | Some d \<Rightarrow> cause_value d) = Inr c"
  by (cases "(event, c)" rule: cause_fits.cases) (auto simp: evidence_cause_def cause_of_value_def cause_value_def)

lemma validate_evidence_value: "evidence_ok e \<Longrightarrow> validate_business_evidence (evidence_value e) = Inr e"
proof -
  assume ok: "evidence_ok e"
  define v where "v = evidence_value e"
  have gets: "is_record v" "get v ''transactionHash'' = JStr (be_hash e)" "get v ''ledgerIndex'' = jint (be_ledger_index e)"
    "get v ''ledgerHash'' = JStr (be_ledger_hash e)" "get v ''transactionIndex'' = jint (be_index e)"
    "get v ''schemaUid'' = (case be_schema_uid e of None \<Rightarrow> JUndef | Some s \<Rightarrow> JStr s)"
    "get v ''generationId'' = (case be_generation e of None \<Rightarrow> JUndef | Some s \<Rightarrow> JStr s)"
    "get v ''reasonCode'' = (case be_reason e of None \<Rightarrow> JUndef | Some s \<Rightarrow> JStr s)"
    "get v ''eventType'' = (case be_event e of None \<Rightarrow> JUndef | Some t \<Rightarrow> JStr (event_type_name t))"
    "get v ''accepted'' = (case be_accepted e of None \<Rightarrow> JUndef | Some b \<Rightarrow> JBool b)"
    "get v ''deletionCause'' = (case be_cause e of None \<Rightarrow> JUndef | Some c \<Rightarrow> cause_value c)"
    by (simp_all add: evidence_value_def v_def business_gets split: option.splits)
  have "cause_fits (be_event e) (be_cause e)" "\<forall>r \<in> set_option (be_reason e). reason_code r"
    using ok by (simp_all add: evidence_ok_def)
  then have parts: "evidence_reason (get v ''reasonCode'') = Inr (be_reason e)" "evidence_event (get v ''eventType'') = Inr (be_event e)"
    "evidence_accepted (get v ''accepted'') = Inr (be_accepted e)"
    "evidence_cause (be_event e) (get v ''deletionCause'') = Inr (be_cause e)"
    unfolding gets
    by (auto simp: evidence_reason_def evidence_event_def evidence_accepted_def evidence_cause_again split: option.splits)
  have heads: "hash64 (be_hash e)" "hash64 (be_ledger_hash e)" "0 < be_ledger_index e" "be_ledger_index e \<le> MAX_SAFE_INTEGER"
    "0 \<le> be_index e" "be_index e \<le> MAX_SAFE_INTEGER"
    "\<forall>u \<in> set_option (be_schema_uid e). hash64 u" "\<forall>g \<in> set_option (be_generation e). hash64 g"
    using ok by (simp_all add: evidence_ok_def)
  show ?thesis
    unfolding v_def [symmetric] validate_business_evidence_def parts rbind_simps gets(1-7)
    using heads by (simp add: parts gets hash64_imp_any hash64_lower optional_digest_again MAX_SAFE_INTEGER_def)
qed

interpretation business_evidence: codec evidence_value "\<lambda>v. res_option (validate_business_evidence v)" evidence_ok
  by unfold_locales (simp add: validate_evidence_value)

end
