(* ===== verification/App_Journal.thy ===== *)
theory App_Journal
  imports App_Business Sdk_Submission
begin

text \<open>
  The journal of the web application (\<open>apps/web/app/utils/operationJournal.ts\<close>): the operations a browser
  keeps in IndexedDB across its tabs, which stage they are in and what the indexer confirmed of them.
  A readwrite transaction of IndexedDB is a function from the stored operations to an error or the new ones.
\<close>

section \<open>Operations\<close>

datatype confirmation = Pending | Confirmed | Rejected | Mismatch | Timed_Out

definition CONFIRMATIONS :: "(jstr \<times> confirmation) list" where
  "CONFIRMATIONS =
     [(lit ''pending'', Pending), (lit ''confirmed'', Confirmed), (lit ''rejected'', Rejected),
      (lit ''mismatch'', Mismatch), (lit ''timeout'', Timed_Out)]"

fun confirmation_name :: "confirmation \<Rightarrow> jstr" where
  "confirmation_name Pending = lit ''pending''"
| "confirmation_name Confirmed = lit ''confirmed''"
| "confirmation_name Rejected = lit ''rejected''"
| "confirmation_name Mismatch = lit ''mismatch''"
| "confirmation_name Timed_Out = lit ''timeout''"

lemma confirmation_of_name [simp]: "map_of CONFIRMATIONS (confirmation_name c) = Some c"
  by (cases c) (simp_all add: CONFIRMATIONS_def)

text \<open>
  A stored operation. What older versions of the application may have stored differently is kept as a
  JavaScript value: business context, confirmation, evidence and the numbers. Messages are left out.
\<close>

record stored_operation =
  op_id :: jstr
  op_account :: jstr
  op_profile :: jstr
  op_network :: int
  op_type :: jstr
  op_created :: jstr
  op_business :: jsval
  op_updated :: jstr
  op_stage :: journal_stage
  op_hash :: "jstr option"
  op_blob :: "jstr option"
  op_last_ledger :: jsval
  op_engine :: "jstr option"
  op_ledger :: jsval
  op_confirmation :: jsval
  op_evidence :: jsval

record operation_seed =
  sd_id :: jstr
  sd_account :: jstr
  sd_profile :: jstr
  sd_network :: int
  sd_type :: jstr
  sd_created :: jstr
  sd_business :: jsval

record signed_record =
  sr_id :: jstr
  sr_blob :: jstr
  sr_hash :: jstr
  sr_last_ledger :: jsval
  sr_at :: jstr

section \<open>Keys and confirmations\<close>

fun is_generation_bound :: "business \<Rightarrow> bool" where
  "is_generation_bound (Generation_Bound _ _ _ _ _ _) = True"
| "is_generation_bound _ = False"

fun is_confirmable :: "business \<Rightarrow> bool" where
  "is_confirmable (Schema_Register publisher digest memo_size) = (publisher \<noteq> None \<and> digest \<noteq> None \<and> memo_size \<noteq> None)"
| "is_confirmable (Credential_Issue issuer subject uid uri digest expiration) = (uri \<noteq> None \<and> digest \<noteq> None)"
| "is_confirmable b = is_generation_bound b"

abbreviation joined :: "jstr list \<Rightarrow> jstr" where
  "joined parts \<equiv> concat (map (\<lambda>p. lit ''|'' @ p) parts)"

fun operation_business_key :: "jstr \<Rightarrow> business option \<Rightarrow> jstr option" where
  "operation_business_key profile (Some (Schema_Register publisher digest memo_size)) =
     (case (publisher, digest) of
        (Some p, Some d) \<Rightarrow>
          if p = [] \<or> d = [] then None else Some (profile @ joined [lit ''schema-register'', p, d])
      | _ \<Rightarrow> None)"
| "operation_business_key profile (Some (Credential_Issue issuer subject uid uri digest expiration)) =
     Some (profile @ joined [lit ''credential'', issuer, subject, uid])"
| "operation_business_key profile (Some (Generation_Bound action issuer subject uid generation digest)) =
     Some (profile @ joined [lit ''credential'', issuer, subject, uid, generation])"
| "operation_business_key profile None = None"

definition sanitize_business :: "'x app_lib_scheme \<Rightarrow> jsval \<Rightarrow> business option" where
  "sanitize_business lib v = res_option (validate_operation_business_context lib v)"

definition sanitize_evidence :: "jsval \<Rightarrow> business_evidence option" where
  "sanitize_evidence v = res_option (validate_business_evidence v)"

definition sanitize_confirmation :: "jsval \<Rightarrow> confirmation option" where
  "sanitize_confirmation v = (case v of JStr s \<Rightarrow> map_of CONFIRMATIONS s | _ \<Rightarrow> None)"

definition stored_key :: "'x app_lib_scheme \<Rightarrow> stored_operation \<Rightarrow> jstr option" where
  "stored_key lib op = operation_business_key (op_profile op) (sanitize_business lib (op_business op))"

text \<open>The event and the cause of deletion that an action must have had.\<close>

fun expected_event :: "generation_action \<Rightarrow> event_type" where
  "expected_event Accept_Action = Accepted"
| "expected_event _ = Deleted"

fun expected_cause :: "generation_action \<Rightarrow> jstr \<Rightarrow> jstr \<Rightarrow> deletion_cause option" where
  "expected_cause Accept_Action issuer subject = None"
| "expected_cause Reject_Action issuer subject = Some Subject_Rejected"
| "expected_cause Remove_Action issuer subject = Some (if issuer = subject then Issuer_Revoked else Subject_Removed)"
| "expected_cause Revoke_Action issuer subject = Some Issuer_Revoked"

fun accepted_fits :: "generation_action \<Rightarrow> bool option \<Rightarrow> bool" where
  "accepted_fits Reject_Action acc = (acc = Some False)"
| "accepted_fits Revoke_Action acc = True"
| "accepted_fits _ acc = (acc = Some True)"

fun evidence_supports :: "business \<Rightarrow> confirmation \<Rightarrow> business_evidence \<Rightarrow> jstr \<Rightarrow> bool" where
  "evidence_supports (Schema_Register publisher digest memo_size) conf e hash =
     (be_hash e = hash \<and>
      (if conf = Confirmed then be_schema_uid e \<noteq> None \<and> be_reason e = None
       else be_reason e \<noteq> None \<and> be_schema_uid e = None))"
| "evidence_supports (Credential_Issue issuer subject uid uri digest expiration) conf e hash =
     (be_hash e = hash \<and> conf \<noteq> Rejected \<and> be_schema_uid e = Some uid \<and> be_event e = Some Created \<and>
      be_accepted e = Some (issuer = subject) \<and> be_generation e = Some hash \<and> be_cause e = Some None)"
| "evidence_supports (Generation_Bound action issuer subject uid generation digest) conf e hash =
     (be_hash e = hash \<and> conf \<noteq> Rejected \<and> be_schema_uid e = Some uid \<and> be_event e = Some (expected_event action) \<and>
      accepted_fits action (be_accepted e) \<and> be_generation e = Some generation \<and>
      be_cause e = Some (expected_cause action issuer subject))"

definition xrpl_success :: "stored_operation \<Rightarrow> bool" where
  "xrpl_success op \<longleftrightarrow> op_stage op = Validated \<and> op_engine op = Some (lit ''tesSUCCESS'')"

definition positive_ledger :: "stored_operation \<Rightarrow> bool" where
  "positive_ledger op \<longleftrightarrow> safe_integer (op_ledger op) \<and> 0 < int_of (op_ledger op)"

definition settled_evidence ::
  "business \<Rightarrow> confirmation \<Rightarrow> stored_operation \<Rightarrow> business_evidence option \<Rightarrow> bool" where
  "settled_evidence b conf op evidence \<longleftrightarrow>
     (case (evidence, op_hash op) of
        (Some e, Some hash) \<Rightarrow>
          hash \<noteq> [] \<and> jint (be_ledger_index e) = op_ledger op \<and> evidence_supports b conf e (to_lower hash)
      | _ \<Rightarrow> False)"

definition operation_business_confirmation :: "'x app_lib_scheme \<Rightarrow> stored_operation \<Rightarrow> confirmation option" where
  "operation_business_confirmation lib op =
     (case sanitize_business lib (op_business op) of
        None \<Rightarrow> None
      | Some b \<Rightarrow>
          if \<not> is_confirmable b then None
          else
            let conf = (case sanitize_confirmation (op_confirmation op) of None \<Rightarrow> Pending | Some c \<Rightarrow> c) in
            Some (if conf \<noteq> Pending \<and> (\<not> xrpl_success op \<or> \<not> positive_ledger op) then Pending
                  else if (conf = Confirmed \<or> conf = Rejected) \<and>
                    \<not> settled_evidence b conf op (sanitize_evidence (op_evidence op)) then Pending
                  else conf))"

definition operation_business_evidence :: "'x app_lib_scheme \<Rightarrow> stored_operation \<Rightarrow> business_evidence option" where
  "operation_business_evidence lib op =
     (if operation_business_confirmation lib op \<notin> {Some Confirmed, Some Rejected} then None
      else
        case (sanitize_evidence (op_evidence op), op_hash op) of
          (Some e, Some hash) \<Rightarrow> if hash \<noteq> [] \<and> be_hash e = to_lower hash then Some e else None
        | _ \<Rightarrow> None)"

text \<open>\<open>isConfirmableBusinessContext\<close> of \<open>operation.business ? validate(operation.business) : undefined\<close>.\<close>

definition stored_business :: "'x app_lib_scheme \<Rightarrow> stored_operation \<Rightarrow> string + business option" where
  "stored_business lib op =
     (if truthy (op_business op) then rbind (validate_operation_business_context lib (op_business op)) (\<lambda>b. Inr (Some b))
      else Inr None)"

section \<open>What may be done with an operation\<close>

definition is_final :: "journal_stage \<Rightarrow> bool" where
  "is_final stage \<longleftrightarrow> stage = Validated \<or> stage = Expired_Stage \<or> stage = Failed"

abbreviation in_flight :: "stored_operation \<Rightarrow> bool" where
  "in_flight op \<equiv> \<not> is_final (op_stage op)"

definition can_retry_operation :: "'x app_lib_scheme \<Rightarrow> stored_operation \<Rightarrow> bool" where
  "can_retry_operation lib op \<longleftrightarrow>
     op_blob op \<noteq> None \<and> op_blob op \<noteq> Some [] \<and> op_stage op \<in> {Signed, Submitted, Pending_Stage} \<and>
     (op_type op \<in> {lit ''CredentialAccept'', lit ''CredentialDelete''} \<longrightarrow>
        (case stored_business lib op of Inr (Some b) \<Rightarrow> is_generation_bound b | _ \<Rightarrow> False))"

fun performed_by :: "business \<Rightarrow> stored_operation \<Rightarrow> bool" where
  "performed_by (Schema_Register publisher digest memo_size) op =
     (op_type op = lit ''Payment'' \<and> Some (op_account op) = publisher)"
| "performed_by (Credential_Issue issuer subject uid uri digest expiration) op =
     (op_type op = lit ''CredentialCreate'' \<and> op_account op = issuer)"
| "performed_by (Generation_Bound action issuer subject uid generation digest) op =
     (op_type op = (if action = Accept_Action then lit ''CredentialAccept'' else lit ''CredentialDelete'') \<and>
      op_account op = (if action = Revoke_Action then issuer else subject))"

definition can_reconfirm_operation :: "'x app_lib_scheme \<Rightarrow> stored_operation \<Rightarrow> bool" where
  "can_reconfirm_operation lib op \<longleftrightarrow>
     xrpl_success op \<and> (case op_hash op of None \<Rightarrow> False | Some h \<Rightarrow> hash64_any h) \<and>
     operation_business_confirmation lib op \<in> {Some Pending, Some Mismatch, Some Timed_Out} \<and>
     (case stored_business lib op of Inr (Some b) \<Rightarrow> is_confirmable b \<and> performed_by b op | _ \<Rightarrow> False)"

definition can_abandon_operation :: "stored_operation \<Rightarrow> bool" where
  "can_abandon_operation op \<longleftrightarrow> op_stage op = Prepared \<and> op_hash op = None \<and> op_blob op = None"

definition holds_business_lock :: "'x app_lib_scheme \<Rightarrow> stored_operation \<Rightarrow> bool" where
  "holds_business_lock lib op \<longleftrightarrow>
     op_stage op \<in> {Prepared, Signed, Submitted, Pending_Stage} \<or>
     (xrpl_success op \<and> operation_business_confirmation lib op \<in> {Some Pending, Some Timed_Out})"

section \<open>Operations of the journal\<close>

type_synonym store = "stored_operation list"

definition find_operation :: "jstr \<Rightarrow> store \<Rightarrow> stored_operation option" where
  "find_operation i ops = find (\<lambda>op. op_id op = i) ops"

text \<open>\<open>put\<close> replaces the record with the same key.\<close>

definition put_operation :: "stored_operation \<Rightarrow> store \<Rightarrow> store" where
  "put_operation op ops =
     (if list_ex (\<lambda>q. op_id q = op_id op) ops then map (\<lambda>q. if op_id q = op_id op then op else q) ops else ops @ [op])"

definition other_holder :: "'x app_lib_scheme \<Rightarrow> jstr option \<Rightarrow> jstr \<Rightarrow> store \<Rightarrow> bool" where
  "other_holder lib key own ops \<longleftrightarrow>
     key \<noteq> None \<and> key \<noteq> Some [] \<and> list_ex (\<lambda>op. op_id op \<noteq> own \<and> holds_business_lock lib op \<and> stored_key lib op = key) ops"

definition create_operation :: "'x app_lib_scheme \<Rightarrow> operation_seed \<Rightarrow> store \<Rightarrow> string + store" where
  "create_operation lib seed ops =
     rbind (if truthy (sd_business seed)
            then rbind (validate_operation_business_context lib (sd_business seed)) (\<lambda>b. Inr (Some b)) else Inr None) (\<lambda>b.
     if (case b of None \<Rightarrow> False | Some c \<Rightarrow> \<not> is_confirmable c) then Inl ''OPERATION_BUSINESS_CONTEXT_INCOMPLETE''
     else if list_ex (\<lambda>op. op_id op = sd_id seed) ops then Inl ''OPERATION_ID_ALREADY_EXISTS''
     else if other_holder lib (operation_business_key (sd_profile seed) b) (sd_id seed) ops then Inl ''OPERATION_BUSINESS_LOCKED''
     else Inr (put_operation
       \<lparr>op_id = sd_id seed, op_account = sd_account seed, op_profile = sd_profile seed, op_network = sd_network seed,
        op_type = sd_type seed, op_created = sd_created seed,
        op_business = (case b of None \<Rightarrow> sd_business seed | Some c \<Rightarrow> business_value c), op_updated = sd_created seed,
        op_stage = Prepared, op_hash = None, op_blob = None, op_last_ledger = JUndef, op_engine = None, op_ledger = JUndef,
        op_confirmation = (case b of None \<Rightarrow> JUndef | Some _ \<Rightarrow> jlit ''pending''), op_evidence = JUndef\<rparr> ops))"

definition persist_signed :: "'x app_lib_scheme \<Rightarrow> signed_record \<Rightarrow> store \<Rightarrow> string + store" where
  "persist_signed lib signed_tx ops =
     (case find_operation (sr_id signed_tx) ops of
        None \<Rightarrow> Inl ''OPERATION_NOT_FOUND''
      | Some op \<Rightarrow>
          if op_stage op \<noteq> Prepared then Inl ''OPERATION_LOCK_OWNERSHIP_LOST''
          else if other_holder lib (stored_key lib op) (op_id op) ops then Inl ''OPERATION_LOCK_OWNERSHIP_LOST''
          else Inr (put_operation (op\<lparr>op_updated := sr_at signed_tx, op_stage := Signed, op_hash := Some (sr_hash signed_tx),
                 op_blob := Some (sr_blob signed_tx), op_last_ledger := sr_last_ledger signed_tx\<rparr>) ops))"

definition apply_journal_entry :: "jstr \<Rightarrow> stored_operation \<Rightarrow> journal_entry \<Rightarrow> stored_operation" where
  "apply_journal_entry at op entry =
     (if is_final (op_stage op) then op
      else op\<lparr>op_updated := at, op_stage := entry_stage entry,
        op_hash := (case entry_tx_hash entry of None \<Rightarrow> op_hash op | Some h \<Rightarrow> Some h),
        op_blob := (if is_final (entry_stage entry) then None else op_blob op),
        op_last_ledger := coalesce (entry_last_ledger_sequence entry) (op_last_ledger op),
        op_engine := (case entry_engine_result entry of None \<Rightarrow> op_engine op | Some r \<Rightarrow> Some r),
        op_ledger := (case entry_ledger_index entry of None \<Rightarrow> op_ledger op | Some n \<Rightarrow> jint n)\<rparr>)"

definition mutate :: "jstr \<Rightarrow> (stored_operation \<Rightarrow> string + stored_operation) \<Rightarrow> store \<Rightarrow> string + store" where
  "mutate i f ops =
     (case find_operation i ops of
        None \<Rightarrow> Inl ''OPERATION_NOT_FOUND''
      | Some op \<Rightarrow> rbind (f op) (\<lambda>op'. Inr (put_operation op' ops)))"

definition append_to_journal :: "jstr \<Rightarrow> journal_entry \<Rightarrow> store \<Rightarrow> string + store" where
  "append_to_journal at entry ops = mutate (entry_operation entry) (\<lambda>op. Inr (apply_journal_entry at op entry)) ops"

definition confirm_operation ::
  "'x app_lib_scheme \<Rightarrow> confirmation \<Rightarrow> jstr \<Rightarrow> jsval \<Rightarrow> stored_operation \<Rightarrow> string + stored_operation" where
  "confirm_operation lib conf at evidence op =
     rbind (stored_business lib op) (\<lambda>business.
     case business of
       None \<Rightarrow> Inl ''OPERATION_BUSINESS_CONTEXT_REQUIRED''
     | Some b \<Rightarrow>
         if \<not> is_confirmable b then Inl ''OPERATION_BUSINESS_CONTEXT_REQUIRED''
         else if \<not> xrpl_success op then Inl ''OPERATION_XRPL_SUCCESS_REQUIRED''
         else if \<not> positive_ledger op then Inl ''OPERATION_XRPL_LEDGER_INDEX_REQUIRED''
         else
           rbind (if truthy evidence then rbind (validate_business_evidence evidence) (\<lambda>e. Inr (Some e)) else Inr None) (\<lambda>e.
           let settles = (conf = Confirmed \<or> conf = Rejected);
               hash = (case op_hash op of None \<Rightarrow> [] | Some h \<Rightarrow> to_lower h)
           in
           case e of
             None \<Rightarrow>
               if settles then Inl ''OPERATION_BUSINESS_EVIDENCE_REQUIRED''
               else Inr (op\<lparr>op_updated := at, op_confirmation := JStr (confirmation_name conf)\<rparr>)
           | Some ev \<Rightarrow>
               if hash \<noteq> [] \<and> be_hash ev \<noteq> hash then Inl ''OPERATION_BUSINESS_EVIDENCE_MISMATCH''
               else if jint (be_ledger_index ev) \<noteq> op_ledger op then Inl ''OPERATION_BUSINESS_EVIDENCE_MISMATCH''
               else if settles \<and> hash \<noteq> [] \<and> \<not> evidence_supports b conf ev hash then Inl ''OPERATION_BUSINESS_EVIDENCE_MISMATCH''
               else Inr (op\<lparr>op_updated := at, op_confirmation := JStr (confirmation_name conf),
                      op_evidence := evidence_value ev\<rparr>)))"

definition set_business_confirmation ::
  "'x app_lib_scheme \<Rightarrow> jstr \<Rightarrow> confirmation \<Rightarrow> jstr \<Rightarrow> jsval \<Rightarrow> store \<Rightarrow> string + store" where
  "set_business_confirmation lib i conf at evidence ops = mutate i (confirm_operation lib conf at evidence) ops"

definition abandon_operation :: "jstr \<Rightarrow> store \<Rightarrow> string + store" where
  "abandon_operation i ops =
     (case find_operation i ops of
        None \<Rightarrow> Inl ''OPERATION_NOT_FOUND''
      | Some op \<Rightarrow>
          if \<not> can_abandon_operation op then Inl ''OPERATION_ABANDON_NOT_ALLOWED''
          else Inr (filter (\<lambda>q. op_id q \<noteq> i) ops))"

definition assert_business_lock_owned :: "'x app_lib_scheme \<Rightarrow> jstr \<Rightarrow> store \<Rightarrow> string + unit" where
  "assert_business_lock_owned lib i ops =
     (case find_operation i ops of
        None \<Rightarrow> Inl ''OPERATION_LOCK_OWNERSHIP_LOST''
      | Some op \<Rightarrow>
          if \<not> holds_business_lock lib op \<or> other_holder lib (stored_key lib op) (op_id op) ops
          then Inl ''OPERATION_LOCK_OWNERSHIP_LOST'' else Inr ())"

section \<open>Stores\<close>

lemma put_operation_mem:
  "q \<in> set (put_operation op ops) \<longleftrightarrow> q = op \<or> (q \<in> set ops \<and> op_id q \<noteq> op_id op)"
  by (auto simp: put_operation_def list_ex_iff)

lemma put_operation_ids: "distinct (map op_id ops) \<Longrightarrow> distinct (map op_id (put_operation op ops))"
proof -
  assume d: "distinct (map op_id ops)"
  have "map op_id (map (\<lambda>q. if op_id q = op_id op then op else q) ops) = map op_id ops" by auto
  then show ?thesis using d by (auto simp: put_operation_def list_ex_iff simp del: map_map)
qed

lemma find_operation_Some: "find_operation i ops = Some op \<Longrightarrow> op \<in> set ops \<and> op_id op = i"
  by (auto simp: find_operation_def find_Some_iff)

lemma find_operation_unique:
  "distinct (map op_id ops) \<Longrightarrow> op \<in> set ops \<Longrightarrow> find_operation (op_id op) ops = Some op"
  by (induction ops) (auto simp: find_operation_def)

lemma in_flight_holds: "in_flight op \<Longrightarrow> holds_business_lock lib op"
  by (cases "op_stage op") (auto simp: is_final_def holds_business_lock_def)

lemma business_key_nonempty: "operation_business_key profile b \<noteq> Some []"
  by (cases "(profile, b)" rule: operation_business_key.cases) (auto split: option.splits)

lemma untruthy_not_record: "\<not> truthy v \<Longrightarrow> \<not> is_record v"
  by (cases v) auto

lemma sanitize_untruthy: "\<not> truthy v \<Longrightarrow> sanitize_business lib v = None"
  by (simp add: sanitize_business_def validate_operation_business_context_def untruthy_not_record)

lemma confirm_operation_keeps:
  assumes "confirm_operation lib conf at evidence op = Inr op'"
  shows "op' = op\<lparr>op_updated := op_updated op', op_confirmation := op_confirmation op', op_evidence := op_evidence op'\<rparr>" (is "op' = ?keep op'")
proof -
  have "\<exists>e. op' = op\<lparr>op_updated := at, op_confirmation := JStr (confirmation_name conf), op_evidence := e\<rparr>"
    using assms unfolding confirm_operation_def Let_def
    by (auto simp: res_simps split: option.splits if_splits intro: exI [of _ "op_evidence op"])
  then show ?thesis by auto
qed

section \<open>The journal as a machine\<close>

inductive journal_step :: "'x app_lib_scheme \<Rightarrow> store \<Rightarrow> store \<Rightarrow> bool" for lib where
  create: "create_operation lib seed ops = Inr ops' \<Longrightarrow> journal_step lib ops ops'"
| signature: "persist_signed lib signed_tx ops = Inr ops' \<Longrightarrow> journal_step lib ops ops'"
| append_entry: "append_to_journal at entry ops = Inr ops' \<Longrightarrow> journal_step lib ops ops'"
| confirmation: "set_business_confirmation lib i conf at evidence ops = Inr ops' \<Longrightarrow> journal_step lib ops ops'"
| abandon: "abandon_operation i ops = Inr ops' \<Longrightarrow> journal_step lib ops ops'"

text \<open>Every step that is not a creation or an abandonment updates one operation and moves its stage forward.\<close>

definition advances :: "stored_operation \<Rightarrow> stored_operation \<Rightarrow> bool" where
  "advances op op' \<longleftrightarrow> op_id op' = op_id op \<and> op_profile op' = op_profile op \<and> op_business op' = op_business op \<and>
     op_account op' = op_account op \<and> op_type op' = op_type op \<and>
     (is_final (op_stage op) \<longrightarrow> op_stage op' = op_stage op \<and> op_hash op' = op_hash op \<and> op_blob op' = op_blob op \<and>
        op_engine op' = op_engine op \<and> op_ledger op' = op_ledger op \<and> op_last_ledger op' = op_last_ledger op) \<and>
     (is_final (op_stage op') \<longrightarrow> op_blob op' = None \<or> is_final (op_stage op))"

lemma advances_refl [simp]: "advances op op"
  by (simp add: advances_def)

lemma apply_journal_entry_advances: "advances op (apply_journal_entry at op entry)"
  by (simp add: advances_def apply_journal_entry_def)

lemma confirm_operation_advances: "confirm_operation lib conf at evidence op = Inr op' \<Longrightarrow> advances op op'"
  by (subst confirm_operation_keeps [of lib conf at evidence op op'], assumption) (simp add: advances_def)

definition updates :: "store \<Rightarrow> store \<Rightarrow> bool" where
  "updates ops ops' \<longleftrightarrow> (\<exists>op op'. op \<in> set ops \<and> advances op op' \<and> ops' = put_operation op' ops)"

lemma mutate_updates:
  assumes "mutate i f ops = Inr ops'" and "\<And>op op'. f op = Inr op' \<Longrightarrow> advances op op'"
  shows "updates ops ops'"
  using assms by (fastforce simp: mutate_def updates_def res_simps dest: find_operation_Some)

lemma persist_signed_updates:
  assumes "persist_signed lib signed_tx ops = Inr ops'"
  shows "updates ops ops'"
proof -
  obtain op where op: "find_operation (sr_id signed_tx) ops = Some op" "op_stage op = Prepared"
    "ops' = put_operation (op\<lparr>op_updated := sr_at signed_tx, op_stage := Signed, op_hash := Some (sr_hash signed_tx),
       op_blob := Some (sr_blob signed_tx), op_last_ledger := sr_last_ledger signed_tx\<rparr>) ops"
    using assms by (auto simp: persist_signed_def res_simps split: if_splits)
  then show ?thesis
    unfolding updates_def using find_operation_Some [OF op(1)]
    by (intro exI [of _ op] exI conjI) (auto simp: advances_def is_final_def)
qed

lemma create_operation_new:
  assumes "create_operation lib seed ops = Inr ops'"
  obtains op where "ops' = put_operation op ops" and "op_id op = sd_id seed" and "\<forall>q \<in> set ops. op_id q \<noteq> op_id op"
    and "op_stage op = Prepared" and "op_blob op = None"
    and "\<not> other_holder lib (stored_key lib op) (op_id op) ops"
proof -
  obtain b where b: "(if truthy (sd_business seed)
      then rbind (validate_operation_business_context lib (sd_business seed)) (\<lambda>b. Inr (Some b)) else Inr None) = Inr b"
    and fresh: "\<not> list_ex (\<lambda>op. op_id op = sd_id seed) ops"
    and free: "\<not> other_holder lib (operation_business_key (sd_profile seed) b) (sd_id seed) ops"
    and ops': "ops' = put_operation
       \<lparr>op_id = sd_id seed, op_account = sd_account seed, op_profile = sd_profile seed, op_network = sd_network seed,
        op_type = sd_type seed, op_created = sd_created seed,
        op_business = (case b of None \<Rightarrow> sd_business seed | Some c \<Rightarrow> business_value c), op_updated = sd_created seed,
        op_stage = Prepared, op_hash = None, op_blob = None, op_last_ledger = JUndef, op_engine = None, op_ledger = JUndef,
        op_confirmation = (case b of None \<Rightarrow> JUndef | Some _ \<Rightarrow> jlit ''pending''), op_evidence = JUndef\<rparr> ops"
    using assms unfolding create_operation_def rbind_eq_Inr by (auto simp: res_simps split: if_splits)
  have key: "sanitize_business lib (case b of None \<Rightarrow> sd_business seed | Some c \<Rightarrow> business_value c) = b"
  proof (cases "truthy (sd_business seed)")
    case True
    then show ?thesis
      using b by (auto simp: res_simps sanitize_business_def validate_business_value dest!: validate_business_ok)
  next
    case False
    then show ?thesis using b by (auto simp: sanitize_untruthy)
  qed
  show ?thesis
    using fresh free by (intro that [OF ops']) (auto simp: stored_key_def key list_ex_iff)
qed

lemma journal_step_kinds:
  assumes "journal_step lib ops ops'"
  shows "updates ops ops' \<or>
    (\<exists>op. ops' = put_operation op ops \<and> (\<forall>q \<in> set ops. op_id q \<noteq> op_id op) \<and> op_stage op = Prepared \<and> op_blob op = None \<and>
       \<not> other_holder lib (stored_key lib op) (op_id op) ops) \<or>
    (\<exists>op. op \<in> set ops \<and> can_abandon_operation op \<and> ops' = filter (\<lambda>q. op_id q \<noteq> op_id op) ops)"
  using assms
proof (cases rule: journal_step.cases)
  case (create seed)
  then show ?thesis by (blast elim: create_operation_new)
next
  case (signature signed_tx)
  then show ?thesis using persist_signed_updates by blast
next
  case (append_entry at entry)
  then have "updates ops ops'"
    unfolding append_to_journal_def by (rule mutate_updates) (auto simp: apply_journal_entry_advances)
  then show ?thesis ..
next
  case (confirmation i conf at evidence)
  then have "updates ops ops'"
    unfolding set_business_confirmation_def by (rule mutate_updates) (rule confirm_operation_advances)
  then show ?thesis ..
next
  case (abandon i)
  then show ?thesis
    by (auto simp: abandon_operation_def res_simps split: if_splits dest!: find_operation_Some)
qed

text \<open>
  The invariant: identifiers are unique, a finished operation keeps no signed blob, and of the operations
  for one business key at most one is in flight.
\<close>

definition flying :: "'x app_lib_scheme \<Rightarrow> jstr \<Rightarrow> stored_operation \<Rightarrow> bool" where
  "flying lib key op \<longleftrightarrow> in_flight op \<and> stored_key lib op = Some key"

definition one_in_flight :: "'x app_lib_scheme \<Rightarrow> store \<Rightarrow> bool" where
  "one_in_flight lib ops \<longleftrightarrow> (\<forall>key p q. p \<in> set ops \<and> q \<in> set ops \<and> flying lib key p \<and> flying lib key q \<longrightarrow> op_id p = op_id q)"

definition journal_ok :: "'x app_lib_scheme \<Rightarrow> store \<Rightarrow> bool" where
  "journal_ok lib ops \<longleftrightarrow>
     distinct (map op_id ops) \<and> (\<forall>op \<in> set ops. is_final (op_stage op) \<longrightarrow> op_blob op = None) \<and> one_in_flight lib ops"

lemma advances_flying: "advances op op' \<Longrightarrow> flying lib key op' \<Longrightarrow> flying lib key op"
  by (auto simp: advances_def flying_def stored_key_def)

lemma one_in_flight_updated:
  assumes "one_in_flight lib ops" and "op \<in> set ops" and "advances op op'"
  shows "one_in_flight lib (put_operation op' ops)"
proof -
  have "\<exists>p \<in> set ops. flying lib key p \<and> op_id p = op_id q" if "q \<in> set (put_operation op' ops)" "flying lib key q" for q key
  proof (cases "q = op'")
    case True
    then have "flying lib key op" "op_id op = op_id q"
      using advances_flying [OF assms(3)] that(2) assms(3) by (auto simp: advances_def)
    then show ?thesis using assms(2) by blast
  next
    case False
    then show ?thesis using that by (auto simp: put_operation_mem)
  qed
  then show ?thesis using assms(1) unfolding one_in_flight_def by metis
qed

lemma one_in_flight_created:
  assumes "one_in_flight lib ops" and "\<not> other_holder lib (stored_key lib op) (op_id op) ops"
  shows "one_in_flight lib (put_operation op ops)"
proof -
  have alone: "\<not> flying lib key q" if "q \<in> set ops" "op_id q \<noteq> op_id op" "flying lib key op" for q key
  proof
    assume "flying lib key q"
    then have "holds_business_lock lib q \<and> stored_key lib q = stored_key lib op \<and> stored_key lib op = Some key \<and> key \<noteq> []"
      using that(3) in_flight_holds business_key_nonempty by (auto simp: flying_def stored_key_def)
    then show False using assms(2) that(1,2) by (auto simp: other_holder_def list_ex_iff)
  qed
  show ?thesis
    unfolding one_in_flight_def
  proof (intro allI impI, elim conjE)
    fix key p q
    assume "p \<in> set (put_operation op ops)" "q \<in> set (put_operation op ops)" "flying lib key p" "flying lib key q"
    then show "op_id p = op_id q"
      using alone assms(1) unfolding put_operation_mem one_in_flight_def by metis
  qed
qed

lemma one_in_flight_subset: "one_in_flight lib ops \<Longrightarrow> set ops' \<subseteq> set ops \<Longrightarrow> one_in_flight lib ops'"
  by (auto simp: one_in_flight_def)

lemma journal_step_ok:
  assumes "journal_step lib ops ops'" and ok: "journal_ok lib ops"
  shows "journal_ok lib ops'"
  using journal_step_kinds [OF assms(1)]
proof (elim disjE exE conjE)
  assume "updates ops ops'"
  then obtain op op' where op: "op \<in> set ops" "advances op op'" "ops' = put_operation op' ops" by (auto simp: updates_def)
  have "is_final (op_stage op') \<Longrightarrow> op_blob op' = None"
    using op(1,2) ok by (auto simp: advances_def journal_ok_def)
  then show ?thesis
    using ok one_in_flight_updated [OF _ op(1,2)] put_operation_ids unfolding op(3) journal_ok_def
    by (auto simp: put_operation_mem)
next
  fix op assume "ops' = put_operation op ops" "op_stage op = Prepared" "\<not> other_holder lib (stored_key lib op) (op_id op) ops"
  then show ?thesis
    using ok one_in_flight_created put_operation_ids unfolding journal_ok_def by (auto simp: put_operation_mem is_final_def)
next
  fix op assume ops': "ops' = filter (\<lambda>q. op_id q \<noteq> op_id op) ops"
  then show ?thesis
    using ok one_in_flight_subset [of lib ops ops'] by (auto simp: journal_ok_def distinct_map_filter)
qed

interpretation journal: machine "\<lambda>ops. ops = []" "journal_step lib" "journal_ok lib" for lib
  by (unfold_locales, simp add: journal_ok_def one_in_flight_def, rule journal_step_ok)

text \<open>A finished operation stays in the journal as it finished.\<close>

definition finished_as :: "stored_operation \<Rightarrow> stored_operation \<Rightarrow> bool" where
  "finished_as op op' \<longleftrightarrow> op_id op' = op_id op \<and> op_business op' = op_business op \<and> op_type op' = op_type op \<and>
     op_account op' = op_account op \<and> op_stage op' = op_stage op \<and> op_hash op' = op_hash op \<and> op_blob op' = op_blob op \<and>
     op_engine op' = op_engine op \<and> op_ledger op' = op_ledger op"

definition keeps_finished :: "stored_operation \<Rightarrow> store \<Rightarrow> bool" where
  "keeps_finished op ops \<longleftrightarrow> (\<exists>op' \<in> set ops. finished_as op op')"

lemma journal_step_keeps_finished:
  assumes "journal_step lib ops ops'" and "is_final (op_stage op)" and "distinct (map op_id ops)" and "keeps_finished op ops"
  shows "keeps_finished op ops'"
proof -
  obtain p where p: "p \<in> set ops" "finished_as op p" using assms(4) by (auto simp: keeps_finished_def)
  have fin: "is_final (op_stage p)" using p(2) assms(2) by (simp add: finished_as_def)
  have unique: "q = p" if "q \<in> set ops" "op_id q = op_id p" for q
    using that p(1) assms(3) by (metis find_operation_unique option.inject)
  show ?thesis
    using journal_step_kinds [OF assms(1)]
  proof (elim disjE exE conjE)
    assume "updates ops ops'"
    then obtain q q' where q: "q \<in> set ops" "advances q q'" "ops' = put_operation q' ops" by (auto simp: updates_def)
    show ?thesis
    proof (cases "op_id q = op_id p")
      case True
      then have "finished_as op q'" using unique [OF q(1)] q(2) p(2) fin by (auto simp: advances_def finished_as_def)
      then show ?thesis using q(3) by (auto simp: keeps_finished_def put_operation_mem)
    next
      case False
      then show ?thesis using q p by (auto simp: keeps_finished_def put_operation_mem advances_def)
    qed
  next
    fix q assume "ops' = put_operation q ops" "\<forall>r \<in> set ops. op_id r \<noteq> op_id q"
    then show ?thesis using p by (auto simp: keeps_finished_def put_operation_mem)
  next
    fix q assume q: "q \<in> set ops" "can_abandon_operation q" "ops' = filter (\<lambda>r. op_id r \<noteq> op_id q) ops"
    then have "op_id p \<noteq> op_id q" using unique [of q] fin by (auto simp: can_abandon_operation_def is_final_def)
    then show ?thesis using q p by (auto simp: keeps_finished_def)
  qed
qed

lemma steps_keep_finished:
  assumes "(journal_step lib)\<^sup>*\<^sup>* ops ops'" and "journal_ok lib ops" and "op \<in> set ops" and "is_final (op_stage op)"
  shows "keeps_finished op ops'"
  using assms(1)
proof (induction rule: rtranclp_induct)
  case base
  then show ?case using assms(3) by (auto simp: keeps_finished_def finished_as_def)
next
  case (step ops1 ops2)
  have "distinct (map op_id ops1)"
    using journal.steps_inv [OF step(1) assms(2)] by (simp add: journal_ok_def)
  then show ?case using journal_step_keeps_finished [OF step(2) assms(4)] step(3) by blast
qed

end
