(* ===== verification/App_Confirmation.thy ===== *)
theory App_Confirmation
  imports App_Journal
begin

text \<open>
  Confirming an operation by what the indexer recorded of its transaction
  (\<open>apps/web/app/utils/businessConfirmation.ts\<close>): the inspection of one answer, the polling loop, and the
  confirmation of a journaled operation. Main result: the journal accepts what an inspection confirms.
\<close>

section \<open>Inspecting an answer\<close>

datatype inspected = Still_Pending | No_Match | Settled confirmation business_evidence

abbreviation response_invalid :: "string + 'a" where
  "response_invalid \<equiv> Inl ''BUSINESS_EVIDENCE_RESPONSE_INVALID''"

definition indexed_hash :: "jsval \<Rightarrow> jstr \<Rightarrow> string + jstr" where
  "indexed_hash input expected =
     (if \<not> string_that hash64_any (get input ''transactionHash'') then response_invalid
      else
        let hash = to_lower (str_of (get input ''transactionHash'')) in
        if hash \<noteq> to_lower expected then response_invalid else Inr hash)"

text \<open>The ledger coordinates of a record, as evidence without details.\<close>

definition required_ledger_evidence :: "jsval \<Rightarrow> jstr \<Rightarrow> string + business_evidence" where
  "required_ledger_evidence input hash =
     (if \<not> safe_integer (get input ''ledgerIndex'') \<or> int_of (get input ''ledgerIndex'') \<le> 0 \<or>
        \<not> string_that hash64_any (get input ''ledgerHash'') \<or>
        \<not> safe_integer (get input ''transactionIndex'') \<or> int_of (get input ''transactionIndex'') < 0
      then response_invalid
      else Inr \<lparr>be_hash = hash, be_ledger_index = int_of (get input ''ledgerIndex''),
             be_ledger_hash = to_lower (str_of (get input ''ledgerHash'')), be_index = int_of (get input ''transactionIndex''),
             be_schema_uid = None, be_generation = None, be_reason = None, be_event = None, be_accepted = None,
             be_cause = None\<rparr>)"

text \<open>The status of a registration by the right publisher.\<close>

definition settle_registration :: "jsval \<Rightarrow> jstr option \<Rightarrow> business_evidence \<Rightarrow> string + inspected" where
  "settle_registration registration digest ledger =
     (let uid = get registration ''schemaUid'';
          digest_hex = get registration ''schemaDigestHex'';
          reason = get registration ''reasonCode''
      in
      if get registration ''status'' = jlit ''rejected'' then
        if uid \<noteq> JNull \<or> digest_hex \<noteq> JNull \<or> \<not> string_that reason_code reason then response_invalid
        else Inr (Settled Rejected (ledger\<lparr>be_reason := Some (str_of reason)\<rparr>))
      else if \<not> string_that hash64_any uid \<or> \<not> string_that hash64_any digest_hex \<or> reason \<noteq> JNull then response_invalid
      else if Some (to_lower (str_of digest_hex)) \<noteq> digest then Inr No_Match
      else Inr (Settled Confirmed (ledger\<lparr>be_schema_uid := Some (to_lower (str_of uid))\<rparr>)))"

definition inspect_schema_registration :: "jsval \<Rightarrow> jstr option \<Rightarrow> jstr option \<Rightarrow> jstr \<Rightarrow> string + inspected" where
  "inspect_schema_registration input publisher digest tx_hash =
     (if \<not> is_record input then response_invalid
      else
        rbind (indexed_hash input tx_hash) (\<lambda>hash.
        let registration = get input ''registration'' in
        if registration = JNull then Inr Still_Pending
        else if \<not> is_record registration then response_invalid
        else if get registration ''status'' \<notin> {jlit ''accepted'', jlit ''rejected''} \<or>
          \<not> string_that (\<lambda>_. True) (get registration ''publisher'') then response_invalid
        else if Some (str_of (get registration ''publisher'')) \<noteq> publisher then Inr No_Match
        else rbind (required_ledger_evidence registration hash) (settle_registration registration digest)))"

record indexed_event =
  ix_generation :: jstr
  ix_event :: event_type
  ix_accepted :: bool
  ix_cause :: "deletion_cause option"

definition event_well_formed :: "jsval \<Rightarrow> bool" where
  "event_well_formed event \<longleftrightarrow>
     string_that hash64_any (get event ''transactionHash'') \<and> string_that (\<lambda>_. True) (get event ''issuer'') \<and>
     string_that (\<lambda>_. True) (get event ''subject'') \<and> string_that hash64_any (get event ''schemaUid'') \<and>
     string_that hash64_any (get event ''generationId'') \<and>
     string_that (\<lambda>s. map_of EVENT_TYPES s \<noteq> None) (get event ''eventType'') \<and>
     (case get event ''accepted'' of JBool _ \<Rightarrow> True | _ \<Rightarrow> False) \<and>
     (if get event ''eventType'' = jlit ''deleted'' then cause_of_value (get event ''deletionCause'') \<noteq> None
      else get event ''deletionCause'' = JNull)"

definition read_event :: "jsval \<Rightarrow> indexed_event" where
  "read_event event =
     \<lparr>ix_generation = to_lower (str_of (get event ''generationId'')),
      ix_event = the (map_of EVENT_TYPES (str_of (get event ''eventType''))),
      ix_accepted = (get event ''accepted'' = JBool True),
      ix_cause = cause_of_value (get event ''deletionCause'')\<rparr>"

text \<open>The test \<open>confirmed\<close> on the event of a transaction.\<close>

fun event_confirms :: "business \<Rightarrow> jstr \<Rightarrow> indexed_event \<Rightarrow> bool" where
  "event_confirms (Credential_Issue issuer subject uid uri digest expiration) hash ev =
     (ix_event ev = Created \<and> ix_generation ev = hash \<and> ix_accepted ev = (issuer = subject))"
| "event_confirms (Generation_Bound action issuer subject uid generation digest) hash ev =
     (ix_generation ev = generation \<and> ix_event ev = (if action = Accept_Action then Accepted else Deleted) \<and>
      (if action = Reject_Action then \<not> ix_accepted ev
       else (action \<noteq> Accept_Action \<and> action \<noteq> Remove_Action) \<or> ix_accepted ev) \<and>
      (case action of
         Accept_Action \<Rightarrow> True
       | Reject_Action \<Rightarrow> ix_cause ev = Some Subject_Rejected
       | Remove_Action \<Rightarrow> ix_cause ev = Some (if issuer = subject then Issuer_Revoked else Subject_Removed)
       | Revoke_Action \<Rightarrow> ix_cause ev = Some Issuer_Revoked))"
| "event_confirms (Schema_Register publisher digest memo_size) hash ev = False"

fun credential_of :: "business \<Rightarrow> jstr \<times> jstr \<times> jstr" where
  "credential_of (Credential_Issue issuer subject uid uri digest expiration) = (issuer, subject, uid)"
| "credential_of (Generation_Bound action issuer subject uid generation digest) = (issuer, subject, uid)"
| "credential_of (Schema_Register publisher digest memo_size) = ([], [], [])"

definition inspect_credential_event :: "jsval \<Rightarrow> business \<Rightarrow> jstr \<Rightarrow> string + inspected" where
  "inspect_credential_event input business tx_hash =
     (if \<not> is_record input then response_invalid
      else
        rbind (indexed_hash input tx_hash) (\<lambda>hash.
        let event = get input ''event''; ev = read_event event; (issuer, subject, uid) = credential_of business in
        if event = JNull then Inr Still_Pending
        else if \<not> is_record event \<or> \<not> event_well_formed event then response_invalid
        else if to_lower (str_of (get event ''transactionHash'')) \<noteq> hash \<or> get event ''issuer'' \<noteq> JStr issuer \<or>
          get event ''subject'' \<noteq> JStr subject \<or> to_lower (str_of (get event ''schemaUid'')) \<noteq> uid then Inr No_Match
        else if \<not> event_confirms business hash ev then Inr No_Match
        else
          rbind (required_ledger_evidence event hash) (\<lambda>ledger.
          Inr (Settled Confirmed (ledger\<lparr>be_schema_uid := Some (to_lower (str_of (get event ''schemaUid''))),
            be_generation := Some (ix_generation ev), be_event := Some (ix_event ev), be_accepted := Some (ix_accepted ev),
            be_cause := Some (ix_cause ev)\<rparr>)))))"

definition inspect_indexed_business_evidence :: "jsval \<Rightarrow> business \<Rightarrow> jstr \<Rightarrow> string + inspected" where
  "inspect_indexed_business_evidence input business tx_hash =
     (if \<not> is_confirmable business then Inl ''OPERATION_BUSINESS_CONTEXT_INCOMPLETE''
      else
        case business of
          Schema_Register publisher digest memo_size \<Rightarrow> inspect_schema_registration input publisher digest tx_hash
        | _ \<Rightarrow> inspect_credential_event input business tx_hash)"

section \<open>Polling the indexer\<close>

datatype confirm_event = Asked_Indexer | Paused | Persisted_Confirmation confirmation jstr "business_evidence option"

text \<open>The indexer, the clock and the journal, as functions of what happened before.\<close>

record confirm_env =
  ev_answer :: "confirm_event list \<Rightarrow> string + jsval"
  ev_now :: "confirm_event list \<Rightarrow> int"
  ev_iso :: "confirm_event list \<Rightarrow> jstr"
  ev_persist :: "confirm_event list \<Rightarrow> confirmation \<Rightarrow> jstr \<Rightarrow> business_evidence option \<Rightarrow> string + unit"

abbreviation conclusive_errors :: "string set" where
  "conclusive_errors \<equiv> {''BUSINESS_EVIDENCE_MISMATCH'', ''BUSINESS_EVIDENCE_RESPONSE_INVALID''}"

text \<open>One round: \<open>Some\<close> result or error that leaves the loop, \<open>None\<close> when it goes on.\<close>

definition poll_round ::
  "business \<Rightarrow> jstr \<Rightarrow> string + jsval \<Rightarrow> (string + confirmation \<times> business_evidence) option" where
  "poll_round business tx_hash answer =
     (case rbind answer (\<lambda>input. inspect_indexed_business_evidence input business tx_hash) of
        Inr (Settled conf e) \<Rightarrow> Some (Inr (conf, e))
      | Inr No_Match \<Rightarrow> Some (Inl ''BUSINESS_EVIDENCE_MISMATCH'')
      | Inr Still_Pending \<Rightarrow> None
      | Inl e \<Rightarrow> if e \<in> conclusive_errors then Some (Inl e) else None)"

text \<open>The loop: rounds with pauses between them, until one leaves the loop or the deadline has passed after it.\<close>

partial_function (option) poll_rounds ::
  "confirm_env \<Rightarrow> (string + jsval \<Rightarrow> (string + 'a) option) \<Rightarrow> string \<Rightarrow> int \<Rightarrow> confirm_event list \<Rightarrow>
    ((string + 'a) \<times> confirm_event list) option" where
  "poll_rounds env round timeout deadline t =
     (case round (ev_answer env t) of
        Some r \<Rightarrow> Some (r, t @ [Asked_Indexer])
      | None \<Rightarrow>
          if deadline \<le> ev_now env (t @ [Asked_Indexer]) then Some (Inl timeout, t @ [Asked_Indexer])
          else poll_rounds env round timeout deadline (t @ [Asked_Indexer, Paused]))"

definition poll_evidence ::
  "confirm_env \<Rightarrow> business \<Rightarrow> jstr \<Rightarrow> int \<Rightarrow> confirm_event list \<Rightarrow>
    ((string + confirmation \<times> business_evidence) \<times> confirm_event list) option" where
  "poll_evidence env business tx_hash = poll_rounds env (poll_round business tx_hash) ''BUSINESS_EVIDENCE_TIMEOUT''"

text \<open>A given number of milliseconds is checked, the default is positive.\<close>

definition positive_safe :: "int option \<Rightarrow> bool" where
  "positive_safe given \<longleftrightarrow> (case given of None \<Rightarrow> True | Some n \<Rightarrow> 0 < n \<and> n \<le> MAX_SAFE_INTEGER)"

definition wait_for_indexed_business_evidence ::
  "confirm_env \<Rightarrow> business \<Rightarrow> jstr \<Rightarrow> int option \<Rightarrow> int option \<Rightarrow> confirm_event list \<Rightarrow>
    ((string + confirmation \<times> business_evidence) \<times> confirm_event list) option" where
  "wait_for_indexed_business_evidence env business tx_hash timeout_ms interval_ms t =
     (if \<not> positive_safe timeout_ms then Some (Inl ''BUSINESS_EVIDENCE_TIMEOUT_INVALID'', t)
      else if \<not> positive_safe interval_ms then Some (Inl ''BUSINESS_EVIDENCE_POLL_INTERVAL_INVALID'', t)
      else poll_evidence env business tx_hash
             (ev_now env t + (case timeout_ms of None \<Rightarrow> 30000 | Some ms \<Rightarrow> ms)) t)"

definition confirmation_of_wait :: "string + confirmation \<times> business_evidence \<Rightarrow> confirmation \<times> business_evidence option" where
  "confirmation_of_wait r =
     (case r of
        Inr (conf, e) \<Rightarrow> (conf, Some e)
      | Inl e \<Rightarrow> (if e \<in> conclusive_errors then Mismatch else Timed_Out, None))"

definition reconfirm_validated_business_operation ::
  "'x app_lib_scheme \<Rightarrow> confirm_env \<Rightarrow> stored_operation \<Rightarrow> int option \<Rightarrow> int option \<Rightarrow> confirm_event list \<Rightarrow>
    ((string + confirmation) \<times> confirm_event list) option" where
  "reconfirm_validated_business_operation lib env op timeout_ms interval_ms t =
     (if \<not> can_reconfirm_operation lib op then Some (Inl ''OPERATION_BUSINESS_RECONFIRM_NOT_ALLOWED'', t)
      else
        case stored_business lib op of
          Inl e \<Rightarrow> Some (Inl e, t)
        | Inr None \<Rightarrow> Some (Inl ''OPERATION_BUSINESS_CONTEXT_REQUIRED'', t)
        | Inr (Some b) \<Rightarrow>
            if \<not> is_confirmable b \<or> op_hash op = None \<or> op_hash op = Some []
            then Some (Inl ''OPERATION_BUSINESS_CONTEXT_REQUIRED'', t)
            else
              case wait_for_indexed_business_evidence env b (the (op_hash op)) timeout_ms interval_ms t of
                None \<Rightarrow> None
              | Some (r, t') \<Rightarrow>
                  let (conf, e) = confirmation_of_wait r; at = ev_iso env t' in
                  case ev_persist env t' conf at e of
                    Inl err \<Rightarrow> Some (Inl err, t')
                  | Inr _ \<Rightarrow> Some (Inr conf, t' @ [Persisted_Confirmation conf at e]))"

section \<open>The journal accepts what an inspection confirms\<close>

lemma required_ledger_evidence_Inr:
  assumes "required_ledger_evidence input hash = Inr e"
  shows "be_hash e = hash \<and> 0 < be_ledger_index e \<and> be_ledger_index e \<le> MAX_SAFE_INTEGER \<and> hash64 (be_ledger_hash e) \<and>
    0 \<le> be_index e \<and> be_index e \<le> MAX_SAFE_INTEGER \<and> be_schema_uid e = None \<and> be_generation e = None \<and>
    be_reason e = None \<and> be_event e = None \<and> be_accepted e = None \<and> be_cause e = None"
  using assms
  by (auto simp: required_ledger_evidence_def safe_integer_iff string_that_iff hash64_any_lower split: if_splits)

lemma indexed_hash_Inr: "indexed_hash input expected = Inr hash \<Longrightarrow> hash64 hash \<and> hash = to_lower expected"
  by (auto simp: indexed_hash_def Let_def string_that_iff hash64_any_lower split: if_splits)

lemma inspect_registration_supported:
  assumes "inspect_schema_registration input publisher digest tx_hash = Inr (Settled conf e)"
  shows "evidence_ok e \<and> (conf = Confirmed \<or> conf = Rejected) \<and>
    evidence_supports (Schema_Register publisher digest memo_size) conf e (to_lower tx_hash)"
proof -
  let ?r = "get input ''registration''"
  obtain hash where hash: "indexed_hash input tx_hash = Inr hash"
    and rest: "(if ?r = JNull then Inr Still_Pending
        else if \<not> is_record ?r then response_invalid
        else if get ?r ''status'' \<notin> {jlit ''accepted'', jlit ''rejected''} \<or> \<not> string_that (\<lambda>_. True) (get ?r ''publisher'')
        then response_invalid
        else if Some (str_of (get ?r ''publisher'')) \<noteq> publisher then Inr No_Match
        else rbind (required_ledger_evidence ?r hash) (settle_registration ?r digest)) = Inr (Settled conf e)"
    using assms unfolding inspect_schema_registration_def Let_def if_Inl_eq_Inr rbind_eq_Inr by blast
  then obtain ledger where ledger: "required_ledger_evidence ?r hash = Inr ledger"
    and settle: "settle_registration ?r digest ledger = Inr (Settled conf e)"
    by (simp split: if_split_asm) (auto simp: res_simps)
  have e: "(conf = Rejected \<and> (\<exists>r. reason_code r \<and> e = ledger\<lparr>be_reason := Some r\<rparr>)) \<or>
      (conf = Confirmed \<and> (\<exists>u. hash64_any u \<and> e = ledger\<lparr>be_schema_uid := Some (to_lower u)\<rparr>))"
    using settle unfolding settle_registration_def Let_def by (auto simp: string_that_iff split: if_split_asm)
  show ?thesis
    using e required_ledger_evidence_Inr [OF ledger] indexed_hash_Inr [OF hash]
    by (auto simp: evidence_ok_def hash64_any_lower)
qed

lemma event_confirms_supported:
  assumes "event_confirms b hash ev" and "be_hash e = hash" and "be_schema_uid e = Some uid" and "credential_of b = (issuer, subject, uid)"
    and "be_generation e = Some (ix_generation ev)" and "be_event e = Some (ix_event ev)" and "be_accepted e = Some (ix_accepted ev)"
    and "be_cause e = Some (ix_cause ev)" and "ix_event ev \<noteq> Deleted \<Longrightarrow> ix_cause ev = None"
  shows "evidence_supports b Confirmed e hash"
proof (cases b)
  case (Generation_Bound action issuer subject uid generation digest)
  then show ?thesis using assms by (cases action) auto
qed (use assms in auto)

lemma read_event_cause:
  assumes "event_well_formed event"
  shows "cause_fits (Some (ix_event (read_event event))) (Some (ix_cause (read_event event)))"
proof -
  obtain s t where s: "get event ''eventType'' = JStr s" "map_of EVENT_TYPES s = Some t"
    using assms by (auto simp: event_well_formed_def string_that_iff)
  have "t = Deleted \<longleftrightarrow> s = lit ''deleted''"
    using s(2) by (auto simp: EVENT_TYPES_def split: if_splits)
  then show ?thesis
    using assms s by (cases t) (auto simp: event_well_formed_def read_event_def cause_of_value_def)
qed

lemma inspect_credential_supported:
  assumes "inspect_credential_event input b tx_hash = Inr (Settled conf e)"
  shows "evidence_ok e \<and> conf = Confirmed \<and> evidence_supports b conf e (to_lower tx_hash)"
proof -
  let ?event = "get input ''event''"
  let ?ev = "read_event ?event"
  obtain issuer subject uid where b: "credential_of b = (issuer, subject, uid)" by (cases "credential_of b")
  obtain hash ledger where hash: "indexed_hash input tx_hash = Inr hash" and wf: "event_well_formed ?event"
    and uid: "to_lower (str_of (get ?event ''schemaUid'')) = uid" and ok: "event_confirms b hash ?ev"
    and ledger: "required_ledger_evidence ?event hash = Inr ledger" and conf: "conf = Confirmed"
    and e: "e = ledger\<lparr>be_schema_uid := Some uid, be_generation := Some (ix_generation ?ev), be_event := Some (ix_event ?ev),
      be_accepted := Some (ix_accepted ?ev), be_cause := Some (ix_cause ?ev)\<rparr>"
    using assms unfolding inspect_credential_event_def Let_def b
    by (auto simp: res_simps split: if_splits)
  note cause = read_event_cause [OF wf]
  have "hash64 uid" "hash64 (ix_generation ?ev)"
    using wf uid by (auto simp: event_well_formed_def string_that_iff hash64_any_lower read_event_def)
  then have "evidence_ok e"
    using required_ledger_evidence_Inr [OF ledger] indexed_hash_Inr [OF hash] cause by (auto simp: evidence_ok_def e)
  moreover have "evidence_supports b Confirmed e hash"
    using event_confirms_supported [OF ok, of e uid issuer subject] required_ledger_evidence_Inr [OF ledger] b cause
    by (cases "ix_event ?ev") (simp_all add: e)
  ultimately show ?thesis using conf indexed_hash_Inr [OF hash] by simp
qed

lemma inspect_supported:
  assumes "inspect_indexed_business_evidence input b tx_hash = Inr (Settled conf e)"
  shows "is_confirmable b \<and> evidence_ok e \<and> (conf = Confirmed \<or> conf = Rejected) \<and> evidence_supports b conf e (to_lower tx_hash)"
  using assms inspect_registration_supported inspect_credential_supported
  by (fastforce simp: inspect_indexed_business_evidence_def split: if_splits business.splits)

lemma evidence_supports_hash: "evidence_supports b conf e hash \<Longrightarrow> be_hash e = hash"
  by (cases "(b, conf, e, hash)" rule: evidence_supports.cases) auto

lemma evidence_value_truthy: "truthy (evidence_value e)"
  by (simp add: evidence_value_def)

text \<open>What an inspection confirms of the transaction of an operation is stored and read back as such.\<close>

lemma confirm_inspected:
  assumes "inspect_indexed_business_evidence input b tx_hash = Inr (Settled conf e)"
    and "stored_business lib op = Inr (Some b)" and "xrpl_success op" and "op_hash op = Some tx_hash"
    and "op_ledger op = jint (be_ledger_index e)"
  shows "\<exists>op'. confirm_operation lib conf at (evidence_value e) op = Inr op' \<and>
    operation_business_confirmation lib op' = Some conf \<and> operation_business_evidence lib op' = Some e"
proof -
  note s = inspect_supported [OF assms(1)]
  let ?op = "op\<lparr>op_updated := at, op_confirmation := JStr (confirmation_name conf), op_evidence := evidence_value e\<rparr>"
  have h: "be_hash e = to_lower tx_hash" "tx_hash \<noteq> []"
    using s evidence_supports_hash [of b conf e "to_lower tx_hash"] by (auto simp: evidence_ok_def hash64_def)
  have pos: "positive_ledger op" using s assms(5) by (simp add: positive_ledger_def evidence_ok_def MAX_SAFE_INTEGER_def)
  have "confirm_operation lib conf at (evidence_value e) op = Inr ?op"
    using s h assms pos by (simp add: confirm_operation_def evidence_value_truthy validate_evidence_value Let_def to_lower_def)
  moreover have b: "sanitize_business lib (op_business ?op) = Some b"
    using assms(2) by (auto simp: stored_business_def sanitize_business_def res_simps split: if_splits)
  have ev: "sanitize_evidence (op_evidence ?op) = Some e"
    using s by (simp add: sanitize_evidence_def validate_evidence_value)
  have "operation_business_confirmation lib ?op = Some conf"
    unfolding operation_business_confirmation_def b ev using s h assms pos
    by (simp add: sanitize_confirmation_def xrpl_success_def positive_ledger_def settled_evidence_def Let_def)
  moreover from this have "operation_business_evidence lib ?op = Some e"
    using s h assms(4) unfolding operation_business_evidence_def ev by auto
  ultimately show ?thesis by blast
qed

section \<open>The loop returns\<close>

lemma poll_rounds_returns:
  assumes "\<And>t. n \<le> length t \<Longrightarrow> deadline \<le> ev_now env t"
  shows "poll_rounds env round timeout deadline t \<noteq> None"
proof (induction "n - length t" arbitrary: t rule: less_induct)
  case less
  show ?case
  proof (cases "n \<le> Suc (length t)")
    case True
    then show ?thesis
      using assms [of "t @ [Asked_Indexer]"] by (subst poll_rounds.simps) (simp split: option.splits)
  next
    case False
    then have "poll_rounds env round timeout deadline (t @ [Asked_Indexer, Paused]) \<noteq> None" using less by simp
    then show ?thesis by (subst poll_rounds.simps) (simp split: option.splits)
  qed
qed

text \<open>What the loop gives is the outcome of a round, unless it is the timeout.\<close>

lemma poll_rounds_outcome:
  "poll_rounds env round timeout deadline t = Some y \<Longrightarrow> fst y = Inl timeout \<or> (\<exists>u. round (ev_answer env u) = Some (fst y))"
proof (induction rule: poll_rounds.raw_induct [rotated 1, consumes 1])
  case (1 poll env round timeout deadline t y)
  show ?case
  proof (cases "round (ev_answer env t)")
    case None
    then show ?thesis using 1 by (auto split: if_splits)
  next
    case (Some r)
    then show ?thesis using 1(2) by auto
  qed
qed

lemma poll_evidence_returns:
  assumes "\<And>t. n \<le> length t \<Longrightarrow> deadline \<le> ev_now env t"
  shows "poll_evidence env b tx_hash deadline t \<noteq> None"
  unfolding poll_evidence_def by (rule poll_rounds_returns) (rule assms)

lemma poll_round_settled:
  assumes "poll_round b tx_hash answer = Some (Inr (conf, e))"
  shows "\<exists>input. answer = Inr input \<and> inspect_indexed_business_evidence input b tx_hash = Inr (Settled conf e)"
proof (cases answer)
  case (Inr input)
  then show ?thesis
    using assms
    by (cases "inspect_indexed_business_evidence input b tx_hash") (auto simp: poll_round_def split: inspected.splits if_splits)
qed (use assms in \<open>simp add: poll_round_def split: if_splits\<close>)

lemma poll_evidence_inspected:
  assumes "poll_evidence env b tx_hash deadline t = Some y" and "fst y = Inr (conf, e)"
  shows "\<exists>u input. ev_answer env u = Inr input \<and> inspect_indexed_business_evidence input b tx_hash = Inr (Settled conf e)"
  using poll_rounds_outcome [OF assms(1) [unfolded poll_evidence_def]] assms(2) by (auto dest!: poll_round_settled)

lemma reconfirm_inspected:
  assumes "reconfirm_validated_business_operation lib env op timeout_ms interval_ms t = Some (Inr conf, t')"
    and "conf = Confirmed \<or> conf = Rejected"
  shows "\<exists>b hash u input e at. stored_business lib op = Inr (Some b) \<and> op_hash op = Some hash \<and> xrpl_success op \<and>
    ev_answer env u = Inr input \<and> inspect_indexed_business_evidence input b hash = Inr (Settled conf e) \<and>
    List.last t' = Persisted_Confirmation conf at (Some e)"
proof -
  obtain b hash r t1 where can: "can_reconfirm_operation lib op" and b: "stored_business lib op = Inr (Some b)"
    and hash: "op_hash op = Some hash"
    and wait: "wait_for_indexed_business_evidence env b hash timeout_ms interval_ms t = Some (r, t1)"
    and settled: "fst (confirmation_of_wait r) = conf"
      "t' = t1 @ [Persisted_Confirmation conf (ev_iso env t1) (snd (confirmation_of_wait r))]"
    using assms(1) unfolding reconfirm_validated_business_operation_def
    by (auto simp: Let_def split: if_splits sum.splits option.splits prod.splits)
  obtain e where r: "r = Inr (conf, e)"
    using settled(1) assms(2) by (auto simp: confirmation_of_wait_def split: sum.splits if_splits)
  obtain d where d: "poll_evidence env b hash d t = Some (Inr (conf, e), t1)"
    using wait r by (auto simp: wait_for_indexed_business_evidence_def split: if_splits)
  obtain u input where "ev_answer env u = Inr input" "inspect_indexed_business_evidence input b hash = Inr (Settled conf e)"
    using poll_evidence_inspected [OF d fst_conv] by blast
  moreover have "List.last t' = Persisted_Confirmation conf (ev_iso env t1) (Some e)"
    using settled(2) r by (simp add: confirmation_of_wait_def)
  moreover have "xrpl_success op" using can by (simp add: can_reconfirm_operation_def)
  ultimately show ?thesis using b hash by (intro exI conjI)
qed

lemma reconfirm_returns:
  assumes "\<And>d. \<exists>n. \<forall>u. n \<le> length u \<longrightarrow> d \<le> ev_now env u"
  shows "reconfirm_validated_business_operation lib env op timeout_ms interval_ms t \<noteq> None"
proof -
  have "wait_for_indexed_business_evidence env b hash timeout_ms interval_ms t \<noteq> None" for b hash
    unfolding wait_for_indexed_business_evidence_def
    using assms poll_evidence_returns [of _ _ env b hash t] by (simp split: option.splits) metis
  then show ?thesis
    unfolding reconfirm_validated_business_operation_def
    by (auto simp: Let_def simp del: not_None_eq split: sum.splits option.splits prod.splits)
qed

section \<open>A timeout takes the business lock back\<close>

text \<open>
  An operation that was not confirmed has given up the lock of its business key; reporting a timeout for it
  takes the lock back, whatever other operation has it by then.
\<close>

lemma timeout_regains_lock:
  assumes "distinct (map op_id ops)" and "op \<in> set ops" and "operation_business_confirmation lib op = Some Mismatch"
  shows "\<not> holds_business_lock lib op"
    and "\<exists>ops'. set_business_confirmation lib (op_id op) Timed_Out at JUndef ops = Inr ops' \<and>
      (\<exists>op' \<in> set ops'. op_id op' = op_id op \<and> stored_key lib op' = stored_key lib op \<and> holds_business_lock lib op') \<and>
      {q \<in> set ops. op_id q \<noteq> op_id op} \<subseteq> set ops'"
proof -
  let ?op = "op\<lparr>op_updated := at, op_confirmation := JStr (confirmation_name Timed_Out)\<rparr>"
  obtain b where b: "sanitize_business lib (op_business op) = Some b" "is_confirmable b"
    and ok: "xrpl_success op" "positive_ledger op"
    using assms(3) by (auto simp: operation_business_confirmation_def Let_def split: option.splits if_splits)
  show "\<not> holds_business_lock lib op"
    using ok assms(3) by (simp add: holds_business_lock_def xrpl_success_def)
  have "truthy (op_business op)" using b(1) sanitize_untruthy [of "op_business op" lib] by (metis option.distinct(1))
  then have stored: "stored_business lib op = Inr (Some b)"
    using b(1) by (simp add: stored_business_def sanitize_business_def)
  have "confirm_operation lib Timed_Out at JUndef op = Inr ?op"
    using stored b ok by (simp add: confirm_operation_def Let_def)
  then have "set_business_confirmation lib (op_id op) Timed_Out at JUndef ops = Inr (put_operation ?op ops)"
    using find_operation_unique [OF assms(1,2)] by (simp add: set_business_confirmation_def mutate_def)
  moreover have "operation_business_confirmation lib ?op = Some Timed_Out"
    unfolding operation_business_confirmation_def using b ok
    by (simp add: sanitize_confirmation_def CONFIRMATIONS_def xrpl_success_def positive_ledger_def)
  then have "holds_business_lock lib ?op" using ok by (simp add: holds_business_lock_def xrpl_success_def)
  moreover have "stored_key lib ?op = stored_key lib op" by (simp add: stored_key_def)
  ultimately show "\<exists>ops'. set_business_confirmation lib (op_id op) Timed_Out at JUndef ops = Inr ops' \<and>
      (\<exists>op' \<in> set ops'. op_id op' = op_id op \<and> stored_key lib op' = stored_key lib op \<and> holds_business_lock lib op') \<and>
      {q \<in> set ops. op_id q \<noteq> op_id op} \<subseteq> set ops'"
    by (intro exI [of _ "put_operation ?op ops"]) (auto simp: put_operation_mem intro!: bexI [of _ ?op])
qed

end
