(* ===== verification/App_Guarantees.thy ===== *)
theory App_Guarantees
  imports App_Confirmation Sample_Lib
begin

text \<open>
  The guarantees of the journal of the web application and of the confirmation of its operations by
  the indexer, each applied to the registration of a schema.
\<close>

section \<open>A sample operation\<close>

definition sample_app :: app_lib where
  "sample_app = sample_with [] (app_lib.fields (\<lambda>s. True))"

lemma sample_app_fields [simp]: "is_valid_classic_address sample_app a \<longleftrightarrow> take 1 a = lit ''r''"
  by (simp add: sample_app_def)

definition app_hash :: jstr where "app_hash = replicate 64 (of_char CHR ''a'')"

lemma app_hash [simp]: "hash64 app_hash" "hash64_any app_hash" "to_lower app_hash = app_hash" "app_hash \<noteq> []"
proof -
  show h: "hash64 app_hash" by (simp add: app_hash_def hash64_def list_all_iff class_unat)
  show "hash64_any app_hash" "to_lower app_hash = app_hash" using h by (rule hash64_imp_any, rule hash64_lower)
  show "app_hash \<noteq> []" by (simp add: app_hash_def)
qed

definition sample_business :: business where
  "sample_business = Schema_Register (Some (lit ''r'')) (Some app_hash) (Some 5)"

lemma sample_business_ok [simp]: "business_ok sample_app sample_business"
  "validate_operation_business_context sample_app (business_value sample_business) = Inr sample_business"
  "is_confirmable sample_business" "truthy (business_value sample_business)"
proof -
  show ok: "business_ok sample_app sample_business" by (simp add: sample_business_def MAX_SAFE_INTEGER_def)
  show "validate_operation_business_context sample_app (business_value sample_business) = Inr sample_business"
    using ok by (rule validate_business_value)
qed (simp_all add: sample_business_def)

definition sample_seed :: operation_seed where
  "sample_seed = \<lparr>sd_id = lit ''1'', sd_account = lit ''r'', sd_profile = lit ''t'', sd_network = 1, sd_type = lit ''Payment'',
     sd_created = [], sd_business = business_value sample_business\<rparr>"

definition created_operation :: stored_operation where
  "created_operation = \<lparr>op_id = lit ''1'', op_account = lit ''r'', op_profile = lit ''t'', op_network = 1, op_type = lit ''Payment'',
     op_created = [], op_business = business_value sample_business, op_updated = [], op_stage = Prepared, op_hash = None,
     op_blob = None, op_last_ledger = JUndef, op_engine = None, op_ledger = JUndef, op_confirmation = jlit ''pending'',
     op_evidence = JUndef\<rparr>"

definition signed_operation :: stored_operation where
  "signed_operation = created_operation\<lparr>op_stage := Signed, op_hash := Some app_hash, op_blob := Some (lit ''b''), op_last_ledger := jint 9\<rparr>"

definition validated_operation :: stored_operation where
  "validated_operation = signed_operation\<lparr>op_stage := Validated, op_blob := None, op_engine := Some (lit ''tesSUCCESS''), op_ledger := jint 7\<rparr>"

lemma sample_created: "create_operation sample_app sample_seed [] = Inr [created_operation]"
  by (simp add: create_operation_def sample_seed_def created_operation_def other_holder_def put_operation_def)

lemma sample_signed: "persist_signed sample_app \<lparr>sr_id = lit ''1'', sr_blob = lit ''b'', sr_hash = app_hash, sr_last_ledger = jint 9, sr_at = []\<rparr>
    [created_operation] = Inr [signed_operation]"
  by (simp add: persist_signed_def find_operation_def created_operation_def signed_operation_def other_holder_def put_operation_def)

lemma sample_validated: "append_to_journal [] \<lparr>entry_operation = lit ''1'', entry_stage = Validated, entry_tx_hash = None,
    entry_last_ledger_sequence = JUndef, entry_engine_result = Some (lit ''tesSUCCESS''), entry_ledger_index = Some 7\<rparr>
    [signed_operation] = Inr [validated_operation]"
  by (simp add: append_to_journal_def mutate_def find_operation_def signed_operation_def created_operation_def validated_operation_def
      apply_journal_entry_def is_final_def coalesce_def nullish_def put_operation_def)

lemma sample_steps:
  "(journal_step sample_app)\<^sup>*\<^sup>* [] [signed_operation]" "(journal_step sample_app)\<^sup>*\<^sup>* [] [validated_operation]"
proof -
  have "(journal_step sample_app)\<^sup>*\<^sup>* [] [created_operation]"
    using journal_step.create [OF sample_created] by blast
  then show s: "(journal_step sample_app)\<^sup>*\<^sup>* [] [signed_operation]"
    using journal_step.signature [OF sample_signed] by (rule rtranclp.rtrancl_into_rtrancl)
  then show "(journal_step sample_app)\<^sup>*\<^sup>* [] [validated_operation]"
    using journal_step.append_entry [OF sample_validated] by (rule rtranclp.rtrancl_into_rtrancl)
qed

lemma sample_operation_business:
  "sanitize_business sample_app (op_business created_operation) = Some sample_business"
  "stored_business sample_app validated_operation = Inr (Some sample_business)"
  "stored_key sample_app signed_operation \<noteq> None"
  by (simp_all add: sanitize_business_def stored_business_def stored_key_def created_operation_def signed_operation_def
      validated_operation_def) (simp add: sample_business_def)

section \<open>The journal\<close>

text \<open>
  C29. One attempt at a time. Whatever the tabs of a browser do to an empty journal, identifiers stay unique, an
  operation that is validated, expired or failed keeps no signed blob and cannot be sent again, and of all operations for
  one business key at most one is in flight.
\<close>

theorem journal_keeps_one_in_flight:
  assumes "(journal_step lib)\<^sup>*\<^sup>* [] ops"
  shows "distinct (map op_id ops) \<and>
    (\<forall>op \<in> set ops. is_final (op_stage op) \<longrightarrow> op_blob op = None \<and> \<not> can_retry_operation lib op) \<and>
    (\<forall>p \<in> set ops. \<forall>q \<in> set ops. \<not> is_final (op_stage p) \<and> \<not> is_final (op_stage q) \<and>
       stored_key lib p \<noteq> None \<and> stored_key lib p = stored_key lib q \<longrightarrow> p = q)"
proof -
  have ok: "journal_ok lib ops" using journal.reachable_inv [OF _ assms] by simp
  then have ids: "distinct (map op_id ops)" by (simp add: journal_ok_def)
  have "p = q" if "p \<in> set ops" "q \<in> set ops" "\<not> is_final (op_stage p)" "\<not> is_final (op_stage q)"
    "stored_key lib p = Some key" "stored_key lib q = Some key" for p q key
  proof -
    have "flying lib key p" "flying lib key q" using that by (simp_all add: flying_def)
    then have "op_id p = op_id q" using ok that(1,2) unfolding journal_ok_def one_in_flight_def by blast
    then show ?thesis using ids that(1,2) by (metis find_operation_unique option.inject)
  qed
  moreover have "op_blob op = None \<and> \<not> can_retry_operation lib op" if "op \<in> set ops" "is_final (op_stage op)" for op
    using ok that by (simp add: journal_ok_def can_retry_operation_def)
  ultimately show ?thesis using ids by (metis option.exhaust)
qed

theorem journal_keeps_one_in_flight_witness:
  "\<exists>ops. (journal_step sample_app)\<^sup>*\<^sup>* [] ops \<and> (\<exists>op \<in> set ops. can_retry_operation sample_app op \<and>
     list_all (\<lambda>q. is_final (op_stage q) \<or> stored_key sample_app q \<noteq> stored_key sample_app op \<or> q = op) ops)"
proof -
  have "can_retry_operation sample_app signed_operation"
    by (simp add: can_retry_operation_def signed_operation_def created_operation_def)
  then show ?thesis
    using journal_keeps_one_in_flight [OF sample_steps(1)] sample_steps(1) sample_operation_business(3)
    by (intro exI [of _ "[signed_operation]"]) (auto simp: list_all_iff)
qed

text \<open>
  C30. What has finished stays as it finished. Once an operation is validated, expired or failed, no later step of the
  journal removes it or changes its stage, its transaction, the result, the ledger or what the operation was for.
\<close>

theorem finished_operations_stay:
  assumes "(journal_step lib)\<^sup>*\<^sup>* [] ops" and "op \<in> set ops" and "is_final (op_stage op)" and "(journal_step lib)\<^sup>*\<^sup>* ops ops'"
  shows "\<exists>op' \<in> set ops'. finished_as op op'"
proof -
  have "journal_ok lib ops" using journal.reachable_inv [OF _ assms(1)] by simp
  from steps_keep_finished [OF assms(4) this assms(2,3)] show ?thesis by (simp add: keeps_finished_def)
qed

theorem finished_operations_stay_witness:
  "\<exists>ops. (journal_step sample_app)\<^sup>*\<^sup>* [validated_operation] ops \<and>
     map op_confirmation ops = [jlit ''mismatch''] \<and> (\<exists>op \<in> set ops. finished_as validated_operation op)"
proof -
  let ?op = "validated_operation\<lparr>op_confirmation := jlit ''mismatch''\<rparr>"
  have "confirm_operation sample_app Mismatch [] JUndef validated_operation = Inr ?op"
    by (simp add: confirm_operation_def sample_operation_business xrpl_success_def positive_ledger_def Let_def)
      (simp add: validated_operation_def signed_operation_def created_operation_def MAX_SAFE_INTEGER_def)
  moreover have "find_operation (lit ''1'') [validated_operation] = Some validated_operation"
    by (simp add: find_operation_def validated_operation_def signed_operation_def created_operation_def)
  ultimately have "set_business_confirmation sample_app (lit ''1'') Mismatch [] JUndef [validated_operation] = Inr [?op]"
    by (simp add: set_business_confirmation_def mutate_def put_operation_def)
  then have step: "(journal_step sample_app)\<^sup>*\<^sup>* [validated_operation] [?op]"
    by (intro r_into_rtranclp journal_step.confirmation)
  have "is_final (op_stage validated_operation)" by (simp add: is_final_def validated_operation_def)
  with finished_operations_stay [OF sample_steps(2) _ _ step] show ?thesis using step by fastforce
qed

section \<open>Confirmation\<close>

text \<open>
  C31. A confirmation comes from the indexer and is kept. When an operation is reconfirmed as confirmed or rejected, one of
  the answers of the indexer was inspected to that effect for the transaction and purpose of the operation, and
  what is handed to the journal is accepted by it exactly when the indexer names the ledger in which the operation was validated;
  then the journal reads back the same confirmation and the same evidence.
\<close>

theorem indexed_confirmation_is_journaled:
  assumes "reconfirm_validated_business_operation lib env op timeout_ms interval_ms t = Some (Inr conf, t')"
    and "conf = Confirmed \<or> conf = Rejected"
  shows "\<exists>b hash u input e at. stored_business lib op = Inr (Some b) \<and> op_hash op = Some hash \<and>
    ev_answer env u = Inr input \<and> inspect_indexed_business_evidence input b hash = Inr (Settled conf e) \<and>
    List.last t' = Persisted_Confirmation conf at (Some e) \<and>
    (if op_ledger op = jint (be_ledger_index e)
     then \<exists>op'. confirm_operation lib conf at (evidence_value e) op = Inr op' \<and>
       operation_business_confirmation lib op' = Some conf \<and> operation_business_evidence lib op' = Some e
     else \<exists>error. confirm_operation lib conf at (evidence_value e) op = Inl error)"
proof -
  obtain b hash u input e at where b: "stored_business lib op = Inr (Some b)" and hash: "op_hash op = Some hash"
    and ok: "xrpl_success op" and input: "ev_answer env u = Inr input"
    and inspected: "inspect_indexed_business_evidence input b hash = Inr (Settled conf e)"
    and "List.last t' = Persisted_Confirmation conf at (Some e)"
    using reconfirm_inspected [OF assms] by blast
  moreover have "\<exists>error. confirm_operation lib conf at (evidence_value e) op = Inl error"
    if "op_ledger op \<noteq> jint (be_ledger_index e)"
  proof (cases "confirm_operation lib conf at (evidence_value e) op")
    case (Inr op')
    have "validate_business_evidence (evidence_value e) = Inr e"
      using inspect_supported [OF inspected] by (simp add: validate_evidence_value)
    then show ?thesis
      using Inr that b by (auto simp: confirm_operation_def evidence_value_truthy Let_def split: if_splits)
  qed simp
  ultimately show ?thesis
    using confirm_inspected [OF inspected b ok hash, where at = at] by (intro exI conjI) auto
qed

definition sample_answer :: jsval where
  "sample_answer = JObj Plain [(lit ''transactionHash'', JStr app_hash), (lit ''registration'', JObj Plain
     [(lit ''status'', jlit ''accepted''), (lit ''publisher'', jlit ''r''), (lit ''ledgerIndex'', jint 7),
      (lit ''ledgerHash'', JStr app_hash), (lit ''transactionIndex'', jint 0), (lit ''schemaUid'', JStr app_hash),
      (lit ''schemaDigestHex'', JStr app_hash), (lit ''reasonCode'', JNull)])]"

definition sample_evidence :: business_evidence where
  "sample_evidence = \<lparr>be_hash = app_hash, be_ledger_index = 7, be_ledger_hash = app_hash, be_index = 0,
     be_schema_uid = Some app_hash, be_generation = None, be_reason = None, be_event = None, be_accepted = None, be_cause = None\<rparr>"

lemma sample_inspected:
  "inspect_indexed_business_evidence sample_answer sample_business app_hash = Inr (Settled Confirmed sample_evidence)"
proof -
  let ?r = "get sample_answer ''registration''"
  have gets: "is_record sample_answer" "is_record ?r" "get sample_answer ''transactionHash'' = JStr app_hash"
    "get ?r ''status'' = jlit ''accepted''" "get ?r ''publisher'' = jlit ''r''" "get ?r ''ledgerIndex'' = jint 7"
    "get ?r ''ledgerHash'' = JStr app_hash" "get ?r ''transactionIndex'' = jint 0" "get ?r ''schemaUid'' = JStr app_hash"
    "get ?r ''schemaDigestHex'' = JStr app_hash" "get ?r ''reasonCode'' = JNull" "?r \<noteq> JNull"
    by (simp_all add: sample_answer_def prop_of_JObj)
  have "indexed_hash sample_answer app_hash = Inr app_hash" by (simp add: indexed_hash_def gets)
  moreover have "required_ledger_evidence ?r app_hash = Inr (sample_evidence\<lparr>be_schema_uid := None\<rparr>)"
    by (simp add: required_ledger_evidence_def gets MAX_SAFE_INTEGER_def) (simp add: sample_evidence_def)
  moreover have "settle_registration ?r (Some app_hash) (sample_evidence\<lparr>be_schema_uid := None\<rparr>) = Inr (Settled Confirmed sample_evidence)"
    by (simp add: settle_registration_def gets) (simp add: sample_evidence_def)
  ultimately show ?thesis
    by (simp add: inspect_indexed_business_evidence_def inspect_schema_registration_def gets)
      (simp add: sample_business_def inspect_schema_registration_def gets)
qed

definition sample_confirm_env :: confirm_env where
  "sample_confirm_env = \<lparr>ev_answer = (\<lambda>_. Inr sample_answer), ev_now = (\<lambda>_. 0), ev_iso = (\<lambda>_. []), ev_persist = (\<lambda>_ _ _ _. Inr ())\<rparr>"

lemma sample_reconfirmed:
  "reconfirm_validated_business_operation sample_app sample_confirm_env validated_operation None None [] =
     Some (Inr Confirmed, [Asked_Indexer, Persisted_Confirmation Confirmed [] (Some sample_evidence)])"
proof -
  have op: "xrpl_success validated_operation" "op_hash validated_operation = Some app_hash" "performed_by sample_business validated_operation"
    "sanitize_business sample_app (op_business validated_operation) = Some sample_business"
    "op_confirmation validated_operation = jlit ''pending''"
    using sample_operation_business(1)
    by (simp_all add: xrpl_success_def validated_operation_def signed_operation_def created_operation_def sample_business_def)
  have "operation_business_confirmation sample_app validated_operation = Some Pending"
    by (simp add: operation_business_confirmation_def op sanitize_confirmation_def CONFIRMATIONS_def)
  then have can: "can_reconfirm_operation sample_app validated_operation"
    by (simp add: can_reconfirm_operation_def op sample_operation_business)
  have "poll_round sample_business app_hash (ev_answer sample_confirm_env []) = Some (Inr (Confirmed, sample_evidence))"
    by (simp add: poll_round_def sample_confirm_env_def sample_inspected)
  then have "poll_evidence sample_confirm_env sample_business app_hash d [] = Some (Inr (Confirmed, sample_evidence), [Asked_Indexer])" for d
    unfolding poll_evidence_def by (subst poll_rounds.simps) simp
  then have "wait_for_indexed_business_evidence sample_confirm_env sample_business app_hash None None [] =
      Some (Inr (Confirmed, sample_evidence), [Asked_Indexer])"
    by (simp add: wait_for_indexed_business_evidence_def positive_safe_def)
  then show ?thesis
    by (simp add: reconfirm_validated_business_operation_def can sample_operation_business op confirmation_of_wait_def)
      (simp add: sample_confirm_env_def)
qed

theorem indexed_confirmation_is_journaled_witness:
  "\<exists>conf t' op'. reconfirm_validated_business_operation sample_app sample_confirm_env validated_operation None None [] = Some (Inr conf, t') \<and>
     confirm_operation sample_app conf [] (evidence_value sample_evidence) validated_operation = Inr op' \<and>
     operation_business_confirmation sample_app op' = Some Confirmed"
proof -
  obtain e at where "Persisted_Confirmation Confirmed [] (Some sample_evidence) = Persisted_Confirmation Confirmed at (Some e)"
    and "if op_ledger validated_operation = jint (be_ledger_index e)
     then \<exists>op'. confirm_operation sample_app Confirmed at (evidence_value e) validated_operation = Inr op' \<and>
       operation_business_confirmation sample_app op' = Some Confirmed \<and> operation_business_evidence sample_app op' = Some e
     else \<exists>error. confirm_operation sample_app Confirmed at (evidence_value e) validated_operation = Inl error"
    using indexed_confirmation_is_journaled [OF sample_reconfirmed] by auto
  moreover have "op_ledger validated_operation = jint (be_ledger_index sample_evidence)"
    by (simp add: validated_operation_def sample_evidence_def)
  ultimately show ?thesis using sample_reconfirmed by auto
qed

text \<open>
  Further guarantee: A reconfirmation returns. If the clock goes on, the loop that asks the indexer ends and the reconfirmation returns a
  confirmation or an error, whatever the indexer answers and whether the journal can be written.
\<close>

theorem reconfirmation_returns:
  assumes "\<And>d. \<exists>n. \<forall>u. n \<le> length u \<longrightarrow> d \<le> ev_now env u"
  shows "\<exists>r t'. reconfirm_validated_business_operation lib env op timeout_ms interval_ms t = Some (r, t')"
  using reconfirm_returns [OF assms, of lib op timeout_ms interval_ms t] by auto

theorem reconfirmation_returns_witness:
  "\<exists>r t'. reconfirm_validated_business_operation sample_app (sample_confirm_env\<lparr>ev_answer := \<lambda>_. Inl [], ev_now := \<lambda>u. int (length u)\<rparr>)
     validated_operation None None [] = Some (r, t')"
proof (rule reconfirmation_returns)
  fix d
  show "\<exists>n. \<forall>u. n \<le> length u \<longrightarrow> d \<le> ev_now (sample_confirm_env\<lparr>ev_answer := \<lambda>_. Inl [], ev_now := \<lambda>u. int (length u)\<rparr>) u"
    by (rule exI [of _ "nat d"]) auto
qed

text \<open>
  Further guarantee: The business lock is not exclusive. An operation whose confirmation was a mismatch does not hold the lock of its
  business key; reporting a timeout for it succeeds and takes the lock back, without regard to the other
  operations, which all stay, even one in flight that took the lock meanwhile.
\<close>

theorem timeout_takes_lock_back:
  assumes "distinct (map op_id ops)" and "op \<in> set ops" and "operation_business_confirmation lib op = Some Mismatch"
  shows "\<not> holds_business_lock lib op \<and>
    (\<exists>ops'. set_business_confirmation lib (op_id op) Timed_Out at JUndef ops = Inr ops' \<and>
      (\<exists>op' \<in> set ops'. op_id op' = op_id op \<and> stored_key lib op' = stored_key lib op \<and> holds_business_lock lib op') \<and>
      {q \<in> set ops. op_id q \<noteq> op_id op} \<subseteq> set ops')"
  using timeout_regains_lock [OF assms] by blast

definition rival_operation :: stored_operation where
  "rival_operation = created_operation\<lparr>op_id := lit ''2''\<rparr>"

theorem timeout_takes_lock_back_witness:
  "\<exists>ops. set_business_confirmation sample_app (lit ''1'') Timed_Out [] JUndef
       [validated_operation\<lparr>op_confirmation := jlit ''mismatch''\<rparr>, rival_operation] = Inr ops \<and>
     (\<exists>p \<in> set ops. \<exists>q \<in> set ops. op_id p \<noteq> op_id q \<and> stored_key sample_app p = stored_key sample_app q \<and>
        stored_key sample_app p \<noteq> None \<and> holds_business_lock sample_app p \<and> holds_business_lock sample_app q)"
proof -
  let ?op = "validated_operation\<lparr>op_confirmation := jlit ''mismatch''\<rparr>"
  have ids: "op_id ?op = lit ''1''" "op_id rival_operation = lit ''2''"
    by (simp_all add: rival_operation_def validated_operation_def signed_operation_def created_operation_def)
  have keys: "stored_key sample_app ?op = stored_key sample_app rival_operation" "stored_key sample_app ?op \<noteq> None"
    using sample_operation_business(3)
    by (simp_all add: stored_key_def rival_operation_def validated_operation_def signed_operation_def created_operation_def)
  have "operation_business_confirmation sample_app ?op = Some Mismatch"
    by (simp add: operation_business_confirmation_def validated_operation_def signed_operation_def sample_operation_business
        sanitize_confirmation_def CONFIRMATIONS_def xrpl_success_def positive_ledger_def MAX_SAFE_INTEGER_def)
  from timeout_takes_lock_back [of "[?op, rival_operation]" ?op, OF _ _ this, of "[]"]
  obtain ops where ops: "set_business_confirmation sample_app (lit ''1'') Timed_Out [] JUndef [?op, rival_operation] = Inr ops"
    and op': "\<exists>op' \<in> set ops. op_id op' = lit ''1'' \<and> stored_key sample_app op' = stored_key sample_app ?op \<and> holds_business_lock sample_app op'"
    and stay: "{q \<in> {?op, rival_operation}. op_id q \<noteq> lit ''1''} \<subseteq> set ops"
    using ids by auto
  have "rival_operation \<in> set ops" using stay ids by auto
  moreover have "holds_business_lock sample_app rival_operation"
    by (rule in_flight_holds) (simp add: rival_operation_def created_operation_def is_final_def)
  moreover have "lit ''1'' \<noteq> lit ''2''" by simp
  ultimately show ?thesis using ops op' keys ids(2) by metis
qed

end
