(* ===== verification/Server_Schemas.thy ===== *)
theory Server_Schemas
  imports Database_Schema Claims
begin

text \<open>
  How the web server checks what it reads of a schema (\<open>apps/web/server/xcs/schema-projection.ts\<close>,
  \<open>schema-catalog.ts\<close>): a stored schema is accepted only when it and all its ancestors agree with their
  registrations. Main result: what it accepts is what the protocol resolves over the same registrations.
\<close>

section \<open>Stored schemas\<close>

text \<open>A row of \<open>schemas\<close> as the server reads it; the two definitions are arbitrary JSON to it.\<close>

record stored_schema =
  xs_profile :: jstr
  xs_uid :: jstr
  xs_publisher :: jstr
  xs_name :: jstr
  xs_description :: jstr
  xs_parent :: "jstr option"
  xs_supersedes :: "jstr option"
  xs_definition :: jsval
  xs_resolved :: jsval
  xs_hash :: jstr
  xs_ledger :: int
  xs_index :: int

record schema_evidence =
  sv_schema :: stored_schema
  sv_registration :: schema_event_row

record projection_expectation =
  px_profile :: jstr
  px_uid :: jstr
  px_network :: int
  px_activation :: int

datatype projection_error = Projection_Invalid

definition MAX_INHERITANCE_LINEAGE :: nat where "MAX_INHERITANCE_LINEAGE = 15"

abbreviation broken :: "cerr + 'a" where
  "broken \<equiv> Inl HostErr"

text \<open>Every error inside becomes the one error the server reports.\<close>

definition fail_closed :: "cerr + 'a \<Rightarrow> projection_error + 'a" where
  "fail_closed m = (case m of Inl _ \<Rightarrow> Inl Projection_Invalid | Inr x \<Rightarrow> Inr x)"

lemma fail_closed_Inr: "fail_closed m = Inr x \<longleftrightarrow> m = Inr x"
  by (cases m) (simp_all add: fail_closed_def)

definition same_canonical :: "'x core_lib_scheme \<Rightarrow> jsval \<Rightarrow> jsval \<Rightarrow> cerr + unit" where
  "same_canonical lib v w =
     rbind (canonical_json lib v) (\<lambda>a. rbind (canonical_json lib w) (\<lambda>b. if a \<noteq> b then broken else Inr ()))"

definition validate_projected_fields :: "'x core_lib_scheme \<Rightarrow> jsval \<Rightarrow> cerr + schema_fields" where
  "validate_projected_fields lib v =
     rbind (parse_schema (JObj Plain
       [(lit ''xcsVersion'', jlit ''0.1''), (lit ''name'', jlit ''Resolved projection''),
        (lit ''description'', jlit ''Resolved projection fields.''), (lit ''fields'', v)])) (\<lambda>projection.
     rbind (same_canonical lib (fields_value (schema_fields projection)) v) (\<lambda>_.
     Inr (schema_fields projection)))"

definition assert_definition_metadata :: "stored_schema \<Rightarrow> schema_definition \<Rightarrow> cerr + unit" where
  "assert_definition_metadata row definition =
     (if xs_name row \<noteq> schema_name definition \<or> xs_description row \<noteq> description definition \<or>
        xs_parent row \<noteq> extends definition \<or> xs_supersedes row \<noteq> supersedes definition then broken
      else Inr ())"

definition lineage_ok :: "stored_schema \<Rightarrow> jsval list \<Rightarrow> bool" where
  "lineage_ok row uids \<longleftrightarrow>
     length uids \<le> MAX_INHERITANCE_LINEAGE \<and> list_all (string_that hash64) uids \<and> distinct uids \<and> JStr (xs_uid row) \<notin> set uids"

definition ends_in_parent :: "jstr option \<Rightarrow> jsval list \<Rightarrow> bool" where
  "ends_in_parent parent uids \<longleftrightarrow>
     (case parent of None \<Rightarrow> uids = [] | Some p \<Rightarrow> uids \<noteq> [] \<and> List.last uids = JStr p)"

definition RESOLVED_SCHEMA_KEYS :: "jstr list" where
  "RESOLVED_SCHEMA_KEYS = [lit ''definition'', lit ''fields'', lit ''lineage'']"

definition stored_resolved_schema :: "'x core_lib_scheme \<Rightarrow> stored_schema \<Rightarrow> cerr + resolved_schema" where
  "stored_resolved_schema lib row =
     rbind (parse_schema (xs_definition row)) (\<lambda>definition.
     rbind (same_canonical lib (schema_value definition) (xs_definition row)) (\<lambda>_.
     rbind (assert_definition_metadata row definition) (\<lambda>_.
     let resolved = xs_resolved row; keys = map fst (entries_of resolved) in
     if \<not> is_record resolved \<or> \<not> list_all (\<lambda>k. k \<in> set RESOLVED_SCHEMA_KEYS) keys \<or> length keys \<noteq> length RESOLVED_SCHEMA_KEYS
     then broken
     else
       rbind (parse_schema (get resolved ''definition'')) (\<lambda>resolved_definition.
       rbind (same_canonical lib (schema_value resolved_definition) (get resolved ''definition'')) (\<lambda>_.
       rbind (same_canonical lib (schema_value resolved_definition) (schema_value definition)) (\<lambda>_.
       rbind (validate_projected_fields lib (get resolved ''fields'')) (\<lambda>fields.
       case get resolved ''lineage'' of
         JArr uids \<Rightarrow>
           if \<not> lineage_ok row uids \<or> \<not> ends_in_parent (extends definition) uids then broken
           else Inr \<lparr>resolved_definition = definition, resolved_fields = fields, lineage = map str_of uids\<rparr>
       | _ \<Rightarrow> broken)))))))"

definition schema_projection_evidence_uids ::
  "'x core_lib_scheme \<Rightarrow> stored_schema list \<Rightarrow> jstr \<Rightarrow> projection_error + jstr list" where
  "schema_projection_evidence_uids lib rows profile =
     fail_closed
       (rbind (traverse (\<lambda>row.
            if xs_profile row \<noteq> profile \<or> \<not> hash64 (xs_uid row) then broken
            else rbind (stored_resolved_schema lib row) (\<lambda>projection. Inr (xs_uid row # lineage projection))) rows)
          (\<lambda>uids. Inr (fold List.insert (concat uids) [])))"

definition optional_text :: "jstr option \<Rightarrow> jsval" where
  "optional_text v = (case v of None \<Rightarrow> JNull | Some s \<Rightarrow> JStr s)"

definition fingerprint_value :: "stored_schema \<Rightarrow> jsval" where
  "fingerprint_value row = JObj Plain
     [(lit ''profileId'', JStr (xs_profile row)), (lit ''schemaUid'', JStr (xs_uid row)),
      (lit ''publisher'', JStr (xs_publisher row)), (lit ''name'', JStr (xs_name row)),
      (lit ''description'', JStr (xs_description row)), (lit ''parentUid'', optional_text (xs_parent row)),
      (lit ''supersedesUid'', optional_text (xs_supersedes row)), (lit ''definition'', xs_definition row),
      (lit ''resolvedDefinition'', xs_resolved row), (lit ''registrationTransactionHash'', JStr (xs_hash row)),
      (lit ''ledgerIndex'', jint (xs_ledger row)), (lit ''transactionIndex'', jint (xs_index row))]"

definition coordinates_ok :: "'x core_lib_scheme \<Rightarrow> projection_expectation \<Rightarrow> stored_schema \<Rightarrow> bool" where
  "coordinates_ok lib expected row \<longleftrightarrow>
     xs_profile row = px_profile expected \<and> hash64 (xs_uid row) \<and> is_valid_classic_address lib (xs_publisher row) \<and>
     px_activation expected \<le> xs_ledger row \<and> xs_ledger row \<le> uint32_max \<and>
     0 \<le> xs_index row \<and> xs_index row \<le> uint32_max"

definition registration_matches :: "stored_schema \<Rightarrow> schema_event_row \<Rightarrow> bool" where
  "registration_matches row r \<longleftrightarrow>
     se_profile r = xs_profile row \<and> se_hash r = xs_hash row \<and> hash64 (se_hash r) \<and> se_ledger_index r = xs_ledger row \<and>
     se_index r = xs_index row \<and> se_publisher r = xs_publisher row \<and> se_accepted r \<and> se_reason r = None \<and>
     se_uid r = Some (xs_uid row) \<and> se_memo r \<noteq> None \<and> hash64 (se_ledger_hash r)"

definition registration_uid_input :: "projection_expectation \<Rightarrow> schema_event_row \<Rightarrow> schema_definition \<Rightarrow> schema_uid_input" where
  "registration_uid_input expected r definition =
     \<lparr>uid_network_id = NInt (px_network expected), uid_ledger_hash = se_ledger_hash r,
      uid_ledger_index = NInt (se_ledger_index r), uid_transaction_index = NInt (se_index r),
      uid_publisher = se_publisher r, uid_schema = schema_value definition\<rparr>"

definition validate_evidence_row ::
  "'x core_lib_scheme \<Rightarrow> projection_expectation \<Rightarrow> schema_evidence \<Rightarrow> cerr + stored_schema \<times> resolved_schema" where
  "validate_evidence_row lib expected evidence =
     (let row = sv_schema evidence; r = sv_registration evidence in
      if \<not> coordinates_ok lib expected row then broken
      else
        rbind (stored_resolved_schema lib row) (\<lambda>projection.
        if \<not> registration_matches row r then broken
        else
          rbind (parse_schema (the (se_memo r))) (\<lambda>definition.
          rbind (same_canonical lib (schema_value definition) (schema_value (resolved_definition projection))) (\<lambda>_.
          rbind (compute_schema_uid lib (registration_uid_input expected r definition)) (\<lambda>uid.
          if uid \<noteq> xs_uid row then broken else Inr (row, projection))))))"

definition is_prior :: "stored_schema \<Rightarrow> stored_schema \<Rightarrow> bool" where
  "is_prior parent child \<longleftrightarrow>
     xs_ledger parent < xs_ledger child \<or> (xs_ledger parent = xs_ledger child \<and> xs_index parent < xs_index child)"

fun merge_fields :: "schema_fields \<Rightarrow> schema_fields \<Rightarrow> cerr + schema_fields" where
  "merge_fields target [] = Inr target"
| "merge_fields target ((name, d) # rest) =
     (if has_own target name then broken else merge_fields (target @ [(name, d)]) rest)"

text \<open>The loop over the chain, with the UIDs before the current schema, the previous row and the fields merged so far.\<close>

fun check_chain ::
  "'x core_lib_scheme \<Rightarrow> jstr list \<Rightarrow> stored_schema option \<Rightarrow> schema_fields \<Rightarrow>
    (jstr \<times> stored_schema \<times> resolved_schema) list \<Rightarrow> cerr + schema_fields" where
  "check_chain lib before_uids previous merged [] = Inr merged"
| "check_chain lib before_uids previous merged ((uid, row, projection) # rest) =
     (let definition = resolved_definition projection in
      if extends definition \<noteq> (if before_uids = [] then None else Some (List.last before_uids)) then broken
      else if (case previous of None \<Rightarrow> False | Some p \<Rightarrow> \<not> is_prior p row) then broken
      else
        rbind (merge_fields merged (schema_fields definition)) (\<lambda>merged.
        rbind (validate_projected_fields lib (fields_value merged)) (\<lambda>fields.
        rbind (same_canonical lib
            (resolved_value \<lparr>resolved_definition = definition, resolved_fields = fields, lineage = before_uids\<rparr>)
            (resolved_value projection)) (\<lambda>_.
        check_chain lib (before_uids @ [uid]) (Some row) merged rest))))"

definition evidence_by_uid :: "schema_evidence list \<Rightarrow> (jstr \<times> schema_evidence) list" where
  "evidence_by_uid evidence = map (\<lambda>e. (xs_uid (sv_schema e), e)) evidence"

definition authoritative_resolved_schema ::
  "'x core_lib_scheme \<Rightarrow> stored_schema \<Rightarrow> schema_evidence list \<Rightarrow> projection_expectation \<Rightarrow> projection_error + resolved_schema" where
  "authoritative_resolved_schema lib row evidence expected =
     fail_closed
       (if xs_profile row \<noteq> px_profile expected \<or> xs_uid row \<noteq> px_uid expected then broken
        else
          rbind (stored_resolved_schema lib row) (\<lambda>target.
          if \<not> distinct (map fst (evidence_by_uid evidence)) then broken
          else
            let chain_uids = lineage target @ [xs_uid row] in
            rbind (traverse (\<lambda>uid.
                case map_of (evidence_by_uid evidence) uid of
                  None \<Rightarrow> broken
                | Some e \<Rightarrow> rbind (validate_evidence_row lib expected e) (\<lambda>(r, p). Inr (uid, r, p))) chain_uids) (\<lambda>chain.
            rbind (same_canonical lib (fingerprint_value (fst (snd (List.last chain)))) (fingerprint_value row)) (\<lambda>_.
            rbind (check_chain lib [] None [] chain) (\<lambda>merged.
            Inr \<lparr>resolved_definition = resolved_definition target, resolved_fields = merged, lineage = lineage target\<rparr>)))))"

section \<open>The catalog of a schema\<close>

definition MAX_SCHEMA_CATALOG_ENTRIES :: nat where "MAX_SCHEMA_CATALOG_ENTRIES = 256"

record catalog_item =
  ci_uid :: jstr
  ci_definition :: schema_definition
  ci_publisher :: jstr
  ci_ledger :: int
  ci_ledger_hash :: jstr
  ci_index :: int
  ci_hash :: jstr

record catalog_bundle =
  cb_profile :: network_profile
  cb_target :: jstr
  cb_checkpoint_index :: int
  cb_checkpoint_hash :: jstr
  cb_schemas :: "catalog_item list"

text \<open>\<open>compareEvidence\<close>: by ledger, then by transaction; sorting is stable.\<close>

definition sort_evidence :: "schema_evidence list \<Rightarrow> schema_evidence list" where
  "sort_evidence evidence = sort_key (\<lambda>e. xs_ledger (sv_schema e)) (sort_key (\<lambda>e. xs_index (sv_schema e)) evidence)"

definition profile_row_value :: "profile_row \<Rightarrow> jsval" where
  "profile_row_value row = JObj Plain
     [(lit ''profileId'', JStr (np_id row)), (lit ''xcsVersion'', JStr (np_version row)),
      (lit ''networkId'', jint (np_network_id row)), (lit ''requiredAmendment'', JStr (np_amendment row)),
      (lit ''registryAddress'', JStr (np_registry row)), (lit ''registrationAmountDrops'', JStr (int_str (np_drops row))),
      (lit ''activationLedgerIndex'', jint (np_activation_index row)), (lit ''activationLedgerHash'', JStr (np_activation_hash row))]"

definition catalog_item_of :: "schema_evidence \<Rightarrow> cerr + catalog_item" where
  "catalog_item_of e =
     (let row = sv_schema e in
      rbind (parse_schema (xs_definition row)) (\<lambda>definition.
      Inr \<lparr>ci_uid = xs_uid row, ci_definition = definition, ci_publisher = xs_publisher row, ci_ledger = xs_ledger row,
           ci_ledger_hash = se_ledger_hash (sv_registration e), ci_index = xs_index row, ci_hash = xs_hash row\<rparr>))"

definition authoritative_schema_catalog_bundle ::
  "'x core_lib_scheme \<Rightarrow> profile_row \<Rightarrow> checkpoint_row \<Rightarrow> stored_schema \<Rightarrow> schema_evidence list \<Rightarrow>
    projection_error + catalog_bundle" where
  "authoritative_schema_catalog_bundle lib network checkpoint target evidence =
     (if MAX_SCHEMA_CATALOG_ENTRIES < length evidence then Inl Projection_Invalid
      else
        let expected = (\<lambda>uid. \<lparr>px_profile = np_id network, px_uid = uid, px_network = np_network_id network,
              px_activation = np_activation_index network\<rparr>);
            evidence = sort_evidence evidence
        in
        rbind (each (\<lambda>e. rbind (authoritative_resolved_schema lib (sv_schema e) evidence (expected (xs_uid (sv_schema e))))
            (\<lambda>_. Inr ())) evidence) (\<lambda>_.
        rbind (authoritative_resolved_schema lib target evidence (expected (xs_uid target))) (\<lambda>_.
        fail_closed
          (rbind (parse_network_profile lib (profile_row_value network)) (\<lambda>profile.
           rbind (traverse catalog_item_of evidence) (\<lambda>schemas.
           Inr \<lparr>cb_profile = profile, cb_target = xs_uid target, cb_checkpoint_index = ck_index checkpoint,
                cb_checkpoint_hash = ck_hash checkpoint, cb_schemas = schemas\<rparr>))))))"

section \<open>Accepted schemas resolve\<close>

text \<open>Projected fields are those given: parsing the value of descriptors gives them back or fails.\<close>

lemma parse_entries_value:
  assumes "\<forall>e \<in> set fs. \<forall>path count d c. parse_descriptor (descriptor_value (snd e)) path depth count = Inr (d, c) \<longrightarrow> d = snd e"
    and "parse_entries (map (\<lambda>(n, d). (n, descriptor_value d)) fs) path depth count = Inr (gs, c)"
  shows "gs = fs"
  using assms
proof (induction fs arbitrary: gs c count)
  case (Cons e fs)
  obtain n d where e: "e = (n, d)" by (cases e)
  then obtain d' c' gs' where "parse_descriptor (descriptor_value d) (path_key path n) depth (count + 1) = Inr (d', c')"
    "parse_entries (map (\<lambda>(n, d). (n, descriptor_value d)) fs) path depth c' = Inr (gs', c)" "gs = (n, d') # gs'"
    using Cons.prems(2) by (auto simp: res_simps split: if_splits)
  then show ?case using Cons e by fastforce
qed simp

lemma parse_descriptor_value:
  "descriptor_ok depth d \<Longrightarrow> parse_descriptor (descriptor_value d) path depth count = Inr (d', c) \<Longrightarrow> d' = d"
proof (induction d arbitrary: depth path count d' c)
  case (Scalar t opt)
  show ?case
    using Scalar(2) by (subst (asm) parse_descriptor.simps) (auto simp: get_optional scalar_types_name res_simps split: if_splits)
next
  case (ArrayOf d opt)
  have IH: "d'' = d" if "parse_descriptor (descriptor_value d) path (Suc depth) count = Inr (d'', c)" for path count d'' c
    using ArrayOf.IH [OF _ that] ArrayOf.prems(1) by simp
  show ?case
    using ArrayOf.prems(2) by (subst (asm) parse_descriptor.simps)
      (auto dest!: IH simp: get_optional get_tail scalar_types_composite res_simps descriptor_value_defined split: if_splits)
next
  case (ObjectOf fs opt)
  have e: "entries_ok (Suc depth) fs" using ObjectOf.prems(1) by (auto simp: entries_ok_def)
  have p: "gs = fs" if "parse_fields (JObj Plain (map (\<lambda>(n, d). (n, descriptor_value d)) fs)) path' (Suc depth) count' = Inr (gs, c')"
    for path' count' gs c'
  proof -
    have "parse_entries (map (\<lambda>(n, d). (n, descriptor_value d)) fs) path' (Suc depth) count' = Inr (gs, c')"
      using that by (subst (asm) parse_fields.simps) (auto split: if_splits)
    moreover have "\<forall>e \<in> set fs. \<forall>path count d c. parse_descriptor (descriptor_value (snd e)) path (Suc depth) count = Inr (d, c) \<longrightarrow> d = snd e"
      using ObjectOf.IH e by (fastforce simp: entries_ok_def list_all_iff)
    ultimately show ?thesis by (rule parse_entries_value [rotated])
  qed
  show ?case
    using ObjectOf.prems(2)
    by (subst (asm) parse_descriptor.simps)
      (auto simp: get_optional get_tail scalar_types_composite res_simps dest!: p split: if_splits)
qed

lemma validate_projected_fields_count:
  assumes "validate_projected_fields lib (fields_value fs) = Inr gs" and "fields_ok 1 fs"
  shows "gs = fs \<and> count_schema_fields fs \<le> MAX_SCHEMA_FIELDS"
proof -
  let ?v = "JObj Plain [(lit ''xcsVersion'', jlit ''0.1''), (lit ''name'', jlit ''Resolved projection''),
        (lit ''description'', jlit ''Resolved projection fields.''), (lit ''fields'', fields_value fs)]"
  obtain p where p: "parse_schema ?v = Inr p" "gs = schema_fields p"
    using assms(1) by (auto simp: validate_projected_fields_def res_simps)
  have "get ?v ''fields'' = fields_value fs" by (simp add: prop_of_JObj)
  then obtain c where c: "parse_fields (fields_value fs) (lit ''$.fields'') 1 0 = Inr (gs, c)"
    using p(1) unfolding p(2) parse_schema_Inr by auto
  have "parse_entries (map (\<lambda>(n, d). (n, descriptor_value d)) fs) (lit ''$.fields'') 1 0 = Inr (gs, c)"
    using c unfolding fields_value_def by (subst (asm) parse_fields.simps) (auto split: if_splits)
  moreover have "\<forall>e \<in> set fs. \<forall>path count d c. parse_descriptor (descriptor_value (snd e)) path 1 count = Inr (d, c) \<longrightarrow> d = snd e"
    using assms(2) parse_descriptor_value by (fastforce simp: fields_ok_def entries_ok_def list_all_iff)
  ultimately have gs: "gs = fs" by (rule parse_entries_value [rotated])
  have "js_keys (fields_value fs)"
    using assms(2) js_keys_descriptor_value
    by (auto simp: fields_value_def fields_ok_def entries_ok_def list_all_iff o_def case_prod_unfold)
  then show ?thesis using parse_sound(2) [OF c] gs by simp
qed

lemma merge_fields_Inr:
  "distinct (map fst fs) \<Longrightarrow> merge_fields fs gs = Inr hs \<longleftrightarrow> hs = fs @ gs \<and> distinct (map fst (fs @ gs))"
  by (induction fs gs rule: merge_fields.induct) (auto simp: has_own_def)

text \<open>The registrations the evidence stands for, as the protocol looks schemas up.\<close>

definition registered_of_row :: "int \<Rightarrow> stored_schema \<Rightarrow> registered_schema" where
  "registered_of_row network row =
     \<lparr>registered_uid = xs_uid row, registered_definition = xs_definition row, registered_publisher = xs_publisher row,
      registered_network_id = NInt network, registered_ledger_index = NInt (xs_ledger row),
      registered_transaction_index = NInt (xs_index row)\<rparr>"

definition evidence_getter :: "int \<Rightarrow> schema_evidence list \<Rightarrow> schema_getter" where
  "evidence_getter network evidence uid =
     map_option (\<lambda>e. registered_of_row network (sv_schema e)) (map_of (evidence_by_uid evidence) uid)"

abbreviation row_context :: "int \<Rightarrow> stored_schema \<Rightarrow> resolution_context" where
  "row_context network row \<equiv> context_of (registered_of_row network row)"

definition chain_entry :: "schema_getter \<Rightarrow> int \<Rightarrow> jstr \<times> stored_schema \<times> resolved_schema \<Rightarrow> bool" where
  "chain_entry get_schema network entry \<longleftrightarrow>
     (case entry of (uid, row, projection) \<Rightarrow>
        get_schema uid = Some (registered_of_row network row) \<and> xs_uid row = uid \<and>
        parse_schema (xs_definition row) = Inr (resolved_definition projection) \<and>
        schema_ok (resolved_definition projection) \<and>
        predecessor_ok get_schema (resolved_definition projection) (row_context network row))"

text \<open>What the loop has established of the previous row.\<close>

definition chain_prefix ::
  "schema_getter \<Rightarrow> int \<Rightarrow> jstr list \<Rightarrow> stored_schema option \<Rightarrow> schema_fields \<Rightarrow> bool" where
  "chain_prefix get_schema network before_uids previous merged \<longleftrightarrow>
     (case previous of
        None \<Rightarrow> before_uids = [] \<and> merged = []
      | Some p \<Rightarrow> \<exists>v us t. before_uids = us @ [v] \<and> get_schema v = Some (registered_of_row network p) \<and> xs_uid p = v \<and>
          parse_schema (xs_definition p) = Inr t \<and> inherits get_schema t (row_context network p) merged us \<and>
          entries_ok 1 merged)"

lemma is_prior_earlier: "is_prior p row \<Longrightarrow> is_earlier (registered_of_row network p) (row_context network row)"
  by (auto simp: is_prior_def is_earlier_def registered_of_row_def context_of_def num_NInt)

lemma check_chain_step:
  assumes "check_chain lib before_uids previous merged ((uid, row, projection) # rest) = Inr final"
    and "chain_prefix get_schema network before_uids previous merged" and "chain_entry get_schema network (uid, row, projection)"
  shows "\<exists>merged'. inherits get_schema (resolved_definition projection) (row_context network row) merged' before_uids \<and>
    fields_ok 1 merged' \<and> count_schema_fields merged' \<le> MAX_SCHEMA_FIELDS \<and>
    check_chain lib (before_uids @ [uid]) (Some row) merged' rest = Inr final \<and>
    chain_prefix get_schema network (before_uids @ [uid]) (Some row) merged'"
proof -
  let ?d = "resolved_definition projection"
  have parent: "extends ?d = (if before_uids = [] then None else Some (List.last before_uids))"
    and prior: "\<And>p. previous = Some p \<Longrightarrow> is_prior p row"
    using assms(1) by (auto simp: Let_def split: if_splits option.splits)
  obtain merged' gs where merge: "merge_fields merged (schema_fields ?d) = Inr merged'"
    and fields: "validate_projected_fields lib (fields_value merged') = Inr gs"
    and rest: "check_chain lib (before_uids @ [uid]) (Some row) merged' rest = Inr final"
    using assms(1) by (auto simp: Let_def res_simps split: if_splits)
  have e: "get_schema uid = Some (registered_of_row network row)" "xs_uid row = uid" "parse_schema (xs_definition row) = Inr ?d"
    "schema_ok ?d" "predecessor_ok get_schema ?d (row_context network row)"
    using assms(3) by (auto simp: chain_entry_def)
  have own: "distinct (map fst (schema_fields ?d))" "entries_ok 1 (schema_fields ?d)" "schema_fields ?d \<noteq> []"
    using e(4) by (simp_all add: schema_ok_def fields_ok_def)
  have inh: "inherits get_schema ?d (row_context network row) merged' before_uids \<and> entries_ok 1 merged' \<and> distinct (map fst merged')"
  proof (cases previous)
    case None
    then have "before_uids = []" "merged = []" using assms(2) by (simp_all add: chain_prefix_def)
    then show ?thesis
      using merge parent own e(5) by (auto simp: merge_fields_Inr intro: inherits.root)
  next
    case (Some p)
    then obtain v us t where p: "before_uids = us @ [v]" "get_schema v = Some (registered_of_row network p)" "xs_uid p = v"
      "parse_schema (xs_definition p) = Inr t" "inherits get_schema t (row_context network p) merged us" "entries_ok 1 merged"
      using assms(2) by (auto simp: chain_prefix_def)
    have m: "merged' = merged @ schema_fields ?d" "distinct (map fst (merged @ schema_fields ?d))"
      using merge merge_fields_Inr [OF inherits_distinct [OF p(5)]] by auto
    have "refers get_schema v (row_context network row) (registered_of_row network p)"
      using p prior [OF Some] is_prior_earlier by (simp add: refers_def) (simp add: registered_of_row_def context_of_def num_NInt)
    moreover have "extends ?d = Some v" using parent p(1) by simp
    moreover have "parse_schema (registered_definition (registered_of_row network p)) = Inr t"
      using p(4) by (simp add: registered_of_row_def)
    ultimately have "inherits get_schema ?d (row_context network row) (merged @ schema_fields ?d) (us @ [v])"
      using p(5) m(2) e(5) by (intro inherits.child)
    then show ?thesis using m p(1,6) own(2) by (simp add: entries_ok_def)
  qed
  have "merged' \<noteq> []" using inh own(3) inherits_fields by fastforce
  then have ok: "fields_ok 1 merged'" using inh by (simp add: fields_ok_def)
  show ?thesis
    using inh ok validate_projected_fields_count [OF fields ok] rest e
    by (intro exI [of _ merged']) (auto simp: chain_prefix_def)
qed

lemma check_chain_inherits:
  assumes "check_chain lib before_uids previous merged (chain @ [(uid, row, projection)]) = Inr final"
    and "chain_prefix get_schema network before_uids previous merged"
    and "\<forall>entry \<in> set (chain @ [(uid, row, projection)]). chain_entry get_schema network entry"
  shows "inherits get_schema (resolved_definition projection) (row_context network row) final (before_uids @ map fst chain) \<and>
    count_schema_fields final \<le> MAX_SCHEMA_FIELDS"
  using assms
proof (induction chain arbitrary: before_uids previous merged)
  case Nil
  then show ?case using check_chain_step [of lib before_uids previous merged uid row projection "[]" final get_schema network] by auto
next
  case (Cons entry chain)
  obtain u r p where entry: "entry = (u, r, p)" by (cases entry)
  obtain merged' where "check_chain lib (before_uids @ [u]) (Some r) merged' (chain @ [(uid, row, projection)]) = Inr final"
    "chain_prefix get_schema network (before_uids @ [u]) (Some r) merged'"
    using check_chain_step [of lib before_uids previous merged u r p "chain @ [(uid, row, projection)]" final get_schema network]
      Cons.prems entry by auto
  from Cons.IH [OF this] Cons.prems(3) show ?case by (simp add: entry)
qed

lemma stored_resolved_Inr:
  assumes "stored_resolved_schema lib row = Inr p"
  shows "parse_schema (xs_definition row) = Inr (resolved_definition p) \<and> length (lineage p) \<le> 15 \<and>
    supersedes (resolved_definition p) = xs_supersedes row"
proof -
  let ?made = "\<lambda>d fs. case get (xs_resolved row) ''lineage'' of
      JArr uids \<Rightarrow> if \<not> lineage_ok row uids \<or> \<not> ends_in_parent (extends d) uids then broken
        else Inr \<lparr>resolved_definition = d, resolved_fields = fs, lineage = map str_of uids\<rparr>
    | _ \<Rightarrow> broken"
  obtain d fs where d: "parse_schema (xs_definition row) = Inr d" "assert_definition_metadata row d = Inr ()"
    and p: "?made d fs = Inr p"
    using assms by (auto simp: stored_resolved_schema_def Let_def res_simps simp del: not_None_eq split: if_splits)
  have "resolved_definition p = d \<and> length (lineage p) \<le> 15"
    using p by (cases "get (xs_resolved row) ''lineage''")
      (auto simp: lineage_ok_def MAX_INHERITANCE_LINEAGE_def split: if_splits)
  then show ?thesis using d by (auto simp: assert_definition_metadata_def split: if_splits)
qed

lemma chain_prefix_start: "chain_prefix get_schema network [] None []"
  by (simp add: chain_prefix_def)

text \<open>The UID under which the memo of a registration was registered.\<close>

definition registered_under :: "'x core_lib_scheme \<Rightarrow> projection_expectation \<Rightarrow> schema_evidence \<Rightarrow> jstr \<Rightarrow> bool" where
  "registered_under lib expected e uid \<longleftrightarrow>
     (\<exists>memo d. se_memo (sv_registration e) = Some memo \<and> parse_schema memo = Inr d \<and>
        compute_schema_uid lib (registration_uid_input expected (sv_registration e) d) = Inr uid)"

lemma validate_evidence_row_Inr:
  assumes "validate_evidence_row lib expected e = Inr (r, p)"
  shows "r = sv_schema e \<and> coordinates_ok lib expected r \<and> stored_resolved_schema lib r = Inr p \<and>
    registered_under lib expected e (xs_uid r)"
  using assms unfolding validate_evidence_row_def Let_def registered_under_def
  by (auto simp: res_simps registration_matches_def split: if_splits)

lemma evidence_by_uid_key: "map_of (evidence_by_uid evidence) uid = Some e \<Longrightarrow> xs_uid (sv_schema e) = uid \<and> e \<in> set evidence"
  by (auto simp: evidence_by_uid_def dest!: map_of_SomeD)

lemma authoritative_chain:
  assumes "authoritative_resolved_schema lib row evidence expected = Inr rs"
  shows "\<exists>target chain entry. stored_resolved_schema lib row = Inr target \<and> lineage rs = lineage target \<and>
    resolved_definition rs = resolved_definition target \<and> xs_uid row = px_uid expected \<and>
    list_all2 (\<lambda>uid (u, r, p). u = uid \<and> (\<exists>e. map_of (evidence_by_uid evidence) uid = Some e \<and>
        validate_evidence_row lib expected e = Inr (r, p))) (lineage target @ [xs_uid row]) (chain @ [entry]) \<and>
    check_chain lib [] None [] (chain @ [entry]) = Inr (resolved_fields rs)"
proof -
  let ?find = "\<lambda>uid. case map_of (evidence_by_uid evidence) uid of
      None \<Rightarrow> broken | Some e \<Rightarrow> rbind (validate_evidence_row lib expected e) (\<lambda>(r, p). Inr (uid, r, p))"
  obtain target chain where target: "stored_resolved_schema lib row = Inr target" "xs_uid row = px_uid expected"
    and chain: "traverse ?find (lineage target @ [xs_uid row]) = Inr chain"
    and checked: "check_chain lib [] None [] chain = Inr (resolved_fields rs)"
    and rs: "lineage rs = lineage target" "resolved_definition rs = resolved_definition target"
    using assms unfolding authoritative_resolved_schema_def fail_closed_Inr Let_def
    by (auto simp: res_simps split: if_splits)
  have "?find uid = Inr (u, r, p) \<Longrightarrow> u = uid \<and> (\<exists>e. map_of (evidence_by_uid evidence) uid = Some e \<and>
      validate_evidence_row lib expected e = Inr (r, p))" for uid u r p
    by (auto simp: res_simps split: option.splits)
  then have all: "list_all2 (\<lambda>uid (u, r, p). u = uid \<and> (\<exists>e. map_of (evidence_by_uid evidence) uid = Some e \<and>
      validate_evidence_row lib expected e = Inr (r, p))) (lineage target @ [xs_uid row]) chain"
    using chain unfolding traverse_eq_Inr by (elim list_all2_mono) auto
  then have "chain \<noteq> []" by auto
  then obtain chain' entry where "chain = chain' @ [entry]" by (metis rev_exhaust)
  then show ?thesis using target all checked rs by blast
qed

definition predecessors_ok :: "int \<Rightarrow> schema_evidence list \<Rightarrow> bool" where
  "predecessors_ok network evidence \<longleftrightarrow>
     (\<forall>e \<in> set evidence. \<forall>d. parse_schema (xs_definition (sv_schema e)) = Inr d \<longrightarrow>
        predecessor_ok (evidence_getter network evidence) d (row_context network (sv_schema e)))"

lemma list_all2_left: "list_all2 P xs ys \<Longrightarrow> x \<in> set xs \<Longrightarrow> \<exists>y. P x y"
  by (auto simp: list_all2_conv_all_nth in_set_conv_nth)

lemma list_all2_right: "list_all2 P xs ys \<Longrightarrow> y \<in> set ys \<Longrightarrow> \<exists>x. P x y"
  by (auto simp: list_all2_conv_all_nth in_set_conv_nth)

lemma list_all2_append1_single: "list_all2 P (xs @ [x]) (ys @ [y]) \<longleftrightarrow> list_all2 P xs ys \<and> P x y"
  by (metis list.rel_inject(2) list_all2_Nil list_all2_append list_all2_lengthD length_append_singleton nat.inject)

lemma list_all2_keys: "list_all2 (\<lambda>x y. fst y = x) xs ys \<Longrightarrow> map fst ys = xs"
  by (induction rule: list_all2_induct) simp_all

lemma coordinates_uint32:
  assumes "coordinates_ok lib expected row" and "0 \<le> px_network expected" "px_network expected \<le> uint32_max" "0 \<le> px_activation expected"
  shows "num_uint32 (ctx_network_id (row_context (px_network expected) row)) \<and>
    num_uint32 (ctx_ledger_index (row_context (px_network expected) row)) \<and>
    num_uint32 (ctx_transaction_index (row_context (px_network expected) row)) \<and>
    is_valid_classic_address lib (ctx_publisher (row_context (px_network expected) row))"
  using assms by (auto simp: coordinates_ok_def context_of_def registered_of_row_def num_uint32_iff)

lemma checked_entry:
  assumes "map_of (evidence_by_uid evidence) u = Some e" and "validate_evidence_row lib expected e = Inr (r, p)"
    and "\<forall>e \<in> set evidence. js_keys (xs_definition (sv_schema e))" and "predecessors_ok (px_network expected) evidence"
  shows "chain_entry (evidence_getter (px_network expected) evidence) (px_network expected) (u, r, p)"
proof -
  note r = validate_evidence_row_Inr [OF assms(2)] and e = evidence_by_uid_key [OF assms(1)]
  have p: "parse_schema (xs_definition r) = Inr (resolved_definition p)" using r stored_resolved_Inr by blast
  then have "schema_ok (resolved_definition p)" using r e assms(3) parse_schema_ok by blast
  moreover have "predecessor_ok (evidence_getter (px_network expected) evidence) (resolved_definition p) (row_context (px_network expected) r)"
    using assms(4) e r p by (auto simp: predecessors_ok_def)
  ultimately show ?thesis using assms(1) r e p by (simp add: chain_entry_def evidence_getter_def)
qed

lemma authoritative_resolves:
  assumes "authoritative_resolved_schema lib row evidence expected = Inr rs"
    and "\<forall>e \<in> set evidence. js_keys (xs_definition (sv_schema e))" and "predecessors_ok (px_network expected) evidence"
    and "0 \<le> px_network expected" "px_network expected \<le> uint32_max" and "0 \<le> px_activation expected"
  shows "\<exists>e d. map_of (evidence_by_uid evidence) (xs_uid row) = Some e \<and>
    resolve_schema lib (evidence_getter (px_network expected) evidence) (xs_definition (sv_schema e))
      (row_context (px_network expected) (sv_schema e)) =
      Inr \<lparr>resolved_definition = d, resolved_fields = resolved_fields rs, lineage = lineage rs\<rparr>"
    and "\<forall>uid \<in> set (lineage rs @ [xs_uid row]). \<exists>e. map_of (evidence_by_uid evidence) uid = Some e \<and>
      registered_under lib expected e uid"
proof -
  let ?network = "px_network expected" and ?get = "evidence_getter (px_network expected) evidence"
  let ?checked = "\<lambda>uid (u, r, p). u = uid \<and> (\<exists>e. map_of (evidence_by_uid evidence) uid = Some e \<and>
        validate_evidence_row lib expected e = Inr (r, p))"
  obtain target chain entry where target: "stored_resolved_schema lib row = Inr target" "lineage rs = lineage target"
    and all: "list_all2 ?checked (lineage target @ [xs_uid row]) (chain @ [entry])"
    and check: "check_chain lib [] None [] (chain @ [entry]) = Inr (resolved_fields rs)"
    using authoritative_chain [OF assms(1)] by blast
  show "\<forall>uid \<in> set (lineage rs @ [xs_uid row]). \<exists>e. map_of (evidence_by_uid evidence) uid = Some e \<and>
      registered_under lib expected e uid"
  proof
    fix uid assume "uid \<in> set (lineage rs @ [xs_uid row])"
    then have "\<exists>x. ?checked uid x" unfolding target(2) by (rule list_all2_left [OF all])
    then obtain r p e where e: "map_of (evidence_by_uid evidence) uid = Some e" "validate_evidence_row lib expected e = Inr (r, p)"
      by auto
    show "\<exists>e. map_of (evidence_by_uid evidence) uid = Some e \<and> registered_under lib expected e uid"
      using validate_evidence_row_Inr [OF e(2)] evidence_by_uid_key [OF e(1)] e(1) by auto
  qed
  obtain uid r p where entry: "entry = (uid, r, p)" by (cases entry)
  have "chain_entry ?get ?network x" if x: "x \<in> set (chain @ [entry])" for x
  proof -
    obtain u r p where "x = (u, r, p)" by (cases x)
    then obtain e where "map_of (evidence_by_uid evidence) u = Some e" "validate_evidence_row lib expected e = Inr (r, p)"
      using list_all2_right [OF all x] by auto
    then show ?thesis
      unfolding \<open>x = (u, r, p)\<close> using assms(2,3) by (rule checked_entry)
  qed
  then have inh: "inherits ?get (resolved_definition p) (row_context ?network r) (resolved_fields rs) (map fst chain) \<and>
      count_schema_fields (resolved_fields rs) \<le> MAX_SCHEMA_FIELDS"
    using check_chain_inherits [OF check [unfolded entry], of ?get ?network] entry chain_prefix_start by simp
  have "list_all2 ?checked (lineage target) chain" "?checked (xs_uid row) entry"
    using all by (simp_all add: list_all2_append1_single)
  then have uids: "map fst chain = lineage rs"
    using target(2) by (intro list_all2_keys) (auto elim: list_all2_mono)
  obtain e where e: "map_of (evidence_by_uid evidence) (xs_uid row) = Some e" "validate_evidence_row lib expected e = Inr (r, p)"
    using \<open>?checked (xs_uid row) entry\<close> entry by auto
  note row = validate_evidence_row_Inr [OF e(2)]
  have "resolve_schema lib ?get (xs_definition (sv_schema e)) (row_context ?network (sv_schema e)) =
      Inr \<lparr>resolved_definition = resolved_definition p, resolved_fields = resolved_fields rs, lineage = lineage rs\<rparr>"
  proof -
    have "resolve ?get (resolved_definition p) (row_context ?network r) [] =
        Inr \<lparr>resolved_definition = resolved_definition p, resolved_fields = resolved_fields rs, lineage = lineage rs\<rparr>"
      using inh stored_resolved_Inr [OF target(1)] by (simp add: resolve_iff uids target(2) MAX_SCHEMA_FIELDS_def)
    moreover have "parse_schema (xs_definition r) = Inr (resolved_definition p)"
      using stored_resolved_Inr row by blast
    moreover have "num_uint32 (ctx_network_id (row_context ?network r)) \<and> num_uint32 (ctx_ledger_index (row_context ?network r)) \<and>
        num_uint32 (ctx_transaction_index (row_context ?network r)) \<and> is_valid_classic_address lib (ctx_publisher (row_context ?network r))"
      using row assms(4-6) coordinates_uint32 by blast
    ultimately show ?thesis using row by (simp add: resolve_schema_def)
  qed
  then show "\<exists>e d. map_of (evidence_by_uid evidence) (xs_uid row) = Some e \<and>
    resolve_schema lib ?get (xs_definition (sv_schema e)) (row_context ?network (sv_schema e)) =
      Inr \<lparr>resolved_definition = d, resolved_fields = resolved_fields rs, lineage = lineage rs\<rparr>"
    using e(1) by blast
qed

end
