(* ===== verification/Server_Evidence.thy ===== *)
theory Server_Evidence
  imports Database_Schema Lifecycle App_Business
begin

text \<open>
  When the web server trusts what the indexer wrote: \<open>ledger-freshness.ts\<close>, \<open>indexer-status.ts\<close>,
  \<open>credential-state.ts\<close> and \<open>credential-generation-evidence.ts\<close> of \<open>apps/web/server/xcs\<close>. The rows are those of
  the indexer's tables. A \<open>Date\<close> is its milliseconds, \<open>None\<close> for an invalid one; the dates of rows are valid.
\<close>

section \<open>Errors and libraries\<close>

datatype unavailable_code =
  INDEXER_NOT_INITIALIZED | INDEXER_STALE | INDEXER_STATUS_UNAVAILABLE | INDEXER_NOT_READY | INDEXER_HALTED
| INDEXER_LEASE_EXPIRED | INDEXER_EVIDENCE_INVALID

text \<open>
  What the services of the server throw: the 503 of the indexer, that of a schema, the errors with a code and an HTTP
  status, the two errors of the payload resolver, and any other exception.
\<close>

datatype server_error =
  Indexer_Unavailable unavailable_code
| Schema_Projection_Invalid
| Coded_Error string nat
| Payload_Unavailable
| Payload_Invalid
| Uncoded_Error cerr

text \<open>
  \<open>rippleTimeToUnixTime\<close> of the \<open>xrpl\<close> package, in milliseconds; \<open>JSON.stringify\<close>; the conversions of \<open>Buffer\<close>, which
  accept every input.
\<close>

record server_lib = core_lib +
  ripple_time_to_unix_time :: "int \<Rightarrow> int"
  json_stringify :: "jsval \<Rightarrow> jstr"
  buffer_to_base64url :: "byte list \<Rightarrow> jstr"
  buffer_from_base64url :: "jstr \<Rightarrow> byte list"
  buffer_to_utf8 :: "byte list \<Rightarrow> jstr"

definition uint32_int :: "int \<Rightarrow> bool" where
  "uint32_int n \<longleftrightarrow> 0 \<le> n \<and> n \<le> uint32_max"

section \<open>Freshness\<close>

definition DEFAULT_LEDGER_MAX_AGE_SECONDS :: int where "DEFAULT_LEDGER_MAX_AGE_SECONDS = 120"
definition MAX_LEDGER_CLOCK_SKEW_SECONDS :: int where "MAX_LEDGER_CLOCK_SKEW_SECONDS = 30"

datatype freshness = Fresh | Missing | Stale

definition evaluate_ledger_checkpoint_freshness ::
  "'x server_lib_scheme \<Rightarrow> int option \<Rightarrow> int option \<Rightarrow> jnum \<Rightarrow> freshness" where
  "evaluate_ledger_checkpoint_freshness lib close now max_age =
     (case (close, max_age, now) of
        (None, _, _) \<Rightarrow> Missing
      | (Some c, NInt age, Some t) \<Rightarrow>
          if age < 0 then Stale
          else
            let seconds = t div 1000 in
            if MAX_SAFE_INTEGER < \<bar>seconds\<bar> then Stale
            else
              let age_seconds = seconds - ripple_time_to_unix_time lib c div 1000 in
              if age < age_seconds \<or> age_seconds < - MAX_LEDGER_CLOCK_SKEW_SECONDS then Stale else Fresh
      | _ \<Rightarrow> Stale)"

definition assert_fresh_ledger_checkpoint ::
  "'x server_lib_scheme \<Rightarrow> int option \<Rightarrow> int option \<Rightarrow> jnum \<Rightarrow> server_error + unit" where
  "assert_fresh_ledger_checkpoint lib close now max_age =
     (case evaluate_ledger_checkpoint_freshness lib close now max_age of
        Missing \<Rightarrow> Inl (Indexer_Unavailable INDEXER_NOT_INITIALIZED)
      | Stale \<Rightarrow> Inl (Indexer_Unavailable INDEXER_STALE)
      | Fresh \<Rightarrow> Inr ())"

lemma assert_fresh_Inr:
  "assert_fresh_ledger_checkpoint lib close now max_age = Inr u \<longleftrightarrow>
     (\<exists>c age t. close = Some c \<and> max_age = NInt age \<and> now = Some t \<and> 0 \<le> age \<and> \<bar>t div 1000\<bar> \<le> MAX_SAFE_INTEGER \<and>
        t div 1000 - ripple_time_to_unix_time lib c div 1000 \<in> {- 30..age})"
  by (auto simp: assert_fresh_ledger_checkpoint_def evaluate_ledger_checkpoint_freshness_def Let_def
      MAX_LEDGER_CLOCK_SKEW_SECONDS_def split: option.splits jnum.splits if_splits)

section \<open>The status of the indexer\<close>

record public_status =
  ps_profile :: jstr
  ps_state :: status_state
  ps_primary :: "int option"
  ps_secondary :: "int option"
  ps_agreed :: "(int \<times> jstr) option"
  ps_error :: "jstr option"
  ps_updated :: int

definition public_indexer_status :: "status_row \<Rightarrow> server_error + public_status" where
  "public_indexer_status row =
     (if (ss_agreed_index row = None) \<noteq> (ss_agreed_hash row = None) \<or> \<not> null_or uint32_int (ss_primary row) \<or>
        \<not> null_or uint32_int (ss_secondary row) \<or> \<not> null_or uint32_int (ss_agreed_index row)
      then Inl (Uncoded_Error HostErr)
      else Inr \<lparr>ps_profile = ss_profile row, ps_state = ss_state row, ps_primary = ss_primary row,
        ps_secondary = ss_secondary row,
        ps_agreed = (case (ss_agreed_index row, ss_agreed_hash row) of (Some i, Some h) \<Rightarrow> Some (i, h) | _ \<Rightarrow> None),
        ps_error = ss_error row, ps_updated = ss_updated row\<rparr>)"

text \<open>A status row the database accepts can be shown.\<close>

lemma public_status_total: "status_row_ok row \<Longrightarrow> \<exists>s. public_indexer_status row = Inr s"
  by (auto simp: public_indexer_status_def status_row_ok_def agreed_ledger_ok_def uint32_range_def uint32_int_def uint32_max_def)

definition lease_is_live :: "status_row \<Rightarrow> int option \<Rightarrow> bool" where
  "lease_is_live status now \<longleftrightarrow>
     (case (now, ss_writer status, ss_expires status) of (Some t, Some _, Some e) \<Rightarrow> t < e | _ \<Rightarrow> False)"

definition tips_agree :: "status_row \<Rightarrow> bool" where
  "tips_agree status \<longleftrightarrow>
     (case (ss_primary status, ss_secondary status, ss_agreed_index status, ss_agreed_hash status) of
        (Some p, Some s, Some i, Some _) \<Rightarrow> uint32_int p \<and> uint32_int s \<and> uint32_int i \<and> i = min p s
      | _ \<Rightarrow> False)"

definition assert_indexer_ready :: "status_row option \<Rightarrow> int option \<Rightarrow> server_error + status_row" where
  "assert_indexer_ready status now =
     (case status of
        None \<Rightarrow> Inl (Indexer_Unavailable INDEXER_STATUS_UNAVAILABLE)
      | Some s \<Rightarrow>
          if ss_state s = Halted then Inl (Indexer_Unavailable INDEXER_HALTED)
          else if ss_state s \<noteq> Ready then Inl (Indexer_Unavailable INDEXER_NOT_READY)
          else if \<not> lease_is_live s now then Inl (Indexer_Unavailable INDEXER_LEASE_EXPIRED)
          else if \<not> tips_agree s then Inl (Indexer_Unavailable INDEXER_EVIDENCE_INVALID)
          else Inr s)"

record ledger_evidence =
  le_profile :: jstr
  le_status :: "status_row option"
  le_checkpoint :: "checkpoint_row option"
  le_now :: "int option"
  le_max_age :: jnum
  le_minimum :: "int option"
  le_projections :: "int list"

definition checkpoint_matches :: "jstr \<Rightarrow> status_row \<Rightarrow> checkpoint_row \<Rightarrow> bool" where
  "checkpoint_matches profile status c \<longleftrightarrow>
     ss_profile status = profile \<and> ck_profile c = profile \<and> ss_agreed_index status = Some (ck_index c) \<and>
     ss_agreed_hash status = Some (ck_hash c) \<and> ck_root c \<noteq> None \<and> uint32_int (ck_index c) \<and> uint32_int (ck_close_time c)"

definition within_indexed :: "int \<Rightarrow> checkpoint_row \<Rightarrow> int list \<Rightarrow> bool" where
  "within_indexed low c indexes \<longleftrightarrow>
     0 \<le> low \<and> low \<le> ck_index c \<and> list_all (\<lambda>i. low \<le> i \<and> i \<le> ck_index c) indexes"

definition assert_authoritative_ledger_evidence ::
  "'x server_lib_scheme \<Rightarrow> ledger_evidence \<Rightarrow> server_error + status_row \<times> checkpoint_row" where
  "assert_authoritative_ledger_evidence lib input =
     rbind (assert_indexer_ready (le_status input) (le_now input)) (\<lambda>status.
     case le_checkpoint input of
       None \<Rightarrow> Inl (Indexer_Unavailable INDEXER_NOT_INITIALIZED)
     | Some c \<Rightarrow>
         if \<not> checkpoint_matches (le_profile input) status c then Inl (Indexer_Unavailable INDEXER_EVIDENCE_INVALID)
         else if \<not> within_indexed (case le_minimum input of None \<Rightarrow> 0 | Some i \<Rightarrow> i) c (le_projections input)
         then Inl (Indexer_Unavailable INDEXER_EVIDENCE_INVALID)
         else
           rbind (assert_fresh_ledger_checkpoint lib (Some (ck_close_time c)) (le_now input) (le_max_age input)) (\<lambda>_.
           Inr (status, c)))"

section \<open>Credential generations\<close>

definition credential_generation_state :: "generation_row \<Rightarrow> int \<Rightarrow> server_error + credential_lifecycle_state" where
  "credential_generation_state g close =
     (case project_credential_lifecycle \<lparr>object_exists = (gr_deleted_ledger g = None), accepted = gr_accepted g,
         expiration = map_option NInt (gr_expiration g), close_time = NInt close\<rparr> of
        Inr s \<Rightarrow> Inr s
      | Inl e \<Rightarrow>
          (case e of XcsErr INVALID_RIPPLE_TIME _ \<Rightarrow> Inl (Indexer_Unavailable INDEXER_EVIDENCE_INVALID)
           | _ \<Rightarrow> Inl (Uncoded_Error e)))"

definition MAX_NODE_INDEX :: int where "MAX_NODE_INDEX = 2147483647"

record generation_expectation =
  gx_profile :: jstr
  gx_activation :: int
  gx_checkpoint :: int
  gx_id :: "jstr option"
  gx_issuer :: "jstr option"
  gx_subject :: "jstr option"
  gx_schema_uid :: "jstr option"

text \<open>The pattern \<open>(?:[0-9A-Fa-f]{2})*\<close>.\<close>

definition hex_bytes :: "jstr \<Rightarrow> bool" where
  "hex_bytes s \<longleftrightarrow> even (length s) \<and> list_all is_hex s"

definition expected_value :: "jstr \<Rightarrow> jstr option \<Rightarrow> bool" where
  "expected_value v e \<longleftrightarrow> (case e of None \<Rightarrow> True | Some x \<Rightarrow> v = x)"

definition valid_deletion_shape :: "generation_row \<Rightarrow> bool" where
  "valid_deletion_shape g \<longleftrightarrow>
     (case (gr_deleted_ledger g, gr_cause g) of
        (None, None) \<Rightarrow> True | (Some d, Some _) \<Rightarrow> d = gr_last_ledger g | _ \<Rightarrow> False)"

definition assert_credential_generation_evidence ::
  "'x core_lib_scheme \<Rightarrow> generation_row \<Rightarrow> generation_expectation \<Rightarrow> server_error + unit" where
  "assert_credential_generation_evidence lib g expected =
     (if gr_profile g \<noteq> gx_profile expected \<or> \<not> expected_value (gr_id g) (gx_id expected) \<or>
         \<not> expected_value (gr_issuer g) (gx_issuer expected) \<or> \<not> expected_value (gr_subject g) (gx_subject expected) \<or>
         \<not> expected_value (gr_schema_uid g) (gx_schema_uid expected) \<or>
         \<not> hash64 (gr_id g) \<or> \<not> hash64 (gr_object_id g) \<or> \<not> hash64 (gr_schema_uid g) \<or>
         \<not> is_valid_classic_address lib (gr_issuer g) \<or> \<not> is_valid_classic_address lib (gr_subject g) \<or>
         \<not> null_or hex_bytes (gr_uri_hex g) \<or> \<not> null_or uint32_int (gr_expiration g) \<or>
         gr_created_ledger g < gx_activation expected \<or> gx_checkpoint expected < gr_created_ledger g \<or>
         gr_created_index g < 0 \<or> MAX_NODE_INDEX < gr_created_index g \<or>
         gr_last_ledger g < gr_created_ledger g \<or> gx_checkpoint expected < gr_last_ledger g \<or>
         \<not> null_or (\<lambda>d. gr_created_ledger g \<le> d \<and> d \<le> gx_checkpoint expected) (gr_deleted_ledger g) \<or>
         \<not> valid_deletion_shape g
      then Inl (Indexer_Unavailable INDEXER_EVIDENCE_INVALID)
      else Inr ())"

end
