(* ===== verification/Server_Repository.thy ===== *)
theory Server_Repository
  imports Server_Schemas Server_Evidence "HOL-Library.List_Lexorder" "HOL-Library.Product_Lexorder"
begin

text \<open>
  The queries of the web server (\<open>apps/web/server/xcs/repository.ts\<close>, \<open>types.ts\<close>) on the tables the indexer
  writes. \<open>withConsistentSnapshot\<close> is a read-only transaction: a handler works on one \<open>snapshot\<close>, a database
  together with its clock and the profiles whose column \<open>enabled\<close> is false. \<open>order_by\<close> and \<open>take\<close> are
  \<open>ORDER BY\<close> and \<open>LIMIT\<close>; hashes are compared as text.
\<close>

record snapshot = database +
  sn_disabled :: "jstr list"
  sn_now :: int

text \<open>What the server reads of a row of \<open>schemas\<close>.\<close>

definition stored_of :: "schema_row \<Rightarrow> stored_schema" where
  "stored_of r =
     \<lparr>xs_profile = sc_profile r, xs_uid = sc_uid r, xs_publisher = sc_publisher r,
      xs_name = schema_name (sc_definition r), xs_description = description (sc_definition r),
      xs_parent = sc_parent r, xs_supersedes = sc_supersedes r, xs_definition = schema_value (sc_definition r),
      xs_resolved = resolved_value (sc_resolved r), xs_hash = sc_hash r, xs_ledger = sc_ledger_index r,
      xs_index = sc_index r\<rparr>"

definition first_row :: "'a list \<Rightarrow> 'a option" where
  "first_row rows = (case rows of [] \<Rightarrow> None | r # _ \<Rightarrow> Some r)"

definition descending :: "('a \<Rightarrow> 'k::linorder) \<Rightarrow> 'a list \<Rightarrow> 'a list" where
  "descending key rows = rev (sort_key key (rev rows))"

section \<open>Profiles, status and checkpoints\<close>

definition list_networks :: "snapshot \<Rightarrow> profile_row list" where
  "list_networks db = sort_key np_id (filter (\<lambda>r. np_id r \<notin> set (sn_disabled db)) (db_profiles db))"

definition get_network :: "snapshot \<Rightarrow> jstr \<Rightarrow> profile_row option" where
  "get_network db profile =
     first_row (filter (\<lambda>r. np_id r = profile \<and> np_id r \<notin> set (sn_disabled db)) (db_profiles db))"

definition get_indexer_status :: "snapshot \<Rightarrow> jstr \<Rightarrow> status_row option" where
  "get_indexer_status db profile = first_row (filter (\<lambda>r. ss_profile r = profile) (db_statuses db))"

definition get_latest_checkpoint :: "snapshot \<Rightarrow> jstr \<Rightarrow> checkpoint_row option" where
  "get_latest_checkpoint db profile =
     first_row (descending ck_index (filter (\<lambda>r. ck_profile r = profile) (db_checkpoints db)))"

section \<open>Schemas\<close>

definition get_schema :: "snapshot \<Rightarrow> jstr \<Rightarrow> jstr \<Rightarrow> stored_schema option" where
  "get_schema db profile uid =
     map_option stored_of (first_row (filter (\<lambda>r. sc_profile r = profile \<and> sc_uid r = uid) (db_schemas db)))"

text \<open>The inner join of schemas and registrations on the transaction.\<close>

definition get_schema_projection_evidence :: "snapshot \<Rightarrow> jstr \<Rightarrow> jstr list \<Rightarrow> schema_evidence list" where
  "get_schema_projection_evidence db profile uids =
     (if uids = [] then []
      else
        concat (map (\<lambda>r. map (\<lambda>e. \<lparr>sv_schema = stored_of r, sv_registration = e\<rparr>)
            (filter (\<lambda>e. se_profile e = sc_profile r \<and> se_hash e = sc_hash r) (db_schema_events db)))
          (filter (\<lambda>r. sc_profile r = profile \<and> sc_uid r \<in> set uids) (db_schemas db))))"

text \<open>
  The recursive query: from the target, add what a row extends or supersedes until nothing is new. A round that adds a
  row adds one of the table, so as many rounds as the table has rows are enough.
\<close>

definition related :: "schema_row \<Rightarrow> schema_row \<Rightarrow> bool" where
  "related entry r \<longleftrightarrow> sc_parent entry = Some (sc_uid r) \<or> sc_supersedes entry = Some (sc_uid r)"

definition catalog_round :: "schema_row list \<Rightarrow> schema_row list \<Rightarrow> schema_row list" where
  "catalog_round rows catalog =
     filter (\<lambda>r. r \<in> set catalog \<or> list_ex (\<lambda>entry. related entry r) catalog) rows"

definition schema_catalog :: "snapshot \<Rightarrow> jstr \<Rightarrow> jstr \<Rightarrow> schema_row list" where
  "schema_catalog db profile target =
     (let rows = filter (\<lambda>r. sc_profile r = profile) (db_schemas db) in
      (catalog_round rows ^^ length rows) (filter (\<lambda>r. sc_uid r = target) rows))"

lemma catalog_round_set:
  "set (catalog_round rows catalog) = {r \<in> set rows. r \<in> set catalog \<or> (\<exists>entry \<in> set catalog. related entry r)}"
  by (auto simp: catalog_round_def list_ex_iff)

lemma catalog_rounds_stop:
  assumes "set catalog \<subseteq> set rows" and "length rows \<le> n"
  shows "set (catalog_round rows ((catalog_round rows ^^ n) catalog)) = set ((catalog_round rows ^^ n) catalog)"
proof -
  let ?S = "\<lambda>k. set ((catalog_round rows ^^ k) catalog)"
  have sub: "?S k \<subseteq> set rows" for k using assms(1) by (cases k) (auto simp: catalog_round_set)
  have grows: "?S k \<subseteq> ?S (Suc k)" for k using sub by (auto simp: catalog_round_set)
  have same: "?S (Suc (Suc k)) = ?S (Suc k)" if "?S (Suc k) = ?S k" for k
    using that by (simp add: catalog_round_set)
  have "?S (Suc k) = ?S k \<or> k < card (?S (Suc k))" for k
  proof (induction k)
    case 0
    then show ?case using grows [of 0] by (cases "?S 1 = {}") (auto simp: card_gt_0_iff)
  next
    case (Suc k)
    show ?case
    proof (cases "?S (Suc (Suc k)) = ?S (Suc k)")
      case False
      then have "?S (Suc k) \<subset> ?S (Suc (Suc k))" using grows by blast
      then have "card (?S (Suc k)) < card (?S (Suc (Suc k)))" by (intro psubset_card_mono) simp_all
      moreover have "k < card (?S (Suc k))" using Suc same False by blast
      ultimately show ?thesis by linarith
    qed blast
  qed
  moreover have "card (?S k) \<le> length rows" for k
    using card_mono [OF _ sub [of k]] card_length [of rows] by (meson List.finite_set le_trans)
  ultimately have "?S (Suc n) = ?S n" using assms(2) by (meson leD le_trans)
  then show ?thesis by simp
qed

lemma schema_catalog_closure:
  "r \<in> set (schema_catalog db profile target) \<longleftrightarrow>
     (\<exists>t \<in> set (db_schemas db). sc_profile t = profile \<and> sc_uid t = target \<and>
        (\<lambda>a b. b \<in> set (db_schemas db) \<and> sc_profile b = profile \<and> related a b)\<^sup>*\<^sup>* t r)"
proof -
  let ?rows = "filter (\<lambda>r. sc_profile r = profile) (db_schemas db)"
  let ?start = "filter (\<lambda>r. sc_uid r = target) ?rows"
  let ?step = "\<lambda>a b. b \<in> set (db_schemas db) \<and> sc_profile b = profile \<and> related a b"
  let ?all = "(catalog_round ?rows ^^ length ?rows) ?start"
  have stop: "set (catalog_round ?rows ?all) = set ?all" by (rule catalog_rounds_stop) auto
  have sound: "\<exists>t \<in> set ?start. ?step\<^sup>*\<^sup>* t q" if "q \<in> set ((catalog_round ?rows ^^ k) ?start)" for q k
    using that
  proof (induction k arbitrary: q)
    case (Suc k)
    then consider "q \<in> set ((catalog_round ?rows ^^ k) ?start)"
      | e where "e \<in> set ((catalog_round ?rows ^^ k) ?start)" "?step e q"
      by (auto simp: catalog_round_set)
    then show ?case
    proof cases
      case 1
      then show ?thesis by (rule Suc.IH)
    next
      case 2
      from Suc.IH [OF 2(1)] obtain t where t: "t \<in> set ?start" "?step\<^sup>*\<^sup>* t e" by blast
      from t(2) 2(2) have "?step\<^sup>*\<^sup>* t q" by (rule rtranclp.rtrancl_into_rtrancl)
      with t(1) show ?thesis by blast
    qed
  qed auto
  have begin_in: "set ?start \<subseteq> set ((catalog_round ?rows ^^ k) ?start)" for k
    by (induction k) (auto simp: catalog_round_set)
  have complete: "q \<in> set ?all" if "t \<in> set ?start" and "?step\<^sup>*\<^sup>* t q" for t q
    using that(2)
  proof induction
    case (step a b)
    then have "b \<in> set (catalog_round ?rows ?all)" by (auto simp: catalog_round_set)
    then show ?case using stop by simp
  qed (use begin_in that(1) in blast)
  have "r \<in> set ?all \<longleftrightarrow> (\<exists>t \<in> set ?start. ?step\<^sup>*\<^sup>* t r)" using sound complete by blast
  then show ?thesis by (auto simp: schema_catalog_def Let_def)
qed

definition get_schema_catalog_evidence :: "snapshot \<Rightarrow> jstr \<Rightarrow> jstr \<Rightarrow> schema_evidence list" where
  "get_schema_catalog_evidence db profile target =
     get_schema_projection_evidence db profile
       (map sc_uid (take (MAX_SCHEMA_CATALOG_ENTRIES + 1) (schema_catalog db profile target)))"

definition get_schema_registration_by_transaction :: "snapshot \<Rightarrow> jstr \<Rightarrow> jstr \<Rightarrow> schema_event_row option" where
  "get_schema_registration_by_transaction db profile hash =
     first_row (filter (\<lambda>r. se_profile r = profile \<and> se_hash r = hash) (db_schema_events db))"

type_synonym position = "int \<times> int \<times> jstr"

definition after_position :: "position \<Rightarrow> position \<Rightarrow> bool" where
  "after_position cursor p \<longleftrightarrow>
     (case (cursor, p) of ((l, i, h), (l', i', h')) \<Rightarrow>
        l < l' \<or> (l' = l \<and> i < i') \<or> (l' = l \<and> i' = i \<and> h < h'))"

definition schema_position :: "schema_row \<Rightarrow> position" where
  "schema_position r = (sc_ledger_index r, sc_index r, sc_uid r)"

definition list_schemas ::
  "snapshot \<Rightarrow> jstr \<Rightarrow> jstr option \<Rightarrow> position option \<Rightarrow> nat \<Rightarrow> schema_row list" where
  "list_schemas db profile publisher cursor limit =
     take (limit + 1) (sort_key schema_position (filter (\<lambda>r.
       sc_profile r = profile \<and> (case publisher of None \<Rightarrow> True | Some p \<Rightarrow> sc_publisher r = p) \<and>
       (case cursor of None \<Rightarrow> True | Some c \<Rightarrow> after_position c (schema_position r))) (db_schemas db)))"

text \<open>The text search is PostgreSQL's, a parameter.\<close>

definition search_schemas ::
  "(jstr \<Rightarrow> jstr \<Rightarrow> bool) \<Rightarrow> snapshot \<Rightarrow> jstr \<Rightarrow> jstr option \<Rightarrow> jstr option \<Rightarrow> nat \<Rightarrow> schema_row list" where
  "search_schemas text_matches db profile query publisher limit =
     take (limit + 1) (descending schema_position (filter (\<lambda>r.
       sc_profile r = profile \<and>
       (case (publisher, query) of
          (Some p, _) \<Rightarrow> sc_publisher r = p
        | (None, Some q) \<Rightarrow> text_matches (schema_name (sc_definition r) @ lit '' '' @ description (sc_definition r)) q
        | (None, None) \<Rightarrow> True)) (db_schemas db)))"

definition registration_position :: "schema_event_row \<Rightarrow> position" where
  "registration_position r = (se_ledger_index r, se_index r, se_hash r)"

definition before_position :: "position \<Rightarrow> position \<Rightarrow> bool" where
  "before_position cursor p \<longleftrightarrow>
     (case (cursor, p) of ((l, i, h), (l', i', h')) \<Rightarrow>
        l' < l \<or> (l' = l \<and> i' < i) \<or> (l' = l \<and> i' = i \<and> h' < h))"

definition list_schema_registrations ::
  "snapshot \<Rightarrow> jstr \<Rightarrow> position option \<Rightarrow> nat \<Rightarrow> schema_event_row list" where
  "list_schema_registrations db profile cursor limit =
     take (limit + 1) (descending registration_position (filter (\<lambda>r. se_profile r = profile \<and>
       (case cursor of None \<Rightarrow> True | Some c \<Rightarrow> before_position c (registration_position r))) (db_schema_events db)))"

section \<open>Credentials\<close>

definition get_credential :: "snapshot \<Rightarrow> jstr \<Rightarrow> jstr \<Rightarrow> jstr \<Rightarrow> jstr \<Rightarrow> generation_row option" where
  "get_credential db profile issuer subject schema_uid =
     first_row (descending (\<lambda>r. (gr_created_ledger r, gr_created_index r)) (filter (\<lambda>r.
       gr_profile r = profile \<and> gr_issuer r = issuer \<and> gr_subject r = subject \<and> gr_schema_uid r = schema_uid)
       (db_generations db)))"

definition get_credential_generation_by_id :: "snapshot \<Rightarrow> jstr \<Rightarrow> jstr \<Rightarrow> generation_row option" where
  "get_credential_generation_by_id db profile generation =
     first_row (filter (\<lambda>r. gr_profile r = profile \<and> gr_id r = generation) (db_generations db))"

definition event_position :: "event_row \<Rightarrow> int \<times> int \<times> nat" where
  "event_position r = (ce_ledger_index r, ce_index r, ce_node_index r)"

definition same_tuple :: "event_row \<Rightarrow> jstr \<Rightarrow> jstr \<Rightarrow> jstr \<Rightarrow> bool" where
  "same_tuple r issuer subject schema_uid \<longleftrightarrow> ce_issuer r = issuer \<and> ce_subject r = subject \<and> ce_schema_uid r = schema_uid"

definition get_credential_events ::
  "snapshot \<Rightarrow> jstr \<Rightarrow> jstr \<Rightarrow> jstr \<Rightarrow> jstr \<Rightarrow> nat \<Rightarrow> event_row list" where
  "get_credential_events db profile issuer subject schema_uid limit =
     take limit (sort_key event_position (filter (\<lambda>r. ce_profile r = profile \<and> same_tuple r issuer subject schema_uid) (db_events db)))"

definition get_credential_events_by_transaction ::
  "snapshot \<Rightarrow> jstr \<Rightarrow> jstr \<Rightarrow> jstr \<Rightarrow> jstr \<Rightarrow> jstr \<Rightarrow> nat \<Rightarrow> event_row list" where
  "get_credential_events_by_transaction db profile hash issuer subject schema_uid limit =
     take limit (sort_key ce_node_index (filter (\<lambda>r. ce_profile r = profile \<and> ce_hash r = hash \<and>
       same_tuple r issuer subject schema_uid) (db_events db)))"

definition get_credential_events_by_generation :: "snapshot \<Rightarrow> jstr \<Rightarrow> jstr \<Rightarrow> nat \<Rightarrow> event_row list" where
  "get_credential_events_by_generation db profile generation limit =
     take limit (sort_key event_position (filter (\<lambda>r. ce_profile r = profile \<and> ce_generation r = generation) (db_events db)))"

record transaction_summary =
  ts_registration :: "schema_event_row option"
  ts_first :: "event_row option"
  ts_count :: nat

definition get_transaction_projection_summary :: "snapshot \<Rightarrow> jstr \<Rightarrow> jstr \<Rightarrow> transaction_summary" where
  "get_transaction_projection_summary db profile hash =
     (let rows = filter (\<lambda>r. ce_profile r = profile \<and> ce_hash r = hash) (db_events db) in
      \<lparr>ts_registration = get_schema_registration_by_transaction db profile hash,
       ts_first = first_row (sort_key ce_node_index rows), ts_count = length rows\<rparr>)"

definition get_credential_events_by_transaction_page ::
  "snapshot \<Rightarrow> jstr \<Rightarrow> jstr \<Rightarrow> nat option \<Rightarrow> nat \<Rightarrow> event_row list" where
  "get_credential_events_by_transaction_page db profile hash after limit =
     take (limit + 1) (sort_key ce_node_index (filter (\<lambda>r. ce_profile r = profile \<and> ce_hash r = hash \<and>
       (case after of None \<Rightarrow> True | Some n \<Rightarrow> n < ce_node_index r)) (db_events db)))"

section \<open>Discovery\<close>

record discovery_stats =
  ds_schemas :: nat
  ds_publishers :: nat
  ds_min_schema :: "int option"
  ds_max_schema :: "int option"
  ds_total :: nat
  ds_pending :: nat
  ds_active :: nat
  ds_expired :: nat
  ds_deleted :: nat
  ds_invalid :: nat
  ds_min_created :: "int option"
  ds_max_last :: "int option"

definition min_of :: "int list \<Rightarrow> int option" where
  "min_of xs = (case xs of [] \<Rightarrow> None | x # rest \<Rightarrow> Some (fold min rest x))"

definition max_of :: "int list \<Rightarrow> int option" where
  "max_of xs = (case xs of [] \<Rightarrow> None | x # rest \<Rightarrow> Some (fold max rest x))"

definition unexpired_at :: "int \<Rightarrow> generation_row \<Rightarrow> bool" where
  "unexpired_at close r \<longleftrightarrow> null_or (\<lambda>e. close < e) (gr_expiration r)"

definition invalid_evidence :: "generation_row \<Rightarrow> bool" where
  "invalid_evidence r \<longleftrightarrow>
     \<not> null_or uint32_int (gr_expiration r) \<or> \<not> uint32_int (gr_created_ledger r) \<or> gr_created_index r < 0 \<or>
     \<not> uint32_int (gr_last_ledger r) \<or> gr_last_ledger r < gr_created_ledger r \<or>
     \<not> null_or (\<lambda>d. uint32_int d \<and> gr_created_ledger r \<le> d \<and> d = gr_last_ledger r) (gr_deleted_ledger r)"

definition get_discovery_stats :: "snapshot \<Rightarrow> jstr \<Rightarrow> int \<Rightarrow> discovery_stats" where
  "get_discovery_stats db profile close =
     (let schemas = filter (\<lambda>r. sc_profile r = profile) (db_schemas db);
          generations = filter (\<lambda>r. gr_profile r = profile) (db_generations db);
          number = (\<lambda>p. length (filter p generations))
      in
      \<lparr>ds_schemas = length schemas, ds_publishers = length (remdups (map sc_publisher schemas)),
       ds_min_schema = min_of (map sc_ledger_index schemas), ds_max_schema = max_of (map sc_ledger_index schemas),
       ds_total = length generations,
       ds_pending = number (\<lambda>r. live r \<and> unexpired_at close r \<and> \<not> gr_accepted r),
       ds_active = number (\<lambda>r. live r \<and> unexpired_at close r \<and> gr_accepted r),
       ds_expired = number (\<lambda>r. live r \<and> \<not> unexpired_at close r),
       ds_deleted = number (\<lambda>r. \<not> live r), ds_invalid = number invalid_evidence,
       ds_min_created = min_of (map gr_created_ledger generations), ds_max_last = max_of (map gr_last_ledger generations)\<rparr>)"

end
