(* ===== verification/Server_Pagination.thy ===== *)
theory Server_Pagination
  imports Server_Repository
begin

text \<open>
  The cursors of lists (\<open>apps/web/server/xcs/pagination.ts\<close>) and the pages they cut. Main results: a cursor decodes to
  the position it was made from, and the pages of a table, followed to the end, are its rows in order.
\<close>

section \<open>Cursors\<close>

definition MAX_POSTGRES_INTEGER :: int where "MAX_POSTGRES_INTEGER = 2147483647"

definition cursor_value :: "string \<Rightarrow> position \<Rightarrow> jsval" where
  "cursor_value key p = (case p of (l, i, h) \<Rightarrow>
     JObj Plain [(lit ''ledgerIndex'', jint l), (lit ''transactionIndex'', jint i), (lit key, JStr h)])"

definition encode_cursor :: "'x server_lib_scheme \<Rightarrow> string \<Rightarrow> position \<Rightarrow> jstr" where
  "encode_cursor lib key p = buffer_to_base64url lib (encode_utf8 (json_stringify lib (cursor_value key p)))"

definition bounded_integer :: "int \<Rightarrow> jsval \<Rightarrow> bool" where
  "bounded_integer high v \<longleftrightarrow> (case v of JNum (NInt n) \<Rightarrow> 0 \<le> n \<and> n \<le> high | _ \<Rightarrow> False)"

text \<open>\<open>None\<close> is the error \<open>Invalid cursor\<close>. Integers within the bounds are safe.\<close>

definition decode_cursor :: "'x server_lib_scheme \<Rightarrow> string \<Rightarrow> jstr \<Rightarrow> position option" where
  "decode_cursor lib key s =
     (case json_parse lib (buffer_to_utf8 lib (buffer_from_base64url lib s)) of
        None \<Rightarrow> None
      | Some v \<Rightarrow>
          if \<not> is_record v \<or> length (entries_of v) \<noteq> 3 \<or> \<not> bounded_integer uint32_max (get v ''ledgerIndex'') \<or>
             \<not> bounded_integer MAX_POSTGRES_INTEGER (get v ''transactionIndex'') \<or> \<not> string_that hash64 (get v key)
          then None
          else
            (case (get v ''ledgerIndex'', get v ''transactionIndex'', get v key) of
               (JNum (NInt l), JNum (NInt i), JStr h) \<Rightarrow> Some (l, i, h)
             | _ \<Rightarrow> None))"

definition encode_schema_cursor :: "'x server_lib_scheme \<Rightarrow> position \<Rightarrow> jstr" where
  "encode_schema_cursor lib = encode_cursor lib ''schemaUid''"

definition decode_schema_cursor :: "'x server_lib_scheme \<Rightarrow> jstr \<Rightarrow> position option" where
  "decode_schema_cursor lib = decode_cursor lib ''schemaUid''"

definition encode_schema_registration_cursor :: "'x server_lib_scheme \<Rightarrow> position \<Rightarrow> jstr" where
  "encode_schema_registration_cursor lib = encode_cursor lib ''transactionHash''"

definition decode_schema_registration_cursor :: "'x server_lib_scheme \<Rightarrow> jstr \<Rightarrow> position option" where
  "decode_schema_registration_cursor lib = decode_cursor lib ''transactionHash''"

text \<open>What the platform promises: \<open>Buffer\<close> reads back what it wrote, \<open>JSON.parse\<close> the text of a value.\<close>

definition buffer_laws :: "'x server_lib_scheme \<Rightarrow> bool" where
  "buffer_laws lib \<longleftrightarrow>
     (\<forall>bs. buffer_from_base64url lib (buffer_to_base64url lib bs) = bs) \<and>
     (\<forall>s. well_formed s \<longrightarrow> buffer_to_utf8 lib (encode_utf8 s) = s)"

definition stringify_parses :: "'x server_lib_scheme \<Rightarrow> jsval \<Rightarrow> bool" where
  "stringify_parses lib v \<longleftrightarrow> well_formed (json_stringify lib v) \<and> json_parse lib (json_stringify lib v) = Some v"

definition position_ok :: "position \<Rightarrow> bool" where
  "position_ok p \<longleftrightarrow> (case p of (l, i, h) \<Rightarrow> uint32_int l \<and> 0 \<le> i \<and> i \<le> MAX_POSTGRES_INTEGER \<and> hash64 h)"

definition cursor_keys :: "string set" where
  "cursor_keys = {''schemaUid'', ''transactionHash''}"

lemma decode_encode_cursor:
  assumes "buffer_laws lib" and "stringify_parses lib (cursor_value key p)" and "position_ok p" and "key \<in> cursor_keys"
  shows "decode_cursor lib key (encode_cursor lib key p) = Some p"
proof -
  have "json_parse lib (buffer_to_utf8 lib (buffer_from_base64url lib (encode_cursor lib key p))) = Some (cursor_value key p)"
    using assms(1,2) by (simp add: encode_cursor_def buffer_laws_def stringify_parses_def)
  then show ?thesis
    using assms(3,4) by (auto simp: decode_cursor_def cursor_value_def cursor_keys_def position_ok_def uint32_int_def bounded_integer_def prop_of_JObj)
qed

text \<open>A cursor a client made up is refused or is a position within the bounds of the tables.\<close>

lemma decode_cursor_bounds: "decode_cursor lib key s = Some p \<Longrightarrow> position_ok p"
  by (auto simp: decode_cursor_def position_ok_def uint32_int_def bounded_integer_def
      split: option.splits if_splits jsval.splits jnum.splits)

section \<open>Pages\<close>

lemma after_position_less: "after_position c p \<longleftrightarrow> c < p"
  by (cases c; cases p) (auto simp: after_position_def)

lemma before_position_less: "before_position c p \<longleftrightarrow> p < c"
  by (cases c; cases p) (auto simp: before_position_def)

text \<open>
  A page of rows in the order of their keys, one row more than the limit being read to see whether another page follows;
  and all pages, each from where the one before it ended.
\<close>

definition page_of :: "nat \<Rightarrow> 'a list \<Rightarrow> 'a list \<times> bool" where
  "page_of limit rows = (take limit rows, limit < length rows)"

definition rows_after :: "('a \<Rightarrow> 'k::linorder) \<Rightarrow> 'a list \<Rightarrow> 'k option \<Rightarrow> 'a list" where
  "rows_after key rows cursor = filter (\<lambda>r. case cursor of None \<Rightarrow> True | Some c \<Rightarrow> c < key r) rows"

lemma rows_after_last:
  assumes "sorted_wrt (\<lambda>r q. key r < key q) rows" and "0 < limit" and "limit < length (rows_after key rows cursor)"
  shows "rows_after key rows (Some (key (List.last (take limit (rows_after key rows cursor))))) =
    drop limit (rows_after key rows cursor)"
proof -
  let ?rows = "rows_after key rows cursor"
  let ?last = "List.last (take limit ?rows)"
  have s: "sorted_wrt (\<lambda>r q. key r < key q) ?rows" using assms(1) by (simp add: rows_after_def sorted_wrt_filter)
  have "take limit ?rows \<noteq> []" using assms(2,3) by auto
  then have last: "?last = ?rows ! (limit - 1)" using assms(2,3) by (simp add: last_conv_nth)
  have mem: "?last \<in> set ?rows" using last assms(2,3) by (simp add: nth_mem less_imp_diff_less)
  have "rows_after key rows (Some (key ?last)) = filter (\<lambda>r. key ?last < key r) ?rows"
  proof -
    have "(case cursor of None \<Rightarrow> True | Some c \<Rightarrow> c < key r) \<and> key ?last < key r \<longleftrightarrow> key ?last < key r" for r
      using mem by (auto simp: rows_after_def split: option.splits)
    then show ?thesis by (simp add: rows_after_def conj_commute)
  qed
  also have "\<dots> = filter (\<lambda>r. key ?last < key r) (take limit ?rows @ drop limit ?rows)" by simp
  also have "\<dots> = drop limit ?rows"
  proof -
    have "\<not> key ?last < key r" if r: "r \<in> set (take limit ?rows)" for r
    proof -
      obtain i where "i < length (take limit ?rows)" "r = take limit ?rows ! i" using r unfolding in_set_conv_nth by blast
      then have i: "i < limit" "i < length ?rows" "r = ?rows ! i" by simp_all
      have "key (?rows ! i) < key (?rows ! (limit - 1))" if "i < limit - 1"
        using s that assms(2,3) unfolding sorted_wrt_iff_nth_less by simp
      moreover have "i < limit - 1 \<or> i = limit - 1" using i(1) by linarith
      ultimately have "i = limit - 1 \<or> key r < key ?last" using i(3) last by auto
      then show ?thesis using i(3) last by auto
    qed
    moreover have "key ?last < key r" if r: "r \<in> set (drop limit ?rows)" for r
    proof -
      obtain i where "i < length (drop limit ?rows)" "r = drop limit ?rows ! i" using r unfolding in_set_conv_nth by blast
      then show ?thesis using s assms(2,3) last by (auto simp: sorted_wrt_iff_nth_less)
    qed
    ultimately have "filter (\<lambda>r. key ?last < key r) (take limit ?rows) = []"
        "filter (\<lambda>r. key ?last < key r) (drop limit ?rows) = drop limit ?rows"
      by (simp_all add: filter_empty_conv filter_id_conv)
    then show ?thesis by (simp only: filter_append append_Nil)
  qed
  finally show ?thesis .
qed

fun all_pages :: "('k option \<Rightarrow> 'a list \<times> 'k option) \<Rightarrow> nat \<Rightarrow> 'k option \<Rightarrow> 'a list" where
  "all_pages page 0 cursor = []"
| "all_pages page (Suc fuel) cursor =
     (let (items, further) = page cursor in items @ (case further of None \<Rightarrow> [] | Some c \<Rightarrow> all_pages page fuel (Some c)))"

definition keyset_page :: "('a \<Rightarrow> 'k::linorder) \<Rightarrow> nat \<Rightarrow> 'a list \<Rightarrow> 'k option \<Rightarrow> 'a list \<times> 'k option" where
  "keyset_page key limit rows cursor =
     (let found = take (limit + 1) (rows_after key rows cursor); items = take limit found in
      (items, if limit < length found then Some (key (List.last items)) else None))"

lemma keyset_page_eq:
  "keyset_page key limit rows cursor = (take limit (rows_after key rows cursor),
     if limit < length (rows_after key rows cursor)
     then Some (key (List.last (take limit (rows_after key rows cursor)))) else None)"
  by (simp add: keyset_page_def Let_def min_def)

lemma all_keyset_pages:
  assumes "sorted_wrt (\<lambda>r q. key r < key q) rows" and "0 < limit" and "length (rows_after key rows cursor) < fuel"
  shows "all_pages (keyset_page key limit rows) fuel cursor = rows_after key rows cursor"
  using assms(3)
proof (induction fuel arbitrary: cursor)
  case (Suc fuel)
  let ?rows = "rows_after key rows cursor"
  show ?case
  proof (cases "limit < length ?rows")
    case True
    note further = rows_after_last [OF assms(1,2) True]
    have "length (drop limit ?rows) < fuel" using Suc.prems assms(2) True by simp
    then have "all_pages (keyset_page key limit rows) fuel (Some (key (List.last (take limit ?rows)))) = drop limit ?rows"
      using Suc.IH [of "Some (key (List.last (take limit ?rows)))"] further by simp
    moreover have "keyset_page key limit rows cursor =
        (take limit ?rows, Some (key (List.last (take limit ?rows))))"
      using True by (simp add: keyset_page_eq)
    ultimately show ?thesis by simp
  next
    case False
    then have "keyset_page key limit rows cursor = (?rows, None)" by (simp add: keyset_page_eq)
    then show ?thesis by simp
  qed
qed simp

text \<open>The rows of a profile lie at different positions, so their sorting is strict.\<close>

lemma sorted_strictly: "distinct (map key rows) \<Longrightarrow> sorted_wrt (\<lambda>r q. key r < key q) (sort_key key rows)"
proof -
  assume "distinct (map key rows)"
  then have "distinct (map key (sort_key key rows))" "sorted (map key (sort_key key rows))"
    by (simp_all add: distinct_map inj_on_def)
  then have "sorted_wrt (<) (map key (sort_key key rows))" by (simp add: strict_sorted_iff)
  then show ?thesis by (simp add: sorted_wrt_map)
qed

lemma filter_sort_key: "filter P (sort_key key rows) = sort_key key (filter P rows)"
  by (simp add: filter_sort)

definition schemas_of :: "snapshot \<Rightarrow> jstr \<Rightarrow> jstr option \<Rightarrow> schema_row list" where
  "schemas_of db profile publisher = sort_key schema_position (filter (\<lambda>r.
     sc_profile r = profile \<and> (case publisher of None \<Rightarrow> True | Some p \<Rightarrow> sc_publisher r = p)) (db_schemas db))"

lemma list_schemas_rows:
  "list_schemas db profile publisher cursor limit =
     take (limit + 1) (rows_after schema_position (schemas_of db profile publisher) cursor)"
  by (simp add: list_schemas_def rows_after_def schemas_of_def filter_sort after_position_less conj_commute conj_left_commute
      cong: option.case_cong)

end
