(* ===== verification/Server_Presenters.thy ===== *)
theory Server_Presenters
  imports Server_Pagination
begin

text \<open>
  What the web server shows of a row, and what it checks before it does (\<open>apps/web/server/xcs/presenters.ts\<close> with the
  limits and patterns of \<open>http-schemas.ts\<close>). A row that fails a check is the error \<open>INDEXER_EVIDENCE_INVALID\<close>.
  Main result: a timeline that is shown is a complete run of the lifecycle that ends in the generation.
\<close>

definition CREDENTIAL_EVENT_HISTORY_LIMIT :: nat where "CREDENTIAL_EVENT_HISTORY_LIMIT = 100"
definition CREDENTIAL_GENERATION_TIMELINE_LIMIT :: nat where "CREDENTIAL_GENERATION_TIMELINE_LIMIT = 100"
definition EXACT_CREDENTIAL_EVENT_QUERY_LIMIT :: nat where "EXACT_CREDENTIAL_EVENT_QUERY_LIMIT = 2"

abbreviation invalid_indexer_evidence :: "server_error + 'a" where
  "invalid_indexer_evidence \<equiv> Inl (Indexer_Unavailable INDEXER_EVIDENCE_INVALID)"

section \<open>Networks, schemas and generations\<close>

definition public_network :: "profile_row \<Rightarrow> jsval" where
  "public_network row = JObj Plain
     [(lit ''profileId'', JStr (np_id row)), (lit ''xcsVersion'', JStr (np_version row)),
      (lit ''networkId'', jint (np_network_id row)), (lit ''requiredAmendment'', JStr (np_amendment row)),
      (lit ''registryAddress'', JStr (np_registry row)), (lit ''registrationAmountDrops'', JStr (int_str (np_drops row))),
      (lit ''activationLedgerIndex'', jint (np_activation_index row)), (lit ''activationLedgerHash'', JStr (np_activation_hash row))]"

definition public_schema_summary :: "stored_schema \<Rightarrow> jsval" where
  "public_schema_summary row = JObj Plain
     [(lit ''schemaUid'', JStr (xs_uid row)), (lit ''publisher'', JStr (xs_publisher row)), (lit ''name'', JStr (xs_name row)),
      (lit ''description'', JStr (xs_description row)), (lit ''parentUid'', optional_text (xs_parent row)),
      (lit ''supersedesUid'', optional_text (xs_supersedes row)), (lit ''registrationTransactionHash'', JStr (xs_hash row)),
      (lit ''ledgerIndex'', jint (xs_ledger row)), (lit ''transactionIndex'', jint (xs_index row))]"

text \<open>The columns of a generation that are shown are all but the profile.\<close>

definition public_credential_generation ::
  "'x core_lib_scheme \<Rightarrow> generation_row \<Rightarrow> generation_expectation \<Rightarrow> server_error + generation_row" where
  "public_credential_generation lib g expected =
     rbind (assert_credential_generation_evidence lib g expected) (\<lambda>_. Inr g)"

section \<open>Discovery\<close>

definition ordered_bounds :: "nat \<Rightarrow> int option \<Rightarrow> int option \<Rightarrow> bool" where
  "ordered_bounds amount low high \<longleftrightarrow>
     (case (low, high) of
        (None, None) \<Rightarrow> amount = 0
      | (Some l, Some h) \<Rightarrow> amount \<noteq> 0 \<and> \<bar>l\<bar> \<le> MAX_SAFE_INTEGER \<and> \<bar>h\<bar> \<le> MAX_SAFE_INTEGER \<and> l \<le> h
      | _ \<Rightarrow> False)"

definition stats_counts :: "discovery_stats \<Rightarrow> nat list" where
  "stats_counts s =
     [ds_schemas s, ds_publishers s, ds_total s, ds_pending s, ds_active s, ds_expired s, ds_deleted s, ds_invalid s]"

definition public_discovery_stats :: "discovery_stats \<Rightarrow> server_error + discovery_stats \<times> int list" where
  "public_discovery_stats s =
     (if \<not> list_all (\<lambda>n. int n \<le> MAX_SAFE_INTEGER) (stats_counts s) \<or> ds_schemas s < ds_publishers s \<or> ds_invalid s \<noteq> 0 \<or>
        ds_pending s + ds_active s + ds_expired s + ds_deleted s \<noteq> ds_total s \<or>
        \<not> ordered_bounds (ds_schemas s) (ds_min_schema s) (ds_max_schema s) \<or>
        \<not> ordered_bounds (ds_total s) (ds_min_created s) (ds_max_last s)
      then invalid_indexer_evidence
      else Inr (s, List.map_filter (\<lambda>v. v) [ds_min_schema s, ds_max_schema s, ds_min_created s, ds_max_last s]))"

section \<open>Events\<close>

record event_expectation =
  ex_hash :: jstr
  ex_issuer :: jstr
  ex_subject :: jstr
  ex_schema_uid :: jstr
  ex_activation :: int
  ex_generation :: "jstr option"
  ex_ledger :: "int option"
  ex_ledger_hash :: "jstr option"
  ex_index :: "int option"

definition expects :: "'a option \<Rightarrow> 'a \<Rightarrow> bool" where
  "expects e v \<longleftrightarrow> (case e of None \<Rightarrow> True | Some x \<Rightarrow> v = x)"

definition event_coordinates_ok :: "'x core_lib_scheme \<Rightarrow> int \<Rightarrow> event_row \<Rightarrow> bool" where
  "event_coordinates_ok lib activation r \<longleftrightarrow>
     hash64 (ce_hash r) \<and> hash64 (ce_generation r) \<and> hash64 (ce_object_id r) \<and> hash64 (ce_ledger_hash r) \<and>
     hash64 (ce_schema_uid r) \<and> is_valid_classic_address lib (ce_issuer r) \<and> is_valid_classic_address lib (ce_subject r) \<and>
     int (ce_node_index r) \<le> MAX_NODE_INDEX \<and> activation \<le> ce_ledger_index r \<and> ce_ledger_index r \<le> uint32_max \<and>
     0 \<le> ce_index r \<and> ce_index r \<le> MAX_NODE_INDEX"

definition event_type_ok :: "event_row \<Rightarrow> bool" where
  "event_type_ok r \<longleftrightarrow>
     null_or hex_bytes (ce_uri_hex r) \<and> null_or uint32_int (ce_expiration r) \<and>
     (ce_type r = event_type.Deleted \<longleftrightarrow> ce_cause r \<noteq> None) \<and>
     (ce_type r = Created \<longrightarrow> ce_generation r = ce_hash r \<and> ce_accepted r = (ce_issuer r = ce_subject r)) \<and>
     (ce_type r = Accepted \<longrightarrow> ce_accepted r)"

definition event_expected :: "event_expectation \<Rightarrow> event_row \<Rightarrow> bool" where
  "event_expected e r \<longleftrightarrow>
     ce_hash r = ex_hash e \<and> same_tuple r (ex_issuer e) (ex_subject e) (ex_schema_uid e) \<and>
     expects (ex_generation e) (ce_generation r) \<and> expects (ex_ledger e) (ce_ledger_index r) \<and>
     expects (ex_ledger_hash e) (ce_ledger_hash r) \<and> expects (ex_index e) (ce_index r)"

text \<open>The columns that are shown are all but the object id, the URI, the expiration and the snapshot.\<close>

definition public_credential_event ::
  "'x core_lib_scheme \<Rightarrow> event_row \<Rightarrow> event_expectation \<Rightarrow> server_error + event_row" where
  "public_credential_event lib r expected =
     (if event_expected expected r \<and> event_coordinates_ok lib (ex_activation expected) r \<and> event_type_ok r then Inr r
      else invalid_indexer_evidence)"

section \<open>Registrations\<close>

record public_registration =
  pr_status :: bool
  pr_publisher :: jstr
  pr_ledger :: int
  pr_ledger_hash :: jstr
  pr_index :: int
  pr_uid :: "jstr option"
  pr_digest :: "jstr option"
  pr_reason :: "reason option"

text \<open>The pattern \<open>[A-Z][A-Z0-9_]{0,127}\<close>; the names of the codes of the protocol match it.\<close>

definition reason_shown :: "reason \<Rightarrow> bool" where
  "reason_shown r \<longleftrightarrow>
     (case r of Envelope_Reason s \<Rightarrow> (case lit s of [] \<Rightarrow> False | c # _ \<Rightarrow> is_upper c \<and> reason_code (lit s)) | _ \<Rightarrow> True)"

definition registration_shape_ok :: "'x core_lib_scheme \<Rightarrow> profile_row \<Rightarrow> jstr \<Rightarrow> schema_event_row \<Rightarrow> bool" where
  "registration_shape_ok lib network hash r \<longleftrightarrow>
     se_hash r = hash \<and> is_valid_classic_address lib (se_publisher r) \<and> np_activation_index network \<le> se_ledger_index r \<and>
     se_ledger_index r \<le> uint32_max \<and> hash64 (se_ledger_hash r) \<and> 0 \<le> se_index r"

definition accepted_registration ::
  "'x core_lib_scheme \<Rightarrow> profile_row \<Rightarrow> schema_event_row \<Rightarrow> jsval \<Rightarrow> cerr + jstr \<times> jstr" where
  "accepted_registration lib network r memo =
     rbind (canonical_json lib memo) (\<lambda>canonical_memo.
     rbind (parse_schema memo) (\<lambda>schema.
     rbind (compute_schema_uid lib
         \<lparr>uid_network_id = NInt (np_network_id network), uid_ledger_hash = se_ledger_hash r,
          uid_ledger_index = NInt (se_ledger_index r), uid_transaction_index = NInt (se_index r),
          uid_publisher = se_publisher r, uid_schema = schema_value schema\<rparr>) (\<lambda>uid.
     Inr (uid, sha256_hex lib (encode_utf8 canonical_memo)))))"

definition public_schema_registration ::
  "'x core_lib_scheme \<Rightarrow> schema_event_row \<Rightarrow> profile_row \<Rightarrow> jstr \<Rightarrow> server_error + public_registration" where
  "public_schema_registration lib r network hash =
     (if \<not> registration_shape_ok lib network hash r then invalid_indexer_evidence
      else
        let shown = \<lparr>pr_status = se_accepted r, pr_publisher = se_publisher r, pr_ledger = se_ledger_index r,
              pr_ledger_hash = se_ledger_hash r, pr_index = se_index r, pr_uid = None, pr_digest = None, pr_reason = None\<rparr>
        in
        if se_accepted r then
          (case (se_uid r, se_reason r, se_memo r) of
             (Some uid, None, Some memo) \<Rightarrow>
               if \<not> hash64 uid \<or> memo = JNull then invalid_indexer_evidence
               else
                 (case accepted_registration lib network r memo of
                    Inr (computed, digest) \<Rightarrow>
                      if computed \<noteq> uid then invalid_indexer_evidence
                      else Inr (shown\<lparr>pr_uid := Some uid, pr_digest := Some digest\<rparr>)
                  | Inl _ \<Rightarrow> invalid_indexer_evidence)
           | _ \<Rightarrow> invalid_indexer_evidence)
        else
          (case (se_uid r, se_reason r) of
             (None, Some reason) \<Rightarrow>
               if reason_shown reason then Inr (shown\<lparr>pr_reason := Some reason\<rparr>) else invalid_indexer_evidence
           | _ \<Rightarrow> invalid_indexer_evidence))"

section \<open>Transactions\<close>

record public_transaction =
  pt_hash :: jstr
  pt_ledger :: int
  pt_ledger_hash :: jstr
  pt_index :: int
  pt_registration :: "public_registration option"
  pt_count :: nat

definition optionally :: "('a \<Rightarrow> 'e + 'b) \<Rightarrow> 'a option \<Rightarrow> 'e + 'b option" where
  "optionally f v = (case v of None \<Rightarrow> Inr None | Some x \<Rightarrow> rbind (f x) (\<lambda>y. Inr (Some y)))"

definition public_transaction_projection ::
  "'x core_lib_scheme \<Rightarrow> transaction_summary \<Rightarrow> profile_row \<Rightarrow> jstr \<Rightarrow> server_error + public_transaction option" where
  "public_transaction_projection lib s network hash =
     (if MAX_SAFE_INTEGER < int (ts_count s) \<or> (ts_count s = 0) \<noteq> (ts_first s = None) then invalid_indexer_evidence
      else
        rbind (optionally (\<lambda>r. public_schema_registration lib r network hash) (ts_registration s)) (\<lambda>registration.
        rbind (optionally (\<lambda>r. public_credential_event lib r
            \<lparr>ex_hash = hash, ex_issuer = ce_issuer r, ex_subject = ce_subject r, ex_schema_uid = ce_schema_uid r,
             ex_activation = np_activation_index network, ex_generation = None, ex_ledger = None, ex_ledger_hash = None,
             ex_index = None\<rparr>) (ts_first s)) (\<lambda>first.
        let shown = (\<lambda>ledger ledger_hash index. Inr (Some
              \<lparr>pt_hash = hash, pt_ledger = ledger, pt_ledger_hash = ledger_hash, pt_index = index,
               pt_registration = registration, pt_count = ts_count s\<rparr>))
        in
        case (registration, first) of
          (None, None) \<Rightarrow> Inr None
        | (Some r, None) \<Rightarrow> shown (pr_ledger r) (pr_ledger_hash r) (pr_index r)
        | (None, Some e) \<Rightarrow> shown (ce_ledger_index e) (ce_ledger_hash e) (ce_index e)
        | (Some r, Some e) \<Rightarrow>
            if pr_ledger r \<noteq> ce_ledger_index e \<or> pr_ledger_hash r \<noteq> ce_ledger_hash e \<or> pr_index r \<noteq> ce_index e
            then invalid_indexer_evidence
            else shown (pr_ledger r) (pr_ledger_hash r) (pr_index r))))"

section \<open>Timelines\<close>

definition same_object :: "generation_row \<Rightarrow> event_row \<Rightarrow> bool" where
  "same_object g r \<longleftrightarrow>
     ce_object_id r = gr_object_id g \<and> ce_uri_hex r = gr_uri_hex g \<and> ce_expiration r = gr_expiration g"

definition event_before :: "event_row \<Rightarrow> event_row \<Rightarrow> bool" where
  "event_before r q \<longleftrightarrow>
     \<not> (ce_ledger_index q < ce_ledger_index r \<or>
        (ce_ledger_index q = ce_ledger_index r \<and> ce_index q < ce_index r) \<or>
        (ce_ledger_index q = ce_ledger_index r \<and> ce_index q = ce_index r \<and> ce_node_index q \<le> ce_node_index r))"

fun consecutive :: "('a \<Rightarrow> 'a \<Rightarrow> bool) \<Rightarrow> 'a list \<Rightarrow> bool" where
  "consecutive P (x # y # zs) = (P x y \<and> consecutive P (y # zs))"
| "consecutive P _ = True"

definition events_of_type :: "event_type \<Rightarrow> event_row list \<Rightarrow> event_row list" where
  "events_of_type t rows = filter (\<lambda>r. ce_type r = t) rows"

definition timeline_start_ok :: "generation_row \<Rightarrow> event_row \<Rightarrow> bool" where
  "timeline_start_ok g first \<longleftrightarrow>
     ce_type first = Created \<and> ce_hash first = gr_id g \<and> ce_ledger_index first = gr_created_ledger g \<and>
     ce_index first = gr_created_index g"

definition timeline_end_ok :: "generation_row \<Rightarrow> event_row list \<Rightarrow> event_row \<Rightarrow> bool" where
  "timeline_end_ok g deleted final \<longleftrightarrow>
     (case gr_deleted_ledger g of
        None \<Rightarrow> deleted = []
      | Some d \<Rightarrow> length deleted = 1 \<and> ce_type final = event_type.Deleted \<and> ce_ledger_index final = d \<and> ce_cause final = gr_cause g)"

definition timeline_ok :: "generation_row \<Rightarrow> event_row list \<Rightarrow> bool" where
  "timeline_ok g rows \<longleftrightarrow>
     (let accepted = events_of_type Accepted rows; deleted = events_of_type event_type.Deleted rows; first = hd rows; final = List.last rows in
      length (events_of_type Created rows) = 1 \<and> timeline_start_ok g first \<and> length accepted \<le> 1 \<and> length deleted \<le> 1 \<and>
      list_all (\<lambda>r. ce_accepted r = gr_accepted g) deleted \<and> ce_ledger_index final = gr_last_ledger g \<and>
      gr_accepted g = (ce_accepted first \<or> length accepted = 1) \<and> timeline_end_ok g deleted final)"

definition public_credential_timeline ::
  "'x core_lib_scheme \<Rightarrow> event_row list \<Rightarrow> generation_row \<Rightarrow> int \<Rightarrow> server_error + event_row list" where
  "public_credential_timeline lib rows g activation =
     (if rows = [] \<or> CREDENTIAL_GENERATION_TIMELINE_LIMIT < length rows then invalid_indexer_evidence
      else
        rbind (traverse (\<lambda>r. public_credential_event lib r
            \<lparr>ex_hash = ce_hash r, ex_issuer = gr_issuer g, ex_subject = gr_subject g, ex_schema_uid = gr_schema_uid g,
             ex_activation = activation, ex_generation = Some (gr_id g), ex_ledger = None, ex_ledger_hash = None,
             ex_index = None\<rparr>) rows) (\<lambda>items.
        if \<not> list_all (same_object g) rows \<or> \<not> consecutive event_before rows then invalid_indexer_evidence
        else if \<not> timeline_ok g rows then invalid_indexer_evidence
        else Inr items))"

end
