(* ===== verification/Server_Timelines.thy ===== *)
theory Server_Timelines
  imports Server_Presenters Indexer_Machine
begin

text \<open>
  The timelines the indexer writes are those the web server shows: what \<open>publicCredentialTimeline\<close> accepts is a run of
  the lifecycle of one credential, and what \<open>persistLedger\<close> writes of a ledger whose mutations are such runs is accepted.
\<close>

section \<open>Runs of the lifecycle\<close>

text \<open>Whether the credential is accepted, and the ledger and cause of its deletion.\<close>

type_synonym run_state = "bool \<times> (int \<times> deletion_cause option) option"

fun run_event :: "event_row \<Rightarrow> run_state option \<Rightarrow> unit + run_state option" where
  "run_event r None = (if ce_type r = Created then Inr (Some (ce_accepted r, None)) else Inl ())"
| "run_event r (Some (acc, None)) =
     (case ce_type r of
        Created \<Rightarrow> Inl ()
      | Accepted \<Rightarrow> Inr (Some (True, None))
      | event_type.Deleted \<Rightarrow> if ce_accepted r = acc then Inr (Some (acc, Some (ce_ledger_index r, ce_cause r))) else Inl ())"
| "run_event r (Some (acc, Some d)) = Inl ()"

definition run_events :: "event_row list \<Rightarrow> unit + run_state option" where
  "run_events rows = fold_res run_event rows None"

definition final_state :: "generation_row \<Rightarrow> run_state" where
  "final_state g = (gr_accepted g, map_option (\<lambda>d. (d, gr_cause g)) (gr_deleted_ledger g))"

lemma events_of_type_simps [simp]:
  "events_of_type t [] = []"
  "events_of_type t (r # rows) = (if ce_type r = t then [r] else []) @ events_of_type t rows"
  "events_of_type t (xs @ ys) = events_of_type t xs @ events_of_type t ys"
  by (simp_all add: events_of_type_def)

lemma events_of_type_length:
  "length rows = length (events_of_type Created rows) + length (events_of_type Accepted rows) +
     length (events_of_type event_type.Deleted rows)"
proof (induction rows)
  case (Cons r rows)
  then show ?case by (cases "ce_type r") simp_all
qed simp

lemma timeline_okD:
  assumes "timeline_ok g rows"
  shows "length (events_of_type Created rows) = 1" "timeline_start_ok g (hd rows)" "length (events_of_type Accepted rows) \<le> 1"
    "length (events_of_type event_type.Deleted rows) \<le> 1" "ce_ledger_index (List.last rows) = gr_last_ledger g"
    "list_all (\<lambda>r. ce_accepted r = gr_accepted g) (events_of_type event_type.Deleted rows)"
    "gr_accepted g = (ce_accepted (hd rows) \<or> length (events_of_type Accepted rows) = 1)"
    "timeline_end_ok g (events_of_type event_type.Deleted rows) (List.last rows)"
  using assms unfolding timeline_ok_def Let_def by blast+

text \<open>The four forms of a timeline.\<close>

lemma timeline_forms:
  assumes "rows \<noteq> []" and "timeline_ok g rows"
  shows "map ce_type rows \<in> {[Created], [Created, Accepted], [Created, event_type.Deleted], [Created, Accepted, event_type.Deleted]} \<and>
    (gr_deleted_ledger g \<noteq> None \<longleftrightarrow> ce_type (List.last rows) = event_type.Deleted)"
proof -
  obtain c rest where rows: "rows = c # rest" using assms(1) by (cases rows) auto
  note t = timeline_okD(1-4) [OF assms(2)] and e = timeline_okD(8) [OF assms(2)]
  have c: "ce_type c = Created" using t(2) by (simp add: timeline_start_ok_def rows)
  have "length rest \<le> 2" using t c events_of_type_length [of rows] by (simp add: rows)
  then consider "rest = []" | x where "rest = [x]" | x y where "rest = [x, y]"
    by (cases rest; cases "tl rest") (auto simp: Suc_le_eq numeral_2_eq_2)
  then show ?thesis
  proof cases
    case 1
    then show ?thesis using t c e by (auto simp: rows timeline_end_ok_def split: option.splits)
  next
    case 2
    then show ?thesis using t c e by (cases "ce_type x") (auto simp: rows timeline_end_ok_def split: option.splits)
  next
    case 3
    then show ?thesis
      using t c e by (cases "ce_type x"; cases "ce_type y") (auto simp: rows timeline_end_ok_def split: option.splits)
  qed
qed

lemma timeline_runs:
  assumes "rows \<noteq> []" and "timeline_ok g rows"
  shows "run_events rows = Inr (Some (final_state g))"
proof -
  note forms = timeline_forms [OF assms]
  note t = timeline_okD(6-8) [OF assms(2)]
  from forms consider c where "rows = [c]" "ce_type c = Created" | c a where "rows = [c, a]" "ce_type c = Created" "ce_type a = Accepted"
    | c d where "rows = [c, d]" "ce_type c = Created" "ce_type d = event_type.Deleted"
    | c a d where "rows = [c, a, d]" "ce_type c = Created" "ce_type a = Accepted" "ce_type d = event_type.Deleted"
    by (auto simp: map_eq_Cons_conv)
  then show ?thesis
    by cases (use t in \<open>auto simp: run_events_def final_state_def timeline_end_ok_def split: option.splits\<close>)
qed

section \<open>What is shown\<close>

lemma event_before_position: "event_before r q \<longleftrightarrow> event_position r < event_position q"
  by (auto simp: event_before_def event_position_def)

lemma consecutive_sorted:
  assumes "\<And>x y z. P x y \<Longrightarrow> P y z \<Longrightarrow> P x z"
  shows "consecutive P rows = sorted_wrt P rows"
proof (induction rows)
  case (Cons x rows)
  then show ?case by (cases rows) (auto intro: assms)
qed simp

lemma consecutive_events: "consecutive event_before rows = sorted_wrt (\<lambda>r q. event_position r < event_position q) rows"
  unfolding event_before_position by (rule consecutive_sorted) simp

definition event_shown :: "'x core_lib_scheme \<Rightarrow> int \<Rightarrow> generation_row \<Rightarrow> event_row \<Rightarrow> bool" where
  "event_shown lib activation g r \<longleftrightarrow>
     same_tuple r (gr_issuer g) (gr_subject g) (gr_schema_uid g) \<and> ce_generation r = gr_id g \<and>
     event_coordinates_ok lib activation r \<and> event_type_ok r \<and> same_object g r"

lemma public_timeline_iff:
  "public_credential_timeline lib rows g activation = Inr items \<longleftrightarrow>
     items = rows \<and> rows \<noteq> [] \<and> length rows \<le> 100 \<and> list_all (event_shown lib activation g) rows \<and>
     sorted_wrt (\<lambda>r q. event_position r < event_position q) rows \<and> timeline_ok g rows"
proof -
  let ?show = "\<lambda>r. public_credential_event lib r
      \<lparr>ex_hash = ce_hash r, ex_issuer = gr_issuer g, ex_subject = gr_subject g, ex_schema_uid = gr_schema_uid g,
       ex_activation = activation, ex_generation = Some (gr_id g), ex_ledger = None, ex_ledger_hash = None, ex_index = None\<rparr>"
  have one: "?show r = Inr x \<longleftrightarrow> x = r \<and> same_tuple r (gr_issuer g) (gr_subject g) (gr_schema_uid g) \<and>
      ce_generation r = gr_id g \<and> event_coordinates_ok lib activation r \<and> event_type_ok r" for r x
    by (auto simp: public_credential_event_def event_expected_def expects_def)
  have "traverse ?show rows = Inr xs \<longleftrightarrow> xs = rows \<and> list_all (\<lambda>r. same_tuple r (gr_issuer g) (gr_subject g) (gr_schema_uid g) \<and>
      ce_generation r = gr_id g \<and> event_coordinates_ok lib activation r \<and> event_type_ok r) rows" for xs
    unfolding traverse_eq_Inr one by (induction rows arbitrary: xs) (auto simp: list_all2_Cons1)
  then show ?thesis
    unfolding public_credential_timeline_def CREDENTIAL_GENERATION_TIMELINE_LIMIT_def consecutive_events
    by (auto simp: res_simps event_shown_def list_all_iff)
qed

text \<open>A timeline has at most three events, so the bound of the query cuts none.\<close>

lemma timeline_short: "rows \<noteq> [] \<Longrightarrow> timeline_ok g rows \<Longrightarrow> length rows \<le> 3"
proof -
  assume "rows \<noteq> []" "timeline_ok g rows"
  then have "length (map ce_type rows) \<le> 3" using timeline_forms [of rows g] by auto
  then show ?thesis by simp
qed


section \<open>What the indexer writes\<close>

text \<open>
  The credentials on the ledger: an object holds its issuer, subject, schema, URI, expiration and whether it is accepted.
  It is created unaccepted unless it is self-issued, is accepted at most once, and its other fields never change.
\<close>

type_synonym ledger_object = "jstr \<times> jstr \<times> jstr \<times> jstr option \<times> int option \<times> bool"

definition content_of_row :: "generation_row \<Rightarrow> ledger_object" where
  "content_of_row g = (gr_issuer g, gr_subject g, gr_schema_uid g, gr_uri_hex g, gr_expiration g, gr_accepted g)"

definition content_of_mutation :: "credential_mutation \<Rightarrow> ledger_object" where
  "content_of_mutation m = (cm_issuer m, cm_subject m, cm_schema_uid m, cm_uri_hex m, cm_expiration m, cm_accepted m)"

definition accepted_object :: "ledger_object \<Rightarrow> ledger_object" where
  "accepted_object c = (case c of (i, s, u, h, e, a) \<Rightarrow> (i, s, u, h, e, True))"

definition object_step :: "credential_mutation \<Rightarrow> (jstr \<Rightarrow> ledger_object option) \<Rightarrow> unit + (jstr \<Rightarrow> ledger_object option)" where
  "object_step m Obj =
     (let c = content_of_mutation m in
      case (cm_event m, Obj (cm_object_id m)) of
        (Created, None) \<Rightarrow>
          if cm_accepted m = (cm_issuer m = cm_subject m) then Inr (Obj(cm_object_id m \<mapsto> c)) else Inl ()
      | (Accepted, Some b) \<Rightarrow>
          if b \<noteq> accepted_object b \<and> c = accepted_object b then Inr (Obj(cm_object_id m \<mapsto> c)) else Inl ()
      | (event_type.Deleted, Some b) \<Rightarrow> if c = b then Inr (Obj(cm_object_id m := None)) else Inl ()
      | _ \<Rightarrow> Inl ())"

lemma object_step_created:
  "cm_event m = Created \<Longrightarrow> object_step m Obj = Inr Obj' \<longleftrightarrow> Obj (cm_object_id m) = None \<and>
     cm_accepted m = (cm_issuer m = cm_subject m) \<and> Obj' = Obj(cm_object_id m \<mapsto> content_of_mutation m)"
  by (auto simp: object_step_def Let_def split: option.splits if_splits)

lemma object_step_changed:
  "cm_event m \<noteq> Created \<Longrightarrow> object_step m Obj = Inr Obj' \<longleftrightarrow> (\<exists>b. Obj (cm_object_id m) = Some b \<and>
     (if cm_event m = Accepted
      then b \<noteq> accepted_object b \<and> content_of_mutation m = accepted_object b \<and> Obj' = Obj(cm_object_id m \<mapsto> accepted_object b)
      else content_of_mutation m = b \<and> Obj' = Obj(cm_object_id m := None)))"
  by (cases "cm_event m") (auto simp: object_step_def Let_def split: option.splits if_splits)

definition objects_of :: "database \<Rightarrow> jstr \<Rightarrow> jstr \<Rightarrow> ledger_object option" where
  "objects_of db profile obj = map_option content_of_row (live_generation db profile obj)"

definition timeline :: "database \<Rightarrow> generation_row \<Rightarrow> event_row list" where
  "timeline db g = filter (\<lambda>e. ce_profile e = gr_profile g \<and> ce_generation e = gr_id g) (db_events db)"

definition generation_shown :: "'x core_lib_scheme \<Rightarrow> int \<Rightarrow> database \<Rightarrow> generation_row \<Rightarrow> bool" where
  "generation_shown lib activation db g \<longleftrightarrow>
     public_credential_timeline lib (timeline db g) g activation = Inr (timeline db g)"

definition histories_ok :: "'x core_lib_scheme \<Rightarrow> jstr \<Rightarrow> int \<Rightarrow> database \<Rightarrow> bool" where
  "histories_ok lib profile activation db \<longleftrightarrow>
     (\<forall>g \<in> set (db_generations db). gr_profile g = profile \<longrightarrow> generation_shown lib activation db g)"

lemma generation_shown_iff:
  "generation_shown lib activation db g \<longleftrightarrow> timeline db g \<noteq> [] \<and> list_all (event_shown lib activation g) (timeline db g) \<and>
     sorted_wrt (\<lambda>r q. event_position r < event_position q) (timeline db g) \<and> timeline_ok g (timeline db g)"
  unfolding generation_shown_def public_timeline_iff using timeline_short [of "timeline db g" g] by auto

definition mutation_position :: "validated_ledger \<Rightarrow> credential_mutation \<Rightarrow> int \<times> int \<times> nat" where
  "mutation_position ledger m = (vl_index ledger, cm_index m, cm_node_index m)"

text \<open>A transaction is at one place of the ledger; \<open>place\<close> tells it from the hash.\<close>

definition events_placed :: "(jstr \<Rightarrow> int \<times> int) \<Rightarrow> database \<Rightarrow> jstr \<Rightarrow> bool" where
  "events_placed place db profile \<longleftrightarrow>
     (\<forall>e \<in> set (db_events db). ce_profile e = profile \<longrightarrow> place (ce_hash e) = (ce_ledger_index e, ce_index e))"

definition events_before :: "int \<times> int \<times> nat \<Rightarrow> database \<Rightarrow> jstr \<Rightarrow> bool" where
  "events_before p db profile \<longleftrightarrow> (\<forall>e \<in> set (db_events db). ce_profile e = profile \<longrightarrow> event_position e < p)"

lemma lower_hex_back: "is_lower_hex (lower_cu c) \<Longrightarrow> is_hex c"
  by (auto simp: class_unat lower_cu_unat split: if_splits)

lemma hex_bytes_decoded:
  assumes "hex_laws lib" and "decode_hex_utf8 lib hex = Inr uri"
  shows "hex_bytes hex"
proof -
  obtain bs where bs: "hex_to_bytes lib hex = Some bs"
    using assms(2) by (auto simp: decode_hex_utf8_def split: option.splits)
  have low: "bytes_to_hex lib bs = to_lower hex" "length (bytes_to_hex lib bs) = 2 * length bs"
    "list_all is_lower_hex (bytes_to_hex lib bs)"
    using assms(1) bs unfolding hex_laws_def by blast+
  have "even (length hex)" using low(1,2) by (metis dvd_triv_left length_to_lower)
  moreover have "list_all is_hex hex" using low(1,3) lower_hex_back by (simp add: to_lower_def list_all_iff)
  ultimately show ?thesis by (simp add: hex_bytes_def)
qed

text \<open>The row of an event is inserted, since no event is at its place.\<close>

lemma event_inserted:
  assumes "insert_credential_event (event_row_of_mutation profile ledger m g) db = Inr db'"
    and "events_before (mutation_position ledger m) db profile" and "events_placed place db profile"
    and "place (cm_hash m) = (vl_index ledger, cm_index m)"
  shows "db_events db' = db_events db @ [event_row_of_mutation profile ledger m g] \<and> db_generations db' = db_generations db \<and>
    event_row_ok (event_row_of_mutation profile ledger m g) \<and> has_generation db profile g"
proof -
  let ?e = "event_row_of_mutation profile ledger m g"
  have "\<not> same_event ?e r" if "r \<in> set (db_events db)" for r
  proof
    assume "same_event ?e r"
    then have "ce_profile r = profile" "ce_hash r = cm_hash m" "ce_node_index r = cm_node_index m"
      by (auto simp: same_event_def event_row_of_mutation_def)
    then have "event_position r = mutation_position ledger m"
      using assms(3,4) that by (auto simp: events_placed_def event_position_def mutation_position_def)
    then show False using assms(2) that \<open>ce_profile r = profile\<close> by (auto simp: events_before_def)
  qed
  then have "\<not> list_ex (same_event ?e) (db_events db)" by (simp add: list_ex_iff)
  then show ?thesis
    using assms(1) by (auto simp: insert_credential_event_def insert_or_skip_def insert_row_def res_simps split: if_splits)
      (simp add: event_row_of_mutation_def)
qed


lemma event_row_shown:
  assumes "event_row_ok (event_row_of_mutation profile ledger m (gr_id g))" and "mutation_ok lib m" and "hex_laws lib"
    and "activation \<le> vl_index ledger" and "hash64 (gr_id g)"
    and "content_of_mutation m = (gr_issuer g, gr_subject g, gr_schema_uid g, gr_uri_hex g, gr_expiration g, a)"
    and "gr_object_id g = cm_object_id m"
    and "cm_event m = Created \<Longrightarrow> gr_id g = cm_hash m \<and> cm_accepted m = (cm_issuer m = cm_subject m)"
  shows "event_shown lib activation g (event_row_of_mutation profile ledger m (gr_id g))"
proof -
  obtain hex uri where hex: "cm_uri_hex m = Some hex" "decode_hex_utf8 lib hex = Inr uri"
    using assms(2) by (auto simp: mutation_ok_def)
  have h: "hex_bytes hex" using assms(3) hex(2) by (rule hex_bytes_decoded)
  have c: "cm_issuer m = gr_issuer g" "cm_subject m = gr_subject g" "cm_schema_uid m = gr_schema_uid g"
    "cm_uri_hex m = gr_uri_hex g" "cm_expiration m = gr_expiration g"
    using assms(6) by (simp_all add: content_of_mutation_def)
  have coords: "event_coordinates_ok lib activation (event_row_of_mutation profile ledger m (gr_id g))"
    using assms(1,2,4,5) by (simp add: event_coordinates_ok_def event_row_ok_def event_row_of_mutation_def mutation_ok_def
        MAX_NODE_INDEX_def int4_range_def uint32_range_def uint32_max_def)
  have types: "event_type_ok (event_row_of_mutation profile ledger m (gr_id g))"
    using assms(2,8) h hex(1) unfolding event_type_ok_def mutation_ok_def event_row_of_mutation_def uint32_int_def by auto
  show ?thesis
    using coords types c assms(7) by (simp add: event_shown_def event_row_of_mutation_def same_tuple_def same_object_def)
qed

lemma timeline_created:
  assumes "g = generation_row_of profile ledger m" and "e = event_row_of_mutation profile ledger m (cm_hash m)" and "cm_event m = Created"
  shows "timeline_ok g [e]"
  using assms(3) by (simp add: timeline_ok_def timeline_start_ok_def timeline_end_ok_def assms(1,2) generation_row_of_def event_row_of_mutation_def)

lemma timeline_changed:
  assumes "timeline_ok q rows" and "rows \<noteq> []" and "live q" and "cm_event m \<noteq> Created"
    and "if cm_event m = Accepted then \<not> gr_accepted q \<and> cm_accepted m else cm_accepted m = gr_accepted q"
  shows "timeline_ok (changed_generation ledger m q) (rows @ [event_row_of_mutation profile ledger m g])"
proof -
  note t = timeline_okD [OF assms(1)]
  have none: "events_of_type event_type.Deleted rows = []"
    using t(8) assms(3) by (simp add: timeline_end_ok_def live_def)
  show ?thesis
  proof (cases "cm_event m = Accepted")
    case True
    then have "events_of_type Accepted rows = []" using t(3,7) assms(5) by (cases "events_of_type Accepted rows") auto
    then show ?thesis
      using t(1,2) none assms(2,3,5) True unfolding timeline_ok_def Let_def
      by (simp add: timeline_start_ok_def timeline_end_ok_def changed_generation_def accept_generation_def live_def
          event_row_of_mutation_def)
  next
    case False
    then have d: "cm_event m = event_type.Deleted" using assms(4) by (cases "cm_event m") auto
    show ?thesis
      using t(1-3,7) none assms(2,5) False d unfolding timeline_ok_def Let_def
      by (simp add: timeline_start_ok_def timeline_end_ok_def changed_generation_def delete_generation_def
          event_row_of_mutation_def)
  qed
qed

lemma mutation_keeps_histories:
  assumes "database_ok db" and "objects_ok key db" and "mutation_keyed key m" and "mutation_ok lib m" and "hex_laws lib"
    and "persist_credential_mutation profile ledger m db = Inr db'" and "histories_ok lib profile activation db"
    and "activation \<le> vl_index ledger" and "events_before (mutation_position ledger m) db profile"
    and "events_placed place db profile" and "place (cm_hash m) = (vl_index ledger, cm_index m)"
    and "object_step m (objects_of db profile) = Inr Obj"
  shows "histories_ok lib profile activation db' \<and> objects_of db' profile = Obj \<and> events_placed place db' profile \<and>
    (\<forall>p. mutation_position ledger m < p \<longrightarrow> events_before p db' profile)"
proof -
  obtain g db1 where gen: "persist_generation profile ledger m db = Inr (g, db1)"
    and ins: "insert_credential_event (event_row_of_mutation profile ledger m g) db1 = Inr db'"
    using assms(6) by (auto simp: persist_credential_mutation_def res_simps)
  let ?e = "event_row_of_mutation profile ledger m g"
  have same: "db_events db1 = db_events db"
    using gen by (auto simp: persist_generation_def insert_generation_def update_generation_def res_simps split: if_splits option.splits)
  have ev: "db_events db' = db_events db @ [?e]" "db_generations db' = db_generations db1" "event_row_ok ?e"
    using event_inserted [where place = place, OF ins] assms(9-11) same by (simp_all add: events_before_def events_placed_def)
  have pos: "event_position ?e = mutation_position ledger m" "ce_profile ?e = profile" "ce_generation ?e = g" "ce_hash ?e = cm_hash m"
    by (simp_all add: event_position_def mutation_position_def event_row_of_mutation_def)
  have placed: "events_placed place db' profile"
    using assms(10,11) by (auto simp: events_placed_def ev(1)) (simp add: event_row_of_mutation_def)
  have before: "\<forall>p. mutation_position ledger m < p \<longrightarrow> events_before p db' profile"
    using assms(9) pos by (auto simp: events_before_def ev(1))
  have line: "timeline db' r = timeline db r @ (if gr_profile r = profile \<and> gr_id r = g then [?e] else [])" for r
    using pos by (auto simp: timeline_def ev(1))
  have ok1: "database_ok db1" using persist_generation_ok [OF assms(1) gen] .
  have other: "generation_shown lib activation db' r" if "r \<in> set (db_generations db)" "gr_profile r = profile" "gr_id r \<noteq> g" for r
    using assms(7) that by (simp add: histories_ok_def generation_shown_def line)
  show ?thesis
  proof (cases "cm_event m = Created")
    case True
    let ?row = "generation_row_of profile ledger m"
    have c: "g = cm_hash m" "db_generations db1 = db_generations db @ [?row]" "\<not> list_ex (same_generation ?row) (db_generations db)"
      "live_generation db profile (cm_object_id m) = None"
      "live_generation db1 profile = (live_generation db profile)(cm_object_id m \<mapsto> ?row)"
      using created_live [OF assms(1-3) True gen] by blast+
    have step: "cm_accepted m = (cm_issuer m = cm_subject m)" "Obj = (objects_of db profile)(cm_object_id m \<mapsto> content_of_mutation m)"
      using assms(12) unfolding object_step_created [OF True] by blast+
    have row: "gr_id ?row = g" "gr_profile ?row = profile" "content_of_row ?row = content_of_mutation m"
      by (simp_all add: generation_row_of_def c(1) content_of_row_def content_of_mutation_def)
    have fresh: "gr_id r \<noteq> g" if "r \<in> set (db_generations db)" "gr_profile r = profile" for r
      using c(3) that row(1,2) by (auto simp: list_ex_iff same_generation_def)
    have empty: "timeline db ?row = []"
    proof -
      have "\<not> (ce_profile x = profile \<and> ce_generation x = g)" if "x \<in> set (db_events db)" for x
        using database_okD(15) [OF assms(1)] that fresh by (auto simp: list_all_iff has_generation_def list_ex_iff)
      then show ?thesis using row(1,2) by (auto simp: timeline_def filter_empty_conv)
    qed
    have "event_shown lib activation ?row (event_row_of_mutation profile ledger m (gr_id ?row))"
    proof (rule event_row_shown [OF _ assms(4,5,8), where a = "cm_accepted m"])
      show "hash64 (gr_id ?row)"
        using generation_table.consistent_member [OF database_okD(7) [OF ok1], of ?row] by (simp add: c(2) generation_row_ok_def)
    qed (use ev(3) step(1) row c(1) in \<open>simp_all add: generation_row_of_def content_of_mutation_def\<close>)
    then have "generation_shown lib activation db' ?row"
      unfolding generation_shown_iff line using empty row timeline_created [OF refl refl True] c(1) by simp
    then have "histories_ok lib profile activation db'"
      using other fresh by (auto simp: histories_ok_def ev(2) c(2))
    moreover have "objects_of db' profile = Obj"
      using c(5) row(3) unfolding objects_of_def step(2) live_generation_def ev(2) by (auto simp: fun_eq_iff)
    ultimately show ?thesis using placed before by blast
  next
    case False
    obtain q where q: "live_generation db profile (cm_object_id m) = Some q" "g = gr_id q" "objects_ok key db1"
      "db_generations db1 = map (\<lambda>r. if r = q then changed_generation ledger m q else r) (db_generations db)"
      "live_generation db1 profile = (live_generation db profile)
         (cm_object_id m := if cm_event m = Accepted then Some (changed_generation ledger m q) else None)"
      using changed_live [OF assms(1,2) False gen] by blast
    let ?q = "changed_generation ledger m q"
    note qm = live_generation_mem [OF q(1)] and keep = changed_generation_keeps [of ledger m q]
    have b: "objects_of db profile (cm_object_id m) = Some (content_of_row q)" by (simp add: objects_of_def q(1))
    have step: "if cm_event m = Accepted
      then content_of_row q \<noteq> accepted_object (content_of_row q) \<and> content_of_mutation m = accepted_object (content_of_row q) \<and>
        Obj = (objects_of db profile)(cm_object_id m \<mapsto> accepted_object (content_of_row q))
      else content_of_mutation m = content_of_row q \<and> Obj = (objects_of db profile)(cm_object_id m := None)"
      using assms(12) unfolding object_step_changed [OF False] b by (metis option.inject)
    have fits: "if cm_event m = Accepted then \<not> gr_accepted q \<and> cm_accepted m else cm_accepted m = gr_accepted q"
      using step by (auto simp: accepted_object_def content_of_row_def content_of_mutation_def split: if_splits)
    have content: "content_of_mutation m = (gr_issuer ?q, gr_subject ?q, gr_schema_uid ?q, gr_uri_hex ?q, gr_expiration ?q, cm_accepted m)"
      using step keep by (auto simp: accepted_object_def content_of_row_def content_of_mutation_def split: if_splits)
    have shown: "timeline db q \<noteq> []" "list_all (event_shown lib activation q) (timeline db q)"
      "sorted_wrt (\<lambda>r q. event_position r < event_position q) (timeline db q)" "timeline_ok q (timeline db q)"
      using assms(7) qm unfolding histories_ok_def generation_shown_iff by blast+
    have only: "gr_id r \<noteq> g" if "r \<in> set (db_generations db)" "gr_profile r = profile" "r \<noteq> q" for r
      using generation_pk [OF assms(1) that(1)] qm that by (auto simp: q(2))
    have tl: "timeline db ?q = timeline db q" using keep by (simp add: timeline_def)
    have "event_shown lib activation ?q (event_row_of_mutation profile ledger m (gr_id ?q))"
    proof (rule event_row_shown [OF _ assms(4,5,8) _ content])
      show "hash64 (gr_id ?q)"
        using generation_table.consistent_member [OF database_okD(7) [OF assms(1)]] qm keep by (simp add: generation_row_ok_def)
    qed (use ev(3) keep q(2) qm False in simp_all)
    moreover have "list_all (event_shown lib activation ?q) (timeline db q)"
      using shown(2) keep by (simp add: list_all_iff event_shown_def same_object_def)
    moreover have "event_position x < event_position ?e" if "x \<in> set (timeline db q)" for x
      using assms(9) that qm by (auto simp: timeline_def events_before_def pos(1))
    ultimately have "generation_shown lib activation db' ?q"
      unfolding generation_shown_iff line tl
      using shown keep qm q(2) timeline_changed [OF shown(4,1) _ False fits] by (simp add: sorted_wrt_append)
    then have "histories_ok lib profile activation db'"
      using other only qm by (auto simp: histories_ok_def ev(2) q(4))
    moreover have "objects_of db' profile = Obj"
    proof -
      have "cm_event m = Accepted \<Longrightarrow> content_of_row ?q = accepted_object (content_of_row q)"
        by (simp add: content_of_row_def accepted_object_def changed_generation_def accept_generation_def)
      moreover have "objects_of db' profile = objects_of db1 profile" by (simp add: objects_of_def live_generation_def ev(2) fun_eq_iff)
      ultimately show ?thesis using step q(5) by (auto simp: objects_of_def fun_eq_iff split: if_splits)
    qed
    ultimately show ?thesis using placed before by blast
  qed
qed


section \<open>What a ledger adds\<close>

lemma mutations_keep_histories:
  assumes "fold_res (persist_credential_mutation profile ledger) ms db = Inr db'"
    and "database_ok db" "objects_ok key db" "hex_laws lib" "histories_ok lib profile activation db" "activation \<le> vl_index ledger"
    and "events_placed place db profile" and "\<forall>m \<in> set ms. events_before (mutation_position ledger m) db profile"
    and "\<forall>m \<in> set ms. mutation_keyed key m \<and> mutation_ok lib m \<and> place (cm_hash m) = (vl_index ledger, cm_index m)"
    and "sorted_wrt mutation_before ms" and "fold_res object_step ms (objects_of db profile) = Inr Obj"
  shows "histories_ok lib profile activation db' \<and> objects_of db' profile = Obj \<and> events_placed place db' profile \<and>
    objects_ok key db' \<and>
    (\<forall>e \<in> set (db_events db'). ce_profile e = profile \<longrightarrow> e \<in> set (db_events db) \<or> ce_ledger_index e = vl_index ledger)"
  using assms
proof (induction ms arbitrary: db)
  case (Cons m ms)
  obtain db1 Obj1 where step: "persist_credential_mutation profile ledger m db = Inr db1"
    and rest: "fold_res (persist_credential_mutation profile ledger) ms db1 = Inr db'"
    and obj: "object_step m (objects_of db profile) = Inr Obj1" "fold_res object_step ms Obj1 = Inr Obj"
    using Cons.prems(1,11) by (auto simp: res_simps)
  have m: "mutation_keyed key m" "mutation_ok lib m" "place (cm_hash m) = (vl_index ledger, cm_index m)"
    "events_before (mutation_position ledger m) db profile"
    using Cons.prems(8,9) by simp_all
  note kept = mutation_keeps_histories [OF Cons.prems(2,3) m(1,2) Cons.prems(4) step Cons.prems(5,6) m(4) Cons.prems(7) m(3) obj(1)]
  have ok: "database_ok db1" "objects_ok key db1"
    using persist_credential_mutation_ok [OF Cons.prems(2) step] mutation_refines [OF Cons.prems(2,3) m(1) step] by blast+
  have later: "mutation_position ledger m < mutation_position ledger n" if "n \<in> set ms" for n
    using Cons.prems(10) that by (auto simp: mutation_position_def mutation_before_def)
  have events: "\<forall>e \<in> set (db_events db1). e \<in> set (db_events db) \<or> ce_ledger_index e = vl_index ledger"
    using step by (auto simp: persist_credential_mutation_def persist_generation_def insert_generation_def update_generation_def
        insert_credential_event_def res_simps split: if_splits option.splits dest!: skip_Inr)
      (simp_all add: event_row_of_mutation_def)
  have "fold_res object_step ms (objects_of db1 profile) = Inr Obj" using kept obj(2) by simp
  moreover have "histories_ok lib profile activation db1" "events_placed place db1 profile"
    "\<forall>n \<in> set ms. events_before (mutation_position ledger n) db1 profile"
    using kept later by blast+
  moreover have "\<forall>m \<in> set ms. mutation_keyed key m \<and> mutation_ok lib m \<and> place (cm_hash m) = (vl_index ledger, cm_index m)"
    "sorted_wrt mutation_before ms" using Cons.prems(9,10) by simp_all
  ultimately have "histories_ok lib profile activation db' \<and> objects_of db' profile = Obj \<and> events_placed place db' profile \<and>
      objects_ok key db' \<and>
      (\<forall>e \<in> set (db_events db'). ce_profile e = profile \<longrightarrow> e \<in> set (db_events db1) \<or> ce_ledger_index e = vl_index ledger)"
    using Cons.prems(4,6) by (intro Cons.IH [OF rest ok])
  then show ?case using events by blast
qed simp

definition events_indexed :: "database \<Rightarrow> jstr \<Rightarrow> bool" where
  "events_indexed db profile \<longleftrightarrow> (\<forall>e \<in> set (db_events db). ce_profile e = profile \<longrightarrow>
     (\<exists>c \<in> set (profile_checkpoints db profile). ce_ledger_index e \<le> ck_index c))"

text \<open>Everything of a profile that the server relies on when it shows timelines.\<close>

definition timelines_ok ::
  "'x core_lib_scheme \<Rightarrow> object_key \<Rightarrow> (jstr \<Rightarrow> int \<times> int) \<Rightarrow> network_profile \<Rightarrow> database \<Rightarrow> bool" where
  "timelines_ok lib key place profile db \<longleftrightarrow>
     repository_ok db \<and> objects_ok key db \<and> events_placed place db (profile_id profile) \<and> events_indexed db (profile_id profile) \<and>
     histories_ok lib (profile_id profile) (activation_ledger_index profile) db"

lemma timelines_ok_unchanged:
  assumes "timelines_ok lib key place profile db" and "repository_ok db'" and "db_generations db' = db_generations db"
    "db_events db' = db_events db" "db_checkpoints db' = db_checkpoints db"
  shows "timelines_ok lib key place profile db'"
  using assms unfolding timelines_ok_def objects_ok_def events_placed_def events_indexed_def histories_ok_def
    generation_shown_def timeline_def profile_checkpoints_def by simp

lemma next_ledger:
  assumes "chains_ok db" and "profile_row_of profile \<in> set (db_profiles db)"
    and "assert_ledger_continuity profile (get_last_checkpoint db (profile_id profile)) ledger = Inr u"
  shows "activation_ledger_index profile \<le> vl_index ledger \<and>
    (\<forall>c \<in> set (profile_checkpoints db (profile_id profile)). ck_index c < vl_index ledger)"
proof -
  let ?cs = "profile_checkpoints db (profile_id profile)" and ?c = "checkpoint_row_of (profile_id profile) ledger"
  have chain: "chain_ok (activation_ledger_index profile) (to_lower (activation_ledger_hash profile)) ?cs"
    using assms(1,2) by (auto simp: chains_ok_def list_all_iff profile_row_of_def)
  then have snoc: "chain_ok (activation_ledger_index profile) (to_lower (activation_ledger_hash profile)) (?cs @ [?c])"
    using continuity_snoc assms(3) unfolding get_last_checkpoint_def by blast
  have index: "vl_index ledger = activation_ledger_index profile + int (length ?cs)"
    using snoc by (simp add: chain_ok_snoc checkpoint_row_of_def)
  moreover have "ck_index (?cs ! i) = activation_ledger_index profile + int i" if "i < length ?cs" for i
    using chain_ok_nth [OF chain that] .
  ultimately show ?thesis by (auto simp: in_set_conv_nth)
qed

lemma projection_keeps_timelines:
  assumes "timelines_ok lib key place profile db" and "hex_laws lib"
    and "profile_row_of profile \<in> set (db_profiles db)"
    and "assert_ledger_continuity profile (get_last_checkpoint db (profile_id profile)) (lp_ledger projection) = Inr u"
    and "persist_projection lib (profile_id profile) projection db = Inr db'"
    and "\<forall>m \<in> set (lp_mutations projection). mutation_keyed key m \<and> mutation_ok lib m \<and>
      place (cm_hash m) = (vl_index (lp_ledger projection), cm_index m)"
    and "sorted_wrt mutation_before (lp_mutations projection)"
    and "fold_res object_step (lp_mutations projection) (objects_of db (profile_id profile)) = Inr Obj"
  shows "timelines_ok lib key place profile db' \<and> objects_of db' (profile_id profile) = Obj"
proof -
  let ?p = "profile_id profile" and ?led = "lp_ledger projection" and ?ms = "lp_mutations projection"
  have t: "database_ok db" "chains_ok db" "objects_ok key db" "events_placed place db ?p" "events_indexed db ?p"
    "histories_ok lib ?p (activation_ledger_index profile) db"
    using assms(1) by (simp_all add: timelines_ok_def repository_ok_def)
  note ledger = next_ledger [OF t(2) assms(3,4)]
  obtain db1 db2 where steps: "fold_res (persist_registration lib ?p ?led) (lp_registrations projection) db = Inr db1"
    "fold_res (persist_credential_mutation ?p ?led) ?ms db1 = Inr db2" "projection_frame db db2"
    "db' = db2\<lparr>db_checkpoints := db_checkpoints db @ [checkpoint_row_of ?p ?led]\<rparr>"
    using persist_projection_Inr [OF assms(5)] by blast
  have ok1: "database_ok db1" using steps(1) t(1) by (rule fold_res_inv) (blast intro: persist_registration_ok)
  have reg: "db_generations v = db_generations s \<and> db_events v = db_events s" if "persist_registration lib ?p ?led r s = Inr v" for r s v
    using that by (cases "rg_outcome r") (auto simp: persist_registration_def insert_schema_event_def insert_schema_def res_simps)
  have same: "db_generations db1 = db_generations db \<and> db_events db1 = db_events db"
    using steps(1) by (rule fold_res_rel) (simp_all add: reg)
  have before: "events_before (mutation_position ?led m) db1 ?p" for m
    using t(5) ledger same by (fastforce simp: events_before_def events_indexed_def event_position_def mutation_position_def)
  have view: "objects_ok key db1" "events_placed place db1 ?p" "histories_ok lib ?p (activation_ledger_index profile) db1"
    "objects_of db1 ?p = objects_of db ?p"
    using t(3,4,6) same
    by (simp_all add: objects_ok_def events_placed_def histories_ok_def generation_shown_def timeline_def objects_of_def
        live_generation_def fun_eq_iff)
  have kept: "histories_ok lib ?p (activation_ledger_index profile) db2 \<and> objects_of db2 ?p = Obj \<and> events_placed place db2 ?p \<and>
      objects_ok key db2 \<and>
      (\<forall>e \<in> set (db_events db2). ce_profile e = ?p \<longrightarrow> e \<in> set (db_events db1) \<or> ce_ledger_index e = vl_index ?led)"
    using ledger before assms(6,8)
    by (intro mutations_keep_histories [OF steps(2) ok1 view(1) assms(2) view(3) _ view(2) _ _ assms(7)]) (simp_all add: view(4))
  have tables: "db_generations db' = db_generations db2" "db_events db' = db_events db2" by (simp_all add: steps(4))
  have cs: "profile_checkpoints db' ?p = profile_checkpoints db ?p @ [checkpoint_row_of ?p ?led]"
    by (simp add: profile_checkpoints_def steps(4) checkpoint_row_of_def)
  have indexed: "events_indexed db' ?p"
    unfolding events_indexed_def cs tables
  proof (intro ballI impI)
    fix e assume e: "e \<in> set (db_events db2)" "ce_profile e = ?p"
    then have "e \<in> set (db_events db) \<or> ce_ledger_index e = vl_index ?led" using kept same by simp
    then show "\<exists>c \<in> set (profile_checkpoints db ?p @ [checkpoint_row_of ?p ?led]). ce_ledger_index e \<le> ck_index c"
      using t(5) e(2) by (auto simp: events_indexed_def checkpoint_row_of_def)
  qed
  have repo: "repository_ok db'"
    using persist_projection_ok [OF t(1) assms(5)] persist_projection_chains [OF t(2) database_okD(1) [OF t(1)] assms(3-5)]
    by (simp add: repository_ok_def)
  have "objects_ok key db' \<and> events_placed place db' ?p \<and> histories_ok lib ?p (activation_ledger_index profile) db' \<and>
      objects_of db' ?p = Obj"
    using kept unfolding objects_ok_def events_placed_def histories_ok_def generation_shown_def timeline_def objects_of_def
      live_generation_def tables by simp
  then show ?thesis using indexed repo by (simp add: timelines_ok_def)
qed


lemma ledger_keeps_timelines:
  assumes "timelines_ok lib key place profile db" and "hex_laws lib" and "project_ledger lib ledger profile cat = Inr projection"
    and "persist_ledger lib clock later profile projection token state input db = Inr (Inserted, db')"
    and "\<forall>t \<in> set (vl_transactions ledger). place (lt_hash t) = (vl_index ledger, lt_index t)"
    and "list_all (mutation_keyed key) (lp_mutations projection)"
    and "fold_res object_step (lp_mutations projection) (objects_of db (profile_id profile)) = Inr Obj"
  shows "timelines_ok lib key place profile db' \<and> objects_of db' (profile_id profile) = Obj"
proof -
  have ok: "database_ok db" "repository_ok db" using assms(1) by (simp_all add: timelines_ok_def repository_ok_def)
  obtain rs ms n where p: "project_transactions lib ledger profile cat (vl_transactions ledger) = (rs, ms, n)"
    "ordered_from 0 (vl_transactions ledger)" "lp_ledger projection = ledger" "lp_mutations projection = ms"
    using assms(3) by (auto simp: project_ledger_def assert_transaction_ordering_def res_simps Let_def split: prod.splits if_splits)
  note muts = project_transactions_mutations [OF p(1,2)]
  have placed: "\<forall>m \<in> set (lp_mutations projection). mutation_keyed key m \<and> mutation_ok lib m \<and>
      place (cm_hash m) = (vl_index (lp_ledger projection), cm_index m)"
    using muts assms(5,6) by (fastforce simp: p(3,4) list_all_iff)
  obtain db1 db2 row where db1: "ensure_network_profile profile db = Inr db1"
    and cont: "assert_ledger_continuity profile (get_last_checkpoint db1 (profile_id profile)) (lp_ledger projection) = Inr ()"
    and db2: "persist_projection lib (profile_id profile) projection db1 = Inr db2"
    and upd: "update_indexer_status later token state input None db2 = Inr (row, db')"
    using persist_ledger_Inr [OF assms(4)] by auto
  note e = ensure_network_profile_Inr [OF ok(1) db1]
  obtain rows where rows: "db1 = db\<lparr>db_profiles := rows\<rparr>" using e by blast
  have tables: "db_generations db1 = db_generations db" "db_events db1 = db_events db" "db_checkpoints db1 = db_checkpoints db"
    by (simp_all add: rows)
  have "repository_ok db1"
    using ensure_network_profile_ok [OF ok(1) db1] ensure_network_profile_chains [OF ok(1) _ db1] ok(2) by (simp add: repository_ok_def)
  then have t1: "timelines_ok lib key place profile db1" using timelines_ok_unchanged [OF assms(1)] tables by blast
  have "objects_of db1 (profile_id profile) = objects_of db (profile_id profile)"
    by (simp add: objects_of_def live_generation_def tables fun_eq_iff)
  then have "timelines_ok lib key place profile db2 \<and> objects_of db2 (profile_id profile) = Obj"
    using projection_keeps_timelines [OF t1 assms(2) _ cont db2 placed] e muts assms(7) p(4) by simp
  moreover have "only_statuses_changed db2 db'" "repository_ok db'"
  proof -
    have ok2: "database_ok db2" using calculation by (simp add: timelines_ok_def repository_ok_def)
    note u = update_refines [OF database_ok_statuses [OF ok2] upd]
    show "only_statuses_changed db2 db'" using u by blast
    show "repository_ok db'" using u statuses_call_ok calculation by (auto simp: timelines_ok_def)
  qed
  moreover have "db_generations db' = db_generations db2" "db_checkpoints db' = db_checkpoints db2" "db_events db' = db_events db2"
    using only_statuses_generations [OF calculation(2)] only_statuses_checkpoints [OF calculation(2)] calculation(2)
    by (simp_all add: only_statuses_events)
  ultimately show ?thesis
    using timelines_ok_unchanged by (auto simp: objects_of_def live_generation_def fun_eq_iff)
qed

section \<open>The query\<close>

lemma sort_key_strictly_sorted: "sorted_wrt (\<lambda>r q. key r < key q) rows \<Longrightarrow> sort_key key rows = rows"
  by (rule sort_key_id_if_sorted) (auto simp: sorted_wrt_map strict_sorted_imp_sorted elim: sorted_wrt_mono_rel [rotated])

lemma events_by_generation:
  assumes "histories_ok lib profile activation (database.truncate db)" and "g \<in> set (db_generations db)" and "gr_profile g = profile"
    and "3 \<le> limit"
  shows "public_credential_timeline lib (get_credential_events_by_generation db profile (gr_id g) limit) g activation =
      Inr (get_credential_events_by_generation db profile (gr_id g) limit) \<and>
    run_events (get_credential_events_by_generation db profile (gr_id g) limit) = Inr (Some (final_state g))"
proof -
  let ?rows = "timeline (database.truncate db) g"
  have t: "database.truncate db = \<lparr>db_profiles = db_profiles db, db_checkpoints = db_checkpoints db, db_statuses = db_statuses db,
      db_incidents = db_incidents db, db_schema_events = db_schema_events db, db_schemas = db_schemas db,
      db_generations = db_generations db, db_events = db_events db\<rparr>"
    by (simp add: database.truncate_def)
  have shown: "generation_shown lib activation (database.truncate db) g"
    using assms(1-3) by (simp add: histories_ok_def t)
  note s = shown [unfolded generation_shown_iff]
  have "length ?rows \<le> limit" using timeline_short [of ?rows g] s assms(4) by simp
  moreover have "sort_key event_position ?rows = ?rows" using s by (simp add: sort_key_strictly_sorted)
  ultimately have "get_credential_events_by_generation db profile (gr_id g) limit = ?rows"
    using assms(3) by (simp add: get_credential_events_by_generation_def timeline_def t)
  then show ?thesis using shown s timeline_runs [of ?rows g] by (simp add: generation_shown_def)
qed

end
