(* ===== verification/Server_Verification.thy ===== *)
theory Server_Verification
  imports Server_Pagination Credential
begin

text \<open>
  Verification of a credential by the web server (\<open>apps/web/server/xcs/verification.ts\<close>): one consistent snapshot, the
  evidence of the indexer, the resolved schema, the lifecycle and the payload, in that order. \<open>clock\<close> is the optional
  clock of the dependencies, \<open>resolver\<close> what fetching a payload URI gives. Main result: what a report says.
\<close>

datatype issuer_trust = Trusted | Untrusted | Unknown_Issuer

record verification_report =
  rp_on_chain :: "credential_lifecycle_state option"
  rp_schema_valid :: bool
  rp_payload :: "credential_payload_status option"
  rp_trust :: issuer_trust
  rp_generation :: "jstr option"

record verify_request =
  vr_network :: jstr
  vr_issuer :: jstr
  vr_subject :: jstr
  vr_schema_uid :: jstr
  vr_payload :: jsval
  vr_resolve :: bool

type_synonym payload_resolver = "jstr \<Rightarrow> server_error + byte list"

definition on_chain_status :: "generation_row option \<Rightarrow> int \<Rightarrow> server_error + credential_lifecycle_state option" where
  "on_chain_status g close =
     (case g of None \<Rightarrow> Inr None | Some g \<Rightarrow> rbind (credential_generation_state g close) (\<lambda>s. Inr (Some s)))"

definition decode_credential_uri :: "'x core_lib_scheme \<Rightarrow> generation_row \<Rightarrow> jstr option" where
  "decode_credential_uri lib g =
     (case gr_uri_hex g of None \<Rightarrow> None
      | Some hex \<Rightarrow> (case decode_hex_utf8 lib hex of Inl _ \<Rightarrow> None | Inr uri \<Rightarrow> Some uri))"

definition uncoded :: "cerr + 'a \<Rightarrow> server_error + 'a" where
  "uncoded m = (case m of Inl e \<Rightarrow> Inl (Uncoded_Error e) | Inr x \<Rightarrow> Inr x)"

definition invalid_when_xcs :: "cerr + credential_payload_status \<Rightarrow> server_error + credential_payload_status" where
  "invalid_when_xcs m = uncoded (attempt m (\<lambda>e. if is_xcs_error e then Inr Invalid else Inl e))"

definition verification_context :: "verify_request \<Rightarrow> resolved_schema \<Rightarrow> credential_context" where
  "verification_context request schema =
     \<lparr>ctx_issuer = vr_issuer request, ctx_subject = vr_subject request, ctx_schema_uid = vr_schema_uid request,
      ctx_fields = resolved_fields schema\<rparr>"

definition payload_status ::
  "'x core_lib_scheme \<Rightarrow> payload_resolver \<Rightarrow> verify_request \<Rightarrow> generation_row option \<Rightarrow> resolved_schema option \<Rightarrow>
    server_error + credential_payload_status option" where
  "payload_status lib resolver request generation schema =
     (if vr_payload request = JUndef \<and> \<not> vr_resolve request then Inr None
      else
        (case (generation, schema) of
           (Some g, Some s) \<Rightarrow>
             (case decode_credential_uri lib g of
                None \<Rightarrow> Inr (Some Invalid)
              | Some uri \<Rightarrow>
                  let ctx = verification_context request s in
                  if vr_payload request \<noteq> JUndef then
                    rbind (invalid_when_xcs
                        (rbind (canonical_json lib (vr_payload request)) (\<lambda>content.
                         verify_credential_payload lib (Retrieved (Text content)) uri ctx))) (\<lambda>s. Inr (Some s))
                  else
                    (case resolver uri of
                       Inr content \<Rightarrow>
                         rbind (invalid_when_xcs (verify_credential_payload lib (Retrieved (Bytes content)) uri ctx)) (\<lambda>s.
                         Inr (Some s))
                     | Inl server_error.Payload_Unavailable \<Rightarrow>
                         rbind (uncoded (verify_credential_payload lib Unavailable uri ctx)) (\<lambda>s. Inr (Some s))
                     | Inl server_error.Payload_Invalid \<Rightarrow> Inr (Some Invalid)
                     | Inl (Uncoded_Error e) \<Rightarrow> if is_xcs_error e then Inr (Some Invalid) else Inl (Uncoded_Error e)
                     | Inl e \<Rightarrow> Inl e))
         | _ \<Rightarrow> Inr (Some Invalid)))"

section \<open>The snapshot\<close>

definition current_time :: "int option option \<Rightarrow> snapshot \<Rightarrow> int option" where
  "current_time clock db = (case clock of None \<Rightarrow> Some (sn_now db) | Some now \<Rightarrow> now)"

definition projected :: "projection_error + 'a \<Rightarrow> server_error + 'a" where
  "projected m = (case m of Inl _ \<Rightarrow> Inl Schema_Projection_Invalid | Inr x \<Rightarrow> Inr x)"

text \<open>The rows that vouch for the schemas of a list: theirs and those of their ancestors.\<close>

definition projection_evidence ::
  "'x core_lib_scheme \<Rightarrow> snapshot \<Rightarrow> jstr \<Rightarrow> stored_schema list \<Rightarrow> server_error + schema_evidence list" where
  "projection_evidence lib db profile rows =
     rbind (projected (schema_projection_evidence_uids lib rows profile)) (\<lambda>uids.
     Inr (get_schema_projection_evidence db profile uids))"

definition evidence_indexes :: "schema_evidence list \<Rightarrow> int list" where
  "evidence_indexes = map (\<lambda>e. xs_ledger (sv_schema e))"

definition schema_expectation :: "profile_row \<Rightarrow> jstr \<Rightarrow> jstr \<Rightarrow> projection_expectation" where
  "schema_expectation network profile uid =
     \<lparr>px_profile = profile, px_uid = uid, px_network = np_network_id network, px_activation = np_activation_index network\<rparr>"

record verified_rows =
  vw_generation :: "generation_row option"
  vw_schema :: "resolved_schema option"
  vw_checkpoint :: checkpoint_row

definition verification_snapshot ::
  "'x server_lib_scheme \<Rightarrow> int option option \<Rightarrow> jnum \<Rightarrow> verify_request \<Rightarrow> snapshot \<Rightarrow> server_error + verified_rows" where
  "verification_snapshot lib clock max_age request db =
     (let profile = vr_network request in
      case get_network db profile of
        None \<Rightarrow> Inl (Coded_Error ''NETWORK_NOT_FOUND'' 404)
      | Some network \<Rightarrow>
          let now = current_time clock db in
          rbind (assert_indexer_ready (get_indexer_status db profile) now) (\<lambda>status.
          let generation = get_credential db profile (vr_issuer request) (vr_subject request) (vr_schema_uid request);
              row = get_schema db profile (vr_schema_uid request)
          in
          rbind (case row of None \<Rightarrow> Inr [] | Some r \<Rightarrow> projection_evidence lib db profile [r]) (\<lambda>evidence.
          rbind (assert_authoritative_ledger_evidence lib
              \<lparr>le_profile = profile, le_status = Some status, le_checkpoint = get_latest_checkpoint db profile, le_now = now,
               le_max_age = max_age, le_minimum = Some (np_activation_index network),
               le_projections = (case generation of None \<Rightarrow> [] | Some g \<Rightarrow> [gr_created_ledger g, gr_last_ledger g]) @
                 evidence_indexes evidence\<rparr>) (\<lambda>(_, checkpoint).
          rbind (case generation of
               None \<Rightarrow> Inr ()
             | Some g \<Rightarrow> assert_credential_generation_evidence lib g
                 \<lparr>gx_profile = profile, gx_activation = np_activation_index network, gx_checkpoint = ck_index checkpoint,
                  gx_id = None, gx_issuer = Some (vr_issuer request), gx_subject = Some (vr_subject request),
                  gx_schema_uid = Some (vr_schema_uid request)\<rparr>) (\<lambda>_.
          rbind (case row of
               None \<Rightarrow> Inr None
             | Some r \<Rightarrow> rbind (projected (authoritative_resolved_schema lib r evidence
                 (schema_expectation network profile (vr_schema_uid request)))) (\<lambda>s. Inr (Some s))) (\<lambda>schema.
          Inr \<lparr>vw_generation = generation, vw_schema = schema, vw_checkpoint = checkpoint\<rparr>))))))"

definition verify_credential ::
  "'x server_lib_scheme \<Rightarrow> payload_resolver \<Rightarrow> (jstr \<Rightarrow> issuer_trust) \<Rightarrow> int option option \<Rightarrow> jnum option \<Rightarrow>
    verify_request \<Rightarrow> snapshot \<Rightarrow> server_error + verification_report" where
  "verify_credential lib resolver trust clock max_age request db =
     rbind (verification_snapshot lib clock
         (case max_age of None \<Rightarrow> NInt DEFAULT_LEDGER_MAX_AGE_SECONDS | Some a \<Rightarrow> a) request db) (\<lambda>rows.
     rbind (on_chain_status (vw_generation rows) (ck_close_time (vw_checkpoint rows))) (\<lambda>on_chain.
     rbind (payload_status lib resolver request (vw_generation rows) (vw_schema rows)) (\<lambda>payload.
     Inr \<lparr>rp_on_chain = on_chain, rp_schema_valid = (vw_schema rows \<noteq> None), rp_payload = payload,
          rp_trust = trust (vr_issuer request), rp_generation = map_option gr_id (vw_generation rows)\<rparr>)))"

text \<open>\<open>StaticTrustPolicy\<close>.\<close>

definition static_trust :: "jstr list \<Rightarrow> jstr list \<Rightarrow> jstr \<Rightarrow> issuer_trust" where
  "static_trust trusted untrusted issuer =
     (if issuer \<in> set untrusted then Untrusted else if issuer \<in> set trusted then Trusted else Unknown_Issuer)"


section \<open>What a report says\<close>

definition state_at :: "generation_row \<Rightarrow> int \<Rightarrow> credential_lifecycle_state" where
  "state_at g t =
     (if \<not> live g then credential_lifecycle_state.Deleted
      else if \<exists>e \<in> set_option (gr_expiration g). e \<le> t then Expired
      else if gr_accepted g then Active else Pending)"

lemma generation_state_Inr:
  "credential_generation_state g t = Inr s \<longleftrightarrow> uint32_int t \<and> null_or uint32_int (gr_expiration g) \<and> s = state_at g t"
proof -
  let ?in = "\<lparr>object_exists = (gr_deleted_ledger g = None), accepted = gr_accepted g,
      expiration = map_option NInt (gr_expiration g), close_time = NInt t\<rparr>"
  have ok: "lifecycle_input_ok ?in \<longleftrightarrow> uint32_int t \<and> null_or uint32_int (gr_expiration g)"
    by (auto simp: lifecycle_input_ok_def uint32_int_def split: option.splits)
  show ?thesis
  proof (cases "lifecycle_input_ok ?in")
    case True
    then show ?thesis
      unfolding credential_generation_state_def project_credential_lifecycle_ok [OF True]
      using ok by (auto simp: state_at_def live_def split: option.splits)
  next
    case False
    then have "project_credential_lifecycle ?in = Inl (XcsErr INVALID_RIPPLE_TIME (Some (lit ''$time'')))"
      unfolding project_credential_lifecycle_error by simp
    then show ?thesis using ok False by (auto simp: credential_generation_state_def)
  qed
qed

text \<open>The evidence a read is based on: the indexer is ready, holds its lease and the latest checkpoint is what it agreed on.\<close>

definition evidence_current ::
  "'x server_lib_scheme \<Rightarrow> snapshot \<Rightarrow> jstr \<Rightarrow> int option \<Rightarrow> jnum \<Rightarrow> checkpoint_row \<Rightarrow> bool" where
  "evidence_current lib db profile now max_age c \<longleftrightarrow>
     (\<exists>status. get_indexer_status db profile = Some status \<and> ss_state status = Ready \<and> lease_is_live status now \<and>
        tips_agree status \<and> checkpoint_matches profile status c) \<and>
     get_latest_checkpoint db profile = Some c \<and>
     (\<exists>age t. max_age = NInt age \<and> now = Some t \<and> t div 1000 - ripple_time_to_unix_time lib (ck_close_time c) div 1000 \<in> {- 30..age})"

lemma assert_indexer_ready_Inr:
  "assert_indexer_ready status now = Inr s \<longleftrightarrow> status = Some s \<and> ss_state s = Ready \<and> lease_is_live s now \<and> tips_agree s"
  by (auto simp: assert_indexer_ready_def split: option.splits)

lemma authoritative_evidence_Inr:
  "assert_authoritative_ledger_evidence lib input = Inr (s, c) \<longleftrightarrow>
     assert_indexer_ready (le_status input) (le_now input) = Inr s \<and> le_checkpoint input = Some c \<and>
     checkpoint_matches (le_profile input) s c \<and>
     within_indexed (case le_minimum input of None \<Rightarrow> 0 | Some i \<Rightarrow> i) c (le_projections input) \<and>
     assert_fresh_ledger_checkpoint lib (Some (ck_close_time c)) (le_now input) (le_max_age input) = Inr ()"
  by (auto simp: assert_authoritative_ledger_evidence_def res_simps split: option.splits)

lemma authoritative_evidence_current:
  assumes "assert_indexer_ready (get_indexer_status db profile) now = Inr status"
    and "assert_authoritative_ledger_evidence lib
      \<lparr>le_profile = profile, le_status = Some status, le_checkpoint = get_latest_checkpoint db profile, le_now = now,
       le_max_age = max_age, le_minimum = low, le_projections = indexes\<rparr> = Inr (s, c)"
  shows "evidence_current lib db profile now max_age c \<and> uint32_int (ck_close_time c) \<and>
    within_indexed (case low of None \<Rightarrow> 0 | Some i \<Rightarrow> i) c indexes"
  using assms by (auto simp: authoritative_evidence_Inr assert_indexer_ready_Inr assert_fresh_Inr evidence_current_def checkpoint_matches_def)

lemma projected_Inr: "projected m = Inr x \<longleftrightarrow> m = Inr x"
  by (cases m) (simp_all add: projected_def)

lemma verification_snapshot_Inr:
  assumes "verification_snapshot lib clock max_age request db = Inr rows"
  shows "\<exists>network. get_network db (vr_network request) = Some network \<and>
    evidence_current lib db (vr_network request) (current_time clock db) max_age (vw_checkpoint rows) \<and>
    uint32_int (ck_close_time (vw_checkpoint rows)) \<and>
    vw_generation rows = get_credential db (vr_network request) (vr_issuer request) (vr_subject request) (vr_schema_uid request) \<and>
    (case get_schema db (vr_network request) (vr_schema_uid request) of
       None \<Rightarrow> vw_schema rows = None
     | Some r \<Rightarrow> \<exists>s uids. vw_schema rows = Some s \<and>
         authoritative_resolved_schema lib r (get_schema_projection_evidence db (vr_network request) uids)
           (schema_expectation network (vr_network request) (vr_schema_uid request)) = Inr s)"
proof -
  let ?p = "vr_network request" and ?now = "current_time clock db"
  let ?g = "get_credential db ?p (vr_issuer request) (vr_subject request) (vr_schema_uid request)"
  let ?row = "get_schema db ?p (vr_schema_uid request)"
  obtain network status evidence s c schema where n: "get_network db ?p = Some network"
    and ready: "assert_indexer_ready (get_indexer_status db ?p) ?now = Inr status"
    and ev: "(case ?row of None \<Rightarrow> Inr [] | Some r \<Rightarrow> projection_evidence lib db ?p [r]) = Inr evidence"
    and auth: "assert_authoritative_ledger_evidence lib
              \<lparr>le_profile = ?p, le_status = Some status, le_checkpoint = get_latest_checkpoint db ?p, le_now = ?now,
               le_max_age = max_age, le_minimum = Some (np_activation_index network),
               le_projections = (case ?g of None \<Rightarrow> [] | Some g \<Rightarrow> [gr_created_ledger g, gr_last_ledger g]) @
                 evidence_indexes evidence\<rparr> = Inr (s, c)"
    and schema: "(case ?row of
               None \<Rightarrow> Inr None
             | Some r \<Rightarrow> rbind (projected (authoritative_resolved_schema lib r evidence
                 (schema_expectation network ?p (vr_schema_uid request)))) (\<lambda>s. Inr (Some s))) = Inr schema"
    and rows: "rows = \<lparr>vw_generation = ?g, vw_schema = schema, vw_checkpoint = c\<rparr>"
    using assms unfolding verification_snapshot_def Let_def
    by (cases "get_network db ?p") (auto simp: rbind_eq_Inr)
  show ?thesis
    using n authoritative_evidence_current [OF ready auth] ev schema
    by (cases ?row) (auto simp: rows projection_evidence_def rbind_eq_Inr projected_Inr)
qed

text \<open>A valid payload: the URI of the generation names the digest of the content, and the content is a document for it.\<close>

definition payload_proven :: "'x core_lib_scheme \<Rightarrow> generation_row \<Rightarrow> content \<Rightarrow> credential_context \<Rightarrow> bool" where
  "payload_proven lib g content ctx \<longleftrightarrow>
     (\<exists>uri bytes. decode_credential_uri lib g = Some uri \<and> digest_matches lib content uri \<and>
        payload_bytes content = Inr bytes \<and> payload_document lib bytes ctx)"

lemma invalid_when_xcs_valid: "invalid_when_xcs m = Inr Valid \<longleftrightarrow> m = Inr Valid"
  by (cases m) (auto simp: invalid_when_xcs_def uncoded_def)

lemma payload_status_valid:
  assumes "payload_status lib resolver request generation schema = Inr (Some Valid)"
  shows "\<exists>g s content. generation = Some g \<and> schema = Some s \<and>
    payload_proven lib g content (verification_context request s) \<and>
    (if vr_payload request \<noteq> JUndef then \<exists>json. content = Text json \<and> canonical_json lib (vr_payload request) = Inr json
     else \<exists>uri bytes. decode_credential_uri lib g = Some uri \<and> content = Bytes bytes \<and> resolver uri = Inr bytes)"
proof -
  obtain g s where gs: "generation = Some g" "schema = Some s"
    using assms by (cases generation; cases schema) (auto simp: payload_status_def split: if_splits)
  obtain uri where uri: "decode_credential_uri lib g = Some uri"
    using assms by (cases "decode_credential_uri lib g") (auto simp: payload_status_def gs split: if_splits)
  let ?ctx = "verification_context request s"
  show ?thesis
  proof (cases "vr_payload request = JUndef")
    case False
    then obtain json where "canonical_json lib (vr_payload request) = Inr json"
      "verify_credential_payload lib (Retrieved (Text json)) uri ?ctx = Inr Valid"
      using assms by (auto simp: payload_status_def gs uri Let_def rbind_eq_Inr invalid_when_xcs_valid)
    then show ?thesis using False gs uri unfolding verify_valid_iff payload_proven_def by auto
  next
    case True
    then have call: "(case resolver uri of
        Inr content \<Rightarrow> rbind (invalid_when_xcs (verify_credential_payload lib (Retrieved (Bytes content)) uri ?ctx)) (\<lambda>s. Inr (Some s))
      | Inl server_error.Payload_Unavailable \<Rightarrow> rbind (uncoded (verify_credential_payload lib Unavailable uri ?ctx)) (\<lambda>s. Inr (Some s))
      | Inl server_error.Payload_Invalid \<Rightarrow> Inr (Some Invalid)
      | Inl (Uncoded_Error e) \<Rightarrow> if is_xcs_error e then Inr (Some Invalid) else Inl (Uncoded_Error e)
      | Inl e \<Rightarrow> Inl e) = Inr (Some Valid)"
      using assms by (auto simp: payload_status_def gs uri Let_def split: if_splits)
    have "verify_credential_payload lib Unavailable uri ?ctx \<noteq> Inr Valid"
      by (cases "parse_payload_uri lib uri") (auto simp: verify_credential_payload_def)
    then obtain bytes where "resolver uri = Inr bytes" "verify_credential_payload lib (Retrieved (Bytes bytes)) uri ?ctx = Inr Valid"
      using call by (auto simp: rbind_eq_Inr invalid_when_xcs_valid uncoded_def split: sum.splits server_error.splits if_splits)
    then show ?thesis using True gs uri unfolding verify_valid_iff payload_proven_def by auto
  qed
qed

end
