(* ===== verification/Server_Handlers.thy ===== *)
theory Server_Handlers
  imports Server_Presenters Server_Verification
begin

text \<open>
  The read handlers of the web server (\<open>apps/web/server/xcs/handlers.ts\<close>). A handler works on one snapshot and gives
  a body or an error; \<open>mapError\<close> turns the error into a status and a code. Parameters have passed the JSON schemas of their
  route: a limit or a node index is its number, a hash is any hash. Replies with a status other than 200 are errors
  with a code.
\<close>

section \<open>Errors\<close>

fun unavailable_name :: "unavailable_code \<Rightarrow> string" where
  "unavailable_name INDEXER_NOT_INITIALIZED = ''INDEXER_NOT_INITIALIZED''"
| "unavailable_name INDEXER_STALE = ''INDEXER_STALE''"
| "unavailable_name INDEXER_STATUS_UNAVAILABLE = ''INDEXER_STATUS_UNAVAILABLE''"
| "unavailable_name INDEXER_NOT_READY = ''INDEXER_NOT_READY''"
| "unavailable_name INDEXER_HALTED = ''INDEXER_HALTED''"
| "unavailable_name INDEXER_LEASE_EXPIRED = ''INDEXER_LEASE_EXPIRED''"
| "unavailable_name INDEXER_EVIDENCE_INVALID = ''INDEXER_EVIDENCE_INVALID''"

fun map_error :: "server_error \<Rightarrow> nat \<times> string" where
  "map_error (Coded_Error code status) = (status, code)"
| "map_error Schema_Projection_Invalid = (503, ''SCHEMA_PROJECTION_INVALID'')"
| "map_error (Indexer_Unavailable code) = (503, unavailable_name code)"
| "map_error _ = (500, ''INTERNAL_ERROR'')"

fun readiness_reason :: "unavailable_code \<Rightarrow> string" where
  "readiness_reason INDEXER_STATUS_UNAVAILABLE = ''indexer_status_unavailable''"
| "readiness_reason INDEXER_HALTED = ''indexer_halted''"
| "readiness_reason INDEXER_NOT_READY = ''indexer_not_ready''"
| "readiness_reason INDEXER_LEASE_EXPIRED = ''indexer_lease_expired''"
| "readiness_reason INDEXER_NOT_INITIALIZED = ''indexer_not_initialized''"
| "readiness_reason INDEXER_STALE = ''indexer_stale''"
| "readiness_reason INDEXER_EVIDENCE_INVALID = ''indexer_evidence_invalid''"

abbreviation not_found :: "string \<Rightarrow> server_error + 'a" where
  "not_found code \<equiv> Inl (Coded_Error code 404)"

abbreviation bad_request :: "string \<Rightarrow> server_error + 'a" where
  "bad_request code \<equiv> Inl (Coded_Error code 400)"

section \<open>Authoritative reads\<close>

record api_options =
  ao_clock :: "int option option"
  ao_max_age :: "jnum option"

definition max_ledger_age_seconds :: "api_options \<Rightarrow> jnum" where
  "max_ledger_age_seconds opts = (case ao_max_age opts of None \<Rightarrow> NInt DEFAULT_LEDGER_MAX_AGE_SECONDS | Some a \<Rightarrow> a)"

definition authoritative_time :: "api_options \<Rightarrow> snapshot \<Rightarrow> int option" where
  "authoritative_time opts db = current_time (ao_clock opts) db"

definition preflight_authoritative_read :: "snapshot \<Rightarrow> jstr \<Rightarrow> int option \<Rightarrow> server_error + status_row" where
  "preflight_authoritative_read db profile now = assert_indexer_ready (get_indexer_status db profile) now"

definition require_authoritative_checkpoint ::
  "'x server_lib_scheme \<Rightarrow> api_options \<Rightarrow> snapshot \<Rightarrow> jstr \<Rightarrow> status_row \<Rightarrow> int option \<Rightarrow> int list \<Rightarrow> int \<Rightarrow>
    server_error + checkpoint_row" where
  "require_authoritative_checkpoint lib opts db profile status now indexes low =
     rbind (assert_authoritative_ledger_evidence lib
         \<lparr>le_profile = profile, le_status = Some status, le_checkpoint = get_latest_checkpoint db profile, le_now = now,
          le_max_age = max_ledger_age_seconds opts, le_minimum = Some low, le_projections = indexes\<rparr>)
       (\<lambda>(_, c). Inr c)"

text \<open>
  The frame of every handler: the network, the clock, the status; then what the handler reads, with the ledger indexes
  of it, the checkpoint they have to lie under, and the answer.
\<close>

definition authoritative_read ::
  "'x server_lib_scheme \<Rightarrow> api_options \<Rightarrow> snapshot \<Rightarrow> jstr \<Rightarrow> (profile_row \<Rightarrow> server_error + 'a \<times> int list) \<Rightarrow>
    (profile_row \<Rightarrow> 'a \<Rightarrow> checkpoint_row \<Rightarrow> server_error + 'b) \<Rightarrow> server_error + 'b" where
  "authoritative_read lib opts db profile rows answer =
     (case get_network db profile of
        None \<Rightarrow> not_found ''NETWORK_NOT_FOUND''
      | Some network \<Rightarrow>
          let now = authoritative_time opts db in
          rbind (preflight_authoritative_read db profile now) (\<lambda>status.
          rbind (rows network) (\<lambda>(found, indexes).
          rbind (require_authoritative_checkpoint lib opts db profile status now indexes (np_activation_index network)) (\<lambda>c.
          answer network found c))))"

section \<open>Health, status and readiness\<close>

definition network_readiness ::
  "'x server_lib_scheme \<Rightarrow> api_options \<Rightarrow> snapshot \<Rightarrow> profile_row \<Rightarrow> server_error + checkpoint_row" where
  "network_readiness lib opts db network =
     (let now = authoritative_time opts db in
      rbind (preflight_authoritative_read db (np_id network) now) (\<lambda>status.
      require_authoritative_checkpoint lib opts db (np_id network) status now [] (np_activation_index network)))"

text \<open>\<open>/health/ready\<close>: the first network that is not ready decides; any other error is the database's.\<close>

definition health_ready :: "'x server_lib_scheme \<Rightarrow> api_options \<Rightarrow> snapshot \<Rightarrow> string + unit" where
  "health_ready lib opts db =
     (let networks = list_networks db in
      if networks = [] then Inl ''indexer_not_initialized''
      else
        (case each (\<lambda>network. rbind (network_readiness lib opts db network) (\<lambda>_. Inr ())) networks of
           Inr _ \<Rightarrow> Inr ()
         | Inl (Indexer_Unavailable code) \<Rightarrow> Inl (readiness_reason code)
         | Inl _ \<Rightarrow> Inl ''database_unavailable''))"

definition status_handler :: "snapshot \<Rightarrow> jstr \<Rightarrow> server_error + public_status" where
  "status_handler db profile =
     (case get_network db profile of
        None \<Rightarrow> not_found ''NETWORK_NOT_FOUND''
      | Some _ \<Rightarrow>
          (case get_indexer_status db profile of
             None \<Rightarrow> not_found ''INDEXER_STATUS_NOT_FOUND''
           | Some status \<Rightarrow> public_indexer_status status))"

definition readiness_handler ::
  "'x server_lib_scheme \<Rightarrow> api_options \<Rightarrow> snapshot \<Rightarrow> jstr \<Rightarrow> server_error + checkpoint_row" where
  "readiness_handler lib opts db profile =
     authoritative_read lib opts db profile (\<lambda>_. Inr ((), [])) (\<lambda>_ _ c. Inr c)"

definition stats_handler ::
  "'x server_lib_scheme \<Rightarrow> api_options \<Rightarrow> snapshot \<Rightarrow> jstr \<Rightarrow> server_error + discovery_stats \<times> checkpoint_row" where
  "stats_handler lib opts db profile =
     authoritative_read lib opts db profile (\<lambda>_. Inr ((), [])) (\<lambda>network _ c.
       rbind (public_discovery_stats (get_discovery_stats db profile (ck_close_time c))) (\<lambda>(stats, indexes).
       rbind (assert_authoritative_ledger_evidence lib
           \<lparr>le_profile = profile, le_status = get_indexer_status db profile, le_checkpoint = Some c,
            le_now = authoritative_time opts db, le_max_age = max_ledger_age_seconds opts,
            le_minimum = Some (np_activation_index network), le_projections = indexes\<rparr>) (\<lambda>_.
       Inr (stats, c))))"

section \<open>Schemas\<close>

definition vouched_schemas ::
  "'x server_lib_scheme \<Rightarrow> profile_row \<Rightarrow> jstr \<Rightarrow> schema_evidence list \<Rightarrow> stored_schema list \<Rightarrow> server_error + unit" where
  "vouched_schemas lib network profile evidence rows =
     each (\<lambda>row. rbind (projected (authoritative_resolved_schema lib row evidence
         (schema_expectation network profile (xs_uid row)))) (\<lambda>_. Inr ())) rows"

definition schema_handler ::
  "'x server_lib_scheme \<Rightarrow> api_options \<Rightarrow> snapshot \<Rightarrow> jstr \<Rightarrow> jstr \<Rightarrow> server_error + stored_schema" where
  "schema_handler lib opts db profile uid =
     authoritative_read lib opts db profile
       (\<lambda>_. case get_schema db profile uid of
              None \<Rightarrow> Inr ((None, []), [])
            | Some row \<Rightarrow> rbind (projection_evidence lib db profile [row]) (\<lambda>evidence.
                Inr ((Some row, evidence), evidence_indexes evidence)))
       (\<lambda>network (found, evidence) _.
          case found of
            None \<Rightarrow> not_found ''SCHEMA_NOT_FOUND''
          | Some row \<Rightarrow>
              rbind (projected (authoritative_resolved_schema lib row evidence (schema_expectation network profile uid)))
                (\<lambda>_. Inr row))"

definition catalog_handler ::
  "'x server_lib_scheme \<Rightarrow> api_options \<Rightarrow> snapshot \<Rightarrow> jstr \<Rightarrow> jstr \<Rightarrow> server_error + catalog_bundle" where
  "catalog_handler lib opts db profile uid =
     authoritative_read lib opts db profile
       (\<lambda>_. let evidence = (if get_schema db profile uid = None then [] else get_schema_catalog_evidence db profile uid) in
            Inr (evidence, evidence_indexes evidence))
       (\<lambda>network evidence c.
          case get_schema db profile uid of
            None \<Rightarrow> not_found ''SCHEMA_NOT_FOUND''
          | Some target \<Rightarrow> projected (authoritative_schema_catalog_bundle lib network c target evidence))"

text \<open>A page with the cursor of the next one when there is one more row than the limit.\<close>

definition cut_page :: "nat \<Rightarrow> ('a \<Rightarrow> 'c) \<Rightarrow> 'a list \<Rightarrow> 'a list \<times> 'c option" where
  "cut_page limit cursor rows =
     (let items = (if limit < length rows then take limit rows else rows) in
      (items, if limit < length rows \<and> items \<noteq> [] then Some (cursor (List.last items)) else None))"

definition decode_optional :: "(jstr \<Rightarrow> position option) \<Rightarrow> jstr option \<Rightarrow> server_error + position option" where
  "decode_optional decode cursor =
     (case cursor of None \<Rightarrow> Inr None
      | Some s \<Rightarrow> (case decode s of None \<Rightarrow> bad_request ''CURSOR_INVALID'' | Some p \<Rightarrow> Inr (Some p)))"

definition schemas_handler ::
  "'x server_lib_scheme \<Rightarrow> api_options \<Rightarrow> snapshot \<Rightarrow> jstr \<Rightarrow> jstr option \<Rightarrow> jstr option \<Rightarrow> nat option \<Rightarrow>
    server_error + schema_row list \<times> jstr option" where
  "schemas_handler lib opts db profile publisher cursor limit =
     (if (case publisher of None \<Rightarrow> False | Some p \<Rightarrow> \<not> is_valid_classic_address lib p) then bad_request ''ADDRESS_INVALID''
      else
        rbind (decode_optional (decode_schema_cursor lib) cursor) (\<lambda>position.
        let limit = (case limit of None \<Rightarrow> 20 | Some n \<Rightarrow> n); rows = list_schemas db profile publisher position limit in
        authoritative_read lib opts db profile
          (\<lambda>_. rbind (projection_evidence lib db profile (map stored_of rows)) (\<lambda>evidence.
               Inr (evidence, evidence_indexes evidence)))
          (\<lambda>network evidence _.
             rbind (vouched_schemas lib network profile evidence (map stored_of rows)) (\<lambda>_.
             Inr (cut_page limit (\<lambda>r. encode_schema_cursor lib (schema_position r)) rows)))))"

section \<open>Registrations\<close>

definition registration_handler ::
  "'x server_lib_scheme \<Rightarrow> api_options \<Rightarrow> snapshot \<Rightarrow> jstr \<Rightarrow> jstr \<Rightarrow> server_error + public_registration option" where
  "registration_handler lib opts db profile hash =
     (let hash = to_lower hash; registration = get_schema_registration_by_transaction db profile hash in
      authoritative_read lib opts db profile
        (\<lambda>_. Inr ((), case registration of None \<Rightarrow> [] | Some r \<Rightarrow> [se_ledger_index r]))
        (\<lambda>network _ _. optionally (\<lambda>r. public_schema_registration lib r network hash) registration))"

definition activity_handler ::
  "'x server_lib_scheme \<Rightarrow> api_options \<Rightarrow> snapshot \<Rightarrow> jstr \<Rightarrow> jstr option \<Rightarrow> int option \<Rightarrow>
    server_error + (schema_event_row \<times> public_registration) list \<times> jstr option" where
  "activity_handler lib opts db profile cursor limit =
     rbind (decode_optional (decode_schema_registration_cursor lib) cursor) (\<lambda>position.
     let limit = (case limit of None \<Rightarrow> 20 | Some n \<Rightarrow> n) in
     if limit < 1 \<or> 100 < limit then bad_request ''LIMIT_INVALID''
     else
       let rows = list_schema_registrations db profile position (nat limit) in
       authoritative_read lib opts db profile
         (\<lambda>_. if nat limit + 1 < length rows then invalid_indexer_evidence else Inr ((), map se_ledger_index rows))
         (\<lambda>network _ _.
            rbind (traverse (\<lambda>r. rbind (public_schema_registration lib r network (se_hash r)) (\<lambda>p. Inr (r, p))) rows) (\<lambda>shown.
            Inr (cut_page (nat limit) (\<lambda>(r, _). encode_schema_registration_cursor lib (registration_position r)) shown))))"

section \<open>Credentials\<close>

definition addresses_ok :: "'x core_lib_scheme \<Rightarrow> jstr \<Rightarrow> jstr \<Rightarrow> bool" where
  "addresses_ok lib issuer subject \<longleftrightarrow> is_valid_classic_address lib issuer \<and> is_valid_classic_address lib subject"

definition credential_handler ::
  "'x server_lib_scheme \<Rightarrow> api_options \<Rightarrow> snapshot \<Rightarrow> jstr \<Rightarrow> jstr \<Rightarrow> jstr \<Rightarrow> jstr \<Rightarrow>
    server_error + generation_row \<times> credential_lifecycle_state" where
  "credential_handler lib opts db profile issuer subject schema_uid =
     (if \<not> addresses_ok lib issuer subject then bad_request ''ADDRESS_INVALID''
      else
        let generation = get_credential db profile issuer subject schema_uid in
        authoritative_read lib opts db profile
          (\<lambda>_. Inr ((), case generation of None \<Rightarrow> [] | Some g \<Rightarrow> [gr_created_ledger g, gr_last_ledger g]))
          (\<lambda>network _ c.
             case generation of
               None \<Rightarrow> not_found ''CREDENTIAL_NOT_FOUND''
             | Some g \<Rightarrow>
                 rbind (public_credential_generation lib g
                     \<lparr>gx_profile = profile, gx_activation = np_activation_index network, gx_checkpoint = ck_index c,
                      gx_id = None, gx_issuer = Some issuer, gx_subject = Some subject, gx_schema_uid = Some schema_uid\<rparr>) (\<lambda>shown.
                 rbind (credential_generation_state g (ck_close_time c)) (\<lambda>state.
                 Inr (shown, state)))))"

record shown_generation =
  sg_generation :: generation_row
  sg_state :: credential_lifecycle_state
  sg_timeline :: "event_row list"

definition generation_expectation_of :: "profile_row \<Rightarrow> jstr \<Rightarrow> checkpoint_row \<Rightarrow> jstr \<Rightarrow> generation_expectation" where
  "generation_expectation_of network profile c generation =
     \<lparr>gx_profile = profile, gx_activation = np_activation_index network, gx_checkpoint = ck_index c,
      gx_id = Some generation, gx_issuer = None, gx_subject = None, gx_schema_uid = None\<rparr>"

definition generation_handler ::
  "'x server_lib_scheme \<Rightarrow> api_options \<Rightarrow> snapshot \<Rightarrow> jstr \<Rightarrow> jstr \<Rightarrow> server_error + shown_generation" where
  "generation_handler lib opts db profile generation_id =
     (let generation_id = to_lower generation_id; generation = get_credential_generation_by_id db profile generation_id;
          rows = (if generation = None then []
            else get_credential_events_by_generation db profile generation_id (CREDENTIAL_GENERATION_TIMELINE_LIMIT + 1))
      in
      authoritative_read lib opts db profile
        (\<lambda>_. Inr ((), (case generation of None \<Rightarrow> [] | Some g \<Rightarrow> [gr_created_ledger g, gr_last_ledger g]) @ map ce_ledger_index rows))
        (\<lambda>network _ c.
           case generation of
             None \<Rightarrow> not_found ''CREDENTIAL_GENERATION_NOT_FOUND''
           | Some g \<Rightarrow>
               rbind (public_credential_generation lib g (generation_expectation_of network profile c generation_id)) (\<lambda>shown.
               rbind (credential_generation_state g (ck_close_time c)) (\<lambda>state.
               rbind (public_credential_timeline lib rows g (np_activation_index network)) (\<lambda>items.
               Inr \<lparr>sg_generation = shown, sg_state = state, sg_timeline = items\<rparr>)))))"

definition tuple_expectation :: "jstr \<Rightarrow> jstr \<Rightarrow> jstr \<Rightarrow> jstr \<Rightarrow> int \<Rightarrow> event_expectation" where
  "tuple_expectation hash issuer subject schema_uid activation =
     \<lparr>ex_hash = hash, ex_issuer = issuer, ex_subject = subject, ex_schema_uid = schema_uid, ex_activation = activation,
      ex_generation = None, ex_ledger = None, ex_ledger_hash = None, ex_index = None\<rparr>"

definition events_handler ::
  "'x server_lib_scheme \<Rightarrow> api_options \<Rightarrow> snapshot \<Rightarrow> jstr \<Rightarrow> jstr \<Rightarrow> jstr \<Rightarrow> jstr \<Rightarrow> server_error + event_row list" where
  "events_handler lib opts db profile issuer subject schema_uid =
     (if \<not> addresses_ok lib issuer subject then bad_request ''ADDRESS_INVALID''
      else
        let items = get_credential_events db profile issuer subject schema_uid (CREDENTIAL_EVENT_HISTORY_LIMIT + 1) in
        authoritative_read lib opts db profile (\<lambda>_. Inr ((), map ce_ledger_index items)) (\<lambda>network _ _.
          if CREDENTIAL_EVENT_HISTORY_LIMIT < length items then Inl (Coded_Error ''CREDENTIAL_EVENT_HISTORY_LIMIT_EXCEEDED'' 413)
          else
            rbind (each (\<lambda>r. rbind (public_credential_event lib r
                (tuple_expectation (ce_hash r) issuer subject schema_uid (np_activation_index network))) (\<lambda>_. Inr ())) items) (\<lambda>_.
            Inr items)))"

definition exact_event_handler ::
  "'x server_lib_scheme \<Rightarrow> api_options \<Rightarrow> snapshot \<Rightarrow> jstr \<Rightarrow> jstr \<Rightarrow> jstr \<Rightarrow> jstr \<Rightarrow> jstr \<Rightarrow> server_error + event_row option" where
  "exact_event_handler lib opts db profile issuer subject schema_uid hash =
     (if \<not> addresses_ok lib issuer subject then bad_request ''ADDRESS_INVALID''
      else
        let hash = to_lower hash;
            items = get_credential_events_by_transaction db profile hash issuer subject schema_uid EXACT_CREDENTIAL_EVENT_QUERY_LIMIT
        in
        authoritative_read lib opts db profile (\<lambda>_. Inr ((), map ce_ledger_index items)) (\<lambda>network _ _.
          if 1 < length items then Inl (Coded_Error ''CREDENTIAL_EVENT_AMBIGUOUS'' 503)
          else optionally (\<lambda>r. public_credential_event lib r
              (tuple_expectation hash issuer subject schema_uid (np_activation_index network))) (first_row items)))"

definition verify_handler ::
  "'x server_lib_scheme \<Rightarrow> api_options \<Rightarrow> payload_resolver \<Rightarrow> (jstr \<Rightarrow> issuer_trust) \<Rightarrow> verify_request \<Rightarrow> snapshot \<Rightarrow>
    server_error + verification_report" where
  "verify_handler lib opts resolver trust request db =
     (if \<not> addresses_ok lib (vr_issuer request) (vr_subject request) then bad_request ''ADDRESS_INVALID''
      else verify_credential lib resolver trust (ao_clock opts) (Some (max_ledger_age_seconds opts)) request db)"

section \<open>Transactions\<close>

record shown_transaction =
  st_transaction :: public_transaction
  st_events :: "event_row list"
  st_next :: "nat option"

definition summary_indexes :: "transaction_summary \<Rightarrow> int list" where
  "summary_indexes s =
     (case ts_registration s of None \<Rightarrow> [] | Some r \<Rightarrow> [se_ledger_index r]) @
     (case ts_first s of None \<Rightarrow> [] | Some e \<Rightarrow> [ce_ledger_index e])"

definition transaction_expectation :: "profile_row \<Rightarrow> public_transaction \<Rightarrow> event_row \<Rightarrow> event_expectation" where
  "transaction_expectation network t r =
     \<lparr>ex_hash = pt_hash t, ex_issuer = ce_issuer r, ex_subject = ce_subject r, ex_schema_uid = ce_schema_uid r,
      ex_activation = np_activation_index network, ex_generation = None, ex_ledger = Some (pt_ledger t),
      ex_ledger_hash = Some (pt_ledger_hash t), ex_index = Some (pt_index t)\<rparr>"

definition transaction_handler ::
  "'x server_lib_scheme \<Rightarrow> api_options \<Rightarrow> snapshot \<Rightarrow> jstr \<Rightarrow> jstr \<Rightarrow> int option \<Rightarrow> int option \<Rightarrow>
    server_error + shown_transaction" where
  "transaction_handler lib opts db profile hash after limit =
     (let hash = to_lower hash; limit = (case limit of None \<Rightarrow> 20 | Some n \<Rightarrow> n) in
      if (case after of None \<Rightarrow> False | Some n \<Rightarrow> n < 0 \<or> MAX_NODE_INDEX < n) then bad_request ''CURSOR_INVALID''
      else if limit < 1 \<or> 100 < limit then bad_request ''LIMIT_INVALID''
      else
        let summary = get_transaction_projection_summary db profile hash;
            rows = (if ts_count summary = 0 then []
              else get_credential_events_by_transaction_page db profile hash (map_option nat after) (nat limit))
        in
        authoritative_read lib opts db profile
          (\<lambda>_. if nat limit + 1 < length rows then invalid_indexer_evidence
               else Inr ((), summary_indexes summary @ map ce_ledger_index rows))
          (\<lambda>network _ _.
             rbind (public_transaction_projection lib summary network hash) (\<lambda>shown.
             case shown of
               None \<Rightarrow> not_found ''TRANSACTION_NOT_FOUND''
             | Some t \<Rightarrow>
                 rbind (traverse (\<lambda>r. public_credential_event lib r (transaction_expectation network t r)) rows) (\<lambda>events.
                 let (items, further) = cut_page (nat limit) ce_node_index events in
                 Inr \<lparr>st_transaction = t, st_events = items, st_next = further\<rparr>))))"


section \<open>Search\<close>

text \<open>
  \<open>String.prototype.trim\<close> as the test whether it changes the text, the search of a letter or number of Unicode, and the
  text search of PostgreSQL are parameters. The hash of the query is its lower case.
\<close>

record search_tools =
  is_trimmed :: "jstr \<Rightarrow> bool"
  has_letter_or_number :: "jstr \<Rightarrow> bool"
  text_matches :: "jstr \<Rightarrow> jstr \<Rightarrow> bool"

definition has_control :: "jstr \<Rightarrow> bool" where
  "has_control s \<longleftrightarrow> list_ex (\<lambda>c. c \<le> 0x1f \<or> c = 0x7f) s"

datatype search_item =
  Schema_Item stored_schema
| Generation_Item generation_row credential_lifecycle_state
| Transaction_Item public_transaction

record hash_rows =
  hr_schema :: "stored_schema option"
  hr_evidence :: "schema_evidence list"
  hr_generation :: "generation_row option"
  hr_timeline :: "event_row list"
  hr_summary :: transaction_summary

definition hash_search ::
  "'x server_lib_scheme \<Rightarrow> api_options \<Rightarrow> snapshot \<Rightarrow> jstr \<Rightarrow> jstr \<Rightarrow> nat \<Rightarrow> server_error + search_item list \<times> bool" where
  "hash_search lib opts db profile hash limit =
     (let schema = get_schema db profile hash; generation = get_credential_generation_by_id db profile hash;
          summary = get_transaction_projection_summary db profile hash;
          timeline = (if generation = None then []
            else get_credential_events_by_generation db profile hash (CREDENTIAL_GENERATION_TIMELINE_LIMIT + 1))
      in
      authoritative_read lib opts db profile
        (\<lambda>_. rbind (case schema of None \<Rightarrow> Inr [] | Some r \<Rightarrow> projection_evidence lib db profile [r]) (\<lambda>evidence.
             Inr (evidence, evidence_indexes evidence @
               (case generation of None \<Rightarrow> [] | Some g \<Rightarrow> [gr_created_ledger g, gr_last_ledger g]) @
               map ce_ledger_index timeline @ summary_indexes summary)))
        (\<lambda>network evidence c.
           rbind (optionally (\<lambda>r. rbind (projected (authoritative_resolved_schema lib r evidence
               (schema_expectation network profile (xs_uid r)))) (\<lambda>_. Inr (Schema_Item r))) schema) (\<lambda>schema_item.
           rbind (optionally (\<lambda>g.
               rbind (public_credential_generation lib g (generation_expectation_of network profile c hash)) (\<lambda>shown.
               rbind (public_credential_timeline lib timeline g (np_activation_index network)) (\<lambda>_.
               rbind (credential_generation_state g (ck_close_time c)) (\<lambda>state.
               Inr (Generation_Item shown state))))) generation) (\<lambda>generation_item.
           rbind (public_transaction_projection lib summary network hash) (\<lambda>transaction.
           let items = List.map_filter (\<lambda>v. v) [schema_item, generation_item, map_option Transaction_Item transaction] in
           Inr (take limit items, limit < length items))))))"

definition search_handler ::
  "'x server_lib_scheme \<Rightarrow> search_tools \<Rightarrow> api_options \<Rightarrow> snapshot \<Rightarrow> jstr \<Rightarrow> jstr \<Rightarrow> int option \<Rightarrow>
    server_error + search_item list \<times> bool" where
  "search_handler lib tools opts db profile query limit =
     (let limit = (case limit of None \<Rightarrow> 20 | Some n \<Rightarrow> n) in
      if \<not> is_trimmed tools query \<or> has_control query \<or> \<not> has_letter_or_number tools query then bad_request ''SEARCH_QUERY_INVALID''
      else if limit < 1 \<or> 50 < limit then bad_request ''LIMIT_INVALID''
      else if hash64 (to_lower query) then hash_search lib opts db profile (to_lower query) (nat limit)
      else
        let publisher = (if is_valid_classic_address lib query then Some query else None);
            rows = search_schemas (text_matches tools) db profile (if publisher = None then Some query else None) publisher (nat limit)
        in
        authoritative_read lib opts db profile
          (\<lambda>_. if nat limit + 1 < length rows then invalid_indexer_evidence
               else rbind (projection_evidence lib db profile (map stored_of rows)) (\<lambda>evidence.
                 Inr (evidence, evidence_indexes evidence)))
          (\<lambda>network evidence _.
             rbind (vouched_schemas lib network profile evidence (map stored_of rows)) (\<lambda>_.
             Inr (map (\<lambda>r. Schema_Item (stored_of r)) (take (nat limit) rows), nat limit < length rows))))"

section \<open>Every read is authoritative\<close>

lemma authoritative_read_Inr:
  assumes "authoritative_read lib opts db profile rows answer = Inr x"
  shows "\<exists>network found indexes c. get_network db profile = Some network \<and> rows network = Inr (found, indexes) \<and>
    evidence_current lib db profile (authoritative_time opts db) (max_ledger_age_seconds opts) c \<and>
    uint32_int (ck_close_time c) \<and> within_indexed (np_activation_index network) c indexes \<and> answer network found c = Inr x"
proof -
  let ?now = "authoritative_time opts db"
  obtain network status found indexes s c where n: "get_network db profile = Some network"
    and ready: "assert_indexer_ready (get_indexer_status db profile) ?now = Inr status"
    and rows: "rows network = Inr (found, indexes)"
    and auth: "assert_authoritative_ledger_evidence lib
         \<lparr>le_profile = profile, le_status = Some status, le_checkpoint = get_latest_checkpoint db profile, le_now = ?now,
          le_max_age = max_ledger_age_seconds opts, le_minimum = Some (np_activation_index network), le_projections = indexes\<rparr> = Inr (s, c)"
    and answer: "answer network found c = Inr x"
    using assms unfolding authoritative_read_def preflight_authoritative_read_def require_authoritative_checkpoint_def Let_def
    by (cases "get_network db profile") (auto simp: rbind_eq_Inr)
  show ?thesis using n rows answer authoritative_evidence_current [OF ready auth] by auto
qed

definition read_current :: "'x server_lib_scheme \<Rightarrow> api_options \<Rightarrow> snapshot \<Rightarrow> jstr \<Rightarrow> bool" where
  "read_current lib opts db profile \<longleftrightarrow>
     get_network db profile \<noteq> None \<and>
     (\<exists>c. evidence_current lib db profile (authoritative_time opts db) (max_ledger_age_seconds opts) c)"

lemma authoritative_read_current: "authoritative_read lib opts db profile rows answer = Inr x \<Longrightarrow> read_current lib opts db profile"
  by (drule authoritative_read_Inr) (auto simp: read_current_def)


lemma handlers_current:
  "readiness_handler lib opts db profile = Inr x1 \<Longrightarrow> read_current lib opts db profile"
  "stats_handler lib opts db profile = Inr x2 \<Longrightarrow> read_current lib opts db profile"
  "schema_handler lib opts db profile uid = Inr x3 \<Longrightarrow> read_current lib opts db profile"
  "catalog_handler lib opts db profile uid = Inr x4 \<Longrightarrow> read_current lib opts db profile"
  "schemas_handler lib opts db profile publisher cursor page = Inr x5 \<Longrightarrow> read_current lib opts db profile"
  "registration_handler lib opts db profile hash = Inr x6 \<Longrightarrow> read_current lib opts db profile"
  "activity_handler lib opts db profile cursor limit = Inr x7 \<Longrightarrow> read_current lib opts db profile"
  "credential_handler lib opts db profile issuer subject uid = Inr x8 \<Longrightarrow> read_current lib opts db profile"
  "generation_handler lib opts db profile hash = Inr x9 \<Longrightarrow> read_current lib opts db profile"
  "events_handler lib opts db profile issuer subject uid = Inr x10 \<Longrightarrow> read_current lib opts db profile"
  "exact_event_handler lib opts db profile issuer subject uid hash = Inr x11 \<Longrightarrow> read_current lib opts db profile"
  "transaction_handler lib opts db profile hash after limit = Inr x12 \<Longrightarrow> read_current lib opts db profile"
  "search_handler lib tools opts db profile query limit = Inr x13 \<Longrightarrow> read_current lib opts db profile"
  unfolding readiness_handler_def stats_handler_def schema_handler_def catalog_handler_def schemas_handler_def registration_handler_def
    activity_handler_def credential_handler_def generation_handler_def events_handler_def exact_event_handler_def
    transaction_handler_def search_handler_def hash_search_def Let_def
  by (auto simp: rbind_eq_Inr split: if_splits dest: authoritative_read_current)

section \<open>Following the pages\<close>

fun follow :: "(jstr option \<Rightarrow> server_error + 'a list \<times> jstr option) \<Rightarrow> nat \<Rightarrow> jstr option \<Rightarrow> server_error + 'a list" where
  "follow page 0 cursor = Inr []"
| "follow page (Suc fuel) cursor =
     rbind (page cursor) (\<lambda>(items, further).
     case further of None \<Rightarrow> Inr items | Some c \<Rightarrow> rbind (follow page fuel (Some c)) (\<lambda>rest. Inr (items @ rest)))"

lemma schemas_page:
  assumes "schemas_handler lib opts db profile publisher cursor (Some limit) = Inr (items, further)" and "0 < limit"
    and "decode_optional (decode_schema_cursor lib) cursor = Inr position"
  shows "(items, further) = (let (found, next_key) = keyset_page schema_position limit (schemas_of db profile publisher) position in
    (found, map_option (encode_schema_cursor lib) next_key))"
proof -
  let ?rows = "list_schemas db profile publisher position limit"
  let ?after = "rows_after schema_position (schemas_of db profile publisher) position"
  have "authoritative_read lib opts db profile
          (\<lambda>_. rbind (projection_evidence lib db profile (map stored_of ?rows)) (\<lambda>evidence. Inr (evidence, evidence_indexes evidence)))
          (\<lambda>network evidence _. rbind (vouched_schemas lib network profile evidence (map stored_of ?rows)) (\<lambda>_.
             Inr (cut_page limit (\<lambda>r. encode_schema_cursor lib (schema_position r)) ?rows))) = Inr (items, further)"
    using assms(1,3) by (auto simp: schemas_handler_def Let_def split: if_splits)
  then have "cut_page limit (\<lambda>r. encode_schema_cursor lib (schema_position r)) ?rows = (items, further)"
    by (auto dest!: authoritative_read_Inr simp: rbind_eq_Inr)
  moreover have "?rows = take (limit + 1) ?after" by (rule list_schemas_rows)
  moreover have "cut_page limit (\<lambda>r. encode_schema_cursor lib (schema_position r)) (take (limit + 1) ?after) =
      (take limit ?after, if limit < length ?after then Some (encode_schema_cursor lib (schema_position (List.last (take limit ?after)))) else None)"
    using assms(2) by (auto simp: cut_page_def Let_def min_def)
  ultimately show ?thesis by (simp add: keyset_page_eq)
qed

text \<open>A cursor that was given out decodes to the position it stands for.\<close>

definition stands_for :: "'x server_lib_scheme \<Rightarrow> jstr option \<Rightarrow> position option \<Rightarrow> bool" where
  "stands_for lib cursor position \<longleftrightarrow> cursor = map_option (encode_schema_cursor lib) position \<and>
     (\<forall>p \<in> set_option position. decode_schema_cursor lib (encode_schema_cursor lib p) = Some p)"

lemma follow_pages:
  assumes "\<forall>r \<in> set (schemas_of db profile publisher).
      decode_schema_cursor lib (encode_schema_cursor lib (schema_position r)) = Some (schema_position r)"
    and "0 < limit"
    and "follow (\<lambda>c. schemas_handler lib opts db profile publisher c (Some limit)) fuel cursor = Inr rows"
    and "stands_for lib cursor position"
  shows "rows = all_pages (keyset_page schema_position limit (schemas_of db profile publisher)) fuel position"
  using assms(3,4)
proof (induction fuel arbitrary: cursor position rows)
  case (Suc fuel)
  let ?all = "schemas_of db profile publisher"
  obtain items further where page: "schemas_handler lib opts db profile publisher cursor (Some limit) = Inr (items, further)"
    and rest: "(case further of None \<Rightarrow> Inr items
      | Some c \<Rightarrow> rbind (follow (\<lambda>c. schemas_handler lib opts db profile publisher c (Some limit)) fuel (Some c)) (\<lambda>rest. Inr (items @ rest))) = Inr rows"
    using Suc.prems(1) by (auto simp: rbind_eq_Inr)
  have "decode_optional (decode_schema_cursor lib) cursor = Inr position"
    using Suc.prems(2) by (cases position) (auto simp: stands_for_def decode_optional_def)
  note p = schemas_page [OF page assms(2) this]
  obtain found next_key where k: "keyset_page schema_position limit ?all position = (found, next_key)" by (cases "keyset_page schema_position limit ?all position")
  have items: "items = found" "further = map_option (encode_schema_cursor lib) next_key" using p k by simp_all
  show ?case
  proof (cases next_key)
    case None
    then show ?thesis using rest items k by simp
  next
    case (Some key)
    then have "limit < length (rows_after schema_position ?all position)"
      "key = schema_position (List.last (take limit (rows_after schema_position ?all position)))"
      using k by (auto simp: keyset_page_eq split: if_splits)
    moreover from this(1) have "List.last (take limit (rows_after schema_position ?all position)) \<in> set ?all"
      using assms(2) last_in_set [of "take limit (rows_after schema_position ?all position)"] in_set_takeD
      by (fastforce simp: rows_after_def)
    ultimately have "stands_for lib (Some (encode_schema_cursor lib key)) (Some key)"
      using assms(1) by (simp add: stands_for_def)
    moreover obtain more_rows where "follow (\<lambda>c. schemas_handler lib opts db profile publisher c (Some limit)) fuel
        (Some (encode_schema_cursor lib key)) = Inr more_rows" "rows = items @ more_rows"
      using rest items Some by (auto simp: rbind_eq_Inr)
    ultimately show ?thesis using Suc.IH items k Some by simp
  qed
qed simp

lemma distinct_positions:
  assumes "schema_table.consistent rows" and "\<forall>r \<in> set rows. sc_profile r = profile"
  shows "distinct (map schema_position rows)"
  using assms
proof (induction rows)
  case (Cons r rows)
  then have apart: "\<forall>q \<in> set rows. \<not> same_schema r q" and rest: "schema_table.consistent rows"
    by (simp_all add: schema_table.consistent_def)
  have "\<forall>q \<in> set rows. sc_uid r \<noteq> sc_uid q"
  proof
    fix q assume "q \<in> set rows"
    then have "\<not> same_schema r q" "sc_profile r = sc_profile q" using apart Cons.prems(2) by simp_all
    then show "sc_uid r \<noteq> sc_uid q" by (simp add: same_schema_def)
  qed
  then show ?case using Cons.IH [OF rest] Cons.prems(2) by (auto simp: schema_position_def)
qed simp

lemma consistent_filter: "schema_table.consistent rows \<Longrightarrow> schema_table.consistent (filter P rows)"
  by (auto simp: schema_table.consistent_def sorted_wrt_filter list_all_iff)

lemma followed_schemas:
  assumes "schema_table.consistent (db_schemas db)" and "buffer_laws lib"
    and "\<forall>r \<in> set (db_schemas db). stringify_parses lib (cursor_value ''schemaUid'' (schema_position r))"
    and "0 < limit" and "length (db_schemas db) < fuel"
    and "follow (\<lambda>c. schemas_handler lib opts db profile publisher c (Some limit)) fuel None = Inr rows"
  shows "rows = schemas_of db profile publisher"
proof -
  let ?all = "schemas_of db profile publisher"
  have sub: "set ?all \<subseteq> set (db_schemas db)" by (auto simp: schemas_of_def)
  have "position_ok (schema_position r)" if "r \<in> set ?all" for r
    using schema_table.consistent_member [OF assms(1), of r] that sub
    by (auto simp: position_ok_def schema_position_def schema_row_ok_def uint32_range_def uint32_int_def uint32_max_def
        int4_range_def MAX_POSTGRES_INTEGER_def)
  then have decode: "\<forall>r \<in> set ?all. decode_schema_cursor lib (encode_schema_cursor lib (schema_position r)) = Some (schema_position r)"
    unfolding decode_schema_cursor_def encode_schema_cursor_def
    using assms(3) sub by (intro ballI decode_encode_cursor [OF assms(2)]) (auto simp: cursor_keys_def)
  have sorted: "sorted_wrt (\<lambda>r q. schema_position r < schema_position q) ?all"
    unfolding schemas_of_def
    by (intro sorted_strictly distinct_positions [of _ profile] consistent_filter assms(1)) simp
  have "length ?all \<le> length (db_schemas db)" by (simp add: schemas_of_def)
  then have "length (rows_after schema_position ?all None) < fuel" using assms(5) by (simp add: rows_after_def)
  then show ?thesis
    using follow_pages [OF decode assms(4,6), of None] all_keyset_pages [OF sorted assms(4)]
    by (simp add: stands_for_def rows_after_def)
qed

end
