(* ===== verification/Pilot_Issue.thy ===== *)
theory Pilot_Issue
  imports Pilot_Records Core_Guarantees Server_Timelines Server_Handlers
begin

text \<open>
  The pilot network with a schema and a credential: the rows of a registration whose UID is the computed one, a ledger
  in which a credential is created and accepted, the tables after the indexer has persisted that ledger, and the snapshot a
  server reads. The theorems about the server are applied to these.
\<close>

section \<open>The libraries of the server\<close>

text \<open>The Ripple epoch is that of Unix; \<open>JSON.stringify\<close> is the canonical text.\<close>

abbreviation sample_server_tools :: "unit server_lib_ext" where
  "sample_server_tools \<equiv> server_lib.fields (\<lambda>_. 0) (\<lambda>v. value_text (sort_keys v))
     sample_bytes_to_hex (\<lambda>s. case sample_hex_to_bytes s of None \<Rightarrow> [] | Some bs \<Rightarrow> bs)
     (\<lambda>bs. case decode_utf8 bs of Inl _ \<Rightarrow> [] | Inr s \<Rightarrow> s)"

definition sample_server :: "jsval list \<Rightarrow> server_lib" where
  "sample_server known = sample_with known sample_server_tools"

lemma sample_server_fields [simp]:
  "ripple_time_to_unix_time (sample_server known) t = 0"
  "json_stringify (sample_server known) v = value_text (sort_keys v)"
  "buffer_to_base64url (sample_server known) = sample_bytes_to_hex"
  "buffer_from_base64url (sample_server known) s = (case sample_hex_to_bytes s of None \<Rightarrow> [] | Some bs \<Rightarrow> bs)"
  "buffer_to_utf8 (sample_server known) bs = (case decode_utf8 bs of Inl _ \<Rightarrow> [] | Inr s \<Rightarrow> s)"
  by (simp_all add: sample_server_def sample_with_def server_lib.defs)

lemma sample_buffer_laws: "buffer_laws (sample_server known)"
proof -
  have "decode_utf8 (encode_utf8 s) = Inr s" if "well_formed s" for s using that by (simp add: decode_utf8_eq_Inr)
  then show ?thesis by (simp add: buffer_laws_def sample_hex_decode)
qed

section \<open>A registered schema\<close>

definition issue_resolved :: resolved_schema where
  "issue_resolved = \<lparr>resolved_definition = sample_schema, resolved_fields = sample_fields_decl, lineage = []\<rparr>"

definition issue_uid_input :: schema_uid_input where
  "issue_uid_input = \<lparr>uid_network_id = NInt 2, uid_ledger_hash = pilot_hash, uid_ledger_index = NInt 7,
     uid_transaction_index = NInt 0, uid_publisher = lit ''r'', uid_schema = schema_value sample_schema\<rparr>"

definition issue_uid :: jstr where
  "issue_uid = (case compute_schema_uid (sample_lib []) issue_uid_input of Inr uid \<Rightarrow> uid | Inl _ \<Rightarrow> [])"

lemma issue_uid: "compute_schema_uid (sample_with known extra) issue_uid_input = Inr issue_uid"
proof -
  have "json_value (uid_preimage issue_uid_input sample_schema)"
    using json_value_schema [OF sample_schema_ok] by (simp add: uid_preimage_def issue_uid_input_def)
      (simp add: pilot_hash_def)
  from sample_encode [OF this, of "[]"] obtain bs where
    bs: "encode_canonical_json (sample_lib []) (uid_preimage issue_uid_input sample_schema) = Inr bs" ..
  have same: "encode_canonical_json (sample_with known extra) v = encode_canonical_json (sample_lib []) v" for v
    by (simp add: encode_canonical_json_def canonical_json_def)
  have "compute_schema_uid (sample_lib []) issue_uid_input = Inr (sha256_hex (sample_lib []) bs)"
    using parse_schema_value [OF sample_schema_ok] bs hash64_imp_any [OF pilot_hash_ok]
    unfolding compute_schema_uid_Inr by (auto simp: issue_uid_input_def uint32_max_def sha256_hex_def)
  moreover from this have "compute_schema_uid (sample_with known extra) issue_uid_input = Inr (sha256_hex (sample_lib []) bs)"
    unfolding compute_schema_uid_Inr by (simp add: same sha256_hex_def)
  ultimately show ?thesis by (simp add: issue_uid_def)
qed

lemma issue_uid_ok [simp]: "hash64 issue_uid"
  using compute_schema_uid_hash64 [OF issue_uid [of "[]" "()"] sample_hex_laws sample_sha256_size] .

definition issue_registration :: schema_registration where
  "issue_registration = \<lparr>rg_hash = pilot_hash, rg_index = 0, rg_publisher = lit ''r'',
     rg_outcome = Registration_Accepted issue_uid (schema_value sample_schema) sample_schema issue_resolved\<rparr>"

definition issue_event_row :: schema_event_row where
  "issue_event_row = event_row_of (lit ''t'') pilot_ledger issue_registration"

definition issue_schema_row :: schema_row where
  "issue_schema_row = schema_row_of (lit ''t'') pilot_ledger issue_registration issue_uid sample_schema issue_resolved"

definition registered_database :: database where
  "registered_database = pilot_caught_up\<lparr>db_schema_events := [issue_event_row], db_schemas := [issue_schema_row]\<rparr>"

lemma issue_texts [simp]:
  "storable_json (schema_value sample_schema)" "storable_json (resolved_value issue_resolved)"
  by (auto simp: schema_value_def sample_schema_def sample_fields_decl_def fields_value_def relation_value_def storable_ascii
      resolved_value_def issue_resolved_def optional_value_def)

lemma issue_rows_ok: "schema_event_row_ok issue_event_row" "schema_row_ok issue_schema_row"
  by (simp_all add: issue_event_row_def event_row_of_def issue_registration_def schema_event_row_ok_def
    issue_schema_row_def schema_row_of_def schema_row_ok_def pilot_ledger_def uint32_range_def int4_range_def storable_ascii memo_of_outcome_def)
    (simp add: sample_schema_def storable_ascii)

lemma registered_ok: "repository_ok registered_database"
proof -
  have "database_ok pilot_caught_up" "chains_ok pilot_caught_up" using pilot_caught_up_ok by (simp_all add: repository_ok_def)
  moreover have keys: "se_profile issue_event_row = lit ''t''" "se_hash issue_event_row = pilot_hash"
    "sc_profile issue_schema_row = lit ''t''" "sc_hash issue_schema_row = pilot_hash"
    by (simp_all add: issue_event_row_def event_row_of_def issue_schema_row_def schema_row_of_def issue_registration_def)
  ultimately show ?thesis
    using issue_rows_ok unfolding repository_ok_def
    by (simp add: database_ok_def registered_database_def chains_ok_def profile_checkpoints_def
        schema_event_table.consistent_def schema_table.consistent_def has_profile_def has_schema_event_def pilot_database_def
        empty_database_def) (simp add: profile_row_of_def)
qed

section \<open>The payload and its URI\<close>

definition issue_payload :: credential_payload where
  "issue_payload = \<lparr>payload_issuer = lit ''ri'', payload_subject = lit ''rs'', payload_schema = issue_uid,
     payload_claims = sample_claims\<rparr>"

definition issue_context :: credential_context where
  "issue_context = \<lparr>ctx_issuer = lit ''ri'', ctx_subject = lit ''rs'', ctx_schema_uid = issue_uid, ctx_fields = sample_fields_decl\<rparr>"

definition issue_bytes :: "byte list" where
  "issue_bytes = encode_utf8 (value_text (sort_keys (payload_value issue_payload)))"

definition issue_uri :: jstr where
  "issue_uri = lit ''ipfs://'' @ sample_create_cid (take 32 (issue_bytes @ replicate 32 0))"

definition issue_hex :: jstr where
  "issue_hex = sample_bytes_to_hex (encode_utf8 issue_uri)"

lemma hash64_well_formed: "hash64 s \<Longrightarrow> wf_scan s \<and> well_formed s"
proof -
  assume "hash64 s"
  then have "\<forall>c \<in> set s. unat c < 0xd800" by (auto simp: hash64_def list_all_iff class_unat)
  then show ?thesis using wf_scan_small by blast
qed

lemma issue_payload_json: "json_value (payload_value issue_payload)"
  using sample_claims_value hash64_well_formed [OF issue_uid_ok]
  by (simp add: payload_value_def payload_object_def issue_payload_def)

lemma issue_bytes: "encode_canonical_json (sample_with known extra) (payload_value issue_payload) = Inr issue_bytes"
  using issue_payload_json by (simp add: encode_canonical_json_Inr canonical_json_Inr sample_canonicalize_def issue_bytes_def)

lemma issue_payload_bytes: "payload_bytes (Bytes issue_bytes) = Inr issue_bytes"
proof -
  have "length issue_uid = 64" using issue_uid_ok by (simp add: hash64_def)
  then have "2 * text_size (payload_value issue_payload) \<le> MAX_PAYLOAD_BYTES"
    using length_dec_str [of 42 2]
    by (simp add: payload_value_def payload_object_def issue_payload_def sample_claims_def MAX_PAYLOAD_BYTES_def)
  then show ?thesis
    using sample_encode_size [OF issue_bytes [of "[]" "()"]] by (simp add: payload_bytes_Inr)
qed

lemma issue_uri: "create_ipfs_payload_uri (sample_with known extra) (Bytes issue_bytes) = Inr issue_uri"
  by (simp add: create_ipfs_payload_uri_def issue_payload_bytes issue_uri_def)

lemma issue_uri_parses: "\<exists>r. parse_payload_uri (sample_with known extra) issue_uri = Inr r"
  using parse_created_ipfs [OF issue_uri [of known extra] sample_hex_laws sample_sha256_size sample_cid_laws] by blast

lemma issue_hex_decodes: "decode_hex_utf8 (sample_with known extra) issue_hex = Inr issue_uri"
proof -
  have "unat c < 128" if "c \<in> set (sample_create_cid d)" for c d
    using that sample_hex_lower [of d] base32_of_hex base32_small
    by (auto simp: sample_create_cid_def ch_def list_all_iff)
  then have "\<forall>c \<in> set issue_uri. unat c < 0xd800"
    using lit_cu_small by (fastforce simp: issue_uri_def)
  then have "well_formed issue_uri" using wf_scan_small by blast
  then show ?thesis
    by (simp add: decode_hex_utf8_def issue_hex_def sample_hex_decode decode_utf8_eq_Inr)
qed

section \<open>The ledger\<close>

definition issue_hash :: "char \<Rightarrow> jstr" where
  "issue_hash c = lit (replicate 64 c)"

lemma issue_hash_ok [simp]: "c \<in> {CHR ''b'', CHR ''c''} \<Longrightarrow> hash64 (issue_hash c)"
  by (auto simp: hash64_def issue_hash_def lit_def list_all_iff class_unat)

definition issue_fields :: "bool \<Rightarrow> jsval" where
  "issue_fields acc = JObj Plain
     ([(lit ''Issuer'', jlit ''ri''), (lit ''Subject'', jlit ''rs''), (lit ''CredentialType'', JStr issue_uid),
       (lit ''URI'', JStr issue_hex)] @ (if acc then [(lit ''Flags'', jint CREDENTIAL_ACCEPTED_FLAG)] else []))"

definition issue_node :: "string \<Rightarrow> string \<Rightarrow> bool \<Rightarrow> jsval" where
  "issue_node kind fields_name acc = JObj Plain [(lit kind, JObj Plain
     [(lit ''LedgerEntryType'', jlit ''Credential''), (lit ''LedgerIndex'', JStr pilot_hash), (lit fields_name, issue_fields acc)])]"

definition issue_transaction :: "jstr \<Rightarrow> int \<Rightarrow> jsval list \<Rightarrow> ledger_transaction" where
  "issue_transaction hash index nodes = \<lparr>lt_hash = hash, lt_transaction = JObj Plain [],
     lt_metadata = JObj Plain [(lit ''AffectedNodes'', JArr nodes)], lt_index = index\<rparr>"

definition issue_ledger :: validated_ledger where
  "issue_ledger = pilot_ledger\<lparr>vl_transactions :=
     [issue_transaction pilot_hash 0 [], issue_transaction (issue_hash CHR ''b'') 1 [issue_node ''CreatedNode'' ''NewFields'' False],
      issue_transaction (issue_hash CHR ''c'') 2 [issue_node ''ModifiedNode'' ''FinalFields'' True]]\<rparr>"

definition issue_catalog :: catalog where
  "issue_catalog = [issue_uid \<mapsto> the (entry_of_registration pilot_profile 7 issue_registration)]"

definition issue_mutation :: "bool \<Rightarrow> credential_mutation" where
  "issue_mutation acc = \<lparr>cm_hash = issue_hash (if acc then CHR ''c'' else CHR ''b''), cm_index = (if acc then 2 else 1), cm_node_index = 0,
     cm_object_id = pilot_hash, cm_event = (if acc then Accepted else Created), cm_issuer = lit ''ri'', cm_subject = lit ''rs'',
     cm_schema_uid = issue_uid, cm_uri_hex = Some issue_hex, cm_expiration = None, cm_accepted = acc, cm_cause = None,
     cm_snapshot = issue_fields acc\<rparr>"

definition issue_projection :: ledger_projection where
  "issue_projection = \<lparr>lp_ledger = issue_ledger, lp_registrations = [],
     lp_mutations = [issue_mutation False, issue_mutation True], lp_malformed = 0\<rparr>"

lemma issue_fields_get:
  "get (issue_fields acc) ''Issuer'' = jlit ''ri''" "get (issue_fields acc) ''Subject'' = jlit ''rs''"
  "get (issue_fields acc) ''CredentialType'' = JStr issue_uid" "get (issue_fields acc) ''URI'' = JStr issue_hex"
  "get (issue_fields acc) ''Expiration'' = JUndef"
  "get (issue_fields acc) ''Flags'' = (if acc then jint CREDENTIAL_ACCEPTED_FLAG else JUndef)"
  by (simp_all add: issue_fields_def prop_of_JObj)

lemma issue_node_outcome:
  assumes "kind = (if acc then ''ModifiedNode'' else ''CreatedNode'')" and "fields_name = (if acc then ''FinalFields'' else ''NewFields'')"
    and "known issue_uid" and "hash = issue_hash (if acc then CHR ''c'' else CHR ''b'')" "index = (if acc then 2 else 1)"
  shows "node_outcome_of (sample_with ls extra) (issue_transaction hash index nodes) close known (issue_node kind fields_name acc) 0 =
    Mutation (issue_mutation acc)"
proof -
  let ?node = "issue_node kind fields_name acc"
  let ?inner = "JObj Plain [(lit ''LedgerEntryType'', jlit ''Credential''), (lit ''LedgerIndex'', JStr pilot_hash), (lit fields_name, issue_fields acc)]"
  have inner: "get ?node kind = ?inner" "get ?node ''DeletedNode'' = JUndef" "\<not> acc \<Longrightarrow> get ?node ''ModifiedNode'' = JUndef"
    "acc \<Longrightarrow> get ?node ''CreatedNode'' = JUndef"
    using assms(1) by (auto simp: issue_node_def prop_of_JObj)
  have cred: "is_credential_node ?inner" "\<not> is_credential_node JUndef"
    by (simp_all add: is_credential_node_def object_like_def prop_of_JObj)
  have "contains_credential ?node"
    using inner cred assms(1) by (cases acc) (simp_all add: contains_credential_def node_kinds_def object_like_def issue_node_def)
  moreover have "normalize_node ?node = Some \<lparr>nn_kind = (if acc then Modified_Node else Created_Node), nn_object_id = pilot_hash,
      nn_fields = issue_fields acc, nn_previous = JObj Plain []\<rparr>"
  proof -
    have "js_record ?node = Some ?node" by (simp add: js_record_def object_like_def issue_node_def)
    moreover have "normalize_kind ?inner (if acc then Modified_Node else Created_Node) =
        Some \<lparr>nn_kind = (if acc then Modified_Node else Created_Node), nn_object_id = pilot_hash,
          nn_fields = issue_fields acc, nn_previous = JObj Plain []\<rparr>"
    proof -
      have "object_like (issue_fields acc)" by (simp add: object_like_def issue_fields_def)
      then show ?thesis
        using assms(2) hash64_imp_any [OF pilot_hash_ok]
        by (cases acc) (simp_all add: normalize_kind_def Let_def prop_of_JObj object_like_def)
    qed
    ultimately show ?thesis
      using inner cred assms(1) by (cases acc) (simp_all add: normalize_node_def node_kinds_def)
  qed
  moreover have "rbind (decode_hex_utf8 (sample_with ls extra) issue_hex) (parse_payload_uri (sample_with ls extra)) =
      parse_payload_uri (sample_with ls extra) issue_uri" by (simp add: issue_hex_decodes)
  moreover obtain r where "parse_payload_uri (sample_with ls extra) issue_uri = Inr r" using issue_uri_parses [of ls extra] by blast
  moreover have flag: "is_accepted (issue_fields acc) = acc" "uint32_of (jint CREDENTIAL_ACCEPTED_FLAG) = Some CREDENTIAL_ACCEPTED_FLAG"
    "uint32_of JUndef = None"
    by (simp_all add: is_accepted_def issue_fields_get uint32_of_def flag_set_def CREDENTIAL_ACCEPTED_FLAG_def
        has_flag_def integer_part_def uint32_max_def)
  ultimately show ?thesis
    using assms(3-5) hash64_imp_any [OF issue_uid_ok] hash64_lower [OF issue_uid_ok]
    by (cases acc) (simp_all add: node_outcome_of_def issue_fields_get well_typed_flags_def event_of_node_def Let_def
        issue_mutation_def issue_transaction_def flag_set_def prop_of_JObj issue_fields_def)
qed

lemma issue_projects: "project_ledger (sample_with ls extra) issue_ledger pilot_profile issue_catalog = Inr issue_projection"
proof -
  have registers: "interpret_schema_registration (sample_with ls extra) (issue_transaction hash index nodes) issue_ledger pilot_profile cat = None"
    for hash index nodes cat
    by (simp add: interpret_schema_registration_def extract_registration_envelope_def issue_transaction_def array_items_def Let_def prop_of_JObj)
  have nodes: "array_items (get (lt_metadata (issue_transaction hash index nodes)) ''AffectedNodes'') = nodes" for hash index nodes
    by (simp add: issue_transaction_def prop_of_JObj array_items_def)
  have known: "issue_catalog issue_uid \<noteq> None" by (simp add: issue_catalog_def)
  have txs: "vl_transactions issue_ledger = [issue_transaction pilot_hash 0 [],
      issue_transaction (issue_hash CHR ''b'') 1 [issue_node ''CreatedNode'' ''NewFields'' False],
      issue_transaction (issue_hash CHR ''c'') 2 [issue_node ''ModifiedNode'' ''FinalFields'' True]]"
    by (simp add: issue_ledger_def)
  have ordered: "ordered_from 0 (vl_transactions issue_ledger)" by (simp add: txs issue_transaction_def)
  have created: "node_outcome_of (sample_with ls extra) (issue_transaction (issue_hash CHR ''b'') 1 [issue_node ''CreatedNode'' ''NewFields'' False])
      close (\<lambda>uid. issue_catalog uid \<noteq> None) (issue_node ''CreatedNode'' ''NewFields'' False) 0 = Mutation (issue_mutation False)" for close
    by (rule issue_node_outcome) (simp_all add: known)
  have changed: "node_outcome_of (sample_with ls extra) (issue_transaction (issue_hash CHR ''c'') 2 [issue_node ''ModifiedNode'' ''FinalFields'' True])
      close (\<lambda>uid. issue_catalog uid \<noteq> None) (issue_node ''ModifiedNode'' ''FinalFields'' True) 0 = Mutation (issue_mutation True)" for close
    by (rule issue_node_outcome) (simp_all add: known)
  show ?thesis
    using ordered created changed
    by (simp add: project_ledger_def assert_transaction_ordering_def txs registers extract_credential_mutations_def nodes Let_def
        issue_projection_def)
qed

section \<open>The tables\<close>

definition issue_generation :: "bool \<Rightarrow> generation_row" where
  "issue_generation acc = (generation_row_of (lit ''t'') issue_ledger (issue_mutation False))\<lparr>gr_accepted := acc\<rparr>"

definition issue_events :: "event_row list" where
  "issue_events = map (\<lambda>acc. event_row_of_mutation (lit ''t'') issue_ledger (issue_mutation acc) (issue_hash CHR ''b'')) [False, True]"

definition issue_database :: database where
  "issue_database = registered_database\<lparr>db_generations := [issue_generation True], db_events := issue_events,
     db_checkpoints := [checkpoint_row_of (lit ''t'') issue_ledger], db_statuses := [running_row Ready True]\<rparr>"

lemma issue_index: "vl_index issue_ledger = 7" "vl_hash issue_ledger = pilot_hash"
  by (simp_all add: issue_ledger_def pilot_ledger_def)

lemma issue_storable: "hash64_any s \<Longrightarrow> storable_text s" "list_all is_lower_hex s \<Longrightarrow> storable_text s" "list_all is_lower_hex s \<Longrightarrow> wf_scan s \<and> well_formed s"
proof -
  show "hash64_any s \<Longrightarrow> storable_text s" "list_all is_lower_hex s \<Longrightarrow> storable_text s"
    by (auto simp: storable_text_def hash64_any_def list_all_iff class_unat)
  assume "list_all is_lower_hex s"
  then have "\<forall>c \<in> set s. unat c < 0xd800" by (auto simp: list_all_iff class_unat)
  then show "wf_scan s \<and> well_formed s" using wf_scan_small by blast
qed

lemma issue_event_rows_ok:
  "event_row_ok (event_row_of_mutation (lit ''t'') issue_ledger (issue_mutation acc) (issue_hash CHR ''b''))"
proof -
  have "list_all is_lower_hex issue_hex" by (simp add: issue_hex_def sample_hex_lower)
  then have "storable_json (issue_fields acc)"
    using issue_storable hash64_imp_any [OF issue_uid_ok] hash64_well_formed [OF issue_uid_ok]
    by (simp add: issue_fields_def storable_ascii CREDENTIAL_ACCEPTED_FLAG_def)
  then show ?thesis
    by (simp add: event_row_ok_def event_row_of_mutation_def issue_mutation_def issue_index uint32_range_def int4_range_def)
qed

lemma issue_persist:
  "persist_ledger lib 0 0 pilot_profile issue_projection (pilot_token ''w'' 1) Ready (tips_input True) registered_database =
     Inr (Inserted, issue_database)"
proof -
  let ?g = issue_generation and ?db1 = "registered_database\<lparr>db_generations := [issue_generation False]\<rparr>"
  let ?ev = "\<lambda>acc. event_row_of_mutation (lit ''t'') issue_ledger (issue_mutation acc) (issue_hash CHR ''b'')"
  have start: "db_profiles registered_database = [profile_row_of pilot_profile]" "db_statuses registered_database = [running_row Catching_Up False]"
    "db_checkpoints registered_database = []" "db_generations registered_database = []" "db_events registered_database = []"
    "db_schemas registered_database = [issue_schema_row]"
    by (simp_all add: registered_database_def pilot_database_def empty_database_def)
  have profile: "has_profile db (lit ''t'')" if "db_profiles db = db_profiles registered_database" for db
    using that by (simp add: start has_profile_def) (simp add: profile_row_of_def)
  have schema: "has_schema db (lit ''t'') issue_uid" if "db_schemas db = [issue_schema_row]" for db
    using that by (simp add: has_schema_def issue_schema_row_def schema_row_of_def)
  have row: "generation_row_of (lit ''t'') issue_ledger (issue_mutation False) = ?g False"
    by (simp add: issue_generation_def generation_row_of_def issue_mutation_def)
  have keys: "gr_profile (?g acc) = lit ''t''" "gr_schema_uid (?g acc) = issue_uid" "gr_id (?g acc) = issue_hash CHR ''b''"
    "gr_object_id (?g acc) = pilot_hash" "live (?g acc)" "accept_generation issue_ledger (?g acc) = ?g True" "generation_row_ok (?g acc)" for acc
    by (simp_all add: issue_generation_def generation_row_of_def issue_mutation_def live_def accept_generation_def issue_index
        generation_row_ok_def uint32_range_def int4_range_def)
  have m: "cm_event (issue_mutation acc) = (if acc then Accepted else Created)" "cm_hash (issue_mutation False) = issue_hash CHR ''b''"
    "cm_object_id (issue_mutation acc) = pilot_hash" for acc
    by (simp_all add: issue_mutation_def)
  have ce: "ce_profile (?ev acc) = lit ''t''" "ce_schema_uid (?ev acc) = issue_uid" "ce_generation (?ev acc) = issue_hash CHR ''b''"
    "ce_hash (?ev acc) = issue_hash (if acc then CHR ''c'' else CHR ''b'')" for acc
    by (simp_all add: event_row_of_mutation_def issue_mutation_def)
  have apart: "issue_hash CHR ''c'' \<noteq> issue_hash CHR ''b''" by (simp add: issue_hash_def)
  have created: "persist_credential_mutation (lit ''t'') issue_ledger (issue_mutation False) registered_database =
      Inr (?db1\<lparr>db_events := [?ev False]\<rparr>)"
    using start profile schema issue_event_rows_ok [of False]
    by (simp add: persist_credential_mutation_def persist_generation_def insert_generation_def insert_row_def row keys m
        insert_credential_event_def insert_or_skip_def ce has_generation_def)
  have "live_generation (?db1\<lparr>db_events := [?ev False]\<rparr>) (lit ''t'') pilot_hash = Some (?g False)"
    by (simp add: live_generation_def keys latest_by_def)
  then have accepted: "persist_credential_mutation (lit ''t'') issue_ledger (issue_mutation True) (?db1\<lparr>db_events := [?ev False]\<rparr>) =
      Inr (registered_database\<lparr>db_generations := [?g True], db_events := issue_events\<rparr>)"
    using start profile schema issue_event_rows_ok [of True] apart
    by (simp add: persist_credential_mutation_def persist_generation_def update_generation_def update_rows_def keys m
        insert_credential_event_def insert_or_skip_def insert_row_def ce has_generation_def same_event_def issue_events_def)
  let ?db2 = "registered_database\<lparr>db_generations := [?g True], db_events := issue_events\<rparr>"
  have "checkpoint_row_ok (checkpoint_row_of (lit ''t'') issue_ledger)"
    using pilot_checkpoint_ok by (simp add: checkpoint_row_ok_def checkpoint_row_of_def issue_ledger_def int4_range_def)
  then have "insert_checkpoint (checkpoint_row_of (lit ''t'') issue_ledger) ?db2 =
      Inr (?db2\<lparr>db_checkpoints := [checkpoint_row_of (lit ''t'') issue_ledger]\<rparr>)"
    using start profile by (simp add: insert_checkpoint_def insert_row_def) (simp add: checkpoint_row_of_def)
  then have "persist_projection lib (lit ''t'') issue_projection registered_database =
      Inr (?db2\<lparr>db_checkpoints := [checkpoint_row_of (lit ''t'') issue_ledger]\<rparr>)"
    using created accepted by (simp add: persist_projection_def issue_projection_def)
  from pilot_persists [OF this _ _ start(1-3)] show ?thesis
    using start by (simp add: issue_projection_def issue_index issue_database_def)
qed

lemma issue_persist_ok: "repository_ok issue_database"
proof -
  have "run_call (sample_lib []) 0 0 (Persist pilot_profile issue_projection (pilot_token ''w'' 1) Ready (tips_input True)) registered_database =
      Inr issue_database"
    by (simp add: issue_persist)
  then show ?thesis using run_call_ok [OF registered_ok] by blast
qed

section \<open>The snapshot of a server\<close>

definition issue_snapshot :: snapshot where
  "issue_snapshot = database.extend issue_database (snapshot.fields [] 0)"

abbreviation issue_options :: api_options where
  "issue_options \<equiv> \<lparr>ao_clock = None, ao_max_age = None\<rparr>"

abbreviation issue_checkpoint :: checkpoint_row where
  "issue_checkpoint \<equiv> checkpoint_row_of (lit ''t'') issue_ledger"

lemma issue_snapshot_fields [simp]:
  "db_profiles issue_snapshot = [profile_row_of pilot_profile]" "db_statuses issue_snapshot = [running_row Ready True]"
  "db_checkpoints issue_snapshot = [issue_checkpoint]" "db_schemas issue_snapshot = [issue_schema_row]"
  "db_schema_events issue_snapshot = [issue_event_row]" "db_generations issue_snapshot = [issue_generation True]"
  "db_events issue_snapshot = issue_events" "sn_disabled issue_snapshot = []" "sn_now issue_snapshot = 0"
  "database.truncate issue_snapshot = issue_database"
  by (simp_all add: issue_snapshot_def database.defs snapshot.defs issue_database_def registered_database_def pilot_database_def)

lemma issue_network: "get_network issue_snapshot (lit ''t'') = Some (profile_row_of pilot_profile)"
  by (simp add: get_network_def first_row_def) (simp add: profile_row_of_def)

lemma issue_status: "get_indexer_status issue_snapshot (lit ''t'') = Some (running_row Ready True)"
  by (simp add: get_indexer_status_def first_row_def) (simp add: running_row_def)

lemma issue_latest: "get_latest_checkpoint issue_snapshot (lit ''t'') = Some issue_checkpoint"
  by (simp add: get_latest_checkpoint_def descending_def first_row_def) (simp add: checkpoint_row_of_def)

lemma issue_ready: "assert_indexer_ready (Some (running_row Ready True)) (Some 0) = Inr (running_row Ready True)"
  by (simp add: assert_indexer_ready_def running_row_def lease_is_live_def tips_agree_def uint32_int_def uint32_max_def)

lemma issue_authoritative:
  assumes "set indexes \<subseteq> {7}"
  shows "assert_authoritative_ledger_evidence (sample_server known)
    \<lparr>le_profile = lit ''t'', le_status = Some (running_row Ready True), le_checkpoint = Some issue_checkpoint, le_now = Some 0,
     le_max_age = NInt DEFAULT_LEDGER_MAX_AGE_SECONDS, le_minimum = Some 7, le_projections = indexes\<rparr> =
     Inr (running_row Ready True, issue_checkpoint)"
proof -
  have "checkpoint_matches (lit ''t'') (running_row Ready True) issue_checkpoint"
    by (simp add: checkpoint_matches_def running_row_def checkpoint_row_of_def issue_ledger_def pilot_ledger_def uint32_int_def uint32_max_def)
  moreover have "within_indexed 7 issue_checkpoint indexes"
    using assms by (auto simp: within_indexed_def checkpoint_row_of_def issue_index list_all_iff)
  moreover have "assert_fresh_ledger_checkpoint (sample_server known) (Some (ck_close_time issue_checkpoint)) (Some 0)
      (NInt DEFAULT_LEDGER_MAX_AGE_SECONDS) = Inr ()"
    by (simp add: assert_fresh_Inr checkpoint_row_of_def issue_ledger_def pilot_ledger_def uint32_int_def uint32_max_def DEFAULT_LEDGER_MAX_AGE_SECONDS_def MAX_SAFE_INTEGER_def)
  ultimately show ?thesis by (simp add: authoritative_evidence_Inr issue_ready)
qed

lemma issue_activation: "np_activation_index (profile_row_of pilot_profile) = 7"
  by (simp add: profile_row_of_def pilot_profile_def)

lemma issue_read:
  assumes "rows (profile_row_of pilot_profile) = Inr (found, indexes)" and "set indexes \<subseteq> {7}"
  shows "authoritative_read (sample_server known) issue_options issue_snapshot (lit ''t'') rows answer =
    answer (profile_row_of pilot_profile) found issue_checkpoint"
  using assms issue_authoritative [OF assms(2), of known]
  by (simp add: authoritative_read_def issue_network authoritative_time_def current_time_def preflight_authoritative_read_def issue_status
      issue_ready require_authoritative_checkpoint_def issue_latest max_ledger_age_seconds_def issue_activation)

section \<open>The timeline\<close>

lemma issue_generation_fields [simp]:
  "gr_profile (issue_generation acc) = lit ''t''" "gr_id (issue_generation acc) = issue_hash CHR ''b''"
  "gr_object_id (issue_generation acc) = pilot_hash" "gr_issuer (issue_generation acc) = lit ''ri''"
  "gr_subject (issue_generation acc) = lit ''rs''" "gr_schema_uid (issue_generation acc) = issue_uid"
  "gr_uri_hex (issue_generation acc) = Some issue_hex" "gr_expiration (issue_generation acc) = None"
  "gr_accepted (issue_generation acc) = acc" "gr_created_ledger (issue_generation acc) = 7" "gr_created_index (issue_generation acc) = 1"
  "gr_last_ledger (issue_generation acc) = 7" "gr_deleted_ledger (issue_generation acc) = None" "gr_cause (issue_generation acc) = None"
  by (simp_all add: issue_generation_def generation_row_of_def issue_mutation_def issue_index)

lemma issue_query: "get_credential_generation_by_id issue_snapshot (lit ''t'') (issue_hash CHR ''b'') = Some (issue_generation True)"
  by (simp add: get_credential_generation_by_id_def first_row_def)

lemma issue_hex_bytes: "hex_bytes issue_hex"
  by (rule hex_bytes_decoded [OF sample_hex_laws issue_hex_decodes])

lemma issue_timeline:
  "get_credential_events_by_generation issue_snapshot (lit ''t'') (issue_hash CHR ''b'') 101 = issue_events"
  "public_credential_timeline (sample_server known) issue_events (issue_generation True) 7 = Inr issue_events"
proof -
  have sorted: "sorted_wrt (\<lambda>r q. event_position r < event_position q) issue_events"
    by (simp add: issue_events_def event_position_def event_row_of_mutation_def issue_mutation_def)
  have "filter (\<lambda>e. ce_profile e = lit ''t'' \<and> ce_generation e = issue_hash CHR ''b'') issue_events = issue_events"
    by (simp add: issue_events_def event_row_of_mutation_def)
  then show "get_credential_events_by_generation issue_snapshot (lit ''t'') (issue_hash CHR ''b'') 101 = issue_events"
    using sort_key_strictly_sorted [OF sorted]
    by (simp add: get_credential_events_by_generation_def) (simp add: issue_events_def)
  have "list_all (event_shown (sample_server known) 7 (issue_generation True)) issue_events"
    using hash64_imp_any issue_hex_bytes
    by (simp add: issue_events_def event_shown_def event_row_of_mutation_def issue_mutation_def same_tuple_def event_coordinates_ok_def
        event_type_ok_def same_object_def issue_index MAX_NODE_INDEX_def uint32_max_def sample_server_def take_lit)
  moreover have "timeline_ok (issue_generation True) issue_events"
    by (simp add: issue_events_def timeline_ok_def timeline_start_ok_def timeline_end_ok_def event_row_of_mutation_def issue_mutation_def
        issue_index events_of_type_def)
  ultimately show "public_credential_timeline (sample_server known) issue_events (issue_generation True) 7 = Inr issue_events"
    using sorted by (simp add: public_timeline_iff) (simp add: issue_events_def)
qed

lemma issue_handled:
  "generation_handler (sample_server known) issue_options issue_snapshot (lit ''t'') (issue_hash CHR ''b'') =
     Inr \<lparr>sg_generation = issue_generation True, sg_state = Active, sg_timeline = issue_events\<rparr>"
proof -
  have lower: "to_lower (issue_hash CHR ''b'') = issue_hash CHR ''b''" by (rule hash64_lower) simp
  have index: "set (map ce_ledger_index issue_events) \<subseteq> {7}"
    by (simp add: issue_events_def event_row_of_mutation_def issue_index)
  have shown: "public_credential_generation (sample_server known) (issue_generation True)
      (generation_expectation_of (profile_row_of pilot_profile) (lit ''t'') issue_checkpoint (issue_hash CHR ''b'')) = Inr (issue_generation True)"
    using issue_hex_bytes by (simp add: public_credential_generation_def assert_credential_generation_evidence_def generation_expectation_of_def
        expected_value_def valid_deletion_shape_def issue_activation MAX_NODE_INDEX_def sample_server_def take_lit checkpoint_row_of_def issue_index)
  have state: "credential_generation_state (issue_generation True) (ck_close_time issue_checkpoint) = Inr Active"
    by (simp add: generation_state_Inr state_at_def live_def checkpoint_row_of_def issue_ledger_def pilot_ledger_def uint32_int_def uint32_max_def)
  show ?thesis
    using index by (simp add: generation_handler_def lower issue_query Let_def CREDENTIAL_GENERATION_TIMELINE_LIMIT_def issue_timeline
        issue_read shown state issue_activation)
qed

section \<open>The schema as the server reads it\<close>

abbreviation issue_evidence :: schema_evidence where
  "issue_evidence \<equiv> \<lparr>sv_schema = stored_of issue_schema_row, sv_registration = issue_event_row\<rparr>"

abbreviation issue_expectation :: projection_expectation where
  "issue_expectation \<equiv> schema_expectation (profile_row_of pilot_profile) (lit ''t'') issue_uid"

lemma issue_schema_fields [simp]:
  "sc_profile issue_schema_row = lit ''t''" "sc_uid issue_schema_row = issue_uid" "sc_hash issue_schema_row = pilot_hash"
  "sc_publisher issue_schema_row = lit ''r''" "sc_ledger_index issue_schema_row = 7" "sc_index issue_schema_row = 0"
  "xs_profile (stored_of issue_schema_row) = lit ''t''" "xs_uid (stored_of issue_schema_row) = issue_uid"
  "xs_publisher (stored_of issue_schema_row) = lit ''r''" "xs_parent (stored_of issue_schema_row) = None"
  "xs_supersedes (stored_of issue_schema_row) = None" "xs_definition (stored_of issue_schema_row) = schema_value sample_schema"
  "xs_resolved (stored_of issue_schema_row) = resolved_value issue_resolved" "xs_hash (stored_of issue_schema_row) = pilot_hash"
  "xs_ledger (stored_of issue_schema_row) = 7" "xs_index (stored_of issue_schema_row) = 0"
  "xs_name (stored_of issue_schema_row) = schema_name sample_schema"
  "xs_description (stored_of issue_schema_row) = description sample_schema"
  by (simp_all add: stored_of_def issue_schema_row_def schema_row_of_def issue_registration_def pilot_index)
    (simp_all add: sample_schema_def)

lemma sample_same_canonical: "json_value v \<Longrightarrow> same_canonical (sample_with known extra) v v = Inr ()"
proof -
  assume "json_value v"
  then have "canonical_json (sample_with known extra) v = Inr (value_text (sort_keys v))"
    by (simp add: canonical_json_Inr sample_canonicalize_def)
  then show ?thesis by (simp add: same_canonical_def)
qed

lemma issue_json: "json_value (schema_value sample_schema)" "json_value (resolved_value issue_resolved)"
  "json_value (fields_value sample_fields_decl)" "json_value (fingerprint_value (stored_of issue_schema_row))"
proof -
  show schema: "json_value (schema_value sample_schema)" using json_value_schema [OF sample_schema_ok] .
  show fields: "json_value (fields_value sample_fields_decl)"
    by (auto simp: fields_value_def sample_fields_decl_def optional_value_def)
  show resolved: "json_value (resolved_value issue_resolved)"
    using schema fields by (simp add: resolved_value_def issue_resolved_def)
  show "json_value (fingerprint_value (stored_of issue_schema_row))"
    using schema resolved hash64_well_formed [OF issue_uid_ok] hash64_well_formed [OF pilot_hash_ok]
    by (simp add: fingerprint_value_def optional_text_def) (simp add: sample_schema_def)
qed

lemma issue_fields_valid: "validate_projected_fields (sample_with known extra) (fields_value sample_fields_decl) = Inr sample_fields_decl"
proof -
  let ?s = "\<lparr>schema_name = lit ''Resolved projection'', description = lit ''Resolved projection fields.'',
    schema_fields = sample_fields_decl, extends = None, supersedes = None\<rparr>"
  have "schema_ok ?s"
    using sample_schema_ok by (simp add: schema_ok_def text_ok_def length_encode_lit sample_schema_def)
      (simp add: lit_def is_control_def)
  from parse_schema_value [OF this] have "parse_schema (JObj Plain
       [(lit ''xcsVersion'', jlit ''0.1''), (lit ''name'', jlit ''Resolved projection''),
        (lit ''description'', jlit ''Resolved projection fields.''), (lit ''fields'', fields_value sample_fields_decl)]) = Inr ?s"
    by (simp add: schema_value_def relation_value_def)
  then show ?thesis by (simp add: validate_projected_fields_def sample_same_canonical issue_json)
qed

lemma issue_stored: "stored_resolved_schema (sample_with known extra) (stored_of issue_schema_row) = Inr issue_resolved"
proof -
  note p = parse_schema_value [OF sample_schema_ok]
  have gets: "get (resolved_value issue_resolved) ''definition'' = schema_value sample_schema"
    "get (resolved_value issue_resolved) ''fields'' = fields_value sample_fields_decl"
    "get (resolved_value issue_resolved) ''lineage'' = JArr []" "is_record (resolved_value issue_resolved)"
    "\<forall>k \<in> set (entries_of (resolved_value issue_resolved)). fst k \<in> set RESOLVED_SCHEMA_KEYS"
    "length (entries_of (resolved_value issue_resolved)) = length RESOLVED_SCHEMA_KEYS"
    by (simp_all add: resolved_value_def issue_resolved_def prop_of_JObj RESOLVED_SCHEMA_KEYS_def)
  have none: "extends sample_schema = None" "supersedes sample_schema = None" by (simp_all add: sample_schema_def)
  show ?thesis
    by (simp add: stored_resolved_schema_def p sample_same_canonical issue_json assert_definition_metadata_def none gets Let_def
        issue_fields_valid lineage_ok_def ends_in_parent_def list_all_iff flip: issue_resolved_def)
qed

lemma issue_authoritative_schema:
  "authoritative_resolved_schema (sample_with known extra) (stored_of issue_schema_row) [issue_evidence] issue_expectation = Inr issue_resolved"
proof -
  have reg: "registration_matches (stored_of issue_schema_row) issue_event_row" "se_memo issue_event_row = Some (schema_value sample_schema)"
    "registration_uid_input issue_expectation issue_event_row sample_schema = issue_uid_input"
    by (simp_all add: registration_matches_def issue_event_row_def event_row_of_def issue_registration_def memo_of_outcome_def pilot_index
        registration_uid_input_def issue_uid_input_def schema_expectation_def profile_row_of_def)
      (simp_all add: pilot_profile_def)
  have coords: "coordinates_ok (sample_with known extra) issue_expectation (stored_of issue_schema_row)"
    by (simp add: coordinates_ok_def schema_expectation_def issue_activation uint32_max_def take_lit)
  have row: "validate_evidence_row (sample_with known extra) issue_expectation issue_evidence = Inr (stored_of issue_schema_row, issue_resolved)"
    using coords reg by (simp add: validate_evidence_row_def issue_stored parse_schema_value [OF sample_schema_ok] sample_same_canonical
        issue_json issue_uid) (simp add: issue_resolved_def sample_same_canonical issue_json issue_uid)
  have res: "lineage issue_resolved = []" "resolved_definition issue_resolved = sample_schema" "resolved_fields issue_resolved = sample_fields_decl"
    "extends sample_schema = None" "schema_fields sample_schema = sample_fields_decl"
    "\<lparr>resolved_definition = sample_schema, resolved_fields = sample_fields_decl, lineage = []\<rparr> = issue_resolved"
    by (simp_all add: issue_resolved_def sample_schema_def)
  have merged: "merge_fields [] sample_fields_decl = Inr sample_fields_decl"
    by (simp add: sample_fields_decl_def has_own_def)
  have chain: "check_chain (sample_with known extra) [] None [] [(issue_uid, stored_of issue_schema_row, issue_resolved)] = Inr sample_fields_decl"
    by (simp add: res merged issue_fields_valid sample_same_canonical issue_json)
  show ?thesis
    by (simp add: authoritative_resolved_schema_def fail_closed_Inr issue_stored evidence_by_uid_def res row chain sample_same_canonical
        issue_json merged issue_fields_valid) (simp add: schema_expectation_def)
qed

lemma issue_get_schema: "get_schema issue_snapshot (lit ''t'') issue_uid = Some (stored_of issue_schema_row)"
  by (simp add: get_schema_def first_row_def)

lemma issue_projection_evidence:
  "projection_evidence (sample_server known) issue_snapshot (lit ''t'') [stored_of issue_schema_row] = Inr [issue_evidence]"
proof -
  have "lineage issue_resolved = []" by (simp add: issue_resolved_def)
  then have "schema_projection_evidence_uids (sample_server known) [stored_of issue_schema_row] (lit ''t'') = Inr [issue_uid]"
    by (simp add: schema_projection_evidence_uids_def sample_server_def issue_stored fail_closed_def)
  moreover have "get_schema_projection_evidence issue_snapshot (lit ''t'') [issue_uid] = [issue_evidence]"
    by (simp add: get_schema_projection_evidence_def) (simp add: issue_event_row_def event_row_of_def issue_registration_def)
  ultimately show ?thesis by (simp add: projection_evidence_def projected_def)
qed

lemma issue_followed:
  "\<exists>rows. follow (\<lambda>c. schemas_handler (sample_server known) issue_options issue_snapshot (lit ''t'') None c (Some 1)) 2 None = Inr rows"
proof -
  have rows: "list_schemas issue_snapshot (lit ''t'') None None (Suc 0) = [issue_schema_row]"
    by (simp add: list_schemas_def)
  have vouched: "vouched_schemas (sample_server known) (profile_row_of pilot_profile) (lit ''t'') [issue_evidence] [stored_of issue_schema_row] = Inr ()"
    by (simp add: vouched_schemas_def sample_server_def issue_authoritative_schema projected_def)
  have "schemas_handler (sample_server known) issue_options issue_snapshot (lit ''t'') None None (Some 1) = Inr ([issue_schema_row], None)"
    by (simp add: schemas_handler_def decode_optional_def rows issue_projection_evidence issue_read evidence_indexes_def vouched cut_page_def Let_def)
  then show ?thesis by (simp add: numeral_2_eq_2)
qed

section \<open>A verification\<close>

definition issue_request :: verify_request where
  "issue_request = \<lparr>vr_network = lit ''t'', vr_issuer = lit ''ri'', vr_subject = lit ''rs'', vr_schema_uid = issue_uid,
     vr_payload = JUndef, vr_resolve = True\<rparr>"

abbreviation issue_server :: server_lib where
  "issue_server \<equiv> sample_server [payload_value issue_payload]"

lemma issue_payload_valid: "verify_credential_payload issue_server (Retrieved (Bytes issue_bytes)) issue_uri issue_context = Inr Valid"
proof -
  have parsed: "parse_payload issue_server (payload_object (lit ''ri'') (lit ''rs'') issue_uid sample_claims) issue_context = Inr issue_payload"
    unfolding parse_payload_Inr using sample_claims_parse
    by (simp add: issue_context_def sample_server_def payload_object_get issue_payload_def take_lit)
      (simp add: payload_object_def PAYLOAD_PROPERTIES_def)
  have json: "canonical_json issue_server (payload_value issue_payload) = Inr (value_text (sort_keys (payload_value issue_payload)))"
    using issue_payload_json by (simp add: canonical_json_Inr sample_canonicalize_def sample_server_def)
  let ?enc = "\<lparr>encoded_payload = issue_payload, encoded_json = value_text (sort_keys (payload_value issue_payload)),
    encoded_bytes = issue_bytes\<rparr>"
  have enc: "encode_credential_payload issue_server sample_claims issue_context = Inr ?enc"
    using parsed json issue_bytes [of "[payload_value issue_payload]" sample_server_tools] issue_payload_bytes
    by (simp add: encode_credential_payload_def issue_context_def sample_server_def)
  have laws: "hex_laws issue_server" "sha256_size issue_server" "cid_laws issue_server" "canonical_laws issue_server"
    unfolding sample_server_def by (rule sample_laws)+
  have "js_keys (payload_value issue_payload)"
    using sample_claims_value by (simp add: payload_value_def payload_object_def issue_payload_def)
  then have reads: "parses_back issue_server (payload_value (encoded_payload ?enc))"
    using sample_parses_back [of "payload_value issue_payload" "[]" sample_server_tools] by (simp add: sample_server_def)
  have uri: "create_ipfs_payload_uri issue_server (Bytes (encoded_bytes ?enc)) = Inr issue_uri"
    using issue_uri [of "[payload_value issue_payload]" sample_server_tools] by (simp add: sample_server_def)
  have "fields_ok 1 (ctx_fields issue_context)" using sample_fields_ok by (simp add: issue_context_def)
  from issued_payload_verifies [OF laws sample_claims_value this enc reads uri] show ?thesis by simp
qed

lemma issue_verified:
  "verify_credential issue_server (\<lambda>_. Inr issue_bytes) (static_trust [lit ''ri''] []) None None issue_request issue_snapshot =
     Inr \<lparr>rp_on_chain = Some Active, rp_schema_valid = True, rp_payload = Some Valid, rp_trust = Trusted,
       rp_generation = Some (issue_hash CHR ''b'')\<rparr>"
proof -
  have gen: "get_credential issue_snapshot (lit ''t'') (lit ''ri'') (lit ''rs'') issue_uid = Some (issue_generation True)"
    by (simp add: get_credential_def first_row_def descending_def)
  have evidence: "assert_credential_generation_evidence issue_server (issue_generation True)
      \<lparr>gx_profile = lit ''t'', gx_activation = 7, gx_checkpoint = ck_index issue_checkpoint, gx_id = None, gx_issuer = Some (lit ''ri''),
       gx_subject = Some (lit ''rs''), gx_schema_uid = Some issue_uid\<rparr> = Inr ()"
    using issue_hex_bytes by (simp add: assert_credential_generation_evidence_def expected_value_def valid_deletion_shape_def
        MAX_NODE_INDEX_def sample_server_def take_lit checkpoint_row_of_def issue_index)
  have "authoritative_resolved_schema issue_server (stored_of issue_schema_row) [issue_evidence] issue_expectation = Inr issue_resolved"
    unfolding sample_server_def by (rule issue_authoritative_schema)
  then have "verification_snapshot issue_server None (NInt DEFAULT_LEDGER_MAX_AGE_SECONDS) issue_request issue_snapshot =
      Inr \<lparr>vw_generation = Some (issue_generation True), vw_schema = Some issue_resolved, vw_checkpoint = issue_checkpoint\<rparr>"
    using evidence
    by (simp add: verification_snapshot_def issue_request_def issue_network current_time_def issue_status issue_ready gen issue_get_schema
        issue_projection_evidence issue_latest issue_activation issue_authoritative evidence_indexes_def projected_def Let_def)
  moreover have "on_chain_status (Some (issue_generation True)) (ck_close_time issue_checkpoint) = Inr (Some Active)"
    by (simp add: on_chain_status_def generation_state_Inr state_at_def live_def checkpoint_row_of_def issue_ledger_def pilot_ledger_def
        uint32_int_def uint32_max_def rbind_eq_Inr)
  moreover have "payload_status issue_server (\<lambda>_. Inr issue_bytes) issue_request (Some (issue_generation True)) (Some issue_resolved) =
      Inr (Some Valid)"
  proof -
    have "decode_credential_uri issue_server (issue_generation True) = Some issue_uri"
      by (simp add: decode_credential_uri_def sample_server_def issue_hex_decodes)
    moreover have "verification_context issue_request issue_resolved = issue_context"
      by (simp add: verification_context_def issue_request_def issue_resolved_def issue_context_def)
    moreover have "vr_payload issue_request = JUndef" "vr_resolve issue_request" by (simp_all add: issue_request_def)
    ultimately show ?thesis by (simp add: payload_status_def Let_def issue_payload_valid invalid_when_xcs_def uncoded_def)
  qed
  ultimately show ?thesis
    by (simp add: verify_credential_def) (simp add: static_trust_def issue_request_def)
qed

end
