(* ===== verification/Server_Limits.thy ===== *)
theory Server_Limits
  imports Prelude Js_Values
begin

text \<open>
  The rate limiter of the web server (\<open>apps/web/server/xcs/rate-limit.ts\<close>): fixed windows in a \<open>Map\<close> of bounded size.
  Main results: while no more keys are seen than the map holds, the limiter decides as one counter per key without any
  eviction would, and such a counter lets at most twice its maximum through in any interval as long as its window.
\<close>

section \<open>Buckets\<close>

datatype budget_scope = Shared_Budget | Route_Budget

record rate_limit =
  rl_max :: int
  rl_window :: int
  rl_scope :: budget_scope

text \<open>The budget of a route is \<open>None\<close> when it has none.\<close>

definition rate_limit_bucket_key :: "jstr \<Rightarrow> rate_limit option \<Rightarrow> jstr \<Rightarrow> jstr" where
  "rate_limit_bucket_key path budget address =
     (case budget of
        None \<Rightarrow> lit ''none|'' @ address
      | Some l \<Rightarrow> (if rl_scope l = Shared_Budget then lit ''default'' else path) @ lit ''|'' @ address)"

section \<open>The limiter\<close>

record window =
  wn_count :: int
  wn_start :: int

record decision =
  dc_allowed :: bool
  dc_limit :: int
  dc_remaining :: int
  dc_retry :: int

text \<open>A \<open>Map\<close> lists its entries in the order of their first insertion: \<open>set\<close> on a key it has keeps the place of the key.\<close>

record limiter =
  lm_windows :: "(jstr \<times> window) list"
  lm_last_prune :: int

definition HOUR :: int where "HOUR = 3600000"
definition MAX_WINDOWS :: nat where "MAX_WINDOWS = 5000"

definition create_limiter :: "int \<Rightarrow> limiter" where
  "create_limiter now = \<lparr>lm_windows = [], lm_last_prune = now\<rparr>"

definition drop_idle :: "int \<Rightarrow> (jstr \<times> window) list \<Rightarrow> (jstr \<times> window) list" where
  "drop_idle now ws = filter (\<lambda>(_, w). now - wn_start w \<le> HOUR) ws"

definition prune_windows :: "int \<Rightarrow> limiter \<Rightarrow> limiter" where
  "prune_windows now s = s\<lparr>lm_windows := drop_idle now (lm_windows s), lm_last_prune := now\<rparr>"

definition make_room :: "nat \<Rightarrow> int \<Rightarrow> (jstr \<times> window) list \<Rightarrow> (jstr \<times> window) list" where
  "make_room capacity now ws =
     (if length ws < capacity then ws
      else let ws = drop_idle now ws in drop (length ws + 1 - capacity) ws)"

definition map_set :: "jstr \<Rightarrow> window \<Rightarrow> (jstr \<times> window) list \<Rightarrow> (jstr \<times> window) list" where
  "map_set key w ws =
     (if map_of ws key = None then ws @ [(key, w)] else map (\<lambda>(k, v). if k = key then (k, w) else (k, v)) ws)"

definition counted :: "window option \<Rightarrow> rate_limit \<Rightarrow> int \<Rightarrow> window" where
  "counted existing limit now =
     (let w = (case existing of
          None \<Rightarrow> \<lparr>wn_count = 0, wn_start = now\<rparr>
        | Some w \<Rightarrow> if rl_window limit \<le> now - wn_start w then \<lparr>wn_count = 0, wn_start = now\<rparr> else w)
      in w\<lparr>wn_count := wn_count w + 1\<rparr>)"

text \<open>\<open>Math.ceil\<close> of a quotient by 1000.\<close>

definition ceil_seconds :: "int \<Rightarrow> int" where
  "ceil_seconds ms = - ((- ms) div 1000)"

definition decided :: "window \<Rightarrow> rate_limit \<Rightarrow> int \<Rightarrow> decision" where
  "decided w limit now =
     \<lparr>dc_allowed = (wn_count w \<le> rl_max limit), dc_limit = rl_max limit, dc_remaining = max 0 (rl_max limit - wn_count w),
      dc_retry = max 1 (ceil_seconds (rl_window limit - (now - wn_start w)))\<rparr>"

definition hit :: "nat \<Rightarrow> jstr \<Rightarrow> rate_limit \<Rightarrow> int \<Rightarrow> limiter \<Rightarrow> decision \<times> limiter" where
  "hit capacity key limit now s =
     (let s = (if HOUR < now - lm_last_prune s then prune_windows now s else s);
          existing = map_of (lm_windows s) key;
          ws = (if existing = None then make_room capacity now (lm_windows s) else lm_windows s);
          w = counted existing limit now
      in (decided w limit now, s\<lparr>lm_windows := map_set key w ws\<rparr>))"

type_synonym hit_request = "jstr \<times> rate_limit \<times> int"

fun run_hits :: "nat \<Rightarrow> hit_request list \<Rightarrow> limiter \<Rightarrow> decision list \<times> limiter" where
  "run_hits capacity [] s = ([], s)"
| "run_hits capacity ((key, limit, now) # rest) s =
     (let (d, s) = hit capacity key limit now s; (ds, s) = run_hits capacity rest s in (d # ds, s))"

section \<open>The shape of the map\<close>

lemma map_set_keys: "map fst (map_set key w ws) = (if map_of ws key = None then map fst ws @ [key] else map fst ws)"
  by (auto simp: map_set_def split_def)

lemma map_of_None_fst: "map_of ws key = None \<longleftrightarrow> key \<notin> set (map fst ws)"
  by (simp add: map_of_eq_None_iff)

lemma drop_idle_keys: "distinct (map fst ws) \<Longrightarrow> distinct (map fst (drop_idle now ws))"
  by (simp add: drop_idle_def distinct_map_filter)

lemma set_drop_idle: "set (drop_idle now ws) \<subseteq> set ws" "length (drop_idle now ws) \<le> length ws"
  by (auto simp: drop_idle_def)

lemma make_room_facts:
  "distinct (map fst ws) \<Longrightarrow> distinct (map fst (make_room capacity now ws)) \<and> set (make_room capacity now ws) \<subseteq> set ws \<and>
     (0 < capacity \<longrightarrow> length (make_room capacity now ws) < capacity)"
  using set_drop_idle [of now ws] drop_idle_keys [of ws now]
  by (auto simp: make_room_def Let_def drop_map [symmetric] dest: in_set_dropD)

definition limiter_ok :: "nat \<Rightarrow> limiter \<Rightarrow> bool" where
  "limiter_ok capacity s \<longleftrightarrow> distinct (map fst (lm_windows s)) \<and> length (lm_windows s) \<le> capacity"

lemma hit_ok:
  assumes "limiter_ok capacity s" and "0 < capacity"
  shows "limiter_ok capacity (snd (hit capacity key limit now s))"
proof -
  let ?s = "if HOUR < now - lm_last_prune s then prune_windows now s else s"
  have ok: "distinct (map fst (lm_windows ?s)) \<and> length (lm_windows ?s) \<le> capacity"
    using assms(1) set_drop_idle(2) [of now "lm_windows s"] drop_idle_keys [of "lm_windows s" now]
    by (auto simp: limiter_ok_def prune_windows_def)
  let ?ws = "if map_of (lm_windows ?s) key = None then make_room capacity now (lm_windows ?s) else lm_windows ?s"
  let ?w = "counted (map_of (lm_windows ?s) key) limit now"
  have ws: "distinct (map fst ?ws)" "map_of (lm_windows ?s) key = None \<Longrightarrow> length ?ws < capacity \<and> key \<notin> set (map fst ?ws)"
    "length ?ws \<le> capacity"
    using ok make_room_facts [of "lm_windows ?s" capacity now] assms(2) by (auto simp: map_of_None_fst)
  have keys: "map fst (map_set key ?w ?ws) = (if map_of ?ws key = None then map fst ?ws @ [key] else map fst ?ws)"
    by (rule map_set_keys)
  have "map_of (lm_windows ?s) key \<noteq> None \<Longrightarrow> map_of ?ws key \<noteq> None" by (simp only: if_False simp_thms)
  then have "distinct (map fst (map_set key ?w ?ws))" "length (map fst (map_set key ?w ?ws)) \<le> capacity"
    using ws unfolding keys by (auto simp: map_of_None_fst)
  then show ?thesis by (simp add: limiter_ok_def hit_def Let_def)
qed

text \<open>A hit on a key the map has leaves the order of the keys, whatever the time since the last hit on any of them.\<close>

lemma hit_keeps_order:
  assumes "map_of (lm_windows s) key \<noteq> None" and "now - lm_last_prune s \<le> HOUR"
  shows "map fst (lm_windows (snd (hit capacity key limit now s))) = map fst (lm_windows s)"
proof -
  obtain w where "map_of (lm_windows s) key = Some w" using assms(1) by blast
  then show ?thesis using assms(2) by (simp add: hit_def Let_def map_set_keys)
qed

section \<open>One counter per key\<close>

text \<open>The limiter without a bound on its size and without eviction.\<close>

type_synonym counters = "jstr \<Rightarrow> window option"

fun count_hits :: "hit_request list \<Rightarrow> counters \<Rightarrow> decision list" where
  "count_hits [] c = []"
| "count_hits ((key, limit, now) # rest) c =
     (let w = counted (c key) limit now in decided w limit now # count_hits rest (c(key \<mapsto> w)))"

text \<open>
  At time \<open>now\<close> the map holds the counters, except some whose window is over; its keys are among \<open>keys\<close>.
\<close>

definition holds_counters :: "jstr set \<Rightarrow> int \<Rightarrow> counters \<Rightarrow> (jstr \<times> window) list \<Rightarrow> bool" where
  "holds_counters keys now c ws \<longleftrightarrow>
     distinct (map fst ws) \<and> set (map fst ws) \<subseteq> keys \<and> (\<forall>k w. map_of ws k = Some w \<longrightarrow> c k = Some w) \<and>
     (\<forall>k w. map_of ws k = None \<and> c k = Some w \<longrightarrow> HOUR < now - wn_start w)"

lemma map_of_drop_idle:
  "distinct (map fst ws) \<Longrightarrow> map_of (drop_idle now ws) k =
     (case map_of ws k of None \<Rightarrow> None | Some w \<Rightarrow> if now - wn_start w \<le> HOUR then Some w else None)"
  by (induction ws) (auto simp: drop_idle_def map_of_eq_None_iff image_iff split: option.splits)

lemma holds_later: "holds_counters keys now c ws \<Longrightarrow> now \<le> later \<Longrightarrow> holds_counters keys later c ws"
  by (fastforce simp: holds_counters_def)

lemma holds_pruned: "holds_counters keys now c ws \<Longrightarrow> holds_counters keys now c (drop_idle now ws)"
  unfolding holds_counters_def
  by (auto simp: map_of_drop_idle drop_idle_keys split: option.splits if_splits) (auto simp: drop_idle_def)

lemma counted_expired: "HOUR < now - wn_start w \<Longrightarrow> rl_window limit \<le> HOUR \<Longrightarrow> counted (Some w) limit now = counted None limit now"
  by (simp add: counted_def)

lemma map_of_replace:
  "map_of (map (\<lambda>(k, v). if k = key then (k, w) else (k, v)) ws) x =
     (if x = key then map_option (\<lambda>_. w) (map_of ws key) else map_of ws x)"
  by (induction ws) auto

lemma map_of_map_set: "map_of (map_set key w ws) = (map_of ws)(key \<mapsto> w)"
  by (auto simp: map_set_def map_of_replace fun_eq_iff map_add_def split: option.splits)

lemma hit_counts:
  assumes "holds_counters keys now c (lm_windows s)" and "finite keys" "card keys \<le> capacity" "key \<in> keys"
    and "rl_window limit \<le> HOUR"
  shows "fst (hit capacity key limit now s) = decided (counted (c key) limit now) limit now \<and>
    holds_counters keys now (c(key \<mapsto> counted (c key) limit now)) (lm_windows (snd (hit capacity key limit now s)))"
proof -
  define s1 where "s1 = (if HOUR < now - lm_last_prune s then prune_windows now s else s)"
  let ?ws = "lm_windows s1"
  have holds: "holds_counters keys now c ?ws"
    using assms(1) holds_pruned by (simp add: s1_def prune_windows_def)
  have same: "counted (map_of ?ws key) limit now = counted (c key) limit now"
  proof (cases "map_of ?ws key")
    case None
    then show ?thesis
      using holds counted_expired [OF _ assms(5)] by (cases "c key") (auto simp: holds_counters_def)
  next
    case (Some w)
    then show ?thesis using holds by (simp add: holds_counters_def)
  qed
  have room: "make_room capacity now ?ws = ?ws" if "map_of ?ws key = None"
  proof -
    have "set (map fst ?ws) \<subseteq> keys" using holds unfolding holds_counters_def by blast
    moreover have "key \<notin> set (map fst ?ws)" using that unfolding map_of_None_fst .
    ultimately have "set (map fst ?ws) \<subseteq> keys - {key}" by blast
    then have "card (set (map fst ?ws)) \<le> card (keys - {key})" using assms(2) by (intro card_mono) auto
    then have "card (set (map fst ?ws)) < card keys" using card_Diff1_less [OF assms(2,4)] by linarith
    moreover have "card (set (map fst ?ws)) = length ?ws"
      using holds distinct_card [of "map fst ?ws"] by (simp add: holds_counters_def)
    ultimately show ?thesis using assms(3) by (simp add: make_room_def)
  qed
  let ?w = "counted (c key) limit now"
  have "hit capacity key limit now s = (decided (counted (map_of ?ws key) limit now) limit now,
      s1\<lparr>lm_windows := map_set key (counted (map_of ?ws key) limit now)
        (if map_of ?ws key = None then make_room capacity now ?ws else ?ws)\<rparr>)"
    by (simp only: hit_def Let_def s1_def)
  then have result: "hit capacity key limit now s = (decided ?w limit now, s1\<lparr>lm_windows := map_set key ?w ?ws\<rparr>)"
    using room same by (cases "map_of ?ws key = None") simp_all
  have "holds_counters keys now (c(key \<mapsto> ?w)) (map_set key ?w ?ws)"
    using holds assms(4) map_set_keys [of key ?w ?ws]
    by (auto simp: holds_counters_def map_of_map_set map_of_None_fst split: if_splits)
  then show ?thesis by (simp add: result)
qed

lemma run_counts:
  assumes "holds_counters keys start c (lm_windows s)" and "finite keys" "card keys \<le> capacity"
    and "\<forall>(key, limit, now) \<in> set hits. key \<in> keys \<and> rl_window limit \<le> HOUR"
    and "sorted (start # map (snd \<circ> snd) hits)"
  shows "fst (run_hits capacity hits s) = count_hits hits c"
  using assms
proof (induction hits arbitrary: s c start)
  case (Cons r hits)
  obtain key limit now where r: "r = (key, limit, now)" by (cases r)
  have "start \<le> now" using Cons.prems(5) by (simp add: r)
  then have "holds_counters keys now c (lm_windows s)" using Cons.prems(1) holds_later by blast
  moreover have "key \<in> keys" "rl_window limit \<le> HOUR" using Cons.prems(4) by (simp_all add: r)
  ultimately have step: "fst (hit capacity key limit now s) = decided (counted (c key) limit now) limit now"
    "holds_counters keys now (c(key \<mapsto> counted (c key) limit now)) (lm_windows (snd (hit capacity key limit now s)))"
    using hit_counts [OF _ Cons.prems(2,3)] by blast+
  have "fst (run_hits capacity hits (snd (hit capacity key limit now s))) = count_hits hits (c(key \<mapsto> counted (c key) limit now))"
    using Cons.prems by (intro Cons.IH [OF step(2)]) (auto simp: r)
  then show ?case using step(1) by (simp add: r Let_def split_def)
qed simp

section \<open>What a counter lets through\<close>

text \<open>The requests of one key that were allowed, by their times.\<close>

fun allowed_times :: "rate_limit \<Rightarrow> int list \<Rightarrow> window option \<Rightarrow> int list" where
  "allowed_times limit [] w = []"
| "allowed_times limit (now # rest) w =
     (let v = counted w limit now in (if wn_count v \<le> rl_max limit then [now] else []) @ allowed_times limit rest (Some v))"

text \<open>
  An interval of the length of a window meets at most two windows, so at most twice the maximum is allowed in it.
\<close>

definition in_interval :: "int \<Rightarrow> int \<Rightarrow> int list \<Rightarrow> nat" where
  "in_interval start width ts = length (filter (\<lambda>t. start \<le> t \<and> t < start + width) ts)"

lemma in_interval_simps [simp]:
  "in_interval start width [] = 0"
  "in_interval start width (xs @ ys) = in_interval start width xs + in_interval start width ys"
  "in_interval start width (t # ts) = (if start \<le> t \<and> t < start + width then 1 else 0) + in_interval start width ts"
  by (simp_all add: in_interval_def)

text \<open>What a window can still let through between \<open>start\<close> and \<open>start + rl_window limit\<close>.\<close>

definition left_over :: "rate_limit \<Rightarrow> int \<Rightarrow> window option \<Rightarrow> nat" where
  "left_over limit start w =
     (case w of
        None \<Rightarrow> 2 * nat (rl_max limit)
      | Some w \<Rightarrow>
          if start \<le> wn_start w then nat (rl_max limit - wn_count w)
          else if wn_start w + rl_window limit \<le> start then 2 * nat (rl_max limit)
          else nat (rl_max limit - wn_count w) + nat (rl_max limit))"

lemma allowed_later: "t \<in> set (allowed_times limit ts w) \<Longrightarrow> t \<in> set ts"
  by (induction ts arbitrary: w) (auto simp: Let_def split: if_splits)

lemma in_interval_none: "\<forall>t \<in> set ts. start + width \<le> t \<Longrightarrow> in_interval start width ts = 0"
  by (auto simp: in_interval_def filter_empty_conv)

lemma allowed_left_over:
  assumes "sorted ts" and "0 < rl_window limit" and "\<forall>v. w = Some v \<longrightarrow> 0 \<le> wn_count v"
  shows "in_interval start (rl_window limit) (allowed_times limit ts w) \<le> left_over limit start w"
  using assms
proof (induction ts arbitrary: w)
  case (Cons t ts)
  let ?v = "counted w limit t" and ?rest = "in_interval start (rl_window limit) (allowed_times limit ts (Some (counted w limit t)))"
  have pos: "0 \<le> wn_count ?v" using Cons.prems(3) by (cases w) (auto simp: counted_def)
  have ih: "?rest \<le> left_over limit start (Some ?v)" using Cons pos by simp
  have split: "in_interval start (rl_window limit) (allowed_times limit (t # ts) w) =
      (if wn_count ?v \<le> rl_max limit \<and> start \<le> t \<and> t < start + rl_window limit then 1 else 0) + ?rest"
    by (simp add: Let_def)
  show ?case
  proof (cases "\<exists>u. w = Some u \<and> t < wn_start u + rl_window limit")
    case True
    then obtain u where u: "w = Some u" "t < wn_start u + rl_window limit" by blast
    then have v: "?v = u\<lparr>wn_count := wn_count u + 1\<rparr>" by (simp add: counted_def)
    have "left_over limit start (Some ?v) + (if wn_count ?v \<le> rl_max limit \<and> start \<le> t \<and> t < start + rl_window limit then 1 else 0)
        \<le> left_over limit start w"
      unfolding v unfolding left_over_def using u by auto
    then show ?thesis using ih unfolding split by linarith
  next
    case False
    then have v: "?v = \<lparr>wn_count = 1, wn_start = t\<rparr>" by (cases w) (auto simp: counted_def)
    show ?thesis
    proof (cases "start + rl_window limit \<le> t")
      case True
      then have "\<forall>x \<in> set (allowed_times limit ts (Some ?v)). start + rl_window limit \<le> x"
        using Cons.prems(1) by (auto dest!: allowed_later)
      then have "?rest = 0" by (rule in_interval_none)
      then show ?thesis using True unfolding split by simp
    next
      case inside: False
      have "left_over limit start (Some ?v) \<le> 2 * nat (rl_max limit)" "start \<le> t \<Longrightarrow> left_over limit start (Some ?v) = nat (rl_max limit - 1)"
        using Cons.prems(2) unfolding v left_over_def by auto
      moreover have "if start \<le> t then nat (rl_max limit) \<le> left_over limit start w else left_over limit start w = 2 * nat (rl_max limit)"
        using False inside Cons.prems(2) by (cases w) (auto simp: left_over_def)
      ultimately show ?thesis using ih unfolding split v by (auto split: if_splits)
    qed
  qed
qed simp

text \<open>The times at which the requests of a key were allowed, among those of all keys.\<close>

definition allowed_of :: "jstr \<Rightarrow> hit_request list \<Rightarrow> decision list \<Rightarrow> int list" where
  "allowed_of key hits ds = map (snd \<circ> snd \<circ> fst) (filter (\<lambda>(r, d). fst r = key \<and> dc_allowed d) (zip hits ds))"

lemma allowed_of_counts:
  assumes "\<forall>(k, l, t) \<in> set hits. k = key \<longrightarrow> l = limit"
  shows "allowed_of key hits (count_hits hits c) = allowed_times limit (map (snd \<circ> snd) (filter (\<lambda>r. fst r = key) hits)) (c key)"
  using assms by (induction hits c rule: count_hits.induct) (auto simp: allowed_of_def Let_def decided_def)

lemma limiter_rate:
  assumes "\<forall>(k, l, t) \<in> set hits. (k = key \<longrightarrow> l = limit) \<and> rl_window l \<le> HOUR" and "0 < rl_window limit"
    and "card (fst ` set hits) \<le> capacity" and "sorted (start # map (snd \<circ> snd) hits)"
  shows "in_interval from_time (rl_window limit) (allowed_of key hits (fst (run_hits capacity hits (create_limiter start)))) \<le>
    2 * nat (rl_max limit)"
proof -
  have "fst (run_hits capacity hits (create_limiter start)) = count_hits hits Map.empty"
    using assms(1,3,4)
    by (intro run_counts [where keys = "fst ` set hits" and start = start])
      (auto simp: holds_counters_def create_limiter_def intro: rev_image_eqI)
  moreover have limits: "\<forall>(k, l, t) \<in> set hits. k = key \<longrightarrow> l = limit" using assms(1) by auto
  ultimately have "allowed_of key hits (fst (run_hits capacity hits (create_limiter start))) =
      allowed_times limit (map (snd \<circ> snd) (filter (\<lambda>r. fst r = key) hits)) None"
    using allowed_of_counts [OF limits] by simp
  moreover have "sorted (map (snd \<circ> snd) (filter (\<lambda>r. fst r = key) hits))"
    using assms(4) by (simp add: sorted_filter)
  ultimately show ?thesis
    using allowed_left_over [of _ limit None from_time] assms(2) by (simp add: left_over_def)
qed

end
