(* ===== verification/Server_Guarantees.thy ===== *)
theory Server_Guarantees
  imports Pilot_Issue Server_Limits
begin

text \<open>
  What the web server guarantees, each property with an application to the pilot network, whose tables
  hold a registered schema and a credential that was created and accepted.
\<close>

section \<open>Timelines\<close>

text \<open>
  C10. The indexer writes what the server shows. As long as the mutations of a ledger are steps of the credentials on the
  ledger (an object is created once, accepted at most once, keeps its content and is deleted with it) and transactions are at one place,
  a ledger that is inserted keeps everything the server relies on, the live generations are the objects of the ledger, and
  the timeline the server then queries of any generation is accepted and is a run of the lifecycle that ends in
  the state of the generation.
\<close>

theorem ledgers_keep_timelines:
  assumes "timelines_ok lib key place profile db" and "hex_laws lib" and "project_ledger lib ledger profile cat = Inr projection"
    and "persist_ledger lib clock later profile projection token state input db = Inr (Inserted, db')"
    and "\<forall>t \<in> set (vl_transactions ledger). place (lt_hash t) = (vl_index ledger, lt_index t)"
    and "list_all (mutation_keyed key) (lp_mutations projection)"
    and "fold_res object_step (lp_mutations projection) (objects_of db (profile_id profile)) = Inr Obj"
  shows "timelines_ok lib key place profile db' \<and> objects_of db' (profile_id profile) = Obj \<and>
    (\<forall>sn g. database.truncate sn = db' \<and> g \<in> set (db_generations sn) \<and> gr_profile g = profile_id profile \<longrightarrow>
       (let rows = get_credential_events_by_generation sn (profile_id profile) (gr_id g) (CREDENTIAL_GENERATION_TIMELINE_LIMIT + 1) in
        public_credential_timeline lib rows g (activation_ledger_index profile) = Inr rows \<and>
        run_events rows = Inr (Some (final_state g))))"
proof -
  have kept: "timelines_ok lib key place profile db' \<and> objects_of db' (profile_id profile) = Obj"
    using assms by (rule ledger_keeps_timelines)
  then have "histories_ok lib (profile_id profile) (activation_ledger_index profile) db'" by (simp add: timelines_ok_def)
  then show ?thesis
    using kept events_by_generation [of lib "profile_id profile" "activation_ledger_index profile"]
    by (auto simp: Let_def CREDENTIAL_GENERATION_TIMELINE_LIMIT_def)
qed

definition issue_key :: object_key where
  "issue_key obj = (lit ''ri'', lit ''rs'', issue_uid)"

definition issue_place :: "jstr \<Rightarrow> int \<times> int" where
  "issue_place hash = (7, if hash = pilot_hash then 0 else if hash = issue_hash CHR ''b'' then 1 else 2)"

theorem ledgers_keep_timelines_witness:
  "timelines_ok (sample_lib []) issue_key issue_place pilot_profile issue_database \<and>
   objects_of issue_database (lit ''t'') =
     [pilot_hash \<mapsto> (lit ''ri'', lit ''rs'', issue_uid, Some issue_hex, None, True)] \<and>
   public_credential_timeline (sample_lib []) issue_events (issue_generation True) 7 = Inr issue_events"
proof -
  have none: "db_generations registered_database = []" "db_events registered_database = []"
    by (simp_all add: registered_database_def pilot_database_def empty_database_def)
  have start: "timelines_ok (sample_lib []) issue_key issue_place pilot_profile registered_database"
    using registered_ok by (simp add: timelines_ok_def objects_ok_def events_placed_def events_indexed_def histories_ok_def none)
  have places: "\<forall>t \<in> set (vl_transactions issue_ledger). issue_place (lt_hash t) = (vl_index issue_ledger, lt_index t)"
    by (simp add: issue_ledger_def issue_transaction_def issue_place_def pilot_index) (simp add: issue_hash_def pilot_hash_def)
  have keyed: "list_all (mutation_keyed issue_key) (lp_mutations issue_projection)"
    by (simp add: issue_projection_def mutation_keyed_def issue_key_def issue_mutation_def)
  have "objects_of registered_database (lit ''t'') = Map.empty"
    by (simp add: objects_of_def live_generation_def none latest_by_def fun_eq_iff)
  then have steps: "fold_res object_step (lp_mutations issue_projection) (objects_of registered_database (profile_id pilot_profile)) =
      Inr [pilot_hash \<mapsto> (lit ''ri'', lit ''rs'', issue_uid, Some issue_hex, None, True)]"
    by (simp add: issue_projection_def object_step_def content_of_mutation_def issue_mutation_def accepted_object_def Let_def)
  from ledgers_keep_timelines [OF start sample_hex_laws issue_projects issue_persist places keyed steps]
  show ?thesis
    using issue_snapshot_fields issue_timeline(1)
    by (auto simp: Let_def CREDENTIAL_GENERATION_TIMELINE_LIMIT_def pilot_profile_def dest!: spec [of _ issue_snapshot])
qed

text \<open>
  C32. A generation that is shown is shown as it is. The handler answers with a generation of the table, its state at the close of the
  checkpoint the read is based on, and its events in strictly increasing positions, which run
  through the lifecycle from the creation to the final state of the generation in one of four ways.
\<close>

theorem shown_timelines_are_runs:
  assumes "generation_handler lib opts db profile generation_id = Inr shown"
  shows "sg_generation shown \<in> set (db_generations db) \<and> gr_id (sg_generation shown) = to_lower generation_id \<and>
    (\<exists>c. evidence_current lib db profile (authoritative_time opts db) (max_ledger_age_seconds opts) c \<and>
       sg_state shown = state_at (sg_generation shown) (ck_close_time c)) \<and>
    sorted_wrt (\<lambda>r q. event_position r < event_position q) (sg_timeline shown) \<and>
    map ce_type (sg_timeline shown) \<in> {[Created], [Created, Accepted], [Created, event_type.Deleted], [Created, Accepted, event_type.Deleted]} \<and>
    run_events (sg_timeline shown) = Inr (Some (final_state (sg_generation shown)))"
proof -
  obtain activation c g rows where g: "get_credential_generation_by_id db profile (to_lower generation_id) = Some g"
    and current: "evidence_current lib db profile (authoritative_time opts db) (max_ledger_age_seconds opts) c"
    and gen: "sg_generation shown = g" and state: "credential_generation_state g (ck_close_time c) = Inr (sg_state shown)"
    and line: "public_credential_timeline lib rows g activation = Inr (sg_timeline shown)"
    using assms unfolding generation_handler_def Let_def
    by (auto dest!: authoritative_read_Inr simp: res_simps public_credential_generation_def split: option.splits)
  have member: "g \<in> set (db_generations db)" "gr_id g = to_lower generation_id"
    using g by (auto simp: get_credential_generation_by_id_def first_row_def filter_eq_Cons_iff split: list.splits)
  have "sg_timeline shown \<noteq> []" "timeline_ok g (sg_timeline shown)"
    "sorted_wrt (\<lambda>r q. event_position r < event_position q) (sg_timeline shown)"
    using line unfolding public_timeline_iff by auto
  then show ?thesis
    using member current gen state timeline_forms timeline_runs unfolding generation_state_Inr by blast
qed

theorem shown_timelines_are_runs_witness:
  "\<exists>shown. generation_handler (sample_server []) issue_options issue_snapshot (lit ''t'') (issue_hash CHR ''b'') = Inr shown \<and>
     sg_timeline shown = issue_events \<and> run_events (sg_timeline shown) = Inr (Some (True, None))"
  using shown_timelines_are_runs [OF issue_handled [of "[]"]] issue_handled [of "[]"] by (simp add: final_state_def)

section \<open>Reads\<close>

text \<open>
  C12. Every read is authoritative. Whatever a read handler answers with success, the network is known and enabled, the
  indexer is ready and holds an unexpired lease, its two sources agree on the latest checkpoint of the
  tables, and that ledger closed at most the allowed age ago and at most 30 seconds in the future.
\<close>

theorem reads_are_authoritative:
  "(readiness_handler lib opts db profile = Inr x1 \<or> stats_handler lib opts db profile = Inr x2 \<or>
    schema_handler lib opts db profile uid = Inr x3 \<or> catalog_handler lib opts db profile uid = Inr x4 \<or>
    schemas_handler lib opts db profile publisher cursor page = Inr x5 \<or> registration_handler lib opts db profile hash = Inr x6 \<or>
    activity_handler lib opts db profile cursor limit = Inr x7 \<or>
    credential_handler lib opts db profile issuer subject uid = Inr x8 \<or> generation_handler lib opts db profile hash = Inr x9 \<or>
    events_handler lib opts db profile issuer subject uid = Inr x10 \<or>
    exact_event_handler lib opts db profile issuer subject uid hash = Inr x11 \<or>
    transaction_handler lib opts db profile hash after limit = Inr x12 \<or>
    search_handler lib tools opts db profile query limit = Inr x13) \<longrightarrow>
   get_network db profile \<noteq> None \<and>
   (\<exists>c. evidence_current lib db profile (authoritative_time opts db) (max_ledger_age_seconds opts) c)"
  unfolding read_current_def [symmetric] by (intro impI) (elim disjE; erule handlers_current)

theorem reads_are_authoritative_witness:
  "\<exists>c. evidence_current (sample_server []) issue_snapshot (lit ''t'') (Some 0) (NInt 120) c"
  using reads_are_authoritative [where lib = "sample_server []" and opts = issue_options and db = issue_snapshot and profile = "lit ''t''"
      and hash = "issue_hash CHR ''b''"] issue_handled [of "[]"]
  by (auto simp: authoritative_time_def current_time_def max_ledger_age_seconds_def DEFAULT_LEDGER_MAX_AGE_SECONDS_def)



section \<open>Pages\<close>

text \<open>
  C33. The pages of the schema list are the schemas. A client that follows the cursors from the first page, with any page size, is
  given every schema of the profile (and publisher) once, in the order of ledger, transaction and UID, provided that the
  table keeps its constraints and that \<open>Buffer\<close> and \<open>JSON\<close> read back the cursors they wrote.
\<close>

theorem pages_cover_all_schemas:
  assumes "schema_table.consistent (db_schemas db)" and "buffer_laws lib"
    and "\<forall>r \<in> set (db_schemas db). stringify_parses lib (cursor_value ''schemaUid'' (schema_position r))"
    and "0 < limit" and "length (db_schemas db) < fuel"
    and "follow (\<lambda>c. schemas_handler lib opts db profile publisher c (Some limit)) fuel None = Inr rows"
  shows "rows = sort_key schema_position (filter (\<lambda>r.
    sc_profile r = profile \<and> (case publisher of None \<Rightarrow> True | Some p \<Rightarrow> sc_publisher r = p)) (db_schemas db))"
  using followed_schemas [OF assms] by (simp add: schemas_of_def)

theorem pages_cover_all_schemas_witness:
  "let lib = sample_server [cursor_value ''schemaUid'' (schema_position issue_schema_row)] in
     follow (\<lambda>c. schemas_handler lib issue_options issue_snapshot (lit ''t'') None c (Some 1)) 2 None = Inr [issue_schema_row]"
proof -
  let ?v = "cursor_value ''schemaUid'' (schema_position issue_schema_row)"
  have "database_ok issue_database" using issue_persist_ok by (simp add: repository_ok_def)
  then have table: "schema_table.consistent (db_schemas issue_snapshot)"
    by (simp add: database_ok_def issue_database_def registered_database_def)
  have "stringify_parses (sample_server [?v]) ?v"
    using sample_text_well_formed [of ?v] by (simp add: stringify_parses_def sample_canonicalize_def) (simp add: sample_server_def sample_canonicalize_def)
  then have parses: "\<forall>r \<in> set (db_schemas issue_snapshot). stringify_parses (sample_server [?v]) (cursor_value ''schemaUid'' (schema_position r))"
    by simp
  obtain rows where run: "follow (\<lambda>c. schemas_handler (sample_server [?v]) issue_options issue_snapshot (lit ''t'') None c (Some 1)) 2 None = Inr rows"
    using issue_followed by blast
  have "rows = [issue_schema_row]"
    using pages_cover_all_schemas [OF table sample_buffer_laws parses _ _ run] by simp
  then show ?thesis using run by (simp add: Let_def)
qed

text \<open>
  C34. The counts on the front page are counts of states. When the statistics are answered, every generation of the profile is
  counted once, under the state it has at the close of the checkpoint, and none of them is invalid.
\<close>

theorem statistics_count_states:
  assumes "stats_handler lib opts db profile = Inr (stats, c)"
  shows "let counted_as = (\<lambda>s. length (filter (\<lambda>g. gr_profile g = profile \<and> state_at g (ck_close_time c) = s) (db_generations db))) in
    ds_pending stats = counted_as Pending \<and> ds_active stats = counted_as Active \<and> ds_expired stats = counted_as Expired \<and>
    ds_deleted stats = counted_as credential_lifecycle_state.Deleted \<and> ds_invalid stats = 0 \<and>
    ds_pending stats + ds_active stats + ds_expired stats + ds_deleted stats =
      length (filter (\<lambda>g. gr_profile g = profile) (db_generations db)) \<and>
    ds_schemas stats = length (filter (\<lambda>r. sc_profile r = profile) (db_schemas db))"
proof -
  obtain indexes where shown: "public_discovery_stats (get_discovery_stats db profile (ck_close_time c)) = Inr (stats, indexes)"
    using assms unfolding stats_handler_def by (auto dest!: authoritative_read_Inr simp: res_simps)
  let ?s = "get_discovery_stats db profile (ck_close_time c)"
  have stats: "stats = ?s" "ds_invalid ?s = 0" "ds_pending ?s + ds_active ?s + ds_expired ?s + ds_deleted ?s = ds_total ?s"
    using shown by (auto simp: public_discovery_stats_def split: if_splits)
  have states: "state_at g t = Pending \<longleftrightarrow> live g \<and> unexpired_at t g \<and> \<not> gr_accepted g"
    "state_at g t = Active \<longleftrightarrow> live g \<and> unexpired_at t g \<and> gr_accepted g"
    "state_at g t = Expired \<longleftrightarrow> live g \<and> \<not> unexpired_at t g"
    "state_at g t = credential_lifecycle_state.Deleted \<longleftrightarrow> \<not> live g" for g t
    by (auto simp: state_at_def unexpired_at_def split: option.splits)
  show ?thesis
    using stats(2,3) unfolding stats(1) Let_def states
    by (simp add: get_discovery_stats_def Let_def conj_commute conj_left_commute)
qed

lemma issue_statistics:
  "\<exists>stats. stats_handler (sample_server known) issue_options issue_snapshot (lit ''t'') = Inr (stats, issue_checkpoint)"
proof -
  let ?stats = "get_discovery_stats issue_snapshot (lit ''t'') (ck_close_time issue_checkpoint)"
  have live: "live (issue_generation True)" by (simp add: live_def)
  have "?stats = \<lparr>ds_schemas = 1, ds_publishers = 1, ds_min_schema = Some 7, ds_max_schema = Some 7, ds_total = 1, ds_pending = 0,
      ds_active = 1, ds_expired = 0, ds_deleted = 0, ds_invalid = 0, ds_min_created = Some 7, ds_max_last = Some 7\<rparr>"
    using live by (simp add: get_discovery_stats_def Let_def min_of_def max_of_def unexpired_at_def invalid_evidence_def uint32_int_def uint32_max_def)
  then have shown: "public_discovery_stats ?stats = Inr (?stats, [7, 7, 7, 7])"
    by (simp add: public_discovery_stats_def stats_counts_def ordered_bounds_def MAX_SAFE_INTEGER_def map_filter_simps)
  have "authoritative_time issue_options issue_snapshot = Some 0" by (simp add: authoritative_time_def current_time_def)
  then have "assert_authoritative_ledger_evidence (sample_server known)
      \<lparr>le_profile = lit ''t'', le_status = get_indexer_status issue_snapshot (lit ''t''), le_checkpoint = Some issue_checkpoint,
       le_now = authoritative_time issue_options issue_snapshot, le_max_age = max_ledger_age_seconds issue_options, le_minimum = Some 7,
       le_projections = [7, 7, 7, 7]\<rparr> = Inr (running_row Ready True, issue_checkpoint)"
    by (simp add: issue_status max_ledger_age_seconds_def issue_authoritative)
  then show ?thesis by (simp add: stats_handler_def issue_read shown issue_activation)
qed

theorem statistics_count_states_witness:
  "\<exists>stats. stats_handler (sample_server []) issue_options issue_snapshot (lit ''t'') = Inr (stats, issue_checkpoint) \<and>
     ds_active stats = 1 \<and> ds_pending stats + ds_expired stats + ds_deleted stats = 0"
proof -
  obtain stats where run: "stats_handler (sample_server []) issue_options issue_snapshot (lit ''t'') = Inr (stats, issue_checkpoint)"
    using issue_statistics by blast
  have "state_at (issue_generation True) t = Active" for t by (simp add: state_at_def live_def)
  then show ?thesis using statistics_count_states [OF run] run by (simp add: Let_def)
qed

section \<open>Limits\<close>

text \<open>
  C35. The limiter bounds rates. As long as no more keys were seen than the map holds and time goes forward, no interval
  of the length of a window has more than twice the maximum of a key's limit of its requests let through, whatever the other requests are.
\<close>

theorem limiter_bounds_rate:
  assumes "\<forall>(k, l, t) \<in> set hits. (k = key \<longrightarrow> l = limit) \<and> rl_window l \<le> HOUR" and "0 < rl_window limit"
    and "card (fst ` set hits) \<le> capacity" and "sorted (start_time # map (snd \<circ> snd) hits)"
  shows "in_interval from_time (rl_window limit)
      (allowed_of key hits (fst (run_hits capacity hits (create_limiter start_time)))) \<le> 2 * nat (rl_max limit)"
  using assms by (rule limiter_rate)

theorem limiter_bounds_rate_witness:
  "let limit = \<lparr>rl_max = 2, rl_window = 1000, rl_scope = Shared_Budget\<rparr>;
       hits = [(lit ''a'', limit, 0), (lit ''a'', limit, 999), (lit ''a'', limit, 999), (lit ''a'', limit, 1000), (lit ''b'', limit, 1500)];
       allowed = allowed_of (lit ''a'') hits (fst (run_hits 2 hits (create_limiter 0)))
   in allowed = [0, 999, 1000] \<and> in_interval 500 1000 allowed \<le> 4"
proof -
  let ?limit = "\<lparr>rl_max = 2, rl_window = 1000, rl_scope = Shared_Budget\<rparr>"
  let ?hits = "[(lit ''a'', ?limit, 0), (lit ''a'', ?limit, 999), (lit ''a'', ?limit, 999), (lit ''a'', ?limit, 1000), (lit ''b'', ?limit, 1500)]"
  have "in_interval 500 (rl_window ?limit) (allowed_of (lit ''a'') ?hits (fst (run_hits 2 ?hits (create_limiter 0)))) \<le> 2 * nat (rl_max ?limit)"
    by (rule limiter_bounds_rate) (simp_all add: HOUR_def card_insert_if)
  moreover have "allowed_of (lit ''a'') ?hits (fst (run_hits 2 ?hits (create_limiter 0))) = [0, 999, 1000]"
  proof -
    have first: "hit 2 key ?limit t \<lparr>lm_windows = [], lm_last_prune = 0\<rparr> =
        (decided \<lparr>wn_count = 1, wn_start = t\<rparr> ?limit t, \<lparr>lm_windows = [(key, \<lparr>wn_count = 1, wn_start = t\<rparr>)], lm_last_prune = 0\<rparr>)"
      if "t \<le> HOUR" for key t
      using that by (simp add: hit_def Let_def make_room_def map_set_def counted_def)
    have again: "hit 2 key ?limit t \<lparr>lm_windows = [(key, w)], lm_last_prune = 0\<rparr> =
        (decided (counted (Some w) ?limit t) ?limit t, \<lparr>lm_windows = [(key, counted (Some w) ?limit t)], lm_last_prune = 0\<rparr>)"
      if "t \<le> HOUR" for key t w
      using that by (simp add: hit_def Let_def map_set_def)
    have other: "hit 2 key ?limit t \<lparr>lm_windows = [(q, w)], lm_last_prune = 0\<rparr> =
        (decided \<lparr>wn_count = 1, wn_start = t\<rparr> ?limit t,
         \<lparr>lm_windows = [(q, w), (key, \<lparr>wn_count = 1, wn_start = t\<rparr>)], lm_last_prune = 0\<rparr>)"
      if "t \<le> HOUR" "key \<noteq> q" for key q t w
      using that by (simp add: hit_def Let_def make_room_def map_set_def) (simp add: counted_def)
    show ?thesis
      by (simp add: allowed_of_def create_limiter_def first again other HOUR_def) (simp add: counted_def decided_def)
  qed
  ultimately show ?thesis by (simp add: Let_def)
qed

section \<open>Schemas\<close>




end
