(* ===== verification/Server_Pins.thy ===== *)
theory Server_Pins
  imports Server_Handlers
begin

text \<open>
  The tables of demo pins and their repository (\<open>db/schema/pinning.ts\<close>, \<open>apps/web/server/xcs/pinning-repository.ts\<close>). Times are
  milliseconds. A wallet asks for a challenge, a signed challenge buys one pin, and a sweep later gives the content
  back. Main results: a challenge is used at most once, and no wallet or address gets more than its quota in any period of a day,
  whatever the requests and the sweeps do in between.
\<close>

section \<open>Tables\<close>

record pin_challenge =
  pk_id :: jstr
  pk_profile :: jstr
  pk_wallet :: jstr
  pk_ip :: jstr
  pk_message :: jstr
  pk_expires :: int
  pk_used :: "int option"
  pk_created :: int

definition pin_challenge_ok :: "pin_challenge \<Rightarrow> bool" where
  "pin_challenge_ok r \<longleftrightarrow>
     hash64 (pk_id r) \<and> hash64 (pk_ip r) \<and> address_pattern (pk_wallet r) \<and> pk_created r < pk_expires r \<and>
     storable_text (pk_message r)"

definition same_challenge :: "pin_challenge \<Rightarrow> pin_challenge \<Rightarrow> bool" where
  "same_challenge r q \<longleftrightarrow> pk_id r = pk_id q"

datatype pin_status = Pin_Pending | Pin_Pinned | Pin_Failed | Pin_Unpinned

record demo_pin =
  dp_id :: jstr
  dp_challenge :: jstr
  dp_profile :: jstr
  dp_wallet :: jstr
  dp_ip :: jstr
  dp_cid :: jstr
  dp_length :: int
  dp_status :: pin_status
  dp_failure :: "string option"
  dp_expires :: int
  dp_unpinned :: "int option"
  dp_created :: int
  dp_updated :: int

definition cid_pattern :: "jstr \<Rightarrow> bool" where
  "cid_pattern s \<longleftrightarrow> (case s of [] \<Rightarrow> False | c # cs \<Rightarrow> c = ch CHR ''b'' \<and> cs \<noteq> [] \<and> list_all is_base32 cs)"

definition demo_pin_ok :: "demo_pin \<Rightarrow> bool" where
  "demo_pin_ok r \<longleftrightarrow>
     hash64 (dp_id r) \<and> hash64 (dp_ip r) \<and> address_pattern (dp_wallet r) \<and> cid_pattern (dp_cid r) \<and>
     1 \<le> dp_length r \<and> dp_length r \<le> 65536 \<and>
     (dp_status r = Pin_Failed \<longleftrightarrow> dp_failure r \<noteq> None) \<and> (dp_status r = Pin_Unpinned \<longleftrightarrow> dp_unpinned r \<noteq> None)"

definition same_pin :: "demo_pin \<Rightarrow> demo_pin \<Rightarrow> bool" where
  "same_pin r q \<longleftrightarrow> dp_id r = dp_id q \<or> dp_challenge r = dp_challenge q"

interpretation challenge_table: table pin_challenge_ok same_challenge
  by unfold_locales (simp add: same_challenge_def)

interpretation pin_table: table demo_pin_ok same_pin
  by unfold_locales (auto simp: same_pin_def)

record pin_tables =
  pt_challenges :: "pin_challenge list"
  pt_pins :: "demo_pin list"

section \<open>Repository\<close>

text \<open>What a constraint makes PostgreSQL throw.\<close>

definition query :: "ierr + 'a \<Rightarrow> server_error + 'a" where
  "query m = (case m of Inl _ \<Rightarrow> Inl (Uncoded_Error HostErr) | Inr x \<Rightarrow> Inr x)"

lemma query_Inr [simp]: "query m = Inr x \<longleftrightarrow> m = Inr x"
  by (simp add: query_def split: sum.splits)

definition create_challenge :: "database \<Rightarrow> pin_challenge \<Rightarrow> pin_tables \<Rightarrow> server_error + pin_tables" where
  "create_challenge db row tables =
     rbind (query (insert_row pin_challenge_ok same_challenge (has_profile db (pk_profile row)) row (pt_challenges tables)))
       (\<lambda>rows. Inr (tables\<lparr>pt_challenges := rows\<rparr>))"

definition get_challenge :: "pin_tables \<Rightarrow> jstr \<Rightarrow> pin_challenge option" where
  "get_challenge tables challenge_id = find (\<lambda>r. pk_id r = challenge_id) (pt_challenges tables)"

definition DAY :: int where "DAY = 24 * 60 * 60 * 1000"

record pin_reservation =
  pr_pin :: jstr
  pr_challenge :: jstr
  pr_profile :: jstr
  pr_wallet :: jstr
  pr_ip :: jstr
  pr_cid :: jstr
  pr_length :: int
  pr_expires :: int
  pr_now :: int
  pr_limit :: nat

definition reserved_pin :: "pin_reservation \<Rightarrow> demo_pin" where
  "reserved_pin input =
     \<lparr>dp_id = pr_pin input, dp_challenge = pr_challenge input, dp_profile = pr_profile input, dp_wallet = pr_wallet input,
      dp_ip = pr_ip input, dp_cid = pr_cid input, dp_length = pr_length input, dp_status = Pin_Pending, dp_failure = None,
      dp_expires = pr_expires input, dp_unpinned = None, dp_created = pr_now input, dp_updated = pr_now input\<rparr>"

definition quota_used :: "(demo_pin \<Rightarrow> bool) \<Rightarrow> int \<Rightarrow> pin_tables \<Rightarrow> nat" where
  "quota_used p since tables = length (filter (\<lambda>r. p r \<and> since \<le> dp_created r) (pt_pins tables))"

definition use_challenge :: "jstr \<Rightarrow> int \<Rightarrow> pin_challenge list \<Rightarrow> ierr + pin_challenge list" where
  "use_challenge challenge_id now =
     update_rows pin_challenge_ok (\<lambda>r. pk_id r = challenge_id \<and> pk_used r = None) (\<lambda>r. r\<lparr>pk_used := Some now\<rparr>)"

definition reserve_pin :: "database \<Rightarrow> pin_reservation \<Rightarrow> pin_tables \<Rightarrow> server_error + demo_pin \<times> pin_tables" where
  "reserve_pin db input tables =
     (case get_challenge tables (pr_challenge input) of
        None \<Rightarrow> not_found ''CHALLENGE_NOT_FOUND''
      | Some challenge \<Rightarrow>
          if pk_used challenge \<noteq> None then Inl (Coded_Error ''CHALLENGE_USED'' 409)
          else if pk_expires challenge \<le> pr_now input then Inl (Coded_Error ''CHALLENGE_EXPIRED'' 410)
          else if pk_profile challenge \<noteq> pr_profile input \<or> pk_wallet challenge \<noteq> pr_wallet input \<or>
            pk_ip challenge \<noteq> pr_ip input then Inl (Coded_Error ''CHALLENGE_MISMATCH'' 403)
          else
            let since = pr_now input - DAY in
            if pr_limit input \<le> quota_used (\<lambda>r. dp_wallet r = pr_wallet input) since tables
            then Inl (Coded_Error ''WALLET_QUOTA_EXCEEDED'' 429)
            else if pr_limit input \<le> quota_used (\<lambda>r. dp_ip r = pr_ip input) since tables
            then Inl (Coded_Error ''IP_QUOTA_EXCEEDED'' 429)
            else
              rbind (query (use_challenge (pr_challenge input) (pr_now input) (pt_challenges tables))) (\<lambda>challenges.
              rbind (query (insert_row demo_pin_ok same_pin
                  (has_profile db (pr_profile input) \<and> list_ex (\<lambda>r. pk_id r = pr_challenge input) challenges)
                  (reserved_pin input) (pt_pins tables))) (\<lambda>pins.
              Inr (reserved_pin input, \<lparr>pt_challenges = challenges, pt_pins = pins\<rparr>))))"

definition update_pins :: "(demo_pin \<Rightarrow> bool) \<Rightarrow> (demo_pin \<Rightarrow> demo_pin) \<Rightarrow> pin_tables \<Rightarrow> server_error + pin_tables" where
  "update_pins p f tables =
     rbind (query (update_rows demo_pin_ok p f (pt_pins tables))) (\<lambda>pins. Inr (tables\<lparr>pt_pins := pins\<rparr>))"

definition active_status :: "demo_pin \<Rightarrow> bool" where
  "active_status r \<longleftrightarrow> dp_status r \<in> {Pin_Pending, Pin_Pinned}"

definition mark_pinned :: "jstr \<Rightarrow> int \<Rightarrow> pin_tables \<Rightarrow> server_error + pin_tables" where
  "mark_pinned pin_id now =
     update_pins (\<lambda>r. dp_id r = pin_id \<and> dp_status r = Pin_Pending) (\<lambda>r. r\<lparr>dp_status := Pin_Pinned, dp_updated := now\<rparr>)"

definition mark_failed :: "jstr \<Rightarrow> string \<Rightarrow> int \<Rightarrow> pin_tables \<Rightarrow> server_error + pin_tables" where
  "mark_failed pin_id code now =
     update_pins (\<lambda>r. dp_id r = pin_id \<and> dp_status r = Pin_Pending)
       (\<lambda>r. r\<lparr>dp_status := Pin_Failed, dp_failure := Some code, dp_updated := now\<rparr>)"

definition find_expired_pins :: "int \<Rightarrow> nat \<Rightarrow> pin_tables \<Rightarrow> demo_pin list" where
  "find_expired_pins now limit tables =
     take limit (sort_key dp_expires (filter (\<lambda>r. active_status r \<and> dp_expires r \<le> now) (pt_pins tables)))"

definition has_other_active_pin :: "jstr \<Rightarrow> jstr \<Rightarrow> int \<Rightarrow> pin_tables \<Rightarrow> bool" where
  "has_other_active_pin cid pin_id now tables \<longleftrightarrow>
     list_ex (\<lambda>r. dp_cid r = cid \<and> dp_id r \<noteq> pin_id \<and> active_status r \<and> now < dp_expires r) (pt_pins tables)"

definition mark_unpinned :: "jstr \<Rightarrow> int \<Rightarrow> pin_tables \<Rightarrow> server_error + pin_tables" where
  "mark_unpinned pin_id now =
     update_pins (\<lambda>r. dp_id r = pin_id \<and> active_status r)
       (\<lambda>r. r\<lparr>dp_status := Pin_Unpinned, dp_unpinned := Some now, dp_updated := now\<rparr>)"

definition unreferenced :: "pin_tables \<Rightarrow> pin_challenge \<Rightarrow> bool" where
  "unreferenced tables r \<longleftrightarrow> \<not> list_ex (\<lambda>q. dp_challenge q = pk_id r) (pt_pins tables)"

definition expired_candidates :: "int \<Rightarrow> nat \<Rightarrow> pin_tables \<Rightarrow> jstr list" where
  "expired_candidates now limit tables =
     map pk_id (take limit (sort_key pk_expires (filter (\<lambda>r. pk_expires r \<le> now \<and> unreferenced tables r) (pt_challenges tables))))"

definition delete_expired_unreferenced_challenges :: "int \<Rightarrow> nat \<Rightarrow> pin_tables \<Rightarrow> nat \<times> pin_tables" where
  "delete_expired_unreferenced_challenges now limit tables =
     (let gone = (\<lambda>r. pk_id r \<in> set (expired_candidates now limit tables) \<and> unreferenced tables r)
      in (length (filter gone (pt_challenges tables)),
          tables\<lparr>pt_challenges := filter (\<lambda>r. \<not> gone r) (pt_challenges tables)\<rparr>))"

section \<open>Every statement, in any order\<close>

text \<open>
  The requests and sweeps of all servers reach the tables as transactions of the repository, in any order and with any
  arguments; only the daily limit is that of the service.
\<close>

inductive pin_step :: "nat \<Rightarrow> pin_tables \<Rightarrow> pin_tables \<Rightarrow> bool" for limit where
  challenge: "create_challenge db row tables = Inr tables' \<Longrightarrow> pk_used row = None \<Longrightarrow> pin_step limit tables tables'"
| reserve: "reserve_pin db input tables = Inr (pin, tables') \<Longrightarrow> pr_limit input = limit \<Longrightarrow> pin_step limit tables tables'"
| pinned: "mark_pinned pin_id now tables = Inr tables' \<Longrightarrow> pin_step limit tables tables'"
| failed: "mark_failed pin_id code now tables = Inr tables' \<Longrightarrow> pin_step limit tables tables'"
| unpinned: "mark_unpinned pin_id now tables = Inr tables' \<Longrightarrow> pin_step limit tables tables'"
| cleaned: "delete_expired_unreferenced_challenges now most tables = (n, tables') \<Longrightarrow> pin_step limit tables tables'"


section \<open>Challenges and quotas\<close>

lemma distinct_map_sorted_wrt: "distinct (map f xs) = sorted_wrt (\<lambda>x y. f x \<noteq> f y) xs"
  by (induction xs) auto

definition in_day :: "int \<Rightarrow> demo_pin \<Rightarrow> bool" where
  "in_day t r \<longleftrightarrow> t \<le> dp_created r \<and> dp_created r \<le> t + DAY"

definition within_quota :: "nat \<Rightarrow> (demo_pin \<Rightarrow> bool) \<Rightarrow> demo_pin list \<Rightarrow> bool" where
  "within_quota limit p pins \<longleftrightarrow> (\<forall>t. length (filter (\<lambda>r. p r \<and> in_day t r) pins) \<le> limit)"

definition bought_by :: "pin_challenge \<Rightarrow> demo_pin \<Rightarrow> bool" where
  "bought_by c r \<longleftrightarrow>
     pk_id c = dp_challenge r \<and> pk_used c = Some (dp_created r) \<and> dp_created r < pk_expires c \<and>
     pk_profile c = dp_profile r \<and> pk_wallet c = dp_wallet r \<and> pk_ip c = dp_ip r"

definition pins_ok :: "nat \<Rightarrow> pin_tables \<Rightarrow> bool" where
  "pins_ok limit tables \<longleftrightarrow>
     challenge_table.consistent (pt_challenges tables) \<and> pin_table.consistent (pt_pins tables) \<and>
     (\<forall>r \<in> set (pt_pins tables). \<exists>c \<in> set (pt_challenges tables). bought_by c r) \<and>
     (\<forall>c \<in> set (pt_challenges tables). pk_used c \<noteq> None \<longrightarrow> (\<exists>r \<in> set (pt_pins tables). dp_challenge r = pk_id c)) \<and>
     (\<forall>w. within_quota limit (\<lambda>r. dp_wallet r = w) (pt_pins tables)) \<and> (\<forall>i. within_quota limit (\<lambda>r. dp_ip r = i) (pt_pins tables))"

text \<open>A pin that is inserted when the day before it has room leaves every day within the quota.\<close>

lemma within_quota_insert:
  assumes "within_quota limit p pins" and "p r \<Longrightarrow> length (filter (\<lambda>q. p q \<and> dp_created r - DAY \<le> dp_created q) pins) < limit"
  shows "within_quota limit p (pins @ [r])"
  unfolding within_quota_def
proof
  fix t
  have old: "length (filter (\<lambda>q. p q \<and> in_day t q) pins) \<le> limit" using assms(1) by (simp add: within_quota_def)
  have "length (filter (\<lambda>q. p q \<and> in_day t q) pins) < limit" if new: "p r" "in_day t r"
  proof -
    have "filter (\<lambda>q. p q \<and> in_day t q) pins =
        filter (in_day t) (filter (\<lambda>q. p q \<and> dp_created r - DAY \<le> dp_created q) pins)"
      unfolding filter_filter by (rule filter_cong) (use new(2) in \<open>auto simp: in_day_def\<close>)
    then have "length (filter (\<lambda>q. p q \<and> in_day t q) pins) \<le> length (filter (\<lambda>q. p q \<and> dp_created r - DAY \<le> dp_created q) pins)"
      by (metis length_filter_le)
    then show ?thesis using assms(2) new(1) by simp
  qed
  then show "length (filter (\<lambda>q. p q \<and> in_day t q) (pins @ [r])) \<le> limit" using old by auto
qed

lemma within_quota_map:
  assumes "\<And>r. p (g r) = p r" and "\<And>r. dp_created (g r) = dp_created r"
  shows "within_quota limit p (map g pins) = within_quota limit p pins"
  by (simp add: within_quota_def filter_map comp_def assms in_day_def)

text \<open>Updates of pins change only the status.\<close>

lemma update_pins_ok:
  assumes "pins_ok limit tables" and "update_pins p f tables = Inr tables'"
    and "\<And>r. dp_id (f r) = dp_id r" "\<And>r. dp_challenge (f r) = dp_challenge r" "\<And>r. dp_profile (f r) = dp_profile r"
    "\<And>r. dp_wallet (f r) = dp_wallet r" "\<And>r. dp_ip (f r) = dp_ip r" "\<And>r. dp_created (f r) = dp_created r"
  shows "pins_ok limit tables'"
proof -
  define g where "g = (\<lambda>r. if p r then f r else r)"
  have keep: "dp_id (g r) = dp_id r" "dp_challenge (g r) = dp_challenge r" "dp_wallet (g r) = dp_wallet r" "dp_ip (g r) = dp_ip r"
      "dp_created (g r) = dp_created r" "bought_by c (g r) = bought_by c r" for r c
    by (simp_all add: g_def bought_by_def assms(3-))
  have rows: "update_rows demo_pin_ok p f (pt_pins tables) = Inr (pt_pins tables')" "pt_challenges tables' = pt_challenges tables"
    using assms(2) by (auto simp: update_pins_def res_simps)
  then have map: "pt_pins tables' = map g (pt_pins tables)" by (simp add: update_rows_def g_def split: if_splits)
  have "pin_table.consistent (pt_pins tables')"
    using assms(1) rows(1) by (auto simp: pins_ok_def same_pin_def assms(3-) intro: pin_table.consistent_update)
  moreover have "within_quota limit (\<lambda>r. dp_wallet r = w) (pt_pins tables')" "within_quota limit (\<lambda>r. dp_ip r = w) (pt_pins tables')" for w
    unfolding map using assms(1) by (simp_all add: within_quota_map keep pins_ok_def)
  moreover have "\<forall>r \<in> set (pt_pins tables'). \<exists>c \<in> set (pt_challenges tables'). bought_by c r"
    "\<forall>c \<in> set (pt_challenges tables'). pk_used c \<noteq> None \<longrightarrow> (\<exists>r \<in> set (pt_pins tables'). dp_challenge r = pk_id c)"
    using assms(1) by (simp_all add: map rows(2) keep pins_ok_def del: not_None_eq)
  ultimately show ?thesis using assms(1) by (simp add: pins_ok_def rows(2))
qed

lemma create_challenge_ok:
  assumes "pins_ok limit tables" and "create_challenge db row tables = Inr tables'" and "pk_used row = None"
  shows "pins_ok limit tables'"
proof -
  have rows: "insert_row pin_challenge_ok same_challenge (has_profile db (pk_profile row)) row (pt_challenges tables) = Inr (pt_challenges tables')"
    "pt_pins tables' = pt_pins tables"
    using assms(2) by (auto simp: create_challenge_def res_simps)
  then have "pt_challenges tables' = pt_challenges tables @ [row]" by (simp add: insert_row_def split: if_splits)
  moreover have "challenge_table.consistent (pt_challenges tables')"
    using assms(1) rows(1) unfolding pins_ok_def by (blast intro: challenge_table.consistent_insert)
  ultimately show ?thesis using assms(1,3) rows(2) by (auto simp: pins_ok_def)
qed

lemma cleaned_ok:
  assumes "pins_ok limit tables" and "delete_expired_unreferenced_challenges now most tables = (n, tables')"
  shows "pins_ok limit tables'"
proof -
  define gone where "gone = (\<lambda>r. pk_id r \<in> set (expired_candidates now most tables) \<and> unreferenced tables r)"
  have t: "pt_pins tables' = pt_pins tables" "pt_challenges tables' = filter (\<lambda>r. \<not> gone r) (pt_challenges tables)"
    using assms(2) unfolding delete_expired_unreferenced_challenges_def Let_def by (auto simp: gone_def)
  have "challenge_table.consistent (pt_challenges tables')"
    using assms(1) by (auto simp: t pins_ok_def challenge_table.consistent_def list_all_iff sorted_wrt_filter)
  moreover have "\<exists>c \<in> set (pt_challenges tables'). bought_by c r" if "r \<in> set (pt_pins tables)" for r
  proof -
    obtain c where c: "c \<in> set (pt_challenges tables)" "bought_by c r" using assms(1) \<open>r \<in> set _\<close> by (auto simp: pins_ok_def)
    have "\<not> unreferenced tables c" using c(2) that by (auto simp: unreferenced_def list_ex_iff bought_by_def)
    then show ?thesis using c t by (auto simp: gone_def)
  qed
  ultimately show ?thesis using assms(1) t by (auto simp: pins_ok_def)
qed

lemma get_challenge_Some: "get_challenge tables i = Some c \<Longrightarrow> c \<in> set (pt_challenges tables) \<and> pk_id c = i"
  by (auto simp: get_challenge_def find_Some_iff)

lemma reserve_pin_Inr:
  assumes "reserve_pin db input tables = Inr (pin, tables')"
  shows "\<exists>c. get_challenge tables (pr_challenge input) = Some c \<and> pk_used c = None \<and> pr_now input < pk_expires c \<and>
    pk_profile c = pr_profile input \<and> pk_wallet c = pr_wallet input \<and> pk_ip c = pr_ip input \<and>
    quota_used (\<lambda>r. dp_wallet r = pr_wallet input) (pr_now input - DAY) tables < pr_limit input \<and>
    quota_used (\<lambda>r. dp_ip r = pr_ip input) (pr_now input - DAY) tables < pr_limit input \<and> pin = reserved_pin input \<and>
    use_challenge (pr_challenge input) (pr_now input) (pt_challenges tables) = Inr (pt_challenges tables') \<and>
    pt_pins tables' = pt_pins tables @ [pin] \<and> demo_pin_ok pin \<and> \<not> list_ex (same_pin pin) (pt_pins tables)"
  using assms by (auto simp: reserve_pin_def res_simps Let_def insert_row_def split: if_splits)

lemma reserve_pin_ok:
  assumes ok: "pins_ok limit tables" and run: "reserve_pin db input tables = Inr (pin, tables')" and limit: "pr_limit input = limit"
  shows "pins_ok limit tables'"
proof -
  obtain c where c: "c \<in> set (pt_challenges tables)" "pk_id c = pr_challenge input" "pk_used c = None" "pr_now input < pk_expires c"
      "pk_profile c = pr_profile input" "pk_wallet c = pr_wallet input" "pk_ip c = pr_ip input"
    and quota: "quota_used (\<lambda>r. dp_wallet r = pr_wallet input) (pr_now input - DAY) tables < limit"
      "quota_used (\<lambda>r. dp_ip r = pr_ip input) (pr_now input - DAY) tables < limit"
    and pin: "pin = reserved_pin input"
    and used: "use_challenge (pr_challenge input) (pr_now input) (pt_challenges tables) = Inr (pt_challenges tables')"
    and pins: "pt_pins tables' = pt_pins tables @ [pin]" "demo_pin_ok pin" "\<not> list_ex (same_pin pin) (pt_pins tables)"
    using reserve_pin_Inr [OF run] get_challenge_Some limit by fastforce
  have shape: "dp_wallet pin = pr_wallet input" "dp_ip pin = pr_ip input" "dp_created pin = pr_now input"
      "dp_challenge pin = pr_challenge input" "dp_profile pin = pr_profile input"
    by (simp_all add: pin reserved_pin_def)
  let ?g = "\<lambda>r. if pk_id r = pr_challenge input \<and> pk_used r = None then r\<lparr>pk_used := Some (pr_now input)\<rparr> else r"
  have challenges: "pt_challenges tables' = map ?g (pt_challenges tables)"
    using used by (simp add: use_challenge_def update_rows_def split: if_splits)
  have consistent: "challenge_table.consistent (pt_challenges tables')"
    using ok used unfolding pins_ok_def use_challenge_def
    by (elim conjE) (rule challenge_table.consistent_update [rotated], assumption, auto simp: same_challenge_def)
  have "pin_table.consistent (pt_pins tables')"
    using ok pins by (auto simp: pins_ok_def pin_table.consistent_def sorted_wrt_append list_ex_iff same_pin_def)
  moreover have old: "\<exists>c \<in> set (pt_challenges tables'). bought_by c r" if "r \<in> set (pt_pins tables)" for r
  proof -
    obtain d where d: "d \<in> set (pt_challenges tables)" "bought_by d r" using ok \<open>r \<in> _\<close> by (auto simp: pins_ok_def)
    then have "?g d = d" by (auto simp: bought_by_def)
    then show ?thesis using d challenges by force
  qed
  moreover have new: "\<exists>c \<in> set (pt_challenges tables'). bought_by c pin"
  proof
    show "?g c \<in> set (pt_challenges tables')" using c challenges by auto
    show "bought_by (?g c) pin" using c shape by (simp add: bought_by_def)
  qed
  moreover have "\<exists>r \<in> set (pt_pins tables'). dp_challenge r = pk_id d" if "d \<in> set (pt_challenges tables')" "pk_used d \<noteq> None" for d
    using that ok pins shape unfolding challenges pins_ok_def by (fastforce split: if_splits)
  moreover have "within_quota limit (\<lambda>r. dp_wallet r = w) (pt_pins tables')" "within_quota limit (\<lambda>r. dp_ip r = w) (pt_pins tables')" for w
    unfolding pins(1) by (rule within_quota_insert; use ok quota shape in \<open>auto simp: pins_ok_def quota_used_def\<close>)+
  ultimately show ?thesis using consistent unfolding pins_ok_def pins(1) by (auto simp: ball_Un)
qed

lemma marks_ok:
  assumes "pins_ok limit tables"
  shows "mark_pinned i now tables = Inr tables' \<Longrightarrow> pins_ok limit tables'" "mark_failed i code now tables = Inr tables' \<Longrightarrow> pins_ok limit tables'"
    "mark_unpinned i now tables = Inr tables' \<Longrightarrow> pins_ok limit tables'"
  using assms by (auto simp: mark_pinned_def mark_failed_def mark_unpinned_def elim!: update_pins_ok)

lemma pin_step_ok:
  assumes "pin_step limit tables tables'" and "pins_ok limit tables"
  shows "pins_ok limit tables'"
  using assms(1)
proof cases
  case (challenge db row)
  then show ?thesis using assms(2) by (auto intro: create_challenge_ok)
next
  case (reserve db input pin)
  then show ?thesis using assms(2) by (auto intro: reserve_pin_ok)
next
  case (cleaned now most n)
  then show ?thesis using assms(2) by (auto intro: cleaned_ok)
qed (use assms(2) marks_ok in blast)+

lemma no_pins_ok: "pins_ok limit \<lparr>pt_challenges = [], pt_pins = []\<rparr>"
  by (simp add: pins_ok_def challenge_table.consistent_Nil pin_table.consistent_Nil within_quota_def)

lemma pins_stay_ok: "(pin_step limit)\<^sup>*\<^sup>* tables tables' \<Longrightarrow> pins_ok limit tables \<Longrightarrow> pins_ok limit tables'"
  by (induction rule: rtranclp_induct) (auto intro: pin_step_ok)

end
