(* ===== verification/Server_Pinning.thy ===== *)
theory Server_Pinning
  imports Server_Pins
begin

text \<open>
  The demo pinning service (\<open>apps/web/server/xcs/pinning.ts\<close>, \<open>pii-field-filter.ts\<close>) over the repository of pins, the
  read side of the server and a content store. Random identifiers and times of the service are arguments. Main
  results: what a pin that was answered rests on, and which content a sweep gives back.
\<close>

section \<open>Libraries and options\<close>

text \<open>
  \<open>createHmac\<close> (secret, text), \<open>Date.toISOString\<close>, \<open>Buffer.from(_, 'base64')\<close>, \<open>normalize('NFKD')\<close> and \<open>toLowerCase\<close> of the
  host; \<open>deriveAddress\<close> and \<open>verifyKeypairSignature\<close> (message, signature, key) of \<open>xrpl\<close>, \<open>None\<close> when they throw. The store
  maps what it holds to whether the call returns and what it holds then.
\<close>

record pin_tools =
  hmac_sha256 :: "jstr \<Rightarrow> jstr \<Rightarrow> jstr"
  to_iso_string :: "int \<Rightarrow> jstr"
  buffer_from_base64 :: "jstr \<Rightarrow> byte list"
  normalize_nfkd :: "jstr \<Rightarrow> jstr"
  to_lower_case :: "jstr \<Rightarrow> jstr"
  derive_address :: "jstr \<Rightarrow> jstr option"
  verify_keypair_signature :: "jstr \<Rightarrow> jstr \<Rightarrow> jstr \<Rightarrow> bool option"
  put_raw :: "byte list \<Rightarrow> jstr \<Rightarrow> jstr set \<Rightarrow> bool \<times> jstr set"
  unpin_cid :: "jstr \<Rightarrow> jstr set \<Rightarrow> bool \<times> jstr set"

text \<open>What the store does: a call that returns has done its work, one that fails may have.\<close>

definition store_laws :: "pin_tools \<Rightarrow> bool" where
  "store_laws tools \<longleftrightarrow>
     (\<forall>content cid held. case put_raw tools content cid held of (ok, held') \<Rightarrow> held' = insert cid held \<or> \<not> ok \<and> held' = held) \<and>
     (\<forall>cid held. case unpin_cid tools cid held of (ok, held') \<Rightarrow> held' = held - {cid} \<or> \<not> ok \<and> held' = held)"

definition MAX_DEMO_PIN_BYTES :: nat where "MAX_DEMO_PIN_BYTES = 64 * 1024"
definition CHALLENGE_TTL_MS :: int where "CHALLENGE_TTL_MS = 5 * 60 * 1000"
definition PIN_TTL_MS :: int where "PIN_TTL_MS = 90 * 24 * 60 * 60 * 1000"
definition DAILY_LIMIT :: nat where "DAILY_LIMIT = 10"

record pin_options =
  po_secret :: jstr
  po_enabled :: "jstr list"
  po_max_age :: "jnum option"
  po_verify :: "(jstr \<Rightarrow> jstr \<Rightarrow> jstr \<Rightarrow> jstr \<Rightarrow> bool option) option"

abbreviation pinning_error :: "string \<Rightarrow> nat \<Rightarrow> server_error + 'a" where
  "pinning_error code status \<equiv> Inl (Coded_Error code status)"

text \<open>The constructor.\<close>

definition pinning_service :: "pin_options \<Rightarrow> server_error + unit" where
  "pinning_service opts = (if length (encode_utf8 (po_secret opts)) < 32 then Inl (Uncoded_Error HostErr) else Inr ())"

section \<open>Field names of personal data\<close>

definition PII_FIELD_NAMES :: "string list" where
  "PII_FIELD_NAMES =
     [''address'', ''adresse'', ''birthdate'', ''dateofbirth'', ''dob'', ''email'', ''familyname'', ''firstname'', ''fullname'',
      ''givenname'', ''lastname'', ''middlename'', ''mobile'', ''mobilenumber'', ''nationalid'', ''passport'', ''passportnumber'',
      ''phone'', ''phonenumber'', ''postaladdress'', ''prenom'', ''socialsecuritynumber'', ''ssn'', ''streetaddress'', ''telephone'',
      ''telephonenumber'']"

definition normalize_field_name :: "pin_tools \<Rightarrow> jstr \<Rightarrow> jstr" where
  "normalize_field_name tools s = filter (\<lambda>c. is_lower c \<or> is_digit c) (to_lower_case tools (normalize_nfkd tools s))"

fun has_pii_shaped_field_name :: "pin_tools \<Rightarrow> jsval \<Rightarrow> bool" where
  "has_pii_shaped_field_name tools (JArr xs) = list_ex (has_pii_shaped_field_name tools) xs"
| "has_pii_shaped_field_name tools (JObj p kvs) =
     list_ex (\<lambda>(k, v). normalize_field_name tools k \<in> set (map lit PII_FIELD_NAMES) \<or> has_pii_shaped_field_name tools v) kvs"
| "has_pii_shaped_field_name tools v = False"

section \<open>Challenges\<close>

definition hash_ip :: "pin_tools \<Rightarrow> pin_options \<Rightarrow> jstr \<Rightarrow> jstr" where
  "hash_ip tools opts ip = hmac_sha256 tools (po_secret opts) ip"

definition challenge_message :: "pin_tools \<Rightarrow> jstr \<Rightarrow> jstr \<Rightarrow> jstr \<Rightarrow> int \<Rightarrow> jstr" where
  "challenge_message tools challenge_id network wallet expires =
     lit ''XCS Testnet Demo Pin v1'' @ [10] @ lit ''challenge:'' @ challenge_id @ [10] @ lit ''network:'' @ network @ [10] @
     lit ''wallet:'' @ wallet @ [10] @ lit ''expires:'' @ to_iso_string tools expires"

definition create_demo_challenge ::
  "'x server_lib_scheme \<Rightarrow> pin_tools \<Rightarrow> pin_options \<Rightarrow> snapshot \<Rightarrow> int \<Rightarrow> int \<Rightarrow> jstr \<Rightarrow> jstr \<Rightarrow> jstr \<Rightarrow> jstr \<Rightarrow> pin_tables \<Rightarrow>
    server_error + pin_challenge \<times> pin_tables" where
  "create_demo_challenge lib tools opts db now created challenge_id network wallet ip tables =
     (if network \<notin> set (po_enabled opts) then pinning_error ''PINNING_NETWORK_DISABLED'' 404
      else if \<not> is_valid_classic_address lib wallet then pinning_error ''WALLET_INVALID'' 400
      else
        case get_network db network of
          None \<Rightarrow> pinning_error ''NETWORK_NOT_FOUND'' 404
        | Some profile \<Rightarrow>
            if np_network_id profile \<noteq> 1 then pinning_error ''PINNING_NETWORK_DISABLED'' 404
            else
              let expires = now + CHALLENGE_TTL_MS;
                  row = \<lparr>pk_id = challenge_id, pk_profile = network, pk_wallet = wallet, pk_ip = hash_ip tools opts ip,
                    pk_message = challenge_message tools challenge_id network wallet expires, pk_expires = expires,
                    pk_used = None, pk_created = created\<rparr>
              in rbind (create_challenge (database.truncate db) row tables) (\<lambda>tables. Inr (row, tables)))"

section \<open>Pins\<close>

definition is_base64 :: "cu \<Rightarrow> bool" where
  "is_base64 c \<longleftrightarrow> is_alphanumeric c \<or> c = ch CHR ''+'' \<or> c = ch CHR ''/''"

fun base64_text :: "jstr \<Rightarrow> bool" where
  "base64_text (a # b # c # d # s) =
     (if list_all is_base64 [a, b, c, d] then base64_text s
      else s = [] \<and> is_base64 a \<and> is_base64 b \<and> d = ch CHR ''='' \<and> (is_base64 c \<or> c = ch CHR ''=''))"
| "base64_text s = (s = [])"

definition decode_base64 :: "pin_tools \<Rightarrow> jstr \<Rightarrow> server_error + byte list" where
  "decode_base64 tools s =
     (if s = [] \<or> length s mod 4 \<noteq> 0 \<or> \<not> base64_text s then pinning_error ''PAYLOAD_BASE64_INVALID'' 400
      else
        let content = buffer_from_base64 tools s in
        if content = [] \<or> MAX_DEMO_PIN_BYTES < length content then pinning_error ''PAYLOAD_SIZE_INVALID'' 413
        else Inr content)"

record pin_request =
  pq_network :: jstr
  pq_wallet :: jstr
  pq_challenge :: jstr
  pq_public_key :: jstr
  pq_signature :: jstr
  pq_payload :: jstr
  pq_ip :: jstr

definition signature_shape_ok :: "pin_request \<Rightarrow> bool" where
  "signature_shape_ok req \<longleftrightarrow>
     (case pq_public_key req of
        a # b # k \<Rightarrow> ([a, b] = lit ''ED'' \<or> a = ch CHR ''0'' \<and> b \<in> {ch CHR ''2'', ch CHR ''3''}) \<and> length k = 64 \<and> list_all is_hex k
      | _ \<Rightarrow> False) \<and>
     128 \<le> length (pq_signature req) \<and> length (pq_signature req) \<le> 144 \<and> list_all is_hex (pq_signature req)"

text \<open>The verification the service makes unless the options hold another one: wallet, message, public key, signature.\<close>

definition verify_wallet_signature :: "'x core_lib_scheme \<Rightarrow> pin_tools \<Rightarrow> jstr \<Rightarrow> jstr \<Rightarrow> jstr \<Rightarrow> jstr \<Rightarrow> bool option" where
  "verify_wallet_signature lib tools wallet message public_key signature =
     (case derive_address tools (to_upper public_key) of
        None \<Rightarrow> None
      | Some address \<Rightarrow>
          if address \<noteq> wallet then Some False
          else verify_keypair_signature tools (to_upper (bytes_to_hex lib (encode_utf8 message))) (to_upper signature) (to_upper public_key))"

definition signed_by_wallet ::
  "'x core_lib_scheme \<Rightarrow> pin_tools \<Rightarrow> pin_options \<Rightarrow> jstr \<Rightarrow> pin_request \<Rightarrow> bool" where
  "signed_by_wallet lib tools opts message req \<longleftrightarrow>
     (case po_verify opts of None \<Rightarrow> verify_wallet_signature lib tools | Some v \<Rightarrow> v)
       (pq_wallet req) message (pq_public_key req) (pq_signature req) = Some True"

definition payload_header :: "'x core_lib_scheme \<Rightarrow> byte list \<Rightarrow> server_error + jsval" where
  "payload_header lib content =
     (case parse_json lib (Bytes content) of
        Inl _ \<Rightarrow> pinning_error ''PAYLOAD_INVALID'' 400
      | Inr v \<Rightarrow> if is_record v then Inr v else pinning_error ''PAYLOAD_INVALID'' 400)"

text \<open>The schema of the payload, resolved in one snapshot under the same evidence as any other read.\<close>

definition pinned_schema ::
  "'x server_lib_scheme \<Rightarrow> pin_options \<Rightarrow> snapshot \<Rightarrow> jstr \<Rightarrow> jstr \<Rightarrow> server_error + resolved_schema" where
  "pinned_schema lib opts db network uid =
     (case get_network db network of
        None \<Rightarrow> pinning_error ''NETWORK_NOT_FOUND'' 404
      | Some profile \<Rightarrow>
          if np_network_id profile \<noteq> 1 then pinning_error ''PINNING_NETWORK_DISABLED'' 404
          else
            let authority = \<lparr>le_profile = network, le_status = get_indexer_status db network,
                  le_checkpoint = get_latest_checkpoint db network, le_now = Some (sn_now db),
                  le_max_age = (case po_max_age opts of None \<Rightarrow> NInt DEFAULT_LEDGER_MAX_AGE_SECONDS | Some a \<Rightarrow> a),
                  le_minimum = Some (np_activation_index profile), le_projections = []\<rparr>
            in
            rbind (assert_authoritative_ledger_evidence lib authority) (\<lambda>_.
            case get_schema db network uid of
              None \<Rightarrow> pinning_error ''SCHEMA_NOT_FOUND'' 404
            | Some row \<Rightarrow>
                rbind (projection_evidence lib db network [row]) (\<lambda>evidence.
                rbind (assert_authoritative_ledger_evidence lib (authority\<lparr>le_projections := evidence_indexes evidence\<rparr>)) (\<lambda>_.
                projected (authoritative_resolved_schema lib row evidence (schema_expectation profile network uid))))))"

text \<open>A subject that is not a string is no address.\<close>

definition parse_pinned_payload ::
  "'x core_lib_scheme \<Rightarrow> byte list \<Rightarrow> jstr \<Rightarrow> jsval \<Rightarrow> jstr \<Rightarrow> resolved_schema \<Rightarrow> server_error + credential_payload" where
  "parse_pinned_payload lib content wallet subject uid schema =
     (case subject of
        JStr s \<Rightarrow>
          (case parse_credential_payload lib (Bytes content)
              \<lparr>ctx_issuer = wallet, ctx_subject = s, ctx_schema_uid = uid, ctx_fields = resolved_fields schema\<rparr> of
             Inl _ \<Rightarrow> pinning_error ''PAYLOAD_INVALID'' 400
           | Inr payload \<Rightarrow> Inr payload)
      | _ \<Rightarrow> pinning_error ''PAYLOAD_INVALID'' 400)"

text \<open>Everything \<open>pin\<close> does before it reserves: the challenge and its signature, then the content and its CID.\<close>

definition authorized_pin ::
  "'x core_lib_scheme \<Rightarrow> pin_tools \<Rightarrow> pin_options \<Rightarrow> pin_request \<Rightarrow> pin_tables \<Rightarrow> server_error + unit" where
  "authorized_pin lib tools opts req tables =
     (if pq_network req \<notin> set (po_enabled opts) then pinning_error ''PINNING_NETWORK_DISABLED'' 404
      else
        case get_challenge tables (pq_challenge req) of
          None \<Rightarrow> pinning_error ''CHALLENGE_NOT_FOUND'' 404
        | Some challenge \<Rightarrow>
            if pk_profile challenge \<noteq> pq_network req \<or> pk_wallet challenge \<noteq> pq_wallet req
            then pinning_error ''CHALLENGE_MISMATCH'' 403
            else if \<not> signature_shape_ok req \<or> \<not> signed_by_wallet lib tools opts (pk_message challenge) req
            then pinning_error ''SIGNATURE_INVALID'' 401
            else Inr ())"

definition integrity_checked :: "'x core_lib_scheme \<Rightarrow> byte list \<Rightarrow> server_error + byte list \<times> jstr" where
  "integrity_checked lib content =
     rbind (uncoded (create_ipfs_payload_uri lib (Bytes content))) (\<lambda>uri.
     let cid = drop (length ''ipfs://'') uri in
     rbind (uncoded (verify_payload_integrity lib (Bytes content) (lit ''ipfs://'' @ cid))) (\<lambda>result.
     if integrity_valid result then Inr (content, cid) else pinning_error ''CID_INTEGRITY_ERROR'' 500))"

definition checked_content ::
  "'x server_lib_scheme \<Rightarrow> pin_tools \<Rightarrow> pin_options \<Rightarrow> snapshot \<Rightarrow> pin_request \<Rightarrow> server_error + byte list \<times> jstr" where
  "checked_content lib tools opts db req =
     rbind (decode_base64 tools (pq_payload req)) (\<lambda>content.
     rbind (payload_header lib content) (\<lambda>header.
     if get header ''issuer'' \<noteq> JStr (pq_wallet req) then pinning_error ''PAYLOAD_ISSUER_MISMATCH'' 403
     else
       case get header ''schema'' of
         JStr uid \<Rightarrow>
           rbind (pinned_schema lib opts db (pq_network req) uid) (\<lambda>schema.
           rbind (parse_pinned_payload lib content (pq_wallet req) (get header ''subject'') uid schema) (\<lambda>payload.
           if has_pii_shaped_field_name tools (payload_claims payload)
           then pinning_error ''DEMO_PIN_PII_FIELD_FORBIDDEN'' 400
           else integrity_checked lib content))
       | _ \<Rightarrow> pinning_error ''PAYLOAD_INVALID'' 400))"

definition checked_pin ::
  "'x server_lib_scheme \<Rightarrow> pin_tools \<Rightarrow> pin_options \<Rightarrow> snapshot \<Rightarrow> pin_request \<Rightarrow> pin_tables \<Rightarrow> server_error + byte list \<times> jstr" where
  "checked_pin lib tools opts db req tables =
     rbind (authorized_pin lib tools opts req tables) (\<lambda>_. checked_content lib tools opts db req)"

definition pin_reservation_of :: "pin_tools \<Rightarrow> pin_options \<Rightarrow> pin_request \<Rightarrow> int \<Rightarrow> jstr \<Rightarrow> byte list \<Rightarrow> jstr \<Rightarrow> pin_reservation" where
  "pin_reservation_of tools opts req now pin_id content cid =
     \<lparr>pr_pin = pin_id, pr_challenge = pq_challenge req, pr_profile = pq_network req, pr_wallet = pq_wallet req,
      pr_ip = hash_ip tools opts (pq_ip req), pr_cid = cid, pr_length = int (length content), pr_expires = now + PIN_TTL_MS,
      pr_now = now, pr_limit = DAILY_LIMIT\<rparr>"

record pin_reply =
  py_uri :: jstr
  py_cid :: jstr
  py_length :: nat
  py_expires :: int

text \<open>
  A pin: the reply or the error, the tables, and what the store holds. \<open>now\<close> is the time of the reservation, \<open>later\<close> that
  of the mark.
\<close>

definition service_pin ::
  "'x server_lib_scheme \<Rightarrow> pin_tools \<Rightarrow> pin_options \<Rightarrow> snapshot \<Rightarrow> int \<Rightarrow> int \<Rightarrow> jstr \<Rightarrow> pin_request \<Rightarrow> pin_tables \<Rightarrow> jstr set \<Rightarrow>
    (server_error + pin_reply) \<times> pin_tables \<times> jstr set" where
  "service_pin lib tools opts db now later pin_id req tables held =
     (case rbind (checked_pin lib tools opts db req tables) (\<lambda>(content, cid).
           rbind (reserve_pin (database.truncate db) (pin_reservation_of tools opts req now pin_id content cid) tables)
             (\<lambda>(row, tables). Inr (content, cid, row, tables))) of
        Inl e \<Rightarrow> (Inl e, tables, held)
      | Inr (content, cid, row, tables) \<Rightarrow>
          (case put_raw tools content cid held of (ok, held) \<Rightarrow>
             (case (if ok then mark_pinned (dp_id row) later tables else Inl (Uncoded_Error HostErr)) of
                Inr tables \<Rightarrow>
                  (Inr \<lparr>py_uri = lit ''ipfs://'' @ cid, py_cid = cid, py_length = length content, py_expires = dp_expires row\<rparr>, tables, held)
              | Inl _ \<Rightarrow>
                  (case mark_failed (dp_id row) ''KUBO_WRITE_FAILED'' later tables of
                     Inl e \<Rightarrow> (Inl e, tables, held)
                   | Inr tables \<Rightarrow> (pinning_error ''PIN_STORE_UNAVAILABLE'' 502, tables, held)))))"

section \<open>The sweep\<close>

text \<open>\<open>unpinExpired\<close>: the number of pins it processed, or the error that stopped it.\<close>

fun sweep_pins ::
  "pin_tools \<Rightarrow> int \<Rightarrow> int \<Rightarrow> demo_pin list \<Rightarrow> pin_tables \<Rightarrow> jstr set \<Rightarrow> (server_error + nat) \<times> pin_tables \<times> jstr set" where
  "sweep_pins tools now later [] tables held = (Inr 0, tables, held)"
| "sweep_pins tools now later (r # rs) tables held =
     (case (if has_other_active_pin (dp_cid r) (dp_id r) now tables then (True, held) else unpin_cid tools (dp_cid r) held) of
        (False, held) \<Rightarrow> (Inl (Uncoded_Error HostErr), tables, held)
      | (True, held) \<Rightarrow>
          (case mark_unpinned (dp_id r) later tables of
             Inl e \<Rightarrow> (Inl e, tables, held)
           | Inr tables \<Rightarrow>
               (case sweep_pins tools now later rs tables held of
                  (result, rest) \<Rightarrow> (rbind result (\<lambda>n. Inr (Suc n)), rest))))"

definition unpin_expired ::
  "pin_tools \<Rightarrow> int \<Rightarrow> int \<Rightarrow> nat \<Rightarrow> pin_tables \<Rightarrow> jstr set \<Rightarrow> (server_error + nat) \<times> pin_tables \<times> jstr set" where
  "unpin_expired tools now later limit tables held =
     (case delete_expired_unreferenced_challenges now 1000 tables of (_, tables) \<Rightarrow>
        sweep_pins tools now later (find_expired_pins now limit tables) tables held)"


section \<open>What the service does to the tables\<close>

lemma create_demo_challenge_steps:
  "create_demo_challenge lib tools opts db now created challenge_id network wallet ip tables = Inr (row, tables') \<Longrightarrow>
     (pin_step limit)\<^sup>*\<^sup>* tables tables'"
  by (auto simp: create_demo_challenge_def res_simps Let_def split: if_splits intro!: r_into_rtranclp pin_step.challenge)

lemma pin_steps:
  assumes "service_pin lib tools opts db now later pin_id req tables held = (result, tables', held')"
  shows "(pin_step DAILY_LIMIT)\<^sup>*\<^sup>* tables tables'"
proof (cases "rbind (checked_pin lib tools opts db req tables) (\<lambda>(content, cid).
    rbind (reserve_pin (database.truncate db) (pin_reservation_of tools opts req now pin_id content cid) tables)
      (\<lambda>(row, tables). Inr (content, cid, row, tables)))")
  case (Inl e)
  then show ?thesis using assms by (simp add: service_pin_def)
next
  case (Inr x)
  then obtain content cid row mid where run: "reserve_pin (database.truncate db)
      (pin_reservation_of tools opts req now pin_id content cid) tables = Inr (row, mid)" and x: "x = (content, cid, row, mid)"
    by (auto simp: rbind_eq_Inr)
  have "pin_step DAILY_LIMIT tables mid"
    by (rule pin_step.reserve [OF run]) (simp add: pin_reservation_of_def)
  moreover have "tables' = mid \<or> mark_pinned (dp_id row) later mid = Inr tables' \<or>
      mark_failed (dp_id row) ''KUBO_WRITE_FAILED'' later mid = Inr tables'"
    using assms unfolding service_pin_def Inr x by (auto split: prod.splits sum.splits if_splits)
  ultimately show ?thesis
    by (auto intro: rtranclp.rtrancl_into_rtrancl r_into_rtranclp pin_step.pinned pin_step.failed)
qed

lemma sweep_steps:
  "sweep_pins tools now later rs tables held = (result, tables', held') \<Longrightarrow> (pin_step limit)\<^sup>*\<^sup>* tables tables'"
proof (induction rs arbitrary: tables held result held')
  case (Cons r rs)
  show ?case
  proof (cases "mark_unpinned (dp_id r) later tables")
    case (Inl e)
    then show ?thesis using Cons.prems by (auto split: prod.splits bool.splits if_splits)
  next
    case (Inr mid)
    then have first: "pin_step limit tables mid" by (rule pin_step.unpinned)
    have "tables' = tables \<or> (\<exists>result held held'. sweep_pins tools now later rs mid held = (result, tables', held'))"
      using Cons.prems Inr by (auto split: prod.splits bool.splits if_splits)
    then show ?thesis using Cons.IH converse_rtranclp_into_rtranclp [of "pin_step limit", OF first] by blast
  qed
qed simp

lemma unpin_expired_steps:
  assumes "unpin_expired tools now later limit tables held = (result, tables', held')"
  shows "(pin_step quota)\<^sup>*\<^sup>* tables tables'"
proof -
  obtain n mid where mid: "delete_expired_unreferenced_challenges now 1000 tables = (n, mid)" by (cases rule: prod.exhaust)
  then have first: "pin_step quota tables mid" by (rule pin_step.cleaned)
  have "sweep_pins tools now later (find_expired_pins now limit mid) mid held = (result, tables', held')"
    using assms by (simp add: unpin_expired_def mid)
  from converse_rtranclp_into_rtranclp [of "pin_step quota", OF first sweep_steps [OF this]] show ?thesis .
qed

section \<open>What a pin takes\<close>

definition pin_context :: "pin_request \<Rightarrow> jstr \<Rightarrow> jstr \<Rightarrow> resolved_schema \<Rightarrow> credential_context" where
  "pin_context req subject uid schema =
     \<lparr>ctx_issuer = pq_wallet req, ctx_subject = subject, ctx_schema_uid = uid, ctx_fields = resolved_fields schema\<rparr>"

definition content_cid :: "'x core_lib_scheme \<Rightarrow> byte list \<Rightarrow> jstr" where
  "content_cid lib content = create_raw_cid lib (sha256 lib content)"

lemma decode_base64_Inr:
  "decode_base64 tools s = Inr content \<longleftrightarrow>
     s \<noteq> [] \<and> length s mod 4 = 0 \<and> base64_text s \<and> content = buffer_from_base64 tools s \<and> content \<noteq> [] \<and> length content \<le> MAX_DEMO_PIN_BYTES"
  by (auto simp: decode_base64_def Let_def)

lemma parse_canonical_parses: "parse_canonical_json lib content = Inr v \<Longrightarrow> parse_json lib content = Inr v"
  by (auto simp: parse_canonical_json_def parse_json_def content_text_def res_simps split: if_splits)

lemma parsed_header:
  assumes "parse_credential_payload lib (Bytes content) ctx = Inr payload"
  shows "\<exists>v. payload_header lib content = Inr v \<and> get v ''issuer'' = JStr (ctx_issuer ctx) \<and>
    get v ''subject'' = JStr (ctx_subject ctx) \<and> get v ''schema'' = JStr (ctx_schema_uid ctx)"
proof -
  obtain v where "parse_canonical_json lib (Bytes content) = Inr v" "parse_payload lib v ctx = Inr payload"
    using assms by (auto simp: parse_credential_payload_def payload_bytes_def res_simps Let_def)
  then show ?thesis by (auto simp: payload_header_def parse_payload_Inr dest: parse_canonical_parses)
qed

lemma content_uri:
  "content \<noteq> [] \<Longrightarrow> length content \<le> MAX_DEMO_PIN_BYTES \<Longrightarrow>
     create_ipfs_payload_uri lib (Bytes content) = Inr (lit ''ipfs://'' @ content_cid lib content)"
  by (simp add: create_ipfs_payload_uri_def payload_bytes_def content_cid_def MAX_PAYLOAD_BYTES_def MAX_DEMO_PIN_BYTES_def)

lemma drop_ipfs: "drop (length ''ipfs://'') (lit ''ipfs://'' @ cid) = cid"
  by (simp add: lit_def)

lemma uncoded_Inr: "uncoded m = Inr x \<longleftrightarrow> m = Inr x"
  by (cases m) (simp_all add: uncoded_def)

lemma integrity_checked_Inr:
  assumes "content \<noteq> []" and "length content \<le> MAX_DEMO_PIN_BYTES"
  shows "integrity_checked lib content = Inr x \<longleftrightarrow>
    x = (content, content_cid lib content) \<and> digest_matches lib (Bytes content) (lit ''ipfs://'' @ content_cid lib content)"
  unfolding integrity_checked_def content_uri [OF assms] rbind_eq_Inr uncoded_Inr Let_def sum.inject ex_simps simp_thms drop_ipfs
  by (auto simp: digest_matches_iff rbind_eq_Inr uncoded_Inr drop_ipfs simp del: length_Cons split: if_splits)

lemma authorized_pin_Inr:
  "authorized_pin lib tools opts req tables = Inr u \<longleftrightarrow>
     pq_network req \<in> set (po_enabled opts) \<and>
     (\<exists>c. get_challenge tables (pq_challenge req) = Some c \<and> pk_profile c = pq_network req \<and> pk_wallet c = pq_wallet req \<and>
        signature_shape_ok req \<and> signed_by_wallet lib tools opts (pk_message c) req)"
  by (auto simp: authorized_pin_def split: option.splits)

lemma parse_pinned_Inr:
  "parse_pinned_payload lib content (pq_wallet req) subject uid schema = Inr payload \<longleftrightarrow>
     (\<exists>s. subject = JStr s \<and> parse_credential_payload lib (Bytes content) (pin_context req s uid schema) = Inr payload)"
  by (auto simp: parse_pinned_payload_def pin_context_def split: jsval.splits sum.splits)

lemma checked_content_Inr:
  "checked_content lib tools opts db req = Inr (content, cid) \<longleftrightarrow>
     (\<exists>subject uid schema payload. decode_base64 tools (pq_payload req) = Inr content \<and>
        pinned_schema lib opts db (pq_network req) uid = Inr schema \<and>
        parse_credential_payload lib (Bytes content) (pin_context req subject uid schema) = Inr payload \<and>
        \<not> has_pii_shaped_field_name tools (payload_claims payload) \<and> cid = content_cid lib content \<and>
        digest_matches lib (Bytes content) (lit ''ipfs://'' @ cid))"
    (is "_ \<longleftrightarrow> ?right")
proof
  assume "checked_content lib tools opts db req = Inr (content, cid)"
  then obtain bytes header where bytes: "decode_base64 tools (pq_payload req) = Inr bytes"
    and rest: "(case get header ''schema'' of
         JStr uid \<Rightarrow>
           rbind (pinned_schema lib opts db (pq_network req) uid) (\<lambda>schema.
           rbind (parse_pinned_payload lib bytes (pq_wallet req) (get header ''subject'') uid schema) (\<lambda>payload.
           if has_pii_shaped_field_name tools (payload_claims payload)
           then pinning_error ''DEMO_PIN_PII_FIELD_FORBIDDEN'' 400
           else integrity_checked lib bytes))
       | _ \<Rightarrow> pinning_error ''PAYLOAD_INVALID'' 400) = Inr (content, cid)"
    unfolding checked_content_def rbind_eq_Inr if_Inl_eq_Inr by blast
  then obtain uid where "get header ''schema'' = JStr uid" by (cases "get header ''schema''") simp_all
  with rest have schema_read: "rbind (pinned_schema lib opts db (pq_network req) uid) (\<lambda>schema.
      rbind (parse_pinned_payload lib bytes (pq_wallet req) (get header ''subject'') uid schema) (\<lambda>payload.
      if has_pii_shaped_field_name tools (payload_claims payload)
      then pinning_error ''DEMO_PIN_PII_FIELD_FORBIDDEN'' 400 else integrity_checked lib bytes)) = Inr (content, cid)" by simp
  obtain schema where schema: "pinned_schema lib opts db (pq_network req) uid = Inr schema"
    and payload_read: "rbind (parse_pinned_payload lib bytes (pq_wallet req) (get header ''subject'') uid schema) (\<lambda>payload.
      if has_pii_shaped_field_name tools (payload_claims payload)
      then pinning_error ''DEMO_PIN_PII_FIELD_FORBIDDEN'' 400 else integrity_checked lib bytes) = Inr (content, cid)"
    using schema_read unfolding rbind_eq_Inr [of "pinned_schema lib opts db (pq_network req) uid"] by (elim exE conjE) (rule that)
  obtain payload where payload: "parse_pinned_payload lib bytes (pq_wallet req) (get header ''subject'') uid schema = Inr payload"
    and pii_checked: "(if has_pii_shaped_field_name tools (payload_claims payload)
      then pinning_error ''DEMO_PIN_PII_FIELD_FORBIDDEN'' 400 else integrity_checked lib bytes) = Inr (content, cid)"
    using payload_read unfolding rbind_eq_Inr by (elim exE conjE) (rule that)
  from pii_checked have pii: "\<not> has_pii_shaped_field_name tools (payload_claims payload)" and checked: "integrity_checked lib bytes = Inr (content, cid)"
    unfolding if_Inl_eq_Inr by blast+
  have "content = bytes" "cid = content_cid lib bytes" "digest_matches lib (Bytes bytes) (lit ''ipfs://'' @ cid)"
    using checked bytes integrity_checked_Inr [of bytes lib "(content, cid)"] by (auto simp: decode_base64_Inr)
  then show ?right using bytes schema payload pii unfolding parse_pinned_Inr by blast
next
  assume ?right
  then obtain subject uid schema payload where content: "decode_base64 tools (pq_payload req) = Inr content"
    and schema: "pinned_schema lib opts db (pq_network req) uid = Inr schema"
    and payload: "parse_credential_payload lib (Bytes content) (pin_context req subject uid schema) = Inr payload"
    and pii: "\<not> has_pii_shaped_field_name tools (payload_claims payload)"
    and cid: "cid = content_cid lib content" "digest_matches lib (Bytes content) (lit ''ipfs://'' @ cid)"
    by blast
  obtain v where v: "payload_header lib content = Inr v" "get v ''issuer'' = JStr (pq_wallet req)"
      "get v ''subject'' = JStr subject" "get v ''schema'' = JStr uid"
    using parsed_header [OF payload] by (auto simp: pin_context_def)
  have "parse_pinned_payload lib content (pq_wallet req) (JStr subject) uid schema = Inr payload"
    using payload by (simp add: parse_pinned_Inr)
  moreover have "integrity_checked lib content = Inr (content, cid)"
    using content cid integrity_checked_Inr [of content lib "(content, cid)"] by (auto simp: decode_base64_Inr)
  ultimately show "checked_content lib tools opts db req = Inr (content, cid)"
    using content v schema pii by (simp add: checked_content_def)
qed

text \<open>The constraints of the tables let a reservation in.\<close>

definition fits_tables :: "database \<Rightarrow> pin_reservation \<Rightarrow> pin_tables \<Rightarrow> bool" where
  "fits_tables db input tables \<longleftrightarrow>
     is_ok (use_challenge (pr_challenge input) (pr_now input) (pt_challenges tables)) \<and> has_profile db (pr_profile input) \<and>
     demo_pin_ok (reserved_pin input) \<and> \<not> list_ex (same_pin (reserved_pin input)) (pt_pins tables)"

definition within_limits :: "pin_reservation \<Rightarrow> pin_tables \<Rightarrow> bool" where
  "within_limits input tables \<longleftrightarrow>
     quota_used (\<lambda>r. dp_wallet r = pr_wallet input) (pr_now input - DAY) tables < pr_limit input \<and>
     quota_used (\<lambda>r. dp_ip r = pr_ip input) (pr_now input - DAY) tables < pr_limit input"

lemma list_ex_map_same: "(\<And>x. p (f x) = p x) \<Longrightarrow> list_ex p (map f xs) = list_ex p xs"
  by (induction xs) simp_all

lemma get_used: "use_challenge i now challenges = Inr challenges' \<Longrightarrow> list_ex (\<lambda>r. pk_id r = j) challenges' = list_ex (\<lambda>r. pk_id r = j) challenges"
  by (auto simp: use_challenge_def update_rows_def list_ex_map_same simp del: list_ex_iff split: if_splits)

lemma reserve_pin_iff:
  "(\<exists>tables'. reserve_pin db input tables = Inr (pin, tables')) \<longleftrightarrow>
     (\<exists>c. get_challenge tables (pr_challenge input) = Some c \<and> pk_used c = None \<and> pr_now input < pk_expires c \<and>
        pk_profile c = pr_profile input \<and> pk_wallet c = pr_wallet input \<and> pk_ip c = pr_ip input) \<and>
     within_limits input tables \<and> fits_tables db input tables \<and> pin = reserved_pin input"
    (is "?left \<longleftrightarrow> ?right")
proof
  assume ?left
  then obtain tables' where run: "reserve_pin db input tables = Inr (pin, tables')" ..
  then have "has_profile db (pr_profile input)"
    by (auto simp: reserve_pin_def res_simps Let_def insert_row_def split: if_splits)
  then show ?right using reserve_pin_Inr [OF run] by (auto simp: within_limits_def fits_tables_def)
next
  assume right: ?right
  then obtain c challenges where c: "get_challenge tables (pr_challenge input) = Some c"
    and used: "use_challenge (pr_challenge input) (pr_now input) (pt_challenges tables) = Inr challenges"
    by (auto simp: fits_tables_def is_ok_iff)
  have "list_ex (\<lambda>r. pk_id r = pr_challenge input) challenges"
    using get_challenge_Some [OF c] unfolding get_used [OF used] by (auto simp: list_ex_iff)
  then show ?left
    using right c used by (auto simp: reserve_pin_def within_limits_def fits_tables_def insert_row_def query_def not_le Let_def)
qed

text \<open>A reserved pin can be marked.\<close>

lemma reserved_marked:
  assumes "reserve_pin db input tables = Inr (pin, tables')"
  shows "\<exists>marked. mark_pinned (dp_id pin) later tables' = Inr marked"
proof -
  have pins: "pt_pins tables' = pt_pins tables @ [pin]" "demo_pin_ok pin" "\<not> list_ex (same_pin pin) (pt_pins tables)" "dp_status pin = Pin_Pending"
    using reserve_pin_Inr [OF assms] by (auto simp: reserved_pin_def)
  then have "list_all (\<lambda>r. dp_id r = dp_id pin \<and> dp_status r = Pin_Pending \<longrightarrow> demo_pin_ok (r\<lparr>dp_status := Pin_Pinned, dp_updated := later\<rparr>))
      (pt_pins tables')"
    by (auto simp: list_all_iff list_ex_iff same_pin_def demo_pin_ok_def)
  then show ?thesis by (simp add: mark_pinned_def update_pins_def update_rows_def query_def)
qed

text \<open>When \<open>pin\<close> answers, and with what.\<close>

definition pin_grounds ::
  "'x server_lib_scheme \<Rightarrow> pin_tools \<Rightarrow> pin_options \<Rightarrow> snapshot \<Rightarrow> pin_request \<Rightarrow> pin_challenge \<Rightarrow> byte list \<Rightarrow> bool" where
  "pin_grounds lib tools opts db req c content \<longleftrightarrow>
     pq_network req \<in> set (po_enabled opts) \<and> signature_shape_ok req \<and> signed_by_wallet lib tools opts (pk_message c) req \<and>
     decode_base64 tools (pq_payload req) = Inr content \<and>
     (\<exists>subject uid schema payload. pinned_schema lib opts db (pq_network req) uid = Inr schema \<and>
        parse_credential_payload lib (Bytes content) (pin_context req subject uid schema) = Inr payload \<and>
        \<not> has_pii_shaped_field_name tools (payload_claims payload)) \<and>
     digest_matches lib (Bytes content) (lit ''ipfs://'' @ content_cid lib content)"

definition redeemable :: "pin_tools \<Rightarrow> pin_options \<Rightarrow> pin_request \<Rightarrow> int \<Rightarrow> pin_challenge \<Rightarrow> bool" where
  "redeemable tools opts req now c \<longleftrightarrow>
     pk_profile c = pq_network req \<and> pk_wallet c = pq_wallet req \<and> pk_ip c = hash_ip tools opts (pq_ip req) \<and>
     pk_used c = None \<and> now < pk_expires c"

lemma checked_pin_Inr:
  "checked_pin lib tools opts db req tables = Inr (content, cid) \<longleftrightarrow>
     (\<exists>c. get_challenge tables (pq_challenge req) = Some c \<and> pk_profile c = pq_network req \<and> pk_wallet c = pq_wallet req \<and>
        pin_grounds lib tools opts db req c content) \<and> cid = content_cid lib content"
proof -
  have "checked_pin lib tools opts db req tables = Inr (content, cid) \<longleftrightarrow>
      authorized_pin lib tools opts req tables = Inr () \<and> checked_content lib tools opts db req = Inr (content, cid)"
    by (simp add: checked_pin_def rbind_eq_Inr)
  then show ?thesis unfolding authorized_pin_Inr checked_content_Inr pin_grounds_def by blast
qed

lemma pin_answers:
  "fst (service_pin lib tools opts db now later pin_id req tables held) = Inr reply \<longleftrightarrow>
     (\<exists>c content. let cid = content_cid lib content; input = pin_reservation_of tools opts req now pin_id content cid in
        get_challenge tables (pq_challenge req) = Some c \<and> redeemable tools opts req now c \<and> pin_grounds lib tools opts db req c content \<and>
        within_limits input tables \<and> fits_tables (database.truncate db) input tables \<and> fst (put_raw tools content cid held) \<and>
        reply = \<lparr>py_uri = lit ''ipfs://'' @ cid, py_cid = cid, py_length = length content, py_expires = now + PIN_TTL_MS\<rparr>)"
    (is "?left \<longleftrightarrow> ?right")
proof -
  let ?in = "pin_reservation_of tools opts req now pin_id"
  have fields: "pr_challenge (?in content cid) = pq_challenge req" "pr_profile (?in content cid) = pq_network req"
    "pr_wallet (?in content cid) = pq_wallet req" "pr_ip (?in content cid) = hash_ip tools opts (pq_ip req)" "pr_now (?in content cid) = now"
    "dp_expires (reserved_pin (?in content cid)) = now + PIN_TTL_MS" for content cid
    by (simp_all add: pin_reservation_of_def reserved_pin_def)
  have "?left \<longleftrightarrow> (\<exists>content cid row mid. checked_pin lib tools opts db req tables = Inr (content, cid) \<and>
      reserve_pin (database.truncate db) (?in content cid) tables = Inr (row, mid) \<and> fst (put_raw tools content cid held) \<and>
      reply = \<lparr>py_uri = lit ''ipfs://'' @ cid, py_cid = cid, py_length = length content, py_expires = dp_expires row\<rparr>)"
  proof (cases "rbind (checked_pin lib tools opts db req tables) (\<lambda>(content, cid).
      rbind (reserve_pin (database.truncate db) (?in content cid) tables) (\<lambda>(row, tables). Inr (content, cid, row, tables)))")
    case (Inl e)
    then show ?thesis by (fastforce simp: service_pin_def)
  next
    case (Inr x)
    then obtain content cid row mid where x: "x = (content, cid, row, mid)" "checked_pin lib tools opts db req tables = Inr (content, cid)"
      and run: "reserve_pin (database.truncate db) (?in content cid) tables = Inr (row, mid)"
      by (auto simp: rbind_eq_Inr)
    obtain marked where "mark_pinned (dp_id row) later mid = Inr marked" using reserved_marked [OF run] by blast
    then show ?thesis unfolding service_pin_def Inr using x run by (auto split: prod.splits sum.splits)
  qed
  also have "\<dots> \<longleftrightarrow> (\<exists>content cid. checked_pin lib tools opts db req tables = Inr (content, cid) \<and>
      (\<exists>row mid. reserve_pin (database.truncate db) (?in content cid) tables = Inr (row, mid) \<and> row = reserved_pin (?in content cid)) \<and>
      fst (put_raw tools content cid held) \<and>
      reply = \<lparr>py_uri = lit ''ipfs://'' @ cid, py_cid = cid, py_length = length content, py_expires = now + PIN_TTL_MS\<rparr>)"
    using reserve_pin_iff fields(6) by (metis (no_types, lifting))
  also have "\<dots> \<longleftrightarrow> ?right" (is "?mid \<longleftrightarrow> _")
  proof
    assume ?mid
    then obtain content cid where checked: "checked_pin lib tools opts db req tables = Inr (content, cid)"
      and reserved: "\<exists>mid. reserve_pin (database.truncate db) (?in content cid) tables = Inr (reserved_pin (?in content cid), mid)"
      and rest: "fst (put_raw tools content cid held)"
        "reply = \<lparr>py_uri = lit ''ipfs://'' @ cid, py_cid = cid, py_length = length content, py_expires = now + PIN_TTL_MS\<rparr>"
      by blast
    obtain c where c: "get_challenge tables (pq_challenge req) = Some c" "pin_grounds lib tools opts db req c content"
      and cid: "cid = content_cid lib content"
      using checked unfolding checked_pin_Inr by blast
    have "redeemable tools opts req now c" "within_limits (?in content cid) tables" "fits_tables (database.truncate db) (?in content cid) tables"
      using reserved c(1) unfolding reserve_pin_iff fields by (simp_all add: redeemable_def)
    then show ?right using c rest unfolding cid Let_def by blast
  next
    assume ?right
    then obtain c content where c: "get_challenge tables (pq_challenge req) = Some c" "redeemable tools opts req now c"
        "pin_grounds lib tools opts db req c content"
      and input: "within_limits (?in content (content_cid lib content)) tables"
        "fits_tables (database.truncate db) (?in content (content_cid lib content)) tables"
      and rest: "fst (put_raw tools content (content_cid lib content) held)"
        "reply = \<lparr>py_uri = lit ''ipfs://'' @ content_cid lib content, py_cid = content_cid lib content, py_length = length content,
           py_expires = now + PIN_TTL_MS\<rparr>"
      unfolding Let_def by blast
    have "checked_pin lib tools opts db req tables = Inr (content, content_cid lib content)"
      unfolding checked_pin_Inr using c by (auto simp: redeemable_def)
    moreover have "\<exists>mid. reserve_pin (database.truncate db) (?in content (content_cid lib content)) tables =
        Inr (reserved_pin (?in content (content_cid lib content)), mid)"
      unfolding reserve_pin_iff fields using c input by (simp add: redeemable_def)
    ultimately show ?mid using rest by blast
  qed
  finally show ?thesis .
qed

section \<open>What a sweep gives back\<close>

text \<open>Content is promised until a pin of it expires.\<close>

definition promised :: "int \<Rightarrow> pin_tables \<Rightarrow> demo_pin set" where
  "promised now tables = {r \<in> set (pt_pins tables). active_status r \<and> now < dp_expires r}"

definition given_back :: "int \<Rightarrow> demo_pin list \<Rightarrow> pin_tables \<Rightarrow> jstr set" where
  "given_back now rs tables = {dp_cid r |r. r \<in> set rs \<and> dp_cid r \<notin> dp_cid ` promised now tables}"

definition unpinned_row :: "int \<Rightarrow> demo_pin \<Rightarrow> demo_pin" where
  "unpinned_row later r = r\<lparr>dp_status := Pin_Unpinned, dp_unpinned := Some later, dp_updated := later\<rparr>"

lemma mark_unpinned_Inr:
  assumes "mark_unpinned i later tables = Inr tables'"
  shows "pt_pins tables' = map (\<lambda>r. if dp_id r = i \<and> active_status r then unpinned_row later r else r) (pt_pins tables)"
  using assms by (auto simp: mark_unpinned_def update_pins_def update_rows_def unpinned_row_def res_simps split: if_splits)

lemma sweep_leaves:
  assumes "q \<in> set (pt_pins tables)" and "sweep_pins tools now later rs tables held = (result, tables', held')" and "\<not> active_status q"
  shows "q \<in> set (pt_pins tables')"
  using assms(1,2)
proof (induction rs arbitrary: tables held result)
  case (Cons r rs)
  show ?case
  proof (cases "mark_unpinned (dp_id r) later tables")
    case (Inl e)
    then show ?thesis using Cons.prems by (auto split: prod.splits bool.splits if_splits)
  next
    case (Inr mid)
    then have "q \<in> set (pt_pins mid)"
      using Cons.prems(1) assms(3) mark_unpinned_Inr [OF Inr] by (auto intro!: image_eqI [of q _ q])
    moreover have "tables' = tables \<or> (\<exists>result held. sweep_pins tools now later rs mid held = (result, tables', held'))"
      using Cons.prems(2) Inr by (auto split: prod.splits bool.splits if_splits)
    ultimately show ?thesis using Cons by blast
  qed
qed simp

lemma other_active: 
  assumes "pin_table.consistent (pt_pins tables)" and "r \<in> set (pt_pins tables)" and "dp_expires r \<le> now"
  shows "has_other_active_pin (dp_cid r) (dp_id r) now tables \<longleftrightarrow> dp_cid r \<in> dp_cid ` promised now tables"
proof -
  have "q = r" if "q \<in> set (pt_pins tables)" "dp_id q = dp_id r" for q
    using pin_table.consistent_unique [OF assms(1) that(1) assms(2)] that(2) by (simp add: same_pin_def)
  then have "dp_id q \<noteq> dp_id r" if "q \<in> promised now tables" for q
    using that assms(3) by (force simp: promised_def)
  then have "has_other_active_pin (dp_cid r) (dp_id r) now tables \<longleftrightarrow> (\<exists>q \<in> promised now tables. dp_cid q = dp_cid r)"
    unfolding has_other_active_pin_def list_ex_iff by (auto simp: promised_def)
  then show ?thesis by (auto simp: image_iff eq_commute)
qed

lemma sweep_gives_back:
  assumes "store_laws tools"
    and "sweep_pins tools now later rs tables held = (result, tables', held')" and "pin_table.consistent (pt_pins tables)"
    and "set rs \<subseteq> {r \<in> set (pt_pins tables). active_status r \<and> dp_expires r \<le> now}" and "distinct (map dp_id rs)"
  shows "promised now tables' = promised now tables \<and> held - given_back now rs tables \<subseteq> held' \<and> held' \<subseteq> held \<and>
    (\<forall>n. result = Inr n \<longrightarrow> n = length rs \<and> unpinned_row later ` set rs \<subseteq> set (pt_pins tables') \<and>
       held' = held - given_back now rs tables)"
  using assms(2-)
proof (induction rs arbitrary: tables held result)
  case Nil
  then show ?case by (auto simp: given_back_def)
next
  case (Cons r rs)
  have r: "r \<in> set (pt_pins tables)" "active_status r" "dp_expires r \<le> now" using Cons.prems(3) by auto
  let ?other = "has_other_active_pin (dp_cid r) (dp_id r) now tables"
  have other: "?other \<longleftrightarrow> dp_cid r \<in> dp_cid ` promised now tables" using other_active [OF Cons.prems(2) r(1,3)] .
  define call where "call = (if ?other then (True, held) else unpin_cid tools (dp_cid r) held)"
  obtain ok mid where call': "call = (ok, mid)" by (cases call) simp
  have law: "held' = held - {dp_cid r} \<or> \<not> ok \<and> held' = held" if "unpin_cid tools (dp_cid r) held = (ok, held')" for held'
    using assms(1) that unfolding store_laws_def by (auto dest!: spec [of _ "dp_cid r"] spec [of _ held] split: prod.splits)
  have mid: "if ?other then ok \<and> mid = held else mid = held - {dp_cid r} \<or> \<not> ok \<and> mid = held"
    using call' law unfolding call_def by (auto split: if_splits)
  have head: "given_back now (r # rs) tables = given_back now rs tables \<union> (if ?other then {} else {dp_cid r})"
    unfolding other given_back_def by auto
  show ?case
  proof (cases "ok \<and> (\<exists>tables2. mark_unpinned (dp_id r) later tables = Inr tables2)")
    case False
    then have "tables' = tables \<and> held' = mid \<and> (\<exists>e. result = Inl e)"
      using Cons.prems(1) call' unfolding sweep_pins.simps call_def [symmetric]
      by (cases ok; cases "mark_unpinned (dp_id r) later tables") auto
    moreover have "held - given_back now (r # rs) tables \<subseteq> mid \<and> mid \<subseteq> held"
      using mid head by (auto split: if_splits)
    ultimately show ?thesis by auto
  next
    case True
    then obtain tables2 where ok: ok and marked: "mark_unpinned (dp_id r) later tables = Inr tables2" by blast
    obtain result2 where run: "sweep_pins tools now later rs tables2 mid = (result2, tables', held')"
      and result: "result = rbind result2 (\<lambda>n. Inr (Suc n))"
      using Cons.prems(1) call' ok marked unfolding sweep_pins.simps call_def [symmetric] by (auto split: prod.splits)
    define g where "g = (\<lambda>q. if dp_id q = dp_id r \<and> active_status q then unpinned_row later q else q)"
    have pins: "pt_pins tables2 = map g (pt_pins tables)" using mark_unpinned_Inr [OF marked] by (simp add: g_def)
    have unique: "q = r" if "q \<in> set (pt_pins tables)" "dp_id q = dp_id r" for q
      using pin_table.consistent_unique [OF Cons.prems(2) that(1) r(1)] that(2) by (simp add: same_pin_def)
    have gr: "g r = unpinned_row later r" using r by (simp add: g_def)
    have gq: "g q = q" if "q \<in> set (pt_pins tables)" "q \<noteq> r" for q using unique that by (auto simp: g_def)
    have gone: "\<not> active_status (unpinned_row later r)" by (simp add: active_status_def unpinned_row_def)
    have "update_rows demo_pin_ok (\<lambda>q. dp_id q = dp_id r \<and> active_status q)
        (\<lambda>q. q\<lparr>dp_status := Pin_Unpinned, dp_unpinned := Some later, dp_updated := later\<rparr>) (pt_pins tables) = Inr (pt_pins tables2)"
      using marked by (auto simp: mark_unpinned_def update_pins_def res_simps)
    then have consistent: "pin_table.consistent (pt_pins tables2)"
      by (rule pin_table.consistent_update [OF Cons.prems(2)]) (auto simp: same_pin_def)
    have same: "promised now tables2 = promised now tables"
    proof -
      have "q \<noteq> r" if "q \<in> promised now tables" for q using that r by (auto simp: promised_def)
      then show ?thesis using gq gr gone r unfolding promised_def pins by (force simp: image_iff)
    qed
    have keep: "set rs \<subseteq> {q \<in> set (pt_pins tables2). active_status q \<and> dp_expires q \<le> now}"
    proof
      fix q assume q: "q \<in> set rs"
      then have "q \<in> set (pt_pins tables)" "active_status q" "dp_expires q \<le> now" "q \<noteq> r"
        using Cons.prems(3,4) by auto
      then show "q \<in> {q \<in> set (pt_pins tables2). active_status q \<and> dp_expires q \<le> now}"
        using gq [of q] unfolding pins by (auto intro!: image_eqI [of q g])
    qed
    have ih: "promised now tables' = promised now tables2 \<and> mid - given_back now rs tables2 \<subseteq> held' \<and> held' \<subseteq> mid \<and>
        (\<forall>n. result2 = Inr n \<longrightarrow> n = length rs \<and> unpinned_row later ` set rs \<subseteq> set (pt_pins tables') \<and>
           held' = mid - given_back now rs tables2)"
      using Cons.IH [OF run consistent keep] Cons.prems(4) by simp
    have same_back: "given_back now rs tables2 = given_back now rs tables" by (simp add: given_back_def same)
    have stays: "unpinned_row later r \<in> set (pt_pins tables')"
    proof -
      have "unpinned_row later r \<in> set (pt_pins tables2)" using r(1) gr pins by (metis image_eqI list.set_map)
      then show ?thesis using run gone by (rule sweep_leaves)
    qed
    show ?thesis using ih mid ok head stays unfolding same same_back result by (cases result2) auto
  qed
qed

lemma found_distinct:
  assumes "pin_table.consistent (pt_pins tables)"
  shows "distinct (map dp_id (find_expired_pins now limit tables))"
proof -
  have "sorted_wrt (\<lambda>r q. \<not> same_pin r q) (pt_pins tables)" using assms by (simp add: pin_table.consistent_def)
  then have "sorted_wrt (\<lambda>r q. dp_id r \<noteq> dp_id q) (pt_pins tables)"
    by (rule sorted_wrt_mono_rel [rotated]) (simp add: same_pin_def)
  then have "distinct (map dp_id (pt_pins tables))" by (simp only: distinct_map_sorted_wrt)
  then have "distinct (map dp_id (filter p (pt_pins tables)))" for p by (rule distinct_map_filter)
  then have "distinct (map dp_id (sort_key dp_expires (filter p (pt_pins tables))))" for p
    by (simp add: distinct_map)
  then show ?thesis unfolding find_expired_pins_def take_map [symmetric] by (rule distinct_take)
qed

end
