(* ===== verification/Server_Content.thy ===== *)
theory Server_Content
  imports Server_Verification
begin

text \<open>
  How content enters the web server: request bodies (\<open>body-limit.ts\<close>), payloads that a Credential URI names
  (\<open>payload-resolver.ts\<close>, \<open>internal/network-safety.ts\<close>) and the answers of the content store (\<open>kubo.ts\<close>), all of
  \<open>apps/web/server/xcs\<close>. Main results: what is read is bounded by what is kept, and a payload is only ever fetched over
  HTTPS, from an address that is public and was looked up for the very request.
\<close>

section \<open>Reading up to a limit\<close>

text \<open>
  Chunks are kept until they pass the limit; a stream may break after its last chunk.
\<close>

fun read_up_to :: "nat \<Rightarrow> 'e \<Rightarrow> 'e option \<Rightarrow> byte list list \<Rightarrow> byte list \<Rightarrow> 'e + byte list" where
  "read_up_to limit too_large failure [] kept = (case failure of None \<Rightarrow> Inr kept | Some e \<Rightarrow> Inl e)"
| "read_up_to limit too_large failure (chunk # chunks) kept =
     (if limit < length kept + length chunk then Inl too_large
      else read_up_to limit too_large failure chunks (kept @ chunk))"

lemma read_up_to_Inr:
  "length kept \<le> limit \<Longrightarrow>
     read_up_to limit too_large failure chunks kept = Inr bytes \<longleftrightarrow>
       failure = None \<and> bytes = kept @ concat chunks \<and> length bytes \<le> limit"
  by (induction chunks arbitrary: kept) (auto split: option.splits)

definition body_too_large :: server_error where "body_too_large = Coded_Error ''REQUEST_ERROR'' 413"

text \<open>\<open>readBoundedBody\<close>: a chunk is text or bytes; the body is decoded leniently by \<open>Buffer\<close>.\<close>

definition chunk_bytes :: "content \<Rightarrow> byte list" where
  "chunk_bytes chunk = (case chunk of Text s \<Rightarrow> encode_utf8 s | Bytes bs \<Rightarrow> bs)"

definition read_bounded_body ::
  "'x server_lib_scheme \<Rightarrow> nat \<Rightarrow> server_error option \<Rightarrow> content list \<Rightarrow> server_error + jstr option" where
  "read_bounded_body lib limit failure source =
     rbind (read_up_to limit body_too_large failure (map chunk_bytes source) []) (\<lambda>bytes.
     Inr (if bytes = [] then None else Some (buffer_to_utf8 lib bytes)))"

text \<open>\<open>assertDeclaredLength\<close>; the argument is \<open>Number\<close> of the header, or of \<open>0\<close> without one.\<close>

definition assert_declared_length :: "jnum \<Rightarrow> nat \<Rightarrow> server_error + unit" where
  "assert_declared_length declared limit =
     (case declared of
        NInfinity _ \<Rightarrow> Inr ()
      | NNaN \<Rightarrow> Inr ()
      | _ \<Rightarrow> if num_less (NInt (int limit)) declared then Inl body_too_large else Inr ())"

section \<open>Public addresses\<close>

text \<open>
  \<open>isIP\<close> of the host, \<open>ipaddr.parse(_).range()\<close> (\<open>None\<close> when it throws), \<open>new URL(_, base)\<close>; and the outside world: what a DNS
  lookup and a request give in each round, \<open>None\<close> when they fail or the deadline passes. A request goes to a URL with an address its
  connection is pinned to.
\<close>

datatype stream = No_Body | Chunks "byte list list" bool

record http_response =
  hr_status :: nat
  hr_location :: "jstr option"
  hr_body :: stream

record resolver_tools =
  is_ip :: "jstr \<Rightarrow> bool"
  address_range :: "jstr \<Rightarrow> jstr option"
  url_against :: "jstr \<Rightarrow> url \<Rightarrow> url option"
  dns_lookup :: "nat \<Rightarrow> jstr \<Rightarrow> jstr list option"
  pinned_fetch :: "nat \<Rightarrow> url \<Rightarrow> jstr \<Rightarrow> http_response option"
  gateway_fetch :: "url \<Rightarrow> http_response option"

definition is_public_address :: "resolver_tools \<Rightarrow> jstr \<Rightarrow> bool" where
  "is_public_address tools address \<longleftrightarrow> address_range tools address = Some (lit ''unicast'')"

definition safe_https_payload_url :: "url \<Rightarrow> bool" where
  "safe_https_payload_url url \<longleftrightarrow> url_protocol url = lit ''https:'' \<and> url_username url = [] \<and> url_password url = []"

definition host_literal :: "jstr \<Rightarrow> jstr" where
  "host_literal host =
     (if host \<noteq> [] \<and> hd host = ch CHR ''['' \<and> List.last host = ch CHR '']'' then butlast (tl host) else host)"

definition resolve_public_address :: "resolver_tools \<Rightarrow> nat \<Rightarrow> jstr \<Rightarrow> server_error + jstr" where
  "resolve_public_address tools round host =
     (let literal = host_literal host in
      if is_ip tools literal then
        if is_public_address tools literal then Inr literal else Inl server_error.Payload_Unavailable
      else
        case dns_lookup tools round host of
          None \<Rightarrow> Inl server_error.Payload_Unavailable
        | Some addresses \<Rightarrow>
            if addresses = [] \<or> list_ex (\<lambda>a. \<not> is_public_address tools a) addresses then Inl server_error.Payload_Unavailable
            else Inr (hd addresses))"

section \<open>Fetching\<close>

definition MAX_REDIRECTS :: nat where "MAX_REDIRECTS = 2"

text \<open>What is thrown inside the \<open>try\<close> of a fetch comes out as one of the two errors of the resolver.\<close>

fun fetch_error :: "server_error \<Rightarrow> server_error" where
  "fetch_error server_error.Payload_Invalid = server_error.Payload_Invalid"
| "fetch_error _ = server_error.Payload_Unavailable"

definition read_limited :: "http_response \<Rightarrow> server_error + byte list" where
  "read_limited response =
     (case hr_body response of
        No_Body \<Rightarrow> Inr []
      | Chunks chunks breaks \<Rightarrow>
          read_up_to MAX_PAYLOAD_BYTES server_error.Payload_Invalid (if breaks then Some (Uncoded_Error HostErr) else None) chunks [])"

definition read_response :: "http_response \<Rightarrow> server_error + byte list" where
  "read_response response =
     (if hr_status response < 200 \<or> 300 \<le> hr_status response then Inl server_error.Payload_Unavailable
      else attempt (read_limited response) (\<lambda>e. Inl (fetch_error e)))"

text \<open>
  \<open>fetchPinned\<close> from a round on: the result and the requests it made, each a URL and the address its connection is pinned to.
\<close>

function fetch_pinned :: "resolver_tools \<Rightarrow> nat \<Rightarrow> url \<Rightarrow> (server_error + byte list) \<times> (url \<times> jstr) list" where
  "fetch_pinned tools round url =
     (if MAX_REDIRECTS < round \<or> \<not> safe_https_payload_url url then (Inl server_error.Payload_Unavailable, [])
      else
        case resolve_public_address tools round (url_hostname url) of
          Inl e \<Rightarrow> (Inl e, [])
        | Inr address \<Rightarrow>
            (case pinned_fetch tools round url address of
               None \<Rightarrow> (Inl server_error.Payload_Unavailable, [(url, address)])
             | Some response \<Rightarrow>
                 if 300 \<le> hr_status response \<and> hr_status response < 400 then
                   (case hr_location response of
                      None \<Rightarrow> (Inl server_error.Payload_Unavailable, [(url, address)])
                    | Some location \<Rightarrow>
                        if round = MAX_REDIRECTS then (Inl server_error.Payload_Unavailable, [(url, address)])
                        else
                          case url_against tools location url of
                            None \<Rightarrow> (Inl server_error.Payload_Unavailable, [(url, address)])
                          | Some target \<Rightarrow>
                              (case fetch_pinned tools (Suc round) target of
                                 (result, requests) \<Rightarrow> (result, (url, address) # requests)))
                 else (read_response response, [(url, address)])))"
  by pat_completeness auto
termination by (relation "measure (\<lambda>(tools, round, url). Suc MAX_REDIRECTS - round)") (auto simp: MAX_REDIRECTS_def)

declare fetch_pinned.simps [simp del]

definition fetch_configured_gateway :: "resolver_tools \<Rightarrow> url \<Rightarrow> server_error + byte list" where
  "fetch_configured_gateway tools url =
     (case gateway_fetch tools url of None \<Rightarrow> Inl server_error.Payload_Unavailable | Some response \<Rightarrow> read_response response)"

text \<open>The constructor of \<open>SafePayloadResolver\<close>, and \<open>resolve\<close>: the result and the pinned requests.\<close>

definition with_slash :: "jstr \<Rightarrow> jstr" where
  "with_slash s = (if s \<noteq> [] \<and> List.last s = ch CHR ''/'' then s else s @ lit ''/'')"

definition safe_payload_resolver :: "'x core_lib_scheme \<Rightarrow> jstr \<Rightarrow> server_error + url" where
  "safe_payload_resolver lib gateway =
     (case parse_url lib (with_slash gateway) of
        None \<Rightarrow> Inl (Uncoded_Error HostErr)
      | Some url \<Rightarrow>
          if url_protocol url \<notin> {lit ''http:'', lit ''https:''} \<or> url_username url \<noteq> [] \<or> url_password url \<noteq> []
          then Inl (Uncoded_Error HostErr) else Inr url)"

definition resolve_payload ::
  "'x core_lib_scheme \<Rightarrow> resolver_tools \<Rightarrow> url \<Rightarrow> jstr \<Rightarrow> (server_error + byte list) \<times> (url \<times> jstr) list" where
  "resolve_payload lib tools gateway uri =
     (case parse_payload_uri lib uri of
        Inl e \<Rightarrow> (Inl (Uncoded_Error e), [])
      | Inr (Https _ target _) \<Rightarrow>
          (case parse_url lib target of
             None \<Rightarrow> (Inl (Uncoded_Error HostErr), [])
           | Some url \<Rightarrow> fetch_pinned tools 0 url)
      | Inr (Ipfs _ cid _) \<Rightarrow>
          (case url_against tools (lit ''ipfs/'' @ cid) gateway of
             None \<Rightarrow> Inl (Uncoded_Error HostErr)
           | Some url \<Rightarrow> fetch_configured_gateway tools url, []))"

definition disabled_payload_resolver :: payload_resolver where
  "disabled_payload_resolver uri = Inl server_error.Payload_Unavailable"

section \<open>The content store\<close>

text \<open>
  \<open>KuboPinStore\<close> on the answer of the Kubo node: its status with the JSON, or the text, of its body, \<open>None\<close> when a call
  fails. The constructor asks the same of its URL as that of the resolver.
\<close>

definition http_ok :: "nat \<Rightarrow> bool" where
  "http_ok status \<longleftrightarrow> 200 \<le> status \<and> status < 300"

definition kubo_put :: "jstr \<Rightarrow> (nat \<times> jsval option) option \<Rightarrow> server_error + unit" where
  "kubo_put expected_cid answer =
     (case answer of
        Some (status, Some body) \<Rightarrow>
          if http_ok status \<and> get body ''Key'' = JStr expected_cid then Inr () else Inl (Uncoded_Error HostErr)
      | _ \<Rightarrow> Inl (Uncoded_Error HostErr))"

definition contains_text :: "jstr \<Rightarrow> jstr \<Rightarrow> bool" where
  "contains_text needle s \<longleftrightarrow> list_ex (\<lambda>i. take (length needle) (drop i s) = needle) [0..<Suc (length s)]"

definition not_pinned_message :: "jstr \<Rightarrow> bool" where
  "not_pinned_message s \<longleftrightarrow>
     contains_text (lit ''not pinned'') (to_lower (take 512 s)) \<or> contains_text (lit ''not recursively pinned'') (to_lower (take 512 s))"

definition kubo_unpin :: "(nat \<times> jstr option) option \<Rightarrow> server_error + unit" where
  "kubo_unpin answer =
     (case answer of
        None \<Rightarrow> Inl (Uncoded_Error HostErr)
      | Some (status, body) \<Rightarrow>
          if http_ok status then Inr ()
          else
            case body of
              None \<Rightarrow> Inl (Uncoded_Error HostErr)
            | Some message \<Rightarrow> if not_pinned_message message then Inr () else Inl (Uncoded_Error HostErr))"

section \<open>Where payloads come from\<close>

text \<open>A request of a round: what it may connect to.\<close>

definition public_request :: "resolver_tools \<Rightarrow> nat \<Rightarrow> url \<times> jstr \<Rightarrow> bool" where
  "public_request tools round request' \<longleftrightarrow>
     (case request' of (url, address) \<Rightarrow>
        safe_https_payload_url url \<and> is_public_address tools address \<and>
        (address = host_literal (url_hostname url) \<and> is_ip tools address \<or>
         (\<exists>addresses. dns_lookup tools round (url_hostname url) = Some addresses \<and> address \<in> set addresses \<and>
            list_all (is_public_address tools) addresses)))"

lemma resolve_public_address_Inr:
  assumes "safe_https_payload_url url" and "resolve_public_address tools round (url_hostname url) = Inr address"
  shows "public_request tools round (url, address)"
proof (cases "is_ip tools (host_literal (url_hostname url))")
  case True
  then show ?thesis using assms by (auto simp: public_request_def resolve_public_address_def Let_def split: if_splits)
next
  case False
  then obtain addresses where "dns_lookup tools round (url_hostname url) = Some addresses" "addresses \<noteq> []"
    "list_all (is_public_address tools) addresses" "address = hd addresses"
    using assms(2) by (auto simp: resolve_public_address_def Let_def list_ex_iff list_all_iff split: option.splits if_splits)
  then show ?thesis using assms(1) by (auto simp: public_request_def list_all_iff)
qed

text \<open>Every request of a fetch, and its number and size.\<close>

fun public_requests :: "resolver_tools \<Rightarrow> nat \<Rightarrow> (url \<times> jstr) list \<Rightarrow> bool" where
  "public_requests tools round [] = True"
| "public_requests tools round (r # rs) = (public_request tools round r \<and> public_requests tools (Suc round) rs)"

lemma read_response_bounded: "read_response response = Inr bytes \<Longrightarrow> length bytes \<le> MAX_PAYLOAD_BYTES"
  by (auto simp: read_response_def read_limited_def attempt_def read_up_to_Inr split: if_splits sum.splits stream.splits)

lemma fetch_pinned_public:
  "fetch_pinned tools round url = (result, requests) \<Longrightarrow>
     public_requests tools round requests \<and> length requests \<le> Suc MAX_REDIRECTS - round \<and>
     (requests \<noteq> [] \<longrightarrow> fst (hd requests) = url) \<and>
     (\<forall>bytes. result = Inr bytes \<longrightarrow> length bytes \<le> MAX_PAYLOAD_BYTES \<and> requests \<noteq> [])"
proof (induction tools round url arbitrary: result requests rule: fetch_pinned.induct)
  case (1 tools round url)
  show ?case
  proof (cases "MAX_REDIRECTS < round \<or> \<not> safe_https_payload_url url")
    case True
    then show ?thesis using "1.prems" by (subst (asm) fetch_pinned.simps) auto
  next
    case go: False
    show ?thesis
    proof (cases "resolve_public_address tools round (url_hostname url)")
      case (Inl e)
      then show ?thesis using "1.prems" go by (subst (asm) fetch_pinned.simps) auto
    next
      case (Inr address)
      have ok: "public_request tools round (url, address)" using resolve_public_address_Inr go Inr by blast
      show ?thesis
      proof (cases "\<exists>response location target. pinned_fetch tools round url address = Some response \<and> 300 \<le> hr_status response \<and>
          hr_status response < 400 \<and> hr_location response = Some location \<and> round \<noteq> MAX_REDIRECTS \<and> url_against tools location url = Some target")
        case True
        then obtain response location target where step: "pinned_fetch tools round url address = Some response" "300 \<le> hr_status response"
          "hr_status response < 400" "hr_location response = Some location" "round \<noteq> MAX_REDIRECTS" "url_against tools location url = Some target"
          by blast
        obtain rest where rest: "fetch_pinned tools (Suc round) target = (result, rest)" "requests = (url, address) # rest"
          using "1.prems" go Inr step by (subst (asm) fetch_pinned.simps) (auto split: prod.splits)
        have "public_requests tools (Suc round) rest \<and> length rest \<le> Suc MAX_REDIRECTS - Suc round \<and>
            (\<forall>bytes. result = Inr bytes \<longrightarrow> length bytes \<le> MAX_PAYLOAD_BYTES)"
          using "1.IH" [OF go Inr step(1) _ step(4) step(5) step(6) rest(1)] step(2,3) by simp
        then show ?thesis using ok rest(2) go step(5) by auto
      next
        case False
        then have "requests = [(url, address)] \<and> (\<forall>bytes. result = Inr bytes \<longrightarrow> length bytes \<le> MAX_PAYLOAD_BYTES)"
          using "1.prems" go Inr
          by (subst (asm) fetch_pinned.simps) (auto split: option.splits if_splits dest: read_response_bounded)
        then show ?thesis using ok go by auto
      qed
    qed
  qed
qed

end
