(* ===== verification/Server_Metrics.thy ===== *)
theory Server_Metrics
  imports Server_Handlers Claims
begin

text \<open>
  Operational metrics of the web server (\<open>operational-metrics-repository.ts\<close>, \<open>operational-metrics.ts\<close> of
  \<open>apps/web/server/xcs\<close>): the row the query returns for a network, its validation, what is published of it, the counters of the
  process and the Prometheus text. Numbers come from PostgreSQL as text. Main results: rows of well-formed tables pass the
  validation, a network is called ready exactly when the readiness check of the handlers passes, and a label never breaks its line.
\<close>

section \<open>Rows\<close>

record metrics_row =
  mr_profile :: jstr
  mr_activation :: jstr
  mr_state :: "jstr option"
  mr_primary :: "jstr option"
  mr_secondary :: "jstr option"
  mr_agreed_index :: "jstr option"
  mr_agreed_hash :: "jstr option"
  mr_error :: "jstr option"
  mr_writer :: bool
  mr_lease :: "int option"
  mr_updated :: "int option"
  mr_ck_index :: "jstr option"
  mr_ck_hash :: "jstr option"
  mr_ck_close :: "jstr option"
  mr_ck_root :: bool
  mr_accepted :: jstr
  mr_rejected :: jstr
  mr_halts :: jstr
  mr_halt_epoch :: "jstr option"
  mr_halt_error :: "jstr option"
  mr_halt_primary :: "jstr option"
  mr_halt_secondary :: "jstr option"
  mr_halt_agreed :: "jstr option"
  mr_halt_hash :: bool
  mr_halt_at :: "int option"

definition state_name :: "status_state \<Rightarrow> jstr" where
  "state_name s = (case s of Starting \<Rightarrow> lit ''starting'' | Catching_Up \<Rightarrow> lit ''catching_up'' | Ready \<Rightarrow> lit ''ready'' | Halted \<Rightarrow> lit ''halted'')"

text \<open>A query gives one row per enabled network; \<open>halted_at\<close> is the time the database recorded an incident at.\<close>

definition latest_incident :: "snapshot \<Rightarrow> jstr \<Rightarrow> incident_row option" where
  "latest_incident db profile = first_row (descending ii_epoch (filter (\<lambda>r. ii_profile r = profile) (db_incidents db)))"

definition text_of :: "('r \<Rightarrow> int option) \<Rightarrow> 'r option \<Rightarrow> jstr option" where
  "text_of column row = Option.bind row (\<lambda>r. map_option int_str (column r))"

definition metrics_row_of :: "snapshot \<Rightarrow> (incident_row \<Rightarrow> int) \<Rightarrow> profile_row \<Rightarrow> metrics_row" where
  "metrics_row_of db halted_at network =
     (let profile = np_id network; status = get_indexer_status db profile; checkpoint = get_latest_checkpoint db profile;
          events = filter (\<lambda>r. se_profile r = profile) (db_schema_events db); halt = latest_incident db profile
      in \<lparr>mr_profile = profile, mr_activation = int_str (np_activation_index network),
          mr_state = map_option (\<lambda>r. state_name (ss_state r)) status,
          mr_primary = text_of ss_primary status, mr_secondary = text_of ss_secondary status,
          mr_agreed_index = text_of ss_agreed_index status, mr_agreed_hash = Option.bind status ss_agreed_hash,
          mr_error = Option.bind status ss_error, mr_writer = (Option.bind status ss_writer \<noteq> None),
          mr_lease = Option.bind status ss_expires, mr_updated = map_option ss_updated status,
          mr_ck_index = map_option (\<lambda>r. int_str (ck_index r)) checkpoint, mr_ck_hash = map_option ck_hash checkpoint,
          mr_ck_close = map_option (\<lambda>r. int_str (ck_close_time r)) checkpoint, mr_ck_root = (Option.bind checkpoint ck_root \<noteq> None),
          mr_accepted = dec_str (length (filter se_accepted events)), mr_rejected = dec_str (length (filter (\<lambda>r. \<not> se_accepted r) events)),
          mr_halts = dec_str (length (filter (\<lambda>r. ii_profile r = profile) (db_incidents db))),
          mr_halt_epoch = map_option (\<lambda>r. int_str (ii_epoch r)) halt, mr_halt_error = map_option ii_error halt,
          mr_halt_primary = text_of ii_primary halt, mr_halt_secondary = text_of ii_secondary halt,
          mr_halt_agreed = text_of ii_agreed_index halt, mr_halt_hash = (Option.bind halt ii_agreed_hash \<noteq> None),
          mr_halt_at = map_option halted_at halt\<rparr>)"

section \<open>Validation\<close>

datatype metrics_error = Evidence_Invalid | Metrics_Failed

definition non_negative_safe_integer :: "jstr \<Rightarrow> metrics_error + int" where
  "non_negative_safe_integer s =
     (if unsigned_integer s \<and> int (dec_value s) \<le> MAX_SAFE_INTEGER then Inr (int (dec_value s)) else Inl Evidence_Invalid)"

definition metrics_uint32 :: "jstr \<Rightarrow> metrics_error + int" where
  "metrics_uint32 s =
     rbind (non_negative_safe_integer s) (\<lambda>n. if uint32_max < n then Inl Evidence_Invalid else Inr n)"

definition nullable_text_uint32 :: "jstr option \<Rightarrow> metrics_error + int option" where
  "nullable_text_uint32 s = (case s of None \<Rightarrow> Inr None | Some s \<Rightarrow> rbind (metrics_uint32 s) (\<lambda>n. Inr (Some n)))"

definition positive_safe_integer :: "jstr \<Rightarrow> metrics_error + int" where
  "positive_safe_integer s = rbind (non_negative_safe_integer s) (\<lambda>n. if n = 0 then Inl Evidence_Invalid else Inr n)"

definition positive_uint32 :: "jstr \<Rightarrow> metrics_error + int" where
  "positive_uint32 s = rbind (metrics_uint32 s) (\<lambda>n. if n = 0 then Inl Evidence_Invalid else Inr n)"

definition parse_state :: "jstr \<Rightarrow> status_state option" where
  "parse_state s = find (\<lambda>t. state_name t = s) [Starting, Catching_Up, Ready, Halted]"

record status_metrics =
  sm_state :: status_state
  sm_primary :: "int option"
  sm_secondary :: "int option"
  sm_agreed_index :: "int option"
  sm_agreed_hash :: "jstr option"
  sm_error :: "jstr option"
  sm_writer :: bool
  sm_lease :: "int option"
  sm_updated :: int

record checkpoint_metrics =
  km_index :: int
  km_hash :: jstr
  km_close :: int
  km_root :: bool

record halt_metrics =
  hm_epoch :: int
  hm_error :: jstr
  hm_primary :: "int option"
  hm_secondary :: "int option"
  hm_agreed :: "int option"
  hm_at :: int

record profile_metrics =
  pm_profile :: jstr
  pm_activation :: int
  pm_status :: "status_metrics option"
  pm_checkpoint :: "checkpoint_metrics option"
  pm_accepted :: int
  pm_rejected :: int
  pm_halts :: int
  pm_halt :: "halt_metrics option"

definition status_evidence_ok :: "metrics_row \<Rightarrow> bool" where
  "status_evidence_ok row \<longleftrightarrow>
     (mr_state row = None \<longrightarrow>
        mr_primary row = None \<and> mr_secondary row = None \<and> mr_agreed_index row = None \<and> mr_agreed_hash row = None \<and>
        mr_error row = None \<and> \<not> mr_writer row \<and> mr_lease row = None \<and> mr_updated row = None) \<and>
     (mr_state row \<noteq> None \<longrightarrow> mr_updated row \<noteq> None) \<and>
     null_or (\<lambda>s. parse_state s \<noteq> None) (mr_state row) \<and> null_or error_code_pattern (mr_error row) \<and>
     (mr_state row = Some (state_name Halted) \<longleftrightarrow> mr_error row \<noteq> None) \<and> (mr_writer row \<longleftrightarrow> mr_lease row \<noteq> None) \<and>
     (mr_agreed_index row = None \<longleftrightarrow> mr_agreed_hash row = None) \<and> null_or hash64 (mr_agreed_hash row)"

definition checkpoint_evidence_ok :: "metrics_row \<Rightarrow> bool" where
  "checkpoint_evidence_ok row \<longleftrightarrow>
     (mr_ck_index row = None \<longleftrightarrow> mr_ck_hash row = None) \<and> (mr_ck_index row = None \<longleftrightarrow> mr_ck_close row = None) \<and>
     null_or hash64 (mr_ck_hash row)"

definition halt_evidence_ok :: "int \<Rightarrow> metrics_row \<Rightarrow> bool" where
  "halt_evidence_ok halts row \<longleftrightarrow>
     (halts = 0 \<longleftrightarrow> mr_halt_epoch row = None) \<and>
     (mr_halt_epoch row = None \<longleftrightarrow> mr_halt_error row = None) \<and> (mr_halt_epoch row = None \<longleftrightarrow> mr_halt_at row = None) \<and>
     (mr_halt_epoch row = None \<longrightarrow> mr_halt_primary row = None \<and> mr_halt_secondary row = None \<and> mr_halt_agreed row = None) \<and>
     (mr_halt_agreed row = None \<longleftrightarrow> \<not> mr_halt_hash row) \<and> null_or error_code_pattern (mr_halt_error row)"

definition status_metrics_of :: "metrics_row \<Rightarrow> metrics_error + status_metrics option" where
  "status_metrics_of row =
     (case (Option.bind (mr_state row) parse_state, mr_updated row) of
        (Some state, Some updated) \<Rightarrow>
          rbind (nullable_text_uint32 (mr_primary row)) (\<lambda>primary.
          rbind (nullable_text_uint32 (mr_secondary row)) (\<lambda>secondary.
          rbind (nullable_text_uint32 (mr_agreed_index row)) (\<lambda>agreed.
          Inr (Some \<lparr>sm_state = state, sm_primary = primary, sm_secondary = secondary, sm_agreed_index = agreed,
            sm_agreed_hash = mr_agreed_hash row, sm_error = mr_error row, sm_writer = mr_writer row, sm_lease = mr_lease row,
            sm_updated = updated\<rparr>))))
      | _ \<Rightarrow> Inr None)"

definition checkpoint_metrics_of :: "metrics_row \<Rightarrow> metrics_error + checkpoint_metrics option" where
  "checkpoint_metrics_of row =
     (case (mr_ck_index row, mr_ck_hash row, mr_ck_close row) of
        (Some index, Some hash, Some close) \<Rightarrow>
          rbind (metrics_uint32 index) (\<lambda>index. rbind (metrics_uint32 close) (\<lambda>close.
          Inr (Some \<lparr>km_index = index, km_hash = hash, km_close = close, km_root = mr_ck_root row\<rparr>)))
      | _ \<Rightarrow> Inr None)"

definition halt_metrics_of :: "metrics_row \<Rightarrow> metrics_error + halt_metrics option" where
  "halt_metrics_of row =
     (case (mr_halt_epoch row, mr_halt_error row, mr_halt_at row) of
        (Some epoch, Some code, Some recorded) \<Rightarrow>
          rbind (positive_safe_integer epoch) (\<lambda>epoch.
          rbind (nullable_text_uint32 (mr_halt_primary row)) (\<lambda>primary.
          rbind (nullable_text_uint32 (mr_halt_secondary row)) (\<lambda>secondary.
          rbind (nullable_text_uint32 (mr_halt_agreed row)) (\<lambda>agreed.
          Inr (Some \<lparr>hm_epoch = epoch, hm_error = code, hm_primary = primary, hm_secondary = secondary, hm_agreed = agreed, hm_at = recorded\<rparr>)))))
      | _ \<Rightarrow> Inr None)"

definition profile_snapshot :: "metrics_row \<Rightarrow> metrics_error + profile_metrics" where
  "profile_snapshot row =
     (if \<not> profile_id_pattern (mr_profile row) \<or> \<not> status_evidence_ok row \<or> \<not> checkpoint_evidence_ok row then Inl Evidence_Invalid
      else
        rbind (non_negative_safe_integer (mr_halts row)) (\<lambda>halts.
        if \<not> halt_evidence_ok halts row then Inl Evidence_Invalid
        else
          rbind (positive_uint32 (mr_activation row)) (\<lambda>activation.
          rbind (status_metrics_of row) (\<lambda>status.
          rbind (checkpoint_metrics_of row) (\<lambda>checkpoint.
          rbind (non_negative_safe_integer (mr_accepted row)) (\<lambda>accepted_count.
          rbind (non_negative_safe_integer (mr_rejected row)) (\<lambda>rejected_count.
          rbind (halt_metrics_of row) (\<lambda>halt.
          Inr \<lparr>pm_profile = mr_profile row, pm_activation = activation, pm_status = status, pm_checkpoint = checkpoint,
               pm_accepted = accepted_count, pm_rejected = rejected_count, pm_halts = halts, pm_halt = halt\<rparr>))))))))"

record metrics_snapshot =
  ms_observed :: int
  ms_used :: int
  ms_maximum :: int
  ms_bytes :: int
  ms_profiles :: "profile_metrics list"

text \<open>\<open>getSnapshot\<close>; the three texts are what PostgreSQL reports of itself.\<close>

definition metrics_snapshot_of ::
  "snapshot \<Rightarrow> (incident_row \<Rightarrow> int) \<Rightarrow> jstr \<times> jstr \<times> jstr \<Rightarrow> metrics_error + metrics_snapshot" where
  "metrics_snapshot_of db halted_at server =
     (case server of (used, maximum, bytes) \<Rightarrow>
        rbind (non_negative_safe_integer used) (\<lambda>used.
        rbind (non_negative_safe_integer maximum) (\<lambda>maximum.
        rbind (non_negative_safe_integer bytes) (\<lambda>bytes.
        rbind (traverse (\<lambda>n. profile_snapshot (metrics_row_of db halted_at n)) (list_networks db)) (\<lambda>profiles.
        Inr \<lparr>ms_observed = sn_now db, ms_used = used, ms_maximum = maximum, ms_bytes = bytes, ms_profiles = profiles\<rparr>)))))"

section \<open>What is published\<close>

definition CONTINUITY_FAILURE_CODES :: "string list" where
  "CONTINUITY_FAILURE_CODES = [''LEDGER_BEFORE_ACTIVATION'', ''LEDGER_GAP'', ''LEDGER_PARENT_MISMATCH'', ''ACTIVATION_HASH_MISMATCH'']"

definition ledger_lag :: "status_metrics \<Rightarrow> int option" where
  "ledger_lag status =
     (case (sm_primary status, sm_secondary status, sm_agreed_index status) of
        (Some p, Some s, Some i) \<Rightarrow>
          let lag = min p s - i in if 0 \<le> lag \<and> lag \<le> MAX_SAFE_INTEGER then Some lag else None
      | _ \<Rightarrow> None)"

definition is_profile_ready :: "'x server_lib_scheme \<Rightarrow> profile_metrics \<Rightarrow> int \<Rightarrow> int \<Rightarrow> bool" where
  "is_profile_ready lib profile observed max_age \<longleftrightarrow>
     (case (pm_status profile, pm_checkpoint profile) of
        (Some status, Some checkpoint) \<Rightarrow>
          sm_state status = Ready \<and> sm_writer status \<and> (\<exists>e \<in> set_option (sm_lease status). observed < e) \<and>
          (case (sm_primary status, sm_secondary status, sm_agreed_index status, sm_agreed_hash status) of
             (Some p, Some s, Some i, Some h) \<Rightarrow> i = min p s \<and> i = km_index checkpoint \<and> h = km_hash checkpoint
           | _ \<Rightarrow> False) \<and>
          pm_activation profile \<le> km_index checkpoint \<and> km_root checkpoint \<and>
          evaluate_ledger_checkpoint_freshness lib (Some (km_close checkpoint)) (Some observed) (NInt max_age) = Fresh
      | _ \<Rightarrow> False)"

record public_metrics =
  um_profile :: jstr
  um_ready :: bool
  um_state :: "status_state option"
  um_error :: "jstr option"
  um_updated :: "int option"
  um_primary :: "int option"
  um_secondary :: "int option"
  um_agreed :: "(int \<times> jstr) option"
  um_lag :: "int option"
  um_checkpoint :: "(checkpoint_metrics \<times> int) option"
  um_continuity :: "jstr option"
  um_accepted :: int
  um_rejected :: int
  um_halts :: int
  um_halt :: "halt_metrics option"

definition public_profile :: "'x server_lib_scheme \<Rightarrow> profile_metrics \<Rightarrow> int \<Rightarrow> int \<Rightarrow> public_metrics" where
  "public_profile lib profile observed max_age =
     (let status = pm_status profile in
      \<lparr>um_profile = pm_profile profile, um_ready = is_profile_ready lib profile observed max_age,
       um_state = map_option sm_state status, um_error = Option.bind status sm_error, um_updated = map_option sm_updated status,
       um_primary = Option.bind status sm_primary, um_secondary = Option.bind status sm_secondary,
       um_agreed = Option.bind status (\<lambda>s. case (sm_agreed_index s, sm_agreed_hash s) of (Some i, Some h) \<Rightarrow> Some (i, h) | _ \<Rightarrow> None),
       um_lag = Option.bind status ledger_lag,
       um_checkpoint = map_option (\<lambda>c. (c, observed div 1000 - ripple_time_to_unix_time lib (km_close c) div 1000)) (pm_checkpoint profile),
       um_continuity = Option.bind status (\<lambda>s. if sm_state s \<noteq> Halted then None
         else case sm_error s of Some e \<Rightarrow> if e \<in> set (map lit CONTINUITY_FAILURE_CODES) then Some e else None | None \<Rightarrow> None),
       um_accepted = pm_accepted profile, um_rejected = pm_rejected profile, um_halts = pm_halts profile, um_halt = pm_halt profile\<rparr>)"

section \<open>Counters of the process\<close>

datatype rate_limit_metric = Global_Limit | Verify_Limit | Pinning_Limit

definition rate_limit_metric_of :: "jstr option \<Rightarrow> rate_limit_metric" where
  "rate_limit_metric_of route =
     (case route of
        None \<Rightarrow> Global_Limit
      | Some url \<Rightarrow>
          if url = lit ''/v1/verify'' then Verify_Limit
          else if take (length ''/v1/pinning/'') url = lit ''/v1/pinning/'' then Pinning_Limit else Global_Limit)"

record metrics_collector =
  mc_started :: int
  mc_max_age :: int
  mc_resolution_enabled :: bool
  mc_failures :: int
  mc_retrieved :: int
  mc_unavailable :: int
  mc_invalid :: int
  mc_error :: int
  mc_limited :: "rate_limit_metric \<Rightarrow> int"

definition increment_counter :: "int \<Rightarrow> int" where
  "increment_counter n = (if MAX_SAFE_INTEGER \<le> n then MAX_SAFE_INTEGER else n + 1)"

text \<open>The constructor; \<open>None\<close> is an invalid date.\<close>

definition create_collector :: "int option \<Rightarrow> jnum option \<Rightarrow> metrics_error + metrics_collector" where
  "create_collector now max_age =
     (case (now, case max_age of None \<Rightarrow> NInt DEFAULT_LEDGER_MAX_AGE_SECONDS | Some a \<Rightarrow> a) of
        (Some now, NInt age) \<Rightarrow>
          if age < 0 \<or> 3600 < age then Inl Metrics_Failed
          else Inr \<lparr>mc_started = now, mc_max_age = age, mc_resolution_enabled = False, mc_failures = 0, mc_retrieved = 0,
            mc_unavailable = 0, mc_invalid = 0, mc_error = 0, mc_limited = (\<lambda>_. 0)\<rparr>
      | _ \<Rightarrow> Inl Metrics_Failed)"

definition observe_payload_resolver :: "metrics_collector \<Rightarrow> metrics_collector" where
  "observe_payload_resolver mc = mc\<lparr>mc_resolution_enabled := True\<rparr>"

text \<open>The observed resolver: the result of the resolver, counted.\<close>

definition observed_resolution :: "server_error + byte list \<Rightarrow> metrics_collector \<Rightarrow> metrics_collector" where
  "observed_resolution result mc =
     (case result of
        Inr _ \<Rightarrow> mc\<lparr>mc_retrieved := increment_counter (mc_retrieved mc)\<rparr>
      | Inl server_error.Payload_Unavailable \<Rightarrow> mc\<lparr>mc_unavailable := increment_counter (mc_unavailable mc)\<rparr>
      | Inl server_error.Payload_Invalid \<Rightarrow> mc\<lparr>mc_invalid := increment_counter (mc_invalid mc)\<rparr>
      | Inl (Uncoded_Error e) \<Rightarrow>
          if is_xcs_error e then mc\<lparr>mc_invalid := increment_counter (mc_invalid mc)\<rparr>
          else mc\<lparr>mc_error := increment_counter (mc_error mc)\<rparr>
      | Inl _ \<Rightarrow> mc\<lparr>mc_error := increment_counter (mc_error mc)\<rparr>)"

definition record_rate_limited :: "rate_limit_metric \<Rightarrow> metrics_collector \<Rightarrow> metrics_collector" where
  "record_rate_limited metric mc = mc\<lparr>mc_limited := (mc_limited mc)(metric := increment_counter (mc_limited mc metric))\<rparr>"

record database_metrics =
  dm_available :: bool
  dm_error :: "string option"
  dm_observed :: "int option"
  dm_failures :: int
  dm_connections :: "(int \<times> int) option"
  dm_bytes :: "int option"

record metrics_document =
  md_generated :: int
  md_from_database :: bool
  md_database :: database_metrics
  md_profiles :: "public_metrics list"
  md_collector :: metrics_collector

text \<open>\<open>collect\<close>: only an invalid clock of the process throws.\<close>

definition collect_metrics ::
  "'x server_lib_scheme \<Rightarrow> int option \<Rightarrow> metrics_error + metrics_snapshot \<Rightarrow> metrics_collector \<Rightarrow>
    metrics_error + metrics_document \<times> metrics_collector" where
  "collect_metrics lib now snapshot mc =
     (case now of
        None \<Rightarrow> Inl Metrics_Failed
      | Some now \<Rightarrow>
          (case snapshot of
             Inr ms \<Rightarrow>
               Inr (\<lparr>md_generated = ms_observed ms, md_from_database = True,
                 md_database = \<lparr>dm_available = True, dm_error = None, dm_observed = Some (ms_observed ms), dm_failures = mc_failures mc,
                   dm_connections = Some (ms_used ms, ms_maximum ms), dm_bytes = Some (ms_bytes ms)\<rparr>,
                 md_profiles = map (\<lambda>p. public_profile lib p (ms_observed ms) (mc_max_age mc)) (ms_profiles ms), md_collector = mc\<rparr>, mc)
           | Inl e \<Rightarrow>
               let failures = increment_counter (mc_failures mc) in
               Inr (\<lparr>md_generated = now, md_from_database = False,
                 md_database = \<lparr>dm_available = (e = Evidence_Invalid),
                   dm_error = Some (if e = Evidence_Invalid then ''METRICS_EVIDENCE_INVALID'' else ''DATABASE_UNAVAILABLE''),
                   dm_observed = None, dm_failures = failures, dm_connections = None, dm_bytes = None\<rparr>,
                 md_profiles = [], md_collector = mc\<rparr>, mc\<lparr>mc_failures := failures\<rparr>)))"

section \<open>The Prometheus text\<close>

fun prometheus_label :: "jstr \<Rightarrow> jstr" where
  "prometheus_label [] = []"
| "prometheus_label (c # s) =
     (if c = ch CHR 0x5C then [ch CHR 0x5C, ch CHR 0x5C]
      else if c = 10 then [ch CHR 0x5C, ch CHR ''n'']
      else if c = ch CHR 0x22 then [ch CHR 0x5C, ch CHR 0x22] else [c]) @ prometheus_label s"

text \<open>A sample: \<open>String\<close> of its number is a text, labels keep their order.\<close>

fun join_labels :: "(string \<times> jstr) list \<Rightarrow> jstr" where
  "join_labels [] = []"
| "join_labels [(key, label)] = lit key @ [ch CHR ''='', ch CHR 0x22] @ prometheus_label label @ [ch CHR 0x22]"
| "join_labels ((key, label) # labels) =
     lit key @ [ch CHR ''='', ch CHR 0x22] @ prometheus_label label @ [ch CHR 0x22, ch CHR '',''] @ join_labels labels"

definition prometheus_sample :: "string \<Rightarrow> jstr \<Rightarrow> (string \<times> jstr) list \<Rightarrow> jstr" where
  "prometheus_sample name number labels =
     lit name @ (if labels = [] then [] else [ch CHR ''{''] @ join_labels labels @ [ch CHR ''}'']) @ lit '' '' @ number"

abbreviation int_sample :: "string \<Rightarrow> int \<Rightarrow> (string \<times> jstr) list \<Rightarrow> jstr" where
  "int_sample name n \<equiv> prometheus_sample name (int_str n)"

definition flag_text :: "bool \<Rightarrow> jstr" where
  "flag_text b = (if b then lit ''1'' else lit ''0'')"

definition help_lines :: "string \<Rightarrow> string \<Rightarrow> string \<Rightarrow> jstr list" where
  "help_lines name help kind = [lit ''# HELP '' @ lit name @ lit '' '' @ lit help, lit ''# TYPE '' @ lit name @ lit '' '' @ lit kind]"

definition database_lines :: "database_metrics \<Rightarrow> jstr list" where
  "database_lines d =
     help_lines ''xcs_database_available'' ''Whether the operational PostgreSQL snapshot is available.'' ''gauge'' @
     [prometheus_sample ''xcs_database_available'' (flag_text (dm_available d)) []] @
     help_lines ''xcs_api_metrics_snapshot_failures_total'' ''Operational snapshot failures in this API process.'' ''counter'' @
     [int_sample ''xcs_api_metrics_snapshot_failures_total'' (dm_failures d) []] @
     (case dm_connections d of
        None \<Rightarrow> []
      | Some (used, maximum) \<Rightarrow>
          help_lines ''xcs_database_connections_used'' ''PostgreSQL client backend connections in use.'' ''gauge'' @
          [int_sample ''xcs_database_connections_used'' used []] @
          help_lines ''xcs_database_connections_max'' ''PostgreSQL maximum configured connections.'' ''gauge'' @
          [int_sample ''xcs_database_connections_max'' maximum []]) @
     (case dm_bytes d of
        None \<Rightarrow> []
      | Some bytes \<Rightarrow>
          help_lines ''xcs_database_logical_size_bytes'' ''Logical size of the XCS PostgreSQL database.'' ''gauge'' @
          [int_sample ''xcs_database_logical_size_bytes'' bytes []])"

definition profile_help :: "jstr list" where
  "profile_help =
     help_lines ''xcs_indexer_ready'' ''Whether the profile has fresh, lease-backed authoritative evidence.'' ''gauge'' @
     help_lines ''xcs_indexer_state'' ''Current durable indexer state for the profile.'' ''gauge'' @
     help_lines ''xcs_indexer_source_tip'' ''Last observed source tip by profile and source.'' ''gauge'' @
     help_lines ''xcs_indexer_ledger_lag'' ''Difference between the effective source tip and last agreed ledger.'' ''gauge'' @
     help_lines ''xcs_indexer_checkpoint_age_seconds'' ''Age of the latest indexed checkpoint.'' ''gauge'' @
     help_lines ''xcs_indexer_halts_total'' ''Durable fenced halt incidents recorded for the profile.'' ''counter'' @
     help_lines ''xcs_indexer_last_halt_timestamp_seconds'' ''Timestamp of the latest durable fenced halt.'' ''gauge'' @
     help_lines ''xcs_schema_registrations_total'' ''Indexed schema registrations by result.'' ''counter''"

text \<open>The samples of a network; \<open>seconds_text\<close> is \<open>String\<close> of milliseconds over 1000.\<close>

definition profile_lines :: "(int \<Rightarrow> jstr) \<Rightarrow> public_metrics \<Rightarrow> jstr list" where
  "profile_lines seconds_text um =
     (let label = (''profile_id'', um_profile um);
          optional_line = (\<lambda>line n. case n of None \<Rightarrow> [] | Some n \<Rightarrow> [line n])
      in
      [prometheus_sample ''xcs_indexer_ready'' (flag_text (um_ready um)) [label],
       prometheus_sample ''xcs_indexer_state'' (lit ''1'')
         [label, (''state'', case um_state um of None \<Rightarrow> lit ''missing'' | Some s \<Rightarrow> state_name s)],
       int_sample ''xcs_indexer_halts_total'' (um_halts um) [label],
       int_sample ''xcs_schema_registrations_total'' (um_accepted um) [label, (''result'', lit ''accepted'')],
       int_sample ''xcs_schema_registrations_total'' (um_rejected um) [label, (''result'', lit ''rejected'')]] @
      optional_line (\<lambda>n. int_sample ''xcs_indexer_source_tip'' n [label, (''source'', lit ''primary'')]) (um_primary um) @
      optional_line (\<lambda>n. int_sample ''xcs_indexer_source_tip'' n [label, (''source'', lit ''secondary'')]) (um_secondary um) @
      optional_line (\<lambda>n. int_sample ''xcs_indexer_ledger_lag'' n [label]) (um_lag um) @
      optional_line (\<lambda>n. int_sample ''xcs_indexer_checkpoint_age_seconds'' n [label]) (map_option snd (um_checkpoint um)) @
      (case um_halt um of
         None \<Rightarrow> []
       | Some h \<Rightarrow>
           [prometheus_sample ''xcs_indexer_last_halt_timestamp_seconds'' (seconds_text (hm_at h)) [label, (''error_code'', hm_error h)]]))"

definition limited_lines :: "metrics_collector \<Rightarrow> jstr list" where
  "limited_lines mc =
     help_lines ''xcs_api_rate_limited_responses_total'' ''Rate-limited responses in this API process.'' ''counter'' @
     map (\<lambda>(scope, m). int_sample ''xcs_api_rate_limited_responses_total'' (mc_limited mc m) [(''scope'', lit scope)])
       [(''global'', Global_Limit), (''verify'', Verify_Limit), (''pinning'', Pinning_Limit)]"

definition metrics_lines :: "(int \<Rightarrow> jstr) \<Rightarrow> metrics_document \<Rightarrow> jstr list" where
  "metrics_lines seconds_text md =
     database_lines (md_database md) @ profile_help @ concat (map (profile_lines seconds_text) (md_profiles md)) @
     limited_lines (md_collector md) @ [lit ''# EOF'']"

definition render_prometheus_metrics :: "(int \<Rightarrow> jstr) \<Rightarrow> metrics_document \<Rightarrow> jstr" where
  "render_prometheus_metrics seconds_text md = concat (map (\<lambda>l. l @ [10]) (metrics_lines seconds_text md))"

section \<open>Rows of well-formed tables\<close>

lemma text_number:
  "0 \<le> n \<Longrightarrow> n \<le> MAX_SAFE_INTEGER \<Longrightarrow> non_negative_safe_integer (int_str n) = Inr n"
  "uint32_range n \<Longrightarrow> metrics_uint32 (int_str n) = Inr n"
  "int k \<le> MAX_SAFE_INTEGER \<Longrightarrow> non_negative_safe_integer (dec_str k) = Inr (int k)"
  by (simp_all add: non_negative_safe_integer_def metrics_uint32_def int_str_def unsigned_integer_dec_str uint32_range_def
      uint32_max_def MAX_SAFE_INTEGER_def)

lemma nullable_text: "null_or uint32_range n \<Longrightarrow> nullable_text_uint32 (map_option int_str n) = Inr n"
  by (cases n) (simp_all add: nullable_text_uint32_def text_number)

lemma parse_state_name [simp]: "parse_state (state_name s) = Some s"
  by (cases s) (simp_all add: parse_state_def state_name_def lit_def)

lemma state_name_inject [simp]: "state_name s = state_name t \<longleftrightarrow> s = t"
  using parse_state_name by (metis option.inject)

lemma first_row_member: "first_row rows = Some r \<Longrightarrow> r \<in> set rows"
  by (cases rows) (simp_all add: first_row_def)

lemma first_row_None [simp]: "first_row rows = None \<longleftrightarrow> rows = []"
  by (cases rows) (simp_all add: first_row_def)

lemma set_descending [simp]: "set (descending key rows) = set rows"
  by (simp add: descending_def)

lemma descending_Nil [simp]: "descending key rows = [] \<longleftrightarrow> rows = []"
  by (metis set_descending set_empty)

text \<open>What a well-formed database gives for a network, as values instead of texts.\<close>

definition status_shown :: "status_row \<Rightarrow> status_metrics" where
  "status_shown r =
     \<lparr>sm_state = ss_state r, sm_primary = ss_primary r, sm_secondary = ss_secondary r, sm_agreed_index = ss_agreed_index r,
      sm_agreed_hash = ss_agreed_hash r, sm_error = ss_error r, sm_writer = (ss_writer r \<noteq> None), sm_lease = ss_expires r,
      sm_updated = ss_updated r\<rparr>"

definition checkpoint_shown :: "checkpoint_row \<Rightarrow> checkpoint_metrics" where
  "checkpoint_shown r = \<lparr>km_index = ck_index r, km_hash = ck_hash r, km_close = ck_close_time r, km_root = (ck_root r \<noteq> None)\<rparr>"

definition halt_shown :: "(incident_row \<Rightarrow> int) \<Rightarrow> incident_row \<Rightarrow> halt_metrics" where
  "halt_shown halted_at r =
     \<lparr>hm_epoch = ii_epoch r, hm_error = ii_error r, hm_primary = ii_primary r, hm_secondary = ii_secondary r,
      hm_agreed = ii_agreed_index r, hm_at = halted_at r\<rparr>"

definition profile_shown :: "snapshot \<Rightarrow> (incident_row \<Rightarrow> int) \<Rightarrow> profile_row \<Rightarrow> profile_metrics" where
  "profile_shown db halted_at network =
     (let profile = np_id network; events = filter (\<lambda>r. se_profile r = profile) (db_schema_events db) in
      \<lparr>pm_profile = profile, pm_activation = np_activation_index network,
       pm_status = map_option status_shown (get_indexer_status db profile),
       pm_checkpoint = map_option checkpoint_shown (get_latest_checkpoint db profile),
       pm_accepted = int (length (filter se_accepted events)), pm_rejected = int (length (filter (\<lambda>r. \<not> se_accepted r) events)),
       pm_halts = int (length (filter (\<lambda>r. ii_profile r = profile) (db_incidents db))),
       pm_halt = map_option (halt_shown halted_at) (latest_incident db profile)\<rparr>)"

definition metrics_tables_ok :: "snapshot \<Rightarrow> bool" where
  "metrics_tables_ok db \<longleftrightarrow>
     list_all (\<lambda>r. 1 \<le> np_activation_index r \<and> uint32_range (np_activation_index r) \<and> profile_id_pattern (np_id r)) (db_profiles db) \<and> list_all status_row_ok (db_statuses db) \<and>
     list_all checkpoint_row_ok (db_checkpoints db) \<and> list_all incident_row_ok (db_incidents db) \<and>
     int (length (db_schema_events db)) \<le> MAX_SAFE_INTEGER \<and> int (length (db_incidents db)) \<le> MAX_SAFE_INTEGER"

lemma row_fields:
  "mr_profile (metrics_row_of db halted_at n) = np_id n" "mr_activation (metrics_row_of db halted_at n) = int_str (np_activation_index n)"
  "mr_state (metrics_row_of db halted_at n) = map_option (\<lambda>r. state_name (ss_state r)) (get_indexer_status db (np_id n))"
  "mr_primary (metrics_row_of db halted_at n) = text_of ss_primary (get_indexer_status db (np_id n))"
  "mr_secondary (metrics_row_of db halted_at n) = text_of ss_secondary (get_indexer_status db (np_id n))"
  "mr_agreed_index (metrics_row_of db halted_at n) = text_of ss_agreed_index (get_indexer_status db (np_id n))"
  "mr_agreed_hash (metrics_row_of db halted_at n) = Option.bind (get_indexer_status db (np_id n)) ss_agreed_hash"
  "mr_error (metrics_row_of db halted_at n) = Option.bind (get_indexer_status db (np_id n)) ss_error"
  "mr_writer (metrics_row_of db halted_at n) = (Option.bind (get_indexer_status db (np_id n)) ss_writer \<noteq> None)"
  "mr_lease (metrics_row_of db halted_at n) = Option.bind (get_indexer_status db (np_id n)) ss_expires"
  "mr_updated (metrics_row_of db halted_at n) = map_option ss_updated (get_indexer_status db (np_id n))"
  "mr_ck_index (metrics_row_of db halted_at n) = map_option (\<lambda>r. int_str (ck_index r)) (get_latest_checkpoint db (np_id n))"
  "mr_ck_hash (metrics_row_of db halted_at n) = map_option ck_hash (get_latest_checkpoint db (np_id n))"
  "mr_ck_close (metrics_row_of db halted_at n) = map_option (\<lambda>r. int_str (ck_close_time r)) (get_latest_checkpoint db (np_id n))"
  "mr_ck_root (metrics_row_of db halted_at n) = (Option.bind (get_latest_checkpoint db (np_id n)) ck_root \<noteq> None)"
  "mr_accepted (metrics_row_of db halted_at n) = dec_str (length (filter se_accepted (filter (\<lambda>r. se_profile r = np_id n) (db_schema_events db))))"
  "mr_rejected (metrics_row_of db halted_at n) =
     dec_str (length (filter (\<lambda>r. \<not> se_accepted r) (filter (\<lambda>r. se_profile r = np_id n) (db_schema_events db))))"
  "mr_halts (metrics_row_of db halted_at n) = dec_str (length (filter (\<lambda>r. ii_profile r = np_id n) (db_incidents db)))"
  "mr_halt_epoch (metrics_row_of db halted_at n) = map_option (\<lambda>r. int_str (ii_epoch r)) (latest_incident db (np_id n))"
  "mr_halt_error (metrics_row_of db halted_at n) = map_option ii_error (latest_incident db (np_id n))"
  "mr_halt_primary (metrics_row_of db halted_at n) = text_of ii_primary (latest_incident db (np_id n))"
  "mr_halt_secondary (metrics_row_of db halted_at n) = text_of ii_secondary (latest_incident db (np_id n))"
  "mr_halt_agreed (metrics_row_of db halted_at n) = text_of ii_agreed_index (latest_incident db (np_id n))"
  "mr_halt_hash (metrics_row_of db halted_at n) = (Option.bind (latest_incident db (np_id n)) ii_agreed_hash \<noteq> None)"
  "mr_halt_at (metrics_row_of db halted_at n) = map_option halted_at (latest_incident db (np_id n))"
  by (simp_all add: metrics_row_of_def Let_def)

lemma text_of_simps [simp]: "text_of f None = None" "text_of f (Some r) = map_option int_str (f r)"
  by (simp_all add: text_of_def)

lemma tables_rows:
  assumes "metrics_tables_ok db"
  shows "null_or status_row_ok (get_indexer_status db p)" "null_or checkpoint_row_ok (get_latest_checkpoint db p)"
    "null_or incident_row_ok (latest_incident db p)"
  using assms
  by (auto simp: metrics_tables_ok_def list_all_iff get_indexer_status_def get_latest_checkpoint_def latest_incident_def
      split: option.splits dest!: first_row_member)

lemma agreed_texts: "agreed_ledger_ok i h \<Longrightarrow> null_or uint32_range i \<and> null_or hash64 h \<and> (i = None \<longleftrightarrow> h = None)"
  by (auto simp: agreed_ledger_ok_def)

lemma status_reads:
  assumes "null_or status_row_ok (get_indexer_status db (np_id n))"
  shows "status_evidence_ok (metrics_row_of db halted_at n)"
    "status_metrics_of (metrics_row_of db halted_at n) = Inr (map_option status_shown (get_indexer_status db (np_id n)))"
proof -
  have reads: "status_evidence_ok (metrics_row_of db halted_at n) \<and>
      status_metrics_of (metrics_row_of db halted_at n) = Inr (map_option status_shown (get_indexer_status db (np_id n)))"
  proof (cases "get_indexer_status db (np_id n)")
    case None
    then show ?thesis by (simp add: status_evidence_ok_def status_metrics_of_def row_fields)
  next
    case (Some s)
    then have ok: "null_or uint32_range (ss_primary s)" "null_or uint32_range (ss_secondary s)" "null_or uint32_range (ss_agreed_index s)"
      "null_or hash64 (ss_agreed_hash s)" "ss_agreed_index s = None \<longleftrightarrow> ss_agreed_hash s = None" "null_or error_code_pattern (ss_error s)"
      "ss_state s = Halted \<longleftrightarrow> ss_error s \<noteq> None" "ss_writer s \<noteq> None \<longleftrightarrow> ss_expires s \<noteq> None"
      using assms agreed_texts by (auto simp: status_row_ok_def lease_window_ok_def)
    then show ?thesis
      by (simp add: status_evidence_ok_def status_metrics_of_def row_fields Some status_shown_def nullable_text del: not_None_eq)
  qed
  show "status_evidence_ok (metrics_row_of db halted_at n)"
    "status_metrics_of (metrics_row_of db halted_at n) = Inr (map_option status_shown (get_indexer_status db (np_id n)))"
    using reads by blast+
qed

lemma checkpoint_reads:
  assumes "null_or checkpoint_row_ok (get_latest_checkpoint db (np_id n))"
  shows "checkpoint_evidence_ok (metrics_row_of db halted_at n)"
    "checkpoint_metrics_of (metrics_row_of db halted_at n) = Inr (map_option checkpoint_shown (get_latest_checkpoint db (np_id n)))"
  using assms
  by (cases "get_latest_checkpoint db (np_id n)";
      auto simp: checkpoint_evidence_ok_def checkpoint_metrics_of_def row_fields checkpoint_shown_def text_number checkpoint_row_ok_def)+

lemma halt_reads:
  assumes "null_or incident_row_ok (latest_incident db (np_id n))"
  shows "halt_evidence_ok (int (length (filter (\<lambda>r. ii_profile r = np_id n) (db_incidents db)))) (metrics_row_of db halted_at n)"
    "halt_metrics_of (metrics_row_of db halted_at n) = Inr (map_option (halt_shown halted_at) (latest_incident db (np_id n)))"
proof -
  have none: "filter (\<lambda>r. ii_profile r = np_id n) (db_incidents db) = [] \<longleftrightarrow> latest_incident db (np_id n) = None"
    by (simp add: latest_incident_def)
  have reads: "halt_evidence_ok (int (length (filter (\<lambda>r. ii_profile r = np_id n) (db_incidents db)))) (metrics_row_of db halted_at n) \<and>
      halt_metrics_of (metrics_row_of db halted_at n) = Inr (map_option (halt_shown halted_at) (latest_incident db (np_id n)))"
  proof (cases "latest_incident db (np_id n)")
    case None
    then show ?thesis using none by (simp add: halt_evidence_ok_def halt_metrics_of_def row_fields)
  next
    case (Some r)
    then have ok: "null_or uint32_range (ii_primary r)" "null_or uint32_range (ii_secondary r)" "null_or uint32_range (ii_agreed_index r)"
      "ii_agreed_index r = None \<longleftrightarrow> ii_agreed_hash r = None" "error_code_pattern (ii_error r)" "1 \<le> ii_epoch r" "ii_epoch r \<le> MAX_SAFE_INTEGER"
      using assms agreed_texts by (auto simp: incident_row_ok_def MAX_SAFE_EPOCH_def MAX_SAFE_INTEGER_def)
    have "filter (\<lambda>r. ii_profile r = np_id n) (db_incidents db) \<noteq> []" using none Some by simp
    then show ?thesis
      using ok by (simp add: halt_evidence_ok_def halt_metrics_of_def row_fields Some halt_shown_def nullable_text
          positive_safe_integer_def text_number del: not_None_eq)
  qed
  show "halt_evidence_ok (int (length (filter (\<lambda>r. ii_profile r = np_id n) (db_incidents db)))) (metrics_row_of db halted_at n)"
    "halt_metrics_of (metrics_row_of db halted_at n) = Inr (map_option (halt_shown halted_at) (latest_incident db (np_id n)))"
    using reads by blast+
qed

lemma filter_count: "int (length xs) \<le> m \<Longrightarrow> int (length (filter p xs)) \<le> m"
  by (meson length_filter_le of_nat_mono order_trans)

lemma profile_snapshot_shown:
  assumes tables: "metrics_tables_ok db" and n: "n \<in> set (list_networks db)"
  shows "profile_snapshot (metrics_row_of db halted_at n) = Inr (profile_shown db halted_at n)"
proof -
  have ok: "1 \<le> np_activation_index n" "uint32_range (np_activation_index n)" "profile_id_pattern (np_id n)"
    using assms by (auto simp: metrics_tables_ok_def list_all_iff list_networks_def)
  have few: "int (length (filter p (db_incidents db))) \<le> MAX_SAFE_INTEGER"
    "int (length (filter q (filter r (db_schema_events db)))) \<le> MAX_SAFE_INTEGER" for p q r
    using tables by (simp_all only: metrics_tables_ok_def filter_count)
  have activation: "positive_uint32 (mr_activation (metrics_row_of db halted_at n)) = Inr (np_activation_index n)"
    using ok by (simp add: positive_uint32_def row_fields text_number)
  show ?thesis
    unfolding profile_snapshot_def row_fields(1,16-18) text_number(3) [OF few(1)] text_number(3) [OF few(2)]
    using ok(3) status_reads checkpoint_reads halt_reads tables_rows [OF tables] activation
    by (simp add: profile_shown_def Let_def)
qed

section \<open>Ready is ready\<close>

lemma network_readiness_Inr:
  "network_readiness lib opts db n = Inr c \<longleftrightarrow>
     (\<exists>s. get_indexer_status db (np_id n) = Some s \<and> ss_state s = Ready \<and> lease_is_live s (authoritative_time opts db) \<and> tips_agree s \<and>
        get_latest_checkpoint db (np_id n) = Some c \<and> checkpoint_matches (np_id n) s c \<and> within_indexed (np_activation_index n) c [] \<and>
        assert_fresh_ledger_checkpoint lib (Some (ck_close_time c)) (authoritative_time opts db) (max_ledger_age_seconds opts) = Inr ())"
  by (auto simp: network_readiness_def Let_def preflight_authoritative_read_def require_authoritative_checkpoint_def res_simps
      assert_indexer_ready_Inr authoritative_evidence_Inr)

lemma fresh_iff: "assert_fresh_ledger_checkpoint lib close now max_age = Inr () \<longleftrightarrow> evaluate_ledger_checkpoint_freshness lib close now max_age = Fresh"
  by (simp add: assert_fresh_ledger_checkpoint_def split: freshness.splits)

lemma readiness_agrees:
  assumes tables: "metrics_tables_ok db" and n: "n \<in> set (list_networks db)"
  shows "is_profile_ready lib (profile_shown db halted_at n) (sn_now db) age \<longleftrightarrow>
    is_ok (network_readiness lib \<lparr>ao_clock = None, ao_max_age = Some (NInt age)\<rparr> db n)"
proof (cases "\<exists>s c. get_indexer_status db (np_id n) = Some s \<and> get_latest_checkpoint db (np_id n) = Some c")
  case False
  then show ?thesis
    by (auto simp: is_ok_iff network_readiness_Inr is_profile_ready_def profile_shown_def Let_def split: option.splits)
next
  case True
  then obtain s c where s: "get_indexer_status db (np_id n) = Some s" and c: "get_latest_checkpoint db (np_id n) = Some c" by blast
  have rows: "status_row_ok s" "checkpoint_row_ok c" using tables_rows [OF tables, of "np_id n"] s c by simp_all
  have profiles: "ss_profile s = np_id n" "ck_profile c = np_id n"
    using s c by (auto simp: get_indexer_status_def get_latest_checkpoint_def dest!: first_row_member)
  have activation: "1 \<le> np_activation_index n"
    using assms by (auto simp: metrics_tables_ok_def list_all_iff list_networks_def)
  let ?fresh = "evaluate_ledger_checkpoint_freshness lib (Some (ck_close_time c)) (Some (sn_now db)) (NInt age) = Fresh"
  have lease: "lease_is_live s (Some (sn_now db)) \<longleftrightarrow> ss_writer s \<noteq> None \<and> (\<exists>e \<in> set_option (ss_expires s). sn_now db < e)"
    by (auto simp: lease_is_live_def split: option.splits)
  have tips: "tips_agree s \<and> checkpoint_matches (np_id n) s c \<longleftrightarrow> ck_root c \<noteq> None \<and>
      (case (ss_primary s, ss_secondary s, ss_agreed_index s, ss_agreed_hash s) of
         (Some p, Some q, Some i, Some h) \<Rightarrow> i = min p q \<and> i = ck_index c \<and> h = ck_hash c
       | _ \<Rightarrow> False)"
    using rows profiles
    by (auto simp: tips_agree_def checkpoint_matches_def status_row_ok_def agreed_ledger_ok_def checkpoint_row_ok_def uint32_range_def
        uint32_int_def uint32_max_def split: option.splits)
  have "is_ok (network_readiness lib \<lparr>ao_clock = None, ao_max_age = Some (NInt age)\<rparr> db n) \<longleftrightarrow>
      ss_state s = Ready \<and> lease_is_live s (Some (sn_now db)) \<and> (tips_agree s \<and> checkpoint_matches (np_id n) s c) \<and>
      np_activation_index n \<le> ck_index c \<and> ?fresh"
    using s c activation
    by (auto simp: is_ok_iff network_readiness_Inr fresh_iff within_indexed_def authoritative_time_def current_time_def max_ledger_age_seconds_def)
  also have "\<dots> \<longleftrightarrow> is_profile_ready lib (profile_shown db halted_at n) (sn_now db) age"
    unfolding lease tips
    by (auto simp: is_profile_ready_def profile_shown_def Let_def s c status_shown_def checkpoint_shown_def split: option.splits)
  finally show ?thesis by simp
qed

section \<open>Labels\<close>

text \<open>The text format ends a label at a quotation mark and a sample at a line feed; this reads a label back.\<close>

fun read_label :: "jstr \<Rightarrow> (jstr \<times> jstr) option" where
  "read_label [] = None"
| "read_label [c] = (if c = ch CHR 0x22 then Some ([], []) else None)"
| "read_label (c # d # s) =
     (if c = ch CHR 0x22 then Some ([], d # s)
      else if c = 10 then None
      else if c = ch CHR 0x5C then
        (if d = ch CHR 0x5C \<or> d = ch CHR 0x22 then map_option (\<lambda>(l, r). (d # l, r)) (read_label s)
         else if d = ch CHR ''n'' then map_option (\<lambda>(l, r). (10 # l, r)) (read_label s) else None)
      else map_option (\<lambda>(l, r). (c # l, r)) (read_label (d # s)))"

lemma read_plain: "c \<noteq> ch CHR 0x22 \<Longrightarrow> c \<noteq> 10 \<Longrightarrow> c \<noteq> ch CHR 0x5C \<Longrightarrow> s \<noteq> [] \<Longrightarrow>
    read_label (c # s) = map_option (\<lambda>(l, r). (c # l, r)) (read_label s)"
  by (cases s) simp_all

lemma read_prometheus_label: "read_label (prometheus_label label @ ch CHR 0x22 # rest) = Some (label, rest)"
proof (induction label)
  case Nil
  then show ?case by (cases rest) simp_all
next
  case (Cons c label)
  then show ?case by (simp add: read_plain ch_def)
qed

lemma prometheus_label_lines: "10 \<notin> set (prometheus_label label)"
  by (induction label) (simp_all add: ch_def)

end
