(* ===== verification/Pinning_Guarantees.thy ===== *)
theory Pinning_Guarantees
  imports Server_Pinning Server_Content Server_Metrics Pilot_Issue
begin

text \<open>What the demo pinning service guarantees to the operator and to the owners of pinned content, and where the server
  fetches payloads from.\<close>

section \<open>Quotas\<close>

text \<open>
  C38. Pins are paid for and limited. However the requests of all clients and the sweeps reach the tables, every pin was bought with
  a challenge of its own, issued to its wallet, network and address and used before it expired, a challenge is used only by
  its pin, and in no period of a day does a wallet or an address get more than its daily limit of pins.
\<close>

theorem demo_pins_are_limited:
  assumes "(pin_step limit)\<^sup>*\<^sup>* \<lparr>pt_challenges = [], pt_pins = []\<rparr> tables"
  shows "distinct (map dp_challenge (pt_pins tables)) \<and>
    (\<forall>r \<in> set (pt_pins tables). \<exists>c \<in> set (pt_challenges tables). bought_by c r) \<and>
    (\<forall>c \<in> set (pt_challenges tables). pk_used c \<noteq> None \<longrightarrow> (\<exists>r \<in> set (pt_pins tables). dp_challenge r = pk_id c)) \<and>
    (\<forall>w t. length (filter (\<lambda>r. dp_wallet r = w \<and> in_day t r) (pt_pins tables)) \<le> limit) \<and>
    (\<forall>i t. length (filter (\<lambda>r. dp_ip r = i \<and> in_day t r) (pt_pins tables)) \<le> limit)"
proof -
  have ok: "pins_ok limit tables" using pins_stay_ok [OF assms no_pins_ok] .
  then have "sorted_wrt (\<lambda>r q. \<not> same_pin r q) (pt_pins tables)" by (simp add: pins_ok_def pin_table.consistent_def)
  then have "sorted_wrt (\<lambda>r q. dp_challenge r \<noteq> dp_challenge q) (pt_pins tables)"
    by (rule sorted_wrt_mono_rel [rotated]) (simp add: same_pin_def)
  then have "distinct (map dp_challenge (pt_pins tables))" by (simp only: distinct_map_sorted_wrt)
  then show ?thesis using ok by (simp add: pins_ok_def within_quota_def)
qed

definition demo_wallet :: jstr where "demo_wallet = lit ''rrrrrrrrrrrrrrrrrrrrrrrrrr''"

definition demo_challenge :: pin_challenge where
  "demo_challenge = \<lparr>pk_id = pilot_hash, pk_profile = lit ''t'', pk_wallet = demo_wallet, pk_ip = issue_hash CHR ''c'',
     pk_message = lit ''m'', pk_expires = 300000, pk_used = None, pk_created = 1\<rparr>"

definition demo_reservation :: pin_reservation where
  "demo_reservation = \<lparr>pr_pin = issue_hash CHR ''b'', pr_challenge = pilot_hash, pr_profile = lit ''t'', pr_wallet = demo_wallet,
     pr_ip = issue_hash CHR ''c'', pr_cid = lit ''ba'', pr_length = 1, pr_expires = 1000 + PIN_TTL_MS, pr_now = 1000, pr_limit = DAILY_LIMIT\<rparr>"

definition demo_tables :: pin_tables where
  "demo_tables = \<lparr>pt_challenges = [demo_challenge\<lparr>pk_used := Some 1000\<rparr>], pt_pins = [reserved_pin demo_reservation]\<rparr>"

lemma demo_rows: "pin_challenge_ok demo_challenge" "demo_pin_ok (reserved_pin demo_reservation)"
proof -
  have hashes: "hash64 pilot_hash" "hash64 (issue_hash CHR ''c'')" "hash64 (issue_hash CHR ''b'')"
    by (simp_all add: pilot_hash_ok)
  have wallet: "address_pattern demo_wallet"
    by (simp add: address_pattern_def demo_wallet_def lit_def is_base58_def between_def ch_def)
  show "pin_challenge_ok demo_challenge"
    using hashes wallet by (simp add: pin_challenge_ok_def demo_challenge_def) (simp add: storable_text_def lit_def)
  have "cid_pattern (lit ''ba'')" by (simp add: cid_pattern_def lit_def ch_def is_base32_def class_unat between_def)
  then show "demo_pin_ok (reserved_pin demo_reservation)"
    using hashes wallet by (simp add: demo_pin_ok_def reserved_pin_def demo_reservation_def)
qed

theorem demo_pins_are_limited_witness:
  "(pin_step DAILY_LIMIT)\<^sup>*\<^sup>* \<lparr>pt_challenges = [], pt_pins = []\<rparr> demo_tables \<and>
   bought_by (demo_challenge\<lparr>pk_used := Some 1000\<rparr>) (reserved_pin demo_reservation)"
proof -
  let ?db = "empty_database\<lparr>db_profiles := [profile_row_of pilot_profile]\<rparr>"
  let ?asked = "\<lparr>pt_challenges = [demo_challenge], pt_pins = []\<rparr>"
  have known: "has_profile ?db (lit ''t'')" by (simp add: has_profile_def profile_row_of_def pilot_profile_def)
  have "create_challenge ?db demo_challenge \<lparr>pt_challenges = [], pt_pins = []\<rparr> = Inr ?asked"
    using demo_rows known by (simp add: create_challenge_def insert_row_def query_def) (simp add: demo_challenge_def)
  then have one: "pin_step DAILY_LIMIT \<lparr>pt_challenges = [], pt_pins = []\<rparr> ?asked"
    by (rule pin_step.challenge) (simp add: demo_challenge_def)
  have used: "use_challenge pilot_hash 1000 [demo_challenge] = Inr [demo_challenge\<lparr>pk_used := Some 1000\<rparr>]"
    using demo_rows(1) by (simp add: use_challenge_def update_rows_def pin_challenge_ok_def) (simp add: demo_challenge_def)
  have challenge: "get_challenge ?asked pilot_hash = Some demo_challenge" by (simp add: get_challenge_def demo_challenge_def)
  have "reserve_pin ?db demo_reservation ?asked = Inr (reserved_pin demo_reservation, demo_tables)"
    using demo_rows(2) known
    by (simp add: reserve_pin_def demo_reservation_def challenge used quota_used_def DAILY_LIMIT_def insert_row_def query_def demo_tables_def Let_def)
      (simp add: demo_challenge_def)
  then have two: "pin_step DAILY_LIMIT ?asked demo_tables" by (rule pin_step.reserve) (simp add: demo_reservation_def)
  have run: "(pin_step DAILY_LIMIT)\<^sup>*\<^sup>* \<lparr>pt_challenges = [], pt_pins = []\<rparr> demo_tables" using one two by simp
  then show ?thesis using demo_pins_are_limited [OF run] by (simp add: demo_tables_def)
qed

section \<open>Pins\<close>

text \<open>
  C37. What a pin takes. The service answers a request exactly when its challenge can be redeemed by this wallet, on this network and from this
  address, the wallet has signed its message, the content is a canonical payload issued by the wallet to some subject under a
  schema that the server resolves with authority, no field name looks like personal data, the CID is that of the content,
  the quotas and the tables have room, and the store took the content; the answer names that CID and an expiry in 90 days.
\<close>

theorem pin_answers_iff:
  "fst (service_pin lib tools opts db now later pin_id req tables held) = Inr reply \<longleftrightarrow>
     (\<exists>c content. let cid = content_cid lib content; input = pin_reservation_of tools opts req now pin_id content cid in
        get_challenge tables (pq_challenge req) = Some c \<and> redeemable tools opts req now c \<and> pin_grounds lib tools opts db req c content \<and>
        within_limits input tables \<and> fits_tables (database.truncate db) input tables \<and> fst (put_raw tools content cid held) \<and>
        reply = \<lparr>py_uri = lit ''ipfs://'' @ cid, py_cid = cid, py_length = length content, py_expires = now + PIN_TTL_MS\<rparr>)"
  by (rule pin_answers)

section \<open>Sweeps\<close>





section \<open>Payloads\<close>

text \<open>
  C40. Payloads come from public places. Resolving a URI makes at most three requests, each to an HTTPS URL without credentials
  and on a connection pinned to a public address, which is the literal host of the URL or one of the addresses, all of
  them public, that a lookup of its host gave in the same round; what is returned is at most 1 MiB, an HTTPS payload starts from the fetch URL of the
  URI, and an IPFS payload makes no such request.
\<close>

theorem payload_requests_are_public:
  "case resolve_payload lib tools gateway uri of (result, requests) \<Rightarrow>
     public_requests tools 0 requests \<and> length requests \<le> 3 \<and>
     (case result of
        Inl _ \<Rightarrow> True
      | Inr bytes \<Rightarrow> length bytes \<le> MAX_PAYLOAD_BYTES \<and>
          (case parse_payload_uri lib uri of
             Inl _ \<Rightarrow> False
           | Inr (Ipfs _ _ _) \<Rightarrow> requests = []
           | Inr (Https _ target _) \<Rightarrow> requests \<noteq> [] \<and> parse_url lib target = Some (fst (hd requests))))"
proof (cases "parse_payload_uri lib uri")
  case (Inr parsed)
  show ?thesis
  proof (cases parsed)
    case (Https a target d)
    show ?thesis
    proof (cases "parse_url lib target")
      case (Some url)
      obtain result requests where run: "fetch_pinned tools 0 url = (result, requests)" by (cases "fetch_pinned tools 0 url") simp
      then show ?thesis using fetch_pinned_public [OF run] Inr Https Some
        by (auto simp: resolve_payload_def MAX_REDIRECTS_def split: sum.splits)
    qed (simp add: resolve_payload_def Inr Https)
  next
    case (Ipfs a cid d)
    then show ?thesis using Inr read_response_bounded
      by (auto simp: resolve_payload_def fetch_configured_gateway_def split: sum.splits option.splits)
  qed
qed (simp add: resolve_payload_def)

section \<open>Metrics\<close>

text \<open>
  Further guarantee: Monitoring says what the server does. Over well-formed tables every row of the metrics query passes its validation and is shown with
  the values of the tables, and a network is published as ready exactly when the readiness check of the handlers passes
  for it at the time of the database and with the same allowed age.
\<close>

theorem ready_metric_agrees:
  assumes "metrics_tables_ok db" and "n \<in> set (list_networks db)"
  shows "\<exists>pm. profile_snapshot (metrics_row_of db halted_at n) = Inr pm \<and> pm = profile_shown db halted_at n \<and>
    (um_ready (public_profile lib pm (sn_now db) age) \<longleftrightarrow>
       is_ok (network_readiness lib \<lparr>ao_clock = None, ao_max_age = Some (NInt age)\<rparr> db n))"
  using profile_snapshot_shown [OF assms] readiness_agrees [OF assms] by (simp add: public_profile_def Let_def)

theorem ready_metric_agrees_witness:
  "\<exists>pm. profile_snapshot (metrics_row_of issue_snapshot (\<lambda>_. 0) (profile_row_of pilot_profile)) = Inr pm \<and>
     um_ready (public_profile (sample_server []) pm 0 120)"
proof -
  let ?n = "profile_row_of pilot_profile"
  have name: "np_id ?n = lit ''t''" "profile_id_pattern (lit ''t'')"
    by (simp_all add: profile_row_of_def pilot_profile_def profile_id_pattern_def lit_def is_lower_def between_def)
  have checkpoint: "checkpoint_row_ok issue_checkpoint"
    using pilot_checkpoint_ok by (simp add: checkpoint_row_ok_def checkpoint_row_of_def issue_ledger_def int4_range_def)
  have status: "status_row_ok (running_row Ready True)"
    by (rule running_row_ok) simp
  have incidents: "db_incidents issue_snapshot = []"
    by (simp add: issue_snapshot_def database.defs issue_database_def registered_database_def pilot_database_def empty_database_def)
  have tables: "metrics_tables_ok issue_snapshot"
    using name checkpoint status incidents by (simp add: metrics_tables_ok_def issue_activation uint32_range_def MAX_SAFE_INTEGER_def)
  have listed: "?n \<in> set (list_networks issue_snapshot)" by (simp add: list_networks_def)
  have "network_readiness (sample_server []) \<lparr>ao_clock = None, ao_max_age = Some (NInt 120)\<rparr> issue_snapshot ?n = Inr issue_checkpoint"
    using issue_authoritative [of "[]" "[]"]
    by (simp add: network_readiness_def Let_def name authoritative_time_def current_time_def preflight_authoritative_read_def issue_status
        issue_ready require_authoritative_checkpoint_def issue_latest max_ledger_age_seconds_def issue_activation DEFAULT_LEDGER_MAX_AGE_SECONDS_def)
  then show ?thesis
    using ready_metric_agrees [OF tables listed, of "\<lambda>_. 0" "sample_server []" 120] by auto
qed

end
