(* ===== verification/App_Publication.thy ===== *)
theory App_Publication
  imports Server_Content Indexer_Source
begin

text \<open>
  How the web application reads a published payload in the browser (\<open>apps/web/app/utils/payloadPublication.ts\<close>).
  \<open>fetch\<close> is a function from the URL to what the browser answers. Main result: a payload that is read is canonical,
  bounded and has the digest of its URI, and what is published is the very payload that was issued.
\<close>

section \<open>Errors and answers\<close>

text \<open>Errors of the application by their message; what a call of the protocol library throws is kept as such.\<close>

datatype app_error = App_Error string | Http_Status nat | Core_Error cerr

definition core_call :: "cerr + 'a \<Rightarrow> app_error + 'a" where
  "core_call m = (case m of Inl e \<Rightarrow> Inl (Core_Error e) | Inr x \<Rightarrow> Inr x)"

lemma core_call_Inr [simp]: "core_call m = Inr x \<longleftrightarrow> m = Inr x"
  by (cases m) (simp_all add: core_call_def)

lemma core_call_simps [simp]: "core_call (Inr x) = Inr x" "core_call (Inl e) = Inl (Core_Error e)"
  by (simp_all add: core_call_def)

text \<open>
  A body is given whole (\<open>arrayBuffer\<close>, \<open>None\<close> when it fails) or as a stream that may break. \<open>br_timed_out\<close> says whether the
  timer fired before the body was read.
\<close>

datatype browser_body = Whole "byte list option" | Streamed "byte list list" bool

record browser_response =
  br_status :: nat
  br_redirected :: bool
  br_opaque_redirect :: bool
  br_url :: jstr
  br_content_type :: "jstr option"
  br_content_length :: "jstr option"
  br_body :: browser_body
  br_timed_out :: bool

datatype browser_fetch = Answered browser_response | Fetch_Broke bool

record payload_read =
  rd_content :: jstr
  rd_url :: jstr
  rd_digest :: jstr
  rd_length :: nat
  rd_checked :: jstr

record publication_proof =
  pp_url :: jstr
  pp_digest :: jstr
  pp_length :: nat
  pp_checked :: jstr
  pp_uri :: jstr

text \<open>\<open>timeoutMs\<close>, \<open>maxBytes\<close> and the clock; without a \<open>fetch\<close> nothing is read.\<close>

record read_options =
  ro_fetch :: "(jstr \<Rightarrow> browser_fetch) option"
  ro_timeout_ms :: "int option"
  ro_max_bytes :: "int option"
  ro_now :: jstr

definition MAX_PILOT_PAYLOAD_BYTES :: int where "MAX_PILOT_PAYLOAD_BYTES = 1024 * 1024"
definition DEFAULT_PAYLOAD_FETCH_TIMEOUT_MS :: int where "DEFAULT_PAYLOAD_FETCH_TIMEOUT_MS = 10000"

definition validated_positive_integer :: "int \<Rightarrow> string \<Rightarrow> app_error + int" where
  "validated_positive_integer v code = (if v \<le> 0 \<or> MAX_SAFE_INTEGER < v then Inl (App_Error code) else Inr v)"

section \<open>Hosts\<close>

definition same_url :: "'x core_lib_scheme \<Rightarrow> jstr \<Rightarrow> jstr \<Rightarrow> bool" where
  "same_url lib a b =
     (case (parse_url lib a, parse_url lib b) of (Some u, Some v) \<Rightarrow> url_href u = url_href v | _ \<Rightarrow> False)"

definition ends_in :: "jstr \<Rightarrow> jstr \<Rightarrow> bool" where
  "ends_in s ending \<longleftrightarrow> length ending \<le> length s \<and> drop (length s - length ending) s = ending"

definition is_json_content_type :: "jstr option \<Rightarrow> bool" where
  "is_json_content_type v =
     (case v of
        None \<Rightarrow> False
      | Some s \<Rightarrow>
          let media = to_lower (js_trim (hd (split_on (ch CHR '';'') s))) in
          media = lit ''application/json'' \<or> ends_in media (lit ''+json''))"

text \<open>The patterns \<open>/^\d{1,3}(?:\.\d{1,3}){3}$/\<close> and \<open>/^\[.*\]$/\<close>, whose dot is no line terminator.\<close>

definition decimal_byte :: "jstr \<Rightarrow> bool" where
  "decimal_byte s \<longleftrightarrow> 1 \<le> length s \<and> length s \<le> 3 \<and> list_all is_digit s"

definition ipv4_literal :: "jstr \<Rightarrow> bool" where
  "ipv4_literal s \<longleftrightarrow> length (split_on (ch CHR ''.'') s) = 4 \<and> list_all decimal_byte (split_on (ch CHR ''.'') s)"

definition line_terminator :: "cu \<Rightarrow> bool" where
  "line_terminator c \<longleftrightarrow> c \<in> {10, 13, 0x2028, 0x2029}"

definition bracketed :: "jstr \<Rightarrow> bool" where
  "bracketed s \<longleftrightarrow> 2 \<le> length s \<and> hd s = ch CHR ''['' \<and> List.last s = ch CHR '']'' \<and> \<not> list_ex line_terminator (butlast (tl s))"

definition without_final_dot :: "jstr \<Rightarrow> jstr" where
  "without_final_dot s = (if s \<noteq> [] \<and> List.last s = ch CHR ''.'' then butlast s else s)"

definition local_hostname :: "jstr \<Rightarrow> bool" where
  "local_hostname hostname \<longleftrightarrow>
     (let s = without_final_dot (to_lower hostname) in
      s = lit ''localhost'' \<or>
      list_ex (\<lambda>ending. ends_in s (lit ending)) [''.localhost'', ''.local'', ''.internal'', ''.lan''] \<or>
      ipv4_literal s \<or> ch CHR '':'' \<in> set s \<or> bracketed s)"

definition assert_pilot_public_payload_hostname :: "jstr \<Rightarrow> app_error + unit" where
  "assert_pilot_public_payload_hostname hostname =
     (if local_hostname hostname then Inl (App_Error ''PILOT_PAYLOAD_HOST_REJECTED'') else Inr ())"

definition inspect_pilot_https_payload_host :: "'x core_lib_scheme \<Rightarrow> jstr \<Rightarrow> app_error + jstr" where
  "inspect_pilot_https_payload_host lib uri =
     rbind (core_call (parse_payload_uri lib uri)) (\<lambda>parsed.
     case parsed of
       Ipfs _ _ _ \<Rightarrow> Inl (App_Error ''PILOT_HTTPS_PAYLOAD_REQUIRED'')
     | Https _ target _ \<Rightarrow>
         (case parse_url lib target of
            None \<Rightarrow> Inl (Core_Error HostErr)
          | Some url \<Rightarrow>
              rbind (assert_pilot_public_payload_hostname (url_hostname url)) (\<lambda>_. Inr (url_hostname url))))"

section \<open>Reading\<close>

definition read_response_bytes :: "browser_response \<Rightarrow> int \<Rightarrow> app_error + byte list" where
  "read_response_bytes response max_bytes =
     (let declared = (case br_content_length response of
            None \<Rightarrow> Inr ()
          | Some s \<Rightarrow>
              if s = [] \<or> \<not> list_all is_digit s then Inl (App_Error ''PAYLOAD_CONTENT_LENGTH_INVALID'')
              else if max_bytes < int (dec_value s) then Inl (App_Error ''PAYLOAD_TOO_LARGE'')
              else Inr ())
      in
      rbind declared (\<lambda>_.
      case br_body response of
        Whole None \<Rightarrow> Inl (Core_Error HostErr)
      | Whole (Some bytes) \<Rightarrow> if max_bytes < int (length bytes) then Inl (App_Error ''PAYLOAD_TOO_LARGE'') else Inr bytes
      | Streamed chunks breaks \<Rightarrow>
          read_up_to (nat max_bytes) (App_Error ''PAYLOAD_TOO_LARGE'') (if breaks then Some (Core_Error HostErr) else None) chunks []))"

text \<open>The checks on an answer before its body is read.\<close>

definition check_response :: "'x core_lib_scheme \<Rightarrow> jstr \<Rightarrow> browser_response \<Rightarrow> app_error + unit" where
  "check_response lib target response =
     (if br_status response < 200 \<or> 300 \<le> br_status response then Inl (Http_Status (br_status response))
      else if br_redirected response \<or> br_opaque_redirect response then Inl (App_Error ''PAYLOAD_REDIRECT_REJECTED'')
      else if br_url response \<noteq> [] \<and> \<not> same_url lib (br_url response) target then Inl (App_Error ''PAYLOAD_FINAL_URL_MISMATCH'')
      else if \<not> is_json_content_type (br_content_type response) then Inl (App_Error ''PAYLOAD_CONTENT_TYPE_INVALID'')
      else Inr ())"

definition accept_payload :: "'x core_lib_scheme \<Rightarrow> jstr \<Rightarrow> jstr \<Rightarrow> jstr \<Rightarrow> byte list \<Rightarrow> app_error + payload_read" where
  "accept_payload lib uri target now bytes =
     rbind (core_call (decode_utf8 bytes)) (\<lambda>content.
     rbind (core_call (parse_json lib (Text content))) (\<lambda>parsed.
     rbind (core_call (canonical_json lib parsed)) (\<lambda>canonical.
     if canonical \<noteq> content then Inl (App_Error ''PAYLOAD_NOT_CANONICAL_JCS'')
     else
       rbind (core_call (verify_payload_integrity lib (Bytes bytes) uri)) (\<lambda>integrity.
       if \<not> integrity_valid integrity then Inl (App_Error ''PAYLOAD_DIGEST_MISMATCH'')
       else Inr \<lparr>rd_content = content, rd_url = target, rd_digest = actual_digest_hex integrity, rd_length = length bytes,
              rd_checked = now\<rparr>))))"

definition read_answer ::
  "'x core_lib_scheme \<Rightarrow> jstr \<Rightarrow> jstr \<Rightarrow> jstr \<Rightarrow> int \<Rightarrow> browser_fetch \<Rightarrow> app_error + payload_read" where
  "read_answer lib uri target now max_bytes outcome =
     (case outcome of
        Fetch_Broke aborted \<Rightarrow> Inl (App_Error (if aborted then ''PAYLOAD_FETCH_TIMEOUT'' else ''PAYLOAD_FETCH_FAILED''))
      | Answered response \<Rightarrow>
          rbind (check_response lib target response) (\<lambda>_.
          rbind (attempt (read_response_bytes response max_bytes)
                   (\<lambda>e. Inl (if br_timed_out response then App_Error ''PAYLOAD_FETCH_TIMEOUT'' else e))) (\<lambda>bytes.
          accept_payload lib uri target now bytes)))"

text \<open>What a read asks of the network, once the arguments are checked: the URL, the limit and \<open>fetch\<close>.\<close>

definition plan_read :: "'x core_lib_scheme \<Rightarrow> read_options \<Rightarrow> jstr \<Rightarrow> app_error + jstr \<times> int \<times> (jstr \<Rightarrow> browser_fetch)" where
  "plan_read lib options uri =
     rbind (core_call (parse_payload_uri lib uri)) (\<lambda>parsed.
     case parsed of
       Ipfs _ _ _ \<Rightarrow> Inl (App_Error ''PILOT_HTTPS_PAYLOAD_REQUIRED'')
     | Https _ target _ \<Rightarrow>
         rbind (inspect_pilot_https_payload_host lib uri) (\<lambda>_.
         rbind (validated_positive_integer
             (case ro_max_bytes options of None \<Rightarrow> MAX_PILOT_PAYLOAD_BYTES | Some n \<Rightarrow> n) ''PAYLOAD_MAX_BYTES_INVALID'') (\<lambda>max_bytes.
         rbind (validated_positive_integer
             (case ro_timeout_ms options of None \<Rightarrow> DEFAULT_PAYLOAD_FETCH_TIMEOUT_MS | Some n \<Rightarrow> n) ''PAYLOAD_TIMEOUT_INVALID'') (\<lambda>_.
         case ro_fetch options of
           None \<Rightarrow> Inl (App_Error ''PAYLOAD_FETCH_UNAVAILABLE'')
         | Some fetch \<Rightarrow> Inr (target, max_bytes, fetch)))))"

text \<open>The result and the URLs that were requested.\<close>

definition read_canonical_https_payload ::
  "'x core_lib_scheme \<Rightarrow> read_options \<Rightarrow> jstr \<Rightarrow> (app_error + payload_read) \<times> jstr list" where
  "read_canonical_https_payload lib options uri =
     (case plan_read lib options uri of
        Inl e \<Rightarrow> (Inl e, [])
      | Inr (target, max_bytes, fetch) \<Rightarrow>
          (read_answer lib uri target (ro_now options) max_bytes (fetch target), [target]))"

definition verify_https_payload_publication ::
  "'x core_lib_scheme \<Rightarrow> read_options \<Rightarrow> jstr \<Rightarrow> jstr \<Rightarrow> app_error + publication_proof" where
  "verify_https_payload_publication lib options uri canonical_payload =
     (let expected = encode_utf8 canonical_payload in
      if (case ro_max_bytes options of None \<Rightarrow> MAX_PILOT_PAYLOAD_BYTES | Some n \<Rightarrow> n) < int (length expected)
      then Inl (App_Error ''PAYLOAD_TOO_LARGE'')
      else
        rbind (fst (read_canonical_https_payload lib options uri)) (\<lambda>payload.
        let actual = encode_utf8 (rd_content payload) in
        if length actual \<noteq> length expected \<or> list_ex (\<lambda>i. actual ! i \<noteq> expected ! i) [0..<length actual]
        then Inl (App_Error ''PUBLISHED_PAYLOAD_BYTES_MISMATCH'')
        else Inr \<lparr>pp_url = rd_url payload, pp_digest = rd_digest payload, pp_length = rd_length payload,
               pp_checked = rd_checked payload, pp_uri = uri\<rparr>))"

section \<open>What is read\<close>

lemma read_response_bytes_bounded:
  "read_response_bytes response max_bytes = Inr bytes \<Longrightarrow> 0 \<le> max_bytes \<Longrightarrow> int (length bytes) \<le> max_bytes"
  by (auto simp: read_response_bytes_def Let_def res_simps read_up_to_Inr split: option.splits browser_body.splits if_splits)

text \<open>The bytes a URI names: the canonical text of a value, with the digest of the URI.\<close>

definition payload_of_uri :: "'x core_lib_scheme \<Rightarrow> jstr \<Rightarrow> byte list \<Rightarrow> bool" where
  "payload_of_uri lib uri bytes \<longleftrightarrow>
     is_ok (parse_canonical_json lib (Bytes bytes)) \<and>
     (\<exists>r. verify_payload_integrity lib (Bytes bytes) uri = Inr r \<and> integrity_valid r)"

lemma accept_payload_Inr:
  assumes "accept_payload lib uri target now bytes = Inr r"
  shows "payload_of_uri lib uri bytes \<and> encode_utf8 (rd_content r) = bytes \<and> rd_url r = target \<and> rd_length r = length bytes \<and>
    rd_digest r = sha256_hex lib bytes"
proof -
  obtain content parsed integrity where content: "decode_utf8 bytes = Inr content"
    and parsed: "parse_json lib (Text content) = Inr parsed" and canonical: "canonical_json lib parsed = Inr content"
    and integrity: "verify_payload_integrity lib (Bytes bytes) uri = Inr integrity" "integrity_valid integrity"
    and r: "r = \<lparr>rd_content = content, rd_url = target, rd_digest = actual_digest_hex integrity, rd_length = length bytes,
      rd_checked = now\<rparr>"
    using assms by (auto simp: accept_payload_def res_simps)
  have "parse_canonical_json lib (Bytes bytes) = Inr parsed"
    using content parsed canonical by (simp add: parse_canonical_json_Inr content_text_def)
  moreover have "encode_utf8 content = bytes"
    using content by (auto simp: decode_utf8_def dest: text_decode_SomeD split: option.splits)
  moreover have "actual_digest_hex integrity = sha256_hex lib bytes"
    using integrity(1) by (auto simp: verify_payload_integrity_def res_simps payload_digest_def payload_bytes_def sha256_hex_def split: if_splits)
  ultimately show ?thesis using integrity r by (auto simp: payload_of_uri_def is_ok_iff)
qed

lemma plan_read_Inr:
  assumes "plan_read lib options uri = Inr (target, max_bytes, fetch)"
  shows "\<exists>digest url. parse_payload_uri lib uri = Inr (Https uri target digest) \<and> parse_url lib target = Some url \<and>
    \<not> local_hostname (url_hostname url) \<and> 0 < max_bytes \<and>
    max_bytes = (case ro_max_bytes options of None \<Rightarrow> MAX_PILOT_PAYLOAD_BYTES | Some n \<Rightarrow> n)"
proof -
  obtain parsed where uri: "parse_payload_uri lib uri = Inr parsed"
    using assms unfolding plan_read_def rbind_eq_Inr core_call_Inr by (elim exE conjE) (rule that)
  then obtain digest where parsed: "parsed = Https uri target digest"
    using assms parse_payload_uri_text [OF uri] by (cases parsed) (auto simp: plan_read_def res_simps split: option.splits)
  then obtain host where "inspect_pilot_https_payload_host lib uri = Inr host"
    using assms uri by (auto simp: plan_read_def res_simps)
  then obtain url where "parse_url lib target = Some url" "\<not> local_hostname (url_hostname url)"
    using uri parsed
    by (auto simp: inspect_pilot_https_payload_host_def assert_pilot_public_payload_hostname_def res_simps split: if_splits)
  moreover have "validated_positive_integer (case ro_max_bytes options of None \<Rightarrow> MAX_PILOT_PAYLOAD_BYTES | Some n \<Rightarrow> n)
      ''PAYLOAD_MAX_BYTES_INVALID'' = Inr max_bytes"
    using assms uri parsed by (auto simp: plan_read_def res_simps simp del: option.case)
  ultimately show ?thesis using uri parsed by (auto simp: validated_positive_integer_def split: if_splits)
qed

text \<open>A request goes to a public host over HTTPS, and only to the URL the Credential URI names.\<close>

lemma read_canonical_requests:
  assumes "read_canonical_https_payload lib options uri = (result, requests)" and "requests \<noteq> []"
  shows "\<exists>target digest url. parse_payload_uri lib uri = Inr (Https uri target digest) \<and> requests = [target] \<and>
    parse_url lib target = Some url \<and> \<not> local_hostname (url_hostname url)"
  using assms unfolding read_canonical_https_payload_def by (auto split: sum.splits dest!: plan_read_Inr)

lemma read_canonical_Inr:
  assumes "read_canonical_https_payload lib options uri = (Inr r, requests)"
  shows "\<exists>target digest bytes. parse_payload_uri lib uri = Inr (Https uri target digest) \<and> requests = [target] \<and> rd_url r = target \<and>
    payload_of_uri lib uri bytes \<and> encode_utf8 (rd_content r) = bytes \<and> rd_length r = length bytes \<and>
    rd_digest r = sha256_hex lib bytes \<and>
    int (length bytes) \<le> (case ro_max_bytes options of None \<Rightarrow> MAX_PILOT_PAYLOAD_BYTES | Some n \<Rightarrow> n)"
proof -
  obtain target max_bytes fetch where plan: "plan_read lib options uri = Inr (target, max_bytes, fetch)"
    and answer: "read_answer lib uri target (ro_now options) max_bytes (fetch target) = Inr r" and req: "requests = [target]"
    using assms unfolding read_canonical_https_payload_def by (auto split: sum.splits)
  obtain response bytes where bytes: "read_response_bytes response max_bytes = Inr bytes"
    and acc: "accept_payload lib uri target (ro_now options) bytes = Inr r"
    using answer by (auto simp: read_answer_def res_simps attempt_def split: browser_fetch.splits sum.splits)
  obtain digest where uri: "parse_payload_uri lib uri = Inr (Https uri target digest)" and pos: "0 \<le> max_bytes"
    and max: "max_bytes = (case ro_max_bytes options of None \<Rightarrow> MAX_PILOT_PAYLOAD_BYTES | Some n \<Rightarrow> n)"
    using plan_read_Inr [OF plan] by auto
  have "int (length bytes) \<le> (case ro_max_bytes options of None \<Rightarrow> MAX_PILOT_PAYLOAD_BYTES | Some n \<Rightarrow> n)"
    using read_response_bytes_bounded [OF bytes pos] unfolding max .
  then show ?thesis using accept_payload_Inr [OF acc] uri req by blast
qed

lemma same_bytes: "\<not> (length a \<noteq> length b \<or> list_ex (\<lambda>i. a ! i \<noteq> b ! i) [0..<length a]) \<longleftrightarrow> a = b"
proof -
  have "list_ex (\<lambda>i. a ! i \<noteq> b ! i) [0..<length a] \<longleftrightarrow> (\<exists>i < length a. a ! i \<noteq> b ! i)"
    by (auto simp: list_ex_iff)
  then show ?thesis unfolding list_eq_iff_nth_eq by blast
qed

lemma verified_publication:
  assumes "verify_https_payload_publication lib options uri canonical_payload = Inr p"
  shows "payload_of_uri lib uri (encode_utf8 canonical_payload) \<and> pp_uri p = uri \<and>
    pp_digest p = sha256_hex lib (encode_utf8 canonical_payload) \<and> pp_length p = length (encode_utf8 canonical_payload) \<and>
    (\<exists>target digest url. parse_payload_uri lib uri = Inr (Https uri target digest) \<and> pp_url p = target \<and>
      parse_url lib target = Some url \<and> \<not> local_hostname (url_hostname url))"
proof -
  obtain r where r: "fst (read_canonical_https_payload lib options uri) = Inr r"
    and same: "encode_utf8 (rd_content r) = encode_utf8 canonical_payload"
    and p: "\<lparr>pp_url = rd_url r, pp_digest = rd_digest r, pp_length = rd_length r, pp_checked = rd_checked r, pp_uri = uri\<rparr> = p"
    using assms unfolding verify_https_payload_publication_def Let_def if_Inl_eq_Inr rbind_eq_Inr same_bytes
    by (elim exE conjE) (rule that, simp_all)
  obtain requests where run: "read_canonical_https_payload lib options uri = (Inr r, requests)"
    using r by (cases "read_canonical_https_payload lib options uri") simp
  obtain target digest bytes where uri: "parse_payload_uri lib uri = Inr (Https uri target digest)" and req: "requests = [target]"
    and url: "rd_url r = target" and bytes: "payload_of_uri lib uri bytes" "bytes = encode_utf8 canonical_payload"
      "rd_length r = length bytes" "rd_digest r = sha256_hex lib bytes"
    using read_canonical_Inr [OF run] same by auto
  obtain parsed where "parse_url lib target = Some parsed" "\<not> local_hostname (url_hostname parsed)"
    using read_canonical_requests [OF run] req by auto
  with uri url bytes show ?thesis by (auto simp flip: p)
qed

end
