(* ===== verification/App_Review.thy ===== *)
theory App_Review
  imports App_Publication App_Confirmation
begin

text \<open>
  Reviewing a credential in the web application before it is accepted, rejected or removed
  (\<open>apps/web/app/utils/credentialReview.ts\<close> and \<open>credentialEvidence.ts\<close>): the answers of the read API as untrusted input, the
  consent to fetch a payload, the decision on an unknown issuer, and what is checked again once the wallet has signed.
\<close>

section \<open>Reports and credentials\<close>

datatype on_chain = Is_Pending | Is_Active | Is_Expired | Is_Deleted | Not_Found
datatype schema_check = Schema_Valid | Schema_Invalid | Schema_Unknown
datatype payload_check = Payload_Valid | Payload_Absent | Payload_Tampered | Payload_Bad | Not_Checked
datatype issuer_standing = Is_Trusted | Is_Untrusted | Standing_Unknown

definition ON_CHAIN_STATUSES :: "(jstr \<times> on_chain) list" where
  "ON_CHAIN_STATUSES =
     [(lit ''pending'', Is_Pending), (lit ''active'', Is_Active), (lit ''expired'', Is_Expired), (lit ''deleted'', Is_Deleted),
      (lit ''not_found'', Not_Found)]"

definition SCHEMA_STATUSES :: "(jstr \<times> schema_check) list" where
  "SCHEMA_STATUSES = [(lit ''valid'', Schema_Valid), (lit ''invalid'', Schema_Invalid), (lit ''unknown'', Schema_Unknown)]"

definition PAYLOAD_STATUSES :: "(jstr \<times> payload_check) list" where
  "PAYLOAD_STATUSES =
     [(lit ''valid'', Payload_Valid), (lit ''unavailable'', Payload_Absent), (lit ''tampered'', Payload_Tampered),
      (lit ''invalid'', Payload_Bad), (lit ''not_checked'', Not_Checked)]"

definition TRUST_STATUSES :: "(jstr \<times> issuer_standing) list" where
  "TRUST_STATUSES =
     [(lit ''trusted'', Is_Trusted), (lit ''untrusted'', Is_Untrusted), (lit ''unknown'', Standing_Unknown)]"

record verification_dimensions =
  vd_on_chain :: on_chain
  vd_schema :: schema_check
  vd_payload :: payload_check
  vd_trust :: issuer_standing
  vd_generation :: "jstr option"

record api_credential =
  ac_generation :: jstr
  ac_issuer :: jstr
  ac_subject :: jstr
  ac_schema_uid :: jstr
  ac_uri_hex :: "jstr option"
  ac_expiration :: "int option"
  ac_accepted :: bool
  ac_state :: on_chain

text \<open>\<open>CredentialMutationReview\<close>, extended by \<open>CredentialReview\<close>.\<close>

record mutation_review =
  cr_generation :: jstr
  cr_issuer :: jstr
  cr_subject :: jstr
  cr_schema_uid :: jstr
  cr_uri :: "jstr option"
  cr_expiration :: "jstr option"
  cr_accepted :: bool
  cr_state :: on_chain

record credential_review = mutation_review +
  cr_payload :: "credential_payload option"
  cr_claims :: "jsval option"
  cr_read :: "payload_read option"
  cr_review_error :: "jstr option"
  cr_report :: verification_dimensions

definition upper_char :: "char \<Rightarrow> char" where
  "upper_char c = (if 97 \<le> (of_char c :: nat) \<and> (of_char c :: nat) \<le> 122 then char_of (of_char c - 32 :: nat) else c)"

definition required_string :: "jsval \<Rightarrow> string \<Rightarrow> app_error + jstr" where
  "required_string record key =
     (case get record key of
        JStr s \<Rightarrow> if s = [] then Inl (App_Error (''CREDENTIAL_'' @ map upper_char key @ ''_INVALID'')) else Inr s
      | _ \<Rightarrow> Inl (App_Error (''CREDENTIAL_'' @ map upper_char key @ ''_INVALID'')))"

definition one_of :: "(jstr \<times> 'a) list \<Rightarrow> jsval \<Rightarrow> string \<Rightarrow> app_error + 'a" where
  "one_of allowed v code =
     (case v of
        JStr s \<Rightarrow> (case map_of allowed s of None \<Rightarrow> Inl (App_Error code) | Some x \<Rightarrow> Inr x)
      | _ \<Rightarrow> Inl (App_Error code))"

record credential_tuple =
  tu_issuer :: jstr
  tu_subject :: jstr
  tu_schema_uid :: jstr

definition parse_api_credential_detail :: "jsval \<Rightarrow> 'x credential_tuple_scheme \<Rightarrow> app_error + api_credential" where
  "parse_api_credential_detail input expected =
     (if \<not> is_record input then Inl (App_Error ''CREDENTIAL_RESPONSE_INVALID'')
      else
        rbind (required_string input ''generationId'') (\<lambda>generation.
        rbind (required_string input ''issuer'') (\<lambda>issuer.
        rbind (required_string input ''subject'') (\<lambda>subject.
        rbind (required_string input ''schemaUid'') (\<lambda>raw_uid.
        rbind (if get input ''uriHex'' = JNull then Inr None
               else rbind (required_string input ''uriHex'') (\<lambda>s. Inr (Some s))) (\<lambda>uri_hex.
        rbind (one_of ON_CHAIN_STATUSES (get input ''state'') ''CREDENTIAL_STATE_INVALID'') (\<lambda>state.
        let uid = to_lower raw_uid; expiration = get input ''expiration'' in
        if \<not> hash64_any generation then Inl (App_Error ''CREDENTIAL_GENERATION_ID_INVALID'')
        else if \<not> hash64 uid then Inl (App_Error ''CREDENTIAL_SCHEMA_UID_INVALID'')
        else if issuer \<noteq> tu_issuer expected \<or> subject \<noteq> tu_subject expected \<or> uid \<noteq> tu_schema_uid expected
        then Inl (App_Error ''CREDENTIAL_EXACT_LOOKUP_MISMATCH'')
        else if (case uri_hex of None \<Rightarrow> False | Some h \<Rightarrow> \<not> hex_pattern h) then Inl (App_Error ''CREDENTIAL_URI_HEX_INVALID'')
        else if expiration \<noteq> JNull \<and> \<not> is_uint32 expiration then Inl (App_Error ''CREDENTIAL_EXPIRATION_INVALID'')
        else
          case get input ''accepted'' of
            JBool acc \<Rightarrow>
              Inr \<lparr>ac_generation = to_lower generation, ac_issuer = issuer, ac_subject = subject, ac_schema_uid = uid,
                 ac_uri_hex = uri_hex, ac_expiration = (if expiration = JNull then None else Some (int_of expiration)),
                 ac_accepted = acc, ac_state = state\<rparr>
          | _ \<Rightarrow> Inl (App_Error ''CREDENTIAL_ACCEPTED_INVALID''))))))))"

definition decode_uri :: "'x core_lib_scheme \<Rightarrow> jstr option \<Rightarrow> app_error + jstr option" where
  "decode_uri lib hex =
     (case hex of None \<Rightarrow> Inr None | Some h \<Rightarrow> rbind (core_call (decode_hex_utf8 lib h)) (\<lambda>uri. Inr (Some uri)))"

definition show_expiration :: "'x core_lib_scheme \<Rightarrow> int option \<Rightarrow> app_error + jstr option" where
  "show_expiration lib e =
     (case e of None \<Rightarrow> Inr None | Some n \<Rightarrow> rbind (core_call (ripple_time_to_iso lib (NInt n))) (\<lambda>t. Inr (Some t)))"

definition expected_tuple :: "jstr \<Rightarrow> jstr \<Rightarrow> jstr \<Rightarrow> credential_tuple" where
  "expected_tuple issuer subject uid = \<lparr>tu_issuer = issuer, tu_subject = subject, tu_schema_uid = to_lower uid\<rparr>"

definition mutation_review_of :: "api_credential \<Rightarrow> jstr option \<Rightarrow> jstr option \<Rightarrow> mutation_review" where
  "mutation_review_of c uri expires =
     \<lparr>cr_generation = ac_generation c, cr_issuer = ac_issuer c, cr_subject = ac_subject c, cr_schema_uid = ac_schema_uid c,
      cr_uri = uri, cr_expiration = expires, cr_accepted = ac_accepted c, cr_state = ac_state c\<rparr>"

definition load_credential_mutation_review ::
  "'x core_lib_scheme \<Rightarrow> jsval \<Rightarrow> credential_tuple \<Rightarrow> app_error + mutation_review" where
  "load_credential_mutation_review lib input expected =
     rbind (parse_api_credential_detail input (expected\<lparr>tu_schema_uid := to_lower (tu_schema_uid expected)\<rparr>)) (\<lambda>c.
     rbind (decode_uri lib (ac_uri_hex c)) (\<lambda>uri.
     rbind (show_expiration lib (ac_expiration c)) (\<lambda>expiration.
     Inr (mutation_review_of c uri expiration))))"

definition parse_verification_dimensions :: "jsval \<Rightarrow> app_error + verification_dimensions" where
  "parse_verification_dimensions input =
     (if \<not> is_record input then Inl (App_Error ''VERIFICATION_RESPONSE_INVALID'')
      else
        rbind (one_of ON_CHAIN_STATUSES (get input ''onChain'') ''VERIFICATION_ON_CHAIN_INVALID'') (\<lambda>state.
        rbind (one_of SCHEMA_STATUSES (get input ''schema'') ''VERIFICATION_SCHEMA_INVALID'') (\<lambda>schema.
        rbind (one_of PAYLOAD_STATUSES (get input ''payload'') ''VERIFICATION_PAYLOAD_INVALID'') (\<lambda>payload.
        rbind (one_of TRUST_STATUSES (get input ''issuerTrust'') ''VERIFICATION_TRUST_INVALID'') (\<lambda>trust.
        let generation = get input ''generationId'' in
        if generation \<noteq> JUndef \<and> \<not> string_that hash64_any generation
        then Inl (App_Error ''VERIFICATION_GENERATION_ID_INVALID'')
        else Inr \<lparr>vd_on_chain = state, vd_schema = schema, vd_payload = payload, vd_trust = trust,
               vd_generation = (if generation = JUndef then None else Some (to_lower (str_of generation)))\<rparr>)))))"

section \<open>Loading a review\<close>

text \<open>
  A payload reader gives its result and what it requested of the network for it: \<open>readCanonicalHttpsPayload\<close>, or a reader that
  also knows the payloads stored in the browser.
\<close>

type_synonym payload_reader = "jstr \<Rightarrow> (app_error + payload_read) \<times> jstr list"

record review_options =
  lo_credential :: jsval
  lo_report :: jsval
  lo_issuer :: jstr
  lo_subject :: jstr
  lo_schema_uid :: jstr
  lo_schema :: "resolved_schema option"
  lo_reader :: payload_reader

definition review_metadata ::
  "'x core_lib_scheme \<Rightarrow> review_options \<Rightarrow> app_error + api_credential \<times> verification_dimensions \<times> jstr option" where
  "review_metadata lib options =
     rbind (parse_api_credential_detail (lo_credential options)
         (expected_tuple (lo_issuer options) (lo_subject options) (lo_schema_uid options))) (\<lambda>c.
     rbind (parse_verification_dimensions (lo_report options)) (\<lambda>report.
     if ac_state c \<noteq> vd_on_chain report then Inl (App_Error ''CREDENTIAL_REVIEW_STATE_MISMATCH'')
     else if vd_generation report \<noteq> None \<and> vd_generation report \<noteq> Some (ac_generation c)
     then Inl (App_Error ''CREDENTIAL_REVIEW_GENERATION_MISMATCH'')
     else rbind (decode_uri lib (ac_uri_hex c)) (\<lambda>uri. Inr (c, report, uri))))"

definition review_context :: "api_credential \<Rightarrow> resolved_schema \<Rightarrow> credential_context" where
  "review_context c schema =
     \<lparr>ctx_issuer = ac_issuer c, ctx_subject = ac_subject c, ctx_schema_uid = ac_schema_uid c,
      ctx_fields = resolved_fields schema\<rparr>"

definition fetch_review_payload ::
  "'x core_lib_scheme \<Rightarrow> review_options \<Rightarrow> api_credential \<Rightarrow> jstr option \<Rightarrow>
    (app_error + payload_read \<times> credential_payload) \<times> jstr list" where
  "fetch_review_payload lib options c uri =
     (case (uri, lo_schema options) of
        (None, _) \<Rightarrow> (Inl (App_Error ''CREDENTIAL_URI_REQUIRED''), [])
      | (Some u, None) \<Rightarrow> (Inl (App_Error ''CREDENTIAL_SCHEMA_UNAVAILABLE''), [])
      | (Some u, Some schema) \<Rightarrow>
          (rbind (fst (lo_reader options u)) (\<lambda>r.
           rbind (core_call (parse_credential_payload lib (Text (rd_content r)) (review_context c schema))) (\<lambda>payload.
           Inr (r, payload))),
           snd (lo_reader options u)))"

definition review_of ::
  "'x core_lib_scheme \<Rightarrow> api_credential \<Rightarrow> verification_dimensions \<Rightarrow> jstr option \<Rightarrow> (payload_read \<times> credential_payload) option \<Rightarrow>
    app_error + credential_review" where
  "review_of lib c report uri fetched =
     rbind (show_expiration lib (ac_expiration c)) (\<lambda>expiration.
     Inr (mutation_review.extend (mutation_review_of c uri expiration)
       \<lparr>cr_payload = map_option snd fetched, cr_claims = map_option (\<lambda>(r, p). payload_claims p) fetched,
        cr_read = map_option fst fetched, cr_review_error = None, cr_report = report\<rparr>))"

definition load_credential_review ::
  "'x core_lib_scheme \<Rightarrow> bool \<Rightarrow> review_options \<Rightarrow> (app_error + credential_review) \<times> jstr list" where
  "load_credential_review lib fetch options =
     (case review_metadata lib options of
        Inl e \<Rightarrow> (Inl e, [])
      | Inr (c, report, uri) \<Rightarrow>
          if fetch then
            (case fetch_review_payload lib options c uri of
               (fetched, requests) \<Rightarrow> (rbind fetched (\<lambda>p. review_of lib c report uri (Some p)), requests))
          else (review_of lib c report uri None, []))"

section \<open>Consent and trust\<close>

record consent_token =
  co_generation :: jstr
  co_uri :: jstr
  co_hostname :: jstr

record trust_token =
  tt_profile :: jstr
  tt_issuer :: jstr
  tt_subject :: jstr
  tt_generation :: jstr

text \<open>What the subject is shown as the place a payload comes from.\<close>

definition payload_location :: "'x core_lib_scheme \<Rightarrow> jstr \<Rightarrow> app_error + jstr" where
  "payload_location lib uri =
     rbind (core_call (parse_payload_uri lib uri)) (\<lambda>parsed.
     case parsed of
       Https _ _ _ \<Rightarrow> inspect_pilot_https_payload_host lib uri
     | Ipfs _ cid _ \<Rightarrow> Inr (lit ''ipfs:'' @ cid))"

definition create_payload_fetch_consent_token ::
  "'x core_lib_scheme \<Rightarrow> 'm mutation_review_scheme \<Rightarrow> app_error + consent_token" where
  "create_payload_fetch_consent_token lib review =
     (case cr_uri review of
        None \<Rightarrow> Inl (App_Error ''CREDENTIAL_URI_REQUIRED'')
      | Some uri \<Rightarrow>
          rbind (payload_location lib uri) (\<lambda>host.
          Inr \<lparr>co_generation = to_lower (cr_generation review), co_uri = uri, co_hostname = host\<rparr>))"

definition assert_payload_fetch_consent_current ::
  "'x core_lib_scheme \<Rightarrow> 'm mutation_review_scheme \<Rightarrow> consent_token \<Rightarrow> app_error + unit" where
  "assert_payload_fetch_consent_current lib review consent =
     (case cr_uri review of
        None \<Rightarrow> Inl (App_Error ''CREDENTIAL_PAYLOAD_CONSENT_STALE'')
      | Some uri \<Rightarrow>
          (case payload_location lib uri of
             Inl _ \<Rightarrow> Inl (App_Error ''CREDENTIAL_PAYLOAD_CONSENT_STALE'')
           | Inr host \<Rightarrow>
               if to_lower (cr_generation review) \<noteq> to_lower (co_generation consent) \<or> uri \<noteq> co_uri consent \<or>
                 host \<noteq> co_hostname consent
               then Inl (App_Error ''CREDENTIAL_PAYLOAD_CONSENT_STALE'')
               else Inr ()))"

definition load_credential_review_with_consent ::
  "'x core_lib_scheme \<Rightarrow> consent_token \<Rightarrow> review_options \<Rightarrow> (app_error + credential_review) \<times> jstr list" where
  "load_credential_review_with_consent lib consent options =
     (case load_credential_review lib False options of
        (Inl e, requests) \<Rightarrow> (Inl e, requests)
      | (Inr metadata, requests) \<Rightarrow>
          (case assert_payload_fetch_consent_current lib metadata consent of
             Inl e \<Rightarrow> (Inl e, requests)
           | Inr _ \<Rightarrow>
               (case load_credential_review lib True options of (result, more_requests) \<Rightarrow> (result, requests @ more_requests))))"

definition create_issuer_trust_acknowledgement_token :: "credential_review \<Rightarrow> jstr \<Rightarrow> app_error + trust_token" where
  "create_issuer_trust_acknowledgement_token review profile =
     (if vd_trust (cr_report review) \<noteq> Standing_Unknown then Inl (App_Error ''CREDENTIAL_ISSUER_TRUST_ACK_NOT_REQUIRED'')
      else if profile = [] then Inl (App_Error ''CREDENTIAL_ISSUER_TRUST_ACK_PROFILE_REQUIRED'')
      else Inr \<lparr>tt_profile = profile, tt_issuer = cr_issuer review, tt_subject = cr_subject review,
             tt_generation = to_lower (cr_generation review)\<rparr>)"

text \<open>A token always stands for an issuer of unknown standing.\<close>

definition issuer_trust_block_reason :: "credential_review \<Rightarrow> trust_token option \<Rightarrow> jstr option \<Rightarrow> string option" where
  "issuer_trust_block_reason review acknowledgement profile =
     (case vd_trust (cr_report review) of
        Is_Untrusted \<Rightarrow> Some ''CREDENTIAL_ISSUER_NOT_TRUSTED''
      | Is_Trusted \<Rightarrow> (case acknowledgement of None \<Rightarrow> None | Some _ \<Rightarrow> Some ''CREDENTIAL_ISSUER_TRUST_ACK_STALE'')
      | Standing_Unknown \<Rightarrow>
          (case acknowledgement of
             None \<Rightarrow> Some ''CREDENTIAL_ISSUER_TRUST_ACK_REQUIRED''
           | Some a \<Rightarrow>
               if Some (tt_profile a) \<noteq> profile \<or> tt_issuer a \<noteq> cr_issuer review \<or> tt_subject a \<noteq> cr_subject review \<or>
                 to_lower (tt_generation a) \<noteq> to_lower (cr_generation review)
               then Some ''CREDENTIAL_ISSUER_TRUST_ACK_STALE'' else None))"

section \<open>What may be done\<close>

datatype subject_action = Accept_It | Reject_It | Remove_It

datatype any_review = Mutation_Review mutation_review | Full_Review credential_review

definition removable :: "on_chain \<Rightarrow> bool \<Rightarrow> bool" where
  "removable state acc \<longleftrightarrow> acc \<and> (state = Is_Active \<or> state = Is_Expired)"

definition rejectable :: "on_chain \<Rightarrow> bool \<Rightarrow> bool" where
  "rejectable state acc \<longleftrightarrow> \<not> acc \<and> (state = Is_Pending \<or> state = Is_Expired)"

definition credential_action_block_reason ::
  "any_review \<Rightarrow> subject_action \<Rightarrow> trust_token option \<Rightarrow> jstr option \<Rightarrow> string option" where
  "credential_action_block_reason review action acknowledgement profile =
     (let (state, acc) = (case review of Mutation_Review r \<Rightarrow> (cr_state r, cr_accepted r)
                          | Full_Review r \<Rightarrow> (cr_state r, cr_accepted r))
      in
      case action of
        Remove_It \<Rightarrow> if removable state acc then None else Some ''CREDENTIAL_MUST_BE_ACTIVE_OR_EXPIRED_ACCEPTED''
      | Reject_It \<Rightarrow> if rejectable state acc then None else Some ''CREDENTIAL_MUST_BE_PENDING_OR_EXPIRED_UNACCEPTED''
      | Accept_It \<Rightarrow>
          if acc \<or> state \<noteq> Is_Pending then Some ''CREDENTIAL_MUST_BE_PENDING''
          else
            (case review of
               Mutation_Review _ \<Rightarrow> Some ''CREDENTIAL_ACCEPTANCE_REVIEW_REQUIRED''
             | Full_Review r \<Rightarrow>
                 if vd_on_chain (cr_report r) \<noteq> Is_Pending then Some ''CREDENTIAL_MUST_BE_PENDING''
                 else if cr_review_error r \<noteq> None \<or> cr_claims r = None then Some ''CREDENTIAL_PAYLOAD_REVIEW_FAILED''
                 else if vd_schema (cr_report r) \<noteq> Schema_Valid then Some ''CREDENTIAL_SCHEMA_NOT_VALID''
                 else if vd_payload (cr_report r) \<noteq> Payload_Valid then Some ''CREDENTIAL_PAYLOAD_NOT_VALID''
                 else issuer_trust_block_reason r acknowledgement profile))"

definition throw_reason :: "string option \<Rightarrow> app_error + unit" where
  "throw_reason reason = (case reason of None \<Rightarrow> Inr () | Some code \<Rightarrow> Inl (App_Error code))"

definition credential_revocation_block_reason :: "api_credential \<Rightarrow> string option" where
  "credential_revocation_block_reason c =
     (case ac_state c of
        Not_Found \<Rightarrow> Some ''CREDENTIAL_NOT_FOUND''
      | Is_Deleted \<Rightarrow> Some ''CREDENTIAL_ALREADY_DELETED''
      | _ \<Rightarrow> None)"

text \<open>The tuple and the generation that a decision was made on, compared with those read after the signature.\<close>

definition assert_same_credential ::
  "'m mutation_review_scheme \<Rightarrow> 'm mutation_review_scheme \<Rightarrow> jstr \<Rightarrow> jstr \<Rightarrow> app_error + unit" where
  "assert_same_credential expected current expected_profile current_profile =
     (if current_profile \<noteq> expected_profile then Inl (App_Error ''NETWORK_PROFILE_CHANGED_AFTER_SIGNATURE'')
      else if cr_issuer current \<noteq> cr_issuer expected \<or> cr_subject current \<noteq> cr_subject expected \<or>
        to_lower (cr_schema_uid current) \<noteq> to_lower (cr_schema_uid expected)
      then Inl (App_Error ''CREDENTIAL_REVIEW_CHANGED_AFTER_SIGNATURE'')
      else if to_lower (cr_generation current) \<noteq> to_lower (cr_generation expected)
      then Inl (App_Error ''CREDENTIAL_GENERATION_CHANGED_AFTER_SIGNATURE'')
      else Inr ())"

definition assert_credential_acceptance_review_current ::
  "credential_review \<Rightarrow> credential_review \<Rightarrow> jstr \<Rightarrow> jstr \<Rightarrow> trust_token option \<Rightarrow> app_error + unit" where
  "assert_credential_acceptance_review_current expected current expected_profile current_profile acknowledgement =
     rbind (assert_same_credential expected current expected_profile current_profile) (\<lambda>_.
     if cr_state current \<noteq> cr_state expected \<or> cr_accepted current \<noteq> cr_accepted expected \<or> cr_accepted current \<or>
       vd_on_chain (cr_report current) \<noteq> vd_on_chain (cr_report expected) \<or> cr_state current \<noteq> Is_Pending
     then Inl (App_Error ''CREDENTIAL_STATE_CHANGED_AFTER_SIGNATURE'')
     else if vd_trust (cr_report current) \<noteq> vd_trust (cr_report expected)
     then Inl (App_Error ''CREDENTIAL_ISSUER_TRUST_CHANGED_AFTER_SIGNATURE'')
     else throw_reason (issuer_trust_block_reason current acknowledgement (Some current_profile)))"

text \<open>The action is \<open>Reject_It\<close> or \<open>Remove_It\<close>.\<close>

definition assert_credential_subject_mutation_review_current ::
  "mutation_review \<Rightarrow> mutation_review \<Rightarrow> jstr \<Rightarrow> jstr \<Rightarrow> subject_action \<Rightarrow> app_error + unit" where
  "assert_credential_subject_mutation_review_current expected current expected_profile current_profile action =
     rbind (assert_same_credential expected current expected_profile current_profile) (\<lambda>_.
     if cr_state current \<noteq> cr_state expected \<or> cr_accepted current \<noteq> cr_accepted expected
     then Inl (App_Error ''CREDENTIAL_STATE_CHANGED_AFTER_SIGNATURE'')
     else throw_reason (credential_action_block_reason (Mutation_Review current) action None None))"

record expected_generation = credential_tuple +
  eg_action :: generation_action
  eg_generation :: jstr

definition assert_credential_generation_current :: "jsval \<Rightarrow> expected_generation \<Rightarrow> app_error + api_credential" where
  "assert_credential_generation_current input expected =
     rbind (parse_api_credential_detail input expected) (\<lambda>c.
     if ac_generation c \<noteq> to_lower (eg_generation expected) then Inl (App_Error ''CREDENTIAL_GENERATION_CHANGED_AFTER_SIGNATURE'')
     else
       rbind (throw_reason
         (case eg_action expected of
            Revoke_Action \<Rightarrow> credential_revocation_block_reason c
          | Remove_Action \<Rightarrow>
              if removable (ac_state c) (ac_accepted c) then None else Some ''CREDENTIAL_MUST_BE_ACTIVE_OR_EXPIRED_ACCEPTED''
          | Reject_Action \<Rightarrow>
              if rejectable (ac_state c) (ac_accepted c) then None else Some ''CREDENTIAL_MUST_BE_PENDING_OR_EXPIRED_UNACCEPTED''
          | Accept_Action \<Rightarrow>
              if \<not> ac_accepted c \<and> ac_state c = Is_Pending then None else Some ''CREDENTIAL_MUST_BE_PENDING'')) (\<lambda>_. Inr c))"

section \<open>Waiting for the event of an operation\<close>

datatype event_verdict = Event_Confirmed | Event_Pending | Event_Mismatch

abbreviation event_invalid :: "string + 'a" where
  "event_invalid \<equiv> Inl ''CREDENTIAL_EVENT_RESPONSE_INVALID''"

definition operation_event_shape :: "jsval \<Rightarrow> bool" where
  "operation_event_shape event \<longleftrightarrow>
     string_that hash64_any (get event ''transactionHash'') \<and> string_that (\<lambda>_. True) (get event ''issuer'') \<and>
     string_that (\<lambda>_. True) (get event ''subject'') \<and> string_that hash64_any (get event ''schemaUid'') \<and>
     string_that (\<lambda>_. True) (get event ''eventType'') \<and> (case get event ''accepted'' of JBool _ \<Rightarrow> True | _ \<Rightarrow> False)"

definition operation_event_confirmed :: "jsval \<Rightarrow> expected_generation \<Rightarrow> bool" where
  "operation_event_confirmed event expected \<longleftrightarrow>
     string_that (\<lambda>s. to_lower s = to_lower (eg_generation expected)) (get event ''generationId'') \<and>
     get event ''eventType'' = (if eg_action expected = Accept_Action then jlit ''accepted'' else jlit ''deleted'') \<and>
     (if eg_action expected = Reject_Action then get event ''accepted'' = JBool False
      else (eg_action expected \<noteq> Accept_Action \<and> eg_action expected \<noteq> Remove_Action) \<or> get event ''accepted'' = JBool True) \<and>
     (case eg_action expected of
        Accept_Action \<Rightarrow> True
      | Reject_Action \<Rightarrow> get event ''deletionCause'' = jlit ''subject_rejected''
      | Remove_Action \<Rightarrow>
          get event ''deletionCause'' = (if tu_issuer expected = tu_subject expected then jlit ''issuer_revoked'' else jlit ''subject_removed'')
      | Revoke_Action \<Rightarrow> get event ''deletionCause'' = jlit ''issuer_revoked'')"

definition inspect_credential_operation_event ::
  "jsval \<Rightarrow> expected_generation \<Rightarrow> jstr \<Rightarrow> string + event_verdict" where
  "inspect_credential_operation_event input expected tx_hash =
     (if \<not> is_record input \<or> \<not> string_that hash64_any (get input ''transactionHash'') then event_invalid
      else if to_lower (str_of (get input ''transactionHash'')) \<noteq> to_lower tx_hash then event_invalid
      else
        let event = get input ''event'' in
        if event = JNull then Inr Event_Pending
        else if \<not> is_record event then event_invalid
        else if \<not> operation_event_shape event then event_invalid
        else if to_lower (str_of (get event ''transactionHash'')) \<noteq> to_lower tx_hash \<or>
          get event ''issuer'' \<noteq> JStr (tu_issuer expected) \<or> get event ''subject'' \<noteq> JStr (tu_subject expected) \<or>
          to_lower (str_of (get event ''schemaUid'')) \<noteq> to_lower (tu_schema_uid expected)
        then Inr Event_Mismatch
        else Inr (if operation_event_confirmed event expected then Event_Confirmed else Event_Mismatch))"

definition event_round :: "expected_generation \<Rightarrow> jstr \<Rightarrow> string + jsval \<Rightarrow> (string + unit) option" where
  "event_round expected tx_hash answer =
     (case rbind answer (\<lambda>input. inspect_credential_operation_event input expected tx_hash) of
        Inr Event_Confirmed \<Rightarrow> Some (Inr ())
      | Inr Event_Mismatch \<Rightarrow> Some (Inl ''CREDENTIAL_EVENT_CONFIRMATION_MISMATCH'')
      | Inr Event_Pending \<Rightarrow> None
      | Inl e \<Rightarrow>
          if e \<in> {''CREDENTIAL_EVENT_CONFIRMATION_MISMATCH'', ''CREDENTIAL_EVENT_RESPONSE_INVALID''} then Some (Inl e) else None)"

definition wait_for_credential_operation_event ::
  "confirm_env \<Rightarrow> expected_generation \<Rightarrow> jstr \<Rightarrow> int option \<Rightarrow> int option \<Rightarrow> confirm_event list \<Rightarrow>
    ((string + unit) \<times> confirm_event list) option" where
  "wait_for_credential_operation_event env expected tx_hash timeout_ms interval_ms t =
     (if \<not> positive_safe timeout_ms then Some (Inl ''CREDENTIAL_EVENT_TIMEOUT_INVALID'', t)
      else if \<not> positive_safe interval_ms then Some (Inl ''CREDENTIAL_EVENT_POLL_INTERVAL_INVALID'', t)
      else poll_rounds env (event_round expected tx_hash) ''CREDENTIAL_EVENT_CONFIRMATION_TIMEOUT''
             (ev_now env t + (case timeout_ms of None \<Rightarrow> 30000 | Some ms \<Rightarrow> ms)) t)"

section \<open>Showing the evidence\<close>

text \<open>\<open>None\<close> when the report is about another generation or another state.\<close>

definition bind_current_report_to_exact_credential ::
  "'x core_lib_scheme \<Rightarrow> review_options \<Rightarrow> app_error + credential_review option" where
  "bind_current_report_to_exact_credential lib options =
     (case fst (load_credential_review lib False options) of
        Inr review \<Rightarrow> Inr (if vd_generation (cr_report review) = Some (cr_generation review) then Some review else None)
      | Inl e \<Rightarrow>
          if e = App_Error ''CREDENTIAL_REVIEW_GENERATION_MISMATCH'' \<or> e = App_Error ''CREDENTIAL_REVIEW_STATE_MISMATCH''
          then Inr None else Inl e)"

record claim_row =
  cl_name :: jstr
  cl_descriptor :: descriptor
  cl_present :: bool
  cl_structured :: bool
  cl_value :: "jsval option"
  cl_display :: jstr

text \<open>\<open>pretty\<close> is \<open>JSON.stringify(_, null, 2)\<close>, which is \<open>String\<close> for the numbers of JSON; the character is the em dash.\<close>

definition display_claim_value :: "(jsval \<Rightarrow> jstr) \<Rightarrow> jsval option \<Rightarrow> jstr" where
  "display_claim_value pretty v =
     (case v of
        None \<Rightarrow> [0x2014]
      | Some (JStr s) \<Rightarrow> s
      | Some JNull \<Rightarrow> lit ''null''
      | Some (JBool b) \<Rightarrow> if b then lit ''true'' else lit ''false''
      | Some w \<Rightarrow> pretty w)"

fun is_structured :: "jsval \<Rightarrow> bool" where
  "is_structured (JArr _) = True"
| "is_structured (JObj _ _) = True"
| "is_structured _ = False"

definition credential_claims_to_rows ::
  "(jsval \<Rightarrow> jstr) \<Rightarrow> schema_fields \<Rightarrow> (jstr \<times> jsval) list \<Rightarrow> (jstr \<times> string) + claim_row list" where
  "credential_claims_to_rows pretty schema claims =
     rbind (each (\<lambda>(name, _). if has_own schema name then Inr () else Inl (name, ''CREDENTIAL_CLAIM_SCHEMA_MISMATCH'')) claims) (\<lambda>_.
     Inr (map (\<lambda>(name, d).
       let v = map_of claims name in
       \<lparr>cl_name = name, cl_descriptor = d, cl_present = (v \<noteq> None),
        cl_structured = (case v of None \<Rightarrow> False | Some w \<Rightarrow> is_structured w), cl_value = v,
        cl_display = display_claim_value pretty v\<rparr>) schema))"

definition assert_exact_credential_consent_current ::
  "'x core_lib_scheme \<Rightarrow> 'm mutation_review_scheme \<Rightarrow> jstr \<Rightarrow> 'm mutation_review_scheme \<Rightarrow> jstr \<Rightarrow> consent_token \<Rightarrow> app_error + unit" where
  "assert_exact_credential_consent_current lib displayed displayed_profile latest latest_profile consent =
     rbind (assert_payload_fetch_consent_current lib displayed consent) (\<lambda>_.
     if displayed_profile \<noteq> latest_profile \<or> to_lower (cr_generation displayed) \<noteq> to_lower (cr_generation latest) \<or>
       cr_issuer displayed \<noteq> cr_issuer latest \<or> cr_subject displayed \<noteq> cr_subject latest \<or>
       to_lower (cr_schema_uid displayed) \<noteq> to_lower (cr_schema_uid latest) \<or> cr_uri displayed \<noteq> cr_uri latest
     then Inl (App_Error ''CREDENTIAL_PAYLOAD_CONSENT_STALE'')
     else assert_payload_fetch_consent_current lib latest consent)"

section \<open>What a review says\<close>

lemma review_metadata_Inr:
  assumes "review_metadata lib options = Inr (c, report, uri)"
  shows "parse_api_credential_detail (lo_credential options)
      (expected_tuple (lo_issuer options) (lo_subject options) (lo_schema_uid options)) = Inr c"
    and "parse_verification_dimensions (lo_report options) = Inr report"
    and "ac_state c = vd_on_chain report" and "decode_uri lib (ac_uri_hex c) = Inr uri"
proof -
  obtain c' report' uri' where "parse_api_credential_detail (lo_credential options)
      (expected_tuple (lo_issuer options) (lo_subject options) (lo_schema_uid options)) = Inr c'"
    "parse_verification_dimensions (lo_report options) = Inr report'" "ac_state c' = vd_on_chain report'"
    "decode_uri lib (ac_uri_hex c') = Inr uri'" "(c', report', uri') = (c, report, uri)"
    using assms unfolding review_metadata_def rbind_eq_Inr if_Inl_eq_Inr
    by (elim exE conjE) (rule that, simp_all)
  then show "parse_api_credential_detail (lo_credential options)
      (expected_tuple (lo_issuer options) (lo_subject options) (lo_schema_uid options)) = Inr c"
    and "parse_verification_dimensions (lo_report options) = Inr report"
    and "ac_state c = vd_on_chain report" and "decode_uri lib (ac_uri_hex c) = Inr uri"
    by simp_all
qed

lemma review_of_Inr:
  assumes "review_of lib c report uri fetched = Inr r"
  shows "cr_generation r = ac_generation c \<and> cr_issuer r = ac_issuer c \<and> cr_subject r = ac_subject c \<and>
    cr_schema_uid r = ac_schema_uid c \<and> cr_uri r = uri \<and> cr_accepted r = ac_accepted c \<and> cr_state r = ac_state c \<and>
    cr_report r = report \<and> cr_claims r = map_option (\<lambda>(r, p). payload_claims p) fetched \<and> cr_review_error r = None"
  using assms by (auto simp: review_of_def res_simps mutation_review_of_def mutation_review.extend_def)

lemma load_review_metadata:
  assumes "load_credential_review lib fetch options = (Inr r, requests)"
  shows "\<exists>c report. review_metadata lib options = Inr (c, report, cr_uri r) \<and> cr_generation r = ac_generation c \<and>
    cr_issuer r = ac_issuer c \<and> cr_subject r = ac_subject c \<and> cr_schema_uid r = ac_schema_uid c \<and>
    cr_accepted r = ac_accepted c \<and> cr_state r = ac_state c \<and> cr_report r = report"
proof -
  obtain c report uri where meta: "review_metadata lib options = Inr (c, report, uri)"
    using assms by (cases "review_metadata lib options") (auto simp: load_credential_review_def)
  then obtain fetched where "review_of lib c report uri fetched = Inr r"
    using assms by (auto simp: load_credential_review_def res_simps split: if_splits prod.splits)
  from review_of_Inr [OF this] meta show ?thesis by auto
qed

lemma load_review_no_fetch:
  assumes "load_credential_review lib False options = (result, requests)"
  shows "requests = []"
  using assms by (auto simp: load_credential_review_def split: sum.splits)

text \<open>The requests of a review are those its reader makes for the URI of the credential.\<close>

lemma load_review_requests:
  assumes "load_credential_review lib True options = (result, requests)" and "requests \<noteq> []"
  shows "\<exists>c report uri. review_metadata lib options = Inr (c, report, Some uri) \<and> requests = snd (lo_reader options uri)"
proof -
  obtain c report uri where meta: "review_metadata lib options = Inr (c, report, uri)"
    using assms by (cases "review_metadata lib options") (auto simp: load_credential_review_def)
  then have "snd (fetch_review_payload lib options c uri) = requests"
    using assms by (auto simp: load_credential_review_def split: prod.splits)
  then show ?thesis using meta assms(2) by (auto simp: fetch_review_payload_def split: option.splits)
qed

lemma load_review_payload:
  assumes "load_credential_review lib True options = (Inr r, requests)"
  shows "\<exists>c report uri schema rd p. review_metadata lib options = Inr (c, report, Some uri) \<and> lo_schema options = Some schema \<and>
    cr_uri r = Some uri \<and> lo_reader options uri = (Inr rd, requests) \<and>
    parse_credential_payload lib (Text (rd_content rd)) (review_context c schema) = Inr p \<and> cr_claims r = Some (payload_claims p) \<and>
    cr_report r = report \<and> cr_state r = ac_state c \<and> cr_accepted r = ac_accepted c \<and> cr_generation r = ac_generation c"
proof -
  obtain c report uri where meta: "review_metadata lib options = Inr (c, report, uri)"
    using assms by (cases "review_metadata lib options") (auto simp: load_credential_review_def)
  obtain rd p where fetched: "fetch_review_payload lib options c uri = (Inr (rd, p), requests)"
    and r: "review_of lib c report uri (Some (rd, p)) = Inr r"
    using assms meta by (auto simp: load_credential_review_def res_simps split: prod.splits)
  obtain u schema where "uri = Some u" "lo_schema options = Some schema" "lo_reader options u = (Inr rd, requests)"
    "parse_credential_payload lib (Text (rd_content rd)) (review_context c schema) = Inr p"
    using fetched by (cases uri; cases "lo_schema options"; cases "lo_reader options (the uri)")
      (auto simp: fetch_review_payload_def res_simps)
  then show ?thesis using meta review_of_Inr [OF r] by auto
qed

text \<open>A review with consent requests what the reader requests for the URI that was consented to, of the generation consented to.\<close>

lemma consent_current_Inr:
  "assert_payload_fetch_consent_current lib review consent = Inr () \<longleftrightarrow>
     cr_uri review = Some (co_uri consent) \<and> payload_location lib (co_uri consent) = Inr (co_hostname consent) \<and>
     to_lower (cr_generation review) = to_lower (co_generation consent)"
  by (auto simp: assert_payload_fetch_consent_current_def split: option.splits sum.splits if_splits)

lemma review_with_consent_requests:
  assumes "load_credential_review_with_consent lib consent options = (result, requests)" and "requests \<noteq> []"
  shows "\<exists>c report. review_metadata lib options = Inr (c, report, Some (co_uri consent)) \<and>
    to_lower (ac_generation c) = to_lower (co_generation consent) \<and>
    payload_location lib (co_uri consent) = Inr (co_hostname consent) \<and> requests = snd (lo_reader options (co_uri consent))"
proof -
  obtain metadata where first: "load_credential_review lib False options = (Inr metadata, [])"
    using assms load_review_no_fetch [of lib options]
    by (cases "load_credential_review lib False options")
      (auto simp: load_credential_review_with_consent_def split: sum.splits)
  have consent: "assert_payload_fetch_consent_current lib metadata consent = Inr ()"
    using assms first by (auto simp: load_credential_review_with_consent_def split: sum.splits)
  have second: "load_credential_review lib True options = (result, requests)"
    using assms first consent by (auto simp: load_credential_review_with_consent_def split: prod.splits)
  obtain c report where meta: "review_metadata lib options = Inr (c, report, cr_uri metadata)" "cr_generation metadata = ac_generation c"
    using load_review_metadata [OF first] by auto
  with load_review_requests [OF second assms(2)] consent show ?thesis by (auto simp: consent_current_Inr)
qed

text \<open>The decision on an issuer, and what acceptance asks for.\<close>

definition issuer_decided :: "credential_review \<Rightarrow> trust_token option \<Rightarrow> jstr option \<Rightarrow> bool" where
  "issuer_decided review acknowledgement profile \<longleftrightarrow>
     (vd_trust (cr_report review) = Is_Trusted \<and> acknowledgement = None) \<or>
     (vd_trust (cr_report review) = Standing_Unknown \<and>
      (\<exists>a. acknowledgement = Some a \<and> profile = Some (tt_profile a) \<and> tt_issuer a = cr_issuer review \<and>
         tt_subject a = cr_subject review \<and> to_lower (tt_generation a) = to_lower (cr_generation review)))"

lemma issuer_trust_block_reason_None:
  "issuer_trust_block_reason review acknowledgement profile = None \<longleftrightarrow> issuer_decided review acknowledgement profile"
  by (auto simp: issuer_trust_block_reason_def issuer_decided_def split: issuer_standing.splits option.splits if_splits)

lemma throw_reason_Inr [simp]: "throw_reason reason = Inr u \<longleftrightarrow> reason = None"
  by (auto simp: throw_reason_def split: option.splits)

lemma accept_block_reason_None:
  "credential_action_block_reason (Full_Review r) Accept_It acknowledgement profile = None \<longleftrightarrow>
     \<not> cr_accepted r \<and> cr_state r = Is_Pending \<and> vd_on_chain (cr_report r) = Is_Pending \<and> cr_review_error r = None \<and>
     cr_claims r \<noteq> None \<and> vd_schema (cr_report r) = Schema_Valid \<and> vd_payload (cr_report r) = Payload_Valid \<and>
     issuer_decided r acknowledgement profile"
  by (auto simp: credential_action_block_reason_def issuer_trust_block_reason_None)

lemma assert_acceptance_current_Inr:
  "assert_credential_acceptance_review_current expected current p q acknowledgement = Inr () \<longleftrightarrow>
     q = p \<and> cr_issuer current = cr_issuer expected \<and> cr_subject current = cr_subject expected \<and>
     to_lower (cr_schema_uid current) = to_lower (cr_schema_uid expected) \<and>
     to_lower (cr_generation current) = to_lower (cr_generation expected) \<and>
     cr_state current = Is_Pending \<and> cr_state expected = Is_Pending \<and> \<not> cr_accepted current \<and> \<not> cr_accepted expected \<and>
     vd_on_chain (cr_report current) = vd_on_chain (cr_report expected) \<and>
     vd_trust (cr_report current) = vd_trust (cr_report expected) \<and> issuer_decided current acknowledgement (Some q)"
  by (auto simp: assert_credential_acceptance_review_current_def assert_same_credential_def res_simps
      issuer_trust_block_reason_None split: if_splits)

section \<open>The two confirmations of an event\<close>

text \<open>What the journal confirms of a generation, the wait for its event confirms too.\<close>

definition expected_of :: "generation_action \<Rightarrow> jstr \<Rightarrow> jstr \<Rightarrow> jstr \<Rightarrow> jstr \<Rightarrow> expected_generation" where
  "expected_of action issuer subject uid generation =
     \<lparr>tu_issuer = issuer, tu_subject = subject, tu_schema_uid = uid, eg_action = action, eg_generation = generation\<rparr>"

lemma event_of_name: "map_of EVENT_TYPES s = Some e \<Longrightarrow> s = event_type_name e"
  by (auto simp: EVENT_TYPES_def split: if_splits)

lemma cause_of_value_Some: "cause_of_value v = Some d \<Longrightarrow> v = JStr (deletion_cause_name d)"
  by (auto simp: cause_of_value_def DELETION_CAUSES_def split: jsval.splits if_splits)

lemma read_event_values:
  assumes "event_well_formed event"
  shows "get event ''eventType'' = JStr (event_type_name (ix_event (read_event event)))"
    and "get event ''accepted'' = JBool (ix_accepted (read_event event))"
    and "get event ''generationId'' = JStr (str_of (get event ''generationId''))"
    and "ix_generation (read_event event) = to_lower (str_of (get event ''generationId''))"
    and "ix_cause (read_event event) = Some d \<Longrightarrow> get event ''deletionCause'' = JStr (deletion_cause_name d)"
  using assms cause_of_value_Some
  by (auto simp: event_well_formed_def read_event_def string_that_iff dest!: event_of_name split: jsval.splits)

lemma confirmed_event_confirms:
  assumes "event_well_formed event"
    and "event_confirms (Generation_Bound action issuer subject uid generation digest) hash (read_event event)"
    and "hash64 generation"
  shows "operation_event_confirmed event (expected_of action issuer subject uid generation)"
  using assms(2,3) read_event_values [OF assms(1)]
  by (cases action) (auto simp: operation_event_confirmed_def expected_of_def string_that_iff hash64_lower split: if_splits)

lemma confirmations_agree:
  assumes "inspect_credential_event input (Generation_Bound action issuer subject uid generation digest) tx_hash = Inr (Settled conf e)"
    and "hash64 uid" and "hash64 generation"
  shows "inspect_credential_operation_event input (expected_of action issuer subject uid generation) tx_hash = Inr Event_Confirmed"
proof -
  let ?b = "Generation_Bound action issuer subject uid generation digest"
  let ?event = "get input ''event''"
  obtain hash where rec: "is_record input" "indexed_hash input tx_hash = Inr hash" "?event \<noteq> JNull" "is_record ?event"
    and wf: "event_well_formed ?event" and same: "to_lower (str_of (get ?event ''transactionHash'')) = hash"
      "get ?event ''issuer'' = JStr issuer" "get ?event ''subject'' = JStr subject" "to_lower (str_of (get ?event ''schemaUid'')) = uid"
    and ok: "event_confirms ?b hash (read_event ?event)"
    using assms(1) unfolding inspect_credential_event_def Let_def by (auto simp: res_simps split: if_splits)
  have hash: "string_that hash64_any (get input ''transactionHash'')" "to_lower (str_of (get input ''transactionHash'')) = to_lower tx_hash"
    "hash = to_lower tx_hash"
    using rec(2) by (auto simp: indexed_hash_def Let_def split: if_splits)
  have shape: "operation_event_shape ?event"
    using wf by (auto simp: operation_event_shape_def event_well_formed_def string_that_iff)
  show ?thesis
    using rec hash same shape confirmed_event_confirms [OF wf ok assms(3)] assms(2)
    by (simp add: inspect_credential_operation_event_def Let_def hash64_lower) (simp add: expected_of_def hash64_lower)
qed

end
