(* ===== verification/App_Wallet_Checks.thy ===== *)
theory App_Wallet_Checks
  imports App_Review Sdk_Validation
begin

text \<open>
  What the web application checks of wallets, signatures, stored blobs and the read API before anything reaches the ledger:
  \<open>walletSubmission.ts\<close>, \<open>walletCompatibility.ts\<close>, \<open>signingReadiness.ts\<close>, \<open>publicRpcUrl.ts\<close>, \<open>transactions.ts\<close> of
  \<open>apps/web/app/utils\<close> and the selection of the network profile of \<open>composables/useXcsApi.ts\<close>.
\<close>

section \<open>Errors\<close>

datatype credential_tx = Credential_Create | Credential_Accept | Credential_Delete

datatype wallet_error =
    Wallet_Error string
  | Unsupported_Transaction jstr credential_tx
  | Transaction_Unfinished tx_status jstr
  | Transaction_Failed "jstr option"
  | Review_Error app_error
  | Sdk_Error serr
  | Thrown_Elsewhere

abbreviation wallet_fail :: "string \<Rightarrow> wallet_error + 'a" where
  "wallet_fail code \<equiv> Inl (Wallet_Error code)"

text \<open>
  Case conversion of any text. Beyond ASCII, the ligature \<open>ff\<close> is the only character whose upper case consists of hexadecimal
  digits, and the Kelvin sign the only one whose lower case is a letter of ASCII; no pattern used here tells the others apart.
\<close>

definition upper_text :: "jstr \<Rightarrow> jstr" where
  "upper_text s = concat (map (\<lambda>c. if c = 0xfb00 then lit ''FF'' else [upper_cu c]) s)"

definition lower_text :: "jstr \<Rightarrow> jstr" where
  "lower_text s = map (\<lambda>c. if c = 0x212a then ch CHR ''k'' else lower_cu c) s"

definition upper_hash :: "jstr \<Rightarrow> bool" where
  "upper_hash s \<longleftrightarrow> length s = 64 \<and> list_all (\<lambda>c. is_digit c \<or> between CHR ''A'' CHR ''F'' c) s"

section \<open>Stored blobs\<close>

record recovery_material =
  rm_blob :: jstr
  rm_hash :: jstr
  rm_last_ledger :: jsval
  rm_account :: jstr
  rm_type :: jstr
  rm_network :: int

abbreviation positive_safe_value :: "jsval \<Rightarrow> bool" where
  "positive_safe_value v \<equiv> safe_integer v \<and> 0 < int_of v"

definition decode_recovery_blob :: "'x sdk_lib_scheme \<Rightarrow> jstr \<Rightarrow> wallet_error + jsval \<times> jstr" where
  "decode_recovery_blob lib blob =
     (case (xrpl_decode lib blob, hash_signed_tx lib blob) of
        (Some decoded, Some raw_hash) \<Rightarrow>
          if has_own (entries_of decoded) (lit ''Signers'') \<or> \<not> string_that (\<lambda>s. s \<noteq> []) (get decoded ''SigningPubKey'') \<or>
            \<not> string_that (\<lambda>s. s \<noteq> []) (get decoded ''TxnSignature'') \<or> verify_signature lib blob \<noteq> Some True
          then wallet_fail ''OPERATION_RECOVERY_BLOB_INVALID''
          else Inr (decoded, upper_text raw_hash)
      | _ \<Rightarrow> wallet_fail ''OPERATION_RECOVERY_BLOB_INVALID'')"

definition validate_stored_recovery_material :: "'x sdk_lib_scheme \<Rightarrow> recovery_material \<Rightarrow> wallet_error + unit" where
  "validate_stored_recovery_material lib m =
     rbind (decode_recovery_blob lib (rm_blob m)) (\<lambda>(decoded, derived).
     let decoded_last = get decoded ''LastLedgerSequence'' in
     if \<not> upper_hash (rm_hash m) \<or> derived \<noteq> rm_hash m then wallet_fail ''OPERATION_RECOVERY_HASH_MISMATCH''
     else if \<not> positive_safe_value (rm_last_ledger m) \<or> \<not> positive_safe_value decoded_last
     then wallet_fail ''OPERATION_RECOVERY_LAST_LEDGER_SEQUENCE_INVALID''
     else if decoded_last \<noteq> rm_last_ledger m then wallet_fail ''OPERATION_RECOVERY_LAST_LEDGER_SEQUENCE_MISMATCH''
     else if get decoded ''Account'' \<noteq> JStr (rm_account m) then wallet_fail ''OPERATION_RECOVERY_ACCOUNT_MISMATCH''
     else if get decoded ''TransactionType'' \<noteq> JStr (rm_type m) then wallet_fail ''OPERATION_RECOVERY_TRANSACTION_TYPE_MISMATCH''
     else if get decoded ''NetworkID'' \<noteq> JUndef \<and> get decoded ''NetworkID'' \<noteq> jint (rm_network m)
     then wallet_fail ''OPERATION_RECOVERY_NETWORK_ID_MISMATCH''
     else Inr ())"

section \<open>Signatures of wallets\<close>

definition normalize_asserted_hash :: "jsval \<Rightarrow> wallet_error + jstr" where
  "normalize_asserted_hash v =
     (if v = JUndef \<or> v = JStr [] then Inr []
      else
        case v of
          JStr s \<Rightarrow>
            if upper_hash (upper_text (js_trim s)) then Inr (upper_text (js_trim s)) else wallet_fail ''WALLET_SIGNED_HASH_INVALID''
        | _ \<Rightarrow> wallet_fail ''WALLET_SIGNED_HASH_INVALID'')"

text \<open>The signed JSON of a wallet: the hash it asserts and the blob it encodes to; both are empty without one.\<close>

definition without_hash :: "jsval \<Rightarrow> jsval" where
  "without_hash v = JObj Plain (filter (\<lambda>(k, _). k \<noteq> lit ''hash'') (entries_of v))"

definition encode_signed_json :: "'x sdk_lib_scheme \<Rightarrow> jsval \<Rightarrow> wallet_error + jstr \<times> jstr" where
  "encode_signed_json lib v =
     (if v = JUndef then Inr ([], [])
      else if \<not> is_record v then wallet_fail ''WALLET_SIGNED_JSON_INVALID''
      else
        rbind (normalize_asserted_hash (get v ''hash'')) (\<lambda>hash.
        case xrpl_encode lib (without_hash v) of
          None \<Rightarrow> wallet_fail ''WALLET_SIGNED_JSON_INVALID''
        | Some blob \<Rightarrow> if blob = [] then wallet_fail ''WALLET_SIGNED_JSON_INVALID'' else Inr (hash, blob)))"

definition signed_blob_of :: "'x sdk_lib_scheme \<Rightarrow> jsval \<Rightarrow> wallet_error + jstr \<times> jstr" where
  "signed_blob_of lib answer =
     (let given = get answer ''tx_blob'' in
      if given \<noteq> JUndef \<and> \<not> string_that (\<lambda>_. True) given then wallet_fail ''WALLET_SIGNED_BLOB_INVALID''
      else
        let supplied = (if given = JUndef then [] else js_trim (str_of given)) in
        rbind (encode_signed_json lib (get answer ''tx_json'')) (\<lambda>(json_hash, encoded).
        if supplied = [] \<and> encoded = [] then wallet_fail ''WALLET_SIGNED_BLOB_MISSING''
        else if supplied \<noteq> [] \<and> encoded \<noteq> [] \<and> upper_text supplied \<noteq> upper_text encoded
        then wallet_fail ''WALLET_SIGNED_ARTIFACT_MISMATCH''
        else Inr (json_hash, if supplied \<noteq> [] then supplied else encoded)))"

definition normalize_wallet_signature :: "'x sdk_lib_scheme \<Rightarrow> jsval \<Rightarrow> wallet_error + signer_result" where
  "normalize_wallet_signature lib answer =
     rbind (signed_blob_of lib answer) (\<lambda>(json_hash, blob).
     case (xrpl_decode lib blob, hash_signed_tx lib blob) of
       (Some decoded, Some raw_hash) \<Rightarrow>
         let derived = upper_text raw_hash;
             signature = get answer ''signature'';
             signer = get answer ''signerAddress''
         in
         rbind (normalize_asserted_hash (get answer ''hash'')) (\<lambda>hash.
         if (hash \<noteq> [] \<and> hash \<noteq> derived) \<or> (json_hash \<noteq> [] \<and> json_hash \<noteq> derived) then wallet_fail ''WALLET_SIGNED_HASH_MISMATCH''
         else if signature \<noteq> JUndef \<and>
           (\<not> string_that (\<lambda>_. True) signature \<or> \<not> string_that (\<lambda>_. True) (get decoded ''TxnSignature'') \<or>
            upper_text (js_trim (str_of signature)) \<noteq> upper_text (str_of (get decoded ''TxnSignature'')))
         then wallet_fail ''WALLET_SIGNED_SIGNATURE_MISMATCH''
         else if signer \<noteq> JUndef \<and>
           (\<not> string_that (\<lambda>_. True) signer \<or> get decoded ''Account'' \<noteq> JStr (js_trim (str_of signer)))
         then wallet_fail ''WALLET_SIGNER_ADDRESS_MISMATCH''
         else Inr \<lparr>signer_hash = derived, signer_blob = blob\<rparr>)
     | _ \<Rightarrow> wallet_fail ''WALLET_SIGNED_BLOB_INVALID'')"

definition assert_validated_tes_success :: "submission_result \<Rightarrow> wallet_error + unit" where
  "assert_validated_tes_success result =
     (let status = sr_status result in
      if ts_status status \<noteq> St_Validated then Inl (Transaction_Unfinished (ts_status status) (ts_tx_hash status))
      else if ts_transaction_result status \<noteq> Some (lit ''tesSUCCESS'') then Inl (Transaction_Failed (ts_transaction_result status))
      else
        case ts_ledger_index status of
          Some n \<Rightarrow> if 0 < n \<and> n \<le> MAX_SAFE_INTEGER then Inr () else wallet_fail ''TRANSACTION_LEDGER_INDEX_INVALID''
        | None \<Rightarrow> wallet_fail ''TRANSACTION_LEDGER_INDEX_INVALID'')"

section \<open>Wallets that cannot sign credentials\<close>

datatype wallet_support = Supported | Unsupported | Unverified

definition CREDENTIAL_TX_TYPES :: "(jstr \<times> credential_tx) list" where
  "CREDENTIAL_TX_TYPES =
     [(lit ''CredentialCreate'', Credential_Create), (lit ''CredentialAccept'', Credential_Accept),
      (lit ''CredentialDelete'', Credential_Delete)]"

fun credential_tx_name :: "credential_tx \<Rightarrow> jstr" where
  "credential_tx_name Credential_Create = lit ''CredentialCreate''"
| "credential_tx_name Credential_Accept = lit ''CredentialAccept''"
| "credential_tx_name Credential_Delete = lit ''CredentialDelete''"

lemma credential_tx_of_name [simp]: "map_of CREDENTIAL_TX_TYPES (credential_tx_name t) = Some t"
  by (cases t) (simp_all add: CREDENTIAL_TX_TYPES_def)

definition WALLET_NAMES :: "(jstr \<times> jstr) list" where
  "WALLET_NAMES =
     [(lit ''crossmark'', lit ''Crossmark''), (lit ''gemwallet'', lit ''GemWallet''), (lit ''ledger'', lit ''Ledger''),
      (lit ''metamask-snap'', lit ''MetaMask Snap''), (lit ''otsu'', lit ''Otsu''), (lit ''walletconnect'', lit ''WalletConnect''),
      (lit ''xaman'', lit ''Xaman''), (lit ''xyra'', lit ''Xyra'')]"

definition ERROR_PREFIX :: jstr where "ERROR_PREFIX = lit ''WALLET_CREDENTIAL_TRANSACTION_UNSUPPORTED''"

definition safe_id_char :: "cu \<Rightarrow> bool" where
  "safe_id_char c \<longleftrightarrow> is_lower c \<or> is_digit c \<or> c = ch CHR ''-''"

definition safe_id_pattern :: "jstr \<Rightarrow> bool" where
  "safe_id_pattern s \<longleftrightarrow> 1 \<le> length s \<and> length s \<le> 64 \<and> list_all safe_id_char s"

definition safe_wallet_id :: "jstr \<Rightarrow> jstr" where
  "safe_wallet_id s =
     (let normalized = lower_text (js_trim s) in if safe_id_pattern normalized then normalized else lit ''unknown-wallet'')"

definition wallet_credential_support :: "jstr \<Rightarrow> wallet_support" where
  "wallet_credential_support wallet_id =
     (let s = safe_wallet_id wallet_id in
      if s = lit ''gemwallet'' then Unsupported else if s = lit ''xaman'' then Supported else Unverified)"

definition wallet_display_name :: "jstr \<Rightarrow> jstr" where
  "wallet_display_name wallet_id =
     (case map_of WALLET_NAMES (safe_wallet_id wallet_id) of None \<Rightarrow> lit ''Wallet'' | Some n \<Rightarrow> n)"

definition credential_tx_of :: "jsval \<Rightarrow> credential_tx option" where
  "credential_tx_of v = (case v of JStr s \<Rightarrow> map_of CREDENTIAL_TX_TYPES s | _ \<Rightarrow> None)"

text \<open>The error of a wallet and a transaction, its message, and the message read back.\<close>

definition wallet_credential_transaction_error :: "jstr \<Rightarrow> credential_tx \<Rightarrow> wallet_error" where
  "wallet_credential_transaction_error wallet_id t = Unsupported_Transaction (safe_wallet_id wallet_id) t"

definition unsupported_message :: "jstr \<times> credential_tx \<Rightarrow> jstr" where
  "unsupported_message e = ERROR_PREFIX @ lit '':'' @ fst e @ lit '':'' @ credential_tx_name (snd e)"

definition parse_unsupported_message :: "jstr \<Rightarrow> (jstr \<times> credential_tx) option" where
  "parse_unsupported_message s =
     (case split_on (ch CHR '':'') s of
        [prefix, wallet_id, t] \<Rightarrow>
          if prefix \<noteq> ERROR_PREFIX \<or> \<not> safe_id_pattern wallet_id then None
          else map_option (\<lambda>t. (wallet_id, t)) (map_of CREDENTIAL_TX_TYPES t)
      | _ \<Rightarrow> None)"

record unsupported_details =
  ud_wallet :: jstr
  ud_name :: jstr
  ud_type :: credential_tx

definition parse_wallet_credential_transaction_error :: "jstr \<Rightarrow> unsupported_details option" where
  "parse_wallet_credential_transaction_error s =
     map_option (\<lambda>(wallet_id, t). \<lparr>ud_wallet = wallet_id, ud_name = wallet_display_name wallet_id, ud_type = t\<rparr>)
       (parse_unsupported_message s)"

definition assert_wallet_supports_xcs_transaction :: "jstr option \<Rightarrow> jsval \<Rightarrow> wallet_error + unit" where
  "assert_wallet_supports_xcs_transaction wallet_id transaction_type =
     (case (wallet_id, credential_tx_of transaction_type) of
        (Some w, Some t) \<Rightarrow>
          if wallet_credential_support w = Unsupported then Inl (wallet_credential_transaction_error w t) else Inr ()
      | _ \<Rightarrow> Inr ())"

text \<open>
  The messages of an error and of the errors it wraps, to a depth of four; errors are finite trees, so no object is met twice.
\<close>

fun error_messages :: "nat \<Rightarrow> jsval \<Rightarrow> jstr list" where
  "error_messages 0 v = []"
| "error_messages (Suc depth) v =
     (case v of
        JStr s \<Rightarrow> [s]
      | _ \<Rightarrow>
          if \<not> is_record v then []
          else
            (case get v ''message'' of JStr s \<Rightarrow> [s] | _ \<Rightarrow> []) @ error_messages depth (get v ''originalError'') @
            error_messages depth (get v ''cause''))"

definition normalize_wallet_transaction_error :: "jsval \<Rightarrow> jstr option \<Rightarrow> jsval \<Rightarrow> wallet_error" where
  "normalize_wallet_transaction_error error wallet_id transaction_type =
     (case (wallet_id, credential_tx_of transaction_type) of
        (Some w, Some t) \<Rightarrow>
          if list_ex (\<lambda>m. js_trim m = lit ''Invalid field TransactionType: '' @ credential_tx_name t) (error_messages 5 error)
          then wallet_credential_transaction_error w t else Thrown_Elsewhere
      | _ \<Rightarrow> Thrown_Elsewhere)"

section \<open>The read API and the submission endpoint\<close>

record signing_readiness =
  sg_profile :: jstr
  sg_ledger_index :: int
  sg_ledger_hash :: jstr
  sg_close_time :: int
  sg_transaction_root :: jstr

definition parse_signing_readiness :: "jsval \<Rightarrow> jstr \<Rightarrow> wallet_error + signing_readiness" where
  "parse_signing_readiness input expected =
     (let checkpoint = get input ''checkpoint'' in
      if \<not> is_record input then wallet_fail ''INDEXER_SIGNING_READINESS_INVALID''
      else if get input ''profileId'' \<noteq> JStr expected then wallet_fail ''NETWORK_PROFILE_CHANGED_BEFORE_SIGNATURE''
      else if get input ''status'' \<noteq> jlit ''ready'' \<or> \<not> is_record checkpoint then wallet_fail ''INDEXER_SIGNING_READINESS_INVALID''
      else if \<not> is_uint32 (get checkpoint ''ledgerIndex'') \<or> \<not> string_that hash64 (get checkpoint ''ledgerHash'') \<or>
        \<not> is_uint32 (get checkpoint ''closeTime'') \<or> \<not> string_that hash64 (get checkpoint ''transactionRoot'')
      then wallet_fail ''INDEXER_SIGNING_READINESS_INVALID''
      else Inr \<lparr>sg_profile = expected, sg_ledger_index = int_of (get checkpoint ''ledgerIndex''),
             sg_ledger_hash = str_of (get checkpoint ''ledgerHash''), sg_close_time = int_of (get checkpoint ''closeTime''),
             sg_transaction_root = str_of (get checkpoint ''transactionRoot'')\<rparr>)"

text \<open>\<open>getNetworkReadiness\<close> for a profile, on the answer of the API; \<open>getActiveNetworkProfile\<close> on the profiles it lists.\<close>

definition get_network_readiness :: "jsval option \<Rightarrow> jstr \<Rightarrow> wallet_error + signing_readiness" where
  "get_network_readiness answer profile =
     (case answer of
        None \<Rightarrow> wallet_fail ''INDEXER_SIGNING_READINESS_UNAVAILABLE''
      | Some response \<Rightarrow> parse_signing_readiness response profile)"

definition active_network_profile :: "jstr \<Rightarrow> network_profile list \<Rightarrow> wallet_error + network_profile" where
  "active_network_profile configured profiles =
     (let wanted = js_trim configured;
          candidates = filter (\<lambda>p. if wanted \<noteq> [] then profile_id p = wanted else profile_network_id p = 1) profiles
      in
      case candidates of
        [] \<Rightarrow> wallet_fail ''NETWORK_PROFILE_UNAVAILABLE''
      | [p] \<Rightarrow> if profile_network_id p \<noteq> 1 then wallet_fail ''ALPHA_REQUIRES_XRPL_TESTNET'' else Inr p
      | _ \<Rightarrow> wallet_fail ''NETWORK_PROFILE_AMBIGUOUS'')"

text \<open>\<open>/^127(?:\.\d{1,3}){3}$/\<close> beside the two names of the loopback.\<close>

definition is_loopback_hostname :: "jstr \<Rightarrow> bool" where
  "is_loopback_hostname h \<longleftrightarrow>
     h = lit ''localhost'' \<or> h = lit ''[::1]'' \<or> (ipv4_literal h \<and> hd (split_on (ch CHR ''.'') h) = lit ''127'')"

definition assert_public_rpc_url :: "'x core_lib_scheme \<Rightarrow> jsval \<Rightarrow> wallet_error + jstr" where
  "assert_public_rpc_url lib input =
     (if \<not> string_that (\<lambda>s. s \<noteq> [] \<and> js_trim s = s) input then wallet_fail ''PUBLIC_RPC_URL_INVALID''
      else
        case parse_url lib (str_of input) of
          None \<Rightarrow> wallet_fail ''PUBLIC_RPC_URL_INVALID''
        | Some url \<Rightarrow>
            if url_username url \<noteq> [] \<or> url_password url \<noteq> [] \<or>
              (url_protocol url \<noteq> lit ''wss:'' \<and> \<not> (url_protocol url = lit ''ws:'' \<and> is_loopback_hostname (url_hostname url)))
            then wallet_fail ''PUBLIC_RPC_URL_UNSAFE''
            else Inr (url_href url))"

section \<open>Transactions\<close>

definition assert_transaction_signer :: "jsval \<Rightarrow> jstr \<Rightarrow> wallet_error + unit" where
  "assert_transaction_signer transaction address =
     (if get transaction ''Account'' \<noteq> JStr address then wallet_fail ''SIGNER_ACCOUNT_MISMATCH'' else Inr ())"

definition assert_prepared_transaction :: "jsval \<Rightarrow> wallet_error + unit" where
  "assert_prepared_transaction transaction =
     (if get transaction ''Fee'' = JUndef \<or> get transaction ''Sequence'' = JUndef \<or> get transaction ''LastLedgerSequence'' = JUndef
      then wallet_fail ''TRANSACTION_MUST_BE_PREPARED'' else Inr ())"

section \<open>What the checks establish\<close>

lemma decode_recovery_blob_Inr:
  "decode_recovery_blob lib blob = Inr (decoded, derived) \<longleftrightarrow>
     xrpl_decode lib blob = Some decoded \<and> (\<exists>raw. hash_signed_tx lib blob = Some raw \<and> derived = upper_text raw) \<and>
     assert_valid_single_signature lib decoded blob = Inr ()"
  unfolding assert_valid_single_signature_Inr
  by (cases "xrpl_decode lib blob"; cases "hash_signed_tx lib blob") (auto simp: decode_recovery_blob_def)

text \<open>A stored blob that passes is a valid single signature of the very transaction that the journal describes.\<close>

lemma validate_recovery_Inr:
  assumes "validate_stored_recovery_material lib m = Inr ()"
  shows "\<exists>decoded raw lls. xrpl_decode lib (rm_blob m) = Some decoded \<and> hash_signed_tx lib (rm_blob m) = Some raw \<and>
    upper_text raw = rm_hash m \<and> assert_valid_single_signature lib decoded (rm_blob m) = Inr () \<and>
    rm_last_ledger m = jint lls \<and> 0 < lls \<and> get decoded ''LastLedgerSequence'' = jint lls \<and>
    get decoded ''Account'' = JStr (rm_account m) \<and> get decoded ''TransactionType'' = JStr (rm_type m) \<and>
    get decoded ''NetworkID'' \<in> {JUndef, jint (rm_network m)}"
proof -
  obtain decoded derived where blob: "decode_recovery_blob lib (rm_blob m) = Inr (decoded, derived)"
    and rest: "derived = rm_hash m" "positive_safe_value (rm_last_ledger m)" "get decoded ''LastLedgerSequence'' = rm_last_ledger m"
      "get decoded ''Account'' = JStr (rm_account m)" "get decoded ''TransactionType'' = JStr (rm_type m)"
      "get decoded ''NetworkID'' = JUndef \<or> get decoded ''NetworkID'' = jint (rm_network m)"
    using assms by (auto simp: validate_stored_recovery_material_def Let_def res_simps)
  obtain lls where "rm_last_ledger m = jint lls" "0 < lls"
    using rest(2) by (auto simp: safe_integer_iff)
  then show ?thesis using blob rest by (auto simp: decode_recovery_blob_Inr)
qed

lemma split_on_append:
  "sep \<notin> set a \<Longrightarrow> split_on sep (a @ sep # rest) = a # split_on sep rest"
proof (induction a)
  case (Cons c a)
  then show ?case by (cases "split_on sep rest") auto
qed simp

lemma split_on_none: "sep \<notin> set a \<Longrightarrow> split_on sep a = [a]"
  by (induction a) auto

lemma colon_not_safe: "safe_id_pattern s \<Longrightarrow> ch CHR '':'' \<notin> set s"
proof
  assume "safe_id_pattern s" and "ch CHR '':'' \<in> set s"
  then have "safe_id_char (ch CHR '':'')" by (auto simp: safe_id_pattern_def list_all_iff)
  then show False by (simp add: safe_id_char_def class_defs ch_def)
qed

lemma colon_not_in_names: "ch CHR '':'' \<notin> set ERROR_PREFIX" "ch CHR '':'' \<notin> set (credential_tx_name t)"
  by (simp add: ERROR_PREFIX_def lit_def ch_def) (cases t; simp add: lit_def ch_def)

lemma safe_wallet_id_pattern: "safe_id_pattern (safe_wallet_id s)"
proof -
  have "safe_id_pattern (lit ''unknown-wallet'')"
    by (simp add: safe_id_pattern_def safe_id_char_def class_defs lit_def ch_def)
  then show ?thesis by (simp add: safe_wallet_id_def Let_def)
qed

lemma unsupported_message_parts:
  assumes "safe_id_pattern w"
  shows "split_on (ch CHR '':'') (unsupported_message (w, t)) = [ERROR_PREFIX, w, credential_tx_name t]"
proof -
  have "unsupported_message (w, t) = ERROR_PREFIX @ ch CHR '':'' # (w @ ch CHR '':'' # credential_tx_name t)"
    by (simp add: unsupported_message_def lit_def ch_def)
  then show ?thesis
    using colon_not_in_names colon_not_safe [OF assms] by (simp add: split_on_append split_on_none)
qed

text \<open>The message of the error names the wallet and the transaction, and is read back.\<close>

interpretation unsupported: codec unsupported_message parse_unsupported_message "\<lambda>e. safe_id_pattern (fst e)"
proof
  fix e :: "jstr \<times> credential_tx"
  assume safe: "safe_id_pattern (fst e)"
  then have "split_on (ch CHR '':'') (unsupported_message e) = [ERROR_PREFIX, fst e, credential_tx_name (snd e)]"
    using unsupported_message_parts [of "fst e" "snd e"] by simp
  then show "parse_unsupported_message (unsupported_message e) = Some e"
    using safe by (simp add: parse_unsupported_message_def)
qed

end
