(* ===== verification/App_Wallet.thy ===== *)
theory App_Wallet
  imports App_Wallet_Checks
begin

text \<open>
  The wallet of the web application (\<open>apps/web/app/composables/useWallet.ts\<close>): the connected account and its session, the
  preview of a transaction, signing and submitting it, and the recovery of an operation after a restart. Wallet events arrive
  between any two awaits. Main results: what is sent was signed in the session and for the profile of the preview, and is in
  the journal before it is sent.
\<close>

section \<open>The connected account\<close>

record wallet_account =
  wa_address :: jstr
  wa_network :: jstr

record wallet_state =
  w_session :: nat
  w_account :: "wallet_account option"
  w_error :: "wallet_error option"
  w_busy :: bool

definition initial_wallet :: wallet_state where
  "initial_wallet = \<lparr>w_session = 0, w_account = None, w_error = None, w_busy = False\<rparr>"

definition on_testnet :: "wallet_account \<Rightarrow> bool" where
  "on_testnet a \<longleftrightarrow> wa_network a = lit ''testnet''"

definition assert_wallet_testnet :: "wallet_account \<Rightarrow> wallet_error + unit" where
  "assert_wallet_testnet a = (if on_testnet a then Inr () else wallet_fail ''WALLET_TESTNET_REQUIRED'')"

definition replace_account :: "wallet_account option \<Rightarrow> wallet_state \<Rightarrow> wallet_state" where
  "replace_account a s = s\<lparr>w_session := Suc (w_session s), w_account := a\<rparr>"

text \<open>The handler of \<open>connect\<close> and \<open>accountChanged\<close>.\<close>

definition adopt_account :: "wallet_account \<Rightarrow> wallet_state \<Rightarrow> wallet_state" where
  "adopt_account a s =
     (case assert_wallet_testnet a of
        Inr _ \<Rightarrow> (replace_account (Some a) s)\<lparr>w_error := None\<rparr>
      | Inl e \<Rightarrow> (replace_account None s)\<lparr>w_error := Some e\<rparr>)"

datatype wallet_event =
    Wallet_Connected wallet_account
  | Wallet_Disconnected
  | Account_Changed wallet_account
  | Network_Changed jstr
  | Wallet_Failed wallet_error

fun handle_wallet_event :: "wallet_event \<Rightarrow> wallet_state \<Rightarrow> wallet_state" where
  "handle_wallet_event (Wallet_Connected a) s = adopt_account a s"
| "handle_wallet_event Wallet_Disconnected s = replace_account None s"
| "handle_wallet_event (Account_Changed a) s = adopt_account a s"
| "handle_wallet_event (Network_Changed network) s =
     (case w_account s of None \<Rightarrow> s | Some a \<Rightarrow> adopt_account (a\<lparr>wa_network := network\<rparr>) s)"
| "handle_wallet_event (Wallet_Failed e) s = s\<lparr>w_error := Some e\<rparr>"

definition handle_events :: "wallet_event list \<Rightarrow> wallet_state \<Rightarrow> wallet_state" where
  "handle_events = fold handle_wallet_event"

text \<open>What asking the wallet for its account gives; \<open>Not_Fetched\<close> when there is no wallet or it cannot be asked.\<close>

datatype fetched_account = Not_Fetched | Fetch_Failed | Fetched "wallet_account option"

definition refresh_connected_wallet :: "fetched_account \<Rightarrow> (wallet_error, wallet_state, unit) io" where
  "refresh_connected_wallet fetched = (\<lambda>s.
     case fetched of
       Not_Fetched \<Rightarrow> Some (Inr (), s)
     | Fetch_Failed \<Rightarrow> Some (Inl Thrown_Elsewhere, s)
     | Fetched None \<Rightarrow> Some (wallet_fail ''WALLET_NOT_CONNECTED'', replace_account None s)
     | Fetched (Some a) \<Rightarrow>
         (case assert_wallet_testnet a of
            Inl e \<Rightarrow> Some (Inl e, s)
          | Inr _ \<Rightarrow>
              if map_option (\<lambda>b. (wa_address b, wa_network b)) (w_account s) \<noteq> Some (wa_address a, wa_network a)
              then Some (Inr (), replace_account (Some a) s)
              else Some (Inr (), s\<lparr>w_account := Some a\<rparr>)))"

text \<open>\<open>connect\<close> on the account the wallet manager gives, or the error it throws.\<close>

definition connect_wallet :: "wallet_error + wallet_account \<Rightarrow> (wallet_error, wallet_state, unit) io" where
  "connect_wallet outcome = (\<lambda>s.
     case rbind outcome (\<lambda>a. rbind (assert_wallet_testnet a) (\<lambda>_. Inr a)) of
       Inr a \<Rightarrow> Some (Inr (), (replace_account (Some a) s)\<lparr>w_error := None, w_busy := False\<rparr>)
     | Inl e \<Rightarrow> Some (Inl e, (replace_account None s)\<lparr>w_error := Some e, w_busy := False\<rparr>))"

definition disconnect_wallet :: "wallet_state \<Rightarrow> wallet_state" where
  "disconnect_wallet s = replace_account None s"

record wallet_info =
  wi_id :: jstr
  wi_name :: jstr
  wi_url :: "jstr option"

record wallet_choice =
  wc_id :: jstr
  wc_name :: jstr
  wc_available :: bool
  wc_support :: wallet_support
  wc_url :: "jstr option"

definition safe_wallet_url :: "'x core_lib_scheme \<Rightarrow> jstr option \<Rightarrow> jstr option" where
  "safe_wallet_url lib u =
     (case u of
        None \<Rightarrow> None
      | Some s \<Rightarrow>
          if s = [] then None
          else (case parse_url lib s of None \<Rightarrow> None | Some url \<Rightarrow> if url_protocol url = lit ''https:'' then Some (url_href url) else None))"

definition wallet_choices :: "'x core_lib_scheme \<Rightarrow> wallet_error + jstr list \<Rightarrow> wallet_info list \<Rightarrow> wallet_state \<Rightarrow> wallet_choice list \<times> wallet_state" where
  "wallet_choices lib available wallets s =
     (let ids = (case available of Inl _ \<Rightarrow> [] | Inr ids \<Rightarrow> ids) in
      (map (\<lambda>w. \<lparr>wc_id = wi_id w, wc_name = wi_name w, wc_available = (wi_id w \<in> set ids),
                  wc_support = wallet_credential_support (wi_id w), wc_url = safe_wallet_url lib (wi_url w)\<rparr>) wallets,
       case available of Inl e \<Rightarrow> s\<lparr>w_error := Some e\<rparr> | Inr _ \<Rightarrow> s))"

section \<open>Checks between awaits\<close>

definition assert_wallet_context :: "jsval \<Rightarrow> jstr \<Rightarrow> nat \<Rightarrow> wallet_state \<Rightarrow> wallet_error + unit" where
  "assert_wallet_context transaction address session s =
     (if w_session s \<noteq> session then wallet_fail ''WALLET_CHANGED_AFTER_PREVIEW''
      else
        case w_account s of
          None \<Rightarrow> wallet_fail ''WALLET_CHANGED_AFTER_PREVIEW''
        | Some a \<Rightarrow>
            if wa_address a \<noteq> address then wallet_fail ''WALLET_CHANGED_AFTER_PREVIEW''
            else rbind (assert_wallet_testnet a) (\<lambda>_. assert_transaction_signer transaction address))"

text \<open>The two other properties of a profile are constants.\<close>

definition same_wallet_profile :: "network_profile \<Rightarrow> network_profile \<Rightarrow> bool" where
  "same_wallet_profile p q \<longleftrightarrow>
     profile_id p = profile_id q \<and> profile_network_id p = profile_network_id q \<and> required_amendment p = required_amendment q \<and>
     registry_address p = registry_address q \<and> activation_ledger_index p = activation_ledger_index q \<and>
     activation_ledger_hash p = activation_ledger_hash q"

type_synonym 'a wallet = "(wallet_error, wallet_state, 'a) io"

definition context_still :: "jsval \<Rightarrow> jstr \<Rightarrow> nat \<Rightarrow> unit wallet" where
  "context_still transaction address session = (\<lambda>s. Some (assert_wallet_context transaction address session s, s))"

definition awaiting :: "wallet_event list \<Rightarrow> unit wallet" where
  "awaiting events = io_modify (handle_events events)"

text \<open>The account after a refresh, which the transaction must name.\<close>

definition connected_address :: "jsval \<Rightarrow> jstr wallet" where
  "connected_address transaction = (\<lambda>s.
     case w_account s of
       None \<Rightarrow> Some (wallet_fail ''WALLET_NOT_CONNECTED'', s)
     | Some a \<Rightarrow>
         Some (rbind (assert_wallet_testnet a) (\<lambda>_.
               rbind (assert_transaction_signer transaction (wa_address a)) (\<lambda>_. Inr (wa_address a))), s))"

section \<open>Previewing\<close>

text \<open>The answers a preview gets, and the wallet events before each.\<close>

record preview_world =
  pw_events :: "nat \<Rightarrow> wallet_event list"
  pw_fetched :: fetched_account
  pw_wallet_id :: "jstr option"
  pw_profile :: "wallet_error + network_profile"
  pw_rpc_url :: jsval
  pw_client :: "network_profile \<Rightarrow> wallet_error + unit"
  pw_autofill :: "wallet_error + jsval"

text \<open>What the two weak maps keep of a prepared transaction.\<close>

record preview =
  pv_transaction :: jsval
  pv_profile :: network_profile
  pv_session :: nat

definition prepare_transaction ::
  "'x core_lib_scheme \<Rightarrow> preview_world \<Rightarrow> jsval \<Rightarrow> network_profile option \<Rightarrow> preview wallet" where
  "prepare_transaction lib world transaction expected =
     io_bind (awaiting (pw_events world 0)) (\<lambda>_.
     io_bind (refresh_connected_wallet (pw_fetched world)) (\<lambda>_.
     io_bind (connected_address transaction) (\<lambda>address.
     io_bind (io_lift (assert_wallet_supports_xcs_transaction (pw_wallet_id world) (get transaction ''TransactionType''))) (\<lambda>_.
     io_bind (io_read w_session) (\<lambda>session.
     io_bind (io_lift (pw_profile world)) (\<lambda>profile.
     io_bind (awaiting (pw_events world 1)) (\<lambda>_.
     io_bind (context_still transaction address session) (\<lambda>_.
     io_bind (io_lift (if \<exists>e \<in> set_option expected. \<not> same_wallet_profile e profile
                       then wallet_fail ''NETWORK_PROFILE_CHANGED_BEFORE_PREVIEW'' else Inr ())) (\<lambda>_.
     io_bind (io_lift (assert_public_rpc_url lib (pw_rpc_url world))) (\<lambda>_.
     io_bind (io_lift (pw_client world profile)) (\<lambda>_.
     io_bind (awaiting (pw_events world 2)) (\<lambda>_.
     io_bind (context_still transaction address session) (\<lambda>_.
     io_bind (io_lift (pw_autofill world)) (\<lambda>prepared.
     io_bind (awaiting (pw_events world 3)) (\<lambda>_.
     io_bind (context_still prepared address session) (\<lambda>_.
     io_bind (io_read w_session) (\<lambda>now.
     io_return \<lparr>pv_transaction = prepared, pv_profile = profile, pv_session = now\<rparr>)))))))))))))))))"

section \<open>Signing and submitting\<close>

text \<open>
  The outside world of an operation, by what the SDK has done so far and, within one callback, by a number: the network of the
  SDK, wallet events, the answers of the wallet and of the read API, the caller's callbacks, and what other tabs do to the
  journal. Before the SDK runs its history is empty.
\<close>

record wallet_world =
  ww_env :: submission_env
  ww_events :: "effect list \<Rightarrow> nat \<Rightarrow> wallet_event list"
  ww_fetched :: "effect list \<Rightarrow> fetched_account"
  ww_wallet_id :: "effect list \<Rightarrow> jstr option"
  ww_sign :: "effect list \<Rightarrow> jsval \<Rightarrow> jsval + jsval"
  ww_profile :: "effect list \<Rightarrow> wallet_error + network_profile"
  ww_readiness :: "effect list \<Rightarrow> jsval option"
  ww_credential :: "effect list \<Rightarrow> wallet_error + jsval"
  ww_client :: "network_profile \<Rightarrow> wallet_error + unit"
  ww_rpc_url :: jsval
  ww_still_current :: "effect list \<Rightarrow> nat \<Rightarrow> bool"
  ww_after_signature :: "effect list \<Rightarrow> bool"
  ww_after_ledger :: "effect list \<Rightarrow> bool"
  ww_uuid :: jstr
  ww_time :: "effect list \<Rightarrow> jstr"
  ww_tabs :: "effect list \<Rightarrow> nat \<Rightarrow> store \<Rightarrow> store"
  ww_confirm :: "effect list \<Rightarrow> confirm_env"
  ww_confirm_tabs :: "effect list \<Rightarrow> confirm_event list \<Rightarrow> store \<Rightarrow> store"

definition still_current :: "wallet_world \<Rightarrow> effect list \<Rightarrow> nat \<Rightarrow> wallet_error + unit" where
  "still_current world t n = (if ww_still_current world t n then Inr () else Inl Thrown_Elsewhere)"

text \<open>\<open>business ? validateOperationBusinessContext(business) : undefined\<close>\<close>

definition normalized_business :: "'x app_lib_scheme \<Rightarrow> jsval \<Rightarrow> wallet_error + business option" where
  "normalized_business lib v =
     (if \<not> truthy v then Inr None
      else case validate_operation_business_context lib v of Inl code \<Rightarrow> wallet_fail code | Inr b \<Rightarrow> Inr (Some b))"

definition business_generation_current :: "wallet_world \<Rightarrow> business option \<Rightarrow> effect list \<Rightarrow> wallet_error + unit" where
  "business_generation_current world business t =
     (case business of
        Some (Generation_Bound action issuer subject uid generation digest) \<Rightarrow>
          rbind (ww_credential world t) (\<lambda>answer.
          case assert_credential_generation_current answer (expected_of action issuer subject uid generation) of
            Inl e \<Rightarrow> Inl (Review_Error e)
          | Inr _ \<Rightarrow> Inr ())
      | _ \<Rightarrow> Inr ())"

subsection \<open>The journal of an operation\<close>

text \<open>What an effect of the SDK does to the store, and the store after a history: other tabs act between any two effects.\<close>

fun store_effect :: "'x app_lib_scheme \<Rightarrow> jstr \<Rightarrow> effect \<Rightarrow> store \<Rightarrow> store" where
  "store_effect lib at (Appended entry) ops = (case append_to_journal at entry ops of Inl _ \<Rightarrow> ops | Inr ops' \<Rightarrow> ops')"
| "store_effect lib at (Called_On_Signature vs) ops =
     (case persist_signed lib
        \<lparr>sr_id = vs_operation vs, sr_blob = vs_tx_blob vs, sr_hash = vs_tx_hash vs,
         sr_last_ledger = vs_last_ledger_sequence vs, sr_at = at\<rparr> ops of
        Inl _ \<Rightarrow> ops
      | Inr ops' \<Rightarrow> ops')"
| "store_effect lib at _ ops = ops"

fun store_after :: "'x app_lib_scheme \<Rightarrow> wallet_world \<Rightarrow> store \<Rightarrow> effect list \<Rightarrow> store" where
  "store_after lib world ops [] = ops"
| "store_after lib world ops (e # t) =
     store_effect lib (ww_time world (rev t)) e (ww_tabs world (rev t) 0 (store_after lib world ops t))"

definition journal_at :: "'x app_lib_scheme \<Rightarrow> wallet_world \<Rightarrow> store \<Rightarrow> effect list \<Rightarrow> nat \<Rightarrow> store" where
  "journal_at lib world ops t n = ww_tabs world t n (store_after lib world ops (rev t))"

subsection \<open>Before the SDK runs\<close>

record capture =
  cp_session :: nat
  cp_address :: jstr
  cp_profile :: network_profile
  cp_business :: "business option"

definition operation_seed_of :: "wallet_world \<Rightarrow> capture \<Rightarrow> jsval \<Rightarrow> operation_seed" where
  "operation_seed_of world cap transaction =
     \<lparr>sd_id = ww_uuid world, sd_account = cp_address cap, sd_profile = profile_id (cp_profile cap),
      sd_network = profile_network_id (cp_profile cap), sd_type = str_of (get transaction ''TransactionType''),
      sd_created = ww_time world [],
      sd_business = (case cp_business cap of None \<Rightarrow> JUndef | Some b \<Rightarrow> business_value b)\<rparr>"

definition begin_submission ::
  "'x app_lib_scheme \<Rightarrow> wallet_world \<Rightarrow> preview option \<Rightarrow> jsval \<Rightarrow> jsval \<Rightarrow> capture wallet" where
  "begin_submission lib world preview transaction business =
     io_bind (awaiting (ww_events world [] 0)) (\<lambda>_.
     io_bind (refresh_connected_wallet (ww_fetched world [])) (\<lambda>_.
     io_bind (connected_address transaction) (\<lambda>address.
     io_bind (io_lift (case preview of None \<Rightarrow> wallet_fail ''TRANSACTION_PREVIEW_REQUIRED'' | Some p \<Rightarrow> Inr p)) (\<lambda>p.
     io_bind (io_read w_session) (\<lambda>session.
     io_bind (io_lift (if pv_session p \<noteq> session then wallet_fail ''WALLET_CHANGED_AFTER_PREVIEW'' else Inr ())) (\<lambda>_.
     io_bind (io_lift (assert_wallet_supports_xcs_transaction (ww_wallet_id world []) (get transaction ''TransactionType''))) (\<lambda>_.
     io_bind (io_lift (normalized_business lib business)) (\<lambda>normalized.
     io_bind (io_lift (still_current world [] 0)) (\<lambda>_.
     io_bind (io_lift (ww_profile world [])) (\<lambda>active.
     io_bind (awaiting (ww_events world [] 1)) (\<lambda>_.
     io_bind (context_still transaction address session) (\<lambda>_.
     io_bind (io_lift (still_current world [] 1)) (\<lambda>_.
     io_bind (io_lift (if \<not> same_wallet_profile (pv_profile p) active
                       then wallet_fail ''NETWORK_PROFILE_CHANGED_AFTER_PREVIEW'' else Inr ())) (\<lambda>_.
     io_bind (io_modify (\<lambda>s. s\<lparr>w_busy := True, w_error := None\<rparr>)) (\<lambda>_.
     io_bind (io_lift (assert_public_rpc_url lib (ww_rpc_url world))) (\<lambda>_.
     io_return \<lparr>cp_session = session, cp_address = address, cp_profile = active, cp_business = normalized\<rparr>))))))))))))))))"

text \<open>The \<open>try\<close> block up to the SDK: the network is validated and the operation created, in the store as it then is.\<close>

definition open_operation ::
  "'x app_lib_scheme \<Rightarrow> wallet_world \<Rightarrow> jsval \<Rightarrow> capture \<Rightarrow> store \<Rightarrow> store wallet" where
  "open_operation lib world transaction cap ops =
     io_bind (io_lift (ww_client world (cp_profile cap))) (\<lambda>_.
     io_bind (awaiting (ww_events world [] 2)) (\<lambda>_.
     io_bind (context_still transaction (cp_address cap) (cp_session cap)) (\<lambda>_.
     io_bind (io_lift (still_current world [] 2)) (\<lambda>_.
     io_lift (case create_operation lib (operation_seed_of world cap transaction) ops of
                Inl code \<Rightarrow> wallet_fail code | Inr ops' \<Rightarrow> Inr ops')))))"

subsection \<open>The callbacks of the SDK\<close>

definition sign_with_wallet :: "'x sdk_lib_scheme \<Rightarrow> wallet_world \<Rightarrow> jsval \<Rightarrow> capture \<Rightarrow> effect list \<Rightarrow> signer_result wallet" where
  "sign_with_wallet lib world transaction cap t =
     io_bind (awaiting (ww_events world t 0)) (\<lambda>_.
     io_bind (context_still transaction (cp_address cap) (cp_session cap)) (\<lambda>_.
     io_bind (io_lift (still_current world t 0)) (\<lambda>_.
     io_bind (io_lift (ww_profile world t)) (\<lambda>latest.
     io_bind (io_lift (if \<not> same_wallet_profile (cp_profile cap) latest
                       then wallet_fail ''NETWORK_PROFILE_CHANGED_AFTER_PREVIEW'' else Inr ())) (\<lambda>_.
     io_bind (io_lift (get_network_readiness (ww_readiness world t) (profile_id (cp_profile cap)))) (\<lambda>_.
     io_bind (awaiting (ww_events world t 1)) (\<lambda>_.
     io_bind (refresh_connected_wallet (ww_fetched world t)) (\<lambda>_.
     io_bind (context_still transaction (cp_address cap) (cp_session cap)) (\<lambda>_.
     io_bind (io_lift (still_current world t 1)) (\<lambda>_.
     io_lift (case ww_sign world t transaction of
                Inl error \<Rightarrow>
                  Inl (normalize_wallet_transaction_error error (ww_wallet_id world t) (get transaction ''TransactionType''))
              | Inr answer \<Rightarrow> normalize_wallet_signature lib answer)))))))))))"

definition before_submit :: "wallet_world \<Rightarrow> capture \<Rightarrow> effect list \<Rightarrow> wallet_error + unit" where
  "before_submit world cap t =
     rbind (still_current world t 0) (\<lambda>_.
     rbind (business_generation_current world (cp_business cap) t) (\<lambda>_.
     rbind (if ww_after_signature world t then Inr () else Inl Thrown_Elsewhere) (\<lambda>_.
     rbind (still_current world t 1) (\<lambda>_.
     rbind (ww_profile world t) (\<lambda>latest.
     if \<not> same_wallet_profile (cp_profile cap) latest then wallet_fail ''NETWORK_PROFILE_CHANGED_AFTER_SIGNATURE''
     else
       rbind (get_network_readiness (ww_readiness world t) (profile_id (cp_profile cap))) (\<lambda>_.
       still_current world t 2))))))"

text \<open>
  The outside world the SDK sees. Whether the journal takes an entry or a signature depends on the operation it holds only;
  \<open>s\<close> is the wallet when the SDK starts.
\<close>

definition persistable :: "'x app_lib_scheme \<Rightarrow> jstr \<Rightarrow> store \<Rightarrow> bool" where
  "persistable lib i ops \<longleftrightarrow>
     is_ok (persist_signed lib \<lparr>sr_id = i, sr_blob = [], sr_hash = [], sr_last_ledger = JUndef, sr_at = []\<rparr> ops)"

definition operation_env ::
  "'x sdk_lib_scheme \<Rightarrow> 'y app_lib_scheme \<Rightarrow> wallet_world \<Rightarrow> jsval \<Rightarrow> capture \<Rightarrow> wallet_state \<Rightarrow> store \<Rightarrow> submission_env" where
  "operation_env lib app world transaction cap s ops =
     (ww_env world)\<lparr>
       env_append_ok := (\<lambda>t. find_operation (ww_uuid world) (journal_at app world ops t 0) \<noteq> None),
       env_sign := (\<lambda>t. case sign_with_wallet lib world transaction cap t s of Some (Inr r, _) \<Rightarrow> Some r | _ \<Rightarrow> None),
       env_on_signature_ok := (\<lambda>t. persistable app (ww_uuid world) (journal_at app world ops t 0)),
       env_before_submit_ok := (\<lambda>t. is_ok (before_submit world cap t))\<rparr>"

definition wallet_options :: "wallet_world \<Rightarrow> submission_options" where
  "wallet_options world =
     \<lparr>opt_operation_id = Some (ww_uuid world), opt_timeout_ms = None,
      opt_allow_refresh = (ww_wallet_id world [] = Some (lit ''xaman'')), opt_on_validated_signature = True,
      opt_before_submit = True\<rparr>"

subsection \<open>After the ledger\<close>

type_synonym business_outcome = "(confirmation \<times> business_evidence option) option"

definition settle_confirmation ::
  "confirm_env \<Rightarrow> string \<Rightarrow> confirm_event list \<Rightarrow> (string + business_outcome) \<times> confirm_event list" where
  "settle_confirmation env error t =
     (let conf = (if error \<in> conclusive_errors then Mismatch else Timed_Out); at = ev_iso env t in
      case ev_persist env t conf at None of
        Inl e \<Rightarrow> (Inl e, t)
      | Inr _ \<Rightarrow> (Inr (Some (conf, None)), t @ [Persisted_Confirmation conf at None]))"

definition confirm_business_event ::
  "confirm_env \<Rightarrow> business option \<Rightarrow> jstr \<Rightarrow> ((string + business_outcome) \<times> confirm_event list) option" where
  "confirm_business_event env business tx_hash =
     (case business of
        None \<Rightarrow> Some (Inr None, [])
      | Some b \<Rightarrow>
          if \<not> is_confirmable b then Some (Inr None, [])
          else
            case wait_for_indexed_business_evidence env b tx_hash None None [] of
              None \<Rightarrow> None
            | Some (Inl error, t) \<Rightarrow> Some (settle_confirmation env error t)
            | Some (Inr (conf, e), t) \<Rightarrow>
                (let at = ev_iso env t in
                 case ev_persist env t conf at (Some e) of
                   Inl error \<Rightarrow> Some (settle_confirmation env error t)
                 | Inr _ \<Rightarrow> Some (Inr (Some (conf, Some e)), t @ [Persisted_Confirmation conf at (Some e)])))"

text \<open>The confirmation is written to the store the SDK left.\<close>

definition journal_confirm_env ::
  "'x app_lib_scheme \<Rightarrow> wallet_world \<Rightarrow> jstr \<Rightarrow> store \<Rightarrow> effect list \<Rightarrow> confirm_env" where
  "journal_confirm_env lib world i ops h =
     (ww_confirm world h)\<lparr>ev_persist := (\<lambda>t conf at e.
        rbind (set_business_confirmation lib i conf at (case e of None \<Rightarrow> JUndef | Some e \<Rightarrow> evidence_value e)
          (ww_confirm_tabs world h t (store_after lib world ops (rev h)))) (\<lambda>_. Inr ()))\<rparr>"

record wallet_run =
  wr_result :: "wallet_error + submission_result \<times> business_outcome"
  wr_effects :: "effect list"
  wr_confirmation :: "confirm_event list"

definition finish_submission ::
  "'x app_lib_scheme \<Rightarrow> wallet_world \<Rightarrow> jstr \<Rightarrow> business option \<Rightarrow> store \<Rightarrow> bool \<Rightarrow> (serr + submission_result) \<times> effect list \<Rightarrow>
    wallet_run option" where
  "finish_submission lib world i business ops after_ledger run =
     (case run of
        (Inl e, h) \<Rightarrow> Some \<lparr>wr_result = Inl (Sdk_Error e), wr_effects = h, wr_confirmation = []\<rparr>
      | (Inr result, h) \<Rightarrow>
          (case assert_validated_tes_success result of
             Inl e \<Rightarrow> Some \<lparr>wr_result = Inl e, wr_effects = h, wr_confirmation = []\<rparr>
           | Inr _ \<Rightarrow>
               if after_ledger \<and> \<not> ww_after_ledger world h
               then Some \<lparr>wr_result = Inl Thrown_Elsewhere, wr_effects = h, wr_confirmation = []\<rparr>
               else
                 (case confirm_business_event (journal_confirm_env lib world i ops h) business (ts_tx_hash (sr_status result)) of
                    None \<Rightarrow> None
                  | Some (Inl code, t) \<Rightarrow> Some \<lparr>wr_result = wallet_fail code, wr_effects = h, wr_confirmation = t\<rparr>
                  | Some (Inr outcome, t) \<Rightarrow> Some \<lparr>wr_result = Inr (result, outcome), wr_effects = h, wr_confirmation = t\<rparr>)))"

text \<open>The wallet when a history is over: as the signer left it, and what it raised since.\<close>

definition wallet_after ::
  "'x sdk_lib_scheme \<Rightarrow> wallet_world \<Rightarrow> jsval \<Rightarrow> capture \<Rightarrow> effect list \<Rightarrow> wallet_state \<Rightarrow> wallet_state" where
  "wallet_after lib world transaction cap h s =
     (let t = takeWhile (\<lambda>ev. ev \<noteq> Asked_Signer transaction) h;
          signed_in = (if t = h then s
                       else case sign_with_wallet lib world transaction cap t s of None \<Rightarrow> s | Some (_, s') \<Rightarrow> s')
      in handle_events (ww_events world h 2) signed_in)"

text \<open>
  \<open>signAndSubmit\<close>: its run, the wallet after it and what the weak maps then keep of the transaction. \<open>preview\<close> is what they
  keep before, \<open>ops\<close> the store when the operation is created.
\<close>

definition sign_and_submit ::
  "'x sdk_lib_scheme \<Rightarrow> 'y app_lib_scheme \<Rightarrow> wallet_world \<Rightarrow> preview option \<Rightarrow> jsval \<Rightarrow> jsval \<Rightarrow> store \<Rightarrow> wallet_state \<Rightarrow>
    (wallet_run \<times> wallet_state \<times> preview option) option" where
  "sign_and_submit lib app world preview transaction business ops s =
     (case begin_submission app world preview transaction business s of
        None \<Rightarrow> None
      | Some (Inl e, s') \<Rightarrow> Some (\<lparr>wr_result = Inl e, wr_effects = [], wr_confirmation = []\<rparr>, s', preview)
      | Some (Inr cap, s1) \<Rightarrow>
          (case open_operation app world transaction cap ops s1 of
             None \<Rightarrow> None
           | Some (Inl e, s') \<Rightarrow> Some (\<lparr>wr_result = Inl e, wr_effects = [], wr_confirmation = []\<rparr>, s'\<lparr>w_busy := False\<rparr>, preview)
           | Some (Inr created, s2) \<Rightarrow>
               (case sign_prepared_and_submit lib (operation_env lib app world transaction cap s2 created) transaction
                       (wallet_options world) [] of
                  None \<Rightarrow> None
                | Some run \<Rightarrow>
                    map_option (\<lambda>r. (r, (wallet_after lib world transaction cap (snd run) s2)\<lparr>w_busy := False\<rparr>,
                        if is_ok (wr_result r) then None else preview))
                      (finish_submission app world (ww_uuid world) (cp_business cap) created True run))))"

section \<open>Recovering an operation\<close>

definition recovery_of :: "stored_operation \<Rightarrow> recovery_material" where
  "recovery_of op =
     \<lparr>rm_blob = the (op_blob op), rm_hash = the (op_hash op), rm_last_ledger = op_last_ledger op, rm_account = op_account op,
      rm_type = op_type op, rm_network = op_network op\<rparr>"

definition lift_code :: "string + 'a \<Rightarrow> wallet_error + 'a" where
  "lift_code m = (case m of Inl code \<Rightarrow> wallet_fail code | Inr x \<Rightarrow> Inr x)"

text \<open>Up to the status of the transaction: the stored operation, its business context and the validated network.\<close>

definition begin_retry ::
  "'x sdk_lib_scheme \<Rightarrow> 'y app_lib_scheme \<Rightarrow> wallet_world \<Rightarrow> jstr \<Rightarrow> store \<Rightarrow> wallet_error + stored_operation \<times> business option" where
  "begin_retry lib app world i ops =
     (case find_operation i ops of
        None \<Rightarrow> wallet_fail ''OPERATION_NOT_RECOVERABLE''
      | Some op \<Rightarrow>
          if \<not> can_retry_operation app op \<or> op_hash op = None \<or> op_hash op = Some [] \<or> op_last_ledger op = JUndef
          then wallet_fail ''OPERATION_NOT_RECOVERABLE''
          else
            rbind (validate_stored_recovery_material lib (recovery_of op)) (\<lambda>_.
            rbind (ww_profile world []) (\<lambda>active.
            if op_profile op \<noteq> profile_id active \<or> op_network op \<noteq> profile_network_id active
            then wallet_fail ''OPERATION_NETWORK_PROFILE_MISMATCH''
            else
              rbind (ww_client world active) (\<lambda>_.
              rbind (lift_code (stored_business app op)) (\<lambda>business. Inr (op, business))))))"

definition may_resubmit ::
  "'y app_lib_scheme \<Rightarrow> wallet_world \<Rightarrow> jstr \<Rightarrow> store \<Rightarrow> stored_operation \<Rightarrow> business option \<Rightarrow> effect list \<Rightarrow> wallet_error + unit" where
  "may_resubmit app world i ops op business t =
     (if op_type op \<in> {lit ''CredentialAccept'', lit ''CredentialDelete''} \<and>
        \<not> (case business of Some b \<Rightarrow> is_generation_bound b | None \<Rightarrow> False)
      then wallet_fail ''OPERATION_GENERATION_CONTEXT_REQUIRED''
      else
        rbind (business_generation_current world business t) (\<lambda>_.
        rbind (lift_code (assert_business_lock_owned app i (journal_at app world ops t 0))) (\<lambda>_.
        rbind (get_network_readiness (ww_readiness world t) (op_profile op)) (\<lambda>_.
        lift_code (assert_business_lock_owned app i (journal_at app world ops t 1))))))"

definition operation_retry_env :: "'y app_lib_scheme \<Rightarrow> wallet_world \<Rightarrow> jstr \<Rightarrow> store \<Rightarrow> submission_env" where
  "operation_retry_env app world i ops =
     (ww_env world)\<lparr>env_append_ok := (\<lambda>t. find_operation i (journal_at app world ops t 0) \<noteq> None)\<rparr>"

definition operation_retry_options :: "jstr \<Rightarrow> submission_options" where
  "operation_retry_options i =
     \<lparr>opt_operation_id = Some i, opt_timeout_ms = None, opt_allow_refresh = False, opt_on_validated_signature = False,
      opt_before_submit = False\<rparr>"

text \<open>A final status is journaled as it is; otherwise the stored blob is submitted again.\<close>

definition resume ::
  "'x sdk_lib_scheme \<Rightarrow> 'y app_lib_scheme \<Rightarrow> wallet_world \<Rightarrow> jstr \<Rightarrow> store \<Rightarrow> stored_operation \<Rightarrow> business option \<Rightarrow>
    transaction_status \<Rightarrow> (wallet_error, effect list, submission_result) io" where
  "resume lib app world i ops op business status = (\<lambda>t.
     let env = operation_retry_env app world i ops; lift = map_option (\<lambda>(r, h). (case r of Inl e \<Rightarrow> Inl (Sdk_Error e) | Inr x \<Rightarrow> Inr x, h)) in
     if ts_status status = St_Validated \<or> ts_status status = St_Expired
     then lift (io_bind (append_entry env
            \<lparr>entry_operation = i, entry_stage = stage_of (ts_status status), entry_tx_hash = Some (ts_tx_hash status),
             entry_last_ledger_sequence = (case ts_last_ledger_sequence status of None \<Rightarrow> JUndef | Some n \<Rightarrow> jint n),
             entry_engine_result = ts_transaction_result status, entry_ledger_index = ts_ledger_index status\<rparr>) (\<lambda>_.
            io_return \<lparr>sr_status = status, sr_operation = i, sr_engine_result = None\<rparr>) t)
     else
       case may_resubmit app world i ops op business t of
         Inl e \<Rightarrow> Some (Inl e, t)
       | Inr _ \<Rightarrow> lift (submit_signed_transaction lib env (the (op_blob op)) (operation_retry_options i) t))"

definition retry_operation ::
  "'x sdk_lib_scheme \<Rightarrow> 'y app_lib_scheme \<Rightarrow> wallet_world \<Rightarrow> jstr \<Rightarrow> store \<Rightarrow> wallet_run option" where
  "retry_operation lib app world i ops =
     (let failed = (\<lambda>e h. Some \<lparr>wr_result = Inl e, wr_effects = h, wr_confirmation = []\<rparr>) in
      case rbind (assert_public_rpc_url lib (ww_rpc_url world)) (\<lambda>_. begin_retry lib app world i ops) of
        Inl e \<Rightarrow> failed e []
      | Inr (op, business) \<Rightarrow>
          (case get_transaction_status (operation_retry_env app world i ops) (the (op_hash op)) (Some (int_of (op_last_ledger op))) [] of
             None \<Rightarrow> None
           | Some (Inl e, h) \<Rightarrow> failed (Sdk_Error e) h
           | Some (Inr status, h) \<Rightarrow>
               (case resume lib app world i ops op business status h of
                  None \<Rightarrow> None
                | Some (Inl e, h') \<Rightarrow> failed e h'
                | Some (Inr result, h') \<Rightarrow> finish_submission app world i business ops False (Inr result, h'))))"

definition reconfirm_operation ::
  "'y app_lib_scheme \<Rightarrow> wallet_error + network_profile \<Rightarrow> confirm_env \<Rightarrow> jstr \<Rightarrow> store \<Rightarrow>
    ((wallet_error + confirmation) \<times> confirm_event list) option" where
  "reconfirm_operation app active env i ops =
     (case rbind (case find_operation i ops of None \<Rightarrow> wallet_fail ''OPERATION_NOT_FOUND'' | Some op \<Rightarrow> Inr op) (\<lambda>op.
           rbind active (\<lambda>profile.
           if op_profile op \<noteq> profile_id profile \<or> op_network op \<noteq> profile_network_id profile
           then wallet_fail ''OPERATION_NETWORK_PROFILE_MISMATCH''
           else
             rbind (lift_code (stored_business app op)) (\<lambda>business.
             if \<not> (case business of Some b \<Rightarrow> is_confirmable b | None \<Rightarrow> False)
             then wallet_fail ''OPERATION_BUSINESS_CONTEXT_REQUIRED''
             else if op_hash op = None \<or> op_hash op = Some [] then wallet_fail ''OPERATION_TRANSACTION_HASH_REQUIRED''
             else Inr op)))
      of
        Inl e \<Rightarrow> Some (Inl e, [])
      | Inr op \<Rightarrow>
          map_option (\<lambda>(r, t). (lift_code r, t)) (reconfirm_validated_business_operation app env op None None []))"

end
