(* ===== verification/App_Wallet_Safety.thy ===== *)
theory App_Wallet_Safety
  imports App_Wallet
begin

text \<open>
  What the wallet of the web application keeps: the connected account is one of Testnet and a session has one account; a blob
  is sent only when it was signed in the session of its preview and is in the journal.
\<close>

section \<open>Sessions\<close>

inductive wallet_step :: "wallet_state \<Rightarrow> wallet_state \<Rightarrow> bool" where
  event: "wallet_step s (handle_wallet_event e s)"
| refresh: "refresh_connected_wallet fetched s = Some (r, t) \<Longrightarrow> wallet_step s t"
| connect: "connect_wallet outcome s = Some (r, t) \<Longrightarrow> wallet_step s t"
| disconnect: "wallet_step s (disconnect_wallet s)"
| busy: "wallet_step s (s\<lparr>w_busy := b, w_error := e\<rparr>)"

definition wallet_ok :: "wallet_state \<Rightarrow> bool" where
  "wallet_ok s \<longleftrightarrow> (case w_account s of None \<Rightarrow> True | Some a \<Rightarrow> on_testnet a)"

definition account_place :: "wallet_state \<Rightarrow> (jstr \<times> jstr) option" where
  "account_place s = map_option (\<lambda>a. (wa_address a, wa_network a)) (w_account s)"

definition session_pins :: "wallet_state \<Rightarrow> wallet_state \<Rightarrow> bool" where
  "session_pins s t \<longleftrightarrow> w_session s \<le> w_session t \<and> (w_session s = w_session t \<longrightarrow> account_place s = account_place t)"

lemma assert_testnet_Inr [simp]: "assert_wallet_testnet a = Inr u \<longleftrightarrow> on_testnet a"
  by (simp add: assert_wallet_testnet_def)

lemma adopt_account_step:
  "wallet_ok (adopt_account a s)" "session_pins s (adopt_account a s)"
  by (simp_all add: adopt_account_def wallet_ok_def session_pins_def replace_account_def assert_wallet_testnet_def)

lemma handle_event_ok: "wallet_ok s \<Longrightarrow> wallet_ok (handle_wallet_event e s)"
proof (cases e)
  case (Network_Changed network)
  moreover assume "wallet_ok s"
  ultimately show ?thesis by (cases "w_account s") (simp_all add: adopt_account_step)
qed (simp_all add: adopt_account_step, simp_all add: wallet_ok_def replace_account_def)

lemma session_pins_refl: "session_pins s s"
  by (simp add: session_pins_def)

lemma replace_account_pins: "session_pins s (replace_account a s)"
  by (simp add: session_pins_def replace_account_def)

lemma handle_event_pins: "session_pins s (handle_wallet_event e s)"
proof (cases e)
  case (Network_Changed network)
  then show ?thesis by (cases "w_account s") (simp_all add: adopt_account_step session_pins_refl)
qed (simp_all add: adopt_account_step replace_account_pins, simp add: session_pins_def account_place_def)

lemma refresh_account:
  assumes "refresh_connected_wallet (Fetched (Some a)) s = Some (r, t)"
  shows "t = s \<or> on_testnet a \<and> (t = replace_account (Some a) s \<or>
    account_place s = Some (wa_address a, wa_network a) \<and> t = s\<lparr>w_account := Some a\<rparr>)"
  using assms unfolding refresh_connected_wallet_def assert_wallet_testnet_def account_place_def [symmetric]
  by (cases "on_testnet a"; cases "account_place s = Some (wa_address a, wa_network a)") simp_all

lemma refresh_cases:
  assumes "refresh_connected_wallet fetched s = Some (r, t)"
  obtains "t = s" | "t = replace_account None s"
  | a where "on_testnet a" "t = replace_account (Some a) s"
  | a where "on_testnet a" "account_place s = Some (wa_address a, wa_network a)" "t = s\<lparr>w_account := Some a\<rparr>"
proof (cases fetched)
  case (Fetched v)
  show ?thesis
  proof (cases v)
    case (Some a)
    then show ?thesis using refresh_account [of a s r t] assms Fetched that by blast
  next
    case None
    then have "t = replace_account None s" using assms Fetched by (simp add: refresh_connected_wallet_def)
    then show ?thesis by (rule that(2))
  qed
next
  case Not_Fetched
  then have "t = s" using assms by (simp add: refresh_connected_wallet_def)
  then show ?thesis by (rule that(1))
next
  case Fetch_Failed
  then have "t = s" using assms by (simp add: refresh_connected_wallet_def)
  then show ?thesis by (rule that(1))
qed

lemma refresh_pins:
  assumes "refresh_connected_wallet fetched s = Some (r, t)"
  shows "session_pins s t"
  using assms
proof (cases rule: refresh_cases)
  case (4 a)
  then show ?thesis unfolding session_pins_def account_place_def [of t] by simp
qed (simp_all add: session_pins_refl replace_account_pins)

lemma refresh_ok: "refresh_connected_wallet fetched s = Some (r, t) \<Longrightarrow> wallet_ok s \<Longrightarrow> wallet_ok t"
  by (erule refresh_cases) (simp_all add: wallet_ok_def replace_account_def)

lemma connect_cases:
  assumes "connect_wallet outcome s = Some (r, t)"
  obtains a where "on_testnet a" "w_account t = Some a" "w_session t = Suc (w_session s)"
  | "w_account t = None" "w_session t = Suc (w_session s)"
proof (cases "rbind outcome (\<lambda>a. rbind (assert_wallet_testnet a) (\<lambda>_. Inr a))")
  case (Inl e)
  then have "t = (replace_account None s)\<lparr>w_error := Some e, w_busy := False\<rparr>"
    using assms by (simp add: connect_wallet_def)
  then show ?thesis using that(2) by (simp add: replace_account_def)
next
  case (Inr a)
  then have "on_testnet a" by (auto simp: res_simps)
  moreover have "t = (replace_account (Some a) s)\<lparr>w_error := None, w_busy := False\<rparr>"
    using assms Inr by (simp add: connect_wallet_def)
  ultimately show ?thesis using that(1) [of a] by (simp add: replace_account_def)
qed

lemma connect_pins: "connect_wallet outcome s = Some (r, t) \<Longrightarrow> session_pins s t"
  by (erule connect_cases) (simp_all add: session_pins_def)

lemma connect_ok: "connect_wallet outcome s = Some (r, t) \<Longrightarrow> wallet_ok t"
  by (erule connect_cases) (simp_all add: wallet_ok_def)

lemma wallet_step_ok: "wallet_step s t \<Longrightarrow> wallet_ok s \<Longrightarrow> wallet_ok t"
proof (induction rule: wallet_step.induct)
  case (disconnect s)
  then show ?case by (simp add: disconnect_wallet_def replace_account_def wallet_ok_def)
next
  case (busy s b e)
  then show ?case by (simp add: wallet_ok_def)
qed (erule handle_event_ok, erule refresh_ok, assumption, erule connect_ok)

lemma wallet_step_pins: "wallet_step s t \<Longrightarrow> session_pins s t"
proof (induction rule: wallet_step.induct)
  case (disconnect s)
  then show ?case by (simp add: disconnect_wallet_def replace_account_pins)
next
  case (busy s b e)
  then show ?case by (simp add: session_pins_def account_place_def)
qed (rule handle_event_pins, erule refresh_pins, erule connect_pins)

lemma session_pins_trans: "session_pins s t \<Longrightarrow> session_pins t u \<Longrightarrow> session_pins s u"
  by (auto simp: session_pins_def)

lemma wallet_steps_pin: "wallet_step\<^sup>*\<^sup>* s t \<Longrightarrow> session_pins s t"
  by (induction rule: rtranclp_induct) (auto simp: session_pins_refl dest: wallet_step_pins intro: session_pins_trans)

interpretation wallet: machine "\<lambda>s. s = initial_wallet" wallet_step wallet_ok
proof
  fix s t :: wallet_state
  show "s = initial_wallet \<Longrightarrow> wallet_ok s" by (simp add: wallet_ok_def initial_wallet_def)
  show "wallet_step s t \<Longrightarrow> wallet_ok s \<Longrightarrow> wallet_ok t" by (rule wallet_step_ok)
qed

text \<open>Events and refreshes are steps.\<close>

lemma handle_events_steps: "wallet_step\<^sup>*\<^sup>* s (handle_events es s)"
  unfolding handle_events_def
proof (induction es arbitrary: s)
  case (Cons e es)
  have "wallet_step s (handle_wallet_event e s)" by (rule wallet_step.event)
  with Cons [of "handle_wallet_event e s"] show ?case by (simp add: converse_rtranclp_into_rtranclp)
qed simp

section \<open>What the checks give\<close>

lemma io_bind_Inr:
  "io_bind m f w = Some (Inr y, w2) \<longleftrightarrow> (\<exists>x w1. m w = Some (Inr x, w1) \<and> f x w1 = Some (Inr y, w2))"
  by (auto simp: io_bind_def split: option.splits sum.splits)

lemma context_Inr:
  "assert_wallet_context transaction address session s = Inr u \<longleftrightarrow>
     w_session s = session \<and> get transaction ''Account'' = JStr address \<and>
     (\<exists>a. w_account s = Some a \<and> wa_address a = address \<and> on_testnet a)"
  by (auto simp: assert_wallet_context_def assert_transaction_signer_def res_simps split: option.splits)

lemma wallet_parts:
  "awaiting es s = Some (r, t) \<longleftrightarrow> r = Inr () \<and> t = handle_events es s"
  "context_still transaction address session s = Some (Inr u, t) \<longleftrightarrow>
     assert_wallet_context transaction address session s = Inr () \<and> t = s"
  "io_lift v s = Some (Inr x, t) \<longleftrightarrow> v = Inr x \<and> t = s"
  "io_read g s = Some (Inr y, t) \<longleftrightarrow> y = g s \<and> t = s"
  "io_return z s = Some (Inr z', t) \<longleftrightarrow> z' = z \<and> t = s"
  "io_modify h s = Some (Inr w, t) \<longleftrightarrow> t = h s"
  by (auto simp: awaiting_def context_still_def io_defs io_modify_def)

lemma connected_address_Inr:
  "connected_address transaction s = Some (Inr address, t) \<longleftrightarrow>
     t = s \<and> get transaction ''Account'' = JStr address \<and> (\<exists>a. w_account s = Some a \<and> wa_address a = address \<and> on_testnet a)"
  by (auto simp: connected_address_def assert_transaction_signer_def res_simps split: option.splits)

text \<open>The wallet when it is asked to sign: in the session and with the account that were captured.\<close>

definition wallet_asked :: "wallet_world \<Rightarrow> jsval \<Rightarrow> capture \<Rightarrow> effect list \<Rightarrow> wallet_state \<Rightarrow> bool" where
  "wallet_asked world transaction cap t s \<longleftrightarrow>
     w_session s = cp_session cap \<and> (\<exists>a. w_account s = Some a \<and> wa_address a = cp_address cap \<and> on_testnet a) \<and>
     ww_profile world t = Inr (cp_profile cap) \<and>
     is_ok (get_network_readiness (ww_readiness world t) (profile_id (cp_profile cap))) \<and>
     (\<exists>answer. ww_sign world t transaction = Inr answer)"

lemma same_profile_eq: "same_wallet_profile p q \<longleftrightarrow> p = q"
  by (auto simp: same_wallet_profile_def)

lemma sign_with_wallet_Inr:
  assumes "sign_with_wallet lib world transaction cap t s = Some (Inr r, s')"
  shows "get transaction ''Account'' = JStr (cp_address cap) \<and> wallet_asked world transaction cap t s' \<and> wallet_step\<^sup>*\<^sup>* s s' \<and>
    (\<exists>answer. ww_sign world t transaction = Inr answer \<and> normalize_wallet_signature lib answer = Inr r)"
proof -
  obtain s1 latest ready s2 s3 where s1: "s1 = handle_events (ww_events world t 0) s"
    and p: "ww_profile world t = Inr latest" "same_wallet_profile (cp_profile cap) latest"
    and ready: "get_network_readiness (ww_readiness world t) (profile_id (cp_profile cap)) = Inr ready"
    and s2: "s2 = handle_events (ww_events world t 1) s1"
    and s3: "refresh_connected_wallet (ww_fetched world t) s2 = Some (Inr (), s3)"
    and ctx: "assert_wallet_context transaction (cp_address cap) (cp_session cap) s3 = Inr ()" and s': "s' = s3"
    and signed: "(case ww_sign world t transaction of
        Inl error \<Rightarrow> Inl (normalize_wallet_transaction_error error (ww_wallet_id world t) (get transaction ''TransactionType''))
      | Inr answer \<Rightarrow> normalize_wallet_signature lib answer) = Inr r"
    using assms unfolding sign_with_wallet_def io_bind_Inr wallet_parts
    by (elim exE conjE) (rule that, simp_all split: if_split_asm)
  obtain answer where answer: "ww_sign world t transaction = Inr answer" "normalize_wallet_signature lib answer = Inr r"
    using signed by (auto split: sum.splits)
  have "wallet_step s2 s3" using s3 by (rule wallet_step.refresh)
  moreover have "wallet_step\<^sup>*\<^sup>* s s2" unfolding s1 s2 using handle_events_steps by (rule rtranclp_trans) (rule handle_events_steps)
  ultimately have "wallet_step\<^sup>*\<^sup>* s s3" by simp
  then show ?thesis
    using answer p ready ctx s' unfolding context_Inr wallet_asked_def same_profile_eq by (auto simp: is_ok_iff)
qed

lemma busy_steps: "wallet_step\<^sup>*\<^sup>* s t \<Longrightarrow> wallet_step\<^sup>*\<^sup>* s (t\<lparr>w_busy := b, w_error := e\<rparr>)"
  by (erule rtranclp.rtrancl_into_rtrancl) (rule wallet_step.busy)

lemma begin_submission_Inr:
  assumes "begin_submission lib world preview transaction business s = Some (Inr cap, s')"
  shows "\<exists>p. preview = Some p \<and> cp_session cap = pv_session p \<and> cp_profile cap = pv_profile p \<and>
    get transaction ''Account'' = JStr (cp_address cap) \<and> ww_profile world [] = Inr (cp_profile cap) \<and>
    normalized_business lib business = Inr (cp_business cap) \<and> wallet_step\<^sup>*\<^sup>* s s'"
proof -
  obtain s1 s2 address p session active normalized where
    steps: "refresh_connected_wallet (ww_fetched world []) (handle_events (ww_events world [] 0) s) = Some (Inr (), s1)"
      "s2 = handle_events (ww_events world [] 1) s1" "s' = s2\<lparr>w_busy := True, w_error := None\<rparr>"
    and addr: "get transaction ''Account'' = JStr address"
    and p: "preview = Some p" "pv_session p = session" "same_wallet_profile (pv_profile p) active" "ww_profile world [] = Inr active"
      "normalized_business lib business = Inr normalized"
    and cap: "cap = \<lparr>cp_session = session, cp_address = address, cp_profile = active, cp_business = normalized\<rparr>"
    using assms unfolding begin_submission_def io_bind_Inr wallet_parts connected_address_Inr
    by (elim exE conjE) (rule that, simp_all split: if_split_asm option.splits)
  have "wallet_step\<^sup>*\<^sup>* s s1"
    using handle_events_steps wallet_step.refresh [OF steps(1)] by (rule rtranclp.rtrancl_into_rtrancl)
  then have "wallet_step\<^sup>*\<^sup>* s s2" unfolding steps(2) by (rule rtranclp_trans) (rule handle_events_steps)
  then have "wallet_step\<^sup>*\<^sup>* s s'" unfolding steps(3) by (rule busy_steps)
  with addr p cap show ?thesis by (simp add: same_profile_eq)
qed

lemma open_operation_Inr:
  assumes "open_operation lib world transaction cap ops s = Some (Inr created, s')"
  shows "wallet_step\<^sup>*\<^sup>* s s' \<and> create_operation lib (operation_seed_of world cap transaction) ops = Inr created"
  using assms handle_events_steps [of s "ww_events world [] 2"]
  unfolding open_operation_def io_bind_Inr wallet_parts
  by (auto split: sum.splits)

section \<open>What is sent\<close>

text \<open>An effect that happened, with the history before it; and what holds of every blob that was sent when it was sent.\<close>

definition happened :: "(effect list \<Rightarrow> effect \<Rightarrow> bool) \<Rightarrow> effect list \<Rightarrow> bool" where
  "happened P h \<longleftrightarrow> (\<exists>pre ev post. h = pre @ ev # post \<and> P pre ev)"

definition sent_only :: "(jstr \<Rightarrow> effect list \<Rightarrow> bool) \<Rightarrow> effect list \<Rightarrow> bool" where
  "sent_only Q h \<longleftrightarrow> (\<forall>pre b post. h = pre @ Sent b # post \<longrightarrow> Q b pre)"

lemma happened_append:
  assumes "happened P h"
  shows "happened P (h @ new)"
proof -
  obtain pre ev post where "h = pre @ ev # post" "P pre ev" using assms by (auto simp: happened_def)
  then have "h @ new = pre @ ev # (post @ new)" "P pre ev" by simp_all
  then show ?thesis unfolding happened_def by blast
qed

lemma happened_snoc: "P h ev \<Longrightarrow> happened P (h @ [ev])"
  unfolding happened_def by blast

lemma happened_quiet: "quiet t h \<Longrightarrow> happened P t \<Longrightarrow> happened P h"
  by (auto simp: quiet_def intro: happened_append)

lemma sent_only_quiet:
  assumes "quiet t h" and "sent_only Q t"
  shows "sent_only Q h"
  unfolding sent_only_def
proof (intro allI impI)
  fix pre b post
  assume h: "h = pre @ Sent b # post"
  obtain new where new: "h = t @ new" "Sent b \<notin> set new" using assms(1) by (auto simp: quiet_def)
  have "pre @ Sent b # post = t @ new" using h new(1) by simp
  then obtain us where "(pre = t @ us \<and> us @ Sent b # post = new) \<or> (pre @ us = t \<and> Sent b # post = us @ new)"
    unfolding append_eq_append_conv2 by blast
  then obtain us' where "t = pre @ Sent b # us'"
    using new(2) by (cases us) auto
  then show "Q b pre" using assms(2) by (auto simp: sent_only_def)
qed

lemma sent_only_send:
  assumes "\<not> sends h" and "Q b h"
  shows "sent_only Q (h @ [Sent b])"
  unfolding sent_only_def
proof (intro allI impI)
  fix pre b' post
  assume eq: "h @ [Sent b] = pre @ Sent b' # post"
  show "Q b' pre"
  proof (cases post rule: rev_cases)
    case Nil
    then show ?thesis using eq assms(2) by simp
  next
    case (snoc ys y)
    then have "h = pre @ Sent b' # ys" using eq by simp
    then show ?thesis using assms(1) by (auto simp: sends_def)
  qed
qed

lemma unsent_sent_only: "\<not> sends h \<Longrightarrow> sent_only Q h"
  by (auto simp: sent_only_def sends_def)

lemma relay_sent_only:
  "io_ok (\<lambda>h. \<not> sends h \<and> Q tx_blob h) (relay env options operation tx_blob tx_hash lls) (\<lambda>_. sent_only Q) (sent_only Q)"
proof -
  have send: "io_ok (\<lambda>h. \<not> sends h \<and> Q tx_blob h) (send_blob env operation tx_blob tx_hash lls) (\<lambda>_. sent_only Q) (sent_only Q)"
    unfolding send_blob_def
    apply (rule io_ok_read_bind)
    apply (rule io_ok_bind, rule io_ok_effect [where Q = "\<lambda>_. sent_only Q"])
      apply (simp_all add: sent_only_send)
    apply (rule io_quiet_ok [OF acknowledge_quiet sent_only_quiet], assumption+)
    done
  show ?thesis
    unfolding relay_def
    apply (rule io_ok_bind, rule send)
    apply (rule io_quiet_ok [OF _ sent_only_quiet])
      apply (intro quiet_intros)
    apply assumption+
    done
qed

text \<open>The events a submission through the wallet rests on.\<close>

definition asked_signer :: "submission_env \<Rightarrow> jsval \<Rightarrow> effect list \<Rightarrow> bool" where
  "asked_signer env transaction = happened (\<lambda>pre ev. ev = Asked_Signer transaction \<and> env_sign env pre \<noteq> None)"

definition passed_guard :: "submission_env \<Rightarrow> effect list \<Rightarrow> bool" where
  "passed_guard env = happened (\<lambda>pre ev. (\<exists>vs. ev = Called_Before_Submit vs) \<and> env_before_submit_ok env pre)"

lemma operation_given: "opt_operation_id options = Some operation \<Longrightarrow> io_bind (operation_id_of env options) f = f operation"
  by (simp add: operation_id_of_def io_defs)

lemma io_ok_append:
  assumes "\<And>h. P h \<Longrightarrow> Q () (h @ [Appended e])" and "\<And>h. P h \<Longrightarrow> E (h @ [Append_Failed e])"
  shows "io_ok P (append_entry env e) Q E"
  using assms by (auto simp: io_ok_def append_entry_def split: if_split_asm)

lemma sends_snoc [simp]: "sends (h @ [ev]) \<longleftrightarrow> sends h \<or> (\<exists>b. ev = Sent b)"
  by (auto simp: sends_def)

lemma submit_guarded:
  assumes opt: "opt_before_submit options" "opt_operation_id options = Some operation"
    and entry: "\<And>h e. P h \<Longrightarrow> entry_operation e = operation \<Longrightarrow> entry_stage e = Signed \<Longrightarrow> P (h @ [Appended e])"
    and guard: "\<And>h vs. P h \<Longrightarrow> P (h @ [Called_Before_Submit vs])"
  shows "io_ok (\<lambda>h. \<not> sends h \<and> P h) (submit_signed_transaction lib env tx_blob options)
    (\<lambda>_. sent_only (\<lambda>b h. b = tx_blob \<and> P h \<and> passed_guard env h))
    (sent_only (\<lambda>b h. b = tx_blob \<and> P h \<and> passed_guard env h))"
    (is "io_ok ?P _ (\<lambda>_. ?S) ?S")
proof -
  let ?Q = "\<lambda>b h. b = tx_blob \<and> P h \<and> passed_guard env h"
  have unsent: "\<not> sends h \<Longrightarrow> ?S h" for h by (rule unsent_sent_only)
  have append: "io_ok ?P (append_entry env e) (\<lambda>_. ?P) ?S" if "entry_operation e = operation" "entry_stage e = Signed" for e
    by (rule io_ok_append) (simp_all add: that entry unsent)
  have failing: "io_ok ?P (append_entry env e) (\<lambda>_ h. \<not> sends h) ?S" for e
    by (rule io_ok_append) (simp_all add: unsent)
  have guarded: "io_ok ?P (guard_before_submit env options vs) (\<lambda>_ h. \<not> sends h \<and> ?Q tx_blob h) ?S"
    if "vs_operation vs = operation" for vs
    unfolding guard_before_submit_def
  proof (simp only: opt if_True, rule io_ok_catch)
    show "io_ok ?P
        (io_effect (Called_Before_Submit vs) (\<lambda>t. if env_before_submit_ok env t then Inr () else Inl OtherErr))
        (\<lambda>_ h. \<not> sends h \<and> ?Q tx_blob h) ?P"
      by (rule io_ok_effect) (simp_all add: passed_guard_def happened_snoc guard split: if_split_asm)
    show "io_ok ?P (io_bind (append_entry env e) (\<lambda>_. io_lift (Inl error))) (\<lambda>_ h. \<not> sends h \<and> ?Q tx_blob h) ?S" for e error
      by (rule io_ok_bind [OF failing], rule io_ok_lift) (auto intro: unsent)
  qed
  show ?thesis
    unfolding submit_signed_transaction_def operation_given [OF opt(2)]
    apply (intro io_ok_connected io_ok_lift_bind)
      apply clarsimp
      apply (rule io_ok_bind [OF append])
        apply simp_all
      apply (rule io_ok_bind [OF guarded])
       apply simp
      apply (rule relay_sent_only)
     apply (auto intro: unsent)
    done
qed

text \<open>\<open>R\<close> is what the journal then says of the blob.\<close>

lemma sign_prepared_guarded:
  assumes opt: "opt_before_submit options" "opt_operation_id options = Some operation" "opt_on_validated_signature options"
    and signed: "\<And>h vs. env_on_signature_ok env h \<Longrightarrow> vs_operation vs = operation \<Longrightarrow> R (vs_tx_blob vs) (h @ [Called_On_Signature vs])"
    and entry: "\<And>h b e. R b h \<Longrightarrow> entry_operation e = operation \<Longrightarrow> entry_stage e = Signed \<Longrightarrow> R b (h @ [Appended e])"
    and guard: "\<And>h b vs. R b h \<Longrightarrow> R b (h @ [Called_Before_Submit vs])"
  shows "io_ok (\<lambda>h. \<not> sends h) (sign_prepared_and_submit lib env transaction options)
    (\<lambda>_. sent_only (\<lambda>b h. R b h \<and> asked_signer env transaction h \<and> passed_guard env h))
    (sent_only (\<lambda>b h. R b h \<and> asked_signer env transaction h \<and> passed_guard env h))"
    (is "io_ok _ _ (\<lambda>_. ?S) ?S")
proof -
  let ?P = "\<lambda>b h. R b h \<and> asked_signer env transaction h"
  have unsent: "\<not> sends h \<Longrightarrow> ?S h" for h by (rule unsent_sent_only)
  have failing: "io_ok (\<lambda>h. \<not> sends h \<and> P h) m Q (\<lambda>h. \<not> sends h) \<Longrightarrow>
      io_ok (\<lambda>h. \<not> sends h \<and> P h) (failing_entry env operation lls m) Q ?S" for P m lls and Q :: "'b \<Rightarrow> effect list \<Rightarrow> bool"
    unfolding failing_entry_def
    apply (rule io_ok_catch, assumption)
    apply (rule io_ok_bind [where R = "\<lambda>_ h. \<not> sends h"])
     apply (rule io_ok_append)
      apply (simp_all add: unsent)
    apply (rule io_ok_lift)
     apply (simp_all add: unsent)
    done
  have asked: "io_ok (\<lambda>h. \<not> sends h \<and> True)
      (io_effect (Asked_Signer transaction) (\<lambda>t. check_signer_answer lib options transaction (env_sign env t)))
      (\<lambda>_ h. \<not> sends h \<and> asked_signer env transaction h) (\<lambda>h. \<not> sends h)"
  proof (rule io_ok_effect)
    fix h x
    assume "\<not> sends h \<and> True" and "check_signer_answer lib options transaction (env_sign env h) = Inr x"
    then show "\<not> sends (h @ [Asked_Signer transaction]) \<and> asked_signer env transaction (h @ [Asked_Signer transaction])"
      by (auto simp: asked_signer_def check_signer_answer_def intro!: happened_snoc split: option.splits)
  qed simp
  have persisted: "io_ok (\<lambda>h. \<not> sends h \<and> asked_signer env transaction h)
      (io_effect (Called_On_Signature vs) (\<lambda>t. if env_on_signature_ok env t then Inr () else Inl OtherErr))
      (\<lambda>_ h. \<not> sends h \<and> ?P (vs_tx_blob vs) h) (\<lambda>h. \<not> sends h)" if "vs_operation vs = operation" for vs
    by (rule io_ok_effect) (simp_all add: signed that asked_signer_def happened_append split: if_split_asm)
  have obtain_it: "io_ok (\<lambda>h. \<not> sends h \<and> True) (obtain_signature lib env options operation transaction)
      (\<lambda>b h. \<not> sends h \<and> ?P b h) ?S"
    unfolding obtain_signature_def eqTrueI [OF opt(3)] if_True case_prod_beta
    apply (rule io_ok_bind [OF failing [OF asked]])
    apply (rule io_ok_bind [OF failing [OF persisted]], simp)
    apply (rule io_ok_return, simp)
    done
  have keep: "asked_signer env transaction h \<Longrightarrow> asked_signer env transaction (h @ new)" for h new
    by (simp add: asked_signer_def happened_append)
  have submit: "io_ok (\<lambda>h. \<not> sends h \<and> ?P b h)
      (submit_signed_transaction lib env b (options\<lparr>opt_operation_id := Some operation\<rparr>)) (\<lambda>_. ?S) ?S" for b
    by (rule io_ok_weaken [OF submit_guarded [where P = "?P b" and operation = operation]])
      (auto simp: opt sent_only_def intro: entry guard keep)
  show ?thesis
    unfolding sign_prepared_and_submit_def operation_given [OF opt(2)]
    apply (intro io_ok_connected io_ok_lift_bind)
      apply (rule append_entry_sent [OF _ append_entry_quiet])
       apply (rule io_ok_bind [OF io_ok_weaken [OF obtain_it] submit])
         apply (auto intro: unsent)
    done
qed

section \<open>A submission through the wallet\<close>

lemma wallet_options_simps [simp]:
  "opt_before_submit (wallet_options world)" "opt_on_validated_signature (wallet_options world)"
  "opt_operation_id (wallet_options world) = Some (ww_uuid world)"
  by (simp_all add: wallet_options_def)

lemma finish_submission_effects:
  "finish_submission lib world i business ops after_ledger run = Some r \<Longrightarrow> wr_effects r = snd run"
  by (cases run; cases "fst run")
    (auto simp: finish_submission_def split: sum.splits if_splits option.splits prod.splits)

text \<open>A run with effects is one of the SDK, from a wallet that a preview was made with.\<close>

lemma sign_and_submit_run:
  assumes "sign_and_submit lib app world preview transaction business ops s = Some (run, s', preview')" and "wr_effects run \<noteq> []"
  shows "\<exists>cap s1 s2 created result. begin_submission app world preview transaction business s = Some (Inr cap, s1) \<and>
    open_operation app world transaction cap ops s1 = Some (Inr created, s2) \<and>
    sign_prepared_and_submit lib (operation_env lib app world transaction cap s2 created) transaction (wallet_options world) [] =
      Some (result, wr_effects run)"
proof -
  obtain cap s1 where first: "begin_submission app world preview transaction business s = Some (Inr cap, s1)"
    using assms unfolding sign_and_submit_def by (auto split: option.splits sum.splits)
  obtain created s2 where second: "open_operation app world transaction cap ops s1 = Some (Inr created, s2)"
    using assms first unfolding sign_and_submit_def by (auto split: option.splits sum.splits)
  obtain result h where third: "sign_prepared_and_submit lib (operation_env lib app world transaction cap s2 created) transaction
      (wallet_options world) [] = Some (result, h)"
    and "finish_submission app world (ww_uuid world) (cp_business cap) created True (result, h) = Some run"
    using assms first second unfolding sign_and_submit_def by (auto split: option.splits)
  then show ?thesis using first second finish_submission_effects by fastforce
qed

lemma operation_env_simps:
  "env_sign (operation_env lib app world transaction cap s ops) t =
     (case sign_with_wallet lib world transaction cap t s of Some (Inr r, _) \<Rightarrow> Some r | _ \<Rightarrow> None)"
  "env_on_signature_ok (operation_env lib app world transaction cap s ops) t =
     persistable app (ww_uuid world) (journal_at app world ops t 0)"
  "env_before_submit_ok (operation_env lib app world transaction cap s ops) t = is_ok (before_submit world cap t)"
  by (simp_all add: operation_env_def)

lemma before_submit_Inr:
  assumes "is_ok (before_submit world cap t)"
  shows "ww_profile world t = Inr (cp_profile cap) \<and> business_generation_current world (cp_business cap) t = Inr () \<and>
    is_ok (get_network_readiness (ww_readiness world t) (profile_id (cp_profile cap))) \<and> ww_after_signature world t"
  using assms by (auto simp: before_submit_def is_ok_iff res_simps same_profile_eq split: if_splits)

text \<open>When a blob was sent: the wallet was asked before, and the guard passed after it.\<close>

lemma sent_guarded:
  assumes "sign_prepared_and_submit lib (operation_env lib app world transaction cap s ops) transaction (wallet_options world) [] =
      Some (result, h)"
    and "\<And>h b vs. persistable app (ww_uuid world) (journal_at app world ops h 0) \<Longrightarrow> vs_operation vs = ww_uuid world \<Longrightarrow>
      R (vs_tx_blob vs) (h @ [Called_On_Signature vs])"
    and "\<And>h b e. R b h \<Longrightarrow> entry_operation e = ww_uuid world \<Longrightarrow> entry_stage e = Signed \<Longrightarrow> R b (h @ [Appended e])"
    and "\<And>h b vs. R b h \<Longrightarrow> R b (h @ [Called_Before_Submit vs])"
  shows "sent_only (\<lambda>b pre. R b pre \<and>
      (\<exists>t rest w. pre = t @ Asked_Signer transaction # rest \<and> wallet_asked world transaction cap t w \<and> wallet_step\<^sup>*\<^sup>* s w) \<and>
      (\<exists>t vs rest. pre = t @ Called_Before_Submit vs # rest \<and> is_ok (before_submit world cap t))) h"
proof -
  let ?env = "operation_env lib app world transaction cap s ops"
  have ok: "io_ok (\<lambda>h. \<not> sends h) (sign_prepared_and_submit lib ?env transaction (wallet_options world))
    (\<lambda>_. sent_only (\<lambda>b h. R b h \<and> asked_signer ?env transaction h \<and> passed_guard ?env h))
    (sent_only (\<lambda>b h. R b h \<and> asked_signer ?env transaction h \<and> passed_guard ?env h))"
    by (rule sign_prepared_guarded [where operation = "ww_uuid world"]) (use assms(2-4) in \<open>auto simp: operation_env_simps\<close>)
  have "\<not> sends []" by (simp add: sends_def)
  then have "sent_only (\<lambda>b h. R b h \<and> asked_signer ?env transaction h \<and> passed_guard ?env h) h"
    using io_okD(1) [OF ok, of "[]" _ h] io_okD(2) [OF ok, of "[]" _ h] assms(1) by (cases result) auto
  moreover have "\<exists>t rest w. pre = t @ Asked_Signer transaction # rest \<and> wallet_asked world transaction cap t w \<and> wallet_step\<^sup>*\<^sup>* s w"
    if asked: "asked_signer ?env transaction pre" for pre
  proof -
    obtain t rest where pre: "pre = t @ Asked_Signer transaction # rest" "env_sign ?env t \<noteq> None"
      using asked by (auto simp: asked_signer_def happened_def)
    then obtain r w where "sign_with_wallet lib world transaction cap t s = Some (Inr r, w)"
      by (auto simp: operation_env_simps split: option.splits sum.splits)
    from sign_with_wallet_Inr [OF this] pre(1) show ?thesis by blast
  qed
  moreover have "\<exists>t vs rest. pre = t @ Called_Before_Submit vs # rest \<and> is_ok (before_submit world cap t)"
    if "passed_guard ?env pre" for pre
    using that by (auto simp: passed_guard_def happened_def operation_env_simps)
  ultimately show ?thesis unfolding sent_only_def by blast
qed

section \<open>The journal of a submission\<close>

text \<open>Other tabs leave the operation of this tab as it is.\<close>

definition tabs_keep :: "wallet_world \<Rightarrow> bool" where
  "tabs_keep world \<longleftrightarrow> (\<forall>t n ops. find_operation (ww_uuid world) (ww_tabs world t n ops) = find_operation (ww_uuid world) ops)"

definition journaled :: "'x app_lib_scheme \<Rightarrow> wallet_world \<Rightarrow> store \<Rightarrow> jstr \<Rightarrow> effect list \<Rightarrow> bool" where
  "journaled lib world ops b h \<longleftrightarrow>
     (\<exists>op. find_operation (ww_uuid world) (store_after lib world ops (rev h)) = Some op \<and> op_stage op = Signed \<and> op_blob op = Some b)"

lemma find_put: "find_operation (op_id op) (put_operation op ops) = Some op"
proof -
  have "find_operation (op_id op) (map (\<lambda>q. if op_id q = op_id op then op else q) ops) = Some op"
    if "list_ex (\<lambda>q. op_id q = op_id op) ops" for ops
    using that by (induction ops) (auto simp: find_operation_def)
  moreover have "find_operation (op_id op) (ops @ [op]) = Some op" if "\<not> list_ex (\<lambda>q. op_id q = op_id op) ops" for ops
    using that by (induction ops) (auto simp: find_operation_def)
  ultimately show ?thesis by (simp add: put_operation_def)
qed

lemma store_after_snoc:
  "store_after lib world ops (rev (h @ [e])) = store_effect lib (ww_time world h) e (journal_at lib world ops h 0)"
  by (simp add: journal_at_def)

lemma journaled_signed:
  assumes "persistable lib (ww_uuid world) (journal_at lib world ops h 0)" and "vs_operation vs = ww_uuid world"
  shows "journaled lib world ops (vs_tx_blob vs) (h @ [Called_On_Signature vs])"
proof -
  let ?at = "journal_at lib world ops h 0"
  obtain op where op: "find_operation (ww_uuid world) ?at = Some op" "op_stage op = Prepared"
    "\<not> other_holder lib (stored_key lib op) (op_id op) ?at"
    using assms(1) by (auto simp: persistable_def is_ok_iff persist_signed_def split: option.splits if_splits)
  let ?op = "op\<lparr>op_updated := ww_time world h, op_stage := Signed, op_hash := Some (vs_tx_hash vs),
    op_blob := Some (vs_tx_blob vs), op_last_ledger := vs_last_ledger_sequence vs\<rparr>"
  have "store_after lib world ops (rev (h @ [Called_On_Signature vs])) = put_operation ?op ?at"
    unfolding store_after_snoc using op assms(2) by (simp add: persist_signed_def)
  moreover have "op_id ?op = ww_uuid world" using find_operation_Some [OF op(1)] by simp
  ultimately show ?thesis using find_put [of ?op ?at] by (simp add: journaled_def)
qed

lemma journaled_entry:
  assumes "tabs_keep world" and "journaled lib world ops b h" and "entry_operation e = ww_uuid world" and "entry_stage e = Signed"
  shows "journaled lib world ops b (h @ [Appended e])"
proof -
  obtain op where op: "find_operation (ww_uuid world) (journal_at lib world ops h 0) = Some op" "op_stage op = Signed"
    "op_blob op = Some b"
    using assms(1,2) by (auto simp: journaled_def tabs_keep_def journal_at_def)
  let ?op = "apply_journal_entry (ww_time world h) op e"
  have same: "op_stage ?op = Signed" "op_blob ?op = Some b" "op_id ?op = ww_uuid world"
    using op assms(4) find_operation_Some [OF op(1)] by (simp_all add: apply_journal_entry_def is_final_def)
  have "store_after lib world ops (rev (h @ [Appended e])) = put_operation ?op (journal_at lib world ops h 0)"
    unfolding store_after_snoc using op assms(3) by (simp add: append_to_journal_def mutate_def)
  then show ?thesis using same find_put [of ?op "journal_at lib world ops h 0"] by (simp add: journaled_def)
qed

lemma journaled_guard:
  "tabs_keep world \<Longrightarrow> journaled lib world ops b h \<Longrightarrow> journaled lib world ops b (h @ [Called_Before_Submit vs])"
  unfolding journaled_def store_after_snoc by (auto simp: journal_at_def tabs_keep_def)

section \<open>Recovery\<close>

lemma submit_signed_only:
  "io_ok (\<lambda>h. \<not> sends h) (submit_signed_transaction lib env tx_blob options)
     (\<lambda>_. sent_only (\<lambda>b _. b = tx_blob)) (sent_only (\<lambda>b _. b = tx_blob))"
proof -
  let ?S = "sent_only (\<lambda>b _. b = tx_blob)"
  have unsent: "\<not> sends h \<Longrightarrow> ?S h" for h by (rule unsent_sent_only)
  have calm: "io_quiet m \<Longrightarrow> io_ok (\<lambda>h. \<not> sends h) m (\<lambda>_ h. \<not> sends h) ?S" for m :: "unit sub"
    by (rule io_ok_weaken [OF io_quiet_ok [where P = "\<lambda>h. \<not> sends h"]]) (auto dest: sends_quiet intro: unsent)
  have relay: "io_ok (\<lambda>h. \<not> sends h) (relay env options operation tx_blob tx_hash lls) (\<lambda>_. ?S) ?S" for operation tx_hash lls
    by (rule io_ok_weaken [OF relay_sent_only [where Q = "\<lambda>b _. b = tx_blob"]]) auto
  show ?thesis
    unfolding submit_signed_transaction_def operation_id_of_def
    apply (intro io_ok_connected io_ok_read_bind io_ok_lift_bind)
      apply clarsimp
      apply (rule io_ok_bind [OF calm [OF append_entry_quiet]])
      apply (rule io_ok_bind [OF calm [OF guard_before_submit_quiet] relay])
     apply (auto intro: unsent)
    done
qed

lemma status_no_send: "get_transaction_status env tx_hash lls [] = Some (r, h) \<Longrightarrow> \<not> sends h"
  using get_transaction_status_quiet by (fastforce simp: io_quiet_def sends_def dest: sends_quiet)

lemma resume_sends:
  assumes "resume lib app world i ops op business status t = Some (r, h)" and "\<not> sends t" and "sends h"
  shows "ts_status status \<notin> {St_Validated, St_Expired} \<and> may_resubmit app world i ops op business t = Inr () \<and>
    sent_only (\<lambda>b _. b = the (op_blob op)) h"
proof -
  have open_status: "ts_status status \<notin> {St_Validated, St_Expired}"
    using assms
    by (auto simp: resume_def Let_def io_defs append_entry_def sends_def split: if_splits option.splits sum.splits)
  then have may: "may_resubmit app world i ops op business t = Inr ()"
    using assms by (auto simp: resume_def Let_def split: sum.splits)
  obtain r' where "submit_signed_transaction lib (operation_retry_env app world i ops) (the (op_blob op)) (operation_retry_options i) t = Some (r', h)"
    using assms(1) open_status may by (auto simp: resume_def Let_def)
  then have "sent_only (\<lambda>b _. b = the (op_blob op)) h"
    using io_okD(1) [OF submit_signed_only assms(2)] io_okD(2) [OF submit_signed_only assms(2)] by (cases r') auto
  then show ?thesis using open_status may by simp
qed

lemma begin_retry_Inr:
  assumes "begin_retry lib app world i ops = Inr (op, business)"
  shows "find_operation i ops = Some op \<and> can_retry_operation app op \<and>
    validate_stored_recovery_material lib (recovery_of op) = Inr () \<and> stored_business app op = Inr business \<and>
    (\<exists>active. ww_profile world [] = Inr active \<and> op_profile op = profile_id active \<and> op_network op = profile_network_id active)"
proof -
  obtain op' where op': "find_operation i ops = Some op'"
    using assms by (cases "find_operation i ops") (simp_all add: begin_retry_def)
  have can: "can_retry_operation app op'"
    and rest: "rbind (validate_stored_recovery_material lib (recovery_of op')) (\<lambda>_.
            rbind (ww_profile world []) (\<lambda>active.
            if op_profile op' \<noteq> profile_id active \<or> op_network op' \<noteq> profile_network_id active
            then wallet_fail ''OPERATION_NETWORK_PROFILE_MISMATCH''
            else
              rbind (ww_client world active) (\<lambda>_.
              rbind (lift_code (stored_business app op')) (\<lambda>business. Inr (op', business))))) = Inr (op, business)"
    using assms op' unfolding begin_retry_def by (simp_all split: if_split_asm)
  obtain u active b where checks: "validate_stored_recovery_material lib (recovery_of op') = Inr u" "ww_profile world [] = Inr active"
    "\<not> (op_profile op' \<noteq> profile_id active \<or> op_network op' \<noteq> profile_network_id active)"
    "lift_code (stored_business app op') = Inr b" and same: "Inr (op', b) = (Inr (op, business) :: wallet_error + _)"
    using rest unfolding rbind_eq_Inr if_Inl_eq_Inr by (elim exE conjE) (rule that)
  have "op' = op" "b = business" using same by simp_all
  with checks show ?thesis using op' can by (auto simp: lift_code_def split: sum.splits)
qed

text \<open>What a retry sends is the stored blob of an operation that is not finished, and that passed every check.\<close>

lemma retry_sends:
  assumes "retry_operation lib app world i ops = Some run" and "Sent blob \<in> set (wr_effects run)"
  shows "\<exists>op business status h. begin_retry lib app world i ops = Inr (op, business) \<and> op_blob op = Some blob \<and>
    get_transaction_status (operation_retry_env app world i ops) (the (op_hash op)) (Some (int_of (op_last_ledger op))) [] = Some (Inr status, h) \<and>
    ts_status status \<notin> {St_Validated, St_Expired} \<and> may_resubmit app world i ops op business h = Inr ()"
proof -
  obtain op business url where first: "begin_retry lib app world i ops = Inr (op, business)" "assert_public_rpc_url lib (ww_rpc_url world) = Inr url"
    using assms by (auto simp: retry_operation_def Let_def res_simps split: sum.splits)
  obtain r1 h where status: "get_transaction_status (operation_retry_env app world i ops) (the (op_hash op)) (Some (int_of (op_last_ledger op))) [] =
      Some (r1, h)"
    using get_transaction_status_total unfolding io_total_def by fast
  have quiet: "\<not> sends h" using status by (rule status_no_send)
  obtain status' where r1: "r1 = Inr status'"
    using assms first status quiet
    by (auto simp: retry_operation_def Let_def sends_def split: sum.splits)
  obtain r h' where again: "resume lib app world i ops op business status' h = Some (r, h')" and h': "wr_effects run = h'"
    using assms(1) first status r1
    by (auto simp: retry_operation_def Let_def split: sum.splits option.splits)
      (drule finish_submission_effects, simp)
  have "sends h'" using assms(2) h' by (auto simp: sends_def)
  note sent = resume_sends [OF again quiet this]
  obtain pre post where "h' = pre @ Sent blob # post" using assms(2) h' by (metis split_list)
  then have "the (op_blob op) = blob" using sent by (auto simp: sent_only_def)
  moreover have "op_blob op \<noteq> None"
    using begin_retry_Inr [OF first(1)] by (simp add: can_retry_operation_def)
  ultimately show ?thesis using first status r1 sent by auto
qed

end
