(* ===== verification/Wallet_Guarantees.thy ===== *)
theory Wallet_Guarantees
  imports App_Wallet_Safety App_Guarantees Sdk_Guarantees
begin

text \<open>
  The guarantees of the credential reviews and the wallet of the web application, each applied to a concrete credential, wallet
  and journal.
\<close>

section \<open>Reviews\<close>






























section \<open>Signing and submitting\<close>

text \<open>
  C7. What is sent is what was previewed, signed and journaled. When a submission through the wallet sends a blob, the operation
  was created in the journal before, and when the blob is sent the journal holds it as signed, unless another tab changes this very operation;
  it was signed after the wallet was asked to sign the previewed transaction, in the session of the preview, by the
  account of the transaction on Testnet, with the network profile of the preview and an indexer that was ready; and
  afterwards the generation of the Credential, the profile and the readiness were checked again.
\<close>

theorem sent_blobs_were_previewed:
  assumes "sign_and_submit lib app world preview transaction business ops s = Some (run, s', kept)"
    and "wr_effects run = pre @ Sent blob # post" and "tabs_keep world"
  shows "\<exists>p cap created op t w rest t' vs rest'. preview = Some p \<and> cp_session cap = pv_session p \<and> cp_profile cap = pv_profile p \<and>
    get transaction ''Account'' = JStr (cp_address cap) \<and> normalized_business app business = Inr (cp_business cap) \<and>
    create_operation app (operation_seed_of world cap transaction) ops = Inr created \<and>
    find_operation (ww_uuid world) (store_after app world created (rev pre)) = Some op \<and> op_stage op = Signed \<and> op_blob op = Some blob \<and>
    pre = t @ Asked_Signer transaction # rest \<and> wallet_step\<^sup>*\<^sup>* s w \<and> wallet_asked world transaction cap t w \<and>
    pre = t' @ Called_Before_Submit vs # rest' \<and> before_submit world cap t' = Inr ()"
proof -
  obtain cap s1 s2 created result where first: "begin_submission app world preview transaction business s = Some (Inr cap, s1)"
    and second: "open_operation app world transaction cap ops s1 = Some (Inr created, s2)"
    and third: "sign_prepared_and_submit lib (operation_env lib app world transaction cap s2 created) transaction (wallet_options world) [] =
      Some (result, wr_effects run)"
    using sign_and_submit_run [OF assms(1)] assms(2) by auto
  have "sent_only (\<lambda>b pre. journaled app world created b pre \<and>
      (\<exists>t rest w. pre = t @ Asked_Signer transaction # rest \<and> wallet_asked world transaction cap t w \<and> wallet_step\<^sup>*\<^sup>* s2 w) \<and>
      (\<exists>t vs rest. pre = t @ Called_Before_Submit vs # rest \<and> is_ok (before_submit world cap t))) (wr_effects run)"
    using third by (rule sent_guarded) (intro journaled_signed journaled_entry journaled_guard assms(3), assumption+)+
  then obtain t rest w t' vs rest' where sent: "journaled app world created blob pre" "pre = t @ Asked_Signer transaction # rest"
    "wallet_asked world transaction cap t w" "wallet_step\<^sup>*\<^sup>* s2 w" "pre = t' @ Called_Before_Submit vs # rest'"
    "is_ok (before_submit world cap t')"
    using assms(2) unfolding sent_only_def by blast
  obtain p where p: "preview = Some p" "cp_session cap = pv_session p" "cp_profile cap = pv_profile p"
    "get transaction ''Account'' = JStr (cp_address cap)" "normalized_business app business = Inr (cp_business cap)"
    and steps: "wallet_step\<^sup>*\<^sup>* s s1"
    using begin_submission_Inr [OF first] by blast
  have opened: "wallet_step\<^sup>*\<^sup>* s1 s2" "create_operation app (operation_seed_of world cap transaction) ops = Inr created"
    using open_operation_Inr [OF second] by simp_all
  have "wallet_step\<^sup>*\<^sup>* s w" using steps opened(1) sent(4) by (meson rtranclp_trans)
  moreover have "before_submit world cap t' = Inr ()" using sent(6) by (simp add: is_ok_iff)
  ultimately show ?thesis using sent p opened(2) unfolding journaled_def by blast
qed

section \<open>A sample submission\<close>

definition wallet_app :: app_lib where
  "wallet_app = sample_app\<lparr>parse_url := (\<lambda>s. Some \<lparr>url_protocol = lit ''wss:'', url_username = [], url_password = [],
     url_hostname = lit ''a.b'', url_host = lit ''a.b'', url_hash = [], url_href = s\<rparr>)\<rparr>"

definition ready_answer :: jsval where
  "ready_answer = JObj Plain [(lit ''profileId'', jlit ''t''), (lit ''status'', jlit ''ready''), (lit ''checkpoint'', JObj Plain
     [(lit ''ledgerIndex'', jint 9), (lit ''ledgerHash'', JStr sample_hash), (lit ''closeTime'', jint 90),
      (lit ''transactionRoot'', JStr sample_hash)])]"

definition sample_world :: wallet_world where
  "sample_world = \<lparr>ww_env = sample_env, ww_events = (\<lambda>_ _. []), ww_fetched = (\<lambda>_. Not_Fetched), ww_wallet_id = (\<lambda>_. Some (lit ''otsu'')),
     ww_sign = (\<lambda>_ _. Inr (JObj Plain [(lit ''tx_blob'', jlit ''1200'')])), ww_profile = (\<lambda>_. Inr sample_profile),
     ww_readiness = (\<lambda>_. Some ready_answer), ww_credential = (\<lambda>_. Inl Thrown_Elsewhere), ww_client = (\<lambda>_. Inr ()),
     ww_rpc_url = jlit ''wss://a.b'', ww_still_current = (\<lambda>_ _. True), ww_after_signature = (\<lambda>_. True), ww_after_ledger = (\<lambda>_. True),
     ww_uuid = lit ''id'', ww_time = (\<lambda>_. []), ww_tabs = (\<lambda>_ _ ops. ops), ww_confirm = (\<lambda>_. sample_confirm_env),
     ww_confirm_tabs = (\<lambda>_ _ ops. ops)\<rparr>"

definition sample_wallet :: wallet_state where
  "sample_wallet = \<lparr>w_session = 1, w_account = Some \<lparr>wa_address = lit ''rSub'', wa_network = lit ''testnet''\<rparr>, w_error = None,
     w_busy = False\<rparr>"

definition sample_preview :: preview where
  "sample_preview = \<lparr>pv_transaction = sample_prepared, pv_profile = sample_profile, pv_session = 1\<rparr>"

definition sample_capture :: capture where
  "sample_capture = \<lparr>cp_session = 1, cp_address = lit ''rSub'', cp_profile = sample_profile, cp_business = None\<rparr>"

lemma sample_account: "get sample_prepared ''Account'' = jlit ''rSub''" "get sample_prepared ''TransactionType'' = jlit ''CredentialAccept''"
  by (simp_all add: sample_prepared_def prop_of_JObj)

lemma sample_world_simps [simp]:
  "ww_env sample_world = sample_env" "ww_events sample_world t n = []" "ww_fetched sample_world t = Not_Fetched"
  "ww_wallet_id sample_world t = Some (lit ''otsu'')" "ww_sign sample_world t v = Inr (JObj Plain [(lit ''tx_blob'', jlit ''1200'')])"
  "ww_profile sample_world t = Inr sample_profile" "ww_readiness sample_world t = Some ready_answer"
  "ww_client sample_world p = Inr ()" "ww_rpc_url sample_world = jlit ''wss://a.b''" "ww_still_current sample_world t n"
  "ww_after_signature sample_world t" "ww_uuid sample_world = lit ''id''" "ww_time sample_world t = []" "ww_tabs sample_world t n ops = ops"
  by (simp_all add: sample_world_def)

lemma sample_ready: "\<exists>r. get_network_readiness (Some ready_answer) (profile_id sample_profile) = Inr r"
  by (simp add: get_network_readiness_def parse_signing_readiness_def ready_answer_def prop_of_JObj sample_profile_def Let_def uint32_max_def)

lemma sample_rpc: "assert_public_rpc_url wallet_app (jlit ''wss://a.b'') = Inr (lit ''wss://a.b'')"
proof -
  have "js_trim (lit ''wss://a.b'') = lit ''wss://a.b''" by code_simp
  then show ?thesis by (simp add: assert_public_rpc_url_def wallet_app_def)
qed

lemma sample_support: "assert_wallet_supports_xcs_transaction (Some (lit ''otsu'')) v = Inr ()"
proof -
  have "wallet_credential_support (lit ''otsu'') = Unverified" by code_simp
  then show ?thesis by (simp add: assert_wallet_supports_xcs_transaction_def split: option.splits)
qed

lemma sample_begin:
  "begin_submission wallet_app sample_world (Some sample_preview) sample_prepared JUndef sample_wallet =
     Some (Inr sample_capture, sample_wallet\<lparr>w_busy := True\<rparr>)"
  using sample_rpc sample_support
  by (simp add: begin_submission_def io_defs io_modify_def awaiting_def handle_events_def refresh_connected_wallet_def connected_address_def
      context_still_def assert_wallet_context_def assert_wallet_testnet_def on_testnet_def assert_transaction_signer_def sample_account
      normalized_business_def still_current_def same_profile_eq sample_wallet_def sample_preview_def sample_capture_def)

definition sample_created :: stored_operation where
  "sample_created = \<lparr>op_id = lit ''id'', op_account = lit ''rSub'', op_profile = lit ''t'', op_network = 2,
     op_type = lit ''CredentialAccept'', op_created = [], op_business = JUndef, op_updated = [], op_stage = Prepared, op_hash = None,
     op_blob = None, op_last_ledger = JUndef, op_engine = None, op_ledger = JUndef, op_confirmation = JUndef, op_evidence = JUndef\<rparr>"

lemma sample_open:
  "open_operation wallet_app sample_world sample_prepared sample_capture [] (sample_wallet\<lparr>w_busy := True\<rparr>) =
     Some (Inr [sample_created], sample_wallet\<lparr>w_busy := True\<rparr>)"
  by (simp add: open_operation_def io_defs awaiting_def handle_events_def io_modify_def context_still_def assert_wallet_context_def
      assert_wallet_testnet_def on_testnet_def assert_transaction_signer_def sample_account still_current_def create_operation_def
      operation_seed_of_def other_holder_def put_operation_def sample_wallet_def sample_capture_def sample_created_def sample_profile_def)

lemma sample_signature:
  "normalize_wallet_signature (sample_sdk sample_signed) (JObj Plain [(lit ''tx_blob'', jlit ''1200'')]) =
     Inr \<lparr>signer_hash = replicate 64 (ch CHR ''A''), signer_blob = lit ''1200''\<rparr>"
proof -
  have trim: "js_trim (lit ''1200'') = lit ''1200''" by code_simp
  have "upper_text (replicate n (ch CHR ''A'')) = replicate n (ch CHR ''A'')" for n
    by (induction n) (simp_all add: upper_text_def upper_cu_def ch_def class_unat)
  then show ?thesis
    by (simp add: normalize_wallet_signature_def signed_blob_of_def encode_signed_json_def normalize_asserted_hash_def prop_of_JObj
        trim Let_def)
qed

lemma sample_sign:
  "sign_with_wallet (sample_sdk sample_signed) sample_world sample_prepared sample_capture t (sample_wallet\<lparr>w_busy := True\<rparr>) =
     Some (Inr \<lparr>signer_hash = replicate 64 (ch CHR ''A''), signer_blob = lit ''1200''\<rparr>, sample_wallet\<lparr>w_busy := True\<rparr>)"
proof -
  obtain r where ready: "get_network_readiness (Some ready_answer) (profile_id sample_profile) = Inr r" using sample_ready by blast
  show ?thesis
    by (simp add: sign_with_wallet_def io_defs io_modify_def awaiting_def handle_events_def refresh_connected_wallet_def
        context_still_def assert_wallet_context_def assert_wallet_testnet_def on_testnet_def assert_transaction_signer_def sample_account
        still_current_def same_profile_eq sample_wallet_def sample_capture_def ready sample_signature)
qed

lemma find_known: "find_operation i ops \<noteq> None \<longleftrightarrow> i \<in> op_id ` set ops"
  by (force simp: find_operation_def find_None_iff)

lemma put_known: "i \<in> op_id ` set ops \<Longrightarrow> i \<in> op_id ` set (put_operation op ops)"
  by (cases "i = op_id op") (auto simp: put_operation_def list_ex_iff image_iff)

lemma store_keeps: "i \<in> op_id ` set ops \<Longrightarrow> i \<in> op_id ` set (store_effect lib at ev ops)"
  by (cases ev) (simp_all add: append_to_journal_def mutate_def persist_signed_def put_known split: sum.splits option.splits if_splits)

lemma sample_store_keeps: "find_operation (lit ''id'') (journal_at wallet_app sample_world [sample_created] t n) \<noteq> None"
proof -
  have "lit ''id'' \<in> op_id ` set (store_after wallet_app sample_world [sample_created] h)" for h
    by (induction h) (simp_all add: store_keeps, simp add: sample_created_def)
  then show ?thesis unfolding find_known by (simp add: journal_at_def)
qed

lemma sample_operation_env:
  "operation_env (sample_sdk sample_signed) wallet_app sample_world sample_prepared sample_capture (sample_wallet\<lparr>w_busy := True\<rparr>) [sample_created] =
     sample_env_with (\<lambda>t. persistable wallet_app (lit ''id'') (journal_at wallet_app sample_world [sample_created] t 0))"
proof -
  obtain r where ready: "get_network_readiness (Some ready_answer) (profile_id sample_profile) = Inr r" using sample_ready by blast
  have "before_submit sample_world sample_capture t = Inr ()" for t
    using ready by (simp add: before_submit_def still_current_def same_profile_eq business_generation_current_def sample_capture_def)
  then show ?thesis
    using sample_store_keeps sample_sign by (simp add: operation_env_def) (simp add: sample_env_def)
qed

lemma sample_persistable:
  assumes "entry_operation entry = lit ''id''" "entry_stage entry = Prepared"
  shows "persistable wallet_app (lit ''id'') (journal_at wallet_app sample_world [sample_created] [Appended entry, Asked_Signer sample_prepared] 0)"
  using assms
  by (simp add: journal_at_def append_to_journal_def mutate_def find_operation_def sample_created_def put_operation_def
      persistable_def persist_signed_def apply_journal_entry_def is_final_def other_holder_def)

theorem sent_blobs_were_previewed_witness:
  "\<exists>run s' kept pre blob post op. sign_and_submit (sample_sdk sample_signed) wallet_app sample_world (Some sample_preview) sample_prepared
       JUndef [] sample_wallet = Some (run, s', kept) \<and> wr_effects run = pre @ Sent blob # post \<and>
     find_operation (lit ''id'') (store_after wallet_app sample_world [sample_created] (rev pre)) = Some op \<and>
     op_stage op = Signed \<and> op_blob op = Some blob"
proof -
  obtain h where h: "sign_prepared_and_submit (sample_sdk sample_signed)
      (operation_env (sample_sdk sample_signed) wallet_app sample_world sample_prepared sample_capture (sample_wallet\<lparr>w_busy := True\<rparr>)
        [sample_created]) sample_prepared (wallet_options sample_world) [] = Some (Inr sample_result, h)" and sends: "sends h"
    unfolding sample_operation_env
    using run_sign [of "wallet_options sample_world"
        "\<lambda>t. persistable wallet_app (lit ''id'') (journal_at wallet_app sample_world [sample_created] t 0)"]
    by (auto simp: sample_persistable wallet_options_def sample_options_def)
  have "assert_validated_tes_success sample_result = Inl (Transaction_Failed None)"
    by (simp add: assert_validated_tes_success_def sample_result_def)
  then obtain run s' kept where run: "sign_and_submit (sample_sdk sample_signed) wallet_app sample_world (Some sample_preview) sample_prepared
      JUndef [] sample_wallet = Some (run, s', kept)" "wr_effects run = h"
    by (simp add: sign_and_submit_def sample_begin sample_open h finish_submission_def)
  obtain pre blob post where pre: "h = pre @ Sent blob # post" using sends by (auto simp: sends_def dest: split_list)
  have "tabs_keep sample_world" by (simp add: tabs_keep_def)
  from sent_blobs_were_previewed [OF run(1) pre [folded run(2)] this] obtain cap created op where
    cap: "cp_session cap = 1" "cp_profile cap = sample_profile" "jlit ''rSub'' = JStr (cp_address cap)" "cp_business cap = None"
    and created: "create_operation wallet_app (operation_seed_of sample_world cap sample_prepared) [] = Inr created"
    and op: "find_operation (lit ''id'') (store_after wallet_app sample_world created (rev pre)) = Some op" "op_stage op = Signed"
      "op_blob op = Some blob"
    by (auto simp: sample_preview_def sample_account normalized_business_def)
  have "cap = sample_capture" using cap by (cases cap) (simp add: sample_capture_def)
  then have "created = [sample_created]" using created open_operation_Inr [OF sample_open] by simp
  then show ?thesis using run pre op by blast
qed

end
