(* ===== verification/Spec2Isabelle.thy ===== *)
theory Spec2Isabelle
  imports Core_Guarantees Sdk_Guarantees Indexer_Guarantees Ingestion_Guarantees Indexer_Unstorable App_Guarantees
    Server_Guarantees Pinning_Guarantees Wallet_Guarantees
begin

text \<open>
  XCS issues credentials on the XRP Ledger under schemas that are registered on the ledger. This
  development models its protocol package, its SDK, its indexer, its web server, and the journal, credential reviews and wallet of its web application.

  \<^bold>\<open>The program and how its parts interact.\<close>

  \<^item> \<open>packages/core\<close> is the protocol: canonical JSON, schemas and their inheritance, claims, credential
    payloads and their URIs. It is pure and throws \<open>XcsError\<close>.
  \<^item> \<open>packages/sdk\<close> builds XRPL transactions for the protocol, checks what a wallet signed, journals
    and submits it, and follows it until the ledger has decided.
  \<^item> \<open>apps/indexer\<close> reads validated ledgers from two XRPL servers that have to agree, projects schema
    registrations and credential mutations out of each ledger with the core package, and writes them to
    PostgreSQL under a writer lease. \<open>db/schema\<close> declares its tables.
  \<^item> \<open>apps/web/server\<close> reads those tables, one snapshot per request, and answers only what the evidence of the indexer
    supports; it verifies credentials with the core package, limits rates, pins demo payloads and publishes metrics.
  \<^item> \<open>apps/web/app\<close> builds and submits transactions in the browser with the SDK; it shows a
    credential before its subject or issuer acts on it, binds what is signed to what was shown, keeps a journal of operations in
    IndexedDB and asks the web server until the indexer confirms them.

  \<^bold>\<open>Theories.\<close>

  \<^item> \<open>Prelude\<close>: results (\<open>'e + 'a\<close>, \<open>Inl\<close> an exception) and their bind, folds and traversals that stop at the first
    error, and the locales \<open>codec\<close>, \<open>strict_codec\<close> (encoders that are inverted by a partial decoder) and
    \<open>machine\<close> (initial states, a step relation and an inductive invariant). \<open>Effects\<close>: code with effects, a function of
    the history of the outside world; \<open>None\<close> is a call that never returns.
  \<^item> \<open>Js_Values\<close>, \<open>Text_Codec\<close>: JavaScript values (strings are lists of 16-bit code units, objects are association
    lists in property order, \<open>undefined\<close> is \<open>JUndef\<close>), UTF-16 and UTF-8.
  \<^item> \<open>Xcs_Errors\<close> (\<open>errors.ts\<close>), \<open>Json\<close> (\<open>json.ts\<close>), \<open>Lifecycle\<close>, \<open>Network_Profile\<close> (\<open>network.ts\<close>), \<open>Schema\<close>, \<open>Schema_Uid\<close>,
    \<open>Schema_Resolution\<close>, \<open>Claims\<close>, \<open>Payload_Uri\<close>, \<open>Credential\<close>: one theory for each file of \<open>packages/core/src\<close>.
    \<open>Canonical\<close> is the law of RFC 8785 text, \<open>Sample_Lib\<close> a concrete instance of the libraries.
  \<^item> \<open>Sdk_Encoding\<close> (\<open>errors.ts\<close>, \<open>encoding.ts\<close>, \<open>network.ts\<close>), \<open>Sdk_Builders\<close>, \<open>Sdk_Validation\<close> (\<open>transaction-validation.ts\<close>),
    \<open>Sdk_Submission\<close>: the files of \<open>packages/sdk/src\<close>.
  \<^item> \<open>Indexer_Ledger\<close> (\<open>types.ts\<close>, \<open>source-errors.ts\<close>, \<open>continuity.ts\<close>, \<open>replay-target.ts\<close>), \<open>Indexer_Projection\<close>
    (\<open>registration.ts\<close>, \<open>credential-mutations.ts\<close>, \<open>project-ledger.ts\<close>), \<open>Indexer_Source\<close> (\<open>profile-preflight.ts\<close>,
    \<open>xrpl-source.ts\<close>), \<open>Indexer_Quorum\<close> (\<open>quorum-ledger-source.ts\<close>), \<open>Indexer_Retry\<close> (\<open>lib/db/transactions.ts\<close>),
    \<open>Indexer_Worker\<close> (\<open>worker.ts\<close>, \<open>main.ts\<close>): how ledgers reach the tables.
  \<^item> \<open>Database_Schema\<close> (\<open>db/schema\<close>), \<open>Indexer_Fencing\<close> (\<open>lib/db/indexer-fencing.ts\<close>), \<open>Indexer_Repository\<close>
    (\<open>repository.ts\<close>): the tables and what is done to them. A table is a list of rows; locale \<open>table\<close> holds
    what checks and unique keys give for inserts, conflict-skipping inserts and updates, and is interpreted on all
    eight tables. A transaction is a function from the tables to a result; an error leaves the tables as they were.
  \<^item> \<open>Indexer_Machine\<close>, \<open>Indexer_Lifecycle\<close>, \<open>Indexer_Catalog\<close>, \<open>Indexer_Runs\<close>, \<open>Indexer_Unstorable\<close>: what the operations do in
    sequence, what the rows mean, and what a worker does to the tables with other processes interleaved.
  \<^item> \<open>Pilot\<close>, \<open>Pilot_Run\<close>, \<open>Pilot_Records\<close>: a small network on which one start of the worker is evaluated in full.
  \<^item> \<open>App_Business\<close> (what an operation is about and the locks it takes), \<open>App_Journal\<close> (\<open>operationJournal.ts\<close>),
    \<open>App_Confirmation\<close> (\<open>businessConfirmation.ts\<close>): the journal of the application and the confirmation of operations.
    \<open>App_Publication\<close> (\<open>payloadPublication.ts\<close>) reads a payload in the browser; \<open>App_Review\<close> (\<open>credentialReview.ts\<close>,
    \<open>credentialEvidence.ts\<close>) is what a user sees and consents to; \<open>App_Wallet_Checks\<close> (\<open>walletSubmission.ts\<close>,
    \<open>walletCompatibility.ts\<close>, \<open>signingReadiness.ts\<close>, \<open>publicRpcUrl.ts\<close>, \<open>transactions.ts\<close>) are the checks on wallets and what they
    return; \<open>App_Wallet\<close> (\<open>useWallet.ts\<close>) are sessions, signing, submission and recovery, and \<open>App_Wallet_Safety\<close> is about them.
  \<^item> \<open>Server_Schemas\<close> (\<open>schema-projection.ts\<close>, \<open>schema-catalog.ts\<close>), \<open>Server_Evidence\<close> (\<open>ledger-freshness.ts\<close>, \<open>indexer-status.ts\<close>,
    \<open>credential-state.ts\<close>, \<open>credential-generation-evidence.ts\<close>), \<open>Server_Repository\<close>, \<open>Server_Pagination\<close>, \<open>Server_Presenters\<close>,
    \<open>Server_Verification\<close>, \<open>Server_Handlers\<close>, \<open>Server_Limits\<close> (\<open>rate-limit.ts\<close>), \<open>Server_Metrics\<close> (\<open>operational-metrics.ts\<close> and its
    repository), \<open>Server_Pins\<close> (\<open>pinning-repository.ts\<close>), \<open>Server_Pinning\<close> (\<open>pinning.ts\<close>, \<open>pii-field-filter.ts\<close>), \<open>Server_Content\<close>
    (\<open>payload-resolver.ts\<close>, \<open>kubo.ts\<close>, \<open>body-limit.ts\<close>): the files of \<open>apps/web/server/xcs\<close>. \<open>Server_Timelines\<close> is about the
    histories the indexer writes and the server shows.
  \<^item> \<open>Pilot_Issue\<close>: the pilot network with a registered schema and a credential that was created and accepted.
  \<^item> \<open>Core_Guarantees\<close>, \<open>Sdk_Guarantees\<close>, \<open>Indexer_Guarantees\<close>, \<open>Ingestion_Guarantees\<close>, \<open>App_Guarantees\<close>, \<open>Server_Guarantees\<close>,
    \<open>Pinning_Guarantees\<close>, \<open>Wallet_Guarantees\<close>: the properties, each with an application to concrete inputs.

  \<^bold>\<open>Abstract specifications.\<close>

  \<^item> Inheritance of schemas is the inductive relation \<open>inherits\<close>; conformance of claims is \<open>conforms\<close>.
  \<^item> \<open>lease_step\<close> is the lease of a profile as holder, epoch and expiry; every repository call refines it, and
    \<open>machine\<close> interpreted on it gives that a fenced token stays fenced.
  \<^item> \<open>repository_step\<close> is the machine of all repository operations over the database, with the invariant
    \<open>repository_ok\<close> (constraints of all tables, contiguous checkpoints).
  \<^item> \<open>lifecycle_step\<close> is the lifecycle of a Credential object; the rows of generations implement it.
  \<^item> The catalog of schemas is a map from UIDs; the rows of \<open>schemas\<close> implement it.
  \<^item> \<open>worker_relation\<close> carries any relation that repository calls respect through \<open>runOnce\<close> and \<open>start\<close>; it is
    interpreted on reachability by \<open>repository_step\<close> and on the evidence of checkpoints.
  \<^item> The journal of the application is a machine whose invariant allows one operation in flight per lock.
  \<^item> The session of a wallet is a machine over the events the wallet raises, whose invariant is that the
    connected account is on Testnet; a session number has one account; what is signed and sent is related to the session its preview was made in.
  \<^item> The credentials of a profile are a map of ledger objects (\<open>objects_of\<close>, \<open>object_step\<close>), and a timeline is a run of the
    lifecycle (\<open>run_events\<close>); the tables and what the server shows of them implement both.
  \<^item> The rate limiter implements a counter per key (\<open>count_hits\<close>); the catalog query is the closure of \<open>related\<close>;
    \<open>pin_step\<close> is the machine of all statements on the pinning tables, with the invariant \<open>pins_ok\<close>.

  \<^bold>\<open>Bounds and termination.\<close> Schemas nest at most 16 deep with at most 256 descriptors; a lineage has at most 16
  members; a preflight makes at most 1004 requests (1000 pages of objects); a serializable transaction is
  tried at most as often as its options allow; a run persists at most its batch. These recursions are total functions
  over explicit counters taken from the code, no fuel is added. The polling loops, of a submitted transaction,
  of the worker and of a confirmation, are \<open>partial_function (option)\<close>: that they return is proved under a bound on what is polled. A payload
  fetch follows at most two redirects; following the pages of a list takes the number of pages as fuel, and as many as
  there are rows are enough.

  \<^bold>\<open>Parameters.\<close> Libraries that are not in the repository (hashing, \<open>canonicalize\<close>, \<open>jsonc-parser\<close>,
  \<open>JSON.parse\<close>, \<open>multiformats\<close>, the URL parser, the codecs and the checks of \<open>xrpl\<close>) are fields of \<open>core_lib\<close>, \<open>sdk_lib\<close>,
  \<open>server_lib\<close> and the records of tools of the server; what is relied on are named laws such as \<open>hex_laws\<close>. Nodes, wallets, journals, clocks, other database writers and random
  numbers are functions of the history.

  \<^bold>\<open>Not modelled.\<close> Messages and detail texts of errors; the vendored copies of core and SDK in the apps;
  command lines, environment parsing and the entry points' logging; provisioning and grants; fixture and ceremony tools; the CLI;
  the HTTP plumbing of the web server (h3, its request schemas, OpenAPI) and the pages of the application, its forms and the adapters of its wallets. They are input, output and glue
  around what is modelled.
\<close>

end
